(* ===== verification/Prelude.thy ===== *)
theory Prelude
  imports Main
begin

text \<open>
  Shared vocabulary of the Vaultsmith development: Go strings and byte slices, the
  functions of Go's packages strings, encoding/hex and unicode/utf8 that the backend
  calls, and the generic lemmas about them.

  A Go string and a Go byte slice are both sequences of bytes, and HOL's \<^typ>\<open>char\<close>
  is an 8-bit value, so both are modelled by \<^typ>\<open>string\<close>; the conversions
  between the two in the source are the identity. Indices and \<open>len\<close> count bytes, as in
  Go. A Go call that returns a value and an error is a sum, \<open>Inl\<close> the error.
\<close>

named_theorems go_strings \<open>characteristic facts of the modelled Go library functions\<close>

type_synonym go_bytes = string

abbreviation LF :: char where "LF \<equiv> CHR 0x0A"
abbreviation CR :: char where "CR \<equiv> CHR 0x0D"

subsection \<open>Results\<close>

fun is_ok :: "'e + 'a \<Rightarrow> bool" where
  "is_ok (Inl _) = False"
| "is_ok (Inr _) = True"

lemma is_ok_conv: "is_ok r \<longleftrightarrow> (\<exists>v. r = Inr v)"
  by (cases r) auto

subsection \<open>Package strings\<close>

definition strings_HasPrefix :: "string \<Rightarrow> string \<Rightarrow> bool" where
  "strings_HasPrefix s prefix \<longleftrightarrow> length prefix \<le> length s \<and> take (length prefix) s = prefix"

definition strings_HasSuffix :: "string \<Rightarrow> string \<Rightarrow> bool" where
  "strings_HasSuffix s suffix \<longleftrightarrow>
     length suffix \<le> length s \<and> drop (length s - length suffix) s = suffix"

definition strings_TrimPrefix :: "string \<Rightarrow> string \<Rightarrow> string" where
  "strings_TrimPrefix s prefix =
     (if strings_HasPrefix s prefix then drop (length prefix) s else s)"

definition strings_TrimSuffix :: "string \<Rightarrow> string \<Rightarrow> string" where
  "strings_TrimSuffix s suffix =
     (if strings_HasSuffix s suffix then take (length s - length suffix) s else s)"

text \<open>\<open>strings.Cut\<close> with a one-byte separator: the text before and after its first
  occurrence, and whether it occurs.\<close>

fun strings_Cut :: "string \<Rightarrow> char \<Rightarrow> string \<times> string \<times> bool" where
  "strings_Cut [] c = ([], [], False)"
| "strings_Cut (x # xs) c =
     (if x = c then ([], xs, True)
      else (case strings_Cut xs c of (before, after, found) \<Rightarrow> (x # before, after, found)))"

text \<open>\<open>strings.Split\<close> and \<open>strings.SplitN\<close> with a one-byte separator; \<open>SplitN\<close> keeps the
  remaining separators in the last of at most \<open>n\<close> fields (\<open>n > 0\<close> in every call).\<close>

fun strings_Split :: "string \<Rightarrow> char \<Rightarrow> string list" where
  "strings_Split [] c = [[]]"
| "strings_Split (x # xs) c =
     (if x = c then [] # strings_Split xs c
      else (case strings_Split xs c of [] \<Rightarrow> [[x]] | f # fs \<Rightarrow> (x # f) # fs))"

fun strings_SplitN :: "string \<Rightarrow> char \<Rightarrow> nat \<Rightarrow> string list" where
  "strings_SplitN s c 0 = []"
| "strings_SplitN s c (Suc 0) = [s]"
| "strings_SplitN s c (Suc (Suc n)) =
     (case strings_Cut s c of (before, after, found) \<Rightarrow>
        if found then before # strings_SplitN after c (Suc n) else [s])"

text \<open>\<open>strings.ReplaceAll(s, "\r\n", "\n")\<close>, the only replacement the backend performs.\<close>

fun replace_crlf :: "string \<Rightarrow> string" where
  "replace_crlf [] = []"
| "replace_crlf [x] = [x]"
| "replace_crlf (x # y # s) =
     (if x = CR \<and> y = LF then LF # replace_crlf s else x # replace_crlf (y # s))"

fun strings_Join :: "string list \<Rightarrow> string \<Rightarrow> string" where
  "strings_Join [] sep = []"
| "strings_Join [x] sep = x"
| "strings_Join (x # y # xs) sep = x @ sep @ strings_Join (y # xs) sep"

definition strings_ContainsRune :: "string \<Rightarrow> char \<Rightarrow> bool" where
  "strings_ContainsRune s c \<longleftrightarrow> c \<in> set s"

definition strings_ContainsAny :: "string \<Rightarrow> char list \<Rightarrow> bool" where
  "strings_ContainsAny s cs \<longleftrightarrow> list_ex (\<lambda>c. c \<in> set cs) s"

definition ascii_lower :: "char \<Rightarrow> char" where
  "ascii_lower c =
     (let n = (of_char c :: nat) in if 65 \<le> n \<and> n \<le> 90 then char_of (n + 32) else c)"

text \<open>\<open>strings.ToLower\<close> on ASCII text (its only use is on hexadecimal digits).\<close>

definition strings_ToLower_ascii :: "string \<Rightarrow> string" where
  "strings_ToLower_ascii s = map ascii_lower s"

text \<open>The UTF-8 encodings of the code points with the Unicode property White\_Space, which
  \<open>strings.TrimSpace\<close> removes at both ends. No encoding is a proper prefix or suffix of
  another, so trimming encodings is trimming runes.\<close>

definition space_runes :: "string list" where
  "space_runes =
     [[CHR 0x09], [CHR 0x0A], [CHR 0x0B], [CHR 0x0C], [CHR 0x0D], [CHR 0x20],
      [CHR 0xC2, CHR 0x85], [CHR 0xC2, CHR 0xA0], [CHR 0xE1, CHR 0x9A, CHR 0x80],
      [CHR 0xE2, CHR 0x80, CHR 0x80], [CHR 0xE2, CHR 0x80, CHR 0x81],
      [CHR 0xE2, CHR 0x80, CHR 0x82], [CHR 0xE2, CHR 0x80, CHR 0x83],
      [CHR 0xE2, CHR 0x80, CHR 0x84], [CHR 0xE2, CHR 0x80, CHR 0x85],
      [CHR 0xE2, CHR 0x80, CHR 0x86], [CHR 0xE2, CHR 0x80, CHR 0x87],
      [CHR 0xE2, CHR 0x80, CHR 0x88], [CHR 0xE2, CHR 0x80, CHR 0x89],
      [CHR 0xE2, CHR 0x80, CHR 0x8A], [CHR 0xE2, CHR 0x80, CHR 0xA8],
      [CHR 0xE2, CHR 0x80, CHR 0xA9], [CHR 0xE2, CHR 0x80, CHR 0xAF],
      [CHR 0xE2, CHR 0x81, CHR 0x9F], [CHR 0xE3, CHR 0x80, CHR 0x80]]"

lemma space_runes_nonempty: "r \<in> set space_runes \<Longrightarrow> r \<noteq> []"
  by (auto simp: space_runes_def)

text \<open>Removing any of the words \<open>rs\<close> from the front for as long as one matches.\<close>

function trim_words :: "string list \<Rightarrow> string \<Rightarrow> string" where
  "trim_words rs s =
     (case find (\<lambda>r. r \<noteq> [] \<and> strings_HasPrefix s r) rs of
        None \<Rightarrow> s
      | Some r \<Rightarrow> trim_words rs (drop (length r) s))"
  by pat_completeness auto
termination
proof (relation "measure (\<lambda>(rs, s). length s)")
  fix rs s x
  assume "find (\<lambda>r. r \<noteq> [] \<and> strings_HasPrefix s r) rs = Some x"
  then have "x \<noteq> []" "length x \<le> length s"
    by (auto simp: find_Some_iff strings_HasPrefix_def)
  moreover then have "s \<noteq> []" by auto
  ultimately show "((rs, drop (length x) s), rs, s) \<in> measure (\<lambda>(rs, s). length s)"
    by simp
qed simp

declare trim_words.simps [simp del]

definition strings_TrimSpace :: "string \<Rightarrow> string" where
  "strings_TrimSpace s =
     rev (trim_words (map rev space_runes) (rev (trim_words space_runes s)))"

subsection \<open>Package unicode/utf8\<close>

definition utf8_cont :: "char \<Rightarrow> bool" where
  "utf8_cont c \<longleftrightarrow> 0x80 \<le> (of_char c :: nat) \<and> (of_char c :: nat) \<le> 0xBF"

definition utf8_second :: "nat \<Rightarrow> char \<Rightarrow> bool" where
  "utf8_second lead c =
     (let n = (of_char c :: nat) in
      if lead = 0xE0 then 0xA0 \<le> n \<and> n \<le> 0xBF
      else if lead = 0xED then 0x80 \<le> n \<and> n \<le> 0x9F
      else if lead = 0xF0 then 0x90 \<le> n \<and> n \<le> 0xBF
      else if lead = 0xF4 then 0x80 \<le> n \<and> n \<le> 0x8F
      else 0x80 \<le> n \<and> n \<le> 0xBF)"

text \<open>\<open>utf8.ValidString\<close>: no truncated or overlong sequence, no surrogate, nothing above
  U+10FFFF.\<close>

fun utf8_valid :: "string \<Rightarrow> bool" where
  "utf8_valid [] = True"
| "utf8_valid (a # s) =
     (let n = (of_char a :: nat) in
      if n < 0x80 then utf8_valid s
      else if n < 0xC2 \<or> 0xF4 < n then False
      else (case s of [] \<Rightarrow> False
            | b # s1 \<Rightarrow>
                utf8_second n b \<and>
                (if n < 0xE0 then utf8_valid s1
                 else (case s1 of [] \<Rightarrow> False
                       | c # s2 \<Rightarrow>
                           utf8_cont c \<and>
                           (if n < 0xF0 then utf8_valid s2
                            else (case s2 of [] \<Rightarrow> False
                                  | d # s3 \<Rightarrow> utf8_cont d \<and> utf8_valid s3))))))"

definition is_ascii :: "string \<Rightarrow> bool" where
  "is_ascii s \<longleftrightarrow> list_all (\<lambda>c. (of_char c :: nat) < 0x80) s"

subsection \<open>Package encoding/hex\<close>

definition hex_digit :: "nat \<Rightarrow> char" where
  "hex_digit n = (if n < 10 then char_of (48 + n) else char_of (87 + n))"

definition from_hex_char :: "char \<Rightarrow> nat option" where
  "from_hex_char c =
     (let n = (of_char c :: nat) in
      if 48 \<le> n \<and> n \<le> 57 then Some (n - 48)
      else if 97 \<le> n \<and> n \<le> 102 then Some (n - 87)
      else if 65 \<le> n \<and> n \<le> 70 then Some (n - 55)
      else None)"

fun hex_EncodeToString :: "go_bytes \<Rightarrow> string" where
  "hex_EncodeToString [] = []"
| "hex_EncodeToString (b # bs) =
     hex_digit ((of_char b :: nat) div 16) # hex_digit ((of_char b :: nat) mod 16)
       # hex_EncodeToString bs"

text \<open>\<open>hex.DecodeString\<close>; \<open>None\<close> for its two errors, an invalid digit and an odd length.\<close>

fun hex_DecodeString :: "string \<Rightarrow> go_bytes option" where
  "hex_DecodeString [] = Some []"
| "hex_DecodeString [x] = None"
| "hex_DecodeString (x # y # s) =
     (case (from_hex_char x, from_hex_char y, hex_DecodeString s) of
        (Some h, Some l, Some bs) \<Rightarrow> Some (char_of (16 * h + l) # bs)
      | _ \<Rightarrow> None)"

section \<open>Lemmas\<close>

subsection \<open>Prefixes and suffixes\<close>

lemma HasPrefix_iff [go_strings]: "strings_HasPrefix s p \<longleftrightarrow> (\<exists>t. s = p @ t)"
  by (auto simp: strings_HasPrefix_def) (metis append_take_drop_id)

lemma HasSuffix_iff [go_strings]: "strings_HasSuffix s p \<longleftrightarrow> (\<exists>t. s = t @ p)"
  by (auto simp: strings_HasSuffix_def) (metis append_take_drop_id)

lemma TrimSuffix_append [simp]: "strings_TrimSuffix (s @ t) t = s"
  by (simp add: strings_TrimSuffix_def strings_HasSuffix_def)

lemma TrimPrefix_append [simp]: "strings_TrimPrefix (s @ t) s = t"
  by (simp add: strings_TrimPrefix_def strings_HasPrefix_def)

lemma TrimSuffix_absent: "\<not> strings_HasSuffix s t \<Longrightarrow> strings_TrimSuffix s t = s"
  by (simp add: strings_TrimSuffix_def)

subsection \<open>Cutting and splitting\<close>

lemma Cut_takeWhile:
  "strings_Cut s c = (takeWhile (\<lambda>x. x \<noteq> c) s, tl (dropWhile (\<lambda>x. x \<noteq> c) s), c \<in> set s)"
  by (induction s) auto

lemma Cut_found_iff:
  "strings_Cut s c = (before, after, True) \<longleftrightarrow> s = before @ c # after \<and> c \<notin> set before"
proof
  assume "strings_Cut s c = (before, after, True)"
  then have c: "c \<in> set s" and "before = takeWhile (\<lambda>x. x \<noteq> c) s"
    and "after = tl (dropWhile (\<lambda>x. x \<noteq> c) s)"
    by (auto simp: Cut_takeWhile)
  moreover from c obtain u v where "s = u @ c # v" "c \<notin> set u" by (meson split_list_first)
  ultimately show "s = before @ c # after \<and> c \<notin> set before"
    by (auto simp: takeWhile_append dropWhile_append)
next
  assume "s = before @ c # after \<and> c \<notin> set before"
  then show "strings_Cut s c = (before, after, True)"
    by (auto simp: Cut_takeWhile takeWhile_append dropWhile_append)
qed

lemma Cut_absent_iff:
  "strings_Cut s c = (before, after, False) \<longleftrightarrow> c \<notin> set s \<and> before = s \<and> after = []"
proof (cases "c \<in> set s")
  case False
  then have "\<forall>x\<in>set s. x \<noteq> c" by blast
  then have "takeWhile (\<lambda>x. x \<noteq> c) s = s" "dropWhile (\<lambda>x. x \<noteq> c) s = []"
    by (simp_all only: takeWhile_eq_all_conv dropWhile_eq_Nil_conv)
  then have "strings_Cut s c = (s, [], False)" using False by (simp only: Cut_takeWhile list.sel simp_thms)
  with False show ?thesis by auto
qed (simp add: Cut_takeWhile)

lemma Cut_append [simp]: "c \<notin> set s \<Longrightarrow> strings_Cut (s @ c # t) c = (s, t, True)"
  by (simp add: Cut_found_iff)

lemma Cut_absent [simp]: "c \<notin> set s \<Longrightarrow> strings_Cut s c = (s, [], False)"
  by (simp add: Cut_absent_iff)

lemma Split_nonempty [simp]: "strings_Split s c \<noteq> []"
  by (induction s) (auto split: list.splits)

lemma Split_absent [simp]: "c \<notin> set s \<Longrightarrow> strings_Split s c = [s]"
  by (induction s) (auto split: list.splits)

lemma Split_append [simp]:
  "c \<notin> set s \<Longrightarrow> strings_Split (s @ c # t) c = s # strings_Split t c"
  by (induction s) auto

lemma Split_fields: "f \<in> set (strings_Split s c) \<Longrightarrow> c \<notin> set f"
proof (induction s arbitrary: f)
  case Nil
  then show ?case by simp
next
  case (Cons x xs)
  then show ?case by (auto split: if_splits list.splits)
qed

lemma Split_chars: "f \<in> set (strings_Split s c) \<Longrightarrow> set f \<subseteq> set s"
proof (induction s arbitrary: f)
  case Nil
  then show ?case by simp
next
  case (Cons x xs)
  then show ?case by (fastforce split: if_splits list.splits)
qed

lemma SplitN_absent [simp]: "c \<notin> set s \<Longrightarrow> strings_SplitN s c (Suc n) = [s]"
  by (cases n) simp_all

lemma SplitN_append [simp]:
  "c \<notin> set s \<Longrightarrow> strings_SplitN (s @ c # t) c (Suc (Suc n)) = s # strings_SplitN t c (Suc n)"
  by simp

lemma replace_crlf_id [simp]: "CR \<notin> set s \<Longrightarrow> replace_crlf s = s"
  by (induction s rule: replace_crlf.induct) auto

subsection \<open>ASCII and UTF-8\<close>

lemma is_ascii_simps [simp]:
  "is_ascii []"
  "is_ascii (c # s) \<longleftrightarrow> (of_char c :: nat) < 0x80 \<and> is_ascii s"
  "is_ascii (s @ t) \<longleftrightarrow> is_ascii s \<and> is_ascii t"
  by (auto simp: is_ascii_def)

lemma utf8_valid_ascii_append: "is_ascii s \<Longrightarrow> utf8_valid (s @ t) = utf8_valid t"
  by (induction s) (auto simp: Let_def)

lemma utf8_valid_ascii: "is_ascii s \<Longrightarrow> utf8_valid s"
  using utf8_valid_ascii_append [of s "[]"] by simp

subsection \<open>Hexadecimal\<close>

lemma of_char_bound: "(of_char c :: nat) < 256"
  by simp

lemma of_char_div16: "(of_char c :: nat) div 16 < 16"
  using of_char_bound [of c] by (simp only: less_mult_imp_div_less)

lemma of_hex_digit:
  "n < 16 \<Longrightarrow> (of_char (hex_digit n) :: nat) = (if n < 10 then 48 + n else 87 + n)"
  by (auto simp: hex_digit_def)

lemma from_hex_digit [simp]: "n < 16 \<Longrightarrow> from_hex_char (hex_digit n) = Some n"
  by (auto simp: from_hex_char_def of_hex_digit Let_def)

lemma hex_roundtrip [simp]: "hex_DecodeString (hex_EncodeToString bs) = Some bs"
proof (induction bs)
  case Nil
  then show ?case by simp
next
  case (Cons b bs)
  have "(of_char b :: nat) div 16 < 16" by (rule of_char_div16)
  then show ?case using Cons by simp
qed

lemma length_hex_Encode [simp]: "length (hex_EncodeToString bs) = 2 * length bs"
  by (induction bs) auto

lemma hex_Encode_append [simp]:
  "hex_EncodeToString (a @ b) = hex_EncodeToString a @ hex_EncodeToString b"
  by (induction a) auto

lemma length_hex_Decode: "hex_DecodeString s = Some bs \<Longrightarrow> length s = 2 * length bs"
  by (induction s arbitrary: bs rule: hex_DecodeString.induct) (auto split: option.splits)

definition is_lower_hex :: "char \<Rightarrow> bool" where
  "is_lower_hex c = (let n = (of_char c :: nat) in 48 \<le> n \<and> n \<le> 57 \<or> 97 \<le> n \<and> n \<le> 102)"

lemma is_lower_hex_digit: "n < 16 \<Longrightarrow> is_lower_hex (hex_digit n)"
  by (auto simp: is_lower_hex_def of_hex_digit Let_def)

lemma hex_Encode_lower: "list_all is_lower_hex (hex_EncodeToString bs)"
proof (induction bs)
  case Nil
  then show ?case by simp
next
  case (Cons b bs)
  have "(of_char b :: nat) div 16 < 16" by (rule of_char_div16)
  then show ?case using Cons by (simp add: is_lower_hex_digit)
qed

lemma is_lower_hex_ascii_lower [simp]: "is_lower_hex c \<Longrightarrow> ascii_lower c = c"
  by (auto simp: is_lower_hex_def ascii_lower_def Let_def)

lemma ToLower_lower_hex: "list_all is_lower_hex s \<Longrightarrow> strings_ToLower_ascii s = s"
  by (induction s) (auto simp: strings_ToLower_ascii_def)

lemma from_hex_ascii_lower [simp]: "from_hex_char (ascii_lower c) = from_hex_char c"
  by (auto simp: from_hex_char_def ascii_lower_def Let_def)

lemma hex_Decode_ToLower [simp]:
  "hex_DecodeString (strings_ToLower_ascii s) = hex_DecodeString s"
  by (induction s rule: hex_DecodeString.induct) (auto simp: strings_ToLower_ascii_def)

subsection \<open>Trimming\<close>

lemma trim_words_suffix: "\<exists>p. s = p @ trim_words rs s"
proof (induction rs s rule: trim_words.induct)
  case (1 rs s)
  show ?case
  proof (cases "find (\<lambda>r. r \<noteq> [] \<and> strings_HasPrefix s r) rs")
    case None
    then show ?thesis by (subst trim_words.simps) simp
  next
    case (Some r)
    then have "s = r @ drop (length r) s" by (auto simp: find_Some_iff HasPrefix_iff)
    moreover obtain p where "drop (length r) s = p @ trim_words rs (drop (length r) s)" using 1 [OF Some] by blast
    moreover have "trim_words rs s = trim_words rs (drop (length r) s)"
      using Some by (subst trim_words.simps) simp
    ultimately show ?thesis by (metis append.assoc)
  qed
qed

lemma trim_words_done: "r \<in> set rs \<Longrightarrow> r \<noteq> [] \<Longrightarrow> \<not> strings_HasPrefix (trim_words rs s) r"
proof (induction rs s rule: trim_words.induct)
  case (1 rs s)
  show ?case
  proof (cases "find (\<lambda>r. r \<noteq> [] \<and> strings_HasPrefix s r) rs")
    case None
    then have "trim_words rs s = s" by (subst trim_words.simps) simp
    moreover have "\<not> strings_HasPrefix s r" using None 1(2,3) by (auto simp: find_None_iff)
    ultimately show ?thesis by simp
  next
    case (Some x)
    then have "trim_words rs s = trim_words rs (drop (length x) s)" by (subst trim_words.simps) simp
    then show ?thesis using 1(1) [OF Some 1(2,3)] by simp
  qed
qed

lemma trim_words_fixed: "(\<forall>r\<in>set rs. r \<noteq> [] \<longrightarrow> \<not> strings_HasPrefix s r) \<Longrightarrow> trim_words rs s = s"
  by (subst trim_words.simps) (auto simp: find_None_iff split: option.split dest: find_Some_iff [THEN iffD1])

lemma TrimSpace_idem [simp]: "strings_TrimSpace (strings_TrimSpace s) = strings_TrimSpace s"
proof -
  define a where "a = trim_words space_runes s"
  define b where "b = rev (trim_words (map rev space_runes) (rev a))"
  obtain p where "rev a = p @ rev b" using trim_words_suffix [of "rev a" "map rev space_runes"] by (auto simp: b_def)
  then have ab: "a = b @ rev p" by (metis rev_append rev_rev_ident)
  have "\<not> strings_HasPrefix b r" if "r \<in> set space_runes" "r \<noteq> []" for r
    using trim_words_done [OF that, of s] ab unfolding a_def [symmetric] by (auto simp: HasPrefix_iff)
  then have "trim_words space_runes b = b" by (intro trim_words_fixed) auto
  moreover have "trim_words (map rev space_runes) (rev b) = rev b"
    unfolding b_def rev_rev_ident by (intro trim_words_fixed ballI impI trim_words_done)
  ultimately have "strings_TrimSpace b = b" by (simp add: strings_TrimSpace_def)
  then show ?thesis by (simp add: strings_TrimSpace_def a_def b_def)
qed

end
