(* ===== verification/Ansible_Vault.thy ===== *)
theory Ansible_Vault
  imports Prelude
begin

text \<open>
  The Ansible Vault codec, \<open>backend/internal/ansiblevault/vault.go\<close>: envelope serialisation
  and parsing, PKCS\#7 padding, encryption, decryption and canonicalisation.

  The primitives the file calls but does not contain are the fields of \<open>crypto\<close>: PBKDF2
  (golang.org/x/crypto), the AES block function and HMAC-SHA-256. Counter mode itself is
  modelled. \<open>crypto_ok\<close> states their documented output sizes. The random source is an
  argument that returns the requested number of bytes or fails.
\<close>

subsection \<open>Primitives\<close>

record crypto =
  pbkdf2_Key :: "go_bytes \<Rightarrow> go_bytes \<Rightarrow> nat \<Rightarrow> nat \<Rightarrow> go_bytes"
  aes_block :: "go_bytes \<Rightarrow> go_bytes \<Rightarrow> go_bytes"
  hmac_sha256 :: "go_bytes \<Rightarrow> go_bytes \<Rightarrow> go_bytes"

definition crypto_ok :: "crypto \<Rightarrow> bool" where
  "crypto_ok c \<longleftrightarrow>
     (\<forall>password salt iter n. length (pbkdf2_Key c password salt iter n) = n) \<and>
     (\<forall>key block. length (aes_block c key block) = 16) \<and>
     (\<forall>key msg. length (hmac_sha256 c key msg) = 32)"

type_synonym rand_reader = "nat \<Rightarrow> go_bytes option"

text \<open>\<open>io.ReadFull\<close> fills the whole buffer or reports an error.\<close>

definition rand_ok :: "rand_reader \<Rightarrow> bool" where
  "rand_ok random \<longleftrightarrow> (\<forall>n bs. random n = Some bs \<longrightarrow> length bs = n)"

fun byte_xor :: "char \<Rightarrow> char \<Rightarrow> char" where
  "byte_xor (Char a0 a1 a2 a3 a4 a5 a6 a7) (Char b0 b1 b2 b3 b4 b5 b6 b7) =
     Char (a0 \<noteq> b0) (a1 \<noteq> b1) (a2 \<noteq> b2) (a3 \<noteq> b3) (a4 \<noteq> b4) (a5 \<noteq> b5) (a6 \<noteq> b6) (a7 \<noteq> b7)"

text \<open>The big-endian increment of the counter block, wrapping around at the top.\<close>

fun ctr_inc_rev :: "go_bytes \<Rightarrow> go_bytes" where
  "ctr_inc_rev [] = []"
| "ctr_inc_rev (b # bs) =
     (if (of_char b :: nat) = 255 then char_of (0 :: nat) # ctr_inc_rev bs
      else char_of ((of_char b :: nat) + 1) # bs)"

definition ctr_inc :: "go_bytes \<Rightarrow> go_bytes" where
  "ctr_inc block = rev (ctr_inc_rev (rev block))"

fun ctr_keystream :: "(go_bytes \<Rightarrow> go_bytes) \<Rightarrow> go_bytes \<Rightarrow> nat \<Rightarrow> go_bytes" where
  "ctr_keystream E counter 0 = []"
| "ctr_keystream E counter (Suc n) = E counter @ ctr_keystream E (ctr_inc counter) n"

definition XORKeyStream :: "(go_bytes \<Rightarrow> go_bytes) \<Rightarrow> go_bytes \<Rightarrow> go_bytes \<Rightarrow> go_bytes" where
  "XORKeyStream E iv src = map2 byte_xor src (ctr_keystream E iv (length src div 16 + 1))"

subsection \<open>Constants and errors\<close>

definition Header11 :: string where "Header11 = ''$ANSIBLE_VAULT;1.1;AES256''"
definition Header12Prefix :: string where "Header12Prefix = ''$ANSIBLE_VAULT;1.2;AES256''"
definition pbkdf2Iterations :: nat where "pbkdf2Iterations = 10000"
definition saltSize :: nat where "saltSize = 32"
definition derivedKeySize :: nat where "derivedKeySize = 80"
definition keySize :: nat where "keySize = 32"
definition macSize :: nat where "macSize = 32"
definition ivSize :: nat where "ivSize = 16"
definition lineWidth :: nat where "lineWidth = 80"
definition aes_BlockSize :: nat where "aes_BlockSize = 16"
definition MaxPlaintextBytes :: nat where "MaxPlaintextBytes = 1048576"
definition MaxVaultTextBytes :: nat where "MaxVaultTextBytes = 5242880"

lemmas vault_sizes [simp] = saltSize_def derivedKeySize_def keySize_def macSize_def
  ivSize_def lineWidth_def aes_BlockSize_def

datatype vault_error =
  ErrInvalidPassword | ErrInvalidVault | ErrInvalidVaultID | ErrRandom | ErrCipherKey

subsection \<open>Padding and hexadecimal digits\<close>

definition pkcs7Pad :: "go_bytes \<Rightarrow> nat \<Rightarrow> go_bytes" where
  "pkcs7Pad value blockSize =
     (let padding = blockSize - length value mod blockSize
      in value @ replicate padding (char_of padding))"

definition pkcs7Unpad :: "go_bytes \<Rightarrow> nat \<Rightarrow> go_bytes option" where
  "pkcs7Unpad value blockSize =
     (if value = [] \<or> length value mod blockSize \<noteq> 0 then None
      else let padding = (of_char (last value) :: nat) in
        if padding = 0 \<or> blockSize < padding \<or> length value < padding then None
        else if \<not> list_all (\<lambda>current. (of_char current :: nat) = padding)
                    (drop (length value - padding) value) then None
        else Some (take (length value - padding) value))"

text \<open>\<open>isHex\<close> ranges over runes; a byte of a multi-byte or invalid sequence never decodes to an
  ASCII rune, so testing each byte is the same.\<close>

definition isHex_char :: "char \<Rightarrow> bool" where
  "isHex_char c =
     (let n = (of_char c :: nat) in
      48 \<le> n \<and> n \<le> 57 \<or> 97 \<le> n \<and> n \<le> 102 \<or> 65 \<le> n \<and> n \<le> 70)"

definition isHex :: "string \<Rightarrow> bool" where
  "isHex value = list_all isHex_char value"

subsection \<open>Headers\<close>

definition ValidateVaultID :: "string \<Rightarrow> vault_error option" where
  "ValidateVaultID vaultID =
     (if vaultID = [] \<or> strings_TrimSpace vaultID \<noteq> vaultID
          \<or> strings_ContainsAny vaultID [CHR '';'', CR, LF]
      then Some ErrInvalidVaultID else None)"

definition isSupportedHeader :: "string \<Rightarrow> bool" where
  "isSupportedHeader header =
     (if header = Header11 then True
      else let parts = strings_SplitN header (CHR '';'') 4 in
        if length parts \<noteq> 3 \<and> length parts \<noteq> 4 then False
        else if parts ! 0 \<noteq> ''$ANSIBLE_VAULT'' \<or> parts ! 1 \<noteq> ''1.2'' \<or> parts ! 2 \<noteq> ''AES256''
        then False
        else length parts = 3 \<or> ValidateVaultID (parts ! 3) = None)"

subsection \<open>Envelopes\<close>

function wrap_body :: "string \<Rightarrow> string" where
  "wrap_body body =
     (if lineWidth < length body
      then take lineWidth body @ LF # wrap_body (drop lineWidth body)
      else body @ [LF])"
  by pat_completeness auto
termination by (relation "measure length") auto

declare wrap_body.simps [simp del]

definition serializeVaultEnvelope :: "string \<Rightarrow> string \<Rightarrow> string" where
  "serializeVaultEnvelope header body = header @ LF # wrap_body body"

record parsedEnvelope =
  header :: string
  body :: string
  salt :: go_bytes
  expectedMAC :: go_bytes
  ciphertext :: go_bytes

text \<open>The loop over the body's lines: each is non-empty, at most 80 bytes and hexadecimal.\<close>

fun collect_body :: "string list \<Rightarrow> string option" where
  "collect_body [] = Some []"
| "collect_body (line # lines) =
     (if line = [] \<or> lineWidth < length line \<or> \<not> isHex line then None
      else (case collect_body lines of None \<Rightarrow> None | Some rest \<Rightarrow> Some (line @ rest)))"

definition decode_sized :: "string \<Rightarrow> (nat \<Rightarrow> bool) \<Rightarrow> go_bytes option" where
  "decode_sized digits size_ok =
     (case hex_DecodeString digits of
        None \<Rightarrow> None
      | Some bytes \<Rightarrow> if size_ok (length bytes) then Some bytes else None)"

text \<open>The second half of \<open>parseEnvelope\<close>: the decoded payload is three hexadecimal fields
  separated by line feeds.\<close>

definition parse_payload :: "string \<Rightarrow> string \<Rightarrow> go_bytes \<Rightarrow> parsedEnvelope option" where
  "parse_payload hdr bdy payload =
     (case strings_Cut payload LF of (saltHex, rest, firstSeparator) \<Rightarrow>
      case strings_Cut rest LF of (macHex, ciphertextHex, secondSeparator) \<Rightarrow>
      if \<not> firstSeparator \<or> \<not> secondSeparator \<or> saltHex = [] \<or> macHex = [] \<or> ciphertextHex = []
         \<or> strings_ContainsRune ciphertextHex LF
      then None
      else (case decode_sized saltHex (\<lambda>n. n = saltSize) of
        None \<Rightarrow> None
      | Some s \<Rightarrow> (case decode_sized macHex (\<lambda>n. n = macSize) of
          None \<Rightarrow> None
        | Some m \<Rightarrow>
            (case decode_sized ciphertextHex (\<lambda>n. n \<noteq> 0 \<and> n mod aes_BlockSize = 0) of
              None \<Rightarrow> None
            | Some ct \<Rightarrow>
                Some \<lparr>header = hdr, body = bdy, salt = s, expectedMAC = m, ciphertext = ct\<rparr>))))"

definition parseEnvelope :: "string \<Rightarrow> vault_error + parsedEnvelope" where
  "parseEnvelope vaultText =
     (if vaultText = [] then Inl ErrInvalidVault
      else let text = replace_crlf vaultText in
        if strings_ContainsRune text CR then Inl ErrInvalidVault
        else let text = strings_TrimSuffix text [LF] in
        (case strings_Cut text LF of (hdr, bodyText, found) \<Rightarrow>
          if \<not> found \<or> \<not> isSupportedHeader hdr then Inl ErrInvalidVault
          else (case collect_body (strings_Split bodyText LF) of
            None \<Rightarrow> Inl ErrInvalidVault
          | Some bdy \<Rightarrow> (case hex_DecodeString bdy of
              None \<Rightarrow> Inl ErrInvalidVault
            | Some payload \<Rightarrow> (case parse_payload hdr bdy payload of
                None \<Rightarrow> Inl ErrInvalidVault
              | Some envelope \<Rightarrow> Inr envelope)))))"

definition CanonicalEnvelope :: "string \<Rightarrow> vault_error + go_bytes" where
  "CanonicalEnvelope text =
     (if MaxVaultTextBytes < length text \<or> \<not> utf8_valid text then Inl ErrInvalidVault
      else (case parseEnvelope text of
              Inl err \<Rightarrow> Inl err
            | Inr envelope \<Rightarrow>
                Inr (serializeVaultEnvelope (header envelope)
                       (strings_ToLower_ascii (body envelope)))))"

subsection \<open>Encryption and decryption\<close>

definition derive :: "crypto \<Rightarrow> go_bytes \<Rightarrow> go_bytes \<Rightarrow> go_bytes" where
  "derive c password slt = pbkdf2_Key c password slt pbkdf2Iterations derivedKeySize"

text \<open>\<open>aes.NewCipher\<close> accepts keys of 16, 24 and 32 bytes only; the result is the stream as a
  function from source to destination.\<close>

definition newCTR :: "crypto \<Rightarrow> go_bytes \<Rightarrow> go_bytes \<Rightarrow> vault_error + (go_bytes \<Rightarrow> go_bytes)" where
  "newCTR c key iv =
     (if length key \<notin> {16, 24, 32} then Inl ErrCipherKey
      else Inr (XORKeyStream (aes_block c key) iv))"

definition key_of :: "go_bytes \<Rightarrow> go_bytes" where
  "key_of keyMaterial = take keySize keyMaterial"

definition macKey_of :: "go_bytes \<Rightarrow> go_bytes" where
  "macKey_of keyMaterial = take macSize (drop keySize keyMaterial)"

definition iv_of :: "go_bytes \<Rightarrow> go_bytes" where
  "iv_of keyMaterial = take ivSize (drop (keySize + macSize) keyMaterial)"

definition encryptWithHeader ::
  "crypto \<Rightarrow> rand_reader \<Rightarrow> go_bytes \<Rightarrow> go_bytes \<Rightarrow> string \<Rightarrow> vault_error + string" where
  "encryptWithHeader c random plaintext password hdr =
     (if password = [] then Inl ErrInvalidPassword
      else (case random saltSize of
        None \<Rightarrow> Inl ErrRandom
      | Some slt \<Rightarrow>
          let keyMaterial = derive c password slt;
              padded = pkcs7Pad plaintext aes_BlockSize
          in (case newCTR c (key_of keyMaterial) (iv_of keyMaterial) of
                Inl err \<Rightarrow> Inl err
              | Inr stream \<Rightarrow>
                  let ct = stream padded;
                      mac = hmac_sha256 c (macKey_of keyMaterial) ct;
                      inner = hex_EncodeToString slt @ LF # hex_EncodeToString mac
                                @ LF # hex_EncodeToString ct
                  in Inr (serializeVaultEnvelope hdr (hex_EncodeToString inner)))))"

definition EncryptWithVaultID ::
  "crypto \<Rightarrow> rand_reader \<Rightarrow> go_bytes \<Rightarrow> go_bytes \<Rightarrow> string \<Rightarrow> vault_error + string" where
  "EncryptWithVaultID c random plaintext password vaultID =
     (case ValidateVaultID vaultID of
        Some err \<Rightarrow> Inl err
      | None \<Rightarrow> encryptWithHeader c random plaintext password (Header12Prefix @ '';'' @ vaultID))"

definition Encrypt ::
  "crypto \<Rightarrow> rand_reader \<Rightarrow> go_bytes \<Rightarrow> go_bytes \<Rightarrow> string \<Rightarrow> vault_error + string" where
  "Encrypt c random plaintext password vaultID =
     EncryptWithVaultID c random plaintext password vaultID"

definition Decrypt :: "crypto \<Rightarrow> string \<Rightarrow> go_bytes \<Rightarrow> vault_error + go_bytes" where
  "Decrypt c vaultText password =
     (if password = [] then Inl ErrInvalidPassword
      else (case parseEnvelope vaultText of
        Inl _ \<Rightarrow> Inl ErrInvalidVault
      | Inr envelope \<Rightarrow>
          let keyMaterial = derive c password (salt envelope);
              mac = hmac_sha256 c (macKey_of keyMaterial) (ciphertext envelope)
          in if expectedMAC envelope \<noteq> mac then Inl ErrInvalidVault
             else (case newCTR c (key_of keyMaterial) (iv_of keyMaterial) of
               Inl _ \<Rightarrow> Inl ErrInvalidVault
             | Inr stream \<Rightarrow>
                 (case pkcs7Unpad (stream (ciphertext envelope)) aes_BlockSize of
                    None \<Rightarrow> Inl ErrInvalidVault
                  | Some plaintext \<Rightarrow> Inr plaintext))))"

section \<open>Lemmas\<close>

subsection \<open>Counter mode\<close>

lemma byte_xor_twice [simp]: "byte_xor (byte_xor a k) k = a"
  by (cases a; cases k) (simp, blast)

lemma length_ctr_keystream:
  "(\<And>b. length (E b) = 16) \<Longrightarrow> length (ctr_keystream E iv n) = 16 * n"
  by (induction n arbitrary: iv) auto

lemma length_XORKeyStream [simp]:
  assumes "\<And>b. length (E b) = 16"
  shows "length (XORKeyStream E iv src) = length src"
proof -
  have "length src \<le> 16 * (length src div 16 + 1)" by presburger
  then show ?thesis
    unfolding XORKeyStream_def length_map length_zip length_ctr_keystream [OF assms] by simp
qed

lemma map2_xor_twice:
  "length src \<le> length ks \<Longrightarrow> map2 byte_xor (map2 byte_xor src ks) ks = src"
proof (induction src arbitrary: ks)
  case Nil
  then show ?case by simp
next
  case (Cons x xs)
  then show ?case by (cases ks) auto
qed

lemma XORKeyStream_involution:
  assumes "\<And>b. length (E b) = 16"
  shows "XORKeyStream E iv (XORKeyStream E iv src) = src"
proof -
  have "length src \<le> length (ctr_keystream E iv (length src div 16 + 1))"
    unfolding length_ctr_keystream [OF assms] by presburger
  then have "map2 byte_xor (XORKeyStream E iv src) (ctr_keystream E iv (length src div 16 + 1)) = src"
    unfolding XORKeyStream_def by (rule map2_xor_twice)
  then show ?thesis
    unfolding XORKeyStream_def [of E iv "XORKeyStream E iv src"] length_XORKeyStream [OF assms] .
qed

subsection \<open>Padding\<close>

lemma length_pkcs7Pad:
  "0 < n \<Longrightarrow> length (pkcs7Pad v n) = (length v div n + 1) * n"
proof -
  assume n: "0 < n"
  then have "length v mod n < n" by simp
  then have "length v + (n - length v mod n) = (length v - length v mod n) + n"
    using mod_less_eq_dividend [of "length v" n] by linarith
  then show ?thesis by (simp add: pkcs7Pad_def Let_def minus_mod_eq_div_mult)
qed

lemma pkcs7_unpad_pad:
  assumes "0 < n" "n < 256"
  shows "pkcs7Unpad (pkcs7Pad v n) n = Some v"
proof -
  let ?p = "n - length v mod n"
  have p: "0 < ?p" "?p \<le> n" "?p < 256" using assms by auto
  have len: "length (v @ replicate ?p (char_of ?p)) mod n = 0"
    using length_pkcs7Pad [of n v] assms by (simp add: pkcs7Pad_def Let_def)
  have last: "last (v @ replicate ?p (char_of ?p)) = char_of ?p" using p by simp
  have ofc: "(of_char (char_of ?p) :: nat) = ?p" using p by simp
  show ?thesis
    unfolding pkcs7Pad_def Let_def pkcs7Unpad_def last ofc
    using p len by (auto simp: list_all_iff)
qed

lemma pkcs7_pad_unpad:
  assumes "0 < n" "pkcs7Unpad v n = Some w"
  shows "pkcs7Pad w n = v"
proof -
  define p where "p = (of_char (last v) :: nat)"
  from assms have v: "v \<noteq> []" "length v mod n = 0" "p \<noteq> 0" "p \<le> n" "p \<le> length v"
    and all: "list_all (\<lambda>c. (of_char c :: nat) = p) (drop (length v - p) v)"
    and w: "w = take (length v - p) v"
    by (auto simp: pkcs7Unpad_def Let_def p_def split: if_splits)
  have tail: "drop (length v - p) v = replicate p (char_of p)"
  proof (rule replicate_eqI)
    show "length (drop (length v - p) v) = p" using v by simp
    fix y assume "y \<in> set (drop (length v - p) v)"
    with all have "(of_char y :: nat) = p" by (auto simp: list_all_iff)
    then show "y = char_of p" by (metis char_of_char)
  qed
  have "n - (length v - p) mod n = p"
  proof -
    from v obtain k where k: "length v = n * k" by (auto simp: mod_eq_0_iff_dvd)
    with v have "0 < k" by (cases k) auto
    then obtain j where "k = Suc j" by (cases k) auto
    with k have "length v - p = (n - p) + n * j" using v by simp
    then have "(length v - p) mod n = (n - p) mod n" by simp
    then show ?thesis using v by auto
  qed
  then have "pkcs7Pad w n = take (length v - p) v @ drop (length v - p) v"
    using v by (simp add: pkcs7Pad_def Let_def w tail)
  then show ?thesis by simp
qed

subsection \<open>Envelope text\<close>

lemma isHex_no_newline: "isHex s \<Longrightarrow> LF \<notin> set s \<and> CR \<notin> set s"
  by (auto simp: isHex_def list_all_iff isHex_char_def Let_def)

lemma isHex_append [simp]: "isHex (s @ t) \<longleftrightarrow> isHex s \<and> isHex t"
  by (auto simp: isHex_def)

lemma isHex_Nil [simp]: "isHex []"
  by (simp add: isHex_def)

lemma isHex_ascii: "isHex s \<Longrightarrow> is_ascii s"
  by (induction s) (auto simp: isHex_def isHex_char_def Let_def)

lemma isHex_lower_hex: "list_all is_lower_hex s \<Longrightarrow> isHex s"
  by (auto simp: isHex_def list_all_iff isHex_char_def is_lower_hex_def Let_def)

lemma isHex_Encode [simp]: "isHex (hex_EncodeToString bs)"
  by (simp add: isHex_lower_hex hex_Encode_lower)

lemma isHex_char_lower: "isHex_char c \<Longrightarrow> is_lower_hex (ascii_lower c)"
  by (auto simp: isHex_char_def is_lower_hex_def ascii_lower_def Let_def)

lemma ToLower_isHex: "isHex s \<Longrightarrow> list_all is_lower_hex (strings_ToLower_ascii s)"
  by (induction s) (auto simp: isHex_def strings_ToLower_ascii_def isHex_char_lower)

lemma length_ToLower [simp]: "length (strings_ToLower_ascii s) = length s"
  by (simp add: strings_ToLower_ascii_def)

lemma isHex_take_drop: "isHex s \<Longrightarrow> isHex (take n s) \<and> isHex (drop n s)"
  by (metis append_take_drop_id isHex_append)

lemma wrap_collect:
  "isHex b \<Longrightarrow> b \<noteq> [] \<Longrightarrow>
     \<exists>t. wrap_body b = t @ [LF] \<and> collect_body (strings_Split t LF) = Some b"
proof (induction b rule: wrap_body.induct)
  case (1 b)
  show ?case
  proof (cases "lineWidth < length b")
    case True
    let ?l = "take lineWidth b" and ?r = "drop lineWidth b"
    have hex: "isHex ?l" "isHex ?r" using "1.prems" isHex_take_drop by blast+
    with True "1.IH" obtain t where t: "wrap_body ?r = t @ [LF]"
      "collect_body (strings_Split t LF) = Some ?r" by fastforce
    have "LF \<notin> set ?l" using isHex_no_newline [OF hex(1)] by blast
    moreover have "wrap_body b = (?l @ LF # t) @ [LF]"
      using True t by (simp add: wrap_body.simps [of b])
    ultimately show ?thesis using True hex(1) t "1.prems"
      by (intro exI [of _ "?l @ LF # t"]) (simp del: vault_sizes, simp)
  next
    case False
    then show ?thesis using "1.prems" isHex_no_newline [of b]
      by (intro exI [of _ b]) (auto simp: wrap_body.simps [of b])
  qed
qed

lemma collect_body_props:
  "collect_body ls = Some b \<Longrightarrow> isHex b \<and> (ls \<noteq> [] \<longrightarrow> b \<noteq> [])"
  by (induction ls arbitrary: b) (auto split: if_splits option.splits)

lemma set_TrimSuffix: "set (strings_TrimSuffix s t) \<subseteq> set s"
  by (auto simp: strings_TrimSuffix_def dest: in_set_takeD)

definition header_ok :: "string \<Rightarrow> bool" where
  "header_ok h \<longleftrightarrow> isSupportedHeader h \<and> LF \<notin> set h \<and> CR \<notin> set h"

lemma wrap_body_no_CR: "isHex b \<Longrightarrow> CR \<notin> set (wrap_body b)"
proof (induction b rule: wrap_body.induct)
  case (1 b)
  then show ?case using isHex_take_drop [of b lineWidth] isHex_no_newline [of b]
      isHex_no_newline [of "take lineWidth b"]
    by (subst wrap_body.simps) auto
qed

lemma parse_serialize:
  assumes "header_ok h" "isHex b" "b \<noteq> []"
  shows "parseEnvelope (serializeVaultEnvelope h b) =
    (case hex_DecodeString b of None \<Rightarrow> Inl ErrInvalidVault
     | Some payload \<Rightarrow> (case parse_payload h b payload of
         None \<Rightarrow> Inl ErrInvalidVault | Some e \<Rightarrow> Inr e))"
proof -
  obtain t where t: "wrap_body b = t @ [LF]" "collect_body (strings_Split t LF) = Some b"
    using wrap_collect assms by blast
  have cr: "CR \<notin> set (h @ LF # wrap_body b)"
    using assms wrap_body_no_CR [of b] by (auto simp: header_ok_def)
  have trim: "strings_TrimSuffix (h @ LF # wrap_body b) [LF] = h @ LF # t"
    using TrimSuffix_append [of "h @ LF # t" "[LF]"] t by simp
  show ?thesis
    unfolding parseEnvelope_def serializeVaultEnvelope_def Let_def replace_crlf_id [OF cr] trim
    using assms cr t by (simp add: strings_ContainsRune_def header_ok_def)
qed

lemma parse_Inr:
  assumes "parseEnvelope text = Inr e"
  shows "header_ok (header e) \<and> isHex (body e) \<and> body e \<noteq> [] \<and>
    (\<exists>payload. hex_DecodeString (body e) = Some payload \<and>
       parse_payload (header e) (body e) payload = Some e)"
proof -
  define s where "s = strings_TrimSuffix (replace_crlf text) [LF]"
  obtain h bt found where cut: "strings_Cut s LF = (h, bt, found)" by (metis prod_cases3)
  from assms cut obtain b payload where
    cr: "CR \<notin> set (replace_crlf text)" and found: "found" "isSupportedHeader h"
    and b: "collect_body (strings_Split bt LF) = Some b"
    and p: "hex_DecodeString b = Some payload" "parse_payload h b payload = Some e"
    unfolding parseEnvelope_def Let_def s_def [symmetric]
    by (auto simp: strings_ContainsRune_def split: if_splits option.splits)
  from cut found have s: "s = h @ LF # bt" "LF \<notin> set h" by (auto simp: Cut_found_iff)
  have "CR \<notin> set s" using cr set_TrimSuffix unfolding s_def by blast
  then have "header_ok h" using s found by (simp add: header_ok_def)
  moreover have "header e = h" "body e = b"
    using p(2) by (auto simp: parse_payload_def split: prod.splits if_splits option.splits)
  ultimately show ?thesis using p collect_body_props [OF b] by auto
qed

lemma parse_payload_body:
  "parse_payload h b p = Some e \<Longrightarrow> parse_payload h b' p = Some (e\<lparr>body := b'\<rparr>)"
  by (auto simp: parse_payload_def split: prod.splits if_splits option.splits)

text \<open>The canonical text of an accepted envelope parses to the same envelope, with the body in
  lower case.\<close>

lemma parse_canonical:
  assumes "parseEnvelope text = Inr e"
  shows "parseEnvelope (serializeVaultEnvelope (header e) (strings_ToLower_ascii (body e))) =
    Inr (e\<lparr>body := strings_ToLower_ascii (body e)\<rparr>)"
proof -
  let ?b = "strings_ToLower_ascii (body e)"
  from parse_Inr [OF assms] obtain payload where
    h: "header_ok (header e)" and b: "isHex (body e)" "body e \<noteq> []"
    and p: "hex_DecodeString (body e) = Some payload"
      "parse_payload (header e) (body e) payload = Some e" by blast
  have hex: "isHex ?b" using b ToLower_isHex isHex_lower_hex by blast
  have ne: "?b \<noteq> []" using b by (metis length_0_conv length_ToLower)
  show ?thesis
    unfolding parse_serialize [OF h hex ne] using p parse_payload_body [OF p(2)] by simp
qed

subsection \<open>Encryption followed by decryption\<close>

lemma crypto_ok_simps:
  assumes "crypto_ok c"
  shows "length (derive c pw s) = 80" "length (aes_block c k b) = 16"
    "length (hmac_sha256 c k m) = 32"
  using assms by (auto simp: crypto_ok_def derive_def)

lemma newCTR_derive:
  assumes "crypto_ok c"
  shows "newCTR c (key_of (derive c pw s)) (iv_of (derive c pw s)) =
    Inr (XORKeyStream (aes_block c (key_of (derive c pw s))) (iv_of (derive c pw s)))"
  using crypto_ok_simps(1) [OF assms] by (simp add: newCTR_def key_of_def)

lemma ValidateVaultID_chars:
  "ValidateVaultID i = None \<Longrightarrow> i \<noteq> [] \<and> LF \<notin> set i \<and> CR \<notin> set i \<and> CHR '';'' \<notin> set i"
  by (auto simp: ValidateVaultID_def strings_ContainsAny_def list_ex_iff split: if_splits)

lemma isSupportedHeader_12:
  assumes "ValidateVaultID i = None"
  shows "isSupportedHeader (Header12Prefix @ '';'' @ i)"
proof -
  have split: "Header12Prefix @ '';'' @ i = ''$ANSIBLE_VAULT'' @ CHR '';'' # ''1.2'' @ CHR '';'' # ''AES256'' @ CHR '';'' # i"
    by (simp add: Header12Prefix_def)
  have four: "(4 :: nat) = Suc (Suc (Suc (Suc 0)))" by simp
  have "strings_SplitN (Header12Prefix @ '';'' @ i) (CHR '';'') 4 = [''$ANSIBLE_VAULT'', ''1.2'', ''AES256'', i]"
    unfolding split four by simp
  then show ?thesis using assms by (simp add: isSupportedHeader_def)
qed

lemma header12_ok: "ValidateVaultID i = None \<Longrightarrow> header_ok (Header12Prefix @ '';'' @ i)"
  using ValidateVaultID_chars [of i] isSupportedHeader_12 [of i]
  by (auto simp: header_ok_def Header12Prefix_def)

definition seal_inner :: "go_bytes \<Rightarrow> go_bytes \<Rightarrow> go_bytes \<Rightarrow> go_bytes" where
  "seal_inner slt mac ct =
     hex_EncodeToString slt @ LF # hex_EncodeToString mac @ LF # hex_EncodeToString ct"

lemma length_seal_inner: "length (seal_inner s m c) = 2 * length s + 2 * length m + 2 * length c + 2"
  by (simp add: seal_inner_def)

lemma parse_payload_inner:
  assumes "length slt = 32" "length mac = 32" "ct \<noteq> []" "length ct mod 16 = 0"
  shows "parse_payload h b (seal_inner slt mac ct) =
    Some \<lparr>header = h, body = b, salt = slt, expectedMAC = mac, ciphertext = ct\<rparr>"
proof -
  have ne: "hex_EncodeToString x \<noteq> []" if "x \<noteq> []" for x using that by (cases x) auto
  have nl: "LF \<notin> set (hex_EncodeToString x)" for x using isHex_no_newline [OF isHex_Encode] by blast
  have "slt \<noteq> []" "mac \<noteq> []" using assms by auto
  then show ?thesis
    using assms ne [of slt] ne [of mac] ne [of ct] nl
    by (simp add: parse_payload_def seal_inner_def decode_sized_def strings_ContainsRune_def)
qed

lemma parse_sealed:
  assumes "header_ok h" "length slt = 32" "length mac = 32" "ct \<noteq> []" "length ct mod 16 = 0"
  shows "parseEnvelope (serializeVaultEnvelope h (hex_EncodeToString (seal_inner slt mac ct))) =
    Inr \<lparr>header = h, body = hex_EncodeToString (seal_inner slt mac ct), salt = slt,
         expectedMAC = mac, ciphertext = ct\<rparr>"
proof -
  have "hex_EncodeToString (seal_inner slt mac ct) \<noteq> []"
    by (metis length_hex_Encode length_seal_inner length_0_conv mult_eq_0_iff zero_neq_numeral
        add_is_0)
  then show ?thesis
    using parse_payload_inner [OF assms(2-)] by (simp add: parse_serialize assms(1))
qed

text \<open>What \<open>encryptWithHeader\<close> writes: the salt it drew, the tag and the ciphertext.\<close>

definition seal_text :: "crypto \<Rightarrow> go_bytes \<Rightarrow> go_bytes \<Rightarrow> go_bytes \<Rightarrow> string \<Rightarrow> string" where
  "seal_text c slt p pw h =
     (let km = derive c pw slt;
          ct = XORKeyStream (aes_block c (key_of km)) (iv_of km) (pkcs7Pad p 16)
      in serializeVaultEnvelope h
           (hex_EncodeToString (seal_inner slt (hmac_sha256 c (macKey_of km) ct) ct)))"

lemma encryptWithHeader_eq:
  assumes "crypto_ok c" "pw \<noteq> []" "random 32 = Some slt"
  shows "encryptWithHeader c random p pw h = Inr (seal_text c slt p pw h)"
  using assms
  by (simp add: encryptWithHeader_def newCTR_derive seal_text_def seal_inner_def Let_def)

lemma Encrypt_Inr:
  assumes "crypto_ok c" "Encrypt c random p pw i = Inr t"
  shows "ValidateVaultID i = None \<and> pw \<noteq> [] \<and>
    (\<exists>slt. random 32 = Some slt \<and> t = seal_text c slt p pw (Header12Prefix @ '';'' @ i))"
proof -
  from assms(2) have v: "ValidateVaultID i = None"
    and e: "encryptWithHeader c random p pw (Header12Prefix @ '';'' @ i) = Inr t"
    by (auto simp: Encrypt_def EncryptWithVaultID_def split: option.splits)
  from e obtain slt where "pw \<noteq> []" "random 32 = Some slt"
    by (auto simp: encryptWithHeader_def split: if_splits option.splits)
  with v e show ?thesis using encryptWithHeader_eq [OF assms(1)] by auto
qed

lemma parse_seal_text:
  fixes c :: crypto and pw slt p :: go_bytes and h :: string
  assumes "crypto_ok c" "header_ok h" "length slt = 32"
  defines "km \<equiv> derive c pw slt"
  defines "ct \<equiv> XORKeyStream (aes_block c (key_of km)) (iv_of km) (pkcs7Pad p 16)"
  defines "mac \<equiv> hmac_sha256 c (macKey_of km) ct"
  shows "parseEnvelope (seal_text c slt p pw h) =
    Inr \<lparr>header = h, body = hex_EncodeToString (seal_inner slt mac ct), salt = slt,
         expectedMAC = mac, ciphertext = ct\<rparr>"
proof -
  have len: "length ct = (length p div 16 + 1) * 16"
    by (simp add: ct_def length_pkcs7Pad crypto_ok_simps [OF assms(1)])
  then have "ct \<noteq> []" "length ct mod 16 = 0" by auto
  moreover have "length mac = 32" by (simp add: mac_def crypto_ok_simps [OF assms(1)])
  ultimately show ?thesis
    using parse_sealed [of h slt mac ct] assms(2,3)
    by (simp add: seal_text_def Let_def km_def ct_def mac_def)
qed

lemma Decrypt_seal_text:
  assumes "crypto_ok c" "header_ok h" "length slt = 32" "pw \<noteq> []"
  shows "Decrypt c (seal_text c slt p pw h) pw = Inr p"
proof -
  have "pkcs7Unpad (pkcs7Pad p 16) 16 = Some p" by (rule pkcs7_unpad_pad) auto
  then show ?thesis
    using assms(4) crypto_ok_simps(2) [OF assms(1)]
    by (simp add: Decrypt_def parse_seal_text [OF assms(1-3)] newCTR_derive [OF assms(1)]
        XORKeyStream_involution Let_def)
qed

lemma Decrypt_Encrypt:
  assumes "crypto_ok c" "rand_ok random" "Encrypt c random p pw i = Inr t"
  shows "Decrypt c t pw = Inr p"
proof -
  from Encrypt_Inr [OF assms(1,3)] obtain slt where v: "ValidateVaultID i = None" "pw \<noteq> []"
    and slt: "random 32 = Some slt" and t: "t = seal_text c slt p pw (Header12Prefix @ '';'' @ i)"
    by blast
  have "length slt = 32" using assms(2) slt by (simp add: rand_ok_def)
  then show ?thesis
    unfolding t using Decrypt_seal_text [OF assms(1) header12_ok [OF v(1)]] v by blast
qed

subsection \<open>Canonical text\<close>

lemma CanonicalEnvelope_Inr:
  "CanonicalEnvelope t = Inr t' \<longleftrightarrow>
     length t \<le> MaxVaultTextBytes \<and> utf8_valid t \<and>
     (\<exists>e. parseEnvelope t = Inr e \<and>
        t' = serializeVaultEnvelope (header e) (strings_ToLower_ascii (body e)))"
  by (auto simp: CanonicalEnvelope_def split: sum.splits)

lemma Decrypt_cong:
  assumes "parseEnvelope t = Inr e" "parseEnvelope t' = Inr e'"
    "salt e' = salt e" "expectedMAC e' = expectedMAC e" "ciphertext e' = ciphertext e"
  shows "Decrypt c t' pw = Decrypt c t pw"
  using assms by (simp add: Decrypt_def Let_def split: sum.split)

lemma Decrypt_canonical:
  assumes "CanonicalEnvelope t = Inr t'"
  shows "Decrypt c t' pw = Decrypt c t pw"
proof -
  from assms obtain e where e: "parseEnvelope t = Inr e"
    and t': "t' = serializeVaultEnvelope (header e) (strings_ToLower_ascii (body e))"
    by (auto simp: CanonicalEnvelope_Inr)
  show ?thesis using Decrypt_cong [OF e parse_canonical [OF e]] t' by simp
qed

lemma div80_step: "80 < (n :: nat) \<Longrightarrow> (n - 80) + (n - 80) div 80 + 82 \<le> n + n div 80 + 1"
  using le_div_geq [of 80 n] by simp

lemma length_wrap_body: "length (wrap_body b) \<le> length b + length b div 80 + 1"
proof (induction b rule: wrap_body.induct)
  case (1 b)
  show ?case
  proof (cases "lineWidth < length b")
    case True
    from "1.IH" [OF True]
    have "length (wrap_body (drop lineWidth b)) + 81 \<le> length b + length b div 80 + 1"
      using div80_step [of "length b"] True by simp
    then show ?thesis using True by (subst wrap_body.simps) simp
  next
    case False
    then show ?thesis by (subst wrap_body.simps) simp
  qed
qed

lemma set_wrap_body: "set (wrap_body b) = insert LF (set b)"
proof (induction b rule: wrap_body.induct)
  case (1 b)
  show ?case
  proof (cases "lineWidth < length b")
    case True
    have "set b = set (take lineWidth b) \<union> set (drop lineWidth b)"
      by (metis append_take_drop_id set_append)
    with "1.IH" [OF True] True show ?thesis by (subst wrap_body.simps) auto
  next
    case False
    then show ?thesis by (subst wrap_body.simps) auto
  qed
qed

lemma is_ascii_wrap_body: "is_ascii b \<Longrightarrow> is_ascii (wrap_body b)"
  by (auto simp: is_ascii_def list_all_iff set_wrap_body)

lemma length_seal_text:
  assumes "crypto_ok c" "length slt = 32" "length p \<le> MaxPlaintextBytes"
  shows "length (seal_text c slt p pw h) \<le> length h + 4247062"
proof -
  define km where "km = derive c pw slt"
  define ct where "ct = XORKeyStream (aes_block c (key_of km)) (iv_of km) (pkcs7Pad p 16)"
  define b where "b = hex_EncodeToString (seal_inner slt (hmac_sha256 c (macKey_of km) ct) ct)"
  have "length ct = (length p div 16 + 1) * 16"
    by (simp add: ct_def length_pkcs7Pad crypto_ok_simps [OF assms(1)])
  moreover have "(length p div 16) * 16 \<le> length p" by simp
  ultimately have "length ct \<le> 1048592" using assms(3) by (simp add: MaxPlaintextBytes_def)
  then have "length b \<le> 4194628"
    using assms by (simp add: b_def length_seal_inner crypto_ok_simps)
  moreover from this have "length b div 80 \<le> 52432"
    using div_le_mono [of "length b" 4194628 80] by simp
  ultimately have "length (wrap_body b) \<le> 4247061" using length_wrap_body [of b] by linarith
  then show ?thesis
    unfolding seal_text_def Let_def km_def [symmetric] ct_def [symmetric] b_def [symmetric]
      serializeVaultEnvelope_def by simp
qed

subsection \<open>Canonical text: validity and size\<close>

lemma utf8_valid_split:
  assumes "(of_char c :: nat) < 0x80"
  shows "utf8_valid (s @ c # t) \<longleftrightarrow> utf8_valid s \<and> utf8_valid t"
proof (induction s rule: utf8_valid.induct)
  case 1
  then show ?case using assms by (simp add: Let_def)
next
  case (2 a s)
  have nc: "\<not> utf8_cont c" "\<not> utf8_second n c" for n
    using assms by (auto simp: utf8_cont_def utf8_second_def Let_def)
  show ?case
  proof (cases s)
    case Nil
    then show ?thesis using 2(1) nc by (auto simp: Let_def)
  next
    case (Cons b s1)
    note s = Cons
    show ?thesis
    proof (cases s1)
      case Nil
      then show ?thesis using s 2(1,2) nc by (auto simp: Let_def)
    next
      case (Cons d s2)
      then show ?thesis using s 2 nc by (cases s2) (auto simp: Let_def)
    qed
  qed
qed

lemma replace_crlf_header:
  assumes "replace_crlf t = h @ LF # r" "LF \<notin> set h" "CR \<notin> set h"
  shows "\<exists>r'. t = h @ LF # r' \<or> t = h @ CR # LF # r'"
  using assms
proof (induction t arbitrary: h rule: replace_crlf.induct)
  case (3 x y s)
  show ?case
  proof (cases "x = CR \<and> y = LF")
    case True
    with 3 have "h = []" by (cases h) auto
    with True show ?thesis by simp
  next
    case False
    show ?thesis
    proof (cases h)
      case Nil
      with 3 False show ?thesis by auto
    next
      case (Cons z h')
      with 3 False have "x = z" "replace_crlf (y # s) = h' @ LF # r" by auto
      with 3(2) [OF False, of h'] Cons 3(4,5) show ?thesis by auto
    qed
  qed
qed (auto simp: append_eq_Cons_conv Cons_eq_append_conv)

lemma parse_header_prefix:
  assumes "parseEnvelope t = Inr e"
  shows "\<exists>r. t = header e @ LF # r \<or> t = header e @ CR # LF # r"
proof -
  define s where "s = strings_TrimSuffix (replace_crlf t) [LF]"
  obtain h bt found where cut: "strings_Cut s LF = (h, bt, found)" by (metis prod_cases3)
  from assms cut have "found" and h: "header e = h"
    unfolding parseEnvelope_def Let_def s_def [symmetric] parse_payload_def
    by (auto split: if_splits option.splits prod.splits)
  with cut have "s = h @ LF # bt" by (simp add: Cut_found_iff)
  then have "\<exists>r. replace_crlf t = h @ LF # r"
    unfolding s_def strings_TrimSuffix_def HasSuffix_iff
    by (metis append_Cons append_assoc append_take_drop_id)
  then show ?thesis
    using replace_crlf_header parse_Inr [OF assms] h unfolding header_ok_def by blast
qed

lemma utf8_valid_header:
  assumes "parseEnvelope t = Inr e" "utf8_valid t"
  shows "utf8_valid (header e)"
  using parse_header_prefix [OF assms(1)] assms(2) utf8_valid_split [of LF]
    utf8_valid_split [of CR] by auto

lemma utf8_valid_serialize:
  assumes "utf8_valid h" "is_ascii b"
  shows "utf8_valid (serializeVaultEnvelope h b)"
  using assms utf8_valid_split [of LF h "wrap_body b"]
  by (simp add: serializeVaultEnvelope_def utf8_valid_ascii is_ascii_wrap_body)

lemma Split_length:
  "sum_list (map length (strings_Split s c)) + length (strings_Split s c) = length s + 1"
proof (induction s)
  case (Cons x s)
  then show ?case by (cases "strings_Split s c") auto
qed simp

lemma collect_body_length:
  "collect_body ls = Some b \<Longrightarrow>
     length b = sum_list (map length ls) \<and> length b \<le> 80 * length ls"
  by (induction ls arbitrary: b) (fastforce split: if_splits option.splits)+

lemma wrap_body_lines: "length b \<le> 80 * Suc n \<Longrightarrow> length (wrap_body b) \<le> length b + Suc n"
proof (induction n arbitrary: b)
  case 0
  then show ?case by (subst wrap_body.simps) simp
next
  case (Suc n)
  have "length (wrap_body (drop 80 b)) \<le> length (drop 80 b) + Suc n"
    using Suc.prems by (intro Suc.IH) simp
  then show ?case by (subst wrap_body.simps) auto
qed

lemma replace_crlf_length: "length (replace_crlf s) \<le> length s"
  by (induction s rule: replace_crlf.induct) auto

lemma length_TrimSuffix: "length (strings_TrimSuffix s t) \<le> length s"
  by (simp add: strings_TrimSuffix_def)

lemma serialize_parsed_length:
  assumes "parseEnvelope t = Inr e"
  shows "length (serializeVaultEnvelope (header e) (strings_ToLower_ascii (body e))) \<le> length t + 1"
proof -
  define s where "s = strings_TrimSuffix (replace_crlf t) [LF]"
  obtain h bt found where cut: "strings_Cut s LF = (h, bt, found)" by (metis prod_cases3)
  from assms cut have "found" and h: "header e = h"
    and b: "collect_body (strings_Split bt LF) = Some (body e)"
    unfolding parseEnvelope_def Let_def s_def [symmetric] parse_payload_def
    by (auto split: if_splits option.splits prod.splits)
  with cut have s: "length s = length h + 1 + length bt" by (auto simp: Cut_found_iff)
  obtain n where n: "length (strings_Split bt LF) = Suc n"
    by (metis Split_nonempty length_0_conv not0_implies_Suc)
  from collect_body_length [OF b] Split_length [of bt LF] n
  have "length (body e) + n = length bt" "length (body e) \<le> 80 * Suc n" by auto
  with wrap_body_lines [of "strings_ToLower_ascii (body e)" n]
  have "length (wrap_body (strings_ToLower_ascii (body e))) \<le> length bt + 1" by simp
  moreover have "length s \<le> length t"
    unfolding s_def using length_TrimSuffix replace_crlf_length order_trans by blast
  ultimately show ?thesis using s h by (simp add: serializeVaultEnvelope_def)
qed

lemma CanonicalEnvelope_idem:
  assumes "CanonicalEnvelope t = Inr t'" "length t' \<le> MaxVaultTextBytes"
  shows "CanonicalEnvelope t' = Inr t'"
proof -
  from assms(1) obtain e where e: "parseEnvelope t = Inr e" "utf8_valid t"
    and t': "t' = serializeVaultEnvelope (header e) (strings_ToLower_ascii (body e))"
    by (auto simp: CanonicalEnvelope_Inr)
  have b: "isHex (body e)" using parse_Inr [OF e(1)] by blast
  have hex: "list_all is_lower_hex (strings_ToLower_ascii (body e))" using b by (rule ToLower_isHex)
  have "utf8_valid t'"
    unfolding t' using utf8_valid_header [OF e] isHex_ascii [OF isHex_lower_hex [OF hex]]
    by (rule utf8_valid_serialize)
  then show ?thesis
    using assms(2) parse_canonical [OF e(1)] ToLower_lower_hex [OF hex]
    by (simp add: CanonicalEnvelope_Inr t')
qed

lemma CanonicalEnvelope_seal_text:
  assumes "crypto_ok c" "header_ok h" "utf8_valid h" "length slt = 32"
    "length (seal_text c slt p pw h) \<le> MaxVaultTextBytes"
  shows "CanonicalEnvelope (seal_text c slt p pw h) = Inr (seal_text c slt p pw h)"
proof -
  let ?b = "\<lambda>x. hex_EncodeToString x"
  obtain x where x: "seal_text c slt p pw h = serializeVaultEnvelope h (?b x)"
    by (auto simp: seal_text_def Let_def)
  obtain e where e: "parseEnvelope (seal_text c slt p pw h) = Inr e" "header e = h"
    and eb: "serializeVaultEnvelope h (body e) = seal_text c slt p pw h" "list_all is_lower_hex (body e)"
    using parse_seal_text [OF assms(1,2,4), where pw = pw and p = p] hex_Encode_lower
    by (auto simp: seal_text_def Let_def)
  have "utf8_valid (seal_text c slt p pw h)"
    unfolding x using utf8_valid_serialize [OF assms(3) isHex_ascii [OF isHex_Encode]] .
  then show ?thesis
    using assms(5) e eb ToLower_lower_hex [OF eb(2)] by (simp add: CanonicalEnvelope_Inr)
qed

lemma length_seal_text_header12:
  assumes "crypto_ok c" "length slt = 32" "length p \<le> MaxPlaintextBytes" "length i \<le> 64"
  shows "length (seal_text c slt p pw (Header12Prefix @ '';'' @ i)) \<le> MaxVaultTextBytes"
  using length_seal_text [OF assms(1-3), of pw "Header12Prefix @ '';'' @ i"] assms(4)
  by (simp add: Header12Prefix_def MaxVaultTextBytes_def)

subsection \<open>The codec as an interface\<close>

text \<open>
  What the callers of the codec rely on: a value that was sealed under a password opens to
  itself under it, canonicalisation does not change what a text opens to, and only two errors
  leave \<open>Decrypt\<close>. \<open>ok\<close> is the condition on the primitives.
\<close>

locale envelope_codec =
  fixes ok :: "'c \<Rightarrow> bool"
    and seal :: "'c \<Rightarrow> rand_reader \<Rightarrow> go_bytes \<Rightarrow> go_bytes \<Rightarrow> string \<Rightarrow> 'e + string"
    and unseal :: "'c \<Rightarrow> string \<Rightarrow> go_bytes \<Rightarrow> 'e + go_bytes"
    and canonical :: "string \<Rightarrow> 'e + go_bytes"
  assumes unseal_seal:
      "ok c \<Longrightarrow> rand_ok random \<Longrightarrow> seal c random p pw i = Inr t \<Longrightarrow> unseal c t pw = Inr p"
    and unseal_canonical: "canonical t = Inr t' \<Longrightarrow> unseal c t' pw = unseal c t pw"
    and canonical_canonical: 
      "canonical t = Inr t' \<Longrightarrow> length t' \<le> MaxVaultTextBytes \<Longrightarrow> canonical t' = Inr t'"
begin

text \<open>Re-keying: opening under the source password and sealing under the destination password
  yields a text that opens, under the destination password, to the original value.\<close>

lemma rekey:
  assumes "ok c" "rand_ok random" "unseal c t pw = Inr p" "seal c random p pw' i = Inr t'"
  shows "unseal c t' pw' = unseal c t pw"
  using unseal_seal [OF assms(1,2,4)] assms(3) by simp

text \<open>Two texts with the same canonical form open to the same result under every password.\<close>

lemma same_canonical:
  assumes "canonical t = Inr u" "canonical t' = Inr u"
  shows "unseal c t pw = unseal c t' pw"
  using unseal_canonical [OF assms(1), of c pw] unseal_canonical [OF assms(2), of c pw] by simp

text \<open>Distinct plaintexts never seal to the same text under the same password.\<close>

lemma seal_injective:
  assumes "ok c" "rand_ok r" "rand_ok r'" "seal c r p pw i = Inr t" "seal c r' p' pw i' = Inr t"
  shows "p = p'"
  using unseal_seal [OF assms(1,2,4)] unseal_seal [OF assms(1,3,5)] by simp

end

interpretation vault: envelope_codec crypto_ok Encrypt Decrypt CanonicalEnvelope
  by unfold_locales (blast intro: Decrypt_Encrypt Decrypt_canonical CanonicalEnvelope_idem)+

subsection \<open>A concrete choice of primitives\<close>

text \<open>Functions with the documented output sizes, used where a statement about all primitives is
  instantiated: they are not cryptographic.\<close>

definition demo_crypto :: crypto where
  "demo_crypto =
     \<lparr>pbkdf2_Key = (\<lambda>password salt iter n. take n (password @ salt @ replicate n (CHR ''k''))),
      aes_block = (\<lambda>key block. take 16 (block @ key @ replicate 16 (CHR ''b''))),
      hmac_sha256 = (\<lambda>key msg. take 32 (rev msg @ key @ replicate 32 (CHR ''m'')))\<rparr>"

definition demo_random :: rand_reader where
  "demo_random n = Some (replicate n (CHR ''r''))"

lemma demo_crypto_ok [simp]: "crypto_ok demo_crypto"
  by (auto simp: crypto_ok_def demo_crypto_def min_def)

lemma demo_random_ok [simp]: "rand_ok demo_random"
  by (simp add: rand_ok_def demo_random_def)

lemma demo_vault_id [simp]: "ValidateVaultID ''dev'' = None"
  by code_simp

section \<open>Properties\<close>

text \<open>C1. Encryption with a valid label, a non-empty password and a working random source
  succeeds, and decrypting its result with the same password returns the plaintext, for every
  plaintext and for any primitives with the documented sizes.\<close>

theorem encrypt_decrypt_roundtrip:
  assumes "crypto_ok c" "rand_ok random" "random saltSize = Some slt"
    "ValidateVaultID vaultID = None" "password \<noteq> []"
  shows "\<exists>vaultText. Encrypt c random plaintext password vaultID = Inr vaultText \<and>
    Decrypt c vaultText password = Inr plaintext"
proof -
  have "Encrypt c random plaintext password vaultID =
    Inr (seal_text c slt plaintext password (Header12Prefix @ '';'' @ vaultID))"
    using assms by (simp add: Encrypt_def EncryptWithVaultID_def encryptWithHeader_eq)
  then show ?thesis using Decrypt_Encrypt [OF assms(1,2)] by blast
qed

theorem encrypt_decrypt_roundtrip_witness:
  "\<exists>vaultText. Encrypt demo_crypto demo_random ''secret'' ''pw'' ''dev'' = Inr vaultText \<and>
     Decrypt demo_crypto vaultText ''pw'' = Inr ''secret''"
  by (rule encrypt_decrypt_roundtrip [where slt = "replicate 32 (CHR ''r'')"])
    (simp_all add: demo_random_def)

text \<open>C21. Canonicalisation: the canonical text of an envelope decrypts, under every password, to
  exactly what the original text decrypts to (errors included), and is at most one byte longer;
  canonicalising it again changes nothing, provided it still fits the size limit.\<close>

theorem canonical_envelope_correct:
  assumes "CanonicalEnvelope text = Inr canonical"
  shows "(\<forall>c password. Decrypt c canonical password = Decrypt c text password) \<and>
    length canonical \<le> length text + 1 \<and>
    (length canonical \<le> MaxVaultTextBytes \<longrightarrow> CanonicalEnvelope canonical = Inr canonical)"
proof -
  from assms have "length canonical \<le> length text + 1"
    using serialize_parsed_length by (auto simp: CanonicalEnvelope_Inr)
  then show ?thesis using vault.unseal_canonical vault.canonical_canonical assms by blast
qed

definition demo_text :: string where
  "demo_text = (case Encrypt demo_crypto demo_random ''x'' ''pw'' ''dev'' of Inr t \<Rightarrow> t | Inl _ \<Rightarrow> [])"

lemma demo_text_sealed: "Encrypt demo_crypto demo_random ''x'' ''pw'' ''dev'' = Inr demo_text"
  by (simp add: demo_text_def Encrypt_def EncryptWithVaultID_def encryptWithHeader_eq demo_random_def)

lemma demo_text_eq:
  "demo_text = seal_text demo_crypto (replicate 32 (CHR ''r'')) ''x'' ''pw'' (Header12Prefix @ '';'' @ ''dev'')"
  using Encrypt_Inr [OF demo_crypto_ok demo_text_sealed] by (simp add: demo_random_def)

lemma demo_text_canonical: "CanonicalEnvelope demo_text = Inr demo_text"
  unfolding demo_text_eq
proof (rule CanonicalEnvelope_seal_text)
  show "header_ok (Header12Prefix @ '';'' @ ''dev'')" by (rule header12_ok [OF demo_vault_id])
  show "utf8_valid (Header12Prefix @ '';'' @ ''dev'')"
    by (simp add: utf8_valid_ascii Header12Prefix_def)
  show "length (seal_text demo_crypto (replicate 32 (CHR ''r'')) ''x'' ''pw''
      (Header12Prefix @ '';'' @ ''dev'')) \<le> MaxVaultTextBytes"
    by (rule length_seal_text_header12) (simp_all add: MaxPlaintextBytes_def)
qed simp_all

theorem canonical_envelope_correct_witness:
  "CanonicalEnvelope demo_text = Inr demo_text \<and>
   (\<forall>c password. Decrypt c demo_text password = Decrypt c demo_text password) \<and>
   length demo_text \<le> length demo_text + 1"
  using canonical_envelope_correct [OF demo_text_canonical] demo_text_canonical by blast

text \<open>C23. Authenticity of decryption: whatever \<open>Decrypt\<close> accepts has a tag equal to the HMAC of
  its ciphertext under the key derived from the password and the envelope's own salt, its header
  is a supported one, and padding the returned plaintext and encrypting it again with that key
  gives exactly the ciphertext of the envelope.\<close>

theorem decrypt_authentic:
  assumes "crypto_ok c" "Decrypt c text password = Inr plaintext"
  shows "\<exists>envelope. parseEnvelope text = Inr envelope \<and>
    (let km = derive c password (salt envelope) in
       isSupportedHeader (header envelope) \<and>
       expectedMAC envelope = hmac_sha256 c (macKey_of km) (ciphertext envelope) \<and>
       ciphertext envelope =
         XORKeyStream (aes_block c (key_of km)) (iv_of km) (pkcs7Pad plaintext aes_BlockSize))"
proof -
  from assms(2) obtain e where e: "parseEnvelope text = Inr e"
    and mac: "expectedMAC e = hmac_sha256 c (macKey_of (derive c password (salt e))) (ciphertext e)"
    and up: "pkcs7Unpad (XORKeyStream (aes_block c (key_of (derive c password (salt e))))
        (iv_of (derive c password (salt e))) (ciphertext e)) 16 = Some plaintext"
    by (auto simp: Decrypt_def Let_def newCTR_derive [OF assms(1)]
        split: if_splits sum.splits option.splits)
  have "isSupportedHeader (header e)" using parse_Inr [OF e] by (simp add: header_ok_def)
  moreover have "XORKeyStream (aes_block c (key_of (derive c password (salt e))))
      (iv_of (derive c password (salt e))) (pkcs7Pad plaintext 16) = ciphertext e"
    using pkcs7_pad_unpad [OF _ up] XORKeyStream_involution crypto_ok_simps(2) [OF assms(1)] by simp
  ultimately show ?thesis using e mac by (simp add: Let_def)
qed

lemma demo_decrypt: "Decrypt demo_crypto demo_text ''pw'' = Inr ''x''"
  by (rule Decrypt_Encrypt [OF demo_crypto_ok demo_random_ok demo_text_sealed])

theorem decrypt_authentic_witness:
  "\<exists>envelope. parseEnvelope demo_text = Inr envelope \<and>
    (let km = derive demo_crypto ''pw'' (salt envelope) in
       isSupportedHeader (header envelope) \<and>
       expectedMAC envelope = hmac_sha256 demo_crypto (macKey_of km) (ciphertext envelope) \<and>
       ciphertext envelope =
         XORKeyStream (aes_block demo_crypto (key_of km)) (iv_of km) (pkcs7Pad ''x'' aes_BlockSize))"
  by (rule decrypt_authentic [OF demo_crypto_ok demo_decrypt])

text \<open>C39. No password oracle: whatever the text and whatever goes wrong (malformed text, wrong
  tag, wrong padding), a failing \<open>Decrypt\<close> returns one and the same error, except for the
  empty password, which is rejected before the text is read.\<close>

theorem decrypt_error_collapse:
  "Decrypt c text password = Inl err \<Longrightarrow>
     err = (if password = [] then ErrInvalidPassword else ErrInvalidVault)"
  by (auto simp: Decrypt_def Let_def split: if_splits sum.splits option.splits)

theorem decrypt_error_collapse_witness:
  "Decrypt demo_crypto ''not a vault'' ''pw'' = Inl ErrInvalidVault \<and>
   ErrInvalidVault = (if ''pw'' = [] then ErrInvalidPassword else ErrInvalidVault)"
proof -
  have h: "Decrypt demo_crypto ''not a vault'' ''pw'' = Inl ErrInvalidVault" by code_simp
  show ?thesis using h decrypt_error_collapse [OF h] by blast
qed

text \<open>Sizes: sealing any plaintext of at most 1 MiB under a label of at most 64 bytes (the
  longest profile identifier) gives a text within the 5 MiB limit for Vault text, which, when the
  label is valid UTF-8, is its own canonical form.\<close>

lemma encrypt_output_canonical_and_bounded:
  assumes "crypto_ok c" "rand_ok random" "Encrypt c random plaintext password vaultID = Inr text"
    "length plaintext \<le> MaxPlaintextBytes" "length vaultID \<le> 64" "utf8_valid vaultID"
  shows "length text \<le> MaxVaultTextBytes \<and> CanonicalEnvelope text = Inr text"
proof -
  from Encrypt_Inr [OF assms(1,3)] obtain slt where v: "ValidateVaultID vaultID = None"
    and slt: "random 32 = Some slt"
    and t: "text = seal_text c slt plaintext password (Header12Prefix @ '';'' @ vaultID)" by blast
  have len: "length slt = 32" using assms(2) slt by (simp add: rand_ok_def)
  have bound: "length text \<le> MaxVaultTextBytes"
    unfolding t using length_seal_text_header12 [OF assms(1) len assms(4,5)] .
  have "utf8_valid (Header12Prefix @ '';'' @ vaultID)"
    using assms(6) utf8_valid_ascii_append [of "Header12Prefix @ '';''" vaultID]
    by (simp add: Header12Prefix_def)
  then show ?thesis
    using bound CanonicalEnvelope_seal_text [OF assms(1) header12_ok [OF v] _ len]
    unfolding t by blast
qed

text \<open>Padding is a bijection between byte strings and the padded blocks the decoder accepts:
  removing the padding of a padded value returns it, and whatever the decoder accepts is the
  padding of what it returns, so no other padding is ever accepted.\<close>

lemma pkcs7_exact:
  "pkcs7Unpad padded aes_BlockSize = Some plain \<longleftrightarrow> padded = pkcs7Pad plain aes_BlockSize"
  using pkcs7_unpad_pad [of 16 plain] pkcs7_pad_unpad [of 16 padded plain] by auto

end
