(* ===== verification/Caller.thy ===== *)
theory Caller
  imports Prelude "HOL-Library.Char_ord" "HOL-Library.List_Lexorder"
begin

text \<open>
  Verified identities, \<open>backend/internal/caller/caller.go\<close>. Strings are ordered byte by byte,
  as Go orders them. The scope map of the source carries no values, so it is a set. \<open>KindNone\<close>
  is the empty kind of the zero \<open>Caller\<close>.
\<close>

datatype Kind = KindNone | KindSession | KindBearer | KindAnonymous

datatype caller_error = ErrInvalidCaller

record Caller =
  kind :: Kind
  issuer :: string
  subject :: string
  groups :: "string list"
  scopes :: "string set"

definition zero_Caller :: Caller where
  "zero_Caller = \<lparr>kind = KindNone, issuer = [], subject = [], groups = [], scopes = {}\<rparr>"

definition newAuthenticated ::
  "Kind \<Rightarrow> string \<Rightarrow> string \<Rightarrow> string list \<Rightarrow> string list \<Rightarrow> caller_error + Caller" where
  "newAuthenticated knd iss sub grps scps =
     (if strings_TrimSpace iss = [] \<or> strings_TrimSpace sub = [] then Inl ErrInvalidCaller
      else Inr \<lparr>kind = knd, issuer = iss, subject = sub, groups = grps, scopes = set scps\<rparr>)"

definition NewSession :: "string \<Rightarrow> string \<Rightarrow> string list \<Rightarrow> caller_error + Caller" where
  "NewSession iss sub grps = newAuthenticated KindSession iss sub grps []"

definition NewBearer ::
  "string \<Rightarrow> string \<Rightarrow> string list \<Rightarrow> string list \<Rightarrow> caller_error + Caller" where
  "NewBearer iss sub grps scps = newAuthenticated KindBearer iss sub grps scps"

definition Anonymous :: Caller where
  "Anonymous = zero_Caller\<lparr>kind := KindAnonymous\<rparr>"

definition HasScope :: "Caller \<Rightarrow> string \<Rightarrow> bool" where
  "HasScope c scope \<longleftrightarrow> scope \<in> scopes c"

definition Scopes :: "Caller \<Rightarrow> string list" where
  "Scopes c = sorted_list_of_set (scopes c)"

text \<open>The callers the package can construct: the fields are unexported, so every caller other
  than the zero value comes from one of the three constructors.\<close>

inductive constructed :: "Caller \<Rightarrow> bool" where
  anonymous: "constructed Anonymous"
| session: "NewSession iss sub grps = Inr c \<Longrightarrow> constructed c"
| bearer: "NewBearer iss sub grps scps = Inr c \<Longrightarrow> constructed c"

inductive_cases constructedE: "constructed c"

lemmas caller_defs = newAuthenticated_def NewSession_def NewBearer_def Anonymous_def
  zero_Caller_def HasScope_def

lemma constructed_scopes:
  "constructed c \<Longrightarrow> finite (scopes c) \<and> (kind c \<noteq> KindBearer \<longrightarrow> scopes c = {})"
  by (auto elim!: constructedE simp: caller_defs split: if_splits)

lemma constructed_identity:
  "constructed c \<Longrightarrow> kind c \<noteq> KindAnonymous \<Longrightarrow>
     kind c \<in> {KindSession, KindBearer} \<and> strings_TrimSpace (issuer c) \<noteq> [] \<and>
     strings_TrimSpace (subject c) \<noteq> []"
  by (auto elim!: constructedE simp: caller_defs split: if_splits)

text \<open>Identities: every constructed caller is anonymous with no identity, groups or scopes, or
  authenticated with a non-blank issuer and subject; only bearer callers carry scopes; \<open>Scopes\<close>
  lists exactly the scopes for which \<open>HasScope\<close> holds, in order and without repetition.\<close>

lemma caller_wellformed:
  assumes "constructed c"
  shows "(kind c = KindAnonymous \<longrightarrow> c = Anonymous) \<and>
    (kind c \<noteq> KindAnonymous \<longrightarrow> kind c \<in> {KindSession, KindBearer} \<and>
       strings_TrimSpace (issuer c) \<noteq> [] \<and> strings_TrimSpace (subject c) \<noteq> []) \<and>
    (kind c \<noteq> KindBearer \<longrightarrow> Scopes c = []) \<and>
    (\<forall>s. s \<in> set (Scopes c) \<longleftrightarrow> HasScope c s) \<and> sorted (Scopes c) \<and> distinct (Scopes c)"
proof -
  have "kind c = KindAnonymous \<longrightarrow> c = Anonymous"
    using assms by (auto elim!: constructedE simp: caller_defs split: if_splits)
  then show ?thesis
    using constructed_scopes [OF assms] constructed_identity [OF assms]
    by (auto simp: Scopes_def HasScope_def)
qed

lemma demo_bearer:
  "NewBearer ''https://idp'' ''ci'' [''ops''] [''b'', ''a''] =
     Inr \<lparr>kind = KindBearer, issuer = ''https://idp'', subject = ''ci'', groups = [''ops''],
          scopes = {''a'', ''b''}\<rparr>"
proof -
  have "strings_TrimSpace ''https://idp'' = ''https://idp''" "strings_TrimSpace ''ci'' = ''ci''"
    by code_simp+
  then show ?thesis by (auto simp: NewBearer_def newAuthenticated_def)
qed

end
