(* ===== verification/Go_Context.thy ===== *)
theory Go_Context
  imports Prelude
begin

text \<open>
  Request contexts, as the backend uses Go's package context: cancellation, its cause, and the
  one value Vaultsmith stores in a context, the lease binding of
  \<open>backend/internal/vaultservice/admission.go\<close>.

  A context may be cancelled by another goroutine between any two instructions. \<open>ctx_Err\<close> and
  \<open>ctx_Cause\<close> are therefore functions of a logical time: every check of the source reads them at
  its own instant, later checks at later instants, and a statement that quantifies over the
  context covers every moment at which a cancellation can arrive. Lease states and bindings are
  heap objects in the source and are named here by their addresses.
\<close>

datatype ctx_err = Canceled | DeadlineExceeded

text \<open>The cause of a cancellation is one of the two standard errors or any other error.\<close>

datatype ctx_cause = CauseErr ctx_err | CauseOther string

text \<open>A context carries at most one lease binding, under \<open>leaseContextKey\<close>, and the binding
  remembers the context it was bound from: the two types are mutually recursive.\<close>

datatype leaseContextBinding =
    Binding (binding_addr: nat) (binding_state: nat) (binding_origin: "context_t option")
and context_t =
    Context (ctx_Err: "nat \<Rightarrow> ctx_err option") (ctx_Cause: "nat \<Rightarrow> ctx_cause option")
      (ctx_binding: "leaseContextBinding option")

text \<open>\<open>context.Context\<close> values of the source may be nil.\<close>

type_synonym ctx = "context_t option"

text \<open>What package context documents: once an error is set it stays, and the cause is set exactly
  when the error is.\<close>

definition ctx_ok :: "context_t \<Rightarrow> bool" where
  "ctx_ok c \<longleftrightarrow>
     (\<forall>t u. t \<le> u \<longrightarrow> ctx_Err c t \<noteq> None \<longrightarrow> ctx_Err c u = ctx_Err c t) \<and>
     (\<forall>t. (ctx_Cause c t = None) = (ctx_Err c t = None))"

definition background :: context_t where
  "background = Context (\<lambda>_. None) (\<lambda>_. None) None"

lemma background_ok [simp]: "ctx_ok background"
  by (simp add: ctx_ok_def background_def)

lemma background_simps [simp]:
  "ctx_Err background t = None" "ctx_Cause background t = None" "ctx_binding background = None"
  by (simp_all add: background_def)

text \<open>\<open>context.WithValue(ctx, leaseContextKey{}, binding)\<close>.\<close>

definition with_binding :: "context_t \<Rightarrow> leaseContextBinding \<Rightarrow> context_t" where
  "with_binding c b = Context (ctx_Err c) (ctx_Cause c) (Some b)"

lemma with_binding_simps [simp]:
  "ctx_Err (with_binding c b) = ctx_Err c" "ctx_Cause (with_binding c b) = ctx_Cause c"
  "ctx_binding (with_binding c b) = Some b"
  by (simp_all add: with_binding_def)

lemma with_binding_ok [simp]: "ctx_ok (with_binding c b) = ctx_ok c"
  by (simp add: ctx_ok_def)

text \<open>\<open>contextCancellation\<close>: a nil context counts as cancelled; a cancelled one reports its cause,
  or its error when it has no cause.\<close>

definition contextCancellation :: "ctx \<Rightarrow> nat \<Rightarrow> ctx_cause option" where
  "contextCancellation c t =
     (case c of
        None \<Rightarrow> Some (CauseErr Canceled)
      | Some x \<Rightarrow>
          (case ctx_Err x t of
             None \<Rightarrow> None
           | Some err \<Rightarrow>
               (case ctx_Cause x t of Some cause \<Rightarrow> Some cause | None \<Rightarrow> Some (CauseErr err))))"

definition leaseBindingFromContext :: "ctx \<Rightarrow> leaseContextBinding option" where
  "leaseBindingFromContext c = (case c of None \<Rightarrow> None | Some x \<Rightarrow> ctx_binding x)"

text \<open>
  \<open>mergeCancellationContexts(origin, child)\<close>: a child of \<open>origin\<close> that is also cancelled, with
  the child's cause, by a function the runtime starts when \<open>child\<close> is done. That function runs in
  a goroutine of its own; \<open>delivered t\<close> says whether it has run by time \<open>t\<close>.
\<close>

definition mergeCancellationContexts :: "(nat \<Rightarrow> bool) \<Rightarrow> context_t \<Rightarrow> context_t \<Rightarrow> context_t" where
  "mergeCancellationContexts delivered origin child =
     Context
       (\<lambda>t. case ctx_Err origin t of
              Some err \<Rightarrow> Some err
            | None \<Rightarrow> if ctx_Err child t \<noteq> None \<and> delivered t then Some Canceled else None)
       (\<lambda>t. case ctx_Err origin t of
              Some err \<Rightarrow> ctx_Cause origin t
            | None \<Rightarrow> if ctx_Err child t \<noteq> None \<and> delivered t then ctx_Cause child t else None)
       (ctx_binding origin)"

lemma contextCancellation_None [simp]: "contextCancellation None t \<noteq> None"
  by (simp add: contextCancellation_def)

lemma contextCancellation_Some:
  "contextCancellation (Some c) t = None \<longleftrightarrow> ctx_Err c t = None"
  by (auto simp: contextCancellation_def split: option.splits)

text \<open>Once the contexts it merges are not cancelled, neither is the merged context.\<close>

lemma merged_not_cancelled:
  "ctx_Err origin t = None \<Longrightarrow> ctx_Err child t = None \<Longrightarrow>
     ctx_Err (mergeCancellationContexts d origin child) t = None"
  by (simp add: mergeCancellationContexts_def)

lemma merged_cancelled_origin:
  "ctx_Err (mergeCancellationContexts d origin child) t = None \<Longrightarrow> ctx_Err origin t = None"
  by (simp add: mergeCancellationContexts_def split: option.splits)

lemma merged_binding [simp]:
  "ctx_binding (mergeCancellationContexts d origin child) = ctx_binding origin"
  by (simp add: mergeCancellationContexts_def)

lemma cancellation_persists:
  assumes "ctx_ok c" "t \<le> u" "ctx_Err c u = None"
  shows "ctx_Err c t = None"
  using assms unfolding ctx_ok_def by (metis option.distinct(1))

end
