(* ===== verification/Vault_Config.thy ===== *)
theory Vault_Config
  imports Ansible_Vault Go_Context
begin

text \<open>
  Profile configuration and the profile executors, \<open>backend/internal/config/config.go\<close>:
  profile identifiers, the validation of the profile list, password resolution through the
  environment, and the executor bound to each profile.

  The JSON decoder is the argument \<open>decode\<close>: the array of profile objects when the text is
  exactly one such array with no unknown field and nothing after it, \<open>None\<close> otherwise.
\<close>

definition in_range :: "char \<Rightarrow> char \<Rightarrow> char \<Rightarrow> bool" where
  "in_range lo hi c \<longleftrightarrow> (of_char lo :: nat) \<le> of_char c \<and> (of_char c :: nat) \<le> of_char hi"

definition lower_alnum :: "char \<Rightarrow> bool" where
  "lower_alnum c \<longleftrightarrow> in_range (CHR ''a'') (CHR ''z'') c \<or> in_range (CHR ''0'') (CHR ''9'') c"

text \<open>\<open>^[a-z0-9][a-z0-9._-]{0,63}$\<close>\<close>

fun profileIDPattern :: "string \<Rightarrow> bool" where
  "profileIDPattern [] = False"
| "profileIDPattern (c # cs) =
     (lower_alnum c \<and> length cs \<le> 63 \<and>
      list_all (\<lambda>d. lower_alnum d \<or> d = CHR ''.'' \<or> d = CHR ''_'' \<or> d = CHR ''-'') cs)"

definition IsValidProfileID :: "string \<Rightarrow> bool" where
  "IsValidProfileID pid = profileIDPattern pid"

text \<open>\<open>^[A-Z_][A-Z0-9_]*$\<close>\<close>

fun passwordEnvPattern :: "string \<Rightarrow> bool" where
  "passwordEnvPattern [] = False"
| "passwordEnvPattern (c # cs) =
     ((in_range (CHR ''A'') (CHR ''Z'') c \<or> c = CHR ''_'') \<and>
      list_all (\<lambda>d. in_range (CHR ''A'') (CHR ''Z'') d \<or> in_range (CHR ''0'') (CHR ''9'') d
                    \<or> d = CHR ''_'') cs)"

definition reservedEnvNames :: "string list" where
  "reservedEnvNames = [''VAULT_PROFILES_JSON'', ''HTTP_ADDR'', ''MCP_ENABLED'', ''MCPGODEBUG'',
     ''PROOFS_ENABLED'', ''PROOFS_KEYRING_FILE'']"

record PublicProfile =
  ID :: string
  Label :: string

record rawProfile =
  raw_ID :: string
  raw_Label :: string
  raw_PasswordEnv :: string

record profile =
  public :: PublicProfile
  password :: go_bytes

datatype config_error =
    ProfilesJSONRequired
  | InvalidProfilesJSON
  | NoProfiles
  | ProfileInvalidID nat
  | DuplicateProfileID string
  | EmptyLabel string
  | InvalidPasswordEnv string
  | ReservedPasswordEnv string
  | DuplicatePasswordEnv string
  | MissingPassword string

type_synonym env_lookup = "string \<Rightarrow> string option"

text \<open>The loop of \<open>LoadJSON\<close> over the decoded profiles, with the identifiers and environment names
  seen so far.\<close>

fun load_profiles ::
  "env_lookup \<Rightarrow> nat \<Rightarrow> string list \<Rightarrow> string list \<Rightarrow> rawProfile list \<Rightarrow> config_error + profile list"
where
  "load_profiles lookup index seenIDs seenEnvs [] = Inr []"
| "load_profiles lookup index seenIDs seenEnvs (raw # raws) =
     (if \<not> profileIDPattern (raw_ID raw) then Inl (ProfileInvalidID index)
      else if raw_ID raw \<in> set seenIDs then Inl (DuplicateProfileID (raw_ID raw))
      else let label = strings_TrimSpace (raw_Label raw) in
        if label = [] then Inl (EmptyLabel (raw_ID raw))
        else if \<not> passwordEnvPattern (raw_PasswordEnv raw) then Inl (InvalidPasswordEnv (raw_ID raw))
        else if raw_PasswordEnv raw \<in> set reservedEnvNames then Inl (ReservedPasswordEnv (raw_ID raw))
        else if raw_PasswordEnv raw \<in> set seenEnvs
          then Inl (DuplicatePasswordEnv (raw_PasswordEnv raw))
        else (case lookup (raw_PasswordEnv raw) of
            None \<Rightarrow> Inl (MissingPassword (raw_ID raw))
          | Some pw \<Rightarrow>
              if pw = [] then Inl (MissingPassword (raw_ID raw))
              else (case load_profiles lookup (Suc index) (raw_ID raw # seenIDs)
                           (raw_PasswordEnv raw # seenEnvs) raws of
                      Inl err \<Rightarrow> Inl err
                    | Inr profiles \<Rightarrow>
                        Inr (\<lparr>public = \<lparr>ID = raw_ID raw, Label = label\<rparr>, password = pw\<rparr>
                             # profiles))))"

text \<open>A configuration: the profiles in order, and the executor's table from identifiers to
  profiles.\<close>

record Config =
  profiles :: "profile list"
  executor :: "string \<rightharpoonup> profile"

definition build_executor :: "profile list \<Rightarrow> (string \<rightharpoonup> profile)" where
  "build_executor ps = foldl (\<lambda>m p. m(ID (public p) \<mapsto> p)) Map.empty ps"

definition LoadJSON ::
  "(string \<Rightarrow> rawProfile list option) \<Rightarrow> string \<Rightarrow> env_lookup \<Rightarrow> config_error + Config" where
  "LoadJSON decode profilesJSON lookup =
     (case decode profilesJSON of
        None \<Rightarrow> Inl InvalidProfilesJSON
      | Some raws \<Rightarrow>
          if raws = [] then Inl NoProfiles
          else (case load_profiles lookup 0 [] [] raws of
                  Inl err \<Rightarrow> Inl err
                | Inr ps \<Rightarrow> Inr \<lparr>profiles = ps, executor = build_executor ps\<rparr>))"

definition LoadFromEnv ::
  "(string \<Rightarrow> rawProfile list option) \<Rightarrow> env_lookup \<Rightarrow> config_error + Config" where
  "LoadFromEnv decode lookup =
     (case lookup ''VAULT_PROFILES_JSON'' of
        None \<Rightarrow> Inl ProfilesJSONRequired
      | Some json \<Rightarrow>
          if strings_TrimSpace json = [] then Inl ProfilesJSONRequired
          else LoadJSON decode json lookup)"

definition PublicProfiles :: "Config \<Rightarrow> PublicProfile list" where
  "PublicProfiles c = map public (profiles c)"

text \<open>\<open>executor.ForProfile\<close>: \<open>None\<close> is \<open>ErrProfileNotFound\<close>.\<close>

definition ForProfile :: "Config \<Rightarrow> string \<Rightarrow> profile option" where
  "ForProfile c profileID = executor c profileID"

datatype executor_error = ExecContext ctx_err | ExecVault vault_error

text \<open>\<open>profileExecutor.Encrypt\<close> and \<open>Decrypt\<close> check the context before the codec runs (time \<open>t\<close>)
  and after it (time \<open>t + 1\<close>). The random source yields fresh bytes at every time.\<close>

definition exec_Encrypt ::
  "crypto \<Rightarrow> (nat \<Rightarrow> rand_reader) \<Rightarrow> profile \<Rightarrow> context_t \<Rightarrow> nat \<Rightarrow> string \<Rightarrow>
     executor_error + string" where
  "exec_Encrypt c random p ctx t val =
     (case ctx_Err ctx t of
        Some err \<Rightarrow> Inl (ExecContext err)
      | None \<Rightarrow>
          (case Encrypt c (random t) val (password p) (ID (public p)) of
             Inl err \<Rightarrow> Inl (ExecVault err)
           | Inr output \<Rightarrow>
               (case ctx_Err ctx (t + 1) of
                  Some err \<Rightarrow> Inl (ExecContext err)
                | None \<Rightarrow> Inr output)))"

definition exec_Decrypt ::
  "crypto \<Rightarrow> profile \<Rightarrow> context_t \<Rightarrow> nat \<Rightarrow> string \<Rightarrow> executor_error + string" where
  "exec_Decrypt c p ctx t val =
     (case ctx_Err ctx t of
        Some err \<Rightarrow> Inl (ExecContext err)
      | None \<Rightarrow>
          (case Decrypt c val (password p) of
             Inl err \<Rightarrow> Inl (ExecVault err)
           | Inr plaintext \<Rightarrow>
               (case ctx_Err ctx (t + 1) of
                  Some err \<Rightarrow> Inl (ExecContext err)
                | None \<Rightarrow> Inr plaintext)))"

text \<open>The interface the service calls, and its implementation for one configured profile.\<close>

record ProfileExecutor =
  pe_Encrypt :: "context_t \<Rightarrow> nat \<Rightarrow> string \<Rightarrow> executor_error + string"
  pe_Decrypt :: "context_t \<Rightarrow> nat \<Rightarrow> string \<Rightarrow> executor_error + string"

definition profileExecutor :: "crypto \<Rightarrow> (nat \<Rightarrow> rand_reader) \<Rightarrow> profile \<Rightarrow> ProfileExecutor" where
  "profileExecutor c random p =
     \<lparr>pe_Encrypt = exec_Encrypt c random p, pe_Decrypt = exec_Decrypt c p\<rparr>"

section \<open>Lemmas\<close>

lemma in_range_simps [simp]:
  "in_range (CHR ''a'') (CHR ''z'') c \<longleftrightarrow> 97 \<le> (of_char c :: nat) \<and> (of_char c :: nat) \<le> 122"
  "in_range (CHR ''0'') (CHR ''9'') c \<longleftrightarrow> 48 \<le> (of_char c :: nat) \<and> (of_char c :: nat) \<le> 57"
  "in_range (CHR ''A'') (CHR ''Z'') c \<longleftrightarrow> 65 \<le> (of_char c :: nat) \<and> (of_char c :: nat) \<le> 90"
  by (simp_all add: in_range_def)

lemma valid_id_length: "IsValidProfileID i \<Longrightarrow> i \<noteq> [] \<and> length i \<le> 64"
  by (cases i) (auto simp: IsValidProfileID_def)

definition id_char :: "char \<Rightarrow> bool" where
  "id_char c \<longleftrightarrow> lower_alnum c \<or> c = CHR ''.'' \<or> c = CHR ''_'' \<or> c = CHR ''-''"

lemma valid_id_chars: "IsValidProfileID i \<Longrightarrow> c \<in> set i \<Longrightarrow> id_char c"
  by (cases i) (auto simp: IsValidProfileID_def id_char_def list_all_iff)

lemma id_char_range: "id_char c \<Longrightarrow> 45 \<le> (of_char c :: nat) \<and> (of_char c :: nat) \<le> 122"
  by (auto simp: id_char_def lower_alnum_def)

lemma valid_id_ascii: "IsValidProfileID i \<Longrightarrow> is_ascii i"
  using valid_id_chars id_char_range by (fastforce simp: is_ascii_def list_all_iff)

lemma valid_id_no_sep:
  "IsValidProfileID i \<Longrightarrow>
     LF \<notin> set i \<and> CR \<notin> set i \<and> CHR '':'' \<notin> set i \<and> CHR '';'' \<notin> set i \<and> CHR ''*'' \<notin> set i"
  using valid_id_chars [of i] by (fastforce simp: id_char_def lower_alnum_def)

text \<open>A text that starts and ends with a character above the space and below 0x80 is its own
  trimming.\<close>

lemma trim_words_id:
  assumes "s = [] \<or> (\<forall>r\<in>set rs. r \<noteq> [] \<longrightarrow> hd r \<noteq> hd s)"
  shows "trim_words rs s = s"
proof -
  have "find (\<lambda>r. r \<noteq> [] \<and> strings_HasPrefix s r) rs = None"
    using assms by (fastforce simp: find_None_iff HasPrefix_iff)
  then show ?thesis by (subst trim_words.simps) simp
qed

lemma space_runes_hd: "r \<in> set space_runes \<Longrightarrow> (of_char (hd r) :: nat) \<le> 32 \<or> 194 \<le> (of_char (hd r) :: nat)"
  unfolding space_runes_def by auto

lemma space_runes_last: "r \<in> set space_runes \<Longrightarrow> (of_char (last r) :: nat) \<le> 32 \<or> 128 \<le> (of_char (last r) :: nat)"
  unfolding space_runes_def by auto

lemma TrimSpace_id:
  assumes "s \<noteq> []" "32 < (of_char (hd s) :: nat)" "(of_char (hd s) :: nat) < 128"
    "32 < (of_char (last s) :: nat)" "(of_char (last s) :: nat) < 128"
  shows "strings_TrimSpace s = s"
proof -
  have "\<forall>r\<in>set space_runes. r \<noteq> [] \<longrightarrow> hd r \<noteq> hd s"
    using assms space_runes_hd by fastforce
  then have 1: "trim_words space_runes s = s" by (simp add: trim_words_id)
  have "\<forall>r\<in>set (map rev space_runes). r \<noteq> [] \<longrightarrow> hd r \<noteq> hd (rev s)"
  proof (intro ballI impI)
    fix r assume "r \<in> set (map rev space_runes)" "r \<noteq> []"
    then obtain q where "r = rev q" "q \<in> set space_runes" by auto
    with space_runes_last [of q] assms show "hd r \<noteq> hd (rev s)" by (auto simp: hd_rev)
  qed
  then have "trim_words (map rev space_runes) (rev s) = rev s" by (simp add: trim_words_id)
  with 1 show ?thesis by (simp add: strings_TrimSpace_def)
qed

lemma valid_id_vault_id: "IsValidProfileID i \<Longrightarrow> ValidateVaultID i = None"
proof -
  assume v: "IsValidProfileID i"
  have ne: "i \<noteq> []" using valid_id_length [OF v] by blast
  have "id_char (hd i)" "id_char (last i)" using valid_id_chars [OF v] ne by auto
  then have "strings_TrimSpace i = i"
    using id_char_range [of "hd i"] id_char_range [of "last i"] ne by (intro TrimSpace_id) auto
  then show ?thesis
    using ne valid_id_no_sep [OF v]
    by (auto simp: ValidateVaultID_def strings_ContainsAny_def list_ex_iff)
qed

lemma foldl_upd_notin:
  "i \<notin> (\<lambda>p. ID (public p)) ` set ps \<Longrightarrow> foldl (\<lambda>m p. m(ID (public p) \<mapsto> p)) m ps i = m i"
  by (induction ps arbitrary: m) auto

lemma foldl_upd_distinct:
  "distinct (map (\<lambda>p. ID (public p)) ps) \<Longrightarrow> p \<in> set ps \<Longrightarrow>
     foldl (\<lambda>m p. m(ID (public p) \<mapsto> p)) m ps (ID (public p)) = Some p"
proof (induction ps arbitrary: m)
  case (Cons q ps)
  show ?case
  proof (cases "p \<in> set ps")
    case True
    then show ?thesis using Cons by simp
  next
    case False
    with Cons.prems have [simp]: "p = q" by simp
    from Cons.prems have "ID (public q) \<notin> (\<lambda>p. ID (public p)) ` set ps" by auto
    from foldl_upd_notin [OF this, of "m(ID (public q) \<mapsto> q)"]
    show ?thesis by (simp del: fun_upd_apply) (simp only: fun_upd_same)
  qed
qed simp

lemma build_executor_lookup:
  assumes "distinct (map (\<lambda>p. ID (public p)) ps)"
  shows "build_executor ps i = Some p \<longleftrightarrow> p \<in> set ps \<and> ID (public p) = i"
proof -
  have "build_executor ps i = None" if "i \<notin> (\<lambda>p. ID (public p)) ` set ps"
    using that by (simp add: build_executor_def foldl_upd_notin)
  moreover have "build_executor ps (ID (public q)) = Some q" if "q \<in> set ps" for q
    using that assms by (simp add: build_executor_def foldl_upd_distinct)
  ultimately show ?thesis by (metis (no_types, lifting) imageE option.distinct(1) option.inject)
qed

subsection \<open>Loading the profile list\<close>

text \<open>What a profile list must satisfy, independently of the order in which \<open>LoadJSON\<close> looks at
  it.\<close>

definition raw_ok :: "env_lookup \<Rightarrow> rawProfile \<Rightarrow> bool" where
  "raw_ok lookup raw \<longleftrightarrow>
     profileIDPattern (raw_ID raw) \<and> strings_TrimSpace (raw_Label raw) \<noteq> [] \<and>
     passwordEnvPattern (raw_PasswordEnv raw) \<and> raw_PasswordEnv raw \<notin> set reservedEnvNames \<and>
     (\<exists>pw. lookup (raw_PasswordEnv raw) = Some pw \<and> pw \<noteq> [])"

definition resolve_raw :: "env_lookup \<Rightarrow> rawProfile \<Rightarrow> profile" where
  "resolve_raw lookup raw =
     \<lparr>public = \<lparr>ID = raw_ID raw, Label = strings_TrimSpace (raw_Label raw)\<rparr>,
      password = the (lookup (raw_PasswordEnv raw))\<rparr>"

lemma load_profiles_iff:
  "load_profiles lookup n ids envs raws = Inr ps \<longleftrightarrow>
     list_all (raw_ok lookup) raws \<and> distinct (map raw_ID raws) \<and>
     distinct (map raw_PasswordEnv raws) \<and> set ids \<inter> raw_ID ` set raws = {} \<and>
     set envs \<inter> raw_PasswordEnv ` set raws = {} \<and> ps = map (resolve_raw lookup) raws"
proof (induction raws arbitrary: n ids envs ps)
  case Nil
  then show ?case by auto
next
  case (Cons r rs)
  show ?case
  proof (cases "raw_ok lookup r \<and> raw_ID r \<notin> set ids \<and> raw_PasswordEnv r \<notin> set envs")
    case False
    then show ?thesis by (auto simp: raw_ok_def Let_def split: option.splits if_splits)
  next
    case True
    then obtain pw where pw: "lookup (raw_PasswordEnv r) = Some pw" "pw \<noteq> []"
      by (auto simp: raw_ok_def)
    have "load_profiles lookup n ids envs (r # rs) = Inr ps \<longleftrightarrow>
      (\<exists>qs. load_profiles lookup (Suc n) (raw_ID r # ids) (raw_PasswordEnv r # envs) rs = Inr qs \<and>
         ps = resolve_raw lookup r # qs)"
      using True pw by (auto simp: raw_ok_def Let_def resolve_raw_def split: sum.splits)
    then show ?thesis using True by (auto simp: Cons.IH)
  qed
qed

lemma LoadJSON_iff:
  "LoadJSON decode json lookup = Inr cfg \<longleftrightarrow>
     (\<exists>raws. decode json = Some raws \<and> raws \<noteq> [] \<and> list_all (raw_ok lookup) raws \<and>
        distinct (map raw_ID raws) \<and> distinct (map raw_PasswordEnv raws) \<and>
        cfg = \<lparr>profiles = map (resolve_raw lookup) raws,
               executor = build_executor (map (resolve_raw lookup) raws)\<rparr>)"
proof -
  have "LoadJSON decode json lookup = Inr cfg \<longleftrightarrow>
     (\<exists>raws ps. decode json = Some raws \<and> raws \<noteq> [] \<and> load_profiles lookup 0 [] [] raws = Inr ps \<and>
        cfg = \<lparr>profiles = ps, executor = build_executor ps\<rparr>)"
    by (auto simp: LoadJSON_def split: option.splits sum.splits)
  then show ?thesis by (auto simp: load_profiles_iff)
qed

definition profile_ok :: "profile \<Rightarrow> bool" where
  "profile_ok p \<longleftrightarrow> IsValidProfileID (ID (public p)) \<and> password p \<noteq> []"

definition config_ok :: "Config \<Rightarrow> bool" where
  "config_ok cfg \<longleftrightarrow>
     profiles cfg \<noteq> [] \<and> list_all profile_ok (profiles cfg) \<and>
     distinct (map ID (PublicProfiles cfg)) \<and>
     (\<forall>i p. ForProfile cfg i = Some p \<longleftrightarrow> p \<in> set (profiles cfg) \<and> ID (public p) = i)"

lemma LoadJSON_config_ok:
  assumes "LoadJSON decode json lookup = Inr cfg"
  shows "config_ok cfg"
proof -
  from assms obtain raws where r: "raws \<noteq> []" "list_all (raw_ok lookup) raws"
    "distinct (map raw_ID raws)"
    and cfg: "cfg = \<lparr>profiles = map (resolve_raw lookup) raws,
               executor = build_executor (map (resolve_raw lookup) raws)\<rparr>"
    by (auto simp: LoadJSON_iff)
  have ids: "map ID (PublicProfiles cfg) = map raw_ID raws"
    by (simp add: cfg PublicProfiles_def resolve_raw_def comp_def)
  have "map (\<lambda>p. ID (public p)) (profiles cfg) = map raw_ID raws"
    by (simp add: cfg resolve_raw_def comp_def)
  then have d: "distinct (map (\<lambda>p. ID (public p)) (profiles cfg))" using r by metis
  have "executor cfg = build_executor (profiles cfg)" by (simp add: cfg)
  then have "ForProfile cfg i = Some p \<longleftrightarrow> p \<in> set (profiles cfg) \<and> ID (public p) = i" for i p
    using build_executor_lookup [OF d] by (metis ForProfile_def)
  moreover have "list_all profile_ok (profiles cfg)"
    using r by (auto simp: cfg list_all_iff profile_ok_def resolve_raw_def raw_ok_def IsValidProfileID_def)
  ultimately show ?thesis using r ids by (simp add: config_ok_def cfg)
qed

subsection \<open>Executors as an interface\<close>

text \<open>
  What the service relies on in the executor of a profile: it never succeeds under a cancelled
  context, sealing succeeds whenever the context is live, what it seals opens again, and a sealed
  text stays within the limits for Vault text and is in canonical form with the profile's header.
\<close>

definition live_at :: "context_t \<Rightarrow> nat \<Rightarrow> bool" where
  "live_at ctx t \<longleftrightarrow> ctx_Err ctx t = None \<and> ctx_Err ctx (t + 1) = None"

locale sealing_executors =
  fixes valid :: "'p \<Rightarrow> bool"
    and name :: "'p \<Rightarrow> string"
    and exec :: "'p \<Rightarrow> ProfileExecutor"
  assumes seal_live: "pe_Encrypt (exec p) ctx t v = Inr w \<Longrightarrow> live_at ctx t"
    and open_live: "pe_Decrypt (exec p) ctx t v = Inr w \<Longrightarrow> live_at ctx t"
    and seal_total: "valid p \<Longrightarrow> live_at ctx t \<Longrightarrow> \<exists>w. pe_Encrypt (exec p) ctx t v = Inr w"
    and open_seal: "valid p \<Longrightarrow> pe_Encrypt (exec p) ctx t v = Inr w \<Longrightarrow> live_at ctx' t' \<Longrightarrow>
      pe_Decrypt (exec p) ctx' t' w = Inr v"
    and open_time: "live_at ctx t \<Longrightarrow> live_at ctx' t' \<Longrightarrow>
      pe_Decrypt (exec p) ctx t v = pe_Decrypt (exec p) ctx' t' v"
    and seal_form: "valid p \<Longrightarrow> pe_Encrypt (exec p) ctx t v = Inr w \<Longrightarrow>
      length v \<le> MaxPlaintextBytes \<Longrightarrow>
      length w \<le> MaxVaultTextBytes \<and> utf8_valid w \<and> CanonicalEnvelope w = Inr w \<and>
      strings_HasPrefix w (Header12Prefix @ '';'' @ name p @ [LF])"
begin

text \<open>A value opened with one profile and sealed with another opens to the same value.\<close>

lemma rekeyed_opens:
  assumes "valid q" "pe_Decrypt (exec p) ctx t v = Inr plain"
    "pe_Encrypt (exec q) ctx' t' plain = Inr w" "live_at ctx'' t''"
  shows "pe_Decrypt (exec q) ctx'' t'' w = Inr plain"
  using open_seal [OF assms(1,3,4)] .

lemma rekey_chain:
  assumes "valid q" "pe_Decrypt (exec p) ctx t v = Inr plain"
    "pe_Encrypt (exec q) ctx' t' plain = Inr w" "live_at ctx'' t''"
  shows "pe_Decrypt (exec q) ctx'' t'' w = pe_Decrypt (exec p) ctx'' t'' v"
  using rekeyed_opens [OF assms] open_time [OF open_live [OF assms(2)] assms(4)] assms(2) by simp

end

text \<open>The conditions under which a configured profile's executor is what the service expects: the
  primitives have their documented sizes, the random source works, the profile was accepted.\<close>

type_synonym bound_profile = "crypto \<times> (nat \<Rightarrow> rand_reader) \<times> profile"

fun bound_ok :: "bound_profile \<Rightarrow> bool" where
  "bound_ok (c, random, p) \<longleftrightarrow>
     crypto_ok c \<and> (\<forall>t. rand_ok (random t) \<and> random t saltSize \<noteq> None) \<and> profile_ok p"

fun bound_name :: "bound_profile \<Rightarrow> string" where
  "bound_name (c, random, p) = ID (public p)"

fun bound_exec :: "bound_profile \<Rightarrow> ProfileExecutor" where
  "bound_exec (c, random, p) = profileExecutor c random p"

lemma exec_Encrypt_Inr:
  "exec_Encrypt c random p ctx t v = Inr w \<longleftrightarrow>
     live_at ctx t \<and> Encrypt c (random t) v (password p) (ID (public p)) = Inr w"
  by (auto simp: exec_Encrypt_def live_at_def split: option.splits sum.splits)

lemma exec_Decrypt_Inr:
  "exec_Decrypt c p ctx t v = Inr w \<longleftrightarrow> live_at ctx t \<and> Decrypt c v (password p) = Inr w"
  by (auto simp: exec_Decrypt_def live_at_def split: option.splits sum.splits)

lemma exec_Decrypt_live:
  "live_at ctx t \<Longrightarrow> exec_Decrypt c p ctx t v = map_sum ExecVault id (Decrypt c v (password p))"
  by (auto simp: exec_Decrypt_def live_at_def split: option.splits sum.splits)

lemma Encrypt_profile_total:
  assumes "bound_ok (c, random, p)"
  shows "\<exists>w. Encrypt c (random t) v (password p) (ID (public p)) = Inr w"
proof -
  from assms obtain slt where "random t 32 = Some slt" by fastforce
  then show ?thesis
    using assms valid_id_vault_id [of "ID (public p)"] encryptWithHeader_eq
    by (simp add: profile_ok_def Encrypt_def EncryptWithVaultID_def)
qed

lemma Encrypt_profile_form:
  assumes "bound_ok (c, random, p)" "Encrypt c (random t) v (password p) (ID (public p)) = Inr w"
    "length v \<le> MaxPlaintextBytes"
  shows "length w \<le> MaxVaultTextBytes \<and> utf8_valid w \<and> CanonicalEnvelope w = Inr w \<and>
    strings_HasPrefix w (Header12Prefix @ '';'' @ ID (public p) @ [LF])"
proof -
  let ?h = "Header12Prefix @ '';'' @ ID (public p)"
  from assms(1) have c: "crypto_ok c" and r: "rand_ok (random t)"
    and v: "IsValidProfileID (ID (public p))" by (auto simp: profile_ok_def)
  from Encrypt_Inr [OF c assms(2)] obtain slt where slt: "random t 32 = Some slt"
    and w: "w = seal_text c slt v (password p) ?h" by blast
  have len: "length slt = 32" using r slt by (simp add: rand_ok_def)
  have b: "length w \<le> MaxVaultTextBytes"
    unfolding w using length_seal_text_header12 [OF c len assms(3)] valid_id_length [OF v] by blast
  have "is_ascii ?h" using valid_id_ascii [OF v] by (simp add: Header12Prefix_def)
  then have "utf8_valid ?h" by (rule utf8_valid_ascii)
  then have can: "CanonicalEnvelope w = Inr w"
    using CanonicalEnvelope_seal_text [OF c header12_ok [OF valid_id_vault_id [OF v]] _ len] b
    unfolding w by blast
  have "strings_HasPrefix w (?h @ [LF])"
    unfolding w HasPrefix_iff by (auto simp: seal_text_def Let_def serializeVaultEnvelope_def)
  with b can show ?thesis by (auto simp: CanonicalEnvelope_Inr)
qed

interpretation vx: sealing_executors bound_ok bound_name bound_exec
proof (unfold_locales, goal_cases)
  case (1 p ctx t v w)
  then show ?case by (cases p) (simp add: profileExecutor_def exec_Encrypt_Inr)
next
  case (2 p ctx t v w)
  then show ?case by (cases p) (simp add: profileExecutor_def exec_Decrypt_Inr)
next
  case (3 p ctx t v)
  then show ?case using Encrypt_profile_total
    by (cases p) (simp add: profileExecutor_def exec_Encrypt_Inr)
next
  case (4 p ctx t v w ctx' t')
  obtain c random q where p: "p = (c, random, q)" by (metis prod_cases3)
  with 4 have "crypto_ok c" "rand_ok (random t)"
    "Encrypt c (random t) v (password q) (ID (public q)) = Inr w"
    by (auto simp: profileExecutor_def exec_Encrypt_Inr)
  then have "Decrypt c w (password q) = Inr v" by (rule vault.unseal_seal)
  then show ?case using 4 p by (simp add: profileExecutor_def exec_Decrypt_Inr)
next
  case (5 ctx t ctx' t' p v)
  then show ?case by (cases p) (simp add: profileExecutor_def exec_Decrypt_live)
next
  case (6 p ctx t v w)
  then show ?case using Encrypt_profile_form
    by (cases p) (fastforce simp: profileExecutor_def exec_Encrypt_Inr)
qed

section \<open>Properties\<close>

text \<open>C29. Loading a profile list succeeds exactly when it is a non-empty list of profiles with
  pairwise different identifiers and password variables, each with a valid identifier, a label
  that is not blank, and a well-formed, unreserved variable set to a non-empty password; the
  configuration then holds these profiles in order, with trimmed labels.\<close>

theorem load_json_exact:
  "(\<exists>cfg. LoadJSON decode json lookup = Inr cfg \<and> profiles cfg = ps) \<longleftrightarrow>
     (\<exists>raws. decode json = Some raws \<and> raws \<noteq> [] \<and> list_all (raw_ok lookup) raws \<and>
        distinct (map raw_ID raws) \<and> distinct (map raw_PasswordEnv raws) \<and>
        ps = map (resolve_raw lookup) raws)"
  by (auto simp: LoadJSON_iff)

text \<open>An executor is found for an identifier exactly when a loaded profile has it, and it is
  that profile's; every loaded profile has a valid identifier, usable as a vault label, and a
  non-empty password, so no executor is ever bound to an empty password.\<close>

lemma loaded_executors_exact:
  assumes "LoadJSON decode json lookup = Inr cfg"
  shows "(ForProfile cfg i = Some p \<longleftrightarrow> p \<in> set (profiles cfg) \<and> ID (public p) = i) \<and>
    (\<forall>q\<in>set (profiles cfg). IsValidProfileID (ID (public q)) \<and>
       ValidateVaultID (ID (public q)) = None \<and> password q \<noteq> []) \<and>
    distinct (map ID (PublicProfiles cfg)) \<and> profiles cfg \<noteq> []"
  using LoadJSON_config_ok [OF assms] valid_id_vault_id
  by (auto simp: config_ok_def list_all_iff profile_ok_def)

definition demo_raws :: "rawProfile list" where
  "demo_raws =
     [\<lparr>raw_ID = ''dev'', raw_Label = '' Development '', raw_PasswordEnv = ''PW_DEV''\<rparr>,
      \<lparr>raw_ID = ''prod'', raw_Label = ''Production'', raw_PasswordEnv = ''PW_PROD''\<rparr>]"

definition demo_lookup :: env_lookup where
  "demo_lookup = [''PW_DEV'' \<mapsto> ''devpw'', ''PW_PROD'' \<mapsto> ''prodpw'']"

definition demo_profiles :: "profile list" where
  "demo_profiles =
     [\<lparr>public = \<lparr>ID = ''dev'', Label = ''Development''\<rparr>, password = ''devpw''\<rparr>,
      \<lparr>public = \<lparr>ID = ''prod'', Label = ''Production''\<rparr>, password = ''prodpw''\<rparr>]"

lemma demo_load:
  "LoadJSON (\<lambda>_. Some demo_raws) ''[]'' demo_lookup =
     Inr \<lparr>profiles = demo_profiles, executor = build_executor demo_profiles\<rparr>"
proof -
  have "strings_TrimSpace '' Development '' = ''Development''"
    "strings_TrimSpace ''Production'' = ''Production''" by code_simp+
  then show ?thesis
    by (simp add: LoadJSON_def demo_raws_def demo_lookup_def demo_profiles_def Let_def
        lower_alnum_def reservedEnvNames_def)
qed

text \<open>For a configured profile, sealing under a live context succeeds, the result opens under
  any live context with the same profile to the value that was sealed, and both operations refuse
  to return anything once the context they were given is cancelled.\<close>

lemma profile_executor_roundtrip:
  assumes "crypto_ok c" "\<And>t. rand_ok (random t) \<and> random t saltSize \<noteq> None" "profile_ok p"
  shows "(live_at ctx t \<longrightarrow> (\<exists>w. exec_Encrypt c random p ctx t v = Inr w \<and>
      (\<forall>ctx' t'. live_at ctx' t' \<longrightarrow> exec_Decrypt c p ctx' t' w = Inr v))) \<and>
    (\<not> live_at ctx t \<longrightarrow> \<not> is_ok (exec_Encrypt c random p ctx t v) \<and>
       \<not> is_ok (exec_Decrypt c p ctx t v))"
proof -
  have ok: "bound_ok (c, random, p)" using assms by simp
  have "\<exists>w. exec_Encrypt c random p ctx t v = Inr w \<and>
      (\<forall>ctx' t'. live_at ctx' t' \<longrightarrow> exec_Decrypt c p ctx' t' w = Inr v)" if "live_at ctx t"
  proof -
    from vx.seal_total [OF ok that, of v] obtain w
      where w: "exec_Encrypt c random p ctx t v = Inr w" by (auto simp: profileExecutor_def)
    then show ?thesis using vx.open_seal [OF ok, of ctx t v w] by (simp add: profileExecutor_def)
  qed
  then show ?thesis by (auto simp: is_ok_conv exec_Encrypt_Inr exec_Decrypt_Inr)
qed

end
