(* ===== verification/Authz.thy ===== *)
theory Authz
  imports Vault_Config Caller
begin

text \<open>
  Authorization, \<open>backend/internal/authz/authorizer.go\<close> and its embedded \<open>model.conf\<close>: loading
  and validating the policy file, the roles of a caller, the decision for one check, the
  evaluation of several checks against one snapshot, and the reload when the file changes.

  Casbin, the CSV reader and the file system are parameters. \<open>casbin_ok\<close> states what Casbin
  documents for the embedded model: \<open>Enforce\<close> evaluates the matcher and the policy effect of
  \<open>model.conf\<close>, here \<open>model_effect\<close>, over the loaded permission rows. Go iterates over maps in an
  arbitrary order; the maps are association lists here, so the order is the list's.
\<close>

subsection \<open>Data\<close>

definition ActionListProfiles :: string where "ActionListProfiles = ''profiles:list''"
definition ActionEncrypt :: string where "ActionEncrypt = ''encrypt''"
definition ActionDecrypt :: string where "ActionDecrypt = ''decrypt''"
definition ActionRotate :: string where "ActionRotate = ''rotate''"
definition ResourceProfiles :: string where "ResourceProfiles = ''profiles''"

lemmas action_defs = ActionListProfiles_def ActionEncrypt_def ActionDecrypt_def ActionRotate_def
  ResourceProfiles_def

record Check =
  chk_Action :: string
  chk_Resource :: string

record Rule =
  Subject :: string
  Object :: string
  Action :: string
  Effect :: string

datatype authz_error = ErrForbidden | ErrPolicy string

record 'm casbin =
  cb_model :: "'m option"
  cb_LoadPolicyArray :: "string list \<Rightarrow> 'm \<Rightarrow> 'm option"
  cb_GetPolicy :: "'m \<Rightarrow> string list list option"
  cb_GetGroupingPolicy :: "'m \<Rightarrow> string list list option"
  cb_Enforce :: "'m \<Rightarrow> string set \<Rightarrow> string \<Rightarrow> string \<Rightarrow> bool option"

record 'm Policy =
  enforcer :: 'm
  rules :: "Rule list"
  groupRoles :: "(string \<times> string list) list"
  parents :: "(string \<times> string) list"
  path :: string
  profileIDs :: "string list"
  modTime :: int
  fsize :: int

record 'm Authorizer =
  policy :: "'m Policy option"

text \<open>A policy file as the loader sees it: its modification time and size, the lines the scanner
  delivers (\<open>None\<close> when the file cannot be opened), and whether the scanner ends with an
  error. A file system maps paths to files.\<close>

record policy_file =
  pf_modTime :: int
  pf_size :: int
  pf_lines :: "string list option"
  pf_scan_error :: bool

type_synonym file_system = "string \<Rightarrow> policy_file option"
type_synonym csv_reader = "string \<Rightarrow> string list option"

subsection \<open>Resources and matching\<close>

definition ProfileResource :: "string \<Rightarrow> string" where
  "ProfileResource profileID = ''profile:'' @ profileID"

definition RotationResource :: "string \<Rightarrow> string \<Rightarrow> string" where
  "RotationResource sourceID destinationID = ''rotation:'' @ sourceID @ '':'' @ destinationID"

definition matchesPolicyObject :: "string \<Rightarrow> string \<Rightarrow> bool" where
  "matchesPolicyObject resource selector =
     (if strings_HasSuffix selector ''*''
      then strings_HasPrefix resource (strings_TrimSuffix selector ''*'')
      else resource = selector)"

text \<open>The matcher and the policy effect of \<open>model.conf\<close>.\<close>

definition model_matches :: "string set \<Rightarrow> string \<Rightarrow> string \<Rightarrow> Rule \<Rightarrow> bool" where
  "model_matches roles obj act r \<longleftrightarrow>
     Subject r \<in> roles \<and> matchesPolicyObject obj (Object r) \<and> act = Action r"

definition model_effect :: "string set \<Rightarrow> string \<Rightarrow> string \<Rightarrow> Rule list \<Rightarrow> bool" where
  "model_effect roles obj act rs \<longleftrightarrow>
     list_ex (\<lambda>r. model_matches roles obj act r \<and> Effect r = ''allow'') rs \<and>
     \<not> list_ex (\<lambda>r. model_matches roles obj act r \<and> Effect r = ''deny'') rs"

definition row_rule :: "string list \<Rightarrow> Rule" where
  "row_rule row = \<lparr>Subject = row ! 0, Object = row ! 1, Action = row ! 2, Effect = row ! 3\<rparr>"

definition casbin_ok :: "'m casbin \<Rightarrow> bool" where
  "casbin_ok cb \<longleftrightarrow>
     (\<forall>m rows. cb_GetPolicy cb m = Some rows \<longrightarrow> list_all (\<lambda>row. length row = 4) rows \<longrightarrow>
        (\<forall>roles obj act. cb_Enforce cb m roles obj act =
           Some (model_effect roles obj act (map row_rule rows))))"

subsection \<open>Loading the policy file\<close>

text \<open>\<open>policyFileAdapter.LoadPolicy\<close>, the loop over the lines: blank lines and comments are
  skipped; every other line is a permission or a grouping row, and a row whose comma-joined key
  was seen before is refused unless it is the identical grouping row.\<close>

fun adapter_rows ::
  "'m casbin \<Rightarrow> csv_reader \<Rightarrow> (string \<times> string list) list \<Rightarrow> string list \<Rightarrow> 'm \<Rightarrow> 'm option" where
  "adapter_rows cb csv seenRows [] m = Some m"
| "adapter_rows cb csv seenRows (text # texts) m =
     (let line = strings_TrimSpace text in
      if line = [] \<or> strings_HasPrefix line ''#'' then adapter_rows cb csv seenRows texts m
      else (case csv line of
        None \<Rightarrow> None
      | Some row \<Rightarrow>
          if row = [] \<or> hd row \<noteq> ''p'' \<and> hd row \<noteq> ''g'' then None
          else let key = strings_Join row '','' in
            if (case map_of seenRows key of
                  None \<Rightarrow> False
                | Some previous \<Rightarrow> hd row = ''p'' \<or> previous \<noteq> row) then None
            else (case cb_LoadPolicyArray cb row m of
                    None \<Rightarrow> None
                  | Some m' \<Rightarrow> adapter_rows cb csv ((key, row) # seenRows) texts m')))"

definition adapter_LoadPolicy :: "'m casbin \<Rightarrow> csv_reader \<Rightarrow> policy_file \<Rightarrow> 'm \<Rightarrow> 'm option" where
  "adapter_LoadPolicy cb csv file m =
     (case pf_lines file of
        None \<Rightarrow> None
      | Some texts \<Rightarrow>
          (case adapter_rows cb csv [] texts m of
             None \<Rightarrow> None
           | Some m' \<Rightarrow> if pf_scan_error file then None else Some m'))"

fun append_role :: "string \<Rightarrow> string \<Rightarrow> (string \<times> string list) list \<Rightarrow> (string \<times> string list) list" where
  "append_role grp role [] = [(grp, [role])]"
| "append_role grp role ((g, rs) # rest) =
     (if g = grp then (g, rs @ [role]) # rest else (g, rs) # append_role grp role rest)"

text \<open>The loops of \<open>LoadPolicy\<close> over the permission rows and over the grouping rows.\<close>

fun permission_rules :: "string list list \<Rightarrow> authz_error + Rule list" where
  "permission_rules [] = Inr []"
| "permission_rules (row # rows) =
     (if length row \<noteq> 4 then Inl (ErrPolicy ''malformed permission row'')
      else (case permission_rules rows of
              Inl err \<Rightarrow> Inl err
            | Inr rs \<Rightarrow> Inr (row_rule row # rs)))"

fun grouping_maps ::
  "(string \<times> string list) list \<Rightarrow> (string \<times> string) list \<Rightarrow> string list list \<Rightarrow>
     authz_error + (string \<times> string list) list \<times> (string \<times> string) list" where
  "grouping_maps grps pars [] = Inr (grps, pars)"
| "grouping_maps grps pars (row # rows) =
     (if length row \<noteq> 2 then Inl (ErrPolicy ''malformed role row'')
      else if strings_HasPrefix (row ! 0) ''group:'' \<and> strings_HasPrefix (row ! 1) ''role:''
        then grouping_maps (append_role (row ! 0) (row ! 1) grps) pars rows
      else if strings_HasPrefix (row ! 0) ''role:'' \<and> strings_HasPrefix (row ! 1) ''role:''
        then if map_of pars (row ! 0) \<noteq> None then Inl (ErrPolicy ''multiple parents for role'')
             else grouping_maps grps (pars @ [(row ! 0, row ! 1)]) rows
      else Inl (ErrPolicy ''invalid role mapping''))"

subsection \<open>Validation\<close>

definition validateObject :: "string \<Rightarrow> string \<Rightarrow> string list \<Rightarrow> authz_error option" where
  "validateObject obj act pids =
     (if act = ActionRotate then
        let endpoints = strings_Split obj (CHR '':'') in
        if length endpoints \<noteq> 3 \<or> endpoints ! 0 \<noteq> ''rotation''
          then Some (ErrPolicy ''invalid rotation resource'')
        else if \<not> list_all (\<lambda>i. i \<in> set pids \<and> IsValidProfileID i) (tl endpoints)
          then Some (ErrPolicy ''rotation references unknown profile'')
        else None
      else if obj = ResourceProfiles then
        if act \<noteq> ActionListProfiles
          then Some (ErrPolicy ''global resource only supports profiles:list'') else None
      else if \<not> strings_HasPrefix obj ''profile:'' \<or> act = ActionListProfiles
        then Some (ErrPolicy ''invalid policy resource'')
      else let selector = strings_TrimPrefix obj ''profile:'' in
        if 1 < count_list selector (CHR ''*'')
           \<or> CHR ''*'' \<in> set selector \<and> \<not> strings_HasSuffix selector ''*''
          then Some (ErrPolicy ''invalid profile selector'')
        else if strings_HasSuffix selector ''*'' then
          let prefix = strings_TrimSuffix selector ''*'' in
          if \<not> IsValidProfileID prefix then Some (ErrPolicy ''invalid profile prefix selector'')
          else if \<not> list_ex (\<lambda>i. strings_HasPrefix i prefix) pids
            then Some (ErrPolicy ''profile selector matches no configured profile'')
          else None
        else if selector \<notin> set pids \<or> \<not> IsValidProfileID selector
          then Some (ErrPolicy ''policy references unknown profile'')
        else None)"

definition rule_key :: "Rule \<Rightarrow> string" where
  "rule_key r = strings_Join [Subject r, Object r, Action r, Effect r] [CHR 0x00]"

fun validate_rules :: "string list \<Rightarrow> string list \<Rightarrow> Rule list \<Rightarrow> authz_error option" where
  "validate_rules pids seen [] = None"
| "validate_rules pids seen (r # rs) =
     (if \<not> strings_HasPrefix (Subject r) ''role:'' \<or> Subject r = ''role:''
        then Some (ErrPolicy ''permission subject must be a role'')
      else if Effect r \<noteq> ''allow'' \<and> Effect r \<noteq> ''deny''
        then Some (ErrPolicy ''invalid permission effect'')
      else if Action r \<noteq> ActionListProfiles \<and> Action r \<noteq> ActionEncrypt \<and> Action r \<noteq> ActionDecrypt
              \<and> Action r \<noteq> ActionRotate
        then Some (ErrPolicy ''invalid permission action'')
      else if rule_key r \<in> set seen then Some (ErrPolicy ''duplicate permission row'')
      else (case validateObject (Object r) (Action r) pids of
              Some err \<Rightarrow> Some err
            | None \<Rightarrow> validate_rules pids (rule_key r # seen) rs))"

text \<open>A lookup in the parents map yields the empty string for a role without a parent.\<close>

definition parent_of :: "(string \<times> string) list \<Rightarrow> string \<Rightarrow> string" where
  "parent_of pars role = (case map_of pars role of None \<Rightarrow> [] | Some p \<Rightarrow> p)"

function check_chain ::
  "(string \<times> string) list \<Rightarrow> string list \<Rightarrow> string \<Rightarrow> nat \<Rightarrow> authz_error option" where
  "check_chain pars seen current depth =
     (if current = [] then None
      else if current \<in> set seen then Some (ErrPolicy ''role inheritance cycle'')
      else if 1 < depth then Some (ErrPolicy ''role inheritance exceeds one level'')
      else check_chain pars (current # seen) (parent_of pars current) (Suc depth))"
  by pat_completeness auto
termination by (relation "measure (\<lambda>(pars, seen, current, depth). 2 - depth)") auto

declare check_chain.simps [simp del]

fun first_error :: "authz_error option list \<Rightarrow> authz_error option" where
  "first_error [] = None"
| "first_error (None # es) = first_error es"
| "first_error (Some e # es) = Some e"

definition known_roles :: "Rule list \<Rightarrow> (string \<times> string) list \<Rightarrow> string list" where
  "known_roles rs pars = map Subject rs @ concat (map (\<lambda>(child, parent). [child, parent]) pars)"

definition validatePolicy :: "'m Policy \<Rightarrow> string list \<Rightarrow> authz_error option" where
  "validatePolicy p pids =
     (if \<not> list_all IsValidProfileID pids then Some (ErrPolicy ''invalid configured profile id'')
      else (case validate_rules pids [] (rules p) of
        Some err \<Rightarrow> Some err
      | None \<Rightarrow>
          (case first_error (map (\<lambda>(role, _). check_chain (parents p) [] role 0) (parents p)) of
             Some err \<Rightarrow> Some err
           | None \<Rightarrow>
               if list_all (\<lambda>(_, roles). list_all (\<lambda>r. r \<in> set (known_roles (rules p) (parents p))) roles)
                    (groupRoles p)
               then None else Some (ErrPolicy ''group references unknown role''))))"

definition LoadPolicy ::
  "'m casbin \<Rightarrow> csv_reader \<Rightarrow> file_system \<Rightarrow> string \<Rightarrow> string list \<Rightarrow> authz_error + 'm Policy" where
  "LoadPolicy cb csv fs pth pids =
     (if strings_TrimSpace pth = [] then Inl (ErrPolicy ''policy file is required'')
      else (case fs pth of
        None \<Rightarrow> Inl (ErrPolicy ''policy file unavailable'')
      | Some file \<Rightarrow> (case cb_model cb of
          None \<Rightarrow> Inl (ErrPolicy ''embedded model invalid'')
        | Some m0 \<Rightarrow> (case adapter_LoadPolicy cb csv file m0 of
            None \<Rightarrow> Inl (ErrPolicy ''policy adapter unavailable'')
          | Some m \<Rightarrow> (case cb_GetPolicy cb m of
              None \<Rightarrow> Inl (ErrPolicy ''permission policy unavailable'')
            | Some permissionRows \<Rightarrow> (case permission_rules permissionRows of
                Inl err \<Rightarrow> Inl err
              | Inr rs \<Rightarrow> (case cb_GetGroupingPolicy cb m of
                  None \<Rightarrow> Inl (ErrPolicy ''grouping policy unavailable'')
                | Some groupingRows \<Rightarrow> (case grouping_maps [] [] groupingRows of
                    Inl err \<Rightarrow> Inl err
                  | Inr (grps, pars) \<Rightarrow>
                      let p = \<lparr>enforcer = m, rules = rs, groupRoles = grps, parents = pars,
                               path = pth, profileIDs = pids, modTime = pf_modTime file,
                               fsize = pf_size file\<rparr>
                      in (case validatePolicy p pids of
                            Some err \<Rightarrow> Inl err
                          | None \<Rightarrow> Inr p)))))))))"

subsection \<open>Roles of a caller\<close>

text \<open>The inner loop of \<open>rolesForGroups\<close>: follow the parents until there is none or the role was
  already collected.\<close>

function collect_roles :: "(string \<times> string) list \<Rightarrow> string set \<Rightarrow> string \<Rightarrow> string set" where
  "collect_roles pars roles current =
     (if current = [] then roles
      else if current \<in> roles then roles
      else collect_roles pars (insert current roles) (parent_of pars current))"
  by pat_completeness auto
termination
proof (relation "measure (\<lambda>(pars, roles, current).
    2 * card (fst ` set pars - roles) + (if current = [] then 0 else 1))", goal_cases)
  case (2 pars roles current)
  let ?K = "fst ` set pars"
  have fin: "finite ?K" by simp
  show ?case
  proof (cases "current \<in> ?K")
    case True
    then have "?K - insert current roles \<subset> ?K - roles" using 2 by blast
    then have "card (?K - insert current roles) < card (?K - roles)"
      using fin by (meson finite_Diff psubset_card_mono)
    then show ?thesis using 2 by simp
  next
    case False
    then have "map_of pars current = None" by (simp add: map_of_eq_None_iff)
    then have "parent_of pars current = []" by (simp add: parent_of_def)
    moreover have "?K - insert current roles = ?K - roles" using False by blast
    ultimately show ?thesis using 2 by simp
  qed
qed simp

declare collect_roles.simps [simp del]

definition group_roles :: "'m Policy \<Rightarrow> string \<Rightarrow> string list" where
  "group_roles p grp =
     (case map_of (groupRoles p) (''group:'' @ grp) of None \<Rightarrow> [] | Some rs \<Rightarrow> rs)"

definition rolesForGroups :: "'m Policy \<Rightarrow> string list \<Rightarrow> string set" where
  "rolesForGroups p grps =
     fold (\<lambda>grp roles. fold (\<lambda>role rs. collect_roles (parents p) rs role) (group_roles p grp) roles)
       grps {}"

subsection \<open>Decisions\<close>

definition authorizeWithPolicy ::
  "'m casbin \<Rightarrow> 'm Policy option \<Rightarrow> Caller \<Rightarrow> string \<Rightarrow> string \<Rightarrow> authz_error option" where
  "authorizeWithPolicy cb pol actor act resource =
     (case pol of
        None \<Rightarrow> Some (ErrPolicy [])
      | Some p \<Rightarrow>
          let roles = rolesForGroups p (groups actor) in
          if roles = {} then Some ErrForbidden
          else (case cb_Enforce cb (enforcer p) roles resource act of
                  None \<Rightarrow> Some (ErrPolicy ''policy enforcement failed'')
                | Some allowed \<Rightarrow> if \<not> allowed then Some ErrForbidden else None))"

text \<open>\<open>currentPolicy\<close> returns the policy to decide with and the authorizer's next state: a changed
  file is loaded again, and a policy that does not load is an error, never a fallback to the old
  one.\<close>

definition currentPolicy ::
  "'m casbin \<Rightarrow> csv_reader \<Rightarrow> file_system \<Rightarrow> 'm Authorizer option \<Rightarrow>
     (authz_error + 'm Policy) \<times> 'm Authorizer option" where
  "currentPolicy cb csv fs a =
     (case a of
        None \<Rightarrow> (Inl (ErrPolicy []), a)
      | Some auth \<Rightarrow> (case policy auth of
          None \<Rightarrow> (Inl (ErrPolicy []), a)
        | Some p \<Rightarrow>
            if path p = [] then (Inr p, a)
            else (case fs (path p) of
              None \<Rightarrow> (Inl (ErrPolicy ''policy file unavailable''), a)
            | Some file \<Rightarrow>
                if pf_modTime file = modTime p \<and> pf_size file = fsize p then (Inr p, a)
                else (case LoadPolicy cb csv fs (path p) (profileIDs p) of
                        Inl err \<Rightarrow> (Inl err, a)
                      | Inr reloaded \<Rightarrow> (Inr reloaded, Some \<lparr>policy = Some reloaded\<rparr>)))))"

fun evaluate_checks ::
  "'m casbin \<Rightarrow> 'm Policy \<Rightarrow> Caller \<Rightarrow> Check list \<Rightarrow> authz_error + bool list" where
  "evaluate_checks cb p actor [] = Inr []"
| "evaluate_checks cb p actor (chk # checks) =
     (case authorizeWithPolicy cb (Some p) actor (chk_Action chk) (chk_Resource chk) of
        None \<Rightarrow> map_sum id (Cons True) (evaluate_checks cb p actor checks)
      | Some ErrForbidden \<Rightarrow> map_sum id (Cons False) (evaluate_checks cb p actor checks)
      | Some err \<Rightarrow> Inl err)"

definition Evaluate ::
  "'m casbin \<Rightarrow> csv_reader \<Rightarrow> file_system \<Rightarrow> 'm Authorizer option \<Rightarrow> Caller \<Rightarrow> Check list \<Rightarrow>
     (authz_error + bool list) \<times> 'm Authorizer option" where
  "Evaluate cb csv fs a actor checks =
     (case currentPolicy cb csv fs a of
        (Inl err, a') \<Rightarrow> (Inl err, a')
      | (Inr p, a') \<Rightarrow> (evaluate_checks cb p actor checks, a'))"

definition Authorize ::
  "'m casbin \<Rightarrow> csv_reader \<Rightarrow> file_system \<Rightarrow> 'm Authorizer option \<Rightarrow> Caller \<Rightarrow> string \<Rightarrow> string \<Rightarrow>
     authz_error option \<times> 'm Authorizer option" where
  "Authorize cb csv fs a actor act resource =
     (case Evaluate cb csv fs a actor [\<lparr>chk_Action = act, chk_Resource = resource\<rparr>] of
        (Inl err, a') \<Rightarrow> (Some err, a')
      | (Inr allowed, a') \<Rightarrow>
          (if length allowed \<noteq> 1 \<or> \<not> allowed ! 0 then Some ErrForbidden else None, a'))"

definition AuthorizeRotate ::
  "'m casbin \<Rightarrow> csv_reader \<Rightarrow> file_system \<Rightarrow> 'm Authorizer option \<Rightarrow> Caller \<Rightarrow> string \<Rightarrow> string \<Rightarrow>
     authz_error option \<times> 'm Authorizer option" where
  "AuthorizeRotate cb csv fs a actor sourceID destinationID =
     Authorize cb csv fs a actor ActionRotate (RotationResource sourceID destinationID)"

record ProfileCapabilities =
  cap_Encrypt :: bool
  cap_Decrypt :: bool

text \<open>The loop of \<open>CapabilitiesForProfiles\<close>; the result map holds the profiles with at least one
  capability.\<close>

fun profile_capabilities ::
  "'m casbin \<Rightarrow> 'm Policy \<Rightarrow> Caller \<Rightarrow> (string \<rightharpoonup> ProfileCapabilities) \<Rightarrow> string list \<Rightarrow>
     authz_error + (string \<rightharpoonup> ProfileCapabilities)" where
  "profile_capabilities cb p actor caps [] = Inr caps"
| "profile_capabilities cb p actor caps (pid # pids) =
     (let encryptErr = authorizeWithPolicy cb (Some p) actor ActionEncrypt (ProfileResource pid);
          decryptErr = authorizeWithPolicy cb (Some p) actor ActionDecrypt (ProfileResource pid)
      in if encryptErr \<noteq> None \<and> encryptErr \<noteq> Some ErrForbidden then Inl (the encryptErr)
         else if decryptErr \<noteq> None \<and> decryptErr \<noteq> Some ErrForbidden then Inl (the decryptErr)
         else let pc = \<lparr>cap_Encrypt = (encryptErr = None), cap_Decrypt = (decryptErr = None)\<rparr>
           in profile_capabilities cb p actor
                (if cap_Encrypt pc \<or> cap_Decrypt pc then caps(pid \<mapsto> pc) else caps) pids)"

definition CapabilitiesForProfiles ::
  "'m casbin \<Rightarrow> csv_reader \<Rightarrow> file_system \<Rightarrow> 'm Authorizer option \<Rightarrow> Caller \<Rightarrow> string list \<Rightarrow>
     (authz_error + (string \<rightharpoonup> ProfileCapabilities)) \<times> 'm Authorizer option" where
  "CapabilitiesForProfiles cb csv fs a actor pids =
     (case currentPolicy cb csv fs a of
        (Inl err, a') \<Rightarrow> (Inl err, a')
      | (Inr p, a') \<Rightarrow>
          (case authorizeWithPolicy cb (Some p) actor ActionListProfiles ResourceProfiles of
             Some ErrForbidden \<Rightarrow> (Inr Map.empty, a')
           | Some err \<Rightarrow> (Inl err, a')
           | None \<Rightarrow> (profile_capabilities cb p actor Map.empty pids, a')))"

definition NewAuthorizer :: "'m Policy option \<Rightarrow> authz_error + 'm Authorizer" where
  "NewAuthorizer pol =
     (case pol of None \<Rightarrow> Inl (ErrPolicy ''policy is nil'') | Some p \<Rightarrow> Inr \<lparr>policy = Some p\<rparr>)"

section \<open>Lemmas\<close>

subsection \<open>Role inheritance\<close>

definition parent_rel :: "(string \<times> string) list \<Rightarrow> (string \<times> string) set" where
  "parent_rel pars = {(r, q). r \<noteq> [] \<and> q \<noteq> [] \<and> q = parent_of pars r}"

definition ancestors :: "(string \<times> string) list \<Rightarrow> string \<Rightarrow> string set" where
  "ancestors pars r = (if r = [] then {} else {q. (r, q) \<in> (parent_rel pars)\<^sup>*})"

lemma ancestors_unfold:
  "r \<noteq> [] \<Longrightarrow> ancestors pars r = insert r (ancestors pars (parent_of pars r))"
proof -
  assume r: "r \<noteq> []"
  have "(r, q) \<in> (parent_rel pars)\<^sup>* \<longleftrightarrow>
      q = r \<or> (parent_of pars r \<noteq> [] \<and> (parent_of pars r, q) \<in> (parent_rel pars)\<^sup>*)" for q
    using r by (auto simp: parent_rel_def elim: converse_rtranclE intro: converse_rtrancl_into_rtrancl)
  then show ?thesis using r by (auto simp: ancestors_def)
qed

definition parent_closed :: "(string \<times> string) list \<Rightarrow> string \<Rightarrow> string set \<Rightarrow> bool" where
  "parent_closed pars pending S \<longleftrightarrow>
     (\<forall>r\<in>S. parent_of pars r = [] \<or> parent_of pars r \<in> S \<or> parent_of pars r = pending)"

lemma closed_ancestors:
  assumes "parent_closed pars [] S" "r \<in> S"
  shows "ancestors pars r \<subseteq> S"
proof -
  have "q \<in> S" if "(r, q) \<in> (parent_rel pars)\<^sup>*" for q
    using that assms(2) by induction (use assms(1) in \<open>auto simp: parent_closed_def parent_rel_def\<close>)
  then show ?thesis using assms(2) by (auto simp: ancestors_def)
qed

lemma collect_roles_closed:
  assumes "parent_closed pars current roles"
  shows "collect_roles pars roles current = roles \<union> ancestors pars current \<and>
    parent_closed pars [] (collect_roles pars roles current)"
  using assms
proof (induction pars roles current rule: collect_roles.induct)
  case (1 pars roles current)
  show ?case
  proof (cases "current = []")
    case True
    then show ?thesis using 1(2) by (simp add: collect_roles.simps ancestors_def)
  next
    case ne: False
    show ?thesis
    proof (cases "current \<in> roles")
      case True
      then have "parent_closed pars [] roles" using 1(2) by (auto simp: parent_closed_def)
      then show ?thesis
        using True ne closed_ancestors [of pars roles current] by (auto simp: collect_roles.simps)
    next
      case False
      have "parent_closed pars (parent_of pars current) (insert current roles)"
        using 1(2) by (auto simp: parent_closed_def)
      with 1(1) [OF ne False] show ?thesis
        using ne False ancestors_unfold [OF ne, of pars]
        by (auto simp: collect_roles.simps [of pars roles current])
    qed
  qed
qed

lemma fold_collect_roles:
  "parent_closed pars [] roles \<Longrightarrow>
     fold (\<lambda>role rs. collect_roles pars rs role) grs roles = roles \<union> (\<Union>r\<in>set grs. ancestors pars r) \<and>
     parent_closed pars [] (fold (\<lambda>role rs. collect_roles pars rs role) grs roles)"
proof (induction grs arbitrary: roles)
  case (Cons r grs)
  have "parent_closed pars r roles" using Cons.prems by (auto simp: parent_closed_def)
  from collect_roles_closed [OF this] Cons.IH [of "collect_roles pars roles r"]
  show ?case by auto
qed simp

lemma fold_groups:
  "parent_closed (parents p) [] roles \<Longrightarrow>
     fold (\<lambda>grp roles. fold (\<lambda>role rs. collect_roles (parents p) rs role) (group_roles p grp) roles)
       grps roles = roles \<union> (\<Union>g\<in>set grps. \<Union>r\<in>set (group_roles p g). ancestors (parents p) r)"
proof (induction grps arbitrary: roles)
  case (Cons g gs)
  from fold_collect_roles [OF Cons.prems, of "group_roles p g"]
  have "parent_closed (parents p) []
      (fold (\<lambda>role rs. collect_roles (parents p) rs role) (group_roles p g) roles)"
    and "fold (\<lambda>role rs. collect_roles (parents p) rs role) (group_roles p g) roles =
      roles \<union> (\<Union>r\<in>set (group_roles p g). ancestors (parents p) r)" by blast+
  with Cons.IH show ?case by auto
qed simp

lemma rolesForGroups_eq:
  "rolesForGroups p grps = (\<Union>g\<in>set grps. \<Union>r\<in>set (group_roles p g). ancestors (parents p) r)"
  unfolding rolesForGroups_def by (subst fold_groups) (auto simp: parent_closed_def)

subsection \<open>Validated policies\<close>

lemma first_error_None: "first_error es = None \<longleftrightarrow> (\<forall>e\<in>set es. e = None)"
  by (induction es rule: first_error.induct) auto

lemma check_chain_depth:
  assumes "check_chain pars [] r 0 = None" "r \<noteq> []"
  shows "parent_of pars (parent_of pars r) = [] \<or> parent_of pars r = []"
proof -
  have "check_chain pars [r] (parent_of pars r) (Suc 0) = None"
    using assms check_chain.simps [of pars "[]" r 0] by simp
  then have "parent_of pars r = [] \<or>
      check_chain pars [parent_of pars r, r] (parent_of pars (parent_of pars r)) 2 = None"
    using check_chain.simps [of pars "[r]" "parent_of pars r" "Suc 0"]
    by (auto simp: numeral_2_eq_2 split: if_splits)
  then show ?thesis
    using check_chain.simps [of pars "[parent_of pars r, r]" "parent_of pars (parent_of pars r)" 2]
    by (auto split: if_splits)
qed

lemma validate_rules_None:
  "validate_rules pids seen rs = None \<Longrightarrow> r \<in> set rs \<Longrightarrow>
     strings_HasPrefix (Subject r) ''role:'' \<and> Effect r \<in> {''allow'', ''deny''} \<and>
     Action r \<in> {ActionListProfiles, ActionEncrypt, ActionDecrypt, ActionRotate} \<and>
     validateObject (Object r) (Action r) pids = None"
  by (induction rs arbitrary: seen) (auto split: if_splits option.splits)

definition policy_valid :: "'m Policy \<Rightarrow> bool" where
  "policy_valid p \<longleftrightarrow>
     list_all IsValidProfileID (profileIDs p) \<and>
     (\<forall>r\<in>set (rules p). strings_HasPrefix (Subject r) ''role:'' \<and>
        validateObject (Object r) (Action r) (profileIDs p) = None) \<and>
     (\<forall>r. r \<in> fst ` set (parents p) \<longrightarrow> r \<noteq> [] \<longrightarrow>
        parent_of (parents p) (parent_of (parents p) r) = [] \<or> parent_of (parents p) r = [])"

lemma validatePolicy_valid:
  assumes "validatePolicy p (profileIDs p) = None"
  shows "policy_valid p"
proof -
  from assms have 1: "list_all IsValidProfileID (profileIDs p)"
    and 2: "validate_rules (profileIDs p) [] (rules p) = None"
    and 3: "first_error (map (\<lambda>(role, _). check_chain (parents p) [] role 0) (parents p)) = None"
    by (auto simp: validatePolicy_def split: if_splits option.splits)
  have "check_chain (parents p) [] r 0 = None" if "r \<in> fst ` set (parents p)" for r
    using 3 that by (fastforce simp: first_error_None)
  then show ?thesis
    using 1 validate_rules_None [OF 2] check_chain_depth by (fastforce simp: policy_valid_def)
qed

lemma permission_rules_Inr:
  "permission_rules rows = Inr rs \<Longrightarrow> list_all (\<lambda>row. length row = 4) rows \<and> rs = map row_rule rows"
  by (induction rows arbitrary: rs) (auto split: if_splits sum.splits)

text \<open>What \<open>LoadPolicy\<close> establishes about the policy it returns.\<close>

definition policy_loaded :: "'m casbin \<Rightarrow> 'm Policy \<Rightarrow> bool" where
  "policy_loaded cb p \<longleftrightarrow> policy_valid p \<and>
     (\<exists>rows. cb_GetPolicy cb (enforcer p) = Some rows \<and>
        list_all (\<lambda>row. length row = 4) rows \<and> rules p = map row_rule rows)"

lemma LoadPolicy_Inr:
  assumes "LoadPolicy cb csv fs pth pids = Inr p"
  shows "policy_loaded cb p \<and> path p = pth \<and> profileIDs p = pids \<and> pth \<noteq> [] \<and>
    (\<exists>pf. fs pth = Some pf \<and> modTime p = pf_modTime pf \<and> fsize p = pf_size pf)"
proof -
  from assms obtain pf m rows rs grows grps pars where
    f: "strings_TrimSpace pth \<noteq> []" "fs pth = Some pf" and
    r: "cb_GetPolicy cb m = Some rows" "permission_rules rows = Inr rs" and
    p: "p = \<lparr>enforcer = m, rules = rs, groupRoles = grps, parents = pars, path = pth,
             profileIDs = pids, modTime = pf_modTime pf, fsize = pf_size pf\<rparr>"
    and v: "validatePolicy p pids = None"
    by (auto simp: LoadPolicy_def Let_def split: if_splits option.splits sum.splits)
  have "strings_TrimSpace [] = []" by code_simp
  then have "pth \<noteq> []" using f by auto
  moreover have "policy_valid p" using v p by (intro validatePolicy_valid) simp
  ultimately show ?thesis
    using f r p permission_rules_Inr [OF r(2)] by (simp add: policy_loaded_def)
qed

lemma parent_of_not_key: "r \<notin> fst ` set pars \<Longrightarrow> parent_of pars r = []"
  by (metis map_of_eq_None_iff option.simps(4) parent_of_def)

lemma valid_ancestors:
  assumes "policy_valid p" "r \<noteq> []"
  shows "ancestors (parents p) r = {r, parent_of (parents p) r} - {[]}"
proof -
  have 1: "parent_of (parents p) (parent_of (parents p) r) = [] \<or> parent_of (parents p) r = []"
    using assms parent_of_not_key [of r "parents p"] unfolding policy_valid_def by blast
  have nil: "ancestors (parents p) [] = {}" by (simp add: ancestors_def)
  show ?thesis
    using 1 ancestors_unfold [OF assms(2), of "parents p"]
      ancestors_unfold [of "parent_of (parents p) r" "parents p"] nil assms(2)
    by (cases "parent_of (parents p) r = []") auto
qed

subsection \<open>Selectors\<close>

lemma HasSuffix_star: "strings_HasSuffix s ''*'' \<longleftrightarrow> s \<noteq> [] \<and> last s = CHR ''*''"
  by (auto simp: HasSuffix_iff) (metis append_butlast_last_id)

lemma Split3_join:
  assumes "strings_Split s c = [a, b, d]"
  shows "s = a @ c # b @ c # d"
proof -
  have *: "\<exists>t. s = x @ c # t \<and> strings_Split t c = y # ys" if "strings_Split s c = x # y # ys" for s x y ys
    using that
  proof (induction s arbitrary: x)
    case (Cons z s)
    then show ?case by (cases "strings_Split s c") (auto split: if_splits)
  qed simp
  have **: "s = x" if "strings_Split s c = [x]" for s x
    using that
  proof (induction s arbitrary: x)
    case (Cons z s)
    then show ?case by (cases "strings_Split s c") (auto split: if_splits)
  qed simp
  from * [OF assms] obtain t where t: "s = a @ c # t" "strings_Split t c = [b, d]" by blast
  from * [OF t(2)] obtain u where "t = b @ c # u" "strings_Split u c = [d]" by blast
  with t ** show ?thesis by simp
qed

lemma validate_rotation_object:
  assumes "validateObject obj ActionRotate pids = None"
  shows "\<exists>s d. obj = RotationResource s d \<and> s \<in> set pids \<and> d \<in> set pids \<and>
    IsValidProfileID s \<and> IsValidProfileID d"
proof -
  from assms have len: "length (strings_Split obj (CHR '':'')) = 3"
    and hd: "strings_Split obj (CHR '':'') ! 0 = ''rotation''"
    and tl: "list_all (\<lambda>i. i \<in> set pids \<and> IsValidProfileID i) (tl (strings_Split obj (CHR '':'')))"
    by (auto simp: validateObject_def Let_def split: if_splits)
  from len obtain a s d where sp: "strings_Split obj (CHR '':'') = [a, s, d]"
    by (auto simp: length_Suc_conv numeral_3_eq_3)
  with hd have "obj = ''rotation'' @ CHR '':'' # s @ CHR '':'' # d" using Split3_join by fastforce
  then have "obj = RotationResource s d" by (simp add: RotationResource_def)
  with tl sp show ?thesis by auto
qed

lemma RotationResource_inject:
  assumes "RotationResource s d = RotationResource s' d'" "IsValidProfileID s" "IsValidProfileID s'"
  shows "s = s' \<and> d = d'"
proof -
  have eq: "s @ CHR '':'' # d = s' @ CHR '':'' # d'" using assms(1) by (simp add: RotationResource_def)
  have "CHR '':'' \<notin> set s" "CHR '':'' \<notin> set s'" using valid_id_no_sep assms(2,3) by blast+
  then have "strings_Cut (s @ CHR '':'' # d) (CHR '':'') = (s, d, True)"
    "strings_Cut (s' @ CHR '':'' # d') (CHR '':'') = (s', d', True)" by simp_all
  then have "(s, d, True) = (s', d', True)" unfolding eq by (rule trans [OF sym])
  then show ?thesis by simp
qed

lemma rotation_rule_matches:
  assumes "validateObject (Object r) (Action r) pids = None" "Action r = ActionRotate"
  shows "matchesPolicyObject obj (Object r) \<longleftrightarrow> obj = Object r"
proof -
  from validate_rotation_object assms obtain s d where o: "Object r = RotationResource s d"
    and d: "IsValidProfileID d" by metis
  have ne: "d \<noteq> []" using valid_id_length [OF d] by blast
  moreover have "last d \<noteq> CHR ''*''" using valid_id_no_sep [OF d] last_in_set [OF ne] by metis
  ultimately have "\<not> strings_HasSuffix (Object r) ''*''"
    unfolding o HasSuffix_star by (simp add: RotationResource_def)
  then show ?thesis by (simp add: matchesPolicyObject_def)
qed

subsection \<open>Decisions\<close>

text \<open>The decision the policy prescribes for a caller: some allowing and no denying rule for a role
  of the caller matches.\<close>

definition policy_allows :: "'m Policy \<Rightarrow> Caller \<Rightarrow> string \<Rightarrow> string \<Rightarrow> bool" where
  "policy_allows p actor act resource \<longleftrightarrow>
     model_effect (rolesForGroups p (groups actor)) resource act (rules p)"

lemma model_effect_no_roles [simp]: "\<not> model_effect {} obj act rs"
  by (simp add: model_effect_def model_matches_def list_ex_iff)

lemma authorizeWithPolicy_loaded:
  assumes "casbin_ok cb" "policy_loaded cb p"
  shows "authorizeWithPolicy cb (Some p) actor act resource =
    (if policy_allows p actor act resource then None else Some ErrForbidden)"
proof -
  from assms have "cb_Enforce cb (enforcer p) roles resource act =
      Some (model_effect roles resource act (rules p))" for roles
    unfolding casbin_ok_def policy_loaded_def by auto
  then show ?thesis by (auto simp: authorizeWithPolicy_def policy_allows_def Let_def)
qed

lemma evaluate_checks_loaded:
  assumes "casbin_ok cb" "policy_loaded cb p"
  shows "evaluate_checks cb p actor checks =
    Inr (map (\<lambda>chk. policy_allows p actor (chk_Action chk) (chk_Resource chk)) checks)"
  by (induction checks) (auto simp: authorizeWithPolicy_loaded [OF assms])

lemma evaluate_checks_pointwise:
  "evaluate_checks cb p actor checks = Inr ds \<Longrightarrow>
     ds = map (\<lambda>chk. authorizeWithPolicy cb (Some p) actor (chk_Action chk) (chk_Resource chk) = None) checks"
proof (induction checks arbitrary: ds)
  case (Cons chk checks)
  then show ?case
    by (cases "evaluate_checks cb p actor checks") (auto split: option.splits authz_error.splits)
qed simp

subsection \<open>The authorizer as an interface\<close>

text \<open>
  What the service relies on: an evaluation that succeeds answers every check, in order, by one
  decision function, whatever the number of checks. (All checks of one call see one policy.)
\<close>

locale decision_source =
  fixes evaluate :: "Caller \<Rightarrow> Check list \<Rightarrow> authz_error + bool list"
  assumes snapshot: "evaluate actor checks = Inr ds \<Longrightarrow> \<exists>dec. ds = map dec checks"
begin

lemma answers_length: "evaluate actor checks = Inr ds \<Longrightarrow> length ds = length checks"
  using snapshot by fastforce

text \<open>Equal checks of one evaluation get equal answers.\<close>

lemma answers_agree:
  assumes "evaluate actor checks = Inr ds" "i < length checks" "j < length checks"
    "checks ! i = checks ! j"
  shows "ds ! i = ds ! j"
  using snapshot [OF assms(1)] assms(2-) by auto

end

definition evaluator ::
  "'m casbin \<Rightarrow> csv_reader \<Rightarrow> file_system \<Rightarrow> 'm Authorizer option \<Rightarrow> Caller \<Rightarrow> Check list \<Rightarrow>
     authz_error + bool list" where
  "evaluator cb csv fs a actor checks = fst (Evaluate cb csv fs a actor checks)"

interpretation az: decision_source "evaluator cb csv fs a" for cb csv fs a
proof
  fix actor checks ds
  assume "evaluator cb csv fs a actor checks = Inr ds"
  then obtain p where "evaluate_checks cb p actor checks = Inr ds"
    by (auto simp: evaluator_def Evaluate_def split: prod.splits sum.splits)
  from evaluate_checks_pointwise [OF this] show "\<exists>dec. ds = map dec checks" by blast
qed

lemma currentPolicy_Inr:
  assumes "currentPolicy cb csv fs a = (Inr q, a')"
  shows "\<exists>p. a = Some \<lparr>policy = Some p\<rparr> \<and> a' = Some \<lparr>policy = Some q\<rparr> \<and>
    (path p = [] \<and> q = p \<or>
     (\<exists>pf. fs (path p) = Some pf \<and> modTime q = pf_modTime pf \<and> fsize q = pf_size pf \<and>
        (q = p \<or> LoadPolicy cb csv fs (path p) (profileIDs p) = Inr q)))"
proof -
  from assms obtain auth p where "a = Some auth" "policy auth = Some p"
    by (auto simp: currentPolicy_def split: option.splits)
  then have a: "a = Some \<lparr>policy = Some p\<rparr>" by (cases auth) simp
  consider "path p = []" "q = p" "a' = a"
    | pf where "path p \<noteq> []" "fs (path p) = Some pf" "q = p" "a' = a" "pf_modTime pf = modTime p"
        "pf_size pf = fsize p"
    | pf where "fs (path p) = Some pf" "LoadPolicy cb csv fs (path p) (profileIDs p) = Inr q"
        "a' = Some \<lparr>policy = Some q\<rparr>"
    using assms unfolding a currentPolicy_def by (auto split: if_splits option.splits sum.splits)
  then show ?thesis using a by cases (auto dest: LoadPolicy_Inr)
qed

text \<open>In a valid policy the rules that decide a rotation are those of the exact pair.\<close>

lemma rotation_allowed_exact:
  assumes "policy_valid p" "IsValidProfileID source" "IsValidProfileID destination"
  shows "policy_allows p actor ActionRotate (RotationResource source destination) \<longleftrightarrow>
      (\<exists>r\<in>set (rules p). Action r = ActionRotate \<and> Object r = RotationResource source destination \<and>
         Subject r \<in> rolesForGroups p (groups actor) \<and> Effect r = ''allow'') \<and>
      \<not> (\<exists>r\<in>set (rules p). Action r = ActionRotate \<and> Object r = RotationResource source destination \<and>
         Subject r \<in> rolesForGroups p (groups actor) \<and> Effect r = ''deny'')"
    "policy_allows p actor ActionRotate (RotationResource source destination) \<Longrightarrow>
      source \<in> set (profileIDs p) \<and> destination \<in> set (profileIDs p)"
proof -
  let ?obj = "RotationResource source destination"
  have obj: "validateObject (Object r) (Action r) (profileIDs p) = None" if "r \<in> set (rules p)" for r
    using that assms(1) by (auto simp: policy_valid_def)
  have m: "model_matches roles ?obj ActionRotate r \<longleftrightarrow>
      Action r = ActionRotate \<and> Object r = ?obj \<and> Subject r \<in> roles" if "r \<in> set (rules p)" for r roles
    unfolding model_matches_def using rotation_rule_matches [OF obj [OF that], of ?obj] by metis
  show dec: "policy_allows p actor ActionRotate ?obj \<longleftrightarrow>
      (\<exists>r\<in>set (rules p). Action r = ActionRotate \<and> Object r = ?obj \<and>
         Subject r \<in> rolesForGroups p (groups actor) \<and> Effect r = ''allow'') \<and>
      \<not> (\<exists>r\<in>set (rules p). Action r = ActionRotate \<and> Object r = ?obj \<and>
         Subject r \<in> rolesForGroups p (groups actor) \<and> Effect r = ''deny'')"
    unfolding policy_allows_def model_effect_def list_ex_iff by (simp only: m cong: bex_cong) blast
  have conf: "source \<in> set (profileIDs p) \<and> destination \<in> set (profileIDs p)"
    if "r \<in> set (rules p)" "Action r = ActionRotate" "Object r = ?obj" for r
  proof -
    have "validateObject ?obj ActionRotate (profileIDs p) = None" using obj [OF that(1)] that(2,3) by simp
    then obtain s d where sd: "?obj = RotationResource s d" "s \<in> set (profileIDs p)" "d \<in> set (profileIDs p)"
      "IsValidProfileID s" using validate_rotation_object by blast
    from RotationResource_inject [OF sd(1) assms(2) sd(4)] sd(2,3) show ?thesis by simp
  qed
  assume "policy_allows p actor ActionRotate ?obj"
  then show "source \<in> set (profileIDs p) \<and> destination \<in> set (profileIDs p)" unfolding dec using conf by blast
qed

text \<open>An authorizer the package can construct holds a policy that loaded, and an evaluation decides
  with such a policy.\<close>

definition loaded_authorizer :: "'m casbin \<Rightarrow> csv_reader \<Rightarrow> 'm Authorizer option \<Rightarrow> bool" where
  "loaded_authorizer cb csv a \<longleftrightarrow>
     (\<forall>p. a = Some \<lparr>policy = Some p\<rparr> \<longrightarrow> (\<exists>fs pth pids. LoadPolicy cb csv fs pth pids = Inr p))"

lemma loaded_evaluator:
  assumes "casbin_ok cb" "loaded_authorizer cb csv a" "evaluator cb csv fs a actor checks = Inr ds"
  shows "\<exists>q. policy_valid q \<and> (\<exists>fs' pth pids. LoadPolicy cb csv fs' pth pids = Inr q) \<and>
    ds = map (\<lambda>chk. policy_allows q actor (chk_Action chk) (chk_Resource chk)) checks"
proof -
  from assms(3) obtain q a' where q: "currentPolicy cb csv fs a = (Inr q, a')" "evaluate_checks cb q actor checks = Inr ds"
    by (auto simp: evaluator_def Evaluate_def split: prod.splits sum.splits)
  then obtain p where "a = Some \<lparr>policy = Some p\<rparr>" "q = p \<or> LoadPolicy cb csv fs (path p) (profileIDs p) = Inr q"
    using currentPolicy_Inr by blast
  then have l: "\<exists>fs' pth pids. LoadPolicy cb csv fs' pth pids = Inr q" using assms(2) unfolding loaded_authorizer_def by blast
  then obtain fs' pth pids where "LoadPolicy cb csv fs' pth pids = Inr q" by blast
  from LoadPolicy_Inr [OF this] have "policy_loaded cb q" "policy_valid q" by (auto simp: policy_loaded_def)
  then show ?thesis using l q(2) evaluate_checks_loaded [OF assms(1)] by auto
qed

section \<open>Properties\<close>

text \<open>C4. Decisions: under a policy that loaded, every check of an evaluation is answered, in
  order, and a check is allowed exactly when a rule allowing its action on a matching object, and
  no rule denying it, belongs to a role of the caller; the caller's roles are the roles granted
  to its groups together with their parents, and nothing further (inheritance has one level).\<close>

theorem evaluate_decision:
  assumes "casbin_ok cb" "LoadPolicy cb csv fs pth pids = Inr p"
  shows "evaluate_checks cb p actor checks =
      Inr (map (\<lambda>chk.
        (let mine = {r. r \<noteq> [] \<and> (\<exists>g\<in>set (groups actor). \<exists>d\<in>set (group_roles p g).
                       d \<noteq> [] \<and> (r = d \<or> r = parent_of (parents p) d))};
             applies = (\<lambda>eff. \<exists>r\<in>set (rules p). Subject r \<in> mine \<and> Action r = chk_Action chk \<and>
                       matchesPolicyObject (chk_Resource chk) (Object r) \<and> Effect r = eff)
         in applies ''allow'' \<and> \<not> applies ''deny'')) checks)"
proof -
  have loaded: "policy_loaded cb p" and valid: "policy_valid p"
    using LoadPolicy_Inr [OF assms(2)] by (auto simp: policy_loaded_def)
  define mine where "mine = {r. r \<noteq> [] \<and> (\<exists>g\<in>set (groups actor). \<exists>d\<in>set (group_roles p g).
                       d \<noteq> [] \<and> (r = d \<or> r = parent_of (parents p) d))}"
  have anc: "x \<in> ancestors (parents p) d \<longleftrightarrow>
      x \<noteq> [] \<and> d \<noteq> [] \<and> (x = d \<or> x = parent_of (parents p) d)" for x d
    using valid_ancestors [OF valid, of d] by (cases "d = []") (auto simp: ancestors_def)
  have roles: "rolesForGroups p (groups actor) = mine"
    unfolding rolesForGroups_eq mine_def by (rule set_eqI) (simp only: UN_iff mem_Collect_eq anc, blast)
  have applies: "(\<exists>r\<in>set (rules p). (Subject r \<in> mine \<and> matchesPolicyObject obj (Object r) \<and>
        act = Action r) \<and> Effect r = eff) \<longleftrightarrow>
      (\<exists>r\<in>set (rules p). Subject r \<in> mine \<and> Action r = act \<and>
        matchesPolicyObject obj (Object r) \<and> Effect r = eff)" for obj act eff
    by (rule bex_cong) auto
  show ?thesis
    unfolding evaluate_checks_loaded [OF assms(1) loaded] policy_allows_def roles
      mine_def [symmetric] Let_def model_effect_def model_matches_def list_ex_iff applies ..
qed

text \<open>C9. Delegated re-keying: under a loaded policy, the right to rotate from one profile to
  another depends on nothing but the rules with action \<open>rotate\<close> whose object is exactly that
  ordered pair; no selector and no encrypt or decrypt right grants or withholds it, and where it
  is granted both profiles are configured.\<close>

theorem rotation_requires_exact_pair:
  assumes "casbin_ok cb" "LoadPolicy cb csv fs pth pids = Inr p"
    "IsValidProfileID source" "IsValidProfileID destination"
  shows "(authorizeWithPolicy cb (Some p) actor ActionRotate (RotationResource source destination) = None) =
      (let pair_rules = filter (\<lambda>r. Action r = ActionRotate \<and>
                Object r = RotationResource source destination \<and>
                Subject r \<in> rolesForGroups p (groups actor)) (rules p)
       in list_ex (\<lambda>r. Effect r = ''allow'') pair_rules \<and> \<not> list_ex (\<lambda>r. Effect r = ''deny'') pair_rules)
    \<and> (authorizeWithPolicy cb (Some p) actor ActionRotate (RotationResource source destination) = None
       \<longrightarrow> source \<in> set pids \<and> destination \<in> set pids)"
proof -
  have loaded: "policy_loaded cb p" and valid: "policy_valid p" and pids: "profileIDs p = pids"
    using LoadPolicy_Inr [OF assms(2)] by (auto simp: policy_loaded_def)
  note r = rotation_allowed_exact [OF valid assms(3,4), of actor]
  show ?thesis
    unfolding authorizeWithPolicy_loaded [OF assms(1) loaded] Let_def list_ex_iff set_filter
      mem_Collect_eq
    using r pids by (simp, blast)
qed

text \<open>Freshness: an evaluation that answers decides with a policy whose modification time and
  size are those of the file at that moment, either the one already loaded or one just loaded
  from the file; when the file is gone or does not load, the evaluation fails and the authorizer
  keeps its state, so a stale policy never decides.\<close>

lemma evaluate_uses_current_policy:
  assumes "policy auth = Some p" "path p \<noteq> []"
    "Evaluate cb csv fs (Some auth) actor checks = (result, auth')"
  shows "(case result of
      Inr ds \<Rightarrow> \<exists>pf q. fs (path p) = Some pf \<and> auth' = Some \<lparr>policy = Some q\<rparr> \<and>
        modTime q = pf_modTime pf \<and> fsize q = pf_size pf \<and>
        (q = p \<or> LoadPolicy cb csv fs (path p) (profileIDs p) = Inr q) \<and>
        evaluate_checks cb q actor checks = Inr ds
    | Inl err \<Rightarrow> is_ok (fst (currentPolicy cb csv fs (Some auth))) \<or> auth' = Some auth)"
proof (cases "currentPolicy cb csv fs (Some auth)")
  case (Pair res a')
  show ?thesis
  proof (cases res)
    case (Inl err)
    then have "a' = Some auth"
      using Pair by (auto simp: currentPolicy_def split: if_splits option.splits sum.splits)
    then show ?thesis using assms(3) Pair Inl by (auto simp: Evaluate_def)
  next
    case (Inr q)
    from currentPolicy_Inr [of cb csv fs "Some auth" q a'] Pair Inr assms(1,2)
    obtain pf where "fs (path p) = Some pf" "a' = Some \<lparr>policy = Some q\<rparr>"
      "modTime q = pf_modTime pf" "fsize q = pf_size pf"
      "q = p \<or> LoadPolicy cb csv fs (path p) (profileIDs p) = Inr q" by fastforce
    then show ?thesis using assms(3) Pair Inr by (auto simp: Evaluate_def split: sum.splits)
  qed
qed

subsection \<open>A concrete policy\<close>

definition demo_casbin :: "string list list casbin" where
  "demo_casbin =
     \<lparr>cb_model = Some [], cb_LoadPolicyArray = (\<lambda>row m. Some (m @ [row])),
      cb_GetPolicy = (\<lambda>m. Some (map tl (filter (\<lambda>r. hd r = ''p'') m))),
      cb_GetGroupingPolicy = (\<lambda>m. Some (map tl (filter (\<lambda>r. hd r = ''g'') m))),
      cb_Enforce = (\<lambda>m roles obj act.
        Some (model_effect roles obj act (map row_rule (map tl (filter (\<lambda>r. hd r = ''p'') m)))))\<rparr>"

lemma demo_casbin_ok [simp]: "casbin_ok demo_casbin"
  by (simp add: casbin_ok_def demo_casbin_def)

definition demo_csv :: csv_reader where
  "demo_csv line = Some (strings_Split line (CHR '',''))"

definition demo_fs :: file_system where
  "demo_fs pth =
     (if pth = ''policy.csv'' then
        Some \<lparr>pf_modTime = 7, pf_size = 99, pf_lines = Some
          [''# demo'', ''p,role:ops,profile:dev,encrypt,allow'', ''p,role:ops,rotation:dev:prod,rotate,allow'',
           ''p,role:base,profiles,profiles:list,allow'', ''g,group:ops,role:ops'', ''g,role:ops,role:base''],
          pf_scan_error = False\<rparr>
      else None)"

definition demo_policy :: "string list list Policy" where
  "demo_policy =
     \<lparr>enforcer = [[''p'', ''role:ops'', ''profile:dev'', ''encrypt'', ''allow''],
        [''p'', ''role:ops'', ''rotation:dev:prod'', ''rotate'', ''allow''],
        [''p'', ''role:base'', ''profiles'', ''profiles:list'', ''allow''],
        [''g'', ''group:ops'', ''role:ops''], [''g'', ''role:ops'', ''role:base'']],
      rules = [\<lparr>Subject = ''role:ops'', Object = ''profile:dev'', Action = ''encrypt'', Effect = ''allow''\<rparr>,
        \<lparr>Subject = ''role:ops'', Object = ''rotation:dev:prod'', Action = ''rotate'', Effect = ''allow''\<rparr>,
        \<lparr>Subject = ''role:base'', Object = ''profiles'', Action = ''profiles:list'', Effect = ''allow''\<rparr>],
      groupRoles = [(''group:ops'', [''role:ops''])], parents = [(''role:ops'', ''role:base'')],
      path = ''policy.csv'', profileIDs = [''dev'', ''prod''], modTime = 7, fsize = 99\<rparr>"

lemma demo_policy_loads:
  "LoadPolicy demo_casbin demo_csv demo_fs ''policy.csv'' [''dev'', ''prod''] = Inr demo_policy"
  by code_simp

definition demo_actor :: Caller where
  "demo_actor = \<lparr>kind = KindSession, issuer = ''https://idp'', subject = ''alice'',
     groups = [''ops''], scopes = {}\<rparr>"

theorem evaluate_decision_witness:
  "evaluate_checks demo_casbin demo_policy demo_actor
     [\<lparr>chk_Action = ''profiles:list'', chk_Resource = ''profiles''\<rparr>,
      \<lparr>chk_Action = ''decrypt'', chk_Resource = ''profile:dev''\<rparr>] = Inr [True, False]"
  unfolding evaluate_decision [OF demo_casbin_ok demo_policy_loads]
  by (simp add: demo_policy_def demo_actor_def group_roles_def parent_of_def matchesPolicyObject_def
      strings_HasSuffix_def Let_def)

theorem rotation_requires_exact_pair_witness:
  "authorizeWithPolicy demo_casbin (Some demo_policy) demo_actor ActionRotate
     (RotationResource ''dev'' ''prod'') = None \<and> ''dev'' \<in> set [''dev'', ''prod'']"
proof -
  have "IsValidProfileID ''dev''" "IsValidProfileID ''prod''" by code_simp+
  note r = rotation_requires_exact_pair [OF demo_casbin_ok demo_policy_loads this, of demo_actor]
  have "''role:ops'' \<in> rolesForGroups demo_policy (groups demo_actor)" by code_simp
  with r show ?thesis
    by (simp add: demo_policy_def demo_actor_def RotationResource_def ActionRotate_def Let_def)
qed

end
