(* ===== verification/Admission.thy ===== *)
theory Admission
  imports Go_Context "HOL-Library.Word"
begin

text \<open>
  Operation admission and leases, \<open>backend/internal/vaultservice/admission.go\<close>.

  Admissions and lease states are heap objects with addresses; a \<open>Lease\<close> or \<open>Admission\<close> pointer
  is an optional address, \<open>None\<close> for nil. The token channel is its number of buffered tokens; the
  rejection counter is a 64-bit word. A lease state's mutex is the flag \<open>held\<close>; an operation that
  would wait for it returns \<open>None\<close>. The second half models the same operations step by step, with
  arbitrary interleaving of goroutines.
\<close>

subsection \<open>Data\<close>

datatype admission_error =
    ErrAdmissionSaturated
  | ErrVerifierAdmissionSaturated
  | ErrAdmissionUnavailable
  | ErrAdmissionCapacity
  | ErrContext ctx_err

definition MaxRuntimeAdmissionCapacity :: int where "MaxRuntimeAdmissionCapacity = 16"
definition MaxVerifierAdmissionCapacity :: int where "MaxVerifierAdmissionCapacity = 8"

record Admission =
  tokens_cap :: nat
  tokens :: nat
  inUse :: int
  rejections :: "64 word"
  saturated :: "admission_error option"

record leaseState =
  ls_admission :: "nat option"
  active :: bool
  ls_binding :: "leaseContextBinding option"
  boundContext :: ctx
  contextIssued :: bool
  held :: bool

record heap =
  admissions :: "nat \<Rightarrow> Admission"
  lease_states :: "nat \<rightharpoonup> leaseState"
  fresh :: nat

subsection \<open>Construction\<close>

definition newAdmission :: "int \<Rightarrow> admission_error option \<Rightarrow> admission_error + Admission" where
  "newAdmission capacity sat =
     (if capacity < 1 then Inl ErrAdmissionCapacity
      else Inr \<lparr>tokens_cap = nat capacity, tokens = 0, inUse = 0, rejections = 0,
                saturated = Some (case sat of None \<Rightarrow> ErrAdmissionSaturated | Some e \<Rightarrow> e)\<rparr>)"

definition NewAdmission :: "int \<Rightarrow> admission_error + Admission" where
  "NewAdmission capacity = newAdmission capacity (Some ErrAdmissionSaturated)"

definition NewVerifierAdmission :: "int \<Rightarrow> admission_error + Admission" where
  "NewVerifierAdmission capacity = newAdmission capacity (Some ErrVerifierAdmissionSaturated)"

definition runtimeAdmissionCapacity :: "int \<Rightarrow> int" where
  "runtimeAdmissionCapacity gomaxprocs =
     (if gomaxprocs < 1 then 1
      else if gomaxprocs > MaxRuntimeAdmissionCapacity then MaxRuntimeAdmissionCapacity
      else gomaxprocs)"

definition verifierAdmissionCapacity :: "int \<Rightarrow> int" where
  "verifierAdmissionCapacity gomaxprocs =
     (if gomaxprocs < 1 then 1
      else if gomaxprocs > MaxVerifierAdmissionCapacity then MaxVerifierAdmissionCapacity
      else gomaxprocs)"

text \<open>The runtime constructors discard the error of \<open>NewAdmission\<close>; \<open>None\<close> would be the nil
  admission.\<close>

definition NewRuntimeAdmission :: "int \<Rightarrow> Admission option" where
  "NewRuntimeAdmission gomaxprocs =
     (case NewAdmission (runtimeAdmissionCapacity gomaxprocs) of Inl _ \<Rightarrow> None | Inr a \<Rightarrow> Some a)"

definition NewRuntimeVerifierAdmission :: "int \<Rightarrow> Admission option" where
  "NewRuntimeVerifierAdmission gomaxprocs =
     (case NewVerifierAdmission (verifierAdmissionCapacity gomaxprocs) of Inl _ \<Rightarrow> None | Inr a \<Rightarrow> Some a)"

subsection \<open>Acquisition and release\<close>

definition set_admission :: "nat \<Rightarrow> Admission \<Rightarrow> heap \<Rightarrow> heap" where
  "set_admission a adm h = h\<lparr>admissions := (admissions h)(a := adm)\<rparr>"

definition set_lease :: "nat \<Rightarrow> leaseState \<Rightarrow> heap \<Rightarrow> heap" where
  "set_lease l s h = h\<lparr>lease_states := (lease_states h)(l \<mapsto> s)\<rparr>"

text \<open>The context is read before the token is taken (time \<open>t\<close>) and once more with the token in hand
  (time \<open>t + 1\<close>).\<close>

definition TryAcquire ::
  "heap \<Rightarrow> nat option \<Rightarrow> context_t \<Rightarrow> nat \<Rightarrow> (admission_error + nat) \<times> heap" where
  "TryAcquire h ap ctx t =
     (case ap of
        None \<Rightarrow> (Inl ErrAdmissionUnavailable, h)
      | Some a \<Rightarrow>
          let adm = admissions h a in
          (case ctx_Err ctx t of
             Some err \<Rightarrow> (Inl (ErrContext err), h)
           | None \<Rightarrow>
               if tokens adm < tokens_cap adm then
                 let adm1 = adm\<lparr>tokens := tokens adm + 1\<rparr> in
                 (case ctx_Err ctx (t + 1) of
                    Some err \<Rightarrow>
                      (Inl (ErrContext err), set_admission a (adm1\<lparr>tokens := tokens adm1 - 1\<rparr>) h)
                  | None \<Rightarrow>
                      let l = fresh h;
                          binding = Binding l l (Some ctx);
                          state = \<lparr>ls_admission = Some a, active = True, ls_binding = Some binding,
                                   boundContext = Some (with_binding ctx binding),
                                   contextIssued = False, held = False\<rparr>
                      in (Inr l, (set_lease l state
                                   (set_admission a (adm1\<lparr>inUse := inUse adm1 + 1\<rparr>) h))\<lparr>fresh := Suc l\<rparr>))
               else
                 (Inl (case saturated adm of Some e \<Rightarrow> e | None \<Rightarrow> ErrAdmissionSaturated),
                  set_admission a (adm\<lparr>rejections := rejections adm + 1\<rparr>) h)))"

text \<open>\<open>Release\<close> waits while the lease is held by a running operation.\<close>

definition Release :: "heap \<Rightarrow> nat option \<Rightarrow> heap option" where
  "Release h lp =
     (case lp of
        None \<Rightarrow> Some h
      | Some l \<Rightarrow> (case lease_states h l of
          None \<Rightarrow> Some h
        | Some state \<Rightarrow> (case ls_admission state of
            None \<Rightarrow> Some h
          | Some a \<Rightarrow>
              if held state then None
              else if \<not> active state then Some h
              else let adm = admissions h a in
                Some (set_admission a (adm\<lparr>tokens := tokens adm - 1, inUse := inUse adm - 1\<rparr>)
                       (set_lease l (state\<lparr>active := False\<rparr>) h)))))"

definition Capacity :: "heap \<Rightarrow> nat option \<Rightarrow> nat" where
  "Capacity h ap = (case ap of None \<Rightarrow> 0 | Some a \<Rightarrow> tokens_cap (admissions h a))"

definition InUse :: "heap \<Rightarrow> nat option \<Rightarrow> int" where
  "InUse h ap = (case ap of None \<Rightarrow> 0 | Some a \<Rightarrow> inUse (admissions h a))"

definition Rejections :: "heap \<Rightarrow> nat option \<Rightarrow> 64 word" where
  "Rejections h ap = (case ap of None \<Rightarrow> 0 | Some a \<Rightarrow> rejections (admissions h a))"

subsection \<open>Contexts of leases\<close>

text \<open>Two bindings are the same object when their addresses agree.\<close>

definition same_binding :: "leaseContextBinding option \<Rightarrow> leaseContextBinding option \<Rightarrow> bool" where
  "same_binding x y \<longleftrightarrow> map_option binding_addr x = map_option binding_addr y"

definition lease_Context :: "heap \<Rightarrow> nat option \<Rightarrow> ctx \<Rightarrow> ctx \<times> heap" where
  "lease_Context h lp ctx =
     (case lp of
        None \<Rightarrow> (ctx, h)
      | Some l \<Rightarrow> (case lease_states h l of
          None \<Rightarrow> (ctx, h)
        | Some state \<Rightarrow>
            if ctx = None then (ctx, h)
            else if \<not> active state \<or> ls_binding state = None \<or> boundContext state = None then (ctx, h)
            else if same_binding (leaseBindingFromContext ctx) (ls_binding state) \<and> contextIssued state
              then (ctx, h)
            else if contextIssued state then (ctx, h)
            else (boundContext state, set_lease l (state\<lparr>contextIssued := True\<rparr>) h)))"

definition leaseFromContext :: "ctx \<Rightarrow> nat option" where
  "leaseFromContext ctx = map_option binding_state (leaseBindingFromContext ctx)"

definition contextErr :: "nat option \<Rightarrow> ctx \<Rightarrow> nat \<Rightarrow> ctx_cause option" where
  "contextErr lp ctx t =
     (case contextCancellation ctx t of
        Some err \<Rightarrow> Some err
      | None \<Rightarrow> (case lp of
          None \<Rightarrow> None
        | Some l \<Rightarrow> (case leaseBindingFromContext ctx of
            None \<Rightarrow> None
          | Some b \<Rightarrow>
              if binding_state b \<noteq> l \<or> binding_origin b = None then None
              else contextCancellation (binding_origin b) t)))"

text \<open>The test that \<open>liveForContext\<close> and \<open>holdForContext\<close> share: the lease belongs to this
  admission, is active, its context was issued and the given context carries its binding.\<close>

definition lease_bound :: "heap \<Rightarrow> nat option \<Rightarrow> ctx \<Rightarrow> nat option \<Rightarrow> bool" where
  "lease_bound h lp ctx ap \<longleftrightarrow>
     (case (lp, leaseBindingFromContext ctx) of
        (Some l, Some b) \<Rightarrow>
          (case lease_states h l of
             None \<Rightarrow> False
           | Some state \<Rightarrow>
               ls_admission state = ap \<and> binding_state b = l \<and>
               active state \<and> contextIssued state \<and> same_binding (ls_binding state) (Some b))
      | _ \<Rightarrow> False)"

text \<open>\<open>liveForContext\<close> and \<open>executionContext\<close> take the mutex of the lease for the length of their reads;
  they are modelled at the moment they have it, and change nothing.\<close>

definition liveForContext :: "heap \<Rightarrow> nat option \<Rightarrow> ctx \<Rightarrow> nat option \<Rightarrow> bool" where
  "liveForContext h lp ctx ap = lease_bound h lp ctx ap"

definition executionContext :: "heap \<Rightarrow> nat option \<Rightarrow> ctx" where
  "executionContext h lp =
     (case lp of
        None \<Rightarrow> None
      | Some l \<Rightarrow> (case lease_states h l of
          None \<Rightarrow> None
        | Some state \<Rightarrow>
            if \<not> active state \<or> \<not> contextIssued state then None else boundContext state))"

text \<open>\<open>holdForContext\<close> returns with the mutex locked when it answers true; it waits (\<open>None\<close>) while
  another operation holds the lease.\<close>

definition holdForContext :: "heap \<Rightarrow> nat option \<Rightarrow> ctx \<Rightarrow> nat option \<Rightarrow> (bool \<times> heap) option" where
  "holdForContext h lp ctx ap =
     (case (lp, leaseBindingFromContext ctx) of
        (Some l, Some b) \<Rightarrow>
          (case lease_states h l of
             None \<Rightarrow> Some (False, h)
           | Some state \<Rightarrow>
               if ls_admission state \<noteq> ap \<or> binding_state b \<noteq> l then Some (False, h)
               else if held state then None
               else if \<not> lease_bound h lp ctx ap then Some (False, h)
               else Some (True, set_lease l (state\<lparr>held := True\<rparr>) h))
      | _ \<Rightarrow> Some (False, h))"

definition releaseHold :: "heap \<Rightarrow> nat option \<Rightarrow> heap" where
  "releaseHold h lp =
     (case lp of
        None \<Rightarrow> h
      | Some l \<Rightarrow> (case lease_states h l of
          None \<Rightarrow> h
        | Some state \<Rightarrow> set_lease l (state\<lparr>held := False\<rparr>) h))"

subsection \<open>The invariant\<close>

definition live_leases :: "heap \<Rightarrow> nat \<Rightarrow> nat set" where
  "live_leases h a =
     {l. \<exists>s. lease_states h l = Some s \<and> active s \<and> ls_admission s = Some a}"

definition heap_ok :: "heap \<Rightarrow> bool" where
  "heap_ok h \<longleftrightarrow>
     (\<forall>l s. lease_states h l = Some s \<longrightarrow>
        l < fresh h \<and> (held s \<longrightarrow> active s \<and> contextIssued s) \<and>
        (\<exists>ctx. ls_binding s = Some (Binding l l (Some ctx)) \<and>
               boundContext s = Some (with_binding ctx (Binding l l (Some ctx))))) \<and>
     (\<forall>a. tokens (admissions h a) = card (live_leases h a) \<and>
          inUse (admissions h a) = int (tokens (admissions h a)) \<and>
          tokens (admissions h a) \<le> tokens_cap (admissions h a))"

section \<open>Lemmas\<close>

lemma heap_updates [simp]:
  "admissions (set_admission a adm h) = (admissions h)(a := adm)"
  "lease_states (set_admission a adm h) = lease_states h"
  "fresh (set_admission a adm h) = fresh h"
  "admissions (set_lease l s h) = admissions h"
  "lease_states (set_lease l s h) = (lease_states h)(l \<mapsto> s)"
  "fresh (set_lease l s h) = fresh h"
  by (simp_all add: set_admission_def set_lease_def)

lemma live_leases_finite: "heap_ok h \<Longrightarrow> finite (live_leases h a)"
proof -
  assume "heap_ok h"
  then have "live_leases h a \<subseteq> {l. l < fresh h}" by (auto simp: heap_ok_def live_leases_def)
  then show ?thesis by (rule finite_subset) simp
qed

lemma heap_ok_fresh: "heap_ok h \<Longrightarrow> lease_states h (fresh h) = None"
  by (cases "lease_states h (fresh h)") (auto simp: heap_ok_def)

lemma live_leases_set_lease:
  "live_leases (set_lease l s h) a =
     (if active s \<and> ls_admission s = Some a then insert l (live_leases h a)
      else live_leases h a - {l})"
  by (auto simp: live_leases_def split: if_splits)

lemma live_leases_other [simp]:
  "live_leases (set_admission b adm h) a = live_leases h a"
  "live_leases (h\<lparr>fresh := n\<rparr>) a = live_leases h a"
  by (simp_all add: live_leases_def)

lemma TryAcquire_Inr:
  assumes "heap_ok h" "TryAcquire h ap ctx t = (Inr l, h')"
  obtains a adm where "ap = Some a" "adm = admissions h a" "tokens adm < tokens_cap adm"
    "ctx_Err ctx t = None" "ctx_Err ctx (t + 1) = None" "l = fresh h"
    "h' = (set_lease l \<lparr>ls_admission = Some a, active = True,
              ls_binding = Some (Binding l l (Some ctx)),
              boundContext = Some (with_binding ctx (Binding l l (Some ctx))),
              contextIssued = False, held = False\<rparr>
            (set_admission a (adm\<lparr>tokens := tokens adm + 1, inUse := inUse adm + 1\<rparr>) h))
          \<lparr>fresh := Suc l\<rparr>"
  using assms by (auto simp: TryAcquire_def Let_def split: option.splits if_splits)

lemma lease_okD:
  assumes "heap_ok h" "lease_states h l = Some s"
  shows "l < fresh h" "held s \<Longrightarrow> active s \<and> contextIssued s"
    "\<exists>ctx. ls_binding s = Some (Binding l l (Some ctx)) \<and>
           boundContext s = Some (with_binding ctx (Binding l l (Some ctx)))"
  using assms unfolding heap_ok_def by blast+

lemma pool_okD:
  assumes "heap_ok h"
  shows "tokens (admissions h a) = card (live_leases h a)"
    "inUse (admissions h a) = int (card (live_leases h a))"
    "card (live_leases h a) \<le> tokens_cap (admissions h a)"
  using assms unfolding heap_ok_def by (metis of_nat_eq_iff)+

lemma heap_okI:
  assumes "\<And>l s. lease_states h l = Some s \<Longrightarrow> l < fresh h \<and> (held s \<longrightarrow> active s \<and> contextIssued s) \<and>
        (\<exists>ctx. ls_binding s = Some (Binding l l (Some ctx)) \<and>
               boundContext s = Some (with_binding ctx (Binding l l (Some ctx))))"
    and "\<And>a. tokens (admissions h a) = card (live_leases h a)"
    and "\<And>a. inUse (admissions h a) = int (card (live_leases h a))"
    and "\<And>a. card (live_leases h a) \<le> tokens_cap (admissions h a)"
  shows "heap_ok h"
  unfolding heap_ok_def using assms by simp

lemma TryAcquire_error:
  assumes "heap_ok h" "TryAcquire h ap ctx t = (Inl e, h')"
  shows "lease_states h' = lease_states h \<and> fresh h' = fresh h \<and>
    (\<forall>a. tokens (admissions h' a) = tokens (admissions h a) \<and>
         inUse (admissions h' a) = inUse (admissions h a) \<and>
         tokens_cap (admissions h' a) = tokens_cap (admissions h a))"
  using assms(2) by (auto simp: TryAcquire_def Let_def split: option.splits if_splits)

lemma heap_ok_TryAcquire_error:
  assumes "heap_ok h" "TryAcquire h ap ctx t = (Inl e, h')"
  shows "heap_ok h'"
proof -
  note e = TryAcquire_error [OF assms]
  then have "live_leases h' a = live_leases h a" for a by (simp add: live_leases_def)
  then show ?thesis
    using e lease_okD [OF assms(1)] pool_okD [OF assms(1)] by (intro heap_okI) simp_all
qed

lemma live_leases_acquired:
  assumes "heap_ok h" "TryAcquire h ap ctx t = (Inr l, h')"
  shows "live_leases h' a = (if ap = Some a then insert l (live_leases h a) else live_leases h a)"
proof -
  from TryAcquire_Inr [OF assms] obtain b adm where
    "ap = Some b" "l = fresh h" and
    h': "h' = (set_lease l \<lparr>ls_admission = Some b, active = True,
              ls_binding = Some (Binding l l (Some ctx)),
              boundContext = Some (with_binding ctx (Binding l l (Some ctx))),
              contextIssued = False, held = False\<rparr>
            (set_admission b (adm\<lparr>tokens := tokens adm + 1, inUse := inUse adm + 1\<rparr>) h))
          \<lparr>fresh := Suc l\<rparr>" .
  moreover have "fresh h \<notin> live_leases h a"
    using heap_ok_fresh [OF assms(1)] by (simp add: live_leases_def)
  ultimately show ?thesis by (simp add: live_leases_set_lease)
qed

lemma heap_ok_TryAcquire:
  assumes "heap_ok h" "TryAcquire h ap ctx t = (Inr l, h')"
  shows "heap_ok h'"
proof -
  from TryAcquire_Inr [OF assms] obtain b adm where
    ap: "ap = Some b" and adm: "adm = admissions h b" "tokens adm < tokens_cap adm" and l: "l = fresh h"
    and h': "h' = (set_lease l \<lparr>ls_admission = Some b, active = True,
              ls_binding = Some (Binding l l (Some ctx)),
              boundContext = Some (with_binding ctx (Binding l l (Some ctx))),
              contextIssued = False, held = False\<rparr>
            (set_admission b (adm\<lparr>tokens := tokens adm + 1, inUse := inUse adm + 1\<rparr>) h))
          \<lparr>fresh := Suc l\<rparr>" .
  have notin: "l \<notin> live_leases h b"
    using heap_ok_fresh [OF assms(1)] l by (simp add: live_leases_def)
  have card: "card (live_leases h' a) = card (live_leases h a) + (if a = b then 1 else 0)" for a
    using live_leases_acquired [OF assms, of a] ap notin live_leases_finite [OF assms(1), of b] by auto
  note pool = pool_okD [OF assms(1)]
  show ?thesis
  proof (rule heap_okI)
    fix k s assume "lease_states h' k = Some s"
    then show "k < fresh h' \<and> (held s \<longrightarrow> active s \<and> contextIssued s) \<and>
        (\<exists>ctx. ls_binding s = Some (Binding k k (Some ctx)) \<and>
               boundContext s = Some (with_binding ctx (Binding k k (Some ctx))))"
      using lease_okD [OF assms(1), of k s] unfolding h' l
      by (cases "k = fresh h") (auto simp: less_Suc_eq)
  next
    fix a
    show "tokens (admissions h' a) = card (live_leases h' a)"
      unfolding card using pool(1) adm by (simp add: h')
    show "inUse (admissions h' a) = int (card (live_leases h' a))"
      unfolding card using pool(2) adm by (simp add: h')
    show "card (live_leases h' a) \<le> tokens_cap (admissions h' a)"
      unfolding card using pool(1,3) adm by (simp add: h' Suc_le_eq)
  qed
qed

text \<open>An update of one lease that keeps its admission, its binding and whether it is active.\<close>

lemma heap_ok_set_lease:
  assumes "heap_ok h" "lease_states h l = Some s"
    "active s' = active s" "ls_admission s' = ls_admission s" "ls_binding s' = ls_binding s"
    "boundContext s' = boundContext s" "held s' \<longrightarrow> active s' \<and> contextIssued s'"
  shows "heap_ok (set_lease l s' h)"
proof -
  have live: "live_leases (set_lease l s' h) a = live_leases h a" for a
    unfolding live_leases_set_lease using assms(2-4) by (auto simp: live_leases_def)
  note pool = pool_okD [OF assms(1)]
  show ?thesis
  proof (rule heap_okI)
    fix k u assume k: "lease_states (set_lease l s' h) k = Some u"
    show "k < fresh (set_lease l s' h) \<and> (held u \<longrightarrow> active u \<and> contextIssued u) \<and>
        (\<exists>ctx. ls_binding u = Some (Binding k k (Some ctx)) \<and>
               boundContext u = Some (with_binding ctx (Binding k k (Some ctx))))"
    proof (cases "k = l")
      case True
      then show ?thesis using k assms lease_okD [OF assms(1,2)] by simp
    next
      case False
      then show ?thesis using k lease_okD [OF assms(1), of k u] by simp
    qed
  qed (simp_all add: live pool)
qed

lemma lease_Context_cases:
  assumes "lease_Context h lp ctx = (c, h')"
  shows "h' = h \<and> c = ctx \<or>
    (\<exists>l s. lp = Some l \<and> lease_states h l = Some s \<and> active s \<and> \<not> contextIssued s \<and>
       c = boundContext s \<and> h' = set_lease l (s\<lparr>contextIssued := True\<rparr>) h)"
proof (cases lp)
  case (Some l)
  then show ?thesis
    using assms by (cases "lease_states h l") (auto simp: lease_Context_def split: if_splits)
qed (use assms in \<open>simp add: lease_Context_def\<close>)

lemma heap_ok_Context:
  assumes "heap_ok h" "lease_Context h lp ctx = (c, h')"
  shows "heap_ok h'"
  using lease_Context_cases [OF assms(2)]
proof (elim disjE exE conjE)
  fix l s assume "lease_states h l = Some s" "active s"
    "h' = set_lease l (s\<lparr>contextIssued := True\<rparr>) h"
  then show ?thesis by (simp add: heap_ok_set_lease [OF assms(1)])
qed (use assms(1) in simp)

lemma holdForContext_True:
  assumes "holdForContext h lp ctx ap = Some (True, h')"
  obtains l s b where "lp = Some l" "leaseBindingFromContext ctx = Some b" "lease_states h l = Some s"
    "\<not> held s" "lease_bound h lp ctx ap" "active s" "contextIssued s" "ls_admission s = ap"
    "binding_state b = l" "h' = set_lease l (s\<lparr>held := True\<rparr>) h"
  using assms
  by (auto simp: holdForContext_def lease_bound_def split: option.splits if_splits)

lemma holdForContext_False:
  "holdForContext h lp ctx ap = Some (False, h') \<Longrightarrow> h' = h"
  by (auto simp: holdForContext_def split: option.splits if_splits)

lemma heap_ok_hold:
  assumes "heap_ok h" "holdForContext h lp ctx ap = Some (ok, h')"
  shows "heap_ok h'"
proof (cases ok)
  case True
  with assms(2) obtain l s where "lease_states h l = Some s" "active s" "contextIssued s"
    "h' = set_lease l (s\<lparr>held := True\<rparr>) h" by (auto elim: holdForContext_True)
  then show ?thesis by (simp add: heap_ok_set_lease [OF assms(1)])
next
  case False
  then show ?thesis using assms holdForContext_False by metis
qed

lemma heap_ok_releaseHold: "heap_ok h \<Longrightarrow> heap_ok (releaseHold h lp)"
  by (auto simp: releaseHold_def heap_ok_set_lease split: option.splits)

lemma Release_cases:
  assumes "Release h lp = Some h'"
  obtains "h' = h"
  | l s a where "lp = Some l" "lease_states h l = Some s" "ls_admission s = Some a" "\<not> held s" "active s"
      "h' = set_admission a ((admissions h a)\<lparr>tokens := tokens (admissions h a) - 1,
                inUse := inUse (admissions h a) - 1\<rparr>) (set_lease l (s\<lparr>active := False\<rparr>) h)"
proof -
  from assms have "h' = h \<or> (\<exists>l s a. lp = Some l \<and> lease_states h l = Some s \<and>
      ls_admission s = Some a \<and> \<not> held s \<and> active s \<and>
      h' = set_admission a ((admissions h a)\<lparr>tokens := tokens (admissions h a) - 1,
                inUse := inUse (admissions h a) - 1\<rparr>) (set_lease l (s\<lparr>active := False\<rparr>) h))"
    by (simp add: Release_def Let_def split: option.splits if_splits)
  then show thesis using that by blast
qed

lemma heap_ok_Release:
  assumes "heap_ok h" "Release h lp = Some h'"
  shows "heap_ok h'"
  using assms(2)
proof (cases rule: Release_cases)
  case 1
  then show ?thesis using assms(1) by simp
next
  case (2 l s a)
  have l: "l \<in> live_leases h a" using 2 by (simp add: live_leases_def)
  have other: "l \<notin> live_leases h b" if "b \<noteq> a" for b using that 2 by (simp add: live_leases_def)
  have live: "live_leases h' b = live_leases h b - {l}" for b
    unfolding 2(6) by (simp add: live_leases_set_lease)
  have card: "card (live_leases h' b) = card (live_leases h b) - (if b = a then 1 else 0)" for b
    using l other [of b] live_leases_finite [OF assms(1), of a] by (simp add: live)
  have pos: "0 < card (live_leases h a)"
    using l live_leases_finite [OF assms(1), of a] card_gt_0_iff by blast
  note pool = pool_okD [OF assms(1)]
  show ?thesis
  proof (rule heap_okI)
    fix k u assume k: "lease_states h' k = Some u"
    show "k < fresh h' \<and> (held u \<longrightarrow> active u \<and> contextIssued u) \<and>
        (\<exists>ctx. ls_binding u = Some (Binding k k (Some ctx)) \<and>
               boundContext u = Some (with_binding ctx (Binding k k (Some ctx))))"
      using k lease_okD [OF assms(1), of k u] lease_okD [OF assms(1) 2(2)] 2(4)
      by (cases "k = l") (auto simp: 2(6))
  next
    fix b
    show "tokens (admissions h' b) = card (live_leases h' b)"
      unfolding card using pool(1) by (simp add: 2(6))
    show "inUse (admissions h' b) = int (card (live_leases h' b))"
      unfolding card using pool(2) pos by (auto simp: 2(6))
    show "card (live_leases h' b) \<le> tokens_cap (admissions h' b)"
      unfolding card using pool(3) by (auto simp: 2(6) intro: le_diff_conv [THEN iffD2] trans_le_add1)
  qed
qed

subsection \<open>Interleaving\<close>

text \<open>
  The same pool with every access to the channel, the counter and a lease's mutex as a step of its
  own, so that acquisitions, releases and running operations of any number of goroutines
  interleave. \<open>p_acquiring\<close> counts goroutines that hold a token but have not yet read their
  context the second time. A lease is \<open>Draining\<close> after \<open>Release\<close> has locked it and cleared
  \<open>active\<close>, \<open>Settling\<close> once the token is received and \<open>Freed\<close> when the counter is
  decremented and the mutex unlocked.
\<close>

datatype phase = Unused | Live | Draining | Settling | Freed

record pool =
  p_cap :: nat
  p_tokens :: nat
  p_inUse :: int
  p_acquiring :: nat
  p_phase :: "nat \<Rightarrow> phase"
  p_held :: "nat \<Rightarrow> bool"

inductive pool_step :: "pool \<Rightarrow> pool \<Rightarrow> bool" where
  push: "p_tokens s < p_cap s \<Longrightarrow>
     pool_step s (s\<lparr>p_tokens := p_tokens s + 1, p_acquiring := p_acquiring s + 1\<rparr>)"
| abort: "0 < p_acquiring s \<Longrightarrow>
     pool_step s (s\<lparr>p_tokens := p_tokens s - 1, p_acquiring := p_acquiring s - 1\<rparr>)"
| commit: "0 < p_acquiring s \<Longrightarrow> p_phase s l = Unused \<Longrightarrow>
     pool_step s (s\<lparr>p_inUse := p_inUse s + 1, p_acquiring := p_acquiring s - 1,
                    p_phase := (p_phase s)(l := Live)\<rparr>)"
| deactivate: "p_phase s l = Live \<Longrightarrow> \<not> p_held s l \<Longrightarrow>
     pool_step s (s\<lparr>p_phase := (p_phase s)(l := Draining)\<rparr>)"
| receive: "p_phase s l = Draining \<Longrightarrow> 0 < p_tokens s \<Longrightarrow>
     pool_step s (s\<lparr>p_tokens := p_tokens s - 1, p_phase := (p_phase s)(l := Settling)\<rparr>)"
| decrement: "p_phase s l = Settling \<Longrightarrow>
     pool_step s (s\<lparr>p_inUse := p_inUse s - 1, p_phase := (p_phase s)(l := Freed)\<rparr>)"
| hold: "p_phase s l = Live \<Longrightarrow> \<not> p_held s l \<Longrightarrow>
     pool_step s (s\<lparr>p_held := (p_held s)(l := True)\<rparr>)"
| unhold: "p_held s l \<Longrightarrow> pool_step s (s\<lparr>p_held := (p_held s)(l := False)\<rparr>)"

inductive_cases pool_stepE: "pool_step s s'"

definition pool_init :: "nat \<Rightarrow> pool" where
  "pool_init cap =
     \<lparr>p_cap = cap, p_tokens = 0, p_inUse = 0, p_acquiring = 0, p_phase = (\<lambda>_. Unused),
      p_held = (\<lambda>_. False)\<rparr>"

inductive pool_reachable :: "nat \<Rightarrow> pool \<Rightarrow> bool" for cap where
  start: "pool_reachable cap (pool_init cap)"
| step: "pool_reachable cap s \<Longrightarrow> pool_step s s' \<Longrightarrow> pool_reachable cap s'"

definition in_phase :: "(nat \<Rightarrow> phase) \<Rightarrow> phase set \<Rightarrow> nat set" where
  "in_phase f ps = {l. f l \<in> ps}"

text \<open>Every token is accounted for by a goroutine that is acquiring or by a lease that has not given
  its token back, and the counter by the leases that have not been settled.\<close>

definition pool_inv :: "nat \<Rightarrow> pool \<Rightarrow> bool" where
  "pool_inv cap s \<longleftrightarrow>
     p_cap s = cap \<and> finite (in_phase (p_phase s) {Live, Draining, Settling, Freed}) \<and>
     p_tokens s = p_acquiring s + card (in_phase (p_phase s) {Live, Draining}) \<and>
     p_inUse s = int (card (in_phase (p_phase s) {Live, Draining, Settling})) \<and>
     p_tokens s \<le> cap \<and> (\<forall>l. p_held s l \<longrightarrow> p_phase s l = Live)"

lemma in_phase_upd:
  "in_phase (f(l := ph)) ps = (if ph \<in> ps then insert l (in_phase f ps) else in_phase f ps - {l})"
  by (auto simp: in_phase_def)

lemma in_phase_finite:
  assumes "finite (in_phase f {Live, Draining, Settling, Freed})" "Unused \<notin> ps"
  shows "finite (in_phase f ps)"
proof (rule finite_subset [OF _ assms(1)])
  show "in_phase f ps \<subseteq> in_phase f {Live, Draining, Settling, Freed}"
    using assms(2) by (auto simp: in_phase_def) (metis phase.exhaust)
qed

lemma in_phase_move:
  assumes "finite (in_phase f {Live, Draining, Settling, Freed})" "Unused \<notin> ps" "f l = old"
  shows "card (in_phase (f(l := new)) ps) + (if old \<in> ps then 1 else 0) =
    card (in_phase f ps) + (if new \<in> ps then 1 else 0)"
proof -
  have fin: "finite (in_phase f ps)" using assms(1,2) by (rule in_phase_finite)
  have mem: "l \<in> in_phase f ps \<longleftrightarrow> old \<in> ps" using assms(3) by (simp add: in_phase_def)
  show ?thesis
    using fin mem card_Suc_Diff1 [OF fin, of l] by (auto simp: in_phase_upd insert_absorb)
qed

lemma pool_step_inv:
  assumes "pool_step s s'" "pool_inv cap s"
  shows "pool_inv cap s'"
proof -
  have fin: "finite (in_phase (p_phase s) {Live, Draining, Settling, Freed})"
    using assms(2) by (simp add: pool_inv_def)
  have fin': "finite (in_phase ((p_phase s)(l := ph)) {Live, Draining, Settling, Freed})" for l ph
    using fin by (simp add: in_phase_upd)
  note move = in_phase_move [OF fin]
  note m1 = move [of "{Live, Draining}"] and m2 = move [of "{Live, Draining, Settling}"]
  note inv = assms(2) [unfolded pool_inv_def]
  from assms(1) show ?thesis
  proof (cases rule: pool_step.cases)
    case push
    then show ?thesis using inv by (simp add: pool_inv_def)
  next
    case abort
    then show ?thesis using inv by (auto simp: pool_inv_def)
  next
    case (commit l)
    then show ?thesis
      using inv fin' [of l Live] m1 [of l Unused Live] m2 [of l Unused Live]
      by (auto simp: pool_inv_def simp del: fun_upd_apply) (auto split: if_splits)
  next
    case (deactivate l)
    then show ?thesis
      using inv fin' [of l Draining] m1 [of l Live Draining] m2 [of l Live Draining]
      by (auto simp: pool_inv_def simp del: fun_upd_apply) (auto split: if_splits)
  next
    case (receive l)
    then show ?thesis
      using inv fin' [of l Settling] m1 [of l Draining Settling] m2 [of l Draining Settling]
      by (auto simp: pool_inv_def simp del: fun_upd_apply) (auto split: if_splits)
  next
    case (decrement l)
    then show ?thesis
      using inv fin' [of l Freed] m1 [of l Settling Freed] m2 [of l Settling Freed]
      by (auto simp: pool_inv_def simp del: fun_upd_apply) (auto split: if_splits)
  next
    case (hold l)
    then show ?thesis using inv by (simp add: pool_inv_def)
  next
    case (unhold l)
    then show ?thesis using inv by (simp add: pool_inv_def)
  qed
qed

lemma pool_reachable_inv: "pool_reachable cap s \<Longrightarrow> pool_inv cap s"
proof (induction rule: pool_reachable.induct)
  case start
  show ?case by (simp add: pool_inv_def pool_init_def in_phase_def)
next
  case (step s s')
  then show ?case by (blast intro: pool_step_inv)
qed

subsection \<open>Refinement\<close>

text \<open>The pool of admission \<open>a\<close> as the heap represents it between operations.\<close>

definition abs_pool :: "heap \<Rightarrow> nat \<Rightarrow> pool" where
  "abs_pool h a =
     \<lparr>p_cap = tokens_cap (admissions h a), p_tokens = tokens (admissions h a),
      p_inUse = inUse (admissions h a), p_acquiring = 0,
      p_phase = (\<lambda>l. case lease_states h l of
          None \<Rightarrow> Unused
        | Some s \<Rightarrow> if ls_admission s \<noteq> Some a then Unused else if active s then Live else Freed),
      p_held = (\<lambda>l. case lease_states h l of
          None \<Rightarrow> False | Some s \<Rightarrow> ls_admission s = Some a \<and> held s)\<rparr>"

lemma abs_pool_fresh [simp]: "abs_pool (h\<lparr>fresh := n\<rparr>) a = abs_pool h a"
  by (simp add: abs_pool_def)

lemma abs_pool_rejections:
  "abs_pool (set_admission b ((admissions h b)\<lparr>rejections := r\<rparr>) h) a = abs_pool h a"
  "abs_pool (set_admission b ((admissions h b)\<lparr>tokens := tokens (admissions h b)\<rparr>) h) a = abs_pool h a"
  by (auto simp: abs_pool_def)

lemma TryAcquire_steps:
  assumes "heap_ok h" "TryAcquire h ap ctx t = (r, h')"
  shows "pool_step\<^sup>*\<^sup>* (abs_pool h a) (abs_pool h' a)"
proof (cases r)
  case (Inl e)
  then have "abs_pool h' a = abs_pool h a"
    using TryAcquire_error [OF assms(1)] assms(2) by (simp add: abs_pool_def)
  then show ?thesis by simp
next
  case (Inr l)
  with assms obtain b adm where b: "ap = Some b" "adm = admissions h b" "tokens adm < tokens_cap adm"
    "l = fresh h" and
    h': "h' = (set_lease l \<lparr>ls_admission = Some b, active = True,
              ls_binding = Some (Binding l l (Some ctx)),
              boundContext = Some (with_binding ctx (Binding l l (Some ctx))),
              contextIssued = False, held = False\<rparr>
            (set_admission b (adm\<lparr>tokens := tokens adm + 1, inUse := inUse adm + 1\<rparr>) h))
          \<lparr>fresh := Suc l\<rparr>" by (blast elim: TryAcquire_Inr)
  have none: "lease_states h l = None" using heap_ok_fresh [OF assms(1)] b by simp
  show ?thesis
  proof (cases "a = b")
    case True
    define s where "s = abs_pool h a"
    define s1 where "s1 = s\<lparr>p_tokens := p_tokens s + 1, p_acquiring := p_acquiring s + 1\<rparr>"
    have "pool_step s s1"
      unfolding s1_def using b True by (intro pool_step.push) (simp add: s_def abs_pool_def)
    moreover have "pool_step s1 (s1\<lparr>p_inUse := p_inUse s1 + 1, p_acquiring := p_acquiring s1 - 1,
        p_phase := (p_phase s1)(l := Live)\<rparr>)"
      using none by (intro pool_step.commit) (simp_all add: s1_def s_def abs_pool_def)
    moreover have "s1\<lparr>p_inUse := p_inUse s1 + 1, p_acquiring := p_acquiring s1 - 1,
        p_phase := (p_phase s1)(l := Live)\<rparr> = abs_pool h' a"
      using b True none unfolding h' s1_def s_def abs_pool_def by (auto simp: fun_eq_iff)
    ultimately show ?thesis unfolding s_def by (metis rtranclp.simps)
  next
    case False
    then have "abs_pool h' a = abs_pool h a"
      using none unfolding h' abs_pool_def by (auto simp: fun_eq_iff)
    then show ?thesis by simp
  qed
qed

lemma Release_steps:
  assumes "heap_ok h" "Release h lp = Some h'"
  shows "pool_step\<^sup>*\<^sup>* (abs_pool h b) (abs_pool h' b)"
  using assms(2)
proof (cases rule: Release_cases)
  case (2 l s a)
  show ?thesis
  proof (cases "a = b")
    case True
    let ?s0 = "abs_pool h b"
    let ?s1 = "?s0\<lparr>p_phase := (p_phase ?s0)(l := Draining)\<rparr>"
    let ?s2 = "?s1\<lparr>p_tokens := p_tokens ?s1 - 1, p_phase := (p_phase ?s1)(l := Settling)\<rparr>"
    let ?s3 = "?s2\<lparr>p_inUse := p_inUse ?s2 - 1, p_phase := (p_phase ?s2)(l := Freed)\<rparr>"
    have "l \<in> live_leases h a" using 2 by (simp add: live_leases_def)
    then have pos: "0 < tokens (admissions h a)"
      using pool_okD(1) [OF assms(1)] live_leases_finite [OF assms(1)] card_gt_0_iff by fastforce
    have "pool_step ?s0 ?s1"
      using 2 True by (intro pool_step.deactivate) (simp_all add: abs_pool_def)
    moreover have "pool_step ?s1 ?s2"
      using pos True by (intro pool_step.receive) (simp_all add: abs_pool_def)
    moreover have "pool_step ?s2 ?s3" by (intro pool_step.decrement) simp
    moreover have "?s3 = abs_pool h' b"
      using 2 True unfolding 2(6) abs_pool_def by (auto simp: fun_eq_iff)
    ultimately show ?thesis by (metis rtranclp.simps)
  next
    case False
    then have "abs_pool h' b = abs_pool h b"
      using 2 unfolding 2(6) abs_pool_def by (auto simp: fun_eq_iff)
    then show ?thesis by simp
  qed
qed simp

lemma hold_steps:
  assumes "holdForContext h lp ctx ap = Some (ok, h')"
  shows "pool_step\<^sup>*\<^sup>* (abs_pool h a) (abs_pool h' a)"
proof (cases ok)
  case True
  with assms obtain l s where l: "lease_states h l = Some s" "\<not> held s" "active s"
    "h' = set_lease l (s\<lparr>held := True\<rparr>) h" by (auto elim: holdForContext_True)
  show ?thesis
  proof (cases "ls_admission s = Some a")
    case True
    have "pool_step (abs_pool h a) ((abs_pool h a)\<lparr>p_held := (p_held (abs_pool h a))(l := True)\<rparr>)"
      using l True by (intro pool_step.hold) (simp_all add: abs_pool_def)
    moreover have "(abs_pool h a)\<lparr>p_held := (p_held (abs_pool h a))(l := True)\<rparr> = abs_pool h' a"
      using l True by (auto simp: abs_pool_def fun_eq_iff)
    ultimately show ?thesis by (metis r_into_rtranclp)
  next
    case False
    then have "abs_pool h' a = abs_pool h a" using l by (auto simp: abs_pool_def fun_eq_iff)
    then show ?thesis by simp
  qed
next
  case False
  then show ?thesis using assms holdForContext_False by (metis rtranclp.rtrancl_refl)
qed

lemma releaseHold_steps: "pool_step\<^sup>*\<^sup>* (abs_pool h a) (abs_pool (releaseHold h lp) a)"
proof (cases "\<exists>l s. lp = Some l \<and> lease_states h l = Some s \<and> held s \<and> ls_admission s = Some a")
  case True
  then obtain l s where l: "lp = Some l" "lease_states h l = Some s" "held s" "ls_admission s = Some a"
    by blast
  have "pool_step (abs_pool h a) ((abs_pool h a)\<lparr>p_held := (p_held (abs_pool h a))(l := False)\<rparr>)"
    using l by (intro pool_step.unhold) (simp add: abs_pool_def)
  moreover have "(abs_pool h a)\<lparr>p_held := (p_held (abs_pool h a))(l := False)\<rparr> =
      abs_pool (releaseHold h lp) a"
    using l by (auto simp: abs_pool_def releaseHold_def fun_eq_iff)
  ultimately show ?thesis by (metis r_into_rtranclp)
next
  case False
  then have "abs_pool (releaseHold h lp) a = abs_pool h a"
    by (auto simp: abs_pool_def releaseHold_def fun_eq_iff split: option.splits)
  then show ?thesis by simp
qed


subsection \<open>What each operation does to the pool\<close>

text \<open>The whole of what an operation does to the pool of one admission, as functions on pools.\<close>

definition place_taken :: "nat \<Rightarrow> pool \<Rightarrow> pool" where
  "place_taken l s = s\<lparr>p_tokens := p_tokens s + 1, p_inUse := p_inUse s + 1, p_phase := (p_phase s)(l := Live)\<rparr>"

definition place_returned :: "nat \<Rightarrow> pool \<Rightarrow> pool" where
  "place_returned l s = s\<lparr>p_tokens := p_tokens s - 1, p_inUse := p_inUse s - 1, p_phase := (p_phase s)(l := Freed)\<rparr>"

definition hold_set :: "nat \<Rightarrow> bool \<Rightarrow> pool \<Rightarrow> pool" where
  "hold_set l on s = s\<lparr>p_held := (p_held s)(l := on)\<rparr>"

text \<open>The reasons to refuse: no admission, a cancelled context, no free place.\<close>

definition acquire_refused :: "heap \<Rightarrow> nat option \<Rightarrow> context_t \<Rightarrow> nat \<Rightarrow> bool" where
  "acquire_refused h ap ctx t \<longleftrightarrow>
     ap = None \<or> ctx_Err ctx t \<noteq> None \<or> ctx_Err ctx (t + 1) \<noteq> None \<or>
     tokens_cap (admissions h (the ap)) \<le> tokens (admissions h (the ap))"

lemma TryAcquire_effect:
  assumes "heap_ok h" "TryAcquire h ap ctx t = (r, h')"
  shows "case r of
      Inl _ \<Rightarrow> acquire_refused h ap ctx t \<and> abs_pool h' a = abs_pool h a
    | Inr l \<Rightarrow> ap \<noteq> None \<and> lease_states h l = None \<and> (\<exists>s. lease_states h' l = Some s \<and> \<not> contextIssued s) \<and>
        abs_pool h' a = (if ap = Some a then place_taken l (abs_pool h a) else abs_pool h a)"
proof (cases r)
  case (Inl e)
  have "acquire_refused h ap ctx t"
    using assms(2) Inl by (auto simp: TryAcquire_def acquire_refused_def Let_def split: option.splits if_splits)
  then show ?thesis using Inl TryAcquire_error [OF assms(1)] assms(2) by (simp add: abs_pool_def)
next
  case (Inr l)
  with assms obtain b adm where b: "ap = Some b" "adm = admissions h b" "l = fresh h" and
    h': "h' = (set_lease l \<lparr>ls_admission = Some b, active = True,
              ls_binding = Some (Binding l l (Some ctx)),
              boundContext = Some (with_binding ctx (Binding l l (Some ctx))),
              contextIssued = False, held = False\<rparr>
            (set_admission b (adm\<lparr>tokens := tokens adm + 1, inUse := inUse adm + 1\<rparr>) h))
          \<lparr>fresh := Suc l\<rparr>" by (blast elim: TryAcquire_Inr)
  have none: "lease_states h l = None" using heap_ok_fresh [OF assms(1)] b by simp
  have "abs_pool h' a = (if ap = Some a then place_taken l (abs_pool h a) else abs_pool h a)"
    using b none unfolding h' abs_pool_def place_taken_def by (auto simp: fun_eq_iff)
  then show ?thesis using Inr none b(1) by (simp add: h')
qed

lemma Context_effect: "lease_Context h lp ctx = (c, h') \<Longrightarrow> abs_pool h' a = abs_pool h a"
  by (drule lease_Context_cases) (auto simp: abs_pool_def fun_eq_iff split: if_splits)

lemma Context_issued:
  assumes "heap_ok h" "lp = Some l" "lease_states h l = Some s"
  shows "lease_Context h lp ctx =
    (if ctx \<noteq> None \<and> active s \<and> \<not> contextIssued s
     then (boundContext s, set_lease l (s\<lparr>contextIssued := True\<rparr>) h) else (ctx, h))"
  using lease_okD(3) [OF assms(1,3)] assms(2,3) by (auto simp: lease_Context_def)

lemma Release_effect:
  assumes "heap_ok h" "Release h lp = Some h'"
  shows "abs_pool h' a = (case lp of
      Some l \<Rightarrow> if l \<in> live_leases h a then place_returned l (abs_pool h a) else abs_pool h a
    | None \<Rightarrow> abs_pool h a)"
proof (cases "\<exists>l. lp = Some l \<and> l \<in> live_leases h a")
  case True
  then obtain l s where l: "lp = Some l" "lease_states h l = Some s" "active s" "ls_admission s = Some a"
    by (auto simp: live_leases_def)
  then have "h' = set_admission a ((admissions h a)\<lparr>tokens := tokens (admissions h a) - 1, inUse := inUse (admissions h a) - 1\<rparr>)
      (set_lease l (s\<lparr>active := False\<rparr>) h)"
    using assms(2) by (auto simp: Release_def Let_def split: if_splits)
  then show ?thesis
    using True l unfolding abs_pool_def place_returned_def by (auto simp: fun_eq_iff)
next
  case False
  have "abs_pool h' a = abs_pool h a"
    using assms(2)
  proof (cases rule: Release_cases)
    case (2 l s b)
    then have "b \<noteq> a" using False by (auto simp: live_leases_def)
    then show ?thesis using 2 unfolding 2(6) abs_pool_def by (auto simp: fun_eq_iff)
  qed simp
  then show ?thesis using False by (auto split: option.split)
qed

lemma Release_waits:
  "Release h lp = None \<longleftrightarrow>
     (\<exists>l s. lp = Some l \<and> lease_states h l = Some s \<and> ls_admission s \<noteq> None \<and> held s)"
  by (auto simp: Release_def Let_def split: option.splits)

lemma hold_waits:
  "holdForContext h lp c ap = None \<longleftrightarrow>
     (\<exists>l s b. lp = Some l \<and> lease_states h l = Some s \<and> ls_admission s = ap \<and>
        leaseBindingFromContext c = Some b \<and> binding_state b = l \<and> held s)"
  by (auto simp: holdForContext_def split: option.splits)

lemma hold_effect:
  assumes "holdForContext h lp c ap = Some (ok, h')"
  shows "ok = lease_bound h lp c ap \<and>
    (if ok then \<exists>l. lp = Some l \<and> \<not> p_held (abs_pool h a) l \<and>
        abs_pool h' a = (if ap = Some a then hold_set l True (abs_pool h a) else abs_pool h a) \<and>
        (ap \<noteq> None \<longrightarrow> Release h' lp = None) \<and> holdForContext h' lp c ap = None
     else h' = h)"
proof (cases ok)
  case True
  with assms obtain l s b where l: "lp = Some l" "leaseBindingFromContext c = Some b" "lease_states h l = Some s"
    "\<not> held s" "lease_bound h lp c ap" "active s" "ls_admission s = ap" "binding_state b = l" "h' = set_lease l (s\<lparr>held := True\<rparr>) h"
    by (auto elim: holdForContext_True)
  have "abs_pool h' a = (if ap = Some a then hold_set l True (abs_pool h a) else abs_pool h a)"
    using l by (auto simp: abs_pool_def hold_set_def fun_eq_iff)
  moreover have "\<not> p_held (abs_pool h a) l" using l by (simp add: abs_pool_def)
  moreover have "ap \<noteq> None \<longrightarrow> Release h' lp = None" "holdForContext h' lp c ap = None"
    using l unfolding Release_waits hold_waits by auto
  ultimately show ?thesis using True l by simp
next
  case False
  have "\<not> lease_bound h lp c ap"
    using assms False by (auto simp: holdForContext_def lease_bound_def split: option.splits if_splits)
  then show ?thesis using False assms holdForContext_False [of h lp c ap h'] by simp
qed

lemma releaseHold_effect:
  "abs_pool (releaseHold h lp) a = (case lp of
      Some l \<Rightarrow> if \<exists>s. lease_states h l = Some s \<and> ls_admission s = Some a then hold_set l False (abs_pool h a) else abs_pool h a
    | None \<Rightarrow> abs_pool h a)"
  by (auto simp: abs_pool_def releaseHold_def hold_set_def fun_eq_iff split: option.splits)

lemma TryAcquire_refines:
  assumes "heap_ok h"
  shows "case TryAcquire h ap ctx t of (r, h') \<Rightarrow>
      heap_ok h' \<and> pool_step\<^sup>*\<^sup>* (abs_pool h a) (abs_pool h' a) \<and>
      (case r of
         Inl _ \<Rightarrow> acquire_refused h ap ctx t \<and> abs_pool h' a = abs_pool h a
       | Inr l \<Rightarrow> ap \<noteq> None \<and> lease_states h l = None \<and> (\<exists>s. lease_states h' l = Some s \<and> \<not> contextIssued s) \<and>
           abs_pool h' a = (if ap = Some a then place_taken l (abs_pool h a) else abs_pool h a))"
proof (cases "TryAcquire h ap ctx t")
  case (Pair r h')
  have "heap_ok h'" using Pair heap_ok_TryAcquire [OF assms] heap_ok_TryAcquire_error [OF assms] by (cases r) auto
  then show ?thesis using Pair TryAcquire_steps [OF assms Pair] TryAcquire_effect [OF assms Pair] by simp
qed

lemma Context_refines:
  assumes "heap_ok h"
  shows "case lease_Context h lp c of (c', h') \<Rightarrow>
      heap_ok h' \<and> abs_pool h' a = abs_pool h a \<and>
      (\<forall>l s. lp = Some l \<and> lease_states h l = Some s \<longrightarrow>
         (if c \<noteq> None \<and> active s \<and> \<not> contextIssued s
          then c' = boundContext s \<and> h' = set_lease l (s\<lparr>contextIssued := True\<rparr>) h else c' = c \<and> h' = h))"
proof (cases "lease_Context h lp c")
  case (Pair c' h')
  show ?thesis
    using Pair heap_ok_Context [OF assms Pair] Context_effect [OF Pair] Context_issued [OF assms] by (auto split: if_splits)
qed

lemma Release_refines:
  assumes "heap_ok h"
  shows "case Release h lp of
       None \<Rightarrow> \<exists>l s. lp = Some l \<and> lease_states h l = Some s \<and> ls_admission s \<noteq> None \<and> held s
     | Some h' \<Rightarrow> heap_ok h' \<and> pool_step\<^sup>*\<^sup>* (abs_pool h a) (abs_pool h' a) \<and>
         \<not> (\<exists>l s. lp = Some l \<and> lease_states h l = Some s \<and> ls_admission s \<noteq> None \<and> held s) \<and>
         abs_pool h' a = (case lp of
             Some l \<Rightarrow> if l \<in> live_leases h a then place_returned l (abs_pool h a) else abs_pool h a
           | None \<Rightarrow> abs_pool h a)"
proof (cases "Release h lp")
  case None
  then show ?thesis using Release_waits [of h lp] by simp
next
  case (Some h')
  then have "\<not> (\<exists>l s. lp = Some l \<and> lease_states h l = Some s \<and> ls_admission s \<noteq> None \<and> held s)"
    using Release_waits [of h lp] by simp
  then show ?thesis
    using Some heap_ok_Release [OF assms Some] Release_steps [OF assms Some, of a] Release_effect [OF assms Some, of a]
    by (simp only: option.case simp_thms)
qed

lemma hold_refines:
  assumes "heap_ok h"
  shows "case holdForContext h lp c ap of
       None \<Rightarrow> \<exists>l s. lp = Some l \<and> lease_states h l = Some s \<and> ls_admission s = ap \<and> held s
     | Some (ok, h') \<Rightarrow> heap_ok h' \<and> pool_step\<^sup>*\<^sup>* (abs_pool h a) (abs_pool h' a) \<and> ok = lease_bound h lp c ap \<and>
         (if ok then \<exists>l. lp = Some l \<and> \<not> p_held (abs_pool h a) l \<and>
             abs_pool h' a = (if ap = Some a then hold_set l True (abs_pool h a) else abs_pool h a) \<and>
             (ap \<noteq> None \<longrightarrow> Release h' lp = None) \<and> holdForContext h' lp c ap = None
          else h' = h)"
proof (cases "holdForContext h lp c ap")
  case None
  then show ?thesis using hold_waits [of h lp c ap] by auto
next
  case (Some r)
  obtain ok h' where r: "r = (ok, h')" by fastforce
  note run = Some [unfolded r]
  show ?thesis
    unfolding run option.case prod.case using heap_ok_hold [OF assms run] hold_steps [OF run] hold_effect [OF run] by blast
qed

subsection \<open>The pool as an interface\<close>

text \<open>
  What a client of an admission relies on: an acquisition takes exactly one of the free places and
  is refused when there is none; releasing the lease it returned, when it is not held by a running
  operation, gives the place back.
\<close>

locale token_pool =
  fixes inv :: "'h \<Rightarrow> bool"
    and capacity :: "'h \<Rightarrow> nat"
    and in_use :: "'h \<Rightarrow> nat"
    and acquire :: "'h \<Rightarrow> ('l \<times> 'h) option"
    and release :: "'h \<Rightarrow> 'l \<Rightarrow> 'h option"
    and owned :: "'h \<Rightarrow> 'l set"
  assumes bounded: "inv h \<Longrightarrow> in_use h \<le> capacity h"
    and acquired: "inv h \<Longrightarrow> acquire h = Some (l, h') \<Longrightarrow>
      inv h' \<and> in_use h' = in_use h + 1 \<and> capacity h' = capacity h \<and> owned h' = insert l (owned h)
      \<and> l \<notin> owned h"
    and released: "inv h \<Longrightarrow> l \<in> owned h \<Longrightarrow> release h l = Some h' \<Longrightarrow>
      inv h' \<and> in_use h' + 1 = in_use h \<and> capacity h' = capacity h \<and> owned h' = owned h - {l}"
begin

text \<open>A full pool refuses.\<close>

lemma full_refuses: "inv h \<Longrightarrow> in_use h = capacity h \<Longrightarrow> acquire h = None"
  using acquired bounded by (metis add_diff_cancel_left' add_leD1 diff_is_0_eq' not_None_eq old.prod.exhaust zero_neq_one)

fun acquire_many :: "nat \<Rightarrow> 'h \<Rightarrow> ('l list \<times> 'h) option" where
  "acquire_many 0 h = Some ([], h)"
| "acquire_many (Suc n) h =
     (case acquire h of
        None \<Rightarrow> None
      | Some (l, h') \<Rightarrow>
          (case acquire_many n h' of None \<Rightarrow> None | Some (ls, h'') \<Rightarrow> Some (l # ls, h'')))"

text \<open>Any number of successful acquisitions in a row fits the free places, and the leases are
  pairwise different.\<close>

lemma acquire_many_bound:
  "inv h \<Longrightarrow> acquire_many n h = Some (ls, h') \<Longrightarrow>
     inv h' \<and> in_use h' = in_use h + n \<and> capacity h' = capacity h \<and> distinct ls \<and> length ls = n \<and>
     set ls \<inter> owned h = {} \<and> owned h' = set ls \<union> owned h"
proof (induction n arbitrary: h ls)
  case (Suc n)
  from Suc.prems(2) obtain l h1 ls' where a: "acquire h = Some (l, h1)"
    "acquire_many n h1 = Some (ls', h')" "ls = l # ls'" by (auto split: option.splits)
  from acquired [OF Suc.prems(1) a(1)] Suc.IH [OF _ a(2)] a(3) show ?case by auto
qed simp

lemma acquire_many_capacity:
  assumes "inv h" "acquire_many n h = Some (ls, h')"
  shows "in_use h + n \<le> capacity h"
  using acquire_many_bound [OF assms] bounded by metis

text \<open>Acquire and release restores the number in use.\<close>

lemma bracket:
  assumes "inv h" "acquire h = Some (l, h1)" "release h1 l = Some h2"
  shows "inv h2 \<and> in_use h2 = in_use h \<and> owned h2 = owned h"
  using acquired [OF assms(1,2)] released [OF _ _ assms(3)] by auto

end

definition admission_acquire :: "nat \<Rightarrow> context_t \<Rightarrow> nat \<Rightarrow> heap \<Rightarrow> (nat \<times> heap) option" where
  "admission_acquire a ctx t h =
     (case TryAcquire h (Some a) ctx t of (Inr l, h') \<Rightarrow> Some (l, h') | (Inl _, _) \<Rightarrow> None)"

lemma admission_acquire_Some:
  "admission_acquire a ctx t h = Some (l, h') \<longleftrightarrow> TryAcquire h (Some a) ctx t = (Inr l, h')"
  by (auto simp: admission_acquire_def split: prod.splits sum.splits)

interpretation pool: token_pool heap_ok "\<lambda>h. tokens_cap (admissions h a)"
  "\<lambda>h. card (live_leases h a)" "admission_acquire a ctx t" "\<lambda>h l. Release h (Some l)"
  "\<lambda>h. live_leases h a" for a ctx t
proof (unfold_locales, goal_cases)
  case (1 h)
  then show ?case by (rule pool_okD)
next
  case (2 h l h')
  then have acq: "TryAcquire h (Some a) ctx t = (Inr l, h')" by (simp add: admission_acquire_Some)
  from TryAcquire_Inr [OF 2(1) acq] have "l = fresh h \<and>
    tokens_cap (admissions h' a) = tokens_cap (admissions h a)" by (cases, simp)
  moreover have "fresh h \<notin> live_leases h a"
    using heap_ok_fresh [OF 2(1)] by (simp add: live_leases_def)
  ultimately show ?case
    using heap_ok_TryAcquire [OF 2(1) acq] live_leases_acquired [OF 2(1) acq, of a]
      live_leases_finite [OF 2(1), of a] by simp
next
  case (3 h l h')
  from 3(2) obtain s where s: "lease_states h l = Some s" "active s" "ls_admission s = Some a"
    by (auto simp: live_leases_def)
  have ok: "heap_ok h'" using heap_ok_Release [OF 3(1,3)] .
  from 3(3) show ?case
  proof (cases rule: Release_cases)
    case 1
    moreover from 3(3) s have "lease_states h' l = Some (s\<lparr>active := False\<rparr>)"
      by (auto simp: Release_def Let_def split: if_splits)
    ultimately have "s = s\<lparr>active := False\<rparr>" using s by simp
    then have "active s = active (s\<lparr>active := False\<rparr>)" by (rule arg_cong)
    then show ?thesis using s by simp
  next
    case (2 l' s' a')
    then have eq: "l' = l" "s' = s" "a' = a" using s by auto
    have live: "live_leases h' a = live_leases h a - {l}"
      unfolding 2(6) eq by (simp add: live_leases_set_lease)
    have "0 < card (live_leases h a)" using 3 live_leases_finite [OF 3(1)] card_gt_0_iff by fastforce
    then show ?thesis
      using ok live 3(2) live_leases_finite [OF 3(1), of a] unfolding 2(6) eq by auto
  qed
qed


section \<open>Properties\<close>

text \<open>C13. Admission under every interleaving: in every reachable state of a pool, the leases that
  are live or still giving their token back, together with the goroutines about to receive a
  lease, never exceed the capacity; a lease held by a running operation is live, so its place is
  not free; and when no acquisition or release is under way, the reported \<open>inUse\<close> is exactly the
  number of live leases.\<close>

theorem admission_capacity:
  assumes "pool_reachable cap s"
  shows "card (in_phase (p_phase s) {Live, Draining}) + p_acquiring s \<le> cap \<and>
    (\<forall>l. p_held s l \<longrightarrow> p_phase s l = Live) \<and>
    (p_acquiring s = 0 \<and> in_phase (p_phase s) {Draining, Settling} = {} \<longrightarrow>
       p_inUse s = int (card {l. p_phase s l = Live}) \<and> p_tokens s = card {l. p_phase s l = Live})"
proof -
  note inv = pool_reachable_inv [OF assms, unfolded pool_inv_def]
  have "in_phase (p_phase s) {Live, Draining} = {l. p_phase s l = Live} \<and>
      in_phase (p_phase s) {Live, Draining, Settling} = {l. p_phase s l = Live}"
    if "in_phase (p_phase s) {Draining, Settling} = {}"
    using that by (auto simp: in_phase_def)
  then show ?thesis using inv by auto
qed

lemma demo_pool_reachable:
  "pool_reachable 1 ((pool_init 1)\<lparr>p_tokens := 1, p_inUse := 1, p_phase := (\<lambda>_. Unused)(5 := Live)\<rparr>)"
proof -
  let ?s1 = "(pool_init 1)\<lparr>p_tokens := p_tokens (pool_init 1) + 1,
    p_acquiring := p_acquiring (pool_init 1) + 1\<rparr>"
  have 1: "pool_reachable 1 ?s1"
    by (rule pool_reachable.step [OF pool_reachable.start], rule pool_step.push)
      (simp add: pool_init_def)
  have "pool_step ?s1 (?s1\<lparr>p_inUse := p_inUse ?s1 + 1, p_acquiring := p_acquiring ?s1 - 1,
      p_phase := (p_phase ?s1)(5 := Live)\<rparr>)"
    by (rule pool_step.commit) (simp_all add: pool_init_def)
  from pool_reachable.step [OF 1 this] show ?thesis by (simp add: pool_init_def)
qed

theorem admission_capacity_witness:
  "\<exists>s. pool_reachable 1 s \<and> p_phase s 5 = Live \<and> p_inUse s = int (card {l. p_phase s l = Live})"
proof -
  let ?s = "(pool_init 1)\<lparr>p_tokens := 1, p_inUse := 1, p_phase := (\<lambda>_. Unused)(5 := Live)\<rparr>"
  have "p_acquiring ?s = 0 \<and> in_phase (p_phase ?s) {Draining, Settling} = {}"
    by (auto simp: pool_init_def in_phase_def split: if_splits)
  then have "p_inUse ?s = int (card {l. p_phase ?s l = Live})"
    using admission_capacity [OF demo_pool_reachable] by blast
  moreover have "p_phase ?s 5 = Live" by simp
  ultimately show ?thesis using demo_pool_reachable by blast
qed

text \<open>\<open>Release\<close> never waits for a token: in every reachable state, a lease that is being
  released finds a token in the channel, so the receive under the lease's mutex cannot block, and
  neither can the goroutine behind it.\<close>

lemma release_receive_enabled:
  assumes "pool_reachable cap s" "p_phase s l = Draining"
  shows "0 < p_tokens s \<and>
    pool_step s (s\<lparr>p_tokens := p_tokens s - 1, p_phase := (p_phase s)(l := Settling)\<rparr>)"
proof -
  note inv = pool_reachable_inv [OF assms(1), unfolded pool_inv_def]
  have "l \<in> in_phase (p_phase s) {Live, Draining}" using assms(2) by (simp add: in_phase_def)
  moreover have "finite (in_phase (p_phase s) {Live, Draining})"
    using inv by (auto intro: in_phase_finite)
  ultimately have pos: "0 < p_tokens s" using inv card_gt_0_iff by fastforce
  show ?thesis by (rule conjI [OF pos pool_step.receive [OF assms(2) pos]])
qed

text \<open>C36. Refinement: every operation on a well-formed heap keeps it well-formed and is, for each
  admission of the heap, a run of the interleaved pool with exactly the effect it should have: an acquisition that
  succeeds takes one place for a new lease, one that fails leaves the pool as it was, and had a cancelled context, no admission or
  no free place; \<open>Context\<close> leaves the pool as it was,
  and issues the context of a live lease the first time it is asked and never again; a release returns the place of
  a live lease, and waits exactly while a running operation holds the lease; holding succeeds exactly when the lease is bound to
  the context and to the admission, and waits while another operation holds it; one that succeeds marks the
  lease as held, so that from then on a release and any further hold wait; letting go unmarks it. So the place of a running
  operation is never given away.\<close>

theorem admission_operations_refine_pool:
  assumes "heap_ok h"
  shows "(case TryAcquire h ap ctx t of (r, h') \<Rightarrow>
      heap_ok h' \<and> pool_step\<^sup>*\<^sup>* (abs_pool h a) (abs_pool h' a) \<and>
      (case r of
         Inl _ \<Rightarrow> acquire_refused h ap ctx t \<and> abs_pool h' a = abs_pool h a
       | Inr l \<Rightarrow> ap \<noteq> None \<and> lease_states h l = None \<and> (\<exists>s. lease_states h' l = Some s \<and> \<not> contextIssued s) \<and>
           abs_pool h' a = (if ap = Some a then place_taken l (abs_pool h a) else abs_pool h a))) \<and>
    (case lease_Context h lp c of (c', h') \<Rightarrow>
      heap_ok h' \<and> abs_pool h' a = abs_pool h a \<and>
      (\<forall>l s. lp = Some l \<and> lease_states h l = Some s \<longrightarrow>
         (if c \<noteq> None \<and> active s \<and> \<not> contextIssued s
          then c' = boundContext s \<and> h' = set_lease l (s\<lparr>contextIssued := True\<rparr>) h else c' = c \<and> h' = h))) \<and>
    (case Release h lp of
       None \<Rightarrow> \<exists>l s. lp = Some l \<and> lease_states h l = Some s \<and> ls_admission s \<noteq> None \<and> held s
     | Some h' \<Rightarrow> heap_ok h' \<and> pool_step\<^sup>*\<^sup>* (abs_pool h a) (abs_pool h' a) \<and>
         \<not> (\<exists>l s. lp = Some l \<and> lease_states h l = Some s \<and> ls_admission s \<noteq> None \<and> held s) \<and>
         abs_pool h' a = (case lp of
             Some l \<Rightarrow> if l \<in> live_leases h a then place_returned l (abs_pool h a) else abs_pool h a
           | None \<Rightarrow> abs_pool h a)) \<and>
    (case holdForContext h lp c ap of
       None \<Rightarrow> \<exists>l s. lp = Some l \<and> lease_states h l = Some s \<and> ls_admission s = ap \<and> held s
     | Some (ok, h') \<Rightarrow> heap_ok h' \<and> pool_step\<^sup>*\<^sup>* (abs_pool h a) (abs_pool h' a) \<and> ok = lease_bound h lp c ap \<and>
         (if ok then \<exists>l. lp = Some l \<and> \<not> p_held (abs_pool h a) l \<and>
             abs_pool h' a = (if ap = Some a then hold_set l True (abs_pool h a) else abs_pool h a) \<and>
             (ap \<noteq> None \<longrightarrow> Release h' lp = None) \<and> holdForContext h' lp c ap = None
          else h' = h)) \<and>
    heap_ok (releaseHold h lp) \<and> pool_step\<^sup>*\<^sup>* (abs_pool h a) (abs_pool (releaseHold h lp) a) \<and>
    abs_pool (releaseHold h lp) a = (case lp of
        Some l \<Rightarrow> if \<exists>s. lease_states h l = Some s \<and> ls_admission s = Some a then hold_set l False (abs_pool h a) else abs_pool h a
      | None \<Rightarrow> abs_pool h a)"
  by (intro conjI TryAcquire_refines Context_refines Release_refines hold_refines heap_ok_releaseHold releaseHold_steps
      releaseHold_effect assms)

definition demo_heap :: heap where
  "demo_heap = \<lparr>admissions = (\<lambda>_. \<lparr>tokens_cap = 1, tokens = 0, inUse = 0, rejections = 0,
      saturated = Some ErrAdmissionSaturated\<rparr>), lease_states = Map.empty, fresh = 0\<rparr>"

lemma demo_heap_ok [simp]: "heap_ok demo_heap"
  by (simp add: heap_ok_def demo_heap_def live_leases_def)

text \<open>An acquisition, the context of its lease, a hold, and a release that waits.\<close>

definition demo_taken :: heap where "demo_taken = snd (TryAcquire demo_heap (Some 0) background 0)"

definition demo_bound :: ctx where "demo_bound = fst (lease_Context demo_taken (Some 0) (Some background))"

definition demo_issued :: heap where "demo_issued = snd (lease_Context demo_taken (Some 0) (Some background))"

lemma demo_taken_ok: "heap_ok demo_taken" "TryAcquire demo_heap (Some 0) background 0 = (Inr 0, demo_taken)"
proof -
  show t: "TryAcquire demo_heap (Some 0) background 0 = (Inr 0, demo_taken)"
    by (simp add: demo_taken_def prod_eq_iff) (simp add: TryAcquire_def demo_heap_def Let_def)
  show "heap_ok demo_taken" by (rule heap_ok_TryAcquire [OF demo_heap_ok t])
qed

lemma demo_issued_ok: "heap_ok demo_issued" "lease_bound demo_issued (Some 0) demo_bound (Some 0)"
  "\<exists>h. holdForContext demo_issued (Some 0) demo_bound (Some 0) = Some (True, h)"
proof -
  show "heap_ok demo_issued"
    using heap_ok_Context [OF demo_taken_ok(1) prod.collapse [symmetric]] by (simp add: demo_issued_def)
  show b: "lease_bound demo_issued (Some 0) demo_bound (Some 0)"
    by (simp add: demo_issued_def demo_bound_def demo_taken_def demo_heap_def TryAcquire_def lease_Context_def Let_def
        lease_bound_def same_binding_def leaseBindingFromContext_def)
  have "holdForContext demo_issued (Some 0) demo_bound (Some 0) \<noteq> None"
    by (simp add: demo_issued_def demo_bound_def demo_taken_def demo_heap_def TryAcquire_def lease_Context_def Let_def
        hold_waits leaseBindingFromContext_def)
  then show "\<exists>h. holdForContext demo_issued (Some 0) demo_bound (Some 0) = Some (True, h)"
    using hold_effect [of demo_issued "Some 0" demo_bound "Some 0"] b by fastforce
qed

theorem admission_operations_refine_pool_witness:
  "abs_pool demo_taken 0 = place_taken 0 (abs_pool demo_heap 0) \<and>
   (\<exists>h. holdForContext demo_issued (Some 0) demo_bound (Some 0) = Some (True, h) \<and>
      abs_pool h 0 = hold_set 0 True (abs_pool demo_issued 0) \<and> Release h (Some 0) = None)"
proof -
  have "abs_pool demo_taken 0 = place_taken 0 (abs_pool demo_heap 0)"
    using admission_operations_refine_pool [OF demo_heap_ok, where ap = "Some 0" and ctx = background and t = 0 and a = 0]
    by (simp add: demo_taken_ok(2))
  moreover obtain h where h: "holdForContext demo_issued (Some 0) demo_bound (Some 0) = Some (True, h)"
    using demo_issued_ok(3) by blast
  moreover have "abs_pool h 0 = hold_set 0 True (abs_pool demo_issued 0) \<and> Release h (Some 0) = None"
    using admission_operations_refine_pool [OF demo_issued_ok(1), where lp = "Some 0" and c = demo_bound and ap = "Some 0" and a = 0]
    by (simp add: h)
  ultimately show ?thesis by blast
qed

text \<open>Capacity of the runtime pools: whatever GOMAXPROCS reports, the operation pool is created
  with a capacity between 1 and 16 and the verification pool with a capacity between 1 and 8,
  both empty, and no number of acquisitions without a release can exceed it.\<close>

lemma runtime_admission_bounds:
  assumes "heap_ok h" "pool.acquire_many a ctx t n h = Some (leases, h')"
  shows "(\<exists>adm. NewRuntimeAdmission gomaxprocs = Some adm \<and> 1 \<le> tokens_cap adm \<and> tokens_cap adm \<le> 16 \<and>
      tokens adm = 0 \<and> saturated adm = Some ErrAdmissionSaturated) \<and>
    (\<exists>adm. NewRuntimeVerifierAdmission gomaxprocs = Some adm \<and> 1 \<le> tokens_cap adm \<and>
      tokens_cap adm \<le> 8 \<and> tokens adm = 0 \<and> saturated adm = Some ErrVerifierAdmissionSaturated) \<and>
    card (live_leases h a) + n \<le> tokens_cap (admissions h a) \<and> distinct leases \<and> length leases = n"
  using pool.acquire_many_capacity [OF assms] pool.acquire_many_bound [OF assms]
  by (auto simp: NewRuntimeAdmission_def NewAdmission_def newAdmission_def runtimeAdmissionCapacity_def
      MaxRuntimeAdmissionCapacity_def NewRuntimeVerifierAdmission_def NewVerifierAdmission_def
      verifierAdmissionCapacity_def MaxVerifierAdmissionCapacity_def)

end
