(* ===== verification/Strict_JSON.thy ===== *)
theory Strict_JSON
  imports Prelude
begin

text \<open>
  The strict JSON parser of rotation attestations, \<open>backend/internal/attestation/json.go\<close>.

  The parser of the source keeps the data and a position; here the state is the remaining input
  \<open>data[pos:]\<close>. Its only error is \<open>errStrictJSON\<close>, so a method that may fail returns an option of
  its value with the remaining input. The nesting depth, which the source counts in a field, is
  an argument. The second half defines JSON texts (the escaping of package encoding/json and of
  RFC 8785) and shows that the parser reads them back.
\<close>

subsection \<open>Runes\<close>

text \<open>The size of the rune that \<open>utf8.DecodeRune\<close> finds at the start of the input, 0 where it
  reports \<open>RuneError\<close> with size 1 (or 0 on empty input).\<close>

definition rune_size :: "string \<Rightarrow> nat" where
  "rune_size s =
     (case s of [] \<Rightarrow> 0
      | a # s0 \<Rightarrow>
          let n = (of_char a :: nat) in
          if n < 0x80 then 1
          else if n < 0xC2 \<or> 0xF4 < n then 0
          else (case s0 of [] \<Rightarrow> 0
                | b # s1 \<Rightarrow>
                    if \<not> utf8_second n b then 0
                    else if n < 0xE0 then 2
                    else (case s1 of [] \<Rightarrow> 0
                          | c # s2 \<Rightarrow>
                              if \<not> utf8_cont c then 0
                              else if n < 0xF0 then 3
                              else (case s2 of [] \<Rightarrow> 0
                                    | d # s3 \<Rightarrow> if utf8_cont d then 4 else 0))))"

text \<open>\<open>utf8.EncodeRune\<close>; a surrogate or a value above 0x10FFFF is encoded as U+FFFD.\<close>

definition utf8_EncodeRune :: "nat \<Rightarrow> string" where
  "utf8_EncodeRune r0 =
     (let r = (if 0xD800 \<le> r0 \<and> r0 \<le> 0xDFFF \<or> 0x10FFFF < r0 then 0xFFFD else r0) in
      if r < 0x80 then [char_of r]
      else if r < 0x800 then [char_of (0xC0 + r div 64), char_of (0x80 + r mod 64)]
      else if r < 0x10000 then
        [char_of (0xE0 + r div 4096), char_of (0x80 + r div 64 mod 64), char_of (0x80 + r mod 64)]
      else [char_of (0xF0 + r div 262144), char_of (0x80 + r div 4096 mod 64),
            char_of (0x80 + r div 64 mod 64), char_of (0x80 + r mod 64)])"

lemma rune_size_le: "rune_size s \<le> length s"
  by (auto simp: rune_size_def Let_def split: list.splits)

lemma rune_size_pos [simp]: "rune_size s \<noteq> 0 \<Longrightarrow> s \<noteq> []"
  by (auto simp: rune_size_def)

subsection \<open>Values\<close>

datatype jsonValue =
    JObject "(string \<times> jsonValue) list"
  | JArray "jsonValue list"
  | JString string
  | JNumber string
  | JBoolean bool
  | JNull

definition maxAttestationJSONContainerDepth :: nat where
  "maxAttestationJSONContainerDepth = 2"

subsection \<open>Lexical parts\<close>

definition consume :: "char \<Rightarrow> string \<Rightarrow> string option" where
  "consume expected s = (case s of [] \<Rightarrow> None | c # r \<Rightarrow> if c = expected then Some r else None)"

definition consumeLiteral :: "string \<Rightarrow> string \<Rightarrow> string option" where
  "consumeLiteral literal s =
     (if strings_HasPrefix s literal then Some (drop (length literal) s) else None)"

definition is_json_space :: "char \<Rightarrow> bool" where
  "is_json_space c \<longleftrightarrow> c = CHR '' '' \<or> c = CHR 0x09 \<or> c = LF \<or> c = CR"

definition skipWhitespace :: "string \<Rightarrow> string" where
  "skipWhitespace s = dropWhile is_json_space s"

text \<open>The two decoded bytes of a \<open>\\u\<close> escape as a number.\<close>

definition code_unit :: "go_bytes \<Rightarrow> nat" where
  "code_unit bs = 256 * of_char (bs ! 0) + of_char (bs ! 1)"

definition parseUnicodeEscape :: "string \<Rightarrow> (nat \<times> string) option" where
  "parseUnicodeEscape s =
     (if length s < 4 then None
      else (case hex_DecodeString (take 4 s) of
        None \<Rightarrow> None
      | Some codeBytes \<Rightarrow>
          let codePoint = code_unit codeBytes; s1 = drop 4 s in
          if 0xD800 \<le> codePoint \<and> codePoint \<le> 0xDBFF then
            (if length s1 < 6 \<or> s1 ! 0 \<noteq> CHR 0x5C \<or> s1 ! 1 \<noteq> CHR ''u'' then None
             else let s2 = drop 2 s1 in
               if length s2 < 4 then None
               else (case hex_DecodeString (take 4 s2) of
                 None \<Rightarrow> None
               | Some lowBytes \<Rightarrow>
                   let low = code_unit lowBytes in
                   if low < 0xDC00 \<or> 0xDFFF < low then None
                   else Some (0x10000 + (codePoint - 0xD800) * 1024 + (low - 0xDC00), drop 4 s2)))
          else if 0xDC00 \<le> codePoint \<and> codePoint \<le> 0xDFFF then None
          else Some (codePoint, s1)))"

lemma parseUnicodeEscape_shorter:
  "parseUnicodeEscape s = Some (r, s') \<Longrightarrow> length s' < length s"
  by (auto simp: parseUnicodeEscape_def Let_def split: if_splits option.splits)

text \<open>The loop of \<open>parseString\<close>, after the opening quote.\<close>

definition prepend :: "string \<Rightarrow> (string \<times> string) option \<Rightarrow> (string \<times> string) option" where
  "prepend w r = (case r of None \<Rightarrow> None | Some (v, s) \<Rightarrow> Some (w @ v, s))"

definition simple_escape :: "char \<Rightarrow> char option" where
  "simple_escape e =
     (if e = CHR 0x22 \<or> e = CHR 0x5C \<or> e = CHR ''/'' then Some e
      else if e = CHR ''b'' then Some (CHR 0x08)
      else if e = CHR ''f'' then Some (CHR 0x0C)
      else if e = CHR ''n'' then Some LF
      else if e = CHR ''r'' then Some CR
      else if e = CHR ''t'' then Some (CHR 0x09)
      else None)"

function string_loop :: "string \<Rightarrow> (string \<times> string) option" where
  "string_loop [] = None"
| "string_loop (c # s) =
     (if c = CHR 0x22 then Some ([], s)
      else if c = CHR 0x5C then
        (case s of [] \<Rightarrow> None
         | e # s1 \<Rightarrow>
             (case simple_escape e of
                Some w \<Rightarrow> prepend [w] (string_loop s1)
              | None \<Rightarrow>
                  if e = CHR ''u'' then
                    (case parseUnicodeEscape s1 of
                       None \<Rightarrow> None
                     | Some (codePoint, s2) \<Rightarrow> prepend (utf8_EncodeRune codePoint) (string_loop s2))
                  else None))
      else if (of_char c :: nat) < 0x20 then None
      else if rune_size (c # s) = 0 then None
      else prepend (take (rune_size (c # s)) (c # s)) (string_loop (drop (rune_size (c # s)) (c # s))))"
  by pat_completeness auto

termination string_loop
  by (relation "measure length") (auto dest: parseUnicodeEscape_shorter)

definition parseString :: "string \<Rightarrow> (string \<times> string) option" where
  "parseString s = (case consume (CHR 0x22) s of None \<Rightarrow> None | Some s1 \<Rightarrow> string_loop s1)"

definition is_json_digit :: "char \<Rightarrow> bool" where
  "is_json_digit c \<longleftrightarrow> 48 \<le> (of_char c :: nat) \<and> (of_char c :: nat) \<le> 57"

definition at_digit :: "string \<Rightarrow> bool" where
  "at_digit s \<longleftrightarrow> (case s of [] \<Rightarrow> False | c # _ \<Rightarrow> is_json_digit c)"

text \<open>The integer, fraction and exponent parts of \<open>parseNumber\<close>; each gives the input that is left.\<close>

definition number_int :: "string \<Rightarrow> string option" where
  "number_int s =
     (case consume (CHR ''0'') s of
        Some s1 \<Rightarrow> if at_digit s1 then None else Some s1
      | None \<Rightarrow> if \<not> at_digit s then None else Some (dropWhile is_json_digit s))"

definition number_frac :: "string \<Rightarrow> string option" where
  "number_frac s =
     (case consume (CHR ''.'') s of
        None \<Rightarrow> Some s
      | Some s1 \<Rightarrow> if at_digit s1 then Some (dropWhile is_json_digit s1) else None)"

definition number_exp :: "string \<Rightarrow> string option" where
  "number_exp s =
     (case s of
        [] \<Rightarrow> Some s
      | c # s1 \<Rightarrow>
          if c = CHR ''e'' \<or> c = CHR ''E'' then
            let s2 = (case s1 of [] \<Rightarrow> s1
                      | d # s2 \<Rightarrow> if d = CHR ''+'' \<or> d = CHR ''-'' then s2 else s1)
            in if at_digit s2 then Some (dropWhile is_json_digit s2) else None
          else Some s)"

definition parseNumber :: "string \<Rightarrow> (string \<times> string) option" where
  "parseNumber s =
     (let s0 = (case consume (CHR ''-'') s of None \<Rightarrow> s | Some r \<Rightarrow> r) in
      case number_int s0 of
        None \<Rightarrow> None
      | Some s1 \<Rightarrow>
          (case number_frac s1 of
             None \<Rightarrow> None
           | Some s2 \<Rightarrow>
               (case number_exp s2 of
                  None \<Rightarrow> None
                | Some s3 \<Rightarrow> Some (take (length s - length s3) s, s3))))"

subsection \<open>Values and containers\<close>

type_synonym value_parser = "string \<Rightarrow> (jsonValue \<times> string) option"

text \<open>The loops of \<open>parseObject\<close> and \<open>parseArray\<close>, with the members read so far; the names seen are
  the names of these members. Every round consumes input; the test of the length makes the
  recursion well-founded for any value parser and never fails for the parser below.\<close>

function object_loop :: "value_parser \<Rightarrow> (string \<times> jsonValue) list \<Rightarrow> string \<Rightarrow> (jsonValue \<times> string) option" where
  "object_loop pv members s =
     (case parseString s of
        None \<Rightarrow> None
      | Some (name, s1) \<Rightarrow>
          if name \<in> fst ` set members then None
          else (case consume (CHR '':'') (skipWhitespace s1) of
            None \<Rightarrow> None
          | Some s2 \<Rightarrow>
              (case pv (skipWhitespace s2) of
                 None \<Rightarrow> None
               | Some (v, s3) \<Rightarrow>
                   let members' = members @ [(name, v)]; s4 = skipWhitespace s3 in
                   (case consume (CHR 0x7D) s4 of
                      Some s5 \<Rightarrow> Some (JObject members', s5)
                    | None \<Rightarrow>
                        (case consume (CHR '','') s4 of
                           None \<Rightarrow> None
                         | Some s5 \<Rightarrow>
                             if length s5 < length s
                             then object_loop pv members' (skipWhitespace s5) else None)))))"
  by pat_completeness auto

lemma skipWhitespace_length: "length (skipWhitespace s) \<le> length s"
  by (simp add: skipWhitespace_def length_dropWhile_le)

termination object_loop
  by (relation "measure (\<lambda>(pv, members, s). length s)")
    (auto intro: le_less_trans [OF skipWhitespace_length])

function array_loop :: "value_parser \<Rightarrow> jsonValue list \<Rightarrow> string \<Rightarrow> (jsonValue \<times> string) option" where
  "array_loop pv vals s =
     (case pv s of
        None \<Rightarrow> None
      | Some (v, s1) \<Rightarrow>
          let vals' = vals @ [v]; s2 = skipWhitespace s1 in
          (case consume (CHR '']'') s2 of
             Some s3 \<Rightarrow> Some (JArray vals', s3)
           | None \<Rightarrow>
               (case consume (CHR '','') s2 of
                  None \<Rightarrow> None
                | Some s3 \<Rightarrow>
                    if length s3 < length s then array_loop pv vals' (skipWhitespace s3) else None)))"
  by pat_completeness auto

termination array_loop
  by (relation "measure (\<lambda>(pv, vals, s). length s)")
    (auto intro: le_less_trans [OF skipWhitespace_length])

text \<open>Called on the input after the opening bracket.\<close>

definition parseObject :: "value_parser \<Rightarrow> string \<Rightarrow> (jsonValue \<times> string) option" where
  "parseObject pv s =
     (let s1 = skipWhitespace s in
      case consume (CHR 0x7D) s1 of
        Some s2 \<Rightarrow> Some (JObject [], s2)
      | None \<Rightarrow> object_loop pv [] s1)"

definition parseArray :: "value_parser \<Rightarrow> string \<Rightarrow> (jsonValue \<times> string) option" where
  "parseArray pv s =
     (let s1 = skipWhitespace s in
      case consume (CHR '']'') s1 of
        Some s2 \<Rightarrow> Some (JArray [], s2)
      | None \<Rightarrow> array_loop pv [] s1)"

function parseValue :: "nat \<Rightarrow> string \<Rightarrow> (jsonValue \<times> string) option" where
  "parseValue depth s =
     (case s of
        [] \<Rightarrow> None
      | c # r \<Rightarrow>
          if c = CHR 0x7B \<or> c = CHR ''['' then
            (if maxAttestationJSONContainerDepth \<le> depth then None
             else if c = CHR 0x7B then parseObject (\<lambda>x. parseValue (depth + 1) x) r
             else parseArray (\<lambda>x. parseValue (depth + 1) x) r)
          else if c = CHR 0x22 then
            (case parseString s of None \<Rightarrow> None | Some (v, s1) \<Rightarrow> Some (JString v, s1))
          else if c = CHR ''t'' then map_option (Pair (JBoolean True)) (consumeLiteral ''true'' s)
          else if c = CHR ''f'' then map_option (Pair (JBoolean False)) (consumeLiteral ''false'' s)
          else if c = CHR ''n'' then map_option (Pair JNull) (consumeLiteral ''null'' s)
          else if c = CHR ''-'' \<or> is_json_digit c then
            (case parseNumber s of None \<Rightarrow> None | Some (n, s1) \<Rightarrow> Some (JNumber n, s1))
          else None)"
  by pat_completeness auto

termination parseValue
  by (relation "measure (\<lambda>(depth, s). maxAttestationJSONContainerDepth - depth)") auto

declare parseValue.simps [simp del] object_loop.simps [simp del] array_loop.simps [simp del]

definition parseStrictJSON :: "go_bytes \<Rightarrow> jsonValue option" where
  "parseStrictJSON data =
     (if \<not> utf8_valid data then None
      else (case parseValue 0 (skipWhitespace data) of
        None \<Rightarrow> None
      | Some (v, s) \<Rightarrow> if skipWhitespace s = [] then Some v else None))"

subsection \<open>Members\<close>

definition member :: "jsonValue \<Rightarrow> string \<Rightarrow> jsonValue option" where
  "member v name = (case v of JObject ms \<Rightarrow> map_of ms name | _ \<Rightarrow> None)"

definition hasOnlyMembers :: "jsonValue \<Rightarrow> string list \<Rightarrow> bool" where
  "hasOnlyMembers v allowed =
     (case v of JObject ms \<Rightarrow> list_all (\<lambda>(name, _). name \<in> set allowed) ms | _ \<Rightarrow> False)"

section \<open>JSON texts\<close>

text \<open>A rune as package encoding/json writes it inside a string (HTML escaping on, as
  \<open>json.Marshal\<close> has it): the rune's bytes, or an escape.\<close>

definition u_escape :: "nat \<Rightarrow> string" where
  "u_escape n = CHR 0x5C # CHR ''u'' # hex_EncodeToString [char_of (n div 256), char_of (n mod 256)]"

definition short_escape :: "char \<Rightarrow> string option" where
  "short_escape c =
     (if c = CHR 0x22 \<or> c = CHR 0x5C then Some [CHR 0x5C, c]
      else if c = CHR 0x08 then Some [CHR 0x5C, CHR ''b'']
      else if c = CHR 0x0C then Some [CHR 0x5C, CHR ''f'']
      else if c = LF then Some [CHR 0x5C, CHR ''n'']
      else if c = CR then Some [CHR 0x5C, CHR ''r'']
      else if c = CHR 0x09 then Some [CHR 0x5C, CHR ''t'']
      else None)"

definition marshal_ascii :: "char \<Rightarrow> string" where
  "marshal_ascii c =
     (case short_escape c of
        Some e \<Rightarrow> e
      | None \<Rightarrow>
          if (of_char c :: nat) < 0x20 \<or> c = CHR ''<'' \<or> c = CHR ''>'' \<or> c = CHR ''&''
          then u_escape (of_char c) else [c])"

definition line_separator :: string where "line_separator = [CHR 0xE2, CHR 0x80, CHR 0xA8]"
definition paragraph_separator :: string where "paragraph_separator = [CHR 0xE2, CHR 0x80, CHR 0xA9]"

function marshal_chars :: "string \<Rightarrow> string" where
  "marshal_chars [] = []"
| "marshal_chars (c # s) =
     (let n = rune_size (c # s); w = take n (c # s) in
      if n = 0 then u_escape 0xFFFD @ marshal_chars s
      else (if n = 1 then marshal_ascii c
            else if w = line_separator then u_escape 0x2028
            else if w = paragraph_separator then u_escape 0x2029
            else w) @ marshal_chars (drop n (c # s)))"
  by pat_completeness auto

termination marshal_chars
  by (relation "measure length") auto

text \<open>RFC 8785 escapes the quote, the backslash and the control characters only.\<close>

definition jcs_char :: "char \<Rightarrow> string" where
  "jcs_char c =
     (case short_escape c of
        Some e \<Rightarrow> e
      | None \<Rightarrow> if (of_char c :: nat) < 0x20 then u_escape (of_char c) else [c])"

definition jcs_chars :: "string \<Rightarrow> string" where
  "jcs_chars s = concat (map jcs_char s)"

text \<open>The text of a value without white space, members in the order they have.\<close>

definition quote :: "(string \<Rightarrow> string) \<Rightarrow> string \<Rightarrow> string" where
  "quote esc s = CHR 0x22 # esc s @ [CHR 0x22]"

fun render :: "(string \<Rightarrow> string) \<Rightarrow> jsonValue \<Rightarrow> string"
  and render_members :: "(string \<Rightarrow> string) \<Rightarrow> (string \<times> jsonValue) list \<Rightarrow> string"
  and render_elements :: "(string \<Rightarrow> string) \<Rightarrow> jsonValue list \<Rightarrow> string" where
  "render esc (JObject ms) = CHR 0x7B # render_members esc ms @ [CHR 0x7D]"
| "render esc (JArray vs) = CHR ''['' # render_elements esc vs @ '']''"
| "render esc (JString s) = quote esc s"
| "render esc (JNumber n) = n"
| "render esc (JBoolean b) = (if b then ''true'' else ''false'')"
| "render esc JNull = ''null''"
| "render_members esc [] = []"
| "render_members esc ((n, v) # ms) =
     quote esc n @ CHR '':'' # render esc v @ (if ms = [] then [] else CHR '','' # render_members esc ms)"
| "render_elements esc [] = []"
| "render_elements esc (v # vs) =
     render esc v @ (if vs = [] then [] else CHR '','' # render_elements esc vs)"

text \<open>The values the parser can produce at a depth.\<close>

fun json_wf :: "nat \<Rightarrow> jsonValue \<Rightarrow> bool"
  and members_wf :: "nat \<Rightarrow> (string \<times> jsonValue) list \<Rightarrow> bool"
  and elements_wf :: "nat \<Rightarrow> jsonValue list \<Rightarrow> bool" where
  "json_wf d (JObject ms) \<longleftrightarrow>
     d < maxAttestationJSONContainerDepth \<and> distinct (map fst ms) \<and> members_wf (Suc d) ms"
| "json_wf d (JArray vs) \<longleftrightarrow> d < maxAttestationJSONContainerDepth \<and> elements_wf (Suc d) vs"
| "json_wf d (JString s) \<longleftrightarrow> utf8_valid s"
| "json_wf d (JNumber n) \<longleftrightarrow> parseNumber n = Some (n, [])"
| "json_wf d (JBoolean b) \<longleftrightarrow> True"
| "json_wf d JNull \<longleftrightarrow> True"
| "members_wf d [] \<longleftrightarrow> True"
| "members_wf d ((n, v) # ms) \<longleftrightarrow> utf8_valid n \<and> json_wf d v \<and> members_wf d ms"
| "elements_wf d [] \<longleftrightarrow> True"
| "elements_wf d (v # vs) \<longleftrightarrow> json_wf d v \<and> elements_wf d vs"

section \<open>Lemmas\<close>

subsection \<open>Runes\<close>

lemma utf8_valid_rune:
  "utf8_valid (c # s) \<longleftrightarrow>
     rune_size (c # s) \<noteq> 0 \<and> utf8_valid (drop (rune_size (c # s)) (c # s))"
proof -
  note 1 = utf8_valid.simps(2) [of c s]
  show ?thesis
    unfolding 1
    by (cases s; cases "tl s"; cases "tl (tl s)")
      (simp_all add: rune_size_def Let_def del: utf8_valid.simps(2))
qed

lemma rune_size_take:
  assumes "rune_size s \<noteq> 0"
  shows "rune_size (take (rune_size s) s) = rune_size s"
proof (cases s)
  case Nil
  then show ?thesis by simp
next
  case (Cons a w1)
  then show ?thesis using assms
    by (cases w1; cases "tl w1"; cases "tl (tl w1)") (simp_all add: rune_size_def Let_def split: if_splits)
qed

lemma rune_size_one: "rune_size (c # s) = 1 \<longleftrightarrow> (of_char c :: nat) < 0x80"
  by (cases s; cases "tl s"; cases "tl (tl s)") (simp_all add: rune_size_def Let_def)

lemma utf8_induct [consumes 1, case_names Nil ascii rune]:
  assumes "utf8_valid s"
    and "P []"
    and "\<And>c s. (of_char c :: nat) < 0x80 \<Longrightarrow> utf8_valid s \<Longrightarrow> P s \<Longrightarrow> P (c # s)"
    and "\<And>w s. 2 \<le> length w \<Longrightarrow> rune_size w = length w \<Longrightarrow> utf8_valid s \<Longrightarrow> P s \<Longrightarrow> P (w @ s)"
  shows "P s"
  using assms(1)
proof (induction "length s" arbitrary: s rule: less_induct)
  case less
  show ?case
  proof (cases s)
    case Nil
    then show ?thesis using assms(2) by simp
  next
    case (Cons c r)
    let ?n = "rune_size s"
    have n: "?n \<noteq> 0" "utf8_valid (drop ?n s)"
      using less.prems unfolding Cons utf8_valid_rune by auto
    have rec: "P (drop ?n s)" using less.hyps [of "drop ?n s"] n Cons by simp
    show ?thesis
    proof (cases "(of_char c :: nat) < 0x80")
      case True
      then have "?n = 1" using rune_size_one [of c r] Cons by simp
      then show ?thesis using assms(3) [OF True] n rec Cons by simp
    next
      case False
      then have "?n \<noteq> 1" using rune_size_one [of c r] Cons by simp
      then have "2 \<le> length (take ?n s)" "rune_size (take ?n s) = length (take ?n s)"
        using n(1) rune_size_le [of s] rune_size_take [of s] by auto
      from assms(4) [OF this n(2) rec] show ?thesis by simp
    qed
  qed
qed

lemma rune_size_append:
  assumes "rune_size w \<noteq> 0"
  shows "rune_size (w @ t) = rune_size w"
proof (cases w)
  case Nil
  then show ?thesis using assms by (simp add: rune_size_def)
next
  case (Cons a w1)
  then show ?thesis using assms
    by (cases w1; cases "tl w1"; cases "tl (tl w1)") (auto simp: rune_size_def Let_def split: if_splits)
qed

lemma rune_bytes:
  assumes "rune_size w = length w" "2 \<le> length w" "c \<in> set w"
  shows "0x80 \<le> (of_char c :: nat)"
  using assms
  by (cases w; cases "tl w"; cases "tl (tl w)"; cases "tl (tl (tl w))")
    (auto simp: rune_size_def Let_def utf8_cont_def utf8_second_def split: if_splits)

lemma rune_head:
  assumes "rune_size w = length w" "2 \<le> length w"
  obtains c r where "w = c # r" "0x80 \<le> (of_char c :: nat)"
  using assms rune_bytes [OF assms] by (cases w) auto

lemma utf8_valid_append: "utf8_valid s \<Longrightarrow> utf8_valid (s @ t) = utf8_valid t"
proof (induction s rule: utf8_induct)
  case (rune w s)
  obtain c r where w: "w = c # r" using rune_head [OF rune(2,1)] by metis
  have "rune_size (w @ s @ t) = length w" using rune rune_size_append [of w "s @ t"] by force
  then show ?case using rune utf8_valid_rune [of c "r @ s @ t"] w by auto
qed auto

lemma utf8_rune_append:
  assumes "rune_size w = length w" "2 \<le> length w"
  shows "utf8_valid (w @ t) = utf8_valid t"
proof -
  obtain c r where w: "w = c # r" using rune_head [OF assms] by metis
  have "rune_size (w @ t) = length w" using assms rune_size_append [of w t] by force
  then show ?thesis using assms utf8_valid_rune [of c "r @ t"] w by auto
qed

subsection \<open>Strings\<close>

lemma prepend_Some [simp]: "prepend w (Some (v, s)) = Some (w @ v, s)"
  by (simp add: prepend_def)

lemma take4_hex: "take 4 (hex_EncodeToString [a, b] @ t) = hex_EncodeToString [a, b]"
  by simp

lemma drop4_hex: "drop 4 (hex_EncodeToString [a, b] @ t) = t"
  by simp

lemma parse_u_escape:
  assumes "n < 0xD800 \<or> 0xDFFF < n" "n < 0x10000"
  shows "parseUnicodeEscape (hex_EncodeToString [char_of (n div 256), char_of (n mod 256)] @ t)
    = Some (n, t)"
proof -
  have "code_unit [char_of (n div 256), char_of (n mod 256)] = n"
    using assms(2) by (simp add: code_unit_def)
  moreover have "\<not> (0xD800 \<le> n \<and> n \<le> 0xDBFF)" "\<not> (0xDC00 \<le> n \<and> n \<le> 0xDFFF)"
    using assms(1) by auto
  moreover have "\<not> length (hex_EncodeToString [char_of (n div 256), char_of (n mod 256)] @ t) < 4" by simp
  ultimately show ?thesis
    unfolding parseUnicodeEscape_def take4_hex drop4_hex hex_roundtrip
    by (simp only: option.case Let_def if_False)
qed

lemma string_loop_u_escape:
  assumes "n < 0xD800 \<or> 0xDFFF < n" "n < 0x10000"
  shows "string_loop (u_escape n @ t) = prepend (utf8_EncodeRune n) (string_loop t)"
  using parse_u_escape [OF assms, of t]
  by (simp add: u_escape_def simple_escape_def del: hex_EncodeToString.simps)

lemma string_loop_ascii:
  assumes "0x20 \<le> (of_char c :: nat)" "(of_char c :: nat) < 0x80" "c \<noteq> CHR 0x22" "c \<noteq> CHR 0x5C"
  shows "string_loop (c # t) = prepend [c] (string_loop t)"
  using assms by (simp add: rune_size_def)

lemma string_loop_rune:
  assumes "rune_size w = length w" "2 \<le> length w"
  shows "string_loop (w @ t) = prepend w (string_loop t)"
proof -
  obtain c r where w: "w = c # r" and c: "0x80 \<le> (of_char c :: nat)" using rune_head [OF assms] .
  have "rune_size (w @ t) = length w" using assms rune_size_append [of w t] by force
  then have n: "rune_size (c # r @ t) = length w" by (simp add: w)
  have "c \<noteq> CHR 0x22" "c \<noteq> CHR 0x5C" using c by auto
  then have "string_loop (c # r @ t)
      = prepend (take (length w) (c # r @ t)) (string_loop (drop (length w) (c # r @ t)))"
    using c n by (simp only: string_loop.simps) (simp add: w)
  then show ?thesis by (simp add: w)
qed

lemma string_loop_short:
  "short_escape c = Some e \<Longrightarrow> string_loop (e @ t) = prepend [c] (string_loop t)"
  by (auto simp: short_escape_def simple_escape_def split: if_splits)

lemma string_loop_control:
  assumes "(of_char c :: nat) < 0x80"
  shows "string_loop (u_escape (of_char c) @ t) = prepend [c] (string_loop t)"
  using string_loop_u_escape [of "of_char c" t] assms by (simp add: utf8_EncodeRune_def)

lemma short_escape_None: "short_escape c = None \<Longrightarrow> c \<noteq> CHR 0x22 \<and> c \<noteq> CHR 0x5C"
  by (auto simp: short_escape_def)

lemma string_loop_jcs_ascii:
  "(of_char c :: nat) < 0x80 \<Longrightarrow> string_loop (jcs_char c @ t) = prepend [c] (string_loop t)"
  using short_escape_None [of c]
  by (auto simp: jcs_char_def string_loop_short string_loop_control string_loop_ascii
      simp del: string_loop.simps split: option.split)

lemma string_loop_marshal_ascii:
  assumes "(of_char c :: nat) < 0x80"
  shows "string_loop (marshal_ascii c @ t) = prepend [c] (string_loop t)"
proof (cases "short_escape c")
  case (Some e)
  then show ?thesis unfolding marshal_ascii_def by (simp only: option.case string_loop_short)
next
  case None
  note ne = short_escape_None [OF None]
  have "string_loop (c # t) = prepend [c] (string_loop t)" if "\<not> (of_char c :: nat) < 0x20"
    using string_loop_ascii [of c t] that assms ne by linarith
  moreover have "marshal_ascii c = u_escape (of_char c) \<or> marshal_ascii c = [c] \<and> \<not> (of_char c :: nat) < 0x20"
    unfolding marshal_ascii_def None option.case by presburger
  ultimately show ?thesis
    using string_loop_control [OF assms, of t] by (auto simp del: string_loop.simps)
qed

lemma jcs_char_high: "0x80 \<le> (of_char c :: nat) \<Longrightarrow> jcs_char c = [c]"
  by (auto simp: jcs_char_def short_escape_def)

lemma jcs_chars_rune:
  assumes "rune_size w = length w" "2 \<le> length w"
  shows "jcs_chars (w @ s) = w @ jcs_chars s"
proof -
  have "concat (map jcs_char w) = concat (map (\<lambda>c. [c]) w)"
    using rune_bytes [OF assms] by (intro arg_cong [where f = concat]) (simp add: jcs_char_high)
  then have "concat (map jcs_char w) = w" by simp
  then show ?thesis unfolding jcs_chars_def map_append concat_append by simp
qed

lemma marshal_chars_rune:
  assumes "rune_size w = length w" "2 \<le> length w"
  shows "marshal_chars (w @ s) =
    (if w = line_separator then u_escape 0x2028
     else if w = paragraph_separator then u_escape 0x2029 else w) @ marshal_chars s"
proof -
  obtain c r where w: "w = c # r" using rune_head [OF assms] by metis
  have "rune_size (w @ s) = length w" using assms rune_size_append [of w s] by force
  moreover have "r \<noteq> []" using assms(2) w by auto
  ultimately show ?thesis by (simp add: w Let_def)
qed

lemma separators:
  "utf8_EncodeRune 0x2028 = line_separator" "utf8_EncodeRune 0x2029 = paragraph_separator"
  by (simp_all add: utf8_EncodeRune_def line_separator_def paragraph_separator_def char_of_eq_iff)

lemma u_escape_ascii: "is_ascii (u_escape n)"
proof -
  have "list_all is_lower_hex (hex_EncodeToString [char_of (n div 256), char_of (n mod 256)])"
    by (rule hex_Encode_lower)
  then have "is_ascii (hex_EncodeToString [char_of (n div 256), char_of (n mod 256)])"
    by (auto simp: is_ascii_def list_all_iff is_lower_hex_def Let_def simp del: hex_EncodeToString.simps)
  then show ?thesis by (simp add: u_escape_def del: hex_EncodeToString.simps)
qed

lemma short_escape_ascii: "short_escape c = Some e \<Longrightarrow> is_ascii e"
  by (auto simp: short_escape_def split: if_splits)

lemma marshal_ascii_ascii: "(of_char c :: nat) < 0x80 \<Longrightarrow> is_ascii (marshal_ascii c)"
  by (auto simp: marshal_ascii_def u_escape_ascii short_escape_ascii split: option.split)

lemma jcs_char_ascii: "(of_char c :: nat) < 0x80 \<Longrightarrow> is_ascii (jcs_char c)"
  by (auto simp: jcs_char_def u_escape_ascii short_escape_ascii split: option.split)

lemma marshal_chars_ascii_head:
  "(of_char c :: nat) < 0x80 \<Longrightarrow> marshal_chars (c # s) = marshal_ascii c @ marshal_chars s"
  using rune_size_one [of c s] by (simp add: Let_def)

lemma marshal_reads_back:
  "utf8_valid s \<Longrightarrow> string_loop (marshal_chars s @ CHR 0x22 # r) = Some (s, r)"
proof (induction s rule: utf8_induct)
  case (ascii c s)
  then show ?case
    by (simp add: marshal_chars_ascii_head string_loop_marshal_ascii del: marshal_chars.simps string_loop.simps)
next
  case (rune w s)
  then show ?case
    by (simp add: marshal_chars_rune string_loop_u_escape string_loop_rune separators
        del: marshal_chars.simps string_loop.simps)
qed simp

lemma marshal_valid: "utf8_valid s \<Longrightarrow> utf8_valid (marshal_chars s)"
proof (induction s rule: utf8_induct)
  case (ascii c s)
  then show ?case
    by (simp add: marshal_chars_ascii_head utf8_valid_ascii_append marshal_ascii_ascii del: marshal_chars.simps)
next
  case (rune w s)
  then show ?case
    by (simp add: marshal_chars_rune utf8_valid_ascii_append u_escape_ascii utf8_rune_append
        del: marshal_chars.simps)
qed simp

lemma jcs_reads_back:
  "utf8_valid s \<Longrightarrow> string_loop (jcs_chars s @ CHR 0x22 # r) = Some (s, r)"
proof (induction s rule: utf8_induct)
  case (ascii c s)
  then show ?case by (simp add: jcs_chars_def string_loop_jcs_ascii del: string_loop.simps)
next
  case (rune w s)
  then show ?case by (simp add: jcs_chars_rune string_loop_rune del: string_loop.simps)
qed (simp add: jcs_chars_def)

lemma jcs_valid: "utf8_valid s \<Longrightarrow> utf8_valid (jcs_chars s)"
proof (induction s rule: utf8_induct)
  case (ascii c s)
  then show ?case by (simp add: jcs_chars_def utf8_valid_ascii_append jcs_char_ascii)
next
  case (rune w s)
  then show ?case by (simp add: jcs_chars_rune utf8_rune_append)
qed (simp add: jcs_chars_def)

subsection \<open>Numbers\<close>

lemma consume_Some [simp]: "consume c s = Some r \<longleftrightarrow> s = c # r"
  by (auto simp: consume_def split: list.splits)

lemma consume_None: "consume c s = None \<longleftrightarrow> (\<forall>r. s \<noteq> c # r)"
  by (auto simp: consume_def split: list.splits)

lemma consume_Cons [simp]: "consume c (d # s) = (if d = c then Some s else None)"
  by (simp add: consume_def)

lemma at_digit_simps [simp]: "\<not> at_digit []" "at_digit (c # s) = is_json_digit c"
  by (simp_all add: at_digit_def)

lemma digits_prefix:
  "\<exists>p. s = p @ dropWhile is_json_digit s \<and> (p = [] \<longleftrightarrow> \<not> at_digit s) \<and> list_all is_json_digit p"
  by (rule exI [of _ "takeWhile is_json_digit s"], cases s)
    (auto simp: list_all_iff dest: set_takeWhileD)

lemma drop_digits: "list_all is_json_digit p \<Longrightarrow> \<not> at_digit x \<Longrightarrow> dropWhile is_json_digit (p @ x) = x"
  by (cases x) (auto simp: list_all_iff dropWhile_append3)

lemma at_digit_append: "p \<noteq> [] \<Longrightarrow> list_all is_json_digit p \<Longrightarrow> at_digit (p @ x)"
  by (cases p) auto

lemma json_digit_not:
  "\<not> is_json_digit (CHR ''.'')" "\<not> is_json_digit (CHR ''e'')" "\<not> is_json_digit (CHR ''E'')"
  "\<not> is_json_digit (CHR ''-'')" "\<not> is_json_digit (CHR ''+'')" "is_json_digit (CHR ''0'')"
  by (simp_all add: is_json_digit_def)

lemma number_int_prefix:
  assumes "number_int s = Some s1"
  shows "\<exists>p. s = p @ s1 \<and> p \<noteq> [] \<and> is_json_digit (hd p) \<and> (\<forall>x. \<not> at_digit x \<longrightarrow> number_int (p @ x) = Some x)"
proof (cases "consume (CHR ''0'') s")
  case None
  then have d: "at_digit s" and s1: "s1 = dropWhile is_json_digit s"
    using assms by (auto simp: number_int_def split: if_splits)
  obtain p where p: "s = p @ s1" "p \<noteq> []" "list_all is_json_digit p"
    using digits_prefix [of s] d unfolding s1 by blast
  obtain c q where c: "p = c # q" using p(2) by (cases p) auto
  have "c \<noteq> CHR ''0''" using None p(1) c by (auto simp: consume_None)
  then have "number_int (p @ x) = Some x" if "\<not> at_digit x" for x
    using p(3) that drop_digits [OF p(3) that] c by (simp add: number_int_def)
  then show ?thesis using p c by auto
next
  case (Some r)
  then have "s = CHR ''0'' # r" "r = s1"
    using assms by (auto simp: number_int_def split: if_splits)
  then show ?thesis by (intro exI [of _ "[CHR ''0'']"]) (auto simp: number_int_def json_digit_not)
qed

lemma number_frac_prefix:
  assumes "number_frac s = Some s1"
  shows "\<exists>p. s = p @ s1 \<and> (p = [] \<or> hd p = CHR ''.'') \<and>
    (\<forall>x. \<not> at_digit x \<longrightarrow> (\<forall>y. x \<noteq> CHR ''.'' # y) \<longrightarrow> number_frac (p @ x) = Some x)"
proof (cases "consume (CHR ''.'') s")
  case None
  then have "s1 = s" using assms by (simp add: number_frac_def)
  then show ?thesis
    by (intro exI [of _ "[]"]) (auto simp: number_frac_def split: option.split)
next
  case (Some r)
  then have d: "at_digit r" and s1: "s1 = dropWhile is_json_digit r"
    using assms by (auto simp: number_frac_def split: if_splits)
  obtain p where p: "r = p @ s1" "p \<noteq> []" "list_all is_json_digit p"
    using digits_prefix [of r] d unfolding s1 by blast
  show ?thesis using Some p drop_digits [OF p(3)] at_digit_append [OF p(2,3)]
    by (intro exI [of _ "CHR ''.'' # p"]) (auto simp: number_frac_def)
qed

definition exp_char :: "char \<Rightarrow> bool" where "exp_char c \<longleftrightarrow> c = CHR ''e'' \<or> c = CHR ''E''"
definition sign_char :: "char \<Rightarrow> bool" where "sign_char c \<longleftrightarrow> c = CHR ''+'' \<or> c = CHR ''-''"

lemma number_exp_alt:
  "number_exp (c # s1) =
     (if exp_char c then
        let s2 = (if s1 \<noteq> [] \<and> sign_char (hd s1) then tl s1 else s1)
        in if at_digit s2 then Some (dropWhile is_json_digit s2) else None
      else Some (c # s1))"
  by (cases s1) (auto simp: number_exp_def exp_char_def sign_char_def)

lemma sign_not_digit: "sign_char c \<Longrightarrow> \<not> is_json_digit c"
  by (auto simp: sign_char_def json_digit_not)

lemma number_exp_prefix:
  assumes "number_exp s = Some s1"
  shows "\<exists>p. s = p @ s1 \<and> (p = [] \<or> exp_char (hd p)) \<and>
    (\<forall>x. \<not> at_digit x \<longrightarrow> (\<forall>c y. x = c # y \<longrightarrow> \<not> exp_char c) \<longrightarrow> number_exp (p @ x) = Some x)"
proof (cases "s \<noteq> [] \<and> exp_char (hd s)")
  case False
  then have "s1 = s" using assms by (cases s) (auto simp: number_exp_def exp_char_def split: if_splits)
  moreover have "number_exp x = Some x" if "\<forall>c y. x = c # y \<longrightarrow> \<not> exp_char c" for x
    using that by (cases x) (auto simp: number_exp_alt, simp add: number_exp_def)
  ultimately show ?thesis by (intro exI [of _ "[]"]) auto
next
  case True
  then obtain c r where s: "s = c # r" and c: "exp_char c" by (cases s) auto
  define sg where "sg = (if r \<noteq> [] \<and> sign_char (hd r) then [hd r] else [])"
  define t where "t = (if r \<noteq> [] \<and> sign_char (hd r) then tl r else r)"
  have r: "r = sg @ t" by (auto simp: sg_def t_def)
  have d: "at_digit t" and s1: "s1 = dropWhile is_json_digit t"
    using assms c unfolding s number_exp_alt t_def [symmetric] by (auto simp: Let_def split: if_splits)
  obtain p where p: "t = p @ s1" "p \<noteq> []" "list_all is_json_digit p"
    using digits_prefix [of t] d unfolding s1 by blast
  have "number_exp ((c # sg @ p) @ x) = Some x" if "\<not> at_digit x" for x
  proof -
    have "(if sg @ p @ x \<noteq> [] \<and> sign_char (hd (sg @ p @ x)) then tl (sg @ p @ x) else sg @ p @ x) = p @ x"
      using p(2,3) sign_not_digit by (cases p) (auto simp: sg_def)
    then show ?thesis
      using c at_digit_append [OF p(2,3), of x] drop_digits [OF p(3) that]
      by (simp add: number_exp_alt Let_def)
  qed
  then show ?thesis using s r p(1) c by (intro exI [of _ "c # sg @ p"]) auto
qed

definition number_stop :: "string \<Rightarrow> bool" where
  "number_stop x \<longleftrightarrow> (case x of [] \<Rightarrow> True | c # _ \<Rightarrow> \<not> is_json_digit c \<and> c \<noteq> CHR ''.'' \<and> \<not> exp_char c)"

lemma parseNumber_prefix:
  assumes "parseNumber s = Some (n, s3)"
  shows "s = n @ s3 \<and> n \<noteq> [] \<and> (hd n = CHR ''-'' \<or> is_json_digit (hd n)) \<and>
    (\<forall>x. number_stop x \<longrightarrow> parseNumber (n @ x) = Some (n, x))"
proof -
  define s0 where "s0 = (case consume (CHR ''-'') s of None \<Rightarrow> s | Some r \<Rightarrow> r)"
  obtain s1 s2 where 1: "number_int s0 = Some s1" "number_frac s1 = Some s2" "number_exp s2 = Some s3"
    and n: "n = take (length s - length s3) s"
    using assms unfolding parseNumber_def s0_def [symmetric] by (auto simp: Let_def split: option.splits)
  obtain p1 where p1: "s0 = p1 @ s1" "p1 \<noteq> []" "is_json_digit (hd p1)"
      "\<And>x. \<not> at_digit x \<Longrightarrow> number_int (p1 @ x) = Some x"
    using number_int_prefix [OF 1(1)] by blast
  obtain p2 where p2: "s1 = p2 @ s2" "p2 = [] \<or> hd p2 = CHR ''.''"
      "\<And>x. \<not> at_digit x \<Longrightarrow> \<forall>y. x \<noteq> CHR ''.'' # y \<Longrightarrow> number_frac (p2 @ x) = Some x"
    using number_frac_prefix [OF 1(2)] by blast
  obtain p3 where p3: "s2 = p3 @ s3" "p3 = [] \<or> exp_char (hd p3)"
      "\<And>x. \<not> at_digit x \<Longrightarrow> \<forall>c y. x = c # y \<longrightarrow> \<not> exp_char c \<Longrightarrow> number_exp (p3 @ x) = Some x"
    using number_exp_prefix [OF 1(3)] by blast
  define sg where "sg = (if s0 = s then [] else [CHR ''-''])"
  have s: "s = sg @ s0" by (auto simp: sg_def s0_def split: option.splits)
  have n': "n = sg @ p1 @ p2 @ p3" unfolding n s p1 p2 p3 by simp
  have hd: "hd n = CHR ''-'' \<or> is_json_digit (hd n)" using p1(2,3) unfolding n' sg_def by auto
  have "parseNumber (n @ x) = Some (n, x)" if "number_stop x" for x
  proof -
    have x: "\<not> at_digit x" "\<forall>y. x \<noteq> CHR ''.'' # y" "\<forall>c y. x = c # y \<longrightarrow> \<not> exp_char c"
      using that by (auto simp: number_stop_def at_digit_def split: list.splits)
    have x3: "\<not> at_digit (p3 @ x)" "\<forall>y. p3 @ x \<noteq> CHR ''.'' # y"
      using p3(2) x by (cases p3; auto simp: exp_char_def json_digit_not)+
    have x2: "\<not> at_digit (p2 @ p3 @ x)" using p2(2) x3 by (cases p2) (auto simp: json_digit_not)
    have "(case consume (CHR ''-'') (n @ x) of None \<Rightarrow> n @ x | Some r \<Rightarrow> r) = p1 @ p2 @ p3 @ x"
    proof (cases "s0 = s")
      case True
      have "hd p1 \<noteq> CHR ''-''" using p1(3) by (metis json_digit_not(4))
      then show ?thesis using p1(2) True unfolding n' sg_def by (cases p1) auto
    next
      case False
      then show ?thesis unfolding n' sg_def by simp
    qed
    then show ?thesis
      using p1(4) [OF x2] p2(3) [OF x3] p3(3) [OF x(1,3)] unfolding parseNumber_def by simp
  qed
  then show ?thesis using hd s p1 p2(1) p3(1) n' by auto
qed

lemma json_wf_number: "parseNumber s = Some (n, s3) \<Longrightarrow> parseNumber n = Some (n, [])"
  using parseNumber_prefix [of s n s3] by (auto simp: number_stop_def dest: spec [of _ "[]"])

lemma ascii_drop_digits: "is_ascii (dropWhile is_json_digit s) = is_ascii s"
  by (induction s) (auto simp: is_json_digit_def)

lemma number_parts_ascii:
  "number_int s = Some r \<Longrightarrow> is_ascii s = is_ascii r"
  "number_frac s = Some r \<Longrightarrow> is_ascii s = is_ascii r"
  "number_exp s = Some r \<Longrightarrow> is_ascii s = is_ascii r"
  by (auto simp: number_int_def number_frac_def number_exp_def Let_def ascii_drop_digits
      split: option.splits list.splits if_splits) (auto simp: is_json_digit_def)

lemma parseNumber_ascii: "parseNumber n = Some (n, []) \<Longrightarrow> is_ascii n"
  by (auto simp: parseNumber_def Let_def number_parts_ascii split: option.splits)

subsection \<open>Reading texts back\<close>

definition value_stop :: "string \<Rightarrow> bool" where
  "value_stop x \<longleftrightarrow> (case x of [] \<Rightarrow> True | c # _ \<Rightarrow> c = CHR '','' \<or> c = CHR 0x7D \<or> c = CHR '']'')"

lemma value_stop_number: "value_stop x \<Longrightarrow> number_stop x"
  by (auto simp: value_stop_def number_stop_def exp_char_def is_json_digit_def split: list.splits)

lemma value_stop_simps [simp]:
  "value_stop []" "value_stop (CHR '','' # x)" "value_stop (CHR 0x7D # x)" "value_stop (CHR '']'' # x)"
  by (simp_all add: value_stop_def)

lemma skipWhitespace_Cons:
  "skipWhitespace (c # s) = (if is_json_space c then skipWhitespace s else c # s)"
  by (simp add: skipWhitespace_def)

lemma not_json_space [simp]:
  "\<not> is_json_space (CHR '','')" "\<not> is_json_space (CHR 0x7D)" "\<not> is_json_space (CHR '']'')"
  "\<not> is_json_space (CHR 0x7B)" "\<not> is_json_space (CHR ''['')" "\<not> is_json_space (CHR 0x22)"
  "\<not> is_json_space (CHR '':'')" "\<not> is_json_space (CHR ''t'')" "\<not> is_json_space (CHR ''f'')"
  "\<not> is_json_space (CHR ''n'')" "\<not> is_json_space (CHR ''-'')"
  by (simp_all add: is_json_space_def)

lemma digit_not_space: "is_json_digit c \<Longrightarrow> \<not> is_json_space c"
  by (auto simp: is_json_digit_def is_json_space_def)

lemma skip_stop [simp]: "value_stop x \<Longrightarrow> skipWhitespace x = x"
  by (cases x) (auto simp: value_stop_def skipWhitespace_def)

lemma render_head:
  assumes "json_wf d v"
  shows "\<exists>c r. render esc v = c # r \<and> c \<noteq> CHR '']'' \<and> \<not> is_json_space c"
proof (cases v)
  case (JNumber n)
  then have "parseNumber n = Some (n, [])" using assms by simp
  from parseNumber_prefix [OF this] obtain c m where "n = c # m" "c = CHR ''-'' \<or> is_json_digit c"
    by (cases n) auto
  then show ?thesis using JNumber digit_not_space by (auto simp: is_json_digit_def)
qed (auto simp: quote_def)

lemma skip_render: "json_wf d v \<Longrightarrow> skipWhitespace (render esc v @ x) = render esc v @ x"
  using render_head [of d v esc] by (auto simp: skipWhitespace_Cons)

text \<open>An escaping of strings that the parser undoes.\<close>

locale json_escape =
  fixes esc :: "string \<Rightarrow> string"
  assumes reads_back: "utf8_valid s \<Longrightarrow> string_loop (esc s @ CHR 0x22 # r) = Some (s, r)"
    and esc_valid: "utf8_valid s \<Longrightarrow> utf8_valid (esc s)"
begin

lemma parse_quote: "utf8_valid s \<Longrightarrow> parseString (quote esc s @ r) = Some (s, r)"
  by (simp add: parseString_def quote_def reads_back del: string_loop.simps)

text \<open>One round of each loop.\<close>

lemma object_round:
  assumes "utf8_valid n" "json_wf d v" "n \<notin> fst ` set acc" "value_stop y"
    "\<And>x. value_stop x \<Longrightarrow> parseValue d (render esc v @ x) = Some (v, x)"
  shows "object_loop (parseValue d) acc (quote esc n @ CHR '':'' # render esc v @ y) =
    (case consume (CHR 0x7D) y of
       Some z \<Rightarrow> Some (JObject (acc @ [(n, v)]), z)
     | None \<Rightarrow>
         (case consume (CHR '','') y of
            None \<Rightarrow> None
          | Some z \<Rightarrow> object_loop (parseValue d) (acc @ [(n, v)]) (skipWhitespace z)))"
  using assms(3,4) skip_render [OF assms(2), of esc]
  by (subst object_loop.simps)
    (auto simp: parse_quote [OF assms(1)] assms(5) skipWhitespace_Cons split: option.split)

lemma array_round:
  assumes "value_stop y" "\<And>x. value_stop x \<Longrightarrow> parseValue d (render esc v @ x) = Some (v, x)"
  shows "array_loop (parseValue d) acc (render esc v @ y) =
    (case consume (CHR '']'') y of
       Some z \<Rightarrow> Some (JArray (acc @ [v]), z)
     | None \<Rightarrow>
         (case consume (CHR '','') y of
            None \<Rightarrow> None
          | Some z \<Rightarrow> array_loop (parseValue d) (acc @ [v]) (skipWhitespace z)))"
  using assms(1) by (subst array_loop.simps) (auto simp: assms(2) split: option.split)

lemma parse_number_value:
  assumes "parseNumber n = Some (n, [])" "value_stop x"
  shows "parseValue d (n @ x) = Some (JNumber n, x)"
proof -
  from parseNumber_prefix [OF assms(1)]
  obtain c m where n: "n = c # m" and c: "c = CHR ''-'' \<or> is_json_digit c"
    and x: "parseNumber (n @ x) = Some (n, x)"
    using value_stop_number [OF assms(2)] by (cases n) auto
  have "c \<noteq> CHR 0x7B" "c \<noteq> CHR ''[''" "c \<noteq> CHR 0x22" "c \<noteq> CHR ''t''" "c \<noteq> CHR ''f''" "c \<noteq> CHR ''n''"
    using c by (auto simp: is_json_digit_def)
  then show ?thesis using c x unfolding n by (simp add: parseValue.simps [of d])
qed

lemma render_members_skip:
  "ms \<noteq> [] \<Longrightarrow> skipWhitespace (render_members esc ms @ y) = render_members esc ms @ y"
  by (cases ms) (auto simp: quote_def skipWhitespace_Cons)

lemma render_elements_head:
  assumes "elements_wf d vs" "vs \<noteq> []"
  shows "skipWhitespace (render_elements esc vs @ y) = render_elements esc vs @ y"
    "consume (CHR '']'') (render_elements esc vs @ y) = None"
  using assms render_head [of d "hd vs" esc] by (cases vs; auto simp: skipWhitespace_Cons)+

lemma parse_render_all:
  "json_wf d v \<Longrightarrow> value_stop x \<Longrightarrow> parseValue d (render esc v @ x) = Some (v, x)"
  "members_wf d ms \<Longrightarrow> ms \<noteq> [] \<Longrightarrow> distinct (map fst (acc @ ms)) \<Longrightarrow>
     object_loop (parseValue d) acc (render_members esc ms @ CHR 0x7D # x) = Some (JObject (acc @ ms), x)"
  "elements_wf d vs \<Longrightarrow> vs \<noteq> [] \<Longrightarrow>
     array_loop (parseValue d) vacc (render_elements esc vs @ CHR '']'' # x) = Some (JArray (vacc @ vs), x)"
proof (induction d v and d ms and d vs arbitrary: x and acc x and vacc x
    rule: json_wf_members_wf_elements_wf.induct)
  case (1 d ms)
  have "consume (CHR 0x7D) (render_members esc ms @ CHR 0x7D # x) = (if ms = [] then Some x else None)"
    by (cases ms) (auto simp: quote_def)
  then show ?case using 1 render_members_skip [of ms]
    by (cases "ms = []") (auto simp: parseValue.simps [of d] parseObject_def Let_def skipWhitespace_Cons)
next
  case (2 d vs)
  then show ?case using render_elements_head [of "Suc d" vs]
    by (cases "vs = []") (auto simp: parseValue.simps [of d] parseArray_def Let_def skipWhitespace_Cons)
next
  case (3 d s)
  then show ?case using parse_quote [of s x] by (simp add: parseValue.simps [of d] quote_def)
next
  case (4 d n)
  then show ?case using parse_number_value by simp
next
  case (5 d b)
  then show ?case
    by (cases b) (simp_all add: parseValue.simps [of d] consumeLiteral_def strings_HasPrefix_def)
next
  case (6 d)
  then show ?case by (simp add: parseValue.simps [of d] consumeLiteral_def strings_HasPrefix_def)
next
  case (8 d n v ms)
  let ?y = "if ms = [] then CHR 0x7D # x else CHR '','' # render_members esc ms @ CHR 0x7D # x"
  have "render_members esc ((n, v) # ms) @ CHR 0x7D # x = quote esc n @ CHR '':'' # render esc v @ ?y"
    by simp
  moreover have "value_stop ?y" "utf8_valid n" "json_wf d v" "n \<notin> fst ` set acc" using 8 by auto
  ultimately show ?case
    using object_round [of n d v acc ?y] 8 render_members_skip [of ms "CHR 0x7D # x"] by auto
next
  case (10 d v vs)
  let ?y = "if vs = [] then CHR '']'' # x else CHR '','' # render_elements esc vs @ CHR '']'' # x"
  have "render_elements esc (v # vs) @ CHR '']'' # x = render esc v @ ?y" by simp
  moreover have "value_stop ?y" by auto
  ultimately show ?case
    using array_round [of ?y d v vacc] 10 render_elements_head(1) [of d vs "CHR '']'' # x"] by auto
qed simp_all

lemma render_valid_all:
  "json_wf d v \<Longrightarrow> utf8_valid (render esc v)"
  "members_wf d ms \<Longrightarrow> utf8_valid (render_members esc ms)"
  "elements_wf d vs \<Longrightarrow> utf8_valid (render_elements esc vs)"
proof (induction d v and d ms and d vs rule: json_wf_members_wf_elements_wf.induct)
  case (4 d n)
  then show ?case by (simp add: parseNumber_ascii utf8_valid_ascii)
qed (auto simp: utf8_valid_append esc_valid quote_def)

lemma strict_render: "json_wf 0 v \<Longrightarrow> parseStrictJSON (render esc v) = Some v"
  using parse_render_all(1) [of 0 v "[]"] skip_render [of 0 v esc "[]"] render_valid_all(1) [of 0 v]
  by (simp add: parseStrictJSON_def)

end

interpretation marshal: json_escape marshal_chars
  by unfold_locales (simp_all only: marshal_reads_back marshal_valid)

interpretation canonical: json_escape jcs_chars
  by unfold_locales (simp_all only: jcs_reads_back jcs_valid)

subsection \<open>What the parser accepts\<close>

lemma mod63 [simp]: "(x :: nat) mod 64 \<le> 63"
  using mod_less_divisor [of 64 x] by linarith

lemma encode_two:
  fixes r :: nat
  assumes "0x80 \<le> r" "r < 0x800"
  shows "utf8_valid [char_of (0xC0 + r div 64), char_of (0x80 + r mod 64)]"
proof -
  have "2 \<le> r div 64" "r div 64 < 32" "r mod 64 < 64" using assms by auto
  then show ?thesis by (simp add: utf8_second_def)
qed

lemma encode_three:
  fixes r :: nat
  assumes "0x800 \<le> r" "r < 0x10000" "\<not> (0xD800 \<le> r \<and> r \<le> 0xDFFF)"
  shows "utf8_valid [char_of (0xE0 + r div 4096), char_of (0x80 + r div 64 mod 64), char_of (0x80 + r mod 64)]"
proof -
  define q where "q = r div 64"
  have r: "r div 4096 = q div 64" by (simp add: q_def div_mult2_eq [symmetric])
  have q: "32 \<le> q" "q < 1024" "q < 864 \<or> 896 \<le> q"
    using assms unfolding q_def by (auto simp: less_eq_div_iff_mult_less_eq div_less_iff_less_mult)
  have "q div 64 < 16" using q(2) by (simp add: div_less_iff_less_mult)
  moreover have "q div 64 = 0 \<longrightarrow> 32 \<le> q \<and> q \<le> 63" "q div 64 = 13 \<longrightarrow> q mod 64 \<le> 31"
    using q div_mult_mod_eq [of q 64] mod63 [of q] by linarith+
  ultimately show ?thesis unfolding r q_def [symmetric]
    by (simp add: utf8_second_def utf8_cont_def Let_def)
qed

lemma encode_four:
  fixes r :: nat
  assumes "0x10000 \<le> r" "r \<le> 0x10FFFF"
  shows "utf8_valid [char_of (0xF0 + r div 262144), char_of (0x80 + r div 4096 mod 64),
    char_of (0x80 + r div 64 mod 64), char_of (0x80 + r mod 64)]"
proof -
  define q where "q = r div 4096"
  have r: "r div 262144 = q div 64" by (simp add: q_def div_mult2_eq [symmetric])
  have q: "16 \<le> q" "q \<le> 271"
    using assms unfolding q_def by (auto simp: less_eq_div_iff_mult_less_eq intro: order.trans [OF div_le_mono])
  have "q div 64 < 5" using q(2) by (simp add: div_less_iff_less_mult)
  moreover have "q div 64 = 0 \<longrightarrow> 16 \<le> q \<and> q \<le> 63" "q div 64 = 4 \<longrightarrow> q mod 64 \<le> 15"
    using q div_mult_mod_eq [of q 64] mod63 [of q] by linarith+
  ultimately show ?thesis unfolding r q_def [symmetric]
    by (simp add: utf8_second_def utf8_cont_def Let_def)
qed

lemma EncodeRune_valid: "utf8_valid (utf8_EncodeRune r0)"
proof -
  define r where "r = (if 0xD800 \<le> r0 \<and> r0 \<le> 0xDFFF \<or> 0x10FFFF < r0 then 0xFFFD else r0)"
  have r: "\<not> (0xD800 \<le> r \<and> r \<le> 0xDFFF)" "r \<le> 0x10FFFF" by (auto simp: r_def)
  show ?thesis
    unfolding utf8_EncodeRune_def Let_def r_def [symmetric]
    using encode_two [of r] encode_three [of r] encode_four [of r] r
    by (simp split: if_split del: utf8_valid.simps) simp
qed

lemma prepend_SomeD: "prepend w x = Some (v, r) \<Longrightarrow> \<exists>u. x = Some (u, r) \<and> v = w @ u"
  by (auto simp: prepend_def split: option.splits)

lemma simple_escape_valid: "simple_escape e = Some w \<Longrightarrow> utf8_valid [w]"
  by (auto simp: simple_escape_def split: if_splits)

lemma take_rune_valid: "rune_size (c # s) \<noteq> 0 \<Longrightarrow> utf8_valid (take (rune_size (c # s)) (c # s))"
proof -
  assume n: "rune_size (c # s) \<noteq> 0"
  obtain d w where w: "take (rune_size (c # s)) (c # s) = d # w" using n by (cases "rune_size (c # s)") auto
  have "rune_size (d # w) = length (d # w)"
    using rune_size_take [OF n] rune_size_le [of "c # s"] unfolding w [symmetric] by simp
  then show ?thesis unfolding w utf8_valid_rune by simp
qed

lemma string_loop_sound:
  "string_loop s = Some (v, r) \<Longrightarrow> utf8_valid v \<and> length r < length s"
proof (induction s arbitrary: v r rule: string_loop.induct)
  case (2 c s)
  consider (quote) "c = CHR 0x22" | (escape) "c = CHR 0x5C" | (plain) "c \<noteq> CHR 0x22" "c \<noteq> CHR 0x5C" by blast
  then show ?case
  proof cases
    case quote
    then show ?thesis using 2(4) by simp
  next
    case escape
    obtain e s1 where s: "s = e # s1" using 2(4) escape by (cases s) auto
    show ?thesis
    proof (cases "simple_escape e")
      case None
      obtain cp s2 where u: "e = CHR ''u''" "parseUnicodeEscape s1 = Some (cp, s2)"
          "prepend (utf8_EncodeRune cp) (string_loop s2) = Some (v, r)"
        using 2(4) escape s None by (auto split: if_splits option.splits)
      obtain w where "string_loop s2 = Some (w, r)" "v = utf8_EncodeRune cp @ w"
        using prepend_SomeD [OF u(3)] by blast
      then show ?thesis
        using 2(1) [OF _ escape s None u(1,2) refl] parseUnicodeEscape_shorter [OF u(2)] s escape
          utf8_valid_append [OF EncodeRune_valid] by fastforce
    next
      case (Some w)
      then have "prepend [w] (string_loop s1) = Some (v, r)" using 2(4) escape s by simp
      from prepend_SomeD [OF this] obtain u where "string_loop s1 = Some (u, r)" "v = [w] @ u" by blast
      then show ?thesis
        using 2(2) [OF _ escape s Some] s escape utf8_valid_append [OF simple_escape_valid [OF Some]]
        by fastforce
    qed
  next
    case plain
    let ?n = "rune_size (c # s)"
    have n: "?n \<noteq> 0" and c: "\<not> (of_char c :: nat) < 0x20"
      and p: "prepend (take ?n (c # s)) (string_loop (drop ?n (c # s))) = Some (v, r)"
      using 2(4) plain by (auto split: if_splits)
    from prepend_SomeD [OF p] obtain u where
      u: "string_loop (drop ?n (c # s)) = Some (u, r)" "v = take ?n (c # s) @ u" by blast
    then show ?thesis
      using 2(3) [OF plain c n u(1)] n utf8_valid_append [OF take_rune_valid [OF n]] by auto
  qed
qed simp

lemma parseString_sound:
  "parseString s = Some (v, r) \<Longrightarrow> utf8_valid v \<and> length r < length s"
  by (auto simp: parseString_def dest!: string_loop_sound split: option.splits)

definition shrinks :: "nat \<Rightarrow> value_parser \<Rightarrow> bool" where
  "shrinks d pv \<longleftrightarrow> (\<forall>s v r. pv s = Some (v, r) \<longrightarrow> json_wf d v \<and> length r < length s)"

lemma members_wf_append [simp]: "members_wf d (a @ b) \<longleftrightarrow> members_wf d a \<and> members_wf d b"
  by (induction a) auto

lemma elements_wf_append [simp]: "elements_wf d (a @ b) \<longleftrightarrow> elements_wf d a \<and> elements_wf d b"
  by (induction a) auto

lemma skip_consume_shorter:
  "consume c (skipWhitespace s) = Some r \<Longrightarrow> length r < length s"
  using skipWhitespace_length [of s] by auto

text \<open>Every round of the object loop leaves less input, so its length test holds.\<close>

lemma object_round_shorter:
  assumes "shrinks d pv" "parseString s = Some (n, s1)" "consume (CHR '':'') (skipWhitespace s1) = Some s2"
    "pv (skipWhitespace s2) = Some (v, s3)" "consume c (skipWhitespace s3) = Some s5"
  shows "length s5 < length s"
  using parseString_sound [OF assms(2)] skip_consume_shorter [OF assms(3)]
    skip_consume_shorter [OF assms(5)] skipWhitespace_length [of s2] assms(1,4)
  unfolding shrinks_def by fastforce

lemma object_loop_sound:
  assumes "shrinks d pv"
  shows "object_loop pv ms s = Some (v, r) \<Longrightarrow> members_wf d ms \<Longrightarrow> distinct (map fst ms) \<Longrightarrow>
    \<exists>ms'. v = JObject ms' \<and> members_wf d ms' \<and> distinct (map fst ms') \<and> length r < length s"
  using assms
proof (induction pv ms s arbitrary: v r rule: object_loop.induct)
  case (1 pv ms s)
  obtain n s1 s2 w s3 where
    p: "parseString s = Some (n, s1)" "n \<notin> fst ` set ms" "consume (CHR '':'') (skipWhitespace s1) = Some s2"
      "pv (skipWhitespace s2) = Some (w, s3)"
    using 1(2) by (subst (asm) object_loop.simps) (auto split: option.splits if_splits)
  have ms: "members_wf d (ms @ [(n, w)])" "distinct (map fst (ms @ [(n, w)]))"
    using 1(3,4,5) p parseString_sound [OF p(1)] unfolding shrinks_def by auto
  show ?case
  proof (cases "consume (CHR 0x7D) (skipWhitespace s3)")
    case (Some s5)
    then have "v = JObject (ms @ [(n, w)]) \<and> r = s5"
      using 1(2) p by (subst (asm) object_loop.simps) simp
    then show ?thesis using ms object_round_shorter [OF 1(5) p(1,3,4) Some] by blast
  next
    case None
    obtain s5 where c: "consume (CHR '','') (skipWhitespace s3) = Some s5" "length s5 < length s"
        "object_loop pv (ms @ [(n, w)]) (skipWhitespace s5) = Some (v, r)"
      using 1(2) p None by (subst (asm) object_loop.simps) (auto split: option.splits if_splits)
    have "\<exists>ms'. v = JObject ms' \<and> members_wf d ms' \<and> distinct (map fst ms') \<and> length r < length (skipWhitespace s5)"
      using 1(1) [OF p(1) refl p(2,3,4) refl refl refl None c(1,2,3) ms 1(5)] .
    then show ?thesis using c(2) skipWhitespace_length [of s5] by fastforce
  qed
qed

lemma array_loop_sound:
  assumes "shrinks d pv"
  shows "array_loop pv vs s = Some (v, r) \<Longrightarrow> elements_wf d vs \<Longrightarrow>
    \<exists>vs'. v = JArray vs' \<and> elements_wf d vs' \<and> length r < length s"
  using assms
proof (induction pv vs s arbitrary: v r rule: array_loop.induct)
  case (1 pv vs s)
  obtain w s1 where p: "pv s = Some (w, s1)"
    using 1(2) by (subst (asm) array_loop.simps) (auto split: option.splits)
  have vs: "elements_wf d (vs @ [w])" and s1: "length s1 < length s"
    using 1(3,4) p unfolding shrinks_def by auto
  show ?case
  proof (cases "consume (CHR '']'') (skipWhitespace s1)")
    case (Some s3)
    then have "v = JArray (vs @ [w]) \<and> r = s3"
      using 1(2) p by (subst (asm) array_loop.simps) simp
    then show ?thesis using vs s1 skip_consume_shorter [OF Some] by auto
  next
    case None
    obtain s3 where c: "consume (CHR '','') (skipWhitespace s1) = Some s3" "length s3 < length s"
        "array_loop pv (vs @ [w]) (skipWhitespace s3) = Some (v, r)"
      using 1(2) p None by (subst (asm) array_loop.simps) (auto split: option.splits if_splits)
    have "\<exists>vs'. v = JArray vs' \<and> elements_wf d vs' \<and> length r < length (skipWhitespace s3)"
      using 1(1) [OF p refl refl refl None c(1,2,3) vs 1(4)] .
    then show ?thesis using c(2) skipWhitespace_length [of s3] by fastforce
  qed
qed

lemma number_value_sound:
  "parseNumber s = Some (n, r) \<Longrightarrow> json_wf d (JNumber n) \<and> length r < length s"
  using parseNumber_prefix [of s n r] json_wf_number [of s n r] by auto

lemma literal_shorter: "consumeLiteral w s = Some r \<Longrightarrow> w \<noteq> [] \<Longrightarrow> length r < length s"
  by (auto simp: consumeLiteral_def HasPrefix_iff split: if_splits)

lemma containers_sound:
  assumes "shrinks (Suc d) pv" "d < maxAttestationJSONContainerDepth"
  shows "parseObject pv s = Some (v, r) \<Longrightarrow> json_wf d v \<and> length r < length s"
    "parseArray pv s = Some (v, r) \<Longrightarrow> json_wf d v \<and> length r < length s"
proof -
  assume "parseObject pv s = Some (v, r)"
  then show "json_wf d v \<and> length r < length s"
    using assms(2) object_loop_sound [OF assms(1), of "[]" "skipWhitespace s"] skipWhitespace_length [of s]
    by (fastforce simp: parseObject_def Let_def split: option.splits)
next
  assume "parseArray pv s = Some (v, r)"
  then show "json_wf d v \<and> length r < length s"
    using assms(2) array_loop_sound [OF assms(1), of "[]" "skipWhitespace s"] skipWhitespace_length [of s]
    by (fastforce simp: parseArray_def Let_def split: option.splits)
qed

lemma scalar_cases:
  assumes "parseValue d (c # s) = Some (v, r)" "c \<noteq> CHR 0x7B" "c \<noteq> CHR ''[''"
  shows "(\<exists>w. parseString (c # s) = Some (w, r) \<and> v = JString w) \<or>
    (\<exists>n. parseNumber (c # s) = Some (n, r) \<and> v = JNumber n) \<or>
    (\<exists>w. consumeLiteral w (c # s) = Some r \<and> w \<noteq> [] \<and> (v = JNull \<or> (\<exists>b. v = JBoolean b)))"
  using assms by (simp add: parseValue.simps [of d] split: option.splits prod.splits if_splits) blast+

lemma parseValue_shrinks: "shrinks d (parseValue d)"
proof (induction "maxAttestationJSONContainerDepth - d" arbitrary: d rule: less_induct)
  case less
  have "json_wf d v \<and> length r < length s" if p: "parseValue d s = Some (v, r)" for s v r
  proof -
    obtain c s0 where s: "s = c # s0" using p by (cases s) (auto simp: parseValue.simps [of d])
    show ?thesis
    proof (cases "c = CHR 0x7B \<or> c = CHR ''[''")
      case True
      then have d: "d < maxAttestationJSONContainerDepth"
        and o: "parseObject (parseValue (Suc d)) s0 = Some (v, r) \<or> parseArray (parseValue (Suc d)) s0 = Some (v, r)"
        using p unfolding s by (auto simp: parseValue.simps [of d] not_le split: if_splits)
      from less [of "Suc d"] d have "shrinks (Suc d) (parseValue (Suc d))" by simp
      from containers_sound [OF this d] o show ?thesis unfolding s by fastforce
    next
      case False
      with p s show ?thesis by (auto dest!: scalar_cases parseString_sound number_value_sound [of _ _ _ d] literal_shorter)
    qed
  qed
  then show ?case by (simp add: shrinks_def)
qed

lemma strict_sound: "parseStrictJSON data = Some v \<Longrightarrow> json_wf 0 v"
  using parseValue_shrinks [of 0]
  by (auto simp: parseStrictJSON_def shrinks_def split: if_splits option.splits)

section \<open>Properties\<close>

text \<open>C18. The strict parser accepts exactly the values within its limits: what it returns has at
  most two levels of containers, no member name twice in an object, well-formed numbers and
  strings that are valid UTF-8; every such value is returned for its text as package
  encoding/json writes it and for its canonical text of RFC 8785.\<close>

theorem strict_json_exact:
  "((\<exists>data. parseStrictJSON data = Some v) \<longleftrightarrow> json_wf 0 v) \<and>
   (json_wf 0 v \<longrightarrow>
      parseStrictJSON (render marshal_chars v) = Some v \<and> parseStrictJSON (render jcs_chars v) = Some v)"
  using strict_sound marshal.strict_render canonical.strict_render by blast

theorem strict_json_exact_witness:
  "parseStrictJSON (render marshal_chars (JObject [(''a'', JString ''x<y''), (''b'', JNumber ''12'')]))
     = Some (JObject [(''a'', JString ''x<y''), (''b'', JNumber ''12'')])"
proof -
  have "json_wf 0 (JObject [(''a'', JString ''x<y''), (''b'', JNumber ''12'')])"
    by (simp add: maxAttestationJSONContainerDepth_def parseNumber_def number_int_def number_frac_def
        number_exp_def consume_def is_json_digit_def)
  then show ?thesis
    using strict_json_exact [of "JObject [(''a'', JString ''x<y''), (''b'', JNumber ''12'')]"] by blast
qed

subsection \<open>Termination\<close>

text \<open>A round of the loops of \<open>parseObject\<close> and \<open>parseArray\<close> as the source has it, without a test of lengths; \<open>again\<close> is
  what the next round returns.\<close>

definition object_round ::
  "value_parser \<Rightarrow> ((string \<times> jsonValue) list \<Rightarrow> string \<Rightarrow> (jsonValue \<times> string) option) \<Rightarrow>
     (string \<times> jsonValue) list \<Rightarrow> string \<Rightarrow> (jsonValue \<times> string) option" where
  "object_round pv again members s =
     (case parseString s of
        None \<Rightarrow> None
      | Some (name, s1) \<Rightarrow>
          if name \<in> fst ` set members then None
          else (case consume (CHR '':'') (skipWhitespace s1) of
            None \<Rightarrow> None
          | Some s2 \<Rightarrow>
              (case pv (skipWhitespace s2) of
                 None \<Rightarrow> None
               | Some (v, s3) \<Rightarrow>
                   let members' = members @ [(name, v)]; s4 = skipWhitespace s3 in
                   (case consume (CHR 0x7D) s4 of
                      Some s5 \<Rightarrow> Some (JObject members', s5)
                    | None \<Rightarrow>
                        (case consume (CHR '','') s4 of
                           None \<Rightarrow> None
                         | Some s5 \<Rightarrow> again members' (skipWhitespace s5))))))"

definition array_round ::
  "value_parser \<Rightarrow> (jsonValue list \<Rightarrow> string \<Rightarrow> (jsonValue \<times> string) option) \<Rightarrow>
     jsonValue list \<Rightarrow> string \<Rightarrow> (jsonValue \<times> string) option" where
  "array_round pv again vals s =
     (case pv s of
        None \<Rightarrow> None
      | Some (v, s1) \<Rightarrow>
          let vals' = vals @ [v]; s2 = skipWhitespace s1 in
          (case consume (CHR '']'') s2 of
             Some s3 \<Rightarrow> Some (JArray vals', s3)
           | None \<Rightarrow>
               (case consume (CHR '','') s2 of
                  None \<Rightarrow> None
                | Some s3 \<Rightarrow> again vals' (skipWhitespace s3))))"

text \<open>A round depends on what is returned for shorter inputs only.\<close>

lemma object_round_cong:
  assumes "shrinks d pv" "\<And>ms' s'. length s' < length s \<Longrightarrow> f ms' s' = g ms' s'"
  shows "object_round pv f ms s = object_round pv g ms s"
proof -
  have "f ms' (skipWhitespace s5) = g ms' (skipWhitespace s5)"
    if "parseString s = Some (n, s1)" "consume (CHR '':'') (skipWhitespace s1) = Some s2" "pv (skipWhitespace s2) = Some (v, s3)"
      "consume (CHR '','') (skipWhitespace s3) = Some s5" for n s1 s2 v s3 s5 ms'
    using object_round_shorter [OF assms(1) that] skipWhitespace_length [of s5] by (intro assms(2)) simp
  then show ?thesis unfolding object_round_def Let_def by (simp split: option.split)
qed

lemma array_round_cong:
  assumes "shrinks d pv" "\<And>vs' s'. length s' < length s \<Longrightarrow> f vs' s' = g vs' s'"
  shows "array_round pv f vs s = array_round pv g vs s"
proof -
  have "f vs' (skipWhitespace s3) = g vs' (skipWhitespace s3)"
    if "pv s = Some (v, s1)" "consume (CHR '','') (skipWhitespace s1) = Some s3" for v s1 s3 vs'
    using skip_consume_shorter [OF that(2)] skipWhitespace_length [of s3] assms(1) that(1)
    by (intro assms(2)) (fastforce simp: shrinks_def)
  then show ?thesis unfolding array_round_def Let_def by (simp split: option.split)
qed

lemma object_loop_round:
  assumes "shrinks d pv"
  shows "object_loop pv ms s = object_round pv (object_loop pv) ms s"
proof -
  have "length s5 < length s" if "parseString s = Some (n, s1)" "consume (CHR '':'') (skipWhitespace s1) = Some s2"
      "pv (skipWhitespace s2) = Some (v, s3)" "consume (CHR '','') (skipWhitespace s3) = Some s5" for n s1 s2 v s3 s5
    by (rule object_round_shorter [OF assms that])
  then show ?thesis by (subst object_loop.simps) (simp add: object_round_def Let_def split: option.split)
qed

lemma array_loop_round:
  assumes "shrinks d pv"
  shows "array_loop pv vs s = array_round pv (array_loop pv) vs s"
proof -
  have "length s3 < length s" if "pv s = Some (v, s1)" "consume (CHR '','') (skipWhitespace s1) = Some s3" for v s1 s3
    using skip_consume_shorter [OF that(2)] assms that(1) unfolding shrinks_def by fastforce
  then show ?thesis by (subst array_loop.simps) (simp add: array_round_def Let_def split: option.split)
qed

text \<open>C38. The loops of the parser end. For every depth and input, the loops over members and elements do what the source's
  rounds do, without any test of lengths; and there is only one function that does, since every round that goes on
  has consumed input: the loops of the source return on every input, and return this.\<close>

theorem strict_json_loops_terminate:
  "object_loop (parseValue d) ms s = object_round (parseValue d) (object_loop (parseValue d)) ms s \<and>
   array_loop (parseValue d) vs s = array_round (parseValue d) (array_loop (parseValue d)) vs s \<and>
   ((\<forall>ms s. f ms s = object_round (parseValue d) f ms s) \<longrightarrow> f = object_loop (parseValue d)) \<and>
   ((\<forall>vs s. g vs s = array_round (parseValue d) g vs s) \<longrightarrow> g = array_loop (parseValue d))"
proof (intro conjI impI)
  note shr = parseValue_shrinks [of d]
  show "object_loop (parseValue d) ms s = object_round (parseValue d) (object_loop (parseValue d)) ms s" by (rule object_loop_round [OF shr])
  show "array_loop (parseValue d) vs s = array_round (parseValue d) (array_loop (parseValue d)) vs s" by (rule array_loop_round [OF shr])
  show "f = object_loop (parseValue d)" if f: "\<forall>ms s. f ms s = object_round (parseValue d) f ms s"
  proof -
    have "f ms s = object_loop (parseValue d) ms s" for ms s
    proof (induction s arbitrary: ms rule: length_induct)
      case (1 s)
      then have "object_round (parseValue d) f ms s = object_round (parseValue d) (object_loop (parseValue d)) ms s"
        by (intro object_round_cong [OF shr]) blast
      then show ?case using f object_loop_round [OF shr] by metis
    qed
    then show ?thesis by blast
  qed
  show "g = array_loop (parseValue d)" if g: "\<forall>vs s. g vs s = array_round (parseValue d) g vs s"
  proof -
    have "g vs s = array_loop (parseValue d) vs s" for vs s
    proof (induction s arbitrary: vs rule: length_induct)
      case (1 s)
      then have "array_round (parseValue d) g vs s = array_round (parseValue d) (array_loop (parseValue d)) vs s"
        by (intro array_round_cong [OF shr]) blast
      then show ?case using g array_loop_round [OF shr] by metis
    qed
    then show ?thesis by blast
  qed
qed

theorem strict_json_loops_terminate_witness:
  "array_round (parseValue 0) (array_loop (parseValue 0)) = array_loop (parseValue 0) \<and>
   array_round (parseValue 0) (array_loop (parseValue 0)) [] ''true,null]'' = Some (JArray [JBoolean True, JNull], [])"
proof -
  let ?g = "array_round (parseValue 0) (array_loop (parseValue 0))"
  have "?g = array_loop (parseValue 0)" using array_loop_round [OF parseValue_shrinks [of 0]] by (intro ext) metis
  then have "\<forall>vs s. ?g vs s = array_round (parseValue 0) ?g vs s" by simp
  then have "?g = array_loop (parseValue 0)" using strict_json_loops_terminate [of 0 "[]" "[]" "[]" "object_loop (parseValue 0)" ?g] by blast
  moreover have "array_loop (parseValue 0) [] ''true,null]'' = Some (JArray [JBoolean True, JNull], [])" by code_simp
  ultimately show ?thesis by simp
qed

end
