(* ===== verification/Encoding.thy ===== *)
theory Encoding
  imports Strict_JSON
begin

text \<open>
  Further parts of Go's standard library that the attestation and generation packages use: the
  runes of a string, \<open>base64.RawURLEncoding\<close>, decimal integers, and the time stamps of RFC 3339.
\<close>

subsection \<open>Runes\<close>

definition rune_value :: "string \<Rightarrow> nat" where
  "rune_value w =
     (let b = (\<lambda>i. of_char (w ! i) :: nat) in
      if length w = 1 then b 0
      else if length w = 2 then (b 0 - 0xC0) * 64 + (b 1 - 0x80)
      else if length w = 3 then (b 0 - 0xE0) * 4096 + (b 1 - 0x80) * 64 + (b 2 - 0x80)
      else (b 0 - 0xF0) * 262144 + (b 1 - 0x80) * 4096 + (b 2 - 0x80) * 64 + (b 3 - 0x80))"

text \<open>The runes a \<open>range\<close> loop over a string yields; a byte that starts no rune yields U+FFFD.\<close>

function runes :: "string \<Rightarrow> nat list" where
  "runes [] = []"
| "runes (c # s) =
     (let n = rune_size (c # s) in
      if n = 0 then 0xFFFD # runes s
      else rune_value (take n (c # s)) # runes (drop n (c # s)))"
  by pat_completeness auto

termination runes
  by (relation "measure length") auto

definition unicode_IsControl :: "nat \<Rightarrow> bool" where
  "unicode_IsControl r \<longleftrightarrow> r < 0x20 \<or> 0x7F \<le> r \<and> r < 0xA0"

lemma runes_ascii: "is_ascii s \<Longrightarrow> runes s = map of_char s"
proof (induction s)
  case (Cons c s)
  then have "rune_size (c # s) = 1" using rune_size_one [of c s] by simp
  then show ?case using Cons by (simp add: Let_def rune_value_def)
qed simp

lemma runes_nil [simp]: "runes s = [] \<longleftrightarrow> s = []"
  by (cases s) (auto simp: Let_def)

text \<open>A string all of whose runes are ASCII is ASCII.\<close>

lemma rune_value_high:
  assumes "rune_size w = length w" "2 \<le> length w"
  shows "0x80 \<le> rune_value w"
proof -
  obtain a b r where w: "w = a # b # r" using assms(2) by (cases w; cases "tl w") auto
  have two: "rune_value [a, b] = (of_char a - 0xC0) * 64 + (of_char b - 0x80)" for a b
    by (simp add: rune_value_def)
  consider "r = []" | c where "r = [c]" | c d where "r = [c, d]"
    using assms unfolding w by (cases r; cases "tl r"; cases "tl (tl r)")
      (auto simp: rune_size_def Let_def split: if_splits)
  then show ?thesis
    using assms unfolding w
    by cases (auto simp: rune_size_def rune_value_def Let_def utf8_second_def utf8_cont_def split: if_splits)
qed

lemma runes_ascii_iff: "list_all (\<lambda>r. r < 0x80) (runes s) \<Longrightarrow> is_ascii s"
proof (induction s rule: runes.induct)
  case (2 c s)
  show ?case
  proof (cases "(of_char c :: nat) < 0x80")
    case True
    then have "rune_size (c # s) = 1" using rune_size_one [of c s] by simp
    then show ?thesis using 2 True by (simp add: Let_def)
  next
    case False
    let ?n = "rune_size (c # s)"
    have n: "?n \<noteq> 0" using 2(3) by (auto simp: Let_def split: if_splits)
    have "?n \<noteq> 1" using rune_size_one [of c s] False by simp
    then have "2 \<le> length (take ?n (c # s))" "rune_size (take ?n (c # s)) = length (take ?n (c # s))"
      using n rune_size_le [of "c # s"] rune_size_take [of "c # s"] by auto
    from rune_value_high [OF this(2,1)] have False using 2(3) n by (simp add: Let_def)
    then show ?thesis ..
  qed
qed simp

subsection \<open>Package encoding/base64, RawURLEncoding\<close>

definition base64_char :: "nat \<Rightarrow> char" where
  "base64_char n =
     (if n < 26 then char_of (65 + n)
      else if n < 52 then char_of (71 + n)
      else if n < 62 then char_of (n - 4)
      else if n = 62 then CHR ''-'' else CHR ''_'')"

definition base64_value :: "char \<Rightarrow> nat option" where
  "base64_value c =
     (let n = (of_char c :: nat) in
      if 65 \<le> n \<and> n \<le> 90 then Some (n - 65)
      else if 97 \<le> n \<and> n \<le> 122 then Some (n - 71)
      else if 48 \<le> n \<and> n \<le> 57 then Some (n + 4)
      else if n = 45 then Some 62
      else if n = 95 then Some 63
      else None)"

fun base64_EncodeToString :: "go_bytes \<Rightarrow> string" where
  "base64_EncodeToString [] = []"
| "base64_EncodeToString [a] =
     (let x = (of_char a :: nat) in [base64_char (x div 4), base64_char (x mod 4 * 16)])"
| "base64_EncodeToString [a, b] =
     (let x = (of_char a :: nat); y = of_char b in
      [base64_char (x div 4), base64_char (x mod 4 * 16 + y div 16), base64_char (y mod 16 * 4)])"
| "base64_EncodeToString (a # b # c # s) =
     (let x = (of_char a :: nat); y = of_char b; z = of_char c in
      base64_char (x div 4) # base64_char (x mod 4 * 16 + y div 16)
        # base64_char (y mod 16 * 4 + z div 64) # base64_char (z mod 64) # base64_EncodeToString s)"

text \<open>The decoder reads four characters at a time; a last group of two or three characters is
  accepted whatever its unused low bits are. Line breaks anywhere in the input are skipped.\<close>

fun base64_groups :: "string \<Rightarrow> go_bytes option" where
  "base64_groups [] = Some []"
| "base64_groups [p] = None"
| "base64_groups [p, q] =
     (case (base64_value p, base64_value q) of
        (Some x, Some y) \<Rightarrow> Some [char_of (x * 4 + y div 16)]
      | _ \<Rightarrow> None)"
| "base64_groups [p, q, r] =
     (case (base64_value p, base64_value q, base64_value r) of
        (Some x, Some y, Some z) \<Rightarrow> Some [char_of (x * 4 + y div 16), char_of (y mod 16 * 16 + z div 4)]
      | _ \<Rightarrow> None)"
| "base64_groups (p # q # r # t # s) =
     (case (base64_value p, base64_value q, base64_value r, base64_value t, base64_groups s) of
        (Some x, Some y, Some z, Some w, Some bs) \<Rightarrow>
          Some (char_of (x * 4 + y div 16) # char_of (y mod 16 * 16 + z div 4)
                # char_of (z mod 4 * 64 + w) # bs)
      | _ \<Rightarrow> None)"

definition base64_DecodeString :: "string \<Rightarrow> go_bytes option" where
  "base64_DecodeString s = base64_groups (filter (\<lambda>c. c \<noteq> LF \<and> c \<noteq> CR) s)"

lemma base64_value_char [simp]: "n < 64 \<Longrightarrow> base64_value (base64_char n) = Some n"
  by (auto simp: base64_char_def base64_value_def Let_def)

lemma base64_char_plain [simp]:
  "n < 64 \<Longrightarrow> base64_char n \<noteq> LF" "n < 64 \<Longrightarrow> base64_char n \<noteq> CR"
  "n < 64 \<Longrightarrow> base64_char n \<noteq> CHR ''=''" "n < 64 \<Longrightarrow> (of_char (base64_char n) :: nat) < 128"
  by (auto simp: base64_char_def dest: arg_cong [where f = "of_char :: char \<Rightarrow> nat"])

lemmas base64_char_plain_sym [simp] = base64_char_plain(3) [symmetric]

lemma base64_index [simp]:
  fixes x y :: nat
  shows "x < 256 \<Longrightarrow> x div 4 < 64" "y < 256 \<Longrightarrow> x mod 4 * 16 + y div 16 < 64" "x mod 4 * 16 < 64"
    "x mod 16 * 4 < 64" "y < 256 \<Longrightarrow> x mod 16 * 4 + y div 64 < 64" "x mod 64 < 64"
proof -
  have "x mod 4 < 4" "x mod 16 < 16" by simp_all
  moreover have "y div 16 < 16 \<and> y div 64 < 4" if "y < 256" using that by (simp add: div_less_iff_less_mult)
  ultimately show "y < 256 \<Longrightarrow> x mod 4 * 16 + y div 16 < 64" "x mod 4 * 16 < 64" "x mod 16 * 4 < 64"
    "y < 256 \<Longrightarrow> x mod 16 * 4 + y div 64 < 64" by linarith+
qed (simp_all add: div_less_iff_less_mult)

lemma of_char_256 [simp]: "(of_char c :: nat) < 256"
  using range_nat_of_char by (metis atLeastLessThan_iff rangeI)

lemma of_char_parts [simp]:
  "(of_char c :: nat) div 16 div 16 = 0" "(of_char c :: nat) div 64 div 4 = 0"
  "(of_char c :: nat) div 16 mod 16 = of_char c div 16" "(of_char c :: nat) div 64 mod 4 = of_char c div 64"
proof -
  have "(of_char c :: nat) div 16 < 16" "(of_char c :: nat) div 64 < 4"
    using of_char_256 [of c] by (simp_all add: div_less_iff_less_mult)
  then show "(of_char c :: nat) div 16 div 16 = 0" "(of_char c :: nat) div 64 div 4 = 0"
    "(of_char c :: nat) div 16 mod 16 = of_char c div 16" "(of_char c :: nat) div 64 mod 4 = of_char c div 64"
    by simp_all
qed

lemma groups_encode: "base64_groups (base64_EncodeToString bs) = Some bs"
  by (induction bs rule: base64_EncodeToString.induct) (simp_all add: Let_def)

lemma encode_plain:
  "filter (\<lambda>c. c \<noteq> LF \<and> c \<noteq> CR) (base64_EncodeToString bs) = base64_EncodeToString bs"
  "CHR ''='' \<notin> set (base64_EncodeToString bs)"
  "is_ascii (base64_EncodeToString bs)"
  by (induction bs rule: base64_EncodeToString.induct) (simp_all add: Let_def)

lemma base64_roundtrip [simp]: "base64_DecodeString (base64_EncodeToString bs) = Some bs"
  by (simp add: base64_DecodeString_def encode_plain groups_encode)

lemma base64_Encode_nil [simp]: "base64_EncodeToString bs = [] \<longleftrightarrow> bs = []"
  by (cases bs rule: base64_EncodeToString.cases) (auto simp: Let_def)

lemma base64_Encode_inj: "base64_EncodeToString a = base64_EncodeToString b \<Longrightarrow> a = b"
  using base64_roundtrip by (metis option.inject)

subsection \<open>Decimal integers\<close>

text \<open>\<open>strconv.AppendInt(n, 10)\<close> for a non-negative number, and the value of a digit string.\<close>

fun decimal :: "nat \<Rightarrow> string" where
  "decimal n = (if n < 10 then [char_of (48 + n)] else decimal (n div 10) @ [char_of (48 + n mod 10)])"

declare decimal.simps [simp del]

definition decimal_value :: "string \<Rightarrow> nat" where
  "decimal_value s = foldl (\<lambda>n c. 10 * n + (of_char c - 48)) 0 s"

definition digit_char :: "nat \<Rightarrow> char" where "digit_char d = char_of (48 + d)"

lemma of_digit_char: "d < 10 \<Longrightarrow> (of_char (digit_char d) :: nat) = 48 + d"
  by (simp add: digit_char_def)

lemma decimal_rec:
  "decimal n = (if n < 10 then [digit_char n] else decimal (n div 10) @ [digit_char (n mod 10)])"
  by (subst decimal.simps) (simp add: digit_char_def)

lemma decimal_induct [case_names digit more]:
  fixes n :: nat
  assumes "\<And>n. n < 10 \<Longrightarrow> P n" "\<And>n. \<not> n < 10 \<Longrightarrow> P (n div 10) \<Longrightarrow> P n"
  shows "P n"
  using assms by (induction n rule: decimal.induct) blast

lemma is_json_digit_char: "d < 10 \<Longrightarrow> is_json_digit (digit_char d)"
  by (simp add: is_json_digit_def of_digit_char)

lemma decimal_digits: "list_all is_json_digit (decimal n)"
proof (induction n rule: decimal_induct)
  case (digit n)
  then show ?case by (simp add: decimal_rec [of n] is_json_digit_char)
next
  case (more n)
  then show ?case by (simp add: decimal_rec [of n] is_json_digit_char)
qed

lemma decimal_not_nil [simp]: "decimal n \<noteq> []"
  by (subst decimal_rec) simp

lemma decimal_value_snoc: "decimal_value (s @ [c]) = 10 * decimal_value s + (of_char c - 48)"
  by (simp add: decimal_value_def)

lemma decimal_value_decimal [simp]: "decimal_value (decimal n) = n"
proof (induction n rule: decimal_induct)
  case (digit n)
  then show ?case by (simp add: decimal_rec [of n] decimal_value_def of_digit_char)
next
  case (more n)
  then show ?case by (simp add: decimal_rec [of n] decimal_value_snoc of_digit_char)
qed

lemma decimal_head: "n \<noteq> 0 \<Longrightarrow> hd (decimal n) \<noteq> CHR ''0''"
proof (induction n rule: decimal_induct)
  case (digit n)
  have "(of_char (digit_char n) :: nat) \<noteq> of_char (CHR ''0'')" using digit by (simp add: of_digit_char)
  then show ?case using digit by (auto simp: decimal_rec [of n])
next
  case (more n)
  then show ?case by (simp add: decimal_rec [of n] div_greater_zero_iff)
qed

lemma decimal_zero: "decimal 0 = ''0''"
  by (simp add: decimal_rec digit_char_def char_of_eq_iff)

lemma parseNumber_decimal: "parseNumber (decimal n) = Some (decimal n, [])"
proof -
  obtain c s where d: "decimal n = c # s" by (cases "decimal n") auto
  have ds: "is_json_digit c" "list_all is_json_digit s" using decimal_digits [of n] d by auto
  have c: "c \<noteq> CHR ''-''" using ds(1) by (auto simp: is_json_digit_def)
  have "number_int (c # s) = Some []"
  proof (cases "c = CHR ''0''")
    case True
    then have "n = 0" using decimal_head [of n] d by auto
    then show ?thesis using d decimal_zero by (auto simp: number_int_def)
  next
    case False
    then show ?thesis using ds drop_digits [of "c # s" "[]"] by (simp add: number_int_def)
  qed
  then show ?thesis
    using d c by (simp add: parseNumber_def number_frac_def number_exp_def consume_def)
qed

end
