(* ===== verification/Attestation.thy ===== *)
theory Attestation
  imports Encoding Vault_Config "HOL-Library.List_Lexorder" "HOL-Library.Char_ord"
begin

text \<open>
  Rotation attestations, \<open>backend/internal/attestation\<close>: claims and their validation
  (\<open>claims.go\<close>), the flattened JWS (\<open>jws.go\<close>), envelope digests (\<open>digest.go\<close>), signing and
  verification (\<open>protocol.go\<close>) and the closed error vocabulary (\<open>errors.go\<close>).

  SHA-256, Ed25519, \<open>url.Parse\<close> and the third-party \<open>jcs.Transform\<close> are fields of the parameter
  \<open>proof_lib\<close>. A function of the source that returns a pair of a value and an error is modelled
  by a sum, except \<open>Verify\<close>, which returns claims together with some of its errors.
\<close>

subsection \<open>Library parameters\<close>

record parsed_url =
  Scheme :: string
  Host :: string
  has_User :: bool
  Opaque :: string
  url_Path :: string
  RawPath :: string
  RawQuery :: string
  ForceQuery :: bool
  Fragment :: string
  Hostname :: string

record proof_lib =
  sha256_Sum :: "go_bytes \<Rightarrow> go_bytes"
  ed25519_Sign :: "go_bytes \<Rightarrow> go_bytes \<Rightarrow> go_bytes"
  ed25519_Verify :: "go_bytes \<Rightarrow> go_bytes \<Rightarrow> go_bytes \<Rightarrow> bool"
  url_Parse :: "string \<Rightarrow> parsed_url option"
  jcs_Transform :: "go_bytes \<Rightarrow> go_bytes option"

definition ed25519_PublicKeySize :: nat where "ed25519_PublicKeySize = 32"
definition ed25519_PrivateKeySize :: nat where "ed25519_PrivateKeySize = 64"

subsection \<open>Errors\<close>

datatype VerificationReason =
    SignatureInvalid | UnknownKey | KeyRevoked | IssuerMismatch | UnsupportedVersion
  | InputDigestMismatch | OutputDigestMismatch | BindingMismatch

datatype att_error = ErrMalformed | ErrInvalidSigningKey | ErrInvalidVerifyOptions
  | VerificationError VerificationReason

definition VerificationReasonOf :: "att_error option \<Rightarrow> VerificationReason option" where
  "VerificationReasonOf err = (case err of Some (VerificationError r) \<Rightarrow> Some r | _ \<Rightarrow> None)"

subsection \<open>Claims\<close>

definition SupportedVersion :: int where "SupportedVersion = 1"
definition MaxJCSSafeInteger :: int where "MaxJCSSafeInteger = 9007199254740991"
definition attestationAlgorithm :: string where "attestationAlgorithm = ''Ed25519''"
definition attestationType :: string where
  "attestationType = ''application/vaultsmith-rotation-attestation+json''"

record Digest =
  Algorithm :: string
  Value :: string

record Binding =
  Repository :: string
  Revision :: string
  Path :: string
  Selector :: string

record RotationClaims =
  Version :: int
  Issuer :: string
  IssuedAt :: string
  Operation :: string
  SourceProfileID :: string
  DestinationProfileID :: string
  Input :: Digest
  Output :: Digest
  claims_Binding :: "Binding option"

definition zero_Digest :: Digest where "zero_Digest = \<lparr>Algorithm = [], Value = []\<rparr>"

definition zero_RotationClaims :: RotationClaims where
  "zero_RotationClaims = \<lparr>Version = 0, Issuer = [], IssuedAt = [], Operation = [], SourceProfileID = [],
     DestinationProfileID = [], Input = zero_Digest, Output = zero_Digest, claims_Binding = None\<rparr>"

definition claimsMembers :: "string list" where
  "claimsMembers = [''version'', ''issuer'', ''issuedAt'', ''operation'', ''sourceProfileId'',
     ''destinationProfileId'', ''input'', ''output'', ''binding'']"
definition digestMembers :: "string list" where "digestMembers = [''algorithm'', ''digest'']"
definition bindingMembers :: "string list" where
  "bindingMembers = [''repository'', ''revision'', ''path'', ''selector'']"

text \<open>The fields of a binding in the order of the struct.\<close>

definition binding_fields :: "Binding \<Rightarrow> string list" where
  "binding_fields b = [Repository b, Revision b, Path b, Selector b]"

definition validBoundString :: "string \<Rightarrow> bool" where
  "validBoundString v \<longleftrightarrow>
     v \<noteq> [] \<and> length v \<le> 1024 \<and> utf8_valid v \<and> list_all (\<lambda>r. \<not> unicode_IsControl r) (runes v)"

definition hex_rune :: "nat \<Rightarrow> bool" where
  "hex_rune r \<longleftrightarrow> 48 \<le> r \<and> r \<le> 57 \<or> 97 \<le> r \<and> r \<le> 102"

definition validLowerHexDigest :: "string \<Rightarrow> bool" where
  "validLowerHexDigest v \<longleftrightarrow> length v = 64 \<and> list_all hex_rune (runes v)"

text \<open>\<open>json.Marshal\<close> of a \<open>Binding\<close>: its non-empty fields (\<open>omitempty\<close>) in the order of the struct.\<close>

definition binding_value :: "Binding \<Rightarrow> jsonValue" where
  "binding_value b = JObject (map (\<lambda>(n, v). (n, JString v))
     (filter (\<lambda>(n, v). v \<noteq> []) (zip bindingMembers (binding_fields b))))"

definition validateBindingFieldsOnly :: "Binding \<Rightarrow> att_error option" where
  "validateBindingFieldsOnly b =
     (if \<not> list_all (\<lambda>v. v \<noteq> [] \<longrightarrow> validBoundString v) (binding_fields b) then Some ErrMalformed
      else if Repository b = [] \<and> Revision b = [] \<and> Path b = [] \<and> Selector b = [] then Some ErrMalformed
      else None)"

definition canonicalBinding :: "proof_lib \<Rightarrow> Binding \<Rightarrow> go_bytes option" where
  "canonicalBinding lib b =
     (case validateBindingFieldsOnly b of
        Some _ \<Rightarrow> None
      | None \<Rightarrow> jcs_Transform lib (render marshal_chars (binding_value b)))"

definition validateBinding :: "proof_lib \<Rightarrow> Binding \<Rightarrow> att_error option" where
  "validateBinding lib b =
     (if \<not> list_all (\<lambda>v. v \<noteq> [] \<longrightarrow> validBoundString v) (binding_fields b) then Some ErrMalformed
      else if list_all (\<lambda>v. v = []) (binding_fields b) then Some ErrMalformed
      else (case canonicalBinding lib b of
        None \<Rightarrow> Some ErrMalformed
      | Some canonical \<Rightarrow> if 4096 < length canonical then Some ErrMalformed else None))"

definition validateDigest :: "Digest \<Rightarrow> att_error option" where
  "validateDigest d =
     (if Algorithm d \<noteq> ''sha-256'' \<or> \<not> validLowerHexDigest (Value d) then Some ErrMalformed else None)"

subsection \<open>Time stamps\<close>

text \<open>A time in UTC as \<open>time.Parse(time.RFC3339Nano, _)\<close> reads it from a text that ends in Z, with
  the digits of its fraction. The parser of Go accepts a few more spellings (a single-digit hour,
  a decimal comma); \<open>Format\<close> never writes them, so the comparison in \<open>validTimestamp\<close> rejects
  them in any case.\<close>

record utc_time =
  t_year :: nat
  t_month :: nat
  t_day :: nat
  t_hour :: nat
  t_min :: nat
  t_sec :: nat
  t_frac :: string

definition digits_at :: "string \<Rightarrow> nat \<Rightarrow> nat \<Rightarrow> nat option" where
  "digits_at s i n =
     (let w = take n (drop i s) in
      if length w = n \<and> list_all is_json_digit w then Some (decimal_value w) else None)"

definition leap_year :: "nat \<Rightarrow> bool" where
  "leap_year y \<longleftrightarrow> y mod 4 = 0 \<and> (y mod 100 \<noteq> 0 \<or> y mod 400 = 0)"

definition days_in :: "nat \<Rightarrow> nat \<Rightarrow> nat" where
  "days_in y m = (if m = 2 then (if leap_year y then 29 else 28)
     else if m = 4 \<or> m = 6 \<or> m = 9 \<or> m = 11 then 30 else 31)"

definition time_Parse :: "string \<Rightarrow> utc_time option" where
  "time_Parse s =
     (case (digits_at s 0 4, digits_at s 5 2, digits_at s 8 2, digits_at s 11 2, digits_at s 14 2, digits_at s 17 2) of
        (Some y, Some mo, Some d, Some h, Some mi, Some se) \<Rightarrow>
          let frac = (case drop 19 s of
                        c # r \<Rightarrow> if c = CHR ''Z'' \<and> r = [] then Some []
                                 else if c = CHR ''.'' \<and> r \<noteq> [] \<and> last r = CHR ''Z'' \<and>
                                         butlast r \<noteq> [] \<and> list_all is_json_digit (butlast r)
                                      then Some (butlast r) else None
                      | [] \<Rightarrow> None)
          in if s ! 4 = CHR ''-'' \<and> s ! 7 = CHR ''-'' \<and> s ! 10 = CHR ''T'' \<and> s ! 13 = CHR '':'' \<and>
                s ! 16 = CHR '':'' \<and> 1 \<le> mo \<and> mo \<le> 12 \<and> 1 \<le> d \<and> d \<le> days_in y mo \<and>
                h < 24 \<and> mi < 60 \<and> se < 60
             then map_option (\<lambda>f. \<lparr>t_year = y, t_month = mo, t_day = d, t_hour = h, t_min = mi, t_sec = se, t_frac = f\<rparr>) frac
             else None
      | _ \<Rightarrow> None)"

definition pad :: "nat \<Rightarrow> nat \<Rightarrow> string" where
  "pad w n = (let s = decimal n in replicate (w - length s) (CHR ''0'') @ s)"

text \<open>Nanoseconds: nine digits of the fraction, trailing zeros not written.\<close>

definition trim_zeros :: "string \<Rightarrow> string" where
  "trim_zeros s = rev (dropWhile (\<lambda>c. c = CHR ''0'') (rev s))"

definition time_Format :: "utc_time \<Rightarrow> string" where
  "time_Format t =
     pad 4 (t_year t) @ CHR ''-'' # pad 2 (t_month t) @ CHR ''-'' # pad 2 (t_day t) @ CHR ''T'' #
     pad 2 (t_hour t) @ CHR '':'' # pad 2 (t_min t) @ CHR '':'' # pad 2 (t_sec t) @
     (let f = trim_zeros (take 9 (t_frac t)) in if f = [] then [] else CHR ''.'' # f) @ ''Z''"

definition validTimestamp :: "string \<Rightarrow> bool" where
  "validTimestamp v \<longleftrightarrow>
     v \<noteq> [] \<and> utf8_valid v \<and> strings_HasSuffix v ''Z'' \<and>
     (case time_Parse v of None \<Rightarrow> False | Some t \<Rightarrow> time_Format t = v)"

subsection \<open>Issuers, key ids and whole claims\<close>

definition validIssuer :: "proof_lib \<Rightarrow> string \<Rightarrow> bool" where
  "validIssuer lib v \<longleftrightarrow>
     \<not> (v = [] \<or> \<not> utf8_valid v \<or> strings_ContainsAny v ''?#'') \<and>
     (case url_Parse lib v of
        None \<Rightarrow> False
      | Some u \<Rightarrow>
          \<not> (Scheme u \<noteq> ''https'' \<or> Host u = [] \<or> has_User u \<or> Opaque u \<noteq> [] \<or>
             (url_Path u \<noteq> [] \<and> url_Path u \<noteq> ''/'') \<or> RawPath u \<noteq> [] \<or> RawQuery u \<noteq> [] \<or>
             ForceQuery u \<or> Fragment u \<noteq> []) \<and>
          Hostname u \<noteq> [])"

definition kid_rune :: "nat \<Rightarrow> bool" where
  "kid_rune r \<longleftrightarrow> 65 \<le> r \<and> r \<le> 90 \<or> 97 \<le> r \<and> r \<le> 122 \<or> 48 \<le> r \<and> r \<le> 57 \<or> r = 46 \<or> r = 95 \<or> r = 45"

definition validKID :: "string \<Rightarrow> bool" where
  "validKID v \<longleftrightarrow> v \<noteq> [] \<and> length v \<le> 128 \<and> utf8_valid v \<and> list_all kid_rune (runes v)"

definition validateClaims :: "proof_lib \<Rightarrow> RotationClaims \<Rightarrow> att_error option" where
  "validateClaims lib c =
     (if Version c < 0 \<or> Version c > MaxJCSSafeInteger then Some ErrMalformed
      else if \<not> validIssuer lib (Issuer c) \<or> \<not> validTimestamp (IssuedAt c) then Some ErrMalformed
      else if Operation c \<noteq> ''rotate'' then Some ErrMalformed
      else if \<not> IsValidProfileID (SourceProfileID c) \<or> \<not> IsValidProfileID (DestinationProfileID c)
        then Some ErrMalformed
      else (case validateDigest (Input c) of
        Some err \<Rightarrow> Some err
      | None \<Rightarrow> (case validateDigest (Output c) of
          Some err \<Rightarrow> Some err
        | None \<Rightarrow> (case claims_Binding c of
            None \<Rightarrow> None
          | Some b \<Rightarrow> validateBinding lib b))))"

definition validateSigningClaims :: "proof_lib \<Rightarrow> RotationClaims \<Rightarrow> att_error option" where
  "validateSigningClaims lib c =
     (case validateClaims lib c of
        Some err \<Rightarrow> Some err
      | None \<Rightarrow> if Version c \<noteq> SupportedVersion then Some ErrMalformed else None)"

subsection \<open>Claims as JSON\<close>

definition requiredStringMember :: "jsonValue \<Rightarrow> string \<Rightarrow> string option" where
  "requiredStringMember obj name =
     (case member obj name of Some (JString s) \<Rightarrow> Some s | _ \<Rightarrow> None)"

definition parseDigest :: "jsonValue \<Rightarrow> Digest option" where
  "parseDigest v =
     (if \<not> hasOnlyMembers v digestMembers then None
      else (case requiredStringMember v ''algorithm'' of
        None \<Rightarrow> None
      | Some a \<Rightarrow> (case requiredStringMember v ''digest'' of
          None \<Rightarrow> None
        | Some d \<Rightarrow>
            let result = \<lparr>Algorithm = a, Value = d\<rparr> in
            if validateDigest result \<noteq> None then None else Some result)))"

text \<open>An optional string member; absent it leaves the field empty.\<close>

definition optionalStringMember :: "jsonValue \<Rightarrow> string \<Rightarrow> string option" where
  "optionalStringMember obj name =
     (case member obj name of None \<Rightarrow> Some [] | Some (JString s) \<Rightarrow> Some s | _ \<Rightarrow> None)"

definition parseBinding :: "proof_lib \<Rightarrow> jsonValue \<Rightarrow> Binding option" where
  "parseBinding lib v =
     (if \<not> hasOnlyMembers v bindingMembers then None
      else (case (optionalStringMember v ''repository'', optionalStringMember v ''revision'',
                  optionalStringMember v ''path'', optionalStringMember v ''selector'') of
        (Some r, Some s, Some p, Some q) \<Rightarrow>
          let binding = \<lparr>Repository = r, Revision = s, Path = p, Selector = q\<rparr> in
          if validateBinding lib binding \<noteq> None then None else Some binding
      | _ \<Rightarrow> None))"

text \<open>\<open>strings.Trim(number, digits) = ""\<close>: nothing but digits.\<close>

definition validVersionNumber :: "string \<Rightarrow> bool" where
  "validVersionNumber number \<longleftrightarrow>
     (if number = [] \<or> hd number = CHR ''-'' \<or> strings_ContainsAny number ''.eE'' then False
      else number = ''0'' \<or>
        (hd number \<noteq> CHR ''0'' \<and> is_json_digit (hd number) \<and> list_all is_json_digit number))"

text \<open>\<open>strconv.ParseInt(s, 10, 64)\<close> on a string of digits.\<close>

definition strconv_ParseInt :: "string \<Rightarrow> int option" where
  "strconv_ParseInt s = (if decimal_value s < 2 ^ 63 then Some (int (decimal_value s)) else None)"

definition parse_version :: "jsonValue \<Rightarrow> int option" where
  "parse_version root =
     (case member root ''version'' of
        Some (JNumber n) \<Rightarrow> if validVersionNumber n then strconv_ParseInt n else None
      | _ \<Rightarrow> None)"

definition parse_optional_binding :: "proof_lib \<Rightarrow> jsonValue \<Rightarrow> Binding option option" where
  "parse_optional_binding lib root =
     (case member root ''binding'' of
        None \<Rightarrow> Some None
      | Some v \<Rightarrow> map_option Some (parseBinding lib v))"

definition parseClaims :: "proof_lib \<Rightarrow> go_bytes \<Rightarrow> RotationClaims option" where
  "parseClaims lib data =
     (case parseStrictJSON data of
        None \<Rightarrow> None
      | Some root \<Rightarrow>
          if \<not> hasOnlyMembers root claimsMembers then None
          else (case (parse_version root, requiredStringMember root ''issuer'',
                      requiredStringMember root ''issuedAt'', requiredStringMember root ''operation'',
                      requiredStringMember root ''sourceProfileId'',
                      requiredStringMember root ''destinationProfileId'') of
            (Some version, Some iss, Some issuedAt, Some oper, Some source, Some destination) \<Rightarrow>
              (case (Option.bind (member root ''input'') parseDigest,
                     Option.bind (member root ''output'') parseDigest, parse_optional_binding lib root) of
                 (Some input, Some out, Some binding) \<Rightarrow>
                   let claims = \<lparr>Version = version, Issuer = iss, IssuedAt = issuedAt, Operation = oper,
                                 SourceProfileID = source, DestinationProfileID = destination,
                                 Input = input, Output = out, claims_Binding = binding\<rparr>
                   in if validateClaims lib claims \<noteq> None then None else Some claims
               | _ \<Rightarrow> None)
          | _ \<Rightarrow> None))"

definition digest_value :: "Digest \<Rightarrow> jsonValue" where
  "digest_value d = JObject [(''algorithm'', JString (Algorithm d)), (''digest'', JString (Value d))]"

text \<open>What \<open>json.Marshal\<close> encodes for claims; only called on validated claims, whose version is not
  negative.\<close>

definition claims_value :: "RotationClaims \<Rightarrow> jsonValue" where
  "claims_value c =
     JObject ([(''version'', JNumber (decimal (nat (Version c)))), (''issuer'', JString (Issuer c)),
        (''issuedAt'', JString (IssuedAt c)), (''operation'', JString (Operation c)),
        (''sourceProfileId'', JString (SourceProfileID c)),
        (''destinationProfileId'', JString (DestinationProfileID c)),
        (''input'', digest_value (Input c)), (''output'', digest_value (Output c))] @
      (case claims_Binding c of None \<Rightarrow> [] | Some b \<Rightarrow> [(''binding'', binding_value b)]))"

definition canonicalClaims :: "proof_lib \<Rightarrow> RotationClaims \<Rightarrow> go_bytes option" where
  "canonicalClaims lib c =
     (if validateClaims lib c \<noteq> None then None
      else jcs_Transform lib (render marshal_chars (claims_value c)))"

definition parseCanonicalClaims :: "proof_lib \<Rightarrow> go_bytes \<Rightarrow> RotationClaims option" where
  "parseCanonicalClaims lib data =
     (case parseClaims lib data of
        None \<Rightarrow> None
      | Some claims \<Rightarrow> if jcs_Transform lib data = Some data then Some claims else None)"

subsection \<open>Flattened JWS\<close>

record Signed =
  Protected :: string
  Payload :: string
  Signature :: string

definition zero_Signed :: Signed where
  "zero_Signed = \<lparr>Protected = [], Payload = [], Signature = []\<rparr>"

definition signedMembers :: "string list" where
  "signedMembers = [''protected'', ''payload'', ''signature'']"

definition signed_value :: "Signed \<Rightarrow> jsonValue" where
  "signed_value s = JObject [(''protected'', JString (Protected s)), (''payload'', JString (Payload s)),
     (''signature'', JString (Signature s))]"

definition MarshalJSON :: "proof_lib \<Rightarrow> Signed \<Rightarrow> go_bytes option" where
  "MarshalJSON lib s = jcs_Transform lib (render marshal_chars (signed_value s))"

definition Marshal :: "proof_lib \<Rightarrow> Signed \<Rightarrow> go_bytes option" where
  "Marshal lib s = MarshalJSON lib s"

definition encodeBase64URL :: "go_bytes \<Rightarrow> string" where
  "encodeBase64URL bs = base64_EncodeToString bs"

definition decodeStrictBase64URL :: "string \<Rightarrow> go_bytes option" where
  "decodeStrictBase64URL v =
     (if v = [] \<or> strings_ContainsRune v (CHR ''='') then None
      else (case base64_DecodeString v of
        None \<Rightarrow> None
      | Some decoded \<Rightarrow> if base64_EncodeToString decoded \<noteq> v then None else Some decoded))"

definition decodeEncodedComponents :: "Signed \<Rightarrow> (go_bytes \<times> go_bytes \<times> go_bytes) option" where
  "decodeEncodedComponents s =
     (case decodeStrictBase64URL (Protected s) of
        None \<Rightarrow> None
      | Some protected \<Rightarrow>
          if length protected = 0 then None
          else (case decodeStrictBase64URL (Payload s) of
            None \<Rightarrow> None
          | Some payload \<Rightarrow>
              if length payload = 0 then None
              else (case decodeStrictBase64URL (Signature s) of
                None \<Rightarrow> None
              | Some signature \<Rightarrow>
                  if length signature \<noteq> 64 then None else Some (protected, payload, signature))))"

definition Parse :: "go_bytes \<Rightarrow> att_error + Signed" where
  "Parse data =
     (case parseStrictJSON data of
        None \<Rightarrow> Inl ErrMalformed
      | Some root \<Rightarrow>
          if \<not> hasOnlyMembers root signedMembers then Inl ErrMalformed
          else (case (requiredStringMember root ''protected'', requiredStringMember root ''payload'',
                      requiredStringMember root ''signature'') of
            (Some protected, Some payload, Some signature) \<Rightarrow>
              let result = \<lparr>Protected = protected, Payload = payload, Signature = signature\<rparr> in
              if decodeEncodedComponents result = None then Inl ErrMalformed else Inr result
          | _ \<Rightarrow> Inl ErrMalformed))"

subsection \<open>Digests of envelopes\<close>

definition inputDigestDomain :: go_bytes where
  "inputDigestDomain = ''vaultsmith:rotation-attestation:input:v1'' @ [CHR 0x00]"
definition outputDigestDomain :: go_bytes where
  "outputDigestDomain = ''vaultsmith:rotation-attestation:output:v1'' @ [CHR 0x00]"

text \<open>Writing the domain and the bytes to a running hash hashes their concatenation.\<close>

definition digestCanonical :: "proof_lib \<Rightarrow> go_bytes \<Rightarrow> go_bytes \<Rightarrow> string" where
  "digestCanonical lib domain canonical = hex_EncodeToString (sha256_Sum lib (domain @ canonical))"

definition InputDigestBytes :: "proof_lib \<Rightarrow> go_bytes \<Rightarrow> string" where
  "InputDigestBytes lib canonical = digestCanonical lib inputDigestDomain canonical"

definition OutputDigestBytes :: "proof_lib \<Rightarrow> go_bytes \<Rightarrow> string" where
  "OutputDigestBytes lib canonical = digestCanonical lib outputDigestDomain canonical"

definition InputDigest :: "proof_lib \<Rightarrow> string \<Rightarrow> string option" where
  "InputDigest lib v =
     (case CanonicalEnvelope v of
        Inl _ \<Rightarrow> None
      | Inr canonical \<Rightarrow> Some (digestCanonical lib inputDigestDomain canonical))"

definition OutputDigest :: "proof_lib \<Rightarrow> string \<Rightarrow> string option" where
  "OutputDigest lib v =
     (case CanonicalEnvelope v of
        Inl _ \<Rightarrow> None
      | Inr canonical \<Rightarrow> Some (digestCanonical lib outputDigestDomain canonical))"

subsection \<open>Signing and verification\<close>

record KeyResolution =
  PublicKey :: go_bytes
  Revoked :: bool

text \<open>A \<open>KeyResolver\<close> may be nil; \<open>None\<close> as its answer is an error.\<close>

type_synonym KeyResolver = "string \<Rightarrow> string \<Rightarrow> KeyResolution option"

record VerifyOptions =
  ExpectedIssuer :: string
  Resolver :: "KeyResolver option"
  ExpectedInputDigest :: string
  ExpectedOutputDigest :: string
  InputVaultText :: string
  OutputVaultText :: string
  ExpectedBinding :: "Binding option"

record protectedHeader =
  Alg :: string
  Kid :: string
  Typ :: string

definition protectedMembers :: "string list" where
  "protectedMembers = [''alg'', ''kid'', ''typ'']"

definition header_value :: "protectedHeader \<Rightarrow> jsonValue" where
  "header_value h = JObject [(''alg'', JString (Alg h)), (''kid'', JString (Kid h)), (''typ'', JString (Typ h))]"

definition canonicalProtectedHeader :: "proof_lib \<Rightarrow> protectedHeader \<Rightarrow> go_bytes option" where
  "canonicalProtectedHeader lib h = jcs_Transform lib (render marshal_chars (header_value h))"

definition fold_byte :: "char \<Rightarrow> nat" where
  "fold_byte c = (let n = (of_char c :: nat) in if 65 \<le> n \<and> n \<le> 90 then n + 32 else n)"

text \<open>The loop ranges over the byte positions at which a rune of \<open>a\<close> starts; the other bytes of a
  rune are not compared.\<close>

function equal_fold_from :: "string \<Rightarrow> string \<Rightarrow> bool" where
  "equal_fold_from [] b = True"
| "equal_fold_from (c # a) b =
     (let n = max 1 (rune_size (c # a)) in
      b \<noteq> [] \<and> fold_byte c = fold_byte (hd b) \<and> equal_fold_from (drop n (c # a)) (drop n b))"
  by pat_completeness auto

termination equal_fold_from
  by (relation "measure (\<lambda>(a, b). length a)") auto

definition stringsEqualFoldASCII :: "string \<Rightarrow> string \<Rightarrow> bool" where
  "stringsEqualFoldASCII a b \<longleftrightarrow> length a = length b \<and> equal_fold_from a b"

definition parseCanonicalProtected :: "proof_lib \<Rightarrow> go_bytes \<Rightarrow> protectedHeader option" where
  "parseCanonicalProtected lib data =
     (case parseStrictJSON data of
        None \<Rightarrow> None
      | Some root \<Rightarrow>
          if \<not> hasOnlyMembers root protectedMembers then None
          else (case (requiredStringMember root ''alg'', requiredStringMember root ''kid'',
                      requiredStringMember root ''typ'') of
            (Some alg, Some kid, Some typ) \<Rightarrow>
              if \<not> validKID kid then None
              else if typ = [] \<or> \<not> stringsEqualFoldASCII typ attestationType then None
              else if alg \<noteq> attestationAlgorithm then None
              else if jcs_Transform lib data = Some data then Some \<lparr>Alg = alg, Kid = kid, Typ = typ\<rparr>
              else None
          | _ \<Rightarrow> None))"

definition Sign :: "proof_lib \<Rightarrow> RotationClaims \<Rightarrow> string \<Rightarrow> go_bytes \<Rightarrow> att_error + Signed" where
  "Sign lib claims kid privateKey =
     (if validateSigningClaims lib claims \<noteq> None then Inl ErrMalformed
      else if \<not> validKID kid then Inl ErrMalformed
      else if length privateKey \<noteq> ed25519_PrivateKeySize then Inl ErrInvalidSigningKey
      else (case canonicalProtectedHeader lib \<lparr>Alg = attestationAlgorithm, Kid = kid, Typ = attestationType\<rparr> of
        None \<Rightarrow> Inl ErrMalformed
      | Some protectedBytes \<Rightarrow> (case canonicalClaims lib claims of
          None \<Rightarrow> Inl ErrMalformed
        | Some payloadBytes \<Rightarrow>
            let protected = encodeBase64URL protectedBytes;
                payload = encodeBase64URL payloadBytes;
                signingInput = protected @ CHR ''.'' # payload;
                signature = ed25519_Sign lib privateKey signingInput
            in Inr \<lparr>Protected = protected, Payload = payload, Signature = encodeBase64URL signature\<rparr>)))"

definition validateVerifyOptions :: "proof_lib \<Rightarrow> VerifyOptions \<Rightarrow> att_error option" where
  "validateVerifyOptions lib opts =
     (if Resolver opts = None \<or> \<not> validIssuer lib (ExpectedIssuer opts) then Some ErrInvalidVerifyOptions
      else if ExpectedInputDigest opts \<noteq> [] \<and> \<not> validLowerHexDigest (ExpectedInputDigest opts)
        then Some ErrInvalidVerifyOptions
      else if ExpectedOutputDigest opts \<noteq> [] \<and> \<not> validLowerHexDigest (ExpectedOutputDigest opts)
        then Some ErrInvalidVerifyOptions
      else (case ExpectedBinding opts of
        None \<Rightarrow> None
      | Some b \<Rightarrow> if validateBinding lib b \<noteq> None then Some ErrInvalidVerifyOptions else None))"

definition field_matches :: "string \<Rightarrow> string \<Rightarrow> bool" where
  "field_matches actual expected \<longleftrightarrow> \<not> (expected \<noteq> [] \<and> actual \<noteq> expected)"

definition bindingMatches :: "Binding option \<Rightarrow> Binding \<Rightarrow> bool" where
  "bindingMatches actual expected =
     (case actual of
        None \<Rightarrow> False
      | Some a \<Rightarrow>
          field_matches (Repository a) (Repository expected) \<and>
          field_matches (Revision a) (Revision expected) \<and>
          field_matches (Path a) (Path expected) \<and>
          field_matches (Selector a) (Selector expected))"

text \<open>One digest of \<open>Verify\<close>: against the envelope when there is one, else against the expected
  digest; \<open>Some\<close> is the error to report. \<open>ConstantTimeCompare\<close> decides equality.\<close>

definition digest_error ::
  "(string \<Rightarrow> string option) \<Rightarrow> VerificationReason \<Rightarrow> string \<Rightarrow> string \<Rightarrow> string \<Rightarrow> att_error option" where
  "digest_error digest_of mismatch claimed envelope expected =
     (if envelope \<noteq> [] then
        (case digest_of envelope of
           None \<Rightarrow> Some ErrMalformed
         | Some digest \<Rightarrow> if claimed \<noteq> digest then Some (VerificationError mismatch) else None)
      else if expected \<noteq> [] \<and> claimed \<noteq> expected then Some (VerificationError mismatch)
      else None)"

text \<open>Malformed envelopes are reported without claims.\<close>

definition with_claims :: "RotationClaims \<Rightarrow> att_error \<Rightarrow> RotationClaims \<times> att_error option" where
  "with_claims claims err =
     (if err = ErrMalformed then (zero_RotationClaims, Some ErrMalformed) else (claims, Some err))"

definition Verify :: "proof_lib \<Rightarrow> Signed \<Rightarrow> VerifyOptions \<Rightarrow> RotationClaims \<times> att_error option" where
  "Verify lib signed opts =
     (case validateVerifyOptions lib opts of
        Some err \<Rightarrow> (zero_RotationClaims, Some err)
      | None \<Rightarrow>
     (case decodeEncodedComponents signed of
        None \<Rightarrow> (zero_RotationClaims, Some ErrMalformed)
      | Some (protectedBytes, payloadBytes, signature) \<Rightarrow>
     (case parseCanonicalProtected lib protectedBytes of
        None \<Rightarrow> (zero_RotationClaims, Some ErrMalformed)
      | Some hdr \<Rightarrow>
     (case parseCanonicalClaims lib payloadBytes of
        None \<Rightarrow> (zero_RotationClaims, Some ErrMalformed)
      | Some claims \<Rightarrow>
          if Issuer claims \<noteq> ExpectedIssuer opts
          then (zero_RotationClaims, Some (VerificationError IssuerMismatch))
          else
     (case (the (Resolver opts)) (Issuer claims) (Kid hdr) of
        None \<Rightarrow> (zero_RotationClaims, Some (VerificationError UnknownKey))
      | Some resolution \<Rightarrow>
          if length (PublicKey resolution) \<noteq> ed25519_PublicKeySize
          then (zero_RotationClaims, Some (VerificationError UnknownKey))
          else let signingInput = Protected signed @ CHR ''.'' # Payload signed in
          if \<not> ed25519_Verify lib (PublicKey resolution) signingInput signature
          then (zero_RotationClaims, Some (VerificationError SignatureInvalid))
          else if Revoked resolution then (claims, Some (VerificationError KeyRevoked))
          else if Version claims \<noteq> SupportedVersion
          then (claims, Some (VerificationError UnsupportedVersion))
          else
     (case digest_error (InputDigest lib) InputDigestMismatch (Value (Input claims))
             (InputVaultText opts) (ExpectedInputDigest opts) of
        Some err \<Rightarrow> with_claims claims err
      | None \<Rightarrow>
     (case digest_error (OutputDigest lib) OutputDigestMismatch (Value (Output claims))
             (OutputVaultText opts) (ExpectedOutputDigest opts) of
        Some err \<Rightarrow> with_claims claims err
      | None \<Rightarrow>
          (case ExpectedBinding opts of
             None \<Rightarrow> (claims, None)
           | Some expected \<Rightarrow>
               if bindingMatches (claims_Binding claims) expected then (claims, None)
               else (claims, Some (VerificationError BindingMismatch))))))))))"

definition VerifyJSON :: "proof_lib \<Rightarrow> go_bytes \<Rightarrow> VerifyOptions \<Rightarrow> RotationClaims \<times> att_error option" where
  "VerifyJSON lib data opts =
     (case Parse data of
        Inl _ \<Rightarrow> (zero_RotationClaims, Some ErrMalformed)
      | Inr signed \<Rightarrow> Verify lib signed opts)"

definition VerifyAgainstEnvelopes ::
  "proof_lib \<Rightarrow> Signed \<Rightarrow> string \<Rightarrow> string \<Rightarrow> Binding option \<Rightarrow> VerifyOptions \<Rightarrow>
     RotationClaims \<times> att_error option" where
  "VerifyAgainstEnvelopes lib signed input output expectedBinding opts =
     Verify lib signed
       (opts\<lparr>InputVaultText := input, OutputVaultText := output, ExpectedBinding := expectedBinding\<rparr>)"

section \<open>Laws of the parameters\<close>

text \<open>RFC 8785 orders the members of every object by name (for ASCII names, by their bytes).\<close>

fun jcs_sort :: "jsonValue \<Rightarrow> jsonValue"
  and sort_members :: "(string \<times> jsonValue) list \<Rightarrow> (string \<times> jsonValue) list"
  and sort_elements :: "jsonValue list \<Rightarrow> jsonValue list" where
  "jcs_sort (JObject ms) = JObject (sort_key fst (sort_members ms))"
| "jcs_sort (JArray vs) = JArray (sort_elements vs)"
| "jcs_sort v = v"
| "sort_members [] = []"
| "sort_members ((n, v) # ms) = (n, jcs_sort v) # sort_members ms"
| "sort_elements [] = []"
| "sort_elements (v # vs) = jcs_sort v # sort_elements vs"

text \<open>Values with ASCII member names whose numbers are integers a double represents exactly.\<close>

fun jcs_plain :: "jsonValue \<Rightarrow> bool"
  and members_plain :: "(string \<times> jsonValue) list \<Rightarrow> bool"
  and elements_plain :: "jsonValue list \<Rightarrow> bool" where
  "jcs_plain (JObject ms) = members_plain ms"
| "jcs_plain (JArray vs) = elements_plain vs"
| "jcs_plain (JNumber n) \<longleftrightarrow> (\<exists>k \<le> nat MaxJCSSafeInteger. n = decimal k)"
| "jcs_plain v = True"
| "members_plain [] = True"
| "members_plain ((n, v) # ms) \<longleftrightarrow> is_ascii n \<and> jcs_plain v \<and> members_plain ms"
| "elements_plain [] = True"
| "elements_plain (v # vs) \<longleftrightarrow> jcs_plain v \<and> elements_plain vs"

text \<open>What the documentation of the library functions promises: the sizes of hashes and
  signatures, and that \<open>jcs.Transform\<close> returns the canonical text of the value it is given.\<close>

definition proof_lib_ok :: "proof_lib \<Rightarrow> bool" where
  "proof_lib_ok lib \<longleftrightarrow>
     (\<forall>m. length (sha256_Sum lib m) = 32) \<and>
     (\<forall>k m. length (ed25519_Sign lib k m) = 64) \<and>
     (\<forall>data v. parseStrictJSON data = Some v \<longrightarrow> jcs_plain v \<longrightarrow>
        jcs_Transform lib data = Some (render jcs_chars (jcs_sort v)))"

text \<open>A key pair: what is signed with the private key verifies with the public one.\<close>

definition key_pair :: "proof_lib \<Rightarrow> go_bytes \<Rightarrow> go_bytes \<Rightarrow> bool" where
  "key_pair lib pub priv \<longleftrightarrow>
     length pub = ed25519_PublicKeySize \<and> length priv = ed25519_PrivateKeySize \<and>
     (\<forall>m. ed25519_Verify lib pub m (ed25519_Sign lib priv m))"

section \<open>Lemmas\<close>

subsection \<open>Canonical JSON\<close>

lemma members_wf_iff: "members_wf d ms \<longleftrightarrow> (\<forall>(n, v) \<in> set ms. utf8_valid n \<and> json_wf d v)"
  by (induction ms) auto

lemma members_plain_iff: "members_plain ms \<longleftrightarrow> (\<forall>(n, v) \<in> set ms. is_ascii n \<and> jcs_plain v)"
  by (induction ms) auto

lemma sort_members_map: "sort_members ms = map (\<lambda>(n, v). (n, jcs_sort v)) ms"
  by (induction ms) auto

lemma sort_elements_map: "sort_elements vs = map jcs_sort vs"
  by (induction vs) auto

lemma elements_iff:
  "elements_wf d vs \<longleftrightarrow> (\<forall>v \<in> set vs. json_wf d v)" "elements_plain vs \<longleftrightarrow> (\<forall>v \<in> set vs. jcs_plain v)"
  by (induction vs) auto

lemma fst_sort_members [simp]: "map fst (sort_members ms) = map fst ms"
  by (auto simp: sort_members_map comp_def case_prod_beta)

lemma distinct_sort_key: "distinct (map f (sort_key f xs)) = distinct (map f xs)"
  by (induction xs) (auto simp: distinct_insort_key)

lemma jcs_sort_wf_all:
  "json_wf d v \<Longrightarrow> json_wf d (jcs_sort v)"
  "members_wf d ms \<Longrightarrow> members_wf d (sort_members ms)"
  "elements_wf d vs \<Longrightarrow> elements_wf d (sort_elements vs)"
proof (induction d v and d ms and d vs rule: json_wf_members_wf_elements_wf.induct)
  case (1 d ms)
  then have "members_wf (Suc d) (sort_members ms)" by simp
  then have "members_wf (Suc d) (sort_key fst (sort_members ms))" by (simp add: members_wf_iff)
  then show ?case using 1(2) by (simp add: distinct_sort_key)
qed auto

lemma jcs_sort_plain_all:
  "jcs_plain v \<Longrightarrow> jcs_plain (jcs_sort v)"
  "members_plain ms \<Longrightarrow> members_plain (sort_members ms)"
  "elements_plain vs \<Longrightarrow> elements_plain (sort_elements vs)"
proof (induction v and ms and vs rule: jcs_plain_members_plain_elements_plain.induct)
  case (1 ms)
  then have "members_plain (sort_members ms)" by simp
  then show ?case by (simp add: members_plain_iff)
qed auto

lemma sort_key_sorted: "sort_key f (sort_key f xs) = sort_key f xs"
  by (simp add: sort_key_id_if_sorted)

lemma insort_members:
  "sort_members (insort_key fst (n, v) ms) = insort_key fst (n, jcs_sort v) (sort_members ms)"
  by (induction ms) (auto simp: sort_members_map)

lemma sort_members_sort_key:
  "sort_members (sort_key fst ms) = sort_key fst (sort_members ms)"
  by (induction ms) (auto simp: insort_members)

lemma jcs_sort_idem_all:
  "jcs_sort (jcs_sort v) = jcs_sort v"
  "sort_members (sort_members ms) = sort_members ms"
  "sort_elements (sort_elements vs) = sort_elements vs"
  by (induction v and ms and vs rule: jcs_sort_sort_members_sort_elements.induct)
    (auto simp: sort_members_sort_key sort_key_sorted)

text \<open>The three facts about a canonical text: the transformation produces it, the strict parser
  reads the sorted value from it, and the transformation keeps it.\<close>

lemma canonical_text:
  assumes "proof_lib_ok lib" "json_wf 0 v" "jcs_plain v"
  shows "jcs_Transform lib (render marshal_chars v) = Some (render jcs_chars (jcs_sort v))"
    "parseStrictJSON (render jcs_chars (jcs_sort v)) = Some (jcs_sort v)"
    "jcs_Transform lib (render jcs_chars (jcs_sort v)) = Some (render jcs_chars (jcs_sort v))"
proof -
  note wf = jcs_sort_wf_all(1) [OF assms(2)] and plain = jcs_sort_plain_all(1) [OF assms(3)]
  show "parseStrictJSON (render jcs_chars (jcs_sort v)) = Some (jcs_sort v)"
    by (rule canonical.strict_render [OF wf])
  then show "jcs_Transform lib (render jcs_chars (jcs_sort v)) = Some (render jcs_chars (jcs_sort v))"
    using assms(1) plain jcs_sort_idem_all(1) [of v] unfolding proof_lib_ok_def by metis
  show "jcs_Transform lib (render marshal_chars v) = Some (render jcs_chars (jcs_sort v))"
    using assms(1,3) marshal.strict_render [OF assms(2)] unfolding proof_lib_ok_def by metis
qed

lemma map_of_sort_members: "map_of (sort_members ms) n = map_option jcs_sort (map_of ms n)"
  by (induction ms) (auto simp: sort_members_map)

lemma member_jcs_sort:
  assumes "distinct (map fst ms)"
  shows "member (jcs_sort (JObject ms)) n = map_option jcs_sort (map_of ms n)"
proof -
  have "distinct (map fst (sort_key fst (sort_members ms)))" "distinct (map fst (sort_members ms))"
    using assms by (simp_all add: distinct_sort_key)
  from map_of_inject_set [OF this] have "map_of (sort_key fst (sort_members ms)) = map_of (sort_members ms)"
    by simp
  then show ?thesis by (simp add: member_def map_of_sort_members)
qed

lemma hasOnlyMembers_jcs_sort [simp]:
  "hasOnlyMembers (jcs_sort (JObject ms)) allowed = hasOnlyMembers (JObject ms) allowed"
  by (auto simp: hasOnlyMembers_def list_all_iff sort_members_map)

lemma render_not_nil: "json_wf d v \<Longrightarrow> render esc v \<noteq> []"
  using render_head [of d v esc] by auto

subsection \<open>Validated fields\<close>

lemma hex_rune_ascii: "validLowerHexDigest v \<Longrightarrow> is_ascii v"
  unfolding validLowerHexDigest_def
  by (rule runes_ascii_iff) (auto simp: list_all_iff hex_rune_def)

lemma validKID_ascii: "validKID v \<Longrightarrow> is_ascii v"
  unfolding validKID_def by (rule runes_ascii_iff) (auto simp: list_all_iff kid_rune_def)

lemma hex_digest_valid: "validLowerHexDigest v \<longleftrightarrow> length v = 64 \<and> list_all is_lower_hex v"
proof
  assume v: "validLowerHexDigest v"
  then show "length v = 64 \<and> list_all is_lower_hex v"
    using runes_ascii [OF hex_rune_ascii [OF v]]
    by (auto simp: validLowerHexDigest_def list_all_iff hex_rune_def is_lower_hex_def Let_def)
next
  assume v: "length v = 64 \<and> list_all is_lower_hex v"
  then have "is_ascii v" by (auto simp: is_ascii_def list_all_iff is_lower_hex_def Let_def)
  from runes_ascii [OF this] v show "validLowerHexDigest v"
    by (auto simp: validLowerHexDigest_def list_all_iff hex_rune_def is_lower_hex_def Let_def)
qed

lemma validateBinding_None:
  "validateBinding lib b = None \<Longrightarrow>
     list_all (\<lambda>v. v \<noteq> [] \<longrightarrow> validBoundString v) (binding_fields b) \<and> list_ex (\<lambda>v. v \<noteq> []) (binding_fields b)"
  by (auto simp: validateBinding_def list_all_iff list_ex_iff split: if_splits option.splits)

lemma validateDigest_None:
  "validateDigest d = None \<longleftrightarrow> Algorithm d = ''sha-256'' \<and> validLowerHexDigest (Value d)"
  by (simp add: validateDigest_def)

lemma validateClaims_None:
  "validateClaims lib c = None \<longleftrightarrow>
     0 \<le> Version c \<and> Version c \<le> MaxJCSSafeInteger \<and> validIssuer lib (Issuer c) \<and>
     validTimestamp (IssuedAt c) \<and> Operation c = ''rotate'' \<and> IsValidProfileID (SourceProfileID c) \<and>
     IsValidProfileID (DestinationProfileID c) \<and> validateDigest (Input c) = None \<and>
     validateDigest (Output c) = None \<and> (\<forall>b. claims_Binding c = Some b \<longrightarrow> validateBinding lib b = None)"
  by (auto simp: validateClaims_def split: option.splits)

subsection \<open>Claims and their text\<close>

lemma requiredString_sort:
  "distinct (map fst ms) \<Longrightarrow> map_of ms n = Some (JString s) \<Longrightarrow>
     requiredStringMember (jcs_sort (JObject ms)) n = Some s"
  unfolding requiredStringMember_def by (simp add: member_jcs_sort del: jcs_sort.simps) simp

lemma optionalString_sort:
  "distinct (map fst ms) \<Longrightarrow> map_of ms n = (if s = [] then None else Some (JString s)) \<Longrightarrow>
     optionalStringMember (jcs_sort (JObject ms)) n = Some s"
  unfolding optionalStringMember_def by (simp add: member_jcs_sort del: jcs_sort.simps) simp

lemma parseDigest_value:
  assumes "validateDigest d = None"
  shows "parseDigest (jcs_sort (digest_value d)) = Some d"
  using assms unfolding parseDigest_def digest_value_def hasOnlyMembers_jcs_sort
  by (cases d) (simp add: requiredString_sort hasOnlyMembers_def digestMembers_def Let_def del: jcs_sort.simps)

definition binding_members :: "Binding \<Rightarrow> (string \<times> jsonValue) list" where
  "binding_members b =
     (if Repository b = [] then [] else [(''repository'', JString (Repository b))]) @
     (if Revision b = [] then [] else [(''revision'', JString (Revision b))]) @
     (if Path b = [] then [] else [(''path'', JString (Path b))]) @
     (if Selector b = [] then [] else [(''selector'', JString (Selector b))])"

lemma binding_value_members: "binding_value b = JObject (binding_members b)"
  by (simp add: binding_value_def binding_members_def bindingMembers_def binding_fields_def)

lemma binding_members_facts:
  "distinct (map fst (binding_members b))"
  "map_of (binding_members b) ''repository'' = (if Repository b = [] then None else Some (JString (Repository b)))"
  "map_of (binding_members b) ''revision'' = (if Revision b = [] then None else Some (JString (Revision b)))"
  "map_of (binding_members b) ''path'' = (if Path b = [] then None else Some (JString (Path b)))"
  "map_of (binding_members b) ''selector'' = (if Selector b = [] then None else Some (JString (Selector b)))"
  "hasOnlyMembers (JObject (binding_members b)) bindingMembers"
  by (simp_all add: binding_members_def hasOnlyMembers_def bindingMembers_def)

lemma parseBinding_value:
  assumes "validateBinding lib b = None"
  shows "parseBinding lib (jcs_sort (binding_value b)) = Some b"
proof -
  have "validateBinding lib \<lparr>Repository = Repository b, Revision = Revision b, Path = Path b, Selector = Selector b\<rparr> = None"
    using assms by (cases b) simp
  then show ?thesis
    using assms unfolding parseBinding_def binding_value_members hasOnlyMembers_jcs_sort
    by (simp add: optionalString_sort binding_members_facts Let_def del: jcs_sort.simps)
qed

lemma binding_value_ok:
  assumes "list_all (\<lambda>v. v \<noteq> [] \<longrightarrow> validBoundString v) (binding_fields b)" "d < 2"
  shows "json_wf d (binding_value b) \<and> jcs_plain (binding_value b)"
  using assms binding_members_facts(1) [of b]
  unfolding binding_value_members
  by (auto simp: binding_members_def maxAttestationJSONContainerDepth_def binding_fields_def validBoundString_def)

lemma digest_value_ok:
  assumes "validateDigest x = None" "d < 2"
  shows "json_wf d (digest_value x) \<and> jcs_plain (digest_value x)"
  using assms hex_rune_ascii utf8_valid_ascii
  by (auto simp: digest_value_def validateDigest_None maxAttestationJSONContainerDepth_def)

lemma version_number:
  assumes "0 \<le> v" "v \<le> MaxJCSSafeInteger"
  shows "validVersionNumber (decimal (nat v))" "strconv_ParseInt (decimal (nat v)) = Some v"
proof -
  have d: "list_all is_json_digit (decimal (nat v))" by (rule decimal_digits)
  have h: "is_json_digit (hd (decimal (nat v)))" using d by (cases "decimal (nat v)") (auto simp: decimal_not_nil)
  then have m: "hd (decimal (nat v)) \<noteq> CHR ''-''" by (auto simp: is_json_digit_def)
  have c: "\<not> strings_ContainsAny (decimal (nat v)) ''.eE''"
    using d by (auto simp: strings_ContainsAny_def list_all_iff list_ex_iff is_json_digit_def)
  show "validVersionNumber (decimal (nat v))"
  proof (cases "nat v = 0")
    case True
    then show ?thesis using decimal_zero m c by (simp add: validVersionNumber_def)
  next
    case False
    then show ?thesis using decimal_head [OF False] d h m c by (simp add: validVersionNumber_def)
  qed
  have "nat v < 2 ^ 63" using assms by (simp add: MaxJCSSafeInteger_def)
  then show "strconv_ParseInt (decimal (nat v)) = Some v"
    using assms(1) by (simp add: strconv_ParseInt_def)
qed

definition claims_members :: "RotationClaims \<Rightarrow> (string \<times> jsonValue) list" where
  "claims_members c =
     [(''version'', JNumber (decimal (nat (Version c)))), (''issuer'', JString (Issuer c)),
        (''issuedAt'', JString (IssuedAt c)), (''operation'', JString (Operation c)),
        (''sourceProfileId'', JString (SourceProfileID c)),
        (''destinationProfileId'', JString (DestinationProfileID c)),
        (''input'', digest_value (Input c)), (''output'', digest_value (Output c))] @
      (case claims_Binding c of None \<Rightarrow> [] | Some b \<Rightarrow> [(''binding'', binding_value b)])"

lemma claims_value_members: "claims_value c = JObject (claims_members c)"
  by (simp add: claims_value_def claims_members_def)

lemma claims_members_facts:
  "distinct (map fst (claims_members c))"
  "hasOnlyMembers (JObject (claims_members c)) claimsMembers"
  "map_of (claims_members c) ''version'' = Some (JNumber (decimal (nat (Version c))))"
  "map_of (claims_members c) ''issuer'' = Some (JString (Issuer c))"
  "map_of (claims_members c) ''issuedAt'' = Some (JString (IssuedAt c))"
  "map_of (claims_members c) ''operation'' = Some (JString (Operation c))"
  "map_of (claims_members c) ''sourceProfileId'' = Some (JString (SourceProfileID c))"
  "map_of (claims_members c) ''destinationProfileId'' = Some (JString (DestinationProfileID c))"
  "map_of (claims_members c) ''input'' = Some (digest_value (Input c))"
  "map_of (claims_members c) ''output'' = Some (digest_value (Output c))"
  "map_of (claims_members c) ''binding'' = map_option binding_value (claims_Binding c)"
  by (simp_all add: claims_members_def hasOnlyMembers_def claimsMembers_def split: option.split)

lemma claims_value_ok:
  assumes "validateClaims lib c = None"
  shows "json_wf 0 (claims_value c) \<and> jcs_plain (claims_value c)"
proof -
  have v: "0 \<le> Version c" "Version c \<le> MaxJCSSafeInteger" "utf8_valid (Issuer c)" "utf8_valid (IssuedAt c)"
      "Operation c = ''rotate''" "is_ascii (SourceProfileID c)" "is_ascii (DestinationProfileID c)"
      "validateDigest (Input c) = None" "validateDigest (Output c) = None"
    and b: "\<And>b. claims_Binding c = Some b \<Longrightarrow> validateBinding lib b = None"
    using assms by (auto simp: validateClaims_None validIssuer_def validTimestamp_def valid_id_ascii)
  have "json_wf 1 (binding_value b) \<and> jcs_plain (binding_value b)" if "claims_Binding c = Some b" for b
    using binding_value_ok [of b 1] validateBinding_None [OF b [OF that]] by simp
  moreover have "nat (Version c) \<le> nat MaxJCSSafeInteger" using v(2) by simp
  moreover note digest_value_ok [OF v(8), of 1] digest_value_ok [OF v(9), of 1]
  ultimately show ?thesis
    using v claims_members_facts(1) [of c]
    unfolding claims_value_members
    by (auto simp: claims_members_def parseNumber_decimal maxAttestationJSONContainerDepth_def utf8_valid_ascii
        split: option.split)
qed

lemma parseClaims_sorted:
  assumes "validateClaims lib c = None" "parseStrictJSON data = Some (jcs_sort (claims_value c))"
  shows "parseClaims lib data = Some c"
proof -
  let ?v = "jcs_sort (JObject (claims_members c))"
  note m = member_jcs_sort [OF claims_members_facts(1) [of c]]
  note d = claims_members_facts(1)
  have ver: "parse_version ?v = Some (Version c)"
    using assms(1) version_number [of "Version c"]
    unfolding parse_version_def m by (simp add: claims_members_facts validateClaims_None)
  have str: "requiredStringMember ?v ''issuer'' = Some (Issuer c)"
      "requiredStringMember ?v ''issuedAt'' = Some (IssuedAt c)"
      "requiredStringMember ?v ''operation'' = Some (Operation c)"
      "requiredStringMember ?v ''sourceProfileId'' = Some (SourceProfileID c)"
      "requiredStringMember ?v ''destinationProfileId'' = Some (DestinationProfileID c)"
    by (intro requiredString_sort d; simp add: claims_members_facts)+
  have dig: "Option.bind (member ?v ''input'') parseDigest = Some (Input c)"
      "Option.bind (member ?v ''output'') parseDigest = Some (Output c)"
    using assms(1) parseDigest_value [of "Input c"] parseDigest_value [of "Output c"]
    unfolding m by (simp_all add: claims_members_facts validateClaims_None)
  have bin: "parse_optional_binding lib ?v = Some (claims_Binding c)"
    using assms(1) parseBinding_value [of lib]
    unfolding parse_optional_binding_def m
    by (cases "claims_Binding c") (simp_all add: claims_members_facts validateClaims_None)
  have only: "hasOnlyMembers ?v claimsMembers" unfolding hasOnlyMembers_jcs_sort by (rule claims_members_facts)
  show ?thesis
    using assms only ver str dig bin unfolding parseClaims_def claims_value_members
    by (cases c) (simp add: Let_def del: jcs_sort.simps)
qed

lemma canonicalClaims_roundtrip:
  assumes "proof_lib_ok lib" "validateClaims lib c = None"
  shows "\<exists>bytes. canonicalClaims lib c = Some bytes \<and> parseCanonicalClaims lib bytes = Some c \<and> bytes \<noteq> []"
proof -
  have ok: "json_wf 0 (claims_value c)" "jcs_plain (claims_value c)" using claims_value_ok [OF assms(2)] by auto
  note t = canonical_text [OF assms(1) ok]
  have "parseClaims lib (render jcs_chars (jcs_sort (claims_value c))) = Some c"
    by (rule parseClaims_sorted [OF assms(2) t(2)])
  then show ?thesis
    using assms(2) t(1,3) render_not_nil [OF jcs_sort_wf_all(1) [OF ok(1)]]
    by (simp add: canonicalClaims_def parseCanonicalClaims_def)
qed

subsection \<open>Headers and components\<close>

lemma equal_fold_refl: "equal_fold_from a a"
  by (induction a rule: measure_induct_rule [of length]) (case_tac x, simp, simp add: Let_def)

lemma stringsEqualFoldASCII_refl: "stringsEqualFoldASCII a a"
  by (simp add: stringsEqualFoldASCII_def equal_fold_refl)

text \<open>Against an ASCII string, the comparison is equality of the strings with ASCII upper case
  folded; bytes inside a longer rune are never compared, but such a rune fails at its first byte.\<close>

lemma fold_byte_high: "0x80 \<le> (of_char c :: nat) \<longleftrightarrow> 0x80 \<le> fold_byte c"
  by (simp add: fold_byte_def Let_def)

lemma equal_fold_ascii:
  assumes "is_ascii b" "length a = length b"
  shows "equal_fold_from a b \<longleftrightarrow> map fold_byte a = map fold_byte b"
  using assms
proof (induction a arbitrary: b)
  case Nil
  then show ?case by simp
next
  case (Cons c a)
  obtain d b' where b: "b = d # b'" using Cons(3) by (cases b) auto
  show ?case
  proof (cases "(of_char c :: nat) < 0x80")
    case True
    then have "rune_size (c # a) = 1" using rune_size_one [of c a] by simp
    then show ?thesis using Cons b by (simp add: Let_def)
  next
    case False
    then have "fold_byte c \<noteq> fold_byte d"
      using Cons(2) fold_byte_high [of c] fold_byte_high [of d] b by auto
    then show ?thesis using b by (simp add: Let_def)
  qed
qed

definition header_for :: "string \<Rightarrow> protectedHeader" where
  "header_for kid = \<lparr>Alg = attestationAlgorithm, Kid = kid, Typ = attestationType\<rparr>"

lemma header_value_ok:
  "validKID kid \<Longrightarrow> json_wf 0 (header_value (header_for kid)) \<and> jcs_plain (header_value (header_for kid))"
  using utf8_valid_ascii [OF validKID_ascii]
  by (simp add: header_value_def header_for_def attestationAlgorithm_def attestationType_def
      maxAttestationJSONContainerDepth_def)

lemma canonicalProtected_roundtrip:
  assumes "proof_lib_ok lib" "validKID kid"
  shows "\<exists>bytes. canonicalProtectedHeader lib (header_for kid) = Some bytes \<and>
    parseCanonicalProtected lib bytes = Some (header_for kid) \<and> bytes \<noteq> []"
proof -
  have ok: "json_wf 0 (header_value (header_for kid))" "jcs_plain (header_value (header_for kid))"
    using header_value_ok [OF assms(2)] by auto
  note t = canonical_text [OF assms(1) ok]
  let ?ms = "[(''alg'', JString attestationAlgorithm), (''kid'', JString kid), (''typ'', JString attestationType)]"
  let ?v = "jcs_sort (JObject ?ms)"
  have v: "header_value (header_for kid) = JObject ?ms" by (simp add: header_value_def header_for_def)
  have str: "requiredStringMember ?v ''alg'' = Some attestationAlgorithm"
      "requiredStringMember ?v ''kid'' = Some kid" "requiredStringMember ?v ''typ'' = Some attestationType"
    by (intro requiredString_sort; simp)+
  have ne: "attestationType \<noteq> []" by (simp add: attestationType_def)
  have only: "hasOnlyMembers ?v protectedMembers"
    unfolding hasOnlyMembers_jcs_sort by (simp add: hasOnlyMembers_def protectedMembers_def)
  have "parseCanonicalProtected lib (render jcs_chars ?v) = Some (header_for kid)"
    using assms(2) str only t(2,3) [unfolded v] stringsEqualFoldASCII_refl [of attestationType] ne
    unfolding parseCanonicalProtected_def header_for_def by (simp del: jcs_sort.simps)
  then show ?thesis
    using t(1) render_not_nil [OF jcs_sort_wf_all(1) [OF ok(1)]]
    unfolding v canonicalProtectedHeader_def by blast
qed

lemma decodeStrict_encode [simp]:
  "bs \<noteq> [] \<Longrightarrow> decodeStrictBase64URL (encodeBase64URL bs) = Some bs"
  by (simp add: decodeStrictBase64URL_def encodeBase64URL_def strings_ContainsRune_def encode_plain)

lemma decodeStrict_exact:
  "decodeStrictBase64URL v = Some bs \<longleftrightarrow> bs \<noteq> [] \<and> v = encodeBase64URL bs"
proof
  assume "decodeStrictBase64URL v = Some bs"
  then show "bs \<noteq> [] \<and> v = encodeBase64URL bs"
    by (auto simp: decodeStrictBase64URL_def encodeBase64URL_def split: if_splits option.splits)
qed auto

lemma components_encoded:
  assumes "p \<noteq> []" "q \<noteq> []" "length s = 64"
  shows "decodeEncodedComponents \<lparr>Protected = encodeBase64URL p, Payload = encodeBase64URL q,
       Signature = encodeBase64URL s\<rparr> = Some (p, q, s)"
proof -
  have "s \<noteq> []" using assms(3) by auto
  then show ?thesis using assms by (simp add: decodeEncodedComponents_def)
qed

lemma components_exact:
  "decodeEncodedComponents x = Some (p, q, s) \<longleftrightarrow>
     p \<noteq> [] \<and> q \<noteq> [] \<and> length s = 64 \<and> Protected x = encodeBase64URL p \<and>
     Payload x = encodeBase64URL q \<and> Signature x = encodeBase64URL s" (is "?l \<longleftrightarrow> ?r")
proof
  assume ?l
  then show ?r by (auto simp: decodeEncodedComponents_def decodeStrict_exact split: option.splits if_splits)
next
  assume ?r
  then show ?l using components_encoded [of p q s] by (cases x) simp
qed

text \<open>The successful runs of \<open>Sign\<close>.\<close>

lemma Sign_ok:
  assumes "proof_lib_ok lib" "validateSigningClaims lib claims = None" "validKID kid"
    "length priv = ed25519_PrivateKeySize"
  shows "\<exists>p q. Sign lib claims kid priv = Inr \<lparr>Protected = encodeBase64URL p, Payload = encodeBase64URL q,
      Signature = encodeBase64URL (ed25519_Sign lib priv (encodeBase64URL p @ CHR ''.'' # encodeBase64URL q))\<rparr> \<and>
    p \<noteq> [] \<and> q \<noteq> [] \<and> parseCanonicalProtected lib p = Some (header_for kid) \<and>
    parseCanonicalClaims lib q = Some claims"
proof -
  have c: "validateClaims lib claims = None"
    using assms(2) by (auto simp: validateSigningClaims_def split: option.splits)
  obtain p where p: "canonicalProtectedHeader lib (header_for kid) = Some p"
      "parseCanonicalProtected lib p = Some (header_for kid)" "p \<noteq> []"
    using canonicalProtected_roundtrip [OF assms(1,3)] by blast
  obtain q where q: "canonicalClaims lib claims = Some q" "parseCanonicalClaims lib q = Some claims" "q \<noteq> []"
    using canonicalClaims_roundtrip [OF assms(1) c] by blast
  show ?thesis using assms p q by (auto simp: Sign_def Let_def header_for_def)
qed

lemma signed_value_ok:
  "utf8_valid (Protected s) \<Longrightarrow> utf8_valid (Payload s) \<Longrightarrow> utf8_valid (Signature s) \<Longrightarrow>
     json_wf 0 (signed_value s) \<and> jcs_plain (signed_value s)"
  by (simp add: signed_value_def maxAttestationJSONContainerDepth_def)

lemma encode_utf8: "utf8_valid (encodeBase64URL bs)"
  unfolding encodeBase64URL_def by (rule utf8_valid_ascii [OF encode_plain(3)])

lemma Marshal_Parse:
  assumes "proof_lib_ok lib" "decodeEncodedComponents s \<noteq> None"
  shows "\<exists>wire. Marshal lib s = Some wire \<and> Parse wire = Inr s"
proof -
  obtain p q sg where d: "Protected s = encodeBase64URL p" "Payload s = encodeBase64URL q"
      "Signature s = encodeBase64URL sg"
    using assms(2) by (auto simp: components_exact)
  have ok: "json_wf 0 (signed_value s)" "jcs_plain (signed_value s)"
    using signed_value_ok [of s] d encode_utf8 by auto
  note t = canonical_text [OF assms(1) ok]
  let ?ms = "[(''protected'', JString (Protected s)), (''payload'', JString (Payload s)), (''signature'', JString (Signature s))]"
  have str: "requiredStringMember (jcs_sort (JObject ?ms)) ''protected'' = Some (Protected s)"
      "requiredStringMember (jcs_sort (JObject ?ms)) ''payload'' = Some (Payload s)"
      "requiredStringMember (jcs_sort (JObject ?ms)) ''signature'' = Some (Signature s)"
    by (intro requiredString_sort; simp)+
  have only: "hasOnlyMembers (jcs_sort (JObject ?ms)) signedMembers"
    unfolding hasOnlyMembers_jcs_sort by (simp add: hasOnlyMembers_def signedMembers_def)
  have "Parse (render jcs_chars (jcs_sort (signed_value s))) = Inr s"
    using t(2) str only assms(2) unfolding Parse_def signed_value_def
    by (cases s) (simp add: Let_def del: jcs_sort.simps)
  then show ?thesis using t(1) by (simp add: Marshal_def MarshalJSON_def)
qed

subsection \<open>Verification\<close>

text \<open>What holds once the signature of an attestation has been checked.\<close>

definition signature_checked ::
  "proof_lib \<Rightarrow> Signed \<Rightarrow> VerifyOptions \<Rightarrow> RotationClaims \<Rightarrow> KeyResolution \<Rightarrow> bool" where
  "signature_checked lib signed opts claims key \<longleftrightarrow>
     validateVerifyOptions lib opts = None \<and> Issuer claims = ExpectedIssuer opts \<and>
     (\<exists>protectedBytes payloadBytes signature hdr.
        decodeEncodedComponents signed = Some (protectedBytes, payloadBytes, signature) \<and>
        parseCanonicalProtected lib protectedBytes = Some hdr \<and>
        parseCanonicalClaims lib payloadBytes = Some claims \<and>
        the (Resolver opts) (ExpectedIssuer opts) (Kid hdr) = Some key \<and>
        length (PublicKey key) = ed25519_PublicKeySize \<and>
        ed25519_Verify lib (PublicKey key) (Protected signed @ CHR ''.'' # Payload signed) signature)"

definition digests_agree :: "proof_lib \<Rightarrow> VerifyOptions \<Rightarrow> RotationClaims \<Rightarrow> bool" where
  "digests_agree lib opts claims \<longleftrightarrow>
     digest_error (InputDigest lib) InputDigestMismatch (Value (Input claims))
       (InputVaultText opts) (ExpectedInputDigest opts) = None \<and>
     digest_error (OutputDigest lib) OutputDigestMismatch (Value (Output claims))
       (OutputVaultText opts) (ExpectedOutputDigest opts) = None"

lemma Verify_checked:
  assumes "signature_checked lib signed opts claims key"
  shows "Verify lib signed opts =
    (if Revoked key then (claims, Some (VerificationError KeyRevoked))
     else if Version claims \<noteq> SupportedVersion then (claims, Some (VerificationError UnsupportedVersion))
     else (case digest_error (InputDigest lib) InputDigestMismatch (Value (Input claims))
             (InputVaultText opts) (ExpectedInputDigest opts) of
        Some err \<Rightarrow> with_claims claims err
      | None \<Rightarrow> (case digest_error (OutputDigest lib) OutputDigestMismatch (Value (Output claims))
             (OutputVaultText opts) (ExpectedOutputDigest opts) of
          Some err \<Rightarrow> with_claims claims err
        | None \<Rightarrow> (case ExpectedBinding opts of
             None \<Rightarrow> (claims, None)
           | Some expected \<Rightarrow>
               if bindingMatches (claims_Binding claims) expected then (claims, None)
               else (claims, Some (VerificationError BindingMismatch))))))"
  using assms unfolding signature_checked_def by (auto simp: Verify_def Let_def)

lemma Verify_unchecked:
  assumes "\<nexists>claims key. signature_checked lib signed opts claims key"
  shows "\<exists>err. Verify lib signed opts = (zero_RotationClaims, Some err) \<and>
    err \<in> {ErrInvalidVerifyOptions, ErrMalformed, VerificationError IssuerMismatch,
           VerificationError UnknownKey, VerificationError SignatureInvalid}"
proof (cases "validateVerifyOptions lib opts")
  case (Some e)
  then have "e = ErrInvalidVerifyOptions" by (auto simp: validateVerifyOptions_def split: option.splits if_splits)
  then show ?thesis using Some by (simp add: Verify_def)
next
  case opts: None
  show ?thesis
  proof (cases "\<exists>p q sg hdr claims. decodeEncodedComponents signed = Some (p, q, sg) \<and>
      parseCanonicalProtected lib p = Some hdr \<and> parseCanonicalClaims lib q = Some claims")
    case True
    then obtain p q sg hdr claims where c: "decodeEncodedComponents signed = Some (p, q, sg)"
      "parseCanonicalProtected lib p = Some hdr" "parseCanonicalClaims lib q = Some claims" by blast
    have "\<not> signature_checked lib signed opts claims key" for key using assms by blast
    then show ?thesis using opts c unfolding signature_checked_def
      by (cases "the (Resolver opts) (ExpectedIssuer opts) (Kid hdr)") (auto simp: Verify_def Let_def)
  next
    case False
    then show ?thesis using opts by (auto simp: Verify_def split: option.split prod.split)
  qed
qed

lemma with_claims_not_ok [simp]: "with_claims claims err \<noteq> (c, None)"
  by (simp add: with_claims_def)

lemma Verify_success:
  "Verify lib signed opts = (claims, None) \<longleftrightarrow>
     (\<exists>key. signature_checked lib signed opts claims key \<and> \<not> Revoked key \<and>
        Version claims = SupportedVersion \<and> digests_agree lib opts claims \<and>
        (\<forall>expected. ExpectedBinding opts = Some expected \<longrightarrow> bindingMatches (claims_Binding claims) expected))"
  (is "?l \<longleftrightarrow> ?r")
proof
  assume l: ?l
  then obtain c key where "signature_checked lib signed opts c key"
    using Verify_unchecked [of lib signed opts] by fastforce
  note k = this and v = Verify_checked [OF this]
  have "c = claims" "\<not> Revoked key" "Version c = SupportedVersion" "digests_agree lib opts c"
      "\<forall>expected. ExpectedBinding opts = Some expected \<longrightarrow> bindingMatches (claims_Binding c) expected"
    using l unfolding v digests_agree_def by (auto split: if_splits option.splits)
  then show ?r using k by blast
next
  assume ?r
  then show ?l using Verify_checked unfolding digests_agree_def by (fastforce split: option.split)
qed

lemma digest_error_cases:
  "digest_error f m claimed envelope expected = Some err \<Longrightarrow> err = ErrMalformed \<or> err = VerificationError m"
  by (auto simp: digest_error_def split: option.splits if_splits)

lemma digest_error_None:
  "digest_error f m claimed envelope expected = None \<longleftrightarrow>
     (if envelope \<noteq> [] then f envelope = Some claimed else expected \<noteq> [] \<longrightarrow> claimed = expected)"
  by (auto simp: digest_error_def split: option.split)

lemma InputDigest_Some:
  "InputDigest lib v = Some d \<longleftrightarrow>
     (\<exists>canonical. CanonicalEnvelope v = Inr canonical \<and> d = hex_EncodeToString (sha256_Sum lib (inputDigestDomain @ canonical)))"
  by (auto simp: InputDigest_def digestCanonical_def split: sum.splits)

lemma OutputDigest_Some:
  "OutputDigest lib v = Some d \<longleftrightarrow>
     (\<exists>canonical. CanonicalEnvelope v = Inr canonical \<and> d = hex_EncodeToString (sha256_Sum lib (outputDigestDomain @ canonical)))"
  by (auto simp: OutputDigest_def digestCanonical_def split: sum.splits)

lemma hex_inj: "hex_EncodeToString a = hex_EncodeToString b \<Longrightarrow> a = b"
  using hex_roundtrip by (metis option.inject)

lemma hex_sum_valid: "proof_lib_ok lib \<Longrightarrow> validLowerHexDigest (hex_EncodeToString (sha256_Sum lib m))"
  by (simp add: hex_digest_valid proof_lib_ok_def hex_Encode_lower)

lemma domains_differ: "inputDigestDomain @ a \<noteq> outputDigestDomain @ b"
  by (simp add: inputDigestDomain_def outputDigestDomain_def)

text \<open>Two messages that collide.\<close>

definition sha256_collision :: "proof_lib \<Rightarrow> go_bytes \<Rightarrow> go_bytes \<Rightarrow> bool" where
  "sha256_collision lib m m' \<longleftrightarrow> m \<noteq> m' \<and> sha256_Sum lib m = sha256_Sum lib m'"

lemma Sign_checked:
  assumes "proof_lib_ok lib" "key_pair lib pub priv" "validateSigningClaims lib claims = None" "validKID kid"
    and "validateVerifyOptions lib opts = None" "ExpectedIssuer opts = Issuer claims"
    and "the (Resolver opts) (Issuer claims) kid = Some key" "PublicKey key = pub"
  shows "\<exists>s. Sign lib claims kid priv = Inr s \<and> decodeEncodedComponents s \<noteq> None \<and>
    signature_checked lib s opts claims key"
proof -
  obtain p q where s: "Sign lib claims kid priv = Inr \<lparr>Protected = encodeBase64URL p, Payload = encodeBase64URL q,
      Signature = encodeBase64URL (ed25519_Sign lib priv (encodeBase64URL p @ CHR ''.'' # encodeBase64URL q))\<rparr>"
      "p \<noteq> []" "q \<noteq> []" "parseCanonicalProtected lib p = Some (header_for kid)"
      "parseCanonicalClaims lib q = Some claims"
    using Sign_ok [OF assms(1,3,4)] assms(2) unfolding key_pair_def by blast
  have "length (ed25519_Sign lib priv (encodeBase64URL p @ CHR ''.'' # encodeBase64URL q)) = 64"
    using assms(1) by (simp add: proof_lib_ok_def)
  note d = components_encoded [OF s(2,3) this]
  then show ?thesis
    using s assms(2,5-8) by (simp add: signature_checked_def header_for_def key_pair_def)
qed

section \<open>Properties\<close>

text \<open>C16. What the service signs, verifies: valid version 1 claims signed under a key pair give a
  flattened JWS that survives its JSON form, and that verifies to exactly these claims with a
  resolver that returns the public key for their issuer and key id, against the envelopes whose
  digests the claims carry and any expected binding they match.\<close>

theorem sign_verify_roundtrip:
  assumes "proof_lib_ok lib" "key_pair lib pub priv" "validateSigningClaims lib claims = None" "validKID kid"
    and "resolver (Issuer claims) kid = Some \<lparr>PublicKey = pub, Revoked = False\<rparr>"
    and "InputDigest lib src = Some (Value (Input claims))" "OutputDigest lib dst = Some (Value (Output claims))"
    and "case expected of None \<Rightarrow> True | Some b \<Rightarrow> validateBinding lib b = None \<and> bindingMatches (claims_Binding claims) b"
  shows "\<exists>signed wire. Sign lib claims kid priv = Inr signed \<and>
    Marshal lib signed = Some wire \<and> Parse wire = Inr signed \<and>
    VerifyAgainstEnvelopes lib signed src dst expected
      \<lparr>ExpectedIssuer = Issuer claims, Resolver = Some resolver, ExpectedInputDigest = [],
       ExpectedOutputDigest = [], InputVaultText = [], OutputVaultText = [], ExpectedBinding = None\<rparr>
      = (claims, None)"
proof -
  let ?o = "\<lparr>ExpectedIssuer = Issuer claims, Resolver = Some resolver, ExpectedInputDigest = [],
       ExpectedOutputDigest = [], InputVaultText = src, OutputVaultText = dst, ExpectedBinding = expected\<rparr>"
  have c: "validateClaims lib claims = None" "Version claims = SupportedVersion"
    using assms(3) by (auto simp: validateSigningClaims_def split: option.splits if_splits)
  have "validateVerifyOptions lib ?o = None"
    using c(1) assms(8) by (auto simp: validateVerifyOptions_def validateClaims_None split: option.splits)
  then obtain s where s: "Sign lib claims kid priv = Inr s" "decodeEncodedComponents s \<noteq> None"
      "signature_checked lib s ?o claims \<lparr>PublicKey = pub, Revoked = False\<rparr>"
    using Sign_checked [OF assms(1-4), where opts = ?o and key = "\<lparr>PublicKey = pub, Revoked = False\<rparr>"] assms(5)
    by auto
  have "digests_agree lib ?o claims"
    using assms(6,7) by (auto simp: digests_agree_def digest_error_def)
  then have "Verify lib s ?o = (claims, None)"
    using s(3) c(2) assms(8) unfolding Verify_success by (intro exI) (auto split: option.splits)
  then show ?thesis using s Marshal_Parse [OF assms(1) s(2)] by (auto simp: VerifyAgainstEnvelopes_def)
qed

text \<open>C28. What verification accepts: the resolver returned a key that is not revoked for the
  expected issuer and the key id of the protected header, that key verifies the signature over
  the two components exactly as they were transmitted, the payload is in canonical form and
  decodes to the returned claims, which are valid, of version 1 and issued by the expected
  issuer, and the expected binding is matched. An envelope that is given has the claimed digest; an
  empty one is not looked at, and then the claimed digest is the expected digest of the options, if
  they name one, and unchecked if they do not.\<close>

theorem verify_sound:
  assumes "VerifyAgainstEnvelopes lib signed src dst expected opts = (claims, None)"
  shows "Issuer claims = ExpectedIssuer opts \<and> Version claims = 1 \<and> validateClaims lib claims = None \<and>
    (if src \<noteq> [] then InputDigest lib src = Some (Value (Input claims))
     else ExpectedInputDigest opts \<noteq> [] \<longrightarrow> Value (Input claims) = ExpectedInputDigest opts) \<and>
    (if dst \<noteq> [] then OutputDigest lib dst = Some (Value (Output claims))
     else ExpectedOutputDigest opts \<noteq> [] \<longrightarrow> Value (Output claims) = ExpectedOutputDigest opts) \<and>
    (\<forall>b. expected = Some b \<longrightarrow> bindingMatches (claims_Binding claims) b) \<and>
    (\<exists>p q sg kid key.
       Protected signed = encodeBase64URL p \<and> Payload signed = encodeBase64URL q \<and>
       Signature signed = encodeBase64URL sg \<and>
       map_option Kid (parseCanonicalProtected lib p) = Some kid \<and> parseClaims lib q = Some claims \<and>
       jcs_Transform lib q = Some q \<and>
       the (Resolver opts) (ExpectedIssuer opts) kid = Some key \<and> \<not> Revoked key \<and>
       ed25519_Verify lib (PublicKey key) (Protected signed @ CHR ''.'' # Payload signed) sg)"
proof -
  let ?o = "opts\<lparr>InputVaultText := src, OutputVaultText := dst, ExpectedBinding := expected\<rparr>"
  obtain key where k: "signature_checked lib signed ?o claims key" "\<not> Revoked key"
      "Version claims = SupportedVersion" "digests_agree lib ?o claims"
      "\<forall>b. expected = Some b \<longrightarrow> bindingMatches (claims_Binding claims) b"
    using assms(1) unfolding VerifyAgainstEnvelopes_def Verify_success by auto
  have d: "if src \<noteq> [] then InputDigest lib src = Some (Value (Input claims))
      else ExpectedInputDigest opts \<noteq> [] \<longrightarrow> Value (Input claims) = ExpectedInputDigest opts"
    "if dst \<noteq> [] then OutputDigest lib dst = Some (Value (Output claims))
      else ExpectedOutputDigest opts \<noteq> [] \<longrightarrow> Value (Output claims) = ExpectedOutputDigest opts"
    using k(4) by (simp_all add: digests_agree_def digest_error_None)
  obtain p q sg hdr where c: "decodeEncodedComponents signed = Some (p, q, sg)"
      "parseCanonicalProtected lib p = Some hdr" "parseCanonicalClaims lib q = Some claims"
      "the (Resolver opts) (ExpectedIssuer opts) (Kid hdr) = Some key"
      "ed25519_Verify lib (PublicKey key) (Protected signed @ CHR ''.'' # Payload signed) sg"
      "Issuer claims = ExpectedIssuer opts"
    using k(1) by (auto simp: signature_checked_def)
  have q: "parseClaims lib q = Some claims" "jcs_Transform lib q = Some q"
    using c(3) by (auto simp: parseCanonicalClaims_def split: option.splits if_splits)
  have "validateClaims lib claims = None"
    using q(1) by (auto simp: parseClaims_def Let_def split: option.splits if_splits)
  then show ?thesis
    using k d c q components_exact [of signed p q sg] by (simp add: SupportedVersion_def) blast
qed

text \<open>Claims are revealed only after the signature: whatever claims \<open>Verify\<close> returns, with or
  without an error, are the zero claims or those of a payload whose signature verified under a
  key of the expected issuer; without such a signature the error is one of five that carry no
  claims.\<close>

lemma verify_claims_after_signature:
  assumes "Verify lib signed opts = (claims, err)"
  shows "(claims = zero_RotationClaims \<and>
      err \<in> {Some ErrInvalidVerifyOptions, Some ErrMalformed, Some (VerificationError IssuerMismatch),
             Some (VerificationError UnknownKey), Some (VerificationError SignatureInvalid)}) \<or>
    (\<exists>key. signature_checked lib signed opts claims key \<and>
      (err = Some (VerificationError KeyRevoked) \<longleftrightarrow> Revoked key))"
proof (cases "\<exists>claims key. signature_checked lib signed opts claims key")
  case False
  then show ?thesis using Verify_unchecked [of lib signed opts] assms by auto
next
  case True
  then obtain c key where k: "signature_checked lib signed opts c key" by blast
  have "claims = c \<and> (err = Some (VerificationError KeyRevoked) \<longleftrightarrow> Revoked key) \<or>
      claims = zero_RotationClaims \<and> err = Some ErrMalformed"
  proof -
    define d1 where "d1 = digest_error (InputDigest lib) InputDigestMismatch (Value (Input c))
      (InputVaultText opts) (ExpectedInputDigest opts)"
    define d2 where "d2 = digest_error (OutputDigest lib) OutputDigestMismatch (Value (Output c))
      (OutputVaultText opts) (ExpectedOutputDigest opts)"
    have d: "d1 \<in> {None, Some ErrMalformed, Some (VerificationError InputDigestMismatch)}"
      "d2 \<in> {None, Some ErrMalformed, Some (VerificationError OutputDigestMismatch)}"
      using digest_error_cases unfolding d1_def d2_def by (metis insertCI option.exhaust)+
    show ?thesis
      using assms d unfolding Verify_checked [OF k, folded d1_def d2_def]
      by (cases "Revoked key"; cases "ExpectedBinding opts") (auto simp: with_claims_def split: if_splits)
  qed
  then show ?thesis using k by blast
qed

text \<open>Digests bind envelopes in their role: every envelope with a canonical text has both
  digests, 64 lower-case hexadecimal digits each; two envelopes with equal input digests have the
  same canonical text and decrypt alike under every password, or exhibit a SHA-256 collision; an
  input digest equal to an output digest always exhibits one, so exchanging the two claims of a
  rotation cannot verify.\<close>

lemma digest_domain_separation:
  assumes "proof_lib_ok lib" "CanonicalEnvelope x = Inr cx" "CanonicalEnvelope y = Inr cy"
  shows "(\<exists>d. InputDigest lib x = Some d \<and> validLowerHexDigest d) \<and>
    (\<exists>d. OutputDigest lib x = Some d \<and> validLowerHexDigest d) \<and>
    (InputDigest lib x = InputDigest lib y \<longrightarrow>
       cx = cy \<and> (\<forall>c password. Decrypt c x password = Decrypt c y password) \<or>
       sha256_collision lib (inputDigestDomain @ cx) (inputDigestDomain @ cy)) \<and>
    (InputDigest lib x = OutputDigest lib y \<longrightarrow>
       sha256_collision lib (inputDigestDomain @ cx) (outputDigestDomain @ cy))"
proof -
  have x: "InputDigest lib x = Some (hex_EncodeToString (sha256_Sum lib (inputDigestDomain @ cx)))"
      "OutputDigest lib x = Some (hex_EncodeToString (sha256_Sum lib (outputDigestDomain @ cx)))"
    and y: "InputDigest lib y = Some (hex_EncodeToString (sha256_Sum lib (inputDigestDomain @ cy)))"
      "OutputDigest lib y = Some (hex_EncodeToString (sha256_Sum lib (outputDigestDomain @ cy)))"
    using assms(2,3) by (simp_all add: InputDigest_Some OutputDigest_Some)
  have "Decrypt c x password = Decrypt c y password" if "cx = cy" for c password
    using that assms(2,3) vault.unseal_canonical by metis
  then show ?thesis
    using hex_inj [of "sha256_Sum lib (inputDigestDomain @ cx)"] hex_sum_valid [OF assms(1)] domains_differ [of cx cy]
    unfolding sha256_collision_def x y by auto
qed

text \<open>A library that satisfies the laws: constant hashes and signatures, one fixed origin, and a
  canonicalisation built from the strict parser.\<close>

definition demo_url :: parsed_url where
  "demo_url = \<lparr>Scheme = ''https'', Host = ''vault.example'', has_User = False, Opaque = [], url_Path = [],
     RawPath = [], RawQuery = [], ForceQuery = False, Fragment = [], Hostname = ''vault.example''\<rparr>"

definition demo_lib :: proof_lib where
  "demo_lib = \<lparr>sha256_Sum = (\<lambda>_. replicate 32 (CHR 0x00)), ed25519_Sign = (\<lambda>_ _. replicate 64 (CHR 0x01)),
     ed25519_Verify = (\<lambda>_ _ sg. sg = replicate 64 (CHR 0x01)),
     url_Parse = (\<lambda>u. if u = ''https://vault.example'' then Some demo_url else None),
     jcs_Transform = (\<lambda>data. map_option (\<lambda>v. render jcs_chars (jcs_sort v)) (parseStrictJSON data))\<rparr>"

lemma demo_lib_ok [simp]: "proof_lib_ok demo_lib"
  by (simp add: proof_lib_ok_def demo_lib_def)

definition demo_hex :: string where "demo_hex = replicate 64 (CHR ''0'')"

definition demo_claims :: RotationClaims where
  "demo_claims = \<lparr>Version = 1, Issuer = ''https://vault.example'', IssuedAt = ''2024-01-02T03:04:05.25Z'',
     Operation = ''rotate'', SourceProfileID = ''dev'', DestinationProfileID = ''prod'',
     Input = \<lparr>Algorithm = ''sha-256'', Value = demo_hex\<rparr>, Output = \<lparr>Algorithm = ''sha-256'', Value = demo_hex\<rparr>,
     claims_Binding = None\<rparr>"

lemma demo_timestamp: "validTimestamp ''2024-01-02T03:04:05.25Z''"
  by code_simp

lemma demo_issuer: "validIssuer demo_lib ''https://vault.example''"
  by (simp add: validIssuer_def demo_lib_def demo_url_def strings_ContainsAny_def utf8_valid_ascii)

lemma demo_hex_valid: "validLowerHexDigest demo_hex"
  by (simp add: hex_digest_valid demo_hex_def is_lower_hex_def list_all_iff)

lemma demo_ids: "IsValidProfileID ''dev''" "IsValidProfileID ''prod''"
  by code_simp+

lemma demo_claims_valid: "validateSigningClaims demo_lib demo_claims = None"
proof -
  have "validateClaims demo_lib demo_claims = None"
    using demo_timestamp demo_issuer demo_hex_valid demo_ids
    by (simp add: validateClaims_None demo_claims_def validateDigest_None MaxJCSSafeInteger_def)
  then show ?thesis by (simp add: validateSigningClaims_def SupportedVersion_def demo_claims_def)
qed

lemma demo_kid: "validKID ''k1''"
  by code_simp

lemma demo_digests:
  "InputDigest demo_lib demo_text = Some demo_hex" "OutputDigest demo_lib demo_text = Some demo_hex"
proof -
  have "hex_EncodeToString (replicate 32 (CHR 0x00)) = demo_hex" by code_simp
  then show "InputDigest demo_lib demo_text = Some demo_hex" "OutputDigest demo_lib demo_text = Some demo_hex"
    using demo_text_canonical by (auto simp: InputDigest_Some OutputDigest_Some demo_lib_def)
qed

definition demo_options :: VerifyOptions where
  "demo_options = \<lparr>ExpectedIssuer = ''https://vault.example'',
     Resolver = Some (\<lambda>_ _. Some \<lparr>PublicKey = replicate 32 (CHR 0x02), Revoked = False\<rparr>),
     ExpectedInputDigest = [], ExpectedOutputDigest = [], InputVaultText = [], OutputVaultText = [],
     ExpectedBinding = None\<rparr>"

lemma demo_roundtrip_premises:
  "key_pair demo_lib (replicate 32 (CHR 0x02)) (replicate 64 (CHR 0x03))"
  "InputDigest demo_lib demo_text = Some (Value (Input demo_claims))"
  "OutputDigest demo_lib demo_text = Some (Value (Output demo_claims))"
  "Issuer demo_claims = ''https://vault.example''"
  using demo_digests
  by (simp_all add: key_pair_def ed25519_PublicKeySize_def ed25519_PrivateKeySize_def demo_claims_def)
    (simp add: demo_lib_def)

theorem sign_verify_roundtrip_witness:
  "\<exists>signed. Sign demo_lib demo_claims ''k1'' (replicate 64 (CHR 0x03)) = Inr signed \<and>
     VerifyAgainstEnvelopes demo_lib signed demo_text demo_text None demo_options = (demo_claims, None)"
  using sign_verify_roundtrip [OF demo_lib_ok demo_roundtrip_premises(1) demo_claims_valid demo_kid,
      where resolver = "\<lambda>_ _. Some \<lparr>PublicKey = replicate 32 (CHR 0x02), Revoked = False\<rparr>"
        and src = demo_text and dst = demo_text and expected = None]
    demo_roundtrip_premises
  by (auto simp: demo_options_def)

lemma demo_checked:
  "\<exists>s. signature_checked demo_lib s
     (demo_options\<lparr>InputVaultText := demo_text, OutputVaultText := demo_text\<rparr>) demo_claims
     \<lparr>PublicKey = replicate 32 (CHR 0x02), Revoked = False\<rparr>"
proof -
  let ?o = "demo_options\<lparr>InputVaultText := demo_text, OutputVaultText := demo_text\<rparr>"
  have "validateVerifyOptions demo_lib ?o = None"
    using demo_issuer by (simp add: validateVerifyOptions_def demo_options_def)
  from Sign_checked [OF demo_lib_ok demo_roundtrip_premises(1) demo_claims_valid demo_kid this]
  show ?thesis by (force simp: demo_options_def demo_claims_def)
qed

lemma demo_verifies:
  "\<exists>s. VerifyAgainstEnvelopes demo_lib s demo_text demo_text None demo_options = (demo_claims, None)"
proof -
  let ?o = "demo_options\<lparr>InputVaultText := demo_text, OutputVaultText := demo_text\<rparr>"
  have "digests_agree demo_lib ?o demo_claims"
    using demo_roundtrip_premises(2,3) by (auto simp: digests_agree_def digest_error_def demo_options_def)
  moreover have "Version demo_claims = SupportedVersion" by (simp add: demo_claims_def SupportedVersion_def)
  moreover have "?o\<lparr>ExpectedBinding := None\<rparr> = ?o" by (simp add: demo_options_def)
  ultimately show ?thesis
    using demo_checked unfolding VerifyAgainstEnvelopes_def Verify_success
    by (fastforce simp: demo_options_def)
qed

theorem verify_sound_witness:
  "\<exists>s p q sg. VerifyAgainstEnvelopes demo_lib s demo_text demo_text None demo_options = (demo_claims, None) \<and>
     Protected s = encodeBase64URL p \<and> Payload s = encodeBase64URL q \<and> parseClaims demo_lib q = Some demo_claims \<and>
     ed25519_Verify demo_lib (replicate 32 (CHR 0x02)) (Protected s @ CHR ''.'' # Payload s) sg"
proof -
  obtain s where s: "VerifyAgainstEnvelopes demo_lib s demo_text demo_text None demo_options = (demo_claims, None)"
    using demo_verifies by blast
  from verify_sound [OF s] s show ?thesis by (auto simp: demo_options_def)
qed

end
