(* ===== verification/Vault_Service.thy ===== *)
theory Vault_Service
  imports Admission Authz Attestation
begin

text \<open>
  The vault service, \<open>backend/internal/vaultservice\<close>: \<open>errors.go\<close>, \<open>service.go\<close> and
  \<open>attestation_service.go\<close>.

  An operation is prepared (admission, shape, authorisation, resolution and value checks) and then
  run once. Contexts may be cancelled at any moment: every reading of a context happens at its own
  instant, and an operation takes the instant at which it starts as an argument. The policy file
  and the key ring may change as well, so the authoriser and the attestation manager also take the
  instant of the call. \<open>delivered\<close> says when the runtime has run the function that passes the
  cancellation of the caller's context on to a merged context.
\<close>

subsection \<open>Errors\<close>

datatype Code =
    CodeInvalidRequest | CodeTooLarge | CodeNotFound | CodeForbidden | CodeNotReady
  | CodeOperationFailed | CodeTemporarilyUnavailable | CodeFeatureUnavailable
  | CodeAttestationUnavailable | CodeAttestationBusy

datatype error_cause =
    CauseContext ctx_err | CauseVerifierSaturated | CauseAttestation att_error | CauseGeneration string

text \<open>\<open>Error\<close> carries a code, a message and possibly a safe cause; \<open>PolicyDenied\<close> wraps an error of
  the package; verification failures of package attestation are passed on.\<close>

datatype svc_error =
    SvcError Code string "error_cause option"
  | PolicyDenied svc_error
  | AttestationFailure att_error

fun HasCode :: "svc_error \<Rightarrow> Code \<Rightarrow> bool" where
  "HasCode (SvcError c _ _) code \<longleftrightarrow> c = code"
| "HasCode (PolicyDenied e) code \<longleftrightarrow> HasCode e code"
| "HasCode (AttestationFailure _) code \<longleftrightarrow> False"

fun IsPolicyDenied :: "svc_error \<Rightarrow> bool" where
  "IsPolicyDenied (PolicyDenied _) = True"
| "IsPolicyDenied _ = False"

definition errorWithCode :: "Code \<Rightarrow> string \<Rightarrow> svc_error" where
  "errorWithCode code message = SvcError code message None"

definition invalidRequest :: "string \<Rightarrow> svc_error" where
  "invalidRequest message = errorWithCode CodeInvalidRequest message"

definition invalidAttestationRequest :: "att_error \<Rightarrow> svc_error" where
  "invalidAttestationRequest cause =
     SvcError CodeInvalidRequest ''invalid attestation verification request'' (Some (CauseAttestation cause))"

definition tooLarge :: svc_error where
  "tooLarge = errorWithCode CodeTooLarge ''value is too large''"

definition notFound :: svc_error where
  "notFound = errorWithCode CodeNotFound ''profile was not found''"

definition forbidden :: svc_error where
  "forbidden = errorWithCode CodeForbidden ''operation is not permitted''"

definition policyDenied :: svc_error where
  "policyDenied = PolicyDenied forbidden"

definition notReady :: "string \<Rightarrow> svc_error" where
  "notReady message = errorWithCode CodeNotReady message"

definition operationFailed :: svc_error where
  "operationFailed = errorWithCode CodeOperationFailed ''vault operation failed''"

definition temporarilyUnavailable :: "ctx_cause option \<Rightarrow> svc_error" where
  "temporarilyUnavailable cause =
     SvcError CodeTemporarilyUnavailable ''service is temporarily unavailable''
       (case cause of
          Some (CauseErr Canceled) \<Rightarrow> Some (CauseContext Canceled)
        | Some (CauseErr DeadlineExceeded) \<Rightarrow> Some (CauseContext DeadlineExceeded)
        | _ \<Rightarrow> None)"

definition featureUnavailable :: svc_error where
  "featureUnavailable = errorWithCode CodeFeatureUnavailable ''rotation attestations are disabled''"

definition attestationUnavailable :: svc_error where
  "attestationUnavailable =
     errorWithCode CodeAttestationUnavailable ''rotation attestation service is unavailable''"

definition attestationBusy :: svc_error where
  "attestationBusy =
     SvcError CodeAttestationBusy ''rotation attestation verification is busy'' (Some CauseVerifierSaturated)"

lemmas svc_errors = errorWithCode_def invalidRequest_def invalidAttestationRequest_def tooLarge_def
  notFound_def forbidden_def policyDenied_def notReady_def operationFailed_def
  temporarilyUnavailable_def featureUnavailable_def attestationUnavailable_def attestationBusy_def

subsection \<open>Data\<close>

definition service_MaxVaultTextBytes :: nat where "service_MaxVaultTextBytes = 5 * 2 ^ 20"

definition ScopeProfileRead :: string where "ScopeProfileRead = ''vaultsmith.profile.read''"
definition ScopeEncrypt :: string where "ScopeEncrypt = ''vaultsmith.encrypt''"
definition ScopeDecrypt :: string where "ScopeDecrypt = ''vaultsmith.decrypt''"
definition ScopeRotate :: string where "ScopeRotate = ''vaultsmith.rotate''"
definition ScopeAttestationVerify :: string where
  "ScopeAttestationVerify = ''vaultsmith.attestation.verify''"

text \<open>\<open>Operation\<close> is a string type; every other string is \<open>OperationOther\<close>.\<close>

datatype Operation = OperationEncrypt | OperationDecrypt | OperationRotate | OperationOther string

definition RequiredScope :: "Operation \<Rightarrow> string option" where
  "RequiredScope oper =
     (case oper of
        OperationEncrypt \<Rightarrow> Some ScopeEncrypt
      | OperationDecrypt \<Rightarrow> Some ScopeDecrypt
      | OperationRotate \<Rightarrow> Some ScopeRotate
      | OperationOther _ \<Rightarrow> None)"

record service_Capabilities =
  cap_Encrypt :: bool
  cap_Decrypt :: bool
  cap_RotateSource :: bool
  cap_RotateDestination :: bool
  cap_RotateDestinationIDs :: "string list"

definition zero_Capabilities :: service_Capabilities where
  "zero_Capabilities = \<lparr>cap_Encrypt = False, cap_Decrypt = False, cap_RotateSource = False,
     cap_RotateDestination = False, cap_RotateDestinationIDs = []\<rparr>"

record Profile =
  pr_ID :: string
  pr_Label :: string
  pr_Capabilities :: service_Capabilities

record AttestationRequest =
  ar_Binding :: "Binding option"

record Command =
  cmd_Operation :: Operation
  cmd_ProfileID :: string
  cmd_SourceProfileID :: string
  cmd_DestinationProfileID :: string
  cmd_Value :: string
  cmd_Attestation :: "AttestationRequest option"

record RotationResult =
  rr_VaultText :: string
  rr_Attestation :: "Signed option"

text \<open>The manager as the service sees it at each instant; the service never looks at which error a
  method returned, so an error is \<open>None\<close>. Discovery is an interface of its own, which a manager
  need not implement.\<close>

record AttestationDiscovery =
  dsc_MetadataJSON :: "nat \<Rightarrow> go_bytes option"
  dsc_JWKSJSON :: "nat \<Rightarrow> go_bytes option"

record AttestationManager =
  mgr_Ready :: "nat \<Rightarrow> bool"
  mgr_Issuer :: "nat \<Rightarrow> string"
  mgr_Sign :: "nat \<Rightarrow> RotationClaims \<Rightarrow> Signed option"
  mgr_Resolve :: "nat \<Rightarrow> KeyResolver"
  mgr_discovery :: "AttestationDiscovery option"

record catalogEntry =
  ce_profile :: Profile
  ce_executor :: "ProfileExecutor option"

type_synonym service_authorizer = "nat \<Rightarrow> Caller \<Rightarrow> Check list \<Rightarrow> authz_error + bool list"

record Service =
  svc_profiles :: "catalogEntry list"
  svc_byID :: "string \<rightharpoonup> catalogEntry"
  svc_authorizer :: "service_authorizer option"
  svc_admission :: "nat option"
  svc_ready :: bool
  svc_attestation :: "AttestationManager option"
  svc_attestationEnabled :: bool
  svc_verifierAdmission :: "nat option"

text \<open>\<open>started\<close> is a pointer to an atomic flag: \<open>None\<close> when it is nil.\<close>

record PreparedOperation =
  po_service :: "Service option"
  po_lease :: "nat option"
  po_context :: ctx
  po_actor :: Caller
  po_operation :: Operation
  po_value :: string
  po_source :: "ProfileExecutor option"
  po_destination :: "ProfileExecutor option"
  po_sourceID :: string
  po_destinationID :: string
  po_attestation :: "AttestationRequest option"
  po_started :: "bool option"

subsection \<open>Construction\<close>

text \<open>The loop over the profiles: entries so far, the map and the ready flag.\<close>

fun build_catalog ::
  "(string \<Rightarrow> ProfileExecutor option) option \<Rightarrow> Profile list \<Rightarrow>
     catalogEntry list \<times> (string \<rightharpoonup> catalogEntry) \<times> bool \<Rightarrow>
     catalogEntry list \<times> (string \<rightharpoonup> catalogEntry) \<times> bool" where
  "build_catalog forProfile [] acc = acc"
| "build_catalog forProfile (input # rest) (entries, byID, rdy) =
     (let profile = \<lparr>pr_ID = pr_ID input, pr_Label = pr_Label input, pr_Capabilities = zero_Capabilities\<rparr>;
          ready1 = (if \<not> IsValidProfileID (pr_ID profile) \<or> strings_TrimSpace (pr_Label profile) = []
                    then False else rdy);
          ready2 = (if byID (pr_ID profile) \<noteq> None then False else ready1);
          bound = (case forProfile of None \<Rightarrow> None | Some resolve \<Rightarrow> resolve (pr_ID profile));
          ready3 = (if bound = None then False else ready2);
          entry = \<lparr>ce_profile = profile, ce_executor = bound\<rparr>
      in build_catalog forProfile rest (entries @ [entry], byID(pr_ID profile \<mapsto> entry), ready3))"

text \<open>The admissions are given by their addresses; a nil admission is replaced by a new runtime
  admission, whose address is \<open>runtime\<close> (\<open>runtimeVerifier\<close> for the verifier).\<close>

definition NewWithOptions ::
  "Profile list \<Rightarrow> (string \<Rightarrow> ProfileExecutor option) option \<Rightarrow> service_authorizer option \<Rightarrow> nat option \<Rightarrow>
     AttestationManager option \<Rightarrow> bool \<Rightarrow> nat option \<Rightarrow> nat \<Rightarrow> nat \<Rightarrow> Service" where
  "NewWithOptions profs forProfile authorizer adm manager enabled verifier runtime runtimeVerifier =
     (let adm1 = (case adm of None \<Rightarrow> Some runtime | Some a \<Rightarrow> Some a);
          verifier1 = (case verifier of None \<Rightarrow> Some runtimeVerifier | Some a \<Rightarrow> Some a);
          ready0 = (profs \<noteq> [] \<and> forProfile \<noteq> None \<and> adm1 \<noteq> None)
      in case build_catalog forProfile profs ([], Map.empty, ready0) of
           (entries, byID, rdy) \<Rightarrow>
             \<lparr>svc_profiles = entries, svc_byID = byID, svc_authorizer = authorizer, svc_admission = adm1,
              svc_ready = rdy, svc_attestation = manager, svc_attestationEnabled = enabled,
              svc_verifierAdmission = verifier1\<rparr>)"

definition New ::
  "Profile list \<Rightarrow> (string \<Rightarrow> ProfileExecutor option) option \<Rightarrow> service_authorizer option \<Rightarrow> nat option \<Rightarrow>
     nat \<Rightarrow> nat \<Rightarrow> Service" where
  "New profs forProfile authorizer adm runtime runtimeVerifier =
     NewWithOptions profs forProfile authorizer adm None False None runtime runtimeVerifier"

definition Ready :: "Service option \<Rightarrow> bool" where
  "Ready s = (case s of None \<Rightarrow> False | Some svc \<Rightarrow> svc_ready svc)"

definition AttestationEnabled :: "Service option \<Rightarrow> nat \<Rightarrow> bool" where
  "AttestationEnabled s t =
     (case s of None \<Rightarrow> False
      | Some svc \<Rightarrow> svc_attestationEnabled svc \<and>
          (case svc_attestation svc of None \<Rightarrow> False | Some m \<Rightarrow> mgr_Ready m t))"

subsection \<open>Contexts\<close>

definition contextError :: "ctx \<Rightarrow> nat \<Rightarrow> svc_error option" where
  "contextError c t =
     (case contextCancellation c t of None \<Rightarrow> None | Some err \<Rightarrow> Some (temporarilyUnavailable (Some err)))"

definition leaseBoundContextError :: "ctx \<Rightarrow> nat option \<Rightarrow> nat \<Rightarrow> svc_error option" where
  "leaseBoundContextError c lease t =
     (case lease of
        None \<Rightarrow> contextError c t
      | Some _ \<Rightarrow>
          (case contextErr lease c t of
             None \<Rightarrow> None
           | Some err \<Rightarrow> Some (temporarilyUnavailable (Some err))))"

text \<open>The caller's context is read at \<open>t\<close>, the merged one after it.\<close>

definition leaseMergedContextError :: "ctx \<Rightarrow> ctx \<Rightarrow> nat option \<Rightarrow> nat \<Rightarrow> svc_error option" where
  "leaseMergedContextError invocation merged lease t =
     (case leaseBoundContextError invocation lease t of
        Some err \<Rightarrow> Some err
      | None \<Rightarrow> leaseBoundContextError merged lease (t + 1))"

text \<open>An early return with an error.\<close>

definition check_err :: "svc_error option \<Rightarrow> (svc_error + 'a) \<Rightarrow> svc_error + 'a" where
  "check_err err rest = (case err of Some e \<Rightarrow> Inl e | None \<Rightarrow> rest)"

lemma check_err_simps [simp]:
  "check_err None r = r" "check_err (Some e) r = Inl e"
  "check_err err r = Inr x \<longleftrightarrow> err = None \<and> r = Inr x"
  by (auto simp: check_err_def split: option.splits)

subsection \<open>Commands\<close>

definition validateAttestationRequest :: "proof_lib \<Rightarrow> AttestationRequest option \<Rightarrow> svc_error option" where
  "validateAttestationRequest lib request =
     (case request of
        None \<Rightarrow> None
      | Some r \<Rightarrow> (case ar_Binding r of
          None \<Rightarrow> None
        | Some binding \<Rightarrow>
            if list_ex (\<lambda>f. f \<noteq> [] \<and> (1024 < length f \<or> \<not> utf8_valid f \<or> list_ex unicode_IsControl (runes f)))
                 (binding_fields binding)
            then Some (invalidRequest ''attestation binding is invalid'')
            else if list_all (\<lambda>f. f = []) (binding_fields binding)
            then Some (invalidRequest ''attestation binding is invalid'')
            else (case jcs_Transform lib (render marshal_chars (binding_value binding)) of
              None \<Rightarrow> Some (invalidRequest ''attestation binding is invalid'')
            | Some canonical \<Rightarrow>
                if 4096 < length canonical then Some (invalidRequest ''attestation binding is invalid'')
                else None)))"

definition validateCommandShape :: "proof_lib \<Rightarrow> Command \<Rightarrow> svc_error option" where
  "validateCommandShape lib c =
     (case cmd_Operation c of
        OperationOther _ \<Rightarrow> Some (invalidRequest ''operation mode is invalid'')
      | OperationRotate \<Rightarrow>
          if cmd_ProfileID c \<noteq> [] \<or> cmd_SourceProfileID c = [] \<or> cmd_DestinationProfileID c = []
          then Some (invalidRequest ''rotate requires source and destination profiles'')
          else if \<not> IsValidProfileID (cmd_SourceProfileID c) \<or> \<not> IsValidProfileID (cmd_DestinationProfileID c)
          then Some (invalidRequest ''profile ID is invalid'')
          else validateAttestationRequest lib (cmd_Attestation c)
      | _ \<Rightarrow>
          if cmd_Attestation c \<noteq> None then Some (invalidRequest ''attestation is only valid for rotate'')
          else if cmd_SourceProfileID c \<noteq> [] \<or> cmd_DestinationProfileID c \<noteq> []
          then Some (invalidRequest ''source and destination profiles are only valid for rotate'')
          else if \<not> IsValidProfileID (cmd_ProfileID c) then Some (invalidRequest ''profile ID is invalid'')
          else None)"

definition validateCommandValue :: "Command \<Rightarrow> svc_error option" where
  "validateCommandValue c =
     (if \<not> utf8_valid (cmd_Value c) then Some (invalidRequest ''value must be valid UTF-8'')
      else let limit = (if cmd_Operation c \<noteq> OperationEncrypt then service_MaxVaultTextBytes else MaxPlaintextBytes)
        in if limit < length (cmd_Value c) then Some tooLarge else None)"

definition profileAccessError :: "Caller \<Rightarrow> svc_error" where
  "profileAccessError actor = (if kind actor = KindAnonymous then notFound else forbidden)"

record resolvedCommand =
  rc_source :: "ProfileExecutor option"
  rc_destination :: "ProfileExecutor option"

definition resolveCommand :: "Service \<Rightarrow> Caller \<Rightarrow> Command \<Rightarrow> svc_error + resolvedCommand" where
  "resolveCommand s actor c =
     (case cmd_Operation c of
        OperationOther _ \<Rightarrow> Inl (invalidRequest ''operation mode is invalid'')
      | OperationRotate \<Rightarrow>
          (case (svc_byID s (cmd_SourceProfileID c), svc_byID s (cmd_DestinationProfileID c)) of
             (Some source, Some destination) \<Rightarrow>
               if ce_executor source = None \<or> ce_executor destination = None
               then Inl (notReady ''service is not ready'')
               else Inr \<lparr>rc_source = ce_executor source, rc_destination = ce_executor destination\<rparr>
           | _ \<Rightarrow> Inl (profileAccessError actor))
      | _ \<Rightarrow>
          (case svc_byID s (cmd_ProfileID c) of
             None \<Rightarrow> Inl (profileAccessError actor)
           | Some entry \<Rightarrow>
               if ce_executor entry = None then Inl (notReady ''service is not ready'')
               else Inr \<lparr>rc_source = ce_executor entry, rc_destination = None\<rparr>))"

definition operationChecks :: "Command \<Rightarrow> Check list" where
  "operationChecks c =
     (case cmd_Operation c of
        OperationEncrypt \<Rightarrow> [\<lparr>chk_Action = ActionEncrypt, chk_Resource = ProfileResource (cmd_ProfileID c)\<rparr>]
      | OperationDecrypt \<Rightarrow> [\<lparr>chk_Action = ActionDecrypt, chk_Resource = ProfileResource (cmd_ProfileID c)\<rparr>]
      | OperationRotate \<Rightarrow> [\<lparr>chk_Action = ActionRotate,
            chk_Resource = RotationResource (cmd_SourceProfileID c) (cmd_DestinationProfileID c)\<rparr>]
      | OperationOther _ \<Rightarrow> [])"

definition requiredScope :: "Operation \<Rightarrow> svc_error + string" where
  "requiredScope oper =
     (case oper of
        OperationEncrypt \<Rightarrow> Inr ScopeEncrypt
      | OperationDecrypt \<Rightarrow> Inr ScopeDecrypt
      | OperationRotate \<Rightarrow> Inr ScopeRotate
      | OperationOther _ \<Rightarrow> Inl (invalidRequest ''operation mode is invalid''))"

definition Preflight :: "ctx \<Rightarrow> nat \<Rightarrow> Caller \<Rightarrow> Operation \<Rightarrow> svc_error option" where
  "Preflight c t actor oper =
     (case contextError c t of
        Some err \<Rightarrow> Some err
      | None \<Rightarrow> (case requiredScope oper of
          Inl err \<Rightarrow> Some err
        | Inr scope \<Rightarrow> (case kind actor of
            KindAnonymous \<Rightarrow> None
          | KindSession \<Rightarrow> None
          | KindBearer \<Rightarrow> if \<not> HasScope actor scope then Some forbidden else None
          | KindNone \<Rightarrow> Some (notReady ''caller is not ready''))))"

text \<open>\<open>authorize\<close> reads the context at \<open>t\<close> and \<open>t + 2\<close> and asks the authoriser at \<open>t + 1\<close>.\<close>

definition authorize :: "Service \<Rightarrow> ctx \<Rightarrow> nat \<Rightarrow> Caller \<Rightarrow> Command \<Rightarrow> svc_error option" where
  "authorize s c t actor command =
     (if kind actor = KindAnonymous then None
      else (case Preflight c t actor (cmd_Operation command) of
        Some err \<Rightarrow> Some err
      | None \<Rightarrow> (case svc_authorizer s of
          None \<Rightarrow> Some (notReady ''authorization is not ready'')
        | Some evaluate \<Rightarrow>
            let checks = operationChecks command; answer = evaluate (t + 1) actor checks in
            (case contextError c (t + 2) of
               Some err \<Rightarrow> Some err
             | None \<Rightarrow> (case answer of
                 Inl _ \<Rightarrow> Some (notReady ''authorization is not ready'')
               | Inr allowed \<Rightarrow>
                   if length allowed \<noteq> length checks then Some (notReady ''authorization is not ready'')
                   else if list_ex Not allowed then Some policyDenied
                   else None)))))"

subsection \<open>Listing profiles\<close>

definition PreflightProfiles :: "Service option \<Rightarrow> ctx \<Rightarrow> nat \<Rightarrow> Caller \<Rightarrow> svc_error option" where
  "PreflightProfiles s c t actor =
     (case contextError c t of
        Some err \<Rightarrow> Some err
      | None \<Rightarrow>
          if \<not> Ready s then Some (notReady ''service is not ready'')
          else (case kind actor of
            KindAnonymous \<Rightarrow> None
          | KindSession \<Rightarrow> None
          | KindBearer \<Rightarrow> if \<not> HasScope actor ScopeProfileRead then Some forbidden else None
          | KindNone \<Rightarrow> Some (notReady ''caller is not ready'')))"

text \<open>A loop that reads the context once per round, at consecutive instants.\<close>

fun context_loop :: "ctx \<Rightarrow> nat \<Rightarrow> nat \<Rightarrow> svc_error option" where
  "context_loop c t 0 = None"
| "context_loop c t (Suc n) =
     (case contextError c t of Some err \<Rightarrow> Some err | None \<Rightarrow> context_loop c (t + 1) n)"

definition catalog_ids :: "Service \<Rightarrow> string list" where
  "catalog_ids s = map (\<lambda>e. pr_ID (ce_profile e)) (svc_profiles s)"

definition any_capability :: "service_Capabilities \<Rightarrow> bool" where
  "any_capability p \<longleftrightarrow> cap_Encrypt p \<or> cap_Decrypt p \<or> cap_RotateSource p \<or> cap_RotateDestination p"

text \<open>The checks of one listing: the list itself, two per profile, then one per ordered pair.\<close>

definition profile_checks :: "string \<Rightarrow> Check list" where
  "profile_checks pid =
     [\<lparr>chk_Action = ActionEncrypt, chk_Resource = ProfileResource pid\<rparr>,
      \<lparr>chk_Action = ActionDecrypt, chk_Resource = ProfileResource pid\<rparr>]"

definition pair_checks :: "string list \<Rightarrow> string \<Rightarrow> Check list" where
  "pair_checks ids src =
     map (\<lambda>dst. \<lparr>chk_Action = ActionRotate, chk_Resource = RotationResource src dst\<rparr>) ids"

definition listing_checks :: "string list \<Rightarrow> Check list" where
  "listing_checks ids =
     \<lparr>chk_Action = ActionListProfiles, chk_Resource = ResourceProfiles\<rparr> #
     concat (map profile_checks ids) @ concat (map (pair_checks ids) ids)"

definition with_capabilities :: "service_Capabilities \<Rightarrow> catalogEntry \<Rightarrow> Profile" where
  "with_capabilities caps e = (ce_profile e)\<lparr>pr_Capabilities := caps\<rparr>"

text \<open>The capabilities of the profile at a position before rotations are considered.\<close>

definition base_capabilities :: "Caller \<Rightarrow> bool list \<Rightarrow> nat \<Rightarrow> service_Capabilities" where
  "base_capabilities actor allowed i =
     (let enc = allowed ! (1 + i * 2); dec = allowed ! (2 + i * 2);
          bearer = (kind actor = KindBearer)
      in \<lparr>cap_Encrypt = (if bearer then enc \<and> HasScope actor ScopeEncrypt else enc),
          cap_Decrypt = (if bearer then dec \<and> HasScope actor ScopeDecrypt else dec),
          cap_RotateSource = False, cap_RotateDestination = False, cap_RotateDestinationIDs = []\<rparr>)"

text \<open>One allowed pair updates the source and the destination in place.\<close>

definition allow_pair :: "nat \<Rightarrow> nat \<Rightarrow> Profile list \<Rightarrow> Profile list" where
  "allow_pair i j ps =
     (let src = ps ! i;
          caps = pr_Capabilities src;
          ps1 = ps[i := src\<lparr>pr_Capabilities := caps\<lparr>cap_RotateSource := True,
                  cap_RotateDestinationIDs := cap_RotateDestinationIDs caps @ [pr_ID (ps ! j)]\<rparr>\<rparr>];
          dst = ps1 ! j
      in ps1[j := dst\<lparr>pr_Capabilities := (pr_Capabilities dst)\<lparr>cap_RotateDestination := True\<rparr>\<rparr>])"

fun pair_row :: "bool list \<Rightarrow> nat \<Rightarrow> nat \<Rightarrow> nat list \<Rightarrow> Profile list \<Rightarrow> Profile list" where
  "pair_row allowed n i [] ps = ps"
| "pair_row allowed n i (j # js) ps =
     pair_row allowed n i js (if allowed ! (1 + n * 2 + i * n + j) then allow_pair i j ps else ps)"

fun pair_rows :: "bool list \<Rightarrow> nat \<Rightarrow> nat list \<Rightarrow> Profile list \<Rightarrow> Profile list" where
  "pair_rows allowed n [] ps = ps"
| "pair_rows allowed n (i # is) ps = pair_rows allowed n is (pair_row allowed n i [0..<n] ps)"

definition anonymous_profiles :: "Service \<Rightarrow> Profile list" where
  "anonymous_profiles s =
     map (with_capabilities \<lparr>cap_Encrypt = True, cap_Decrypt = True, cap_RotateSource = True,
            cap_RotateDestination = True, cap_RotateDestinationIDs = catalog_ids s\<rparr>) (svc_profiles s)"

text \<open>The context is read in the preflight, once per profile while checks are built, after the
  evaluation, once per profile in each of the two loops over the answers, and at the end. A nil
  service fails the preflight.\<close>

definition ListProfiles :: "Service option \<Rightarrow> ctx \<Rightarrow> nat \<Rightarrow> Caller \<Rightarrow> svc_error + Profile list" where
  "ListProfiles sp c t actor =
     check_err (PreflightProfiles sp c t actor)
     (let s = the sp; n = length (svc_profiles s); t1 = t + 1 in
      case kind actor of
        KindNone \<Rightarrow> Inl (notReady ''caller is not ready'')
      | KindAnonymous \<Rightarrow> check_err (context_loop c t1 n) (Inr (anonymous_profiles s))
      | _ \<Rightarrow>
          (case svc_authorizer s of
             None \<Rightarrow> Inl (notReady ''authorization is not ready'')
           | Some evaluate \<Rightarrow>
               check_err (context_loop c t1 n)
               (let checks = listing_checks (catalog_ids s);
                    t2 = t1 + n;
                    answer = evaluate t2 actor checks;
                    t3 = t2 + 1
                in check_err (contextError c t3)
                   (case answer of
                      Inl _ \<Rightarrow> Inl (notReady ''authorization is not ready'')
                    | Inr allowed \<Rightarrow>
                        if length allowed \<noteq> length checks
                        then Inl (notReady ''authorization is not ready'')
                        else if \<not> allowed ! 0 then Inr []
                        else check_err (context_loop c (t3 + 1) n)
                          (let ps = map (\<lambda>i. with_capabilities (base_capabilities actor allowed i) (svc_profiles s ! i)) [0..<n];
                               t4 = t3 + 1 + n;
                               rotate = (kind actor \<noteq> KindBearer \<or> HasScope actor ScopeRotate)
                           in check_err (if rotate then context_loop c t4 n else None)
                              (let ps1 = (if rotate then pair_rows allowed n [0..<n] ps else ps);
                                   visible = filter (\<lambda>p. any_capability (pr_Capabilities p)) ps1
                               in check_err (contextError c (t4 + n)) (Inr visible)))))))"

subsection \<open>Attestation availability\<close>

definition readyAttestationManager :: "Service option \<Rightarrow> nat \<Rightarrow> svc_error + AttestationManager" where
  "readyAttestationManager sp t =
     (case sp of
        None \<Rightarrow> Inl featureUnavailable
      | Some s \<Rightarrow>
          if \<not> svc_attestationEnabled s then Inl featureUnavailable
          else (case svc_attestation s of
            None \<Rightarrow> Inl attestationUnavailable
          | Some m \<Rightarrow>
              if \<not> mgr_Ready m t \<or> mgr_Issuer m t = [] then Inl attestationUnavailable else Inr m))"

definition attestationRequestAvailable :: "Service option \<Rightarrow> nat \<Rightarrow> svc_error option" where
  "attestationRequestAvailable sp t =
     (case readyAttestationManager sp t of Inl err \<Rightarrow> Some err | Inr _ \<Rightarrow> None)"

definition discoveryReady :: "Service option \<Rightarrow> nat \<Rightarrow> svc_error option" where
  "discoveryReady sp t = (case readyAttestationManager sp t of Inl err \<Rightarrow> Some err | Inr _ \<Rightarrow> None)"

definition verificationManager :: "Service option \<Rightarrow> nat \<Rightarrow> svc_error + AttestationManager" where
  "verificationManager sp t = readyAttestationManager sp t"

definition PreflightAttestationVerify :: "Service option \<Rightarrow> ctx \<Rightarrow> nat \<Rightarrow> Caller \<Rightarrow> svc_error option" where
  "PreflightAttestationVerify sp c t actor =
     (case contextError c t of
        Some err \<Rightarrow> Some err
      | None \<Rightarrow> (case kind actor of
          KindNone \<Rightarrow> Some (notReady ''caller is not ready'')
        | KindBearer \<Rightarrow>
            if \<not> HasScope actor ScopeAttestationVerify then Some forbidden else discoveryReady sp (t + 1)
        | _ \<Rightarrow> discoveryReady sp (t + 1)))"

text \<open>The discovery documents: which of the two is \<open>document\<close>.\<close>

definition discovery_document ::
  "(AttestationDiscovery \<Rightarrow> nat \<Rightarrow> go_bytes option) \<Rightarrow> Service option \<Rightarrow> nat \<Rightarrow> svc_error + go_bytes" where
  "discovery_document document sp t =
     check_err (discoveryReady sp t)
     (case mgr_discovery (the (svc_attestation (the sp))) of
        None \<Rightarrow> Inl attestationUnavailable
      | Some discovery \<Rightarrow> (case document discovery (t + 1) of
          None \<Rightarrow> Inl attestationUnavailable
        | Some data \<Rightarrow> Inr data))"

definition service_MetadataJSON :: "Service option \<Rightarrow> nat \<Rightarrow> svc_error + go_bytes" where
  "service_MetadataJSON sp t = discovery_document dsc_MetadataJSON sp t"

definition service_JWKSJSON :: "Service option \<Rightarrow> nat \<Rightarrow> svc_error + go_bytes" where
  "service_JWKSJSON sp t = discovery_document dsc_JWKSJSON sp t"

definition cloneAttestationRequest :: "AttestationRequest option \<Rightarrow> AttestationRequest option" where
  "cloneAttestationRequest request =
     (case request of
        None \<Rightarrow> None
      | Some r \<Rightarrow> Some \<lparr>ar_Binding = (case ar_Binding r of None \<Rightarrow> None | Some b \<Rightarrow> Some b)\<rparr>)"

subsection \<open>Prepare\<close>

definition Prepare ::
  "proof_lib \<Rightarrow> (nat \<Rightarrow> bool) \<Rightarrow> heap \<Rightarrow> Service option \<Rightarrow> ctx \<Rightarrow> nat \<Rightarrow> Caller \<Rightarrow> Command \<Rightarrow> nat option \<Rightarrow>
     svc_error + PreparedOperation" where
  "Prepare lib delivered h sp c t actor command lease =
     check_err (contextError c t)
     (check_err
       (if cmd_Attestation command \<noteq> None then
          if cmd_Operation command \<noteq> OperationRotate
          then Some (invalidRequest ''attestation is only supported for rotation'')
          else attestationRequestAvailable sp (t + 1)
        else None)
     (check_err (if \<not> Ready sp then Some (notReady ''service is not ready'') else None)
     (check_err (leaseBoundContextError c lease (t + 2))
     (let s = the sp in
      if \<not> liveForContext h lease c (svc_admission s) then Inl (notReady ''operation admission is not ready'')
      else
     (case executionContext h lease of
        None \<Rightarrow> Inl (notReady ''operation admission is not ready'')
      | Some ec \<Rightarrow>
     check_err (leaseBoundContextError (Some ec) lease (t + 3))
     (let pc = Some (mergeCancellationContexts delivered ec (the c));
          live = (\<lambda>u. leaseMergedContextError c pc lease u)
      in check_err (live (t + 4))
     (if kind actor = KindNone then Inl (notReady ''caller is not ready'')
      else
     check_err (live (t + 6))
     (check_err (validateCommandShape lib command)
     (let authorizationErr = authorize s pc (t + 8) actor command in
      check_err (live (t + 11))
     (check_err authorizationErr
     (let resolution = resolveCommand s actor command in
      check_err (live (t + 13))
     (case resolution of
        Inl err \<Rightarrow> Inl err
      | Inr resolved \<Rightarrow>
     check_err (live (t + 15))
     (check_err (validateCommandValue command)
     (check_err (live (t + 17))
     (Inr \<lparr>po_service = Some s, po_lease = lease, po_context = Some ec, po_actor = actor,
           po_operation = cmd_Operation command, po_value = cmd_Value command,
           po_source = rc_source resolved, po_destination = rc_destination resolved,
           po_sourceID = cmd_SourceProfileID command, po_destinationID = cmd_DestinationProfileID command,
           po_attestation = cloneAttestationRequest (cmd_Attestation command),
           po_started = Some False\<rparr>)))))))))))))))"

subsection \<open>Running a prepared operation\<close>

definition validateResult :: "ctx \<Rightarrow> ctx \<Rightarrow> nat option \<Rightarrow> nat \<Rightarrow> string \<Rightarrow> nat \<Rightarrow> svc_error option" where
  "validateResult invocation execution lease t v limit =
     (let valid = (utf8_valid v \<and> length v \<le> limit) in
      case leaseMergedContextError invocation execution lease t of
        Some err \<Rightarrow> Some err
      | None \<Rightarrow> if \<not> valid then Some operationFailed else None)"

text \<open>\<open>now\<close> is the time stamp \<open>time.Now().UTC().Format(time.RFC3339Nano)\<close> yields.\<close>

definition issueAttestation ::
  "proof_lib \<Rightarrow> string \<Rightarrow> PreparedOperation \<Rightarrow> ctx \<Rightarrow> ctx \<Rightarrow> nat \<Rightarrow> string \<Rightarrow> svc_error + Signed" where
  "issueAttestation lib now p invocation execution t outputEnvelope =
     check_err (leaseMergedContextError invocation execution (po_lease p) t)
     (case verificationManager (po_service p) (t + 2) of
        Inl err \<Rightarrow> Inl err
      | Inr manager \<Rightarrow>
     (case InputDigest lib (po_value p) of
        None \<Rightarrow> Inl (invalidRequest ''attestation input is invalid'')
      | Some inputDigest \<Rightarrow>
     (case OutputDigest lib outputEnvelope of
        None \<Rightarrow> Inl (invalidRequest ''attestation output is invalid'')
      | Some outputDigest \<Rightarrow>
     check_err (leaseMergedContextError invocation execution (po_lease p) (t + 3))
     (let claims = \<lparr>Version = SupportedVersion, Issuer = mgr_Issuer manager (t + 5), IssuedAt = now,
            Operation = ''rotate'', SourceProfileID = po_sourceID p, DestinationProfileID = po_destinationID p,
            Input = \<lparr>Algorithm = ''sha-256'', Value = inputDigest\<rparr>,
            Output = \<lparr>Algorithm = ''sha-256'', Value = outputDigest\<rparr>,
            claims_Binding = (case po_attestation p of None \<Rightarrow> None | Some r \<Rightarrow> ar_Binding r)\<rparr>;
          signing = mgr_Sign manager (t + 6) claims
      in check_err (leaseMergedContextError invocation execution (po_lease p) (t + 7))
     (case signing of
        None \<Rightarrow> Inl attestationUnavailable
      | Some jws \<Rightarrow>
     (case Marshal lib jws of
        None \<Rightarrow> Inl attestationUnavailable
      | Some wire \<Rightarrow> (case Parse wire of Inl _ \<Rightarrow> Inl attestationUnavailable | Inr _ \<Rightarrow> Inr jws)))))))"

text \<open>The switch of \<open>runResult\<close>, with the lease held. An executor reads the context at the instant
  it is called and at the next one.\<close>

definition run_operation ::
  "proof_lib \<Rightarrow> string \<Rightarrow> PreparedOperation \<Rightarrow> ctx \<Rightarrow> context_t \<Rightarrow> nat \<Rightarrow> svc_error + RotationResult" where
  "run_operation lib now p invocation ec t =
     (let source = the (po_source p);
          live = (\<lambda>u. leaseMergedContextError invocation (Some ec) (po_lease p) u);
          valid = (\<lambda>u v limit. validateResult invocation (Some ec) (po_lease p) u v limit)
      in case po_operation p of
        OperationOther _ \<Rightarrow> Inl (invalidRequest ''operation mode is invalid'')
      | OperationEncrypt \<Rightarrow>
          (let result = pe_Encrypt source ec t (po_value p) in
           check_err (live (t + 2))
           (case result of
              Inl _ \<Rightarrow> Inl operationFailed
            | Inr v \<Rightarrow> check_err (valid (t + 4) v service_MaxVaultTextBytes)
                (Inr \<lparr>rr_VaultText = v, rr_Attestation = None\<rparr>)))
      | OperationDecrypt \<Rightarrow>
          (let result = pe_Decrypt source ec t (po_value p) in
           check_err (live (t + 2))
           (case result of
              Inl _ \<Rightarrow> Inl operationFailed
            | Inr v \<Rightarrow> check_err (valid (t + 4) v MaxPlaintextBytes)
                (Inr \<lparr>rr_VaultText = v, rr_Attestation = None\<rparr>)))
      | OperationRotate \<Rightarrow>
          (case po_destination p of
             None \<Rightarrow> Inl (notReady ''prepared operation is not ready'')
           | Some destination \<Rightarrow>
               (let opened = pe_Decrypt source ec t (po_value p) in
                check_err (live (t + 2))
                (case opened of
                   Inl _ \<Rightarrow> Inl operationFailed
                 | Inr plaintext \<Rightarrow>
                     check_err (valid (t + 4) plaintext MaxPlaintextBytes)
                     (let sealed = pe_Encrypt destination ec (t + 6) plaintext in
                      check_err (live (t + 8))
                      (case sealed of
                         Inl _ \<Rightarrow> Inl operationFailed
                       | Inr v \<Rightarrow>
                           check_err (valid (t + 10) v service_MaxVaultTextBytes)
                           (if po_attestation p \<noteq> None then
                              (case issueAttestation lib now p invocation (Some ec) (t + 12) v of
                                 Inl err \<Rightarrow> Inl err
                               | Inr jws \<Rightarrow> Inr \<lparr>rr_VaultText = v, rr_Attestation = Some jws\<rparr>)
                            else Inr \<lparr>rr_VaultText = v, rr_Attestation = None\<rparr>)))))))"

text \<open>The result, the prepared operation with its flag, and the heap; \<open>None\<close> while the lease is held
  by another operation.\<close>

type_synonym run_outcome = "((svc_error + RotationResult) \<times> PreparedOperation option \<times> heap) option"

definition runResult ::
  "proof_lib \<Rightarrow> string \<Rightarrow> (nat \<Rightarrow> bool) \<Rightarrow> heap \<Rightarrow> PreparedOperation option \<Rightarrow> ctx \<Rightarrow> nat \<Rightarrow> run_outcome" where
  "runResult lib now delivered h pp c t =
     (case pp of
        None \<Rightarrow> Some (Inl (notReady ''prepared operation is not ready''), pp, h)
      | Some p \<Rightarrow>
          if po_service p = None \<or> po_lease p = None \<or> po_context p = None \<or> po_started p = None \<or> po_source p = None
          then Some (Inl (notReady ''prepared operation is not ready''), pp, h)
          else if po_started p = Some True
          then Some (Inl (notReady ''prepared operation is not ready''), pp, h)
          else let p1 = p\<lparr>po_started := Some True\<rparr> in
            (case leaseBoundContextError c (po_lease p) t of
               Some err \<Rightarrow> Some (Inl err, Some p1, h)
             | None \<Rightarrow>
                 (case holdForContext h (po_lease p) c (svc_admission (the (po_service p))) of
                    None \<Rightarrow> None
                  | Some (False, h1) \<Rightarrow>
                      Some (Inl (case leaseBoundContextError c (po_lease p) (t + 1) of
                                   Some err \<Rightarrow> err
                                 | None \<Rightarrow> notReady ''operation admission is not ready''), Some p1, h1)
                  | Some (True, h1) \<Rightarrow>
                      let ec = mergeCancellationContexts delivered (the (po_context p)) (the c);
                          result = check_err (leaseMergedContextError c (Some ec) (po_lease p) (t + 2))
                            (run_operation lib now p1 c ec (t + 4))
                      in Some (result, Some p1, releaseHold h1 (po_lease p)))))"

definition RunResult ::
  "proof_lib \<Rightarrow> string \<Rightarrow> (nat \<Rightarrow> bool) \<Rightarrow> heap \<Rightarrow> PreparedOperation option \<Rightarrow> ctx \<Rightarrow> nat \<Rightarrow> run_outcome" where
  "RunResult lib now delivered h pp c t = runResult lib now delivered h pp c t"

definition Run ::
  "proof_lib \<Rightarrow> string \<Rightarrow> (nat \<Rightarrow> bool) \<Rightarrow> heap \<Rightarrow> PreparedOperation option \<Rightarrow> ctx \<Rightarrow> nat \<Rightarrow>
     ((svc_error + string) \<times> PreparedOperation option \<times> heap) option" where
  "Run lib now delivered h pp c t =
     (if (case pp of None \<Rightarrow> False | Some p \<Rightarrow> po_attestation p \<noteq> None)
      then Some (Inl (invalidRequest ''attested rotation requires a result-aware runner''), pp, h)
      else (case runResult lib now delivered h pp c t of
        None \<Rightarrow> None
      | Some (Inl err, pp1, h1) \<Rightarrow> Some (Inl err, pp1, h1)
      | Some (Inr result, pp1, h1) \<Rightarrow> Some (Inr (rr_VaultText result), pp1, h1)))"

text \<open>The one-call forms. \<open>Prepare\<close> takes the instants up to \<open>t + 18\<close>.\<close>

definition prepareAndRun ::
  "proof_lib \<Rightarrow> string \<Rightarrow> (nat \<Rightarrow> bool) \<Rightarrow> heap \<Rightarrow> Service option \<Rightarrow> ctx \<Rightarrow> nat \<Rightarrow> Caller \<Rightarrow> Command \<Rightarrow>
     ((svc_error + string) \<times> heap) option" where
  "prepareAndRun lib now delivered h sp c t actor command =
     (case Prepare lib delivered h sp c t actor command (leaseFromContext c) of
        Inl err \<Rightarrow> Some (Inl err, h)
      | Inr prepared \<Rightarrow>
          (case Run lib now delivered h (Some prepared) c (t + 19) of
             None \<Rightarrow> None
           | Some (result, _, h1) \<Rightarrow> Some (result, h1)))"

definition empty_Command :: Command where
  "empty_Command = \<lparr>cmd_Operation = OperationOther [], cmd_ProfileID = [], cmd_SourceProfileID = [],
     cmd_DestinationProfileID = [], cmd_Value = [], cmd_Attestation = None\<rparr>"

definition service_Encrypt ::
  "proof_lib \<Rightarrow> string \<Rightarrow> (nat \<Rightarrow> bool) \<Rightarrow> heap \<Rightarrow> Service option \<Rightarrow> ctx \<Rightarrow> nat \<Rightarrow> Caller \<Rightarrow> string \<Rightarrow> string \<Rightarrow>
     ((svc_error + string) \<times> heap) option" where
  "service_Encrypt lib now delivered h sp c t actor pid plaintext =
     prepareAndRun lib now delivered h sp c t actor
       (empty_Command\<lparr>cmd_Operation := OperationEncrypt, cmd_ProfileID := pid, cmd_Value := plaintext\<rparr>)"

definition service_Decrypt ::
  "proof_lib \<Rightarrow> string \<Rightarrow> (nat \<Rightarrow> bool) \<Rightarrow> heap \<Rightarrow> Service option \<Rightarrow> ctx \<Rightarrow> nat \<Rightarrow> Caller \<Rightarrow> string \<Rightarrow> string \<Rightarrow>
     ((svc_error + string) \<times> heap) option" where
  "service_Decrypt lib now delivered h sp c t actor pid vaultText =
     prepareAndRun lib now delivered h sp c t actor
       (empty_Command\<lparr>cmd_Operation := OperationDecrypt, cmd_ProfileID := pid, cmd_Value := vaultText\<rparr>)"

definition service_Rotate ::
  "proof_lib \<Rightarrow> string \<Rightarrow> (nat \<Rightarrow> bool) \<Rightarrow> heap \<Rightarrow> Service option \<Rightarrow> ctx \<Rightarrow> nat \<Rightarrow> Caller \<Rightarrow> string \<Rightarrow> string \<Rightarrow> string \<Rightarrow>
     ((svc_error + string) \<times> heap) option" where
  "service_Rotate lib now delivered h sp c t actor src dst vaultText =
     prepareAndRun lib now delivered h sp c t actor
       (empty_Command\<lparr>cmd_Operation := OperationRotate, cmd_SourceProfileID := src,
          cmd_DestinationProfileID := dst, cmd_Value := vaultText\<rparr>)"

definition RotateResult ::
  "proof_lib \<Rightarrow> string \<Rightarrow> (nat \<Rightarrow> bool) \<Rightarrow> heap \<Rightarrow> Service option \<Rightarrow> ctx \<Rightarrow> nat \<Rightarrow> Caller \<Rightarrow> string \<Rightarrow> string \<Rightarrow> string \<Rightarrow>
     AttestationRequest option \<Rightarrow> ((svc_error + RotationResult) \<times> heap) option" where
  "RotateResult lib now delivered h sp c t actor src dst vaultText request =
     (case Prepare lib delivered h sp c t actor
             (empty_Command\<lparr>cmd_Operation := OperationRotate, cmd_SourceProfileID := src,
                cmd_DestinationProfileID := dst, cmd_Value := vaultText, cmd_Attestation := request\<rparr>)
             (leaseFromContext c) of
        Inl err \<Rightarrow> Some (Inl err, h)
      | Inr prepared \<Rightarrow>
          (case RunResult lib now delivered h (Some prepared) c (t + 19) of
             None \<Rightarrow> None
           | Some (result, _, h1) \<Rightarrow> Some (result, h1)))"

subsection \<open>Verifying attestations\<close>

text \<open>The checks and the verification itself, with capacity held.\<close>

definition verify_admitted ::
  "proof_lib \<Rightarrow> AttestationManager \<Rightarrow> ctx \<Rightarrow> nat option \<Rightarrow> nat \<Rightarrow> Signed \<Rightarrow> string \<Rightarrow> string \<Rightarrow> Binding option \<Rightarrow>
     RotationClaims \<times> svc_error option" where
  "verify_admitted lib manager c lease t jws inputEnvelope outputEnvelope expectedBinding =
     (case leaseBoundContextError c lease t of
        Some err \<Rightarrow> (zero_RotationClaims, Some err)
      | None \<Rightarrow>
          if \<not> mgr_Ready manager (t + 1) then (zero_RotationClaims, Some attestationUnavailable)
          else (case VerifyAgainstEnvelopes lib jws inputEnvelope outputEnvelope expectedBinding
                  \<lparr>ExpectedIssuer = mgr_Issuer manager (t + 2), Resolver = Some (mgr_Resolve manager (t + 3)),
                   ExpectedInputDigest = [], ExpectedOutputDigest = [], InputVaultText = [],
                   OutputVaultText = [], ExpectedBinding = None\<rparr> of
            (claims, verifyErr) \<Rightarrow>
              (case leaseBoundContextError c lease (t + 4) of
                 Some err \<Rightarrow> (zero_RotationClaims, Some err)
               | None \<Rightarrow>
                   if \<not> mgr_Ready manager (t + 5) then (zero_RotationClaims, Some attestationUnavailable)
                   else (case verifyErr of
                     None \<Rightarrow> (claims, None)
                   | Some err \<Rightarrow>
                       if err = ErrMalformed \<or> err = ErrInvalidVerifyOptions
                       then (zero_RotationClaims, Some (invalidAttestationRequest err))
                       else (claims, Some (AttestationFailure err))))))"

definition acquire_error :: "admission_error \<Rightarrow> svc_error" where
  "acquire_error err =
     (case err of
        ErrVerifierAdmissionSaturated \<Rightarrow> attestationBusy
      | ErrAdmissionSaturated \<Rightarrow> attestationBusy
      | ErrContext e \<Rightarrow> temporarilyUnavailable (Some (CauseErr e))
      | _ \<Rightarrow> attestationUnavailable)"

definition bad_envelope :: "string \<Rightarrow> bool" where
  "bad_envelope e \<longleftrightarrow> \<not> utf8_valid e \<or> e = [] \<or> service_MaxVaultTextBytes < length e"

definition VerifyAttestation ::
  "proof_lib \<Rightarrow> heap \<Rightarrow> Service option \<Rightarrow> ctx \<Rightarrow> nat \<Rightarrow> Signed \<Rightarrow> string \<Rightarrow> string \<Rightarrow> Binding option \<Rightarrow>
     ((RotationClaims \<times> svc_error option) \<times> heap) option" where
  "VerifyAttestation lib h sp c t jws inputEnvelope outputEnvelope expectedBinding =
     (case verificationManager sp t of
        Inl err \<Rightarrow> Some ((zero_RotationClaims, Some err), h)
      | Inr manager \<Rightarrow>
          let s = the sp; lease = leaseFromContext c;
              verify = (\<lambda>u. verify_admitted lib manager c lease u jws inputEnvelope outputEnvelope expectedBinding)
          in (case leaseBoundContextError c lease (t + 1) of
            Some err \<Rightarrow> Some ((zero_RotationClaims, Some err), h)
          | None \<Rightarrow>
              if bad_envelope inputEnvelope \<or> bad_envelope outputEnvelope
              then Some ((zero_RotationClaims, Some (AttestationFailure ErrMalformed)), h)
              else if lease \<noteq> None \<and> liveForContext h lease c (svc_verifierAdmission s) then
                (case holdForContext h lease c (svc_verifierAdmission s) of
                   None \<Rightarrow> None
                 | Some (False, h1) \<Rightarrow> Some ((zero_RotationClaims, Some attestationBusy), h1)
                 | Some (True, h1) \<Rightarrow> Some (verify (t + 2), releaseHold h1 lease))
              else if svc_verifierAdmission s = None
              then Some ((zero_RotationClaims, Some attestationUnavailable), h)
              else (case TryAcquire h (svc_verifierAdmission s) (the c) (t + 2) of
                (Inl err, h1) \<Rightarrow> Some ((zero_RotationClaims, Some (acquire_error err)), h1)
              | (Inr l, h1) \<Rightarrow> map_option (\<lambda>h2. (verify (t + 4), h2)) (Release h1 (Some l)))))"

section \<open>Lemmas\<close>

subsection \<open>Contexts\<close>

lemma contextError_None: "contextError c t = None \<longleftrightarrow> (\<exists>x. c = Some x \<and> ctx_Err x t = None)"
  by (cases c) (auto simp: contextError_def contextCancellation_def split: option.splits)

lemma leaseBound_None: "leaseBoundContextError c lease t = None \<Longrightarrow> \<exists>x. c = Some x \<and> ctx_Err x t = None"
  by (cases c; cases lease)
    (auto simp: leaseBoundContextError_def contextError_None contextErr_def contextCancellation_Some
      split: option.splits if_splits)

lemma leaseMerged_None:
  assumes "leaseMergedContextError c m lease t = None"
  shows "(\<exists>x. c = Some x \<and> ctx_Err x t = None) \<and> (\<exists>y. m = Some y \<and> ctx_Err y (t + 1) = None)"
  using assms leaseBound_None by (auto simp: leaseMergedContextError_def split: option.splits)

lemma leaseMerged_parts:
  assumes "leaseMergedContextError c m lease t = None" "lease \<noteq> None"
  shows "contextErr lease c t = None \<and> contextErr lease m (t + 1) = None \<and>
    (\<forall>x. c = Some x \<longrightarrow> ctx_Err x t = None) \<and> (\<forall>y. m = Some y \<longrightarrow> ctx_Err y (t + 1) = None)"
  using assms leaseMerged_None [OF assms(1)]
  by (auto simp: leaseMergedContextError_def leaseBoundContextError_def split: option.splits)

lemma lease_errors_unavailable:
  "leaseBoundContextError c lease t = Some e \<Longrightarrow> HasCode e CodeTemporarilyUnavailable"
  by (auto simp: leaseBoundContextError_def contextError_def temporarilyUnavailable_def split: option.splits)

lemma merged_errors_unavailable:
  "leaseMergedContextError c m lease t = Some e \<Longrightarrow> HasCode e CodeTemporarilyUnavailable"
  by (auto simp: leaseMergedContextError_def dest: lease_errors_unavailable split: option.splits)

subsection \<open>Authorisation\<close>

lemma Preflight_None:
  "Preflight c t actor oper = None \<longleftrightarrow>
     contextError c t = None \<and> kind actor \<noteq> KindNone \<and>
     (\<exists>scope. RequiredScope oper = Some scope \<and> (kind actor = KindBearer \<longrightarrow> HasScope actor scope))"
  by (auto simp: Preflight_def requiredScope_def RequiredScope_def
      split: option.splits Operation.splits Kind.splits if_splits)

lemma authorize_None:
  "authorize s c t actor command = None \<longleftrightarrow>
     kind actor = KindAnonymous \<or>
     Preflight c t actor (cmd_Operation command) = None \<and> contextError c (t + 2) = None \<and>
     (\<exists>evaluate allowed. svc_authorizer s = Some evaluate \<and>
        evaluate (t + 1) actor (operationChecks command) = Inr allowed \<and>
        length allowed = length (operationChecks command) \<and> list_all id allowed)"
  by (auto simp: authorize_def Let_def list_all_iff list_ex_iff split: option.splits sum.splits if_splits)

lemma resolveCommand_Inr:
  "resolveCommand s actor c = Inr r \<longleftrightarrow>
     (case cmd_Operation c of
        OperationOther _ \<Rightarrow> False
      | OperationRotate \<Rightarrow>
          (\<exists>e1 e2. svc_byID s (cmd_SourceProfileID c) = Some e1 \<and> svc_byID s (cmd_DestinationProfileID c) = Some e2 \<and>
             ce_executor e1 \<noteq> None \<and> ce_executor e2 \<noteq> None \<and>
             r = \<lparr>rc_source = ce_executor e1, rc_destination = ce_executor e2\<rparr>)
      | _ \<Rightarrow> (\<exists>e. svc_byID s (cmd_ProfileID c) = Some e \<and> ce_executor e \<noteq> None \<and>
               r = \<lparr>rc_source = ce_executor e, rc_destination = None\<rparr>))"
  by (auto simp: resolveCommand_def split: Operation.splits option.splits prod.splits if_splits)

lemma cloneAttestationRequest_id [simp]: "cloneAttestationRequest r = r"
  by (auto simp: cloneAttestationRequest_def split: option.split)

text \<open>Everything a successful preparation has established.\<close>

definition prepared_for ::
  "proof_lib \<Rightarrow> (nat \<Rightarrow> bool) \<Rightarrow> heap \<Rightarrow> Service \<Rightarrow> ctx \<Rightarrow> nat \<Rightarrow> Caller \<Rightarrow> Command \<Rightarrow> nat option \<Rightarrow> context_t \<Rightarrow>
     resolvedCommand \<Rightarrow> PreparedOperation \<Rightarrow> bool" where
  "prepared_for lib delivered h s c t actor command lease ec r p \<longleftrightarrow>
     svc_ready s \<and> lease_bound h lease c (svc_admission s) \<and> executionContext h lease = Some ec \<and>
     kind actor \<noteq> KindNone \<and> validateCommandShape lib command = None \<and>
     authorize s (Some (mergeCancellationContexts delivered ec (the c))) (t + 8) actor command = None \<and>
     resolveCommand s actor command = Inr r \<and> validateCommandValue command = None \<and>
     (cmd_Attestation command \<noteq> None \<longrightarrow> cmd_Operation command = OperationRotate \<and>
        (\<exists>m. readyAttestationManager (Some s) (t + 1) = Inr m)) \<and>
     leaseMergedContextError c (Some (mergeCancellationContexts delivered ec (the c))) lease (t + 17) = None \<and>
     p = \<lparr>po_service = Some s, po_lease = lease, po_context = Some ec, po_actor = actor,
           po_operation = cmd_Operation command, po_value = cmd_Value command,
           po_source = rc_source r, po_destination = rc_destination r,
           po_sourceID = cmd_SourceProfileID command, po_destinationID = cmd_DestinationProfileID command,
           po_attestation = cmd_Attestation command, po_started = Some False\<rparr>"

lemma Prepare_Inr:
  assumes "Prepare lib delivered h sp c t actor command lease = Inr p"
  shows "\<exists>s ec r. sp = Some s \<and> prepared_for lib delivered h s c t actor command lease ec r p"
proof -
  obtain s where s: "sp = Some s" "svc_ready s"
    using assms by (cases sp) (auto simp: Prepare_def Ready_def split: if_splits)
  show ?thesis
    using assms s
    by (auto simp: Prepare_def prepared_for_def Ready_def Let_def liveForContext_def attestationRequestAvailable_def
        split: if_splits option.splits sum.splits)
qed

subsection \<open>Running\<close>

lemma validateResult_None:
  "validateResult c e lease t v limit = None \<longleftrightarrow>
     leaseMergedContextError c e lease t = None \<and> utf8_valid v \<and> length v \<le> limit"
  by (auto simp: validateResult_def Let_def split: option.splits)

lemma run_encrypt_Inr:
  "po_operation p = OperationEncrypt \<Longrightarrow> run_operation lib now p c ec t = Inr r \<longleftrightarrow>
     pe_Encrypt (the (po_source p)) ec t (po_value p) = Inr (rr_VaultText r) \<and> rr_Attestation r = None \<and>
     utf8_valid (rr_VaultText r) \<and> length (rr_VaultText r) \<le> service_MaxVaultTextBytes \<and>
     leaseMergedContextError c (Some ec) (po_lease p) (t + 2) = None \<and>
     leaseMergedContextError c (Some ec) (po_lease p) (t + 4) = None"
  by (cases r) (auto simp: run_operation_def Let_def validateResult_None split: sum.splits)

lemma run_decrypt_Inr:
  "po_operation p = OperationDecrypt \<Longrightarrow> run_operation lib now p c ec t = Inr r \<longleftrightarrow>
     pe_Decrypt (the (po_source p)) ec t (po_value p) = Inr (rr_VaultText r) \<and> rr_Attestation r = None \<and>
     utf8_valid (rr_VaultText r) \<and> length (rr_VaultText r) \<le> MaxPlaintextBytes \<and>
     leaseMergedContextError c (Some ec) (po_lease p) (t + 2) = None \<and>
     leaseMergedContextError c (Some ec) (po_lease p) (t + 4) = None"
  by (cases r) (auto simp: run_operation_def Let_def validateResult_None split: sum.splits)

lemma run_rotate_Inr:
  assumes "po_operation p = OperationRotate" "run_operation lib now p c ec t = Inr r"
  shows "\<exists>destination plaintext. po_destination p = Some destination \<and>
     pe_Decrypt (the (po_source p)) ec t (po_value p) = Inr plaintext \<and>
     utf8_valid plaintext \<and> length plaintext \<le> MaxPlaintextBytes \<and>
     pe_Encrypt destination ec (t + 6) plaintext = Inr (rr_VaultText r) \<and>
     utf8_valid (rr_VaultText r) \<and> length (rr_VaultText r) \<le> service_MaxVaultTextBytes \<and>
     (case po_attestation p of
        None \<Rightarrow> rr_Attestation r = None
      | Some _ \<Rightarrow> \<exists>jws. issueAttestation lib now p c (Some ec) (t + 12) (rr_VaultText r) = Inr jws \<and>
          rr_Attestation r = Some jws)"
  using assms
  by (auto simp: run_operation_def Let_def validateResult_None split: sum.splits option.splits if_splits)

lemma run_other: "po_operation p = OperationOther w \<Longrightarrow> run_operation lib now p c ec t \<noteq> Inr r"
  by (simp add: run_operation_def Let_def)

text \<open>The runs that execute: the flag was down, the lease was held, and is let go afterwards.\<close>

lemma runResult_Inr:
  assumes "runResult lib now delivered h pp c t = Some (Inr r, pp', h')"
  shows "\<exists>p pc h1. pp = Some p \<and> pp' = Some (p\<lparr>po_started := Some True\<rparr>) \<and> po_started p = Some False \<and>
     po_service p \<noteq> None \<and> po_source p \<noteq> None \<and> po_context p = Some pc \<and>
     holdForContext h (po_lease p) c (svc_admission (the (po_service p))) = Some (True, h1) \<and>
     h' = releaseHold h1 (po_lease p) \<and>
     leaseMergedContextError c (Some (mergeCancellationContexts delivered pc (the c))) (po_lease p) (t + 2) = None \<and>
     run_operation lib now (p\<lparr>po_started := Some True\<rparr>) c
       (mergeCancellationContexts delivered pc (the c)) (t + 4) = Inr r"
  using assms
  by (auto simp: runResult_def Let_def split: option.splits if_splits prod.splits bool.splits)

lemma started_blocks:
  "po_started p = Some True \<Longrightarrow>
     runResult lib now delivered h (Some p) c t = Some (Inl (notReady ''prepared operation is not ready''), Some p, h)"
  by (simp add: runResult_def)

lemma runResult_started:
  assumes "runResult lib now delivered h (Some p) c t = Some (res, pp', h')" "po_started p \<noteq> None"
    "po_service p \<noteq> None" "po_lease p \<noteq> None" "po_context p \<noteq> None" "po_source p \<noteq> None"
  shows "\<exists>q. pp' = Some q \<and> po_started q = Some True"
proof (cases "po_started p = Some True")
  case True
  then show ?thesis using assms(1) unfolding started_blocks [OF True] by blast
next
  case False
  then show ?thesis using assms
    by (auto simp: runResult_def Let_def split: option.splits prod.splits bool.splits)
qed

lemma held_hold_release:
  assumes "holdForContext h lp c ap = Some (True, h1)"
  shows "lease_states (releaseHold h1 lp) = lease_states h \<and> admissions (releaseHold h1 lp) = admissions h \<and>
    fresh (releaseHold h1 lp) = fresh h"
  using assms
  by (auto simp: holdForContext_def releaseHold_def lease_bound_def set_lease_def fun_eq_iff
      split: option.splits prod.splits if_splits)

lemma hold_false_heap: "holdForContext h lp c ap = Some (False, h1) \<Longrightarrow> h1 = h"
  by (auto simp: holdForContext_def split: option.splits prod.splits if_splits)

lemma hold_true_bound:
  assumes "holdForContext h lp c ap = Some (True, h1)"
  shows "lease_bound h lp c ap \<and> (\<exists>l s. lp = Some l \<and> lease_states h l = Some s \<and> \<not> held s)"
  using assms by (auto simp: holdForContext_def split: option.splits prod.splits if_splits)

text \<open>The instants at which a successful operation checks the contexts and the lease: twice after each call of an
  executor, and three times when it issues an attestation.\<close>

definition operation_checks :: "PreparedOperation \<Rightarrow> nat \<Rightarrow> nat list" where
  "operation_checks p t =
     [t + 2, t + 4] @
     (if po_operation p = OperationRotate
      then [t + 8, t + 10] @ (if po_attestation p \<noteq> None then [t + 12, t + 15, t + 19] else []) else [])"

text \<open>The calls of executors that gave the result, with the instants at which they are made.\<close>

definition executed :: "PreparedOperation \<Rightarrow> context_t \<Rightarrow> nat \<Rightarrow> RotationResult \<Rightarrow> bool" where
  "executed p ec t r \<longleftrightarrow>
     (case po_operation p of
        OperationEncrypt \<Rightarrow> pe_Encrypt (the (po_source p)) ec t (po_value p) = Inr (rr_VaultText r)
      | OperationDecrypt \<Rightarrow> pe_Decrypt (the (po_source p)) ec t (po_value p) = Inr (rr_VaultText r)
      | OperationRotate \<Rightarrow> \<exists>destination plaintext. po_destination p = Some destination \<and>
          pe_Decrypt (the (po_source p)) ec t (po_value p) = Inr plaintext \<and>
          pe_Encrypt destination ec (t + 6) plaintext = Inr (rr_VaultText r)
      | OperationOther _ \<Rightarrow> False)"

lemma executed_started [simp]: "executed (p\<lparr>po_started := b\<rparr>) ec t r = executed p ec t r"
  by (cases "po_operation p") (simp_all add: executed_def)

lemma issue_checks:
  assumes "issueAttestation lib now p c e t v = Inr jws"
  shows "leaseMergedContextError c e (po_lease p) t = None \<and> leaseMergedContextError c e (po_lease p) (t + 3) = None \<and>
    leaseMergedContextError c e (po_lease p) (t + 7) = None"
  using assms by (auto simp: issueAttestation_def Let_def split: sum.splits option.splits)

lemma run_executed:
  assumes "run_operation lib now p c ec t = Inr r"
  shows "executed p ec t r"
proof (cases "po_operation p")
  case OperationRotate
  then show ?thesis using run_rotate_Inr [OF OperationRotate assms] by (auto simp: executed_def)
qed (use assms in \<open>simp_all add: executed_def run_encrypt_Inr run_decrypt_Inr run_other\<close>)

lemma run_checked:
  assumes "run_operation lib now p c ec t = Inr r" "u \<in> set (operation_checks p t)"
  shows "leaseMergedContextError c (Some ec) (po_lease p) u = None"
proof (cases "po_operation p")
  case OperationRotate
  have four: "\<forall>d \<in> {2, 4, 8, 10}. leaseMergedContextError c (Some ec) (po_lease p) (t + d) = None"
    using assms(1) OperationRotate
    by (auto simp: run_operation_def Let_def validateResult_None split: sum.splits option.splits if_splits)
  have "leaseMergedContextError c (Some ec) (po_lease p) (t + d) = None" if d: "d \<in> {12, 15, 19}" "po_attestation p \<noteq> None" for d
  proof -
    obtain jws where "issueAttestation lib now p c (Some ec) (t + 12) (rr_VaultText r) = Inr jws"
      using run_rotate_Inr [OF OperationRotate assms(1)] d(2) by auto
    from issue_checks [OF this] show ?thesis using d(1) by (auto simp: add.assoc)
  qed
  with four show ?thesis using assms(2) OperationRotate by (auto simp: operation_checks_def split: if_splits)
qed (use assms in \<open>auto simp: operation_checks_def run_encrypt_Inr run_decrypt_Inr run_other\<close>)

subsection \<open>The catalogue\<close>

definition catalog_entry :: "(string \<Rightarrow> ProfileExecutor option) option \<Rightarrow> Profile \<Rightarrow> catalogEntry" where
  "catalog_entry forProfile input =
     \<lparr>ce_profile = \<lparr>pr_ID = pr_ID input, pr_Label = pr_Label input, pr_Capabilities = zero_Capabilities\<rparr>,
      ce_executor = (case forProfile of None \<Rightarrow> None | Some resolve \<Rightarrow> resolve (pr_ID input))\<rparr>"

definition profile_usable :: "(string \<Rightarrow> ProfileExecutor option) option \<Rightarrow> Profile \<Rightarrow> bool" where
  "profile_usable forProfile input \<longleftrightarrow>
     IsValidProfileID (pr_ID input) \<and> strings_TrimSpace (pr_Label input) \<noteq> [] \<and>
     ce_executor (catalog_entry forProfile input) \<noteq> None"

lemma build_catalog_exact:
  "build_catalog fp ps (es, m, r) =
     (es @ map (catalog_entry fp) ps,
      m ++ map_of (rev (map (\<lambda>p. (pr_ID p, catalog_entry fp p)) ps)),
      r \<and> list_all (profile_usable fp) ps \<and> distinct (map pr_ID ps) \<and> set (map pr_ID ps) \<inter> dom m = {})"
proof (induction ps arbitrary: es m r)
  case Nil
  then show ?case by simp
next
  case (Cons p ps)
  let ?e = "catalog_entry fp p"
  have "build_catalog fp (p # ps) (es, m, r) =
      build_catalog fp ps (es @ [?e], m(pr_ID p \<mapsto> ?e), r \<and> profile_usable fp p \<and> m (pr_ID p) = None)"
    by (cases fp) (auto simp: Let_def catalog_entry_def profile_usable_def)
  moreover have "set (map pr_ID ps) \<inter> dom (m(pr_ID p \<mapsto> ?e)) = {} \<longleftrightarrow>
      set (map pr_ID ps) \<inter> dom m = {} \<and> pr_ID p \<notin> set (map pr_ID ps)" by auto
  ultimately show ?case unfolding Cons.IH by (auto simp: dom_def)
qed

lemma NewWithOptions_fields:
  "svc_profiles (NewWithOptions ps fp auth adm mgr en ver rt rv) = map (catalog_entry fp) ps"
  "svc_byID (NewWithOptions ps fp auth adm mgr en ver rt rv) =
     map_of (rev (map (\<lambda>p. (pr_ID p, catalog_entry fp p)) ps))"
  "svc_ready (NewWithOptions ps fp auth adm mgr en ver rt rv) \<longleftrightarrow>
     ps \<noteq> [] \<and> fp \<noteq> None \<and> list_all (profile_usable fp) ps \<and> distinct (map pr_ID ps)"
  "svc_authorizer (NewWithOptions ps fp auth adm mgr en ver rt rv) = auth"
  "svc_admission (NewWithOptions ps fp auth adm mgr en ver rt rv) = Some (case adm of None \<Rightarrow> rt | Some a \<Rightarrow> a)"
  "svc_attestation (NewWithOptions ps fp auth adm mgr en ver rt rv) = mgr"
  "svc_attestationEnabled (NewWithOptions ps fp auth adm mgr en ver rt rv) = en"
  "svc_verifierAdmission (NewWithOptions ps fp auth adm mgr en ver rt rv) = Some (case ver of None \<Rightarrow> rv | Some a \<Rightarrow> a)"
  by (auto simp: NewWithOptions_def Let_def build_catalog_exact split: option.splits)

lemma byID_lookup:
  assumes "distinct (map pr_ID ps)"
  shows "map_of (rev (map (\<lambda>p. (pr_ID p, catalog_entry fp p)) ps)) i = Some e \<longleftrightarrow>
    (\<exists>p\<in>set ps. pr_ID p = i \<and> e = catalog_entry fp p)"
proof -
  have "distinct (map fst (rev (map (\<lambda>p. (pr_ID p, catalog_entry fp p)) ps)))"
    using assms by (simp add: rev_map [symmetric] comp_def)
  then show ?thesis by (auto simp: image_iff)
qed

text \<open>The service as the program builds it from a loaded configuration.\<close>

definition config_profiles :: "Config \<Rightarrow> Profile list" where
  "config_profiles cfg = map (\<lambda>p. \<lparr>pr_ID = ID p, pr_Label = Label p, pr_Capabilities = zero_Capabilities\<rparr>) (PublicProfiles cfg)"

definition config_executor ::
  "crypto \<Rightarrow> (nat \<Rightarrow> rand_reader) \<Rightarrow> Config \<Rightarrow> (string \<Rightarrow> ProfileExecutor option) option" where
  "config_executor cr random cfg = Some (\<lambda>i. map_option (profileExecutor cr random) (ForProfile cfg i))"

subsection \<open>Operations that go through\<close>

text \<open>A context that is not cancelled in the time considered, nor is the one its lease was bound to.\<close>

definition calm :: "context_t \<Rightarrow> bool" where
  "calm x \<longleftrightarrow> (\<forall>u. ctx_Err x u = None) \<and>
     (\<forall>b y u. ctx_binding x = Some b \<longrightarrow> binding_origin b = Some y \<longrightarrow> ctx_Err y u = None)"

lemma calm_background [simp]: "calm background"
  by (simp add: calm_def)

lemma calm_Err [simp]: "calm x \<Longrightarrow> ctx_Err x u = None"
  unfolding calm_def by blast

lemma calm_cancellation [simp]: "calm x \<Longrightarrow> contextCancellation (Some x) u = None"
  by (simp add: contextCancellation_Some)

lemma calm_origin: "calm x \<Longrightarrow> ctx_binding x = Some b \<Longrightarrow> binding_origin b = Some y \<Longrightarrow> contextCancellation (Some y) u = None"
  unfolding calm_def contextCancellation_Some by blast

lemma calm_contextErr [simp]: "calm x \<Longrightarrow> contextErr lease (Some x) u = None"
  by (auto simp: contextErr_def leaseBindingFromContext_def calm_origin split: option.splits)

lemma calm_errors [simp]:
  "calm x \<Longrightarrow> contextError (Some x) u = None"
  "calm x \<Longrightarrow> leaseBoundContextError (Some x) lease u = None"
  "calm x \<Longrightarrow> calm y \<Longrightarrow> leaseMergedContextError (Some x) (Some y) lease u = None"
  by (simp_all add: contextError_def leaseBoundContextError_def leaseMergedContextError_def split: option.split)

lemma calm_merge [simp]:
  assumes "calm x" "calm y"
  shows "calm (mergeCancellationContexts d x y)"
proof -
  have "ctx_Err (mergeCancellationContexts d x y) u = None" for u
    using assms by (intro merged_not_cancelled) simp_all
  then show ?thesis using assms(1) unfolding calm_def merged_binding by blast
qed

lemma calm_live [simp]: "calm x \<Longrightarrow> live_at x t"
  by (simp add: live_at_def)

text \<open>A lease that was acquired and whose context was issued, and nothing else running on it.\<close>

definition issued :: "heap \<Rightarrow> nat \<Rightarrow> nat \<Rightarrow> context_t \<Rightarrow> bool" where
  "issued h a l x \<longleftrightarrow> leaseFromContext (Some x) = Some l \<and> lease_bound h (Some l) (Some x) (Some a) \<and>
     executionContext h (Some l) = Some x \<and> (\<exists>s. lease_states h l = Some s \<and> \<not> held s)"

lemma acquire_issue:
  assumes "heap_ok h" "TryAcquire h (Some a) ctx t = (Inr l, h1)" "lease_Context h1 (Some l) (Some ctx) = (Some x, h2)"
  shows "issued h2 a l x \<and> x = with_binding ctx (Binding l l (Some ctx)) \<and> heap_ok h1"
proof -
  have ok: "heap_ok h1" using heap_ok_TryAcquire [OF assms(1,2)] .
  have "lease_states h1 l = Some \<lparr>ls_admission = Some a, active = True, ls_binding = Some (Binding l l (Some ctx)),
       boundContext = Some (with_binding ctx (Binding l l (Some ctx))), contextIssued = False, held = False\<rparr>"
    by (rule TryAcquire_Inr [OF assms(1,2)]) simp
  then show ?thesis using assms(3) ok
    by (auto simp: lease_Context_def issued_def leaseFromContext_def leaseBindingFromContext_def lease_bound_def
        same_binding_def executionContext_def)
qed

lemma calm_with_binding: "(\<And>u. ctx_Err ctx u = None) \<Longrightarrow> calm (with_binding ctx (Binding l l (Some ctx)))"
  unfolding calm_def by auto

lemma hold_issued:
  assumes "issued h a l x"
  obtains s where "lease_states h l = Some s" "holdForContext h (Some l) (Some x) (Some a) = Some (True, set_lease l (s\<lparr>held := True\<rparr>) h)"
    "releaseHold (set_lease l (s\<lparr>held := True\<rparr>) h) (Some l) = h"
proof -
  obtain s where s: "lease_states h l = Some s" "\<not> held s" using assms by (auto simp: issued_def)
  have "s\<lparr>held := False\<rparr> = s" using s(2) by (cases s) simp
  then have "releaseHold (set_lease l (s\<lparr>held := True\<rparr>) h) (Some l) = h"
    using s by (simp add: releaseHold_def set_lease_def fun_upd_idem)
  moreover have "holdForContext h (Some l) (Some x) (Some a) = Some (True, set_lease l (s\<lparr>held := True\<rparr>) h)"
    using assms s unfolding issued_def holdForContext_def lease_bound_def by (auto split: option.splits)
  ultimately show thesis using that s(1) by blast
qed

text \<open>With a calm context only the checks of the command itself can stop a preparation.\<close>

lemma Prepare_calm:
  assumes "issued h a l x" "calm x" "svc_ready s" "svc_admission s = Some a" "kind actor \<noteq> KindNone"
    "validateCommandShape lib command = None" "resolveCommand s actor command = Inr r"
    "validateCommandValue command = None"
    "authorize s (Some (mergeCancellationContexts delivered x x)) (t + 8) actor command = None"
    "cmd_Attestation command = None \<or>
       cmd_Operation command = OperationRotate \<and> attestationRequestAvailable (Some s) (t + 1) = None"
  shows "Prepare lib delivered h (Some s) (Some x) t actor command (Some l) =
    Inr \<lparr>po_service = Some s, po_lease = Some l, po_context = Some x, po_actor = actor,
           po_operation = cmd_Operation command, po_value = cmd_Value command,
           po_source = rc_source r, po_destination = rc_destination r,
           po_sourceID = cmd_SourceProfileID command, po_destinationID = cmd_DestinationProfileID command,
           po_attestation = cmd_Attestation command, po_started = Some False\<rparr>"
  using assms by (auto simp: Prepare_def Let_def Ready_def liveForContext_def issued_def)

lemma RunResult_calm:
  assumes "issued h a l x" "calm x" "po_service p = Some s" "svc_admission s = Some a" "po_lease p = Some l"
    "po_context p = Some x" "po_source p \<noteq> None" "po_started p = Some False"
  shows "RunResult lib now delivered h (Some p) (Some x) t =
    Some (run_operation lib now (p\<lparr>po_started := Some True\<rparr>) (Some x) (mergeCancellationContexts delivered x x) (t + 4),
      Some (p\<lparr>po_started := Some True\<rparr>), h)"
proof -
  obtain st where "holdForContext h (Some l) (Some x) (Some a) = Some (True, set_lease l (st\<lparr>held := True\<rparr>) h)"
    "releaseHold (set_lease l (st\<lparr>held := True\<rparr>) h) (Some l) = h"
    using hold_issued [OF assms(1)] by metis
  then show ?thesis
    using assms by (auto simp: RunResult_def runResult_def Let_def)
qed

text \<open>Who may run a command: anonymous callers of a deployment without authentication, and callers
  with the scope of the mode to whom the authoriser grants every check.\<close>

definition entitled :: "service_authorizer option \<Rightarrow> Caller \<Rightarrow> Command \<Rightarrow> bool" where
  "entitled auth actor command \<longleftrightarrow>
     kind actor = KindAnonymous \<or>
     kind actor \<in> {KindSession, KindBearer} \<and>
     (\<exists>scope. RequiredScope (cmd_Operation command) = Some scope \<and> (kind actor = KindBearer \<longrightarrow> HasScope actor scope)) \<and>
     (\<exists>evaluate. auth = Some evaluate \<and>
        (\<forall>u. evaluate u actor (operationChecks command) = Inr (map (\<lambda>_. True) (operationChecks command))))"

lemma entitled_authorize:
  "entitled (svc_authorizer s) actor command \<Longrightarrow> calm x \<Longrightarrow> authorize s (Some x) t actor command = None"
  unfolding authorize_None Preflight_None entitled_def by (auto simp: list_all_iff)

lemma entitled_kind: "entitled auth actor command \<Longrightarrow> kind actor \<noteq> KindNone"
  by (auto simp: entitled_def)

text \<open>One call of the service under a calm context is its executor step.\<close>

lemma prepareAndRun_calm:
  assumes "issued h a l x" "calm x" "svc_ready s" "svc_admission s = Some a" "entitled (svc_authorizer s) actor command"
    "validateCommandShape lib command = None" "validateCommandValue command = None"
    "resolveCommand s actor command = Inr r" "rc_source r \<noteq> None" "cmd_Attestation command = None"
  shows "\<exists>p ec. calm ec \<and> po_operation p = cmd_Operation command \<and> po_value p = cmd_Value command \<and>
    po_source p = rc_source r \<and> po_destination p = rc_destination r \<and> po_attestation p = None \<and>
    prepareAndRun lib now delivered h (Some s) (Some x) t actor command =
      Some (map_sum id rr_VaultText (run_operation lib now p (Some x) ec (t + 23)), h)"
proof -
  let ?p = "\<lparr>po_service = Some s, po_lease = Some l, po_context = Some x, po_actor = actor,
           po_operation = cmd_Operation command, po_value = cmd_Value command,
           po_source = rc_source r, po_destination = rc_destination r,
           po_sourceID = cmd_SourceProfileID command, po_destinationID = cmd_DestinationProfileID command,
           po_attestation = None, po_started = Some False\<rparr>"
  let ?ec = "mergeCancellationContexts delivered x x"
  have "Prepare lib delivered h (Some s) (Some x) t actor command (Some l) = Inr ?p"
    using Prepare_calm [OF assms(1-4) entitled_kind [OF assms(5)] assms(6,8,7) entitled_authorize [OF assms(5)], of delivered t]
      assms(2,10) by simp
  moreover have "RunResult lib now delivered h (Some ?p) (Some x) (t + 19) =
      Some (run_operation lib now (?p\<lparr>po_started := Some True\<rparr>) (Some x) ?ec (t + 19 + 4), Some (?p\<lparr>po_started := Some True\<rparr>), h)"
    using assms by (intro RunResult_calm) auto
  moreover have "leaseFromContext (Some x) = Some l" using assms(1) by (simp add: issued_def)
  ultimately have "prepareAndRun lib now delivered h (Some s) (Some x) t actor command =
      Some (map_sum id rr_VaultText (run_operation lib now (?p\<lparr>po_started := Some True\<rparr>) (Some x) ?ec (t + 23)), h)"
    by (auto simp: prepareAndRun_def Run_def RunResult_def add.assoc split: sum.split)
  then show ?thesis using assms(2)
    by (intro exI [of _ "?p\<lparr>po_started := Some True\<rparr>"] exI [of _ ?ec]) simp
qed

lemma config_service_usable:
  assumes "config_ok cfg" "list_all (\<lambda>p. strings_TrimSpace (Label p) \<noteq> []) (PublicProfiles cfg)"
  shows "list_all (profile_usable (config_executor cr random cfg)) (config_profiles cfg)"
proof -
  have "profile_usable (config_executor cr random cfg) \<lparr>pr_ID = ID (public p), pr_Label = Label (public p),
      pr_Capabilities = zero_Capabilities\<rparr>" if p: "p \<in> set (profiles cfg)" for p
  proof -
    have "ForProfile cfg (ID (public p)) = Some p" "profile_ok p"
      using assms(1) p by (auto simp: config_ok_def list_all_iff)
    moreover have "strings_TrimSpace (Label (public p)) \<noteq> []"
      using assms(2) p by (auto simp: list_all_iff PublicProfiles_def)
    ultimately show ?thesis
      by (simp add: profile_usable_def catalog_entry_def config_executor_def profile_ok_def)
  qed
  then show ?thesis by (auto simp: list_all_iff config_profiles_def PublicProfiles_def)
qed

lemma config_profile_ids: "map pr_ID (config_profiles cfg) = map ID (PublicProfiles cfg)"
  by (simp add: config_profiles_def comp_def)

lemma LoadJSON_labels:
  assumes "LoadJSON decode json lookup = Inr cfg"
  shows "list_all (\<lambda>p. strings_TrimSpace (Label p) \<noteq> []) (PublicProfiles cfg)"
  using assms by (auto simp: LoadJSON_iff PublicProfiles_def resolve_raw_def list_all_iff raw_ok_def)

lemma config_service:
  assumes "LoadJSON decode json lookup = Inr cfg"
    "s = NewWithOptions (config_profiles cfg) (config_executor cr random cfg) auth adm mgr enabled verifier rt rv"
  shows "svc_ready s" "catalog_ids s = map ID (PublicProfiles cfg)"
    "svc_byID s i = Some e \<longleftrightarrow>
       (\<exists>p \<in> set (profiles cfg). ID (public p) = i \<and>
          e = \<lparr>ce_profile = \<lparr>pr_ID = i, pr_Label = Label (public p), pr_Capabilities = zero_Capabilities\<rparr>,
               ce_executor = Some (profileExecutor cr random p)\<rparr>)"
proof -
  have ok: "config_ok cfg" by (rule LoadJSON_config_ok [OF assms(1)])
  have d: "distinct (map pr_ID (config_profiles cfg))"
    using ok unfolding config_profile_ids by (simp add: config_ok_def)
  have "config_profiles cfg \<noteq> []" using ok by (auto simp: config_ok_def config_profiles_def PublicProfiles_def)
  then show "svc_ready s"
    using d config_service_usable [OF ok LoadJSON_labels [OF assms(1)]]
    unfolding assms(2) NewWithOptions_fields by (simp add: config_executor_def)
  show "catalog_ids s = map ID (PublicProfiles cfg)"
    unfolding catalog_ids_def assms(2) NewWithOptions_fields config_profile_ids [symmetric] by (simp add: catalog_entry_def)
  have "ForProfile cfg (ID (public p)) = Some p" if "p \<in> set (profiles cfg)" for p
    using ok that by (auto simp: config_ok_def)
  then show "svc_byID s i = Some e \<longleftrightarrow>
       (\<exists>p \<in> set (profiles cfg). ID (public p) = i \<and>
          e = \<lparr>ce_profile = \<lparr>pr_ID = i, pr_Label = Label (public p), pr_Capabilities = zero_Capabilities\<rparr>,
               ce_executor = Some (profileExecutor cr random p)\<rparr>)"
    unfolding assms(2) NewWithOptions_fields byID_lookup [OF d]
    by (auto simp: config_profiles_def PublicProfiles_def catalog_entry_def config_executor_def)
qed

subsection \<open>A small deployment\<close>

definition demo_cfg :: Config where
  "demo_cfg = \<lparr>profiles = demo_profiles, executor = build_executor demo_profiles\<rparr>"

definition demo_service :: Service where
  "demo_service = NewWithOptions (config_profiles demo_cfg) (config_executor demo_crypto (\<lambda>_. demo_random) demo_cfg)
     None (Some 0) None False None 1 2"

definition demo_ctx :: context_t where
  "demo_ctx = with_binding background (Binding 0 0 (Some background))"

definition demo_leased :: heap where
  "demo_leased = snd (lease_Context (snd (TryAcquire demo_heap (Some 0) background 0)) (Some 0) (Some background))"

definition demo_command :: Command where
  "demo_command = empty_Command\<lparr>cmd_Operation := OperationEncrypt, cmd_ProfileID := ''dev'', cmd_Value := ''x''\<rparr>"

lemma demo_cfg_load: "LoadJSON (\<lambda>_. Some demo_raws) ''[]'' demo_lookup = Inr demo_cfg"
  unfolding demo_cfg_def by (rule demo_load)

lemma demo_issued: "issued demo_leased 0 0 demo_ctx"
proof -
  have "TryAcquire demo_heap (Some 0) background 0 = (Inr 0, snd (TryAcquire demo_heap (Some 0) background 0))"
    by (simp add: TryAcquire_def demo_heap_def Let_def)
  moreover have "lease_Context (snd (TryAcquire demo_heap (Some 0) background 0)) (Some 0) (Some background) = (Some demo_ctx, demo_leased)"
    by (simp add: demo_leased_def lease_Context_def TryAcquire_def demo_heap_def Let_def demo_ctx_def same_binding_def
        leaseBindingFromContext_def)
  ultimately show ?thesis using acquire_issue [OF demo_heap_ok] by blast
qed

lemma demo_calm [simp]: "calm demo_ctx"
  unfolding demo_ctx_def by (rule calm_with_binding) simp

lemma demo_resolves: "resolveCommand demo_service Anonymous demo_command =
    Inr \<lparr>rc_source = Some (profileExecutor demo_crypto (\<lambda>_. demo_random) (hd demo_profiles)), rc_destination = None\<rparr>"
proof -
  have "hd demo_profiles \<in> set (profiles demo_cfg)" "ID (public (hd demo_profiles)) = ''dev''"
    by (simp_all add: demo_cfg_def demo_profiles_def)
  then have "svc_byID demo_service ''dev'' =
      Some \<lparr>ce_profile = \<lparr>pr_ID = ''dev'', pr_Label = Label (public (hd demo_profiles)), pr_Capabilities = zero_Capabilities\<rparr>,
               ce_executor = Some (profileExecutor demo_crypto (\<lambda>_. demo_random) (hd demo_profiles))\<rparr>"
    using config_service(3) [OF demo_cfg_load demo_service_def] by blast
  then show ?thesis by (simp add: resolveCommand_def demo_command_def)
qed

lemma demo_prepared:
  "\<exists>p. Prepare demo_lib (\<lambda>_. False) demo_leased (Some demo_service) (Some demo_ctx) 0 Anonymous demo_command (Some 0) = Inr p"
proof -
  have "svc_admission demo_service = Some 0" by (simp add: demo_service_def NewWithOptions_fields)
  moreover have "validateCommandShape demo_lib demo_command = None"
    by (simp add: validateCommandShape_def demo_command_def empty_Command_def demo_ids)
  moreover have "validateCommandValue demo_command = None"
    by (simp add: validateCommandValue_def demo_command_def empty_Command_def utf8_valid_ascii MaxPlaintextBytes_def)
  moreover have "kind Anonymous = KindAnonymous" by (simp add: Anonymous_def)
  ultimately show ?thesis
    using Prepare_calm [OF demo_issued demo_calm config_service(1) [OF demo_cfg_load demo_service_def],
        where actor = Anonymous and lib = demo_lib and command = demo_command and delivered = "\<lambda>_. False" and t = 0]
      demo_resolves
    by (auto simp: authorize_def demo_command_def empty_Command_def)
qed

lemma demo_runs:
  assumes "Prepare demo_lib (\<lambda>_. False) demo_leased (Some demo_service) (Some demo_ctx) 0 Anonymous demo_command (Some 0) = Inr p"
  shows "\<exists>r q h. RunResult demo_lib [] (\<lambda>_. False) demo_leased (Some p) (Some demo_ctx) 20 = Some (r, q, h)"
proof -
  obtain r where p: "prepared_for demo_lib (\<lambda>_. False) demo_leased demo_service (Some demo_ctx) 0 Anonymous demo_command (Some 0) demo_ctx r p"
    using Prepare_Inr [OF assms] demo_issued unfolding issued_def prepared_for_def by force
  have "svc_admission demo_service = Some 0" by (simp add: demo_service_def NewWithOptions_fields)
  then show ?thesis
    using RunResult_calm [OF demo_issued demo_calm, of p demo_service] p demo_resolves
    unfolding prepared_for_def by auto
qed

section \<open>Properties\<close>

text \<open>The catalogue: a service built from a configuration that loaded is ready, lists the
  configured profiles in order, and resolves exactly the configured identifiers, each to the
  executor bound to that profile's own identifier and password.\<close>

lemma loaded_service_catalog:
  assumes "LoadJSON decode json lookup = Inr cfg"
    "s = NewWithOptions (config_profiles cfg) (config_executor cr random cfg) auth adm mgr enabled verifier rt rv"
  shows "Ready (Some s) \<and> catalog_ids s = map ID (PublicProfiles cfg) \<and>
    (\<forall>i e. svc_byID s i = Some e \<longleftrightarrow>
       (\<exists>p \<in> set (profiles cfg). ID (public p) = i \<and> pr_ID (ce_profile e) = i \<and>
          pr_Label (ce_profile e) = Label (public p) \<and> pr_Capabilities (ce_profile e) = zero_Capabilities \<and>
          ce_executor e = Some (profileExecutor cr random p)))"
  using config_service [OF assms] by (auto simp: Ready_def)

text \<open>C5. What preparation establishes: a prepared operation belongs to a ready service and a lease
  of its admission that is active and bound to the caller's context; the command had a valid
  shape and a value that is valid UTF-8 within the limit of its mode; an authenticated caller was
  granted every check of the operation by the authoriser at that moment and, as a bearer, holds
  the scope of the mode; the executors are those the catalogue holds for the named profiles; and
  the operation has not been started.\<close>

theorem prepare_establishes:
  assumes "Prepare lib delivered h sp c t actor command lease = Inr p"
  shows "\<exists>s. sp = Some s \<and> svc_ready s \<and> lease_bound h lease c (svc_admission s) \<and>
    validateCommandShape lib command = None \<and> utf8_valid (cmd_Value command) \<and>
    length (cmd_Value command) \<le> (if cmd_Operation command = OperationEncrypt then 2 ^ 20 else 5 * 2 ^ 20) \<and>
    (kind actor = KindAnonymous \<or>
      (\<exists>evaluate scope. svc_authorizer s = Some evaluate \<and> kind actor \<in> {KindSession, KindBearer} \<and>
        (\<exists>allowed. evaluate (t + 9) actor (operationChecks command) = Inr allowed \<and>
           length allowed = length (operationChecks command) \<and> list_all id allowed) \<and>
        RequiredScope (cmd_Operation command) = Some scope \<and>
        (kind actor = KindBearer \<longrightarrow> HasScope actor scope))) \<and>
    (case cmd_Operation command of
       OperationRotate \<Rightarrow>
         po_source p = Option.bind (svc_byID s (cmd_SourceProfileID command)) ce_executor \<and>
         po_destination p = Option.bind (svc_byID s (cmd_DestinationProfileID command)) ce_executor \<and>
         po_destination p \<noteq> None
     | _ \<Rightarrow> po_source p = Option.bind (svc_byID s (cmd_ProfileID command)) ce_executor) \<and>
    po_source p \<noteq> None \<and> po_operation p = cmd_Operation command \<and> po_value p = cmd_Value command \<and>
    po_lease p = lease \<and> po_started p = Some False"
proof -
  obtain s ec r where s: "sp = Some s" and p: "prepared_for lib delivered h s c t actor command lease ec r p"
    using Prepare_Inr [OF assms] by blast
  let ?m = "Some (mergeCancellationContexts delivered ec (the c))"
  have r: "resolveCommand s actor command = Inr r" "po_source p = rc_source r" "po_destination p = rc_destination r"
    and a: "authorize s ?m (t + 8) actor command = None"
    and v: "validateCommandValue command = None"
    and rest: "svc_ready s" "lease_bound h lease c (svc_admission s)" "validateCommandShape lib command = None"
      "po_operation p = cmd_Operation command" "po_value p = cmd_Value command" "po_lease p = lease" "po_started p = Some False"
    using p by (auto simp: prepared_for_def)
  have val: "utf8_valid (cmd_Value command)"
      "length (cmd_Value command) \<le> (if cmd_Operation command = OperationEncrypt then 2 ^ 20 else 5 * 2 ^ 20)"
    using v by (auto simp: validateCommandValue_def Let_def MaxPlaintextBytes_def service_MaxVaultTextBytes_def split: if_splits)
  have auth: "kind actor = KindAnonymous \<or>
      (\<exists>evaluate scope. svc_authorizer s = Some evaluate \<and> kind actor \<in> {KindSession, KindBearer} \<and>
        (\<exists>allowed. evaluate (t + 9) actor (operationChecks command) = Inr allowed \<and>
           length allowed = length (operationChecks command) \<and> list_all id allowed) \<and>
        RequiredScope (cmd_Operation command) = Some scope \<and> (kind actor = KindBearer \<longrightarrow> HasScope actor scope))"
    using a unfolding authorize_None Preflight_None by (cases "kind actor") (auto simp: numeral_eq_Suc)
  have res: "case cmd_Operation command of
       OperationRotate \<Rightarrow>
         po_source p = Option.bind (svc_byID s (cmd_SourceProfileID command)) ce_executor \<and>
         po_destination p = Option.bind (svc_byID s (cmd_DestinationProfileID command)) ce_executor \<and>
         po_destination p \<noteq> None
     | _ \<Rightarrow> po_source p = Option.bind (svc_byID s (cmd_ProfileID command)) ce_executor"
    "po_source p \<noteq> None"
    using r unfolding resolveCommand_Inr by (auto split: Operation.splits)
  show ?thesis using s rest val auth res by blast
qed

theorem prepare_establishes_witness:
  "\<exists>p. Prepare demo_lib (\<lambda>_. False) demo_leased (Some demo_service) (Some demo_ctx) 0 Anonymous demo_command (Some 0) = Inr p \<and>
     utf8_valid (cmd_Value demo_command) \<and> po_operation p = OperationEncrypt"
proof -
  obtain p where p: "Prepare demo_lib (\<lambda>_. False) demo_leased (Some demo_service) (Some demo_ctx) 0 Anonymous demo_command (Some 0) = Inr p"
    using demo_prepared by blast
  from prepare_establishes [OF p] show ?thesis using p by (auto simp: demo_command_def empty_Command_def)
qed

text \<open>C24. A prepared operation runs at most once: after any run that returned, successful or not,
  every further run with any context, at any time and in any heap is refused without touching the
  heap.\<close>

theorem run_at_most_once:
  assumes "Prepare lib delivered h sp c t actor command lease = Inr p"
    "RunResult lib now delivered1 h1 (Some p) c1 t1 = Some (result1, pp, h2)"
  shows "RunResult lib now delivered2 h3 pp c2 t2 =
    Some (Inl (notReady ''prepared operation is not ready''), pp, h3)"
proof -
  obtain s ec r where p: "prepared_for lib delivered h s c t actor command lease ec r p"
    using Prepare_Inr [OF assms(1)] by blast
  have "po_source p \<noteq> None"
    using p unfolding prepared_for_def resolveCommand_Inr by (auto split: Operation.splits)
  moreover have "lease \<noteq> None" using p by (auto simp: prepared_for_def lease_bound_def split: option.splits)
  ultimately obtain q where "pp = Some q" "po_started q = Some True"
    using runResult_started [of lib now delivered1 h1 p c1 t1 result1 pp h2] assms(2) p
    unfolding RunResult_def prepared_for_def by auto
  then show ?thesis by (simp add: RunResult_def started_blocks)
qed

theorem run_at_most_once_witness:
  "\<exists>p r q h. Prepare demo_lib (\<lambda>_. False) demo_leased (Some demo_service) (Some demo_ctx) 0 Anonymous demo_command (Some 0) = Inr p \<and>
     RunResult demo_lib [] (\<lambda>_. False) demo_leased (Some p) (Some demo_ctx) 20 = Some (r, q, h) \<and>
     RunResult demo_lib [] (\<lambda>_. False) h q (Some demo_ctx) 50 =
       Some (Inl (notReady ''prepared operation is not ready''), q, h)"
  using demo_prepared demo_runs run_at_most_once by metis

text \<open>C27. A run returns what it took: when \<open>RunResult\<close> returns, the admissions, the leases and their
  mutexes are exactly as before. When it returns a value, the lease was live, bound to the caller's
  context, belonged to the service's admission and was not held by another operation; the value is what the
  executors returned, called on the execution context, which is cancelled with the prepared operation's context and
  with the caller's; and at a check before the first executor and at two checks after every call of an
  executor (and three more around an attestation) neither the caller's context nor the execution
  context nor the one the lease was taken with was cancelled.\<close>

theorem run_balanced:
  assumes "RunResult lib now delivered h (Some p) c t = Some (result, pp, h')"
  shows "lease_states h' = lease_states h \<and> admissions h' = admissions h \<and> fresh h' = fresh h \<and>
    (\<forall>r. result = Inr r \<longrightarrow>
       lease_bound h (po_lease p) c (svc_admission (the (po_service p))) \<and>
       (\<exists>l s. po_lease p = Some l \<and> lease_states h l = Some s \<and> \<not> held s) \<and>
       (\<exists>x pc ec. c = Some x \<and> po_context p = Some pc \<and> ec = mergeCancellationContexts delivered pc x \<and>
          executed p ec (t + 4) r \<and>
          (\<forall>u \<in> set ((t + 2) # operation_checks p (t + 4)).
             contextErr (po_lease p) c u = None \<and> contextErr (po_lease p) (Some ec) (u + 1) = None \<and>
             ctx_Err x u = None \<and> ctx_Err ec (u + 1) = None)))"
proof -
  have heap: "lease_states h' = lease_states h \<and> admissions h' = admissions h \<and> fresh h' = fresh h"
    using assms held_hold_release hold_false_heap
    unfolding RunResult_def runResult_def Let_def
    by (fastforce split: option.splits if_splits prod.splits bool.splits)
  moreover have "lease_bound h (po_lease p) c (svc_admission (the (po_service p)))"
      "\<exists>l s. po_lease p = Some l \<and> lease_states h l = Some s \<and> \<not> held s"
      "\<exists>x pc ec. c = Some x \<and> po_context p = Some pc \<and> ec = mergeCancellationContexts delivered pc x \<and>
         executed p ec (t + 4) r \<and>
         (\<forall>u \<in> set ((t + 2) # operation_checks p (t + 4)).
            contextErr (po_lease p) c u = None \<and> contextErr (po_lease p) (Some ec) (u + 1) = None \<and>
            ctx_Err x u = None \<and> ctx_Err ec (u + 1) = None)" if r: "result = Inr r" for r
  proof -
    obtain pc h1 ec where run: "po_context p = Some pc" "ec = mergeCancellationContexts delivered pc (the c)"
        "holdForContext h (po_lease p) c (svc_admission (the (po_service p))) = Some (True, h1)"
        "leaseMergedContextError c (Some ec) (po_lease p) (t + 2) = None"
        "run_operation lib now (p\<lparr>po_started := Some True\<rparr>) c ec (t + 4) = Inr r"
      using runResult_Inr [of lib now delivered h "Some p" c t r pp h'] assms r unfolding RunResult_def by auto
    note hold = hold_true_bound [OF run(3)]
    then show "lease_bound h (po_lease p) c (svc_admission (the (po_service p)))"
      "\<exists>l s. po_lease p = Some l \<and> lease_states h l = Some s \<and> \<not> held s" by blast+
    have checks: "leaseMergedContextError c (Some ec) (po_lease p) u = None" if "u \<in> set ((t + 2) # operation_checks p (t + 4))" for u
      using that run(4) run_checked [OF run(5)] by (auto simp: operation_checks_def)
    have "executed p ec (t + 4) r" using run_executed [OF run(5)] by simp
    moreover obtain x where "c = Some x" using leaseMerged_None [OF run(4)] by blast
    ultimately show "\<exists>x pc ec. c = Some x \<and> po_context p = Some pc \<and> ec = mergeCancellationContexts delivered pc x \<and>
         executed p ec (t + 4) r \<and>
         (\<forall>u \<in> set ((t + 2) # operation_checks p (t + 4)).
            contextErr (po_lease p) c u = None \<and> contextErr (po_lease p) (Some ec) (u + 1) = None \<and>
            ctx_Err x u = None \<and> ctx_Err ec (u + 1) = None)"
      using run(1,2) leaseMerged_parts [OF checks] hold by fastforce
  qed
  ultimately show ?thesis by blast
qed

definition demo_rotation :: PreparedOperation where
  "demo_rotation = \<lparr>po_service = Some demo_service, po_lease = Some 0, po_context = Some demo_ctx, po_actor = Anonymous,
     po_operation = OperationRotate, po_value = ''v'',
     po_source = Some \<lparr>pe_Encrypt = (\<lambda>_ _ _. Inr ''v''), pe_Decrypt = (\<lambda>_ _ _. Inr ''x'')\<rparr>,
     po_destination = Some \<lparr>pe_Encrypt = (\<lambda>_ _ v. Inr (''w'' @ v)), pe_Decrypt = (\<lambda>_ _ _. Inr [])\<rparr>,
     po_sourceID = ''dev'', po_destinationID = ''dev'', po_attestation = None, po_started = Some False\<rparr>"

lemma demo_rotation_runs:
  "\<exists>pp h. RunResult demo_lib [] (\<lambda>_. False) demo_leased (Some demo_rotation) (Some demo_ctx) 20 =
     Some (Inr \<lparr>rr_VaultText = ''wx'', rr_Attestation = None\<rparr>, pp, h)"
proof -
  have "run_operation demo_lib [] (demo_rotation\<lparr>po_started := Some True\<rparr>) (Some demo_ctx) (mergeCancellationContexts (\<lambda>_. False) demo_ctx demo_ctx) 24 =
      Inr \<lparr>rr_VaultText = ''wx'', rr_Attestation = None\<rparr>"
    by (simp add: run_operation_def demo_rotation_def Let_def validateResult_def utf8_valid_ascii MaxPlaintextBytes_def service_MaxVaultTextBytes_def)
  moreover have "svc_admission demo_service = Some 0" by (simp add: demo_service_def NewWithOptions_fields)
  ultimately show ?thesis
    using RunResult_calm [OF demo_issued demo_calm, of demo_rotation demo_service] by (simp add: demo_rotation_def)
qed

theorem run_balanced_witness:
  "\<exists>pp h r. RunResult demo_lib [] (\<lambda>_. False) demo_leased (Some demo_rotation) (Some demo_ctx) 20 = Some (Inr r, pp, h) \<and>
     lease_states h = lease_states demo_leased \<and>
     executed demo_rotation (mergeCancellationContexts (\<lambda>_. False) demo_ctx demo_ctx) 24 r \<and>
     ctx_Err demo_ctx 34 = None"
proof -
  obtain pp h r where r: "RunResult demo_lib [] (\<lambda>_. False) demo_leased (Some demo_rotation) (Some demo_ctx) 20 = Some (Inr r, pp, h)"
    using demo_rotation_runs by blast
  have c: "34 \<in> set ((20 + 2) # operation_checks demo_rotation (20 + 4))" by (simp add: operation_checks_def demo_rotation_def)
  have "po_context demo_rotation = Some demo_ctx" by (simp add: demo_rotation_def)
  with run_balanced [OF r] c have "lease_states h = lease_states demo_leased"
    "executed demo_rotation (mergeCancellationContexts (\<lambda>_. False) demo_ctx demo_ctx) 24 r" "ctx_Err demo_ctx 34 = None" by auto
  then show ?thesis using r by blast
qed

subsection \<open>Listing\<close>

lemma nth_concat_blocks:
  assumes "\<And>x. x \<in> set xs \<Longrightarrow> length (f x) = k" "i < length xs" "j < k"
  shows "concat (map f xs) ! (i * k + j) = f (xs ! i) ! j"
  using assms
proof (induction xs arbitrary: i)
  case (Cons x xs)
  then show ?case
    by (cases i) (auto simp: nth_append add.assoc)
qed simp

lemma length_concat_blocks:
  "(\<And>x. x \<in> set xs \<Longrightarrow> length (f x) = k) \<Longrightarrow> length (concat (map f xs)) = length xs * k"
  by (induction xs) auto

lemma length_listing_checks: "length (listing_checks ids) = 1 + length ids * 2 + length ids * length ids"
  using length_concat_blocks [of ids profile_checks 2] length_concat_blocks [of ids "pair_checks ids" "length ids"]
  by (simp add: listing_checks_def profile_checks_def pair_checks_def)

lemma listing_check_profile:
  assumes "i < length ids" "j < 2"
  shows "listing_checks ids ! (1 + j + i * 2) = profile_checks (ids ! i) ! j"
proof -
  have k: "\<And>x. x \<in> set ids \<Longrightarrow> length (profile_checks x) = 2" by (simp add: profile_checks_def)
  have "i * 2 + j < length (concat (map profile_checks ids))" using length_concat_blocks [of ids, OF k] assms by simp
  then show ?thesis
    using nth_concat_blocks [of ids profile_checks 2 i j, OF k assms]
    by (simp add: listing_checks_def nth_append add.commute)
qed

lemma listing_check_pair:
  assumes "i < length ids" "j < length ids"
  shows "listing_checks ids ! (1 + length ids * 2 + i * length ids + j) =
    \<lparr>chk_Action = ActionRotate, chk_Resource = RotationResource (ids ! i) (ids ! j)\<rparr>"
proof -
  have k: "\<And>x. x \<in> set ids \<Longrightarrow> length (pair_checks ids x) = length ids" by (simp add: pair_checks_def)
  have l: "length (concat (map profile_checks ids)) = length ids * 2"
    by (rule length_concat_blocks) (simp add: profile_checks_def)
  have "listing_checks ids ! (1 + length ids * 2 + i * length ids + j) = concat (map (pair_checks ids) ids) ! (i * length ids + j)"
    by (simp add: listing_checks_def nth_append l)
  also have "\<dots> = pair_checks ids (ids ! i) ! j" by (rule nth_concat_blocks [of ids, OF k assms])
  finally show ?thesis using assms(2) by (simp add: pair_checks_def)
qed

text \<open>What a set of allowed pairs of one source adds to the profile at position \<open>k\<close>.\<close>

definition grant :: "string list \<Rightarrow> nat \<Rightarrow> nat list \<Rightarrow> nat \<Rightarrow> Profile \<Rightarrow> Profile" where
  "grant ids i J k p = p\<lparr>pr_Capabilities := (pr_Capabilities p)
     \<lparr>cap_RotateSource := cap_RotateSource (pr_Capabilities p) \<or> k = i \<and> J \<noteq> [],
      cap_RotateDestination := cap_RotateDestination (pr_Capabilities p) \<or> k \<in> set J,
      cap_RotateDestinationIDs := cap_RotateDestinationIDs (pr_Capabilities p) @ (if k = i then map ((!) ids) J else [])\<rparr>\<rparr>"

lemma grant_ID [simp]: "pr_ID (grant ids i J k p) = pr_ID p"
  by (simp add: grant_def)

lemma grant_none [simp]: "grant ids i [] k p = p"
  by (cases p; cases "pr_Capabilities p") (simp add: grant_def)

lemma grant_grant: "grant ids i J k (grant ids i [j] k p) = grant ids i (j # J) k p"
  by (cases p) (auto simp: grant_def)

lemma allow_pair_grant:
  assumes "i < length ps" "j < length ps" "map pr_ID ps = ids"
  shows "allow_pair i j ps = map (\<lambda>k. grant ids i [j] k (ps ! k)) [0..<length ps]"
proof (rule nth_equalityI)
  fix k assume "k < length (allow_pair i j ps)"
  then have k: "k < length ps" by (simp add: allow_pair_def Let_def)
  have "ids ! j = pr_ID (ps ! j)" using assms by auto
  then show "allow_pair i j ps ! k = map (\<lambda>k. grant ids i [j] k (ps ! k)) [0..<length ps] ! k"
    using assms k by (cases "k = i"; cases "k = j") (auto simp: allow_pair_def Let_def grant_def nth_list_update)
qed (simp add: allow_pair_def Let_def)

lemma pair_row_grant:
  assumes "i < length ps" "\<forall>j\<in>set js. j < length ps" "map pr_ID ps = ids"
  shows "pair_row allowed n i js ps =
    map (\<lambda>k. grant ids i (filter (\<lambda>j. allowed ! (1 + n * 2 + i * n + j)) js) k (ps ! k)) [0..<length ps]"
  using assms
proof (induction js arbitrary: ps)
  case Nil
  then show ?case by (simp add: map_nth)
next
  case (Cons j js)
  show ?case
  proof (cases "allowed ! (1 + n * 2 + i * n + j)")
    case True
    let ?qs = "map (\<lambda>k. grant ids i [j] k (ps ! k)) [0..<length ps]"
    have ap: "allow_pair i j ps = ?qs" using Cons.prems by (intro allow_pair_grant) auto
    have "map pr_ID ?qs = ids" using Cons.prems(3) by (intro nth_equalityI) auto
    with Cons.IH [of ?qs] Cons.prems True ap show ?thesis by (auto simp: grant_grant)
  qed (use Cons in simp)
qed

text \<open>All rows: what every source adds.\<close>

lemma pair_row_length_ID [simp]:
  assumes "i < length ps" "\<forall>j\<in>set js. j < length ps"
  shows "length (pair_row allowed n i js ps) = length ps" "map pr_ID (pair_row allowed n i js ps) = map pr_ID ps"
  unfolding pair_row_grant [OF assms refl] by (auto intro: nth_equalityI)

definition rotation_view :: "(nat \<Rightarrow> nat \<Rightarrow> bool) \<Rightarrow> string list \<Rightarrow> nat list \<Rightarrow> nat \<Rightarrow> Profile \<Rightarrow> Profile" where
  "rotation_view ok ids is k p = p\<lparr>pr_Capabilities := (pr_Capabilities p)
     \<lparr>cap_RotateSource := cap_RotateSource (pr_Capabilities p) \<or> k \<in> set is \<and> (\<exists>j<length ids. ok k j),
      cap_RotateDestination := cap_RotateDestination (pr_Capabilities p) \<or> (\<exists>i\<in>set is. ok i k),
      cap_RotateDestinationIDs := cap_RotateDestinationIDs (pr_Capabilities p) @
        (if k \<in> set is then map ((!) ids) (filter (ok k) [0..<length ids]) else [])\<rparr>\<rparr>"

lemma pair_rows_view:
  assumes "distinct is" "\<forall>i\<in>set is. i < length ps" "map pr_ID ps = ids" "n = length ps"
  shows "pair_rows allowed n is ps =
    map (\<lambda>k. rotation_view (\<lambda>i j. allowed ! (1 + n * 2 + i * n + j)) ids is k (ps ! k)) [0..<length ps]"
  using assms
proof (induction "is" arbitrary: ps)
  case Nil
  have "rotation_view ok ids [] k p = p" for ok k p
    by (cases p; cases "pr_Capabilities p") (simp add: rotation_view_def)
  then show ?case by (simp add: map_nth)
next
  case (Cons i "is")
  let ?ok = "\<lambda>i j. allowed ! (1 + n * 2 + i * n + j)"
  let ?J = "filter (?ok i) [0..<n]"
  let ?qs = "pair_row allowed n i [0..<n] ps"
  have qs: "?qs = map (\<lambda>k. grant ids i ?J k (ps ! k)) [0..<length ps]"
    using Cons.prems by (intro pair_row_grant) auto
  have len: "length ids = n" using Cons.prems by auto
  have ih: "pair_rows allowed n is ?qs = map (\<lambda>k. rotation_view ?ok ids is k (?qs ! k)) [0..<length ?qs]"
    using Cons.prems by (intro Cons.IH) (auto simp: pair_row_length_ID)
  have "rotation_view ?ok ids is k (grant ids i ?J k p) = rotation_view ?ok ids (i # is) k p" if "k < n" for k p
  proof (cases "k = i")
    case True
    then have "k \<notin> set is" using Cons.prems(1) by simp
    moreover have "?J \<noteq> [] \<longleftrightarrow> (\<exists>j<length ids. ?ok i j)" using len by (auto simp: filter_empty_conv)
    ultimately show ?thesis using True that len
      by (cases p) (auto simp: rotation_view_def grant_def)
  next
    case False
    then show ?thesis using that by (cases p) (auto simp: rotation_view_def grant_def)
  qed
  note step = this
  have "pair_rows allowed n (i # is) ps = map (\<lambda>k. rotation_view ?ok ids is k (?qs ! k)) [0..<n]"
    using ih arg_cong [OF qs, of length] Cons.prems(4) by simp
  also have "\<dots> = map (\<lambda>k. rotation_view ?ok ids (i # is) k (ps ! k)) [0..<n]"
    unfolding qs using step Cons.prems(4) by (intro map_cong) simp_all
  finally show ?case using Cons.prems(4) by simp
qed

text \<open>The capabilities a decision function and the caller's scopes give a profile.\<close>

definition scoped :: "Caller \<Rightarrow> string \<Rightarrow> bool" where
  "scoped actor scope \<longleftrightarrow> (kind actor = KindBearer \<longrightarrow> HasScope actor scope)"

definition listed :: "(string \<Rightarrow> string \<Rightarrow> bool) \<Rightarrow> Caller \<Rightarrow> string list \<Rightarrow> catalogEntry \<Rightarrow> Profile" where
  "listed dec actor ids e =
     (let pid = pr_ID (ce_profile e);
          may = (\<lambda>src dst. scoped actor ScopeRotate \<and> dec ActionRotate (RotationResource src dst))
      in (ce_profile e)\<lparr>pr_Capabilities :=
        \<lparr>cap_Encrypt = (scoped actor ScopeEncrypt \<and> dec ActionEncrypt (ProfileResource pid)),
         cap_Decrypt = (scoped actor ScopeDecrypt \<and> dec ActionDecrypt (ProfileResource pid)),
         cap_RotateSource = list_ex (may pid) ids,
         cap_RotateDestination = list_ex (\<lambda>src. may src pid) ids,
         cap_RotateDestinationIDs = filter (may pid) ids\<rparr>\<rparr>)"

lemma context_loop_calm [simp]: "calm x \<Longrightarrow> context_loop (Some x) t n = None"
  by (induction n arbitrary: t) auto

lemma base_capabilities_listed:
  assumes "allowed = map (\<lambda>chk. dec (chk_Action chk) (chk_Resource chk)) (listing_checks ids)" "i < length ids"
  shows "base_capabilities actor allowed i =
    \<lparr>cap_Encrypt = (scoped actor ScopeEncrypt \<and> dec ActionEncrypt (ProfileResource (ids ! i))),
     cap_Decrypt = (scoped actor ScopeDecrypt \<and> dec ActionDecrypt (ProfileResource (ids ! i))),
     cap_RotateSource = False, cap_RotateDestination = False, cap_RotateDestinationIDs = []\<rparr>"
proof -
  have "allowed ! (1 + i * 2) = dec ActionEncrypt (ProfileResource (ids ! i))"
    "allowed ! (2 + i * 2) = dec ActionDecrypt (ProfileResource (ids ! i))"
    using assms(2) listing_check_profile [of i ids 0] listing_check_profile [of i ids 1] length_listing_checks [of ids]
    unfolding assms(1) by (simp_all add: profile_checks_def)
  then show ?thesis by (auto simp: base_capabilities_def Let_def scoped_def)
qed

lemma allowed_pair:
  assumes "allowed = map (\<lambda>chk. dec (chk_Action chk) (chk_Resource chk)) (listing_checks ids)" "i < length ids" "j < length ids"
  shows "allowed ! (1 + length ids * 2 + i * length ids + j) = dec ActionRotate (RotationResource (ids ! i) (ids ! j))"
proof -
  have "i * length ids + j < length ids * length ids"
  proof -
    have "i * length ids + j < Suc i * length ids" using assms(3) by simp
    also have "\<dots> \<le> length ids * length ids" using assms(2) by (intro mult_le_mono1) simp
    finally show ?thesis .
  qed
  then show ?thesis unfolding assms(1)
    using listing_check_pair [OF assms(2,3)] length_listing_checks [of ids] by simp
qed

lemma listing_rows:
  assumes "allowed = map (\<lambda>chk. dec (chk_Action chk) (chk_Resource chk)) (listing_checks ids)"
    "ids = map (\<lambda>e. pr_ID (ce_profile e)) es" "n = length es"
    "ps = map (\<lambda>i. with_capabilities (base_capabilities actor allowed i) (es ! i)) [0..<n]"
  shows "(if scoped actor ScopeRotate then pair_rows allowed n [0..<n] ps else ps) = map (listed dec actor ids) es"
proof (rule nth_equalityI)
  have len: "length ids = n" "length ps = n" using assms(2-4) by simp_all
  have pids: "map pr_ID ps = ids"
    unfolding assms(2,4) by (rule nth_equalityI) (simp_all add: assms(3) with_capabilities_def)
  have rows: "pair_rows allowed n [0..<n] ps =
      map (\<lambda>k. rotation_view (\<lambda>i j. allowed ! (1 + n * 2 + i * n + j)) ids [0..<n] k (ps ! k)) [0..<n]"
    using pair_rows_view [of "[0..<n]" ps ids n allowed, OF _ _ pids len(2) [symmetric]] by (simp add: len(2))
  show "length (if scoped actor ScopeRotate then pair_rows allowed n [0..<n] ps else ps) = length (map (listed dec actor ids) es)"
    using arg_cong [OF rows, of length] len(2) assms(3) by simp
  fix k assume "k < length (if scoped actor ScopeRotate then pair_rows allowed n [0..<n] ps else ps)"
  then have k: "k < n" using arg_cong [OF rows, of length] len(2) by (simp split: if_splits)
  have psk: "ps ! k = with_capabilities (base_capabilities actor allowed k) (es ! k)" using assms(4) k by simp
  have idk: "ids ! k = pr_ID (ce_profile (es ! k))" using assms(2,3) k by simp
  note base = base_capabilities_listed [OF assms(1), of k actor, unfolded len idk, OF k]
  show "(if scoped actor ScopeRotate then pair_rows allowed n [0..<n] ps else ps) ! k = map (listed dec actor ids) es ! k"
  proof (cases "scoped actor ScopeRotate")
    case False
    then show ?thesis using psk base k assms(3)
      by (simp add: listed_def with_capabilities_def Let_def list_ex_iff)
  next
    case True
    have ok: "allowed ! (1 + n * 2 + i * n + j) = dec ActionRotate (RotationResource (ids ! i) (ids ! j))"
      if "i < n" "j < n" for i j
      using allowed_pair [OF assms(1), of i j] that len by simp
    have src: "(\<exists>j<n. allowed ! (1 + n * 2 + k * n + j)) \<longleftrightarrow> list_ex (\<lambda>dst. dec ActionRotate (RotationResource (ids ! k) dst)) ids"
      using ok k len by (auto simp: list_ex_length)
    have dst: "(\<exists>i\<in>set [0..<n]. allowed ! (1 + n * 2 + i * n + k)) \<longleftrightarrow> list_ex (\<lambda>s. dec ActionRotate (RotationResource s (ids ! k))) ids"
      using ok k len by (auto simp: list_ex_length)
    have "map ((!) ids) (filter (\<lambda>j. allowed ! (1 + n * 2 + k * n + j)) [0..<n]) =
        map ((!) ids) (filter ((\<lambda>dst. dec ActionRotate (RotationResource (ids ! k) dst)) \<circ> (!) ids) [0..<n])"
      using ok k by (intro arg_cong [where f = "map ((!) ids)"] filter_cong) auto
    also have "\<dots> = filter (\<lambda>dst. dec ActionRotate (RotationResource (ids ! k) dst)) ids"
      unfolding filter_map [symmetric] using len map_nth [of ids] by simp
    finally have fl: "map ((!) ids) (filter (\<lambda>j. allowed ! (1 + n * 2 + k * n + j)) [0..<n]) =
      filter (\<lambda>dst. dec ActionRotate (RotationResource (ids ! k) dst)) ids" .
    have "(if scoped actor ScopeRotate then pair_rows allowed n [0..<n] ps else ps) ! k =
        rotation_view (\<lambda>i j. allowed ! (1 + n * 2 + i * n + j)) ids [0..<n] k (ps ! k)"
      using True rows k by simp
    also have "\<dots> = listed dec actor ids (es ! k)"
      unfolding rotation_view_def len src dst fl psk base listed_def Let_def with_capabilities_def
      using True k by (simp add: idk)
    finally show ?thesis using k assms(3) by simp
  qed
qed

lemma ListProfiles_decided:
  assumes "svc_ready s" "svc_authorizer s = Some evaluate" "kind actor \<in> {KindSession, KindBearer}" "calm x"
    "scoped actor ScopeProfileRead"
    "evaluate (t + 1 + length (svc_profiles s)) actor (listing_checks (catalog_ids s)) = answer"
  shows "ListProfiles (Some s) (Some x) t actor =
    (case answer of
       Inl _ \<Rightarrow> Inl (notReady ''authorization is not ready'')
     | Inr allowed \<Rightarrow>
         if length allowed \<noteq> length (listing_checks (catalog_ids s)) then Inl (notReady ''authorization is not ready'')
         else if \<not> allowed ! 0 then Inr []
         else Inr (filter (\<lambda>p. any_capability (pr_Capabilities p))
           (let n = length (svc_profiles s);
                ps = map (\<lambda>i. with_capabilities (base_capabilities actor allowed i) (svc_profiles s ! i)) [0..<n]
            in if scoped actor ScopeRotate then pair_rows allowed n [0..<n] ps else ps)))"
proof -
  have "PreflightProfiles (Some s) (Some x) t actor = None"
    using assms(1,3,4,5) by (auto simp: PreflightProfiles_def Ready_def scoped_def)
  moreover have "(kind actor \<noteq> KindBearer \<or> HasScope actor ScopeRotate) = scoped actor ScopeRotate"
    by (auto simp: scoped_def)
  moreover have "check_err (if scoped actor ScopeRotate then context_loop (Some x) u m else None) r = (r :: svc_error + Profile list)" for u m r
    using assms(4) by simp
  ultimately show ?thesis
    using assms(2-4,6) unfolding ListProfiles_def Let_def
    by (cases "kind actor") (auto split: sum.splits)
qed

text \<open>Listing: with a policy authoriser and a context that is not cancelled, a caller entitled to
  list either gets an error because the policy cannot be evaluated, or the result is determined by
  one loaded policy: nothing when the policy does not let the caller list, and otherwise, in
  catalogue order, exactly the profiles with at least one capability, where each capability is the
  policy's decision for that action and resource (for a rotation, the exact ordered pair)
  restricted by the scopes of a bearer token, and the destinations are listed in catalogue
  order.\<close>

lemma list_profiles_exact:
  assumes "casbin_ok cb" "\<And>u. loaded_authorizer cb csv (auth u)" "svc_ready s"
    "svc_authorizer s = Some (\<lambda>u. evaluator cb csv (fs u) (auth u))"
    "kind actor \<in> {KindSession, KindBearer}" "scoped actor ScopeProfileRead" "calm x"
  shows "ListProfiles (Some s) (Some x) t actor = Inl (notReady ''authorization is not ready'') \<or>
    (\<exists>q fs' pth pids. LoadPolicy cb csv fs' pth pids = Inr q \<and>
       ListProfiles (Some s) (Some x) t actor =
         Inr (if policy_allows q actor ActionListProfiles ResourceProfiles
              then filter (\<lambda>p. any_capability (pr_Capabilities p))
                     (map (listed (policy_allows q actor) actor (catalog_ids s)) (svc_profiles s))
              else []))"
proof -
  let ?u = "t + 1 + length (svc_profiles s)" and ?checks = "listing_checks (catalog_ids s)"
  define answer where "answer = evaluator cb csv (fs ?u) (auth ?u) actor ?checks"
  note dec = ListProfiles_decided [OF assms(3,4,5,7,6) answer_def [symmetric]]
  show ?thesis
  proof (cases answer)
    case (Inl err)
    then show ?thesis using dec by simp
  next
    case (Inr allowed)
    with loaded_evaluator [OF assms(1,2)] obtain q fs' pth pids
      where q: "LoadPolicy cb csv fs' pth pids = Inr q"
        "allowed = map (\<lambda>chk. policy_allows q actor (chk_Action chk) (chk_Resource chk)) ?checks"
      unfolding answer_def by blast
    have len: "length allowed = length ?checks" unfolding q(2) by simp
    have "allowed ! 0 = policy_allows q actor ActionListProfiles ResourceProfiles"
      unfolding q(2) by (simp add: listing_checks_def)
    then have "ListProfiles (Some s) (Some x) t actor =
         Inr (if policy_allows q actor ActionListProfiles ResourceProfiles
              then filter (\<lambda>p. any_capability (pr_Capabilities p))
                     (map (listed (policy_allows q actor) actor (catalog_ids s)) (svc_profiles s))
              else [])"
      using dec [unfolded Inr sum.case Let_def, unfolded listing_rows [OF q(2) catalog_ids_def refl refl]] len
      by simp
    then show ?thesis using q(1) by blast
  qed
qed

text \<open>In the demonstration deployment with its policy, the session caller sees the two profiles:
  one to encrypt with and to rotate from, the other to rotate to.\<close>

definition demo_authorized :: Service where
  "demo_authorized = demo_service\<lparr>svc_authorizer := Some (\<lambda>u. evaluator demo_casbin demo_csv demo_fs (Some \<lparr>policy = Some demo_policy\<rparr>))\<rparr>"

lemma demo_loaded_authorizer: "loaded_authorizer demo_casbin demo_csv (Some \<lparr>policy = Some demo_policy\<rparr>)"
  unfolding loaded_authorizer_def using demo_policy_loads by auto

end
