(* ===== verification/Random_Source.thy ===== *)
theory Random_Source
  imports Prelude Complex_Main "HOL-Library.FuncSet"
begin

text \<open>
  Randomness as package generate consumes it. A random source is the sequence of bytes it will
  still deliver; a read that wants more than is left fails, as \<open>io.ReadFull\<close> does on a source that
  ends or reports an error. \<open>rand_Int\<close> is \<open>crypto/rand.Int\<close>: rejection sampling on the number of
  bits of \<open>max - 1\<close>.

  A sampling routine is a value of type \<open>gen\<close>: it returns, gives up, or draws a number below a
  bound and goes on. \<open>run_gen\<close> runs it on a source; \<open>prob\<close> is the distribution of its result when
  every draw is uniform.
\<close>

section \<open>Sources\<close>

definition io_ReadFull :: "nat \<Rightarrow> go_bytes \<Rightarrow> go_bytes option \<times> go_bytes" where
  "io_ReadFull n r = (if length r < n then (None, []) else (Some (take n r), drop n r))"

definition SetBytes :: "go_bytes \<Rightarrow> nat" where
  "SetBytes bs = foldl (\<lambda>n c. 256 * n + of_char c) 0 bs"

fun BitLen :: "nat \<Rightarrow> nat" where
  "BitLen n = (if n = 0 then 0 else Suc (BitLen (n div 2)))"

declare BitLen.simps [simp del]

text \<open>The first byte keeps its \<open>b\<close> low bits.\<close>

definition mask_first :: "nat \<Rightarrow> go_bytes \<Rightarrow> go_bytes" where
  "mask_first b bs = (case bs of [] \<Rightarrow> [] | c # cs \<Rightarrow> char_of (of_char c mod 2 ^ b :: nat) # cs)"

function rand_loop :: "nat \<Rightarrow> nat \<Rightarrow> nat \<Rightarrow> go_bytes \<Rightarrow> nat option \<times> go_bytes" where
  "rand_loop k b m r =
     (if k = 0 \<or> length r < k then (None, [])
      else let n = SetBytes (mask_first b (take k r)) in
        if n < m then (Some n, drop k r) else rand_loop k b m (drop k r))"
  by pat_completeness auto
termination by (relation "measure (\<lambda>(k, b, m, r). length r)") auto

declare rand_loop.simps [simp del]

definition rand_Int :: "nat \<Rightarrow> go_bytes \<Rightarrow> nat option \<times> go_bytes" where
  "rand_Int m r =
     (let bitLen = BitLen (m - 1) in
      if bitLen = 0 then (Some 0, r)
      else let k = (bitLen + 7) div 8; b = (if bitLen mod 8 = 0 then 8 else bitLen mod 8)
        in rand_loop k b m r)"

section \<open>Sampling routines\<close>

datatype 'a gen = Ret 'a | Abort | Draw nat "nat \<Rightarrow> 'a gen"

primrec gbind :: "'a gen \<Rightarrow> ('a \<Rightarrow> 'b gen) \<Rightarrow> 'b gen" where
  "gbind (Ret x) f = f x"
| "gbind Abort f = Abort"
| "gbind (Draw n g) f = Draw n (\<lambda>v. gbind (g v) f)"

definition gmap :: "('a \<Rightarrow> 'b) \<Rightarrow> 'a gen \<Rightarrow> 'b gen" where
  "gmap h g = gbind g (\<lambda>x. Ret (h x))"

primrec run_gen :: "'a gen \<Rightarrow> go_bytes \<Rightarrow> 'a option \<times> go_bytes" where
  "run_gen (Ret x) r = (Some x, r)"
| "run_gen Abort r = (None, r)"
| "run_gen (Draw n f) r =
     (case rand_Int n r of (None, r') \<Rightarrow> (None, r') | (Some v, r') \<Rightarrow> (run_gen (f v) r'))"

primrec prob :: "'a gen \<Rightarrow> 'a \<Rightarrow> rat" where
  "prob (Ret y) x = (if x = y then 1 else 0)"
| "prob Abort x = 0"
| "prob (Draw n f) x = (\<Sum>v<n. prob (f v) x) / of_nat n"

text \<open>The values a routine can return, and the routines that always return one and never draw below
  zero bounds.\<close>

primrec outcomes :: "'a gen \<Rightarrow> 'a set" where
  "outcomes (Ret x) = {x}"
| "outcomes Abort = {}"
| "outcomes (Draw n f) = (\<Union>v<n. outcomes (f v))"

primrec sure :: "'a gen \<Rightarrow> bool" where
  "sure (Ret x) = True"
| "sure Abort = False"
| "sure (Draw n f) = (0 < n \<and> (\<forall>v<n. sure (f v)))"

section \<open>Lemmas\<close>

subsection \<open>Sources\<close>

lemma rand_loop_bound: "rand_loop k b m r = (Some n, r') \<Longrightarrow> n < m"
proof (induction k b m r rule: rand_loop.induct)
  case (1 k b m r)
  from 1(2) show ?case by (subst (asm) rand_loop.simps) (auto simp: Let_def 1(1) split: if_splits)
qed

lemma BitLen_zero [simp]: "BitLen n = 0 \<longleftrightarrow> n = 0"
  by (subst BitLen.simps) simp

lemma rand_Int_bound:
  assumes "rand_Int m r = (Some n, r')" "0 < m"
  shows "n < m"
  using assms by (auto simp: rand_Int_def Let_def dest: rand_loop_bound split: if_splits)

lemma rand_loop_suffix: "rand_loop k b m r = (x, r') \<Longrightarrow> \<exists>used. r = used @ r'"
proof (induction k b m r rule: rand_loop.induct)
  case (1 k b m r)
  show ?case
  proof (cases "k = 0 \<or> length r < k \<or> SetBytes (mask_first b (take k r)) < m")
    case True
    then show ?thesis using 1(2) by (subst (asm) rand_loop.simps) (auto simp: Let_def split: if_splits intro: exI [of _ "take k r"])
  next
    case False
    then have "rand_loop k b m (drop k r) = (x, r')" using 1(2) by (subst (asm) rand_loop.simps) (auto simp: Let_def)
    then obtain used where "drop k r = used @ r'" using 1(1) False by auto
    then have "r = (take k r @ used) @ r'" by (metis append.assoc append_take_drop_id)
    then show ?thesis by blast
  qed
qed

lemma BitLen_upper: "n < 2 ^ BitLen n"
proof (induction n rule: BitLen.induct)
  case (1 n)
  show ?case
  proof (cases "n = 0")
    case False
    then have "n div 2 < 2 ^ BitLen (n div 2)" using 1 by simp
    then have "n < 2 * 2 ^ BitLen (n div 2)" by simp
    then show ?thesis using False by (subst BitLen.simps) simp
  qed (simp add: BitLen.simps)
qed

subsection \<open>Distributions\<close>

lemma prob_nonneg: "0 \<le> prob g x"
  by (induction g) (auto intro!: sum_nonneg divide_nonneg_nonneg)

lemma prob_outside: "x \<notin> outcomes g \<Longrightarrow> prob g x = 0"
  by (induction g) auto

lemma outcomes_finite: "finite (outcomes g)"
  by (induction g) auto

lemma prob_total:
  assumes "sure g"
  shows "(\<Sum>x\<in>outcomes g. prob g x) = 1"
  using assms
proof (induction g)
  case (Draw n f)
  have sub: "(\<Sum>x\<in>outcomes (Draw n f). prob (f v) x) = 1" if "v < n" for v
  proof -
    have "(\<Sum>x\<in>outcomes (Draw n f). prob (f v) x) = (\<Sum>x\<in>outcomes (f v). prob (f v) x)"
      using that by (intro sum.mono_neutral_right) (auto simp: prob_outside intro: outcomes_finite)
    then show ?thesis using Draw that by auto
  qed
  have "(\<Sum>x\<in>outcomes (Draw n f). prob (Draw n f) x) = (\<Sum>x\<in>outcomes (Draw n f). \<Sum>v<n. prob (f v) x) / of_nat n"
    by (simp add: sum_divide_distrib)
  also have "\<dots> = (\<Sum>v<n. \<Sum>x\<in>outcomes (Draw n f). prob (f v) x) / of_nat n" by (subst sum.swap) rule
  also have "\<dots> = 1" using sub Draw.prems by simp
  finally show ?case .
qed auto

lemma prob_pos:
  assumes "sure g" "x \<in> outcomes g"
  shows "0 < prob g x"
  using assms
proof (induction g)
  case (Draw n f)
  then obtain v where v: "v < n" "x \<in> outcomes (f v)" by auto
  then have "0 < prob (f v) x" using Draw by auto
  then have "0 < (\<Sum>v<n. prob (f v) x)" using v(1) by (intro sum_pos2 [of _ v]) (auto intro: prob_nonneg)
  then show ?case using v(1) by simp
qed auto

lemma sure_bind: "sure g \<Longrightarrow> (\<And>x. x \<in> outcomes g \<Longrightarrow> sure (f x)) \<Longrightarrow> sure (gbind g f)"
  by (induction g) fastforce+

lemma outcomes_bind: "outcomes (gbind g f) = (\<Union>x\<in>outcomes g. outcomes (f x))"
  by (induction g) auto

lemma sure_gmap [simp]: "sure (gmap h g) = sure g"
  by (induction g) (auto simp: gmap_def)

lemma outcomes_gmap [simp]: "outcomes (gmap h g) = h ` outcomes g"
  by (auto simp: gmap_def outcomes_bind)

lemma gmap_simps [simp]:
  "gmap h (Ret x) = Ret (h x)" "gmap h Abort = Abort" "gmap h (Draw n f) = Draw n (\<lambda>v. gmap h (f v))"
  by (simp_all add: gmap_def)

lemma prob_gmap_Cons: "prob (gmap ((#) c) g) (d # xs) = (if c = d then prob g xs else 0)"
  by (induction g) auto

lemma prob_gmap_Nil [simp]: "prob (gmap ((#) c) g) [] = 0"
  by (induction g) auto

text \<open>When only one intermediate value can lead to a result.\<close>

lemma prob_bind_unique:
  "(\<And>y. y \<noteq> k \<Longrightarrow> prob (f y) x = 0) \<Longrightarrow> prob (gbind g f) x = prob g k * prob (f k) x"
  by (induction g) (auto simp: sum_distrib_right)

lemma run_gen_outcome: "sure g \<Longrightarrow> run_gen g r = (Some x, r') \<Longrightarrow> x \<in> outcomes g"
proof (induction g arbitrary: r)
  case (Draw n f)
  then obtain v r1 where v: "rand_Int n r = (Some v, r1)" "run_gen (f v) r1 = (Some x, r')"
    by (auto split: prod.splits option.splits)
  then have "v < n" using rand_Int_bound Draw.prems(1) by auto
  then have "x \<in> outcomes (f v)" using Draw.IH [OF rangeI] Draw.prems(1) v(2) by auto
  then show ?case using \<open>v < n\<close> by auto
qed auto

text \<open>Walking through weights: the value whose interval contains the rank.\<close>

fun pick :: "('v \<times> nat) list \<Rightarrow> nat \<Rightarrow> 'v option" where
  "pick [] r = None"
| "pick ((v, w) # vs) r = (if r < w then Some v else pick vs (r - w))"

lemma sum_lessThan_add:
  fixes G :: "nat \<Rightarrow> rat"
  shows "(\<Sum>r<w + s. G r) = (\<Sum>r<w. G r) + (\<Sum>r<s. G (r + w))"
  by (induction s) (simp_all add: add.commute)

lemma sum_pick:
  fixes F :: "'v option \<Rightarrow> rat"
  shows "(\<Sum>r<sum_list (map snd vs). F (pick vs r)) = (\<Sum>(v, w)\<leftarrow>vs. of_nat w * F (Some v))"
proof (induction vs)
  case (Cons p vs)
  obtain v w where p: "p = (v, w)" by (cases p)
  let ?S = "sum_list (map snd vs)"
  show ?case using Cons sum_lessThan_add [of "\<lambda>r. F (pick ((v, w) # vs) r)" w ?S] p by simp
qed simp

lemma pick_total: "r < sum_list (map snd vs) \<Longrightarrow> \<exists>v. pick vs r = Some v"
proof (induction vs arbitrary: r)
  case (Cons p vs)
  then show ?case by (cases p) (auto simp: less_diff_conv2 intro: Cons.IH)
qed simp

lemma pick_member: "pick vs r = Some v \<Longrightarrow> \<exists>w. (v, w) \<in> set vs \<and> 0 < w"
  by (induction vs r rule: pick.induct) (auto split: if_splits)

subsection \<open>One round of the rejection loop\<close>

lemma SetBytes_snoc: "SetBytes (bs @ [c]) = 256 * SetBytes bs + of_char c"
  by (simp add: SetBytes_def)

lemma byte_less [simp]: "(of_char c :: nat) < 256"
  using range_nat_of_char by (metis atLeastLessThan_iff rangeI)

lemma SetBytes_Cons: "SetBytes (c # cs) = of_char c * 256 ^ length cs + SetBytes cs"
proof (induction cs rule: rev_induct)
  case Nil
  then show ?case by (simp add: SetBytes_def)
next
  case (snoc x xs)
  then show ?case using SetBytes_snoc [of "c # xs" x] SetBytes_snoc [of xs x] by (simp add: algebra_simps)
qed

lemma SetBytes_upper: "SetBytes bs < 256 ^ length bs"
proof (induction bs)
  case (Cons c cs)
  have "of_char c * 256 ^ length cs + SetBytes cs < (of_char c + 1) * (256 :: nat) ^ length cs" using Cons by simp
  also have "\<dots> \<le> 256 * 256 ^ length cs"
  proof (rule mult_right_mono)
    show "of_char c + 1 \<le> (256 :: nat)" using byte_less [of c] by linarith
  qed simp
  finally show ?case by (simp add: SetBytes_Cons)
qed (simp add: SetBytes_def)

lemma SetBytes_unique: "n < 256 ^ k \<Longrightarrow> \<exists>!bs. length bs = k \<and> SetBytes bs = n"
proof (induction k arbitrary: n)
  case 0
  then show ?case by (auto simp: SetBytes_def)
next
  case (Suc k)
  then have "n div 256 < 256 ^ k" by (simp add: less_mult_imp_div_less mult.commute)
  then obtain bs where bs: "length bs = k" "SetBytes bs = n div 256"
      and u: "\<And>cs. length cs = k \<Longrightarrow> SetBytes cs = n div 256 \<Longrightarrow> cs = bs"
    using Suc.IH by blast
  let ?x = "bs @ [char_of (n mod 256)]"
  show ?case
  proof (rule ex1I [of _ ?x])
    show "length ?x = Suc k \<and> SetBytes ?x = n" using bs by (simp add: SetBytes_snoc)
    fix cs assume cs: "length cs = Suc k \<and> SetBytes cs = n"
    then obtain ds d where d: "cs = ds @ [d]" by (cases cs rule: rev_cases) auto
    have "SetBytes ds = n div 256 \<and> of_char d = n mod 256"
      using cs d by (auto simp: SetBytes_snoc)
    then show "cs = ?x" using u cs d by (metis char_of_char diff_Suc_1 length_append_singleton)
  qed
qed

lemma residue_count:
  assumes "b \<le> 8" "q < 2 ^ b"
  shows "card {c. (of_char c :: nat) mod 2 ^ b = q} = 2 ^ (8 - b)"
proof -
  have "{c. (of_char c :: nat) mod 2 ^ b = q} = (\<lambda>j. char_of (q + 2 ^ b * j)) ` {..<2 ^ (8 - b)}" (is "?L = ?R")
  proof (intro set_eqI iffI)
    fix c assume "c \<in> ?L"
    then have c: "(of_char c :: nat) = q + 2 ^ b * (of_char c div 2 ^ b)"
      using mod_mult_div_eq [of "of_char c :: nat" "2 ^ b"] by simp
    have "(2 :: nat) ^ b * 2 ^ (8 - b) = 256" using assms(1) by (simp flip: power_add)
    then have "(of_char c :: nat) div 2 ^ b < 2 ^ (8 - b)"
      using byte_less [of c] by (intro less_mult_imp_div_less) (simp add: mult.commute)
    moreover have "c = char_of (q + 2 ^ b * (of_char c div 2 ^ b))" using c by (simp flip: c)
    ultimately show "c \<in> ?R" by blast
  next
    fix c assume "c \<in> ?R"
    then obtain j where j: "j < 2 ^ (8 - b)" "c = char_of (q + 2 ^ b * j)" by auto
    have "q + 2 ^ b * j < 2 ^ b * Suc j" using assms(2) by simp
    also have "\<dots> \<le> 2 ^ b * 2 ^ (8 - b)" using j(1) by (intro mult_left_mono) auto
    also have "\<dots> = 256" using assms(1) by (simp flip: power_add)
    finally have "(of_char c :: nat) = q + 2 ^ b * j" using j(2) by simp
    then show "c \<in> ?L" using assms(2) by simp
  qed
  moreover have "inj_on (\<lambda>j. char_of (q + 2 ^ b * j) :: char) {..<2 ^ (8 - b)}"
  proof (rule inj_onI)
    fix i j assume ij: "i \<in> {..<2 ^ (8 - b)}" "j \<in> {..<2 ^ (8 - b)}" "(char_of (q + 2 ^ b * i) :: char) = char_of (q + 2 ^ b * j)"
    have "q + 2 ^ b * x < 256" if "x < 2 ^ (8 - b)" for x :: nat
    proof -
      have "q + 2 ^ b * x < 2 ^ b * Suc x" using assms(2) by simp
      also have "\<dots> \<le> 2 ^ b * 2 ^ (8 - b)" using that by (intro mult_left_mono) auto
      finally show ?thesis using assms(1) by (simp flip: power_add)
    qed
    then have "q + 2 ^ b * i = q + 2 ^ b * j" using ij(1,2) arg_cong [OF ij(3), of "of_char :: char \<Rightarrow> nat"] by simp
    then show "i = j" by simp
  qed
  ultimately show ?thesis by (simp add: card_image)
qed

lemma round_uniform:
  assumes "1 \<le> b" "b \<le> 8" "v < 2 ^ (8 * k + b)"
  shows "card {bs. length bs = Suc k \<and> SetBytes (mask_first b bs) = v} = 2 ^ (8 - b)"
proof -
  have p: "(256 :: nat) ^ k = 2 ^ (8 * k)" by (simp add: power_mult)
  let ?q = "v div 256 ^ k"
  have q: "?q < 2 ^ b" using assms(3) unfolding p by (simp add: less_mult_imp_div_less power_add mult.commute)
  obtain cs where cs: "length cs = k" "SetBytes cs = v mod 256 ^ k"
      and u: "\<And>ds. length ds = k \<Longrightarrow> SetBytes ds = v mod 256 ^ k \<Longrightarrow> ds = cs"
    using SetBytes_unique [of "v mod 256 ^ k" k] by auto
  have m: "(of_char c mod 2 ^ b :: nat) < 256" for c by (meson byte_less le_less_trans mod_less_eq_dividend)
  have val: "SetBytes (mask_first b (c # ds)) = v \<longleftrightarrow> of_char c mod 2 ^ b = ?q \<and> SetBytes ds = v mod 256 ^ k"
    if "length ds = k" for c ds
  proof -
    have "SetBytes (mask_first b (c # ds)) = (of_char c mod 2 ^ b) * 256 ^ k + SetBytes ds"
      using m [of c] that by (simp add: mask_first_def SetBytes_Cons)
    moreover have "SetBytes ds < 256 ^ k" using SetBytes_upper [of ds] that by simp
    ultimately show ?thesis using div_mult_mod_eq [of v "256 ^ k"] by auto
  qed
  have "{bs. length bs = Suc k \<and> SetBytes (mask_first b bs) = v} = (\<lambda>c. c # cs) ` {c. (of_char c :: nat) mod 2 ^ b = ?q}"
  proof (intro set_eqI iffI)
    fix bs assume "bs \<in> {bs. length bs = Suc k \<and> SetBytes (mask_first b bs) = v}"
    then show "bs \<in> (\<lambda>c. c # cs) ` {c. (of_char c :: nat) mod 2 ^ b = ?q}"
      using val u by (cases bs) auto
  qed (use val cs in auto)
  then show ?thesis using residue_count [OF assms(2) q] by (simp add: card_image inj_on_def)
qed

end
