(* ===== verification/Generate.thy ===== *)
theory Generate
  imports Random_Source Encoding
begin

text \<open>
  Generation of passwords, tokens and age identities, \<open>backend/internal/generate\<close>: \<open>types.go\<close>,
  \<open>errors.go\<close>, \<open>password.go\<close>, \<open>token.go\<close> and \<open>age.go\<close>.

  Pointers to parameters are options. The counter of passwords works on the classes from an index
  on; the definitions here take the list of these classes. Its table of powers and its memo table
  hold values of \<open>power\<close> and of \<open>count_passwords\<close>; the memo table itself is \<open>count_memo\<close>. The
  generator's random source is the list of bytes it will deliver, \<open>None\<close> when the generator or its
  source is nil.
\<close>

section \<open>Data\<close>

datatype gen_error = ErrInvalidParameters | ErrGenerationFailed

definition PasswordFormat :: string where "PasswordFormat = ''password_ascii''"
definition TokenBase64Format :: string where "TokenBase64Format = ''token_base64url''"
definition TokenHexFormat :: string where "TokenHexFormat = ''token_hex''"
definition SSHPrivateFormat :: string where "SSHPrivateFormat = ''openssh_private_key''"
definition SSHPublicFormat :: string where "SSHPublicFormat = ''openssh_authorized_key''"
definition AgePrivateFormat :: string where "AgePrivateFormat = ''age_x25519_identity''"
definition AgePublicFormat :: string where "AgePublicFormat = ''age_x25519_recipient''"
definition X509PrivateFormat :: string where "X509PrivateFormat = ''pkcs8_private_key_pem''"
definition X509PublicFormat :: string where "X509PublicFormat = ''pkcs10_csr_pem''"

text \<open>The string types; every string that is not one of the named constants is an \<open>Other\<close>.\<close>

datatype TokenEncoding = TokenEncodingBase64URL | TokenEncodingHex | TokenEncodingOther string

datatype SSHAlgorithm =
    SSHAlgorithmEd25519 | SSHAlgorithmECDSAP256 | SSHAlgorithmRSA3072 | SSHAlgorithmRSA4096
  | SSHAlgorithmOther string

datatype X509Algorithm =
    X509AlgorithmEd25519 | X509AlgorithmECDSAP256 | X509AlgorithmECDSAP384 | X509AlgorithmRSA3072
  | X509AlgorithmRSA4096 | X509AlgorithmOther string

record PasswordParameters =
  pp_Length :: "int option"
  pp_Lowercase :: "bool option"
  pp_Uppercase :: "bool option"
  pp_Digits :: "bool option"
  pp_Symbols :: "bool option"
  pp_MinLowercase :: "int option"
  pp_MinUppercase :: "int option"
  pp_MinDigits :: "int option"
  pp_MinSymbols :: "int option"
  pp_ExcludeAmbiguous :: "bool option"

record EffectivePasswordParameters =
  ep_Length :: int
  ep_Lowercase :: bool
  ep_Uppercase :: bool
  ep_Digits :: bool
  ep_Symbols :: bool
  ep_MinLowercase :: int
  ep_MinUppercase :: int
  ep_MinDigits :: int
  ep_MinSymbols :: int
  ep_ExcludeAmbiguous :: bool

record TokenParameters =
  tp_Encoding :: "TokenEncoding option"
  tp_Bytes :: "int option"

record EffectiveTokenParameters =
  et_Encoding :: TokenEncoding
  et_Bytes :: int

text \<open>A slice that may be nil: transports leave a collection that is absent nil, and one that is supplied empty is not.\<close>

type_synonym slice = "string list option"

definition elements_of :: "slice \<Rightarrow> string list" where
  "elements_of vs = (case vs of None \<Rightarrow> [] | Some xs \<Rightarrow> xs)"

record X509Subject =
  CommonName :: "string option"
  SerialNumber :: "string option"
  Country :: slice
  Organization :: slice
  OrganizationalUnit :: slice
  Locality :: slice
  Province :: slice
  StreetAddress :: slice
  PostalCode :: slice

record X509SANs =
  DNSNames :: slice
  IPAddresses :: slice
  EmailAddresses :: slice
  URIs :: slice

record X509CSRParameters =
  xp_Algorithm :: X509Algorithm
  xp_Subject :: "X509Subject option"
  xp_SANs :: "X509SANs option"

record PasswordResult =
  pw_private :: go_bytes
  pw_parameters :: EffectivePasswordParameters

record TokenResult =
  tok_private :: go_bytes
  tok_parameters :: EffectiveTokenParameters
  tok_format :: string

record SSHKeyPairResult =
  ssh_private :: go_bytes
  ssh_algorithm :: SSHAlgorithm
  ssh_authorizedKey :: string
  ssh_fingerprint :: string

record AgeIdentityResult =
  age_private :: go_bytes
  age_recipient :: string

record X509CSRResult =
  x509_private :: go_bytes
  x509_algorithm :: X509Algorithm
  x509_csrPEM :: string
  x509_fingerprint :: string

section \<open>Passwords\<close>

definition minimumPasswordLength :: int where "minimumPasswordLength = 22"
definition maximumPasswordLength :: int where "maximumPasswordLength = 128"
definition maximumClassMinimum :: int where "maximumClassMinimum = 32"
definition lowercaseAlphabet :: string where "lowercaseAlphabet = ''abcdefghijklmnopqrstuvwxyz''"
definition uppercaseAlphabet :: string where "uppercaseAlphabet = ''ABCDEFGHIJKLMNOPQRSTUVWXYZ''"
definition digitAlphabet :: string where "digitAlphabet = ''0123456789''"
definition symbolAlphabet :: string where "symbolAlphabet = ''!#$%&()*+,-./:;<=>?@[]^_{|}~''"
definition ambiguousAlphabet :: string where "ambiguousAlphabet = ''0O1lI|''"
definition minimumPasswordCardinality :: nat where "minimumPasswordCardinality = 2 ^ 128"

record passwordClass =
  alphabet :: string
  minimum :: nat

definition intOrDefault :: "int option \<Rightarrow> int \<Rightarrow> int" where
  "intOrDefault v fallback = (case v of None \<Rightarrow> fallback | Some x \<Rightarrow> x)"

definition boolOrDefault :: "bool option \<Rightarrow> bool \<Rightarrow> bool" where
  "boolOrDefault v fallback = (case v of None \<Rightarrow> fallback | Some x \<Rightarrow> x)"

definition minimumOrDefault :: "int option \<Rightarrow> bool \<Rightarrow> int" where
  "minimumOrDefault v enabled = (case v of Some x \<Rightarrow> x | None \<Rightarrow> if enabled then 1 else 0)"

definition excludeAmbiguous :: "string \<Rightarrow> string" where
  "excludeAmbiguous alpha = filter (\<lambda>c. c \<notin> set ambiguousAlphabet) alpha"

text \<open>The loop over the class definitions (enabled, minimum, alphabet), with the classes and the
  total of the minima so far.\<close>

fun resolve_classes ::
  "bool \<Rightarrow> (bool \<times> int \<times> string) list \<Rightarrow> passwordClass list \<times> int \<Rightarrow> (passwordClass list \<times> int) option" where
  "resolve_classes exclude [] acc = Some acc"
| "resolve_classes exclude ((enabled, low, alpha) # rest) (classes, tot) =
     (if low < 0 \<or> low > maximumClassMinimum then None
      else if \<not> enabled then (if low \<noteq> 0 then None else resolve_classes exclude rest (classes, tot))
      else let chosen = (if exclude then excludeAmbiguous alpha else alpha) in
        if chosen = [] then None
        else resolve_classes exclude rest (classes @ [\<lparr>alphabet = chosen, minimum = nat low\<rparr>], tot + low))"

definition effective_password :: "PasswordParameters \<Rightarrow> EffectivePasswordParameters" where
  "effective_password p =
     (let lower = boolOrDefault (pp_Lowercase p) True;
          upper = boolOrDefault (pp_Uppercase p) True;
          digits = boolOrDefault (pp_Digits p) True;
          symbols = boolOrDefault (pp_Symbols p) False
      in \<lparr>ep_Length = intOrDefault (pp_Length p) 32, ep_Lowercase = lower, ep_Uppercase = upper,
          ep_Digits = digits, ep_Symbols = symbols,
          ep_MinLowercase = minimumOrDefault (pp_MinLowercase p) lower,
          ep_MinUppercase = minimumOrDefault (pp_MinUppercase p) upper,
          ep_MinDigits = minimumOrDefault (pp_MinDigits p) digits,
          ep_MinSymbols = minimumOrDefault (pp_MinSymbols p) symbols,
          ep_ExcludeAmbiguous = boolOrDefault (pp_ExcludeAmbiguous p) False\<rparr>)"

definition class_definitions :: "EffectivePasswordParameters \<Rightarrow> (bool \<times> int \<times> string) list" where
  "class_definitions e =
     [(ep_Lowercase e, ep_MinLowercase e, lowercaseAlphabet),
      (ep_Uppercase e, ep_MinUppercase e, uppercaseAlphabet),
      (ep_Digits e, ep_MinDigits e, digitAlphabet),
      (ep_Symbols e, ep_MinSymbols e, symbolAlphabet)]"

definition resolvePasswordParameters ::
  "PasswordParameters \<Rightarrow> gen_error + EffectivePasswordParameters \<times> passwordClass list" where
  "resolvePasswordParameters p =
     (let e = effective_password p in
      if ep_Length e < minimumPasswordLength \<or> ep_Length e > maximumPasswordLength then Inl ErrInvalidParameters
      else (case resolve_classes (ep_ExcludeAmbiguous e) (class_definitions e) ([], 0) of
        None \<Rightarrow> Inl ErrInvalidParameters
      | Some (classes, tot) \<Rightarrow>
          if classes = [] \<or> tot > ep_Length e then Inl ErrInvalidParameters else Inr (e, classes)))"

subsection \<open>Counting\<close>

definition suffixMinimum :: "passwordClass list \<Rightarrow> nat" where
  "suffixMinimum classes = sum_list (map minimum classes)"

text \<open>The class counts the loops of \<open>count\<close> and \<open>classCountForRank\<close> go through.\<close>

definition class_counts :: "passwordClass \<Rightarrow> passwordClass list \<Rightarrow> nat \<Rightarrow> nat list" where
  "class_counts c cs slots = [minimum c ..< Suc slots - suffixMinimum cs]"

fun count_passwords :: "passwordClass list \<Rightarrow> nat \<Rightarrow> nat" where
  "count_passwords [] slots = (if slots = 0 then 1 else 0)"
| "count_passwords (c # cs) slots =
     (\<Sum>n\<leftarrow>class_counts c cs slots.
        (slots choose n) * length (alphabet c) ^ n * count_passwords cs (slots - n))"

definition countWeight :: "passwordClass \<Rightarrow> passwordClass list \<Rightarrow> nat \<Rightarrow> nat \<Rightarrow> nat" where
  "countWeight c cs slots n =
     (slots choose n) * length (alphabet c) ^ n * count_passwords cs (slots - n)"

text \<open>The same count with the memo table: a cell holds the value for the classes from an index on
  and a number of slots.\<close>

type_synonym memo = "nat \<times> nat \<rightharpoonup> nat"

fun sum_memo :: "(nat \<Rightarrow> memo \<Rightarrow> nat \<times> memo) \<Rightarrow> (nat \<Rightarrow> nat) \<Rightarrow> nat \<Rightarrow> nat list \<Rightarrow> nat \<Rightarrow> memo \<Rightarrow> nat \<times> memo" where
  "sum_memo rest weight slots [] tot m = (tot, m)"
| "sum_memo rest weight slots (n # ns) tot m =
     (case rest (slots - n) m of
        (v, m1) \<Rightarrow> sum_memo rest weight slots ns (tot + weight n * v) m1)"

fun count_memo :: "nat \<Rightarrow> passwordClass list \<Rightarrow> nat \<Rightarrow> memo \<Rightarrow> nat \<times> memo" where
  "count_memo i [] slots m =
     (case m (i, slots) of
        Some cached \<Rightarrow> (cached, m)
      | None \<Rightarrow> let v = (if slots = 0 then 1 else 0) in (v, m((i, slots) \<mapsto> v)))"
| "count_memo i (c # cs) slots m =
     (case m (i, slots) of
        Some cached \<Rightarrow> (cached, m)
      | None \<Rightarrow>
          (case sum_memo (count_memo (Suc i) cs) (\<lambda>n. (slots choose n) * length (alphabet c) ^ n) slots
                  (class_counts c cs slots) 0 m of
             (tot, m1) \<Rightarrow> (tot, m1((i, slots) \<mapsto> tot))))"

subsection \<open>Sampling\<close>

definition classCountForRank :: "passwordClass \<Rightarrow> passwordClass list \<Rightarrow> nat \<Rightarrow> nat \<Rightarrow> nat option" where
  "classCountForRank c cs slots rank =
     (if rank \<ge> count_passwords (c # cs) slots then None
      else pick (map (\<lambda>n. (n, countWeight c cs slots n)) (class_counts c cs slots)) rank)"

text \<open>The last class gets what remains; a class with a single possible count draws nothing.\<close>

fun sampleClassCounts :: "passwordClass list \<Rightarrow> nat \<Rightarrow> nat list gen" where
  "sampleClassCounts [] remaining = Abort"
| "sampleClassCounts [c] remaining = Ret [remaining]"
| "sampleClassCounts (c # cs) remaining =
     (if minimum c + suffixMinimum cs = remaining
      then gmap ((#) (minimum c)) (sampleClassCounts cs (remaining - minimum c))
      else Draw (count_passwords (c # cs) remaining)
        (\<lambda>rank. case classCountForRank c cs remaining rank of
           None \<Rightarrow> Abort
         | Some selected \<Rightarrow> gmap ((#) selected) (sampleClassCounts cs (remaining - selected))))"

definition randomIndex :: "nat \<Rightarrow> nat gen" where
  "randomIndex limit = (if limit = 0 then Abort else if limit = 1 then Ret 0 else Draw limit Ret)"

definition selectRemainingClass :: "nat list \<Rightarrow> nat \<Rightarrow> nat gen" where
  "selectRemainingClass counts tot =
     (case filter (\<lambda>i. counts ! i \<noteq> 0) [0..<length counts] of
        [only] \<Rightarrow> Ret only
      | _ \<Rightarrow> gbind (randomIndex tot)
          (\<lambda>choice. case pick (zip [0..<length counts] counts) choice of None \<Rightarrow> Abort | Some i \<Rightarrow> Ret i))"

fun samplePasswordCharacters :: "nat \<Rightarrow> passwordClass list \<Rightarrow> nat list \<Rightarrow> string gen" where
  "samplePasswordCharacters 0 classes counts = Ret []"
| "samplePasswordCharacters (Suc n) classes counts =
     gbind (selectRemainingClass counts (Suc n)) (\<lambda>i.
     gbind (randomIndex (length (alphabet (classes ! i)))) (\<lambda>j.
     gmap ((#) (alphabet (classes ! i) ! j))
       (samplePasswordCharacters n classes (counts[i := counts ! i - 1]))))"

definition GeneratePassword ::
  "go_bytes option \<Rightarrow> PasswordParameters \<Rightarrow> (gen_error + PasswordResult) \<times> go_bytes option" where
  "GeneratePassword g params =
     (case resolvePasswordParameters params of
        Inl err \<Rightarrow> (Inl err, g)
      | Inr (effective, classes) \<Rightarrow>
          (case g of
             None \<Rightarrow> (Inl ErrGenerationFailed, g)
           | Some r \<Rightarrow>
               let n = nat (ep_Length effective) in
               if count_passwords classes n < minimumPasswordCardinality then (Inl ErrInvalidParameters, g)
               else (case run_gen (sampleClassCounts classes n) r of
                 (None, r1) \<Rightarrow> (Inl ErrGenerationFailed, Some r1)
               | (Some counts, r1) \<Rightarrow>
                   (case run_gen (samplePasswordCharacters n classes counts) r1 of
                      (None, r2) \<Rightarrow> (Inl ErrGenerationFailed, Some r2)
                    | (Some pw, r2) \<Rightarrow> (Inr \<lparr>pw_private = pw, pw_parameters = effective\<rparr>, Some r2)))))"

section \<open>Tokens\<close>

definition resolveTokenParameters :: "TokenParameters \<Rightarrow> gen_error + EffectiveTokenParameters \<times> string" where
  "resolveTokenParameters p =
     (let e = \<lparr>et_Encoding = (case tp_Encoding p of None \<Rightarrow> TokenEncodingBase64URL | Some x \<Rightarrow> x),
               et_Bytes = (case tp_Bytes p of None \<Rightarrow> 32 | Some n \<Rightarrow> n)\<rparr>
      in if et_Bytes e < 16 \<or> et_Bytes e > 64 then Inl ErrInvalidParameters
         else (case et_Encoding e of
           TokenEncodingBase64URL \<Rightarrow> Inr (e, TokenBase64Format)
         | TokenEncodingHex \<Rightarrow> Inr (e, TokenHexFormat)
         | TokenEncodingOther _ \<Rightarrow> Inl ErrInvalidParameters))"

definition GenerateToken ::
  "go_bytes option \<Rightarrow> TokenParameters \<Rightarrow> (gen_error + TokenResult) \<times> go_bytes option" where
  "GenerateToken g params =
     (case resolveTokenParameters params of
        Inl err \<Rightarrow> (Inl err, g)
      | Inr (effective, format) \<Rightarrow>
          (case g of
             None \<Rightarrow> (Inl ErrGenerationFailed, g)
           | Some r \<Rightarrow>
               (case io_ReadFull (nat (et_Bytes effective)) r of
                  (None, r1) \<Rightarrow> (Inl ErrGenerationFailed, Some r1)
                | (Some raw, r1) \<Rightarrow>
                    (case et_Encoding effective of
                       TokenEncodingBase64URL \<Rightarrow>
                         (Inr \<lparr>tok_private = base64_EncodeToString raw, tok_parameters = effective, tok_format = format\<rparr>, Some r1)
                     | TokenEncodingHex \<Rightarrow>
                         (Inr \<lparr>tok_private = hex_EncodeToString raw, tok_parameters = effective, tok_format = format\<rparr>, Some r1)
                     | TokenEncodingOther _ \<Rightarrow> (Inl ErrInvalidParameters, Some r1)))))"

section \<open>Age identities\<close>

text \<open>Package \<open>filippo.io/age\<close>: parsing an identity yields its canonical text and the text of its
  recipient; parsing a recipient yields its canonical text.\<close>

record age_lib =
  age_ParseX25519Identity :: "string \<Rightarrow> (string \<times> string) option"
  age_ParseX25519Recipient :: "string \<Rightarrow> string option"

text \<open>The factory is \<open>None\<close> when the generator or its factory is nil; its answer is an identity and a
  recipient, or \<open>None\<close> for an error.\<close>

definition GenerateAgeIdentity :: "age_lib \<Rightarrow> (string \<times> string) option option \<Rightarrow> gen_error + AgeIdentityResult" where
  "GenerateAgeIdentity lib factory =
     (case factory of
        None \<Rightarrow> Inl ErrGenerationFailed
      | Some None \<Rightarrow> Inl ErrGenerationFailed
      | Some (Some (identityText, generatedRecipient)) \<Rightarrow>
          if identityText = [] \<or> generatedRecipient = [] \<or>
             strings_ContainsAny identityText [CR, LF] \<or> strings_ContainsAny generatedRecipient [CR, LF]
          then Inl ErrGenerationFailed
          else (case age_ParseX25519Identity lib identityText of
            None \<Rightarrow> Inl ErrGenerationFailed
          | Some (canonical, recipient) \<Rightarrow>
              if canonical \<noteq> identityText then Inl ErrGenerationFailed
              else if recipient \<noteq> generatedRecipient then Inl ErrGenerationFailed
              else (case age_ParseX25519Recipient lib recipient of
                None \<Rightarrow> Inl ErrGenerationFailed
              | Some parsed \<Rightarrow>
                  if parsed \<noteq> recipient then Inl ErrGenerationFailed
                  else Inr \<lparr>age_private = identityText @ [LF], age_recipient = recipient\<rparr>)))"

section \<open>Lemmas\<close>

subsection \<open>The memo table\<close>

text \<open>Every filled cell for an index holds the count of the classes from that index on.\<close>

definition memo_ok :: "passwordClass list \<Rightarrow> memo \<Rightarrow> bool" where
  "memo_ok all m \<longleftrightarrow> (\<forall>i s v. i \<le> length all \<longrightarrow> m (i, s) = Some v \<longrightarrow> v = count_passwords (drop i all) s)"

lemma memo_ok_empty [simp]: "memo_ok all Map.empty"
  by (simp add: memo_ok_def)

lemma memo_ok_upd:
  "memo_ok all m \<Longrightarrow> (i \<le> length all \<longrightarrow> v = count_passwords (drop i all) s) \<Longrightarrow> memo_ok all (m((i, s) \<mapsto> v))"
  by (auto simp: memo_ok_def)

lemma sum_memo_correct:
  assumes "\<And>s m v m'. memo_ok all m \<Longrightarrow> rest s m = (v, m') \<Longrightarrow> v = f s \<and> memo_ok all m'"
    "memo_ok all m" "sum_memo rest weight slots ns tot m = (v, m')"
  shows "v = tot + (\<Sum>n\<leftarrow>ns. weight n * f (slots - n)) \<and> memo_ok all m'"
  using assms(2,3)
proof (induction ns arbitrary: tot m)
  case (Cons n ns)
  obtain x m1 where x: "rest (slots - n) m = (x, m1)" by (cases "rest (slots - n) m")
  then have "x = f (slots - n) \<and> memo_ok all m1" using assms(1) Cons.prems(1) by blast
  with Cons x show ?case by fastforce
qed simp

lemma count_memo_correct:
  assumes "memo_ok all m" "i + length cs = length all" "drop i all = cs" "count_memo i cs slots m = (v, m')"
  shows "v = count_passwords cs slots \<and> memo_ok all m'"
  using assms
proof (induction cs arbitrary: i slots m v m')
  case Nil
  have "x = count_passwords [] slots" if "m (i, slots) = Some x" for x
    using Nil.prems(1,2) that by (fastforce simp: memo_ok_def)
  then show ?case using Nil.prems by (auto simp: Let_def memo_ok_upd split: option.splits if_splits)
next
  case (Cons c cs)
  have rest: "drop (Suc i) all = cs" "Suc i + length cs = length all"
    using Cons.prems(2) arg_cong [OF Cons.prems(3), of tl] by (simp_all add: drop_Suc drop_tl)
  show ?case
  proof (cases "m (i, slots)")
    case (Some x)
    then have "x = count_passwords (drop i all) slots" using Cons.prems(1,2) by (simp add: memo_ok_def)
    then show ?thesis using Cons.prems Some by simp
  next
    case None
    obtain x m1 where x: "sum_memo (count_memo (Suc i) cs) (\<lambda>n. (slots choose n) * length (alphabet c) ^ n) slots
        (class_counts c cs slots) 0 m = (x, m1)" by (metis surj_pair)
    from sum_memo_correct [OF _ Cons.prems(1) this, of "count_passwords cs"] Cons.IH [OF _ rest(2,1)]
    have "x = count_passwords (c # cs) slots" "memo_ok all m1" by auto
    then show ?thesis using Cons.prems(3,4) None x by (auto intro: memo_ok_upd)
  qed
qed

subsection \<open>Counting\<close>

lemma count_weights: "count_passwords (c # cs) slots = (\<Sum>n\<leftarrow>class_counts c cs slots. countWeight c cs slots n)"
  by (simp add: countWeight_def)

definition good_classes :: "passwordClass list \<Rightarrow> bool" where
  "good_classes cs \<longleftrightarrow> (\<forall>c\<in>set cs. alphabet c \<noteq> [] \<and> distinct (alphabet c)) \<and>
     (\<forall>i<length cs. \<forall>j<length cs. i \<noteq> j \<longrightarrow> set (alphabet (cs ! i)) \<inter> set (alphabet (cs ! j)) = {})"

lemma good_classes_tl: "good_classes (c # cs) \<Longrightarrow> good_classes cs"
  unfolding good_classes_def by (metis Suc_less_eq length_Cons list.set_intros(2) nat.inject nth_Cons_Suc)

lemma suffixMinimum_simps [simp]:
  "suffixMinimum [] = 0" "suffixMinimum (c # cs) = minimum c + suffixMinimum cs"
  by (simp_all add: suffixMinimum_def)

lemma count_positive:
  assumes "\<forall>c\<in>set cs. alphabet c \<noteq> []" "cs \<noteq> []" "suffixMinimum cs \<le> slots"
  shows "0 < count_passwords cs slots"
  using assms
proof (induction cs arbitrary: slots)
  case (Cons c cs)
  let ?n = "slots - suffixMinimum cs"
  have n: "?n \<in> set (class_counts c cs slots)" using Cons.prems(3) by (auto simp: class_counts_def)
  have "0 < count_passwords cs (suffixMinimum cs)"
  proof (cases "cs = []")
    case False
    then show ?thesis using Cons by auto
  qed simp
  moreover have "slots - ?n = suffixMinimum cs" using Cons.prems(3) by simp
  ultimately have "0 < countWeight c cs slots ?n"
    using Cons.prems(1) by (simp add: countWeight_def)
  moreover have "countWeight c cs slots ?n \<le> (\<Sum>n\<leftarrow>class_counts c cs slots. countWeight c cs slots n)"
    using n by (intro member_le_sum_list) auto
  ultimately show ?case unfolding count_weights by linarith
qed simp

lemma count_last: "minimum c \<le> slots \<Longrightarrow> count_passwords [c] slots = length (alphabet c) ^ slots"
proof -
  assume m: "minimum c \<le> slots"
  have "class_counts c [] slots = [minimum c ..< slots] @ [slots]"
    using m by (simp add: class_counts_def)
  moreover have "(\<Sum>n\<leftarrow>[minimum c ..< slots]. (slots choose n) * length (alphabet c) ^ n * count_passwords [] (slots - n)) = 0"
    by simp
  ultimately show ?thesis by simp
qed

subsection \<open>The distribution of the class counts\<close>

lemma prob_Ret_eq: "prob (Ret y) x = of_bool (x = y)"
  by simp

text \<open>A draw over the sum of the weights followed by a walk through them.\<close>

lemma prob_draw_pick:
  assumes "N = sum_list (map snd vs)"
  shows "prob (Draw N (\<lambda>r. case pick vs r of None \<Rightarrow> Abort | Some v \<Rightarrow> G v)) x =
    (\<Sum>(v, w)\<leftarrow>vs. of_nat w * prob (G v) x) / of_nat N"
  using sum_pick [of "\<lambda>y. prob (case y of None \<Rightarrow> Abort | Some v \<Rightarrow> G v) x" vs] assms by simp

lemma sum_list_single:
  fixes f :: "nat \<Rightarrow> rat"
  assumes "distinct ns"
  shows "(\<Sum>n\<leftarrow>ns. f n * (if n = k then y else 0)) = (if k \<in> set ns then f k * y else 0)"
  using assms by (induction ns) auto

text \<open>How a vector of counts splits over the classes, and its weight.\<close>

definition counts_ok :: "passwordClass list \<Rightarrow> nat \<Rightarrow> nat list \<Rightarrow> bool" where
  "counts_ok cs m xs \<longleftrightarrow> length xs = length cs \<and> sum_list xs = m \<and> list_all2 (\<lambda>c x. minimum c \<le> x) cs xs"

fun counts_weight :: "passwordClass list \<Rightarrow> nat list \<Rightarrow> rat" where
  "counts_weight (c # cs) (x # xs) = of_nat (length (alphabet c)) ^ x / fact x * counts_weight cs xs"
| "counts_weight _ _ = 1"

lemma counts_ok_minima: "counts_ok cs m xs \<Longrightarrow> suffixMinimum cs \<le> m"
proof (induction cs arbitrary: m xs)
  case (Cons c cs)
  then obtain x xs' where "xs = x # xs'" by (cases xs) (auto simp: counts_ok_def)
  then have "counts_ok cs (m - x) xs'" "minimum c \<le> x" "x \<le> m" using Cons.prems by (auto simp: counts_ok_def)
  then show ?case using Cons.IH by fastforce
qed simp

lemma counts_ok_Cons:
  "counts_ok (c # cs) m (x # xs) \<longleftrightarrow> minimum c \<le> x \<and> x \<le> m \<and> counts_ok cs (m - x) xs"
  by (auto simp: counts_ok_def)

lemma binomial_rat: "n \<le> m \<Longrightarrow> rat_of_nat (m choose n) = fact m / (fact n * fact (m - n))"
  using binomial_fact [of n m, where 'a = rat] by simp

lemma weight_step:
  assumes "x \<le> m" "0 < count_passwords cs (m - x)" "N \<noteq> 0"
  shows "rat_of_nat (countWeight c cs m x) / N * (fact (m - x) * counts_weight cs xs / of_nat (count_passwords cs (m - x))) =
    fact m * counts_weight (c # cs) (x # xs) / N"
proof -
  have f: "(fact (m - x) :: rat) \<noteq> 0" "(fact x :: rat) \<noteq> 0" by simp_all
  have "rat_of_nat (count_passwords cs (m - x)) \<noteq> 0" using assms(2) by simp
  then show ?thesis using f assms(1,3)
    by (simp add: countWeight_def binomial_rat field_simps)
qed

lemma class_counts_range:
  "x \<in> set (class_counts c cs m) \<longleftrightarrow> minimum c \<le> x \<and> x + suffixMinimum cs \<le> m"
  by (auto simp: class_counts_def)

lemma prob_case_Nil: "prob (case y of None \<Rightarrow> Abort | Some s \<Rightarrow> gmap ((#) s) (F s)) [] = 0"
  by (cases y) auto

lemma prob_counts_Nil: "prob (sampleClassCounts cs m) [] = 0"
  by (cases "(cs, m)" rule: sampleClassCounts.cases) (simp_all add: prob_case_Nil)

lemma prob_counts:
  assumes "\<forall>c\<in>set cs. alphabet c \<noteq> []" "cs \<noteq> []" "suffixMinimum cs \<le> m"
  shows "prob (sampleClassCounts cs m) xs =
    (if counts_ok cs m xs then fact m * counts_weight cs xs / of_nat (count_passwords cs m) else 0)"
  using assms
proof (induction cs arbitrary: m xs)
  case (Cons c cs)
  show ?case
  proof (cases cs)
    case Nil
    have "counts_ok [c] m xs \<longleftrightarrow> xs = [m]"
      using Cons.prems(3) Nil by (cases xs) (auto simp: counts_ok_def list_all2_Cons1)
    then show ?thesis using Cons.prems Nil count_last [of c m] by simp
  next
    case (Cons d cs')
    let ?N = "count_passwords (c # cs) m"
    have pos: "0 < ?N" using Cons.prems by (intro count_positive) auto
    have sub: "prob (sampleClassCounts cs (m - x)) ys =
        (if counts_ok cs (m - x) ys then fact (m - x) * counts_weight cs ys / of_nat (count_passwords cs (m - x)) else 0)"
      "0 < count_passwords cs (m - x)" if "x + suffixMinimum cs \<le> m" for x ys
      using Cons.IH [of "m - x" ys] Cons.prems(1) that Cons count_positive [of cs "m - x"] by auto
    show ?thesis
    proof (cases xs)
      case Nil
      then have "\<not> counts_ok (c # cs) m xs" by (simp add: counts_ok_def)
      then show ?thesis unfolding Nil prob_counts_Nil by simp
    next
      case xs: (Cons x ys)
      have ok: "counts_ok (c # cs) m xs \<longleftrightarrow> x \<in> set (class_counts c cs m) \<and> counts_ok cs (m - x) ys"
        unfolding xs counts_ok_Cons class_counts_range using counts_ok_minima [of cs "m - x" ys] by auto
      show ?thesis
      proof (cases "minimum c + suffixMinimum cs = m")
        case True
        then have "class_counts c cs m = [minimum c]" by (auto simp: class_counts_def)
        then have "?N = countWeight c cs m (minimum c)" and "x \<in> set (class_counts c cs m) \<longleftrightarrow> x = minimum c"
          unfolding count_weights by simp_all
        moreover have "prob (sampleClassCounts (c # cs) m) xs = (if minimum c = x then prob (sampleClassCounts cs (m - minimum c)) ys else 0)"
          using True Cons xs by (simp add: prob_gmap_Cons)
        ultimately show ?thesis
          using ok sub(1) [of x ys] sub(2) [of x] pos True weight_step [of x m cs "of_nat ?N" c ys] xs
          by (auto simp del: count_passwords.simps)
      next
        case False
        let ?vs = "map (\<lambda>n. (n, countWeight c cs m n)) (class_counts c cs m)"
        have N: "?N = sum_list (map snd ?vs)" unfolding count_weights by (simp add: comp_def)
        let ?G = "\<lambda>n. gmap ((#) n) (sampleClassCounts cs (m - n))"
        have d: "sampleClassCounts (c # cs) m = Draw ?N (\<lambda>r. case classCountForRank c cs m r of None \<Rightarrow> Abort | Some v \<Rightarrow> ?G v)"
          using False unfolding Cons by (simp del: count_passwords.simps)
        have "prob (sampleClassCounts (c # cs) m) xs = prob (Draw ?N (\<lambda>r. case pick ?vs r of None \<Rightarrow> Abort | Some v \<Rightarrow> ?G v)) xs"
          unfolding d prob.simps
          by (intro arg_cong2 [where f = "(/)"] sum.cong refl) (simp add: classCountForRank_def del: count_passwords.simps)
        also have "\<dots> = (\<Sum>n\<leftarrow>class_counts c cs m. of_nat (countWeight c cs m n) * (if n = x then prob (sampleClassCounts cs (m - x)) ys else 0)) / of_nat ?N"
          unfolding prob_draw_pick [OF N] xs by (simp add: prob_gmap_Cons comp_def if_distrib del: count_passwords.simps cong: if_cong)
        also have "\<dots> = (if x \<in> set (class_counts c cs m) then of_nat (countWeight c cs m x) / of_nat ?N * prob (sampleClassCounts cs (m - x)) ys else 0)"
          by (subst sum_list_single) (simp_all add: class_counts_def del: count_passwords.simps)
        finally show ?thesis
          using ok sub(1) [of x ys] sub(2) [of x] pos weight_step [of x m cs "of_nat ?N" c ys] xs
          by (auto simp: class_counts_range simp del: count_passwords.simps)
      qed
    qed
  qed
qed simp

subsection \<open>The distribution of the characters\<close>

lemma prob_randomIndex:
  assumes "0 < n"
  shows "prob (gbind (randomIndex n) F) x = (\<Sum>j<n. prob (F j) x) / of_nat n"
  using assms by (cases "n = 1") (auto simp: randomIndex_def)

lemma sum_zip_index: "(\<Sum>(v, w)\<leftarrow>zip [0..<length ws] ws. f v w) = (\<Sum>i<length ws. f i (ws ! i) :: rat)"
proof -
  have "(\<Sum>(v, w)\<leftarrow>zip [0..<length ws] ws. f v w) = (\<Sum>i\<leftarrow>[0..<length ws]. f i (ws ! i))"
    by (rule arg_cong [where f = sum_list]) (auto intro: nth_equalityI)
  also have "\<dots> = (\<Sum>i<length ws. f i (ws ! i))" by (simp add: sum_list_sum_nth atLeast0LessThan)
  finally show ?thesis .
qed

lemma prob_select:
  assumes "sum_list counts = n" "0 < n"
  shows "prob (gbind (selectRemainingClass counts n) F) x = (\<Sum>i<length counts. of_nat (counts ! i) * prob (F i) x) / of_nat n"
proof (cases "\<exists>only. filter (\<lambda>i. counts ! i \<noteq> 0) [0..<length counts] = [only]")
  case True
  then obtain only where o: "filter (\<lambda>i. counts ! i \<noteq> 0) [0..<length counts] = [only]" by blast
  then have m: "i < length counts \<and> counts ! i \<noteq> 0 \<longleftrightarrow> i = only" for i
    using arg_cong [OF o, of set, unfolded set_filter] by auto
  have z: "counts ! i = 0" if "i < length counts" "i \<noteq> only" for i using m that by blast
  have "n = (\<Sum>i<length counts. counts ! i)" using assms(1) by (simp add: sum_list_sum_nth atLeast0LessThan)
  also have "\<dots> = (\<Sum>i\<in>{only}. counts ! i)" using m z by (intro sum.mono_neutral_right) auto
  finally have n: "counts ! only = n" by simp
  have "(\<Sum>i<length counts. of_nat (counts ! i) * prob (F i) x) = (\<Sum>i\<in>{only}. of_nat (counts ! i) * prob (F i) x)"
    using m z by (intro sum.mono_neutral_right) auto
  then show ?thesis using o n assms(2) by (simp add: selectRemainingClass_def)
next
  case False
  then have "selectRemainingClass counts n = gbind (randomIndex n)
      (\<lambda>choice. case pick (zip [0..<length counts] counts) choice of None \<Rightarrow> Abort | Some i \<Rightarrow> Ret i)"
    by (simp add: selectRemainingClass_def split: list.split)
  moreover have N: "n = sum_list (map snd (zip [0..<length counts] counts))" using assms(1) by simp
  have "(\<Sum>j<n. prob (gbind (case pick (zip [0..<length counts] counts) j of None \<Rightarrow> Abort | Some i \<Rightarrow> Ret i) F) x) =
      (\<Sum>(v, w)\<leftarrow>zip [0..<length counts] counts. of_nat w * prob (F v) x)"
    using sum_pick [of "\<lambda>y. prob (gbind (case y of None \<Rightarrow> Abort | Some i \<Rightarrow> Ret i) F) x" "zip [0..<length counts] counts"]
      N by simp
  moreover have "gbind (gbind (randomIndex n) G) F = gbind (randomIndex n) (\<lambda>j. gbind (G j) F)" for G :: "nat \<Rightarrow> nat gen"
    by (simp add: randomIndex_def)
  ultimately show ?thesis using assms(2) by (simp add: prob_randomIndex sum_zip_index)
qed

definition class_index :: "passwordClass list \<Rightarrow> char \<Rightarrow> nat \<Rightarrow> bool" where
  "class_index cs x i \<longleftrightarrow> i < length cs \<and> x \<in> set (alphabet (cs ! i))"

lemma class_index_unique: "good_classes cs \<Longrightarrow> class_index cs x i \<Longrightarrow> class_index cs x j \<Longrightarrow> i = j"
  unfolding good_classes_def class_index_def by blast

text \<open>Reading one given character.\<close>

lemma prob_char:
  assumes "distinct a" "a \<noteq> []"
  shows "prob (gbind (randomIndex (length a)) (\<lambda>j. gmap ((#) (a ! j)) g)) (x # w) =
    (if x \<in> set a then prob g w / of_nat (length a) else 0)"
proof -
  have "(\<Sum>j<length a. if a ! j = x then prob g w else 0) = (if x \<in> set a then prob g w else 0)"
  proof (cases "x \<in> set a")
    case True
    then obtain k where k: "k < length a" "a ! k = x" by (auto simp: in_set_conv_nth)
    have "(\<Sum>j<length a. if a ! j = x then prob g w else 0) = (\<Sum>j<length a. if j = k then prob g w else 0)"
      using k assms(1) by (intro sum.cong) (auto simp: nth_eq_iff_index_eq)
    then show ?thesis using True k(1) by simp
  next
    case False
    then have "\<And>j. j < length a \<Longrightarrow> a ! j \<noteq> x" by auto
    then show ?thesis using False by simp
  qed
  then show ?thesis using assms(2) by (simp add: prob_randomIndex prob_gmap_Cons)
qed

definition tally :: "passwordClass list \<Rightarrow> string \<Rightarrow> nat list" where
  "tally cs w = map (\<lambda>c. length (filter (\<lambda>x. x \<in> set (alphabet c)) w)) cs"

lemma prob_chars_step:
  assumes "good_classes cs" "length counts = length cs" "sum_list counts = Suc (length w)"
  shows "prob (samplePasswordCharacters (Suc (length w)) cs counts) (x # w) =
    (\<Sum>i<length cs. if x \<in> set (alphabet (cs ! i))
       then of_nat (counts ! i) / of_nat (length (alphabet (cs ! i))) *
            prob (samplePasswordCharacters (length w) cs (counts[i := counts ! i - 1])) w else 0) / of_nat (Suc (length w))"
proof -
  have a: "distinct (alphabet (cs ! i))" "alphabet (cs ! i) \<noteq> []" if "i < length cs" for i
    using assms(1) that nth_mem unfolding good_classes_def by blast+
  show ?thesis
    unfolding samplePasswordCharacters.simps using assms(2)
    by (subst prob_select [OF assms(3)]) (auto simp: prob_char a intro!: sum.cong)
qed

lemma counts_weight_pos: "\<forall>c\<in>set cs. alphabet c \<noteq> [] \<Longrightarrow> 0 < counts_weight cs xs"
  by (induction cs xs rule: counts_weight.induct) auto

lemma counts_weight_upd:
  assumes "i < length cs" "length xs = length cs" "0 < xs ! i"
  shows "counts_weight cs xs = counts_weight cs (xs[i := xs ! i - 1]) * of_nat (length (alphabet (cs ! i))) / of_nat (xs ! i)"
  using assms
proof (induction cs xs arbitrary: i rule: counts_weight.induct)
  case (1 c cs x xs)
  show ?case
  proof (cases i)
    case 0
    then obtain y where "x = Suc y" using 1(4) by (cases x) auto
    then show ?thesis using 0 by (simp add: ac_simps)
  next
    case (Suc j)
    then show ?thesis using 1(1) [of j] 1(2-4) by simp
  qed
qed auto

lemma tally_length [simp]: "length (tally cs w) = length cs"
  by (simp add: tally_def)

lemma tally_Cons_in:
  assumes "good_classes cs" "class_index cs x i"
  shows "tally cs (x # w) = (tally cs w)[i := Suc (tally cs w ! i)]"
proof (rule nth_equalityI)
  fix j assume "j < length (tally cs (x # w))"
  then have j: "j < length cs" by simp
  have "x \<in> set (alphabet (cs ! j)) \<longleftrightarrow> j = i"
    using class_index_unique [OF assms(1), of x j i] assms(2) j by (auto simp: class_index_def)
  then show "tally cs (x # w) ! j = (tally cs w)[i := Suc (tally cs w ! i)] ! j"
    using j assms(2) by (auto simp: tally_def class_index_def nth_list_update)
qed simp

lemma tally_Cons_out:
  assumes "\<And>i. \<not> class_index cs x i"
  shows "tally cs (x # w) = tally cs w"
proof -
  have "x \<notin> set (alphabet c)" if "c \<in> set cs" for c using assms that by (metis class_index_def in_set_conv_nth)
  then show ?thesis by (simp add: tally_def)
qed

lemma weight_ratio:
  fixes A W W' s F l :: rat
  assumes "A \<noteq> 0" "W' \<noteq> 0" "s \<noteq> 0" "F \<noteq> 0" "l \<noteq> 0" "W = W' * A / s"
  shows "s / A * (1 / (F * W')) / l = 1 / (l * F * W)"
  unfolding assms(6) using assms(1-5) by (simp add: field_simps)

lemma sum_list_upd:
  fixes xs :: "nat list"
  assumes "i < length xs"
  shows "sum_list (xs[i := Suc (xs ! i)]) = Suc (sum_list xs)" "0 < xs ! i \<Longrightarrow> Suc (sum_list (xs[i := xs ! i - 1])) = sum_list xs"
  using assms by (induction xs arbitrary: i) (auto split: nat.splits)

lemma sum_tally:
  assumes "good_classes cs"
  shows "sum_list (tally cs w) = length (filter (\<lambda>x. \<exists>i. class_index cs x i) w)"
proof (induction w)
  case Nil
  then show ?case by (simp add: tally_def)
next
  case (Cons x w)
  show ?case
  proof (cases "\<exists>i. class_index cs x i")
    case True
    then obtain i where i: "class_index cs x i" by blast
    then have "i < length (tally cs w)" by (simp add: class_index_def)
    then show ?thesis using Cons sum_list_upd(1) tally_Cons_in [OF assms i] True by simp
  qed (use Cons tally_Cons_out in auto)
qed

lemma prob_chars:
  assumes "good_classes cs" "length counts = length cs" "sum_list counts = length w"
  shows "prob (samplePasswordCharacters (length w) cs counts) w =
    (if counts = tally cs w then 1 / (fact (length w) * counts_weight cs counts) else 0)"
  using assms(2,3)
proof (induction w arbitrary: counts)
  case Nil
  then have "counts = tally cs []" by (auto simp: tally_def intro: nth_equalityI)
  moreover have "counts_weight cs (tally cs []) = 1" by (induction cs) (auto simp: tally_def)
  ultimately show ?case by simp
next
  case (Cons x w)
  let ?P = "\<lambda>i. prob (samplePasswordCharacters (length w) cs (counts[i := counts ! i - 1])) w"
  have step: "prob (samplePasswordCharacters (length (x # w)) cs counts) (x # w) =
    (\<Sum>i<length cs. if x \<in> set (alphabet (cs ! i))
       then of_nat (counts ! i) / of_nat (length (alphabet (cs ! i))) * ?P i else 0) / of_nat (Suc (length w))"
    using prob_chars_step [OF assms(1) Cons.prems(1), of w x] Cons.prems(2) by simp
  show ?case
  proof (cases "\<exists>i. class_index cs x i")
    case False
    have "sum_list (tally cs w) \<le> length w" unfolding sum_tally [OF assms(1)] by simp
    then have "counts \<noteq> tally cs (x # w)" using tally_Cons_out [of cs x w] False Cons.prems(2) by auto
    moreover have "x \<notin> set (alphabet (cs ! i))" if "i < length cs" for i using False that by (auto simp: class_index_def)
    ultimately show ?thesis using step by simp
  next
    case True
    then obtain k where k: "class_index cs x k" by blast
    then have kl: "k < length cs" "x \<in> set (alphabet (cs ! k))" by (auto simp: class_index_def)
    have only: "x \<in> set (alphabet (cs ! i)) \<longleftrightarrow> i = k" if "i < length cs" for i
      using class_index_unique [OF assms(1), of x i k] k that by (auto simp: class_index_def)
    have one: "prob (samplePasswordCharacters (length (x # w)) cs counts) (x # w) =
        of_nat (counts ! k) / of_nat (length (alphabet (cs ! k))) * ?P k / of_nat (Suc (length w))"
    proof -
      have "(\<Sum>i<length cs. if x \<in> set (alphabet (cs ! i))
         then of_nat (counts ! i) / of_nat (length (alphabet (cs ! i))) * ?P i else 0) =
        (\<Sum>i<length cs. if i = k then of_nat (counts ! i) / of_nat (length (alphabet (cs ! i))) * ?P i else 0)"
        using only by (intro sum.cong) auto
      then show ?thesis using step kl(1) by simp
    qed
    note t = tally_Cons_in [OF assms(1) k, of w]
    show ?thesis
    proof (cases "counts ! k")
      case 0
      then have "counts \<noteq> tally cs (x # w)" using t kl(1) by auto
      then show ?thesis using one 0 by simp
    next
      case (Suc n)
      let ?c = "counts[k := counts ! k - 1]"
      have "sum_list ?c = length w" using sum_list_upd(2) [of k counts] kl(1) Cons.prems Suc by simp
      then have ih: "?P k = (if ?c = tally cs w then 1 / (fact (length w) * counts_weight cs ?c) else 0)"
        using Cons.IH [of ?c] Cons.prems(1) by simp
      have eq: "?c = tally cs w \<longleftrightarrow> counts = tally cs (x # w)"
      proof
        assume "?c = tally cs w"
        then have "tally cs (x # w) = ?c[k := Suc (?c ! k)]" using t by simp
        then show "counts = tally cs (x # w)" using Suc kl(1) Cons.prems(1) by simp (metis list_update_id)
      next
        assume "counts = tally cs (x # w)"
        then show "?c = tally cs w" using t kl(1) by simp
      qed
      have "counts_weight cs ?c \<noteq> 0" using counts_weight_pos [of cs ?c] assms(1) by (auto simp: good_classes_def)
      then have "of_nat (counts ! k) / of_nat (length (alphabet (cs ! k))) * (1 / (fact (length w) * counts_weight cs ?c)) /
          of_nat (Suc (length w)) = 1 / (of_nat (Suc (length w)) * fact (length w) * counts_weight cs counts)"
        using kl(2) Suc by (intro weight_ratio counts_weight_upd [OF kl(1) Cons.prems(1)]) auto
      note e = this
      show ?thesis
      proof (cases "counts = tally cs (x # w)")
        case True
        then have "?P k = 1 / (fact (length w) * counts_weight cs ?c)" using ih eq by simp
        then show ?thesis unfolding one using e True by (simp only: simp_thms if_True length_Cons fact_Suc)
      qed (use one ih eq in simp)
    qed
  qed
qed

subsection \<open>The samplers always return\<close>

lemma counts_sure:
  assumes "\<forall>c\<in>set cs. alphabet c \<noteq> []" "cs \<noteq> []" "suffixMinimum cs \<le> m"
  shows "sure (sampleClassCounts cs m) \<and> (\<forall>xs\<in>outcomes (sampleClassCounts cs m). counts_ok cs m xs)"
  using assms
proof (induction cs arbitrary: m)
  case (Cons c cs)
  show ?case
  proof (cases cs)
    case Nil
    then show ?thesis using Cons.prems by (simp add: counts_ok_def)
  next
    case (Cons d cs')
    have ih: "sure (sampleClassCounts cs (m - x)) \<and> (\<forall>xs\<in>outcomes (sampleClassCounts cs (m - x)). counts_ok (c # cs) m (x # xs))"
      if "x \<in> set (class_counts c cs m)" for x
      using Cons.IH [of "m - x"] Cons.prems(1) Cons that by (auto simp: counts_ok_Cons class_counts_range)
    show ?thesis
    proof (cases "minimum c + suffixMinimum cs = m")
      case True
      then have "minimum c \<in> set (class_counts c cs m)" by (simp add: class_counts_range)
      moreover have "sampleClassCounts (c # cs) m = gmap ((#) (minimum c)) (sampleClassCounts cs (m - minimum c))"
        using True unfolding Cons by simp
      ultimately show ?thesis using ih by auto
    next
      case False
      let ?N = "count_passwords (c # cs) m"
      let ?vs = "map (\<lambda>n. (n, countWeight c cs m n)) (class_counts c cs m)"
      let ?G = "\<lambda>n. gmap ((#) n) (sampleClassCounts cs (m - n))"
      have N: "?N = sum_list (map snd ?vs)" unfolding count_weights by (simp add: comp_def)
      have d: "sampleClassCounts (c # cs) m = Draw ?N (\<lambda>r. case classCountForRank c cs m r of None \<Rightarrow> Abort | Some v \<Rightarrow> ?G v)"
        using False unfolding Cons by (simp del: count_passwords.simps)
      have r: "\<exists>n\<in>set (class_counts c cs m). classCountForRank c cs m r = Some n" if "r < ?N" for r
      proof -
        have "r < sum_list (map snd ?vs)" using that N by (simp only:)
        then obtain n where n: "pick ?vs r = Some n" using pick_total by blast
        then have "n \<in> set (class_counts c cs m)" using pick_member by fastforce
        then show ?thesis using n that by (auto simp: classCountForRank_def simp del: count_passwords.simps)
      qed
      have "0 < ?N" using Cons.prems by (intro count_positive) auto
      then show ?thesis unfolding d using r ih by (fastforce simp del: count_passwords.simps)
    qed
  qed
qed simp

lemma randomIndex_sure: "0 < n \<Longrightarrow> sure (randomIndex n) \<and> outcomes (randomIndex n) = {..<n}"
  by (auto simp: randomIndex_def)

lemma select_sure:
  assumes "sum_list counts = n" "0 < n"
  shows "sure (selectRemainingClass counts n) \<and>
    (\<forall>i\<in>outcomes (selectRemainingClass counts n). i < length counts \<and> 0 < counts ! i)"
proof (cases "\<exists>only. filter (\<lambda>i. counts ! i \<noteq> 0) [0..<length counts] = [only]")
  case True
  then obtain only where o: "filter (\<lambda>i. counts ! i \<noteq> 0) [0..<length counts] = [only]" by blast
  then have "only < length counts \<and> counts ! only \<noteq> 0" using arg_cong [OF o, of set, unfolded set_filter] by auto
  then show ?thesis using o by (simp add: selectRemainingClass_def)
next
  case False
  let ?vs = "zip [0..<length counts] counts"
  have s: "selectRemainingClass counts n = gbind (randomIndex n)
      (\<lambda>choice. case pick ?vs choice of None \<Rightarrow> Abort | Some i \<Rightarrow> Ret i)"
    using False by (simp add: selectRemainingClass_def split: list.split)
  have p: "\<exists>i. pick ?vs r = Some i \<and> i < length counts \<and> 0 < counts ! i" if "r < n" for r
  proof -
    have "r < sum_list (map snd ?vs)" using that assms(1) by simp
    then obtain i where i: "pick ?vs r = Some i" using pick_total by blast
    then obtain w where "(i, w) \<in> set ?vs" "0 < w" using pick_member by fastforce
    then show ?thesis using i by (auto simp: set_zip)
  qed
  show ?thesis unfolding s
    using randomIndex_sure [OF assms(2)] p
    by (fastforce simp: outcomes_bind intro!: sure_bind)
qed

lemma chars_sure:
  assumes "\<forall>c\<in>set cs. alphabet c \<noteq> []" "length counts = length cs" "sum_list counts = n"
  shows "sure (samplePasswordCharacters n cs counts) \<and> (\<forall>w\<in>outcomes (samplePasswordCharacters n cs counts). length w = n)"
  using assms(2,3)
proof (induction n arbitrary: counts)
  case (Suc n)
  note sel = select_sure [OF Suc.prems(2)]
  have r: "sure (randomIndex (length (alphabet (cs ! i))))" if "i < length cs" for i
    using assms(1) that randomIndex_sure by simp
  have ih: "sure (samplePasswordCharacters n cs (counts[i := counts ! i - 1])) \<and>
      (\<forall>w\<in>outcomes (samplePasswordCharacters n cs (counts[i := counts ! i - 1])). length w = n)"
    if "i < length counts" "0 < counts ! i" for i
    using sum_list_upd(2) [OF that] Suc.prems by (intro Suc.IH) auto
  show ?case
    using sel r ih Suc.prems(1) by (auto simp: outcomes_bind intro!: sure_bind)
qed simp

subsection \<open>Uniformity\<close>

definition password_gen :: "nat \<Rightarrow> passwordClass list \<Rightarrow> string gen" where
  "password_gen n cs = gbind (sampleClassCounts cs n) (samplePasswordCharacters n cs)"

text \<open>The passwords the class minima accept.\<close>

definition accepted :: "nat \<Rightarrow> passwordClass list \<Rightarrow> string \<Rightarrow> bool" where
  "accepted n cs w \<longleftrightarrow> length w = n \<and> (\<forall>x\<in>set w. \<exists>c\<in>set cs. x \<in> set (alphabet c)) \<and>
     (\<forall>c\<in>set cs. minimum c \<le> length (filter (\<lambda>x. x \<in> set (alphabet c)) w))"

lemma length_filter_all: "length (filter P w) = length w \<longleftrightarrow> (\<forall>x\<in>set w. P x)"
proof (induction w)
  case (Cons x w)
  have "length (filter P w) \<noteq> Suc (length w)" using length_filter_le [of P w] by linarith
  then show ?case using Cons by auto
qed simp

lemma accepted_counts:
  assumes "good_classes cs"
  shows "accepted n cs w \<longleftrightarrow> length w = n \<and> counts_ok cs n (tally cs w)"
proof -
  have i: "(\<exists>i. class_index cs x i) \<longleftrightarrow> (\<exists>c\<in>set cs. x \<in> set (alphabet c))" for x
    unfolding class_index_def by (metis in_set_conv_nth)
  have "length (filter (\<lambda>x. \<exists>i. class_index cs x i) w) = length w \<longleftrightarrow> (\<forall>x\<in>set w. \<exists>c\<in>set cs. x \<in> set (alphabet c))"
    unfolding i by (rule length_filter_all)
  moreover have "list_all2 (\<lambda>c x. minimum c \<le> x) cs (tally cs w) \<longleftrightarrow>
      (\<forall>c\<in>set cs. minimum c \<le> length (filter (\<lambda>x. x \<in> set (alphabet c)) w))"
    unfolding tally_def by (induction cs) auto
  ultimately show ?thesis unfolding accepted_def counts_ok_def sum_tally [OF assms] by auto
qed

lemma prob_bind_outcomes:
  "(\<And>y. y \<in> outcomes g \<Longrightarrow> y \<noteq> k \<Longrightarrow> prob (f y) x = 0) \<Longrightarrow> prob (gbind g f) x = prob g k * prob (f k) x"
  by (induction g) (fastforce simp: sum_distrib_right intro!: sum.cong)+

lemma password_gen_sure:
  assumes "good_classes cs" "cs \<noteq> []" "suffixMinimum cs \<le> n"
  shows "sure (password_gen n cs)" "\<And>w. w \<in> outcomes (password_gen n cs) \<Longrightarrow> length w = n"
proof -
  have a: "\<forall>c\<in>set cs. alphabet c \<noteq> []" using assms(1) by (simp add: good_classes_def)
  note c = counts_sure [OF a assms(2,3)]
  have ch: "sure (samplePasswordCharacters n cs xs) \<and> (\<forall>w\<in>outcomes (samplePasswordCharacters n cs xs). length w = n)"
    if "xs \<in> outcomes (sampleClassCounts cs n)" for xs
    using c that by (intro chars_sure [OF a]) (auto simp: counts_ok_def)
  show "sure (password_gen n cs)" unfolding password_gen_def using c ch by (intro sure_bind) auto
  show "\<And>w. w \<in> outcomes (password_gen n cs) \<Longrightarrow> length w = n"
    unfolding password_gen_def outcomes_bind using ch by auto
qed

lemma password_prob:
  assumes "good_classes cs" "cs \<noteq> []" "suffixMinimum cs \<le> n"
  shows "prob (password_gen n cs) w = (if accepted n cs w then 1 / of_nat (count_passwords cs n) else 0)"
proof (cases "length w = n")
  case False
  then have "w \<notin> outcomes (password_gen n cs)" using password_gen_sure(2) [OF assms] by blast
  then show ?thesis using False prob_outside by (auto simp: accepted_def)
next
  case True
  have a: "\<forall>c\<in>set cs. alphabet c \<noteq> []" using assms(1) by (simp add: good_classes_def)
  have ch: "prob (samplePasswordCharacters n cs xs) w = (if xs = tally cs w then 1 / (fact n * counts_weight cs xs) else 0)"
    if "counts_ok cs n xs" for xs
    using prob_chars [OF assms(1), of xs w] that True by (simp add: counts_ok_def)
  have "prob (password_gen n cs) w = prob (sampleClassCounts cs n) (tally cs w) * prob (samplePasswordCharacters n cs (tally cs w)) w"
    unfolding password_gen_def using ch counts_sure [OF a assms(2,3)] by (intro prob_bind_outcomes) auto
  also have "\<dots> = (if counts_ok cs n (tally cs w) then 1 / of_nat (count_passwords cs n) else 0)"
  proof (cases "counts_ok cs n (tally cs w)")
    case ok: True
    have "counts_weight cs (tally cs w) \<noteq> 0" using counts_weight_pos [OF a] by (metis less_irrefl)
    then show ?thesis using ok ch [OF ok] prob_counts [OF a assms(2,3), of "tally cs w"] by simp
  qed (simp add: prob_counts [OF a assms(2,3)])
  finally show ?thesis using accepted_counts [OF assms(1)] True by simp
qed

lemma password_count:
  assumes "good_classes cs" "cs \<noteq> []" "suffixMinimum cs \<le> n"
  shows "outcomes (password_gen n cs) = {w. accepted n cs w}" "card {w. accepted n cs w} = count_passwords cs n"
proof -
  have a: "\<forall>c\<in>set cs. alphabet c \<noteq> []" using assms(1) by (simp add: good_classes_def)
  have pos: "0 < count_passwords cs n" by (rule count_positive [OF a assms(2,3)])
  note s = password_gen_sure(1) [OF assms] and p = password_prob [OF assms]
  show o: "outcomes (password_gen n cs) = {w. accepted n cs w}"
    using prob_pos [OF s] prob_outside [of _ "password_gen n cs"] p pos by (fastforce split: if_splits)
  have "(\<Sum>w\<in>{w. accepted n cs w}. 1 / rat_of_nat (count_passwords cs n)) = 1"
    using prob_total [OF s] p unfolding o by simp
  then show "card {w. accepted n cs w} = count_passwords cs n"
    using pos by (simp add: field_simps) 
qed

subsection \<open>Resolved parameters\<close>

definition resolved_class :: "bool \<Rightarrow> bool \<times> int \<times> string \<Rightarrow> passwordClass" where
  "resolved_class exclude d =
     \<lparr>alphabet = (if exclude then excludeAmbiguous (snd (snd d)) else snd (snd d)), minimum = nat (fst (snd d))\<rparr>"

lemma resolve_classes_exact:
  assumes "resolve_classes exclude defs (acc, t) = Some (cs, t')"
  shows "cs = acc @ map (resolved_class exclude) (filter fst defs) \<and>
    t' = t + int (suffixMinimum (map (resolved_class exclude) (filter fst defs))) \<and>
    (\<forall>c\<in>set (map (resolved_class exclude) (filter fst defs)). alphabet c \<noteq> [])"
  using assms
proof (induction defs arbitrary: acc t)
  case (Cons d defs)
  obtain en low alpha where d: "d = (en, low, alpha)" by (cases d)
  have low: "0 \<le> low" using Cons.prems d by (auto split: if_splits)
  show ?case
  proof (cases en)
    case False
    then have "resolve_classes exclude defs (acc, t) = Some (cs, t')" using Cons.prems d by (simp split: if_splits)
    from Cons.IH [OF this] show ?thesis using False d by simp
  next
    case True
    let ?c = "resolved_class exclude d"
    have c: "alphabet ?c \<noteq> []" "resolve_classes exclude defs (acc @ [?c], t + low) = Some (cs, t')"
      using Cons.prems True d by (auto simp: Let_def resolved_class_def split: if_splits)
    have "int (minimum ?c) = low" using low d by (simp add: resolved_class_def)
    then show ?thesis using Cons.IH [OF c(2)] True d c(1) by auto
  qed
qed simp

lemma distinct_concat_filter:
  "distinct (concat (map f xs)) \<Longrightarrow> distinct (concat (map f (filter P xs)))"
  by (induction xs) auto

lemma distinct_alphabets: "distinct (concat [lowercaseAlphabet, uppercaseAlphabet, digitAlphabet, symbolAlphabet])"
  unfolding lowercaseAlphabet_def uppercaseAlphabet_def digitAlphabet_def symbolAlphabet_def by code_simp

lemma printable_alphabets:
  "x \<in> set (concat [lowercaseAlphabet, uppercaseAlphabet, digitAlphabet, symbolAlphabet]) \<Longrightarrow>
     33 \<le> (of_char x :: nat) \<and> (of_char x :: nat) \<le> 126"
proof -
  have "list_all (\<lambda>x. 33 \<le> (of_char x :: nat) \<and> (of_char x :: nat) \<le> 126)
      (concat [lowercaseAlphabet, uppercaseAlphabet, digitAlphabet, symbolAlphabet])"
    unfolding lowercaseAlphabet_def uppercaseAlphabet_def digitAlphabet_def symbolAlphabet_def by code_simp
  then show "x \<in> set (concat [lowercaseAlphabet, uppercaseAlphabet, digitAlphabet, symbolAlphabet]) \<Longrightarrow>
      33 \<le> (of_char x :: nat) \<and> (of_char x :: nat) \<le> 126"
    unfolding list_all_iff by blast
qed

lemma good_classesI:
  assumes "\<forall>c\<in>set cs. alphabet c \<noteq> []" "distinct (concat (map alphabet cs))"
  shows "good_classes cs"
proof -
  have r: "removeAll [] (map alphabet cs) = map alphabet cs" using assms(1) by (induction cs) auto
  have d: "distinct (map alphabet cs)" "\<forall>ys\<in>set (map alphabet cs). distinct ys"
    "\<forall>ys zs. ys \<in> set (map alphabet cs) \<and> zs \<in> set (map alphabet cs) \<and> ys \<noteq> zs \<longrightarrow> set ys \<inter> set zs = {}"
    using assms(2) unfolding distinct_concat_iff r by blast+
  have "set (alphabet (cs ! i)) \<inter> set (alphabet (cs ! j)) = {}" if "i < length cs" "j < length cs" "i \<noteq> j" for i j
  proof -
    have "alphabet (cs ! i) \<noteq> alphabet (cs ! j)" using d(1) that by (auto simp: distinct_conv_nth)
    then show ?thesis using d(3) that by auto
  qed
  then show ?thesis using assms(1) d(2) by (auto simp: good_classes_def)
qed

lemma resolved:
  assumes "resolvePasswordParameters p = Inr (e, cs)"
  shows "e = effective_password p" "22 \<le> ep_Length e" "ep_Length e \<le> 128" "cs \<noteq> []" "good_classes cs"
    "suffixMinimum cs \<le> nat (ep_Length e)"
    "\<And>c x. c \<in> set cs \<Longrightarrow> x \<in> set (alphabet c) \<Longrightarrow> x \<in> set (concat [lowercaseAlphabet, uppercaseAlphabet, digitAlphabet, symbolAlphabet])"
proof -
  obtain t where e: "e = effective_password p" "22 \<le> ep_Length e" "ep_Length e \<le> 128" "cs \<noteq> []" "t \<le> ep_Length e"
      and r: "resolve_classes (ep_ExcludeAmbiguous e) (class_definitions e) ([], 0) = Some (cs, t)"
    using assms by (auto simp: resolvePasswordParameters_def Let_def minimumPasswordLength_def maximumPasswordLength_def
        split: option.splits if_splits)
  then show "e = effective_password p" "22 \<le> ep_Length e" "ep_Length e \<le> 128" "cs \<noteq> []" by auto
  let ?ex = "ep_ExcludeAmbiguous e" and ?alphas = "[lowercaseAlphabet, uppercaseAlphabet, digitAlphabet, symbolAlphabet]"
  note x = resolve_classes_exact [OF r, simplified]
  show "suffixMinimum cs \<le> nat (ep_Length e)" using x e(5) by auto
  have "concat (map (\<lambda>d. alphabet (resolved_class ?ex d)) (class_definitions e)) =
      (if ?ex then filter (\<lambda>c. c \<notin> set ambiguousAlphabet) (concat ?alphas) else concat ?alphas)"
    by (simp add: class_definitions_def resolved_class_def excludeAmbiguous_def)
  then have "distinct (concat (map (\<lambda>d. alphabet (resolved_class ?ex d)) (class_definitions e)))"
    using distinct_alphabets distinct_filter by (metis (no_types, lifting))
  then have "distinct (concat (map alphabet cs))"
    using x distinct_concat_filter [of "\<lambda>d. alphabet (resolved_class ?ex d)" "class_definitions e" fst] by (simp add: comp_def)
  then show "good_classes cs" using x by (intro good_classesI) auto
  fix c y assume c: "c \<in> set cs" "y \<in> set (alphabet c)"
  then obtain d where "d \<in> set (class_definitions e)" "c = resolved_class ?ex d" using x by auto
  then show "y \<in> set (concat ?alphas)" using c(2)
    by (auto simp: class_definitions_def resolved_class_def excludeAmbiguous_def split: if_splits)
qed

lemma run_gen_bind:
  "run_gen (gbind g f) r = (case run_gen g r of (None, r1) \<Rightarrow> (None, r1) | (Some x, r1) \<Rightarrow> run_gen (f x) r1)"
  by (induction g arbitrary: r) (auto split: prod.splits option.splits)

lemma GeneratePassword_run:
  assumes "resolvePasswordParameters params = Inr (e, cs)" "n = nat (ep_Length e)"
  shows "GeneratePassword (Some r) params =
    (if card {w. accepted n cs w} < 2 ^ 128 then (Inl ErrInvalidParameters, Some r)
     else case run_gen (password_gen n cs) r of
       (None, r1) \<Rightarrow> (Inl ErrGenerationFailed, Some r1)
     | (Some pw, r1) \<Rightarrow> (Inr \<lparr>pw_private = pw, pw_parameters = e\<rparr>, Some r1))"
proof -
  note x = resolved [OF assms(1)]
  have "card {w. accepted n cs w} = count_passwords cs n"
    using password_count(2) [OF x(5,4)] x(6) assms(2) by simp
  then show ?thesis
    using assms by (auto simp: GeneratePassword_def Let_def password_gen_def run_gen_bind minimumPasswordCardinality_def
        split: prod.splits option.splits)
qed

section \<open>Properties\<close>

text \<open>C2. Uniform passwords: for parameters that resolve, the sampler always returns, returns each
  password accepted by the effective class minima with the same probability, one over their
  number, and no other string; the counter counts exactly these passwords; and generation is this
  sampler run on the random source, refused beforehand, without reading from the source, exactly
  when there are fewer than \<open>2 ^ 128\<close> accepted passwords.\<close>

theorem password_uniform:
  assumes "resolvePasswordParameters params = Inr (e, cs)" "n = nat (ep_Length e)"
  shows "sure (password_gen n cs) \<and>
    (\<forall>w. prob (password_gen n cs) w = (if accepted n cs w then 1 / of_nat (card {w. accepted n cs w}) else 0)) \<and>
    count_passwords cs n = card {w. accepted n cs w} \<and>
    GeneratePassword (Some r) params =
      (if card {w. accepted n cs w} < 2 ^ 128 then (Inl ErrInvalidParameters, Some r)
       else case run_gen (password_gen n cs) r of
         (None, r1) \<Rightarrow> (Inl ErrGenerationFailed, Some r1)
       | (Some pw, r1) \<Rightarrow> (Inr \<lparr>pw_private = pw, pw_parameters = e\<rparr>, Some r1))"
proof -
  note x = resolved [OF assms(1)]
  have m: "suffixMinimum cs \<le> n" using x(6) assms(2) by simp
  note c = password_count [OF x(5,4) m] and p = password_prob [OF x(5,4) m]
  show ?thesis
    using password_gen_sure(1) [OF x(5,4) m] p c(2) GeneratePassword_run [OF assms] by (intro conjI) auto
qed

text \<open>Generated passwords: a password that is returned has the effective length, between 22 and
  128, consists of printable ASCII characters of the enabled classes, contains at least the
  required number of characters of every enabled class, and was drawn from at least \<open>2 ^ 128\<close>
  accepted passwords; invalid parameters leave the random source untouched.\<close>

lemma generated_password_accepted:
  assumes "GeneratePassword g params = (result, g')"
  shows "case result of
      Inl ErrInvalidParameters \<Rightarrow> g' = g
    | Inl ErrGenerationFailed \<Rightarrow> True
    | Inr res \<Rightarrow> \<exists>cs. resolvePasswordParameters params = Inr (pw_parameters res, cs) \<and>
        accepted (nat (ep_Length (pw_parameters res))) cs (pw_private res) \<and>
        22 \<le> length (pw_private res) \<and> length (pw_private res) \<le> 128 \<and>
        (\<forall>x\<in>set (pw_private res). 33 \<le> (of_char x :: nat) \<and> (of_char x :: nat) \<le> 126) \<and>
        2 ^ 128 \<le> card {w. accepted (nat (ep_Length (pw_parameters res))) cs w}"
proof (cases "resolvePasswordParameters params")
  case (Inl err)
  then show ?thesis using assms by (auto simp: GeneratePassword_def split: sum.splits gen_error.splits)
next
  case (Inr ecs)
  obtain e cs where ecs: "ecs = (e, cs)" by (cases ecs)
  note r = Inr [unfolded ecs] and x = resolved [OF Inr [unfolded ecs]]
  show ?thesis
  proof (cases g)
    case None
    then show ?thesis using assms r by (auto simp: GeneratePassword_def)
  next
    case (Some s)
    let ?n = "nat (ep_Length e)"
    note run = GeneratePassword_run [OF r refl, of s]
    have ok: "accepted ?n cs pw" if "run_gen (password_gen ?n cs) s = (Some pw, s')" for pw s'
      using run_gen_outcome [OF password_gen_sure(1) that] password_count(1) x(4-6) by blast
    have "22 \<le> length pw \<and> length pw \<le> 128 \<and> (\<forall>y\<in>set pw. 33 \<le> (of_char y :: nat) \<and> (of_char y :: nat) \<le> 126)"
      if "accepted ?n cs pw" for pw
      using that x(2,3,7) printable_alphabets unfolding accepted_def by (auto simp: nat_le_iff le_nat_iff)
    then show ?thesis using assms r run Some ok by (auto split: if_splits prod.splits option.splits)
  qed
qed

subsection \<open>Default parameters\<close>

definition default_PasswordParameters :: PasswordParameters where
  "default_PasswordParameters = \<lparr>pp_Length = None, pp_Lowercase = None, pp_Uppercase = None, pp_Digits = None,
     pp_Symbols = None, pp_MinLowercase = None, pp_MinUppercase = None, pp_MinDigits = None,
     pp_MinSymbols = None, pp_ExcludeAmbiguous = None\<rparr>"

definition default_classes :: "passwordClass list" where
  "default_classes = [\<lparr>alphabet = lowercaseAlphabet, minimum = 1\<rparr>, \<lparr>alphabet = uppercaseAlphabet, minimum = 1\<rparr>,
     \<lparr>alphabet = digitAlphabet, minimum = 1\<rparr>]"

lemma default_resolves:
  "resolvePasswordParameters default_PasswordParameters = Inr (effective_password default_PasswordParameters, default_classes)"
  "ep_Length (effective_password default_PasswordParameters) = 32"
  by (simp_all add: resolvePasswordParameters_def effective_password_def default_PasswordParameters_def Let_def
      class_definitions_def default_classes_def intOrDefault_def boolOrDefault_def minimumOrDefault_def
      minimumPasswordLength_def maximumPasswordLength_def maximumClassMinimum_def
      lowercaseAlphabet_def uppercaseAlphabet_def digitAlphabet_def)

lemma count_ge_weight: "x \<in> set (class_counts c cs m) \<Longrightarrow> countWeight c cs m x \<le> count_passwords (c # cs) m"
  unfolding count_weights by (intro member_le_sum_list) auto

lemma default_cardinality: "2 ^ 128 \<le> count_passwords default_classes 32"
proof -
  let ?l = "\<lparr>alphabet = lowercaseAlphabet, minimum = 1\<rparr>" and ?u = "\<lparr>alphabet = uppercaseAlphabet, minimum = 1\<rparr>"
    and ?d = "\<lparr>alphabet = digitAlphabet, minimum = 1\<rparr>"
  have "0 < count_passwords [?u, ?d] 2"
    by (rule count_positive) (simp_all add: uppercaseAlphabet_def digitAlphabet_def)
  moreover have "length (alphabet ?l) = 26" by (simp add: lowercaseAlphabet_def)
  ultimately have "(26 :: nat) ^ 30 \<le> countWeight ?l [?u, ?d] 32 30"
    using zero_less_binomial [of 30 32, THEN Suc_leI] by (simp add: countWeight_def del: count_passwords.simps)
  also have "\<dots> \<le> count_passwords [?l, ?u, ?d] 32"
    by (rule count_ge_weight) (simp add: class_counts_range)
  finally have "(26 :: nat) ^ 30 \<le> count_passwords default_classes 32" unfolding default_classes_def .
  moreover have "(2 :: nat) ^ 128 \<le> 26 ^ 30" by simp
  ultimately show ?thesis by linarith
qed

text \<open>A source that delivers enough zero bytes serves every sampler that always returns.\<close>

lemma zero_candidate: "SetBytes (mask_first b (replicate k (CHR 0x00))) = 0"
proof -
  have "SetBytes (replicate j (CHR 0x00)) = 0" for j by (induction j) (simp_all add: SetBytes_Cons, simp add: SetBytes_def)
  moreover have "mask_first b (replicate k (CHR 0x00)) = replicate k (CHR 0x00)"
    by (cases k) (simp_all add: mask_first_def char_of_def)
  ultimately show ?thesis by simp
qed

lemma zero_rand:
  assumes "0 < n"
  shows "\<exists>need. \<forall>m\<ge>need. \<exists>m'. m - need \<le> m' \<and> rand_Int n (replicate m (CHR 0x00)) = (Some 0, replicate m' (CHR 0x00))"
proof (cases "BitLen (n - 1) = 0")
  case True
  then show ?thesis by (intro exI [of _ 0]) (auto simp: rand_Int_def)
next
  case False
  let ?k = "(BitLen (n - 1) + 7) div 8"
  have "8 \<le> BitLen (n - 1) + 7" using False by linarith
  then have k: "?k \<noteq> 0" by (simp only: div_eq_0_iff) linarith
  have "rand_loop ?k b n (replicate m (CHR 0x00)) = (Some 0, replicate (m - ?k) (CHR 0x00))" if "?k \<le> m" for m b
    using assms k that by (subst rand_loop.simps) (simp add: Let_def zero_candidate)
  then have "rand_Int n (replicate m (CHR 0x00)) = (Some 0, replicate (m - ?k) (CHR 0x00))" if "?k \<le> m" for m
    using False that unfolding rand_Int_def Let_def by simp
  then show ?thesis by (intro exI [of _ ?k]) auto
qed

lemma zero_run:
  assumes "sure g"
  shows "\<exists>need. \<forall>m\<ge>need. \<exists>x m'. m - need \<le> m' \<and> run_gen g (replicate m (CHR 0x00)) = (Some x, replicate m' (CHR 0x00))"
  using assms
proof (induction g)
  case (Ret x)
  then show ?case by (intro exI [of _ 0]) auto
next
  case (Draw n f)
  obtain a where a: "\<forall>m\<ge>a. \<exists>m'. m - a \<le> m' \<and> rand_Int n (replicate m (CHR 0x00)) = (Some 0, replicate m' (CHR 0x00))"
    using zero_rand [of n] Draw.prems by auto
  obtain b where b: "\<forall>m\<ge>b. \<exists>x m'. m - b \<le> m' \<and> run_gen (f 0) (replicate m (CHR 0x00)) = (Some x, replicate m' (CHR 0x00))"
    using Draw.IH [of "f 0"] Draw.prems by auto
  have "\<exists>x m'. m - (a + b) \<le> m' \<and> run_gen (Draw n f) (replicate m (CHR 0x00)) = (Some x, replicate m' (CHR 0x00))"
    if m: "a + b \<le> m" for m
  proof -
    obtain m1 where m1: "m - a \<le> m1" "rand_Int n (replicate m (CHR 0x00)) = (Some 0, replicate m1 (CHR 0x00))"
      using a m by (meson add_leD1)
    then obtain x m2 where "m1 - b \<le> m2" "run_gen (f 0) (replicate m1 (CHR 0x00)) = (Some x, replicate m2 (CHR 0x00))"
      using b m m1(1) by (metis add_leD1 le_diff_conv2 le_trans add.commute)
    then show ?thesis using m1 by (intro exI [of _ x] exI [of _ m2]) auto
  qed
  then show ?case by blast
qed simp

lemma default_generates:
  "\<exists>r res r'. GeneratePassword (Some r) default_PasswordParameters = (Inr res, Some r')"
proof -
  note x = resolved [OF default_resolves(1)]
  have "suffixMinimum default_classes \<le> 32" using x(6) by (simp add: default_resolves(2))
  note s = password_gen_sure(1) [OF x(5,4) this] and c = password_count(2) [OF x(5,4) this]
  obtain need where "\<forall>m\<ge>need. \<exists>y m'. m - need \<le> m' \<and>
      run_gen (password_gen 32 default_classes) (replicate m (CHR 0x00)) = (Some y, replicate m' (CHR 0x00))"
    using zero_run [OF s] by blast
  then obtain y m' where "run_gen (password_gen 32 default_classes) (replicate need (CHR 0x00)) = (Some y, replicate m' (CHR 0x00))"
    by blast
  then show ?thesis
    using GeneratePassword_run [OF default_resolves(1) refl, of "replicate need (CHR 0x00)"] default_cardinality c
    by (auto simp: default_resolves(2) not_less)
qed

theorem password_uniform_witness:
  "(\<forall>w. prob (password_gen 32 default_classes) w =
     (if accepted 32 default_classes w then 1 / of_nat (card {w. accepted 32 default_classes w}) else 0))"
  using password_uniform [OF default_resolves(1) refl] by (simp add: default_resolves(2))

text \<open>The memo table: counting with the table, started empty, gives the number of the plain
  recurrence, and so does every later count with the table it leaves.\<close>

lemma count_memo_equivalent:
  assumes "count_memo 0 cs slots Map.empty = (v, m)" "count_memo 0 cs slots' m = (v', m')"
  shows "v = count_passwords cs slots \<and> v' = count_passwords cs slots'"
  using count_memo_correct [of cs Map.empty 0 cs slots v m] count_memo_correct [of cs m 0 cs slots' v' m'] assms by simp

text \<open>Tokens: a returned token is the unpadded base64url or lower-case hexadecimal text of exactly
  the bytes read from the source, between 16 and 64 of them as requested, decodes back to these
  bytes, and its format names the encoding; parameters outside these bounds or with another
  encoding are refused without reading.\<close>

lemma token_exact:
  assumes "GenerateToken g params = (result, g')"
  shows "case result of
      Inl ErrInvalidParameters \<Rightarrow> g' = g
    | Inl ErrGenerationFailed \<Rightarrow> g' = None \<or> (\<exists>r. g = Some r \<and> length r < 64)
    | Inr res \<Rightarrow> \<exists>raw r'. g = Some (raw @ r') \<and> g' = Some r' \<and> 16 \<le> length raw \<and> length raw \<le> 64 \<and>
        int (length raw) = et_Bytes (tok_parameters res) \<and>
        (et_Encoding (tok_parameters res) = TokenEncodingBase64URL \<and> tok_format res = TokenBase64Format \<and>
           tok_private res = base64_EncodeToString raw \<and> base64_DecodeString (tok_private res) = Some raw \<or>
         et_Encoding (tok_parameters res) = TokenEncodingHex \<and> tok_format res = TokenHexFormat \<and>
           tok_private res = hex_EncodeToString raw \<and> hex_DecodeString (tok_private res) = Some raw)"
proof (cases "resolveTokenParameters params")
  case (Inl err)
  then show ?thesis using assms by (auto simp: GenerateToken_def resolveTokenParameters_def Let_def split: if_splits TokenEncoding.splits)
next
  case (Inr ef)
  obtain e f where ef: "ef = (e, f)" by (cases ef)
  have e: "16 \<le> et_Bytes e" "et_Bytes e \<le> 64"
      "et_Encoding e = TokenEncodingBase64URL \<and> f = TokenBase64Format \<or> et_Encoding e = TokenEncodingHex \<and> f = TokenHexFormat"
    using Inr ef by (auto simp: resolveTokenParameters_def Let_def split: if_splits TokenEncoding.splits)
  show ?thesis
  proof (cases "g = None \<or> length (the g) < nat (et_Bytes e)")
    case True
    then show ?thesis using assms Inr ef e by (cases g) (auto simp: GenerateToken_def io_ReadFull_def)
  next
    case False
    then obtain r where r: "g = Some r" "nat (et_Bytes e) \<le> length r" by auto
    let ?raw = "take (nat (et_Bytes e)) r" and ?rest = "drop (nat (et_Bytes e)) r"
    have "g = Some (?raw @ ?rest)" "length ?raw = nat (et_Bytes e)" "16 \<le> length ?raw" "length ?raw \<le> 64"
      using r e by auto
    then show ?thesis using assms Inr ef e(3) e(1) r
      by (auto simp: GenerateToken_def io_ReadFull_def intro!: exI [of _ ?raw] exI [of _ ?rest])
  qed
qed

end
