(* ===== verification/Generate_Service.thy ===== *)
theory Generate_Service
  imports Vault_Service Generate
begin

text \<open>
  Generation through the service, \<open>backend/internal/vaultservice/generate.go\<close>: private material is
  created by the generator, sealed with the destination profile and returned only as Vault text.

  The generator is an interface. It works on a state \<open>'r\<close> (its random source), so that a statement
  can say when it was not asked at all. Clearing of the private bytes after use is not modelled.
\<close>

section \<open>Definitions\<close>

datatype GenerateKind =
    GenerateKindPassword | GenerateKindToken | GenerateKindSSHKeyPair | GenerateKindAgeIdentity
  | GenerateKindX509CSR | GenerateKindOther string

record SSHKeyPairParameters =
  sp_Algorithm :: SSHAlgorithm

record 'r MaterialGenerator =
  mg_Password :: "PasswordParameters \<Rightarrow> 'r \<Rightarrow> (gen_error + PasswordResult) \<times> 'r"
  mg_Token :: "TokenParameters \<Rightarrow> 'r \<Rightarrow> (gen_error + TokenResult) \<times> 'r"
  mg_SSHKeyPair :: "SSHKeyPairParameters \<Rightarrow> 'r \<Rightarrow> (gen_error + SSHKeyPairResult) \<times> 'r"
  mg_AgeIdentity :: "'r \<Rightarrow> (gen_error + AgeIdentityResult) \<times> 'r"
  mg_X509CSR :: "X509CSRParameters \<Rightarrow> 'r \<Rightarrow> (gen_error + X509CSRResult) \<times> 'r"

record GenerateCommand =
  gc_ProfileID :: string
  gc_Kind :: GenerateKind
  gc_Password :: "PasswordParameters option"
  gc_Token :: "TokenParameters option"
  gc_SSHKeyPair :: "SSHKeyPairParameters option"
  gc_AgeIdentity :: "unit option"
  gc_X509CSR :: "X509CSRParameters option"
  gc_X509CollectionOverflow :: bool

record GeneratedSecret =
  gs_Format :: string
  gs_VaultText :: string

text \<open>The closed union of results: the profile, what is public, and the sealed secret.\<close>

datatype GenerateResult =
    GeneratedPasswordResult string EffectivePasswordParameters GeneratedSecret
  | GeneratedTokenResult string EffectiveTokenParameters GeneratedSecret
  | GeneratedSSHKeyPairResult string SSHAlgorithm GeneratedSecret (sshPublicFormat: string) (sshAuthorizedKey: string) (sshFingerprint: string)
  | GeneratedAgeIdentityResult string string GeneratedSecret (agePublicFormat: string) (ageRecipient: string)
  | GeneratedX509CSRResult string X509Algorithm GeneratedSecret (x509PublicFormat: string) (x509CSRPEM: string) (x509Fingerprint: string)

fun MaterialKind :: "GenerateResult \<Rightarrow> GenerateKind" where
  "MaterialKind (GeneratedPasswordResult _ _ _) = GenerateKindPassword"
| "MaterialKind (GeneratedTokenResult _ _ _) = GenerateKindToken"
| "MaterialKind (GeneratedSSHKeyPairResult _ _ _ _ _ _) = GenerateKindSSHKeyPair"
| "MaterialKind (GeneratedAgeIdentityResult _ _ _ _ _) = GenerateKindAgeIdentity"
| "MaterialKind (GeneratedX509CSRResult _ _ _ _ _ _) = GenerateKindX509CSR"

fun res_DestinationProfileID :: "GenerateResult \<Rightarrow> string" where
  "res_DestinationProfileID (GeneratedPasswordResult pid _ _) = pid"
| "res_DestinationProfileID (GeneratedTokenResult pid _ _) = pid"
| "res_DestinationProfileID (GeneratedSSHKeyPairResult pid _ _ _ _ _) = pid"
| "res_DestinationProfileID (GeneratedAgeIdentityResult pid _ _ _ _) = pid"
| "res_DestinationProfileID (GeneratedX509CSRResult pid _ _ _ _ _) = pid"

fun SealedSecret :: "GenerateResult \<Rightarrow> GeneratedSecret" where
  "SealedSecret (GeneratedPasswordResult _ _ s) = s"
| "SealedSecret (GeneratedTokenResult _ _ s) = s"
| "SealedSecret (GeneratedSSHKeyPairResult _ _ s _ _ _) = s"
| "SealedSecret (GeneratedAgeIdentityResult _ _ s _ _) = s"
| "SealedSecret (GeneratedX509CSRResult _ _ s _ _ _) = s"

definition PreflightGenerate ::
  "Service option \<Rightarrow> 'r MaterialGenerator option \<Rightarrow> ctx \<Rightarrow> nat \<Rightarrow> Caller \<Rightarrow> svc_error option" where
  "PreflightGenerate sp gen c t actor =
     (case Preflight c t actor OperationEncrypt of
        Some err \<Rightarrow> Some err
      | None \<Rightarrow> if \<not> Ready sp \<or> gen = None then Some (notReady ''service is not ready'') else None)"

definition validateGenerateIdentity :: "GenerateCommand \<Rightarrow> svc_error option" where
  "validateGenerateIdentity command =
     (if \<not> IsValidProfileID (gc_ProfileID command) then Some (invalidRequest ''profile ID is invalid'')
      else (case gc_Kind command of
        GenerateKindOther _ \<Rightarrow> Some (invalidRequest ''generation kind is invalid'')
      | _ \<Rightarrow> None))"

definition present_parameters :: "GenerateCommand \<Rightarrow> nat" where
  "present_parameters command =
     length (filter id [gc_Password command \<noteq> None, gc_Token command \<noteq> None, gc_SSHKeyPair command \<noteq> None,
       gc_AgeIdentity command \<noteq> None, gc_X509CSR command \<noteq> None])"

definition validateGenerateVariant :: "GenerateCommand \<Rightarrow> svc_error option" where
  "validateGenerateVariant command =
     (if present_parameters command \<noteq> 1 \<or> gc_X509CollectionOverflow command
      then Some (invalidRequest ''generation parameters are invalid'')
      else let valid = (case gc_Kind command of
               GenerateKindPassword \<Rightarrow> gc_Password command \<noteq> None
             | GenerateKindToken \<Rightarrow> gc_Token command \<noteq> None
             | GenerateKindSSHKeyPair \<Rightarrow> gc_SSHKeyPair command \<noteq> None
             | GenerateKindAgeIdentity \<Rightarrow> gc_AgeIdentity command \<noteq> None
             | GenerateKindX509CSR \<Rightarrow> gc_X509CSR command \<noteq> None
             | GenerateKindOther _ \<Rightarrow> False)
        in if \<not> valid then Some (invalidRequest ''generation parameters are invalid'') else None)"

definition validPublicText :: "string \<Rightarrow> bool" where
  "validPublicText v \<longleftrightarrow> v \<noteq> [] \<and> utf8_valid v \<and> CHR 0x00 \<notin> set v"

record generatedMaterial =
  gm_private :: go_bytes
  gm_result :: "string \<Rightarrow> GenerateResult"

definition generateMaterial ::
  "'r MaterialGenerator \<Rightarrow> GenerateCommand \<Rightarrow> 'r \<Rightarrow> (gen_error + generatedMaterial) \<times> 'r" where
  "generateMaterial gen command r =
     (let pid = gc_ProfileID command in
      case gc_Kind command of
        GenerateKindPassword \<Rightarrow>
          (case mg_Password gen (the (gc_Password command)) r of
             (Inl err, r1) \<Rightarrow> (Inl err, r1)
           | (Inr generated, r1) \<Rightarrow>
               (Inr \<lparr>gm_private = pw_private generated,
                 gm_result = (\<lambda>vaultText. GeneratedPasswordResult pid (pw_parameters generated)
                   \<lparr>gs_Format = PasswordFormat, gs_VaultText = vaultText\<rparr>)\<rparr>, r1))
      | GenerateKindToken \<Rightarrow>
          (case mg_Token gen (the (gc_Token command)) r of
             (Inl err, r1) \<Rightarrow> (Inl err, r1)
           | (Inr generated, r1) \<Rightarrow>
               if et_Encoding (tok_parameters generated) = TokenEncodingBase64URL \<and> tok_format generated \<noteq> TokenBase64Format \<or>
                  et_Encoding (tok_parameters generated) = TokenEncodingHex \<and> tok_format generated \<noteq> TokenHexFormat
               then (Inl ErrGenerationFailed, r1)
               else (Inr \<lparr>gm_private = tok_private generated,
                 gm_result = (\<lambda>vaultText. GeneratedTokenResult pid (tok_parameters generated)
                   \<lparr>gs_Format = tok_format generated, gs_VaultText = vaultText\<rparr>)\<rparr>, r1))
      | GenerateKindSSHKeyPair \<Rightarrow>
          (case mg_SSHKeyPair gen (the (gc_SSHKeyPair command)) r of
             (Inl err, r1) \<Rightarrow> (Inl err, r1)
           | (Inr generated, r1) \<Rightarrow>
               if ssh_algorithm generated \<noteq> sp_Algorithm (the (gc_SSHKeyPair command)) \<or>
                  \<not> validPublicText (ssh_authorizedKey generated) \<or> \<not> validPublicText (ssh_fingerprint generated)
               then (Inl ErrGenerationFailed, r1)
               else (Inr \<lparr>gm_private = ssh_private generated,
                 gm_result = (\<lambda>vaultText. GeneratedSSHKeyPairResult pid (ssh_algorithm generated)
                   \<lparr>gs_Format = SSHPrivateFormat, gs_VaultText = vaultText\<rparr>
                   SSHPublicFormat (ssh_authorizedKey generated) (ssh_fingerprint generated))\<rparr>, r1))
      | GenerateKindAgeIdentity \<Rightarrow>
          (case mg_AgeIdentity gen r of
             (Inl err, r1) \<Rightarrow> (Inl err, r1)
           | (Inr generated, r1) \<Rightarrow>
               if \<not> validPublicText (age_recipient generated) then (Inl ErrGenerationFailed, r1)
               else (Inr \<lparr>gm_private = age_private generated,
                 gm_result = (\<lambda>vaultText. GeneratedAgeIdentityResult pid ''x25519''
                   \<lparr>gs_Format = AgePrivateFormat, gs_VaultText = vaultText\<rparr>
                   AgePublicFormat (age_recipient generated))\<rparr>, r1))
      | GenerateKindX509CSR \<Rightarrow>
          (case mg_X509CSR gen (the (gc_X509CSR command)) r of
             (Inl err, r1) \<Rightarrow> (Inl err, r1)
           | (Inr generated, r1) \<Rightarrow>
               if x509_algorithm generated \<noteq> xp_Algorithm (the (gc_X509CSR command)) \<or>
                  \<not> validPublicText (x509_csrPEM generated) \<or> \<not> validPublicText (x509_fingerprint generated)
               then (Inl ErrGenerationFailed, r1)
               else (Inr \<lparr>gm_private = x509_private generated,
                 gm_result = (\<lambda>vaultText. GeneratedX509CSRResult pid (x509_algorithm generated)
                   \<lparr>gs_Format = X509PrivateFormat, gs_VaultText = vaultText\<rparr>
                   X509PublicFormat (x509_csrPEM generated) (x509_fingerprint generated))\<rparr>, r1))
      | GenerateKindOther _ \<Rightarrow> (Inl ErrInvalidParameters, r))"

definition mapGenerationError :: "gen_error \<Rightarrow> svc_error" where
  "mapGenerationError err =
     (if err = ErrInvalidParameters then invalidRequest ''generation parameters are invalid'' else operationFailed)"

definition validGeneratedVaultText :: "string \<Rightarrow> string \<Rightarrow> bool" where
  "validGeneratedVaultText vaultText pid \<longleftrightarrow>
     strings_HasPrefix vaultText (Header12Prefix @ '';'' @ pid @ [LF]) \<and> CanonicalEnvelope vaultText = Inr vaultText"

text \<open>The checks on the assembled result, and the end of the operation.\<close>

definition finish_generate ::
  "ctx \<Rightarrow> ctx \<Rightarrow> nat option \<Rightarrow> nat \<Rightarrow> GenerateCommand \<Rightarrow> generatedMaterial \<Rightarrow> string \<Rightarrow> svc_error + GenerateResult" where
  "finish_generate c oc lease t command material vaultText =
     (let result = gm_result material vaultText; secret = SealedSecret result in
      if MaterialKind result \<noteq> gc_Kind command \<or> res_DestinationProfileID result \<noteq> gc_ProfileID command
      then Inl operationFailed
      else if gs_VaultText secret \<noteq> vaultText \<or> gs_Format secret = [] then Inl operationFailed
      else check_err (leaseMergedContextError c oc lease t) (Inr result))"

text \<open>Sealing the private material.\<close>

definition seal_material ::
  "ctx \<Rightarrow> context_t \<Rightarrow> nat option \<Rightarrow> nat \<Rightarrow> GenerateCommand \<Rightarrow> ProfileExecutor \<Rightarrow> generatedMaterial \<Rightarrow> svc_error + GenerateResult" where
  "seal_material c oc lease t command exec material =
     (if gm_private material = [] \<or> MaxPlaintextBytes < length (gm_private material) \<or> \<not> utf8_valid (gm_private material)
      then Inl operationFailed
      else let sealed = pe_Encrypt exec oc t (gm_private material) in
        check_err (leaseMergedContextError c (Some oc) lease (t + 2))
        (case sealed of
           Inl _ \<Rightarrow> Inl operationFailed
         | Inr vaultText \<Rightarrow>
             let ok = validGeneratedVaultText vaultText (gc_ProfileID command) in
             check_err (leaseMergedContextError c (Some oc) lease (t + 4))
             (if \<not> ok then Inl operationFailed
              else finish_generate c (Some oc) lease (t + 6) command material vaultText)))"

text \<open>The part of \<open>Generate\<close> that runs with the lease held: authorisation, resolution, generation,
  sealing.\<close>

definition generate_held ::
  "Service \<Rightarrow> 'r MaterialGenerator \<Rightarrow> ctx \<Rightarrow> context_t \<Rightarrow> nat option \<Rightarrow> nat \<Rightarrow> Caller \<Rightarrow> GenerateCommand \<Rightarrow> 'r \<Rightarrow>
     (svc_error + GenerateResult) \<times> 'r" where
  "generate_held s gen c oc lease t actor command r =
     (let live = (\<lambda>u. leaseMergedContextError c (Some oc) lease u);
          encrypt = empty_Command\<lparr>cmd_Operation := OperationEncrypt, cmd_ProfileID := gc_ProfileID command\<rparr>
      in case live t of Some err \<Rightarrow> (Inl err, r) | None \<Rightarrow>
         (case validateGenerateIdentity command of Some err \<Rightarrow> (Inl err, r) | None \<Rightarrow>
          (let authorizationErr = authorize s (Some oc) (t + 2) actor encrypt in
           case live (t + 5) of Some err \<Rightarrow> (Inl err, r) | None \<Rightarrow>
           (case authorizationErr of Some err \<Rightarrow> (Inl err, r) | None \<Rightarrow>
            (case svc_byID s (gc_ProfileID command) of
               None \<Rightarrow> (Inl (profileAccessError actor), r)
             | Some entry \<Rightarrow> (case ce_executor entry of
                 None \<Rightarrow> (Inl (notReady ''service is not ready''), r)
               | Some exec \<Rightarrow>
                  (case validateGenerateVariant command of Some err \<Rightarrow> (Inl err, r) | None \<Rightarrow>
                   (case live (t + 7) of Some err \<Rightarrow> (Inl err, r) | None \<Rightarrow>
                    (case generateMaterial gen command r of
                       (outcome, r1) \<Rightarrow>
                         (check_err (live (t + 9))
                           (case outcome of
                              Inl err \<Rightarrow> Inl (mapGenerationError err)
                            | Inr material \<Rightarrow> seal_material c oc lease (t + 11) command exec material), r1))))))))))"

definition Generate_op ::
  "(nat \<Rightarrow> bool) \<Rightarrow> heap \<Rightarrow> Service option \<Rightarrow> 'r MaterialGenerator option \<Rightarrow> ctx \<Rightarrow> nat \<Rightarrow> Caller \<Rightarrow> GenerateCommand \<Rightarrow> 'r \<Rightarrow>
     ((svc_error + GenerateResult) \<times> 'r \<times> heap) option" where
  "Generate_op delivered h sp gen c t actor command r =
     (case PreflightGenerate sp gen c t actor of
        Some err \<Rightarrow> Some (Inl err, r, h)
      | None \<Rightarrow>
          let s = the sp; lease = leaseFromContext c in
          (case leaseBoundContextError c lease (t + 1) of
             Some err \<Rightarrow> Some (Inl err, r, h)
           | None \<Rightarrow>
               if lease = None \<or> \<not> liveForContext h lease c (svc_admission s)
               then Some (Inl (notReady ''operation admission is not ready''), r, h)
               else (case executionContext h lease of
                 None \<Rightarrow> Some (Inl (notReady ''operation admission is not ready''), r, h)
               | Some ec \<Rightarrow>
                   (case leaseBoundContextError (Some ec) lease (t + 2) of
                      Some err \<Rightarrow> Some (Inl err, r, h)
                    | None \<Rightarrow>
                        (case holdForContext h lease c (svc_admission s) of
                           None \<Rightarrow> None
                         | Some (False, h1) \<Rightarrow>
                             Some (Inl (case leaseBoundContextError c lease (t + 3) of
                                          Some err \<Rightarrow> err
                                        | None \<Rightarrow> notReady ''operation admission is not ready''), r, h1)
                         | Some (True, h1) \<Rightarrow>
                             (case generate_held s (the gen) c (mergeCancellationContexts delivered ec (the c)) lease (t + 4)
                                     actor command r of
                                (result, r1) \<Rightarrow> Some (result, r1, releaseHold h1 lease)))))))"

section \<open>Lemmas\<close>

abbreviation generate_check :: "GenerateCommand \<Rightarrow> Command" where
  "generate_check command \<equiv> empty_Command\<lparr>cmd_Operation := OperationEncrypt, cmd_ProfileID := gc_ProfileID command\<rparr>"

text \<open>The generator is only asked, and a result only returned, after every check.\<close>

lemma generate_held_past_checks:
  assumes "generate_held s gen c oc lease t actor command r = (res, r1)" "r1 \<noteq> r \<or> res = Inr x"
  shows "\<exists>entry exec outcome. validateGenerateIdentity command = None \<and> validateGenerateVariant command = None \<and>
    authorize s (Some oc) (t + 2) actor (generate_check command) = None \<and>
    svc_byID s (gc_ProfileID command) = Some entry \<and> ce_executor entry = Some exec \<and>
    generateMaterial gen command r = (outcome, r1) \<and>
    (res = Inr x \<longrightarrow> (\<exists>material. outcome = Inr material \<and> seal_material c oc lease (t + 11) command exec material = Inr x))"
proof -
  define a where "a = authorize s (Some oc) (t + 2) actor (generate_check command)"
  define l where "l = (\<lambda>u. leaseMergedContextError c (Some oc) lease u)"
  show ?thesis
    using assms unfolding generate_held_def Let_def a_def [symmetric] l_def [symmetric]
    by (cases "l t"; cases "validateGenerateIdentity command"; cases "l (t + 5)"; cases a;
        cases "svc_byID s (gc_ProfileID command)"; cases "validateGenerateVariant command"; cases "l (t + 7)")
      (auto split: option.splits prod.splits sum.splits)
qed

lemma seal_material_Inr:
  assumes "seal_material c oc lease t command exec material = Inr x"
  shows "\<exists>vaultText. pe_Encrypt exec oc t (gm_private material) = Inr vaultText \<and> gm_private material \<noteq> [] \<and>
    length (gm_private material) \<le> MaxPlaintextBytes \<and> utf8_valid (gm_private material) \<and>
    validGeneratedVaultText vaultText (gc_ProfileID command) \<and> x = gm_result material vaultText \<and>
    MaterialKind x = gc_Kind command \<and> res_DestinationProfileID x = gc_ProfileID command \<and>
    gs_VaultText (SealedSecret x) = vaultText \<and> gs_Format (SealedSecret x) \<noteq> []"
  using assms
  by (auto simp: seal_material_def finish_generate_def Let_def split: if_splits sum.splits)

lemma Generate_op_returns:
  assumes "Generate_op delivered h sp gen c t actor command r = Some (result, r', h')"
  shows "lease_states h' = lease_states h \<and> admissions h' = admissions h \<and> fresh h' = fresh h \<and>
    (r' \<noteq> r \<or> result = Inr x \<longrightarrow>
      (\<exists>s g ec. sp = Some s \<and> svc_ready s \<and> gen = Some g \<and> Preflight c t actor OperationEncrypt = None \<and>
         lease_bound h (leaseFromContext c) c (svc_admission s) \<and> executionContext h (leaseFromContext c) = Some ec \<and>
         generate_held s g c (mergeCancellationContexts delivered ec (the c)) (leaseFromContext c) (t + 4) actor command r = (result, r')))"
proof (cases "PreflightGenerate sp gen c t actor")
  case (Some err)
  then show ?thesis using assms by (auto simp: Generate_op_def)
next
  case None
  then obtain s g where s: "sp = Some s" "svc_ready s" "gen = Some g" "Preflight c t actor OperationEncrypt = None"
    by (auto simp: PreflightGenerate_def Ready_def split: option.splits if_splits)
  show ?thesis
  proof (cases "leaseBoundContextError c (leaseFromContext c) (t + 1) \<noteq> None \<or>
      leaseFromContext c = None \<or> \<not> liveForContext h (leaseFromContext c) c (svc_admission s)")
    case True
    then show ?thesis using assms None s by (auto simp: Generate_op_def Let_def split: option.splits if_splits)
  next
    case bound: False
    show ?thesis
    proof (cases "executionContext h (leaseFromContext c)")
      case n: None
      then show ?thesis using assms None s bound by (auto simp: Generate_op_def Let_def)
    next
      case (Some ec)
      show ?thesis
        using assms s bound held_hold_release hold_false_heap unfolding Generate_op_def Let_def None Some
        by (fastforce simp: liveForContext_def split: option.splits prod.splits bool.splits)
    qed
  qed
qed

section \<open>Properties\<close>

text \<open>C30. Generation is guarded: whenever a call of \<open>Generate\<close> has used the generator at all, or
  returns a result, the service was ready, the lease was live and bound to the caller's context, the
  command named a valid profile and kind with exactly the parameters of that kind, and the caller
  was anonymous or had the scope and the authoriser's grant to encrypt with that profile; in every
  case the leases and their mutexes are as before the call.\<close>

theorem generate_guarded:
  assumes "Generate_op delivered h sp gen c t actor command r = Some (result, r', h')"
  shows "lease_states h' = lease_states h \<and> admissions h' = admissions h \<and>
    (r' \<noteq> r \<or> is_ok result \<longrightarrow>
      (\<exists>s. sp = Some s \<and> svc_ready s \<and> lease_bound h (leaseFromContext c) c (svc_admission s) \<and>
         IsValidProfileID (gc_ProfileID command) \<and> present_parameters command = 1 \<and>
         validateGenerateVariant command = None \<and>
         (kind actor = KindAnonymous \<or>
          (kind actor = KindBearer \<longrightarrow> HasScope actor ScopeEncrypt) \<and>
          (\<exists>evaluate u. svc_authorizer s = Some evaluate \<and>
             evaluate u actor [\<lparr>chk_Action = ActionEncrypt, chk_Resource = ProfileResource (gc_ProfileID command)\<rparr>] = Inr [True]))))"
proof (cases "r' \<noteq> r \<or> is_ok result")
  case False
  then show ?thesis using Generate_op_returns [OF assms] by auto
next
  case True
  then obtain x where x: "r' \<noteq> r \<or> result = Inr x" by (auto simp: is_ok_conv)
  then obtain s g ec where s: "sp = Some s" "svc_ready s" "lease_bound h (leaseFromContext c) c (svc_admission s)"
      "Preflight c t actor OperationEncrypt = None"
      "generate_held s g c (mergeCancellationContexts delivered ec (the c)) (leaseFromContext c) (t + 4) actor command r = (result, r')"
    using Generate_op_returns [OF assms, of x] by blast
  let ?oc = "mergeCancellationContexts delivered ec (the c)"
  from generate_held_past_checks [OF s(5) x]
  have chk: "validateGenerateIdentity command = None" "validateGenerateVariant command = None"
      and a: "authorize s (Some ?oc) (t + 4 + 2) actor (generate_check command) = None" by blast+
  have "kind actor = KindAnonymous \<or>
      (kind actor = KindBearer \<longrightarrow> HasScope actor ScopeEncrypt) \<and>
      (\<exists>evaluate u. svc_authorizer s = Some evaluate \<and>
         evaluate u actor [\<lparr>chk_Action = ActionEncrypt, chk_Resource = ProfileResource (gc_ProfileID command)\<rparr>] = Inr [True])"
    using a unfolding authorize_None Preflight_None
    by (auto simp: RequiredScope_def operationChecks_def length_Suc_conv list_all_iff)
  moreover have "IsValidProfileID (gc_ProfileID command)" "present_parameters command = 1"
    using chk by (auto simp: validateGenerateIdentity_def validateGenerateVariant_def split: if_splits)
  ultimately show ?thesis using Generate_op_returns [OF assms, of x] s(1-3) chk(2) by blast
qed

subsection \<open>A call that goes through\<close>

lemma Generate_calm:
  assumes "issued h a l x" "calm x" "svc_ready s" "svc_admission s = Some a"
    "entitled (svc_authorizer s) actor (generate_check command)"
    "validateGenerateIdentity command = None" "validateGenerateVariant command = None"
    "svc_byID s (gc_ProfileID command) = Some entry" "ce_executor entry = Some exec"
  shows "Generate_op delivered h (Some s) (Some gen) (Some x) t actor command r =
    (case generateMaterial gen command r of
       (outcome, r1) \<Rightarrow>
         Some (case outcome of
                 Inl err \<Rightarrow> Inl (mapGenerationError err)
               | Inr material \<Rightarrow> seal_material (Some x) (mergeCancellationContexts delivered x x) (Some l) (t + 15) command exec material,
               r1, h))"
proof -
  let ?oc = "mergeCancellationContexts delivered x x"
  obtain st where hold: "holdForContext h (Some l) (Some x) (Some a) = Some (True, set_lease l (st\<lparr>held := True\<rparr>) h)"
    "releaseHold (set_lease l (st\<lparr>held := True\<rparr>) h) (Some l) = h"
    using hold_issued [OF assms(1)] by metis
  have "Preflight (Some x) t actor OperationEncrypt = None"
    using assms(2,5) unfolding entitled_def Preflight_None by (auto simp: RequiredScope_def)
  then have pre: "PreflightGenerate (Some s) (Some gen) (Some x) t actor = None"
    using assms(3) by (simp add: PreflightGenerate_def Ready_def)
  have au: "authorize s (Some ?oc) u actor (generate_check command) = None" for u
    using entitled_authorize [OF assms(5)] assms(2) by simp
  have held: "generate_held s gen (Some x) ?oc (Some l) (t + 4) actor command r =
      (case generateMaterial gen command r of
        (outcome, r1) \<Rightarrow> (case outcome of
                 Inl err \<Rightarrow> Inl (mapGenerationError err)
               | Inr material \<Rightarrow> seal_material (Some x) ?oc (Some l) (t + 15) command exec material, r1))"
    using assms(2,6-9) au unfolding generate_held_def Let_def by (simp add: add.assoc split: prod.split sum.split)
  show ?thesis
    using assms(1,2,4) pre hold held
    by (auto simp: Generate_op_def Let_def issued_def liveForContext_def split: prod.split)
qed

text \<open>The generator of the production service on its random source.\<close>

definition production_generator ::
  "(SSHKeyPairParameters \<Rightarrow> go_bytes option \<Rightarrow> (gen_error + SSHKeyPairResult) \<times> go_bytes option) \<Rightarrow>
   (go_bytes option \<Rightarrow> (gen_error + AgeIdentityResult) \<times> go_bytes option) \<Rightarrow>
   (X509CSRParameters \<Rightarrow> go_bytes option \<Rightarrow> (gen_error + X509CSRResult) \<times> go_bytes option) \<Rightarrow>
   go_bytes option MaterialGenerator" where
  "production_generator ssh age x509 =
     \<lparr>mg_Password = (\<lambda>p g. GeneratePassword g p), mg_Token = (\<lambda>p g. GenerateToken g p),
      mg_SSHKeyPair = ssh, mg_AgeIdentity = age, mg_X509CSR = x509\<rparr>"

definition demo_generate :: GenerateCommand where
  "demo_generate = \<lparr>gc_ProfileID = ''dev'', gc_Kind = GenerateKindPassword, gc_Password = Some default_PasswordParameters,
     gc_Token = None, gc_SSHKeyPair = None, gc_AgeIdentity = None, gc_X509CSR = None, gc_X509CollectionOverflow = False\<rparr>"

lemma demo_generate_valid:
  "validateGenerateIdentity demo_generate = None" "validateGenerateVariant demo_generate = None"
  using demo_ids(1)
  by (simp_all add: validateGenerateIdentity_def validateGenerateVariant_def demo_generate_def present_parameters_def)

lemma printable_utf8:
  assumes "\<forall>x\<in>set w. 33 \<le> (of_char x :: nat) \<and> (of_char x :: nat) \<le> 126"
  shows "utf8_valid w"
  using assms by (intro utf8_valid_ascii) (auto simp: is_ascii_def list_all_iff)

lemma GeneratePassword_Inr:
  assumes "GeneratePassword (Some r) params = (Inr res, r')"
  obtains cs where "resolvePasswordParameters params = Inr (pw_parameters res, cs)"
    "accepted (nat (ep_Length (pw_parameters res))) cs (pw_private res)"
    "2 ^ 128 \<le> card {w. accepted (nat (ep_Length (pw_parameters res))) cs w}"
    "22 \<le> length (pw_private res)" "length (pw_private res) \<le> 128" "utf8_valid (pw_private res)"
proof -
  obtain e cs where r: "resolvePasswordParameters params = Inr (e, cs)"
    using assms by (auto simp: GeneratePassword_def split: sum.splits prod.splits)
  note x = resolved [OF r]
  let ?n = "nat (ep_Length e)"
  have run: "\<not> card {w. accepted ?n cs w} < 2 ^ 128" "run_gen (password_gen ?n cs) r = (Some (pw_private res), the r')" "pw_parameters res = e"
    using assms GeneratePassword_run [OF r refl, of r] by (auto split: if_splits prod.splits option.splits)
  have acc: "accepted ?n cs (pw_private res)"
    using run_gen_outcome [OF password_gen_sure(1) run(2)] password_count(1) x(4-6) by blast
  then have "22 \<le> length (pw_private res)" "length (pw_private res) \<le> 128"
    using x(2,3) unfolding accepted_def by auto
  moreover have "utf8_valid (pw_private res)"
    using acc x(7) printable_alphabets unfolding accepted_def by (intro printable_utf8) blast
  ultimately show thesis using that r acc run(1,3) by auto
qed

lemma demo_generate_runs:
  "\<exists>r result r'. Generate_op (\<lambda>_. False) demo_leased (Some demo_service) (Some (production_generator ssh age x509)) (Some demo_ctx) 0
     Anonymous demo_generate (Some r) = Some (Inr result, r', demo_leased)"
proof -
  obtain r res r' where g: "GeneratePassword (Some r) default_PasswordParameters = (Inr res, Some r')"
    using default_generates by blast
  let ?gen = "production_generator ssh age x509" and ?p = "hd demo_profiles"
  let ?exec = "profileExecutor demo_crypto (\<lambda>_. demo_random) ?p"
  have pr: "?p \<in> set (profiles demo_cfg)" "ID (public ?p) = ''dev''" by (simp_all add: demo_cfg_def demo_profiles_def)
  then have lk: "svc_byID demo_service ''dev'' =
      Some \<lparr>ce_profile = \<lparr>pr_ID = ''dev'', pr_Label = Label (public ?p), pr_Capabilities = zero_Capabilities\<rparr>, ce_executor = Some ?exec\<rparr>"
    using config_service(3) [OF demo_cfg_load demo_service_def] by blast
  have ok: "bound_ok (demo_crypto, \<lambda>_. demo_random, ?p)"
    using LoadJSON_config_ok [OF demo_cfg_load] pr(1) by (auto simp: config_ok_def list_all_iff demo_random_def)
  obtain cs where pw: "22 \<le> length (pw_private res)" "length (pw_private res) \<le> 128" "utf8_valid (pw_private res)"
    using GeneratePassword_Inr [OF g] by blast
  let ?oc = "mergeCancellationContexts (\<lambda>_. False) demo_ctx demo_ctx"
  obtain w where w: "pe_Encrypt ?exec ?oc 15 (pw_private res) = Inr w"
    using vx.seal_total [OF ok, of ?oc 15 "pw_private res"] calm_live [OF calm_merge [OF demo_calm demo_calm]] by auto
  have form: "validGeneratedVaultText w ''dev''"
    using vx.seal_form [OF ok, of ?oc 15 "pw_private res" w] w pw pr(2) by (simp add: validGeneratedVaultText_def MaxPlaintextBytes_def)
  have m: "generateMaterial ?gen demo_generate (Some r) =
      (Inr \<lparr>gm_private = pw_private res, gm_result = (\<lambda>v. GeneratedPasswordResult ''dev'' (pw_parameters res)
         \<lparr>gs_Format = PasswordFormat, gs_VaultText = v\<rparr>)\<rparr>, Some r')"
    using g by (simp add: generateMaterial_def demo_generate_def production_generator_def Let_def)
  have s: "\<exists>x. seal_material (Some demo_ctx) ?oc (Some 0) (0 + 15) demo_generate ?exec
      \<lparr>gm_private = pw_private res, gm_result = (\<lambda>v. GeneratedPasswordResult ''dev'' (pw_parameters res)
         \<lparr>gs_Format = PasswordFormat, gs_VaultText = v\<rparr>)\<rparr> = Inr x"
    using w form pw by (auto simp: seal_material_def finish_generate_def Let_def demo_generate_def PasswordFormat_def MaxPlaintextBytes_def)
  have "entitled (svc_authorizer demo_service) Anonymous (generate_check demo_generate)" by (simp add: entitled_def Anonymous_def)
  moreover have "svc_admission demo_service = Some 0" by (simp add: demo_service_def NewWithOptions_fields)
  moreover have "gc_ProfileID demo_generate = ''dev''" by (simp add: demo_generate_def)
  ultimately have "\<exists>x. Generate_op (\<lambda>_. False) demo_leased (Some demo_service) (Some ?gen) (Some demo_ctx) 0
      Anonymous demo_generate (Some r) = Some (Inr x, Some r', demo_leased)"
    using Generate_calm [OF demo_issued demo_calm config_service(1) [OF demo_cfg_load demo_service_def] _ _ demo_generate_valid,
        where actor = Anonymous and gen = ?gen and delivered = "\<lambda>_. False" and t = 0 and r = "Some r" and exec = ?exec] lk m s
    by auto
  then show ?thesis by blast
qed

theorem generate_guarded_witness:
  "\<exists>r result r'. Generate_op (\<lambda>_. False) demo_leased (Some demo_service) (Some (production_generator (\<lambda>_ g. (Inl ErrGenerationFailed, g))
       (\<lambda>g. (Inl ErrGenerationFailed, g)) (\<lambda>_ g. (Inl ErrGenerationFailed, g)))) (Some demo_ctx) 0
     Anonymous demo_generate (Some r) = Some (Inr result, r', demo_leased) \<and> IsValidProfileID (gc_ProfileID demo_generate)"
proof -
  obtain r result r' where g: "Generate_op (\<lambda>_. False) demo_leased (Some demo_service) (Some (production_generator (\<lambda>_ g. (Inl ErrGenerationFailed, g))
       (\<lambda>g. (Inl ErrGenerationFailed, g)) (\<lambda>_ g. (Inl ErrGenerationFailed, g)))) (Some demo_ctx) 0
     Anonymous demo_generate (Some r) = Some (Inr result, r', demo_leased)" using demo_generate_runs by blast
  from generate_guarded [OF g] show ?thesis using g by (auto simp: is_ok_conv)
qed

end
