(* ===== verification/Keyring.thy ===== *)
theory Keyring
  imports Attestation "HOL-Library.Word"
begin

text \<open>
  The key ring of rotation attestations, \<open>backend/internal/attestationkeyring\<close>: strict parsing of
  the key ring document (\<open>strict.go\<close>), its validation and the immutable snapshots (\<open>keyring.go\<close>),
  discovery documents (\<open>discovery.go\<close>), and the manager that reloads the file and serves the
  current snapshot to concurrent callers (\<open>manager.go\<close>).

  The tokens that \<open>json.Decoder\<close> delivers for a document, \<open>ed25519.NewKeyFromSeed\<close> and
  \<open>strings.ToLower\<close> are fields of the parameter \<open>keyring_lib\<close>. The manager is modelled twice: its
  methods as state changes, and as a step relation in which a reload is interleaved with closing
  and with the readers at the points where the source takes and gives its mutexes.
\<close>

section \<open>Definitions\<close>

datatype keyring_error =
    ErrInvalidKeyring | ErrKeyringUnavailable | ErrKeyringTooLarge | ErrIssuerMismatch | ErrUnknownKey
  | ErrNotReady | ErrClosed | ErrSigning att_error

datatype json_token =
    TDelim char | TString string | TNumber string | TBool bool | TNull | TInvalid

record keyring_lib =
  kl_proof :: proof_lib
  kl_tokens :: "go_bytes \<Rightarrow> json_token list"
  kl_NewKeyFromSeed :: "go_bytes \<Rightarrow> go_bytes"
  kl_ToLower :: "string \<Rightarrow> string"

subsection \<open>Strict JSON\<close>

definition maxJSONDepth :: nat where "maxJSONDepth = 32"

text \<open>\<open>decoder.More()\<close>: there is a next token and it closes nothing.\<close>

definition decoder_More :: "json_token list \<Rightarrow> bool" where
  "decoder_More toks = (case toks of [] \<Rightarrow> False | t # _ \<Rightarrow> t \<noteq> TDelim (CHR '']'') \<and> t \<noteq> TDelim (CHR ''}''))"

text \<open>The recursive descent of \<open>parseJSONValue\<close> with its two loops. Each call consumes tokens, which
  the tests on the length of the rest record for termination (lemma \<open>kr_parse_shorter\<close>).\<close>

function (sequential)
  kr_parseValue :: "nat \<Rightarrow> json_token list \<Rightarrow> (jsonValue \<times> json_token list) option" and
  kr_parseMembers :: "nat \<Rightarrow> (string \<times> jsonValue) list \<Rightarrow> json_token list \<Rightarrow> (jsonValue \<times> json_token list) option" and
  kr_parseElements :: "nat \<Rightarrow> jsonValue list \<Rightarrow> json_token list \<Rightarrow> (jsonValue \<times> json_token list) option" where
  "kr_parseValue depth [] = None"
| "kr_parseValue depth (t # rest) =
     (if depth > maxJSONDepth then None
      else (case t of
        TDelim d \<Rightarrow>
          if d = CHR ''{'' then kr_parseMembers depth [] rest
          else if d = CHR ''['' then kr_parseElements depth [] rest
          else None
      | TString s \<Rightarrow> if \<not> utf8_valid s then None else Some (JString s, rest)
      | TNumber n \<Rightarrow> Some (JNumber n, rest)
      | TBool b \<Rightarrow> Some (JBoolean b, rest)
      | TNull \<Rightarrow> Some (JNull, rest)
      | TInvalid \<Rightarrow> None))"
| "kr_parseMembers depth object toks =
     (if decoder_More toks then
        (case toks of
           TString key # rest \<Rightarrow>
             if map_of object key \<noteq> None then None
             else (case kr_parseValue (depth + 1) rest of
               None \<Rightarrow> None
             | Some (child, rest1) \<Rightarrow>
                 if length rest1 < length toks then kr_parseMembers depth (object @ [(key, child)]) rest1 else None)
         | _ \<Rightarrow> None)
      else (case toks of
        t # rest \<Rightarrow> if t = TDelim (CHR ''}'') then Some (JObject object, rest) else None
      | [] \<Rightarrow> None))"
| "kr_parseElements depth array toks =
     (if decoder_More toks then
        (case kr_parseValue (depth + 1) toks of
           None \<Rightarrow> None
         | Some (child, rest) \<Rightarrow>
             if length rest < length toks then kr_parseElements depth (array @ [child]) rest else None)
      else (case toks of
        t # rest \<Rightarrow> if t = TDelim (CHR '']'') then Some (JArray array, rest) else None
      | [] \<Rightarrow> None))"
  by pat_completeness auto
termination
  by (relation "measure (\<lambda>x. case x of
        Inl (_, toks) \<Rightarrow> 2 * length toks
      | Inr (Inl (_, _, toks)) \<Rightarrow> 2 * length toks + 1
      | Inr (Inr (_, _, toks)) \<Rightarrow> 2 * length toks + 1)") auto

definition kr_parseStrictJSON :: "keyring_lib \<Rightarrow> go_bytes \<Rightarrow> jsonValue option" where
  "kr_parseStrictJSON lib data =
     (if data = [] \<or> \<not> utf8_valid data then None
      else (case kr_parseValue 0 (kl_tokens lib data) of
        None \<Rightarrow> None
      | Some (v, rest) \<Rightarrow> if rest \<noteq> [] then None else Some v))"

definition kr_member :: "jsonValue \<Rightarrow> string \<Rightarrow> jsonValue option" where
  "kr_member v name = (case v of JObject object \<Rightarrow> map_of object name | _ \<Rightarrow> None)"

definition kr_hasOnlyMembers :: "jsonValue \<Rightarrow> string list \<Rightarrow> bool" where
  "kr_hasOnlyMembers v allowed =
     (case v of JObject object \<Rightarrow> list_all (\<lambda>(name, _). name \<in> set allowed) object | _ \<Rightarrow> False)"

definition kr_requiredString :: "jsonValue \<Rightarrow> string \<Rightarrow> string option" where
  "kr_requiredString v name =
     (case kr_member v name of Some (JString s) \<Rightarrow> if s = [] then None else Some s | _ \<Rightarrow> None)"

subsection \<open>Key rings\<close>

definition MaxFileBytes :: nat where "MaxFileBytes = 65536"
definition MaxEntries :: nat where "MaxEntries = 256"
definition ed25519_SeedSize :: nat where "ed25519_SeedSize = 32"
definition keyringMembers :: "string list" where "keyringMembers = [''version'', ''active'', ''keys'']"
definition keyMembers :: "string list" where "keyMembers = [''id'', ''state'', ''publicKey'', ''privateKey'']"

datatype KeyState = StateActive | StateRetired | StateRevoked

definition KeyState_of :: "string \<Rightarrow> KeyState option" where
  "KeyState_of s =
     (if s = ''active'' then Some StateActive
      else if s = ''retired'' then Some StateRetired
      else if s = ''revoked'' then Some StateRevoked
      else None)"

text \<open>\<open>seed\<close> and \<open>hasSeed\<close> together.\<close>

record keyEntry =
  ke_id :: string
  ke_state :: KeyState
  ke_publicKey :: go_bytes
  ke_seed :: "go_bytes option"

record Snapshot =
  sn_issuer :: string
  sn_active :: string
  sn_keys :: "string \<rightharpoonup> keyEntry"
  sn_orderedIDs :: "string list"
  sn_contentHash :: go_bytes

definition decodeKeyMaterial :: "string \<Rightarrow> go_bytes option" where
  "decodeKeyMaterial v =
     (if v = [] \<or> CHR ''='' \<in> set v then None
      else (case base64_DecodeString v of
        None \<Rightarrow> None
      | Some decoded \<Rightarrow>
          if length decoded \<noteq> ed25519_SeedSize \<or> base64_EncodeToString decoded \<noteq> v then None else Some decoded))"

definition canonicalIssuer :: "keyring_lib \<Rightarrow> string \<Rightarrow> string option" where
  "canonicalIssuer lib v =
     (if v = [] \<or> \<not> utf8_valid v \<or> strings_ContainsAny v ''?#'' \<or> list_ex unicode_IsControl (runes v) then None
      else (case url_Parse (kl_proof lib) v of
        None \<Rightarrow> None
      | Some u \<Rightarrow>
          if kl_ToLower lib (Scheme u) \<noteq> ''https'' \<or> Host u = [] \<or> has_User u \<or> Opaque u \<noteq> [] \<or>
             (url_Path u \<noteq> [] \<and> url_Path u \<noteq> ''/'') \<or> RawPath u \<noteq> [] \<or> RawQuery u \<noteq> [] \<or> ForceQuery u \<or>
             Fragment u \<noteq> [] \<or> Hostname u = []
          then None
          else Some (''https://'' @ kl_ToLower lib (Host u))))"

definition private_part :: "keyring_lib \<Rightarrow> jsonValue \<Rightarrow> KeyState \<Rightarrow> go_bytes \<Rightarrow> go_bytes option option" where
  "private_part lib v state publicKey =
     (case kr_member v ''privateKey'' of
        Some (JString s) \<Rightarrow>
          if s = [] then None
          else if state \<noteq> StateActive then None
          else (case decodeKeyMaterial s of
            None \<Rightarrow> None
          | Some seed \<Rightarrow>
              if drop ed25519_SeedSize (kl_NewKeyFromSeed lib seed) \<noteq> publicKey then None else Some (Some seed))
      | Some _ \<Rightarrow> None
      | None \<Rightarrow> if state = StateActive then None else Some None)"

definition parseKeyEntry :: "keyring_lib \<Rightarrow> jsonValue \<Rightarrow> keyEntry option" where
  "parseKeyEntry lib v =
     (if \<not> kr_hasOnlyMembers v keyMembers then None
      else (case kr_requiredString v ''id'' of
        None \<Rightarrow> None
      | Some kid \<Rightarrow> if \<not> validKID kid then None
          else (case kr_requiredString v ''state'' of
            None \<Rightarrow> None
          | Some stateValue \<Rightarrow> (case KeyState_of stateValue of
              None \<Rightarrow> None
            | Some state \<Rightarrow> (case kr_requiredString v ''publicKey'' of
                None \<Rightarrow> None
              | Some publicValue \<Rightarrow> (case decodeKeyMaterial publicValue of
                  None \<Rightarrow> None
                | Some publicKey \<Rightarrow> (case private_part lib v state publicKey of
                    None \<Rightarrow> None
                  | Some seed \<Rightarrow> Some \<lparr>ke_id = kid, ke_state = state, ke_publicKey = publicKey, ke_seed = seed\<rparr>)))))))"

text \<open>The loop over the entries: keys so far, their identifiers in order, and the active ones.\<close>

fun parse_entries ::
  "keyring_lib \<Rightarrow> jsonValue list \<Rightarrow> (string \<rightharpoonup> keyEntry) \<times> string list \<times> nat \<Rightarrow>
     ((string \<rightharpoonup> keyEntry) \<times> string list \<times> nat) option" where
  "parse_entries lib [] acc = Some acc"
| "parse_entries lib (v # vs) (keys, ids, activeCount) =
     (case parseKeyEntry lib v of
        None \<Rightarrow> None
      | Some entry \<Rightarrow>
          if keys (ke_id entry) \<noteq> None then None
          else parse_entries lib vs (keys(ke_id entry \<mapsto> entry), ids @ [ke_id entry],
            if ke_state entry = StateActive then activeCount + 1 else activeCount))"

definition kr_Parse :: "keyring_lib \<Rightarrow> go_bytes \<Rightarrow> string \<Rightarrow> keyring_error + Snapshot" where
  "kr_Parse lib data iss =
     (if MaxFileBytes < length data then Inl ErrKeyringTooLarge
      else (case canonicalIssuer lib iss of
        None \<Rightarrow> Inl ErrInvalidKeyring
      | Some canonical \<Rightarrow> (case kr_parseStrictJSON lib data of
          None \<Rightarrow> Inl ErrInvalidKeyring
        | Some root \<Rightarrow>
            if \<not> kr_hasOnlyMembers root keyringMembers then Inl ErrInvalidKeyring
            else if kr_member root ''version'' \<noteq> Some (JNumber ''1'') then Inl ErrInvalidKeyring
            else (case kr_requiredString root ''active'' of
              None \<Rightarrow> Inl ErrInvalidKeyring
            | Some act \<Rightarrow> if \<not> validKID act then Inl ErrInvalidKeyring
                else (case kr_member root ''keys'' of
                  Some (JArray vs) \<Rightarrow>
                    if vs = [] \<or> MaxEntries < length vs then Inl ErrInvalidKeyring
                    else (case parse_entries lib vs (Map.empty, [], 0) of
                      None \<Rightarrow> Inl ErrInvalidKeyring
                    | Some (keys, ids, activeCount) \<Rightarrow>
                        if activeCount \<noteq> 1 \<or> map_option ke_state (keys act) \<noteq> Some StateActive
                        then Inl ErrInvalidKeyring
                        else Inr \<lparr>sn_issuer = canonical, sn_active = act, sn_keys = keys,
                              sn_orderedIDs = sort ids, sn_contentHash = sha256_Sum (kl_proof lib) data\<rparr>)
                | _ \<Rightarrow> Inl ErrInvalidKeyring)))))"

definition sn_Resolve :: "Snapshot option \<Rightarrow> string \<Rightarrow> string \<Rightarrow> keyring_error + KeyResolution" where
  "sn_Resolve sp iss kid =
     (case sp of
        None \<Rightarrow> Inl ErrNotReady
      | Some s \<Rightarrow>
          if iss \<noteq> sn_issuer s then Inl ErrIssuerMismatch
          else (case sn_keys s kid of
            None \<Rightarrow> Inl ErrUnknownKey
          | Some entry \<Rightarrow> Inr \<lparr>PublicKey = ke_publicKey entry, Revoked = (ke_state entry = StateRevoked)\<rparr>))"

definition sn_Sign :: "keyring_lib \<Rightarrow> Snapshot option \<Rightarrow> RotationClaims \<Rightarrow> keyring_error + Signed" where
  "sn_Sign lib sp claims =
     (case sp of
        None \<Rightarrow> Inl ErrNotReady
      | Some s \<Rightarrow>
          if Issuer claims \<noteq> sn_issuer s then Inl ErrIssuerMismatch
          else (case sn_keys s (sn_active s) of
            None \<Rightarrow> Inl ErrNotReady
          | Some entry \<Rightarrow> (case ke_seed entry of
              None \<Rightarrow> Inl ErrNotReady
            | Some seed \<Rightarrow>
                map_sum ErrSigning id (Sign (kl_proof lib) claims (ke_id entry) (kl_NewKeyFromSeed lib seed)))))"

subsection \<open>Discovery\<close>

record Metadata =
  md_Issuer :: string
  md_ActiveKID :: string
  md_AttestationVersions :: "int list"
  md_JWKSURI :: string
  md_RevokedKids :: "string list"

record JWK =
  jwk_Kty :: string
  jwk_Crv :: string
  jwk_Alg :: string
  jwk_Use :: string
  jwk_Kid :: string
  jwk_X :: string

definition sn_state :: "Snapshot \<Rightarrow> string \<Rightarrow> KeyState option" where
  "sn_state s kid = map_option ke_state (sn_keys s kid)"

definition sn_Metadata :: "Snapshot \<Rightarrow> Metadata" where
  "sn_Metadata s =
     \<lparr>md_Issuer = sn_issuer s, md_ActiveKID = sn_active s, md_AttestationVersions = [1],
      md_JWKSURI = sn_issuer s @ ''/.well-known/vaultsmith-attestation/jwks.json'',
      md_RevokedKids = filter (\<lambda>kid. sn_state s kid = Some StateRevoked) (sn_orderedIDs s)\<rparr>"

definition jwk_for :: "keyEntry \<Rightarrow> JWK" where
  "jwk_for entry = \<lparr>jwk_Kty = ''OKP'', jwk_Crv = ''Ed25519'', jwk_Alg = ''Ed25519'', jwk_Use = ''sig'',
     jwk_Kid = ke_id entry, jwk_X = base64_EncodeToString (ke_publicKey entry)\<rparr>"

definition sn_JWKS :: "Snapshot \<Rightarrow> JWK list" where
  "sn_JWKS s = map (\<lambda>kid. jwk_for (the (sn_keys s kid)))
     (filter (\<lambda>kid. sn_state s kid \<noteq> Some StateRevoked) (sn_orderedIDs s))"

definition metadata_value :: "Metadata \<Rightarrow> jsonValue" where
  "metadata_value m = JObject
     [(''issuer'', JString (md_Issuer m)), (''activeKid'', JString (md_ActiveKID m)),
      (''attestationVersions'', JArray (map (\<lambda>n. JNumber (decimal (nat n))) (md_AttestationVersions m))),
      (''jwksUri'', JString (md_JWKSURI m)), (''revokedKids'', JArray (map JString (md_RevokedKids m)))]"

definition jwks_value :: "JWK list \<Rightarrow> jsonValue" where
  "jwks_value keys = JObject [(''keys'', JArray (map (\<lambda>k. JObject
     [(''kty'', JString (jwk_Kty k)), (''crv'', JString (jwk_Crv k)), (''alg'', JString (jwk_Alg k)),
      (''use'', JString (jwk_Use k)), (''kid'', JString (jwk_Kid k)), (''x'', JString (jwk_X k))]) keys))]"

definition kr_canonicalJSON :: "keyring_lib \<Rightarrow> jsonValue \<Rightarrow> keyring_error + go_bytes" where
  "kr_canonicalJSON lib v =
     (case jcs_Transform (kl_proof lib) (render marshal_chars v) of
        None \<Rightarrow> Inl ErrInvalidKeyring
      | Some canonical \<Rightarrow> Inr canonical)"

definition sn_MetadataJSON :: "keyring_lib \<Rightarrow> Snapshot option \<Rightarrow> keyring_error + go_bytes" where
  "sn_MetadataJSON lib sp =
     (case sp of None \<Rightarrow> Inl ErrNotReady | Some s \<Rightarrow> kr_canonicalJSON lib (metadata_value (sn_Metadata s)))"

definition sn_JWKSJSON :: "keyring_lib \<Rightarrow> Snapshot option \<Rightarrow> keyring_error + go_bytes" where
  "sn_JWKSJSON lib sp =
     (case sp of None \<Rightarrow> Inl ErrNotReady | Some s \<Rightarrow> kr_canonicalJSON lib (jwks_value (sn_JWKS s)))"

subsection \<open>The manager\<close>

text \<open>What opening and reading the file gives: \<open>None\<close> when it cannot be opened, else its content and
  whether reading and closing succeeded.\<close>

type_synonym key_file = "(go_bytes \<times> bool) option"

definition readBoundedFile :: "key_file \<Rightarrow> keyring_error + go_bytes" where
  "readBoundedFile f =
     (case f of
        None \<Rightarrow> Inl ErrKeyringUnavailable
      | Some (content, ok) \<Rightarrow>
          let data = take (MaxFileBytes + 1) content in
          if \<not> ok then Inl ErrKeyringUnavailable
          else if MaxFileBytes < length data then Inl ErrKeyringTooLarge
          else Inr data)"

record Manager =
  mg_path :: string
  mg_issuer :: string
  mg_current :: "Snapshot option"
  mg_reloadSuccesses :: "64 word"
  mg_reloadFailures :: "64 word"
  mg_started :: bool
  mg_closed :: bool

definition LoadFile :: "keyring_lib \<Rightarrow> (string \<Rightarrow> key_file) \<Rightarrow> string \<Rightarrow> string \<Rightarrow> keyring_error + Snapshot" where
  "LoadFile lib fs path_arg iss =
     (if path_arg = [] then Inl ErrKeyringUnavailable
      else (case readBoundedFile (fs path_arg) of Inl err \<Rightarrow> Inl err | Inr data \<Rightarrow> kr_Parse lib data iss))"

definition newManager :: "keyring_lib \<Rightarrow> (string \<Rightarrow> key_file) \<Rightarrow> string \<Rightarrow> string \<Rightarrow> keyring_error + Manager" where
  "newManager lib fs path_arg iss =
     (if path_arg = [] then Inl ErrKeyringUnavailable
      else (case LoadFile lib fs path_arg iss of
        Inl err \<Rightarrow> Inl err
      | Inr snapshot \<Rightarrow> Inr \<lparr>mg_path = path_arg, mg_issuer = sn_issuer snapshot, mg_current = Some snapshot,
          mg_reloadSuccesses = 0, mg_reloadFailures = 0, mg_started = False, mg_closed = False\<rparr>))"

definition mgr_ReadyNow :: "Manager option \<Rightarrow> bool" where
  "mgr_ReadyNow mp = (case mp of None \<Rightarrow> False | Some m \<Rightarrow> mg_current m \<noteq> None \<and> \<not> mg_closed m)"

definition mgr_IssuerNow :: "Manager option \<Rightarrow> string" where
  "mgr_IssuerNow mp = (case mp of None \<Rightarrow> [] | Some m \<Rightarrow> mg_issuer m)"

definition rejectReload :: "Manager \<Rightarrow> Manager" where
  "rejectReload m = m\<lparr>mg_reloadFailures := mg_reloadFailures m + 1\<rparr>"

definition Reload :: "keyring_lib \<Rightarrow> (string \<Rightarrow> key_file) \<Rightarrow> Manager option \<Rightarrow> keyring_error option \<times> Manager option" where
  "Reload lib fs mp =
     (case mp of
        None \<Rightarrow> (Some ErrNotReady, mp)
      | Some m \<Rightarrow>
          if mg_closed m then (Some ErrClosed, mp)
          else (case readBoundedFile (fs (mg_path m)) of
            Inl err \<Rightarrow> (Some err, Some (rejectReload m))
          | Inr data \<Rightarrow>
              if map_option sn_contentHash (mg_current m) = Some (sha256_Sum (kl_proof lib) data) then (None, mp)
              else (case kr_Parse lib data (mg_issuer m) of
                Inl err \<Rightarrow> (Some err, Some (rejectReload m))
              | Inr snapshot \<Rightarrow>
                  (None, Some (m\<lparr>mg_current := Some snapshot, mg_reloadSuccesses := mg_reloadSuccesses m + 1\<rparr>)))))"

definition mgr_start :: "int \<Rightarrow> Manager option \<Rightarrow> keyring_error option \<times> Manager option" where
  "mgr_start interval mp =
     (case mp of
        None \<Rightarrow> (Some ErrNotReady, mp)
      | Some m \<Rightarrow>
          if interval \<le> 0 then (Some ErrInvalidKeyring, mp)
          else if mg_closed m then (Some ErrClosed, mp)
          else if mg_started m then (None, mp)
          else (None, Some (m\<lparr>mg_started := True\<rparr>)))"

definition mgr_Close :: "Manager option \<Rightarrow> Manager option" where
  "mgr_Close mp = (case mp of None \<Rightarrow> None | Some m \<Rightarrow> Some (m\<lparr>mg_closed := True\<rparr>))"

definition readySnapshot :: "Manager option \<Rightarrow> keyring_error + Snapshot" where
  "readySnapshot mp =
     (case mp of
        None \<Rightarrow> Inl ErrNotReady
      | Some m \<Rightarrow>
          if mg_closed m then Inl ErrClosed
          else (case mg_current m of None \<Rightarrow> Inl ErrNotReady | Some s \<Rightarrow> Inr s))"

definition mgr_ResolveNow :: "Manager option \<Rightarrow> string \<Rightarrow> string \<Rightarrow> keyring_error + KeyResolution" where
  "mgr_ResolveNow mp iss kid =
     (case readySnapshot mp of Inl err \<Rightarrow> Inl err | Inr s \<Rightarrow> sn_Resolve (Some s) iss kid)"

definition mgr_SignNow :: "keyring_lib \<Rightarrow> Manager option \<Rightarrow> RotationClaims \<Rightarrow> keyring_error + Signed" where
  "mgr_SignNow lib mp claims =
     (case readySnapshot mp of Inl err \<Rightarrow> Inl err | Inr s \<Rightarrow> sn_Sign lib (Some s) claims)"

definition mgr_MetadataJSON :: "keyring_lib \<Rightarrow> Manager option \<Rightarrow> keyring_error + go_bytes" where
  "mgr_MetadataJSON lib mp =
     (case readySnapshot mp of Inl err \<Rightarrow> Inl err | Inr s \<Rightarrow> sn_MetadataJSON lib (Some s))"

definition mgr_JWKSJSON :: "keyring_lib \<Rightarrow> Manager option \<Rightarrow> keyring_error + go_bytes" where
  "mgr_JWKSJSON lib mp =
     (case readySnapshot mp of Inl err \<Rightarrow> Inl err | Inr s \<Rightarrow> sn_JWKSJSON lib (Some s))"

subsection \<open>Interleavings of the manager\<close>

text \<open>Where the one reload that holds \<open>reloadMu\<close> stands: between two reloads, after its first test of
  \<open>closed\<close>, with the bytes of the file, and with the parsed replacement.\<close>

datatype reload_phase = RIdle | RChecked | RRead go_bytes | RParsed Snapshot

text \<open>Each step is an action of the source that is atomic: a critical section of \<open>mu\<close>, reading the
  file, or a computation on values no other goroutine sees. The content of the file is the
  environment's, and may differ at every reading; \<open>Close\<close> and \<open>Start\<close> come at any moment.\<close>

inductive mgr_step :: "keyring_lib \<Rightarrow> Manager \<times> reload_phase \<Rightarrow> Manager \<times> reload_phase \<Rightarrow> bool" for lib where
  reload_begin: "\<not> mg_closed m \<Longrightarrow> mgr_step lib (m, RIdle) (m, RChecked)"
| reload_unread: "readBoundedFile f = Inl err \<Longrightarrow> mgr_step lib (m, RChecked) (rejectReload m, RIdle)"
| reload_read: "readBoundedFile f = Inr data \<Longrightarrow> mgr_step lib (m, RChecked) (m, RRead data)"
| reload_same: "map_option sn_contentHash (mg_current m) = Some (sha256_Sum (kl_proof lib) data) \<Longrightarrow>
    mgr_step lib (m, RRead data) (m, RIdle)"
| reload_invalid: "map_option sn_contentHash (mg_current m) \<noteq> Some (sha256_Sum (kl_proof lib) data) \<Longrightarrow>
    kr_Parse lib data (mg_issuer m) = Inl err \<Longrightarrow> mgr_step lib (m, RRead data) (rejectReload m, RIdle)"
| reload_parsed: "map_option sn_contentHash (mg_current m) \<noteq> Some (sha256_Sum (kl_proof lib) data) \<Longrightarrow>
    kr_Parse lib data (mg_issuer m) = Inr s \<Longrightarrow> mgr_step lib (m, RRead data) (m, RParsed s)"
| reload_late: "mg_closed m \<Longrightarrow> mgr_step lib (m, RParsed s) (m, RIdle)"
| reload_swap: "\<not> mg_closed m \<Longrightarrow>
    mgr_step lib (m, RParsed s)
      (m\<lparr>mg_current := Some s, mg_reloadSuccesses := mg_reloadSuccesses m + 1\<rparr>, RIdle)"
| manager_start: "mgr_start interval (Some m) = (err, Some m') \<Longrightarrow> mgr_step lib (m, ph) (m', ph)"
| manager_close: "mgr_Close (Some m) = Some m' \<Longrightarrow> mgr_step lib (m, ph) (m', ph)"

inductive_simps mgr_step_simps:
  "mgr_step lib (m, RIdle) y"
  "mgr_step lib (m, RChecked) y"
  "mgr_step lib (m, RRead data) y"
  "mgr_step lib (m, RParsed s) y"

section \<open>Lemmas\<close>

subsection \<open>Strict parsing\<close>

text \<open>Every successful parse consumes a token: the tests on the length of the rest never fail.\<close>

declare kr_parseMembers.simps [simp del] kr_parseElements.simps [simp del]

lemma kr_members_step:
  assumes "kr_parseMembers d obj toks = Some (v, rest)"
  obtains "toks = TDelim (CHR ''}'') # rest"
  | key ts child rest1 where "toks = TString key # ts" "kr_parseValue (d + 1) ts = Some (child, rest1)"
      "length rest1 < length toks" "kr_parseMembers d (obj @ [(key, child)]) rest1 = Some (v, rest)"
  using assms
  by (subst (asm) kr_parseMembers.simps)
    (auto split: if_splits list.splits json_token.splits option.splits)

lemma kr_elements_step:
  assumes "kr_parseElements d arr toks = Some (v, rest)"
  obtains "toks = TDelim (CHR '']'') # rest"
  | child rest1 where "kr_parseValue (d + 1) toks = Some (child, rest1)"
      "length rest1 < length toks" "kr_parseElements d (arr @ [child]) rest1 = Some (v, rest)"
  using assms
  by (subst (asm) kr_parseElements.simps)
    (auto split: if_splits list.splits option.splits)

lemma kr_loops_shorter:
  "kr_parseMembers d obj toks = Some (v, rest) \<Longrightarrow> length rest < length toks"
  "kr_parseElements d arr toks = Some (v, rest) \<Longrightarrow> length rest < length toks"
proof (induction "length toks" arbitrary: toks obj arr rule: less_induct)
  case less
  { case 1
    then show ?case by (rule kr_members_step) (use less(1) less_trans in fastforce)+
  next
    case 2
    then show ?case by (rule kr_elements_step) (use less(2) less_trans in fastforce)+
  }
qed

lemma kr_parse_shorter: "kr_parseValue d toks = Some (v, rest) \<Longrightarrow> length rest < length toks"
  by (cases toks) (auto split: if_splits json_token.splits dest: kr_loops_shorter)

text \<open>Without the tests the recursion is the source's.\<close>

lemma kr_parseMembers_source:
  "decoder_More toks \<Longrightarrow> kr_parseMembers d obj toks =
     (case toks of
        TString key # rest \<Rightarrow>
          if map_of obj key \<noteq> None then None
          else Option.bind (kr_parseValue (d + 1) rest) (\<lambda>(child, rest1). kr_parseMembers d (obj @ [(key, child)]) rest1)
      | _ \<Rightarrow> None)"
  by (subst kr_parseMembers.simps)
    (auto split: list.split json_token.split option.split dest: kr_parse_shorter)

lemma kr_parseElements_source:
  "decoder_More toks \<Longrightarrow> kr_parseElements d arr toks =
     Option.bind (kr_parseValue (d + 1) toks) (\<lambda>(child, rest). kr_parseElements d (arr @ [child]) rest)"
  by (subst kr_parseElements.simps) (auto split: option.split dest: kr_parse_shorter)

subsection \<open>Snapshots\<close>

text \<open>An entry as the parser leaves it: only an active key carries a seed, and the seed generates the
  public key.\<close>

definition entry_ok :: "keyring_lib \<Rightarrow> keyEntry \<Rightarrow> bool" where
  "entry_ok lib e \<longleftrightarrow>
     validKID (ke_id e) \<and> length (ke_publicKey e) = ed25519_PublicKeySize \<and>
     (case ke_seed e of
        None \<Rightarrow> ke_state e \<noteq> StateActive
      | Some seed \<Rightarrow> ke_state e = StateActive \<and> length seed = ed25519_SeedSize \<and>
          drop ed25519_SeedSize (kl_NewKeyFromSeed lib seed) = ke_publicKey e)"

definition snapshot_ok :: "keyring_lib \<Rightarrow> Snapshot \<Rightarrow> bool" where
  "snapshot_ok lib s \<longleftrightarrow>
     sorted (sn_orderedIDs s) \<and> distinct (sn_orderedIDs s) \<and> set (sn_orderedIDs s) = dom (sn_keys s) \<and>
     length (sn_orderedIDs s) \<le> MaxEntries \<and>
     (\<forall>kid e. sn_keys s kid = Some e \<longrightarrow> ke_id e = kid \<and> entry_ok lib e) \<and>
     (\<forall>kid. sn_state s kid = Some StateActive \<longleftrightarrow> kid = sn_active s)"

lemma decodeKeyMaterial_Some:
  "decodeKeyMaterial v = Some bs \<longleftrightarrow> length bs = ed25519_SeedSize \<and> v = base64_EncodeToString bs"
proof -
  have "decodeKeyMaterial v = (case decodeStrictBase64URL v of
      None \<Rightarrow> None | Some bs \<Rightarrow> if length bs = ed25519_SeedSize then Some bs else None)"
    by (auto simp: decodeKeyMaterial_def decodeStrictBase64URL_def strings_ContainsRune_def split: option.splits)
  moreover have "bs \<noteq> []" if "length bs = ed25519_SeedSize" for bs :: go_bytes
    using that by (auto simp: ed25519_SeedSize_def)
  moreover note decodeStrict_exact [of v bs, unfolded encodeBase64URL_def]
  ultimately show ?thesis by (cases "decodeStrictBase64URL v = Some bs") (auto split: option.splits)
qed

lemma private_part_Some:
  "private_part lib v state pub = Some seed \<Longrightarrow>
     (case seed of
        None \<Rightarrow> state \<noteq> StateActive
      | Some sd \<Rightarrow> state = StateActive \<and> length sd = ed25519_SeedSize \<and>
          drop ed25519_SeedSize (kl_NewKeyFromSeed lib sd) = pub)"
  by (auto simp: private_part_def decodeKeyMaterial_Some split: option.splits jsonValue.splits if_splits)

lemma parseKeyEntry_ok: "parseKeyEntry lib v = Some e \<Longrightarrow> entry_ok lib e"
  by (auto simp: parseKeyEntry_def entry_ok_def decodeKeyMaterial_Some ed25519_SeedSize_def ed25519_PublicKeySize_def
      split: option.splits if_splits dest!: private_part_Some)

definition entries_inv :: "keyring_lib \<Rightarrow> (string \<rightharpoonup> keyEntry) \<times> string list \<times> nat \<Rightarrow> bool" where
  "entries_inv lib = (\<lambda>(keys, ids, n).
     distinct ids \<and> set ids = dom keys \<and> (\<forall>kid e. keys kid = Some e \<longrightarrow> ke_id e = kid \<and> entry_ok lib e) \<and>
     n = length (filter (\<lambda>kid. map_option ke_state (keys kid) = Some StateActive) ids))"

lemma parse_entries_inv:
  "parse_entries lib vs acc = Some acc' \<Longrightarrow> entries_inv lib acc \<Longrightarrow>
     entries_inv lib acc' \<and> length (fst (snd acc')) = length (fst (snd acc)) + length vs"
proof (induction lib vs acc rule: parse_entries.induct)
  case (2 lib v vs keys ids n)
  then obtain e where e: "parseKeyEntry lib v = Some e" "keys (ke_id e) = None"
      "parse_entries lib vs (keys(ke_id e \<mapsto> e), ids @ [ke_id e], if ke_state e = StateActive then n + 1 else n) = Some acc'"
    by (auto split: option.splits if_splits)
  have inv: "distinct ids" "set ids = dom keys" "\<forall>kid e. keys kid = Some e \<longrightarrow> ke_id e = kid \<and> entry_ok lib e"
      "n = length (filter (\<lambda>kid. map_option ke_state (keys kid) = Some StateActive) ids)"
    using 2(3) by (simp_all add: entries_inv_def)
  have new: "ke_id e \<notin> set ids" using e(2) inv(2) by auto
  then have "filter (\<lambda>kid. map_option ke_state ((keys(ke_id e \<mapsto> e)) kid) = Some StateActive) ids =
      filter (\<lambda>kid. map_option ke_state (keys kid) = Some StateActive) ids"
    by (intro filter_cong) auto
  then have "entries_inv lib (keys(ke_id e \<mapsto> e), ids @ [ke_id e], if ke_state e = StateActive then n + 1 else n)"
    using inv new parseKeyEntry_ok [OF e(1)] by (auto simp: entries_inv_def)
  from 2(1) [OF e(1) _ e(3) this] e(2) show ?case by simp
qed simp

lemma one_active:
  assumes "length (filter P xs) = 1" "distinct xs" "a \<in> set xs" "P a" "b \<in> set xs" "P b"
  shows "a = b"
proof -
  obtain y where "filter P xs = [y]" using assms(1) by (auto simp: length_Suc_conv)
  moreover have "a \<in> set (filter P xs)" "b \<in> set (filter P xs)" using assms(3-6) by simp_all
  ultimately show ?thesis by (metis empty_iff insert_iff list.set)
qed

lemma kr_Parse_entries:
  assumes "kr_Parse lib data iss = Inr s"
  obtains vs n ids where "vs \<noteq> []" "length vs \<le> MaxEntries" "parse_entries lib vs (Map.empty, [], 0) = Some (sn_keys s, ids, n)"
    "n = 1" "sn_state s (sn_active s) = Some StateActive" "sn_orderedIDs s = sort ids"
    "canonicalIssuer lib iss = Some (sn_issuer s)" "sn_contentHash s = sha256_Sum (kl_proof lib) data"
    "length data \<le> MaxFileBytes" "validKID (sn_active s)"
  using assms unfolding kr_Parse_def sn_state_def
  by (auto split: if_splits option.splits jsonValue.splits prod.splits)

lemma kr_Parse_ok:
  assumes "kr_Parse lib data iss = Inr s"
  shows "snapshot_ok lib s"
proof -
  obtain vs n ids where p: "vs \<noteq> []" "length vs \<le> MaxEntries" "parse_entries lib vs (Map.empty, [], 0) = Some (sn_keys s, ids, n)"
    "n = 1" "sn_state s (sn_active s) = Some StateActive" "sn_orderedIDs s = sort ids"
    using kr_Parse_entries [OF assms] by metis
  have "entries_inv lib (Map.empty, [], 0)" by (simp add: entries_inv_def)
  from parse_entries_inv [OF p(3) this]
  have i: "distinct ids" "set ids = dom (sn_keys s)" "\<forall>kid e. sn_keys s kid = Some e \<longrightarrow> ke_id e = kid \<and> entry_ok lib e"
      "length (filter (\<lambda>kid. sn_state s kid = Some StateActive) ids) = 1" "length ids = length vs"
    using p(4) by (auto simp: entries_inv_def sn_state_def)
  have "kid \<in> set ids" if "sn_state s kid = Some StateActive" for kid
    using that i(2) by (auto simp: sn_state_def)
  then have "sn_state s kid = Some StateActive \<longleftrightarrow> kid = sn_active s" for kid
    using one_active [OF i(4,1)] p(5) by metis
  then show ?thesis using i p(2,6) by (simp add: snapshot_ok_def)
qed

lemma kr_Parse_issuer: "kr_Parse lib data iss = Inr s \<Longrightarrow> canonicalIssuer lib iss = Some (sn_issuer s)"
  using kr_Parse_entries by metis

text \<open>What a valid snapshot holds under its active key.\<close>

lemma active_entry:
  assumes "snapshot_ok lib s"
  obtains e seed where "sn_keys s (sn_active s) = Some e" "ke_id e = sn_active s" "ke_state e = StateActive"
    "ke_seed e = Some seed" "length seed = ed25519_SeedSize" "validKID (sn_active s)"
    "ke_publicKey e = drop ed25519_SeedSize (kl_NewKeyFromSeed lib seed)"
proof -
  have "sn_state s (sn_active s) = Some StateActive" using assms by (simp add: snapshot_ok_def)
  then obtain e where e: "sn_keys s (sn_active s) = Some e" "ke_state e = StateActive" by (auto simp: sn_state_def)
  then have "ke_id e = sn_active s" "entry_ok lib e" using assms by (simp_all add: snapshot_ok_def)
  then show thesis using that e by (auto simp: entry_ok_def split: option.splits)
qed

subsection \<open>What a key ring promises\<close>

text \<open>Signing and resolving as the service uses them, on a ring \<open>r\<close> that may be replaced between the
  two: claims of the ring's issuer are signed with a key pair under the active key id, and the
  ring resolves that id to the public key, not revoked; a foreign issuer gets nothing.\<close>

locale key_ring =
  fixes lib_of :: "'r \<Rightarrow> proof_lib"
    and ring_ok :: "'r \<Rightarrow> bool"
    and issuer_of :: "'r \<Rightarrow> string"
    and active_of :: "'r \<Rightarrow> string"
    and sign :: "'r \<Rightarrow> RotationClaims \<Rightarrow> 'e + Signed"
    and resolve :: "'r \<Rightarrow> string \<Rightarrow> string \<Rightarrow> 'e + KeyResolution"
  assumes ring_lib: "ring_ok r \<Longrightarrow> proof_lib_ok (lib_of r)"
    and ring_sign: "ring_ok r \<Longrightarrow> Issuer c = issuer_of r \<Longrightarrow> \<exists>pub priv wrap.
      validKID (active_of r) \<and> key_pair (lib_of r) pub priv \<and>
      resolve r (issuer_of r) (active_of r) = Inr \<lparr>PublicKey = pub, Revoked = False\<rparr> \<and>
      sign r c = map_sum wrap id (Sign (lib_of r) c (active_of r) priv)"
    and ring_foreign: "ring_ok r \<Longrightarrow> iss \<noteq> issuer_of r \<Longrightarrow>
      (\<exists>err. resolve r iss kid = Inl err) \<and> (Issuer c = iss \<longrightarrow> (\<exists>err. sign r c = Inl err))"
begin

definition answer :: "'r \<Rightarrow> KeyResolver" where
  "answer r iss kid = (case resolve r iss kid of Inl _ \<Rightarrow> None | Inr key \<Rightarrow> Some key)"

text \<open>What one ring signs, any later ring of the same issuer verifies as long as it still resolves the
  signing key to the same public key.\<close>

lemma signed_is_checked:
  assumes "ring_ok r" "Issuer c = issuer_of r" "validateSigningClaims (lib_of r) c = None"
    and "resolve r (issuer_of r) (active_of r) = Inr k" "resolve r' (issuer_of r) (active_of r) = Inr k'"
    and "PublicKey k' = PublicKey k"
    and "validateVerifyOptions (lib_of r) opts = None" "ExpectedIssuer opts = issuer_of r" "Resolver opts = Some (answer r')"
  shows "\<exists>jws. sign r c = Inr jws \<and> decodeEncodedComponents jws \<noteq> None \<and> signature_checked (lib_of r) jws opts c k'"
proof -
  obtain pub priv wrap where s: "validKID (active_of r)" "key_pair (lib_of r) pub priv" "PublicKey k = pub"
      "sign r c = map_sum wrap id (Sign (lib_of r) c (active_of r) priv)"
    using ring_sign [OF assms(1,2)] assms(4) by auto
  have "the (Resolver opts) (Issuer c) (active_of r) = Some k'" using assms(2,5,9) by (simp add: answer_def)
  then obtain jws where "Sign (lib_of r) c (active_of r) priv = Inr jws" "decodeEncodedComponents jws \<noteq> None"
      "signature_checked (lib_of r) jws opts c k'"
    using Sign_checked [OF ring_lib [OF assms(1)] s(2) assms(3) s(1) assms(7)] assms(2,6,8) s(3) by metis
  then show ?thesis using s(4) by simp
qed

lemma foreign_unknown: "ring_ok r \<Longrightarrow> iss \<noteq> issuer_of r \<Longrightarrow> answer r iss kid = None"
  using ring_foreign [of r iss kid undefined] by (auto simp: answer_def)

end

text \<open>Documented behaviour of the library: \<open>NewKeyFromSeed\<close> returns a private key whose last 32 bytes
  are its public key.\<close>

definition keyring_lib_ok :: "keyring_lib \<Rightarrow> bool" where
  "keyring_lib_ok lib \<longleftrightarrow> proof_lib_ok (kl_proof lib) \<and>
     (\<forall>seed. length seed = ed25519_SeedSize \<longrightarrow>
        key_pair (kl_proof lib) (drop ed25519_SeedSize (kl_NewKeyFromSeed lib seed)) (kl_NewKeyFromSeed lib seed))"

abbreviation snapshot_ring :: "keyring_lib \<times> Snapshot \<Rightarrow> bool" where
  "snapshot_ring r \<equiv> keyring_lib_ok (fst r) \<and> snapshot_ok (fst r) (snd r)"

interpretation sr: key_ring "\<lambda>r. kl_proof (fst r)" snapshot_ring "\<lambda>r. sn_issuer (snd r)" "\<lambda>r. sn_active (snd r)"
  "\<lambda>r. sn_Sign (fst r) (Some (snd r))" "\<lambda>r. sn_Resolve (Some (snd r))"
proof (unfold_locales, goal_cases)
  case (2 r c)
  then obtain e seed where e: "sn_keys (snd r) (sn_active (snd r)) = Some e" "ke_id e = sn_active (snd r)"
      "ke_state e = StateActive" "ke_seed e = Some seed" "length seed = ed25519_SeedSize" "validKID (sn_active (snd r))"
      "ke_publicKey e = drop ed25519_SeedSize (kl_NewKeyFromSeed (fst r) seed)"
    using active_entry by metis
  moreover have "key_pair (kl_proof (fst r)) (ke_publicKey e) (kl_NewKeyFromSeed (fst r) seed)"
    using 2(1) e(5,7) by (simp add: keyring_lib_ok_def)
  ultimately show ?case using 2(2)
    by (intro exI [of _ "ke_publicKey e"] exI [of _ "kl_NewKeyFromSeed (fst r) seed"] exI [of _ ErrSigning])
      (simp add: sn_Sign_def sn_Resolve_def)
qed (auto simp: keyring_lib_ok_def sn_Resolve_def sn_Sign_def)

subsection \<open>The manager\<close>

definition manager_inv :: "keyring_lib \<Rightarrow> string \<Rightarrow> Manager \<times> reload_phase \<Rightarrow> bool" where
  "manager_inv lib iss = (\<lambda>(m, ph).
     mg_issuer m = iss \<and>
     (\<exists>s. mg_current m = Some s \<and> snapshot_ok lib s \<and> sn_issuer s = iss) \<and>
     (\<forall>s. ph = RParsed s \<longrightarrow> snapshot_ok lib s \<and> sn_issuer s = iss))"

lemma rejectReload_fields [simp]:
  "mg_issuer (rejectReload m) = mg_issuer m" "mg_current (rejectReload m) = mg_current m"
  "mg_closed (rejectReload m) = mg_closed m" "mg_path (rejectReload m) = mg_path m"
  "mg_reloadSuccesses (rejectReload m) = mg_reloadSuccesses m"
  by (simp_all add: rejectReload_def)

lemma mgr_start_fields:
  "mgr_start interval (Some m) = (err, Some m') \<Longrightarrow>
     mg_issuer m' = mg_issuer m \<and> mg_current m' = mg_current m \<and> mg_closed m' = mg_closed m"
  by (auto simp: mgr_start_def split: if_splits)

lemma mgr_Close_fields:
  "mgr_Close (Some m) = Some m' \<Longrightarrow> mg_issuer m' = mg_issuer m \<and> mg_current m' = mg_current m \<and> mg_closed m'"
  by (auto simp: mgr_Close_def)

lemma newManager_inv:
  assumes "newManager lib fs p iss = Inr m"
  shows "manager_inv lib (mg_issuer m) (m, RIdle) \<and> \<not> mg_closed m"
  using assms kr_Parse_ok
  by (auto simp: newManager_def LoadFile_def manager_inv_def split: if_splits sum.splits)

lemma mgr_step_inv:
  assumes "mgr_step lib x y" "manager_inv lib iss x" "canonicalIssuer lib iss = Some iss"
  shows "manager_inv lib iss y"
  using assms
proof cases
  case (reload_parsed m data s)
  then have "snapshot_ok lib s" "canonicalIssuer lib (mg_issuer m) = Some (sn_issuer s)"
    using kr_Parse_ok kr_Parse_issuer by blast+
  then show ?thesis using reload_parsed assms(2,3) by (auto simp: manager_inv_def)
next
  case (manager_start interval m err m' ph)
  then show ?thesis using assms(2) mgr_start_fields [OF manager_start(3)] by (simp add: manager_inv_def)
next
  case (manager_close m m' ph)
  then show ?thesis using assms(2) mgr_Close_fields [OF manager_close(3)] by (simp add: manager_inv_def)
qed (auto simp: manager_inv_def)

lemma mgr_steps_inv:
  "(mgr_step lib)\<^sup>*\<^sup>* x y \<Longrightarrow> manager_inv lib iss x \<Longrightarrow> canonicalIssuer lib iss = Some iss \<Longrightarrow> manager_inv lib iss y"
  by (induction rule: rtranclp_induct) (auto intro: mgr_step_inv)

text \<open>A closed manager stays closed and keeps its snapshot.\<close>

lemma mgr_step_closed:
  "mgr_step lib x y \<Longrightarrow> mg_closed (fst x) \<Longrightarrow> mg_closed (fst y) \<and> mg_current (fst y) = mg_current (fst x)"
  by (cases rule: mgr_step.cases) (auto dest: mgr_start_fields mgr_Close_fields)

lemma mgr_steps_closed:
  "(mgr_step lib)\<^sup>*\<^sup>* x y \<Longrightarrow> mg_closed (fst x) \<Longrightarrow> mg_closed (fst y) \<and> mg_current (fst y) = mg_current (fst x)"
  by (induction rule: rtranclp_induct) (auto dest: mgr_step_closed)

text \<open>The method \<open>Reload\<close>, run without interference, is a run of the step relation.\<close>

lemma Reload_steps:
  assumes "Reload lib fs (Some m) = (err, Some m')"
  shows "(mgr_step lib)\<^sup>*\<^sup>* (m, RIdle) (m', RIdle)"
proof (cases "mg_closed m")
  case True
  then show ?thesis using assms by (simp add: Reload_def)
next
  case False
  then have b: "(mgr_step lib)\<^sup>*\<^sup>* (m, RIdle) (m, RChecked)" by (auto intro: mgr_step.reload_begin)
  show ?thesis
  proof (cases "readBoundedFile (fs (mg_path m))")
    case (Inl e)
    then have "mgr_step lib (m, RChecked) (m', RIdle)" using assms False
      by (auto simp: Reload_def intro: mgr_step.reload_unread)
    then show ?thesis using b by simp
  next
    case (Inr data)
    then have r: "(mgr_step lib)\<^sup>*\<^sup>* (m, RIdle) (m, RRead data)" using b mgr_step.reload_read by (meson rtranclp.rtrancl_into_rtrancl)
    show ?thesis
    proof (cases "map_option sn_contentHash (mg_current m) = Some (sha256_Sum (kl_proof lib) data)")
      case True
      then show ?thesis using assms False Inr r mgr_step.reload_same [OF True]
        by (auto simp: Reload_def intro: rtranclp.rtrancl_into_rtrancl)
    next
      case differs: False
      show ?thesis
      proof (cases "kr_Parse lib data (mg_issuer m)")
        case (Inl e)
        then show ?thesis using assms False Inr differs r mgr_step.reload_invalid [OF differs Inl]
          by (auto simp: Reload_def split: if_splits intro: rtranclp.rtrancl_into_rtrancl)
      next
        case p: (Inr s)
        have "(mgr_step lib)\<^sup>*\<^sup>* (m, RIdle) (m, RParsed s)"
          using r mgr_step.reload_parsed [OF differs p] by (rule rtranclp.rtrancl_into_rtrancl)
        then show ?thesis using assms False Inr differs p mgr_step.reload_swap [OF False, of lib s]
          by (auto simp: Reload_def split: if_splits intro: rtranclp.rtrancl_into_rtrancl)
      qed
    qed
  qed
qed

section \<open>Properties\<close>

text \<open>C31. Every key ring that is accepted is well-formed: at most 256 entries under distinct valid key
  ids, listed in sorted order; exactly one of them is active, it is the one the document names,
  and it alone carries a seed, which generates its public key; all public keys have 32 bytes;
  the document was at most 64 KiB, and the issuer is the canonical form of the configured one.\<close>

theorem accepted_keyring_wellformed:
  assumes "kr_Parse lib data iss = Inr s"
  shows "length data \<le> MaxFileBytes \<and>
    canonicalIssuer lib iss = Some (sn_issuer s) \<and>
    sorted (sn_orderedIDs s) \<and> distinct (sn_orderedIDs s) \<and> length (sn_orderedIDs s) \<le> 256 \<and>
     (\<forall>kid. kid \<in> set (sn_orderedIDs s) \<longleftrightarrow> sn_keys s kid \<noteq> None) \<and>
    (\<forall>kid e. sn_keys s kid = Some e \<longrightarrow> ke_id e = kid \<and> validKID kid \<and> length (ke_publicKey e) = 32 \<and>
       (ke_state e = StateActive \<longleftrightarrow> kid = sn_active s) \<and> (ke_seed e \<noteq> None \<longleftrightarrow> kid = sn_active s)) \<and>
    (\<exists>e seed. sn_keys s (sn_active s) = Some e \<and> ke_state e = StateActive \<and> ke_seed e = Some seed \<and>
       length seed = 32 \<and> drop 32 (kl_NewKeyFromSeed lib seed) = ke_publicKey e)"
proof -
  note ok = kr_Parse_ok [OF assms]
  have c1: "length data \<le> MaxFileBytes" "canonicalIssuer lib iss = Some (sn_issuer s)"
    using kr_Parse_entries [OF assms] by metis+
  have c2: "sorted (sn_orderedIDs s) \<and> distinct (sn_orderedIDs s) \<and> length (sn_orderedIDs s) \<le> 256 \<and>
     (\<forall>kid. kid \<in> set (sn_orderedIDs s) \<longleftrightarrow> sn_keys s kid \<noteq> None)"
    using ok by (auto simp: snapshot_ok_def MaxEntries_def)
  have c3: "\<forall>kid e. sn_keys s kid = Some e \<longrightarrow> ke_id e = kid \<and> validKID kid \<and> length (ke_publicKey e) = 32 \<and>
       (ke_state e = StateActive \<longleftrightarrow> kid = sn_active s) \<and> (ke_seed e \<noteq> None \<longleftrightarrow> kid = sn_active s)"
  proof (intro allI impI)
    fix kid e assume e: "sn_keys s kid = Some e"
    have "sn_state s kid = Some StateActive \<longleftrightarrow> kid = sn_active s" "ke_id e = kid" "entry_ok lib e"
      using ok e by (simp_all add: snapshot_ok_def)
    then have "ke_id e = kid" "entry_ok lib e" "ke_state e = StateActive \<longleftrightarrow> kid = sn_active s"
      using e by (simp_all add: sn_state_def)
    then show "ke_id e = kid \<and> validKID kid \<and> length (ke_publicKey e) = 32 \<and>
       (ke_state e = StateActive \<longleftrightarrow> kid = sn_active s) \<and> (ke_seed e \<noteq> None \<longleftrightarrow> kid = sn_active s)"
      by (auto simp: entry_ok_def ed25519_PublicKeySize_def split: option.splits)
  qed
  have c4: "\<exists>e seed. sn_keys s (sn_active s) = Some e \<and> ke_state e = StateActive \<and> ke_seed e = Some seed \<and>
       length seed = 32 \<and> drop 32 (kl_NewKeyFromSeed lib seed) = ke_publicKey e"
    using active_entry [OF ok] unfolding ed25519_SeedSize_def by metis
  show ?thesis using c1 c2 c3 c4 by simp
qed

text \<open>Discovery agrees with resolution: the JWKS of an accepted key ring publishes, once each and
  in order of their ids, exactly the keys that resolve as not revoked, with the material they
  resolve to, the active key among them; the metadata lists as revoked exactly the ids that
  resolve as revoked.\<close>

lemma discovery_agrees_with_resolution:
  assumes "kr_Parse lib data iss = Inr s"
  shows "(k \<in> set (sn_JWKS s) \<longleftrightarrow>
      (\<exists>pub. sn_Resolve (Some s) (sn_issuer s) (jwk_Kid k) = Inr \<lparr>PublicKey = pub, Revoked = False\<rparr> \<and>
         k = \<lparr>jwk_Kty = ''OKP'', jwk_Crv = ''Ed25519'', jwk_Alg = ''Ed25519'', jwk_Use = ''sig'',
              jwk_Kid = jwk_Kid k, jwk_X = base64_EncodeToString pub\<rparr>)) \<and>
    (kid \<in> set (md_RevokedKids (sn_Metadata s)) \<longleftrightarrow>
      (\<exists>pub. sn_Resolve (Some s) (sn_issuer s) kid = Inr \<lparr>PublicKey = pub, Revoked = True\<rparr>)) \<and>
    (md_ActiveKID (sn_Metadata s) \<in> set (map jwk_Kid (sn_JWKS s))) \<and>
    (distinct (map jwk_Kid (sn_JWKS s)) \<and> sorted (map jwk_Kid (sn_JWKS s)))"
proof -
  have ok: "sorted (sn_orderedIDs s)" "distinct (sn_orderedIDs s)" "set (sn_orderedIDs s) = dom (sn_keys s)"
      "\<And>kid e. sn_keys s kid = Some e \<Longrightarrow> ke_id e = kid" "sn_state s (sn_active s) = Some StateActive"
    using kr_Parse_ok [OF assms] by (auto simp: snapshot_ok_def)
  have kids: "map jwk_Kid (sn_JWKS s) = filter (\<lambda>kid. sn_state s kid \<noteq> Some StateRevoked) (sn_orderedIDs s)"
    using ok(3,4) unfolding sn_JWKS_def map_map by (intro map_idI) (auto simp: jwk_for_def)
  have c3: "md_ActiveKID (sn_Metadata s) \<in> set (map jwk_Kid (sn_JWKS s))"
    using ok(3,5) unfolding kids by (auto simp: sn_Metadata_def sn_state_def)
  have c4: "distinct (map jwk_Kid (sn_JWKS s)) \<and> sorted (map jwk_Kid (sn_JWKS s))"
    using ok(1,2) unfolding kids by (simp add: sorted_filter [where f = id, simplified])
  have c2: "kid \<in> set (md_RevokedKids (sn_Metadata s)) \<longleftrightarrow>
      (\<exists>pub. sn_Resolve (Some s) (sn_issuer s) kid = Inr \<lparr>PublicKey = pub, Revoked = True\<rparr>)"
    using ok(3) by (auto simp: sn_Metadata_def sn_state_def sn_Resolve_def split: option.splits)
  have c1: "k \<in> set (sn_JWKS s) \<longleftrightarrow>
      (\<exists>pub. sn_Resolve (Some s) (sn_issuer s) (jwk_Kid k) = Inr \<lparr>PublicKey = pub, Revoked = False\<rparr> \<and>
         k = \<lparr>jwk_Kty = ''OKP'', jwk_Crv = ''Ed25519'', jwk_Alg = ''Ed25519'', jwk_Use = ''sig'',
              jwk_Kid = jwk_Kid k, jwk_X = base64_EncodeToString pub\<rparr>)"
  proof
    assume "k \<in> set (sn_JWKS s)"
    then obtain kid e where "sn_keys s kid = Some e" "ke_state e \<noteq> StateRevoked" "k = jwk_for e"
      using ok(3) by (auto simp: sn_JWKS_def sn_state_def)
    then show "\<exists>pub. sn_Resolve (Some s) (sn_issuer s) (jwk_Kid k) = Inr \<lparr>PublicKey = pub, Revoked = False\<rparr> \<and>
         k = \<lparr>jwk_Kty = ''OKP'', jwk_Crv = ''Ed25519'', jwk_Alg = ''Ed25519'', jwk_Use = ''sig'',
              jwk_Kid = jwk_Kid k, jwk_X = base64_EncodeToString pub\<rparr>"
      using ok(4) by (auto simp: jwk_for_def sn_Resolve_def)
  next
    assume "\<exists>pub. sn_Resolve (Some s) (sn_issuer s) (jwk_Kid k) = Inr \<lparr>PublicKey = pub, Revoked = False\<rparr> \<and>
         k = \<lparr>jwk_Kty = ''OKP'', jwk_Crv = ''Ed25519'', jwk_Alg = ''Ed25519'', jwk_Use = ''sig'',
              jwk_Kid = jwk_Kid k, jwk_X = base64_EncodeToString pub\<rparr>"
    then obtain e where e: "sn_keys s (jwk_Kid k) = Some e" "ke_state e \<noteq> StateRevoked"
        "k = \<lparr>jwk_Kty = ''OKP'', jwk_Crv = ''Ed25519'', jwk_Alg = ''Ed25519'', jwk_Use = ''sig'',
              jwk_Kid = jwk_Kid k, jwk_X = base64_EncodeToString (ke_publicKey e)\<rparr>"
      by (auto simp: sn_Resolve_def split: option.splits)
    then have "k = jwk_for (the (sn_keys s (jwk_Kid k)))" using ok(4) [OF e(1)] by (simp add: jwk_for_def)
    moreover have "jwk_Kid k \<in> set (filter (\<lambda>kid. sn_state s kid \<noteq> Some StateRevoked) (sn_orderedIDs s))"
      using e ok(3) by (auto simp: sn_state_def)
    ultimately show "k \<in> set (sn_JWKS s)" unfolding sn_JWKS_def by force
  qed
  show ?thesis using c1 c2 c3 c4 by blast
qed

text \<open>C20. Whatever reloads, starts and closes are interleaved, from the moment a manager was made: the
  current snapshot is a well-formed key ring of the issuer it was made for, so until it is closed
  the manager is ready and serves that snapshot; once closed it refuses every request, and
  neither a reload under way nor a later one changes the snapshot any more.\<close>

theorem manager_serves_valid_snapshots:
  assumes "newManager lib fs p iss = Inr m0" "canonicalIssuer lib (mg_issuer m0) = Some (mg_issuer m0)"
    "(mgr_step lib)\<^sup>*\<^sup>* (m0, RIdle) (m, ph)"
  shows "\<exists>s. mg_current m = Some s \<and> snapshot_ok lib s \<and> sn_issuer s = mg_issuer m0 \<and> mgr_IssuerNow (Some m) = mg_issuer m0 \<and>
    (if mg_closed m
     then readySnapshot (Some m) = Inl ErrClosed \<and> \<not> mgr_ReadyNow (Some m) \<and>
       (\<forall>m' ph'. (mgr_step lib)\<^sup>*\<^sup>* (m, ph) (m', ph') \<longrightarrow> mg_closed m' \<and> mg_current m' = Some s)
     else readySnapshot (Some m) = Inr s \<and> mgr_ReadyNow (Some m))"
proof -
  have "manager_inv lib (mg_issuer m0) (m, ph)"
    using mgr_steps_inv [OF assms(3) _ assms(2)] newManager_inv [OF assms(1)] by blast
  then obtain s where s: "mg_current m = Some s" "snapshot_ok lib s" "sn_issuer s = mg_issuer m0" "mg_issuer m = mg_issuer m0"
    by (auto simp: manager_inv_def)
  show ?thesis
    using s mgr_steps_closed [of lib "(m, ph)"]
    by (auto simp: readySnapshot_def mgr_ReadyNow_def mgr_IssuerNow_def)
qed

text \<open>A reload refines the interleaved manager and is all or nothing: run without interference it is a
  run of the step relation; when it reports no error the manager serves a snapshot with the hash
  of the file as it is, newly validated unless it was served before, and reloading the same file
  again changes nothing; when it reports an error the snapshot is the one before.\<close>

lemma reload_refines_steps:
  assumes "Reload lib fs (Some m) = (err, mp)"
  shows "\<exists>m'. mp = Some m' \<and> (mgr_step lib)\<^sup>*\<^sup>* (m, RIdle) (m', RIdle) \<and>
    (case err of
       None \<Rightarrow> (\<exists>data s. readBoundedFile (fs (mg_path m)) = Inr data \<and> readySnapshot mp = Inr s \<and>
           sn_contentHash s = sha256_Sum (kl_proof lib) data \<and>
           (mg_current m = Some s \<or> kr_Parse lib data (mg_issuer m) = Inr s \<and> snapshot_ok lib s)) \<and>
         Reload lib fs mp = (None, mp)
     | Some e \<Rightarrow> mg_current m' = mg_current m \<and> mg_reloadSuccesses m' = mg_reloadSuccesses m)"
proof -
  obtain m' where m': "mp = Some m'" using assms by (auto simp: Reload_def split: if_splits sum.splits)
  have hash: "sn_contentHash s = sha256_Sum (kl_proof lib) data" "snapshot_ok lib s"
    if "kr_Parse lib data iss = Inr s" for data iss s
    using kr_Parse_entries [OF that] kr_Parse_ok [OF that] by metis+
  show ?thesis
  proof (cases err)
    case None
    then have c: "\<not> mg_closed m" using assms by (auto simp: Reload_def)
    then obtain data where d: "readBoundedFile (fs (mg_path m)) = Inr data"
      using assms None by (auto simp: Reload_def split: sum.splits)
    show ?thesis using assms m' None c d hash Reload_steps [of lib fs m err m']
      by (auto simp: Reload_def readySnapshot_def split: if_splits sum.splits)
  next
    case (Some e)
    then show ?thesis using assms m' Reload_steps [of lib fs m err m']
      by (auto simp: Reload_def split: if_splits sum.splits)
  qed
qed

section \<open>A small key ring\<close>

definition demo_pub :: go_bytes where "demo_pub = replicate 32 (CHR 0x02)"
definition demo_seed :: go_bytes where "demo_seed = replicate 32 (CHR 0x03)"

definition demo_tokens :: "json_token list" where
  "demo_tokens = [TDelim (CHR ''{''), TString ''version'', TNumber ''1'', TString ''active'', TString ''k1'',
     TString ''keys'', TDelim (CHR ''[''),
     TDelim (CHR ''{''), TString ''id'', TString ''k1'', TString ''state'', TString ''active'',
       TString ''publicKey'', TString (encodeBase64URL demo_pub), TString ''privateKey'', TString (encodeBase64URL demo_seed),
     TDelim (CHR ''}''),
     TDelim (CHR ''{''), TString ''id'', TString ''k0'', TString ''state'', TString ''revoked'',
       TString ''publicKey'', TString (encodeBase64URL demo_pub), TDelim (CHR ''}''),
     TDelim (CHR '']''), TDelim (CHR ''}'')]"

definition demo_keyring_lib :: keyring_lib where
  "demo_keyring_lib = \<lparr>kl_proof = demo_lib, kl_tokens = (\<lambda>_. demo_tokens),
     kl_NewKeyFromSeed = (\<lambda>seed. seed @ demo_pub), kl_ToLower = (\<lambda>s. s)\<rparr>"

definition demo_ring :: Snapshot where
  "demo_ring = \<lparr>sn_issuer = ''https://vault.example'', sn_active = ''k1'',
     sn_keys = [''k1'' \<mapsto> \<lparr>ke_id = ''k1'', ke_state = StateActive, ke_publicKey = demo_pub, ke_seed = Some demo_seed\<rparr>,
                ''k0'' \<mapsto> \<lparr>ke_id = ''k0'', ke_state = StateRevoked, ke_publicKey = demo_pub, ke_seed = None\<rparr>],
     sn_orderedIDs = [''k0'', ''k1''], sn_contentHash = replicate 32 (CHR 0x00)\<rparr>"

lemma demo_keyring_lib_ok: "keyring_lib_ok demo_keyring_lib"
  by (simp add: keyring_lib_ok_def demo_keyring_lib_def key_pair_def demo_pub_def ed25519_PublicKeySize_def
      ed25519_PrivateKeySize_def ed25519_SeedSize_def) (simp add: demo_lib_def)

lemma demo_material:
  "decodeKeyMaterial (encodeBase64URL demo_pub) = Some demo_pub" "decodeKeyMaterial (encodeBase64URL demo_seed) = Some demo_seed"
  "encodeBase64URL demo_pub \<noteq> []" "encodeBase64URL demo_seed \<noteq> []"
proof -
  show d: "decodeKeyMaterial (encodeBase64URL demo_pub) = Some demo_pub" "decodeKeyMaterial (encodeBase64URL demo_seed) = Some demo_seed"
    by (simp_all add: decodeKeyMaterial_Some encodeBase64URL_def demo_pub_def demo_seed_def ed25519_SeedSize_def)
  have "decodeKeyMaterial [] = None" by (simp add: decodeKeyMaterial_def)
  then show "encodeBase64URL demo_pub \<noteq> []" "encodeBase64URL demo_seed \<noteq> []" using d by (metis option.distinct(1))+
qed

definition demo_document :: jsonValue where
  "demo_document = JObject [(''version'', JNumber ''1''), (''active'', JString ''k1''), (''keys'', JArray
     [JObject [(''id'', JString ''k1''), (''state'', JString ''active''), (''publicKey'', JString (encodeBase64URL demo_pub)),
        (''privateKey'', JString (encodeBase64URL demo_seed))],
      JObject [(''id'', JString ''k0''), (''state'', JString ''revoked''), (''publicKey'', JString (encodeBase64URL demo_pub))]])]"

lemma demo_parsed: "kr_parseValue 0 demo_tokens = Some (demo_document, [])"
  by (simp add: demo_tokens_def demo_document_def kr_parseMembers.simps kr_parseElements.simps decoder_More_def maxJSONDepth_def
      utf8_valid_ascii encode_utf8)

lemma demo_canonical: "canonicalIssuer demo_keyring_lib ''https://vault.example'' = Some ''https://vault.example''"
proof -
  have "list_ex unicode_IsControl (runes ''https://vault.example'') = False" by code_simp
  then show ?thesis
    by (simp add: canonicalIssuer_def demo_keyring_lib_def demo_lib_def demo_url_def strings_ContainsAny_def utf8_valid_ascii)
qed

lemma demo_entries:
  "parseKeyEntry demo_keyring_lib (JObject [(''id'', JString ''k1''), (''state'', JString ''active''),
     (''publicKey'', JString (encodeBase64URL demo_pub)), (''privateKey'', JString (encodeBase64URL demo_seed))]) =
   Some \<lparr>ke_id = ''k1'', ke_state = StateActive, ke_publicKey = demo_pub, ke_seed = Some demo_seed\<rparr>"
  "parseKeyEntry demo_keyring_lib (JObject [(''id'', JString ''k0''), (''state'', JString ''revoked''),
     (''publicKey'', JString (encodeBase64URL demo_pub))]) =
   Some \<lparr>ke_id = ''k0'', ke_state = StateRevoked, ke_publicKey = demo_pub, ke_seed = None\<rparr>"
proof -
  have k: "validKID ''k1''" "validKID ''k0''" by code_simp+
  have "drop ed25519_SeedSize (kl_NewKeyFromSeed demo_keyring_lib demo_seed) = demo_pub"
    by (simp add: demo_keyring_lib_def demo_seed_def ed25519_SeedSize_def)
  then show "parseKeyEntry demo_keyring_lib (JObject [(''id'', JString ''k1''), (''state'', JString ''active''),
     (''publicKey'', JString (encodeBase64URL demo_pub)), (''privateKey'', JString (encodeBase64URL demo_seed))]) =
   Some \<lparr>ke_id = ''k1'', ke_state = StateActive, ke_publicKey = demo_pub, ke_seed = Some demo_seed\<rparr>"
    "parseKeyEntry demo_keyring_lib (JObject [(''id'', JString ''k0''), (''state'', JString ''revoked''),
     (''publicKey'', JString (encodeBase64URL demo_pub))]) =
   Some \<lparr>ke_id = ''k0'', ke_state = StateRevoked, ke_publicKey = demo_pub, ke_seed = None\<rparr>"
    using k demo_material
    by (simp_all add: parseKeyEntry_def private_part_def kr_hasOnlyMembers_def keyMembers_def kr_requiredString_def
        kr_member_def KeyState_of_def)
qed

lemma demo_parse: "kr_Parse demo_keyring_lib ''{}'' ''https://vault.example'' = Inr demo_ring"
proof -
  have j: "kr_parseStrictJSON demo_keyring_lib ''{}'' = Some demo_document"
    using demo_parsed by (simp add: kr_parseStrictJSON_def demo_keyring_lib_def utf8_valid_ascii)
  have k: "validKID ''k1''" by code_simp
  show ?thesis
    unfolding kr_Parse_def demo_canonical j
    using k demo_entries
    by (simp add: MaxFileBytes_def MaxEntries_def demo_document_def kr_hasOnlyMembers_def keyringMembers_def
        kr_member_def kr_requiredString_def demo_ring_def demo_keyring_lib_def demo_lib_def)
qed

definition demo_manager :: Manager where
  "demo_manager = \<lparr>mg_path = ''keys.json'', mg_issuer = ''https://vault.example'', mg_current = Some demo_ring,
     mg_reloadSuccesses = 0, mg_reloadFailures = 0, mg_started = False, mg_closed = False\<rparr>"

lemma demo_file: "readBoundedFile (Some (''{}'', True)) = Inr ''{}''"
  by (simp add: readBoundedFile_def MaxFileBytes_def Let_def)

lemma demo_newManager:
  "newManager demo_keyring_lib (\<lambda>_. Some (''{}'', True)) ''keys.json'' ''https://vault.example'' = Inr demo_manager"
  by (simp add: newManager_def LoadFile_def demo_file demo_parse demo_manager_def) (simp add: demo_ring_def)

theorem accepted_keyring_wellformed_witness:
  "kr_Parse demo_keyring_lib ''{}'' ''https://vault.example'' = Inr demo_ring \<and> distinct (sn_orderedIDs demo_ring) \<and>
     (\<exists>e. sn_keys demo_ring (sn_active demo_ring) = Some e \<and> ke_state e = StateActive)"
  using accepted_keyring_wellformed [OF demo_parse] demo_parse by blast

theorem manager_serves_valid_snapshots_witness:
  "readySnapshot (mgr_Close (Some demo_manager)) = Inl ErrClosed \<and>
   (\<exists>s. readySnapshot (Some demo_manager) = Inr s \<and> snapshot_ok demo_keyring_lib s)"
proof -
  have i: "canonicalIssuer demo_keyring_lib (mg_issuer demo_manager) = Some (mg_issuer demo_manager)"
    using demo_canonical by (simp add: demo_manager_def)
  have "mgr_step demo_keyring_lib (demo_manager, RIdle) (demo_manager\<lparr>mg_closed := True\<rparr>, RIdle)"
    by (rule mgr_step.manager_close) (simp add: mgr_Close_def)
  then have "(mgr_step demo_keyring_lib)\<^sup>*\<^sup>* (demo_manager, RIdle) (demo_manager\<lparr>mg_closed := True\<rparr>, RIdle)" by simp
  from manager_serves_valid_snapshots [OF demo_newManager i this]
    manager_serves_valid_snapshots [OF demo_newManager i rtranclp.rtrancl_refl]
  show ?thesis by (auto simp: mgr_Close_def demo_manager_def)
qed

end
