(* ===== verification/Attested_Rotation.thy ===== *)
theory Attested_Rotation
  imports Vault_Service Keyring
begin

text \<open>
  The key ring manager behind the service: \<open>cmd/server/main.go\<close> hands the manager of
  \<open>attestationkeyring\<close> to the service as its \<open>AttestationManager\<close>. The service reads it at
  successive instants, between which the manager may take any number of steps.
\<close>

section \<open>Definitions\<close>

text \<open>The manager the service sees when \<open>history\<close> gives the manager's state at each instant.\<close>

definition keyring_manager :: "keyring_lib \<Rightarrow> (nat \<Rightarrow> Manager) \<Rightarrow> AttestationManager" where
  "keyring_manager lib history =
     \<lparr>mgr_Ready = (\<lambda>t. mgr_ReadyNow (Some (history t))),
      mgr_Issuer = (\<lambda>t. mgr_IssuerNow (Some (history t))),
      mgr_Sign = (\<lambda>t claims. case mgr_SignNow lib (Some (history t)) claims of Inl _ \<Rightarrow> None | Inr jws \<Rightarrow> Some jws),
      mgr_Resolve = (\<lambda>t iss kid. case mgr_ResolveNow (Some (history t)) iss kid of Inl _ \<Rightarrow> None | Inr key \<Rightarrow> Some key),
      mgr_discovery = Some
        \<lparr>dsc_MetadataJSON = (\<lambda>t. case mgr_MetadataJSON lib (Some (history t)) of Inl _ \<Rightarrow> None | Inr data \<Rightarrow> Some data),
         dsc_JWKSJSON = (\<lambda>t. case mgr_JWKSJSON lib (Some (history t)) of Inl _ \<Rightarrow> None | Inr data \<Rightarrow> Some data)\<rparr>\<rparr>"

text \<open>A history: the manager as it was made, and then steps between the instants.\<close>

definition manager_history :: "keyring_lib \<Rightarrow> (nat \<Rightarrow> Manager) \<Rightarrow> bool" where
  "manager_history lib history \<longleftrightarrow>
     (\<exists>fs p iss phase. newManager lib fs p iss = Inr (history 0) \<and> phase 0 = RIdle \<and>
        (\<forall>t. (mgr_step lib)\<^sup>*\<^sup>* (history t, phase t) (history (t + 1), phase (t + 1))))"

text \<open>The issuer of the configuration in canonical form, valid in claims.\<close>

definition issuer_ok :: "keyring_lib \<Rightarrow> string \<Rightarrow> bool" where
  "issuer_ok lib iss \<longleftrightarrow> canonicalIssuer lib iss = Some iss \<and> validIssuer (kl_proof lib) iss"

text \<open>A service with proofs enabled over a key ring, and verification capacity at address \<open>va\<close>.\<close>

definition attesting :: "keyring_lib \<Rightarrow> (nat \<Rightarrow> Manager) \<Rightarrow> nat \<Rightarrow> Service \<Rightarrow> bool" where
  "attesting lib history va s \<longleftrightarrow>
     keyring_lib_ok lib \<and> manager_history lib history \<and> issuer_ok lib (mg_issuer (history 0)) \<and>
     svc_attestationEnabled s \<and> svc_attestation s = Some (keyring_manager lib history) \<and>
     svc_verifierAdmission s = Some va"

section \<open>Lemmas\<close>

lemma history_steps:
  fixes history :: "nat \<Rightarrow> Manager"
  assumes "\<forall>t. (mgr_step lib)\<^sup>*\<^sup>* (history t, phase t) (history (t + 1), phase (t + 1))"
  shows "(mgr_step lib)\<^sup>*\<^sup>* (history 0, phase 0) (history t, phase t)"
proof (induction t)
  case (Suc t)
  then show ?case using assms [rule_format, of t] by simp
qed simp

lemma history_snapshot:
  assumes "manager_history lib history" "canonicalIssuer lib (mg_issuer (history 0)) = Some (mg_issuer (history 0))"
  obtains s where "mg_current (history t) = Some s" "snapshot_ok lib s" "sn_issuer s = mg_issuer (history 0)"
    "mg_issuer (history t) = mg_issuer (history 0)"
proof -
  obtain fs p iss phase where h: "newManager lib fs p iss = Inr (history 0)" "phase 0 = RIdle"
      "\<forall>t. (mgr_step lib)\<^sup>*\<^sup>* (history t, phase t) (history (t + 1), phase (t + 1))"
    using assms(1) unfolding manager_history_def by blast
  have "manager_inv lib (mg_issuer (history 0)) (history t, phase t)"
    using mgr_steps_inv [OF history_steps [OF h(3)] _ assms(2)] newManager_inv [OF h(1)] h(2) by simp
  then show thesis using that by (auto simp: manager_inv_def)
qed

text \<open>The manager as the service sees it while it is open.\<close>

lemma keyring_manager_open:
  assumes "manager_history lib history" "canonicalIssuer lib (mg_issuer (history 0)) = Some (mg_issuer (history 0))"
    "\<not> mg_closed (history t)"
  shows "mgr_Ready (keyring_manager lib history) t"
    "\<exists>s. mg_current (history t) = Some s \<and> snapshot_ok lib s \<and> sn_issuer s = mg_issuer (history 0) \<and>
       mgr_Sign (keyring_manager lib history) t c =
         (case sn_Sign lib (Some s) c of Inl _ \<Rightarrow> None | Inr jws \<Rightarrow> Some jws) \<and>
       mgr_Resolve (keyring_manager lib history) t = sr.answer (lib, s)"
proof -
  obtain s where s: "mg_current (history t) = Some s" "snapshot_ok lib s" "sn_issuer s = mg_issuer (history 0)"
    using history_snapshot [OF assms(1,2), of t] by metis
  then have r: "readySnapshot (Some (history t)) = Inr s" using assms(3) by (simp add: readySnapshot_def)
  show "mgr_Ready (keyring_manager lib history) t" using s assms(3) by (simp add: keyring_manager_def mgr_ReadyNow_def)
  show "\<exists>s. mg_current (history t) = Some s \<and> snapshot_ok lib s \<and> sn_issuer s = mg_issuer (history 0) \<and>
       mgr_Sign (keyring_manager lib history) t c =
         (case sn_Sign lib (Some s) c of Inl _ \<Rightarrow> None | Inr jws \<Rightarrow> Some jws) \<and>
       mgr_Resolve (keyring_manager lib history) t = sr.answer (lib, s)"
    using s r by (simp add: keyring_manager_def mgr_SignNow_def mgr_ResolveNow_def sr.answer_def fun_eq_iff)
qed

lemma keyring_manager_issuer:
  assumes "manager_history lib history" "canonicalIssuer lib (mg_issuer (history 0)) = Some (mg_issuer (history 0))"
  shows "mgr_Issuer (keyring_manager lib history) t = mg_issuer (history 0)"
  using history_snapshot [OF assms, of t] by (auto simp: keyring_manager_def mgr_IssuerNow_def)

lemma history_open_before:
  assumes "manager_history lib history" "\<not> mg_closed (history t')" "t \<le> t'"
  shows "\<not> mg_closed (history t)"
proof
  assume c: "mg_closed (history t)"
  obtain phase where p: "\<forall>t. (mgr_step lib)\<^sup>*\<^sup>* (history t, phase t) (history (t + 1), phase (t + 1))"
    using assms(1) unfolding manager_history_def by blast
  from assms(3) have "mg_closed (history t')"
  proof (induction rule: dec_induct)
    case (step n)
    then show ?case using mgr_steps_closed [OF p [rule_format, of n]] by simp
  qed (rule c)
  then show False using assms(2) by blast
qed

subsection \<open>Issuing\<close>

text \<open>The claims of an attested rotation.\<close>

definition rotation_claims ::
  "proof_lib \<Rightarrow> string \<Rightarrow> string \<Rightarrow> string \<Rightarrow> string \<Rightarrow> Binding option \<Rightarrow> string \<Rightarrow> string \<Rightarrow> RotationClaims" where
  "rotation_claims lib iss now src dst binding input out =
     \<lparr>Version = SupportedVersion, Issuer = iss, IssuedAt = now, Operation = ''rotate'', SourceProfileID = src,
      DestinationProfileID = dst, Input = \<lparr>Algorithm = ''sha-256'', Value = the (InputDigest lib input)\<rparr>,
      Output = \<lparr>Algorithm = ''sha-256'', Value = the (OutputDigest lib out)\<rparr>, claims_Binding = binding\<rparr>"

lemma request_binding_valid:
  "validateAttestationRequest lib (Some \<lparr>ar_Binding = binding\<rparr>) = None \<longleftrightarrow>
     (case binding of None \<Rightarrow> True | Some b \<Rightarrow> validateBinding lib b = None)"
proof (cases binding)
  case (Some b)
  have "(list_ex (\<lambda>f. f \<noteq> [] \<and> (1024 < length f \<or> \<not> utf8_valid f \<or> list_ex unicode_IsControl (runes f))) (binding_fields b)) =
      (\<not> list_all (\<lambda>v. v \<noteq> [] \<longrightarrow> validBoundString v) (binding_fields b))"
    by (auto simp: list_ex_iff list_all_iff validBoundString_def)
  moreover have "(Repository b = [] \<and> Revision b = [] \<and> Path b = [] \<and> Selector b = []) = list_all (\<lambda>f. f = []) (binding_fields b)"
    by (simp add: binding_fields_def)
  ultimately show ?thesis using Some
    by (auto simp: validateAttestationRequest_def validateBinding_def canonicalBinding_def validateBindingFieldsOnly_def
        split: option.splits)
qed (simp add: validateAttestationRequest_def)

lemma rotation_claims_valid:
  assumes "proof_lib_ok lib" "validIssuer lib iss" "validTimestamp now" "IsValidProfileID src" "IsValidProfileID dst"
    "CanonicalEnvelope input = Inr ci" "CanonicalEnvelope out = Inr co"
    "case binding of None \<Rightarrow> True | Some b \<Rightarrow> validateBinding lib b = None"
  shows "validateSigningClaims lib (rotation_claims lib iss now src dst binding input out) = None"
  using assms hex_sum_valid [OF assms(1)]
  by (auto simp: validateSigningClaims_def validateClaims_None rotation_claims_def SupportedVersion_def MaxJCSSafeInteger_def
      validateDigest_None InputDigest_def OutputDigest_def digestCanonical_def split: option.splits)

lemma issueAttestation_calm:
  assumes "calm x" "calm ec" "po_service p = Some s" "svc_attestationEnabled s" "svc_attestation s = Some m"
    "mgr_Ready m (t + 2)" "\<And>u. mgr_Issuer m u = iss" "iss \<noteq> []"
    "InputDigest lib (po_value p) \<noteq> None" "OutputDigest lib out \<noteq> None" "po_attestation p = Some \<lparr>ar_Binding = binding\<rparr>"
    "mgr_Sign m (t + 6) (rotation_claims lib iss now (po_sourceID p) (po_destinationID p) binding (po_value p) out) = Some jws"
    "Marshal lib jws = Some wire" "Parse wire = Inr jws"
  shows "issueAttestation lib now p (Some x) (Some ec) t out = Inr jws"
  using assms
  by (auto simp: issueAttestation_def verificationManager_def readyAttestationManager_def rotation_claims_def)

subsection \<open>Verifying\<close>

text \<open>What verifies against envelopes and binding, unless its key was revoked.\<close>

lemma checked_verifies:
  assumes "signature_checked lib jws
      \<lparr>ExpectedIssuer = iss, Resolver = Some resolver, ExpectedInputDigest = [], ExpectedOutputDigest = [],
       InputVaultText = input, OutputVaultText = out, ExpectedBinding = expected\<rparr> claims key"
    "Version claims = SupportedVersion" "InputDigest lib input = Some (Value (Input claims))"
    "OutputDigest lib out = Some (Value (Output claims))" "input \<noteq> []" "out \<noteq> []"
    "case expected of None \<Rightarrow> True | Some b \<Rightarrow> bindingMatches (claims_Binding claims) b"
  shows "VerifyAgainstEnvelopes lib jws input out expected
      \<lparr>ExpectedIssuer = iss, Resolver = Some resolver, ExpectedInputDigest = [], ExpectedOutputDigest = [],
       InputVaultText = [], OutputVaultText = [], ExpectedBinding = None\<rparr> =
    (claims, map_option VerificationError (if Revoked key then Some KeyRevoked else None))"
  using Verify_checked [OF assms(1)] assms(2-)
  by (auto simp: VerifyAgainstEnvelopes_def digest_error_def split: option.splits)

lemma TryAcquire_calm:
  assumes "tokens (admissions h a) < tokens_cap (admissions h a)" "calm y"
  obtains l h1 h2 where "TryAcquire h (Some a) y t = (Inr l, h1)" "Release h1 (Some l) = Some h2"
    "tokens (admissions h2 a) = tokens (admissions h a)"
  using assms that by (auto simp: TryAcquire_def Release_def Let_def)

lemma VerifyAttestation_calm:
  assumes "svc_attestationEnabled s" "svc_attestation s = Some m" "svc_verifierAdmission s = Some va"
    "tokens (admissions h va) < tokens_cap (admissions h va)" "calm y" "leaseFromContext (Some y) = None"
    "\<not> bad_envelope input" "\<not> bad_envelope out"
    "mgr_Ready m t" "mgr_Ready m (t + 5)" "mgr_Ready m (t + 9)" "\<And>u. mgr_Issuer m u = iss" "iss \<noteq> []"
    "VerifyAgainstEnvelopes lib jws input out expected
       \<lparr>ExpectedIssuer = iss, Resolver = Some (mgr_Resolve m (t + 7)), ExpectedInputDigest = [], ExpectedOutputDigest = [],
        InputVaultText = [], OutputVaultText = [], ExpectedBinding = None\<rparr> = (claims, map_option VerificationError reason)"
  shows "\<exists>h2. VerifyAttestation lib h (Some s) (Some y) t jws input out expected =
      Some ((claims, map_option (\<lambda>r. AttestationFailure (VerificationError r)) reason), h2) \<and>
    tokens (admissions h2 va) = tokens (admissions h va)"
proof -
  obtain l h1 h2 where a: "TryAcquire h (Some va) y (t + 2) = (Inr l, h1)" "Release h1 (Some l) = Some h2"
      "tokens (admissions h2 va) = tokens (admissions h va)"
    using TryAcquire_calm [OF assms(4,5)] by metis
  have "verify_admitted lib m (Some y) None (t + 4) jws input out expected =
      (claims, map_option (\<lambda>r. AttestationFailure (VerificationError r)) reason)"
    using assms(5,10-14) by (cases reason) (simp_all add: verify_admitted_def numeral_eq_Suc)
  then show ?thesis using a assms(1-3,5-9,12,13)
    by (simp add: VerifyAttestation_def verificationManager_def readyAttestationManager_def Let_def)
qed

subsection \<open>Both ends\<close>

lemma attesting_manager:
  assumes "attesting lib history va s" "\<not> mg_closed (history t')" "t \<le> t'"
  shows "mgr_Ready (keyring_manager lib history) t" "mgr_Issuer (keyring_manager lib history) u = mg_issuer (history 0)"
    "mg_issuer (history 0) \<noteq> []" "readyAttestationManager (Some s) t = Inr (keyring_manager lib history)"
proof -
  have m: "manager_history lib history" "canonicalIssuer lib (mg_issuer (history 0)) = Some (mg_issuer (history 0))"
    "validIssuer (kl_proof lib) (mg_issuer (history 0))"
    using assms(1) by (auto simp: attesting_def issuer_ok_def)
  show r: "mgr_Ready (keyring_manager lib history) t"
    using keyring_manager_open(1) [OF m(1,2) history_open_before [OF m(1) assms(2,3)]] .
  show i: "mgr_Issuer (keyring_manager lib history) u = mg_issuer (history 0)" for u
    using keyring_manager_issuer [OF m(1,2)] .
  show n: "mg_issuer (history 0) \<noteq> []" using m(3) by (auto simp: validIssuer_def)
  show "readyAttestationManager (Some s) t = Inr (keyring_manager lib history)"
    using assms(1) r i n by (simp add: readyAttestationManager_def attesting_def)
qed

text \<open>What the manager signs at one instant has a checked signature at a later one, as long as the
  key ring still has the signing key.\<close>

lemma keyring_sign_checked:
  assumes a: "attesting lib history va s" and o: "\<not> mg_closed (history t')" "t \<le> t'"
    and c: "Issuer c = mg_issuer (history 0)" "validateSigningClaims (kl_proof lib) c = None"
    and k: "mg_current (history t) = Some s1" "sn_keys s1 (sn_active s1) = Some e1"
      "mg_current (history t') = Some s2" "sn_keys s2 (sn_active s1) = Some e2" "ke_publicKey e2 = ke_publicKey e1"
    and e: "case expected of None \<Rightarrow> True | Some b \<Rightarrow> validateBinding (kl_proof lib) b = None"
  shows "\<exists>jws. mgr_Sign (keyring_manager lib history) t c = Some jws \<and> decodeEncodedComponents jws \<noteq> None \<and>
    signature_checked (kl_proof lib) jws
      \<lparr>ExpectedIssuer = mg_issuer (history 0), Resolver = Some (mgr_Resolve (keyring_manager lib history) t'),
       ExpectedInputDigest = [], ExpectedOutputDigest = [], InputVaultText = input, OutputVaultText = out,
       ExpectedBinding = expected\<rparr> c \<lparr>PublicKey = ke_publicKey e2, Revoked = (ke_state e2 = StateRevoked)\<rparr>"
proof -
  have m: "manager_history lib history" "canonicalIssuer lib (mg_issuer (history 0)) = Some (mg_issuer (history 0))"
    "validIssuer (kl_proof lib) (mg_issuer (history 0))" "keyring_lib_ok lib"
    using a by (auto simp: attesting_def issuer_ok_def)
  have s1: "snapshot_ok lib s1" "sn_issuer s1 = mg_issuer (history 0)"
      "mgr_Sign (keyring_manager lib history) t c = (case sn_Sign lib (Some s1) c of Inl _ \<Rightarrow> None | Inr jws \<Rightarrow> Some jws)"
    using keyring_manager_open(2) [OF m(1,2) history_open_before [OF m(1) o], of c] k(1) by auto
  have s2: "sn_issuer s2 = mg_issuer (history 0)" "mgr_Resolve (keyring_manager lib history) t' = sr.answer (lib, s2)"
    using keyring_manager_open(2) [OF m(1,2) o(1), of c] k(3) by auto
  let ?o = "\<lparr>ExpectedIssuer = mg_issuer (history 0), Resolver = Some (sr.answer (lib, s2)),
       ExpectedInputDigest = [], ExpectedOutputDigest = [], InputVaultText = input, OutputVaultText = out,
       ExpectedBinding = expected\<rparr>"
  have "validateVerifyOptions (kl_proof lib) ?o = None"
    using m(3) e by (auto simp: validateVerifyOptions_def split: option.splits)
  moreover have "sn_Resolve (Some s1) (sn_issuer s1) (sn_active s1) = Inr \<lparr>PublicKey = ke_publicKey e1, Revoked = (ke_state e1 = StateRevoked)\<rparr>"
      "sn_Resolve (Some s2) (sn_issuer s1) (sn_active s1) = Inr \<lparr>PublicKey = ke_publicKey e2, Revoked = (ke_state e2 = StateRevoked)\<rparr>"
    using k(2,4) s1(2) s2(1) by (simp_all add: sn_Resolve_def)
  ultimately obtain jws where "sn_Sign lib (Some s1) c = Inr jws" "decodeEncodedComponents jws \<noteq> None"
      "signature_checked (kl_proof lib) jws ?o c \<lparr>PublicKey = ke_publicKey e2, Revoked = (ke_state e2 = StateRevoked)\<rparr>"
    using sr.signed_is_checked [of "(lib, s1)" c "\<lparr>PublicKey = ke_publicKey e1, Revoked = (ke_state e1 = StateRevoked)\<rparr>" "(lib, s2)"
        "\<lparr>PublicKey = ke_publicKey e2, Revoked = (ke_state e2 = StateRevoked)\<rparr>" ?o] m(4) s1(1,2) c k(5) by auto
  then show ?thesis using s1(3) s2(2) by auto
qed

end
