(* ===== verification/Session_Store.thy ===== *)
theory Session_Store
  imports Encoding
begin

text \<open>
  The session store and the login transactions in Redis, \<open>backend/internal/authn/redis.go\<close> and
  \<open>transaction.go\<close>: the Lua scripts, the fenced store that guards every write of a session by the
  session's lock, and the one-time login transactions.

  Redis is the parameter \<open>redis_db\<close>, whose fields are the commands the scripts and the store use,
  on a database \<open>'d\<close> at a time of the server in milliseconds; \<open>redis_ok\<close> states what their
  documentation promises. A script is atomic. A command may not reach the server, and a reply may
  be lost after the command was executed. The gob codec of the sessions, \<open>sha256.Sum256\<close>, the JSON
  codec of the transactions and the base store of the sessions are parameters too.

  The session mutexes are redsync's. What they do to their key (take it when it is free with a value
  never used before, extend it and release it under that value) appears as steps of the relation
  \<open>session_step\<close>, next to the steps of the requests that hold or once held a mutex.
\<close>

section \<open>Definitions\<close>

subsection \<open>Redis\<close>

record 'd redis_db =
  rd_GET :: "'d \<Rightarrow> int \<Rightarrow> string \<Rightarrow> string option"
  rd_SET :: "'d \<Rightarrow> int \<Rightarrow> string \<Rightarrow> string \<Rightarrow> int option \<Rightarrow> 'd"
  rd_DEL :: "'d \<Rightarrow> int \<Rightarrow> string \<Rightarrow> 'd"
  rd_PEXPIREAT :: "'d \<Rightarrow> int \<Rightarrow> string \<Rightarrow> int \<Rightarrow> 'd"

datatype link = Delivered | Refused | ReplyLost

definition redis_call :: "link \<Rightarrow> ('d \<Rightarrow> 'a \<times> 'd) \<Rightarrow> 'd \<Rightarrow> 'a option \<times> 'd" where
  "redis_call n command db =
     (case n of
        Refused \<Rightarrow> (None, db)
      | Delivered \<Rightarrow> (Some (fst (command db)), snd (command db))
      | ReplyLost \<Rightarrow> (None, snd (command db)))"

subsection \<open>Scripts\<close>

definition fencedActivateScript ::
  "'d redis_db \<Rightarrow> int \<Rightarrow> string \<Rightarrow> string \<Rightarrow> string \<Rightarrow> string \<Rightarrow> int \<Rightarrow> 'd \<Rightarrow> bool \<times> 'd" where
  "fencedActivateScript r now lockKey fenceKey owner fence expiry db =
     (if rd_GET r db now lockKey \<noteq> Some owner then (False, db)
      else if expiry > 0 then (True, rd_SET r db now fenceKey fence (Some expiry))
      else (True, rd_SET r db now fenceKey fence None))"

definition fencedCommitScript ::
  "'d redis_db \<Rightarrow> int \<Rightarrow> string \<Rightarrow> string \<Rightarrow> string \<Rightarrow> string \<Rightarrow> string \<Rightarrow> string \<Rightarrow> int \<Rightarrow> 'd \<Rightarrow> bool \<times> 'd" where
  "fencedCommitScript r now sessionKey lockKey fenceKey data fence owner expireAt db =
     (if rd_GET r db now lockKey \<noteq> Some owner then (False, db)
      else if rd_GET r db now fenceKey \<noteq> Some fence then (False, db)
      else let db1 = rd_SET r db now sessionKey data None;
               db2 = rd_PEXPIREAT r db1 now sessionKey expireAt;
               db3 = rd_SET r db2 now fenceKey fence None
           in (True, rd_PEXPIREAT r db3 now fenceKey expireAt))"

definition fencedDeleteExpectedScript ::
  "'d redis_db \<Rightarrow> int \<Rightarrow> string \<Rightarrow> string \<Rightarrow> string \<Rightarrow> string \<Rightarrow> string \<Rightarrow> 'd \<Rightarrow> bool \<times> 'd" where
  "fencedDeleteExpectedScript r now sessionKey fenceKey lockKey fence owner db =
     (if rd_GET r db now fenceKey \<noteq> Some fence then (False, db)
      else if rd_GET r db now lockKey \<noteq> Some owner then (False, db)
      else (True, rd_DEL r (rd_DEL r db now sessionKey) now fenceKey))"

definition consumeLoginTransactionScript ::
  "'d redis_db \<Rightarrow> int \<Rightarrow> string \<Rightarrow> 'd \<Rightarrow> string option \<times> 'd" where
  "consumeLoginTransactionScript r now key db =
     (case rd_GET r db now key of
        None \<Rightarrow> (None, db)
      | Some v \<Rightarrow> (Some v, rd_DEL r db now key))"

subsection \<open>Keys and fences\<close>

definition sessionKeySuffix :: string where "sessionKeySuffix = ''session:''"
definition transactionKeySuffix :: string where "transactionKeySuffix = ''transaction:''"
definition lockKeySuffix :: string where "lockKeySuffix = ''lock:''"
definition fenceKeySuffix :: string where "fenceKeySuffix = ''fence:''"
definition fenceSeparator :: char where "fenceSeparator = CHR 0x00"
definition sessionFenceKey :: string where "sessionFenceKey = ''auth.session_fence''"

datatype session_value = SString string | SStrings "string list" | STime int | SOther

type_synonym session_codec = "string \<Rightarrow> (string \<rightharpoonup> session_value) option"

datatype store_error = StoreUnavailable | StoreIO

record fencedSessionStore =
  fs_prefix :: string
  fs_hashTokens :: bool
  fs_codec :: session_codec
  fs_sha256 :: "go_bytes \<Rightarrow> go_bytes"

definition sessionKey :: "fencedSessionStore \<Rightarrow> string \<Rightarrow> string" where
  "sessionKey store token = fs_prefix store @ sessionKeySuffix @ token"

definition fenceKey :: "fencedSessionStore \<Rightarrow> string \<Rightarrow> string" where
  "fenceKey store token = fs_prefix store @ fenceKeySuffix @ token"

definition hashSessionToken :: "(go_bytes \<Rightarrow> go_bytes) \<Rightarrow> string \<Rightarrow> string" where
  "hashSessionToken sha token = base64_EncodeToString (sha token)"

definition fenceKeyForSessionToken :: "fencedSessionStore \<Rightarrow> string \<Rightarrow> string" where
  "fenceKeyForSessionToken store token =
     fenceKey store (if fs_hashTokens store then hashSessionToken (fs_sha256 store) token else token)"

definition parseSessionFence :: "string \<Rightarrow> string \<times> string \<times> bool" where
  "parseSessionFence fence =
     (case strings_Cut fence fenceSeparator of
        (lockKey, owner, ok) \<Rightarrow> (lockKey, owner, ok \<and> lockKey \<noteq> [] \<and> owner \<noteq> []))"

text \<open>The name of the mutex of a session, and the fence a holder with value \<open>owner\<close> carries.\<close>

definition mutex_name :: "fencedSessionStore \<Rightarrow> string \<Rightarrow> string" where
  "mutex_name store token = fs_prefix store @ lockKeySuffix @ hashSessionToken (fs_sha256 store) token"

definition mutex_fence :: "fencedSessionStore \<Rightarrow> string \<Rightarrow> string \<Rightarrow> string" where
  "mutex_fence store token owner = mutex_name store token @ fenceSeparator # owner"

definition fenceFromSession :: "fencedSessionStore \<Rightarrow> string \<Rightarrow> string option option" where
  "fenceFromSession store data =
     (case fs_codec store data of
        None \<Rightarrow> None
      | Some values \<Rightarrow> (case values sessionFenceKey of
          Some (SString fence) \<Rightarrow> Some (if fence \<noteq> [] then Some fence else None)
        | _ \<Rightarrow> Some None))"

subsection \<open>The fenced store\<close>

text \<open>A write with no fence in the session: the check and the write of the base store are two
  commands. \<open>base\<close> is the \<open>Commit\<close> of the base store.\<close>

definition unfenced_check ::
  "'d redis_db \<Rightarrow> fencedSessionStore \<Rightarrow> link \<Rightarrow> int \<Rightarrow> string \<Rightarrow> 'd \<Rightarrow> store_error option" where
  "unfenced_check r store n now token db =
     (case fst (redis_call n (\<lambda>d. (rd_GET r d now (fenceKey store token), d)) db) of
        None \<Rightarrow> Some StoreIO
      | Some None \<Rightarrow> None
      | Some (Some _) \<Rightarrow> Some StoreUnavailable)"

definition script_error :: "bool option \<Rightarrow> store_error option" where
  "script_error reply =
     (case reply of None \<Rightarrow> Some StoreIO | Some ok \<Rightarrow> if ok then None else Some StoreUnavailable)"

definition store_Commit ::
  "'d redis_db \<Rightarrow> fencedSessionStore \<Rightarrow> (int \<Rightarrow> string \<Rightarrow> string \<Rightarrow> int \<Rightarrow> 'd \<Rightarrow> store_error option \<times> 'd) \<Rightarrow>
     link \<Rightarrow> int \<Rightarrow> string \<Rightarrow> string \<Rightarrow> int \<Rightarrow> 'd \<Rightarrow> store_error option \<times> 'd" where
  "store_Commit r store base n now token data expireAt db =
     (case fenceFromSession store data of
        None \<Rightarrow> (Some StoreIO, db)
      | Some None \<Rightarrow>
          (case unfenced_check r store n now token db of
             Some err \<Rightarrow> (Some err, db)
           | None \<Rightarrow> base now token data expireAt db)
      | Some (Some fence) \<Rightarrow>
          (case parseSessionFence fence of (lockKey, owner, valid) \<Rightarrow>
             if \<not> valid then (Some StoreUnavailable, db)
             else (case redis_call n (fencedCommitScript r now (sessionKey store token) lockKey (fenceKey store token)
                                        data fence owner expireAt) db of
               (reply, db1) \<Rightarrow> (script_error reply, db1))))"

definition store_Delete :: "'d redis_db \<Rightarrow> fencedSessionStore \<Rightarrow> link \<Rightarrow> int \<Rightarrow> string \<Rightarrow> 'd \<Rightarrow> store_error option" where
  "store_Delete r store n now token db =
     (case fst (redis_call n (\<lambda>d. (rd_GET r d now (fenceKey store token), d)) db) of
        None \<Rightarrow> Some StoreIO
      | Some _ \<Rightarrow> Some StoreUnavailable)"

definition deleteWithFence ::
  "'d redis_db \<Rightarrow> fencedSessionStore \<Rightarrow> link \<Rightarrow> int \<Rightarrow> string \<Rightarrow> string \<Rightarrow> 'd \<Rightarrow> store_error option \<times> 'd" where
  "deleteWithFence r store n now token fence db =
     (case parseSessionFence fence of (lockKey, owner, valid) \<Rightarrow>
        if \<not> valid then (Some StoreUnavailable, db)
        else (case redis_call n (fencedDeleteExpectedScript r now (sessionKey store token) (fenceKey store token)
                                   lockKey fence owner) db of
          (reply, db1) \<Rightarrow> (script_error reply, db1)))"

text \<open>\<open>fence\<close> is what \<open>sessionLockFence\<close> finds in the context, empty when there is none.\<close>

definition DeleteCtx ::
  "'d redis_db \<Rightarrow> fencedSessionStore \<Rightarrow> link \<Rightarrow> int \<Rightarrow> string \<Rightarrow> string \<Rightarrow> 'd \<Rightarrow> store_error option \<times> 'd" where
  "DeleteCtx r store n now fence token db =
     (if fence = [] then (store_Delete r store n now token db, db)
      else deleteWithFence r store n now token fence db)"

text \<open>The time to live in nanoseconds, as Redis takes it in milliseconds.\<close>

definition activate_expiry :: "int \<Rightarrow> int" where
  "activate_expiry ttl = (if ttl > 0 then (if ttl div 1000000 < 1 then 1 else ttl div 1000000) else 0)"

definition Activate ::
  "'d redis_db \<Rightarrow> fencedSessionStore \<Rightarrow> link \<Rightarrow> int \<Rightarrow> string \<Rightarrow> string \<Rightarrow> int \<Rightarrow> 'd \<Rightarrow> store_error option \<times> 'd" where
  "Activate r store n now token fence ttl db =
     (case parseSessionFence fence of (lockKey, owner, valid) \<Rightarrow>
        if \<not> valid then (Some StoreUnavailable, db)
        else (case redis_call n (fencedActivateScript r now lockKey (fenceKeyForSessionToken store token)
                                   owner fence (activate_expiry ttl)) db of
          (reply, db1) \<Rightarrow> (script_error reply, db1)))"

subsection \<open>Login transactions\<close>

record LoginTransaction =
  lt_Nonce :: string
  lt_PKCEVerifier :: string
  lt_PreAuthSessionHash :: string
  lt_ReturnTo :: string

definition zero_LoginTransaction :: LoginTransaction where
  "zero_LoginTransaction = \<lparr>lt_Nonce = [], lt_PKCEVerifier = [], lt_PreAuthSessionHash = [], lt_ReturnTo = []\<rparr>"

definition loginTransactionLifetime :: int where "loginTransactionLifetime = 600000"

datatype txn_error = TxnStateRequired | TxnConnection | TxnSaveNil | TxnDecode

definition transaction_key :: "string \<Rightarrow> string \<Rightarrow> string" where
  "transaction_key prefix state = prefix @ transactionKeySuffix @ state"

text \<open>\<open>SET key payload NX PX lifetime\<close>: sets nothing and replies nil when the key exists.\<close>

definition set_if_absent :: "'d redis_db \<Rightarrow> int \<Rightarrow> string \<Rightarrow> string \<Rightarrow> int \<Rightarrow> 'd \<Rightarrow> bool \<times> 'd" where
  "set_if_absent r now key v px db =
     (if rd_GET r db now key \<noteq> None then (False, db) else (True, rd_SET r db now key v (Some px)))"

text \<open>\<open>redis.String\<close> turns a nil reply into the error \<open>ErrNil\<close>, so a key that exists is reported as a failed save
  (\<open>TxnSaveNil\<close>); the branch for any other reply than \<open>OK\<close> is never taken, as \<open>SET\<close> replies nothing else.\<close>

definition SaveLoginTransaction ::
  "'d redis_db \<Rightarrow> (LoginTransaction \<Rightarrow> string) \<Rightarrow> string \<Rightarrow> link \<Rightarrow> int \<Rightarrow> string \<Rightarrow> LoginTransaction \<Rightarrow> 'd \<Rightarrow>
     txn_error option \<times> 'd" where
  "SaveLoginTransaction r encode prefix n now state transaction db =
     (if state = [] then (Some TxnStateRequired, db)
      else (case redis_call n (set_if_absent r now (transaction_key prefix state) (encode transaction)
                                 loginTransactionLifetime) db of
        (None, db1) \<Rightarrow> (Some TxnConnection, db1)
      | (Some ok, db1) \<Rightarrow> (if ok then None else Some TxnSaveNil, db1)))"

definition ConsumeLoginTransaction ::
  "'d redis_db \<Rightarrow> (string \<Rightarrow> LoginTransaction option) \<Rightarrow> string \<Rightarrow> link \<Rightarrow> int \<Rightarrow> string \<Rightarrow> 'd \<Rightarrow>
     (txn_error + LoginTransaction option) \<times> 'd" where
  "ConsumeLoginTransaction r decode prefix n now state db =
     (if state = [] then (Inr None, db)
      else (case redis_call n (consumeLoginTransactionScript r now (transaction_key prefix state)) db of
        (None, db1) \<Rightarrow> (Inl TxnConnection, db1)
      | (Some None, db1) \<Rightarrow> (Inr None, db1)
      | (Some (Some raw), db1) \<Rightarrow>
          (case decode raw of None \<Rightarrow> (Inl TxnDecode, db1) | Some transaction \<Rightarrow> (Inr (Some transaction), db1))))"

subsection \<open>Requests around one session\<close>

text \<open>What the documentation of the commands promises of the values read at the time of a command or
  later: \<open>PX\<close> sets a time to live, a plain \<open>SET\<close> none, \<open>PEXPIREAT\<close> replaces the deadline of a
  key that still exists, and a key never comes back by itself.\<close>

definition redis_ok :: "'d redis_db \<Rightarrow> bool" where
  "redis_ok r \<longleftrightarrow>
     (\<forall>db t u k v k'. t \<le> u \<longrightarrow> rd_GET r (rd_SET r db t k v None) u k' = (if k' = k then Some v else rd_GET r db u k')) \<and>
     (\<forall>db t u k v px k'. t \<le> u \<longrightarrow> rd_GET r (rd_SET r db t k v (Some px)) u k' =
        (if k' = k then (if u < t + px then Some v else None) else rd_GET r db u k')) \<and>
     (\<forall>db t u k k'. t \<le> u \<longrightarrow> rd_GET r (rd_DEL r db t k) u k' = (if k' = k then None else rd_GET r db u k')) \<and>
     (\<forall>db t u k e k'. t \<le> u \<longrightarrow> rd_GET r (rd_PEXPIREAT r db t k e) u k' =
        (if k' = k then (if u < e then rd_GET r db t k else None) else rd_GET r db u k')) \<and>
     (\<forall>db t u k v. t \<le> u \<longrightarrow> rd_GET r db u k = Some v \<longrightarrow> rd_GET r db t k = Some v)"

text \<open>The database and its clock; the values mutexes of this session have had; and for each of them
  what its holder knows of the session: the last content it loaded or wrote.\<close>

record 'd session_world =
  sw_db :: 'd
  sw_now :: int
  sw_used :: "string set"
  sw_seen :: "string \<rightharpoonup> string option"

text \<open>One step of the environment, of redsync, or of a request with mutex value \<open>owner\<close>, which may
  long have lost the mutex. \<open>token\<close> is the session token; the store gets its hash. The commits are those of requests that hold, or
  held, the mutex of this session. Not among the steps are the commit of a session without a fence, whose two calls
  \<open>store_Commit\<close> makes as one, and the first commit of a session that \<open>CompleteLogin\<close> has just given a new token, which is made
  under the mutex of the old one: no other request knows the new token before its cookie is sent.\<close>

inductive session_step ::
  "'d redis_db \<Rightarrow> fencedSessionStore \<Rightarrow> string \<Rightarrow> 'd session_world \<Rightarrow> 'd session_world \<Rightarrow> bool"
  for r store token where
  tick: "sw_now w \<le> t \<Longrightarrow> session_step r store token w (w\<lparr>sw_now := t\<rparr>)"
| other_keys: "(\<And>u k. sw_now w \<le> u \<Longrightarrow>
      k \<in> {mutex_name store token, fenceKeyForSessionToken store token, sessionKey store (hashSessionToken (fs_sha256 store) token)} \<Longrightarrow>
      rd_GET r db u k = rd_GET r (sw_db w) u k) \<Longrightarrow>
    session_step r store token w (w\<lparr>sw_db := db\<rparr>)"
| mutex_lock: "rd_GET r (sw_db w) (sw_now w) (mutex_name store token) = None \<Longrightarrow> owner \<notin> sw_used w \<Longrightarrow>
    session_step r store token w
      (w\<lparr>sw_db := rd_SET r (sw_db w) (sw_now w) (mutex_name store token) owner (Some ttl), sw_used := insert owner (sw_used w)\<rparr>)"
| mutex_extend: "rd_GET r (sw_db w) (sw_now w) (mutex_name store token) = Some owner \<Longrightarrow>
    session_step r store token w
      (w\<lparr>sw_db := rd_PEXPIREAT r (sw_db w) (sw_now w) (mutex_name store token) deadline\<rparr>)"
| mutex_unlock: "rd_GET r (sw_db w) (sw_now w) (mutex_name store token) = Some owner \<Longrightarrow>
    session_step r store token w (w\<lparr>sw_db := rd_DEL r (sw_db w) (sw_now w) (mutex_name store token)\<rparr>)"
| activate: "owner \<in> sw_used w \<Longrightarrow>
    Activate r store n (sw_now w) token (mutex_fence store token owner) ttl (sw_db w) = (err, db) \<Longrightarrow>
    session_step r store token w (w\<lparr>sw_db := db\<rparr>)"
| load: "owner \<in> sw_used w \<Longrightarrow>
    session_step r store token w
      (w\<lparr>sw_seen := (sw_seen w)(owner \<mapsto>
          rd_GET r (sw_db w) (sw_now w) (sessionKey store (hashSessionToken (fs_sha256 store) token)))\<rparr>)"
| commit: "owner \<in> sw_used w \<Longrightarrow> fenceFromSession store data = Some (Some (mutex_fence store token owner)) \<Longrightarrow>
    store_Commit r store base n (sw_now w) (hashSessionToken (fs_sha256 store) token) data expireAt (sw_db w) = (err, db) \<Longrightarrow>
    session_step r store token w
      (w\<lparr>sw_db := db, sw_seen := (sw_seen w)(owner := (if err = None then Some (Some data) else None))\<rparr>)"
| delete: "owner \<in> sw_used w \<Longrightarrow>
    DeleteCtx r store n (sw_now w) (mutex_fence store token owner) (hashSessionToken (fs_sha256 store) token) (sw_db w) = (err, db) \<Longrightarrow>
    session_step r store token w
      (w\<lparr>sw_db := db, sw_seen := (sw_seen w)(owner := (if err = None then Some None else None))\<rparr>)"

definition session_start :: "'d redis_db \<Rightarrow> fencedSessionStore \<Rightarrow> string \<Rightarrow> 'd session_world \<Rightarrow> bool" where
  "session_start r store token w \<longleftrightarrow>
     sw_seen w = Map.empty \<and>
     (\<forall>owner. rd_GET r (sw_db w) (sw_now w) (mutex_name store token) = Some owner \<longrightarrow> owner \<in> sw_used w)"

section \<open>Lemmas\<close>

lemma redis_SET:
  "redis_ok r \<Longrightarrow> t \<le> u \<Longrightarrow> rd_GET r (rd_SET r db t k v None) u k' = (if k' = k then Some v else rd_GET r db u k')"
  "redis_ok r \<Longrightarrow> t \<le> u \<Longrightarrow> rd_GET r (rd_SET r db t k v (Some px)) u k' =
     (if k' = k then (if u < t + px then Some v else None) else rd_GET r db u k')"
  by (simp_all add: redis_ok_def)

lemma redis_DEL:
  "redis_ok r \<Longrightarrow> t \<le> u \<Longrightarrow> rd_GET r (rd_DEL r db t k) u k' = (if k' = k then None else rd_GET r db u k')"
  by (simp add: redis_ok_def)

lemma redis_PEXPIREAT:
  "redis_ok r \<Longrightarrow> t \<le> u \<Longrightarrow> rd_GET r (rd_PEXPIREAT r db t k e) u k' =
     (if k' = k then (if u < e then rd_GET r db t k else None) else rd_GET r db u k')"
  by (simp add: redis_ok_def)

lemma redis_earlier: "redis_ok r \<Longrightarrow> t \<le> u \<Longrightarrow> rd_GET r db u k = Some v \<Longrightarrow> rd_GET r db t k = Some v"
  unfolding redis_ok_def by blast

lemma redis_SET_other:
  "redis_ok r \<Longrightarrow> t \<le> u \<Longrightarrow> k' \<noteq> k \<Longrightarrow> rd_GET r (rd_SET r db t k v px) u k' = rd_GET r db u k'"
  by (cases px) (simp_all add: redis_SET)

lemma keys_differ:
  "mutex_name store token \<noteq> sessionKey store h" "mutex_name store token \<noteq> fenceKey store h'"
  "fenceKey store h \<noteq> sessionKey store h'"
  by (simp_all add: mutex_name_def sessionKey_def fenceKey_def sessionKeySuffix_def fenceKeySuffix_def lockKeySuffix_def)

lemma base64_char_not_nul [simp]: "CHR 0x00 \<noteq> base64_char n"
  by (auto simp: base64_char_def dest: arg_cong [where f = "of_char :: char \<Rightarrow> nat"])

lemma base64_no_nul: "CHR 0x00 \<notin> set (base64_EncodeToString bs)"
  by (induction bs rule: base64_EncodeToString.induct) (simp_all add: Let_def)

lemmas keys_differ_simps [simp] = keys_differ keys_differ [symmetric]

text \<open>The store as \<open>NewRedisRuntime\<close> and \<open>NewSessionManager\<close> set it up, with a key prefix that does not
  contain the separator.\<close>

definition store_ok :: "fencedSessionStore \<Rightarrow> bool" where
  "store_ok store \<longleftrightarrow> fs_hashTokens store \<and> fenceSeparator \<notin> set (fs_prefix store)"

abbreviation stored_token :: "fencedSessionStore \<Rightarrow> string \<Rightarrow> string" where
  "stored_token store token \<equiv> hashSessionToken (fs_sha256 store) token"

lemma fence_key_stored: "store_ok store \<Longrightarrow> fenceKeyForSessionToken store token = fenceKey store (stored_token store token)"
  by (simp add: store_ok_def fenceKeyForSessionToken_def)

lemma parse_fence_cases:
  assumes "store_ok store"
  shows "parseSessionFence (mutex_fence store token owner) = (mutex_name store token, owner, owner \<noteq> [])"
proof -
  have "fenceSeparator \<notin> set (mutex_name store token)"
    using assms base64_no_nul by (auto simp: store_ok_def mutex_name_def fenceSeparator_def lockKeySuffix_def hashSessionToken_def)
  then have "strings_Cut (mutex_fence store token owner) fenceSeparator = (mutex_name store token, owner, True)"
    unfolding Cut_found_iff mutex_fence_def by simp
  then show ?thesis by (simp add: parseSessionFence_def mutex_name_def lockKeySuffix_def)
qed

text \<open>A script either changes nothing and reports it, or found the mutex in the hands of \<open>owner\<close>.\<close>

lemma Activate_cases:
  assumes "store_ok store" "Activate r store n now token (mutex_fence store token owner) ttl db = (err, db')"
  shows "db' = db \<and> err \<noteq> None \<or>
    rd_GET r db now (mutex_name store token) = Some owner \<and>
    (\<exists>px. db' = rd_SET r db now (fenceKey store (stored_token store token)) (mutex_fence store token owner) px)"
  using assms(2)
  by (auto simp: Activate_def parse_fence_cases [OF assms(1)] fence_key_stored [OF assms(1)] redis_call_def
      fencedActivateScript_def script_error_def split: if_splits link.splits)

lemma Commit_cases:
  assumes "redis_ok r" "store_ok store" "fenceFromSession store data = Some (Some (mutex_fence store token owner))"
    "store_Commit r store base n now (stored_token store token) data expireAt db = (err, db')"
  shows "db' = db \<and> err \<noteq> None \<or>
    rd_GET r db now (mutex_name store token) = Some owner \<and>
    rd_GET r db now (fenceKey store (stored_token store token)) = Some (mutex_fence store token owner) \<and>
    (\<forall>u \<ge> now. rd_GET r db' u (mutex_name store token) = rd_GET r db u (mutex_name store token) \<and>
       rd_GET r db' u (sessionKey store (stored_token store token)) = (if u < expireAt then Some data else None))"
proof -
  define script where "script = fencedCommitScript r now (sessionKey store (stored_token store token)) (mutex_name store token)
    (fenceKey store (stored_token store token)) data (mutex_fence store token owner) owner expireAt"
  have c: "script db = (False, db) \<or>
     fst (script db) \<and> rd_GET r db now (mutex_name store token) = Some owner \<and>
     rd_GET r db now (fenceKey store (stored_token store token)) = Some (mutex_fence store token owner) \<and>
     (\<forall>u \<ge> now. rd_GET r (snd (script db)) u (mutex_name store token) = rd_GET r db u (mutex_name store token) \<and>
       rd_GET r (snd (script db)) u (sessionKey store (stored_token store token)) = (if u < expireAt then Some data else None))"
    using keys_differ [of store token] keys_differ(3) [of store "stored_token store token" "stored_token store token"]
    by (auto simp: script_def fencedCommitScript_def Let_def redis_SET [OF assms(1)] redis_PEXPIREAT [OF assms(1)])
  have "db' = db \<and> err \<noteq> None \<or> n \<noteq> Refused \<and> db' = snd (script db) \<and> (err = None \<longrightarrow> fst (script db))"
    using assms(4) unfolding store_Commit_def assms(3)
    by (cases n) (auto simp: parse_fence_cases [OF assms(2)] redis_call_def script_def [symmetric] script_error_def split: if_splits)
  then show ?thesis using c by (cases "script db = (False, db)") auto
qed

lemma Delete_cases:
  assumes "redis_ok r" "store_ok store"
    "DeleteCtx r store n now (mutex_fence store token owner) (stored_token store token) db = (err, db')"
  shows "db' = db \<and> err \<noteq> None \<or>
    rd_GET r db now (mutex_name store token) = Some owner \<and>
    (\<forall>u \<ge> now. rd_GET r db' u (mutex_name store token) = rd_GET r db u (mutex_name store token) \<and>
       rd_GET r db' u (sessionKey store (stored_token store token)) = None)"
proof -
  have "mutex_fence store token owner \<noteq> []" by (simp add: mutex_fence_def)
  then have "deleteWithFence r store n now (stored_token store token) (mutex_fence store token owner) db = (err, db')"
    using assms(3) by (simp add: DeleteCtx_def)
  then show ?thesis using keys_differ [of store token]
    by (auto simp: deleteWithFence_def parse_fence_cases [OF assms(2)] redis_call_def fencedDeleteExpectedScript_def
        script_error_def redis_DEL [OF assms(1)] split: if_splits link.splits)
qed

definition session_inv :: "'d redis_db \<Rightarrow> fencedSessionStore \<Rightarrow> string \<Rightarrow> 'd session_world \<Rightarrow> bool" where
  "session_inv r store token w \<longleftrightarrow>
     (\<forall>owner. rd_GET r (sw_db w) (sw_now w) (mutex_name store token) = Some owner \<longrightarrow>
        owner \<in> sw_used w \<and>
        (\<forall>x. sw_seen w owner = Some x \<longrightarrow>
           rd_GET r (sw_db w) (sw_now w) (sessionKey store (stored_token store token)) \<in> {x, None})) \<and>
     dom (sw_seen w) \<subseteq> sw_used w"

lemma session_start_inv: "session_start r store token w \<Longrightarrow> session_inv r store token w"
  by (simp add: session_start_def session_inv_def)

lemma session_step_inv:
  assumes "redis_ok r" "store_ok store" "session_step r store token w w'" "session_inv r store token w"
  shows "session_inv r store token w'"
  using assms(3)
proof cases
  case (tick t)
  then show ?thesis
    using assms(4) redis_earlier [OF assms(1) tick(2), of "sw_db w"]
    unfolding session_inv_def by (auto simp: option.expand)
next
  case (commit owner data base n expireAt err db)
  then show ?thesis
    using assms(4) Commit_cases [OF assms(1,2) commit(3,4)]
    unfolding session_inv_def by (auto split: if_splits)
next
  case (delete owner n err db)
  then show ?thesis
    using assms(4) Delete_cases [OF assms(1,2) delete(3)]
    unfolding session_inv_def by (auto split: if_splits)
next
  case (activate owner n ttl err db)
  then show ?thesis
    using assms(4) Activate_cases [OF assms(2) activate(3)] keys_differ [of store token]
    unfolding session_inv_def by (auto simp: redis_SET_other [OF assms(1)])
next
  case (mutex_lock owner ttl)
  then show ?thesis
    using assms(4) keys_differ(1) [of store token]
    unfolding session_inv_def by (auto simp: redis_SET [OF assms(1)] split: if_splits)
next
  case (mutex_extend owner deadline)
  then show ?thesis
    using assms(4) keys_differ(1) [of store token]
    unfolding session_inv_def by (auto simp: redis_PEXPIREAT [OF assms(1)] split: if_splits)
next
  case (mutex_unlock owner)
  then show ?thesis
    using assms(4) keys_differ(1) [of store token]
    unfolding session_inv_def by (auto simp: redis_DEL [OF assms(1)] split: if_splits)
qed (use assms(4) in \<open>auto simp: session_inv_def\<close>)

lemma session_steps_inv:
  assumes "redis_ok r" "store_ok store" "(session_step r store token)\<^sup>*\<^sup>* w w'" "session_inv r store token w"
  shows "session_inv r store token w'"
  using assms(3,4) by (induction rule: rtranclp_induct) (auto intro: session_step_inv [OF assms(1,2)])

text \<open>A value of the mutex that has been used and is not its value now never is again.\<close>

definition stale :: "'d redis_db \<Rightarrow> fencedSessionStore \<Rightarrow> string \<Rightarrow> string \<Rightarrow> 'd session_world \<Rightarrow> bool" where
  "stale r store token owner w \<longleftrightarrow>
     owner \<in> sw_used w \<and> rd_GET r (sw_db w) (sw_now w) (mutex_name store token) \<noteq> Some owner"

lemma stale_step:
  assumes "redis_ok r" "store_ok store" "session_step r store token w w'" "stale r store token owner w"
  shows "stale r store token owner w'"
  using assms(3)
proof cases
  case (tick t)
  then show ?thesis using assms(4) redis_earlier [OF assms(1) tick(2), of "sw_db w"] by (auto simp: stale_def)
next
  case (commit other data base n expireAt err db)
  then show ?thesis using assms(4) Commit_cases [OF assms(1,2) commit(3,4)] by (auto simp: stale_def)
next
  case (delete other n err db)
  then show ?thesis using assms(4) Delete_cases [OF assms(1,2) delete(3)] by (auto simp: stale_def)
next
  case (activate other n ttl err db)
  then show ?thesis using assms(4) Activate_cases [OF assms(2) activate(3)] keys_differ [of store token]
    by (auto simp: stale_def redis_SET_other [OF assms(1)])
next
  case (mutex_lock other ttl)
  then show ?thesis using assms(4) by (auto simp: stale_def redis_SET [OF assms(1)])
next
  case (mutex_extend other deadline)
  then show ?thesis using assms(4) by (auto simp: stale_def redis_PEXPIREAT [OF assms(1)])
next
  case (mutex_unlock other)
  then show ?thesis using assms(4) by (auto simp: stale_def redis_DEL [OF assms(1)])
qed (use assms(4) in \<open>auto simp: stale_def\<close>)

lemma stale_steps:
  assumes "redis_ok r" "store_ok store" "(session_step r store token)\<^sup>*\<^sup>* w w'" "stale r store token owner w"
  shows "stale r store token owner w'"
  using assms(3,4) by (induction rule: rtranclp_induct) (auto intro: stale_step [OF assms(1,2)])

section \<open>Properties\<close>

text \<open>C14. No update of a session is lost: whatever requests, expiries and lost replies are interleaved, a
  fenced commit that reports success was made while its request held the session's mutex, and the
  content of the session it replaced is what that request last loaded or wrote, unless the session
  had expired; from then to its deadline the session is what was committed.\<close>

theorem fenced_commit_replaces_what_was_seen:
  assumes "redis_ok r" "store_ok store" "session_start r store token w0" "(session_step r store token)\<^sup>*\<^sup>* w0 w"
    "fenceFromSession store data = Some (Some (mutex_fence store token owner))"
    "store_Commit r store base n (sw_now w) (stored_token store token) data expireAt (sw_db w) = (None, db)"
  shows "rd_GET r (sw_db w) (sw_now w) (mutex_name store token) = Some owner \<and> owner \<in> sw_used w \<and>
    (\<forall>x. sw_seen w owner = Some x \<longrightarrow>
       rd_GET r (sw_db w) (sw_now w) (sessionKey store (stored_token store token)) \<in> {x, None}) \<and>
    (\<forall>u \<ge> sw_now w. rd_GET r db u (sessionKey store (stored_token store token)) = (if u < expireAt then Some data else None))"
  using Commit_cases [OF assms(1,2,5,6)] session_steps_inv [OF assms(1,2,4) session_start_inv [OF assms(3)]]
  unfolding session_inv_def by blast

text \<open>C35. A request that has lost the mutex of its session can do no more harm: from then on, whatever
  happens, none of its commits, deletions and fence activations changes anything, and each of them
  reports an error.\<close>

theorem stale_request_is_fenced_off:
  assumes "redis_ok r" "store_ok store" "session_start r store token w0" "(session_step r store token)\<^sup>*\<^sup>* w0 w"
    "owner \<in> sw_used w" "rd_GET r (sw_db w) (sw_now w) (mutex_name store token) \<noteq> Some owner"
    "(session_step r store token)\<^sup>*\<^sup>* w w'"
  shows "(Activate r store n (sw_now w') token (mutex_fence store token owner) ttl (sw_db w') = (err, db) \<longrightarrow>
      err \<noteq> None \<and> db = sw_db w') \<and>
    (fenceFromSession store data = Some (Some (mutex_fence store token owner)) \<longrightarrow>
      store_Commit r store base n (sw_now w') (stored_token store token) data expireAt (sw_db w') = (err, db) \<longrightarrow>
      err \<noteq> None \<and> db = sw_db w') \<and>
    (DeleteCtx r store n (sw_now w') (mutex_fence store token owner) (stored_token store token) (sw_db w') = (err, db) \<longrightarrow>
      err \<noteq> None \<and> db = sw_db w')"
proof -
  have "stale r store token owner w'"
    by (rule stale_steps [OF assms(1,2,7)]) (use assms(5,6) in \<open>simp add: stale_def\<close>)
  then have "rd_GET r (sw_db w') (sw_now w') (mutex_name store token) \<noteq> Some owner" by (simp add: stale_def)
  then show ?thesis
    using Activate_cases [OF assms(2), of r n "sw_now w'" token owner ttl "sw_db w'" err db]
      Commit_cases [OF assms(1,2), of data token owner base n "sw_now w'" expireAt "sw_db w'" err db]
      Delete_cases [OF assms(1,2), of n "sw_now w'" token owner "sw_db w'" err db]
    by blast
qed

text \<open>C34. A login transaction is used at most once: after it was saved under its state, and for ten
  minutes, nothing else can be saved under that state, and the first consumption that reaches Redis
  finds exactly the saved transaction, or nothing after ten minutes; whether or not its reply
  arrived, no later consumption finds anything.\<close>

theorem login_transaction_once:
  assumes "redis_ok r" "decode (encode transaction) = Some transaction"
    "SaveLoginTransaction r encode prefix n t0 state transaction db = (None, db1)" "t0 \<le> t" "t \<le> t'" "m \<noteq> Refused"
    "ConsumeLoginTransaction r decode prefix m t state db1 = (result, db2)"
  shows "(m = Delivered \<longrightarrow> result = Inr (if t < t0 + 600000 then Some transaction else None)) \<and>
    (m = ReplyLost \<longrightarrow> result = Inl TxnConnection) \<and>
    fst (ConsumeLoginTransaction r decode prefix m' t' state db2) \<in> {Inr None, Inl TxnConnection} \<and>
    (t < t0 + 600000 \<longrightarrow> fst (SaveLoginTransaction r encode prefix n' t state transaction' db1) \<noteq> None)"
proof -
  let ?k = "transaction_key prefix state"
  have s: "state \<noteq> []" "db1 = rd_SET r db t0 ?k (encode transaction) (Some 600000)"
    using assms(3) by (auto simp: SaveLoginTransaction_def redis_call_def set_if_absent_def loginTransactionLifetime_def
        split: if_splits link.splits)
  have g: "rd_GET r db1 u ?k = (if u < t0 + 600000 then Some (encode transaction) else None)" if "t0 \<le> u" for u
    using that by (simp add: s(2) redis_SET [OF assms(1)])
  have "db2 = snd (consumeLoginTransactionScript r t ?k db1)"
    using assms(6,7) s(1) by (cases m) (auto simp: ConsumeLoginTransaction_def redis_call_def split: option.splits)
  then have gone: "rd_GET r db2 u ?k = None" if "t \<le> u" for u
    using that g [OF assms(4)] g [of u] assms(4) by (auto simp: consumeLoginTransactionScript_def redis_DEL [OF assms(1)])
  have "fst (ConsumeLoginTransaction r decode prefix m' t' state db2) \<in> {Inr None, Inl TxnConnection}"
    using gone [OF assms(5)] s(1)
    by (cases m') (simp_all add: ConsumeLoginTransaction_def redis_call_def consumeLoginTransactionScript_def)
  moreover have "fst (SaveLoginTransaction r encode prefix n' t state transaction' db1) \<noteq> None" if "t < t0 + 600000"
    using g [OF assms(4)] that s(1) by (cases n') (simp_all add: SaveLoginTransaction_def redis_call_def set_if_absent_def)
  moreover have "m = Delivered \<Longrightarrow> result = Inr (if t < t0 + 600000 then Some transaction else None)"
    using assms(2,7) g [OF assms(4)] s(1)
    by (auto simp: ConsumeLoginTransaction_def redis_call_def consumeLoginTransactionScript_def split: if_splits)
  moreover have "m = ReplyLost \<Longrightarrow> result = Inl TxnConnection"
    using assms(7) s(1) by (auto simp: ConsumeLoginTransaction_def redis_call_def)
  ultimately show ?thesis by blast
qed

section \<open>A small database\<close>

definition demo_get :: "(string \<rightharpoonup> string \<times> int option) \<Rightarrow> int \<Rightarrow> string \<Rightarrow> string option" where
  "demo_get db u k = (case db k of
     None \<Rightarrow> None
   | Some (v, deadline) \<Rightarrow> (case deadline of None \<Rightarrow> Some v | Some e \<Rightarrow> if u < e then Some v else None))"

definition demo_redis :: "(string \<rightharpoonup> string \<times> int option) redis_db" where
  "demo_redis = \<lparr>rd_GET = demo_get,
     rd_SET = (\<lambda>db t k v px. db(k \<mapsto> (v, map_option (\<lambda>p. t + p) px))),
     rd_DEL = (\<lambda>db t k. db(k := None)),
     rd_PEXPIREAT = (\<lambda>db t k e. case demo_get db t k of None \<Rightarrow> db(k := None) | Some v \<Rightarrow> db(k \<mapsto> (v, Some e)))\<rparr>"

lemma demo_get_earlier: "t \<le> u \<Longrightarrow> demo_get db u k = Some v \<Longrightarrow> demo_get db t k = Some v"
  by (auto simp: demo_get_def split: option.splits if_splits)

lemma demo_get_expire:
  "t \<le> u \<Longrightarrow> demo_get (case demo_get db t k of None \<Rightarrow> db(k := None) | Some v \<Rightarrow> db(k \<mapsto> (v, Some e))) u k' =
     (if k' = k then if u < e then demo_get db t k else None else demo_get db u k')"
  by (cases "demo_get db t k") (simp_all add: demo_get_def)

lemma demo_get_update:
  "demo_get (db(k := x)) u k' = (if k' = k then demo_get (\<lambda>_. x) u k else demo_get db u k')"
  by (simp add: demo_get_def)

lemma demo_redis_ok: "redis_ok demo_redis"
  unfolding redis_ok_def demo_redis_def redis_db.simps
  using demo_get_earlier demo_get_expire by (intro conjI allI impI) (simp_all add: demo_get_update, simp_all add: demo_get_def)

text \<open>Sessions that hold nothing but their fence.\<close>

definition demo_store :: fencedSessionStore where
  "demo_store = \<lparr>fs_prefix = ''v:'', fs_hashTokens = True, fs_codec = (\<lambda>data. Some [sessionFenceKey \<mapsto> SString data]),
     fs_sha256 = (\<lambda>_. [])\<rparr>"

definition demo_world :: "(string \<rightharpoonup> string \<times> int option) session_world" where
  "demo_world = \<lparr>sw_db = Map.empty, sw_now = 0, sw_used = {}, sw_seen = Map.empty\<rparr>"

lemma demo_store_ok: "store_ok demo_store"
  by (simp add: store_ok_def demo_store_def fenceSeparator_def)

lemma demo_start: "session_start demo_redis demo_store ''t'' demo_world"
  by (simp add: session_start_def demo_world_def demo_redis_def demo_get_def)

definition demo_fence :: string where "demo_fence = mutex_fence demo_store ''t'' ''o''"

lemma demo_fence_data: "fenceFromSession demo_store demo_fence = Some (Some demo_fence)"
  by (simp add: fenceFromSession_def demo_store_def demo_fence_def mutex_fence_def)

definition demo_locked :: "(string \<rightharpoonup> string \<times> int option) session_world" where
  "demo_locked = demo_world\<lparr>sw_db := rd_SET demo_redis (sw_db demo_world) (sw_now demo_world) (mutex_name demo_store ''t'') ''o'' (Some 10),
     sw_used := insert ''o'' (sw_used demo_world)\<rparr>"

lemma demo_lock_step: "session_step demo_redis demo_store ''t'' demo_world demo_locked"
  unfolding demo_locked_def
  by (rule session_step.mutex_lock) (simp_all add: demo_world_def demo_redis_def demo_get_def)

definition demo_active :: "(string \<rightharpoonup> string \<times> int option) session_world" where
  "demo_active = demo_locked\<lparr>sw_db := rd_SET demo_redis (sw_db demo_locked) 0
     (fenceKey demo_store (stored_token demo_store ''t'')) demo_fence (Some 1000)\<rparr>"

lemma demo_holds:
  "rd_GET demo_redis (sw_db demo_locked) 0 (mutex_name demo_store ''t'') = Some ''o''" "sw_now demo_locked = 0" "''o'' \<in> sw_used demo_locked"
  by (simp_all add: demo_locked_def demo_world_def demo_redis_def demo_get_def)

lemma demo_activate_step: "session_step demo_redis demo_store ''t'' demo_locked demo_active"
  unfolding demo_active_def
proof (rule session_step.activate [where n = Delivered and ttl = 1000000000])
  show "''o'' \<in> sw_used demo_locked" by (rule demo_holds)
  show "Activate demo_redis demo_store Delivered (sw_now demo_locked) ''t'' (mutex_fence demo_store ''t'' ''o'') 1000000000 (sw_db demo_locked) =
    (None, rd_SET demo_redis (sw_db demo_locked) 0 (fenceKey demo_store (stored_token demo_store ''t'')) demo_fence (Some 1000))"
    using demo_holds
    by (simp add: Activate_def parse_fence_cases [OF demo_store_ok] redis_call_def fencedActivateScript_def script_error_def
        fence_key_stored [OF demo_store_ok] demo_fence_def activate_expiry_def)
qed

lemma demo_commit:
  "\<exists>db. store_Commit demo_redis demo_store (\<lambda>_ _ _ _ d. (None, d)) Delivered 0 (stored_token demo_store ''t'') demo_fence 500
     (sw_db demo_active) = (None, db)"
proof -
  have "rd_GET demo_redis (sw_db demo_active) 0 (mutex_name demo_store ''t'') = Some ''o''"
    "rd_GET demo_redis (sw_db demo_active) 0 (fenceKey demo_store (stored_token demo_store ''t'')) = Some demo_fence"
    using demo_holds by (simp_all add: demo_active_def redis_SET [OF demo_redis_ok])
  then show ?thesis
    using parse_fence_cases [OF demo_store_ok, of "''t''" "''o''", folded demo_fence_def]
    by (simp add: store_Commit_def demo_fence_data redis_call_def fencedCommitScript_def script_error_def Let_def)
qed

definition demo_loaded :: "(string \<rightharpoonup> string \<times> int option) session_world" where
  "demo_loaded = demo_active\<lparr>sw_seen := (sw_seen demo_active)(''o'' \<mapsto>
     rd_GET demo_redis (sw_db demo_active) (sw_now demo_active) (sessionKey demo_store (stored_token demo_store ''t'')))\<rparr>"

lemma demo_loaded: "(session_step demo_redis demo_store ''t'')\<^sup>*\<^sup>* demo_world demo_loaded" "sw_now demo_loaded = 0"
  "sw_db demo_loaded = sw_db demo_active" "sw_seen demo_loaded ''o'' = Some None"
proof -
  show n: "sw_now demo_loaded = 0" "sw_db demo_loaded = sw_db demo_active"
    using demo_holds by (simp_all add: demo_loaded_def demo_active_def)
  have "''o'' \<in> sw_used demo_active" using demo_holds(3) by (simp add: demo_active_def)
  then have "session_step demo_redis demo_store ''t'' demo_active demo_loaded"
    unfolding demo_loaded_def by (rule session_step.load)
  then show "(session_step demo_redis demo_store ''t'')\<^sup>*\<^sup>* demo_world demo_loaded"
    using demo_lock_step demo_activate_step by (meson r_into_rtranclp rtranclp.rtrancl_into_rtrancl)
  have "sw_now demo_active = 0" using demo_holds(2) by (simp add: demo_active_def)
  moreover have "rd_GET demo_redis (sw_db demo_active) 0 (sessionKey demo_store (stored_token demo_store ''t'')) = None"
    using keys_differ [of demo_store "''t''"]
    by (simp add: demo_active_def demo_locked_def redis_SET [OF demo_redis_ok] demo_world_def demo_redis_def demo_get_def)
  ultimately show "sw_seen demo_loaded ''o'' = Some None" by (simp add: demo_loaded_def)
qed

theorem fenced_commit_replaces_what_was_seen_witness:
  "\<exists>db. store_Commit demo_redis demo_store (\<lambda>_ _ _ _ d. (None, d)) Delivered 0 (stored_token demo_store ''t'') demo_fence 500
     (sw_db demo_loaded) = (None, db) \<and>
   sw_seen demo_loaded ''o'' = Some None \<and>
   rd_GET demo_redis (sw_db demo_loaded) 0 (sessionKey demo_store (stored_token demo_store ''t'')) = None \<and>
   rd_GET demo_redis db 499 (sessionKey demo_store (stored_token demo_store ''t'')) = Some demo_fence"
proof -
  obtain db where db: "store_Commit demo_redis demo_store (\<lambda>_ _ _ _ d. (None, d)) Delivered (sw_now demo_loaded) (stored_token demo_store ''t'') demo_fence 500
     (sw_db demo_loaded) = (None, db)" using demo_commit unfolding demo_loaded(2,3) by blast
  from fenced_commit_replaces_what_was_seen [OF demo_redis_ok demo_store_ok demo_start demo_loaded(1) demo_fence_data [unfolded demo_fence_def]
      db [unfolded demo_fence_def]]
  show ?thesis using db demo_loaded(4) unfolding demo_loaded(2) demo_fence_def by auto
qed

theorem stale_request_is_fenced_off_witness:
  "fst (Activate demo_redis demo_store Delivered 20 ''t'' demo_fence 1 (sw_db demo_locked)) \<noteq> None"
proof -
  have s: "(session_step demo_redis demo_store ''t'')\<^sup>*\<^sup>* demo_world (demo_locked\<lparr>sw_now := 20\<rparr>)"
    using demo_lock_step session_step.tick [of demo_locked 20 demo_redis demo_store "''t''"] demo_holds(2)
      rtranclp.rtrancl_into_rtrancl [of "session_step demo_redis demo_store ''t''" demo_world demo_locked] by auto
  have g: "rd_GET demo_redis (sw_db (demo_locked\<lparr>sw_now := 20\<rparr>)) (sw_now (demo_locked\<lparr>sw_now := 20\<rparr>)) (mutex_name demo_store ''t'') \<noteq> Some ''o''"
    by (simp add: demo_locked_def demo_world_def demo_redis_def demo_get_def)
  have u: "''o'' \<in> sw_used (demo_locked\<lparr>sw_now := 20\<rparr>)" using demo_holds(3) by simp
  from stale_request_is_fenced_off [OF demo_redis_ok demo_store_ok demo_start s u g rtranclp.rtrancl_refl, where n = Delivered and ttl = 1]
  show ?thesis by (cases "Activate demo_redis demo_store Delivered 20 ''t'' demo_fence 1 (sw_db demo_locked)") (simp add: demo_fence_def)
qed

theorem login_transaction_once_witness:
  "\<exists>db1 db2. SaveLoginTransaction demo_redis (\<lambda>_. ''x'') ''v:'' Delivered 0 ''s'' zero_LoginTransaction Map.empty = (None, db1) \<and>
     ConsumeLoginTransaction demo_redis (\<lambda>_. Some zero_LoginTransaction) ''v:'' Delivered 5 ''s'' db1 = (Inr (Some zero_LoginTransaction), db2) \<and>
     fst (ConsumeLoginTransaction demo_redis (\<lambda>_. Some zero_LoginTransaction) ''v:'' Delivered 6 ''s'' db2) \<noteq> Inr (Some zero_LoginTransaction)"
proof -
  obtain db1 where s: "SaveLoginTransaction demo_redis (\<lambda>_. ''x'') ''v:'' Delivered 0 ''s'' zero_LoginTransaction Map.empty = (None, db1)"
    by (simp add: SaveLoginTransaction_def redis_call_def set_if_absent_def demo_redis_def demo_get_def)
  obtain res db2 where c: "ConsumeLoginTransaction demo_redis (\<lambda>_. Some zero_LoginTransaction) ''v:'' Delivered 5 ''s'' db1 = (res, db2)"
    by fastforce
  from login_transaction_once [OF demo_redis_ok _ s _ _ _ c, where t' = 6 and m' = Delivered] s c show ?thesis by auto
qed

end
