(* ===== verification/Auth_Config.thy ===== *)
theory Auth_Config
  imports Attestation
begin

text \<open>
  The authentication configuration of \<open>backend/internal/config/auth.go\<close> and the proof
  configuration of \<open>proofs.go\<close>: reading the environment, validating it, and what a loaded
  configuration guarantees.

  \<open>url.Parse\<close> and \<open>URL.String\<close>, \<open>time.ParseDuration\<close>, \<open>netip.ParseAddr\<close>, \<open>net.SplitHostPort\<close>,
  \<open>os.Stat\<close> and the Unicode tables behind \<open>strings.ToLower\<close>, \<open>strings.EqualFold\<close>,
  \<open>strings.Fields\<close> and the classes of package unicode are fields of the parameter \<open>config_lib\<close>.
  Durations are integers of nanoseconds. An error is its message.
\<close>

section \<open>Definitions\<close>

record config_lib =
  cl_url_Parse :: "string \<Rightarrow> parsed_url option"
  cl_url_String :: "parsed_url \<Rightarrow> string"
  cl_ParseDuration :: "string \<Rightarrow> int option"
  cl_is_ip6 :: "string \<Rightarrow> bool"
  cl_SplitHostPort :: "string \<Rightarrow> (string \<times> string) option"
  cl_regular_file :: "string \<Rightarrow> bool"
  cl_ToLower :: "string \<Rightarrow> string"
  cl_EqualFold :: "string \<Rightarrow> string \<Rightarrow> bool"
  cl_Fields :: "string \<Rightarrow> string list"
  cl_IsLetter :: "nat \<Rightarrow> bool"
  cl_IsDigit :: "nat \<Rightarrow> bool"
  cl_IsSpace :: "nat \<Rightarrow> bool"

text \<open>A step that may fail, and a test that stops with an error.\<close>

definition and_then :: "'e + 'a \<Rightarrow> ('a \<Rightarrow> 'e + 'b) \<Rightarrow> 'e + 'b" where
  "and_then r f = (case r of Inl err \<Rightarrow> Inl err | Inr x \<Rightarrow> f x)"

definition require :: "bool \<Rightarrow> 'e \<Rightarrow> 'e + 'b \<Rightarrow> 'e + 'b" where
  "require c err rest = (if c then rest else Inl err)"

subsection \<open>Constants and types\<close>

definition nanosecond_second :: int where "nanosecond_second = 1000000000"
definition defaultAbsoluteLifetime :: int where "defaultAbsoluteLifetime = 8 * 3600 * 1000000000"
definition defaultIdleLifetime :: int where "defaultIdleLifetime = 30 * 60 * 1000000000"
definition defaultRedisConnect :: int where "defaultRedisConnect = 5 * 1000000000"
definition defaultRedisRead :: int where "defaultRedisRead = 5 * 1000000000"
definition defaultRedisWrite :: int where "defaultRedisWrite = 5 * 1000000000"
definition defaultRedisPoolSize :: int where "defaultRedisPoolSize = 10"
definition defaultRefreshLockTTL :: int where "defaultRefreshLockTTL = 15 * 1000000000"
definition defaultRefreshLockWait :: int where "defaultRefreshLockWait = 250 * 1000000"
definition defaultRefreshLockRetry :: int where "defaultRefreshLockRetry = 25 * 1000000"
definition defaultProviderTimeout :: int where "defaultProviderTimeout = 10 * 1000000000"
definition minSecretLength :: nat where "minSecretLength = 32"
definition defaultSessionCookieName :: string where "defaultSessionCookieName = ''__Host-vaultsmith_session''"
definition defaultGroupsClaim :: string where "defaultGroupsClaim = ''groups''"

datatype AuthMode = AuthModeNative | AuthModeOff
datatype SameSite = SameSiteLax | SameSiteStrict | SameSiteNone

record OIDCConfig =
  oc_IssuerURL :: string
  oc_ClientID :: string
  oc_ClientSecret :: string
  oc_CAFile :: string
  oc_RedirectURL :: string
  oc_PublicBaseURL :: string
  oc_Scopes :: "string list"
  oc_GroupsClaim :: string

record SessionConfig =
  sc_CookieName :: string
  sc_AbsoluteLifetime :: int
  sc_IdleLifetime :: int
  sc_Secure :: bool
  sc_SameSite :: SameSite

record RedisConfig =
  rc_Address :: string
  rc_Username :: string
  rc_Password :: string
  rc_Database :: int
  rc_TLS :: bool
  rc_ConnectTimeout :: int
  rc_ReadTimeout :: int
  rc_WriteTimeout :: int
  rc_PoolSize :: int
  rc_RefreshLockTTL :: int
  rc_RefreshLockWait :: int
  rc_RefreshLockRetry :: int
  rc_ProviderTimeout :: int
  rc_KeyPrefix :: string

record AuthConfig =
  ac_Mode :: AuthMode
  ac_OIDC :: OIDCConfig
  ac_Session :: SessionConfig
  ac_Redis :: RedisConfig
  ac_CSRFSecret :: string
  ac_AllowedOrigins :: "string list"
  ac_PolicyFile :: string

subsection \<open>Options\<close>

text \<open>A variable that is set to something other than white space.\<close>

definition set_value :: "env_lookup \<Rightarrow> string \<Rightarrow> string option" where
  "set_value lookup key = (case lookup key of None \<Rightarrow> None | Some raw \<Rightarrow> if strings_TrimSpace raw = [] then None else Some raw)"

definition requiredValue :: "env_lookup \<Rightarrow> string \<Rightarrow> string + string" where
  "requiredValue lookup key =
     (case set_value lookup key of None \<Rightarrow> Inl (key @ '' is required'') | Some raw \<Rightarrow> Inr (strings_TrimSpace raw))"

definition requiredSecret :: "env_lookup \<Rightarrow> string \<Rightarrow> string + string" where
  "requiredSecret lookup key =
     (case lookup key of
        None \<Rightarrow> Inl (key @ '' is required'')
      | Some v \<Rightarrow> if v = [] then Inl (key @ '' is required'') else Inr v)"

definition durationOption :: "config_lib \<Rightarrow> env_lookup \<Rightarrow> string \<Rightarrow> int \<Rightarrow> string + int" where
  "durationOption lib lookup key fallback =
     (case set_value lookup key of
        None \<Rightarrow> Inr fallback
      | Some raw \<Rightarrow> (case cl_ParseDuration lib (strings_TrimSpace raw) of
          None \<Rightarrow> Inl (key @ '' must be a valid duration'')
        | Some v \<Rightarrow> Inr v))"

definition strconv_ParseBool :: "string \<Rightarrow> bool option" where
  "strconv_ParseBool s =
     (if s \<in> {''1'', ''t'', ''T'', ''true'', ''TRUE'', ''True''} then Some True
      else if s \<in> {''0'', ''f'', ''F'', ''false'', ''FALSE'', ''False''} then Some False
      else None)"

definition boolOption :: "string \<Rightarrow> string \<Rightarrow> string + bool" where
  "boolOption key raw =
     (case strconv_ParseBool (strings_TrimSpace raw) of
        None \<Rightarrow> Inl (key @ '' must be true or false'')
      | Some b \<Rightarrow> Inr b)"

text \<open>\<open>strconv.Atoi\<close> on a 64-bit platform: an optional sign, then decimal digits, in range.\<close>

definition strconv_Atoi :: "string \<Rightarrow> int option" where
  "strconv_Atoi s =
     (let (neg, ds) = (case s of
            c # rest \<Rightarrow> if c = CHR ''-'' then (True, rest) else if c = CHR ''+'' then (False, rest) else (False, s)
          | [] \<Rightarrow> (False, s));
          n = int (decimal_value ds)
      in if ds = [] \<or> \<not> list_all is_json_digit ds then None
         else if neg then (if n \<le> 2 ^ 63 then Some (- n) else None)
         else (if n < 2 ^ 63 then Some n else None))"

definition intOption :: "string \<Rightarrow> string \<Rightarrow> string + int" where
  "intOption key raw =
     (case strconv_Atoi (strings_TrimSpace raw) of
        None \<Rightarrow> Inl (key @ '' must be an integer'')
      | Some n \<Rightarrow> Inr n)"

definition sameSiteOption :: "config_lib \<Rightarrow> string \<Rightarrow> string + SameSite" where
  "sameSiteOption lib raw =
     (let s = cl_ToLower lib (strings_TrimSpace raw) in
      if s = ''lax'' then Inr SameSiteLax
      else if s = ''strict'' then Inr SameSiteStrict
      else if s = ''none'' then Inr SameSiteNone
      else Inl ''COOKIE_SAME_SITE must be lax, strict, or none'')"

fun no_repeat :: "string list \<Rightarrow> string set \<Rightarrow> bool" where
  "no_repeat [] seen = True"
| "no_repeat (s # ss) seen = (if s \<in> seen then False else no_repeat ss (insert s seen))"

definition parseScopes :: "config_lib \<Rightarrow> string \<Rightarrow> string + string list" where
  "parseScopes lib raw =
     (let parts = cl_Fields lib raw in
      if parts = [] then Inl ''OIDC_SCOPES must not be empty''
      else if \<not> no_repeat parts {} then Inl ''OIDC_SCOPES contains duplicate values''
      else Inr parts)"

subsection \<open>URLs\<close>

definition isLoopbackHost :: "config_lib \<Rightarrow> string \<Rightarrow> bool" where
  "isLoopbackHost lib host \<longleftrightarrow> cl_ToLower lib host \<in> {''localhost'', ''127.0.0.1'', ''::1'', ''[::1]''}"

definition validateWebURL :: "config_lib \<Rightarrow> string \<Rightarrow> string \<Rightarrow> bool \<Rightarrow> string + parsed_url" where
  "validateWebURL lib key raw allowLoopbackHTTP =
     (case cl_url_Parse lib raw of
        None \<Rightarrow> Inl (key @ '' must be an absolute HTTP(S) URL'')
      | Some u \<Rightarrow>
          if Scheme u = [] \<or> Host u = [] \<or> has_User u then Inl (key @ '' must be an absolute HTTP(S) URL'')
          else let scheme = cl_ToLower lib (Scheme u) in
            if scheme \<noteq> ''https'' \<and> \<not> (allowLoopbackHTTP \<and> scheme = ''http'' \<and> isLoopbackHost lib (Hostname u))
            then Inl (key @ '' must use HTTPS except for loopback development URLs'')
            else Inr u)"

definition validateResourceOrigin :: "config_lib \<Rightarrow> string \<Rightarrow> string \<Rightarrow> string + parsed_url" where
  "validateResourceOrigin lib key raw =
     and_then (validateWebURL lib key raw False) (\<lambda>u.
     require (url_Path u = [] \<or> url_Path u = ''/'') (key @ '' must be an HTTPS origin without an application path'')
     (require (RawQuery u = [] \<and> Fragment u = []) (key @ '' must not contain a query or fragment'')
     (Inr u)))"

definition canonicalOrigin :: "config_lib \<Rightarrow> parsed_url \<Rightarrow> string" where
  "canonicalOrigin lib u = cl_ToLower lib (Scheme u) @ ''://'' @ cl_ToLower lib (Host u)"

definition sameOrigin :: "config_lib \<Rightarrow> parsed_url \<Rightarrow> parsed_url \<Rightarrow> bool" where
  "sameOrigin lib a b \<longleftrightarrow> cl_EqualFold lib (Scheme a) (Scheme b) \<and> cl_EqualFold lib (Host a) (Host b)"

definition originsMessage :: string where
  "originsMessage = ''CORS_ALLOWED_ORIGINS must contain exact HTTPS origins or loopback HTTP origins''"

fun parse_origin_parts :: "config_lib \<Rightarrow> string list \<Rightarrow> string list \<Rightarrow> string + string list" where
  "parse_origin_parts lib [] origins = Inr origins"
| "parse_origin_parts lib (part # parts) origins =
     (let origin = strings_TrimSpace part in
      if origin = [] \<or> origin = ''*'' then Inl originsMessage
      else (case validateWebURL lib ''CORS_ALLOWED_ORIGINS'' origin True of
        Inl _ \<Rightarrow> Inl originsMessage
      | Inr u \<Rightarrow>
          if url_Path u \<noteq> [] \<or> RawQuery u \<noteq> [] \<or> Fragment u \<noteq> [] then Inl originsMessage
          else let canonical = canonicalOrigin lib u in
            if canonical \<in> set origins then Inl ''CORS_ALLOWED_ORIGINS contains duplicate origins''
            else parse_origin_parts lib parts (origins @ [canonical])))"

definition parseOrigins :: "config_lib \<Rightarrow> string \<Rightarrow> string + string list" where
  "parseOrigins lib raw =
     (if strings_TrimSpace raw = [] then Inr [] else parse_origin_parts lib (strings_Split raw (CHR '','')) [])"

subsection \<open>Redis options\<close>

definition label_char :: "char \<Rightarrow> bool" where
  "label_char c \<longleftrightarrow> c = CHR ''-'' \<or> in_range (CHR ''0'') (CHR ''9'') c \<or> in_range (CHR ''A'') (CHR ''Z'') c \<or> in_range (CHR ''a'') (CHR ''z'') c"

definition valid_label :: "string \<Rightarrow> bool" where
  "valid_label label \<longleftrightarrow>
     label \<noteq> [] \<and> length label \<le> 63 \<and> hd label \<noteq> CHR ''-'' \<and> last label \<noteq> CHR ''-'' \<and> list_all label_char label"

definition validRedisHost :: "config_lib \<Rightarrow> string \<Rightarrow> string \<Rightarrow> bool" where
  "validRedisHost lib address host0 =
     (if strings_HasPrefix address ''['' then cl_is_ip6 lib host0
      else let host = strings_TrimSuffix host0 ''.'' in
        if host = [] \<or> 253 < length host then False
        else list_all valid_label (strings_Split host (CHR ''.'')))"

definition validRedisAddress :: "config_lib \<Rightarrow> string \<Rightarrow> bool" where
  "validRedisAddress lib address =
     (if address \<noteq> strings_TrimSpace address \<or> strings_ContainsAny address (''@/'' @ [CHR 0x5C] @ ''?#'') then False
      else if list_ex (\<lambda>r. cl_IsSpace lib r \<or> unicode_IsControl r) (runes address) then False
      else (case cl_SplitHostPort lib address of
        None \<Rightarrow> False
      | Some (host, port) \<Rightarrow>
          if host = [] \<or> port = [] \<or> \<not> validRedisHost lib address host then False
          else if \<not> list_all (\<lambda>r. 48 \<le> r \<and> r \<le> 57) (runes port) then False
          else decimal_value port < 2 ^ 16 \<and> decimal_value port > 0))"

definition prefix_rune :: "config_lib \<Rightarrow> nat \<Rightarrow> bool" where
  "prefix_rune lib r \<longleftrightarrow> cl_IsLetter lib r \<or> cl_IsDigit lib r \<or> r \<in> {46, 95, 58, 47, 45}"

definition validRedisPrefix :: "config_lib \<Rightarrow> string \<Rightarrow> bool" where
  "validRedisPrefix lib prefix =
     (if length prefix < 2 \<or> 128 < length prefix \<or> \<not> strings_HasSuffix prefix '':'' then False
      else (cl_IsLetter lib (hd (runes prefix)) \<or> cl_IsDigit lib (hd (runes prefix))) \<and>
           list_all (prefix_rune lib) (runes prefix))"

definition claim_rune :: "config_lib \<Rightarrow> nat \<Rightarrow> bool" where
  "claim_rune lib r \<longleftrightarrow> cl_IsLetter lib r \<or> cl_IsDigit lib r \<or> r = 95 \<or> r = 45"

definition validClaimPath :: "config_lib \<Rightarrow> string \<Rightarrow> bool" where
  "validClaimPath lib claim \<longleftrightarrow>
     claim \<noteq> [] \<and> list_all (\<lambda>part. part \<noteq> [] \<and> list_all (claim_rune lib) (runes part)) (strings_Split claim (CHR ''.''))"

text \<open>An optional variable read by \<open>f\<close>, and its default.\<close>

definition option_or :: "env_lookup \<Rightarrow> string \<Rightarrow> 'a \<Rightarrow> (string \<Rightarrow> string + 'a) \<Rightarrow> string + 'a" where
  "option_or lookup key fallback f = (case set_value lookup key of None \<Rightarrow> Inr fallback | Some raw \<Rightarrow> f raw)"

definition int_at_least :: "string \<Rightarrow> int \<Rightarrow> string \<Rightarrow> string \<Rightarrow> string + int" where
  "int_at_least key least message raw =
     (case intOption key raw of Inl _ \<Rightarrow> Inl message | Inr n \<Rightarrow> if n < least then Inl message else Inr n)"

definition redis_address :: "config_lib \<Rightarrow> env_lookup \<Rightarrow> bool \<Rightarrow> string + string" where
  "redis_address lib lookup required =
     (case set_value lookup ''REDIS_ADDR'' of
        Some address \<Rightarrow> require (validRedisAddress lib address) ''REDIS_ADDR must be a credential-free TCP host:port'' (Inr address)
      | None \<Rightarrow> require (\<not> required) ''REDIS_ADDR is required in native mode'' (Inr []))"

definition redis_prefix :: "config_lib \<Rightarrow> env_lookup \<Rightarrow> bool \<Rightarrow> string + string" where
  "redis_prefix lib lookup required =
     (case set_value lookup ''REDIS_KEY_PREFIX'' of
        None \<Rightarrow> require (\<not> required) ''REDIS_KEY_PREFIX is required in native mode'' (Inr [])
      | Some prefix \<Rightarrow>
          require (validRedisPrefix lib prefix) ''REDIS_KEY_PREFIX must be a safe prefix ending with a colon'' (Inr prefix))"

definition parseRedisOptions :: "config_lib \<Rightarrow> env_lookup \<Rightarrow> bool \<Rightarrow> string + RedisConfig" where
  "parseRedisOptions lib lookup required =
     and_then (redis_address lib lookup required) (\<lambda>address.
     (let username = (case lookup ''REDIS_USERNAME'' of None \<Rightarrow> [] | Some v \<Rightarrow> v);
          pass = (case lookup ''REDIS_PASSWORD'' of None \<Rightarrow> [] | Some v \<Rightarrow> v) in
     require (\<not> (username \<noteq> [] \<and> pass = [])) ''REDIS_PASSWORD is required when REDIS_USERNAME is configured''
     (and_then (option_or lookup ''REDIS_DB'' 0 (int_at_least ''REDIS_DB'' 0 ''REDIS_DB must be a non-negative integer'')) (\<lambda>database.
     and_then (option_or lookup ''REDIS_TLS'' False (boolOption ''REDIS_TLS'')) (\<lambda>tls.
     and_then (durationOption lib lookup ''REDIS_CONNECT_TIMEOUT'' defaultRedisConnect) (\<lambda>connect.
     and_then (durationOption lib lookup ''REDIS_READ_TIMEOUT'' defaultRedisRead) (\<lambda>readTimeout.
     and_then (durationOption lib lookup ''REDIS_WRITE_TIMEOUT'' defaultRedisWrite) (\<lambda>writeTimeout.
     require (connect > 0 \<and> readTimeout > 0 \<and> writeTimeout > 0) ''redis timeouts must be positive''
     (and_then (option_or lookup ''REDIS_POOL_SIZE'' defaultRedisPoolSize
                 (int_at_least ''REDIS_POOL_SIZE'' 1 ''REDIS_POOL_SIZE must be a positive integer'')) (\<lambda>poolSize.
     and_then (durationOption lib lookup ''REDIS_REFRESH_LOCK_TTL'' defaultRefreshLockTTL) (\<lambda>lockTTL.
     and_then (durationOption lib lookup ''REDIS_REFRESH_LOCK_WAIT'' defaultRefreshLockWait) (\<lambda>lockWait.
     and_then (durationOption lib lookup ''REDIS_REFRESH_LOCK_RETRY'' defaultRefreshLockRetry) (\<lambda>lockRetry.
     and_then (durationOption lib lookup ''REDIS_PROVIDER_TIMEOUT'' defaultProviderTimeout) (\<lambda>provider.
     require (lockTTL > 0 \<and> lockWait > 0 \<and> lockRetry > 0 \<and> provider > 0)
       ''redis refresh lock and provider timeouts must be positive''
     (require (lockTTL > provider) ''REDIS_REFRESH_LOCK_TTL must exceed REDIS_PROVIDER_TIMEOUT''
     (and_then (redis_prefix lib lookup required) (\<lambda>prefix.
      Inr \<lparr>rc_Address = address, rc_Username = username, rc_Password = pass, rc_Database = database, rc_TLS = tls,
          rc_ConnectTimeout = connect, rc_ReadTimeout = readTimeout, rc_WriteTimeout = writeTimeout, rc_PoolSize = poolSize,
          rc_RefreshLockTTL = lockTTL, rc_RefreshLockWait = lockWait, rc_RefreshLockRetry = lockRetry,
          rc_ProviderTimeout = provider, rc_KeyPrefix = prefix\<rparr>)))))))))))))))))"

subsection \<open>Loading\<close>

definition quoted_modes :: string where
  "quoted_modes = [CHR 0x22] @ ''native'' @ [CHR 0x22] @ '' or '' @ [CHR 0x22] @ ''off'' @ [CHR 0x22]"

definition parseAuthMode :: "env_lookup \<Rightarrow> string + AuthMode" where
  "parseAuthMode lookup =
     (case set_value lookup ''AUTH_MODE'' of
        None \<Rightarrow> Inl (''AUTH_MODE must be explicitly set to '' @ quoted_modes)
      | Some raw \<Rightarrow>
          if strings_TrimSpace raw = ''native'' then Inr AuthModeNative
          else if strings_TrimSpace raw = ''off'' then Inr AuthModeOff
          else Inl (''AUTH_MODE must be '' @ quoted_modes))"

text \<open>The session options and the allowed origins; \<open>mode\<close> gives the default of the Secure flag.\<close>

definition parseCommonAuthOptions :: "config_lib \<Rightarrow> env_lookup \<Rightarrow> AuthMode \<Rightarrow> string + SessionConfig \<times> string list" where
  "parseCommonAuthOptions lib lookup mode =
     and_then (durationOption lib lookup ''SESSION_ABSOLUTE_LIFETIME'' defaultAbsoluteLifetime) (\<lambda>absolute.
     and_then (durationOption lib lookup ''SESSION_IDLE_LIFETIME'' defaultIdleLifetime) (\<lambda>idle.
     require (absolute > 0 \<and> idle > 0) ''session lifetimes must be positive''
     (require (idle \<le> absolute) ''SESSION_IDLE_LIFETIME cannot exceed SESSION_ABSOLUTE_LIFETIME''
     (and_then (option_or lookup ''COOKIE_SECURE'' (mode = AuthModeNative) (boolOption ''COOKIE_SECURE'')) (\<lambda>secure.
     and_then (option_or lookup ''COOKIE_SAME_SITE'' SameSiteLax (sameSiteOption lib)) (\<lambda>sameSite.
     and_then (parseOrigins lib (case lookup ''CORS_ALLOWED_ORIGINS'' of None \<Rightarrow> [] | Some raw \<Rightarrow> raw)) (\<lambda>origins.
     require (\<not> (sameSite = SameSiteNone \<and> \<not> secure)) ''COOKIE_SAME_SITE=none requires COOKIE_SECURE=true''
     (require (\<not> (sameSite = SameSiteNone \<and> origins = [])) ''COOKIE_SAME_SITE=none requires CORS_ALLOWED_ORIGINS''
     (Inr (\<lparr>sc_CookieName = defaultSessionCookieName, sc_AbsoluteLifetime = absolute, sc_IdleLifetime = idle,
            sc_Secure = secure, sc_SameSite = sameSite\<rparr>, origins))))))))))"

definition ca_file :: "config_lib \<Rightarrow> env_lookup \<Rightarrow> string + string" where
  "ca_file lib lookup =
     option_or lookup ''OIDC_CA_FILE'' [] (\<lambda>raw.
       require (cl_regular_file lib (strings_TrimSpace raw)) ''OIDC_CA_FILE is unavailable'' (Inr (strings_TrimSpace raw)))"

definition groups_claim :: "config_lib \<Rightarrow> env_lookup \<Rightarrow> string + string" where
  "groups_claim lib lookup =
     option_or lookup ''OIDC_GROUPS_CLAIM'' defaultGroupsClaim (\<lambda>raw.
       require (validClaimPath lib (strings_TrimSpace raw)) ''OIDC_GROUPS_CLAIM has invalid syntax'' (Inr (strings_TrimSpace raw)))"

text \<open>A URL without query and fragment, required in native mode.\<close>

definition plain_url :: "config_lib \<Rightarrow> env_lookup \<Rightarrow> string \<Rightarrow> string + parsed_url" where
  "plain_url lib lookup key =
     and_then (requiredValue lookup key) (\<lambda>raw.
     and_then (validateWebURL lib key raw False) (\<lambda>u.
     require (RawQuery u = [] \<and> Fragment u = []) (key @ '' must not contain a query or fragment'') (Inr u)))"

definition parseNativeOptions ::
  "config_lib \<Rightarrow> env_lookup \<Rightarrow> SessionConfig \<Rightarrow> string + OIDCConfig \<times> string" where
  "parseNativeOptions lib lookup session =
     and_then (plain_url lib lookup ''OIDC_ISSUER_URL'') (\<lambda>issuerURL.
     and_then (ca_file lib lookup) (\<lambda>caFile.
     and_then (requiredValue lookup ''OIDC_CLIENT_ID'') (\<lambda>clientID.
     and_then (requiredSecret lookup ''OIDC_CLIENT_SECRET'') (\<lambda>clientSecret.
     and_then (plain_url lib lookup ''OIDC_REDIRECT_URL'') (\<lambda>redirectURL.
     and_then (requiredValue lookup ''PUBLIC_BASE_URL'') (\<lambda>publicBase.
     and_then (validateResourceOrigin lib ''PUBLIC_BASE_URL'' publicBase) (\<lambda>publicBaseURL.
     require (sameOrigin lib publicBaseURL redirectURL) ''OIDC_REDIRECT_URL must use the PUBLIC_BASE_URL origin''
     (require (sc_Secure session) ''native mode requires COOKIE_SECURE=true''
     (require (sc_SameSite session \<noteq> SameSiteStrict) ''native mode does not support COOKIE_SAME_SITE=strict because the OIDC callback is cross-site''
     (and_then (groups_claim lib lookup) (\<lambda>claim.
     and_then (option_or lookup ''OIDC_SCOPES'' [''openid'', ''profile'', ''offline_access''] (parseScopes lib)) (\<lambda>scopes.
     require (''openid'' \<in> set scopes) ''OIDC_SCOPES must include openid''
     (and_then (requiredValue lookup ''AUTHZ_POLICY_FILE'') (\<lambda>policyFile.
      Inr (\<lparr>oc_IssuerURL = cl_url_String lib issuerURL, oc_ClientID = clientID, oc_ClientSecret = clientSecret,
           oc_CAFile = caFile, oc_RedirectURL = cl_url_String lib redirectURL,
           oc_PublicBaseURL = canonicalOrigin lib publicBaseURL, oc_Scopes = scopes, oc_GroupsClaim = claim\<rparr>,
           policyFile)))))))))))))))"

definition csrf_secret :: "env_lookup \<Rightarrow> AuthMode \<Rightarrow> string + string" where
  "csrf_secret lookup mode =
     (if mode = AuthModeNative then
        and_then (requiredSecret lookup ''CSRF_SECRET'') (\<lambda>secret.
        require (minSecretLength \<le> length secret) ''CSRF_SECRET must be at least 32 bytes'' (Inr secret))
      else Inr [])"

definition off_OIDC :: OIDCConfig where
  "off_OIDC = \<lparr>oc_IssuerURL = [], oc_ClientID = [], oc_ClientSecret = [], oc_CAFile = [], oc_RedirectURL = [],
     oc_PublicBaseURL = [], oc_Scopes = [''openid'', ''profile'', ''offline_access''], oc_GroupsClaim = defaultGroupsClaim\<rparr>"

definition LoadAuth :: "config_lib \<Rightarrow> env_lookup \<Rightarrow> string + AuthConfig" where
  "LoadAuth lib lookup =
     and_then (parseAuthMode lookup) (\<lambda>mode.
     and_then (csrf_secret lookup mode) (\<lambda>csrfSecret.
     and_then (parseCommonAuthOptions lib lookup mode) (\<lambda>(session, origins).
     and_then (parseRedisOptions lib lookup (mode = AuthModeNative)) (\<lambda>redis.
     and_then (if mode = AuthModeNative then parseNativeOptions lib lookup session else Inr (off_OIDC, [])) (\<lambda>(oidc, policyFile).
      Inr \<lparr>ac_Mode = mode, ac_OIDC = oidc, ac_Session = session, ac_Redis = redis, ac_CSRFSecret = csrfSecret,
           ac_AllowedOrigins = origins, ac_PolicyFile = policyFile\<rparr>)))))"

definition LoadMCPEnabled :: "env_lookup \<Rightarrow> string + bool" where
  "LoadMCPEnabled lookup =
     (case lookup ''MCP_ENABLED'' of
        None \<Rightarrow> Inr False
      | Some raw \<Rightarrow> if raw = [] then Inl ''MCP_ENABLED must be true or false'' else boolOption ''MCP_ENABLED'' raw)"

definition RejectMCPGoDebug :: "env_lookup \<Rightarrow> string option" where
  "RejectMCPGoDebug lookup =
     (case lookup ''MCPGODEBUG'' of
        None \<Rightarrow> None
      | Some raw \<Rightarrow> if raw \<noteq> [] then Some ''MCPGODEBUG must be unset or empty'' else None)"

record ProofsConfig =
  pc_Enabled :: bool
  pc_KeyringFile :: string
  pc_Issuer :: string

definition LoadProofs :: "config_lib \<Rightarrow> env_lookup \<Rightarrow> string + ProofsConfig" where
  "LoadProofs lib lookup =
     and_then (option_or lookup ''PROOFS_ENABLED'' False (boolOption ''PROOFS_ENABLED'')) (\<lambda>enabled.
     if \<not> enabled then Inr \<lparr>pc_Enabled = False, pc_KeyringFile = [], pc_Issuer = []\<rparr>
     else and_then (requiredValue lookup ''PROOFS_KEYRING_FILE'') (\<lambda>keyringFile.
     and_then (requiredValue lookup ''PUBLIC_BASE_URL'') (\<lambda>publicBase.
     (case validateResourceOrigin lib ''PUBLIC_BASE_URL'' publicBase of
        Inl err \<Rightarrow> Inl (''proofs require a valid PUBLIC_BASE_URL: '' @ err)
      | Inr origin \<Rightarrow>
          Inr \<lparr>pc_Enabled = True, pc_KeyringFile = keyringFile, pc_Issuer = canonicalOrigin lib origin\<rparr>))))"

section \<open>Lemmas\<close>

lemma and_then_Inr [simp]: "and_then r f = Inr y \<longleftrightarrow> (\<exists>x. r = Inr x \<and> f x = Inr y)"
  by (cases r) (simp_all add: and_then_def)

lemma require_Inr [simp]: "require c err rest = Inr y \<longleftrightarrow> c \<and> rest = Inr y"
  by (simp add: require_def)

text \<open>A rune of two bytes or more has no ASCII byte, so an ASCII byte of a string is one of its runes.\<close>

lemma long_rune_bytes:
  assumes "2 \<le> rune_size s" "c \<in> set (take (rune_size s) s)"
  shows "0x80 \<le> (of_char c :: nat)"
  using assms
  by (cases s; cases "tl s"; cases "tl (tl s)"; cases "tl (tl (tl s))")
    (auto simp: rune_size_def Let_def utf8_second_def utf8_cont_def split: if_splits)

lemma ascii_byte_rune:
  "c \<in> set s \<Longrightarrow> (of_char c :: nat) < 0x80 \<Longrightarrow> of_char c \<in> set (runes s)"
proof (induction s rule: runes.induct)
  case (2 a s)
  let ?n = "rune_size (a # s)"
  consider "?n = 0" | "?n = 1" | "2 \<le> ?n" by linarith
  then show ?case
  proof cases
    case 1
    then have "\<not> (of_char a :: nat) < 0x80" using rune_size_one [of a s] by auto
    then show ?thesis using 1 2 by (auto simp: Let_def)
  next
    case n1: 2
    then show ?thesis using 2 by (auto simp: Let_def rune_value_def)
  next
    case 3
    then have "c \<notin> set (take ?n (a # s))" using long_rune_bytes [OF 3, of c] 2(4) by auto
    then have "c \<in> set (drop ?n (a # s))" using 2(3) by (metis UnE append_take_drop_id set_append)
    then show ?thesis using 2(2) [OF refl] 2(4) 3 by (auto simp: Let_def)
  qed
qed simp

lemma validRedisPrefix_plain:
  assumes "validRedisPrefix lib prefix" "\<not> cl_IsLetter lib 0" "\<not> cl_IsDigit lib 0"
  shows "CHR 0x00 \<notin> set prefix" "prefix \<noteq> []"
proof -
  have "0 \<notin> set (runes prefix)"
    using assms by (auto simp: validRedisPrefix_def prefix_rune_def list_all_iff split: if_splits)
  then show "CHR 0x00 \<notin> set prefix" using ascii_byte_rune [of "CHR 0x00" prefix] by auto
  show "prefix \<noteq> []" using assms(1) by (auto simp: validRedisPrefix_def)
qed

lemma no_repeat_distinct: "no_repeat ss seen \<longleftrightarrow> distinct ss \<and> set ss \<inter> seen = {}"
  by (induction ss arbitrary: seen) auto

lemma validateWebURL_Inr:
  "validateWebURL lib key raw loopback = Inr u \<longleftrightarrow>
     cl_url_Parse lib raw = Some u \<and> Scheme u \<noteq> [] \<and> Host u \<noteq> [] \<and> \<not> has_User u \<and>
     (cl_ToLower lib (Scheme u) = ''https'' \<or>
      loopback \<and> cl_ToLower lib (Scheme u) = ''http'' \<and> isLoopbackHost lib (Hostname u))"
  by (auto simp: validateWebURL_def Let_def split: option.splits if_splits)

lemma requiredValue_Inr: "requiredValue lookup key = Inr v \<Longrightarrow> v \<noteq> []"
  by (auto simp: requiredValue_def set_value_def split: option.splits if_splits)

text \<open>Origins are accepted once each.\<close>

definition origin_ok :: "config_lib \<Rightarrow> string \<Rightarrow> bool" where
  "origin_ok lib origin \<longleftrightarrow>
     (\<exists>raw u. validateWebURL lib ''CORS_ALLOWED_ORIGINS'' raw True = Inr u \<and> origin = canonicalOrigin lib u \<and>
        url_Path u = [] \<and> RawQuery u = [] \<and> Fragment u = [])"

lemma parse_origin_parts_Inr:
  "parse_origin_parts lib parts origins = Inr result \<Longrightarrow> distinct origins \<Longrightarrow> list_all (origin_ok lib) origins \<Longrightarrow>
     distinct result \<and> list_all (origin_ok lib) result \<and> length result = length origins + length parts"
proof (induction lib parts origins rule: parse_origin_parts.induct)
  case (2 lib part parts origins)
  obtain u where u: "validateWebURL lib ''CORS_ALLOWED_ORIGINS'' (strings_TrimSpace part) True = Inr u"
      "url_Path u = []" "RawQuery u = []" "Fragment u = []" "canonicalOrigin lib u \<notin> set origins"
      "parse_origin_parts lib parts (origins @ [canonicalOrigin lib u]) = Inr result"
      "\<not> (strings_TrimSpace part = [] \<or> strings_TrimSpace part = ''*'')"
    using 2(2) by (auto simp: Let_def split: if_splits sum.splits)
  have "origin_ok lib (canonicalOrigin lib u)" using u(1-4) unfolding origin_ok_def by blast
  then show ?case
    using 2(1) [OF refl u(7,1) _ refl _ u(6)] u(2-5) 2(3,4) by simp
qed simp

lemma parseOrigins_Inr:
  assumes "parseOrigins lib raw = Inr origins"
  shows "distinct origins \<and> list_all (origin_ok lib) origins"
  using assms parse_origin_parts_Inr [of lib _ "[]" origins] by (auto simp: parseOrigins_def split: if_splits)

lemma redis_prefix_Inr: "redis_prefix lib lookup required = Inr p \<Longrightarrow> required \<Longrightarrow> validRedisPrefix lib p"
  by (auto simp: redis_prefix_def split: option.splits)

lemma TrimSpace_Nil [simp]: "strings_TrimSpace [] = []"
  by code_simp

lemma redis_address_Inr: "redis_address lib lookup required = Inr a \<Longrightarrow> required \<Longrightarrow> validRedisAddress lib a \<and> a \<noteq> []"
  by (auto simp: redis_address_def set_value_def split: option.splits if_splits)

lemma int_at_least_Inr:
  "option_or lookup key fallback (int_at_least key least message) = Inr n \<Longrightarrow> least \<le> fallback \<Longrightarrow> least \<le> n"
  by (auto simp: option_or_def int_at_least_def split: option.splits sum.splits if_splits)

definition redis_config_ok :: "config_lib \<Rightarrow> bool \<Rightarrow> RedisConfig \<Rightarrow> bool" where
  "redis_config_ok lib required cfg \<longleftrightarrow>
     0 < rc_ProviderTimeout cfg \<and> rc_ProviderTimeout cfg < rc_RefreshLockTTL cfg \<and> 0 < rc_RefreshLockWait cfg \<and>
     0 < rc_RefreshLockRetry cfg \<and> 0 < rc_ConnectTimeout cfg \<and> 0 < rc_ReadTimeout cfg \<and> 0 < rc_WriteTimeout cfg \<and>
     0 < rc_PoolSize cfg \<and> 0 \<le> rc_Database cfg \<and>
     (required \<longrightarrow> validRedisPrefix lib (rc_KeyPrefix cfg) \<and> validRedisAddress lib (rc_Address cfg) \<and> rc_Address cfg \<noteq> []) \<and>
     (rc_Username cfg \<noteq> [] \<longrightarrow> rc_Password cfg \<noteq> [])"

lemma parseRedisOptions_Inr:
  assumes "parseRedisOptions lib lookup required = Inr cfg"
  shows "redis_config_ok lib required cfg"
  using assms unfolding parseRedisOptions_def Let_def and_then_Inr require_Inr sum.inject
  apply (elim exE conjE)
  subgoal premises p for address database tls connect readTimeout writeTimeout poolSize lockTTL lockWait lockRetry provider prefix
  proof -
    have n: "\<not> ((case lookup ''REDIS_USERNAME'' of None \<Rightarrow> [] | Some v \<Rightarrow> v) \<noteq> [] \<and>
        (case lookup ''REDIS_PASSWORD'' of None \<Rightarrow> [] | Some v \<Rightarrow> v) = [])"
      "connect > 0" "readTimeout > 0" "writeTimeout > 0" "lockTTL > 0" "lockWait > 0" "lockRetry > 0" "provider > 0" "lockTTL > provider"
      by (rule p)+
    have "redis_address lib lookup required = Inr address" "redis_prefix lib lookup required = Inr prefix"
      "option_or lookup ''REDIS_DB'' 0 (int_at_least ''REDIS_DB'' 0 ''REDIS_DB must be a non-negative integer'') = Inr database"
      "option_or lookup ''REDIS_POOL_SIZE'' defaultRedisPoolSize
         (int_at_least ''REDIS_POOL_SIZE'' 1 ''REDIS_POOL_SIZE must be a positive integer'') = Inr poolSize"
      by (rule p)+
    note q = redis_address_Inr [OF this(1)] redis_prefix_Inr [OF this(2)] int_at_least_Inr [OF this(3)] int_at_least_Inr [OF this(4)]
    have "cfg = \<lparr>rc_Address = address, rc_Username = (case lookup ''REDIS_USERNAME'' of None \<Rightarrow> [] | Some v \<Rightarrow> v),
          rc_Password = (case lookup ''REDIS_PASSWORD'' of None \<Rightarrow> [] | Some v \<Rightarrow> v), rc_Database = database, rc_TLS = tls,
          rc_ConnectTimeout = connect, rc_ReadTimeout = readTimeout, rc_WriteTimeout = writeTimeout, rc_PoolSize = poolSize,
          rc_RefreshLockTTL = lockTTL, rc_RefreshLockWait = lockWait, rc_RefreshLockRetry = lockRetry,
          rc_ProviderTimeout = provider, rc_KeyPrefix = prefix\<rparr>"
      by (rule sym) (rule p)
    then show ?thesis using n q unfolding redis_config_ok_def by (simp add: defaultRedisPoolSize_def) blast
  qed
  done

lemma parseCommon_Inr:
  assumes "parseCommonAuthOptions lib lookup mode = Inr (session, origins)"
  shows "0 < sc_IdleLifetime session \<and> sc_IdleLifetime session \<le> sc_AbsoluteLifetime session \<and>
    (sc_SameSite session = SameSiteNone \<longrightarrow> sc_Secure session \<and> origins \<noteq> []) \<and>
    distinct origins \<and> list_all (origin_ok lib) origins"
  using assms parseOrigins_Inr unfolding parseCommonAuthOptions_def by auto

text \<open>An HTTPS address without credentials, query and fragment.\<close>

definition plain_https :: "config_lib \<Rightarrow> parsed_url \<Rightarrow> bool" where
  "plain_https lib u \<longleftrightarrow>
     cl_ToLower lib (Scheme u) = ''https'' \<and> Host u \<noteq> [] \<and> \<not> has_User u \<and> RawQuery u = [] \<and> Fragment u = []"

lemma plain_url_Inr: "plain_url lib lookup key = Inr u \<Longrightarrow> plain_https lib u"
  by (auto simp: plain_url_def validateWebURL_Inr plain_https_def)

lemma resource_origin_Inr:
  "validateResourceOrigin lib key raw = Inr u \<Longrightarrow> plain_https lib u \<and> (url_Path u = [] \<or> url_Path u = ''/'')"
  by (auto simp: validateResourceOrigin_def validateWebURL_Inr plain_https_def)

definition oidc_config_ok :: "config_lib \<Rightarrow> OIDCConfig \<Rightarrow> bool" where
  "oidc_config_ok lib oidc \<longleftrightarrow>
     oc_ClientID oidc \<noteq> [] \<and> oc_ClientSecret oidc \<noteq> [] \<and> ''openid'' \<in> set (oc_Scopes oidc) \<and> distinct (oc_Scopes oidc) \<and>
     (\<exists>iss redirect base. plain_https lib iss \<and> plain_https lib redirect \<and> plain_https lib base \<and>
        (url_Path base = [] \<or> url_Path base = ''/'') \<and> sameOrigin lib base redirect \<and>
        oc_IssuerURL oidc = cl_url_String lib iss \<and> oc_RedirectURL oidc = cl_url_String lib redirect \<and>
        oc_PublicBaseURL oidc = canonicalOrigin lib base)"

lemma requiredSecret_Inr: "requiredSecret lookup key = Inr v \<Longrightarrow> v \<noteq> []"
  by (auto simp: requiredSecret_def split: option.splits if_splits)

lemma scopes_distinct:
  "option_or lookup key [''openid'', ''profile'', ''offline_access''] (parseScopes lib) = Inr scopes \<Longrightarrow> distinct scopes"
  by (auto simp: option_or_def parseScopes_def Let_def no_repeat_distinct split: option.splits if_splits)

lemma parseNativeOptions_Inr:
  assumes "parseNativeOptions lib lookup session = Inr (oidc, policyFile)"
  shows "oidc_config_ok lib oidc \<and> sc_Secure session \<and> sc_SameSite session \<noteq> SameSiteStrict \<and> policyFile \<noteq> []"
  using assms unfolding parseNativeOptions_def and_then_Inr require_Inr sum.inject prod.inject
  apply (elim exE conjE)
  subgoal premises p for issuerURL caFile clientID clientSecret redirectURL publicBase publicBaseURL claim scopes policy
  proof -
    have n: "sameOrigin lib publicBaseURL redirectURL" "sc_Secure session" "sc_SameSite session \<noteq> SameSiteStrict" "''openid'' \<in> set scopes"
      by (rule p)+
    have "plain_url lib lookup ''OIDC_ISSUER_URL'' = Inr issuerURL" "plain_url lib lookup ''OIDC_REDIRECT_URL'' = Inr redirectURL"
      "validateResourceOrigin lib ''PUBLIC_BASE_URL'' publicBase = Inr publicBaseURL" "requiredValue lookup ''OIDC_CLIENT_ID'' = Inr clientID"
      "requiredSecret lookup ''OIDC_CLIENT_SECRET'' = Inr clientSecret" "requiredValue lookup ''AUTHZ_POLICY_FILE'' = Inr policy"
      "option_or lookup ''OIDC_SCOPES'' [''openid'', ''profile'', ''offline_access''] (parseScopes lib) = Inr scopes"
      by (rule p)+
    note q = plain_url_Inr [OF this(1)] plain_url_Inr [OF this(2)] resource_origin_Inr [OF this(3)] requiredValue_Inr [OF this(4)]
      requiredSecret_Inr [OF this(5)] requiredValue_Inr [OF this(6)] scopes_distinct [OF this(7)]
    have "oidc = \<lparr>oc_IssuerURL = cl_url_String lib issuerURL, oc_ClientID = clientID, oc_ClientSecret = clientSecret,
           oc_CAFile = caFile, oc_RedirectURL = cl_url_String lib redirectURL,
           oc_PublicBaseURL = canonicalOrigin lib publicBaseURL, oc_Scopes = scopes, oc_GroupsClaim = claim\<rparr>" "policyFile = policy"
      by (rule sym, rule p)+
    then show ?thesis using n q unfolding oidc_config_ok_def by (simp, blast)
  qed
  done

text \<open>The parts a native configuration is made of.\<close>

lemma native_parts:
  assumes "LoadAuth lib lookup = Inr cfg" "ac_Mode cfg = AuthModeNative"
  obtains secret session origins redis oidc pol where
    "csrf_secret lookup AuthModeNative = Inr secret" "parseCommonAuthOptions lib lookup AuthModeNative = Inr (session, origins)"
    "parseRedisOptions lib lookup True = Inr redis" "parseNativeOptions lib lookup session = Inr (oidc, pol)"
    "cfg = \<lparr>ac_Mode = AuthModeNative, ac_OIDC = oidc, ac_Session = session, ac_Redis = redis, ac_CSRFSecret = secret,
         ac_AllowedOrigins = origins, ac_PolicyFile = pol\<rparr>"
  using assms by (auto simp: LoadAuth_def split: if_splits prod.splits)

section \<open>Properties\<close>

text \<open>What a native configuration that loads guarantees: a CSRF secret of at least 32 bytes; secure
  cookies that are not \<open>SameSite=Strict\<close>, and allowed origins when they are \<open>SameSite=None\<close>; an idle
  lifetime within the absolute one; a refresh lock that outlives a provider call, positive timeouts, a
  safe key prefix and a credential-free address for Redis; a client, the scope \<open>openid\<close>, a policy
  file; an issuer, a redirect address and a public origin over HTTPS without credentials, query or
  fragment, the redirect on the public origin; and distinct allowed origins.\<close>

lemma loaded_native_config:
  assumes "LoadAuth lib lookup = Inr cfg" "ac_Mode cfg = AuthModeNative"
  shows "32 \<le> length (ac_CSRFSecret cfg) \<and>
    sc_Secure (ac_Session cfg) \<and> sc_SameSite (ac_Session cfg) \<noteq> SameSiteStrict \<and>
    (sc_SameSite (ac_Session cfg) = SameSiteNone \<longrightarrow> ac_AllowedOrigins cfg \<noteq> []) \<and>
    0 < sc_IdleLifetime (ac_Session cfg) \<and> sc_IdleLifetime (ac_Session cfg) \<le> sc_AbsoluteLifetime (ac_Session cfg) \<and>
    redis_config_ok lib True (ac_Redis cfg) \<and> oidc_config_ok lib (ac_OIDC cfg) \<and> ac_PolicyFile cfg \<noteq> [] \<and>
    distinct (ac_AllowedOrigins cfg) \<and> list_all (origin_ok lib) (ac_AllowedOrigins cfg)"
proof -
  obtain secret session origins redis oidc pol where
    l: "csrf_secret lookup AuthModeNative = Inr secret" "parseCommonAuthOptions lib lookup AuthModeNative = Inr (session, origins)"
      "parseRedisOptions lib lookup True = Inr redis" "parseNativeOptions lib lookup session = Inr (oidc, pol)"
      "cfg = \<lparr>ac_Mode = AuthModeNative, ac_OIDC = oidc, ac_Session = session, ac_Redis = redis, ac_CSRFSecret = secret,
           ac_AllowedOrigins = origins, ac_PolicyFile = pol\<rparr>"
    using assms by (rule native_parts)
  have "32 \<le> length secret" using l(1) by (auto simp: csrf_secret_def minSecretLength_def)
  then show ?thesis
    using parseCommon_Inr [OF l(2)] parseRedisOptions_Inr [OF l(3)] parseNativeOptions_Inr [OF l(4)] unfolding l(5) by simp
qed

section \<open>A small environment\<close>

definition demo_config_lib :: config_lib where
  "demo_config_lib = \<lparr>cl_url_Parse = (\<lambda>u. if u = ''https://vault.example'' then Some demo_url else None),
     cl_url_String = (\<lambda>_. ''https://vault.example''), cl_ParseDuration = (\<lambda>_. None), cl_is_ip6 = (\<lambda>_. False),
     cl_SplitHostPort = (\<lambda>_. Some (''redis'', ''6379'')), cl_regular_file = (\<lambda>_. False), cl_ToLower = (\<lambda>s. s),
     cl_EqualFold = (\<lambda>a b. a = b), cl_Fields = (\<lambda>s. [s]), cl_IsLetter = (\<lambda>r. 97 \<le> r \<and> r \<le> 122),
     cl_IsDigit = (\<lambda>r. 48 \<le> r \<and> r \<le> 57), cl_IsSpace = (\<lambda>r. r = 32)\<rparr>"

definition demo_env :: env_lookup where
  "demo_env = map_of [(''AUTH_MODE'', ''native''), (''CSRF_SECRET'', replicate 32 (CHR ''s'')), (''REDIS_ADDR'', ''redis:6379''),
     (''REDIS_KEY_PREFIX'', ''v:''), (''OIDC_ISSUER_URL'', ''https://vault.example''), (''OIDC_CLIENT_ID'', ''c''),
     (''OIDC_CLIENT_SECRET'', ''s''), (''OIDC_REDIRECT_URL'', ''https://vault.example''),
     (''PUBLIC_BASE_URL'', ''https://vault.example''), (''AUTHZ_POLICY_FILE'', ''p.csv'')]"

lemma demo_loads: "case LoadAuth demo_config_lib demo_env of Inl _ \<Rightarrow> False | Inr cfg \<Rightarrow> ac_Mode cfg = AuthModeNative"
  by code_simp

end
