(* ===== verification/Principals.thy ===== *)
theory Principals
  imports Session_Store Auth_Config
begin

text \<open>
  Principals in sessions and in ID tokens, \<open>backend/internal/authn/principal.go\<close>.

  The session manager is the third-party package scs. It is the parameter \<open>scs\<close>: reading and
  writing the values of a session \<open>'s\<close> in memory, and loading, committing, destroying and renewing
  it with the operations of a store on a database \<open>'d\<close>. \<open>scs_ok\<close> states what its documentation
  promises. A time is a number of nanoseconds since the zero time. The claims of an ID token are a
  decoded JSON object; a Go map has each of its keys once.
\<close>

section \<open>Definitions\<close>

subsection \<open>The session manager\<close>

datatype session_status = Unmodified | Modified | Destroyed

text \<open>The store operations that \<open>Commit\<close>, \<open>Destroy\<close> and \<open>RenewToken\<close> use are their first arguments; they
  take the token under which the store keeps the session.\<close>

record ('s, 'd) scs =
  sm_Get :: "'s \<Rightarrow> string \<Rightarrow> session_value option"
  sm_Put :: "'s \<Rightarrow> string \<Rightarrow> session_value \<Rightarrow> 's"
  sm_Remove :: "'s \<Rightarrow> string \<Rightarrow> 's"
  sm_Token :: "'s \<Rightarrow> string"
  sm_Deadline :: "'s \<Rightarrow> int"
  sm_SetDeadline :: "'s \<Rightarrow> int \<Rightarrow> 's"
  sm_Status :: "'s \<Rightarrow> session_status"
  sm_Load :: "nat \<Rightarrow> 'd \<Rightarrow> string \<Rightarrow> 's option"
  sm_Commit :: "(string \<Rightarrow> string \<Rightarrow> int \<Rightarrow> 'd \<Rightarrow> store_error option \<times> 'd) \<Rightarrow> nat \<Rightarrow> 's \<Rightarrow> 'd \<Rightarrow> (string \<times> int) option \<times> 's \<times> 'd"
  sm_Destroy :: "(string \<Rightarrow> 'd \<Rightarrow> store_error option \<times> 'd) \<Rightarrow> nat \<Rightarrow> 's \<Rightarrow> 'd \<Rightarrow> bool \<times> 's \<times> 'd"
  sm_RenewToken :: "(string \<Rightarrow> 'd \<Rightarrow> store_error option \<times> 'd) \<Rightarrow> nat \<Rightarrow> 's \<Rightarrow> 'd \<Rightarrow> bool \<times> 's \<times> 'd"

text \<open>A session reads back what was put into it, whatever happens to its token and its deadline; \<open>Put\<close>
  and \<open>Remove\<close> leave token and deadline alone; a successful \<open>Destroy\<close> or \<open>RenewToken\<close> of a stored
  session had the store delete it under the hash of its token, and \<open>RenewToken\<close> and \<open>Commit\<close> keep the values.\<close>

definition scs_ok :: "(string \<Rightarrow> string) \<Rightarrow> ('s, 'd) scs \<Rightarrow> bool" where
  "scs_ok hash m \<longleftrightarrow>
     (\<forall>s k v k'. sm_Get m (sm_Put m s k v) k' = (if k' = k then Some v else sm_Get m s k')) \<and>
     (\<forall>s k k'. sm_Get m (sm_Remove m s k) k' = (if k' = k then None else sm_Get m s k')) \<and>
     (\<forall>s d k. sm_Get m (sm_SetDeadline m s d) k = sm_Get m s k) \<and>
     (\<forall>s d. sm_Deadline m (sm_SetDeadline m s d) = d) \<and>
     (\<forall>s d. sm_Token m (sm_SetDeadline m s d) = sm_Token m s) \<and>
     (\<forall>s k v. sm_Token m (sm_Put m s k v) = sm_Token m s \<and> sm_Deadline m (sm_Put m s k v) = sm_Deadline m s) \<and>
     (\<forall>s k. sm_Token m (sm_Remove m s k) = sm_Token m s \<and> sm_Deadline m (sm_Remove m s k) = sm_Deadline m s) \<and>
     (\<forall>del t s db s' db'. sm_Token m s \<noteq> [] \<longrightarrow> sm_Destroy m del t s db = (True, s', db') \<longrightarrow> del (hash (sm_Token m s)) db = (None, db')) \<and>
     (\<forall>del t s db s' db'. sm_Token m s \<noteq> [] \<longrightarrow> sm_RenewToken m del t s db = (True, s', db') \<longrightarrow>
        del (hash (sm_Token m s)) db = (None, db')) \<and>
     (\<forall>del t s db s' db' k. sm_RenewToken m del t s db = (True, s', db') \<longrightarrow> sm_Get m s' k = sm_Get m s k) \<and>
     (\<forall>store t s db r s' db' k. sm_Commit m store t s db = (r, s', db') \<longrightarrow> sm_Get m s' k = sm_Get m s k)"

subsection \<open>Principals\<close>

definition sessionIssuerKey :: string where "sessionIssuerKey = ''auth.issuer''"
definition sessionSubjectKey :: string where "sessionSubjectKey = ''auth.subject''"
definition sessionEmailKey :: string where "sessionEmailKey = ''auth.email''"
definition sessionGroupsKey :: string where "sessionGroupsKey = ''auth.groups''"
definition sessionExpiresAtKey :: string where "sessionExpiresAtKey = ''auth.expires_at''"
definition sessionRefreshTokenKey :: string where "sessionRefreshTokenKey = ''auth.refresh_token''"
definition sessionRefreshCheckedKey :: string where "sessionRefreshCheckedKey = ''auth.refresh_checked_at''"
definition sessionBindingKey :: string where "sessionBindingKey = ''auth.binding''"
definition pendingStateKey :: string where "pendingStateKey = ''auth.pending_state''"

lemmas session_keys = sessionIssuerKey_def sessionSubjectKey_def sessionEmailKey_def sessionGroupsKey_def
  sessionExpiresAtKey_def sessionRefreshTokenKey_def sessionRefreshCheckedKey_def sessionBindingKey_def
  pendingStateKey_def sessionFenceKey_def

record Principal =
  pn_Issuer :: string
  pn_Subject :: string
  pn_Email :: string
  pn_Groups :: "string list"
  pn_ExpiresAt :: int

text \<open>\<open>GetString\<close> and \<open>GetTime\<close> return the zero value when there is no value of that type.\<close>

definition GetString :: "('s, 'd) scs \<Rightarrow> 's \<Rightarrow> string \<Rightarrow> string" where
  "GetString m s key = (case sm_Get m s key of Some (SString v) \<Rightarrow> v | _ \<Rightarrow> [])"

definition GetTime :: "('s, 'd) scs \<Rightarrow> 's \<Rightarrow> string \<Rightarrow> int" where
  "GetTime m s key = (case sm_Get m s key of Some (STime v) \<Rightarrow> v | _ \<Rightarrow> 0)"

definition sessionBinding :: "(go_bytes \<Rightarrow> go_bytes) \<Rightarrow> OIDCConfig \<Rightarrow> string" where
  "sessionBinding sha oidc =
     ''v2:'' @ hex_EncodeToString (sha (render marshal_chars
       (JArray [JString (oc_IssuerURL oidc), JString (oc_ClientID oidc), JString (oc_PublicBaseURL oidc)])))"

definition StorePrincipal ::
  "('s, 'd) scs \<Rightarrow> (go_bytes \<Rightarrow> go_bytes) \<Rightarrow> 's \<Rightarrow> Principal \<Rightarrow> string \<Rightarrow> OIDCConfig \<Rightarrow> 's" where
  "StorePrincipal m sha s p refreshToken oidc =
     (let s1 = sm_Put m s sessionBindingKey (SString (sessionBinding sha oidc));
          s2 = sm_Put m s1 sessionIssuerKey (SString (pn_Issuer p));
          s3 = sm_Put m s2 sessionSubjectKey (SString (pn_Subject p));
          s4 = sm_Put m s3 sessionEmailKey (SString (pn_Email p));
          s5 = sm_Put m s4 sessionGroupsKey (SStrings (pn_Groups p));
          s6 = sm_Put m s5 sessionExpiresAtKey (STime (pn_ExpiresAt p))
      in if refreshToken = [] then sm_Remove m s6 sessionRefreshTokenKey
         else sm_Put m s6 sessionRefreshTokenKey (SString refreshToken))"

definition PrincipalFromSession :: "('s, 'd) scs \<Rightarrow> 's \<Rightarrow> string + Principal option" where
  "PrincipalFromSession m s =
     (let iss = GetString m s sessionIssuerKey; subject = GetString m s sessionSubjectKey in
      if iss = [] \<and> subject = [] then Inr None
      else if iss = [] \<or> subject = [] then Inl ''malformed authentication session''
      else (case sm_Get m s sessionGroupsKey of
        Some (SStrings groups) \<Rightarrow>
          (case sm_Get m s sessionExpiresAtKey of
             Some (STime expiresAt) \<Rightarrow>
               if expiresAt = 0 then Inl ''malformed authentication session expiry''
               else Inr (Some \<lparr>pn_Issuer = iss, pn_Subject = subject, pn_Email = GetString m s sessionEmailKey,
                               pn_Groups = groups, pn_ExpiresAt = expiresAt\<rparr>)
           | _ \<Rightarrow> Inl ''malformed authentication session expiry'')
      | _ \<Rightarrow> Inl ''malformed authentication session groups''))"

definition principalFromBoundSession ::
  "OIDCConfig \<Rightarrow> ('s, 'd) scs \<Rightarrow> (go_bytes \<Rightarrow> go_bytes) \<Rightarrow> 's \<Rightarrow> string + Principal option" where
  "principalFromBoundSession oidc m sha s =
     (case PrincipalFromSession m s of
        Inl err \<Rightarrow> Inl err
      | Inr None \<Rightarrow> Inr None
      | Inr (Some p) \<Rightarrow>
          if sm_Get m s sessionBindingKey = Some (SString (sessionBinding sha oidc)) \<and>
             pn_Issuer p = oc_IssuerURL oidc
          then Inr (Some p) else Inl ''not authenticated'')"

definition RefreshTokenFromSession :: "('s, 'd) scs \<Rightarrow> 's \<Rightarrow> string" where
  "RefreshTokenFromSession m s = GetString m s sessionRefreshTokenKey"

fun claim_path :: "jsonValue \<Rightarrow> string list \<Rightarrow> jsonValue option" where
  "claim_path current [] = Some current"
| "claim_path current (segment # rest) =
     (case current of
        JObject object \<Rightarrow> (case map_of object segment of None \<Rightarrow> None | Some v \<Rightarrow> claim_path v rest)
      | _ \<Rightarrow> None)"

definition claimPathValue :: "(string \<times> jsonValue) list \<Rightarrow> string \<Rightarrow> jsonValue option" where
  "claimPathValue claims path_arg = claim_path (JObject claims) (strings_Split path_arg (CHR ''.''))"

fun string_items :: "jsonValue list \<Rightarrow> string list option" where
  "string_items [] = Some []"
| "string_items (JString g # vs) =
     (if strings_TrimSpace g = [] then None else map_option (\<lambda>gs. g # gs) (string_items vs))"
| "string_items (_ # vs) = None"

definition strictStringArray :: "jsonValue \<Rightarrow> string list option" where
  "strictStringArray v = (case v of JArray vs \<Rightarrow> string_items vs | _ \<Rightarrow> None)"

definition principalFromClaims ::
  "string \<Rightarrow> (string \<times> jsonValue) list \<Rightarrow> string \<Rightarrow> int \<Rightarrow> string + Principal" where
  "principalFromClaims iss claims groupsClaim expiresAt =
     (if strings_TrimSpace iss = [] then Inl ''issuer claim is required''
      else (case map_of claims ''sub'' of
        Some (JString subject) \<Rightarrow>
          if strings_TrimSpace subject = [] then Inl ''subject claim is required''
          else (case (case claimPathValue claims groupsClaim of None \<Rightarrow> Some [] | Some v \<Rightarrow> strictStringArray v) of
            None \<Rightarrow> Inl ''groups claim must be a string array''
          | Some groups \<Rightarrow>
              let email = (case map_of claims ''email'' of Some (JString e) \<Rightarrow> e | _ \<Rightarrow> []);
                  verified = (map_of claims ''email_verified'' = Some (JBoolean True))
              in Inr \<lparr>pn_Issuer = iss, pn_Subject = subject, pn_Email = (if verified then email else []),
                      pn_Groups = groups, pn_ExpiresAt = expiresAt\<rparr>)
      | _ \<Rightarrow> Inl ''subject claim is required''))"


subsection \<open>The session cookie\<close>

record SessionCookie =
  ck_Name :: string
  ck_Domain :: string
  ck_HttpOnly :: bool
  ck_Path :: string
  ck_SameSite :: SameSite
  ck_Secure :: bool
  ck_Persist :: bool

record session_settings =
  ss_store :: fencedSessionStore
  ss_Lifetime :: int
  ss_IdleTimeout :: int
  ss_HashTokenInStore :: bool
  ss_Cookie :: SessionCookie

text \<open>\<open>NewSessionManager\<close> on a fenced store: \<open>codec\<close> is the codec a new manager has.\<close>

definition NewSessionManager :: "session_codec \<Rightarrow> fencedSessionStore \<Rightarrow> SessionConfig \<Rightarrow> session_settings" where
  "NewSessionManager codec store cfg =
     \<lparr>ss_store = store\<lparr>fs_codec := codec, fs_hashTokens := True\<rparr>, ss_Lifetime = sc_AbsoluteLifetime cfg,
      ss_IdleTimeout = sc_IdleLifetime cfg, ss_HashTokenInStore = True,
      ss_Cookie = \<lparr>ck_Name = sc_CookieName cfg, ck_Domain = [], ck_HttpOnly = True, ck_Path = ''/'',
        ck_SameSite = sc_SameSite cfg, ck_Secure = sc_Secure cfg, ck_Persist = True\<rparr>\<rparr>"

text \<open>The checks of \<open>NewRedisRuntime\<close> and the store it builds.\<close>

definition NewRedisRuntime :: "session_codec \<Rightarrow> (go_bytes \<Rightarrow> go_bytes) \<Rightarrow> RedisConfig \<Rightarrow> string + fencedSessionStore" where
  "NewRedisRuntime gob sha cfg =
     require (rc_Address cfg \<noteq> []) ''redis address is required''
     (require (rc_KeyPrefix cfg \<noteq> []) ''redis key prefix is required''
     (require (rc_ProviderTimeout cfg < rc_RefreshLockTTL cfg) ''redis refresh lock TTL must exceed provider timeout''
     (require (rc_RefreshLockWait cfg > 0 \<and> rc_RefreshLockRetry cfg > 0) ''redis refresh lock wait and retry must be positive''
     (Inr \<lparr>fs_prefix = rc_KeyPrefix cfg, fs_hashTokens = False, fs_codec = gob, fs_sha256 = sha\<rparr>))))"

section \<open>Lemmas\<close>

definition binding_json :: "OIDCConfig \<Rightarrow> string" where
  "binding_json oidc =
     render marshal_chars (JArray [JString (oc_IssuerURL oidc), JString (oc_ClientID oidc), JString (oc_PublicBaseURL oidc)])"

definition binding_utf8 :: "OIDCConfig \<Rightarrow> bool" where
  "binding_utf8 oidc \<longleftrightarrow> utf8_valid (oc_IssuerURL oidc) \<and> utf8_valid (oc_ClientID oidc) \<and> utf8_valid (oc_PublicBaseURL oidc)"

lemma binding_json_inj:
  assumes "binding_json a = binding_json b" "binding_utf8 a" "binding_utf8 b"
  shows "oc_IssuerURL a = oc_IssuerURL b \<and> oc_ClientID a = oc_ClientID b \<and> oc_PublicBaseURL a = oc_PublicBaseURL b"
proof -
  have "parseStrictJSON (binding_json x) =
      Some (JArray [JString (oc_IssuerURL x), JString (oc_ClientID x), JString (oc_PublicBaseURL x)])" if "binding_utf8 x" for x
    unfolding binding_json_def using that by (intro marshal.strict_render) (simp add: binding_utf8_def maxAttestationJSONContainerDepth_def)
  from this [OF assms(2)] this [OF assms(3)] show ?thesis using assms(1) by simp
qed

lemma scs_get:
  assumes "scs_ok hash m"
  shows "sm_Get m (sm_Put m s k v) k' = (if k' = k then Some v else sm_Get m s k')"
    "sm_Get m (sm_Remove m s k) k' = (if k' = k then None else sm_Get m s k')"
    "sm_Get m (sm_SetDeadline m s d) k = sm_Get m s k"
  using assms by (simp_all add: scs_ok_def)

lemma stored_values:
  assumes "scs_ok hash m"
  shows "sm_Get m (StorePrincipal m sha s p tok oidc) key =
    (if key = sessionRefreshTokenKey then if tok = [] then None else Some (SString tok)
     else if key = sessionExpiresAtKey then Some (STime (pn_ExpiresAt p))
     else if key = sessionGroupsKey then Some (SStrings (pn_Groups p))
     else if key = sessionEmailKey then Some (SString (pn_Email p))
     else if key = sessionSubjectKey then Some (SString (pn_Subject p))
     else if key = sessionIssuerKey then Some (SString (pn_Issuer p))
     else if key = sessionBindingKey then Some (SString (sessionBinding sha oidc))
     else sm_Get m s key)"
  unfolding StorePrincipal_def Let_def by (simp add: scs_get [OF assms])

text \<open>What a session holds of a principal depends on its values only.\<close>

lemma principal_from_values:
  assumes "\<And>key. key \<in> {sessionBindingKey, sessionIssuerKey, sessionSubjectKey, sessionEmailKey, sessionGroupsKey, sessionExpiresAtKey} \<Longrightarrow>
    sm_Get m s key = sm_Get m s' key"
  shows "principalFromBoundSession oidc m sha s = principalFromBoundSession oidc m sha s'"
proof -
  have "sm_Get m s sessionBindingKey = sm_Get m s' sessionBindingKey" "sm_Get m s sessionIssuerKey = sm_Get m s' sessionIssuerKey"
    "sm_Get m s sessionSubjectKey = sm_Get m s' sessionSubjectKey" "sm_Get m s sessionEmailKey = sm_Get m s' sessionEmailKey"
    "sm_Get m s sessionGroupsKey = sm_Get m s' sessionGroupsKey" "sm_Get m s sessionExpiresAtKey = sm_Get m s' sessionExpiresAtKey"
    by (rule assms, simp)+
  note eqs = this
  show ?thesis unfolding principalFromBoundSession_def PrincipalFromSession_def GetString_def eqs by (rule refl)
qed

lemma stored_principal:
  assumes "scs_ok hash m" "pn_Issuer p \<noteq> []" "pn_Subject p \<noteq> []" "pn_ExpiresAt p \<noteq> 0"
  shows "PrincipalFromSession m (StorePrincipal m sha s p tok oidc) = Inr (Some p)"
  using assms(2-4) unfolding PrincipalFromSession_def GetString_def stored_values [OF assms(1)] by (simp add: session_keys)

lemma session_principal:
  assumes "PrincipalFromSession m s = Inr (Some p)"
  shows "pn_Issuer p \<noteq> []" "pn_Subject p \<noteq> []"
proof -
  have n: "GetString m s sessionIssuerKey \<noteq> []" "GetString m s sessionSubjectKey \<noteq> []"
    using assms unfolding PrincipalFromSession_def Let_def by (auto split: if_splits)
  obtain groups where g: "sm_Get m s sessionGroupsKey = Some (SStrings groups)"
    using assms n unfolding PrincipalFromSession_def Let_def by (auto split: if_splits option.splits session_value.splits)
  obtain e where e: "sm_Get m s sessionExpiresAtKey = Some (STime e)"
    using assms n unfolding PrincipalFromSession_def Let_def g by (auto split: if_splits option.splits session_value.splits)
  show "pn_Issuer p \<noteq> []" "pn_Subject p \<noteq> []"
    using assms n unfolding PrincipalFromSession_def Let_def g e by (auto split: if_splits)
qed

lemma bound_principal:
  assumes "principalFromBoundSession oidc m sha s = Inr (Some p)"
  shows "pn_Issuer p = oc_IssuerURL oidc" "pn_Issuer p \<noteq> []" "pn_Subject p \<noteq> []"
proof -
  have "PrincipalFromSession m s = Inr (Some p) \<and> pn_Issuer p = oc_IssuerURL oidc"
    using assms unfolding principalFromBoundSession_def by (auto split: sum.splits option.splits if_splits)
  then show "pn_Issuer p = oc_IssuerURL oidc" "pn_Issuer p \<noteq> []" "pn_Subject p \<noteq> []"
    using session_principal [of m s p] by auto
qed

lemma claims_principal:
  assumes "principalFromClaims iss claims groupsClaim expiresAt = Inr p"
  shows "pn_Issuer p = iss" "pn_Subject p \<noteq> []" "pn_ExpiresAt p = expiresAt" "map_of claims ''sub'' = Some (JString (pn_Subject p))"
proof -
  obtain subject where s: "map_of claims ''sub'' = Some (JString subject)" "strings_TrimSpace subject \<noteq> []" "strings_TrimSpace iss \<noteq> []"
    using assms unfolding principalFromClaims_def by (auto split: if_splits option.splits jsonValue.splits)
  have "pn_Issuer p = iss \<and> pn_Subject p = subject \<and> pn_ExpiresAt p = expiresAt"
    using assms s(2,3) unfolding principalFromClaims_def s(1) Let_def
    by (cases "case claimPathValue claims groupsClaim of None \<Rightarrow> Some [] | Some v \<Rightarrow> strictStringArray v") auto
  then show "pn_Issuer p = iss" "pn_Subject p \<noteq> []" "pn_ExpiresAt p = expiresAt" "map_of claims ''sub'' = Some (JString (pn_Subject p))"
    using s by auto
qed

section \<open>Properties\<close>

text \<open>A principal stored in a session reads back unchanged, together with its refresh token, under the
  configuration it was stored under. Under a configuration with another issuer, client or public
  origin the same session is rejected, unless the two bindings collide under SHA-256.\<close>

lemma stored_principal_reads_back:
  assumes "scs_ok hash m" "pn_Issuer p = oc_IssuerURL oidc" "pn_Issuer p \<noteq> []" "pn_Subject p \<noteq> []" "pn_ExpiresAt p \<noteq> 0"
    "binding_utf8 oidc" "binding_utf8 other"
  shows "principalFromBoundSession oidc m sha (StorePrincipal m sha s p tok oidc) = Inr (Some p) \<and>
    RefreshTokenFromSession m (StorePrincipal m sha s p tok oidc) = tok \<and>
    ((oc_IssuerURL other, oc_ClientID other, oc_PublicBaseURL other) \<noteq> (oc_IssuerURL oidc, oc_ClientID oidc, oc_PublicBaseURL oidc) \<longrightarrow>
       principalFromBoundSession other m sha (StorePrincipal m sha s p tok oidc) = Inl ''not authenticated'' \<or>
       binding_json other \<noteq> binding_json oidc \<and> sha (binding_json other) = sha (binding_json oidc))"
proof -
  define s1 where "s1 = StorePrincipal m sha s p tok oidc"
  have b: "sm_Get m s1 sessionBindingKey = Some (SString (sessionBinding sha oidc))"
    unfolding s1_def stored_values [OF assms(1)] by (simp add: session_keys)
  have t: "RefreshTokenFromSession m s1 = tok"
    unfolding s1_def RefreshTokenFromSession_def GetString_def stored_values [OF assms(1)] by simp
  have r: "PrincipalFromSession m s1 = Inr (Some p)"
    unfolding s1_def by (rule stored_principal [OF assms(1,3-5)])
  have q: "principalFromBoundSession x m sha s1 =
      (if sessionBinding sha oidc = sessionBinding sha x \<and> pn_Issuer p = oc_IssuerURL x then Inr (Some p) else Inl ''not authenticated'')" for x
    unfolding principalFromBoundSession_def b r by simp
  have "sessionBinding sha oidc = sessionBinding sha other \<longleftrightarrow> sha (binding_json other) = sha (binding_json oidc)"
    using hex_inj by (auto simp: sessionBinding_def binding_json_def)
  then show ?thesis
    unfolding s1_def [symmetric] q t using assms(2) binding_json_inj [OF _ assms(7,6)] by auto
qed

text \<open>A native configuration that loads is accepted by \<open>NewRedisRuntime\<close>, and the store that the session
  manager gets keeps sessions under hashed tokens and under a prefix without the fence separator, as the
  fences of session mutexes require; cookies are secure, hidden from scripts, and bound to the host.\<close>

lemma loaded_config_gives_fenced_store:
  assumes "LoadAuth lib lookup = Inr cfg" "ac_Mode cfg = AuthModeNative" "\<not> cl_IsLetter lib 0" "\<not> cl_IsDigit lib 0"
  shows "\<exists>store. NewRedisRuntime gob sha (ac_Redis cfg) = Inr store \<and>
    store_ok (ss_store (NewSessionManager gob store (ac_Session cfg))) \<and>
    fs_prefix store = rc_KeyPrefix (ac_Redis cfg) \<and>
    (let cookie = ss_Cookie (NewSessionManager gob store (ac_Session cfg)) in
      ck_Secure cookie \<and> ck_HttpOnly cookie \<and> ck_Domain cookie = [] \<and> ck_Path cookie = ''/'')"
proof -
  obtain secret session origins redis oidc pol where
    l: "csrf_secret lookup AuthModeNative = Inr secret" "parseCommonAuthOptions lib lookup AuthModeNative = Inr (session, origins)"
      "parseRedisOptions lib lookup True = Inr redis"
      "parseNativeOptions lib lookup session = Inr (oidc, pol)"
      "cfg = \<lparr>ac_Mode = AuthModeNative, ac_OIDC = oidc, ac_Session = session, ac_Redis = redis, ac_CSRFSecret = secret,
           ac_AllowedOrigins = origins, ac_PolicyFile = pol\<rparr>"
    using assms(1,2) by (rule native_parts)
  have ok: "redis_config_ok lib True redis" and "sc_Secure session"
    using parseRedisOptions_Inr [OF l(3)] parseNativeOptions_Inr [OF l(4)] by auto
  then show ?thesis
    using validRedisPrefix_plain [OF _ assms(3,4), of "rc_KeyPrefix redis"] unfolding l(5) redis_config_ok_def
    by (simp add: NewRedisRuntime_def NewSessionManager_def require_def store_ok_def fenceSeparator_def)
qed

section \<open>A small session manager\<close>

text \<open>A session with its values, token, deadline and status, kept in the store as the text of a fence.\<close>

definition demo_sha :: "go_bytes \<Rightarrow> go_bytes" where
  "demo_sha = fs_sha256 demo_store"

record demo_session =
  ds_values :: "string \<rightharpoonup> session_value"
  ds_token :: string
  ds_deadline :: int
  ds_status :: session_status

definition demo_scs :: "(demo_session, string \<rightharpoonup> string \<times> int option) scs" where
  "demo_scs = \<lparr>sm_Get = ds_values, sm_Put = (\<lambda>s k v. s\<lparr>ds_values := (ds_values s)(k \<mapsto> v), ds_status := Modified\<rparr>),
     sm_Remove = (\<lambda>s k. s\<lparr>ds_values := (ds_values s)(k := None), ds_status := Modified\<rparr>), sm_Token = ds_token,
     sm_Deadline = ds_deadline, sm_SetDeadline = (\<lambda>s d. s\<lparr>ds_deadline := d, ds_status := Modified\<rparr>), sm_Status = ds_status,
     sm_Load = (\<lambda>t db token. Some \<lparr>ds_values = Map.empty, ds_token = token, ds_deadline = 1000, ds_status = Unmodified\<rparr>),
     sm_Commit = (\<lambda>store t s db. case store (hashSessionToken demo_sha (ds_token s))
         (case ds_values s sessionFenceKey of Some (SString f) \<Rightarrow> f | _ \<Rightarrow> []) (ds_deadline s) db of
       (None, db1) \<Rightarrow> (Some (ds_token s, ds_deadline s), s, db1) | (Some _, db1) \<Rightarrow> (None, s, db1)),
     sm_Destroy = (\<lambda>del t s db. case del (hashSessionToken demo_sha (ds_token s)) db of
       (None, db1) \<Rightarrow> (True, s\<lparr>ds_values := Map.empty, ds_token := [], ds_status := Destroyed\<rparr>, db1) | (Some _, db1) \<Rightarrow> (False, s, db1)),
     sm_RenewToken = (\<lambda>del t s db. case del (hashSessionToken demo_sha (ds_token s)) db of
       (None, db1) \<Rightarrow> (True, s\<lparr>ds_token := ''n'', ds_status := Modified\<rparr>, db1) | (Some _, db1) \<Rightarrow> (False, s, db1))\<rparr>"

lemma demo_scs_ok: "scs_ok (hashSessionToken demo_sha) demo_scs"
  by (auto simp: scs_ok_def demo_scs_def split: prod.splits option.splits)

definition demo_oidc :: OIDCConfig where
  "demo_oidc = off_OIDC\<lparr>oc_IssuerURL := ''i'', oc_ClientID := ''c'', oc_PublicBaseURL := ''o''\<rparr>"

definition demo_principal :: Principal where
  "demo_principal = \<lparr>pn_Issuer = ''i'', pn_Subject = ''s'', pn_Email = [], pn_Groups = [''g''], pn_ExpiresAt = 200\<rparr>"

definition empty_session :: demo_session where
  "empty_session = \<lparr>ds_values = Map.empty, ds_token = ''t'', ds_deadline = 1000, ds_status = Unmodified\<rparr>"

end
