(* ===== verification/Sessions.thy ===== *)
theory Sessions
  imports Principals
begin

text \<open>
  Browser sessions, \<open>backend/internal/authn\<close>: session locks (\<open>session_lock.go\<close>), authentication and
  refresh (\<open>refresh.go\<close>), login (\<open>oidc.go\<close>), and logout (\<open>http.go\<close>).

  An operation is a function on the state of a request: the session behind its context, the lock state
  its context carries, the database, and how many events there have been. Every call that leaves the
  process and every reading of a clock is an event of its own. What the outside does at an event (the
  provider, redsync, the network, the clocks, and everything that other requests have done to the
  database since the last event) is a field of the parameter \<open>auth_runtime\<close>, and may be anything.
\<close>

section \<open>Definitions\<close>

subsection \<open>The surroundings\<close>

record id_token =
  idt_Nonce :: string
  idt_Expiry :: int
  idt_claims :: "(string \<times> jsonValue) list option"

record oauth_token =
  ot_IDToken :: "string option"
  ot_RefreshToken :: string

datatype refresh_reply = RefreshFailed "string option" | RefreshNil | Rotated oauth_token

record ('s, 'd) auth_runtime =
  rt_manager :: "('s, 'd) scs"
  rt_redis :: "'d redis_db"
  rt_store :: fencedSessionStore
  rt_base :: "int \<Rightarrow> string \<Rightarrow> string \<Rightarrow> int \<Rightarrow> 'd \<Rightarrow> store_error option \<times> 'd"
  rt_others :: "nat \<Rightarrow> 'd \<Rightarrow> 'd"
  rt_link :: "nat \<Rightarrow> link"
  rt_server :: "nat \<Rightarrow> int"
  rt_clock :: "nat \<Rightarrow> int"
  rt_random :: "nat \<Rightarrow> nat \<Rightarrow> go_bytes option"
  rt_lock :: "nat \<Rightarrow> string \<Rightarrow> 'd \<Rightarrow> string option \<times> 'd"
  rt_unlock :: "nat \<Rightarrow> string \<Rightarrow> string \<Rightarrow> 'd \<Rightarrow> 'd"
  rt_lost :: "nat \<Rightarrow> nat \<Rightarrow> bool"
  rt_refresh :: "nat \<Rightarrow> string \<Rightarrow> refresh_reply"
  rt_exchange :: "nat \<Rightarrow> string \<Rightarrow> string \<Rightarrow> oauth_token option"
  rt_verify :: "nat \<Rightarrow> string \<Rightarrow> id_token option"
  rt_encode :: "LoginTransaction \<Rightarrow> string"
  rt_decode :: "string \<Rightarrow> LoginTransaction option"
  rt_AuthCodeURL :: "string \<Rightarrow> string \<Rightarrow> string \<Rightarrow> string"
  rt_url_Parse :: "string \<Rightarrow> parsed_url option"
  rt_PathUnescape :: "parsed_url \<Rightarrow> string option"

text \<open>\<open>Redis\<close>, \<open>Sessions\<close> and \<open>Verifier\<close> of the source may be nil.\<close>

record Authenticator =
  au_Config :: AuthConfig
  au_hasRedis :: bool
  au_hasSessions :: bool
  au_hasVerifier :: bool

datatype auth_error =
    ErrNotAuthenticated | ErrInvalidCallback | ErrTemporaryUnavailable | ErrRefreshRequired | ErrAuthenticationDisabled
  | ErrSessionStore | ErrLogin string

text \<open>What \<open>withSessionLock\<close> puts into a context.\<close>

record sessionLockState =
  sl_token :: string
  sl_fence :: string
  sl_healthy :: "nat \<Rightarrow> bool"

type_synonym lock_ctx = "sessionLockState option"

record ('s, 'd) request =
  rq_session :: 's
  rq_lock :: lock_ctx
  rq_db :: 'd
  rq_t :: nat

type_synonym ('s, 'd, 'a) auth_op = "('s, 'd) request \<Rightarrow> (auth_error + 'a) \<times> ('s, 'd) request"

subsection \<open>Operations on requests\<close>

definition returns :: "'a \<Rightarrow> ('s, 'd, 'a) auth_op" where
  "returns x st = (Inr x, st)"

definition fails :: "auth_error \<Rightarrow> ('s, 'd, 'a) auth_op" where
  "fails err st = (Inl err, st)"

definition andThen :: "('s, 'd, 'a) auth_op \<Rightarrow> ('a \<Rightarrow> ('s, 'd, 'b) auth_op) \<Rightarrow> ('s, 'd, 'b) auth_op" where
  "andThen m f st = (case m st of (Inl err, st1) \<Rightarrow> (Inl err, st1) | (Inr x, st1) \<Rightarrow> f x st1)"

text \<open>Running \<open>m\<close> and then \<open>d\<close> in any case, as a deferred call does.\<close>

definition deferring :: "(('s, 'd) request \<Rightarrow> ('s, 'd) request) \<Rightarrow> ('s, 'd, 'a) auth_op \<Rightarrow> ('s, 'd, 'a) auth_op" where
  "deferring d m st = (case m st of (r, st1) \<Rightarrow> (r, d st1))"

text \<open>Running \<open>m\<close> with another lock state in the context.\<close>

definition in_context :: "lock_ctx \<Rightarrow> ('s, 'd, 'a) auth_op \<Rightarrow> ('s, 'd, 'a) auth_op" where
  "in_context lk m st = (case m (st\<lparr>rq_lock := lk\<rparr>) of (r, st1) \<Rightarrow> (r, st1\<lparr>rq_lock := rq_lock st\<rparr>))"

definition time_Now :: "('s, 'd) auth_runtime \<Rightarrow> ('s, 'd, int) auth_op" where
  "time_Now rt st = (Inr (rt_clock rt (rq_t st)), st\<lparr>rq_t := Suc (rq_t st)\<rparr>)"

text \<open>A call that touches neither the session nor the database.\<close>

definition outside :: "(nat \<Rightarrow> 'a) \<Rightarrow> ('s, 'd, 'a) auth_op" where
  "outside f st = (Inr (f (rq_t st)), st\<lparr>rq_t := Suc (rq_t st)\<rparr>)"

definition on_db :: "('s, 'd) auth_runtime \<Rightarrow> (nat \<Rightarrow> 'd \<Rightarrow> 'a \<times> 'd) \<Rightarrow> ('s, 'd, 'a) auth_op" where
  "on_db rt f st =
     (case f (rq_t st) (rt_others rt (rq_t st) (rq_db st)) of (x, db) \<Rightarrow> (Inr x, st\<lparr>rq_db := db, rq_t := Suc (rq_t st)\<rparr>))"

definition on_session_db :: "('s, 'd) auth_runtime \<Rightarrow> (nat \<Rightarrow> 's \<Rightarrow> 'd \<Rightarrow> 'a \<times> 's \<times> 'd) \<Rightarrow> ('s, 'd, 'a) auth_op" where
  "on_session_db rt f st =
     (case f (rq_t st) (rq_session st) (rt_others rt (rq_t st) (rq_db st)) of
        (x, s, db) \<Rightarrow> (Inr x, st\<lparr>rq_session := s, rq_db := db, rq_t := Suc (rq_t st)\<rparr>))"

definition on_session :: "('s \<Rightarrow> 's) \<Rightarrow> ('s, 'd, unit) auth_op" where
  "on_session f st = (Inr (), st\<lparr>rq_session := f (rq_session st)\<rparr>)"

definition the_session :: "('s \<Rightarrow> 'a) \<Rightarrow> ('s, 'd, 'a) auth_op" where
  "the_session f st = (Inr (f (rq_session st)), st)"

definition the_lock :: "('s, 'd, lock_ctx) auth_op" where
  "the_lock st = (Inr (rq_lock st), st)"

subsection \<open>Session locks\<close>

text \<open>\<open>lh_mutex\<close> is the name and the value of the mutex that \<open>release\<close> unlocks.\<close>

record sessionLockHandle =
  lh_mutex :: "(string \<times> string) option"
  lh_fence :: string
  lh_healthy :: "nat \<Rightarrow> bool"

definition sessionLockHealthy :: "lock_ctx \<Rightarrow> nat \<Rightarrow> bool" where
  "sessionLockHealthy lk t = (case lk of None \<Rightarrow> True | Some st \<Rightarrow> sl_healthy st t)"

definition sessionLockFence :: "lock_ctx \<Rightarrow> string" where
  "sessionLockFence lk = (case lk of None \<Rightarrow> [] | Some st \<Rightarrow> sl_fence st)"

definition sessionLockStateFromContext :: "lock_ctx \<Rightarrow> string \<Rightarrow> sessionLockState option" where
  "sessionLockStateFromContext lk token =
     (if token = [] then None
      else (case lk of None \<Rightarrow> None | Some st \<Rightarrow> if sl_token st = token then Some st else None))"

definition withSessionLock :: "lock_ctx \<Rightarrow> string \<Rightarrow> string \<Rightarrow> (nat \<Rightarrow> bool) \<Rightarrow> lock_ctx" where
  "withSessionLock lk token fence healthy =
     (if token = [] then lk else Some \<lparr>sl_token = token, sl_fence = fence, sl_healthy = healthy\<rparr>)"

definition rebindSessionLock :: "string \<Rightarrow> ('s, 'd, unit) auth_op" where
  "rebindSessionLock token st =
     (Inr (), if token = [] then st else st\<lparr>rq_lock := map_option (\<lambda>l. l\<lparr>sl_token := token\<rparr>) (rq_lock st)\<rparr>)"

definition acquireSessionMutex ::
  "Authenticator \<Rightarrow> ('s, 'd) auth_runtime \<Rightarrow> string \<Rightarrow> ('s, 'd, sessionLockHandle) auth_op" where
  "acquireSessionMutex a rt token =
     andThen the_lock (\<lambda>lk.
     case sessionLockStateFromContext lk token of
       Some l \<Rightarrow> returns \<lparr>lh_mutex = None, lh_fence = sl_fence l, lh_healthy = sl_healthy l\<rparr>
     | None \<Rightarrow>
         if \<not> au_hasRedis a \<or> token = [] then returns \<lparr>lh_mutex = None, lh_fence = [], lh_healthy = (\<lambda>_. True)\<rparr>
         else andThen (on_db rt (\<lambda>t db. case rt_lock rt t (mutex_name (rt_store rt) token) db of (v, db1) \<Rightarrow> ((t, v), db1))) (\<lambda>(t, v).
           case v of
             None \<Rightarrow> fails ErrTemporaryUnavailable
           | Some owner \<Rightarrow> returns \<lparr>lh_mutex = Some (mutex_name (rt_store rt) token, owner),
               lh_fence = mutex_fence (rt_store rt) token owner, lh_healthy = (\<lambda>u. \<not> rt_lost rt t u)\<rparr>))"

definition ActivateSessionFence ::
  "Authenticator \<Rightarrow> ('s, 'd) auth_runtime \<Rightarrow> string \<Rightarrow> string \<Rightarrow> ('s, 'd, store_error option) auth_op" where
  "ActivateSessionFence a rt token fence =
     on_db rt (\<lambda>t. Activate (rt_redis rt) (rt_store rt) (rt_link rt t) (rt_server rt t) token fence
       (sc_AbsoluteLifetime (ac_Session (au_Config a))))"

definition activateSessionFence ::
  "Authenticator \<Rightarrow> ('s, 'd) auth_runtime \<Rightarrow> string \<Rightarrow> string \<Rightarrow> ('s, 'd, unit) auth_op" where
  "activateSessionFence a rt token fence =
     (if \<not> au_hasRedis a \<or> token = [] \<or> fence = [] then returns ()
      else andThen (ActivateSessionFence a rt token fence) (\<lambda>err.
        if err \<noteq> None then fails ErrTemporaryUnavailable else returns ()))"

definition release :: "('s, 'd) auth_runtime \<Rightarrow> sessionLockHandle \<Rightarrow> ('s, 'd) request \<Rightarrow> ('s, 'd) request" where
  "release rt handle st =
     (case lh_mutex handle of
        None \<Rightarrow> st
      | Some (name, owner) \<Rightarrow> snd (on_db rt (\<lambda>t db. ((), rt_unlock rt t name owner db)) st))"

definition acquireSessionLock ::
  "Authenticator \<Rightarrow> ('s, 'd) auth_runtime \<Rightarrow> string \<Rightarrow> ('s, 'd, sessionLockHandle) auth_op" where
  "acquireSessionLock a rt token =
     andThen (acquireSessionMutex a rt token) (\<lambda>handle.
     if lh_mutex handle = None then returns handle
     else (\<lambda>st. case activateSessionFence a rt token (lh_fence handle) st of
       (Inl err, st1) \<Rightarrow> (Inl err, release rt handle st1)
     | (Inr _, st1) \<Rightarrow> (Inr handle, st1)))"

subsection \<open>The session manager on the fenced store\<close>

text \<open>Milliseconds since 1970 of an instant, as \<open>UnixNano() / int64(time.Millisecond)\<close>.\<close>

definition unix_milli :: "int \<Rightarrow> int" where
  "unix_milli e =
     (let n = (e - 62135596800000000000 + 2 ^ 63) mod 2 ^ 64 - 2 ^ 63
      in if n \<ge> 0 then n div 1000000 else - ((- n) div 1000000))"

definition Sessions_Commit :: "('s, 'd) auth_runtime \<Rightarrow> ('s, 'd, (string \<times> int) option) auth_op" where
  "Sessions_Commit rt =
     on_session_db rt (\<lambda>t. sm_Commit (rt_manager rt) (\<lambda>token data expiry.
       store_Commit (rt_redis rt) (rt_store rt) (rt_base rt) (rt_link rt t) (rt_server rt t) token data (unix_milli expiry)) t)"

definition Sessions_Destroy :: "('s, 'd) auth_runtime \<Rightarrow> ('s, 'd, bool) auth_op" where
  "Sessions_Destroy rt =
     andThen the_lock (\<lambda>lk.
     on_session_db rt (\<lambda>t. sm_Destroy (rt_manager rt)
       (DeleteCtx (rt_redis rt) (rt_store rt) (rt_link rt t) (rt_server rt t) (sessionLockFence lk)) t))"

definition Sessions_RenewToken :: "('s, 'd) auth_runtime \<Rightarrow> ('s, 'd, bool) auth_op" where
  "Sessions_RenewToken rt =
     andThen the_lock (\<lambda>lk.
     on_session_db rt (\<lambda>t. sm_RenewToken (rt_manager rt)
       (DeleteCtx (rt_redis rt) (rt_store rt) (rt_link rt t) (rt_server rt t) (sessionLockFence lk)) t))"

definition Sessions_Load :: "('s, 'd) auth_runtime \<Rightarrow> string \<Rightarrow> ('s, 'd, 's option) auth_op" where
  "Sessions_Load rt token = on_db rt (\<lambda>t db. (sm_Load (rt_manager rt) t db token, db))"

definition Logout :: "Authenticator \<Rightarrow> ('s, 'd) auth_runtime \<Rightarrow> ('s, 'd, unit) auth_op" where
  "Logout a rt =
     (if ac_Mode (au_Config a) = AuthModeOff \<or> \<not> au_hasSessions a then returns ()
      else andThen (the_session (sm_Token (rt_manager rt))) (\<lambda>token.
        if token = [] then returns ()
        else andThen (acquireSessionLock a rt token) (\<lambda>lock.
          andThen the_lock (\<lambda>lk.
          deferring (release rt lock)
            (in_context (withSessionLock lk token (lh_fence lock) (lh_healthy lock))
              (andThen (Sessions_Destroy rt) (\<lambda>ok. if ok then returns () else fails ErrSessionStore)))))))"

definition destroySession :: "Authenticator \<Rightarrow> ('s, 'd) auth_runtime \<Rightarrow> ('s, 'd, unit) auth_op" where
  "destroySession a rt st =
     (case Logout a rt st of (Inl _, st1) \<Rightarrow> (Inl ErrTemporaryUnavailable, st1) | (Inr u, st1) \<Rightarrow> (Inr u, st1))"

text \<open>Ending the session: \<open>err\<close>, unless the session cannot be destroyed.\<close>

definition destroyed_with :: "Authenticator \<Rightarrow> ('s, 'd) auth_runtime \<Rightarrow> auth_error \<Rightarrow> ('s, 'd, 'a) auth_op" where
  "destroyed_with a rt err = andThen (destroySession a rt) (\<lambda>_. fails err)"

subsection \<open>Refresh\<close>

definition refreshSkew :: int where "refreshSkew = 60 * 1000000000"
definition refreshRetryWindow :: int where "refreshRetryWindow = 30 * 1000000000"

definition oidc_of :: "Authenticator \<Rightarrow> OIDCConfig" where
  "oidc_of a = ac_OIDC (au_Config a)"

definition bound :: "Authenticator \<Rightarrow> ('s, 'd) auth_runtime \<Rightarrow> 's \<Rightarrow> string + Principal option" where
  "bound a rt s = principalFromBoundSession (oidc_of a) (rt_manager rt) (fs_sha256 (rt_store rt)) s"

definition isPermanentRefreshFailure :: "string option \<Rightarrow> bool" where
  "isPermanentRefreshFailure code \<longleftrightarrow> code = Some ''invalid_grant''"

definition syncSession ::
  "Authenticator \<Rightarrow> ('s, 'd) auth_runtime \<Rightarrow> Principal \<Rightarrow> string \<Rightarrow> bool \<Rightarrow> ('s, 'd, unit) auth_op" where
  "syncSession a rt p refreshToken markRefresh =
     andThen (on_session (\<lambda>s. StorePrincipal (rt_manager rt) (fs_sha256 (rt_store rt)) s p refreshToken (oidc_of a))) (\<lambda>_.
     andThen (if markRefresh then andThen (time_Now rt) (\<lambda>now.
                on_session (\<lambda>s. sm_Put (rt_manager rt) s sessionRefreshCheckedKey (STime now))) else returns ()) (\<lambda>_.
     andThen (Sessions_Commit rt) (\<lambda>committed.
     case committed of
       None \<Rightarrow> fails ErrTemporaryUnavailable
     | Some (_, sessionExpiry) \<Rightarrow>
         andThen (time_Now rt) (\<lambda>now.
         if \<not> (pn_ExpiresAt p > now) \<or> \<not> (sessionExpiry > now) then
           andThen (the_session (sm_Token (rt_manager rt))) (\<lambda>token.
           andThen the_lock (\<lambda>lk.
           andThen (activateSessionFence a rt token (sessionLockFence lk)) (\<lambda>_.
           destroyed_with a rt ErrNotAuthenticated)))
         else returns ()))))"

definition verifyRefreshedIDToken ::
  "Authenticator \<Rightarrow> ('s, 'd) auth_runtime \<Rightarrow> string \<Rightarrow> Principal \<Rightarrow> ('s, 'd, Principal) auth_op" where
  "verifyRefreshedIDToken a rt raw previous =
     (if \<not> au_hasVerifier a then fails ErrInvalidCallback
      else andThen (outside (\<lambda>t. rt_verify rt t raw)) (\<lambda>verified.
        case verified of
          None \<Rightarrow> fails ErrInvalidCallback
        | Some idToken \<Rightarrow> (case idt_claims idToken of
            None \<Rightarrow> fails ErrInvalidCallback
          | Some claims \<Rightarrow>
              (case principalFromClaims (oc_IssuerURL (oidc_of a)) claims (oc_GroupsClaim (oidc_of a)) (idt_Expiry idToken) of
                 Inl _ \<Rightarrow> fails ErrInvalidCallback
               | Inr p \<Rightarrow> if pn_Issuer p \<noteq> pn_Issuer previous \<or> pn_Subject p \<noteq> pn_Subject previous
                   then fails ErrInvalidCallback else returns p))))"

text \<open>The principal after an exchange: that of the new ID token if there is one, and the old one otherwise.\<close>

definition refreshed_principal ::
  "Authenticator \<Rightarrow> ('s, 'd) auth_runtime \<Rightarrow> oauth_token \<Rightarrow> Principal \<Rightarrow> ('s, 'd, Principal) auth_op" where
  "refreshed_principal a rt rotated previous =
     (case ot_IDToken rotated of
        None \<Rightarrow> returns previous
      | Some raw \<Rightarrow>
          if raw = [] then returns previous
          else (\<lambda>st. case verifyRefreshedIDToken a rt raw previous st of
            (Inr p, st1) \<Rightarrow> (Inr p, st1)
          | (Inl _, st1) \<Rightarrow> destroyed_with a rt ErrNotAuthenticated st1))"

text \<open>The exchange with the provider, from the principal \<open>p\<close> and the refresh token of the session \<open>s\<close> just
  loaded.\<close>

definition exchange_and_store ::
  "Authenticator \<Rightarrow> ('s, 'd) auth_runtime \<Rightarrow> 's \<Rightarrow> Principal \<Rightarrow> string \<Rightarrow> ('s, 'd, Principal option) auth_op" where
  "exchange_and_store a rt s p refreshToken =
     andThen (outside (\<lambda>t. rt_refresh rt t refreshToken)) (\<lambda>reply.
     case reply of
       RefreshFailed code \<Rightarrow>
         if isPermanentRefreshFailure code then destroyed_with a rt ErrNotAuthenticated else fails ErrTemporaryUnavailable
     | RefreshNil \<Rightarrow> fails ErrTemporaryUnavailable
     | Rotated rotated \<Rightarrow>
         andThen (refreshed_principal a rt rotated p) (\<lambda>q.
         andThen (time_Now rt) (\<lambda>now.
         if \<not> (pn_ExpiresAt q > now) \<or> \<not> (sm_Deadline (rt_manager rt) s > now) then destroyed_with a rt ErrNotAuthenticated
         else let newRefreshToken = (if ot_RefreshToken rotated = [] then refreshToken else ot_RefreshToken rotated) in
           andThen (syncSession a rt q newRefreshToken True) (\<lambda>_. returns (Some q)))))"

text \<open>What a request does under the lock of its session: it looks at the session in the store again, and
  keeps it if another request has refreshed it.\<close>

definition refresh_locked ::
  "Authenticator \<Rightarrow> ('s, 'd) auth_runtime \<Rightarrow> string \<Rightarrow> ('s, 'd, Principal option) auth_op" where
  "refresh_locked a rt sessionToken =
     andThen (Sessions_Load rt sessionToken) (\<lambda>loaded.
     case loaded of
       None \<Rightarrow> fails ErrTemporaryUnavailable
     | Some s \<Rightarrow> (case bound a rt s of
         Inl _ \<Rightarrow> destroyed_with a rt ErrNotAuthenticated
       | Inr None \<Rightarrow> fails ErrNotAuthenticated
       | Inr (Some p) \<Rightarrow>
           let refreshToken = RefreshTokenFromSession (rt_manager rt) s in
           andThen (time_Now rt) (\<lambda>now.
           if pn_ExpiresAt p > now + refreshSkew \<or> refreshToken = [] \<and> pn_ExpiresAt p > now then
             andThen (syncSession a rt p refreshToken False) (\<lambda>_. returns (Some p))
           else let lastChecked = GetTime (rt_manager rt) s sessionRefreshCheckedKey in
             if lastChecked \<noteq> 0 \<and> pn_ExpiresAt p > now \<and> now < lastChecked + refreshRetryWindow then
               andThen (syncSession a rt p refreshToken False) (\<lambda>_. returns (Some p))
             else if refreshToken = [] then fails ErrRefreshRequired
             else exchange_and_store a rt s p refreshToken)))"

text \<open>The fence of a fresh lock goes into the session of the request.\<close>

definition put_fence :: "('s, 'd) auth_runtime \<Rightarrow> string \<Rightarrow> ('s, 'd, unit) auth_op" where
  "put_fence rt fence =
     (if fence \<noteq> [] then on_session (\<lambda>s. sm_Put (rt_manager rt) s sessionFenceKey (SString fence)) else returns ())"

definition refreshSession :: "Authenticator \<Rightarrow> ('s, 'd) auth_runtime \<Rightarrow> ('s, 'd, Principal option) auth_op" where
  "refreshSession a rt =
     (if \<not> au_hasRedis a \<or> \<not> au_hasSessions a then fails ErrTemporaryUnavailable
      else andThen (the_session (sm_Token (rt_manager rt))) (\<lambda>sessionToken.
        if sessionToken = [] then fails ErrNotAuthenticated
        else andThen (acquireSessionLock a rt sessionToken) (\<lambda>lock.
          deferring (release rt lock)
            (andThen (put_fence rt (lh_fence lock)) (\<lambda>_.
             andThen the_lock (\<lambda>lk.
             in_context (withSessionLock lk sessionToken (lh_fence lock) (lh_healthy lock))
               (refresh_locked a rt sessionToken)))))))"

definition AuthenticatedPrincipal :: "Authenticator \<Rightarrow> ('s, 'd) auth_runtime \<Rightarrow> ('s, 'd, Principal option) auth_op" where
  "AuthenticatedPrincipal a rt =
     (if ac_Mode (au_Config a) = AuthModeOff then fails ErrAuthenticationDisabled
      else andThen (the_session (bound a rt)) (\<lambda>found.
        case found of
          Inl _ \<Rightarrow> destroyed_with a rt ErrNotAuthenticated
        | Inr None \<Rightarrow> returns None
        | Inr (Some p) \<Rightarrow>
            andThen (time_Now rt) (\<lambda>now.
            andThen (the_session (sm_Deadline (rt_manager rt))) (\<lambda>deadline.
            if \<not> (deadline > now) then destroyed_with a rt ErrNotAuthenticated
            else andThen (the_session (RefreshTokenFromSession (rt_manager rt))) (\<lambda>refreshToken.
              if pn_ExpiresAt p > now + refreshSkew \<or> refreshToken = [] \<and> pn_ExpiresAt p > now then returns (Some p)
              else if refreshToken = [] then fails ErrRefreshRequired
              else andThen (the_session (\<lambda>s. GetTime (rt_manager rt) s sessionRefreshCheckedKey)) (\<lambda>lastChecked.
                if pn_ExpiresAt p > now \<and> lastChecked \<noteq> 0 \<and> now < lastChecked + refreshRetryWindow then returns (Some p)
                else refreshSession a rt))))))"

subsection \<open>Login\<close>

definition refreshedSessionExpiry :: "int \<Rightarrow> int \<Rightarrow> int" where
  "refreshedSessionExpiry deadline tokenExpiry =
     (if deadline = 0 \<or> tokenExpiry \<noteq> 0 \<and> tokenExpiry < deadline then tokenExpiry else deadline)"

definition verifyIDToken ::
  "Authenticator \<Rightarrow> ('s, 'd) auth_runtime \<Rightarrow> string \<Rightarrow> string \<Rightarrow> ('s, 'd, Principal) auth_op" where
  "verifyIDToken a rt raw expectedNonce =
     (if \<not> au_hasVerifier a \<or> expectedNonce = [] then fails ErrInvalidCallback
      else andThen (outside (\<lambda>t. rt_verify rt t raw)) (\<lambda>verified.
        case verified of
          None \<Rightarrow> fails ErrInvalidCallback
        | Some idToken \<Rightarrow>
            if idt_Nonce idToken \<noteq> expectedNonce then fails ErrInvalidCallback
            else (case idt_claims idToken of
              None \<Rightarrow> fails ErrInvalidCallback
            | Some claims \<Rightarrow>
                (case principalFromClaims (oc_IssuerURL (oidc_of a)) claims (oc_GroupsClaim (oidc_of a)) (idt_Expiry idToken) of
                   Inl message \<Rightarrow> fails (ErrLogin message)
                 | Inr p \<Rightarrow> returns p))))"

definition randomURLToken :: "('s, 'd) auth_runtime \<Rightarrow> nat \<Rightarrow> string \<Rightarrow> ('s, 'd, string) auth_op" where
  "randomURLToken rt count message =
     andThen (outside (\<lambda>t. rt_random rt t count)) (\<lambda>bytes.
     case bytes of None \<Rightarrow> fails (ErrLogin message) | Some bs \<Rightarrow> returns (base64_EncodeToString bs))"

definition returnToMessage :: string where
  "returnToMessage = ''return path must be an internal URL''"

definition safeReturnTo :: "('s, 'd) auth_runtime \<Rightarrow> string \<Rightarrow> string + string" where
  "safeReturnTo rt v =
     (if v = [] \<or> strings_ContainsAny v [CHR 0x5C, CHR 0x0D, CHR 0x0A, CHR 0x00] \<or> strings_HasPrefix v ''//'' then Inl returnToMessage
      else (case rt_url_Parse rt v of
        None \<Rightarrow> Inl returnToMessage
      | Some parsed \<Rightarrow>
          if Scheme parsed \<noteq> [] \<or> Host parsed \<noteq> [] \<or> \<not> strings_HasPrefix (url_Path parsed) ''/'' then Inl returnToMessage
          else (case rt_PathUnescape rt parsed of
            None \<Rightarrow> Inl returnToMessage
          | Some decodedPath \<Rightarrow> if strings_HasPrefix decodedPath ''//'' then Inl returnToMessage else Inr v)))"

definition login_enabled :: "Authenticator \<Rightarrow> bool" where
  "login_enabled a \<longleftrightarrow> ac_Mode (au_Config a) = AuthModeNative \<and> au_hasRedis a"

definition BeginLogin :: "Authenticator \<Rightarrow> ('s, 'd) auth_runtime \<Rightarrow> string \<Rightarrow> ('s, 'd, string) auth_op" where
  "BeginLogin a rt returnTo0 =
     (if \<not> login_enabled a then fails ErrAuthenticationDisabled
      else (case safeReturnTo rt returnTo0 of
        Inl message \<Rightarrow> fails (ErrLogin message)
      | Inr returnTo \<Rightarrow>
          andThen (randomURLToken rt 32 ''generate login state'') (\<lambda>state.
          andThen (randomURLToken rt 32 ''generate login nonce'') (\<lambda>nonce.
          andThen (randomURLToken rt 32 ''generate PKCE verifier'') (\<lambda>verifier.
          andThen (on_session (\<lambda>s. sm_Put (rt_manager rt) s pendingStateKey (SString state))) (\<lambda>_.
          andThen (Sessions_Commit rt) (\<lambda>committed.
          case committed of
            None \<Rightarrow> fails (ErrLogin ''create pre-authentication session'')
          | Some (preAuthSession, _) \<Rightarrow>
              andThen (on_db rt (\<lambda>t. SaveLoginTransaction (rt_redis rt) (rt_encode rt) (fs_prefix (rt_store rt)) (rt_link rt t) (rt_server rt t) state
                \<lparr>lt_Nonce = nonce, lt_PKCEVerifier = verifier,
                 lt_PreAuthSessionHash = hashSessionToken (fs_sha256 (rt_store rt)) preAuthSession, lt_ReturnTo = returnTo\<rparr>)) (\<lambda>saved.
              if saved \<noteq> None then (\<lambda>st. (Inl ErrTemporaryUnavailable, snd (Logout a rt st)))
              else returns (rt_AuthCodeURL rt state nonce verifier)))))))))"

text \<open>The end of a login: the session gets a new token, the lock and its fence follow it, and the session
  keeps the principal.\<close>

definition keep_login ::
  "Authenticator \<Rightarrow> ('s, 'd) auth_runtime \<Rightarrow> Principal \<Rightarrow> string \<Rightarrow> string \<Rightarrow> ('s, 'd, string) auth_op" where
  "keep_login a rt p refreshToken returnTo =
     andThen (on_session (\<lambda>s. StorePrincipal (rt_manager rt) (fs_sha256 (rt_store rt)) s p refreshToken (oidc_of a))) (\<lambda>_.
     andThen (on_session (\<lambda>s. sm_Remove (rt_manager rt) s pendingStateKey)) (\<lambda>_.
     andThen (if refreshToken = [] then on_session (\<lambda>s. sm_SetDeadline (rt_manager rt) s
                (refreshedSessionExpiry (sm_Deadline (rt_manager rt) s) (pn_ExpiresAt p))) else returns ()) (\<lambda>_.
     returns returnTo)))"

definition finish_login ::
  "Authenticator \<Rightarrow> ('s, 'd) auth_runtime \<Rightarrow> Principal \<Rightarrow> string \<Rightarrow> string \<Rightarrow> ('s, 'd, string) auth_op" where
  "finish_login a rt p refreshToken returnTo =
     andThen (Sessions_RenewToken rt) (\<lambda>renewed.
     if \<not> renewed then fails ErrTemporaryUnavailable
     else andThen (the_session (sm_Token (rt_manager rt))) (\<lambda>token.
       andThen (rebindSessionLock token) (\<lambda>_.
       andThen the_lock (\<lambda>lk.
       andThen (if sessionLockFence lk = [] then returns None else ActivateSessionFence a rt token (sessionLockFence lk)) (\<lambda>err.
       if err \<noteq> None then fails ErrTemporaryUnavailable
       else keep_login a rt p refreshToken returnTo)))))"

definition CompleteLogin :: "Authenticator \<Rightarrow> ('s, 'd) auth_runtime \<Rightarrow> string \<Rightarrow> string \<Rightarrow> ('s, 'd, string) auth_op" where
  "CompleteLogin a rt state code =
     (if \<not> login_enabled a then fails ErrAuthenticationDisabled
      else if state = [] \<or> code = [] then fails ErrInvalidCallback
      else andThen (on_db rt (\<lambda>t. ConsumeLoginTransaction (rt_redis rt) (rt_decode rt) (fs_prefix (rt_store rt)) (rt_link rt t) (rt_server rt t) state))
        (\<lambda>consumed.
        case consumed of
          Inl _ \<Rightarrow> fails ErrTemporaryUnavailable
        | Inr None \<Rightarrow> fails ErrInvalidCallback
        | Inr (Some transaction) \<Rightarrow>
            andThen (the_session (sm_Token (rt_manager rt))) (\<lambda>preAuthSession.
            if preAuthSession = [] \<or> hashSessionToken (fs_sha256 (rt_store rt)) preAuthSession \<noteq> lt_PreAuthSessionHash transaction
            then fails ErrInvalidCallback
            else andThen (outside (\<lambda>t. rt_exchange rt t code (lt_PKCEVerifier transaction))) (\<lambda>token.
              case token of
                None \<Rightarrow> fails ErrInvalidCallback
              | Some tok \<Rightarrow> (case ot_IDToken tok of
                  None \<Rightarrow> fails ErrInvalidCallback
                | Some raw \<Rightarrow>
                    if raw = [] then fails ErrInvalidCallback
                    else (\<lambda>st. case verifyIDToken a rt raw (lt_Nonce transaction) st of
                      (Inl _, st1) \<Rightarrow> (Inl ErrInvalidCallback, st1)
                    | (Inr p, st1) \<Rightarrow> finish_login a rt p (ot_RefreshToken tok) (lt_ReturnTo transaction) st1))))))"

section \<open>Lemmas\<close>

named_theorems op_Inr \<open>what the success of an operation on requests says of its parts\<close>

lemma returns_Inr [op_Inr]: "returns x st = (Inr y, st') \<longleftrightarrow> y = x \<and> st' = st"
  by (auto simp: returns_def)

lemma fails_Inr [op_Inr]: "fails err st = (Inr y, st') \<longleftrightarrow> False"
  by (simp add: fails_def)

lemma andThen_Inr [op_Inr]:
  "andThen m f st = (Inr y, st') \<longleftrightarrow> (\<exists>x st1. m st = (Inr x, st1) \<and> f x st1 = (Inr y, st'))"
  by (auto simp: andThen_def split: prod.splits sum.splits)

lemma the_session_Inr [op_Inr]: "the_session f st = (Inr y, st') \<longleftrightarrow> y = f (rq_session st) \<and> st' = st"
  by (auto simp: the_session_def)

lemma the_lock_Inr [op_Inr]: "the_lock st = (Inr y, st') \<longleftrightarrow> y = rq_lock st \<and> st' = st"
  by (auto simp: the_lock_def)

lemma time_Now_Inr [op_Inr]: "time_Now rt st = (Inr y, st') \<longleftrightarrow> y = rt_clock rt (rq_t st) \<and> st' = st\<lparr>rq_t := Suc (rq_t st)\<rparr>"
  by (auto simp: time_Now_def)

lemma outside_Inr [op_Inr]: "outside f st = (Inr y, st') \<longleftrightarrow> y = f (rq_t st) \<and> st' = st\<lparr>rq_t := Suc (rq_t st)\<rparr>"
  by (auto simp: outside_def)

lemma on_session_Inr [op_Inr]: "on_session f st = (Inr y, st') \<longleftrightarrow> st' = st\<lparr>rq_session := f (rq_session st)\<rparr>"
  by (auto simp: on_session_def)

lemma on_db_Inr [op_Inr]:
  "on_db rt f st = (Inr y, st') \<longleftrightarrow>
     (\<exists>db. f (rq_t st) (rt_others rt (rq_t st) (rq_db st)) = (y, db) \<and> st' = st\<lparr>rq_db := db, rq_t := Suc (rq_t st)\<rparr>)"
  by (auto simp: on_db_def split: prod.splits)

lemma on_session_db_Inr [op_Inr]:
  "on_session_db rt f st = (Inr y, st') \<longleftrightarrow>
     (\<exists>s db. f (rq_t st) (rq_session st) (rt_others rt (rq_t st) (rq_db st)) = (y, s, db) \<and>
        st' = st\<lparr>rq_session := s, rq_db := db, rq_t := Suc (rq_t st)\<rparr>)"
  by (auto simp: on_session_db_def split: prod.splits)

lemma deferring_Inr [op_Inr]: "deferring d m st = (Inr y, st') \<longleftrightarrow> (\<exists>st1. m st = (Inr y, st1) \<and> st' = d st1)"
  by (auto simp: deferring_def split: prod.splits)

lemma in_context_Inr [op_Inr]:
  "in_context lk m st = (Inr y, st') \<longleftrightarrow> (\<exists>st1. m (st\<lparr>rq_lock := lk\<rparr>) = (Inr y, st1) \<and> st' = st1\<lparr>rq_lock := rq_lock st\<rparr>)"
  by (auto simp: in_context_def split: prod.splits)

lemma destroyed_with_Inr [op_Inr]: "destroyed_with a rt err st = (Inr y, st') \<longleftrightarrow> False"
  by (simp add: destroyed_with_def op_Inr)

lemma if_op [op_Inr]: "(if b then m else n) st = (if b then m st else n st)"
  by simp

lemma andThen_run: "m st = (Inr x, st1) \<Longrightarrow> andThen m f st = f x st1"
  by (simp add: andThen_def)

text \<open>The first step of an operation that cannot fail.\<close>

lemma first_step:
  "andThen (returns x) f st = f x st"
  "andThen (time_Now rt) g st = g (rt_clock rt (rq_t st)) (st\<lparr>rq_t := Suc (rq_t st)\<rparr>)"
  "andThen (outside h) f st = f (h (rq_t st)) (st\<lparr>rq_t := Suc (rq_t st)\<rparr>)"
  "andThen (the_session k) f st = f (k (rq_session st)) st"
  "andThen the_lock l st = l (rq_lock st) st"
  "andThen (on_session j) i st = i () (st\<lparr>rq_session := j (rq_session st)\<rparr>)"
  by (simp_all add: andThen_def returns_def time_Now_def outside_def the_session_def the_lock_def on_session_def)

lemma first_on_db:
  "andThen (on_db rt h) f st =
     f (fst (h (rq_t st) (rt_others rt (rq_t st) (rq_db st))))
       (st\<lparr>rq_db := snd (h (rq_t st) (rt_others rt (rq_t st) (rq_db st))), rq_t := Suc (rq_t st)\<rparr>)"
  by (simp add: andThen_def on_db_def split: prod.splits)

text \<open>Events only accumulate.\<close>

definition forward :: "('s, 'd, 'a) auth_op \<Rightarrow> bool" where
  "forward m \<longleftrightarrow> (\<forall>st. rq_t st \<le> rq_t (snd (m st)))"

named_theorems forward_ops \<open>operations on requests that move forward\<close>

lemma forwardD: "forward m \<Longrightarrow> m st = (r, st') \<Longrightarrow> rq_t st \<le> rq_t st'"
  unfolding forward_def by (metis snd_conv)

lemma forward_basic [forward_ops]:
  "forward (returns x)" "forward (fails err)" "forward (the_session g)" "forward the_lock" "forward (time_Now rt)"
  "forward (outside f)" "forward (on_session h)" "forward (on_db rt k)" "forward (on_session_db rt k')" "forward (rebindSessionLock token)"
  by (auto simp: forward_def returns_def fails_def the_session_def the_lock_def time_Now_def outside_def on_session_def
      on_db_def on_session_db_def rebindSessionLock_def split: prod.splits)

lemma forward_andThen [forward_ops]:
  assumes "forward m" "\<And>x. forward (f x)"
  shows "forward (andThen m f)"
  unfolding forward_def
proof
  fix st
  obtain r st1 where m: "m st = (r, st1)" by (cases "m st")
  then have "rq_t st \<le> rq_t st1" using forwardD [OF assms(1)] by simp
  moreover have "rq_t st1 \<le> rq_t (snd (f x st1))" for x using assms(2) by (simp add: forward_def)
  ultimately show "rq_t st \<le> rq_t (snd (andThen m f st))"
    unfolding andThen_def m by (cases r) (auto intro: order_trans)
qed

lemma release_forward: "rq_t st \<le> rq_t (release rt lock st)"
  by (auto simp: release_def on_db_def split: option.splits)

lemma forward_deferring [forward_ops]: "forward m \<Longrightarrow> forward (deferring (release rt lock) m)"
  unfolding forward_def deferring_def using release_forward by (fastforce split: prod.splits intro: order_trans)

lemma forward_in_context [forward_ops]: "forward m \<Longrightarrow> forward (in_context lk m)"
  unfolding forward_def
proof
  fix st assume "\<forall>st. rq_t st \<le> rq_t (snd (m st))"
  then have "rq_t (st\<lparr>rq_lock := lk\<rparr>) \<le> rq_t (snd (m (st\<lparr>rq_lock := lk\<rparr>)))" by blast
  then show "rq_t st \<le> rq_t (snd (in_context lk m st))" by (auto simp: in_context_def split: prod.splits)
qed

lemma forward_if [forward_ops]: "forward m \<Longrightarrow> forward n \<Longrightarrow> forward (if b then m else n)"
  by simp

lemma forward_mutex [forward_ops]: "forward (acquireSessionMutex a rt token)"
  unfolding acquireSessionMutex_def by (auto intro!: forward_ops split: option.splits prod.splits)

lemma forward_activate [forward_ops]: "forward (activateSessionFence a rt token fence)"
  unfolding activateSessionFence_def ActivateSessionFence_def by (intro forward_ops)

lemma forward_lock [forward_ops]: "forward (acquireSessionLock a rt token)"
proof -
  have "forward (\<lambda>st. case activateSessionFence a rt token (lh_fence handle) st of
      (Inl err, st1) \<Rightarrow> (Inl err, release rt handle st1) | (Inr _, st1) \<Rightarrow> (Inr handle, st1))" for handle :: sessionLockHandle
    unfolding forward_def
  proof
    fix st
    obtain r st1 where m: "activateSessionFence a rt token (lh_fence handle) st = (r, st1)" by fastforce
    then have "rq_t st \<le> rq_t st1" using forwardD [OF forward_activate] by blast
    then show "rq_t st \<le> rq_t (snd (case activateSessionFence a rt token (lh_fence handle) st of
        (Inl err, st1) \<Rightarrow> (Inl err, release rt handle st1) | (Inr _, st1) \<Rightarrow> (Inr handle, st1)))"
      unfolding m using release_forward [of st1 rt handle] by (cases r) auto
  qed
  then show ?thesis unfolding acquireSessionLock_def by (intro forward_ops)
qed

lemma forward_Logout [forward_ops]: "forward (Logout a rt)"
  unfolding Logout_def Sessions_Destroy_def by (intro forward_ops)

lemma forward_destroySession [forward_ops]: "forward (destroySession a rt)"
  unfolding forward_def destroySession_def using forwardD [OF forward_Logout] by (fastforce split: prod.splits sum.splits)

lemma forward_destroyed_with [forward_ops]: "forward (destroyed_with a rt err)"
  unfolding destroyed_with_def by (intro forward_ops)

lemma forward_sync [forward_ops]: "forward (syncSession a rt p tok mark)"
  unfolding syncSession_def Sessions_Commit_def
  by (intro forward_ops) (auto intro!: forward_ops split: option.splits prod.splits)

lemma release_keeps: "rq_session (release rt lock st) = rq_session st" "rq_lock (release rt lock st) = rq_lock st"
  by (simp_all add: release_def on_db_def split: option.splits prod.splits)

lemma scs_commit_get: "scs_ok hash m \<Longrightarrow> sm_Commit m store t s db = (r, s', db') \<Longrightarrow> sm_Get m s' k = sm_Get m s k"
  unfolding scs_ok_def by blast

text \<open>A session that was synchronized is the principal's, and the principal had not expired afterwards.\<close>

lemma syncSession_Inr:
  assumes "syncSession a rt p tok mark st = (Inr u, st')"
  shows "\<exists>n. rq_t st \<le> n \<and> n < rq_t st' \<and> rt_clock rt n < pn_ExpiresAt p"
    "scs_ok hash (rt_manager rt) \<Longrightarrow> pn_Issuer p = oc_IssuerURL (oidc_of a) \<Longrightarrow> pn_Issuer p \<noteq> [] \<Longrightarrow> pn_Subject p \<noteq> [] \<Longrightarrow>
      pn_ExpiresAt p \<noteq> 0 \<Longrightarrow> bound a rt (rq_session st') = Inr (Some p)"
proof -
  define st1 where "st1 = st\<lparr>rq_session := StorePrincipal (rt_manager rt) (fs_sha256 (rt_store rt)) (rq_session st) p tok (oidc_of a)\<rparr>"
  obtain st2 st3 token expiry where
    mark: "(if mark then andThen (time_Now rt) (\<lambda>now. on_session (\<lambda>s. sm_Put (rt_manager rt) s sessionRefreshCheckedKey (STime now)))
       else returns ()) st1 = (Inr (), st2)" and
    c: "Sessions_Commit rt st2 = (Inr (Some (token, expiry)), st3)" and
    e: "rt_clock rt (rq_t st3) < pn_ExpiresAt p" "st' = st3\<lparr>rq_t := Suc (rq_t st3)\<rparr>"
    using assms unfolding syncSession_def st1_def
    by (auto simp: op_Inr split: option.splits if_splits)
  have "rq_t st \<le> rq_t st2" using mark unfolding st1_def by (auto simp: op_Inr split: if_splits)
  moreover have "rq_t st2 \<le> rq_t st3" using c unfolding Sessions_Commit_def by (auto simp: op_Inr)
  ultimately show "\<exists>n. rq_t st \<le> n \<and> n < rq_t st' \<and> rt_clock rt n < pn_ExpiresAt p" using e by (intro exI [of _ "rq_t st3"]) simp
  assume ok: "scs_ok hash (rt_manager rt)" and p: "pn_Issuer p = oc_IssuerURL (oidc_of a)" "pn_Issuer p \<noteq> []" "pn_Subject p \<noteq> []" "pn_ExpiresAt p \<noteq> 0"
  have "sm_Get (rt_manager rt) (rq_session st') key = sm_Get (rt_manager rt) (rq_session st2) key" for key
    using c e(2) scs_commit_get [OF ok] unfolding Sessions_Commit_def by (auto simp: op_Inr)
  moreover have "sm_Get (rt_manager rt) (rq_session st2) key = sm_Get (rt_manager rt) (rq_session st1) key" if "key \<noteq> sessionRefreshCheckedKey" for key
    using mark that by (auto simp: op_Inr scs_get [OF ok] split: if_splits)
  ultimately have "bound a rt (rq_session st') = bound a rt (rq_session st1)"
    unfolding bound_def by (intro principal_from_values) (auto simp: session_keys)
  moreover have "sm_Get (rt_manager rt) (rq_session st1) sessionBindingKey = Some (SString (sessionBinding (fs_sha256 (rt_store rt)) (oidc_of a)))"
    unfolding st1_def by (simp add: stored_values [OF ok] session_keys)
  moreover have "PrincipalFromSession (rt_manager rt) (rq_session st1) = Inr (Some p)"
    unfolding st1_def by (simp add: stored_principal [OF ok p(2-4)])
  ultimately show "bound a rt (rq_session st') = Inr (Some p)"
    unfolding bound_def principalFromBoundSession_def using p(1) by simp
qed

text \<open>Where a principal may come from: the session of the request; the session in the store under the same
  token; or a verified ID token for the subject of the latter.\<close>

definition verified_as :: "Authenticator \<Rightarrow> ('s, 'd) auth_runtime \<Rightarrow> nat \<Rightarrow> string \<Rightarrow> Principal \<Rightarrow> bool" where
  "verified_as a rt n raw p \<longleftrightarrow>
     (\<exists>idToken claims. rt_verify rt n raw = Some idToken \<and> idt_claims idToken = Some claims \<and>
        principalFromClaims (oc_IssuerURL (oidc_of a)) claims (oc_GroupsClaim (oidc_of a)) (idt_Expiry idToken) = Inr p)"

definition vouched :: "Authenticator \<Rightarrow> ('s, 'd) auth_runtime \<Rightarrow> ('s, 'd) request \<Rightarrow> nat \<Rightarrow> Principal \<Rightarrow> bool" where
  "vouched a rt st t p \<longleftrightarrow>
     bound a rt (rq_session st) = Inr (Some p) \<or>
     (\<exists>n db s q. rq_t st \<le> n \<and> n < t \<and> sm_Load (rt_manager rt) n db (sm_Token (rt_manager rt) (rq_session st)) = Some s \<and>
        bound a rt s = Inr (Some q) \<and>
        (p = q \<or> (\<exists>n' raw. n < n' \<and> n' < t \<and> verified_as a rt n' raw p \<and> pn_Subject p = pn_Subject q)))"

lemma verifyRefreshed_Inr:
  assumes "verifyRefreshedIDToken a rt raw previous st = (Inr p, st')"
  shows "verified_as a rt (rq_t st) raw p" "pn_Subject p = pn_Subject previous" "pn_Issuer p = pn_Issuer previous"
    "st' = st\<lparr>rq_t := Suc (rq_t st)\<rparr>"
  using assms unfolding verifyRefreshedIDToken_def verified_as_def
  by (auto simp: op_Inr split: if_splits option.splits sum.splits)

lemma refreshed_principal_Inr:
  assumes "refreshed_principal a rt rotated previous st = (Inr p, st')"
  shows "p = previous \<and> st' = st \<or>
    (\<exists>raw. ot_IDToken rotated = Some raw \<and> verified_as a rt (rq_t st) raw p \<and> pn_Subject p = pn_Subject previous \<and>
       pn_Issuer p = pn_Issuer previous \<and> st' = st\<lparr>rq_t := Suc (rq_t st)\<rparr>)"
proof (cases "ot_IDToken rotated")
  case (Some raw)
  then show ?thesis
    using assms verifyRefreshed_Inr [of a rt raw previous st p st'] unfolding refreshed_principal_def
    by (auto simp: op_Inr split: if_splits prod.splits sum.splits)
qed (use assms in \<open>simp add: refreshed_principal_def op_Inr\<close>)

lemma exchange_Inr:
  assumes "exchange_and_store a rt s q tok st = (Inr x, st')"
  obtains p n st2 tok' where "x = Some p" "p = q \<or> (\<exists>raw. rq_t st < n \<and> n < rq_t st' \<and> verified_as a rt n raw p \<and> pn_Subject p = pn_Subject q \<and> pn_Issuer p = pn_Issuer q)"
    "syncSession a rt p tok' True st2 = (Inr (), st')" "rq_t st < rq_t st2"
proof -
  obtain rotated p st1 st2 tok' where
    r: "refreshed_principal a rt rotated q (st\<lparr>rq_t := Suc (rq_t st)\<rparr>) = (Inr p, st1)" "st2 = st1\<lparr>rq_t := Suc (rq_t st1)\<rparr>"
      "syncSession a rt p tok' True st2 = (Inr (), st')" "x = Some p"
    using assms unfolding exchange_and_store_def
    by (auto simp: op_Inr Let_def split: refresh_reply.splits if_splits)
  have t: "rq_t st2 \<le> rq_t st'" using forwardD [OF forward_sync r(3)] .
  show thesis
    using refreshed_principal_Inr [OF r(1)]
  proof (elim disjE exE conjE)
    assume "p = q" "st1 = st\<lparr>rq_t := Suc (rq_t st)\<rparr>"
    then show thesis using that [OF r(4) _ r(3), of 0] r(2) by simp
  next
    fix raw assume v: "verified_as a rt (rq_t (st\<lparr>rq_t := Suc (rq_t st)\<rparr>)) raw p" "pn_Subject p = pn_Subject q" "pn_Issuer p = pn_Issuer q"
      "st1 = st\<lparr>rq_t := Suc (rq_t st), rq_t := Suc (rq_t (st\<lparr>rq_t := Suc (rq_t st)\<rparr>))\<rparr>"
    have "rq_t st < Suc (rq_t st)" "Suc (rq_t st) < rq_t st'" "rq_t st < rq_t st2" using t v(4) r(2) by simp_all
    then show thesis using that [OF r(4) _ r(3), of "Suc (rq_t st)"] v(1-3) by auto
  qed
qed

text \<open>What success under the lock rests on.\<close>

definition refreshed_to ::
  "Authenticator \<Rightarrow> ('s, 'd) auth_runtime \<Rightarrow> string \<Rightarrow> ('s, 'd) request \<Rightarrow> Principal \<Rightarrow> ('s, 'd) request \<Rightarrow> bool" where
  "refreshed_to a rt token st p st' \<longleftrightarrow>
     (\<exists>db s q tok mark st2. sm_Load (rt_manager rt) (rq_t st) db token = Some s \<and> bound a rt s = Inr (Some q) \<and>
        (p = q \<or> (\<exists>n raw. rq_t st < n \<and> n < rq_t st' \<and> verified_as a rt n raw p \<and> pn_Subject p = pn_Subject q \<and> pn_Issuer p = pn_Issuer q)) \<and>
        syncSession a rt p tok mark st2 = (Inr (), st') \<and> rq_t st < rq_t st2)"

lemma refreshed_toI:
  assumes "sm_Load (rt_manager rt) (rq_t st) db token = Some s" "bound a rt s = Inr (Some q)"
    "p = q \<or> (\<exists>n raw. rq_t st < n \<and> n < rq_t st' \<and> verified_as a rt n raw p \<and> pn_Subject p = pn_Subject q \<and> pn_Issuer p = pn_Issuer q)"
    "syncSession a rt p tok mark st2 = (Inr (), st')" "rq_t st < rq_t st2"
  shows "refreshed_to a rt token st p st'"
  using assms unfolding refreshed_to_def by blast

lemma refresh_locked_Inr:
  assumes "refresh_locked a rt token st = (Inr x, st')"
  shows "\<exists>p. x = Some p \<and> refreshed_to a rt token st p st'"
proof -
  define st1 where "st1 = st\<lparr>rq_db := rt_others rt (rq_t st) (rq_db st), rq_t := Suc (rq_t st)\<rparr>"
  define st2 where "st2 = st1\<lparr>rq_t := Suc (rq_t st1)\<rparr>"
  obtain s where s: "sm_Load (rt_manager rt) (rq_t st) (rt_others rt (rq_t st) (rq_db st)) token = Some s"
    using assms unfolding refresh_locked_def Sessions_Load_def by (auto simp: op_Inr split: option.splits)
  obtain q where q: "bound a rt s = Inr (Some q)"
    using assms s unfolding refresh_locked_def Sessions_Load_def by (auto simp: op_Inr split: sum.splits option.splits)
  define tok where "tok = RefreshTokenFromSession (rt_manager rt) s"
  define m where "m = andThen (syncSession a rt q tok False) (\<lambda>_. returns (Some q))"
  have "m st2 = (Inr x, st') \<or> exchange_and_store a rt s q tok st2 = (Inr x, st')"
    using assms s q unfolding refresh_locked_def Sessions_Load_def Let_def st1_def st2_def tok_def m_def
    by (auto simp: first_step first_on_db fails_Inr if_op split: if_splits)
  then show ?thesis
  proof
    assume "m st2 = (Inr x, st')"
    then have "x = Some q" "syncSession a rt q tok False st2 = (Inr (), st')" unfolding m_def by (auto simp: op_Inr)
    moreover have "rq_t st < rq_t st2" by (simp add: st2_def st1_def)
    ultimately show ?thesis using refreshed_toI [OF s q, of q] by blast
  next
    assume "exchange_and_store a rt s q tok st2 = (Inr x, st')"
    then obtain p n st3 tok' where p: "x = Some p"
      "p = q \<or> (\<exists>raw. rq_t st2 < n \<and> n < rq_t st' \<and> verified_as a rt n raw p \<and> pn_Subject p = pn_Subject q \<and> pn_Issuer p = pn_Issuer q)"
      "syncSession a rt p tok' True st3 = (Inr (), st')" "rq_t st2 < rq_t st3" by (rule exchange_Inr)
    have t: "rq_t st < rq_t st2" by (simp add: st2_def st1_def)
    from p(2) have "p = q \<or> (\<exists>n raw. rq_t st < n \<and> n < rq_t st' \<and> verified_as a rt n raw p \<and> pn_Subject p = pn_Subject q \<and> pn_Issuer p = pn_Issuer q)"
      using order.strict_trans [OF t] by blast
    then show ?thesis using refreshed_toI [OF s q _ p(3)] p(1,4) t by auto
  qed
qed

lemma acquireSessionMutex_keeps:
  assumes "acquireSessionMutex a rt token st = (Inr lock, st')"
  shows "rq_session st' = rq_session st \<and> rq_lock st' = rq_lock st"
proof (cases "sessionLockStateFromContext (rq_lock st) token")
  case None
  then show ?thesis
    using assms unfolding acquireSessionMutex_def
    by (cases "rt_lock rt (rq_t st) (mutex_name (rt_store rt) token) (rt_others rt (rq_t st) (rq_db st))")
      (auto simp: first_step first_on_db returns_Inr fails_Inr split: if_splits option.splits)
qed (use assms in \<open>simp add: acquireSessionMutex_def first_step returns_Inr\<close>)

lemma acquireSessionLock_keeps:
  assumes "acquireSessionLock a rt token st = (Inr lock, st')"
  shows "rq_session st' = rq_session st \<and> rq_lock st' = rq_lock st"
proof -
  obtain handle st1 where m: "acquireSessionMutex a rt token st = (Inr handle, st1)" and
    r: "(if lh_mutex handle = None then returns handle
      else (\<lambda>st. case activateSessionFence a rt token (lh_fence handle) st of
        (Inl err, st1) \<Rightarrow> (Inl err, release rt handle st1) | (Inr _, st1) \<Rightarrow> (Inr handle, st1))) st1 = (Inr lock, st')"
    using assms unfolding acquireSessionLock_def andThen_Inr by blast
  have a: "rq_session st2 = rq_session st1 \<and> rq_lock st2 = rq_lock st1"
    if "activateSessionFence a rt token (lh_fence handle) st1 = (Inr (), st2)" for st2
    using that unfolding activateSessionFence_def ActivateSessionFence_def by (auto simp: op_Inr split: if_splits)
  have "st' = st1 \<or> activateSessionFence a rt token (lh_fence handle) st1 = (Inr (), st')"
    using r by (auto simp: returns_def split: if_splits prod.splits sum.splits)
  then have "rq_session st' = rq_session st1 \<and> rq_lock st' = rq_lock st1" using a by blast
  then show ?thesis using acquireSessionMutex_keeps [OF m] by simp
qed

lemma refreshSession_Inr:
  assumes "refreshSession a rt st = (Inr x, st')"
  obtains p st1 st2 where "x = Some p" "refreshed_to a rt (sm_Token (rt_manager rt) (rq_session st)) st1 p st2"
    "rq_t st \<le> rq_t st1" "rq_t st2 \<le> rq_t st'" "rq_session st' = rq_session st2"
proof -
  define token where "token = sm_Token (rt_manager rt) (rq_session st)"
  obtain lock lk st0 st1 st2 where l: "acquireSessionLock a rt token st = (Inr lock, st0)"
      "put_fence rt (lh_fence lock) st0 = (Inr (), st1)"
      "refresh_locked a rt token (st1\<lparr>rq_lock := lk\<rparr>) = (Inr x, st2)" "st' = release rt lock (st2\<lparr>rq_lock := rq_lock st1\<rparr>)"
    using assms unfolding refreshSession_def token_def by (auto simp: op_Inr split: if_splits)
  from refresh_locked_Inr [OF l(3)] obtain p where p: "x = Some p" "refreshed_to a rt token (st1\<lparr>rq_lock := lk\<rparr>) p st2" by blast
  have "rq_t st \<le> rq_t st0" using forwardD [OF forward_lock l(1)] .
  moreover have "rq_t st1 = rq_t st0" using l(2) by (auto simp: put_fence_def op_Inr split: if_splits)
  ultimately have "rq_t st \<le> rq_t (st1\<lparr>rq_lock := lk\<rparr>)" by simp
  moreover have "rq_t st2 \<le> rq_t st'" using l(4) release_forward [of "st2\<lparr>rq_lock := rq_lock st1\<rparr>" rt lock] by simp
  ultimately show thesis using that [OF p(1) p(2) [unfolded token_def]] l(4) release_keeps(1) [of rt lock] by simp
qed

lemma refreshed_to_facts:
  assumes "refreshed_to a rt token st p st'"
  shows "pn_Issuer p = oc_IssuerURL (oidc_of a)" "pn_Issuer p \<noteq> []" "pn_Subject p \<noteq> []"
    "\<exists>n. rq_t st \<le> n \<and> n < rq_t st' \<and> rt_clock rt n < pn_ExpiresAt p"
    "scs_ok hash (rt_manager rt) \<Longrightarrow> (\<And>n. 0 \<le> rt_clock rt n) \<Longrightarrow> bound a rt (rq_session st') = Inr (Some p)"
proof -
  obtain db s q tok mark st2 where r: "bound a rt s = Inr (Some q)"
      "p = q \<or> (\<exists>n raw. rq_t st < n \<and> n < rq_t st' \<and> verified_as a rt n raw p \<and> pn_Subject p = pn_Subject q \<and> pn_Issuer p = pn_Issuer q)"
      "syncSession a rt p tok mark st2 = (Inr (), st')" "rq_t st < rq_t st2"
    using assms unfolding refreshed_to_def by blast
  show i: "pn_Issuer p = oc_IssuerURL (oidc_of a)" "pn_Issuer p \<noteq> []" "pn_Subject p \<noteq> []"
    using r(2) bound_principal [OF r(1) [unfolded bound_def]] by auto
  obtain n where n: "rq_t st2 \<le> n" "n < rq_t st'" "rt_clock rt n < pn_ExpiresAt p" using syncSession_Inr(1) [OF r(3)] by blast
  then show "\<exists>n. rq_t st \<le> n \<and> n < rq_t st' \<and> rt_clock rt n < pn_ExpiresAt p" using r(4) by (intro exI [of _ n]) simp
  assume ok: "scs_ok hash (rt_manager rt)" "\<And>n. 0 \<le> rt_clock rt n"
  have "pn_ExpiresAt p \<noteq> 0" using n(3) ok(2) [of n] by simp
  then show "bound a rt (rq_session st') = Inr (Some p)" by (rule syncSession_Inr(2) [OF r(3) ok(1) i])
qed

lemma refreshed_to_vouched:
  assumes "refreshed_to a rt (sm_Token (rt_manager rt) (rq_session st)) st1 p st2" "rq_t st \<le> rq_t st1" "rq_t st2 \<le> t"
  shows "vouched a rt st t p"
proof -
  obtain db s q tok mark st3 where r: "sm_Load (rt_manager rt) (rq_t st1) db (sm_Token (rt_manager rt) (rq_session st)) = Some s"
      "bound a rt s = Inr (Some q)"
      "p = q \<or> (\<exists>n raw. rq_t st1 < n \<and> n < rq_t st2 \<and> verified_as a rt n raw p \<and> pn_Subject p = pn_Subject q \<and> pn_Issuer p = pn_Issuer q)"
      "syncSession a rt p tok mark st3 = (Inr (), st2)" "rq_t st1 < rq_t st3"
    using assms(1) unfolding refreshed_to_def by blast
  have "rq_t st3 \<le> rq_t st2" by (rule forwardD [OF forward_sync r(4)])
  then have "rq_t st1 < t" using r(5) assms(3) by simp
  moreover have "p = q \<or> (\<exists>n raw. rq_t st1 < n \<and> n < t \<and> verified_as a rt n raw p \<and> pn_Subject p = pn_Subject q)"
    using r(3) assms(3) by (auto intro: less_le_trans)
  ultimately show ?thesis unfolding vouched_def using r(1,2) assms(2) by blast
qed

subsection \<open>Ending and starting sessions\<close>

text \<open>A deletion that the store reports as done was made under a fence whose owner held its mutex.\<close>

definition deleted_under ::
  "'d redis_db \<Rightarrow> fencedSessionStore \<Rightarrow> int \<Rightarrow> string \<Rightarrow> string \<Rightarrow> 'd \<Rightarrow> 'd \<Rightarrow> bool" where
  "deleted_under r store now fence token db db' \<longleftrightarrow>
     (\<exists>lockKey owner. parseSessionFence fence = (lockKey, owner, True) \<and> rd_GET r db now lockKey = Some owner \<and>
        rd_GET r db now (fenceKey store token) = Some fence \<and>
        (\<forall>u \<ge> now. rd_GET r db' u (sessionKey store token) = None \<and> rd_GET r db' u (fenceKey store token) = None))"

lemma DeleteCtx_None:
  assumes "redis_ok r" "DeleteCtx r store n now fence token db = (None, db')"
  shows "deleted_under r store now fence token db db'"
proof -
  obtain lockKey owner valid where f: "parseSessionFence fence = (lockKey, owner, valid)" by (cases "parseSessionFence fence")
  have "fence \<noteq> []" using assms(2) by (auto simp: DeleteCtx_def store_Delete_def split: if_splits option.splits)
  then have d: "deleteWithFence r store n now token fence db = (None, db')" using assms(2) by (simp add: DeleteCtx_def)
  then have "valid" unfolding deleteWithFence_def f by (simp split: if_splits)
  then have "redis_call n (fencedDeleteExpectedScript r now (sessionKey store token) (fenceKey store token) lockKey fence owner) db = (Some True, db')"
    using d unfolding deleteWithFence_def f by (auto simp: script_error_def split: prod.splits option.splits if_splits)
  then have "fencedDeleteExpectedScript r now (sessionKey store token) (fenceKey store token) lockKey fence owner db = (True, db')"
    by (auto simp: redis_call_def prod_eq_iff split: link.splits)
  then show ?thesis
    using f \<open>valid\<close> unfolding deleted_under_def fencedDeleteExpectedScript_def
    by (auto simp: redis_DEL [OF assms(1)] split: if_splits)
qed

text \<open>An activation that the store reports as done was made while the owner of the fence held its mutex; it wrote
  the fence of the session and nothing else.\<close>

definition activated_under ::
  "'d redis_db \<Rightarrow> fencedSessionStore \<Rightarrow> int \<Rightarrow> string \<Rightarrow> string \<Rightarrow> 'd \<Rightarrow> 'd \<Rightarrow> bool" where
  "activated_under r store now fence token db db' \<longleftrightarrow>
     (\<exists>lockKey owner. parseSessionFence fence = (lockKey, owner, True) \<and> rd_GET r db now lockKey = Some owner) \<and>
     rd_GET r db' now (fenceKeyForSessionToken store token) = Some fence \<and>
     (\<forall>u \<ge> now. \<forall>k. k \<noteq> fenceKeyForSessionToken store token \<longrightarrow> rd_GET r db' u k = rd_GET r db u k)"

lemma Activate_None:
  assumes "redis_ok r" "Activate r store n now token fence ttl db = (None, db')"
  shows "activated_under r store now fence token db db'"
proof -
  obtain lockKey owner where f: "parseSessionFence fence = (lockKey, owner, True)"
    using assms(2) by (cases "parseSessionFence fence") (auto simp: Activate_def split: if_splits)
  define script where "script = fencedActivateScript r now lockKey (fenceKeyForSessionToken store token) owner fence (activate_expiry ttl) db"
  have "script = (True, db')"
    using assms(2) unfolding Activate_def f script_def
    by (auto simp: redis_call_def script_error_def prod_eq_iff split: link.splits prod.splits option.splits if_splits)
  then show ?thesis
    using f unfolding activated_under_def script_def fencedActivateScript_def
    by (auto simp: redis_SET [OF assms(1)] split: if_splits)
qed

lemma scs_destroy_deletes:
  assumes "scs_ok hash m" "sm_Token m s \<noteq> []" "sm_Destroy m del t s db = (True, s', db')"
  shows "del (hash (sm_Token m s)) db = (None, db')"
proof -
  have "\<forall>del t s db s' db'. sm_Token m s \<noteq> [] \<longrightarrow> sm_Destroy m del t s db = (True, s', db') \<longrightarrow> del (hash (sm_Token m s)) db = (None, db')"
    using assms(1) unfolding scs_ok_def by (elim conjE)
  from this [rule_format, of s del t db s' db', OF assms(2,3)] show ?thesis .
qed

lemma scs_renew_deletes:
  assumes "scs_ok hash m" "sm_Token m s \<noteq> []" "sm_RenewToken m del t s db = (True, s', db')"
  shows "del (hash (sm_Token m s)) db = (None, db')"
proof -
  have "\<forall>del t s db s' db'. sm_Token m s \<noteq> [] \<longrightarrow> sm_RenewToken m del t s db = (True, s', db') \<longrightarrow> del (hash (sm_Token m s)) db = (None, db')"
    using assms(1) unfolding scs_ok_def by (elim conjE)
  from this [rule_format, of s del t db s' db', OF assms(2,3)] show ?thesis .
qed

lemma scs_renew_get: "scs_ok hash m \<Longrightarrow> sm_RenewToken m del t s db = (True, s', db') \<Longrightarrow> sm_Get m s' k = sm_Get m s k"
  unfolding scs_ok_def by blast

lemma scs_deadline:
  assumes "scs_ok hash m"
  shows "sm_Deadline m (sm_Put m s k v) = sm_Deadline m s" "sm_Deadline m (sm_Remove m s k) = sm_Deadline m s"
    "sm_Deadline m (sm_SetDeadline m s d) = d"
  using assms by (simp_all add: scs_ok_def)

lemma StorePrincipal_deadline:
  "scs_ok hash m \<Longrightarrow> sm_Deadline m (StorePrincipal m sha s p tok oidc) = sm_Deadline m s"
  by (simp add: StorePrincipal_def Let_def scs_deadline)

lemma Sessions_Destroy_Inr:
  assumes "Sessions_Destroy rt st = (Inr True, st')"
    "scs_ok (hashSessionToken (fs_sha256 (rt_store rt))) (rt_manager rt)" "redis_ok (rt_redis rt)"
    "sm_Token (rt_manager rt) (rq_session st) \<noteq> []"
  shows "deleted_under (rt_redis rt) (rt_store rt) (rt_server rt (rq_t st)) (sessionLockFence (rq_lock st))
      (stored_token (rt_store rt) (sm_Token (rt_manager rt) (rq_session st))) (rt_others rt (rq_t st) (rq_db st)) (rq_db st')"
    "rq_t st' = Suc (rq_t st)"
proof -
  obtain s' db' where d: "sm_Destroy (rt_manager rt)
        (DeleteCtx (rt_redis rt) (rt_store rt) (rt_link rt (rq_t st)) (rt_server rt (rq_t st)) (sessionLockFence (rq_lock st)))
        (rq_t st) (rq_session st) (rt_others rt (rq_t st) (rq_db st)) = (True, s', db')"
      "st' = st\<lparr>rq_session := s', rq_db := db', rq_t := Suc (rq_t st)\<rparr>"
    using assms(1) unfolding Sessions_Destroy_def first_step on_session_db_Inr by blast
  show "deleted_under (rt_redis rt) (rt_store rt) (rt_server rt (rq_t st)) (sessionLockFence (rq_lock st))
      (stored_token (rt_store rt) (sm_Token (rt_manager rt) (rq_session st))) (rt_others rt (rq_t st) (rq_db st)) (rq_db st')"
    using DeleteCtx_None [OF assms(3) scs_destroy_deletes [OF assms(2,4) d(1)]] d(2) by simp
  show "rq_t st' = Suc (rq_t st)" using d(2) by simp
qed

lemma Logout_Inr:
  assumes "Logout a rt st = (Inr u, st')" "ac_Mode (au_Config a) = AuthModeNative" "au_hasSessions a"
    "sm_Token (rt_manager rt) (rq_session st) \<noteq> []"
  obtains lock st1 lk st2 where "acquireSessionLock a rt (sm_Token (rt_manager rt) (rq_session st)) st = (Inr lock, st1)"
    "sessionLockFence lk = lh_fence lock" "Sessions_Destroy rt (st1\<lparr>rq_lock := lk\<rparr>) = (Inr True, st2)"
    "st' = release rt lock (st2\<lparr>rq_lock := rq_lock st1\<rparr>)"
proof -
  define token where "token = sm_Token (rt_manager rt) (rq_session st)"
  define destroy where "destroy = andThen (Sessions_Destroy rt) (\<lambda>ok. if ok then returns () else fails ErrSessionStore)"
  have "andThen (acquireSessionLock a rt token) (\<lambda>lock. andThen the_lock (\<lambda>lk. deferring (release rt lock)
      (in_context (withSessionLock lk token (lh_fence lock) (lh_healthy lock)) destroy))) st = (Inr u, st')"
    using assms unfolding Logout_def token_def destroy_def by (simp add: first_step)
  then obtain lock st1 st3 where l: "acquireSessionLock a rt token st = (Inr lock, st1)"
    "destroy (st1\<lparr>rq_lock := withSessionLock (rq_lock st1) token (lh_fence lock) (lh_healthy lock)\<rparr>) = (Inr u, st3)"
    "st' = release rt lock (st3\<lparr>rq_lock := rq_lock st1\<rparr>)"
    unfolding andThen_Inr the_lock_Inr deferring_Inr in_context_Inr by blast
  have "sessionLockFence (withSessionLock (rq_lock st1) token (lh_fence lock) (lh_healthy lock)) = lh_fence lock"
    using assms(4) by (simp add: withSessionLock_def sessionLockFence_def token_def)
  moreover have "Sessions_Destroy rt (st1\<lparr>rq_lock := withSessionLock (rq_lock st1) token (lh_fence lock) (lh_healthy lock)\<rparr>) = (Inr True, st3)"
    using l(2) unfolding destroy_def andThen_Inr by (auto simp: returns_Inr fails_Inr if_op split: if_splits)
  ultimately show thesis using that [OF l(1) [unfolded token_def] _ _ l(3)] by blast
qed

text \<open>What a finished login has done.\<close>

lemma finish_login_Inr:
  assumes "finish_login a rt p tok ret st = (Inr x, st')"
  obtains s1 db s2 lk where "x = ret"
    "sm_RenewToken (rt_manager rt) (DeleteCtx (rt_redis rt) (rt_store rt) (rt_link rt (rq_t st)) (rt_server rt (rq_t st)) (sessionLockFence (rq_lock st)))
       (rq_t st) (rq_session st) (rt_others rt (rq_t st) (rq_db st)) = (True, s1, db)"
    "s2 = sm_Remove (rt_manager rt) (StorePrincipal (rt_manager rt) (fs_sha256 (rt_store rt)) s1 p tok (oidc_of a)) pendingStateKey"
    "rq_session st' = (if tok = [] then sm_SetDeadline (rt_manager rt) s2 (refreshedSessionExpiry (sm_Deadline (rt_manager rt) s2) (pn_ExpiresAt p)) else s2)"
    "lk = (if sm_Token (rt_manager rt) s1 = [] then rq_lock st else map_option (\<lambda>l. l\<lparr>sl_token := sm_Token (rt_manager rt) s1\<rparr>) (rq_lock st))"
    "rq_lock st' = lk"
    "if sessionLockFence (rq_lock st) = [] then rq_db st' = db
     else Activate (rt_redis rt) (rt_store rt) (rt_link rt (Suc (rq_t st))) (rt_server rt (Suc (rq_t st))) (sm_Token (rt_manager rt) s1)
       (sessionLockFence (rq_lock st)) (sc_AbsoluteLifetime (ac_Session (au_Config a))) (rt_others rt (Suc (rq_t st)) db) = (None, rq_db st')"
proof -
  obtain s1 db where r: "sm_RenewToken (rt_manager rt) (DeleteCtx (rt_redis rt) (rt_store rt) (rt_link rt (rq_t st)) (rt_server rt (rq_t st)) (sessionLockFence (rq_lock st)))
       (rq_t st) (rq_session st) (rt_others rt (rq_t st) (rq_db st)) = (True, s1, db)"
    using assms unfolding finish_login_def Sessions_RenewToken_def andThen_Inr the_lock_Inr on_session_db_Inr
    by (auto simp: fails_Inr if_op split: if_splits)
  define st1 where "st1 = st\<lparr>rq_session := s1, rq_db := db, rq_t := Suc (rq_t st)\<rparr>"
  define st2 where "st2 = snd (rebindSessionLock (sm_Token (rt_manager rt) s1) st1)"
  have st2: "rebindSessionLock (sm_Token (rt_manager rt) s1) st1 = (Inr (), st2)" "rq_session st2 = s1" "rq_session st1 = s1"
    by (simp_all add: st2_def rebindSessionLock_def st1_def)
  have ren: "Sessions_RenewToken rt st = (Inr True, st1)"
    unfolding Sessions_RenewToken_def andThen_Inr the_lock_Inr on_session_db_Inr st1_def using r by blast
  define act where "act = (if sessionLockFence (rq_lock st2) = [] then returns None
    else ActivateSessionFence a rt (sm_Token (rt_manager rt) s1) (sessionLockFence (rq_lock st2)))"
  have "finish_login a rt p tok ret st =
      andThen act (\<lambda>err. if err \<noteq> None then fails ErrTemporaryUnavailable else keep_login a rt p tok ret) st2"
    unfolding finish_login_def act_def by (simp add: andThen_run [of "Sessions_RenewToken rt", OF ren] first_step st2(3) andThen_run [of "rebindSessionLock _", OF st2(1)] del: not_None_eq)
  then have "andThen act (\<lambda>err. if err \<noteq> None then fails ErrTemporaryUnavailable else keep_login a rt p tok ret) st2 = (Inr x, st')"
    using assms by (rule trans [OF sym])
  then obtain st3 where k: "act st2 = (Inr None, st3)" "keep_login a rt p tok ret st3 = (Inr x, st')"
    unfolding andThen_Inr by (auto simp: fails_Inr if_op split: if_splits)
  define lk where "lk = (if sm_Token (rt_manager rt) s1 = [] then rq_lock st
    else map_option (\<lambda>l. l\<lparr>sl_token := sm_Token (rt_manager rt) s1\<rparr>) (rq_lock st))"
  have l: "rq_lock st2 = lk" "rq_db st2 = db" "rq_t st2 = Suc (rq_t st)" "sessionLockFence lk = sessionLockFence (rq_lock st)"
    by (simp_all add: st2_def rebindSessionLock_def st1_def lk_def sessionLockFence_def split: option.split)
  have s3: "rq_session st3 = s1" "rq_lock st3 = lk"
    using k(1) st2(2) l(1) unfolding act_def ActivateSessionFence_def by (auto simp: op_Inr split: if_splits)
  have d3: "if sessionLockFence (rq_lock st) = [] then rq_db st3 = db
     else Activate (rt_redis rt) (rt_store rt) (rt_link rt (Suc (rq_t st))) (rt_server rt (Suc (rq_t st))) (sm_Token (rt_manager rt) s1)
       (sessionLockFence (rq_lock st)) (sc_AbsoluteLifetime (ac_Session (au_Config a))) (rt_others rt (Suc (rq_t st)) db) = (None, rq_db st3)"
    using k(1) l unfolding act_def ActivateSessionFence_def by (auto simp: op_Inr split: if_splits)
  define s2 where "s2 = sm_Remove (rt_manager rt) (StorePrincipal (rt_manager rt) (fs_sha256 (rt_store rt)) s1 p tok (oidc_of a)) pendingStateKey"
  have e: "x = ret" "rq_session st' = (if tok = [] then sm_SetDeadline (rt_manager rt) s2
      (refreshedSessionExpiry (sm_Deadline (rt_manager rt) s2) (pn_ExpiresAt p)) else s2)" "rq_lock st' = lk" "rq_db st' = rq_db st3"
    using k(2) s3 unfolding keep_login_def s2_def by (auto simp: first_step if_op returns_Inr split: if_splits)
  show thesis by (rule that [OF e(1) r s2_def e(2) lk_def e(3) d3 [folded e(4)]])
qed

text \<open>The renewal at event \<open>n\<close> of the session \<open>s\<close> of a request with the lock \<open>lk\<close>: the manager had the store delete the session,
  and lock, session and fence carry the new token at the end.\<close>

definition session_renewed ::
  "('s, 'd) auth_runtime \<Rightarrow> nat \<Rightarrow> lock_ctx \<Rightarrow> 's \<Rightarrow> 'd \<Rightarrow> lock_ctx \<Rightarrow> 's \<Rightarrow> 'd \<Rightarrow> bool" where
  "session_renewed rt n lk s db lk' s' db' \<longleftrightarrow>
     (let m = rt_manager rt; r = rt_redis rt; store = rt_store rt; fence = sessionLockFence lk; token = sm_Token m s'
      in \<exists>s1 db1.
        sm_RenewToken m (DeleteCtx r store (rt_link rt n) (rt_server rt n) fence) n s (rt_others rt n db) = (True, s1, db1) \<and>
        deleted_under r store (rt_server rt n) fence (hashSessionToken (fs_sha256 store) (sm_Token m s)) (rt_others rt n db) db1 \<and>
        token = sm_Token m s1 \<and>
        lk' = (if token = [] then lk else map_option (\<lambda>l. l\<lparr>sl_token := token\<rparr>) lk) \<and>
        activated_under r store (rt_server rt (Suc n)) fence token (rt_others rt (Suc n) db1) db')"

lemma scs_token:
  assumes "scs_ok hash m"
  shows "sm_Token m (sm_Put m s k v) = sm_Token m s" "sm_Token m (sm_Remove m s k) = sm_Token m s"
    "sm_Token m (sm_SetDeadline m s d) = sm_Token m s"
  using assms by (simp_all add: scs_ok_def)

lemma finish_login_renews:
  assumes "finish_login a rt p tok ret st = (Inr x, st')" "redis_ok (rt_redis rt)"
    "scs_ok (hashSessionToken (fs_sha256 (rt_store rt))) (rt_manager rt)" "sm_Token (rt_manager rt) (rq_session st) \<noteq> []"
  shows "session_renewed rt (rq_t st) (rq_lock st) (rq_session st) (rq_db st) (rq_lock st') (rq_session st') (rq_db st')"
proof -
  obtain s1 db s2 lk where f:
    "sm_RenewToken (rt_manager rt) (DeleteCtx (rt_redis rt) (rt_store rt) (rt_link rt (rq_t st)) (rt_server rt (rq_t st)) (sessionLockFence (rq_lock st)))
       (rq_t st) (rq_session st) (rt_others rt (rq_t st) (rq_db st)) = (True, s1, db)"
    "s2 = sm_Remove (rt_manager rt) (StorePrincipal (rt_manager rt) (fs_sha256 (rt_store rt)) s1 p tok (oidc_of a)) pendingStateKey"
    "rq_session st' = (if tok = [] then sm_SetDeadline (rt_manager rt) s2 (refreshedSessionExpiry (sm_Deadline (rt_manager rt) s2) (pn_ExpiresAt p)) else s2)"
    "lk = (if sm_Token (rt_manager rt) s1 = [] then rq_lock st else map_option (\<lambda>l. l\<lparr>sl_token := sm_Token (rt_manager rt) s1\<rparr>) (rq_lock st))"
    "rq_lock st' = lk"
    "if sessionLockFence (rq_lock st) = [] then rq_db st' = db
     else Activate (rt_redis rt) (rt_store rt) (rt_link rt (Suc (rq_t st))) (rt_server rt (Suc (rq_t st))) (sm_Token (rt_manager rt) s1)
       (sessionLockFence (rq_lock st)) (sc_AbsoluteLifetime (ac_Session (au_Config a))) (rt_others rt (Suc (rq_t st)) db) = (None, rq_db st')"
    by (rule finish_login_Inr [OF assms(1)])
  have del: "deleted_under (rt_redis rt) (rt_store rt) (rt_server rt (rq_t st)) (sessionLockFence (rq_lock st))
      (hashSessionToken (fs_sha256 (rt_store rt)) (sm_Token (rt_manager rt) (rq_session st))) (rt_others rt (rq_t st) (rq_db st)) db"
    by (rule DeleteCtx_None [OF assms(2) scs_renew_deletes [OF assms(3,4) f(1)]])
  then have "sessionLockFence (rq_lock st) \<noteq> []" by (auto simp: deleted_under_def parseSessionFence_def)
  then have "activated_under (rt_redis rt) (rt_store rt) (rt_server rt (Suc (rq_t st))) (sessionLockFence (rq_lock st))
      (sm_Token (rt_manager rt) s1) (rt_others rt (Suc (rq_t st)) db) (rq_db st')"
    using f(6) Activate_None [OF assms(2)] by simp
  moreover have "sm_Token (rt_manager rt) (rq_session st') = sm_Token (rt_manager rt) s1"
    unfolding f(2,3) by (simp add: scs_token [OF assms(3)] StorePrincipal_def Let_def)
  ultimately show ?thesis using del f(1,4,5) unfolding session_renewed_def Let_def by auto
qed

lemma renewed_gone:
  assumes "session_renewed rt n lk s db lk' s' db'" "rt_server rt n \<le> u" "rt_server rt (Suc n) \<le> u"
    and old: "old = sessionKey (rt_store rt) (hashSessionToken (fs_sha256 (rt_store rt)) (sm_Token (rt_manager rt) s))"
    and quiet: "\<forall>d. rd_GET (rt_redis rt) (rt_others rt (Suc n) d) u old = rd_GET (rt_redis rt) d u old"
  shows "rd_GET (rt_redis rt) db' u old = None"
proof -
  obtain db1 token where d: "rd_GET (rt_redis rt) db1 u old = None"
      "activated_under (rt_redis rt) (rt_store rt) (rt_server rt (Suc n)) (sessionLockFence lk) token (rt_others rt (Suc n) db1) db'"
    using assms(1,2) unfolding session_renewed_def deleted_under_def Let_def old by blast
  have "old \<noteq> fenceKeyForSessionToken (rt_store rt) token"
    using keys_differ(3) unfolding old fenceKeyForSessionToken_def by metis
  then show ?thesis using d assms(3) quiet unfolding activated_under_def by simp
qed

lemma verifyIDToken_Inr:
  assumes "verifyIDToken a rt raw nonce st = (Inr p, st')"
  shows "nonce \<noteq> [] \<and> verified_as a rt (rq_t st) raw p \<and> map_option idt_Nonce (rt_verify rt (rq_t st) raw) = Some nonce \<and>
    st' = st\<lparr>rq_t := Suc (rq_t st)\<rparr>"
  using assms unfolding verifyIDToken_def verified_as_def
  by (auto simp: op_Inr split: if_splits option.splits sum.splits)

lemma CompleteLogin_Inr:
  assumes "CompleteLogin a rt state code st = (Inr returnTo, st')"
  obtains txn db tok raw p st1 where
    "ConsumeLoginTransaction (rt_redis rt) (rt_decode rt) (fs_prefix (rt_store rt)) (rt_link rt (rq_t st)) (rt_server rt (rq_t st)) state
       (rt_others rt (rq_t st) (rq_db st)) = (Inr (Some txn), db)"
    "sm_Token (rt_manager rt) (rq_session st) \<noteq> []"
    "hashSessionToken (fs_sha256 (rt_store rt)) (sm_Token (rt_manager rt) (rq_session st)) = lt_PreAuthSessionHash txn"
    "rt_exchange rt (Suc (rq_t st)) code (lt_PKCEVerifier txn) = Some tok" "ot_IDToken tok = Some raw" "raw \<noteq> []"
    "verifyIDToken a rt raw (lt_Nonce txn) (st\<lparr>rq_db := db, rq_t := Suc (Suc (rq_t st))\<rparr>) = (Inr p, st1)"
    "finish_login a rt p (ot_RefreshToken tok) (lt_ReturnTo txn) st1 = (Inr returnTo, st')"
proof -
  obtain c db where c: "ConsumeLoginTransaction (rt_redis rt) (rt_decode rt) (fs_prefix (rt_store rt)) (rt_link rt (rq_t st)) (rt_server rt (rq_t st)) state
       (rt_others rt (rq_t st) (rq_db st)) = (c, db)" by fastforce
  have g: "login_enabled a" "state \<noteq> []" "code \<noteq> []"
    using assms unfolding CompleteLogin_def by (auto simp: fails_Inr if_op split: if_splits)
  obtain txn where t: "c = Inr (Some txn)"
    using assms g c unfolding CompleteLogin_def by (auto simp: first_on_db fails_Inr split: sum.splits option.splits)
  note run = assms [unfolded CompleteLogin_def first_on_db c fst_conv snd_conv t sum.case option.case first_step]
  have h: "sm_Token (rt_manager rt) (rq_session st) \<noteq> []"
    "hashSessionToken (fs_sha256 (rt_store rt)) (sm_Token (rt_manager rt) (rq_session st)) = lt_PreAuthSessionHash txn"
    using run g by (auto simp: first_on_db first_step c t fails_Inr if_op split: if_splits)
  obtain tok where tok: "rt_exchange rt (Suc (rq_t st)) code (lt_PKCEVerifier txn) = Some tok"
    using run g h by (auto simp: first_on_db first_step c t fails_Inr if_op split: if_splits option.splits)
  obtain raw where raw: "ot_IDToken tok = Some raw" "raw \<noteq> []"
    using run g h tok by (auto simp: first_on_db first_step c t fails_Inr if_op split: if_splits option.splits)
  have v: "(case verifyIDToken a rt raw (lt_Nonce txn) (st\<lparr>rq_db := db, rq_t := Suc (Suc (rq_t st))\<rparr>) of
      (Inl _, st1) \<Rightarrow> (Inl ErrInvalidCallback, st1)
    | (Inr p, st1) \<Rightarrow> finish_login a rt p (ot_RefreshToken tok) (lt_ReturnTo txn) st1) = (Inr returnTo, st')"
    using run g h tok raw by (simp add: first_on_db first_step c t if_op)
  then show thesis
    using that c [unfolded t] h tok raw by (auto split: prod.splits sum.splits)
qed

text \<open>A session with the values of a login's principal.\<close>

lemma login_bound:
  assumes "scs_ok hash (rt_manager rt)" "verified_as a rt n raw p" "pn_ExpiresAt p \<noteq> 0"
    and get: "\<And>key. sm_Get (rt_manager rt) s key = (if key = pendingStateKey then None
        else sm_Get (rt_manager rt) (StorePrincipal (rt_manager rt) (fs_sha256 (rt_store rt)) s1 p tok (oidc_of a)) key)"
  shows "bound a rt s = Inr (Some p)"
proof -
  define s0 where "s0 = StorePrincipal (rt_manager rt) (fs_sha256 (rt_store rt)) s1 p tok (oidc_of a)"
  obtain claims groups expiry where c: "principalFromClaims (oc_IssuerURL (oidc_of a)) claims groups expiry = Inr p"
    using assms(2) unfolding verified_as_def by blast
  have i: "pn_Issuer p = oc_IssuerURL (oidc_of a)" "pn_Subject p \<noteq> []" "pn_Issuer p \<noteq> []"
    using claims_principal [OF c] c by (auto simp: principalFromClaims_def split: if_splits)
  have "bound a rt s = bound a rt s0"
    unfolding bound_def by (rule principal_from_values) (auto simp: get s0_def session_keys)
  moreover have "PrincipalFromSession (rt_manager rt) s0 = Inr (Some p)"
    unfolding s0_def by (rule stored_principal [OF assms(1) i(3,2) assms(3)])
  moreover have "sm_Get (rt_manager rt) s0 sessionBindingKey = Some (SString (sessionBinding (fs_sha256 (rt_store rt)) (oidc_of a)))"
    unfolding s0_def by (simp add: stored_values [OF assms(1)] session_keys)
  ultimately show ?thesis unfolding bound_def principalFromBoundSession_def using i(1) by simp
qed

section \<open>Properties\<close>

text \<open>C11. Whatever the provider, the network, the clocks and the other requests do, a principal that
  authenticates a request comes from the configured issuer and names a subject; it is the principal of
  the request's session, or of that session as the store has it, or that of a verified ID token for the
  subject of the latter; it had not expired at a reading of the clock taken during the call; and
  it is the principal the session holds afterwards. So a refresh that brings no ID token never extends
  the authority of a session.\<close>

theorem authenticated_principal_current:
  assumes "AuthenticatedPrincipal a rt st = (Inr (Some p), st')" "scs_ok hash (rt_manager rt)" "\<And>n. 0 \<le> rt_clock rt n"
  shows "pn_Issuer p = oc_IssuerURL (oidc_of a) \<and> pn_Subject p \<noteq> [] \<and>
    (\<exists>n. rq_t st \<le> n \<and> n < rq_t st' \<and> rt_clock rt n < pn_ExpiresAt p) \<and>
    vouched a rt st (rq_t st') p \<and> bound a rt (rq_session st') = Inr (Some p)"
proof -
  define st1 where "st1 = st\<lparr>rq_t := Suc (rq_t st)\<rparr>"
  obtain q where q: "bound a rt (rq_session st) = Inr (Some q)"
    using assms(1) unfolding AuthenticatedPrincipal_def
    by (auto simp: first_step if_op fails_Inr returns_Inr destroyed_with_Inr split: if_splits sum.splits option.splits)
  have "p = q \<and> rt_clock rt (rq_t st) < pn_ExpiresAt p \<and> st' = st1 \<or> refreshSession a rt st1 = (Inr (Some p), st')"
    using assms(1) q unfolding AuthenticatedPrincipal_def st1_def
    by (auto simp: first_step if_op fails_Inr returns_Inr destroyed_with_Inr refreshSkew_def split: if_splits)
  then show ?thesis
  proof
    assume "p = q \<and> rt_clock rt (rq_t st) < pn_ExpiresAt p \<and> st' = st1"
    then show ?thesis
      using q bound_principal [OF q [unfolded bound_def]] unfolding vouched_def st1_def by auto
  next
    assume "refreshSession a rt st1 = (Inr (Some p), st')"
    then obtain p' st2 st3 where r: "Some p = Some p'" "refreshed_to a rt (sm_Token (rt_manager rt) (rq_session st1)) st2 p' st3"
        "rq_t st1 \<le> rq_t st2" "rq_t st3 \<le> rq_t st'" "rq_session st' = rq_session st3"
      by (rule refreshSession_Inr)
    have r2: "refreshed_to a rt (sm_Token (rt_manager rt) (rq_session st)) st2 p st3" using r(1,2) unfolding st1_def by simp
    have t: "rq_t st \<le> rq_t st2" using r(3) by (simp add: st1_def)
    obtain n where n: "rq_t st2 \<le> n" "n < rq_t st3" "rt_clock rt n < pn_ExpiresAt p" using refreshed_to_facts(4) [OF r2] by blast
    have "\<exists>n. rq_t st \<le> n \<and> n < rq_t st' \<and> rt_clock rt n < pn_ExpiresAt p"
      using n t r(4) by (intro exI [of _ n]) simp
    then show ?thesis
      using refreshed_to_facts(1,3) [OF r2] refreshed_to_facts(5) [OF r2 assms(2,3)] refreshed_to_vouched [OF r2 t r(4)] r(5) by simp
  qed
qed


text \<open>A logout that reports success in native mode has deleted the session and its fence from the store, at a
  moment when the fence was the one in the store and its owner held the mutex; all that it does to the
  database afterwards is to release the mutex, if it took it.\<close>

lemma logout_deletes_session:
  assumes "Logout a rt st = (Inr u, st')" "ac_Mode (au_Config a) = AuthModeNative" "au_hasSessions a"
    "sm_Token (rt_manager rt) (rq_session st) \<noteq> []" "redis_ok (rt_redis rt)"
    "scs_ok (hashSessionToken (fs_sha256 (rt_store rt))) (rt_manager rt)"
  shows "\<exists>n fence db db'. rq_t st \<le> n \<and> n < rq_t st' \<and>
    deleted_under (rt_redis rt) (rt_store rt) (rt_server rt n) fence
      (hashSessionToken (fs_sha256 (rt_store rt)) (sm_Token (rt_manager rt) (rq_session st))) db db' \<and>
    (rq_db st' = db' \<or> (\<exists>name owner. rq_db st' = rt_unlock rt (Suc n) name owner (rt_others rt (Suc n) db')))"
proof -
  obtain lock st1 lk st2 where l: "acquireSessionLock a rt (sm_Token (rt_manager rt) (rq_session st)) st = (Inr lock, st1)"
    "sessionLockFence lk = lh_fence lock" "Sessions_Destroy rt (st1\<lparr>rq_lock := lk\<rparr>) = (Inr True, st2)"
    "st' = release rt lock (st2\<lparr>rq_lock := rq_lock st1\<rparr>)"
    by (rule Logout_Inr [OF assms(1-4)])
  have k: "rq_session st1 = rq_session st" "rq_t st \<le> rq_t st1"
    using acquireSessionLock_keeps [OF l(1)] forwardD [OF forward_lock l(1)] by simp_all
  have d: "deleted_under (rt_redis rt) (rt_store rt) (rt_server rt (rq_t st1)) (lh_fence lock)
      (stored_token (rt_store rt) (sm_Token (rt_manager rt) (rq_session st))) (rt_others rt (rq_t st1) (rq_db st1)) (rq_db st2)"
    "rq_t st2 = Suc (rq_t st1)"
    using Sessions_Destroy_Inr [OF l(3) assms(6,5)] assms(4) k(1) l(2) by simp_all
  have "rq_t st2 \<le> rq_t st'" using release_forward [of "st2\<lparr>rq_lock := rq_lock st1\<rparr>" rt lock] l(4) by simp
  then have "rq_t st1 < rq_t st'" using d(2) by simp
  moreover have "rq_db st' = rq_db st2 \<or> (\<exists>name owner. rq_db st' = rt_unlock rt (Suc (rq_t st1)) name owner (rt_others rt (Suc (rq_t st1)) (rq_db st2)))"
    unfolding l(4) release_def on_db_def using d(2) by (auto split: option.splits)
  ultimately show ?thesis using k(2) d(1) by blast
qed


text \<open>C15. A login that completes has consumed a login transaction under its state, and that transaction was made for the
  session of this very request; it has exchanged the code with the transaction's PKCE verifier, and
  verified the ID token, whose nonce is the transaction's. The session manager has renewed the token of the session
  that presented the callback: the store deleted that session with its fence, under the fence of the lock, and
  the login goes on, in the session, in the lock of the request and in the fence that is active in the resulting database, under
  the token it was renewed to; if no other request writes it in between, the presented session is gone from the
  resulting database for good. The session
  holds the principal of the verified claims and
  the refresh token, and no pending state; without a refresh token it does not outlive the ID token.\<close>

theorem login_completes_only_its_own:
  assumes "CompleteLogin a rt state code st = (Inr returnTo, st')" "redis_ok (rt_redis rt)"
    "scs_ok (hashSessionToken (fs_sha256 (rt_store rt))) (rt_manager rt)"
  shows "\<exists>txn db tok raw p.
    ConsumeLoginTransaction (rt_redis rt) (rt_decode rt) (fs_prefix (rt_store rt)) (rt_link rt (rq_t st)) (rt_server rt (rq_t st)) state
      (rt_others rt (rq_t st) (rq_db st)) = (Inr (Some txn), db) \<and> returnTo = lt_ReturnTo txn \<and>
    lt_PreAuthSessionHash txn = hashSessionToken (fs_sha256 (rt_store rt)) (sm_Token (rt_manager rt) (rq_session st)) \<and>
    rt_exchange rt (Suc (rq_t st)) code (lt_PKCEVerifier txn) = Some tok \<and> ot_IDToken tok = Some raw \<and>
    verified_as a rt (Suc (Suc (rq_t st))) raw p \<and> lt_Nonce txn \<noteq> [] \<and>
    map_option idt_Nonce (rt_verify rt (Suc (Suc (rq_t st))) raw) = Some (lt_Nonce txn) \<and>
    session_renewed rt (Suc (Suc (Suc (rq_t st)))) (rq_lock st) (rq_session st) db (rq_lock st') (rq_session st') (rq_db st') \<and>
    (\<forall>u \<ge> max (rt_server rt (rq_t st + 3)) (rt_server rt (rq_t st + 4)).
       let old = sessionKey (rt_store rt) (lt_PreAuthSessionHash txn) in
       (\<forall>d. rd_GET (rt_redis rt) (rt_others rt (rq_t st + 4) d) u old = rd_GET (rt_redis rt) d u old) \<longrightarrow>
       rd_GET (rt_redis rt) (rq_db st') u old = None) \<and>
    (pn_ExpiresAt p \<noteq> 0 \<longrightarrow> bound a rt (rq_session st') = Inr (Some p)) \<and>
    RefreshTokenFromSession (rt_manager rt) (rq_session st') = ot_RefreshToken tok \<and>
    sm_Get (rt_manager rt) (rq_session st') pendingStateKey = None \<and>
    (ot_RefreshToken tok = [] \<and> pn_ExpiresAt p \<noteq> 0 \<longrightarrow> sm_Deadline (rt_manager rt) (rq_session st') \<le> pn_ExpiresAt p)"
proof -
  define m sha where "m = rt_manager rt" and "sha = fs_sha256 (rt_store rt)"
  obtain txn db tok raw p st1 where c:
    "ConsumeLoginTransaction (rt_redis rt) (rt_decode rt) (fs_prefix (rt_store rt)) (rt_link rt (rq_t st)) (rt_server rt (rq_t st)) state
       (rt_others rt (rq_t st) (rq_db st)) = (Inr (Some txn), db)"
    "sm_Token (rt_manager rt) (rq_session st) \<noteq> []"
    "hashSessionToken (fs_sha256 (rt_store rt)) (sm_Token (rt_manager rt) (rq_session st)) = lt_PreAuthSessionHash txn"
    "rt_exchange rt (Suc (rq_t st)) code (lt_PKCEVerifier txn) = Some tok" "ot_IDToken tok = Some raw" "raw \<noteq> []"
    "verifyIDToken a rt raw (lt_Nonce txn) (st\<lparr>rq_db := db, rq_t := Suc (Suc (rq_t st))\<rparr>) = (Inr p, st1)"
    "finish_login a rt p (ot_RefreshToken tok) (lt_ReturnTo txn) st1 = (Inr returnTo, st')"
    by (rule CompleteLogin_Inr [OF assms(1)])
  have v: "lt_Nonce txn \<noteq> []" "verified_as a rt (Suc (Suc (rq_t st))) raw p"
      "map_option idt_Nonce (rt_verify rt (Suc (Suc (rq_t st))) raw) = Some (lt_Nonce txn)"
      "st1 = st\<lparr>rq_db := db, rq_t := Suc (Suc (Suc (rq_t st)))\<rparr>"
    using verifyIDToken_Inr [OF c(7)] by simp_all
  obtain s1 db' s2 lk where f: "returnTo = lt_ReturnTo txn"
    "sm_RenewToken (rt_manager rt) (DeleteCtx (rt_redis rt) (rt_store rt) (rt_link rt (rq_t st1)) (rt_server rt (rq_t st1)) (sessionLockFence (rq_lock st1)))
       (rq_t st1) (rq_session st1) (rt_others rt (rq_t st1) (rq_db st1)) = (True, s1, db')"
    "s2 = sm_Remove (rt_manager rt) (StorePrincipal (rt_manager rt) (fs_sha256 (rt_store rt)) s1 p (ot_RefreshToken tok) (oidc_of a)) pendingStateKey"
    "rq_session st' = (if ot_RefreshToken tok = [] then sm_SetDeadline (rt_manager rt) s2
       (refreshedSessionExpiry (sm_Deadline (rt_manager rt) s2) (pn_ExpiresAt p)) else s2)"
    by (rule finish_login_Inr [OF c(8)])
  have d: "session_renewed rt (rq_t st1) (rq_lock st1) (rq_session st1) (rq_db st1) (rq_lock st') (rq_session st') (rq_db st')"
    by (rule finish_login_renews [OF c(8) assms(2,3)]) (use c(2) v(4) in simp)
  then have d3: "session_renewed rt (Suc (Suc (Suc (rq_t st)))) (rq_lock st) (rq_session st) db (rq_lock st') (rq_session st') (rq_db st')"
    using v(4) by simp
  have gone: "\<forall>u \<ge> max (rt_server rt (rq_t st + 3)) (rt_server rt (rq_t st + 4)).
       let old = sessionKey (rt_store rt) (lt_PreAuthSessionHash txn) in
       (\<forall>d. rd_GET (rt_redis rt) (rt_others rt (rq_t st + 4) d) u old = rd_GET (rt_redis rt) d u old) \<longrightarrow>
       rd_GET (rt_redis rt) (rq_db st') u old = None"
    using renewed_gone [OF d] v(4) c(3) by (simp add: Let_def numeral_3_eq_3 numeral_eq_Suc)
  have g: "sm_Get m (rq_session st') key =
      (if key = pendingStateKey then None else sm_Get m (StorePrincipal m sha s1 p (ot_RefreshToken tok) (oidc_of a)) key)" for key
    unfolding f(4) f(3) m_def sha_def by (simp add: scs_get [OF assms(3)])
  have b: "pn_ExpiresAt p \<noteq> 0 \<longrightarrow> bound a rt (rq_session st') = Inr (Some p)"
    using login_bound [OF assms(3) v(2)] g unfolding m_def sha_def by blast
  have t: "RefreshTokenFromSession m (rq_session st') = ot_RefreshToken tok"
    unfolding RefreshTokenFromSession_def GetString_def g unfolding m_def stored_values [OF assms(3)] by (simp add: session_keys)
  have l: "ot_RefreshToken tok = [] \<and> pn_ExpiresAt p \<noteq> 0 \<longrightarrow> sm_Deadline (rt_manager rt) (rq_session st') \<le> pn_ExpiresAt p"
    unfolding f(4) by (simp add: scs_deadline [OF assms(3)] refreshedSessionExpiry_def)
  have "sm_Get m (rq_session st') pendingStateKey = None" using g [of pendingStateKey] by simp
  then show ?thesis
    using c(1,4,5) c(3) [symmetric] v(1-3) f(1) d3 gone b t l unfolding m_def
    by - (rule exI [of _ txn], rule exI [of _ db], rule exI [of _ tok], rule exI [of _ raw], rule exI [of _ p], (rule conjI | assumption)+)
qed

section \<open>A small runtime\<close>

type_synonym demo_db = "string \<rightharpoonup> string \<times> int option"

definition demo_txn :: LoginTransaction where
  "demo_txn = \<lparr>lt_Nonce = ''n'', lt_PKCEVerifier = ''v'', lt_PreAuthSessionHash = hashSessionToken demo_sha ''t'', lt_ReturnTo = ''/''\<rparr>"

definition demo_runtime :: "(demo_session, demo_db) auth_runtime" where
  "demo_runtime = \<lparr>rt_manager = demo_scs, rt_redis = demo_redis, rt_store = demo_store,
     rt_base = (\<lambda>now token data e db. (None, db)), rt_others = (\<lambda>_ db. db), rt_link = (\<lambda>_. Delivered), rt_server = (\<lambda>_. 0),
     rt_clock = int, rt_random = (\<lambda>_ n. Some (replicate n (CHR ''r''))),
     rt_lock = (\<lambda>_ name db. (Some ''o'', rd_SET demo_redis db 0 name ''o'' (Some 10))),
     rt_unlock = (\<lambda>_ name owner db. rd_DEL demo_redis db 0 name), rt_lost = (\<lambda>_ _. False), rt_refresh = (\<lambda>_ _. RefreshNil),
     rt_exchange = (\<lambda>_ _ _. Some \<lparr>ot_IDToken = Some ''j'', ot_RefreshToken = ''r''\<rparr>),
     rt_verify = (\<lambda>_ _. Some \<lparr>idt_Nonce = ''n'', idt_Expiry = 200, idt_claims = Some [(''sub'', JString ''s'')]\<rparr>),
     rt_encode = (\<lambda>_. ''x''), rt_decode = (\<lambda>_. Some demo_txn), rt_AuthCodeURL = (\<lambda>st n v. st), rt_url_Parse = (\<lambda>_. None),
     rt_PathUnescape = (\<lambda>_. None)\<rparr>"

definition demo_auth :: Authenticator where
  "demo_auth = \<lparr>au_Config = \<lparr>ac_Mode = AuthModeNative, ac_OIDC = demo_oidc,
       ac_Session = \<lparr>sc_CookieName = ''c'', sc_AbsoluteLifetime = 1000000000, sc_IdleLifetime = 1000000000, sc_Secure = True, sc_SameSite = SameSiteLax\<rparr>,
       ac_Redis = \<lparr>rc_Address = ''a'', rc_Username = [], rc_Password = [], rc_Database = 0, rc_TLS = False, rc_ConnectTimeout = 1, rc_ReadTimeout = 1,
         rc_WriteTimeout = 1, rc_PoolSize = 1, rc_RefreshLockTTL = 2, rc_RefreshLockWait = 1, rc_RefreshLockRetry = 1, rc_ProviderTimeout = 1, rc_KeyPrefix = ''v:''\<rparr>,
       ac_CSRFSecret = [], ac_AllowedOrigins = [], ac_PolicyFile = []\<rparr>,
     au_hasRedis = True, au_hasSessions = True, au_hasVerifier = True\<rparr>"

text \<open>A request with a session of its own, and one that holds the lock of its session and comes back from the provider.\<close>

definition demo_request :: "(demo_session, demo_db) request" where
  "demo_request = \<lparr>rq_session = StorePrincipal demo_scs demo_sha empty_session demo_principal [] demo_oidc, rq_lock = None, rq_db = Map.empty, rq_t = 0\<rparr>"

definition demo_callback :: "(demo_session, demo_db) request" where
  "demo_callback = \<lparr>rq_session = empty_session,
     rq_lock = Some \<lparr>sl_token = ''t'', sl_fence = mutex_fence demo_store ''t'' ''o'', sl_healthy = (\<lambda>_. True)\<rparr>,
     rq_db = [mutex_name demo_store ''t'' \<mapsto> (''o'', None), fenceKey demo_store (hashSessionToken demo_sha ''t'') \<mapsto> (mutex_fence demo_store ''t'' ''o'', None),
       sessionKey demo_store (hashSessionToken demo_sha ''t'') \<mapsto> (''d'', None),
       transaction_key (fs_prefix demo_store) ''s'' \<mapsto> (''x'', None)], rq_t = 0\<rparr>"

lemma demo_sessions_run:
  "fst (AuthenticatedPrincipal demo_auth demo_runtime demo_request) = Inr (Some demo_principal)"
  "fst (Logout demo_auth demo_runtime demo_request) = Inr ()"
  "fst (CompleteLogin demo_auth demo_runtime ''s'' ''code'' demo_callback) = Inr ''/''"
  by code_simp+

lemma demo_runtime_ok:
  "redis_ok (rt_redis demo_runtime)" "scs_ok (hashSessionToken (fs_sha256 (rt_store demo_runtime))) (rt_manager demo_runtime)"
  "0 \<le> rt_clock demo_runtime n"
  using demo_redis_ok demo_scs_ok by (simp_all add: demo_runtime_def demo_sha_def)

theorem authenticated_principal_current_witness:
  "\<exists>st'. AuthenticatedPrincipal demo_auth demo_runtime demo_request = (Inr (Some demo_principal), st') \<and>
     bound demo_auth demo_runtime (rq_session st') = Inr (Some demo_principal)"
proof -
  obtain st' where "AuthenticatedPrincipal demo_auth demo_runtime demo_request = (Inr (Some demo_principal), st')"
    using demo_sessions_run(1) by (metis prod.collapse)
  with authenticated_principal_current [OF this demo_runtime_ok(2,3)] show ?thesis by blast
qed

theorem login_completes_only_its_own_witness:
  "\<exists>st'. CompleteLogin demo_auth demo_runtime ''s'' ''code'' demo_callback = (Inr ''/'', st') \<and>
     RefreshTokenFromSession demo_scs (rq_session st') = ''r'' \<and>
     rd_GET demo_redis (rq_db st') 5 (sessionKey demo_store (hashSessionToken demo_sha ''t'')) = None"
proof -
  obtain st' where l: "CompleteLogin demo_auth demo_runtime ''s'' ''code'' demo_callback = (Inr ''/'', st')"
    using demo_sessions_run(3) by (metis prod.collapse)
  have "sm_Token demo_scs (rq_session demo_callback) = ''t''" by code_simp
  moreover have "fs_sha256 demo_store = demo_sha" by (simp add: demo_store_def demo_sha_def)
  ultimately show ?thesis
    using l login_completes_only_its_own [OF l demo_runtime_ok(1,2)] by (auto simp: demo_runtime_def Let_def)
qed

end
