(* ===== verification/Session_HTTP.thy ===== *)
theory Session_HTTP
  imports Sessions
begin

text \<open>
  The session middleware of \<open>backend/internal/authn/http.go\<close> and the response writer that commits the
  session before the first byte of a response, and the keep-alive of a session's mutex in
  \<open>session_lock.go\<close>.

  A handler is a program \<open>handler\<close>: it writes a status, writes parts of a body and sees whether that
  worked, flushes, and in between does anything to its request, which may decide how it goes on. The calls that
  reach the underlying response writer are a list of \<open>response_call\<close>.
  \<open>Hijack\<close> and \<open>Unwrap\<close>, which hand out the underlying writer, are not modelled: no handler writes to what they return.
\<close>

section \<open>Definitions\<close>

subsection \<open>The response writer\<close>

datatype ('s, 'd) handler =
    Finish
  | WriteHeader nat "('s, 'd) handler"
  | Write string "bool \<Rightarrow> ('s, 'd) handler"
  | Flush "('s, 'd) handler"
  | Work "('s, 'd) request \<Rightarrow> ('s, 'd) handler \<times> ('s, 'd) request"

datatype response_call = Status nat | Body string | Flushed | SessionCookie string int | ErrorPage

record sessionResponseWriter =
  srw_calls :: "response_call list"
  srw_commitAttempted :: bool
  srw_commitSucceeded :: bool

definition new_writer :: sessionResponseWriter where
  "new_writer = \<lparr>srw_calls = [], srw_commitAttempted = False, srw_commitSucceeded = False\<rparr>"

definition call :: "response_call \<Rightarrow> sessionResponseWriter \<Rightarrow> sessionResponseWriter" where
  "call c w = w\<lparr>srw_calls := srw_calls w @ [c]\<rparr>"

definition commitAndWriteSessionCookie ::
  "('s, 'd) auth_runtime \<Rightarrow> sessionResponseWriter \<Rightarrow> ('s, 'd) request \<Rightarrow> bool \<times> sessionResponseWriter \<times> ('s, 'd) request" where
  "commitAndWriteSessionCookie rt w st =
     (if \<not> sessionLockHealthy (rq_lock st) (rq_t st) then (False, call ErrorPage w, st)
      else (case sm_Status (rt_manager rt) (rq_session st) of
        Modified \<Rightarrow>
          (case Sessions_Commit rt st of
             (Inr (Some (token, expiry)), st1) \<Rightarrow> (True, call (SessionCookie token expiry) w, st1)
           | (_, st1) \<Rightarrow> (False, call ErrorPage w, st1))
      | Destroyed \<Rightarrow> (True, call (SessionCookie [] 0) w, st)
      | Unmodified \<Rightarrow> (True, w, st)))"

definition ensureSessionCommitted ::
  "('s, 'd) auth_runtime \<Rightarrow> sessionResponseWriter \<Rightarrow> ('s, 'd) request \<Rightarrow> bool \<times> sessionResponseWriter \<times> ('s, 'd) request" where
  "ensureSessionCommitted rt w st =
     (if srw_commitAttempted w then (srw_commitSucceeded w, w, st)
      else (case commitAndWriteSessionCookie rt (w\<lparr>srw_commitAttempted := True\<rparr>) st of
        (ok, w1, st1) \<Rightarrow> (ok, w1\<lparr>srw_commitSucceeded := ok\<rparr>, st1)))"

text \<open>A call of the handler on the writer: it goes to the underlying writer if the session is committed.\<close>

definition guarded ::
  "('s, 'd) auth_runtime \<Rightarrow> response_call \<Rightarrow> sessionResponseWriter \<Rightarrow> ('s, 'd) request \<Rightarrow> bool \<times> sessionResponseWriter \<times> ('s, 'd) request" where
  "guarded rt c w st =
     (case ensureSessionCommitted rt w st of (ok, w1, st1) \<Rightarrow> (ok, if ok then call c w1 else w1, st1))"

primrec serve :: "('s, 'd) handler \<Rightarrow> ('s, 'd) auth_runtime \<Rightarrow> sessionResponseWriter \<Rightarrow> ('s, 'd) request \<Rightarrow>
    sessionResponseWriter \<times> ('s, 'd) request" where
  "serve Finish rt w st = (w, st)"
| "serve (WriteHeader code k) rt w st = (case guarded rt (Status code) w st of (_, w1, st1) \<Rightarrow> serve k rt w1 st1)"
| "serve (Write chunk k) rt w st = (case guarded rt (Body chunk) w st of (ok, w1, st1) \<Rightarrow> (serve \<circ> k) ok rt w1 st1)"
| "serve (Flush k) rt w st = (case guarded rt Flushed w st of (_, w1, st1) \<Rightarrow> serve k rt w1 st1)"
| "serve (Work f) rt w st = (case (map_prod serve id \<circ> f) st of (k, st1) \<Rightarrow> k rt w st1)"

subsection \<open>The middleware\<close>

definition sessionTokenFromRequest :: "(string \<times> string) list \<Rightarrow> string \<Rightarrow> string" where
  "sessionTokenFromRequest cookies cookieName =
     (if cookieName = [] then [] else (case map_of cookies cookieName of None \<Rightarrow> [] | Some v \<Rightarrow> v))"

text \<open>Loading a session into the context of the request.\<close>

definition load_session :: "('s, 'd) auth_runtime \<Rightarrow> string \<Rightarrow> ('s, 'd, bool) auth_op" where
  "load_session rt token =
     andThen (Sessions_Load rt token) (\<lambda>loaded.
     case loaded of None \<Rightarrow> returns False | Some s \<Rightarrow> andThen (on_session (\<lambda>_. s)) (\<lambda>_. returns True))"

text \<open>Under the mutex of the token: the fence to carry on, or no session.\<close>

definition open_session ::
  "Authenticator \<Rightarrow> ('s, 'd) auth_runtime \<Rightarrow> string \<Rightarrow> sessionLockHandle \<Rightarrow> ('s, 'd, string option) auth_op" where
  "open_session a rt token lock =
     andThen (load_session rt token) (\<lambda>loaded.
     if \<not> loaded then returns None
     else andThen (the_session (sm_Token (rt_manager rt))) (\<lambda>loadedToken.
       if lh_fence lock \<noteq> [] \<and> loadedToken = token then
         (\<lambda>st. case activateSessionFence a rt token (lh_fence lock) st of
            (Inl _, st1) \<Rightarrow> (Inr None, st1)
          | (Inr _, st1) \<Rightarrow> (Inr (Some (lh_fence lock)),
              st1\<lparr>rq_session := sm_Put (rt_manager rt) (rq_session st1) sessionFenceKey (SString (lh_fence lock))\<rparr>))
       else returns (Some [])))"

definition SessionMiddleware ::
  "Authenticator \<Rightarrow> ('s, 'd) auth_runtime \<Rightarrow> ('s, 'd) handler \<Rightarrow> (string \<times> string) list \<Rightarrow> ('s, 'd) request \<Rightarrow>
     sessionResponseWriter \<times> ('s, 'd) request" where
  "SessionMiddleware a rt next cookies st =
     (let token = sessionTokenFromRequest cookies (sc_CookieName (ac_Session (au_Config a))) in
      case acquireSessionMutex a rt token st of
        (Inl _, st1) \<Rightarrow> (call ErrorPage new_writer, st1)
      | (Inr lock, st1) \<Rightarrow>
          (case open_session a rt token lock st1 of
             (Inr (Some fence), st2) \<Rightarrow>
               (case serve next rt new_writer (st2\<lparr>rq_lock := withSessionLock (rq_lock st2) token fence (lh_healthy lock)\<rparr>) of
                  (w, st3) \<Rightarrow> (case ensureSessionCommitted rt w st3 of (_, w1, st4) \<Rightarrow> (w1, release rt lock st4)))
           | (_, st2) \<Rightarrow> (call ErrorPage new_writer, release rt lock st2)))"

subsection \<open>The keep-alive of a mutex\<close>

text \<open>What a lease sees in turn: the ticker fires and the mutex is extended or not, or the lease is stopped.\<close>

datatype lease_event = Tick bool | Stop

record sessionLockLease =
  ll_lost :: bool
  ll_cancelled :: bool
  ll_done :: bool

fun keepAlive :: "lease_event list \<Rightarrow> sessionLockLease \<Rightarrow> sessionLockLease" where
  "keepAlive [] lease = lease"
| "keepAlive (Tick extended # events) lease =
     (if extended then keepAlive events lease else lease\<lparr>ll_lost := True, ll_cancelled := True, ll_done := True\<rparr>)"
| "keepAlive (Stop # events) lease = lease\<lparr>ll_done := True\<rparr>"

definition healthy :: "sessionLockLease \<Rightarrow> bool" where
  "healthy lease \<longleftrightarrow> \<not> ll_lost lease"

definition keepalive_interval :: "int \<Rightarrow> int" where
  "keepalive_interval ttl =
     (let interval = (if ttl \<ge> 0 then ttl div 3 else - ((- ttl) div 3)) in if interval \<le> 0 then 1000000 else interval)"

section \<open>Lemmas\<close>

subsection \<open>The response of a handler\<close>

text \<open>
  What the response should be, said without a writer that keeps track of commits. \<open>first_call\<close> lets a handler
  work until its first call on the writer. \<open>plain_calls\<close> are the calls of a handler on a writer on which every call
  succeeds. The response is the page for errors alone, if the session cannot be committed at the moment of the first call (or at
  the end, for a handler that calls nothing); else the cookie, followed by the plain calls of the rest of the handler.
\<close>

primrec first_call :: "('s, 'd) handler \<Rightarrow> ('s, 'd) request \<Rightarrow> ('s, 'd) handler \<times> ('s, 'd) request" where
  "first_call Finish st = (Finish, st)"
| "first_call (WriteHeader code k) st = (WriteHeader code k, st)"
| "first_call (Write chunk k) st = (Write chunk k, st)"
| "first_call (Flush k) st = (Flush k, st)"
| "first_call (Work f) st = (case (map_prod first_call id \<circ> f) st of (k, st1) \<Rightarrow> k st1)"

primrec plain_calls :: "('s, 'd) handler \<Rightarrow> ('s, 'd) request \<Rightarrow> response_call list" where
  "plain_calls Finish st = []"
| "plain_calls (WriteHeader code k) st = Status code # plain_calls k st"
| "plain_calls (Write chunk k) st = Body chunk # (plain_calls \<circ> k) True st"
| "plain_calls (Flush k) st = Flushed # plain_calls k st"
| "plain_calls (Work f) st = (case (map_prod plain_calls id \<circ> f) st of (k, st1) \<Rightarrow> k st1)"

definition response_of :: "('s, 'd) auth_runtime \<Rightarrow> ('s, 'd) handler \<times> ('s, 'd) request \<Rightarrow> response_call list" where
  "response_of rt = (\<lambda>(h, st).
     if \<not> sessionLockHealthy (rq_lock st) (rq_t st) then [ErrorPage]
     else case sm_Status (rt_manager rt) (rq_session st) of
       Unmodified \<Rightarrow> plain_calls h st
     | Destroyed \<Rightarrow> SessionCookie [] 0 # plain_calls h st
     | Modified \<Rightarrow> (case Sessions_Commit rt st of
           (Inr (Some (token, expiry)), st1) \<Rightarrow> SessionCookie token expiry # plain_calls h st1
         | _ \<Rightarrow> [ErrorPage]))"

lemma ensure_attempted: "srw_commitAttempted w \<Longrightarrow> ensureSessionCommitted rt w st = (srw_commitSucceeded w, w, st)"
  by (simp add: ensureSessionCommitted_def)

lemma guarded_attempted:
  "srw_commitAttempted w \<Longrightarrow>
     guarded rt c w st = (srw_commitSucceeded w, if srw_commitSucceeded w then call c w else w, st)"
  by (simp add: guarded_def ensure_attempted)

lemma call_fields [simp]:
  "srw_calls (call c w) = srw_calls w @ [c]" "srw_commitAttempted (call c w) = srw_commitAttempted w"
  "srw_commitSucceeded (call c w) = srw_commitSucceeded w"
  by (simp_all add: call_def)

text \<open>Once the session has been committed, or not, a handler's calls all reach the writer, or none does.\<close>

lemma serve_attempted:
  assumes "srw_commitAttempted w"
  shows "srw_calls (fst (serve h rt w st)) = srw_calls w @ (if srw_commitSucceeded w then plain_calls h st else []) \<and>
    srw_commitAttempted (fst (serve h rt w st))"
  using assms
proof (induction h arbitrary: w st)
  case (Work f)
  obtain k st1 where f: "f st = (k, st1)" by fastforce
  then have "(k, st1) \<in> range f" by (metis rangeI)
  then show ?case using Work.IH [of "(k, st1)" k w st1] Work.prems f by simp
next
  case (Write chunk k)
  then show ?case using Write.IH [OF rangeI] by (simp add: guarded_attempted)
qed (simp_all add: guarded_attempted)

text \<open>The commit, at the first call of a handler.\<close>

lemma guarded_first:
  assumes "\<not> srw_commitAttempted w" "ensureSessionCommitted rt w st = (ok, w1, st1)"
  shows "srw_commitAttempted w1 \<and> srw_commitSucceeded w1 = ok \<and>
    srw_calls w @ response_of rt (h, st) = srw_calls w1 @ (if ok then plain_calls h st1 else [])"
  using assms unfolding ensureSessionCommitted_def commitAndWriteSessionCookie_def response_of_def
  by (auto simp: call_def split: if_splits session_status.splits prod.splits sum.splits option.splits)

lemma response_guarded:
  assumes "\<not> srw_commitAttempted w" "guarded rt c w st = (ok, w1, st1)" "\<And>u. plain_calls h u = c # plain_calls (k True) u"
  shows "srw_calls (fst (serve (k ok) rt w1 st1)) = srw_calls w @ response_of rt (h, st) \<and>
    srw_commitAttempted (fst (serve (k ok) rt w1 st1))"
proof -
  obtain w0 where g: "ensureSessionCommitted rt w st = (ok, w0, st1)" "w1 = (if ok then call c w0 else w0)"
    using assms(2) by (auto simp: guarded_def split: prod.splits)
  note first = guarded_first [OF assms(1) g(1), of h]
  then have "srw_commitAttempted w1" "srw_commitSucceeded w1 = ok" using g(2) by simp_all
  with serve_attempted [of w1 "k ok" rt st1] first show ?thesis using g(2) assms(3) by (cases ok) simp_all
qed

lemma serve_response:
  assumes "\<not> srw_commitAttempted w" "serve h rt w st = (w1, st1)" "ensureSessionCommitted rt w1 st1 = (ok, w2, st2)"
  shows "srw_calls w2 = srw_calls w @ response_of rt (first_call h st)"
  using assms
proof (induction h arbitrary: w st)
  case Finish
  then show ?case using guarded_first [of w rt st ok w2 st2 Finish] by (cases ok) simp_all
next
  case (Work f)
  obtain k st0 where f: "f st = (k, st0)" by fastforce
  then have "(k, st0) \<in> range f" by (metis rangeI)
  then show ?case using Work.IH [of "(k, st0)" k w st0] Work.prems f by simp
next
  case (WriteHeader code k)
  obtain g w0 st0 where "guarded rt (Status code) w st = (g, w0, st0)" by (metis prod_cases3)
  with response_guarded [OF WriteHeader.prems(1) this, of "WriteHeader code k" "\<lambda>_. k"] WriteHeader.prems show ?case
    by (simp add: ensure_attempted)
next
  case (Write chunk k)
  obtain g w0 st0 where "guarded rt (Body chunk) w st = (g, w0, st0)" by (metis prod_cases3)
  with response_guarded [OF Write.prems(1) this, of "Write chunk k" k] Write.prems show ?case
    by (simp add: ensure_attempted)
next
  case (Flush k)
  obtain g w0 st0 where "guarded rt Flushed w st = (g, w0, st0)" by (metis prod_cases3)
  with response_guarded [OF Flush.prems(1) this, of "Flush k" "\<lambda>_. k"] Flush.prems show ?case
    by (simp add: ensure_attempted)
qed

lemma served_response:
  "srw_calls (fst (case serve h rt new_writer st of (w, st1) \<Rightarrow>
     (case ensureSessionCommitted rt w st1 of (_, w1, st2) \<Rightarrow> (w1, release rt lock st2)))) = response_of rt (first_call h st)"
proof -
  obtain w st1 where s: "serve h rt new_writer st = (w, st1)" by fastforce
  obtain ok w1 st2 where c: "ensureSessionCommitted rt w st1 = (ok, w1, st2)" by (metis prod_cases3)
  have "\<not> srw_commitAttempted new_writer" "srw_calls new_writer = []" by (simp_all add: new_writer_def)
  with serve_response [OF _ s c] show ?thesis by (simp add: s c)
qed

lemma keepAlive_healthy:
  assumes "healthy lease"
  shows "healthy (keepAlive events lease) \<longleftrightarrow> Tick False \<notin> set (takeWhile (\<lambda>e. e \<noteq> Stop) events)"
  using assms by (induction events lease rule: keepAlive.induct) (auto simp: healthy_def)

lemma keepAlive_lost_cancels:
  "\<not> ll_lost lease \<Longrightarrow> ll_lost (keepAlive events lease) \<Longrightarrow> ll_cancelled (keepAlive events lease) \<and> ll_done (keepAlive events lease)"
  by (induction events lease rule: keepAlive.induct) (auto split: if_splits)

text \<open>A handler runs with a fence only when the session it got is the one the mutex is for.\<close>

lemma open_session_fence:
  assumes "open_session a rt token lock st = (Inr (Some fence), st')"
  shows "fence = [] \<or> fence = lh_fence lock \<and> sm_Token (rt_manager rt) (rq_session st') = token \<or>
    (\<exists>s. fence = lh_fence lock \<and> sm_Token (rt_manager rt) s = token \<and> rq_session st' = sm_Put (rt_manager rt) s sessionFenceKey (SString fence))"
proof -
  obtain st1 where l: "load_session rt token st = (Inr True, st1)"
    using assms unfolding open_session_def andThen_Inr by (auto simp: returns_Inr if_op split: if_splits)
  show ?thesis
  proof (cases "lh_fence lock \<noteq> [] \<and> sm_Token (rt_manager rt) (rq_session st1) = token")
    case True
    then have "(case activateSessionFence a rt token (lh_fence lock) st1 of
        (Inl _, st2) \<Rightarrow> (Inr None, st2)
      | (Inr _, st2) \<Rightarrow> (Inr (Some (lh_fence lock)),
          st2\<lparr>rq_session := sm_Put (rt_manager rt) (rq_session st2) sessionFenceKey (SString (lh_fence lock))\<rparr>)) = ((Inr (Some fence) :: auth_error + string option), st')"
      using assms unfolding open_session_def andThen_run [of "load_session rt token", OF l] by (simp add: first_step)
    then obtain st2 where a: "activateSessionFence a rt token (lh_fence lock) st1 = (Inr (), st2)" "fence = lh_fence lock"
        "st' = st2\<lparr>rq_session := sm_Put (rt_manager rt) (rq_session st2) sessionFenceKey (SString (lh_fence lock))\<rparr>"
      by (auto split: prod.splits sum.splits)
    have "rq_session st2 = rq_session st1"
      using a(1) unfolding activateSessionFence_def ActivateSessionFence_def by (auto simp: op_Inr split: if_splits)
    then show ?thesis using a True by auto
  next
    case False
    then show ?thesis
      using assms unfolding open_session_def andThen_run [of "load_session rt token", OF l] by (auto simp: first_step returns_Inr)
  qed
qed

section \<open>Properties\<close>

text \<open>C32. Whatever a handler does, and whatever the store does, the calls of the session middleware on the response writer
  are these. If the mutex of the session cannot be had, or the session cannot be loaded or fenced, the page for errors alone. Else the
  handler runs on the loaded session, with the lock in its context. At the moment of its first call on the writer, or at its end if it
  makes none, the lock must be healthy, and a modified session must be committed from the state the request has then: if not, the response
  is the page for errors alone, and no later call of the handler changes that. If so, it is the session cookie of that commit (none
  for a session that was not modified, an empty one for one that was destroyed), followed by exactly the handler's own calls
  in their order. So no byte of a handler goes out before its session is in the store.\<close>

theorem response_follows_commit:
  "srw_calls (fst (SessionMiddleware a rt h cookies st)) =
    (let token = sessionTokenFromRequest cookies (sc_CookieName (ac_Session (au_Config a))) in
     case acquireSessionMutex a rt token st of
       (Inl _, _) \<Rightarrow> [ErrorPage]
     | (Inr lock, st1) \<Rightarrow> (case open_session a rt token lock st1 of
           (Inr (Some fence), st2) \<Rightarrow>
             response_of rt (first_call h (st2\<lparr>rq_lock := withSessionLock (rq_lock st2) token fence (lh_healthy lock)\<rparr>))
         | _ \<Rightarrow> [ErrorPage]))"
proof -
  define token where "token = sessionTokenFromRequest cookies (sc_CookieName (ac_Session (au_Config a)))"
  have e: "srw_calls (call ErrorPage new_writer) = [ErrorPage]" by (simp add: new_writer_def)
  obtain r1 st1 where m: "acquireSessionMutex a rt token st = (r1, st1)" by fastforce
  show ?thesis
  proof (cases r1)
    case (Inl err)
    then show ?thesis using m e by (simp add: SessionMiddleware_def Let_def token_def)
  next
    case (Inr lock)
    obtain r2 st2 where o: "open_session a rt token lock st1 = (r2, st2)" by fastforce
    show ?thesis
    proof (cases "\<exists>fence. r2 = Inr (Some fence)")
      case True
      then show ?thesis using m o Inr by (auto simp: SessionMiddleware_def Let_def token_def served_response)
    next
      case False
      then show ?thesis using m o e Inr
        by (auto simp: SessionMiddleware_def Let_def token_def split: sum.split option.split)
    qed
  qed
qed

end
