(* ===== verification/HTTP_Security.thy ===== *)
theory HTTP_Security
  imports Sessions Generate_Service
begin

text \<open>
  What stands between a request and the application, \<open>backend/internal/httpapi\<close>: the middlewares of
  \<open>security.go\<close> and \<open>csrf.go\<close>, the checks of requests and the error responses of \<open>handler.go\<close>, and
  the request headers of MCP in \<open>mcp.go\<close>.

  Every middleware either answers a request or passes it on to the next one as its last act. It is a
  function to a \<open>decision\<close>: \<open>Answered\<close>, or \<open>Forward\<close> with the request as it is passed on, and whether it
  goes through the session middleware. The response written so far is an \<open>http_writer\<close>.

  Package net/url and the Unicode tables, \<open>mime.ParseMediaType\<close>, HMAC, the sources of randomness and the
  standard base64 decoder are fields of \<open>http_lib\<close>; \<open>VerifyAccessToken\<close> is the argument \<open>verify\<close>.
\<close>

section \<open>Definitions\<close>

subsection \<open>Requests and responses\<close>

record mcpHeaders =
  mh_protocolVersion :: string
  mh_method :: string
  mh_toolName :: string

text \<open>The last four fields are what the middlewares put into the context of a request.\<close>

record http_request =
  hr_Method :: string
  hr_Path :: string
  hr_EscapedPath :: string
  hr_Header :: "string \<Rightarrow> string list"
  hr_Cookies :: "(string \<times> string) list"
  hr_Host :: string
  hr_TLS :: bool
  hr_Query :: "string \<Rightarrow> string"
  hr_csrf :: string
  hr_caller :: "Caller option"
  hr_mcp :: "mcpHeaders option"

datatype http_body = ErrorBody string string | MCPErrorBody int string "string option" | JSONBody string

record http_writer =
  hw_header :: "string \<Rightarrow> string list"
  hw_status :: "nat option"
  hw_body :: "http_body list"

datatype decision = Answered http_writer | Forward bool http_request http_writer

record http_lib =
  hl_url_Parse :: "string \<Rightarrow> parsed_url option"
  hl_Port :: "parsed_url \<Rightarrow> string"
  hl_PathUnescape :: "string \<Rightarrow> string option"
  hl_ToLower :: "string \<Rightarrow> string"
  hl_EqualFold :: "string \<Rightarrow> string \<Rightarrow> bool"
  hl_ParseMediaType :: "string \<Rightarrow> (string \<times> (string \<rightharpoonup> string)) option"
  hl_hmac :: "go_bytes \<Rightarrow> go_bytes \<Rightarrow> go_bytes"
  hl_nonce :: "go_bytes option"
  hl_requestID :: string
  hl_base64Std :: "string \<Rightarrow> go_bytes option"

definition strings_Contains :: "string \<Rightarrow> string \<Rightarrow> bool" where
  "strings_Contains s sub \<longleftrightarrow> list_ex (\<lambda>i. take (length sub) (drop i s) = sub) [0..<Suc (length s)]"

definition first_value :: "string list \<Rightarrow> string" where
  "first_value vs = (case vs of [] \<Rightarrow> [] | v # _ \<Rightarrow> v)"

definition header_Get :: "http_request \<Rightarrow> string \<Rightarrow> string" where
  "header_Get r key = first_value (hr_Header r key)"

definition header_Set :: "string \<Rightarrow> string \<Rightarrow> http_writer \<Rightarrow> http_writer" where
  "header_Set key v w = w\<lparr>hw_header := (hw_header w)(key := [v])\<rparr>"

definition header_Add :: "string \<Rightarrow> string \<Rightarrow> http_writer \<Rightarrow> http_writer" where
  "header_Add key v w = w\<lparr>hw_header := (hw_header w)(key := hw_header w key @ [v])\<rparr>"

text \<open>Only the first status counts; a body without a status has status 200.\<close>

definition write_status :: "nat \<Rightarrow> http_writer \<Rightarrow> http_writer" where
  "write_status status w = (case hw_status w of None \<Rightarrow> w\<lparr>hw_status := Some status\<rparr> | Some _ \<Rightarrow> w)"

definition write_body :: "http_body \<Rightarrow> http_writer \<Rightarrow> http_writer" where
  "write_body b w = (let w1 = write_status 200 w in w1\<lparr>hw_body := hw_body w1 @ [b]\<rparr>)"

definition ensureRequestID :: "http_lib \<Rightarrow> http_writer \<Rightarrow> http_writer" where
  "ensureRequestID lib w =
     (if first_value (hw_header w ''X-Request-ID'') \<noteq> [] then w else header_Set ''X-Request-ID'' (hl_requestID lib) w)"

definition writeJSON :: "http_lib \<Rightarrow> nat \<Rightarrow> http_body \<Rightarrow> http_writer \<Rightarrow> http_writer" where
  "writeJSON lib status v w =
     (let w1 = (if first_value (hw_header w ''Cache-Control'') = [] then header_Set ''Cache-Control'' ''no-store'' w else w);
          w2 = ensureRequestID lib w1;
          w3 = header_Set ''Content-Type'' ''application/json; charset=utf-8'' w2
      in write_body v (write_status status w3))"

definition writeError :: "http_lib \<Rightarrow> nat \<Rightarrow> string \<Rightarrow> string \<Rightarrow> http_writer \<Rightarrow> http_writer" where
  "writeError lib status code message = writeJSON lib status (ErrorBody code message)"

definition methodNotAllowed :: "http_lib \<Rightarrow> string \<Rightarrow> http_writer \<Rightarrow> http_writer" where
  "methodNotAllowed lib allowed w =
     writeError lib 405 ''method_not_allowed'' ''method is not allowed'' (header_Set ''Allow'' allowed w)"

definition mcpWriteHTTPError :: "http_lib \<Rightarrow> nat \<Rightarrow> int \<Rightarrow> string \<Rightarrow> string option \<Rightarrow> http_writer \<Rightarrow> http_writer" where
  "mcpWriteHTTPError lib status code message data = writeJSON lib status (MCPErrorBody code message data)"

definition setSecurityHeaders :: "http_writer \<Rightarrow> http_writer" where
  "setSecurityHeaders w =
     fold (\<lambda>(k, v). header_Set k v)
       [(''Cache-Control'', ''no-store''), (''X-Content-Type-Options'', ''nosniff''), (''Referrer-Policy'', ''no-referrer''),
        (''X-Frame-Options'', ''DENY''), (''Permissions-Policy'', ''camera=(), microphone=(), geolocation=()''),
        (''Content-Security-Policy'',
         ''default-src '' @ [CHR 0x27] @ ''self'' @ [CHR 0x27] @ ''; base-uri '' @ [CHR 0x27] @ ''none'' @ [CHR 0x27] @
         ''; form-action '' @ [CHR 0x27] @ ''self'' @ [CHR 0x27] @ ''; frame-ancestors '' @ [CHR 0x27] @ ''none'' @ [CHR 0x27] @
         ''; object-src '' @ [CHR 0x27] @ ''none'' @ [CHR 0x27] @ ''; script-src '' @ [CHR 0x27] @ ''self'' @ [CHR 0x27] @
         ''; style-src '' @ [CHR 0x27] @ ''self'' @ [CHR 0x27])] w"

definition code_text :: "Code \<Rightarrow> string" where
  "code_text code = (case code of
     CodeInvalidRequest \<Rightarrow> ''invalid_request'' | CodeTooLarge \<Rightarrow> ''too_large'' | CodeNotFound \<Rightarrow> ''not_found''
   | CodeForbidden \<Rightarrow> ''forbidden'' | CodeNotReady \<Rightarrow> ''not_ready'' | CodeOperationFailed \<Rightarrow> ''operation_failed''
   | CodeTemporarilyUnavailable \<Rightarrow> ''temporarily_unavailable'' | CodeFeatureUnavailable \<Rightarrow> ''feature_unavailable''
   | CodeAttestationUnavailable \<Rightarrow> ''attestation_unavailable'' | CodeAttestationBusy \<Rightarrow> ''attestation_busy'')"

definition error_status :: "Code \<Rightarrow> nat" where
  "error_status code = (case code of
     CodeInvalidRequest \<Rightarrow> 400 | CodeTooLarge \<Rightarrow> 413 | CodeNotFound \<Rightarrow> 404 | CodeForbidden \<Rightarrow> 403
   | CodeOperationFailed \<Rightarrow> 422 | _ \<Rightarrow> 503)"

fun domain_error :: "svc_error \<Rightarrow> (Code \<times> string) option" where
  "domain_error (SvcError code message _) = Some (code, message)"
| "domain_error (PolicyDenied err) = domain_error err"
| "domain_error (AttestationFailure _) = None"

definition writeServiceError :: "http_lib \<Rightarrow> svc_error \<Rightarrow> http_writer \<Rightarrow> http_writer" where
  "writeServiceError lib err w =
     (case domain_error err of
        None \<Rightarrow> writeError lib 503 ''not_ready'' ''service is not ready'' w
      | Some (code, message) \<Rightarrow>
          let w1 = (if code = CodeAttestationBusy then header_Set ''Retry-After'' ''1'' w else w) in
          writeError lib (error_status code) (if code = CodeTooLarge then ''invalid_request'' else code_text code) message w1)"

definition writeAuthError :: "http_lib \<Rightarrow> nat \<Rightarrow> string \<Rightarrow> http_writer \<Rightarrow> http_writer" where
  "writeAuthError lib status code =
     writeError lib status code
       (if status = 503 then ''service is temporarily unavailable'' else ''request could not be authenticated'')"

subsection \<open>Origins\<close>

definition originComparisonKey :: "http_lib \<Rightarrow> string \<Rightarrow> bool \<Rightarrow> string option" where
  "originComparisonKey lib raw allowRootPath =
     (if strings_ContainsAny raw ''?#'' then None
      else (case hl_url_Parse lib raw of
        None \<Rightarrow> None
      | Some parsed \<Rightarrow>
          if Scheme parsed = [] \<or> Host parsed = [] \<or> has_User parsed \<or> RawQuery parsed \<noteq> [] \<or> Fragment parsed \<noteq> [] then None
          else if strings_HasSuffix (Host parsed) '':'' then None
          else if url_Path parsed \<noteq> [] \<and> (\<not> allowRootPath \<or> url_Path parsed \<noteq> ''/'') then None
          else let scheme = hl_ToLower lib (Scheme parsed); host = hl_ToLower lib (Hostname parsed); port = hl_Port lib parsed in
            if scheme \<noteq> ''http'' \<and> scheme \<noteq> ''https'' then None
            else if host = [] then None
            else let port1 = (if scheme = ''http'' \<and> port = ''80'' \<or> scheme = ''https'' \<and> port = ''443'' then [] else port) in
              Some (scheme @ ''|'' @ host @ ''|'' @ port1)))"

definition requestOrigin :: "http_request \<Rightarrow> string" where
  "requestOrigin r =
     (let proto = strings_TrimSpace (hd (strings_Split (header_Get r ''X-Forwarded-Proto'') (CHR '','')));
          proto1 = (if proto = [] then (if hr_TLS r then ''https'' else ''http'') else proto)
      in proto1 @ ''://'' @ hr_Host r)"

definition isSameOrigin :: "http_lib \<Rightarrow> AuthConfig \<Rightarrow> string \<Rightarrow> http_request \<Rightarrow> bool" where
  "isSameOrigin lib cfg origin r =
     (case originComparisonKey lib origin False of
        None \<Rightarrow> False
      | Some originKey \<Rightarrow>
          let expected = (if oc_PublicBaseURL (ac_OIDC cfg) \<noteq> [] then oc_PublicBaseURL (ac_OIDC cfg) else requestOrigin r) in
          (case originComparisonKey lib expected True of None \<Rightarrow> False | Some expectedKey \<Rightarrow> originKey = expectedKey))"

definition explicitly_allowed :: "http_lib \<Rightarrow> AuthConfig \<Rightarrow> string \<Rightarrow> bool" where
  "explicitly_allowed lib cfg origin \<longleftrightarrow>
     (case originComparisonKey lib origin False of
        None \<Rightarrow> False
      | Some originKey \<Rightarrow> list_ex (\<lambda>allowed. originComparisonKey lib allowed True = Some originKey) (ac_AllowedOrigins cfg))"

definition csrfOriginAllowed :: "http_lib \<Rightarrow> AuthConfig \<Rightarrow> http_request \<Rightarrow> bool" where
  "csrfOriginAllowed lib cfg r =
     (let origin = strings_TrimSpace (header_Get r ''Origin'') in
      if origin \<noteq> [] \<and> origin \<noteq> ''null'' then isSameOrigin lib cfg origin r \<or> explicitly_allowed lib cfg origin
      else let referer = strings_TrimSpace (header_Get r ''Referer'') in
        if referer = [] then False
        else (case hl_url_Parse lib referer of
          None \<Rightarrow> False
        | Some parsed \<Rightarrow>
            if Scheme parsed = [] \<or> Host parsed = [] then False
            else isSameOrigin lib cfg (Scheme parsed @ ''://'' @ Host parsed) r))"

subsection \<open>CSRF tokens\<close>

definition csrfTokenBytes :: nat where "csrfTokenBytes = 32"
definition sha256_Size :: nat where "sha256_Size = 32"

definition csrfCookieName :: "AuthConfig \<Rightarrow> string" where
  "csrfCookieName cfg = (if ac_Mode cfg = AuthModeNative then ''__Host-vaultsmith_csrf'' else ''vaultsmith_csrf'')"

definition safeCSRFMethod :: "string \<Rightarrow> bool" where
  "safeCSRFMethod m \<longleftrightarrow> m = ''GET'' \<or> m = ''HEAD'' \<or> m = ''OPTIONS''"

definition issueCSRFToken :: "http_lib \<Rightarrow> go_bytes \<Rightarrow> string option" where
  "issueCSRFToken lib secret =
     map_option (\<lambda>nonce. base64_EncodeToString (nonce @ hl_hmac lib secret nonce)) (hl_nonce lib)"

definition validCSRFToken :: "http_lib \<Rightarrow> go_bytes \<Rightarrow> string \<Rightarrow> bool" where
  "validCSRFToken lib secret token =
     (case base64_DecodeString token of
        None \<Rightarrow> False
      | Some v \<Rightarrow>
          length v = csrfTokenBytes + sha256_Size \<and> drop csrfTokenBytes v = hl_hmac lib secret (take csrfTokenBytes v))"

definition same_site_text :: "SameSite \<Rightarrow> string" where
  "same_site_text s = (case s of SameSiteLax \<Rightarrow> ''Lax'' | SameSiteStrict \<Rightarrow> ''Strict'' | SameSiteNone \<Rightarrow> ''None'')"

definition setCSRFCookie :: "AuthConfig \<Rightarrow> string \<Rightarrow> http_writer \<Rightarrow> http_writer" where
  "setCSRFCookie cfg token =
     header_Add ''Set-Cookie'' (csrfCookieName cfg @ ''='' @ token @ ''; Path=/'' @
       (if sc_Secure (ac_Session cfg) then ''; Secure'' else []) @ ''; SameSite='' @ same_site_text (sc_SameSite (ac_Session cfg)))"

definition csrfMiddleware :: "http_lib \<Rightarrow> AuthConfig \<Rightarrow> bool \<Rightarrow> http_request \<Rightarrow> http_writer \<Rightarrow> decision" where
  "csrfMiddleware lib cfg session r w0 =
     (let secret = ac_CSRFSecret cfg; w = header_Add ''Vary'' ''Cookie'' w0;
          cookie = map_of (hr_Cookies r) (csrfCookieName cfg);
          validCookie = (case cookie of None \<Rightarrow> False | Some token \<Rightarrow> validCSRFToken lib secret token)
      in case (if validCookie then cookie else issueCSRFToken lib secret) of
           None \<Rightarrow> Answered (writeError lib 503 ''csrf_unavailable'' ''service is temporarily unavailable'' w)
         | Some token \<Rightarrow>
             let w1 = (if validCookie then w else setCSRFCookie cfg token w) in
             if \<not> safeCSRFMethod (hr_Method r) \<and>
                (\<not> validCookie \<or> \<not> csrfOriginAllowed lib cfg r \<or> token \<noteq> header_Get r ''X-CSRF-Token'')
             then Answered (writeError lib 403 ''csrf_failed'' ''request could not be verified'' w1)
             else Forward session (r\<lparr>hr_csrf := token\<rparr>) w1)"

subsection \<open>Paths\<close>

definition containsEscapedPathSeparator :: "http_lib \<Rightarrow> string \<Rightarrow> bool" where
  "containsEscapedPathSeparator lib v \<longleftrightarrow>
     strings_Contains (hl_ToLower lib v) ''%2f'' \<or> strings_Contains (hl_ToLower lib v) ''%5c''"

datatype canonical_path = NotCanonical | InvalidPath | CanonicalPath string Operation

definition profilesPrefix :: string where "profilesPrefix = ''/api/v1/profiles/''"

definition canonicalProfileOperation :: "http_lib \<Rightarrow> http_request \<Rightarrow> canonical_path" where
  "canonicalProfileOperation lib r =
     (let escaped = hr_EscapedPath r in
      if \<not> strings_HasPrefix escaped profilesPrefix then NotCanonical
      else let rest = strings_TrimPrefix escaped profilesPrefix in
        case (if strings_HasSuffix rest ''/encrypt'' then Some (''/encrypt'', OperationEncrypt)
              else if strings_HasSuffix rest ''/decrypt'' then Some (''/decrypt'', OperationDecrypt) else None) of
          None \<Rightarrow> NotCanonical
        | Some (suffix, oper) \<Rightarrow>
            let escapedProfileID = strings_TrimSuffix rest suffix in
            if escapedProfileID = [] \<or> containsEscapedPathSeparator lib escapedProfileID then InvalidPath
            else (case hl_PathUnescape lib escapedProfileID of
              None \<Rightarrow> InvalidPath
            | Some profileID \<Rightarrow>
                if strings_Contains profileID ''/'' \<or> \<not> IsValidProfileID profileID then InvalidPath
                else CanonicalPath profileID oper))"

definition canonicalOperationPath :: "http_lib \<Rightarrow> http_request \<Rightarrow> bool" where
  "canonicalOperationPath lib r \<longleftrightarrow> canonicalProfileOperation lib r \<noteq> NotCanonical"

datatype credentialRoute =
  credentialRouteNone | credentialRouteSessionFlow | credentialRouteSessionOnly | credentialRouteSessionOrBearer | credentialRouteMCPBearer

definition bearer_paths :: "string list" where
  "bearer_paths = [''/api/v1/profiles'', ''/api/v1/generate'', ''/api/v1/rotations'', ''/api/v1/attestations/verify'']"

definition classifyCredentialRoute :: "http_lib \<Rightarrow> bool \<Rightarrow> http_request \<Rightarrow> credentialRoute" where
  "classifyCredentialRoute lib mcpEnabled r =
     (if strings_HasPrefix (hr_Path r) ''/auth/'' \<or> hr_Path r = ''/api/v1/session'' then credentialRouteSessionFlow
      else if hr_Path r = ''/api/v1/operations'' then credentialRouteSessionOnly
      else if hr_Path r \<in> set bearer_paths \<or> canonicalOperationPath lib r then credentialRouteSessionOrBearer
      else if hr_Path r = ''/mcp'' \<and> mcpEnabled then credentialRouteMCPBearer
      else credentialRouteNone)"

subsection \<open>Credentials\<close>

text \<open>No Authorization header, one that is not a single Bearer token, or a token.\<close>

datatype bearer = NoCredential | MalformedCredential | BearerToken string

definition bearerCredential :: "http_lib \<Rightarrow> http_request \<Rightarrow> bearer" where
  "bearerCredential lib r =
     (case hr_Header r ''Authorization'' of
        [] \<Rightarrow> NoCredential
      | [v0] \<Rightarrow>
          let v = strings_TrimSpace v0 in
          (case strings_Cut v (CHR '' '') of (scheme, token, found) \<Rightarrow>
             if \<not> found \<or> \<not> hl_EqualFold lib scheme ''Bearer'' \<or> strings_TrimSpace token = [] \<or>
                strings_Contains token '' '' \<or> strings_Contains v '',''
             then MalformedCredential else BearerToken token)
      | _ \<Rightarrow> MalformedCredential)"

definition hasSessionCookie :: "AuthConfig \<Rightarrow> http_request \<Rightarrow> bool" where
  "hasSessionCookie cfg r =
     (let cookieName = strings_TrimSpace (sc_CookieName (ac_Session cfg)) in
      cookieName \<noteq> [] \<and> list_ex (\<lambda>(name, v). name = cookieName \<and> v \<noteq> []) (hr_Cookies r))"

definition rejectUnsupportedAuthorization :: "http_lib \<Rightarrow> AuthConfig \<Rightarrow> http_request \<Rightarrow> http_writer \<Rightarrow> http_writer option" where
  "rejectUnsupportedAuthorization lib cfg r w =
     (if hr_Header r ''Authorization'' = [] then None
      else if ac_Mode cfg \<noteq> AuthModeNative
      then Some (writeError lib 400 ''invalid_request'' ''authorization header is not supported'' w)
      else if hasSessionCookie cfg r
      then Some (writeError lib 400 ''invalid_request'' ''multiple authentication credentials are not permitted'' w)
      else Some (writeError lib 401 ''unauthorized'' ''request could not be authenticated'' w))"

definition trim_right_slashes :: "string \<Rightarrow> string" where
  "trim_right_slashes s = rev (dropWhile (\<lambda>c. c = CHR ''/'') (rev s))"

definition protectedResourceMetadataURL :: "AuthConfig \<Rightarrow> string" where
  "protectedResourceMetadataURL cfg =
     (let base = trim_right_slashes (strings_TrimSpace (oc_PublicBaseURL (ac_OIDC cfg))) in
      if base = [] then [] else base @ ''/.well-known/oauth-protected-resource'')"

definition quoted_parameter :: "string \<Rightarrow> string \<Rightarrow> string" where
  "quoted_parameter name v = name @ ''='' @ [CHR 0x22] @ v @ [CHR 0x22]"

definition bearerChallenge :: "string \<Rightarrow> string \<Rightarrow> string \<Rightarrow> string" where
  "bearerChallenge bearerError scope resourceMetadataURL =
     strings_Join ([''Bearer '' @ quoted_parameter ''realm'' ''vaultsmith''] @
       (if bearerError \<noteq> [] then [quoted_parameter ''error'' bearerError] else []) @
       (if scope \<noteq> [] then [quoted_parameter ''scope'' scope] else []) @
       (if resourceMetadataURL \<noteq> [] then [quoted_parameter ''resource_metadata'' resourceMetadataURL] else [])) '', ''"

definition writeBearerChallenge :: "http_lib \<Rightarrow> AuthConfig \<Rightarrow> nat \<Rightarrow> string \<Rightarrow> string \<Rightarrow> http_writer \<Rightarrow> http_writer" where
  "writeBearerChallenge lib cfg status bearerError scope w =
     (let w1 = header_Set ''WWW-Authenticate'' (bearerChallenge bearerError scope (protectedResourceMetadataURL cfg)) w in
      if status = 403 then writeError lib status ''forbidden'' ''operation is not permitted'' w1
      else writeError lib status ''unauthorized'' ''request could not be authenticated'' w1)"

datatype token_check = TokenAccepted Caller | TokenKeyUnavailable | TokenRejected

text \<open>\<open>verify\<close> is None when the handler has no authenticator. The callers leave the required scope empty.\<close>

definition verifyBearerCredential ::
  "http_lib \<Rightarrow> AuthConfig \<Rightarrow> (string \<Rightarrow> token_check) option \<Rightarrow> string \<Rightarrow> http_writer \<Rightarrow> http_writer + Caller" where
  "verifyBearerCredential lib cfg verify token w =
     (case verify of
        None \<Rightarrow> Inl (writeError lib 503 ''not_ready'' ''service is not ready'' w)
      | Some f \<Rightarrow> (case f token of
          TokenKeyUnavailable \<Rightarrow> Inl (writeError lib 503 ''temporarily_unavailable'' ''service is temporarily unavailable'' w)
        | TokenRejected \<Rightarrow> Inl (writeBearerChallenge lib cfg 401 ''invalid_token'' [] w)
        | TokenAccepted actor \<Rightarrow> Inr actor))"

subsection \<open>MCP request headers\<close>

definition mcpProtocolVersion :: string where "mcpProtocolVersion = ''2026-07-28''"
definition mcpErrorInvalidRequest :: int where "mcpErrorInvalidRequest = - 32600"
definition mcpErrorHeaderMismatch :: int where "mcpErrorHeaderMismatch = - 32020"
definition mcpErrorUnsupportedProtocol :: int where "mcpErrorUnsupportedProtocol = - 32022"

definition singletonHeader :: "http_request \<Rightarrow> string \<Rightarrow> string option" where
  "singletonHeader r name =
     (case hr_Header r name of
        [v0] \<Rightarrow> let v = strings_TrimSpace v0 in if v = [] \<or> strings_Contains v '','' then None else Some v
      | _ \<Rightarrow> None)"

definition decodeMCPNameHeader :: "http_lib \<Rightarrow> string \<Rightarrow> string option" where
  "decodeMCPNameHeader lib v =
     (if strings_HasPrefix v ''=?base64?'' then
        if \<not> strings_HasSuffix v ''?='' then None
        else (case hl_base64Std lib (strings_TrimSuffix (strings_TrimPrefix v ''=?base64?'') ''?='') of
          None \<Rightarrow> None
        | Some decoded \<Rightarrow> if utf8_valid decoded then Some decoded else None)
      else Some v)"

definition header_mismatch :: "http_lib \<Rightarrow> http_writer \<Rightarrow> http_writer" where
  "header_mismatch lib = mcpWriteHTTPError lib 400 mcpErrorHeaderMismatch ''HeaderMismatch'' None"

definition parseMCPRequestHeaders :: "http_lib \<Rightarrow> http_request \<Rightarrow> http_writer \<Rightarrow> http_writer + mcpHeaders" where
  "parseMCPRequestHeaders lib r w =
     (case singletonHeader r ''MCP-Protocol-Version'' of
        None \<Rightarrow> Inl (header_mismatch lib w)
      | Some version \<Rightarrow>
          if version \<noteq> mcpProtocolVersion
          then Inl (mcpWriteHTTPError lib 400 mcpErrorUnsupportedProtocol ''UnsupportedProtocolVersionError'' (Some version) w)
          else (case singletonHeader r ''Mcp-Method'' of
            None \<Rightarrow> Inl (header_mismatch lib w)
          | Some meth \<Rightarrow>
              if meth = ''tools/call'' \<or> meth = ''resources/read'' \<or> meth = ''prompts/get'' then
                (case singletonHeader r ''Mcp-Name'' of
                   None \<Rightarrow> Inl (header_mismatch lib w)
                 | Some encodedName \<Rightarrow> (case decodeMCPNameHeader lib encodedName of
                     None \<Rightarrow> Inl (header_mismatch lib w)
                   | Some name \<Rightarrow> Inr \<lparr>mh_protocolVersion = version, mh_method = meth, mh_toolName = name\<rparr>))
              else Inr \<lparr>mh_protocolVersion = version, mh_method = meth, mh_toolName = []\<rparr>))"

definition positiveHTTPMediaQuality :: "(string \<rightharpoonup> string) \<Rightarrow> bool" where
  "positiveHTTPMediaQuality parameters =
     (case parameters ''q'' of
        None \<Rightarrow> True
      | Some quality \<Rightarrow>
          if quality = ''0'' \<or> quality = ''0.'' then False
          else if quality = ''1'' \<or> quality = ''1.'' then True
          else if length quality < 3 \<or> 5 < length quality \<or> quality ! 1 \<noteq> CHR ''.'' then False
          else let digits = drop 2 quality in
            if \<not> list_all is_json_digit digits then False
            else if hd quality = CHR ''0'' then list_ex (\<lambda>c. c \<noteq> CHR ''0'') digits
            else if hd quality = CHR ''1'' then list_all (\<lambda>c. c = CHR ''0'') digits
            else False)"

text \<open>The media types of an Accept header whose quality is positive, in lower case.\<close>

definition accepted_types :: "http_lib \<Rightarrow> string list \<Rightarrow> string list" where
  "accepted_types lib values =
     concat (map (\<lambda>part. case hl_ParseMediaType lib (strings_TrimSpace part) of
         None \<Rightarrow> []
       | Some (mediaType, parameters) \<Rightarrow> if positiveHTTPMediaQuality parameters then [hl_ToLower lib mediaType] else [])
       (concat (map (\<lambda>v. strings_Split v (CHR '','')) values)))"

definition mcpAccepts :: "http_lib \<Rightarrow> string list \<Rightarrow> bool" where
  "mcpAccepts lib values \<longleftrightarrow>
     values \<noteq> [] \<and> ''application/json'' \<in> set (accepted_types lib values) \<and> ''text/event-stream'' \<in> set (accepted_types lib values)"

definition generate_tools :: "string list" where
  "generate_tools = [''generate_password'', ''generate_token'', ''generate_ssh_keypair'', ''generate_age_identity'', ''generate_x509_csr'']"

definition isMCPGenerateTool :: "string \<Rightarrow> bool" where
  "isMCPGenerateTool name \<longleftrightarrow> name \<in> set generate_tools"

definition mcpHeaderRequiredScope :: "string \<Rightarrow> string \<Rightarrow> string" where
  "mcpHeaderRequiredScope meth toolName =
     (if meth = ''server/discover'' \<or> meth = ''tools/list'' then ScopeProfileRead
      else if meth = ''tools/call'' then
        (if toolName = ''list_profiles'' then ScopeProfileRead
         else if toolName = ''encrypt'' then ScopeEncrypt
         else if isMCPGenerateTool toolName then ScopeEncrypt
         else if toolName = ''decrypt'' then ScopeDecrypt
         else if toolName = ''rotate'' then ScopeRotate
         else if toolName = ''verify_rotation_attestation'' then ScopeAttestationVerify
         else [])
      else [])"

subsection \<open>Checks of headers\<close>

definition isJSONContentType :: "http_lib \<Rightarrow> string \<Rightarrow> bool" where
  "isJSONContentType lib v =
     (case hl_ParseMediaType lib v of None \<Rightarrow> False | Some (mediaType, _) \<Rightarrow> hl_EqualFold lib mediaType ''application/json'')"

fun count_identity :: "http_lib \<Rightarrow> string list \<Rightarrow> nat \<Rightarrow> nat option" where
  "count_identity lib [] n = Some n"
| "count_identity lib (part # parts) n =
     (let coding = strings_TrimSpace part in
      if coding = [] \<or> \<not> hl_EqualFold lib coding ''identity'' then None
      else if Suc n > 1 then None else count_identity lib parts (Suc n))"

definition supportsIdentityContentEncoding :: "http_lib \<Rightarrow> http_request \<Rightarrow> bool" where
  "supportsIdentityContentEncoding lib r =
     (let values = hr_Header r ''Content-Encoding'' in
      values = [] \<or> count_identity lib (concat (map (\<lambda>v. strings_Split v (CHR '','')) values)) 0 = Some 1)"

definition hasIdempotencyKey :: "http_request \<Rightarrow> bool" where
  "hasIdempotencyKey r \<longleftrightarrow> hr_Header r ''Idempotency-Key'' \<noteq> []"

definition validMCPPreflight :: "http_lib \<Rightarrow> http_request \<Rightarrow> bool" where
  "validMCPPreflight lib r \<longleftrightarrow>
     hr_Method r = ''OPTIONS'' \<and> strings_TrimSpace (header_Get r ''Origin'') \<noteq> [] \<and>
     hl_EqualFold lib (strings_TrimSpace (header_Get r ''Access-Control-Request-Method'')) ''POST''"

subsection \<open>Middlewares\<close>

definition and_pass :: "decision \<Rightarrow> (http_request \<Rightarrow> http_writer \<Rightarrow> decision) \<Rightarrow> decision" where
  "and_pass d next = (case d of Answered w \<Rightarrow> Answered w | Forward _ r w \<Rightarrow> next r w)"

definition disabledMCPMiddleware :: "http_lib \<Rightarrow> bool \<Rightarrow> http_request \<Rightarrow> http_writer \<Rightarrow> decision" where
  "disabledMCPMiddleware lib enabled r w =
     (if hr_Path r = ''/mcp'' \<and> \<not> enabled then Answered (writeError lib 404 ''not_found'' ''resource was not found'' w)
      else Forward False r w)"

definition mcpMethodMiddleware :: "http_lib \<Rightarrow> bool \<Rightarrow> http_request \<Rightarrow> http_writer \<Rightarrow> decision" where
  "mcpMethodMiddleware lib enabled r w =
     (if hr_Path r \<noteq> ''/mcp'' \<or> \<not> enabled \<or> hr_Method r = ''POST'' \<or> validMCPPreflight lib r then Forward False r w
      else Answered (methodNotAllowed lib ''POST'' w))"

definition legacySessionOnlyAPIMethod :: "http_request \<Rightarrow> bool" where
  "legacySessionOnlyAPIMethod r \<longleftrightarrow>
     hr_Path r = ''/api/v1/profiles'' \<and> hr_Method r = ''GET'' \<or> hr_Path r = ''/api/v1/operations'' \<and> hr_Method r = ''POST''"

definition legacyCredentialDispatchMiddleware :: "http_lib \<Rightarrow> AuthConfig \<Rightarrow> http_request \<Rightarrow> http_writer \<Rightarrow> decision" where
  "legacyCredentialDispatchMiddleware lib cfg r w =
     (case (if legacySessionOnlyAPIMethod r then rejectUnsupportedAuthorization lib cfg r w else None) of
        Some w1 \<Rightarrow> Answered w1
      | None \<Rightarrow> Forward False r w)"

definition corsAllowedHeaders :: "http_lib \<Rightarrow> AuthConfig \<Rightarrow> bool \<Rightarrow> http_request \<Rightarrow> string" where
  "corsAllowedHeaders lib cfg mcpEnabled r =
     strings_Join ([''Content-Type'', ''X-CSRF-Token''] @
       (if hr_Path r = ''/mcp'' \<and> mcpEnabled then
          [''MCP-Protocol-Version'', ''Mcp-Method'', ''Mcp-Name''] @ (if ac_Mode cfg = AuthModeNative then [''Authorization''] else [])
        else if ac_Mode cfg = AuthModeNative \<and> (hr_Path r \<in> set bearer_paths \<or> canonicalOperationPath lib r) then [''Authorization'']
        else [])) '', ''"

definition corsAllowedMethods :: "bool \<Rightarrow> http_request \<Rightarrow> string" where
  "corsAllowedMethods mcpEnabled r = (if hr_Path r = ''/mcp'' \<and> mcpEnabled then ''POST, OPTIONS'' else ''GET, POST, OPTIONS'')"

definition corsMiddleware :: "http_lib \<Rightarrow> AuthConfig \<Rightarrow> bool \<Rightarrow> http_request \<Rightarrow> http_writer \<Rightarrow> decision" where
  "corsMiddleware lib cfg mcpEnabled r w =
     (let origin = header_Get r ''Origin'' in
      if origin = [] then Forward False r w
      else if origin = ''null'' then Answered (writeError lib 403 ''forbidden'' ''operation is not permitted'' w)
      else if \<not> explicitly_allowed lib cfg origin \<and> \<not> isSameOrigin lib cfg origin r
      then Answered (writeError lib 403 ''forbidden'' ''operation is not permitted'' w)
      else let w1 = header_Add ''Vary'' ''Origin'' (fold (\<lambda>(k, v). header_Set k v)
                 [(''Access-Control-Allow-Origin'', origin), (''Access-Control-Allow-Credentials'', ''true''),
                  (''Access-Control-Allow-Headers'', corsAllowedHeaders lib cfg mcpEnabled r),
                  (''Access-Control-Allow-Methods'', corsAllowedMethods mcpEnabled r),
                  (''Access-Control-Expose-Headers'', ''WWW-Authenticate, X-Request-ID, Retry-After'')] w) in
        if hr_Method r = ''OPTIONS'' then
          if hr_Path r = ''/mcp'' \<and> \<not> mcpEnabled then Answered (writeError lib 404 ''not_found'' ''resource was not found'' w1)
          else if hr_Path r = ''/mcp'' \<and> \<not> validMCPPreflight lib r then Forward False r w1
          else Answered (write_status 204 w1)
        else Forward False r w1)"

definition post_paths :: "string list" where
  "post_paths = [''/api/v1/operations'', ''/api/v1/generate'', ''/api/v1/rotations'', ''/api/v1/attestations/verify'']"

definition preflightApplicationRequest :: "http_lib \<Rightarrow> bool \<Rightarrow> http_request \<Rightarrow> http_writer \<Rightarrow> decision" where
  "preflightApplicationRequest lib mcpEnabled r w =
     (if canonicalProfileOperation lib r = InvalidPath then Answered (writeError lib 400 ''invalid_request'' ''profile ID is invalid'' w)
      else if hr_Path r = ''/api/v1/profiles'' then
        if hr_Method r \<noteq> ''GET'' then Answered (methodNotAllowed lib ''GET'' w) else Forward False r w
      else if hr_Path r \<in> set post_paths \<or> canonicalOperationPath lib r then
        if hr_Method r \<noteq> ''POST'' then Answered (methodNotAllowed lib ''POST'' w)
        else if \<not> isJSONContentType lib (header_Get r ''Content-Type'')
        then Answered (writeError lib 415 ''invalid_request'' ''content type must be application/json'' w)
        else if \<not> supportsIdentityContentEncoding lib r
        then Answered (writeError lib 415 ''invalid_request'' ''media type is not supported'' w)
        else if hr_Path r = ''/api/v1/generate'' \<and> hasIdempotencyKey r
        then Answered (writeError lib 400 ''invalid_request'' ''request is invalid'' w)
        else Forward False r w
      else if hr_Path r = ''/mcp'' \<and> mcpEnabled then
        if hr_Method r \<noteq> ''POST'' then Forward False r w
        else if \<not> isJSONContentType lib (header_Get r ''Content-Type'') \<or> \<not> supportsIdentityContentEncoding lib r
        then Answered (mcpWriteHTTPError lib 415 mcpErrorInvalidRequest ''unsupported media type'' None w)
        else if \<not> mcpAccepts lib (hr_Header r ''Accept'')
        then Answered (mcpWriteHTTPError lib 406 mcpErrorInvalidRequest ''not acceptable'' None w)
        else (case parseMCPRequestHeaders lib r w of
          Inl w1 \<Rightarrow> Answered w1
        | Inr headers \<Rightarrow> Forward False (r\<lparr>hr_mcp := Some headers\<rparr>) w)
      else Forward False r w)"

text \<open>The service behind the handler, with the context of the request and the instant of the preflight. The
  handler of the source may be nil; then nothing is preflighted.\<close>

record 'r http_service =
  hs_service :: "Service option"
  hs_generator :: "'r MaterialGenerator option"
  hs_ctx :: ctx
  hs_t :: nat

definition bearerRouteRequiredScope :: "http_lib \<Rightarrow> http_request \<Rightarrow> string" where
  "bearerRouteRequiredScope lib r =
     (if hr_Path r = ''/api/v1/profiles'' then ScopeProfileRead
      else if hr_Path r = ''/api/v1/generate'' then ScopeEncrypt
      else if hr_Path r = ''/api/v1/attestations/verify'' then ScopeAttestationVerify
      else if hr_Path r = ''/api/v1/rotations'' then (case RequiredScope OperationRotate of None \<Rightarrow> [] | Some scope \<Rightarrow> scope)
      else (case canonicalProfileOperation lib r of
        CanonicalPath _ oper \<Rightarrow> (case RequiredScope oper of None \<Rightarrow> [] | Some scope \<Rightarrow> scope)
      | _ \<Rightarrow> []))"

definition challenge_or_error :: "http_lib \<Rightarrow> AuthConfig \<Rightarrow> string \<Rightarrow> svc_error \<Rightarrow> http_writer \<Rightarrow> http_writer" where
  "challenge_or_error lib cfg scope err w =
     (if HasCode err CodeForbidden then writeBearerChallenge lib cfg 403 ''insufficient_scope'' scope w
      else writeServiceError lib err w)"

definition preflightBearerRoute ::
  "http_lib \<Rightarrow> AuthConfig \<Rightarrow> 'r http_service option \<Rightarrow> Caller \<Rightarrow> http_request \<Rightarrow> http_writer \<Rightarrow> http_writer option" where
  "preflightBearerRoute lib cfg handler actor r w =
     (case handler of
        None \<Rightarrow> None
      | Some h \<Rightarrow>
          if hr_Path r = ''/api/v1/profiles'' then
            map_option (\<lambda>err. challenge_or_error lib cfg ScopeProfileRead err w) (PreflightProfiles (hs_service h) (hs_ctx h) (hs_t h) actor)
          else if hr_Path r = ''/api/v1/generate'' then
            map_option (\<lambda>err. challenge_or_error lib cfg ScopeEncrypt err w) (PreflightGenerate (hs_service h) (hs_generator h) (hs_ctx h) (hs_t h) actor)
          else if hr_Path r = ''/api/v1/attestations/verify'' then
            if \<not> HasScope actor ScopeAttestationVerify
            then Some (writeBearerChallenge lib cfg 403 ''insufficient_scope'' ScopeAttestationVerify w)
            else if hs_service h = None
            then Some (writeError lib 503 (code_text CodeAttestationUnavailable) ''rotation attestation service is unavailable'' w)
            else map_option (\<lambda>err. challenge_or_error lib cfg ScopeAttestationVerify err w)
              (PreflightAttestationVerify (hs_service h) (hs_ctx h) (hs_t h) actor)
          else if hr_Path r = ''/api/v1/rotations'' then
            map_option (\<lambda>err. challenge_or_error lib cfg ScopeRotate err w) (Preflight (hs_ctx h) (hs_t h) actor OperationRotate)
          else (case canonicalProfileOperation lib r of
            CanonicalPath _ oper \<Rightarrow>
              map_option (\<lambda>err. challenge_or_error lib cfg (case RequiredScope oper of None \<Rightarrow> [] | Some scope \<Rightarrow> scope) err w)
                (Preflight (hs_ctx h) (hs_t h) actor oper)
          | _ \<Rightarrow> None))"

text \<open>The tool name of MCP as an operation.\<close>

definition tool_operation :: "string \<Rightarrow> Operation" where
  "tool_operation name =
     (if name = ''encrypt'' then OperationEncrypt else if name = ''decrypt'' then OperationDecrypt
      else if name = ''rotate'' then OperationRotate else OperationOther name)"

definition preflightMCPBearerRoute ::
  "http_lib \<Rightarrow> AuthConfig \<Rightarrow> 'r http_service option \<Rightarrow> Caller \<Rightarrow> http_request \<Rightarrow> http_writer \<Rightarrow> http_writer option" where
  "preflightMCPBearerRoute lib cfg handler actor r w =
     (case handler of
        None \<Rightarrow> None
      | Some h \<Rightarrow> (case hr_mcp r of
          None \<Rightarrow> Some (writeError lib 503 ''not_ready'' ''service is not ready'' w)
        | Some headers \<Rightarrow>
            let scope = mcpHeaderRequiredScope (mh_method headers) (mh_toolName headers);
                listing = (mh_method headers = ''server/discover'' \<or> mh_method headers = ''tools/list'');
                verifying = (mh_method headers = ''tools/call'' \<and> mh_toolName headers = ''verify_rotation_attestation'')
            in if listing \<and> HasScope actor ScopeAttestationVerify then None
               else if scope = [] then None
               else let (scope1, err) =
                   (if verifying then (ScopeAttestationVerify, PreflightAttestationVerify (hs_service h) (hs_ctx h) (hs_t h) actor)
                    else if mh_method headers = ''tools/call'' \<and> isMCPGenerateTool (mh_toolName headers)
                    then (ScopeEncrypt, PreflightGenerate (hs_service h) (hs_generator h) (hs_ctx h) (hs_t h) actor)
                    else if scope = ScopeProfileRead then (scope, PreflightProfiles (hs_service h) (hs_ctx h) (hs_t h) actor)
                    else (scope, Preflight (hs_ctx h) (hs_t h) actor (tool_operation (mh_toolName headers))))
                 in case err of
                      None \<Rightarrow> None
                    | Some e \<Rightarrow>
                        if verifying \<and> (HasCode e CodeFeatureUnavailable \<or> HasCode e CodeAttestationUnavailable) then None
                        else Some (challenge_or_error lib cfg scope1 e w)))"

definition multiple_credentials :: "http_lib \<Rightarrow> http_writer \<Rightarrow> http_writer" where
  "multiple_credentials lib = writeError lib 400 ''invalid_request'' ''multiple authentication credentials are not permitted''"

definition handlerForSessionRequest :: "http_lib \<Rightarrow> AuthConfig \<Rightarrow> http_request \<Rightarrow> http_writer \<Rightarrow> decision" where
  "handlerForSessionRequest lib cfg r w =
     (if safeCSRFMethod (hr_Method r) then Forward True r w else csrfMiddleware lib cfg True r w)"

definition with_bearer ::
  "http_lib \<Rightarrow> AuthConfig \<Rightarrow> (string \<Rightarrow> token_check) option \<Rightarrow> (Caller \<Rightarrow> http_writer \<Rightarrow> http_writer option) \<Rightarrow> string \<Rightarrow>
     http_request \<Rightarrow> http_writer \<Rightarrow> decision" where
  "with_bearer lib cfg verify preflight token r w =
     (case verifyBearerCredential lib cfg verify token w of
        Inl w1 \<Rightarrow> Answered w1
      | Inr actor \<Rightarrow> (case preflight actor w of
          Some w1 \<Rightarrow> Answered w1
        | None \<Rightarrow> Forward False (r\<lparr>hr_caller := Some actor\<rparr>) w))"

text \<open>In native mode the authenticator is there: \<open>WrapSecurityWithOptions\<close> uses other middlewares without it.\<close>

definition credentialDispatchMiddleware ::
  "http_lib \<Rightarrow> AuthConfig \<Rightarrow> bool \<Rightarrow> (string \<Rightarrow> token_check) option \<Rightarrow> 'r http_service option \<Rightarrow> http_request \<Rightarrow> http_writer \<Rightarrow> decision" where
  "credentialDispatchMiddleware lib cfg mcpEnabled verify handler r w =
     (let route = classifyCredentialRoute lib mcpEnabled r; credential = bearerCredential lib r; sessionPresent = hasSessionCookie cfg r in
      if route = credentialRouteNone then Forward False r w
      else if ac_Mode cfg \<noteq> AuthModeNative then
        if credential \<noteq> NoCredential
        then Answered (writeError lib 400 ''invalid_request'' ''authorization header is not supported'' w)
        else Forward False r w
      else if sessionPresent \<and> credential \<noteq> NoCredential then Answered (multiple_credentials lib w)
      else (case route of
        credentialRouteSessionOnly \<Rightarrow>
          if credential \<noteq> NoCredential then Answered (writeError lib 401 ''unauthorized'' ''request could not be authenticated'' w)
          else handlerForSessionRequest lib cfg r w
      | credentialRouteSessionFlow \<Rightarrow>
          if credential \<noteq> NoCredential then Answered (writeError lib 401 ''unauthorized'' ''request could not be authenticated'' w)
          else csrfMiddleware lib cfg True r w
      | credentialRouteSessionOrBearer \<Rightarrow>
          (case credential of
             BearerToken token \<Rightarrow>
               with_bearer lib cfg verify (\<lambda>actor. preflightBearerRoute lib cfg handler actor r) token r w
           | MalformedCredential \<Rightarrow> Answered (writeBearerChallenge lib cfg 401 ''invalid_token'' [] w)
           | NoCredential \<Rightarrow>
               if \<not> sessionPresent then Answered (writeBearerChallenge lib cfg 401 [] (bearerRouteRequiredScope lib r) w)
               else handlerForSessionRequest lib cfg r w)
      | credentialRouteMCPBearer \<Rightarrow>
          if sessionPresent then Answered (writeBearerChallenge lib cfg 401 ''invalid_token'' [] w)
          else (case credential of
            MalformedCredential \<Rightarrow> Answered (writeBearerChallenge lib cfg 401 ''invalid_token'' [] w)
          | NoCredential \<Rightarrow>
              Answered (writeBearerChallenge lib cfg 401 []
                (case hr_mcp r of None \<Rightarrow> [] | Some headers \<Rightarrow> mcpHeaderRequiredScope (mh_method headers) (mh_toolName headers)) w)
          | BearerToken token \<Rightarrow>
              with_bearer lib cfg verify (\<lambda>actor. preflightMCPBearerRoute lib cfg handler actor r) token r w)
      | credentialRouteNone \<Rightarrow> Forward False r w))"

definition WrapSecurityWithOptions ::
  "http_lib \<Rightarrow> AuthConfig \<Rightarrow> bool \<Rightarrow> (string \<Rightarrow> token_check) option \<Rightarrow> 'r http_service option \<Rightarrow> http_request \<Rightarrow> http_writer \<Rightarrow> decision" where
  "WrapSecurityWithOptions lib cfg mcpEnabled verify handler r0 w0 =
     (let w = setSecurityHeaders (ensureRequestID lib w0) in
      and_pass (disabledMCPMiddleware lib mcpEnabled r0 w) (\<lambda>r w.
      and_pass (mcpMethodMiddleware lib mcpEnabled r w) (\<lambda>r w.
      and_pass (corsMiddleware lib cfg mcpEnabled r w) (\<lambda>r w.
      if ac_Mode cfg = AuthModeNative \<and> verify = None then
        and_pass (legacyCredentialDispatchMiddleware lib cfg r w) (csrfMiddleware lib cfg False)
      else
        and_pass (preflightApplicationRequest lib mcpEnabled r w)
          (credentialDispatchMiddleware lib cfg mcpEnabled verify handler)))))"

section \<open>Lemmas\<close>

lemma and_pass_Forward:
  "and_pass d next = Forward s r w \<longleftrightarrow> (\<exists>s1 r1 w1. d = Forward s1 r1 w1 \<and> next r1 w1 = Forward s r w)"
  by (cases d) (auto simp: and_pass_def)

lemma disabledMCP_Forward: "disabledMCPMiddleware lib enabled r w = Forward s r' w' \<Longrightarrow> r' = r \<and> w' = w"
  by (auto simp: disabledMCPMiddleware_def split: if_splits)

lemma mcpMethod_Forward: "mcpMethodMiddleware lib enabled r w = Forward s r' w' \<Longrightarrow> r' = r \<and> w' = w"
  by (auto simp: mcpMethodMiddleware_def split: if_splits)

definition origin_accepted :: "http_lib \<Rightarrow> AuthConfig \<Rightarrow> http_request \<Rightarrow> bool" where
  "origin_accepted lib cfg r \<longleftrightarrow>
     header_Get r ''Origin'' = [] \<or>
     header_Get r ''Origin'' \<noteq> ''null'' \<and>
       (explicitly_allowed lib cfg (header_Get r ''Origin'') \<or> isSameOrigin lib cfg (header_Get r ''Origin'') r)"

lemma cors_Forward:
  assumes "corsMiddleware lib cfg enabled r w = Forward s r' w'"
  shows "r' = r \<and> origin_accepted lib cfg r"
  using assms unfolding corsMiddleware_def origin_accepted_def Let_def by (auto split: if_splits)

text \<open>The request as the middlewares may change it: values in its context only.\<close>

definition same_request :: "http_request \<Rightarrow> http_request \<Rightarrow> bool" where
  "same_request r r' \<longleftrightarrow> (\<exists>csrf actor mcp. r' = r\<lparr>hr_csrf := csrf, hr_caller := actor, hr_mcp := mcp\<rparr>)"

lemma context_self:
  "\<exists>x. (r :: http_request) = r\<lparr>hr_csrf := x\<rparr>" "\<exists>x. (r :: http_request) = r\<lparr>hr_caller := x\<rparr>" "\<exists>x. (r :: http_request) = r\<lparr>hr_mcp := x\<rparr>"
  by (rule exI [of _ "hr_csrf r"], simp) (rule exI [of _ "hr_caller r"], simp, rule exI [of _ "hr_mcp r"], simp)

lemma preflight_Forward:
  assumes "preflightApplicationRequest lib enabled r w = Forward s r' w'"
  shows "w' = w \<and> (\<exists>mcp. r' = r\<lparr>hr_mcp := mcp\<rparr>) \<and> canonicalProfileOperation lib r \<noteq> InvalidPath"
  using assms context_self(3) unfolding preflightApplicationRequest_def by (auto split: if_splits sum.splits)

text \<open>What an unsafe request must carry beside its session.\<close>

definition csrf_proof :: "http_lib \<Rightarrow> AuthConfig \<Rightarrow> http_request \<Rightarrow> bool" where
  "csrf_proof lib cfg r \<longleftrightarrow>
     (\<exists>token. map_of (hr_Cookies r) (csrfCookieName cfg) = Some token \<and> validCSRFToken lib (ac_CSRFSecret cfg) token \<and>
        header_Get r ''X-CSRF-Token'' = token) \<and> csrfOriginAllowed lib cfg r"

lemma csrf_Forward:
  assumes "csrfMiddleware lib cfg session r w = Forward s r' w'"
  shows "s = session \<and> (\<exists>token. r' = r\<lparr>hr_csrf := token\<rparr>) \<and> (safeCSRFMethod (hr_Method r) \<or> csrf_proof lib cfg r)"
  using assms unfolding csrfMiddleware_def csrf_proof_def Let_def
  by (cases "map_of (hr_Cookies r) (csrfCookieName cfg)") (auto split: if_splits option.splits)

text \<open>What the checks read does not depend on the context.\<close>

lemma header_Get_mcp [simp]: "header_Get (r\<lparr>hr_mcp := m\<rparr>) key = header_Get r key"
  by (simp add: header_Get_def)

lemma same_origin_mcp [simp]: "isSameOrigin lib cfg origin (r\<lparr>hr_mcp := m\<rparr>) = isSameOrigin lib cfg origin r"
proof -
  have "requestOrigin (r\<lparr>hr_mcp := m\<rparr>) = requestOrigin r" by (simp add: requestOrigin_def Let_def)
  then show ?thesis unfolding isSameOrigin_def by (simp only:)
qed

lemma csrf_mcp [simp]: "csrf_proof lib cfg (r\<lparr>hr_mcp := m\<rparr>) = csrf_proof lib cfg r"
  unfolding csrf_proof_def csrfOriginAllowed_def header_Get_mcp same_origin_mcp by simp

lemma routing_mcp [simp]:
  "bearerCredential lib (r\<lparr>hr_mcp := m\<rparr>) = bearerCredential lib r"
  "hasSessionCookie cfg (r\<lparr>hr_mcp := m\<rparr>) = hasSessionCookie cfg r"
  "canonicalProfileOperation lib (r\<lparr>hr_mcp := m\<rparr>) = canonicalProfileOperation lib r"
  by (simp_all add: bearerCredential_def hasSessionCookie_def canonicalProfileOperation_def)

lemma classify_mcp [simp]:
  "classifyCredentialRoute lib enabled (r\<lparr>hr_mcp := m\<rparr>) = classifyCredentialRoute lib enabled r"
  "bearerRouteRequiredScope lib (r\<lparr>hr_mcp := m\<rparr>) = bearerRouteRequiredScope lib r"
  by (simp_all add: classifyCredentialRoute_def canonicalOperationPath_def bearerRouteRequiredScope_def)

text \<open>A request that goes on with the caller of its Bearer token, and one that goes on with its session.\<close>

definition as_bearer ::
  "http_lib \<Rightarrow> AuthConfig \<Rightarrow> (string \<Rightarrow> token_check) \<Rightarrow> http_request \<Rightarrow> http_request \<Rightarrow> bool" where
  "as_bearer lib cfg verify r r' \<longleftrightarrow>
     (\<exists>token actor. bearerCredential lib r = BearerToken token \<and> verify token = TokenAccepted actor \<and> hr_caller r' = Some actor) \<and>
     \<not> hasSessionCookie cfg r"

definition as_session :: "http_lib \<Rightarrow> AuthConfig \<Rightarrow> http_request \<Rightarrow> http_request \<Rightarrow> bool" where
  "as_session lib cfg r r' \<longleftrightarrow>
     bearerCredential lib r = NoCredential \<and> hr_caller r' = hr_caller r \<and> (safeCSRFMethod (hr_Method r) \<or> csrf_proof lib cfg r)"

lemma session_Forward:
  assumes "handlerForSessionRequest lib cfg r w = Forward s r' w'" "bearerCredential lib r = NoCredential"
  shows "s \<and> as_session lib cfg r r' \<and> (\<exists>token. r' = r\<lparr>hr_csrf := token\<rparr>)"
  using assms csrf_Forward [of lib cfg True r w s r' w'] context_self(1) unfolding handlerForSessionRequest_def as_session_def
  by (auto split: if_splits)

lemma with_bearer_Forward:
  assumes "with_bearer lib cfg (Some verify) preflight token r w = Forward s r' w'" "bearerCredential lib r = BearerToken token"
    "\<not> hasSessionCookie cfg r"
  shows "\<not> s \<and> as_bearer lib cfg verify r r' \<and> (\<exists>actor. r' = r\<lparr>hr_caller := Some actor\<rparr> \<and> preflight actor w = None)"
  using assms unfolding with_bearer_def verifyBearerCredential_def as_bearer_def
  by (auto split: sum.splits option.splits token_check.splits)

text \<open>What a route lets through in native mode.\<close>

definition route_accepts ::
  "http_lib \<Rightarrow> AuthConfig \<Rightarrow> (string \<Rightarrow> token_check) \<Rightarrow> credentialRoute \<Rightarrow> bool \<Rightarrow> http_request \<Rightarrow> http_request \<Rightarrow> bool" where
  "route_accepts lib cfg verify route session r r' \<longleftrightarrow>
     (case route of
        credentialRouteNone \<Rightarrow> \<not> session \<and> hr_caller r' = hr_caller r
      | credentialRouteSessionFlow \<Rightarrow> session \<and> as_session lib cfg r r'
      | credentialRouteSessionOnly \<Rightarrow> session \<and> as_session lib cfg r r'
      | credentialRouteSessionOrBearer \<Rightarrow>
          session \<and> hasSessionCookie cfg r \<and> as_session lib cfg r r' \<or> \<not> session \<and> as_bearer lib cfg verify r r'
      | credentialRouteMCPBearer \<Rightarrow> \<not> session \<and> as_bearer lib cfg verify r r')"

lemma dispatch_Forward:
  assumes "credentialDispatchMiddleware lib cfg enabled (Some verify) handler r w = Forward s r' w'" "ac_Mode cfg = AuthModeNative"
  shows "route_accepts lib cfg verify (classifyCredentialRoute lib enabled r) s r r' \<and>
    (\<exists>token actor. r' = r\<lparr>hr_csrf := token, hr_caller := actor\<rparr>)"
proof -
  define route where "route = classifyCredentialRoute lib enabled r"
  note d = assms(1) [unfolded credentialDispatchMiddleware_def Let_def, folded route_def]
  have up: "(\<exists>token. r' = r\<lparr>hr_csrf := token\<rparr>) \<or> (\<exists>actor. r' = r\<lparr>hr_caller := actor\<rparr>) \<Longrightarrow>
      \<exists>token actor. r' = r\<lparr>hr_csrf := token, hr_caller := actor\<rparr>"
  proof (elim disjE exE)
    fix token assume "r' = r\<lparr>hr_csrf := token\<rparr>"
    then have "r' = r\<lparr>hr_csrf := token, hr_caller := hr_caller r\<rparr>" by simp
    then show ?thesis by blast
  next
    fix actor assume "r' = r\<lparr>hr_caller := actor\<rparr>"
    then have "r' = r\<lparr>hr_csrf := hr_csrf r, hr_caller := actor\<rparr>" by simp
    then show ?thesis by blast
  qed
  show ?thesis
  proof (cases route)
    case credentialRouteNone
    then have "r' = r" "\<not> s" using d by simp_all
    then show ?thesis using credentialRouteNone up context_self(1) [of r] unfolding route_def route_accepts_def by simp
  next
    case credentialRouteSessionFlow
    then have n: "bearerCredential lib r = NoCredential" and c: "csrfMiddleware lib cfg True r w = Forward s r' w'"
      using d assms(2) by (auto split: if_splits)
    from csrf_Forward [OF c] n have "s \<and> as_session lib cfg r r'" "\<exists>token. r' = r\<lparr>hr_csrf := token\<rparr>" by (auto simp: as_session_def)
    then show ?thesis using credentialRouteSessionFlow up unfolding route_def route_accepts_def by simp
  next
    case credentialRouteSessionOnly
    then have n: "bearerCredential lib r = NoCredential" and c: "handlerForSessionRequest lib cfg r w = Forward s r' w'"
      using d assms(2) by (auto split: if_splits)
    from session_Forward [OF c n] show ?thesis using credentialRouteSessionOnly up unfolding route_def route_accepts_def by simp
  next
    case credentialRouteSessionOrBearer
    show ?thesis
    proof (cases "bearerCredential lib r")
      case NoCredential
      then have "hasSessionCookie cfg r" "handlerForSessionRequest lib cfg r w = Forward s r' w'"
        using d assms(2) credentialRouteSessionOrBearer by (auto split: if_splits)
      then show ?thesis
        using session_Forward [of lib cfg r w s r' w', OF _ NoCredential] credentialRouteSessionOrBearer up unfolding route_def route_accepts_def by simp
    next
      case MalformedCredential
      then show ?thesis using d assms(2) credentialRouteSessionOrBearer by (auto split: if_splits)
    next
      case (BearerToken token)
      then have b: "\<not> hasSessionCookie cfg r"
        "with_bearer lib cfg (Some verify) (\<lambda>actor. preflightBearerRoute lib cfg handler actor r) token r w = Forward s r' w'"
        using d assms(2) credentialRouteSessionOrBearer by (auto split: if_splits)
      from with_bearer_Forward [OF b(2) BearerToken b(1)] show ?thesis
        using credentialRouteSessionOrBearer up unfolding route_def route_accepts_def by auto
    qed
  next
    case credentialRouteMCPBearer
    show ?thesis
    proof (cases "bearerCredential lib r")
      case (BearerToken token)
      then have b: "\<not> hasSessionCookie cfg r"
        "with_bearer lib cfg (Some verify) (\<lambda>actor. preflightMCPBearerRoute lib cfg handler actor r) token r w = Forward s r' w'"
        using d assms(2) credentialRouteMCPBearer by (auto split: if_splits)
      from with_bearer_Forward [OF b(2) BearerToken b(1)] show ?thesis
        using credentialRouteMCPBearer up unfolding route_def route_accepts_def by auto
    qed (use d assms(2) credentialRouteMCPBearer in \<open>auto split: if_splits\<close>)
  qed
qed

lemma wrap_Forward:
  assumes "WrapSecurityWithOptions lib cfg enabled (Some verify) handler r w = Forward s r' w'"
  obtains mcp w1 where "origin_accepted lib cfg r" "canonicalProfileOperation lib r \<noteq> InvalidPath"
    "credentialDispatchMiddleware lib cfg enabled (Some verify) handler (r\<lparr>hr_mcp := mcp\<rparr>) w1 = Forward s r' w'"
proof -
  obtain w1 where c: "origin_accepted lib cfg r"
    "and_pass (preflightApplicationRequest lib enabled r w1) (credentialDispatchMiddleware lib cfg enabled (Some verify) handler) = Forward s r' w'"
    using assms unfolding WrapSecurityWithOptions_def Let_def and_pass_Forward [of "disabledMCPMiddleware _ _ _ _"]
      and_pass_Forward [of "mcpMethodMiddleware _ _ _ _"] and_pass_Forward [of "corsMiddleware _ _ _ _ _"]
    by (auto dest!: disabledMCP_Forward mcpMethod_Forward cors_Forward)
  then obtain s1 r1 w2 where p: "preflightApplicationRequest lib enabled r w1 = Forward s1 r1 w2"
    "credentialDispatchMiddleware lib cfg enabled (Some verify) handler r1 w2 = Forward s r' w'"
    unfolding and_pass_Forward by blast
  from preflight_Forward [OF p(1)] obtain mcp where "r1 = r\<lparr>hr_mcp := mcp\<rparr>" "canonicalProfileOperation lib r \<noteq> InvalidPath" by blast
  then show thesis using that [OF c(1)] p(2) by blast
qed

lemma handler_not_False: "handlerForSessionRequest lib cfg r w \<noteq> Forward False r' w'"
  using csrf_Forward [of lib cfg True r w False r' w'] by (auto simp: handlerForSessionRequest_def)

lemma Preflight_scope:
  assumes "Preflight c t actor oper = None" "kind actor = KindBearer"
  shows "\<exists>scope. RequiredScope oper = Some scope \<and> HasScope actor scope"
  using assms by (cases oper) (auto simp: Preflight_def requiredScope_def RequiredScope_def split: option.splits if_splits)

lemma route_scope:
  assumes "preflightBearerRoute lib cfg (Some h) actor r w = None" "kind actor = KindBearer"
    "classifyCredentialRoute lib enabled r = credentialRouteSessionOrBearer" "canonicalProfileOperation lib r \<noteq> InvalidPath"
  shows "HasScope actor (bearerRouteRequiredScope lib r)"
proof -
  consider "hr_Path r = ''/api/v1/profiles''" | "hr_Path r = ''/api/v1/generate''" | "hr_Path r = ''/api/v1/attestations/verify''"
    | "hr_Path r = ''/api/v1/rotations''" | "hr_Path r \<notin> set bearer_paths" "canonicalOperationPath lib r"
    using assms(3) by (auto simp: classifyCredentialRoute_def bearer_paths_def split: if_splits)
  then show ?thesis
  proof cases
    case 1
    then show ?thesis using assms(1,2)
      by (auto simp: preflightBearerRoute_def bearerRouteRequiredScope_def PreflightProfiles_def split: option.splits if_splits)
  next
    case 2
    then have "Preflight (hs_ctx h) (hs_t h) actor OperationEncrypt = None" using assms(1)
      by (auto simp: preflightBearerRoute_def PreflightGenerate_def split: option.splits if_splits)
    from Preflight_scope [OF this assms(2)] 2 show ?thesis by (auto simp: bearerRouteRequiredScope_def RequiredScope_def)
  next
    case 3
    then show ?thesis using assms(1) by (auto simp: preflightBearerRoute_def bearerRouteRequiredScope_def split: if_splits)
  next
    case 4
    then have "Preflight (hs_ctx h) (hs_t h) actor OperationRotate = None" using assms(1) by (auto simp: preflightBearerRoute_def)
    from Preflight_scope [OF this assms(2)] 4 show ?thesis by (auto simp: bearerRouteRequiredScope_def)
  next
    case 5
    show ?thesis
    proof (cases "canonicalProfileOperation lib r")
      case (CanonicalPath p oper)
      then have "Preflight (hs_ctx h) (hs_t h) actor oper = None"
        using 5(1) assms(1) by (auto simp: preflightBearerRoute_def bearer_paths_def)
      from Preflight_scope [OF this assms(2)] 5(1) CanonicalPath show ?thesis by (auto simp: bearerRouteRequiredScope_def bearer_paths_def)
    next
      case NotCanonical
      then show ?thesis using 5(2) by (simp add: canonicalOperationPath_def)
    next
      case InvalidPath
      then show ?thesis using assms(4) by simp
    qed
  qed
qed

section \<open>Properties\<close>

text \<open>C7. In native mode a request reaches the application only from no origin, an allowed one or the public
  one, and with the credentials its route asks for. On a session route it carries no Authorization
  header and goes through the session middleware; unless its method is safe, it brings a CSRF token
  that was made with the secret, both in the cookie and in the header, and an allowed origin or referer. On an
  API route it has a session cookie and all of that, or it has no session cookie and a single
  Bearer token that was accepted, whose caller it then carries; on the MCP route only the latter. The
  middlewares change nothing of the request but values in its context.\<close>

theorem forwarded_requests_are_authenticated:
  assumes "WrapSecurityWithOptions lib cfg mcpEnabled (Some verify) handler r w = Forward session r' w'" "ac_Mode cfg = AuthModeNative"
  shows "origin_accepted lib cfg r \<and> route_accepts lib cfg verify (classifyCredentialRoute lib mcpEnabled r) session r r' \<and> same_request r r'"
proof -
  obtain mcp w1 where f: "origin_accepted lib cfg r" "canonicalProfileOperation lib r \<noteq> InvalidPath"
    "credentialDispatchMiddleware lib cfg mcpEnabled (Some verify) handler (r\<lparr>hr_mcp := mcp\<rparr>) w1 = Forward session r' w'"
    by (rule wrap_Forward [OF assms(1)])
  from dispatch_Forward [OF f(3) assms(2)] obtain token actor where
    a: "route_accepts lib cfg verify (classifyCredentialRoute lib mcpEnabled r) session (r\<lparr>hr_mcp := mcp\<rparr>) r'" and
    r': "r' = r\<lparr>hr_mcp := mcp, hr_csrf := token, hr_caller := actor\<rparr>" by auto
  have "route_accepts lib cfg verify (classifyCredentialRoute lib mcpEnabled r) session r r'"
    using a by (simp add: route_accepts_def as_session_def as_bearer_def split: credentialRoute.splits)
  moreover have "same_request r r'"
    unfolding same_request_def r' by (rule exI [of _ token], rule exI [of _ actor], rule exI [of _ mcp]) simp
  ultimately show ?thesis using f(1) by blast
qed

text \<open>What the middlewares rely on in the verification of access tokens: an accepted token gives a bearer.
  Then a Bearer request that reaches the application on an API route has the scope of that route.\<close>

locale bearer_verifier =
  fixes verify :: "string \<Rightarrow> token_check"
  assumes accepted_bearer: "verify token = TokenAccepted actor \<Longrightarrow> kind actor = KindBearer"
begin

lemma forwarded_scope:
  assumes "WrapSecurityWithOptions lib cfg mcpEnabled (Some verify) (Some h) r w = Forward False r' w'" "ac_Mode cfg = AuthModeNative"
    "classifyCredentialRoute lib mcpEnabled r = credentialRouteSessionOrBearer"
  shows "\<exists>token actor. bearerCredential lib r = BearerToken token \<and> verify token = TokenAccepted actor \<and>
    hr_caller r' = Some actor \<and> HasScope actor (bearerRouteRequiredScope lib r)"
proof -
  obtain mcp w1 where f: "canonicalProfileOperation lib r \<noteq> InvalidPath"
    "credentialDispatchMiddleware lib cfg mcpEnabled (Some verify) (Some h) (r\<lparr>hr_mcp := mcp\<rparr>) w1 = Forward False r' w'"
    by (rule wrap_Forward [OF assms(1)])
  obtain token where t: "bearerCredential lib r = BearerToken token" "\<not> hasSessionCookie cfg r"
    "with_bearer lib cfg (Some verify) (\<lambda>actor. preflightBearerRoute lib cfg (Some h) actor (r\<lparr>hr_mcp := mcp\<rparr>)) token (r\<lparr>hr_mcp := mcp\<rparr>) w1 = Forward False r' w'"
    using f(2) assms(2,3) handler_not_False unfolding credentialDispatchMiddleware_def Let_def
    by (auto split: if_splits bearer.splits)
  from with_bearer_Forward [OF t(3)] t(1,2) obtain actor where a:
    "as_bearer lib cfg verify (r\<lparr>hr_mcp := mcp\<rparr>) r'" "r' = r\<lparr>hr_mcp := mcp, hr_caller := Some actor\<rparr>"
    "preflightBearerRoute lib cfg (Some h) actor (r\<lparr>hr_mcp := mcp\<rparr>) w1 = None" by auto
  have v: "verify token = TokenAccepted actor" using a(1,2) t(1) unfolding as_bearer_def by auto
  have "HasScope actor (bearerRouteRequiredScope lib r)"
    using route_scope [OF a(3)] assms(3) f(1) accepted_bearer [OF v] by simp
  then show ?thesis using a(2) t(1) v by simp
qed

end

text \<open>A CSRF token issued from 32 random bytes is valid under its secret; and every valid token is the
  encoding of 32 bytes and their HMAC under the secret.\<close>

lemma csrf_token_exact:
  assumes "\<And>secret m. length (hl_hmac lib secret m) = sha256_Size" "hl_nonce lib = Some nonce" "length nonce = csrfTokenBytes"
  shows "(\<exists>token. issueCSRFToken lib secret = Some token \<and> validCSRFToken lib secret token) \<and>
    (validCSRFToken lib secret presented \<longleftrightarrow>
       (\<exists>m. length m = csrfTokenBytes \<and> base64_DecodeString presented = Some (m @ hl_hmac lib secret m)))"
proof
  show "\<exists>token. issueCSRFToken lib secret = Some token \<and> validCSRFToken lib secret token"
    using assms by (simp add: issueCSRFToken_def validCSRFToken_def)
  show "validCSRFToken lib secret presented \<longleftrightarrow>
      (\<exists>m. length m = csrfTokenBytes \<and> base64_DecodeString presented = Some (m @ hl_hmac lib secret m))"
  proof
    assume "validCSRFToken lib secret presented"
    then obtain v where v: "base64_DecodeString presented = Some v" "length v = csrfTokenBytes + sha256_Size"
        "drop csrfTokenBytes v = hl_hmac lib secret (take csrfTokenBytes v)"
      by (auto simp: validCSRFToken_def split: option.splits)
    then show "\<exists>m. length m = csrfTokenBytes \<and> base64_DecodeString presented = Some (m @ hl_hmac lib secret m)"
      by (intro exI [of _ "take csrfTokenBytes v"]) (metis append_take_drop_id le_add1 length_take min.absorb2)
  qed (use assms(1) in \<open>auto simp: validCSRFToken_def\<close>)
qed

section \<open>A small request\<close>

definition demo_http_lib :: http_lib where
  "demo_http_lib = \<lparr>hl_url_Parse = (\<lambda>u. if u = ''https://vault.example'' then Some demo_url else None), hl_Port = (\<lambda>_. []),
     hl_PathUnescape = Some, hl_ToLower = (\<lambda>s. s), hl_EqualFold = (\<lambda>a b. a = b), hl_ParseMediaType = (\<lambda>v. Some (v, Map.empty)),
     hl_hmac = (\<lambda>secret m. replicate 32 (CHR ''h'')), hl_nonce = Some (replicate 32 (CHR ''n'')), hl_requestID = ''id'', hl_base64Std = (\<lambda>_. None)\<rparr>"

definition demo_csrf :: string where
  "demo_csrf = base64_EncodeToString (replicate 32 (CHR ''n'') @ replicate 32 (CHR ''h''))"

definition demo_http_config :: AuthConfig where
  "demo_http_config = (au_Config demo_auth)\<lparr>ac_OIDC := demo_oidc\<lparr>oc_PublicBaseURL := ''https://vault.example''\<rparr>\<rparr>"

definition demo_post :: http_request where
  "demo_post = \<lparr>hr_Method = ''POST'', hr_Path = ''/api/v1/rotations'', hr_EscapedPath = ''/api/v1/rotations'',
     hr_Header = (\<lambda>k. if k = ''Content-Type'' then [''application/json''] else if k = ''Origin'' then [''https://vault.example'']
       else if k = ''X-CSRF-Token'' then [demo_csrf] else []),
     hr_Cookies = [(''c'', ''t''), (''__Host-vaultsmith_csrf'', demo_csrf)], hr_Host = ''vault.example'', hr_TLS = True, hr_Query = (\<lambda>_. []),
     hr_csrf = [], hr_caller = None, hr_mcp = None\<rparr>"

definition demo_bearer :: http_request where
  "demo_bearer = demo_post\<lparr>hr_Header := (\<lambda>k. if k = ''Content-Type'' then [''application/json''] else if k = ''Authorization'' then [''Bearer x''] else []),
     hr_Cookies := []\<rparr>"

definition demo_verify :: "string \<Rightarrow> token_check" where
  "demo_verify token = (case NewBearer ''i'' ''s'' [] [ScopeRotate] of Inl _ \<Rightarrow> TokenRejected | Inr actor \<Rightarrow> TokenAccepted actor)"

definition empty_writer :: http_writer where
  "empty_writer = \<lparr>hw_header = (\<lambda>_. []), hw_status = None, hw_body = []\<rparr>"

definition demo_http_service :: "unit http_service" where
  "demo_http_service = \<lparr>hs_service = Some demo_service, hs_generator = None, hs_ctx = Some demo_ctx, hs_t = 0\<rparr>"

fun forwards :: "decision \<Rightarrow> bool option" where
  "forwards (Answered _) = None"
| "forwards (Forward session _ _) = Some session"

lemma forwardsE: "forwards d = Some s \<Longrightarrow> (\<And>r w. d = Forward s r w \<Longrightarrow> thesis) \<Longrightarrow> thesis"
  by (cases d) auto

lemma demo_forwards:
  "forwards (WrapSecurityWithOptions demo_http_lib demo_http_config False (Some demo_verify) (Some demo_http_service) demo_post empty_writer) = Some True"
  "forwards (WrapSecurityWithOptions demo_http_lib demo_http_config False (Some demo_verify) (Some demo_http_service) demo_bearer empty_writer) = Some False"
  "ac_Mode demo_http_config = AuthModeNative"
  "classifyCredentialRoute demo_http_lib False demo_post = credentialRouteSessionOrBearer"
  "classifyCredentialRoute demo_http_lib False demo_bearer = credentialRouteSessionOrBearer"
  by code_simp+

theorem forwarded_requests_are_authenticated_witness:
  "\<exists>r'. as_session demo_http_lib demo_http_config demo_post r' \<and> hasSessionCookie demo_http_config demo_post"
proof -
  obtain r' w' where
    "WrapSecurityWithOptions demo_http_lib demo_http_config False (Some demo_verify) (Some demo_http_service) demo_post empty_writer = Forward True r' w'"
    by (rule forwardsE [OF demo_forwards(1)])
  from forwarded_requests_are_authenticated [OF this demo_forwards(3)] show ?thesis
    by (auto simp: route_accepts_def demo_forwards(4))
qed

end
