(* ===== verification/JWKS_Cache.thy ===== *)
theory JWKS_Cache
  imports Principals
begin

text \<open>
  The keys of the issuer of access tokens, \<open>jwksCache\<close> of \<open>backend/internal/authn/access_token.go\<close>:
  the directives of HTTP caching, the cache, its refresh, and the requests that look for a key in it
  at the same time.

  Requests, the shared fetch and the fetches of single requests are goroutines; they meet at the mutex
  of the cache. \<open>jwks_step\<close> has one step for each of their critical sections. The package singleflight
  is not part of the program: a request that waits may be given the result of any function handed to
  \<open>DoChan\<close> that finished after the request began to wait, which is what its documentation promises and
  less than it does. Answers of the issuer are arbitrary.

  A time is a number of nanoseconds since the zero time, a duration a number of nanoseconds in 64 bits.
  Decoding a key set and \<open>http.ParseTime\<close> are fields of the parameter \<open>jwks_lib\<close>, and so is \<open>Key\<close>, the
  lookup in a key set of the package jose.
\<close>

section \<open>Definitions\<close>

subsection \<open>Keys, answers and errors\<close>

record jwk =
  jk_KeyID :: string
  jk_Key :: string

type_synonym jwks = "jwk list"
type_synonym response_header = "string \<rightharpoonup> string list"

text \<open>\<open>jl_Decode\<close> gives the first value of its input and what follows it.\<close>

record jwks_lib =
  jl_Key :: "jwks \<Rightarrow> string \<Rightarrow> jwk list"
  jl_Decode :: "string \<Rightarrow> (jwks \<times> string) option"
  jl_ParseTime :: "string \<Rightarrow> int option"

definition jwks_lib_ok :: "jwks_lib \<Rightarrow> bool" where
  "jwks_lib_ok lib \<longleftrightarrow> (\<forall>ks kid. set (jl_Key lib ks kid) = {k \<in> set ks. jk_KeyID k = kid})"

datatype access_error = ErrInvalidAccessToken | ErrAccessTokenKeyUnavailable | AccessContextError ctx_err | AccessOther

text \<open>What comes back for a request: nothing, or a response whose body may break off.\<close>

datatype issuer_answer = NoAnswer | Answer nat response_header string bool

definition accessTokenHTTPTimeout :: int where "accessTokenHTTPTimeout = 5 * 1000000000"
definition jwksDefaultFreshness :: int where "jwksDefaultFreshness = 3600 * 1000000000"
definition jwksMaxFreshness :: int where "jwksMaxFreshness = 6 * 3600 * 1000000000"
definition jwksMaxStaleUse :: int where "jwksMaxStaleUse = 3600 * 1000000000"
definition time_Minute :: int where "time_Minute = 60 * 1000000000"

subsection \<open>Durations\<close>

text \<open>Arithmetic of type \<open>time.Duration\<close> wraps around; \<open>Time.Sub\<close> stops at the ends of its range.\<close>

definition int64 :: "int \<Rightarrow> int" where
  "int64 x = (x + 2 ^ 63) mod 2 ^ 64 - 2 ^ 63"

definition time_Sub :: "int \<Rightarrow> int \<Rightarrow> int" where
  "time_Sub t u = max (- (2 ^ 63)) (min (2 ^ 63 - 1) (t - u))"

definition unquoted :: "string \<Rightarrow> string" where
  "unquoted raw = (if 2 \<le> length raw \<and> hd raw = CHR 0x22 \<and> last raw = CHR 0x22 then butlast (tl raw) else raw)"

definition secondsDuration :: "string \<Rightarrow> int option" where
  "secondsDuration raw0 =
     (let raw = unquoted (strings_TrimSpace raw0) in
      if \<not> list_all (\<lambda>digit. 48 \<le> digit \<and> digit \<le> 57) (runes raw) then None
      else (case strconv_Atoi raw of
        None \<Rightarrow> None
      | Some seconds \<Rightarrow>
          if seconds > (2 ^ 63 - 1) div nanosecond_second then Some (2 ^ 63 - 1)
          else Some (int64 (seconds * nanosecond_second))))"

definition headerTime :: "jwks_lib \<Rightarrow> string \<Rightarrow> int \<Rightarrow> int" where
  "headerTime lib raw fallback =
     (if raw = [] then fallback else (case jl_ParseTime lib raw of None \<Rightarrow> fallback | Some v \<Rightarrow> v))"

subsection \<open>Cache directives\<close>

definition header_Values :: "response_header \<Rightarrow> string \<Rightarrow> string list" where
  "header_Values h name = (case h name of None \<Rightarrow> [] | Some vs \<Rightarrow> vs)"

definition header_First :: "response_header \<Rightarrow> string \<Rightarrow> string" where
  "header_First h name = (case header_Values h name of [] \<Rightarrow> [] | v # _ \<Rightarrow> v)"

record cacheDirectives =
  cd_noStore :: bool
  cd_noCache :: bool
  cd_mustRevalidate :: bool
  cd_proxyRevalidate :: bool
  cd_sMaxage :: bool
  cd_freshness :: int
  cd_staleIfError :: int

definition asciiLower :: "string \<Rightarrow> string" where
  "asciiLower v = map ascii_lower v"

definition directive_item :: "string \<Rightarrow> (string \<times> string) option" where
  "directive_item part =
     (let item = strings_TrimSpace part in
      if item = [] then None
      else (case strings_Cut item (CHR ''='') of (name, v, found) \<Rightarrow>
        Some (asciiLower (strings_TrimSpace name), if found then strings_TrimSpace v else v)))"

definition directive_values :: "response_header \<Rightarrow> string \<rightharpoonup> string" where
  "directive_values h =
     fold (\<lambda>part values. case directive_item part of None \<Rightarrow> values | Some (name, v) \<Rightarrow> values(name \<mapsto> v))
       (strings_Split (strings_Join (header_Values h ''Cache-Control'') '','') (CHR '','')) Map.empty"

definition current_age :: "response_header \<Rightarrow> int \<Rightarrow> int \<Rightarrow> int" where
  "current_age h baseDate now =
     (let age = (if header_First h ''Age'' \<noteq> []
                 then (case secondsDuration (header_First h ''Age'') of None \<Rightarrow> 0 | Some a \<Rightarrow> a) else 0);
          apparent = time_Sub now baseDate
      in if apparent > age then apparent else age)"

definition text_of :: "string option \<Rightarrow> string" where
  "text_of v = (case v of None \<Rightarrow> [] | Some s \<Rightarrow> s)"

text \<open>The freshness a response claims, and whether that comes from \<open>s-maxage\<close>.\<close>

definition claimed_freshness :: "jwks_lib \<Rightarrow> response_header \<Rightarrow> int \<Rightarrow> bool \<times> int" where
  "claimed_freshness lib h now =
     (let values = directive_values h;
          baseDate = headerTime lib (header_First h ''Date'') now;
          currentAge = current_age h baseDate now
      in case secondsDuration (text_of (values ''s-maxage'')) of
           Some lifetime \<Rightarrow> (True, int64 (lifetime - currentAge))
         | None \<Rightarrow> (case secondsDuration (text_of (values ''max-age'')) of
             Some lifetime \<Rightarrow> (False, int64 (lifetime - currentAge))
           | None \<Rightarrow>
               if header_First h ''Expires'' \<noteq> []
               then (case jl_ParseTime lib (header_First h ''Expires'') of
                 None \<Rightarrow> (False, jwksDefaultFreshness)
               | Some expiresAt \<Rightarrow> (False, time_Sub expiresAt (baseDate + currentAge)))
               else (False, jwksDefaultFreshness)))"

definition parseCacheDirectives :: "jwks_lib \<Rightarrow> response_header \<Rightarrow> int \<Rightarrow> cacheDirectives" where
  "parseCacheDirectives lib h now =
     (let values = directive_values h; freshness = snd (claimed_freshness lib h now) in
      \<lparr>cd_noStore = (values ''no-store'' \<noteq> None), cd_noCache = (values ''no-cache'' \<noteq> None),
       cd_mustRevalidate = (values ''must-revalidate'' \<noteq> None), cd_proxyRevalidate = (values ''proxy-revalidate'' \<noteq> None),
       cd_sMaxage = fst (claimed_freshness lib h now),
       cd_freshness = (if freshness > jwksMaxFreshness then jwksMaxFreshness else freshness),
       cd_staleIfError = (case values ''stale-if-error'' of
          None \<Rightarrow> 0
        | Some v \<Rightarrow> (case secondsDuration v of None \<Rightarrow> 0 | Some lifetime \<Rightarrow> lifetime))\<rparr>)"

definition mergeRevalidatedHeaders :: "response_header \<Rightarrow> response_header \<Rightarrow> response_header" where
  "mergeRevalidatedHeaders stored revalidated = stored ++ revalidated"

subsection \<open>The cache\<close>

record jwksCache =
  jw_keys :: jwks
  jw_haveKeys :: bool
  jw_noStore :: bool
  jw_noCache :: bool
  jw_mustRevalidate :: bool
  jw_proxyRevalidate :: bool
  jw_sMaxage :: bool
  jw_expiry :: int
  jw_staleUntil :: int
  jw_etag :: string
  jw_lastModified :: string
  jw_responseHeaders :: response_header
  jw_lastUnknownKIDRefresh :: int
  jw_lastUnknownKIDExpiry :: int
  jw_lastUnknownKIDKeys :: "string set"
  jw_lastUnknownKIDSuccess :: bool

definition zero_jwksCache :: jwksCache where
  "zero_jwksCache =
     \<lparr>jw_keys = [], jw_haveKeys = False, jw_noStore = False, jw_noCache = False, jw_mustRevalidate = False,
      jw_proxyRevalidate = False, jw_sMaxage = False, jw_expiry = 0, jw_staleUntil = 0, jw_etag = [], jw_lastModified = [],
      jw_responseHeaders = Map.empty, jw_lastUnknownKIDRefresh = 0, jw_lastUnknownKIDExpiry = 0,
      jw_lastUnknownKIDKeys = {}, jw_lastUnknownKIDSuccess = False\<rparr>"

definition revalidationRequired :: "jwksCache \<Rightarrow> int \<Rightarrow> bool" where
  "revalidationRequired c now \<longleftrightarrow> jw_noCache c \<or> jw_noStore c \<or> jw_expiry c = 0 \<or> \<not> now < jw_expiry c"

definition staleAllowed :: "jwksCache \<Rightarrow> int \<Rightarrow> bool" where
  "staleAllowed c now =
     (if jw_noStore c \<or> jw_noCache c \<or> jw_mustRevalidate c \<or> jw_proxyRevalidate c \<or> jw_sMaxage c \<or> jw_staleUntil c = 0
      then False else now < jw_staleUntil c)"

definition keySetContains :: "jwks_lib \<Rightarrow> jwks \<Rightarrow> string \<Rightarrow> bool" where
  "keySetContains lib ks kid \<longleftrightarrow> 0 < length (jl_Key lib ks kid)"

definition containsKIDLocked :: "jwks_lib \<Rightarrow> jwksCache \<Rightarrow> string \<Rightarrow> bool" where
  "containsKIDLocked lib c kid = keySetContains lib (jw_keys c) kid"

definition unknownKIDThrottleLocked :: "jwksCache \<Rightarrow> int \<Rightarrow> string \<Rightarrow> access_error option" where
  "unknownKIDThrottleLocked c now kid =
     (if jw_lastUnknownKIDRefresh c = 0 \<or> \<not> now < jw_lastUnknownKIDRefresh c + time_Minute then None
      else if \<not> jw_lastUnknownKIDSuccess c then Some ErrAccessTokenKeyUnavailable
      else if kid \<in> jw_lastUnknownKIDKeys c then None
      else if jw_lastUnknownKIDExpiry c \<noteq> 0 \<and> jw_expiry c \<noteq> 0 \<and> \<not> now < jw_expiry c \<and>
              jw_lastUnknownKIDExpiry c > jw_lastUnknownKIDRefresh c then None
      else Some ErrInvalidAccessToken)"

definition recordUnknownKIDOutcome ::
  "jwks_lib \<Rightarrow> int \<Rightarrow> string \<Rightarrow> bool \<Rightarrow> bool \<Rightarrow> access_error + jwks \<times> bool \<Rightarrow> jwksCache \<Rightarrow> jwksCache" where
  "recordUnknownKIDOutcome lib now kid unknownKID hadPriorJWKS r c =
     (if \<not> unknownKID then c
      else if \<not> hadPriorJWKS \<and> (case r of Inl _ \<Rightarrow> False | Inr (ks, _) \<Rightarrow> keySetContains lib ks kid) then c
      else let c1 = c\<lparr>jw_lastUnknownKIDRefresh := now, jw_lastUnknownKIDExpiry := jw_expiry c\<rparr> in
        case r of
          Inl _ \<Rightarrow> c1\<lparr>jw_lastUnknownKIDSuccess := False, jw_lastUnknownKIDKeys := {}\<rparr>
        | Inr (ks, _) \<Rightarrow> c1\<lparr>jw_lastUnknownKIDSuccess := True, jw_lastUnknownKIDKeys := set (filter (\<lambda>k. k \<noteq> []) (map jk_KeyID ks))\<rparr>)"

definition applyDirectivesLocked :: "cacheDirectives \<Rightarrow> response_header \<Rightarrow> int \<Rightarrow> jwksCache \<Rightarrow> jwksCache" where
  "applyDirectivesLocked d h now c =
     (let expires = now + cd_freshness d in
      c\<lparr>jw_noStore := cd_noStore d, jw_noCache := cd_noCache d, jw_mustRevalidate := cd_mustRevalidate d,
        jw_proxyRevalidate := cd_proxyRevalidate d, jw_sMaxage := cd_sMaxage d, jw_expiry := expires,
        jw_staleUntil := (if cd_noCache d \<or> cd_noStore d \<or> cd_mustRevalidate d \<or> cd_proxyRevalidate d \<or> cd_sMaxage d \<or>
            cd_staleIfError d \<le> 0 then 0 else expires + min (cd_staleIfError d) jwksMaxStaleUse),
        jw_etag := header_First h ''ETag'', jw_lastModified := header_First h ''Last-Modified'', jw_responseHeaders := h\<rparr>)"

subsection \<open>Refreshing\<close>

record jwksConditionalRequest =
  cr_ETag :: string
  cr_LastModified :: string

definition no_condition :: jwksConditionalRequest where
  "no_condition = \<lparr>cr_ETag = [], cr_LastModified = []\<rparr>"

text \<open>The headers of the request.\<close>

definition refresh_headers :: "jwksConditionalRequest \<Rightarrow> (string \<times> string) list" where
  "refresh_headers conditional =
     (if cr_ETag conditional \<noteq> [] then [(''If-None-Match'', cr_ETag conditional)] else []) @
     (if cr_LastModified conditional \<noteq> [] then [(''If-Modified-Since'', cr_LastModified conditional)] else [])"

definition max_document :: nat where "max_document = 2 ^ 20"

text \<open>The key set in a body: one value within the first MiB, and nothing after it but white space.\<close>

definition decode_keys :: "jwks_lib \<Rightarrow> string \<Rightarrow> bool \<Rightarrow> access_error + jwks" where
  "decode_keys lib content complete =
     (case jl_Decode lib (take max_document content) of
        None \<Rightarrow> Inl AccessOther
      | Some (ks, rest) \<Rightarrow>
          if (complete \<or> max_document \<le> length content) \<and> list_all is_json_space rest then Inr ks
          else Inl ErrAccessTokenKeyUnavailable)"

definition emptied :: "jwksCache \<Rightarrow> jwksCache" where
  "emptied c =
     c\<lparr>jw_keys := [], jw_haveKeys := False, jw_noStore := True, jw_noCache := False, jw_mustRevalidate := False,
       jw_proxyRevalidate := False, jw_sMaxage := False, jw_expiry := 0, jw_staleUntil := 0, jw_etag := [],
       jw_lastModified := [], jw_responseHeaders := Map.empty\<rparr>"

text \<open>What \<open>refresh\<close> does with the answer of the issuer: its one critical section, and its result.\<close>

definition refresh :: "jwks_lib \<Rightarrow> issuer_answer \<Rightarrow> int \<Rightarrow> jwksCache \<Rightarrow> (access_error + jwks \<times> bool) \<times> jwksCache" where
  "refresh lib answer now c =
     (case answer of
        NoAnswer \<Rightarrow> (Inl AccessOther, c)
      | Answer status h content complete \<Rightarrow>
          if status = 304 then
            (if jw_haveKeys c \<and> \<not> jw_noStore c then
               let merged = mergeRevalidatedHeaders (jw_responseHeaders c) h;
                   c1 = applyDirectivesLocked (parseCacheDirectives lib merged now) merged now c
               in (Inr (jw_keys c1, True), c1)
             else (Inl ErrAccessTokenKeyUnavailable, c))
          else if status \<noteq> 200 then (Inl ErrAccessTokenKeyUnavailable, c)
          else (case decode_keys lib content complete of
            Inl err \<Rightarrow> (Inl err, c)
          | Inr ks \<Rightarrow>
              let directives = parseCacheDirectives lib h now in
              if cd_noStore directives then (Inr (ks, False), emptied c)
              else (Inr (ks, True), applyDirectivesLocked directives h now (c\<lparr>jw_keys := ks, jw_haveKeys := True\<rparr>))))"

subsection \<open>Looking for a key\<close>

record jwksRefreshResult =
  rr_keys :: jwks
  rr_retained :: bool
  rr_owner :: nat
  rr_unknownKID :: bool
  rr_hadPriorJWKS :: bool

text \<open>The first critical section of \<open>keysForKID\<close>: a result, or None when the issuer has to be asked.\<close>

definition lookup_keys :: "jwks_lib \<Rightarrow> jwksCache \<Rightarrow> int \<Rightarrow> string \<Rightarrow> (access_error + jwks) option" where
  "lookup_keys lib c now kid =
     (if jw_haveKeys c \<and> \<not> revalidationRequired c now \<and> containsKIDLocked lib c kid then Some (Inr (jw_keys c))
      else if \<not> containsKIDLocked lib c kid
      then (case unknownKIDThrottleLocked c now kid of None \<Rightarrow> None | Some err \<Rightarrow> Some (Inl err))
      else None)"

text \<open>The first critical section of the shared fetch: its result, or what it asks the issuer.\<close>

definition begin_fetch ::
  "jwks_lib \<Rightarrow> jwksCache \<Rightarrow> int \<Rightarrow> string \<Rightarrow> nat \<Rightarrow> (access_error + jwksRefreshResult) + (bool \<times> bool \<times> jwksConditionalRequest)" where
  "begin_fetch lib c now kid owner =
     (if jw_haveKeys c \<and> \<not> revalidationRequired c now \<and> containsKIDLocked lib c kid
      then Inl (Inr \<lparr>rr_keys = jw_keys c, rr_retained = True, rr_owner = owner, rr_unknownKID = False, rr_hadPriorJWKS = False\<rparr>)
      else let hadPriorJWKS = (jw_haveKeys c \<or> jw_noStore c \<or> jw_lastUnknownKIDRefresh c \<noteq> 0);
               unknownKID = (\<not> containsKIDLocked lib c kid)
        in case (if unknownKID then unknownKIDThrottleLocked c now kid else None) of
             Some err \<Rightarrow> Inl (Inl err)
           | None \<Rightarrow> Inr (unknownKID, hadPriorJWKS, \<lparr>cr_ETag = jw_etag c, cr_LastModified = jw_lastModified c\<rparr>))"

text \<open>The end of \<open>keysForKID\<close>.\<close>

definition found_keys :: "jwks_lib \<Rightarrow> jwksRefreshResult \<Rightarrow> string \<Rightarrow> access_error + jwks" where
  "found_keys lib r kid =
     (if rr_retained r \<and> \<not> keySetContains lib (rr_keys r) kid then Inl ErrInvalidAccessToken
      else if \<not> rr_retained r \<and> \<not> keySetContains lib (rr_keys r) kid then Inl ErrInvalidAccessToken
      else Inr (rr_keys r))"

datatype received = Done "access_error + jwks" | FetchAgain jwksRefreshResult

text \<open>What a request does with the result of the shared fetch: it may have to fetch for itself, when the keys
  may not be stored and the fetch was not its own.\<close>

definition receive ::
  "jwks_lib \<Rightarrow> jwksCache \<Rightarrow> int \<Rightarrow> string \<Rightarrow> nat \<Rightarrow> access_error + jwksRefreshResult \<Rightarrow> received" where
  "receive lib c now kid owner result =
     (case result of
        Inl err \<Rightarrow>
          if err = ErrInvalidAccessToken then Done (Inl ErrInvalidAccessToken)
          else if jw_haveKeys c \<and> staleAllowed c now \<and> containsKIDLocked lib c kid then Done (Inr (jw_keys c))
          else Done (Inl ErrAccessTokenKeyUnavailable)
      | Inr r \<Rightarrow>
          if \<not> rr_retained r \<and> rr_owner r \<noteq> owner
          then (case (if rr_unknownKID r then unknownKIDThrottleLocked c now kid else None) of
             Some err \<Rightarrow> Done (Inl err)
           | None \<Rightarrow> FetchAgain r)
          else Done (found_keys lib r kid))"

definition refresh_result :: "nat \<Rightarrow> bool \<Rightarrow> bool \<Rightarrow> access_error + jwks \<times> bool \<Rightarrow> access_error + jwksRefreshResult" where
  "refresh_result owner unknownKID hadPriorJWKS r =
     (case r of
        Inl err \<Rightarrow> Inl err
      | Inr (ks, retained) \<Rightarrow>
          Inr \<lparr>rr_keys = ks, rr_retained = retained, rr_owner = owner, rr_unknownKID = unknownKID, rr_hadPriorJWKS = hadPriorJWKS\<rparr>)"

subsection \<open>Requests at the same time\<close>

datatype fetch_stage =
    Fetching jwksConditionalRequest
  | Fetched "access_error + jwks \<times> bool"
  | Finished "access_error + jwksRefreshResult"

record jwks_fetch =
  jf_kid :: string
  jf_started :: int
  jf_unknownKID :: bool
  jf_hadPriorJWKS :: bool
  jf_stage :: fetch_stage

text \<open>Where a request is in \<open>keysForKID\<close>: the key it looks for, and the time it read first. A waiting request
  has the results it may be given.\<close>

datatype lookup_stage =
    Entered string
  | Waiting string int "(access_error + jwksRefreshResult) set"
  | Retrying string int jwksRefreshResult
  | Direct string int
  | Returned string int "access_error + jwks"

text \<open>Besides the cache, the clock and the goroutines: the key sets the issuer published in full, and
  the times at which it published or confirmed each of them. Both are filled from the issuer's answers alone.\<close>

record jwks_state =
  js_cache :: jwksCache
  js_now :: int
  js_lookups :: "nat \<rightharpoonup> lookup_stage"
  js_submitted :: "nat \<rightharpoonup> string"
  js_shared :: "nat \<rightharpoonup> jwks_fetch"
  js_direct :: "nat \<rightharpoonup> jwks_fetch"
  js_published :: "jwks set"
  js_confirmed :: "(jwks \<times> int) set"

definition shared_fetch ::
  "jwks_lib \<Rightarrow> jwksCache \<Rightarrow> int \<Rightarrow> string \<Rightarrow> nat \<Rightarrow> jwks_fetch" where
  "shared_fetch lib c now kid owner =
     (case begin_fetch lib c now kid owner of
        Inl out \<Rightarrow> \<lparr>jf_kid = kid, jf_started = now, jf_unknownKID = False, jf_hadPriorJWKS = False, jf_stage = Finished out\<rparr>
      | Inr (unknownKID, hadPriorJWKS, conditional) \<Rightarrow>
          \<lparr>jf_kid = kid, jf_started = now, jf_unknownKID = unknownKID, jf_hadPriorJWKS = hadPriorJWKS, jf_stage = Fetching conditional\<rparr>)"

definition direct_fetch :: "int \<Rightarrow> string \<Rightarrow> jwksRefreshResult \<Rightarrow> jwks_fetch" where
  "direct_fetch now kid r =
     \<lparr>jf_kid = kid, jf_started = now, jf_unknownKID = rr_unknownKID r, jf_hadPriorJWKS = rr_hadPriorJWKS r, jf_stage = Fetching no_condition\<rparr>"

definition published_by :: "jwks_lib \<Rightarrow> issuer_answer \<Rightarrow> jwks set" where
  "published_by lib answer =
     (case answer of
        NoAnswer \<Rightarrow> {}
      | Answer status h content complete \<Rightarrow>
          if status = 200 then (case decode_keys lib content complete of Inl _ \<Rightarrow> {} | Inr ks \<Rightarrow> {ks}) else {})"

text \<open>What the issuer says of keys by an answer to a request sent at \<open>t\<close>, whatever the program makes of it: with the
  status 200 it publishes the keys in the body, with 304 it says that the stored keys are still its own. Any
  other answer confirms nothing. The stored keys are those in the cache when the answer arrives; this is how the
  source reads a 304, whose validators it took from the cache before.\<close>

definition confirmed_by :: "jwks_lib \<Rightarrow> issuer_answer \<Rightarrow> jwksCache \<Rightarrow> int \<Rightarrow> (jwks \<times> int) set" where
  "confirmed_by lib answer c t =
     (case answer of
        NoAnswer \<Rightarrow> {}
      | Answer status h content complete \<Rightarrow>
          (if status = 304 \<and> jw_haveKeys c then {(jw_keys c, t)} else {}) \<union> (\<lambda>ks. (ks, t)) ` published_by lib answer)"

text \<open>The answer for a fetch arrives: the critical section of \<open>refresh\<close>.\<close>

definition answered :: "jwks_lib \<Rightarrow> issuer_answer \<Rightarrow> jwks_fetch \<Rightarrow> jwks_state \<Rightarrow> jwks_fetch \<times> jwks_state" where
  "answered lib answer f s =
     (case refresh lib answer (jf_started f) (js_cache s) of (r, c) \<Rightarrow>
        (f\<lparr>jf_stage := Fetched r\<rparr>,
         s\<lparr>js_cache := c, js_published := js_published s \<union> published_by lib answer,
           js_confirmed := js_confirmed s \<union> confirmed_by lib answer (js_cache s) (jf_started f)\<rparr>))"

definition recorded :: "jwks_lib \<Rightarrow> nat \<Rightarrow> access_error + jwks \<times> bool \<Rightarrow> jwks_fetch \<Rightarrow> jwks_state \<Rightarrow> jwks_fetch \<times> jwks_state" where
  "recorded lib owner r f s =
     (f\<lparr>jf_stage := Finished (refresh_result owner (jf_unknownKID f) (jf_hadPriorJWKS f) r)\<rparr>,
      s\<lparr>js_cache := recordUnknownKIDOutcome lib (js_now s) (jf_kid f) (jf_unknownKID f) (jf_hadPriorJWKS f) r (js_cache s)\<rparr>)"

definition offered :: "access_error + jwksRefreshResult \<Rightarrow> lookup_stage \<Rightarrow> lookup_stage" where
  "offered out l = (case l of Waiting kid t outs \<Rightarrow> Waiting kid t (insert out outs) | _ \<Rightarrow> l)"

definition looked_up :: "jwks_lib \<Rightarrow> nat \<Rightarrow> string \<Rightarrow> jwks_state \<Rightarrow> jwks_state" where
  "looked_up lib i kid s =
     (case lookup_keys lib (js_cache s) (js_now s) kid of
        Some r \<Rightarrow> s\<lparr>js_lookups := (js_lookups s)(i \<mapsto> Returned kid (js_now s) r)\<rparr>
      | None \<Rightarrow> s\<lparr>js_lookups := (js_lookups s)(i \<mapsto> Waiting kid (js_now s) {}), js_submitted := (js_submitted s)(i \<mapsto> kid)\<rparr>)"

definition after_receive :: "string \<Rightarrow> int \<Rightarrow> received \<Rightarrow> lookup_stage" where
  "after_receive kid t r = (case r of Done x \<Rightarrow> Returned kid t x | FetchAgain q \<Rightarrow> Retrying kid t q)"

definition after_direct :: "jwks_lib \<Rightarrow> string \<Rightarrow> access_error + jwksRefreshResult \<Rightarrow> access_error + jwks" where
  "after_direct lib kid out = (case out of Inl _ \<Rightarrow> Inl ErrAccessTokenKeyUnavailable | Inr r \<Rightarrow> found_keys lib r kid)"

fun gave_up :: "lookup_stage \<Rightarrow> ctx_err \<Rightarrow> lookup_stage option" where
  "gave_up (Entered kid) e = Some (Returned kid 0 (Inl (AccessContextError e)))"
| "gave_up (Waiting kid t outs) e = Some (Returned kid t (Inl (AccessContextError e)))"
| "gave_up (Retrying kid t r) e = Some (Returned kid t (Inl (AccessContextError e)))"
| "gave_up (Direct kid t) e = Some (Returned kid t (Inl (AccessContextError e)))"
| "gave_up (Returned kid t r) e = None"

text \<open>\<open>limit\<close> is the longest time a shared fetch takes: its request has the timeout \<open>accessTokenHTTPTimeout\<close>.\<close>

inductive jwks_step :: "jwks_lib \<Rightarrow> int \<Rightarrow> jwks_state \<Rightarrow> jwks_state \<Rightarrow> bool" for lib :: jwks_lib and limit :: int where
  tick: "js_now s \<le> t \<Longrightarrow> (\<And>i f. js_shared s i = Some f \<Longrightarrow> t \<le> jf_started f + limit) \<Longrightarrow>
    jwks_step lib limit s (s\<lparr>js_now := t\<rparr>)"
| enter: "js_lookups s i = None \<Longrightarrow> jwks_step lib limit s (s\<lparr>js_lookups := (js_lookups s)(i \<mapsto> Entered kid)\<rparr>)"
| give_up: "js_lookups s i = Some l \<Longrightarrow> gave_up l e = Some l' \<Longrightarrow>
    jwks_step lib limit s (s\<lparr>js_lookups := (js_lookups s)(i \<mapsto> l')\<rparr>)"
| look: "js_lookups s i = Some (Entered kid) \<Longrightarrow> jwks_step lib limit s (looked_up lib i kid s)"
| share: "js_submitted s i = Some kid \<Longrightarrow>
    jwks_step lib limit s (s\<lparr>js_submitted := (js_submitted s)(i := None),
      js_shared := (js_shared s)(i \<mapsto> shared_fetch lib (js_cache s) (js_now s) kid i)\<rparr>)"
| share_answer: "js_shared s i = Some f \<Longrightarrow> jf_stage f = Fetching q \<Longrightarrow> answered lib answer f s = (f', s') \<Longrightarrow>
    jwks_step lib limit s (s'\<lparr>js_shared := (js_shared s)(i \<mapsto> f')\<rparr>)"
| share_record: "js_shared s i = Some f \<Longrightarrow> jf_stage f = Fetched r \<Longrightarrow> recorded lib i r f s = (f', s') \<Longrightarrow>
    jwks_step lib limit s (s'\<lparr>js_shared := (js_shared s)(i \<mapsto> f')\<rparr>)"
| share_deliver: "js_shared s i = Some f \<Longrightarrow> jf_stage f = Finished out \<Longrightarrow>
    jwks_step lib limit s (s\<lparr>js_shared := (js_shared s)(i := None), js_lookups := map_option (offered out) \<circ> js_lookups s\<rparr>)"
| take_result: "js_lookups s i = Some (Waiting kid t outs) \<Longrightarrow> out \<in> outs \<Longrightarrow>
    jwks_step lib limit s (s\<lparr>js_lookups := (js_lookups s)(i \<mapsto>
      after_receive kid t (receive lib (js_cache s) (js_now s) kid i out))\<rparr>)"
| direct: "js_lookups s i = Some (Retrying kid t r) \<Longrightarrow>
    jwks_step lib limit s (s\<lparr>js_lookups := (js_lookups s)(i \<mapsto> Direct kid t),
      js_direct := (js_direct s)(i \<mapsto> direct_fetch (js_now s) kid r)\<rparr>)"
| direct_answer: "js_direct s i = Some f \<Longrightarrow> jf_stage f = Fetching q \<Longrightarrow> answered lib answer f s = (f', s') \<Longrightarrow>
    jwks_step lib limit s (s'\<lparr>js_direct := (js_direct s)(i \<mapsto> f')\<rparr>)"
| direct_record: "js_direct s i = Some f \<Longrightarrow> jf_stage f = Fetched r \<Longrightarrow> recorded lib i r f s = (f', s') \<Longrightarrow>
    jwks_step lib limit s (s'\<lparr>js_direct := (js_direct s)(i \<mapsto> f')\<rparr>)"
| direct_deliver: "js_direct s i = Some f \<Longrightarrow> jf_stage f = Finished out \<Longrightarrow> js_lookups s i = Some (Direct kid t) \<Longrightarrow>
    jwks_step lib limit s (s\<lparr>js_direct := (js_direct s)(i := None),
      js_lookups := (js_lookups s)(i \<mapsto> Returned kid t (after_direct lib kid out))\<rparr>)"

definition jwks_start :: "int \<Rightarrow> jwks_state" where
  "jwks_start now = \<lparr>js_cache = zero_jwksCache, js_now = now, js_lookups = Map.empty, js_submitted = Map.empty,
     js_shared = Map.empty, js_direct = Map.empty, js_published = {}, js_confirmed = {}\<rparr>"

definition jwks_reachable :: "jwks_lib \<Rightarrow> int \<Rightarrow> jwks_state \<Rightarrow> bool" where
  "jwks_reachable lib limit s \<longleftrightarrow> (\<exists>now. (jwks_step lib limit)\<^sup>*\<^sup>* (jwks_start now) s)"

section \<open>Lemmas\<close>

subsection \<open>Durations and directives\<close>

lemma int64_id: "- (2 ^ 63) \<le> x \<Longrightarrow> x < 2 ^ 63 \<Longrightarrow> int64 x = x"
  by (simp add: int64_def)

lemma digits_not_negative:
  assumes "list_all (\<lambda>digit. 48 \<le> digit \<and> digit \<le> 57) (runes s)" "strconv_Atoi s = Some n"
  shows "0 \<le> n"
proof (cases s)
  case (Cons c rest)
  have "is_ascii s" using assms(1) by (intro runes_ascii_iff) (auto simp: list_all_iff)
  then have "48 \<le> (of_char c :: nat)" using assms(1) runes_ascii [of s] Cons by simp
  then have "c \<noteq> CHR ''-''" by auto
  then show ?thesis using assms(2) Cons by (auto simp: strconv_Atoi_def Let_def split: if_splits)
qed (use assms in \<open>simp add: strconv_Atoi_def\<close>)

text \<open>A number of seconds is never negative and never wraps around: it is exact, or the longest duration.\<close>

lemma secondsDuration_exact:
  assumes "secondsDuration raw = Some d"
  shows "0 \<le> d \<and> d < 2 ^ 63 \<and>
    (\<exists>n. strconv_Atoi (unquoted (strings_TrimSpace raw)) = Some n \<and> 0 \<le> n \<and> d = min (n * nanosecond_second) (2 ^ 63 - 1))"
proof -
  let ?raw = "unquoted (strings_TrimSpace raw)"
  obtain n where n: "strconv_Atoi ?raw = Some n" and
    d: "d = (if n > (2 ^ 63 - 1) div nanosecond_second then 2 ^ 63 - 1 else int64 (n * nanosecond_second))"
    and digits: "list_all (\<lambda>digit. 48 \<le> digit \<and> digit \<le> 57) (runes ?raw)"
    using assms by (auto simp: secondsDuration_def Let_def split: if_splits option.splits)
  have pos: "0 \<le> n" by (rule digits_not_negative [OF digits n])
  have "d = min (n * nanosecond_second) (2 ^ 63 - 1)"
  proof (cases "n > (2 ^ 63 - 1) div nanosecond_second")
    case True
    then show ?thesis using d by (simp add: nanosecond_second_def)
  next
    case False
    then have "n * nanosecond_second \<le> 2 ^ 63 - 1" by (simp add: nanosecond_second_def)
    then show ?thesis using d False pos int64_id [of "n * nanosecond_second"] by (simp add: nanosecond_second_def)
  qed
  then show ?thesis using n pos by (auto simp: nanosecond_second_def)
qed

lemma current_age_bounds: "0 \<le> current_age h b now \<and> current_age h b now < 2 ^ 63 \<and> time_Sub now b \<le> current_age h b now"
  using secondsDuration_exact [of "header_First h ''Age''"]
  by (auto simp: current_age_def Let_def time_Sub_def split: option.splits)

lemma claimed_freshness_range: "- (2 ^ 63) \<le> snd (claimed_freshness lib h now) \<and> snd (claimed_freshness lib h now) < 2 ^ 63"
  unfolding claimed_freshness_def Let_def
  by (auto simp: time_Sub_def jwksDefaultFreshness_def int64_def split: option.splits)

text \<open>The subtraction of the age does not wrap around.\<close>

lemma claimed_freshness_exact:
  assumes "secondsDuration (text_of (directive_values h ''s-maxage'')) = Some lifetime \<or>
    secondsDuration (text_of (directive_values h ''s-maxage'')) = None \<and>
    secondsDuration (text_of (directive_values h ''max-age'')) = Some lifetime"
  shows "snd (claimed_freshness lib h now) = lifetime - current_age h (headerTime lib (header_First h ''Date'') now) now"
proof -
  let ?age = "current_age h (headerTime lib (header_First h ''Date'') now) now"
  have "0 \<le> lifetime" "lifetime < 2 ^ 63" using assms secondsDuration_exact by blast+
  then have "int64 (lifetime - ?age) = lifetime - ?age"
    using current_age_bounds [of h "headerTime lib (header_First h ''Date'') now" now] by (intro int64_id) linarith+
  then show ?thesis using assms by (auto simp: claimed_freshness_def Let_def)
qed

lemma directives_freshness: "cd_freshness (parseCacheDirectives lib h now) \<le> jwksMaxFreshness"
  by (simp add: parseCacheDirectives_def Let_def)

lemma applyDirectives_times:
  assumes "c' = applyDirectivesLocked (parseCacheDirectives lib h now) h' now c"
  shows "jw_expiry c' \<le> now + jwksMaxFreshness"
    "jw_staleUntil c' = 0 \<or> jw_staleUntil c' \<le> now + jwksMaxFreshness + jwksMaxStaleUse"
    "jw_keys c' = jw_keys c" "jw_haveKeys c' = jw_haveKeys c"
  using directives_freshness [of lib h now] unfolding assms
  by (auto simp: applyDirectivesLocked_def Let_def)


subsection \<open>The cache and its refresh\<close>

text \<open>A key set confirmed at a time no earlier than \<open>t\<close>.\<close>

definition confirmed_since :: "(jwks \<times> int) set \<Rightarrow> jwks \<Rightarrow> int \<Rightarrow> bool" where
  "confirmed_since C ks t \<longleftrightarrow> (\<exists>u. (ks, u) \<in> C \<and> t \<le> u)"

definition cache_backed :: "(jwks \<times> int) set \<Rightarrow> jwksCache \<Rightarrow> bool" where
  "cache_backed C c \<longleftrightarrow> (jw_haveKeys c \<longrightarrow> (\<exists>u. (jw_keys c, u) \<in> C \<and> jw_expiry c \<le> u + jwksMaxFreshness \<and>
     (jw_staleUntil c = 0 \<or> jw_staleUntil c \<le> u + jwksMaxFreshness + jwksMaxStaleUse)))"

lemma confirmed_since_mono: "confirmed_since C ks t \<Longrightarrow> C \<subseteq> C' \<Longrightarrow> t' \<le> t \<Longrightarrow> confirmed_since C' ks t'"
  unfolding confirmed_since_def by force

lemma cache_backed_mono: "cache_backed C c \<Longrightarrow> C \<subseteq> C' \<Longrightarrow> cache_backed C' c"
  unfolding cache_backed_def by blast

lemma cache_fresh:
  "cache_backed C c \<Longrightarrow> jw_haveKeys c \<Longrightarrow> \<not> revalidationRequired c now \<Longrightarrow> confirmed_since C (jw_keys c) (now - jwksMaxFreshness)"
  unfolding cache_backed_def revalidationRequired_def confirmed_since_def by force

lemma cache_stale:
  "cache_backed C c \<Longrightarrow> jw_haveKeys c \<Longrightarrow> staleAllowed c now \<Longrightarrow>
   confirmed_since C (jw_keys c) (now - jwksMaxFreshness - jwksMaxStaleUse)"
  unfolding cache_backed_def staleAllowed_def confirmed_since_def by (force split: if_splits)

lemma recorded_backed [simp]:
  "cache_backed C (recordUnknownKIDOutcome lib now kid unknown prior r c) = cache_backed C c"
  by (simp add: recordUnknownKIDOutcome_def cache_backed_def Let_def split: sum.splits)

lemma apply_backed:
  "(jw_keys c, t) \<in> C \<Longrightarrow> cache_backed C (applyDirectivesLocked (parseCacheDirectives lib h t) h' t c)"
  using applyDirectives_times [OF refl, of lib h t h' c] unfolding cache_backed_def by (intro impI exI [of _ t]) simp

lemma apply_keys [simp]: "jw_keys (applyDirectivesLocked d h t c) = jw_keys c"
  by (simp add: applyDirectivesLocked_def Let_def)

lemma refresh_backed:
  assumes "refresh lib answer t c = (r, c')" "cache_backed C c"
  shows "cache_backed (C \<union> confirmed_by lib answer c t) c'"
    "r = Inr (ks, retained) \<Longrightarrow> (ks, t) \<in> confirmed_by lib answer c t"
  using assms
  by (auto simp: refresh_def Let_def confirmed_by_def published_by_def emptied_def
      split: issuer_answer.splits if_splits sum.splits intro!: apply_backed intro: cache_backed_mono)
    (simp_all add: cache_backed_def)

lemma confirmed_published:
  "(ks, u) \<in> confirmed_by lib answer c t \<Longrightarrow> u = t \<and> (ks \<in> published_by lib answer \<or> jw_haveKeys c \<and> ks = jw_keys c)"
  by (auto simp: confirmed_by_def split: issuer_answer.splits if_splits)


subsection \<open>The invariant of the requests\<close>

fun stage_backed :: "(jwks \<times> int) set \<Rightarrow> int \<Rightarrow> fetch_stage \<Rightarrow> bool" where
  "stage_backed C t (Fetched (Inr (ks, _))) = ((ks, t) \<in> C)"
| "stage_backed C t (Finished (Inr r)) = confirmed_since C (rr_keys r) (t - jwksMaxFreshness)"
| "stage_backed C t _ = True"

definition fetch_ok :: "(jwks \<times> int) set \<Rightarrow> int \<Rightarrow> jwks_fetch \<Rightarrow> bool" where
  "fetch_ok C now f \<longleftrightarrow> jf_started f \<le> now \<and> stage_backed C (jf_started f) (jf_stage f)"

fun lookup_ok :: "jwks_lib \<Rightarrow> int \<Rightarrow> (jwks \<times> int) set \<Rightarrow> int \<Rightarrow> lookup_stage \<Rightarrow> bool" where
  "lookup_ok lib limit C now (Waiting kid t outs) \<longleftrightarrow>
     t \<le> now \<and> (\<forall>r. Inr r \<in> outs \<longrightarrow> confirmed_since C (rr_keys r) (t - jwksMaxFreshness - limit))"
| "lookup_ok lib limit C now (Retrying kid t r) \<longleftrightarrow> t \<le> now"
| "lookup_ok lib limit C now (Direct kid t) \<longleftrightarrow> t \<le> now"
| "lookup_ok lib limit C now (Returned kid t (Inr ks)) \<longleftrightarrow>
     keySetContains lib ks kid \<and> confirmed_since C ks (t - jwksMaxFreshness - jwksMaxStaleUse - limit)"
| "lookup_ok lib limit C now _ \<longleftrightarrow> True"

definition jwks_inv :: "jwks_lib \<Rightarrow> int \<Rightarrow> jwks_state \<Rightarrow> bool" where
  "jwks_inv lib limit s \<longleftrightarrow>
     cache_backed (js_confirmed s) (js_cache s) \<and>
     (\<forall>i f. js_shared s i = Some f \<longrightarrow> fetch_ok (js_confirmed s) (js_now s) f \<and> js_now s \<le> jf_started f + limit) \<and>
     (\<forall>i f. js_direct s i = Some f \<longrightarrow> fetch_ok (js_confirmed s) (js_now s) f) \<and>
     (\<forall>i l. js_lookups s i = Some l \<longrightarrow> lookup_ok lib limit (js_confirmed s) (js_now s) l) \<and>
     (\<forall>i kid t f. js_lookups s i = Some (Direct kid t) \<longrightarrow> js_direct s i = Some f \<longrightarrow> t \<le> jf_started f) \<and>
     (\<forall>ks u. (ks, u) \<in> js_confirmed s \<longrightarrow> ks \<in> js_published s \<and> u \<le> js_now s)"

lemma stage_backed_mono: "stage_backed C t st \<Longrightarrow> C \<subseteq> C' \<Longrightarrow> stage_backed C' t st"
  by (induction C t st rule: stage_backed.induct) (auto elim: confirmed_since_mono)

lemma fetch_ok_mono: "fetch_ok C now f \<Longrightarrow> C \<subseteq> C' \<Longrightarrow> now \<le> now' \<Longrightarrow> fetch_ok C' now' f"
  unfolding fetch_ok_def using stage_backed_mono by fastforce

lemma lookup_ok_mono: "lookup_ok lib limit C now l \<Longrightarrow> C \<subseteq> C' \<Longrightarrow> now \<le> now' \<Longrightarrow> lookup_ok lib limit C' now' l"
  by (induction lib limit C now l rule: lookup_ok.induct) (auto elim: confirmed_since_mono)

lemma gave_up_ok: "gave_up l e = Some l' \<Longrightarrow> lookup_ok lib limit C now l' \<and> (\<forall>kid t. l' \<noteq> Direct kid t)"
  by (induction l e rule: gave_up.induct) auto

lemma lookup_keys_ok:
  assumes "cache_backed C c" "lookup_keys lib c now kid = Some r" "0 \<le> limit"
  shows "lookup_ok lib limit C now (Returned kid now r)"
proof (cases r)
  case (Inr ks)
  then have *: "jw_haveKeys c" "\<not> revalidationRequired c now" "keySetContains lib ks kid" "ks = jw_keys c"
    using assms(2) by (auto simp: lookup_keys_def containsKIDLocked_def split: if_splits option.splits)
  have "confirmed_since C ks (now - jwksMaxFreshness - jwksMaxStaleUse - limit)"
    unfolding *(4) using cache_fresh [OF assms(1) *(1,2)] subset_refl
    by (rule confirmed_since_mono) (use assms(3) in \<open>simp add: jwksMaxStaleUse_def\<close>)
  then show ?thesis using Inr *(3) by simp
qed simp

lemma shared_fetch_ok:
  assumes "cache_backed C c"
  shows "fetch_ok C now (shared_fetch lib c now kid i)" "jf_started (shared_fetch lib c now kid i) = now"
  using cache_fresh [OF assms]
  by (auto simp: shared_fetch_def begin_fetch_def fetch_ok_def Let_def split: sum.splits option.splits if_splits)

lemma found_keys_ok:
  assumes "found_keys lib r kid = x" "confirmed_since C (rr_keys r) u" "t - jwksMaxFreshness - jwksMaxStaleUse - limit \<le> u"
  shows "lookup_ok lib limit C now (Returned kid t x)"
  using assms(1) confirmed_since_mono [OF assms(2) subset_refl assms(3)] by (auto simp: found_keys_def split: if_splits)

lemma receive_ok:
  assumes "cache_backed C c" "lookup_ok lib limit C now (Waiting kid t outs)" "out \<in> outs" "0 \<le> limit"
  shows "lookup_ok lib limit C now (after_receive kid t (receive lib c now kid i out))"
proof (cases out)
  case (Inl err)
  have "confirmed_since C (jw_keys c) (t - jwksMaxFreshness - jwksMaxStaleUse - limit)" if "jw_haveKeys c" "staleAllowed c now"
    using cache_stale [OF assms(1) that] subset_refl by (rule confirmed_since_mono) (use assms in simp)
  then show ?thesis
    using Inl by (auto simp: receive_def after_receive_def containsKIDLocked_def)
next
  case (Inr r)
  have c: "confirmed_since C (rr_keys r) (t - jwksMaxFreshness - limit)" using assms(2,3) Inr by simp
  have "lookup_ok lib limit C now (Returned kid t (found_keys lib r kid))"
    by (rule found_keys_ok [OF refl c]) (simp add: jwksMaxStaleUse_def)
  then show ?thesis
    using Inr assms(2) by (auto simp: receive_def after_receive_def split: option.splits)
qed


text \<open>A step that only adds confirmations and passes time keeps what it does not touch.\<close>

lemma inv_parts:
  assumes "jwks_inv lib limit s"
  shows "cache_backed (js_confirmed s) (js_cache s)"
    "js_shared s i = Some f \<Longrightarrow> fetch_ok (js_confirmed s) (js_now s) f \<and> js_now s \<le> jf_started f + limit"
    "js_direct s i = Some f \<Longrightarrow> fetch_ok (js_confirmed s) (js_now s) f"
    "js_lookups s i = Some l \<Longrightarrow> lookup_ok lib limit (js_confirmed s) (js_now s) l"
    "js_lookups s i = Some (Direct kid t) \<Longrightarrow> js_direct s i = Some f \<Longrightarrow> t \<le> jf_started f"
    "(ks, u) \<in> js_confirmed s \<Longrightarrow> ks \<in> js_published s \<and> u \<le> js_now s"
  using assms unfolding jwks_inv_def by blast+

lemma answered_inv:
  assumes "jwks_inv lib limit s" "fetch_ok (js_confirmed s) (js_now s) f" "answered lib answer f s = (f', s')"
  shows "jwks_inv lib limit s'" "fetch_ok (js_confirmed s') (js_now s') f'" "jf_started f' = jf_started f"
    "js_now s' = js_now s" "js_lookups s' = js_lookups s" "js_direct s' = js_direct s" "js_shared s' = js_shared s"
proof -
  obtain r c where r: "refresh lib answer (jf_started f) (js_cache s) = (r, c)" by fastforce
  have f': "f' = f\<lparr>jf_stage := Fetched r\<rparr>" and s': "s' = s\<lparr>js_cache := c, js_published := js_published s \<union> published_by lib answer,
      js_confirmed := js_confirmed s \<union> confirmed_by lib answer (js_cache s) (jf_started f)\<rparr>"
    using assms(3) by (auto simp: answered_def r)
  show "jf_started f' = jf_started f" "js_now s' = js_now s" "js_lookups s' = js_lookups s" "js_direct s' = js_direct s"
    "js_shared s' = js_shared s" by (simp_all add: f' s')
  show "fetch_ok (js_confirmed s') (js_now s') f'"
    using assms(2) refresh_backed(2) [OF r inv_parts(1) [OF assms(1)]]
    by (cases r) (auto simp: f' s' fetch_ok_def)
  have p: "ks \<in> js_published s'" if "(ks, u) \<in> confirmed_by lib answer (js_cache s) (jf_started f)" for ks u
    using confirmed_published [OF that] inv_parts(1,6) [OF assms(1)] by (auto simp: s' cache_backed_def)
  have t: "u \<le> js_now s'" if "(ks, u) \<in> confirmed_by lib answer (js_cache s) (jf_started f)" for ks u
    using confirmed_published [OF that] assms(2) by (simp add: s' fetch_ok_def)
  have sub: "js_confirmed s \<subseteq> js_confirmed s'" by (simp add: s')
  show "jwks_inv lib limit s'"
    unfolding jwks_inv_def
  proof (intro conjI allI impI)
    show "cache_backed (js_confirmed s') (js_cache s')"
      using refresh_backed(1) [OF r inv_parts(1) [OF assms(1)]] by (simp add: s')
    fix ks u assume "(ks, u) \<in> js_confirmed s'"
    then show "ks \<in> js_published s'" "u \<le> js_now s'"
      using inv_parts(6) [OF assms(1)] p t by (auto simp: s')
  qed (use inv_parts(2,3,4,5) [OF assms(1)] fetch_ok_mono [OF _ sub order_refl] lookup_ok_mono [OF _ sub order_refl] in \<open>auto simp: s'\<close>)
qed

lemma recorded_inv:
  assumes "jwks_inv lib limit s" "fetch_ok (js_confirmed s) (js_now s) f" "jf_stage f = Fetched r" "recorded lib i r f s = (f', s')"
  shows "jwks_inv lib limit s'" "fetch_ok (js_confirmed s') (js_now s') f'" "jf_started f' = jf_started f"
    "js_now s' = js_now s" "js_lookups s' = js_lookups s" "js_direct s' = js_direct s" "js_shared s' = js_shared s"
proof -
  have f': "f' = f\<lparr>jf_stage := Finished (refresh_result i (jf_unknownKID f) (jf_hadPriorJWKS f) r)\<rparr>"
    and s': "s' = s\<lparr>js_cache := recordUnknownKIDOutcome lib (js_now s) (jf_kid f) (jf_unknownKID f) (jf_hadPriorJWKS f) r (js_cache s)\<rparr>"
    using assms(4) by (simp_all add: recorded_def)
  show "jwks_inv lib limit s'" using assms(1) unfolding s' by (simp add: jwks_inv_def)
  show "fetch_ok (js_confirmed s') (js_now s') f'"
    using assms(2,3)
    by (auto simp: f' s' fetch_ok_def refresh_result_def confirmed_since_def jwksMaxFreshness_def intro: exI [of _ "jf_started f"] split: sum.splits)
qed (use assms(4) in \<open>auto simp: recorded_def\<close>)


lemma put_lookup_inv:
  assumes "jwks_inv lib limit s" "lookup_ok lib limit (js_confirmed s) (js_now s) l"
    "\<And>kid t. l \<noteq> Direct kid t"
  shows "jwks_inv lib limit (s\<lparr>js_lookups := (js_lookups s)(i \<mapsto> l)\<rparr>)"
  using assms unfolding jwks_inv_def by simp

lemma put_shared_inv:
  assumes "jwks_inv lib limit s" "fetch_ok (js_confirmed s) (js_now s) f" "js_now s \<le> jf_started f + limit"
  shows "jwks_inv lib limit (s\<lparr>js_shared := (js_shared s)(i \<mapsto> f)\<rparr>)"
  using assms unfolding jwks_inv_def by simp

lemma put_direct_inv:
  assumes "jwks_inv lib limit s" "fetch_ok (js_confirmed s) (js_now s) f"
    "\<And>kid t. js_lookups s i = Some (Direct kid t) \<Longrightarrow> t \<le> jf_started f"
  shows "jwks_inv lib limit (s\<lparr>js_direct := (js_direct s)(i \<mapsto> f)\<rparr>)"
  using assms unfolding jwks_inv_def by simp

lemma drop_direct_inv: "jwks_inv lib limit s \<Longrightarrow> jwks_inv lib limit (s\<lparr>js_direct := (js_direct s)(i := None)\<rparr>)"
  unfolding jwks_inv_def by simp

lemma offered_ok:
  assumes "lookup_ok lib limit C now l" "stage_backed C t (Finished out)" "now \<le> t + limit"
  shows "lookup_ok lib limit C now (offered out l)"
proof (cases l)
  case (Waiting kid t0 outs)
  have "confirmed_since C (rr_keys r) (t0 - jwksMaxFreshness - limit)" if "out = Inr r" for r
    using confirmed_since_mono [of C "rr_keys r" "t - jwksMaxFreshness" C "t0 - jwksMaxFreshness - limit"] assms that Waiting by simp
  then show ?thesis using assms(1) Waiting by (auto simp: offered_def)
qed (use assms in \<open>simp_all add: offered_def\<close>)

lemma deliver_inv:
  assumes "jwks_inv lib limit s" "js_shared s i = Some f" "jf_stage f = Finished out"
  shows "jwks_inv lib limit (s\<lparr>js_shared := (js_shared s)(i := None), js_lookups := map_option (offered out) \<circ> js_lookups s\<rparr>)"
proof -
  have f: "stage_backed (js_confirmed s) (jf_started f) (Finished out)" "js_now s \<le> jf_started f + limit"
    using inv_parts(2) [OF assms(1,2)] assms(3) by (auto simp: fetch_ok_def)
  have d: "offered out l = Direct kid t \<Longrightarrow> l = Direct kid t" for l kid t by (cases l) (simp_all add: offered_def)
  have "t \<le> jf_started f'" if "js_lookups s j = Some l" "offered out l = Direct kid t" "js_direct s j = Some f'" for j l kid t f'
    by (rule inv_parts(5) [OF assms(1) that(1) [unfolded d [OF that(2)]] that(3)])
  then show ?thesis
    using assms(1) offered_ok [OF _ f] unfolding jwks_inv_def by (auto simp: o_def)
qed

lemma jwks_step_inv:
  assumes "jwks_step lib limit s s'" "jwks_inv lib limit s" "0 \<le> limit"
  shows "jwks_inv lib limit s'"
  using assms(1)
proof cases
  case (tick t)
  show ?thesis
    using assms(2) tick fetch_ok_mono [OF _ subset_refl tick(2)] lookup_ok_mono [OF _ subset_refl tick(2)]
    unfolding jwks_inv_def by fastforce
next
  case (enter i kid)
  show ?thesis unfolding enter by (rule put_lookup_inv [OF assms(2)]) simp_all
next
  case (give_up i l e l')
  show ?thesis unfolding give_up(1)
    by (rule put_lookup_inv [OF assms(2)]) (use gave_up_ok [OF give_up(3)] in auto)
next
  case (look i kid)
  show ?thesis
  proof (cases "lookup_keys lib (js_cache s) (js_now s) kid")
    case None
    have "jwks_inv lib limit (s\<lparr>js_lookups := (js_lookups s)(i \<mapsto> Waiting kid (js_now s) {})\<rparr>)"
      by (rule put_lookup_inv [OF assms(2)]) simp_all
    then show ?thesis unfolding look by (simp add: looked_up_def None jwks_inv_def)
  next
    case (Some r)
    show ?thesis unfolding look looked_up_def Some option.case
      by (rule put_lookup_inv [OF assms(2) lookup_keys_ok [OF inv_parts(1) [OF assms(2)] Some assms(3)]]) simp
  qed
next
  case (share i kid)
  have "jwks_inv lib limit (s\<lparr>js_shared := (js_shared s)(i \<mapsto> shared_fetch lib (js_cache s) (js_now s) kid i)\<rparr>)"
    using shared_fetch_ok [OF inv_parts(1) [OF assms(2)]] assms(3) by (intro put_shared_inv [OF assms(2)]) simp_all
  then show ?thesis unfolding share(1) by (simp add: jwks_inv_def)
next
  case (share_answer i f q answer f' s1)
  note a = answered_inv [OF assms(2) _ share_answer(4)]
  have "fetch_ok (js_confirmed s) (js_now s) f" "js_now s \<le> jf_started f + limit" using inv_parts(2) [OF assms(2) share_answer(2)] by simp_all
  then show ?thesis unfolding share_answer(1) using put_shared_inv [OF a(1,2)] a(3,4,7) by simp
next
  case (share_record i f r f' s1)
  note a = recorded_inv [OF assms(2) _ share_record(3,4)]
  have "fetch_ok (js_confirmed s) (js_now s) f" "js_now s \<le> jf_started f + limit" using inv_parts(2) [OF assms(2) share_record(2)] by simp_all
  then show ?thesis unfolding share_record(1) using put_shared_inv [OF a(1,2)] a(3,4,7) by simp
next
  case (share_deliver i f out)
  show ?thesis unfolding share_deliver(1) by (rule deliver_inv [OF assms(2) share_deliver(2,3)])
next
  case (take_result i kid t outs out)
  show ?thesis unfolding take_result(1)
    by (rule put_lookup_inv [OF assms(2) receive_ok [OF inv_parts(1) [OF assms(2)] inv_parts(4) [OF assms(2) take_result(2)] take_result(3) assms(3)]])
      (simp add: after_receive_def split: received.splits)
next
  case (direct i kid t r)
  have "t \<le> js_now s" using inv_parts(4) [OF assms(2) direct(2)] by simp
  then show ?thesis unfolding direct(1) using assms(2)
    unfolding jwks_inv_def by (simp add: direct_fetch_def fetch_ok_def)
next
  case (direct_answer i f q answer f' s1)
  note a = answered_inv [OF assms(2) inv_parts(3) [OF assms(2) direct_answer(2)] direct_answer(4)]
  show ?thesis unfolding direct_answer(1) using put_direct_inv [OF a(1,2), of i] inv_parts(5) [OF assms(2) _ direct_answer(2)] a(3,5,6) by simp
next
  case (direct_record i f r f' s1)
  note a = recorded_inv [OF assms(2) inv_parts(3) [OF assms(2) direct_record(2)] direct_record(3,4)]
  show ?thesis unfolding direct_record(1) using put_direct_inv [OF a(1,2), of i] inv_parts(5) [OF assms(2) _ direct_record(2)] a(3,5,6) by simp
next
  case (direct_deliver i f out kid t)
  have t: "t \<le> jf_started f" by (rule inv_parts(5) [OF assms(2) direct_deliver(4,2)])
  have b: "stage_backed (js_confirmed s) (jf_started f) (Finished out)"
    using inv_parts(3) [OF assms(2) direct_deliver(2)] direct_deliver(3) by (simp add: fetch_ok_def)
  have "lookup_ok lib limit (js_confirmed s) (js_now s) (Returned kid t (after_direct lib kid out))"
  proof (cases out)
    case (Inr r)
    show ?thesis unfolding Inr after_direct_def sum.case
      by (rule found_keys_ok [OF refl, of _ _ "jf_started f - jwksMaxFreshness"]) (use b Inr t assms(3) in \<open>auto simp: jwksMaxStaleUse_def\<close>)
  qed (simp add: after_direct_def)
  with put_lookup_inv [OF drop_direct_inv [OF assms(2), of i], of "Returned kid t (after_direct lib kid out)" i]
  show ?thesis unfolding direct_deliver(1) by simp
qed

lemma jwks_start_inv: "jwks_inv lib limit (jwks_start now)"
  by (simp add: jwks_inv_def jwks_start_def cache_backed_def zero_jwksCache_def)

lemma jwks_reachable_inv:
  assumes "jwks_reachable lib limit s" "0 \<le> limit"
  shows "jwks_inv lib limit s"
proof -
  obtain now where "(jwks_step lib limit)\<^sup>*\<^sup>* (jwks_start now) s" using assms(1) by (auto simp: jwks_reachable_def)
  then show ?thesis by (induction rule: rtranclp_induct) (auto intro: jwks_start_inv jwks_step_inv [OF _ _ assms(2)])
qed


text \<open>Whenever a lookup returns keys, they contain the key it looked for; the issuer published them in full, and
  published or confirmed them at most seven hours, and the time of one shared fetch, before the lookup.\<close>

lemma returned_keys_recent:
  assumes "jwks_reachable lib limit s" "0 \<le> limit" "js_lookups s i = Some (Returned kid t (Inr ks))"
  shows "keySetContains lib ks kid \<and> ks \<in> js_published s \<and>
    (\<exists>u. (ks, u) \<in> js_confirmed s \<and> u \<le> js_now s \<and> t \<le> u + jwksMaxFreshness + jwksMaxStaleUse + limit)"
proof -
  note inv = jwks_reachable_inv [OF assms(1,2)]
  have k: "keySetContains lib ks kid" and c: "confirmed_since (js_confirmed s) ks (t - jwksMaxFreshness - jwksMaxStaleUse - limit)"
    using inv_parts(4) [OF inv assms(3)] by simp_all
  obtain u where u: "(ks, u) \<in> js_confirmed s" "t - jwksMaxFreshness - jwksMaxStaleUse - limit \<le> u"
    using c unfolding confirmed_since_def by blast
  then show ?thesis using k inv_parts(6) [OF inv u(1)] by force
qed


section \<open>Properties\<close>

text \<open>C33. How long keys are trusted. After a response at the time \<open>now\<close>, whatever its headers: the cache is
  used without asking again only before \<open>now\<close> plus six hours, and never if the response forbids it; its
  keys stand in for an unreachable issuer only before \<open>now\<close> plus seven hours, and never if the response
  demands revalidation; and a lifetime the response states is counted from its age, without wrapping
  around, whatever number of seconds it states.\<close>

theorem cache_lifetimes_bounded:
  assumes "d = parseCacheDirectives lib h now" "c' = applyDirectivesLocked d h now c"
  shows "(\<not> revalidationRequired c' t \<longrightarrow> t < now + 6 * 3600 * 1000000000 \<and> directive_values h ''no-store'' = None \<and>
      directive_values h ''no-cache'' = None) \<and>
    (staleAllowed c' t \<longrightarrow> t < now + 7 * 3600 * 1000000000 \<and> (\<forall>name \<in> {''no-store'', ''no-cache'', ''must-revalidate'',
      ''proxy-revalidate''}. directive_values h name = None)) \<and>
    (secondsDuration (text_of (directive_values h ''s-maxage'')) = Some lifetime \<or>
      secondsDuration (text_of (directive_values h ''s-maxage'')) = None \<and>
      secondsDuration (text_of (directive_values h ''max-age'')) = Some lifetime \<longrightarrow>
      cd_freshness d = min jwksMaxFreshness (lifetime - current_age h (headerTime lib (header_First h ''Date'') now) now) \<and>
      cd_freshness d \<le> lifetime)"
proof (intro conjI impI)
  assume "\<not> revalidationRequired c' t"
  then show "t < now + 6 * 3600 * 1000000000" "directive_values h ''no-store'' = None" "directive_values h ''no-cache'' = None"
    using directives_freshness [of lib h now]
    by (auto simp: assms revalidationRequired_def applyDirectivesLocked_def parseCacheDirectives_def Let_def jwksMaxFreshness_def)
next
  assume a: "staleAllowed c' t"
  then show "t < now + 7 * 3600 * 1000000000"
    using applyDirectives_times(2) [OF assms(2) [unfolded assms(1)]]
    by (auto simp: staleAllowed_def jwksMaxFreshness_def jwksMaxStaleUse_def split: if_splits)
  show "\<forall>name \<in> {''no-store'', ''no-cache'', ''must-revalidate'', ''proxy-revalidate''}. directive_values h name = None"
    using a by (auto simp: assms staleAllowed_def applyDirectivesLocked_def parseCacheDirectives_def Let_def split: if_splits)
next
  assume "secondsDuration (text_of (directive_values h ''s-maxage'')) = Some lifetime \<or>
    secondsDuration (text_of (directive_values h ''s-maxage'')) = None \<and>
    secondsDuration (text_of (directive_values h ''max-age'')) = Some lifetime"
  from claimed_freshness_exact [OF this, of lib now]
  show "cd_freshness d = min jwksMaxFreshness (lifetime - current_age h (headerTime lib (header_First h ''Date'') now) now)"
    by (simp add: assms(1) parseCacheDirectives_def Let_def)
  then show "cd_freshness d \<le> lifetime"
    using current_age_bounds [of h "headerTime lib (header_First h ''Date'') now" now] by linarith
qed

definition demo_header :: response_header where
  "demo_header = [''Cache-Control'' \<mapsto> [''max-age=60, stale-if-error=30'']]"

theorem cache_lifetimes_bounded_witness:
  "cd_freshness (parseCacheDirectives \<lparr>jl_Key = (\<lambda>_ _. []), jl_Decode = (\<lambda>_. None), jl_ParseTime = (\<lambda>_. None)\<rparr> demo_header 0) \<le> 60000000000"
proof -
  have "secondsDuration (text_of (directive_values demo_header ''s-maxage'')) = None"
    "secondsDuration (text_of (directive_values demo_header ''max-age'')) = Some 60000000000" by code_simp+
  with cache_lifetimes_bounded [OF refl refl, where h = demo_header and lifetime = 60000000000] show ?thesis by blast
qed

end
