(* ===== verification/Access_Tokens.thy ===== *)
theory Access_Tokens
  imports JWKS_Cache HTTP_Security
begin

text \<open>
  The verification of access tokens, \<open>AccessTokenVerifier\<close> of
  \<open>backend/internal/authn/access_token.go\<close>: the discovery of the issuer, the checks of a token, and the
  caller it stands for. The keys come from \<open>JWKS_Cache\<close>.

  Parsing a token and reading its claims with a key set are the package jose: \<open>al_ParseSigned\<close> gives
  the headers of a compact token whose algorithm is among the given ones, \<open>al_Claims\<close> the registered
  claims and the whole claim object of a token whose signature is good under a key of the set. They are
  fields of \<open>access_lib\<close>, with \<open>url.Parse\<close>, \<open>URL.String\<close>, \<open>url.PathUnescape\<close>, \<open>strings.ToLower\<close> and the
  decoding of the discovery document. An error in the construction of a verifier is only a message.
\<close>

section \<open>Definitions\<close>

record jose_header =
  jh_Algorithm :: string
  jh_KeyID :: string
  jh_hasJSONWebKey :: bool
  jh_ExtraHeaders :: "string \<rightharpoonup> jsonValue"

record jwt_claims =
  jc_Issuer :: string
  jc_Subject :: string
  jc_Audience :: "string list"
  jc_Expiry :: "int option"
  jc_NotBefore :: "int option"
  jc_IssuedAt :: "int option"
  jc_ID :: string

record strictDiscoveryDocument =
  dd_Issuer :: string
  dd_JWKSURI :: string
  dd_AuthorizationEndpoint :: string
  dd_TokenEndpoint :: string
  dd_IDTokenSigningAlgorithmsSupported :: "string list"

record access_lib =
  al_jwks :: jwks_lib
  al_ParseSigned :: "string \<Rightarrow> string list \<Rightarrow> jose_header list option"
  al_Claims :: "string \<Rightarrow> jwks \<Rightarrow> (jwt_claims \<times> (string \<times> jsonValue) list) option"
  al_url_Parse :: "string \<Rightarrow> parsed_url option"
  al_url_String :: "parsed_url \<Rightarrow> string"
  al_PathUnescape :: "string \<Rightarrow> string option"
  al_ToLower :: "string \<Rightarrow> string"
  al_DecodeDiscovery :: "string \<Rightarrow> (strictDiscoveryDocument \<times> string) option"

record AccessTokenVerifier =
  av_issuer :: string
  av_audience :: string
  av_groupsClaim :: string
  av_jwksURL :: string

definition accessTokenSkew :: int where "accessTokenSkew = 60 * 1000000000"
definition maxScopeBytes :: nat where "maxScopeBytes = 4 * 2 ^ 10"

subsection \<open>Discovery\<close>

definition https_url :: "access_lib \<Rightarrow> parsed_url \<Rightarrow> bool" where
  "https_url lib u \<longleftrightarrow> Scheme u \<noteq> [] \<and> Host u \<noteq> [] \<and> \<not> has_User u \<and> al_ToLower lib (Scheme u) = ''https''"

definition validateStrictHTTPSURL :: "access_lib \<Rightarrow> string \<Rightarrow> bool \<Rightarrow> bool" where
  "validateStrictHTTPSURL lib raw forbidQueryFragment =
     (if strings_Contains raw ''#'' then False
      else (case al_url_Parse lib raw of
        None \<Rightarrow> False
      | Some u \<Rightarrow>
          if \<not> https_url lib u then False
          else if strings_HasSuffix (Host u) '':'' then False
          else \<not> (Fragment u \<noteq> [] \<or> forbidQueryFragment \<and> (RawQuery u \<noteq> [] \<or> ForceQuery u \<or> strings_Contains raw ''?''))))"

definition validateStrictResourceOrigin :: "access_lib \<Rightarrow> string \<Rightarrow> bool" where
  "validateStrictResourceOrigin lib raw =
     (case al_url_Parse lib raw of
        None \<Rightarrow> False
      | Some u \<Rightarrow>
          if \<not> https_url lib u then False
          else \<not> (url_Path u \<noteq> [] \<and> url_Path u \<noteq> ''/'' \<or> RawQuery u \<noteq> [] \<or> Fragment u \<noteq> []))"

definition wellKnownConfiguration :: string where
  "wellKnownConfiguration = ''/.well-known/openid-configuration''"

definition discovery_paths :: "access_lib \<Rightarrow> parsed_url \<Rightarrow> (string \<times> string) option" where
  "discovery_paths lib u =
     (if RawPath u \<noteq> [] then
        (let rawPath = trim_right_slashes (RawPath u) in
         map_option (\<lambda>decodedPath. (decodedPath, rawPath @ wellKnownConfiguration)) (al_PathUnescape lib rawPath))
      else Some (trim_right_slashes (url_Path u), []))"

definition oidcDiscoveryURL :: "access_lib \<Rightarrow> string \<Rightarrow> string option" where
  "oidcDiscoveryURL lib iss =
     (if \<not> validateStrictHTTPSURL lib iss True then None
      else (case al_url_Parse lib iss of
        None \<Rightarrow> None
      | Some u \<Rightarrow>
          if Scheme u = [] \<or> Host u = [] then None
          else (case discovery_paths lib u of
            None \<Rightarrow> None
          | Some (decodedPath, rawPath) \<Rightarrow>
              let full = (if decodedPath = [] then wellKnownConfiguration else decodedPath @ wellKnownConfiguration) in
              Some (al_url_String lib (u\<lparr>url_Path := full, RawPath := rawPath, RawQuery := [], Fragment := []\<rparr>)))))"

text \<open>\<open>fetch\<close> answers a GET request without following redirects.\<close>

definition fetchStrictDiscovery :: "access_lib \<Rightarrow> (string \<Rightarrow> issuer_answer) \<Rightarrow> string \<Rightarrow> strictDiscoveryDocument option" where
  "fetchStrictDiscovery lib fetch iss =
     (case oidcDiscoveryURL lib iss of
        None \<Rightarrow> None
      | Some url \<Rightarrow> (case fetch url of
          NoAnswer \<Rightarrow> None
        | Answer status h content whole \<Rightarrow>
            if status \<noteq> 200 then None
            else (case al_DecodeDiscovery lib (take max_document content) of
              None \<Rightarrow> None
            | Some (document, rest) \<Rightarrow>
                if (whole \<or> max_document \<le> length content) \<and> list_all is_json_space rest then Some document else None)))"

definition newAccessTokenVerifierFromDiscovery ::
  "access_lib \<Rightarrow> string \<Rightarrow> string \<Rightarrow> string \<Rightarrow> strictDiscoveryDocument \<Rightarrow> AccessTokenVerifier option" where
  "newAccessTokenVerifierFromDiscovery lib iss audience groupsClaim document =
     (if dd_Issuer document \<noteq> iss then None
      else if \<not> list_all (\<lambda>v. validateStrictHTTPSURL lib v False)
                [dd_JWKSURI document, dd_AuthorizationEndpoint document, dd_TokenEndpoint document] then None
      else Some \<lparr>av_issuer = iss, av_audience = audience, av_groupsClaim = groupsClaim, av_jwksURL = dd_JWKSURI document\<rparr>)"

definition NewAccessTokenVerifier ::
  "access_lib \<Rightarrow> (string \<Rightarrow> issuer_answer) \<Rightarrow> string \<Rightarrow> string \<Rightarrow> string \<Rightarrow> AccessTokenVerifier option" where
  "NewAccessTokenVerifier lib fetch iss audience groupsClaim =
     (if \<not> validateStrictHTTPSURL lib iss True then None
      else if \<not> validateStrictResourceOrigin lib audience then None
      else (case fetchStrictDiscovery lib fetch iss of
        None \<Rightarrow> None
      | Some document \<Rightarrow> newAccessTokenVerifierFromDiscovery lib iss audience groupsClaim document))"

subsection \<open>Claims\<close>

definition accessTokenAlgorithms :: "string list" where
  "accessTokenAlgorithms = [''RS256'', ''PS256'', ''ES256'', ''EdDSA'']"

definition allowedAccessTokenAlgorithm :: "string \<Rightarrow> bool" where
  "allowedAccessTokenAlgorithm algorithm \<longleftrightarrow> algorithm \<in> set accessTokenAlgorithms"

definition validAccessTokenType :: "jose_header \<Rightarrow> bool" where
  "validAccessTokenType h =
     (let v = (case jh_ExtraHeaders h ''typ'' of Some (JString s) \<Rightarrow> s | _ \<Rightarrow> []) in
      if v = [] \<or> strings_ContainsAny v ('';'' @ [CHR 0x09, CR, LF] @ '' '') then False
      else asciiLower v = ''at+jwt'' \<or> asciiLower v = ''application/at+jwt'')"

definition validateRegisteredAccessTokenClaims :: "jwt_claims \<Rightarrow> string \<Rightarrow> string \<Rightarrow> int \<Rightarrow> access_error option" where
  "validateRegisteredAccessTokenClaims claims iss audience now =
     (case (jc_Expiry claims, jc_IssuedAt claims) of
        (Some expiry, Some issuedAt) \<Rightarrow>
          if jc_Issuer claims \<noteq> iss \<or> strings_TrimSpace (jc_Subject claims) = [] \<or> jc_ID claims = [] then Some ErrInvalidAccessToken
          else if audience \<notin> set (jc_Audience claims) then Some ErrInvalidAccessToken
          else if now > expiry + accessTokenSkew then Some ErrInvalidAccessToken
          else if now + accessTokenSkew < issuedAt then Some ErrInvalidAccessToken
          else (case jc_NotBefore claims of
            None \<Rightarrow> None
          | Some notBefore \<Rightarrow> if now + accessTokenSkew < notBefore then Some ErrInvalidAccessToken else None)
      | _ \<Rightarrow> Some ErrInvalidAccessToken)"

definition validScopeToken :: "string \<Rightarrow> bool" where
  "validScopeToken scope = list_all (\<lambda>r. \<not> (r < 0x21 \<or> r > 0x7e \<or> r = 0x22 \<or> r = 0x5C)) (runes scope)"

fun scope_list :: "string list \<Rightarrow> string set \<Rightarrow> access_error + string list" where
  "scope_list [] seen = Inr []"
| "scope_list (scope # parts) seen =
     (if scope = [] \<or> \<not> validScopeToken scope then Inl ErrInvalidAccessToken
      else if scope \<in> seen then Inl ErrInvalidAccessToken
      else (case scope_list parts (insert scope seen) of Inl err \<Rightarrow> Inl err | Inr scps \<Rightarrow> Inr (scope # scps)))"

definition parseAccessTokenScopes :: "(string \<times> jsonValue) list \<Rightarrow> access_error + string list" where
  "parseAccessTokenScopes claims =
     (if map_of claims ''scp'' \<noteq> None then Inl ErrInvalidAccessToken
      else (case map_of claims ''scope'' of
        None \<Rightarrow> Inr []
      | Some (JString scopeString) \<Rightarrow>
          if length scopeString > maxScopeBytes then Inl ErrInvalidAccessToken
          else if scopeString = [] then Inl ErrInvalidAccessToken
          else if strings_Contains scopeString [CHR 0x09] \<or> strings_Contains scopeString [LF] \<or> strings_Contains scopeString [CR]
          then Inl ErrInvalidAccessToken
          else scope_list (strings_Split scopeString (CHR '' '')) {}
      | Some _ \<Rightarrow> Inl ErrInvalidAccessToken))"

subsection \<open>Tokens\<close>

definition json_nil :: "jsonValue option \<Rightarrow> bool" where
  "json_nil v \<longleftrightarrow> v = None \<or> v = Some JNull"

text \<open>The checks of \<open>Verify\<close> on the header of a token: the identifier of its key.\<close>

definition token_key :: "access_lib \<Rightarrow> string \<Rightarrow> access_error + string" where
  "token_key lib raw =
     (case al_ParseSigned lib raw accessTokenAlgorithms of
        Some [h] \<Rightarrow>
          if \<not> allowedAccessTokenAlgorithm (jh_Algorithm h) \<or> strings_TrimSpace (jh_KeyID h) = [] then Inl ErrInvalidAccessToken
          else if jh_hasJSONWebKey h \<or> \<not> json_nil (jh_ExtraHeaders h ''jku'') \<or> \<not> json_nil (jh_ExtraHeaders h ''x5u'')
          then Inl ErrInvalidAccessToken
          else if \<not> validAccessTokenType h then Inl ErrInvalidAccessToken
          else Inr (jh_KeyID h)
      | _ \<Rightarrow> Inl ErrInvalidAccessToken)"

text \<open>The checks of \<open>Verify\<close> on the claims, with the keys and the time.\<close>

definition token_caller :: "access_lib \<Rightarrow> AccessTokenVerifier \<Rightarrow> string \<Rightarrow> jwks \<Rightarrow> int \<Rightarrow> access_error + Caller" where
  "token_caller lib v raw keySet now =
     (case al_Claims lib raw keySet of
        None \<Rightarrow> Inl ErrInvalidAccessToken
      | Some (claims, custom) \<Rightarrow>
          (case validateRegisteredAccessTokenClaims claims (av_issuer v) (av_audience v) now of
             Some err \<Rightarrow> Inl err
           | None \<Rightarrow> (case map_of custom ''client_id'' of
               Some (JString clientID) \<Rightarrow>
                 if strings_TrimSpace clientID = [] then Inl ErrInvalidAccessToken
                 else and_then (parseAccessTokenScopes custom) (\<lambda>scps.
                   case principalFromClaims (av_issuer v) custom (av_groupsClaim v) (the (jc_Expiry claims)) of
                     Inl _ \<Rightarrow> Inl ErrInvalidAccessToken
                   | Inr p \<Rightarrow> (case NewBearer (pn_Issuer p) (pn_Subject p) (pn_Groups p) scps of
                       Inl _ \<Rightarrow> Inl ErrInvalidAccessToken
                     | Inr actor \<Rightarrow> Inr actor))
             | _ \<Rightarrow> Inl ErrInvalidAccessToken)))"

text \<open>\<open>keysForKID\<close> is what the lookup in the cache returns, \<open>now\<close> the time read after it.\<close>

definition Verify ::
  "access_lib \<Rightarrow> AccessTokenVerifier option \<Rightarrow> (string \<Rightarrow> access_error + jwks) \<Rightarrow> int \<Rightarrow> string \<Rightarrow> access_error + Caller" where
  "Verify lib verifier keysForKID now raw =
     (case verifier of
        None \<Rightarrow> Inl ErrAccessTokenKeyUnavailable
      | Some v \<Rightarrow>
          and_then (token_key lib raw) (\<lambda>kid.
          and_then (keysForKID kid) (\<lambda>keySet.
          token_caller lib v raw keySet now)))"

definition VerifyAccessToken ::
  "access_lib \<Rightarrow> Authenticator option \<Rightarrow> AccessTokenVerifier option \<Rightarrow> (string \<Rightarrow> access_error + jwks) \<Rightarrow> int \<Rightarrow> string \<Rightarrow>
   access_error + Caller" where
  "VerifyAccessToken lib a access keysForKID now raw =
     (case a of
        None \<Rightarrow> Inl ErrAccessTokenKeyUnavailable
      | Some auth \<Rightarrow>
          if ac_Mode (au_Config auth) \<noteq> AuthModeNative \<or> access = None then Inl ErrAccessTokenKeyUnavailable
          else Verify lib access keysForKID now raw)"

text \<open>How \<open>verifyBearerCredential\<close> sees the result.\<close>

definition as_token_check :: "access_error + Caller \<Rightarrow> token_check" where
  "as_token_check r =
     (case r of
        Inr actor \<Rightarrow> TokenAccepted actor
      | Inl err \<Rightarrow> if err = ErrAccessTokenKeyUnavailable then TokenKeyUnavailable else TokenRejected)"

section \<open>Lemmas\<close>

text \<open>The scopes of a token are the words of its scope claim, each of them once.\<close>

lemma scope_list_Inr:
  "scope_list parts seen = Inr scps \<longleftrightarrow>
     scps = parts \<and> distinct parts \<and> set parts \<inter> seen = {} \<and> list_all (\<lambda>p. p \<noteq> [] \<and> validScopeToken p) parts"
proof (induction parts arbitrary: seen scps)
  case (Cons a parts)
  show ?case using Cons.IH [of "insert a seen"] by (cases "scope_list parts (insert a seen)") auto
qed auto

definition scope_words :: "(string \<times> jsonValue) list \<Rightarrow> string list" where
  "scope_words claims = (case map_of claims ''scope'' of Some (JString v) \<Rightarrow> strings_Split v (CHR '' '') | _ \<Rightarrow> [])"

lemma parseAccessTokenScopes_Inr:
  assumes "parseAccessTokenScopes claims = Inr scps"
  shows "scps = scope_words claims \<and> distinct scps \<and> list_all (\<lambda>p. p \<noteq> [] \<and> validScopeToken p) scps \<and> map_of claims ''scp'' = None"
  using assms
  by (auto simp: parseAccessTokenScopes_def scope_words_def scope_list_Inr split: option.splits jsonValue.splits if_splits)

lemma token_key_Inr:
  assumes "token_key lib raw = Inr kid"
  shows "\<exists>h. al_ParseSigned lib raw accessTokenAlgorithms = Some [h] \<and> jh_KeyID h = kid \<and>
    allowedAccessTokenAlgorithm (jh_Algorithm h) \<and> \<not> jh_hasJSONWebKey h \<and> json_nil (jh_ExtraHeaders h ''jku'') \<and>
    json_nil (jh_ExtraHeaders h ''x5u'') \<and> validAccessTokenType h"
  using assms by (auto simp: token_key_def split: option.splits list.splits if_splits)

lemma registered_claims_None:
  assumes "validateRegisteredAccessTokenClaims claims iss audience now = None"
  shows "jc_Issuer claims = iss \<and> audience \<in> set (jc_Audience claims) \<and> jc_ID claims \<noteq> [] \<and>
    (\<exists>expiry issuedAt. jc_Expiry claims = Some expiry \<and> jc_IssuedAt claims = Some issuedAt \<and>
       now \<le> expiry + accessTokenSkew \<and> issuedAt \<le> now + accessTokenSkew) \<and>
    (\<forall>notBefore. jc_NotBefore claims = Some notBefore \<longrightarrow> notBefore \<le> now + accessTokenSkew)"
  using assms by (auto simp: validateRegisteredAccessTokenClaims_def split: option.splits if_splits)

lemma principal_of_claims:
  assumes "principalFromClaims iss claims groupsClaim expiresAt = Inr p"
  shows "pn_Issuer p = iss \<and> map_of claims ''sub'' = Some (JString (pn_Subject p))"
  using assms by (auto simp: principalFromClaims_def Let_def split: if_splits option.splits jsonValue.splits)

definition good_claims ::
  "AccessTokenVerifier \<Rightarrow> jwt_claims \<Rightarrow> (string \<times> jsonValue) list \<Rightarrow> int \<Rightarrow> Caller \<Rightarrow> bool" where
  "good_claims v claims custom now actor \<longleftrightarrow>
     jc_Issuer claims = av_issuer v \<and> av_audience v \<in> set (jc_Audience claims) \<and>
     (\<exists>expiry issuedAt. jc_Expiry claims = Some expiry \<and> jc_IssuedAt claims = Some issuedAt \<and>
        now \<le> expiry + accessTokenSkew \<and> issuedAt \<le> now + accessTokenSkew) \<and>
     (\<forall>notBefore. jc_NotBefore claims = Some notBefore \<longrightarrow> notBefore \<le> now + accessTokenSkew) \<and>
     kind actor = KindBearer \<and> issuer actor = av_issuer v \<and> map_of custom ''sub'' = Some (JString (subject actor)) \<and>
     scopes actor = set (scope_words custom)"

lemma token_caller_Inr:
  assumes "token_caller lib v raw keySet now = Inr actor"
  shows "\<exists>claims custom. al_Claims lib raw keySet = Some (claims, custom) \<and> good_claims v claims custom now actor"
proof -
  obtain claims custom clientID scps p where
    c: "al_Claims lib raw keySet = Some (claims, custom)"
      "validateRegisteredAccessTokenClaims claims (av_issuer v) (av_audience v) now = None"
      "parseAccessTokenScopes custom = Inr scps"
      "principalFromClaims (av_issuer v) custom (av_groupsClaim v) (the (jc_Expiry claims)) = Inr p"
      "NewBearer (pn_Issuer p) (pn_Subject p) (pn_Groups p) scps = Inr actor"
    using assms
    by (auto simp: token_caller_def split: option.splits jsonValue.splits if_splits) (auto split: sum.splits)
  have "good_claims v claims custom now actor"
    unfolding good_claims_def
    using registered_claims_None [OF c(2)] parseAccessTokenScopes_Inr [OF c(3)] principal_of_claims [OF c(4)] c(5)
    by (auto simp: NewBearer_def newAuthenticated_def split: if_splits)
  then show ?thesis using c(1) by blast
qed

text \<open>A verifier only talks to its issuer over HTTPS.\<close>

lemma verifier_wellformed:
  assumes "NewAccessTokenVerifier lib fetch iss audience groupsClaim = Some v"
  shows "av_issuer v = iss \<and> av_audience v = audience \<and> validateStrictHTTPSURL lib (av_issuer v) True \<and>
    validateStrictHTTPSURL lib (av_jwksURL v) False \<and> validateStrictResourceOrigin lib (av_audience v) \<and>
    (\<exists>document. fetchStrictDiscovery lib fetch iss = Some document \<and> dd_Issuer document = iss \<and> av_jwksURL v = dd_JWKSURI document)"
  using assms
  by (auto simp: NewAccessTokenVerifier_def newAccessTokenVerifierFromDiscovery_def split: if_splits option.splits)

section \<open>Properties\<close>

text \<open>C8. An accepted access token was good under keys that its issuer published and confirmed recently.
  Whatever requests do at the same time, whatever the issuer answers: if a token with the key identifier
  \<open>kid\<close> is accepted with what a lookup of \<open>kid\<close> returned, then the lookup returned keys that the issuer
  published in full, that contain \<open>kid\<close>, and that it published with a 200 or confirmed with a 304 in answer to
  a request sent at most seven hours (and the time of one fetch) before the lookup; the token is an access token (\<open>typ\<close>) signed with an allowed
  algorithm and naming no key of its own; its claims name the issuer and the audience of the verifier and
  are in force, up to a minute; and the caller is a bearer with its subject and exactly its scopes.\<close>

theorem accepted_token_vouched_by_issuer:
  assumes "jwks_reachable (al_jwks lib) limit s" "0 \<le> limit" "js_lookups s i = Some (Returned kid t (keysForKID kid))"
    "token_key lib raw = Inr kid" "Verify lib (Some v) keysForKID now raw = Inr actor"
  shows "\<exists>ks u h claims custom. keysForKID kid = Inr ks \<and> keySetContains (al_jwks lib) ks kid \<and> ks \<in> js_published s \<and>
    (ks, u) \<in> js_confirmed s \<and> t \<le> u + jwksMaxFreshness + jwksMaxStaleUse + limit \<and>
    al_ParseSigned lib raw accessTokenAlgorithms = Some [h] \<and> jh_KeyID h = kid \<and> validAccessTokenType h \<and>
    allowedAccessTokenAlgorithm (jh_Algorithm h) \<and> \<not> jh_hasJSONWebKey h \<and>
    al_Claims lib raw ks = Some (claims, custom) \<and> good_claims v claims custom now actor"
proof -
  obtain ks where ks: "keysForKID kid = Inr ks" "token_caller lib v raw ks now = Inr actor"
    using assms(4,5) by (auto simp: Verify_def)
  show ?thesis
    using returned_keys_recent [OF assms(1,2) assms(3) [unfolded ks(1)]] token_key_Inr [OF assms(4)] token_caller_Inr [OF ks(2)] ks(1)
    by blast
qed

lemma VerifyAccessToken_bearer: "VerifyAccessToken lib a access keysForKID now raw = Inr actor \<Longrightarrow> kind actor = KindBearer"
  using token_caller_Inr
  by (fastforce simp: VerifyAccessToken_def Verify_def good_claims_def split: option.splits if_splits)

lemma as_token_check_accepted [simp]: "as_token_check r = TokenAccepted actor \<longleftrightarrow> r = Inr actor"
  by (auto simp: as_token_check_def split: sum.splits)

interpretation access: bearer_verifier "\<lambda>raw. as_token_check (VerifyAccessToken lib a access keysForKID now raw)"
  for lib a access keysForKID now
  by unfold_locales (simp add: VerifyAccessToken_bearer)

text \<open>C25. A Bearer request that reaches the application on an API route carries an access token that was verified,
  goes on with the caller of that token, and that caller has the scope of the route.\<close>

theorem bearer_requests_have_scope:
  assumes "WrapSecurityWithOptions hlib cfg mcpEnabled (Some (\<lambda>raw. as_token_check (VerifyAccessToken lib a access keysForKID now raw)))
      (Some h) r w = Forward False r' w'" "ac_Mode cfg = AuthModeNative"
    "classifyCredentialRoute hlib mcpEnabled r = credentialRouteSessionOrBearer"
  shows "\<exists>token actor. bearerCredential hlib r = BearerToken token \<and> VerifyAccessToken lib a access keysForKID now token = Inr actor \<and>
    hr_caller r' = Some actor \<and> HasScope actor (bearerRouteRequiredScope hlib r)"
  using access.forwarded_scope [OF assms] by simp

section \<open>Witnesses\<close>

definition demo_keys :: jwks where "demo_keys = [\<lparr>jk_KeyID = ''k'', jk_Key = ''key''\<rparr>]"

definition demo_jwks_lib :: jwks_lib where
  "demo_jwks_lib = \<lparr>jl_Key = (\<lambda>ks kid. filter (\<lambda>k. jk_KeyID k = kid) ks),
     jl_Decode = (\<lambda>v. if v = ''keys'' then Some (demo_keys, []) else None), jl_ParseTime = (\<lambda>_. None)\<rparr>"

definition demo_token_header :: jose_header where
  "demo_token_header = \<lparr>jh_Algorithm = ''EdDSA'', jh_KeyID = ''k'', jh_hasJSONWebKey = False,
     jh_ExtraHeaders = [''typ'' \<mapsto> JString ''at+jwt'']\<rparr>"

definition demo_token_claims :: "jwt_claims \<times> (string \<times> jsonValue) list" where
  "demo_token_claims =
     (\<lparr>jc_Issuer = ''i'', jc_Subject = ''s'', jc_Audience = [''https://vault''], jc_Expiry = Some 10,
       jc_NotBefore = None, jc_IssuedAt = Some 1, jc_ID = ''id''\<rparr>,
      [(''sub'', JString ''s''), (''client_id'', JString ''cli''), (''scope'', JString ''vaultsmith.rotate'')])"

definition demo_access_lib :: access_lib where
  "demo_access_lib = \<lparr>al_jwks = demo_jwks_lib, al_ParseSigned = (\<lambda>raw algs. if raw = ''x'' then Some [demo_token_header] else None),
     al_Claims = (\<lambda>raw ks. if raw = ''x'' \<and> ks = demo_keys then Some demo_token_claims else None),
     al_url_Parse = (\<lambda>_. None), al_url_String = (\<lambda>_. []), al_PathUnescape = Some, al_ToLower = strings_ToLower_ascii,
     al_DecodeDiscovery = (\<lambda>_. None)\<rparr>"

definition demo_verifier :: AccessTokenVerifier where
  "demo_verifier = \<lparr>av_issuer = ''i'', av_audience = ''https://vault'', av_groupsClaim = ''groups'', av_jwksURL = ''https://issuer/jwks''\<rparr>"

text \<open>A lookup on an empty cache, step by step.\<close>

definition demo_shared :: "fetch_stage \<Rightarrow> jwks_fetch" where
  "demo_shared st = \<lparr>jf_kid = ''k'', jf_started = 1, jf_unknownKID = True, jf_hadPriorJWKS = False, jf_stage = st\<rparr>"

definition demo_cache :: jwksCache where
  "demo_cache = snd (refresh demo_jwks_lib (Answer 200 Map.empty ''keys'' True) 1 zero_jwksCache)"

definition demo_result :: jwksRefreshResult where
  "demo_result = \<lparr>rr_keys = demo_keys, rr_retained = True, rr_owner = 0, rr_unknownKID = True, rr_hadPriorJWKS = False\<rparr>"

definition demo_stage :: "jwksCache \<Rightarrow> lookup_stage \<Rightarrow> (nat \<rightharpoonup> jwks_fetch) \<Rightarrow> jwks set \<Rightarrow> jwks_state" where
  "demo_stage c l fetches published = \<lparr>js_cache = c, js_now = 1, js_lookups = [0 \<mapsto> l], js_submitted = Map.empty, js_shared = fetches,
     js_direct = Map.empty, js_published = published, js_confirmed = (\<lambda>ks. (ks, 1)) ` published\<rparr>"

lemma demo_keys_found: "keySetContains demo_jwks_lib demo_keys ''k''" "\<not> keySetContains demo_jwks_lib [] ''k''"
  by (simp_all add: keySetContains_def demo_jwks_lib_def demo_keys_def)

lemma demo_decode: "decode_keys demo_jwks_lib ''keys'' True = Inr demo_keys"
  by (simp add: decode_keys_def demo_jwks_lib_def max_document_def)

lemma demo_refresh:
  "refresh demo_jwks_lib (Answer 200 Map.empty ''keys'' True) 1 zero_jwksCache = (Inr (demo_keys, True), demo_cache)"
proof -
  have "directive_values Map.empty ''no-store'' = None" by code_simp
  then have "fst (refresh demo_jwks_lib (Answer 200 Map.empty ''keys'' True) 1 zero_jwksCache) = Inr (demo_keys, True)"
    by (simp add: refresh_def demo_decode parseCacheDirectives_def Let_def)
  then show ?thesis unfolding demo_cache_def by (metis prod.collapse)
qed

lemmas demo_lookup_simps = demo_stage_def demo_shared_def demo_result_def demo_keys_found containsKIDLocked_def

lemma demo_steps:
  defines "waiting \<equiv> demo_stage zero_jwksCache (Waiting ''k'' 1 {}) Map.empty {}"
  shows "jwks_step demo_jwks_lib 0 (jwks_start 1) (demo_stage zero_jwksCache (Entered ''k'') Map.empty {})"
    "jwks_step demo_jwks_lib 0 (demo_stage zero_jwksCache (Entered ''k'') Map.empty {}) (waiting\<lparr>js_submitted := [0 \<mapsto> ''k'']\<rparr>)"
    "jwks_step demo_jwks_lib 0 (waiting\<lparr>js_submitted := [0 \<mapsto> ''k'']\<rparr>)
       (demo_stage zero_jwksCache (Waiting ''k'' 1 {}) [0 \<mapsto> demo_shared (Fetching no_condition)] {})"
    "jwks_step demo_jwks_lib 0 (demo_stage zero_jwksCache (Waiting ''k'' 1 {}) [0 \<mapsto> demo_shared (Fetching no_condition)] {})
       (demo_stage demo_cache (Waiting ''k'' 1 {}) [0 \<mapsto> demo_shared (Fetched (Inr (demo_keys, True)))] {demo_keys})"
    "jwks_step demo_jwks_lib 0 (demo_stage demo_cache (Waiting ''k'' 1 {}) [0 \<mapsto> demo_shared (Fetched (Inr (demo_keys, True)))] {demo_keys})
       (demo_stage demo_cache (Waiting ''k'' 1 {}) [0 \<mapsto> demo_shared (Finished (Inr demo_result))] {demo_keys})"
    "jwks_step demo_jwks_lib 0 (demo_stage demo_cache (Waiting ''k'' 1 {}) [0 \<mapsto> demo_shared (Finished (Inr demo_result))] {demo_keys})
       (demo_stage demo_cache (Waiting ''k'' 1 {Inr demo_result}) Map.empty {demo_keys})"
    "jwks_step demo_jwks_lib 0 (demo_stage demo_cache (Waiting ''k'' 1 {Inr demo_result}) Map.empty {demo_keys})
       (demo_stage demo_cache (Returned ''k'' 1 (Inr demo_keys)) Map.empty {demo_keys})"
proof -
  let ?lib = demo_jwks_lib
  show "jwks_step ?lib 0 (jwks_start 1) (demo_stage zero_jwksCache (Entered ''k'') Map.empty {})"
    using jwks_step.enter [of "jwks_start 1" 0 ?lib 0 "''k''"] by (simp add: demo_stage_def jwks_start_def)
  show "jwks_step ?lib 0 (demo_stage zero_jwksCache (Entered ''k'') Map.empty {}) (waiting\<lparr>js_submitted := [0 \<mapsto> ''k'']\<rparr>)"
    using jwks_step.look [of "demo_stage zero_jwksCache (Entered ''k'') Map.empty {}" 0 "''k''" ?lib 0]
    by (simp add: demo_lookup_simps waiting_def looked_up_def lookup_keys_def zero_jwksCache_def unknownKIDThrottleLocked_def)
  show "jwks_step ?lib 0 (waiting\<lparr>js_submitted := [0 \<mapsto> ''k'']\<rparr>)
      (demo_stage zero_jwksCache (Waiting ''k'' 1 {}) [0 \<mapsto> demo_shared (Fetching no_condition)] {})"
    using jwks_step.share [of "waiting\<lparr>js_submitted := [0 \<mapsto> ''k'']\<rparr>" 0 "''k''" ?lib 0]
    by (simp add: demo_lookup_simps waiting_def shared_fetch_def begin_fetch_def zero_jwksCache_def unknownKIDThrottleLocked_def no_condition_def)
  show "jwks_step ?lib 0 (demo_stage zero_jwksCache (Waiting ''k'' 1 {}) [0 \<mapsto> demo_shared (Fetching no_condition)] {})
      (demo_stage demo_cache (Waiting ''k'' 1 {}) [0 \<mapsto> demo_shared (Fetched (Inr (demo_keys, True)))] {demo_keys})"
    using jwks_step.share_answer [of "demo_stage zero_jwksCache (Waiting ''k'' 1 {}) [0 \<mapsto> demo_shared (Fetching no_condition)] {}" 0
        "demo_shared (Fetching no_condition)" no_condition ?lib "Answer 200 Map.empty ''keys'' True" _ _ 0, OF _ _ prod.collapse [symmetric]]
    by (simp add: demo_stage_def demo_shared_def answered_def demo_refresh published_by_def confirmed_by_def demo_decode)
  show "jwks_step ?lib 0 (demo_stage demo_cache (Waiting ''k'' 1 {}) [0 \<mapsto> demo_shared (Fetched (Inr (demo_keys, True)))] {demo_keys})
      (demo_stage demo_cache (Waiting ''k'' 1 {}) [0 \<mapsto> demo_shared (Finished (Inr demo_result))] {demo_keys})"
    using jwks_step.share_record [of "demo_stage demo_cache (Waiting ''k'' 1 {}) [0 \<mapsto> demo_shared (Fetched (Inr (demo_keys, True)))] {demo_keys}" 0
        "demo_shared (Fetched (Inr (demo_keys, True)))" "Inr (demo_keys, True)" ?lib _ _ 0, OF _ _ prod.collapse [symmetric]]
    by (simp add: demo_lookup_simps recorded_def refresh_result_def recordUnknownKIDOutcome_def)
  show "jwks_step ?lib 0 (demo_stage demo_cache (Waiting ''k'' 1 {}) [0 \<mapsto> demo_shared (Finished (Inr demo_result))] {demo_keys})
      (demo_stage demo_cache (Waiting ''k'' 1 {Inr demo_result}) Map.empty {demo_keys})"
    using jwks_step.share_deliver [of "demo_stage demo_cache (Waiting ''k'' 1 {}) [0 \<mapsto> demo_shared (Finished (Inr demo_result))] {demo_keys}" 0
        "demo_shared (Finished (Inr demo_result))" "Inr demo_result" ?lib 0]
    by (simp add: demo_stage_def demo_shared_def offered_def o_def fun_upd_def if_distrib cong: if_cong)
  show "jwks_step ?lib 0 (demo_stage demo_cache (Waiting ''k'' 1 {Inr demo_result}) Map.empty {demo_keys})
      (demo_stage demo_cache (Returned ''k'' 1 (Inr demo_keys)) Map.empty {demo_keys})"
    using jwks_step.take_result [of "demo_stage demo_cache (Waiting ''k'' 1 {Inr demo_result}) Map.empty {demo_keys}" 0 "''k''" 1
        "{Inr demo_result}" "Inr demo_result" ?lib 0]
    by (simp add: demo_lookup_simps receive_def after_receive_def found_keys_def)
qed

lemma demo_returned: "jwks_reachable demo_jwks_lib 0 (demo_stage demo_cache (Returned ''k'' 1 (Inr demo_keys)) Map.empty {demo_keys})"
  unfolding jwks_reachable_def by (rule exI [of _ 1], (rule converse_rtranclp_into_rtranclp, rule demo_steps)+, rule rtranclp.rtrancl_refl)

lemma demo_token_accepted:
  "token_key demo_access_lib ''x'' = Inr ''k''"
  "\<exists>actor. NewBearer ''i'' ''s'' [] [''vaultsmith.rotate''] = Inr actor \<and>
     Verify demo_access_lib (Some demo_verifier) (\<lambda>_. Inr demo_keys) 5 ''x'' = Inr actor"
proof -
  show k: "token_key demo_access_lib ''x'' = Inr ''k''" by code_simp
  have "scope_list (strings_Split ''vaultsmith.rotate'' (CHR '' '')) {} = Inr [''vaultsmith.rotate'']" by code_simp
  moreover have "\<not> strings_Contains ''vaultsmith.rotate'' [CHR 0x09]" "\<not> strings_Contains ''vaultsmith.rotate'' [LF]"
    "\<not> strings_Contains ''vaultsmith.rotate'' [CR]" by code_simp+
  ultimately have "parseAccessTokenScopes (snd demo_token_claims) = Inr [''vaultsmith.rotate'']"
    by (simp add: parseAccessTokenScopes_def demo_token_claims_def maxScopeBytes_def)
  moreover have "principalFromClaims ''i'' (snd demo_token_claims) ''groups'' 10 = Inr \<lparr>pn_Issuer = ''i'',
      pn_Subject = ''s'', pn_Email = [], pn_Groups = [], pn_ExpiresAt = 10\<rparr>"
    "is_ok (NewBearer ''i'' ''s'' [] [''vaultsmith.rotate''])"
    "validateRegisteredAccessTokenClaims (fst demo_token_claims) ''i'' ''https://vault'' 5 = None"
    "map_of (snd demo_token_claims) ''client_id'' = Some (JString ''cli'')" "strings_TrimSpace ''cli'' \<noteq> []"
    "jc_Expiry (fst demo_token_claims) = Some 10" by code_simp+
  ultimately show "\<exists>actor. NewBearer ''i'' ''s'' [] [''vaultsmith.rotate''] = Inr actor \<and>
      Verify demo_access_lib (Some demo_verifier) (\<lambda>_. Inr demo_keys) 5 ''x'' = Inr actor"
    using k by (auto simp: Verify_def and_then_def token_caller_def demo_access_lib_def demo_verifier_def case_prod_beta split: sum.splits)
qed

theorem accepted_token_vouched_by_issuer_witness:
  "\<exists>actor. Verify demo_access_lib (Some demo_verifier) (\<lambda>_. Inr demo_keys) 5 ''x'' = Inr actor \<and>
     subject actor = ''s'' \<and> scopes actor = {''vaultsmith.rotate''}"
proof -
  obtain actor where a: "Verify demo_access_lib (Some demo_verifier) (\<lambda>_. Inr demo_keys) 5 ''x'' = Inr actor"
    using demo_token_accepted(2) by blast
  note k = demo_token_accepted(1)
  have l: "js_lookups (demo_stage demo_cache (Returned ''k'' 1 (Inr demo_keys)) Map.empty {demo_keys}) 0 = Some (Returned ''k'' 1 (Inr demo_keys))"
    by (simp add: demo_stage_def)
  have r: "jwks_reachable (al_jwks demo_access_lib) 0 (demo_stage demo_cache (Returned ''k'' 1 (Inr demo_keys)) Map.empty {demo_keys})"
    using demo_returned by (simp add: demo_access_lib_def)
  have w: "scope_words (snd demo_token_claims) = [''vaultsmith.rotate'']" by code_simp
  from accepted_token_vouched_by_issuer [OF r order_refl l k a] obtain claims custom where
    c: "al_Claims demo_access_lib ''x'' demo_keys = Some (claims, custom)" and g: "good_claims demo_verifier claims custom 5 actor" by auto
  have "demo_token_claims = (claims, custom)" using c by (simp add: demo_access_lib_def)
  then have e: "custom = snd demo_token_claims" by (metis snd_conv)
  have "map_of (snd demo_token_claims) ''sub'' = Some (JString ''s'')" by code_simp
  then have "subject actor = ''s''" "scopes actor = {''vaultsmith.rotate''}"
    using g w unfolding good_claims_def e by (simp_all del: list.inject)
  then show ?thesis using a by blast
qed


theorem bearer_requests_have_scope_witness:
  "\<exists>token actor. VerifyAccessToken demo_access_lib (Some demo_auth) (Some demo_verifier) (\<lambda>_. Inr demo_keys) 5 token = Inr actor \<and>
     HasScope actor (bearerRouteRequiredScope demo_http_lib demo_bearer)"
proof -
  let ?verify = "\<lambda>raw. as_token_check (VerifyAccessToken demo_access_lib (Some demo_auth) (Some demo_verifier) (\<lambda>_. Inr demo_keys) 5 raw)"
  have m: "ac_Mode (au_Config demo_auth) = AuthModeNative" by code_simp
  obtain actor where a: "NewBearer ''i'' ''s'' [] [''vaultsmith.rotate''] = Inr actor"
      "Verify demo_access_lib (Some demo_verifier) (\<lambda>_. Inr demo_keys) 5 ''x'' = Inr actor"
    using demo_token_accepted(2) by blast
  have "?verify = (\<lambda>raw. if raw = ''x'' then demo_verify raw else TokenRejected)"
  proof
    fix raw :: string
    have "Verify demo_access_lib (Some demo_verifier) (\<lambda>_. Inr demo_keys) 5 raw = Inl ErrInvalidAccessToken" if "raw \<noteq> ''x''"
      using that by (simp add: Verify_def token_key_def demo_access_lib_def and_then_def)
    then show "?verify raw = (if raw = ''x'' then demo_verify raw else TokenRejected)"
      using a m by (auto simp: VerifyAccessToken_def as_token_check_def demo_verify_def ScopeRotate_def)
  qed
  moreover have "forwards (WrapSecurityWithOptions demo_http_lib demo_http_config False (Some (\<lambda>raw. if raw = ''x'' then demo_verify raw else TokenRejected))
      (Some demo_http_service) demo_bearer empty_writer) = Some False" by code_simp
  ultimately obtain r' w' where
    "WrapSecurityWithOptions demo_http_lib demo_http_config False (Some ?verify) (Some demo_http_service) demo_bearer empty_writer = Forward False r' w'"
    by (metis forwardsE)
  from bearer_requests_have_scope [OF this demo_forwards(3,5)] show ?thesis by blast
qed

end
