(* ===== verification/URI_Syntax.thy ===== *)
theory URI_Syntax
  imports Generate
begin

text \<open>
  The names that may stand in a certificate request, \<open>backend/internal/generate/x509.go\<close>: identity strings, DNS names,
  e-mail addresses, and URIs with their hand-written syntax check.

  \<open>strings.IndexByte\<close> and \<open>strings.LastIndexByte\<close>, which the source uses to split strings, are \<open>cut_first\<close> and
  \<open>cut_last\<close>. Package \<open>netip\<close>, \<open>mail.ParseAddress\<close> and \<open>url.Parse\<close> are the parameter \<open>identity_lib\<close>.

  The main result is that the syntax check accepts exactly the URIs of the grammar of RFC 3986, which is written
  down here in the terms of the RFC.
\<close>

section \<open>Definitions\<close>

subsection \<open>Libraries\<close>

record netip_addr =
  na_Is6 :: bool
  na_Is4In6 :: bool
  na_Zone :: string
  na_String :: string
  na_AsSlice :: go_bytes

text \<open>A URL: its scheme and what its method \<open>String\<close> returns.\<close>

record url_value =
  uv_Scheme :: string
  uv_String :: string

record identity_lib =
  netip_ParseAddr :: "string \<Rightarrow> netip_addr option"
  mail_ParseAddress :: "string \<Rightarrow> (string \<times> string) option"
  il_url_Parse :: "string \<Rightarrow> url_value option"

definition cut_first :: "string \<Rightarrow> char \<Rightarrow> (string \<times> string) option" where
  "cut_first s c = (if c \<in> set s then Some (takeWhile (\<lambda>x. x \<noteq> c) s, tl (dropWhile (\<lambda>x. x \<noteq> c) s)) else None)"

definition cut_last :: "string \<Rightarrow> char \<Rightarrow> (string \<times> string) option" where
  "cut_last s c = map_option (\<lambda>(a, b). (rev b, rev a)) (cut_first (rev s) c)"

subsection \<open>Characters\<close>

definition isASCIIAlpha :: "char \<Rightarrow> bool" where
  "isASCIIAlpha c \<longleftrightarrow> (97 \<le> (of_char c :: nat) \<and> (of_char c :: nat) \<le> 122) \<or> (65 \<le> (of_char c :: nat) \<and> (of_char c :: nat) \<le> 90)"

definition is_ascii_digit :: "char \<Rightarrow> bool" where
  "is_ascii_digit c \<longleftrightarrow> 48 \<le> (of_char c :: nat) \<and> (of_char c :: nat) \<le> 57"

definition isASCIIHex :: "char \<Rightarrow> bool" where
  "isASCIIHex c \<longleftrightarrow> is_ascii_digit c \<or> (97 \<le> (of_char c :: nat) \<and> (of_char c :: nat) \<le> 102) \<or> (65 \<le> (of_char c :: nat) \<and> (of_char c :: nat) \<le> 70)"

definition isASCIILetterOrDigit :: "char \<Rightarrow> bool" where
  "isASCIILetterOrDigit c \<longleftrightarrow> isASCIIAlpha c \<or> is_ascii_digit c"

definition validIdentityString :: "string \<Rightarrow> nat \<Rightarrow> bool \<Rightarrow> bool" where
  "validIdentityString v maximumBytes asciiOnly =
     (if v = [] \<or> maximumBytes < length v \<or> \<not> utf8_valid v \<or> strings_TrimSpace v \<noteq> v then False
      else list_all (\<lambda>character. \<not> (character \<le> 0x1F \<or> character = 0x7F \<or> asciiOnly \<and> 0x7F < character)) (runes v))"

subsection \<open>URIs\<close>

definition subDelims :: string where "subDelims = ''!$&'' @ [CHR 0x27] @ ''()*+,;=''"

fun validURIComponent :: "string \<Rightarrow> string \<Rightarrow> bool" where
  "validURIComponent [] allowedReserved = True"
| "validURIComponent (c # s) allowedReserved =
     (if isASCIIAlpha c \<or> is_ascii_digit c \<or> c \<in> set ''-._~'' \<or> c \<in> set allowedReserved then validURIComponent s allowedReserved
      else (case s of
        a # b # rest \<Rightarrow> c = CHR ''%'' \<and> isASCIIHex a \<and> isASCIIHex b \<and> validURIComponent rest allowedReserved
      | _ \<Rightarrow> False))"

declare validURIComponent.simps(2) [simp del]

lemmas validURIComponent_Cons = validURIComponent.simps(2)

definition validURIScheme :: "string \<Rightarrow> bool" where
  "validURIScheme v =
     (if v = [] \<or> \<not> isASCIIAlpha (hd v) then False
      else list_all (\<lambda>c. isASCIIAlpha c \<or> is_ascii_digit c \<or> c \<in> set ''+-.'') (tl v))"

definition validURIPort :: "string \<Rightarrow> bool" where
  "validURIPort v = (if v = [] then True else if hd v \<noteq> CHR '':'' then False else list_all is_ascii_digit (tl v))"

definition validURIIPLiteral :: "identity_lib \<Rightarrow> string \<Rightarrow> bool" where
  "validURIIPLiteral lib v =
     (if 3 \<le> length v \<and> hd v \<in> set ''vV'' then
        (case cut_first v (CHR ''.'') of
           None \<Rightarrow> False
         | Some (version, address) \<Rightarrow>
             if length version < 2 \<or> address = [] then False
             else if \<not> list_all isASCIIHex (tl version) then False
             else validURIComponent address (subDelims @ '':'') \<and> CHR ''%'' \<notin> set address)
      else (case netip_ParseAddr lib v of None \<Rightarrow> False | Some address \<Rightarrow> na_Is6 address \<and> na_Zone address = []))"

definition valid_host_and_port :: "identity_lib \<Rightarrow> string \<Rightarrow> bool" where
  "valid_host_and_port lib hostAndPort =
     (if strings_HasPrefix hostAndPort ''['' then
        (case cut_last hostAndPort (CHR '']'') of
           None \<Rightarrow> False
         | Some (bracketed, port) \<Rightarrow> validURIIPLiteral lib (tl bracketed) \<and> validURIPort port)
      else if strings_ContainsAny hostAndPort ''[]'' then False
      else (case cut_last hostAndPort (CHR '':'') of
        None \<Rightarrow> validURIComponent hostAndPort subDelims \<and> validURIPort []
      | Some (host, port) \<Rightarrow>
          if CHR '':'' \<in> set host then False
          else validURIComponent host subDelims \<and> validURIPort (CHR '':'' # port)))"

definition validURIAuthority :: "identity_lib \<Rightarrow> string \<Rightarrow> bool" where
  "validURIAuthority lib v =
     (case cut_last v (CHR ''@'') of
        None \<Rightarrow> valid_host_and_port lib v
      | Some (userinfo, hostAndPort) \<Rightarrow> validURIComponent userinfo (subDelims @ '':'') \<and> valid_host_and_port lib hostAndPort)"

definition validURIHierPart :: "identity_lib \<Rightarrow> string \<Rightarrow> bool" where
  "validURIHierPart lib v =
     (if strings_HasPrefix v ''//'' then
        (case cut_first (drop 2 v) (CHR ''/'') of
           None \<Rightarrow> validURIAuthority lib (drop 2 v) \<and> validURIComponent [] (subDelims @ '':@/'')
         | Some (authority, path) \<Rightarrow> validURIAuthority lib authority \<and> validURIComponent (CHR ''/'' # path) (subDelims @ '':@/''))
      else validURIComponent v (subDelims @ '':@/''))"

definition validAbsoluteURISyntax :: "identity_lib \<Rightarrow> string \<Rightarrow> bool" where
  "validAbsoluteURISyntax lib v =
     (case cut_first v (CHR '':'') of
        None \<Rightarrow> False
      | Some (scheme, afterScheme) \<Rightarrow>
          if \<not> validURIScheme scheme then False
          else let (r1, fragment) = (case cut_first afterScheme (CHR ''#'') of None \<Rightarrow> (afterScheme, []) | Some p \<Rightarrow> p);
                   (r2, query) = (case cut_first r1 (CHR ''?'') of None \<Rightarrow> (r1, []) | Some p \<Rightarrow> p)
            in validURIHierPart lib r2 \<and> validURIComponent query (subDelims @ '':@/?'') \<and> validURIComponent fragment (subDelims @ '':@/?''))"

definition hasIPvFutureAuthority :: "string \<Rightarrow> bool" where
  "hasIPvFutureAuthority v =
     (case cut_first v (CHR '':'') of
        None \<Rightarrow> False
      | Some (scheme, afterScheme) \<Rightarrow>
          if scheme = [] \<or> \<not> strings_HasPrefix afterScheme ''//'' then False
          else let a0 = takeWhile (\<lambda>c. c \<notin> set ''/?#'') (drop 2 afterScheme);
                   authority = (case cut_last a0 (CHR ''@'') of None \<Rightarrow> a0 | Some (_, host) \<Rightarrow> host)
            in 3 \<le> length authority \<and> authority ! 0 = CHR ''['' \<and> authority ! 1 \<in> set ''vV'')"

definition maximumX509URIBytes :: nat where "maximumX509URIBytes = 2048"

text \<open>The URL made from scheme and opaque part: its \<open>String\<close> puts a colon between them.\<close>

definition opaque_url :: "string \<Rightarrow> string \<Rightarrow> url_value" where
  "opaque_url scheme opaque = \<lparr>uv_Scheme = scheme, uv_String = scheme @ '':'' @ opaque\<rparr>"

definition IsAbs :: "url_value \<Rightarrow> bool" where
  "IsAbs u \<longleftrightarrow> uv_Scheme u \<noteq> []"

text \<open>Go normalises some spellings; the opaque form keeps the bytes that were validated.\<close>

definition kept_uri :: "string \<Rightarrow> url_value option" where
  "kept_uri v =
     (case cut_first v (CHR '':'') of
        None \<Rightarrow> None
      | Some (scheme, opaque) \<Rightarrow>
          let kept = opaque_url scheme opaque in if \<not> IsAbs kept \<or> uv_String kept \<noteq> v then None else Some kept)"

definition parseAbsoluteURI :: "identity_lib \<Rightarrow> string \<Rightarrow> url_value option" where
  "parseAbsoluteURI lib v =
     (if \<not> validIdentityString v maximumX509URIBytes True \<or> \<not> validAbsoluteURISyntax lib v then None
      else (case il_url_Parse lib v of
        Some parsed \<Rightarrow> if IsAbs parsed \<and> uv_String parsed = v then Some parsed else kept_uri v
      | None \<Rightarrow> if \<not> hasIPvFutureAuthority v then None else kept_uri v))"

subsection \<open>DNS names and addresses\<close>

definition maximumX509DNSBytes :: nat where "maximumX509DNSBytes = 253"
definition maximumX509EmailBytes :: nat where "maximumX509EmailBytes = 253"

definition valid_dns_label :: "string \<Rightarrow> bool" where
  "valid_dns_label label \<longleftrightarrow>
     \<not> (label = [] \<or> 63 < length label \<or> \<not> isASCIILetterOrDigit (hd label) \<or> \<not> isASCIILetterOrDigit (last label)) \<and>
     list_all (\<lambda>c. isASCIILetterOrDigit c \<or> c = CHR ''-'') (butlast (tl label))"

definition validDNSName :: "string \<Rightarrow> bool" where
  "validDNSName v = (if \<not> validIdentityString v maximumX509DNSBytes True then False else list_all valid_dns_label (strings_Split v (CHR ''.'')))"

text \<open>The loop over a quoted local part: what was unquoted so far, and what is left of the value.\<close>

fun unquoted_matches :: "string \<Rightarrow> string \<Rightarrow> string \<Rightarrow> bool" where
  "unquoted_matches address local [] = False"
| "unquoted_matches address local (c # s) =
     (if c = CHR 0x22 then (s \<noteq> [] \<and> hd s = CHR ''@'' \<and> local @ s = address)
      else if c = CHR 0x5C then (case s of [] \<Rightarrow> False | e # rest \<Rightarrow> unquoted_matches address (local @ [e]) rest)
      else unquoted_matches address (local @ [c]) s)"

definition validEmailAddress :: "identity_lib \<Rightarrow> string \<Rightarrow> bool" where
  "validEmailAddress lib v =
     (if \<not> validIdentityString v maximumX509EmailBytes True then False
      else (case mail_ParseAddress lib v of
        None \<Rightarrow> False
      | Some (name, address) \<Rightarrow>
          if name \<noteq> [] then False
          else if address = v then True
          else if hd v \<noteq> CHR 0x22 then False
          else unquoted_matches address [] (tl v)))"

section \<open>The grammar of RFC 3986\<close>

text \<open>Strings of characters from a set and percent-encoded octets.\<close>

inductive encoded_chars :: "(char \<Rightarrow> bool) \<Rightarrow> string \<Rightarrow> bool" for P where
  encoded_nil: "encoded_chars P []"
| encoded_char: "P c \<Longrightarrow> encoded_chars P s \<Longrightarrow> encoded_chars P (c # s)"
| encoded_octet: "isASCIIHex a \<Longrightarrow> isASCIIHex b \<Longrightarrow> encoded_chars P s \<Longrightarrow> encoded_chars P (CHR ''%'' # a # b # s)"

inductive_cases encoded_ConsE: "encoded_chars P (c # s)"

definition unreserved :: "char \<Rightarrow> bool" where
  "unreserved c \<longleftrightarrow> isASCIIAlpha c \<or> is_ascii_digit c \<or> c \<in> set ''-._~''"

definition sub_delim :: "char \<Rightarrow> bool" where
  "sub_delim c \<longleftrightarrow> c \<in> set subDelims"

definition pchar :: "char \<Rightarrow> bool" where
  "pchar c \<longleftrightarrow> unreserved c \<or> sub_delim c \<or> c = CHR '':'' \<or> c = CHR ''@''"

definition rfc_scheme :: "string \<Rightarrow> bool" where
  "rfc_scheme s \<longleftrightarrow> (\<exists>a r. s = a # r \<and> isASCIIAlpha a \<and> (\<forall>c\<in>set r. isASCIIAlpha c \<or> is_ascii_digit c \<or> c \<in> set ''+-.''))"

definition IPvFuture :: "string \<Rightarrow> bool" where
  "IPvFuture s \<longleftrightarrow> (\<exists>x h a. s = x # h @ ''.'' @ a \<and> x \<in> set ''vV'' \<and> h \<noteq> [] \<and> (\<forall>c\<in>set h. isASCIIHex c) \<and>
     a \<noteq> [] \<and> (\<forall>c\<in>set a. unreserved c \<or> sub_delim c \<or> c = CHR '':''))"

definition rfc_host :: "(string \<Rightarrow> bool) \<Rightarrow> string \<Rightarrow> bool" where
  "rfc_host IPv6address s \<longleftrightarrow>
     (\<exists>l. s = ''['' @ l @ '']'' \<and> (IPv6address l \<or> IPvFuture l)) \<or> encoded_chars (\<lambda>c. unreserved c \<or> sub_delim c) s"

definition rfc_authority :: "(string \<Rightarrow> bool) \<Rightarrow> string \<Rightarrow> bool" where
  "rfc_authority IPv6address s \<longleftrightarrow>
     (\<exists>ui h p. s = ui @ h @ p \<and>
        (ui = [] \<or> (\<exists>u. ui = u @ ''@'' \<and> encoded_chars (\<lambda>c. unreserved c \<or> sub_delim c \<or> c = CHR '':'') u)) \<and>
        rfc_host IPv6address h \<and>
        (p = [] \<or> (\<exists>d. p = CHR '':'' # d \<and> (\<forall>c\<in>set d. is_ascii_digit c))))"

definition rfc_segment :: "string \<Rightarrow> bool" where
  "rfc_segment s \<longleftrightarrow> encoded_chars pchar s"

definition slashed :: "string list \<Rightarrow> string" where
  "slashed segs = concat (map (\<lambda>s. CHR ''/'' # s) segs)"

definition path_abempty :: "string \<Rightarrow> bool" where
  "path_abempty p \<longleftrightarrow> (\<exists>segs. p = slashed segs \<and> (\<forall>s\<in>set segs. rfc_segment s))"

definition path_rootless :: "string \<Rightarrow> bool" where
  "path_rootless p \<longleftrightarrow> (\<exists>s segs. p = s @ slashed segs \<and> s \<noteq> [] \<and> rfc_segment s \<and> (\<forall>s\<in>set segs. rfc_segment s))"

definition path_absolute :: "string \<Rightarrow> bool" where
  "path_absolute p \<longleftrightarrow> p = ''/'' \<or> (\<exists>q. p = CHR ''/'' # q \<and> path_rootless q)"

definition hier_part :: "(string \<Rightarrow> bool) \<Rightarrow> string \<Rightarrow> bool" where
  "hier_part IPv6address s \<longleftrightarrow>
     (\<exists>a p. s = ''//'' @ a @ p \<and> rfc_authority IPv6address a \<and> path_abempty p) \<or> path_absolute s \<or> path_rootless s \<or> s = []"

definition rfc_query :: "string \<Rightarrow> bool" where
  "rfc_query s \<longleftrightarrow> encoded_chars (\<lambda>c. pchar c \<or> c = CHR ''/'' \<or> c = CHR ''?'') s"

definition rfc_URI :: "(string \<Rightarrow> bool) \<Rightarrow> string \<Rightarrow> bool" where
  "rfc_URI IPv6address v \<longleftrightarrow>
     (\<exists>scheme hier query fragment. v = scheme @ '':'' @ hier @ query @ fragment \<and> rfc_scheme scheme \<and> hier_part IPv6address hier \<and>
        (query = [] \<or> (\<exists>q. query = CHR ''?'' # q \<and> rfc_query q)) \<and>
        (fragment = [] \<or> (\<exists>f. fragment = CHR ''#'' # f \<and> rfc_query f)))"

section \<open>Lemmas\<close>

subsection \<open>Cutting\<close>

lemma cut_first_Some: "cut_first s c = Some (a, b) \<longleftrightarrow> s = a @ c # b \<and> c \<notin> set a"
proof
  assume *: "cut_first s c = Some (a, b)"
  then have c: "c \<in> set s" and a: "a = takeWhile (\<lambda>x. x \<noteq> c) s" and b: "b = tl (dropWhile (\<lambda>x. x \<noteq> c) s)"
    by (auto simp: cut_first_def split: if_splits)
  have "dropWhile (\<lambda>x. x \<noteq> c) s \<noteq> []" using c by (auto simp: dropWhile_eq_Nil_conv)
  then have "dropWhile (\<lambda>x. x \<noteq> c) s = c # b" unfolding b using hd_dropWhile [of "\<lambda>x. x \<noteq> c" s] by (metis list.collapse)
  then show "s = a @ c # b \<and> c \<notin> set a" unfolding a using takeWhile_dropWhile_id [of "\<lambda>x. x \<noteq> c" s] set_takeWhileD by metis
next
  assume "s = a @ c # b \<and> c \<notin> set a"
  then show "cut_first s c = Some (a, b)"
    by (auto simp: cut_first_def takeWhile_tail dropWhile_append)
qed

lemma cut_first_None: "cut_first s c = None \<longleftrightarrow> c \<notin> set s"
  by (simp add: cut_first_def)

lemma cut_last_Some: "cut_last s c = Some (a, b) \<longleftrightarrow> s = a @ c # b \<and> c \<notin> set b"
proof -
  have "cut_last s c = Some (a, b) \<longleftrightarrow> cut_first (rev s) c = Some (rev b, rev a)"
    by (auto simp: cut_last_def)
  also have "\<dots> \<longleftrightarrow> s = a @ c # b \<and> c \<notin> set b"
    unfolding cut_first_Some by (metis append.assoc append_Cons append_Nil rev_append rev_rev_ident rev_singleton_conv rev_swap set_rev rev.simps(2))
  finally show ?thesis .
qed

lemma cut_last_None: "cut_last s c = None \<longleftrightarrow> c \<notin> set s"
  by (simp add: cut_last_def cut_first_None)

subsection \<open>Components\<close>

lemma percent_unusual [simp]:
  "\<not> isASCIIAlpha (CHR ''%'')" "\<not> is_ascii_digit (CHR ''%'')" "CHR ''%'' \<notin> set subDelims"
  by (simp_all add: isASCIIAlpha_def is_ascii_digit_def subDelims_def)

lemma validURIComponent_iff:
  assumes "CHR ''%'' \<notin> set allowed"
  shows "validURIComponent s allowed \<longleftrightarrow> encoded_chars (\<lambda>c. unreserved c \<or> c \<in> set allowed) s"
proof
  show "validURIComponent s allowed \<Longrightarrow> encoded_chars (\<lambda>c. unreserved c \<or> c \<in> set allowed) s"
  proof (induction s allowed rule: validURIComponent.induct)
    case (2 c s allowed)
    show ?case
    proof (cases "unreserved c \<or> c \<in> set allowed")
      case True
      then show ?thesis using 2 by (intro encoded_char) (auto simp: validURIComponent_Cons unreserved_def)
    next
      case False
      then obtain a b rest where "s = a # b # rest" "c = CHR ''%''" "isASCIIHex a" "isASCIIHex b" "validURIComponent rest allowed"
        using 2(3) by (auto simp: validURIComponent_Cons unreserved_def split: list.splits)
      then show ?thesis using 2(2) [of a "b # rest" b rest] False by (auto simp: unreserved_def intro: encoded_octet)
    qed
  qed (rule encoded_nil)
  show "encoded_chars (\<lambda>c. unreserved c \<or> c \<in> set allowed) s \<Longrightarrow> validURIComponent s allowed"
    by (induction s rule: encoded_chars.induct) (use assms in \<open>auto simp: unreserved_def validURIComponent_Cons\<close>)
qed

lemma encoded_chars_set: "encoded_chars P s \<Longrightarrow> c \<in> set s \<Longrightarrow> P c \<or> c = CHR ''%'' \<or> isASCIIHex c"
  by (induction s rule: encoded_chars.induct) auto

lemma encoded_chars_mono: "encoded_chars P s \<Longrightarrow> (\<And>c. P c \<Longrightarrow> Q c) \<Longrightarrow> encoded_chars Q s"
  by (induction s rule: encoded_chars.induct) (auto intro: encoded_chars.intros)

lemma encoded_chars_append: "encoded_chars P s \<Longrightarrow> encoded_chars P t \<Longrightarrow> encoded_chars P (s @ t)"
  by (induction s rule: encoded_chars.induct) (auto intro: encoded_chars.intros)

lemma encoded_chars_all: "(\<forall>c\<in>set s. P c) \<Longrightarrow> encoded_chars P s"
  by (induction s) (auto intro: encoded_chars.intros)

lemma encoded_chars_plain: "encoded_chars P s \<Longrightarrow> CHR ''%'' \<notin> set s \<Longrightarrow> (\<forall>c\<in>set s. P c)"
  by (induction s rule: encoded_chars.induct) auto

definition gen_delim :: "char \<Rightarrow> bool" where
  "gen_delim c \<longleftrightarrow> c \<in> set '':/?#[]@''"

lemma gen_delims [simp]:
  "gen_delim (CHR '':'')" "gen_delim (CHR ''/'')" "gen_delim (CHR ''?'')" "gen_delim (CHR ''#'')" "gen_delim (CHR ''['')"
  "gen_delim (CHR '']'')" "gen_delim (CHR ''@'')" "\<not> gen_delim (CHR ''.'')" "\<not> gen_delim (CHR ''%'')" "\<not> gen_delim (CHR ''v'')" "\<not> gen_delim (CHR ''V'')"
  by (simp_all add: gen_delim_def)

lemma delimiters [simp]:
  "gen_delim c \<Longrightarrow> \<not> unreserved c" "gen_delim c \<Longrightarrow> \<not> sub_delim c" "gen_delim c \<Longrightarrow> \<not> isASCIIHex c" "gen_delim c \<Longrightarrow> \<not> is_ascii_digit c"
  "gen_delim c \<Longrightarrow> \<not> isASCIIAlpha c"
  by (auto simp: unreserved_def isASCIIAlpha_def is_ascii_digit_def sub_delim_def subDelims_def isASCIIHex_def gen_delim_def)

lemma encoded_chars_avoid:
  "encoded_chars P s \<Longrightarrow> gen_delim c \<Longrightarrow> \<not> P c \<Longrightarrow> c \<notin> set s"
  using encoded_chars_set [of P s c] by auto

subsection \<open>Hosts\<close>

definition IPv6_text :: "identity_lib \<Rightarrow> string \<Rightarrow> bool" where
  "IPv6_text lib l \<longleftrightarrow> (\<exists>address. netip_ParseAddr lib l = Some address \<and> na_Is6 address \<and> na_Zone address = [])"

text \<open>What is used of \<open>netip.ParseAddr\<close>: IPv6 addresses without a zone are written with hexadecimal digits, colons and dots.\<close>

definition netip_ok :: "identity_lib \<Rightarrow> bool" where
  "netip_ok lib \<longleftrightarrow> (\<forall>l. IPv6_text lib l \<longrightarrow> (\<forall>c\<in>set l. isASCIIHex c \<or> c = CHR '':'' \<or> c = CHR ''.''))"

lemma not_hex_v [simp]: "\<not> isASCIIHex (CHR ''v'')" "\<not> isASCIIHex (CHR ''V'')" "\<not> isASCIIHex (CHR ''.'')"
  by (simp_all add: isASCIIHex_def is_ascii_digit_def)

lemma IPvFuture_iff:
  "IPvFuture s \<longleftrightarrow> 3 \<le> length s \<and> hd s \<in> set ''vV'' \<and>
     (\<exists>version address. cut_first s (CHR ''.'') = Some (version, address) \<and> 2 \<le> length version \<and> address \<noteq> [] \<and>
        list_all isASCIIHex (tl version) \<and> validURIComponent address (subDelims @ '':'') \<and> CHR ''%'' \<notin> set address)"
proof
  assume "IPvFuture s"
  then obtain x h a where s: "s = x # h @ ''.'' @ a" "x \<in> set ''vV''" "h \<noteq> []" "\<forall>c\<in>set h. isASCIIHex c" "a \<noteq> []"
      "\<forall>c\<in>set a. unreserved c \<or> sub_delim c \<or> c = CHR '':''"
    unfolding IPvFuture_def by blast
  have "cut_first s (CHR ''.'') = Some (x # h, a)" unfolding cut_first_Some using s(1,2,4) by auto
  moreover have "validURIComponent a (subDelims @ '':'')"
    using encoded_chars_all [OF s(6)] by (subst validURIComponent_iff) (auto elim!: encoded_chars_mono simp: sub_delim_def)
  moreover have "CHR ''%'' \<notin> set a" using s(6) by (auto simp: unreserved_def sub_delim_def)
  moreover have "3 \<le> length s" "2 \<le> length (x # h)" using s(1,3,5) by (cases h; cases a; simp)+
  ultimately show "3 \<le> length s \<and> hd s \<in> set ''vV'' \<and>
     (\<exists>version address. cut_first s (CHR ''.'') = Some (version, address) \<and> 2 \<le> length version \<and> address \<noteq> [] \<and>
        list_all isASCIIHex (tl version) \<and> validURIComponent address (subDelims @ '':'') \<and> CHR ''%'' \<notin> set address)"
    using s(1,2,4,5) by (auto simp: list_all_iff)
next
  assume "3 \<le> length s \<and> hd s \<in> set ''vV'' \<and>
     (\<exists>version address. cut_first s (CHR ''.'') = Some (version, address) \<and> 2 \<le> length version \<and> address \<noteq> [] \<and>
        list_all isASCIIHex (tl version) \<and> validURIComponent address (subDelims @ '':'') \<and> CHR ''%'' \<notin> set address)"
  then obtain version address where *: "hd s \<in> set ''vV''" "s = version @ CHR ''.'' # address" "2 \<le> length version" "address \<noteq> []"
      "list_all isASCIIHex (tl version)" "validURIComponent address (subDelims @ '':'')" "CHR ''%'' \<notin> set address"
    unfolding cut_first_Some by blast
  obtain x h where v: "version = x # h" "h \<noteq> []" using *(3) by (cases version; cases "tl version") auto
  have "\<forall>c\<in>set address. unreserved c \<or> sub_delim c \<or> c = CHR '':''"
    using *(6) encoded_chars_plain [OF _ *(7)] by (subst (asm) validURIComponent_iff) (auto simp: sub_delim_def)
  then show "IPvFuture s" unfolding IPvFuture_def using *(1,2,4,5) v
    by (intro exI [of _ x] exI [of _ h] exI [of _ address]) (auto simp: list_all_iff)
qed

lemma IPLiteral_iff: "netip_ok lib \<Longrightarrow> validURIIPLiteral lib l \<longleftrightarrow> IPv6_text lib l \<or> IPvFuture l"
proof -
  assume ok: "netip_ok lib"
  have no: "\<not> IPv6_text lib l" if "3 \<le> length l" "hd l \<in> set ''vV''"
    using ok that by (cases l) (auto simp: netip_ok_def)
  show ?thesis
  proof (cases "3 \<le> length l \<and> hd l \<in> set ''vV''")
    case True
    then show ?thesis using no unfolding IPvFuture_iff validURIIPLiteral_def
      by (cases "cut_first l (CHR ''.'')") auto
  next
    case False
    then show ?thesis unfolding IPvFuture_iff validURIIPLiteral_def IPv6_text_def by (auto split: option.splits)
  qed
qed

lemma port_iff: "validURIPort p \<longleftrightarrow> p = [] \<or> (\<exists>d. p = CHR '':'' # d \<and> (\<forall>c\<in>set d. is_ascii_digit c))"
  by (cases p) (auto simp: validURIPort_def list_all_iff)

lemma literal_chars:
  "netip_ok lib \<Longrightarrow> IPv6_text lib l \<or> IPvFuture l \<Longrightarrow> c \<in> set l \<Longrightarrow> gen_delim c \<Longrightarrow> c = CHR '':''"
  unfolding netip_ok_def IPvFuture_def by (elim disjE exE conjE) (fastforce, fastforce)

lemma regname_component: "validURIComponent h subDelims \<longleftrightarrow> encoded_chars (\<lambda>c. unreserved c \<or> sub_delim c) h"
  by (subst validURIComponent_iff) (simp_all add: sub_delim_def)

lemma host_and_port_iff:
  assumes "netip_ok lib"
  shows "valid_host_and_port lib s \<longleftrightarrow> (\<exists>h p. s = h @ p \<and> rfc_host (IPv6_text lib) h \<and> validURIPort p)"
proof
  assume v: "valid_host_and_port lib s"
  show "\<exists>h p. s = h @ p \<and> rfc_host (IPv6_text lib) h \<and> validURIPort p"
  proof (cases "strings_HasPrefix s ''[''")
    case True
    then obtain bracketed port where c: "s = bracketed @ CHR '']'' # port" "validURIIPLiteral lib (tl bracketed)" "validURIPort port"
      using v by (auto simp: valid_host_and_port_def cut_last_Some split: option.splits)
    have "hd s = CHR ''[''" using True by (cases s) (auto simp: strings_HasPrefix_def)
    then have "bracketed = CHR ''['' # tl bracketed" using c(1) by (cases bracketed) auto
    then have "s = (''['' @ tl bracketed @ '']'') @ port" using c(1) by (metis append.assoc append_Cons append_Nil)
    then show ?thesis using c(2,3) IPLiteral_iff [OF assms] unfolding rfc_host_def by blast
  next
    case False
    show ?thesis
    proof (cases "cut_last s (CHR '':'')")
      case None
      then have "rfc_host (IPv6_text lib) s \<and> validURIPort []"
        using v False unfolding valid_host_and_port_def None by (auto simp: rfc_host_def regname_component split: if_splits)
      then show ?thesis by (intro exI [of _ s] exI [of _ "[]"]) simp
    next
      case (Some hp)
      obtain h p where hp: "hp = (h, p)" by (cases hp)
      have "rfc_host (IPv6_text lib) h \<and> validURIPort (CHR '':'' # p)"
        using v False unfolding valid_host_and_port_def Some hp by (auto simp: rfc_host_def regname_component split: if_splits)
      moreover have "s = h @ CHR '':'' # p" using Some unfolding hp cut_last_Some by simp
      ultimately show ?thesis by blast
    qed
  qed
next
  assume "\<exists>h p. s = h @ p \<and> rfc_host (IPv6_text lib) h \<and> validURIPort p"
  then obtain h p where s: "s = h @ p" "rfc_host (IPv6_text lib) h" "validURIPort p" by blast
  have p: "CHR '']'' \<notin> set p" "CHR ''['' \<notin> set p" using s(3) by (fastforce simp: port_iff)+
  from s(2) consider l where "h = ''['' @ l @ '']''" "IPv6_text lib l \<or> IPvFuture l" | "encoded_chars (\<lambda>c. unreserved c \<or> sub_delim c) h"
    unfolding rfc_host_def by blast
  then show "valid_host_and_port lib s"
  proof cases
    case 1
    then have "cut_last s (CHR '']'') = Some (CHR ''['' # l, p)" unfolding cut_last_Some s(1) using p by simp
    then show ?thesis using 1 s IPLiteral_iff [OF assms] by (simp add: valid_host_and_port_def strings_HasPrefix_def)
  next
    case 2
    have h: "CHR ''['' \<notin> set h" "CHR '']'' \<notin> set h" "CHR '':'' \<notin> set h"
      using encoded_chars_avoid [OF 2] by simp_all
    have "CHR ''['' \<notin> set s" using h(1) p(2) s(1) by simp
    then have "\<not> strings_HasPrefix s ''[''" by (cases s) (auto simp: strings_HasPrefix_def)
    moreover have "\<not> strings_ContainsAny s ''[]''" using h p s(1) by (auto simp: strings_ContainsAny_def list_ex_iff)
    moreover have "p = [] \<and> cut_last s (CHR '':'') = None \<or> (\<exists>d. p = CHR '':'' # d \<and> cut_last s (CHR '':'') = Some (h, d))"
      using s(1,3) h(3) by (fastforce simp: port_iff cut_last_Some cut_last_None)
    ultimately show ?thesis using s h(3) 2 by (auto simp: valid_host_and_port_def regname_component)
  qed
qed

lemma host_chars:
  assumes "netip_ok lib" "rfc_host (IPv6_text lib) h" "gen_delim c" "c \<notin> set '':[]''"
  shows "c \<notin> set h"
  using assms(2) unfolding rfc_host_def
proof
  assume "\<exists>l. h = ''['' @ l @ '']'' \<and> (IPv6_text lib l \<or> IPvFuture l)"
  then obtain l where l: "h = ''['' @ l @ '']''" "IPv6_text lib l \<or> IPvFuture l" by blast
  then show ?thesis using literal_chars [OF assms(1) l(2), of c] assms(3,4) by auto
qed (use encoded_chars_avoid [of "\<lambda>c. unreserved c \<or> sub_delim c" h c] assms(3) in auto)

lemma port_chars: "validURIPort p \<Longrightarrow> gen_delim c \<Longrightarrow> c \<noteq> CHR '':'' \<Longrightarrow> c \<notin> set p"
  by (fastforce simp: port_iff)

lemma userinfo_component:
  "validURIComponent u (subDelims @ '':'') \<longleftrightarrow> encoded_chars (\<lambda>c. unreserved c \<or> sub_delim c \<or> c = CHR '':'') u"
  by (subst validURIComponent_iff) (simp_all add: sub_delim_def disj_ac)

lemma authority_iff:
  assumes "netip_ok lib"
  shows "validURIAuthority lib v \<longleftrightarrow> rfc_authority (IPv6_text lib) v"
proof
  assume "validURIAuthority lib v"
  then show "rfc_authority (IPv6_text lib) v"
  proof (cases "cut_last v (CHR ''@'')")
    case None
    then have "valid_host_and_port lib v" using \<open>validURIAuthority lib v\<close> by (simp add: validURIAuthority_def)
    then show ?thesis unfolding rfc_authority_def host_and_port_iff [OF assms] port_iff by (metis append_Nil)
  next
    case (Some uh)
    obtain u hp where uh: "uh = (u, hp)" by (cases uh)
    have v: "v = u @ CHR ''@'' # hp" "encoded_chars (\<lambda>c. unreserved c \<or> sub_delim c \<or> c = CHR '':'') u" "valid_host_and_port lib hp"
      using \<open>validURIAuthority lib v\<close> Some unfolding uh validURIAuthority_def by (auto simp: cut_last_Some userinfo_component)
    obtain h p where hp: "hp = h @ p" "rfc_host (IPv6_text lib) h" "validURIPort p"
      using v(3) unfolding host_and_port_iff [OF assms] by blast
    have "v = (u @ ''@'') @ h @ p" using v(1) hp(1) by simp
    then show ?thesis unfolding rfc_authority_def port_iff [symmetric] using v(2) hp(2,3)
      by (intro exI [of _ "u @ ''@''"] exI [of _ h] exI [of _ p]) blast
  qed
next
  assume "rfc_authority (IPv6_text lib) v"
  then obtain ui h p where v: "v = ui @ h @ p" "rfc_host (IPv6_text lib) h" "validURIPort p"
      "ui = [] \<or> (\<exists>u. ui = u @ ''@'' \<and> encoded_chars (\<lambda>c. unreserved c \<or> sub_delim c \<or> c = CHR '':'') u)"
    unfolding rfc_authority_def port_iff by blast
  have at: "CHR ''@'' \<notin> set (h @ p)" using host_chars [OF assms v(2), of "CHR ''@''"] port_chars [OF v(3)] by simp
  have hp: "valid_host_and_port lib (h @ p)" unfolding host_and_port_iff [OF assms] using v(2,3) by blast
  from v(4) show "validURIAuthority lib v"
  proof
    assume "ui = []"
    then show ?thesis using v(1) at hp by (simp add: validURIAuthority_def cut_last_None [THEN iffD2])
  next
    assume "\<exists>u. ui = u @ ''@'' \<and> encoded_chars (\<lambda>c. unreserved c \<or> sub_delim c \<or> c = CHR '':'') u"
    then obtain u where u: "ui = u @ ''@''" "encoded_chars (\<lambda>c. unreserved c \<or> sub_delim c \<or> c = CHR '':'') u" by blast
    have "cut_last v (CHR ''@'') = Some (u, h @ p)" unfolding cut_last_Some using v(1) u(1) at by simp
    then show ?thesis using hp u(2) by (simp add: validURIAuthority_def userinfo_component)
  qed
qed

lemma authority_chars:
  assumes "netip_ok lib" "rfc_authority (IPv6_text lib) a" "gen_delim c" "c \<notin> set '':[]@''"
  shows "c \<notin> set a"
proof -
  obtain ui h p where v: "a = ui @ h @ p" "rfc_host (IPv6_text lib) h" "validURIPort p"
      "ui = [] \<or> (\<exists>u. ui = u @ ''@'' \<and> encoded_chars (\<lambda>c. unreserved c \<or> sub_delim c \<or> c = CHR '':'') u)"
    using assms(2) unfolding rfc_authority_def port_iff by blast
  have "c \<notin> set u" if "encoded_chars (\<lambda>c. unreserved c \<or> sub_delim c \<or> c = CHR '':'') u" for u
    using encoded_chars_avoid [OF that assms(3)] assms(3,4) by auto
  then show ?thesis using v host_chars [OF assms(1) v(2) assms(3)] port_chars [OF v(3) assms(3)] assms(4) by auto
qed

subsection \<open>Paths\<close>

lemma path_component:
  "validURIComponent p (subDelims @ '':@/'') \<longleftrightarrow> encoded_chars (\<lambda>c. pchar c \<or> c = CHR ''/'') p"
  by (subst validURIComponent_iff) (simp_all add: sub_delim_def pchar_def disj_ac)

lemma segment_chars: "rfc_segment s \<Longrightarrow> c \<in> set ''/?#'' \<Longrightarrow> c \<notin> set s"
  unfolding rfc_segment_def by (rule encoded_chars_avoid) (auto simp: pchar_def)

lemma slashed_Nil [simp]: "slashed [] = []" "slashed (s # segs) = CHR ''/'' # s @ slashed segs"
  by (simp_all add: slashed_def)

text \<open>A string of path characters and slashes is a segment followed by segments after slashes.\<close>

lemma path_segments:
  "encoded_chars (\<lambda>c. pchar c \<or> c = CHR ''/'') p \<longleftrightarrow> (\<exists>s segs. p = s @ slashed segs \<and> rfc_segment s \<and> (\<forall>s\<in>set segs. rfc_segment s))"
proof
  assume "encoded_chars (\<lambda>c. pchar c \<or> c = CHR ''/'') p"
  then show "\<exists>s segs. p = s @ slashed segs \<and> rfc_segment s \<and> (\<forall>s\<in>set segs. rfc_segment s)"
  proof (induction p rule: encoded_chars.induct)
    case encoded_nil
    then show ?case by (intro exI [of _ "[]"]) (simp add: rfc_segment_def encoded_chars.encoded_nil)
  next
    case (encoded_char c p)
    then obtain s segs where p: "p = s @ slashed segs" "rfc_segment s" "\<forall>s\<in>set segs. rfc_segment s" by blast
    show ?case
    proof (cases "c = CHR ''/''")
      case True
      then have "c # p = [] @ slashed (s # segs)" using p(1) by simp
      moreover have "rfc_segment []" by (simp add: rfc_segment_def encoded_chars.encoded_nil)
      ultimately show ?thesis using p(2,3) by (metis set_ConsD)
    next
      case False
      then have "rfc_segment (c # s)" using encoded_char(1) p(2) unfolding rfc_segment_def by (auto intro: encoded_chars.encoded_char)
      then show ?thesis using p by (metis append_Cons)
    qed
  next
    case (encoded_octet a b p)
    then obtain s segs where p: "p = s @ slashed segs" "rfc_segment s" "\<forall>s\<in>set segs. rfc_segment s" by blast
    have "rfc_segment (CHR ''%'' # a # b # s)"
      using encoded_octet(1,2) p(2) unfolding rfc_segment_def by (auto intro: encoded_chars.encoded_octet)
    then show ?case using p by (metis append_Cons)
  qed
next
  assume "\<exists>s segs. p = s @ slashed segs \<and> rfc_segment s \<and> (\<forall>s\<in>set segs. rfc_segment s)"
  then obtain s segs where p: "p = s @ slashed segs" "rfc_segment s" "\<forall>s\<in>set segs. rfc_segment s" by blast
  have mono: "rfc_segment s \<Longrightarrow> encoded_chars (\<lambda>c. pchar c \<or> c = CHR ''/'') s" for s
    unfolding rfc_segment_def by (erule encoded_chars_mono) simp
  have "encoded_chars (\<lambda>c. pchar c \<or> c = CHR ''/'') (slashed segs)"
    using p(3)
  proof (induction segs)
    case (Cons s segs)
    then show ?case by (auto intro: encoded_char encoded_chars_append mono)
  qed (simp add: encoded_nil)
  then show "encoded_chars (\<lambda>c. pchar c \<or> c = CHR ''/'') p" unfolding p(1) using mono [OF p(2)] by (rule encoded_chars_append [rotated])
qed

lemma abempty_iff: "path_abempty p \<longleftrightarrow> encoded_chars (\<lambda>c. pchar c \<or> c = CHR ''/'') p \<and> (p = [] \<or> hd p = CHR ''/'')"
proof
  assume "path_abempty p"
  then obtain segs where p: "p = slashed segs" "\<forall>s\<in>set segs. rfc_segment s" unfolding path_abempty_def by blast
  have "rfc_segment []" by (simp add: rfc_segment_def encoded_chars.encoded_nil)
  then show "encoded_chars (\<lambda>c. pchar c \<or> c = CHR ''/'') p \<and> (p = [] \<or> hd p = CHR ''/'')"
    unfolding path_segments using p by (cases segs) (fastforce intro: exI [of _ "[]"])+
next
  assume *: "encoded_chars (\<lambda>c. pchar c \<or> c = CHR ''/'') p \<and> (p = [] \<or> hd p = CHR ''/'')"
  then obtain s segs where p: "p = s @ slashed segs" "rfc_segment s" "\<forall>s\<in>set segs. rfc_segment s" unfolding path_segments by blast
  then have "s = []" using * segment_chars [OF p(2), of "CHR ''/''"] by (cases s) auto
  then show "path_abempty p" unfolding path_abempty_def using p by auto
qed

lemma rootless_iff: "path_rootless p \<longleftrightarrow> encoded_chars (\<lambda>c. pchar c \<or> c = CHR ''/'') p \<and> p \<noteq> [] \<and> hd p \<noteq> CHR ''/''"
proof
  assume "path_rootless p"
  then obtain s segs where p: "p = s @ slashed segs" "s \<noteq> []" "rfc_segment s" "\<forall>s\<in>set segs. rfc_segment s"
    unfolding path_rootless_def by blast
  then have "hd p \<noteq> CHR ''/''" using segment_chars [OF p(3), of "CHR ''/''"] by (cases s) auto
  then show "encoded_chars (\<lambda>c. pchar c \<or> c = CHR ''/'') p \<and> p \<noteq> [] \<and> hd p \<noteq> CHR ''/''" unfolding path_segments using p by auto
next
  assume *: "encoded_chars (\<lambda>c. pchar c \<or> c = CHR ''/'') p \<and> p \<noteq> [] \<and> hd p \<noteq> CHR ''/''"
  then obtain s segs where p: "p = s @ slashed segs" "rfc_segment s" "\<forall>s\<in>set segs. rfc_segment s" unfolding path_segments by blast
  then have "s \<noteq> []" using * by (cases segs) auto
  then show "path_rootless p" unfolding path_rootless_def using p by blast
qed

lemma slash_encoded:
  "encoded_chars (\<lambda>c. pchar c \<or> c = CHR ''/'') (CHR ''/'' # p) \<longleftrightarrow> encoded_chars (\<lambda>c. pchar c \<or> c = CHR ''/'') p"
  by (auto elim: encoded_ConsE intro: encoded_char)

lemma hier_part_iff:
  assumes "netip_ok lib"
  shows "validURIHierPart lib s \<longleftrightarrow> hier_part (IPv6_text lib) s"
proof (cases "strings_HasPrefix s ''//''")
  case True
  then obtain r where s: "s = CHR ''/'' # CHR ''/'' # r"
    by (cases s; cases "tl s") (auto simp: strings_HasPrefix_def)
  have no: "\<not> path_absolute s" "\<not> path_rootless s" "s \<noteq> []" using s by (auto simp: path_absolute_def rootless_iff)
  show ?thesis
  proof (cases "cut_first r (CHR ''/'')")
    case None
    have "a = r \<and> p = []" if "r = a @ p" "path_abempty p" for a p
      using that None by (cases p) (auto simp: abempty_iff cut_first_None)
    moreover have "path_abempty []" by (simp add: abempty_iff encoded_nil)
    ultimately have "hier_part (IPv6_text lib) s \<longleftrightarrow> rfc_authority (IPv6_text lib) r"
      unfolding hier_part_def using no s by (metis append.right_neutral append_Cons append_Nil list.inject)
    then show ?thesis using True None s by (simp add: validURIHierPart_def authority_iff [OF assms])
  next
    case (Some x)
    then obtain a p where x: "cut_first r (CHR ''/'') = Some (a, p)" by (cases x) auto
    have r: "r = a @ CHR ''/'' # p" "CHR ''/'' \<notin> set a" using x unfolding cut_first_Some by simp_all
    have split: "a' = a \<and> p' = CHR ''/'' # p" if "r = a' @ p'" "rfc_authority (IPv6_text lib) a'" "path_abempty p'" for a' p'
    proof -
      have "CHR ''/'' \<notin> set a'" using authority_chars [OF assms that(2)] by simp
      then obtain q where "p' = CHR ''/'' # q" using \<open>r = a' @ p'\<close> \<open>path_abempty p'\<close> r by (cases p') (auto simp: abempty_iff)
      then have "cut_first r (CHR ''/'') = Some (a', q)" unfolding cut_first_Some using \<open>r = a' @ p'\<close> \<open>p' = CHR ''/'' # q\<close> \<open>CHR ''/'' \<notin> set a'\<close> by simp
      then show ?thesis using x \<open>p' = CHR ''/'' # q\<close> by simp
    qed
    have "hier_part (IPv6_text lib) s \<longleftrightarrow> rfc_authority (IPv6_text lib) a \<and> path_abempty (CHR ''/'' # p)"
      unfolding hier_part_def using no s r split by (metis append_Cons append_Nil list.inject)
    also have "\<dots> \<longleftrightarrow> rfc_authority (IPv6_text lib) a \<and> encoded_chars (\<lambda>c. pchar c \<or> c = CHR ''/'') (CHR ''/'' # p)"
      by (simp add: abempty_iff)
    finally show ?thesis using True x s by (simp add: validURIHierPart_def authority_iff [OF assms] path_component)
  qed
next
  case False
  have "\<not> (\<exists>r. s = CHR ''/'' # CHR ''/'' # r)" using False by (auto simp: strings_HasPrefix_def)
  then have "hier_part (IPv6_text lib) s \<longleftrightarrow> s = [] \<or> path_absolute s \<or> path_rootless s" unfolding hier_part_def by auto
  also have "\<dots> \<longleftrightarrow> encoded_chars (\<lambda>c. pchar c \<or> c = CHR ''/'') s"
    using \<open>\<not> (\<exists>r. s = CHR ''/'' # CHR ''/'' # r)\<close>
    by (cases s; cases "tl s") (auto simp: path_absolute_def rootless_iff slash_encoded encoded_nil)
  finally show ?thesis using False by (simp add: validURIHierPart_def path_component)
qed

lemma hier_part_chars:
  assumes "netip_ok lib" "hier_part (IPv6_text lib) s" "c \<in> set ''?#''"
  shows "c \<notin> set s"
proof -
  have path: "c \<notin> set p" if "encoded_chars (\<lambda>c. pchar c \<or> c = CHR ''/'') p" for p
    using encoded_chars_avoid [OF that, of c] assms(3) by (auto simp: pchar_def)
  have "c \<notin> set a" if "rfc_authority (IPv6_text lib) a" for a
    using authority_chars [OF assms(1) that, of c] assms(3) by auto
  then show ?thesis using assms(2,3) path
    unfolding hier_part_def path_absolute_def abempty_iff rootless_iff by auto
qed

lemma query_component: "validURIComponent q (subDelims @ '':@/?'') \<longleftrightarrow> rfc_query q"
  unfolding rfc_query_def by (subst validURIComponent_iff) (simp_all add: sub_delim_def pchar_def disj_ac)

lemma scheme_iff: "validURIScheme s \<longleftrightarrow> rfc_scheme s"
  by (cases s) (auto simp: validURIScheme_def rfc_scheme_def list_all_iff)

lemma scheme_chars: "rfc_scheme s \<Longrightarrow> CHR '':'' \<notin> set s"
  by (fastforce simp: rfc_scheme_def)

lemma rfc_query_nil [simp]: "rfc_query []"
  by (simp add: rfc_query_def encoded_nil)

lemma query_chars: "rfc_query q \<Longrightarrow> CHR ''#'' \<notin> set q"
  unfolding rfc_query_def by (rule encoded_chars_avoid) (auto simp: pchar_def)

lemma cut_optional:
  "(case cut_first s c of None \<Rightarrow> (s, []) | Some p \<Rightarrow> p) = (a, b) \<longleftrightarrow>
     c \<notin> set a \<and> (s = a \<and> b = [] \<or> s = a @ c # b)"
proof (cases "cut_first s c")
  case None
  then have "c \<notin> set s" by (simp add: cut_first_None)
  then show ?thesis unfolding None option.case by auto
next
  case (Some p)
  obtain x y where p: "p = (x, y)" by (cases p)
  have s: "s = x @ c # y" "c \<notin> set x" using Some unfolding p cut_first_Some by simp_all
  have "s = a @ c # b \<and> c \<notin> set a \<longleftrightarrow> (x, y) = (a, b)" using Some unfolding p by (metis cut_first_Some option.inject)
  then show ?thesis unfolding Some p using s by auto
qed

section \<open>Properties\<close>

text \<open>C17. The check of URIs. Whatever string is given, the syntax check in front of the URI names of a certificate request
  accepts it exactly when it is a URI of the grammar of RFC 3986, with scheme, authority, path, query and fragment as the RFC
  defines them. Of the library, only the characters of IPv6 addresses are used.\<close>

theorem uri_syntax_is_rfc3986:
  assumes "netip_ok lib"
  shows "validAbsoluteURISyntax lib v \<longleftrightarrow> rfc_URI (IPv6_text lib) v"
proof
  assume v: "validAbsoluteURISyntax lib v"
  then obtain scheme r where c: "cut_first v (CHR '':'') = Some (scheme, r)" by (auto simp: validAbsoluteURISyntax_def split: option.splits)
  obtain r1 fragment where f: "(case cut_first r (CHR ''#'') of None \<Rightarrow> (r, []) | Some p \<Rightarrow> p) = (r1, fragment)" by fastforce
  obtain hier query where q: "(case cut_first r1 (CHR ''?'') of None \<Rightarrow> (r1, []) | Some p \<Rightarrow> p) = (hier, query)" by fastforce
  have ok: "rfc_scheme scheme" "hier_part (IPv6_text lib) hier" "rfc_query query" "rfc_query fragment"
    using v unfolding validAbsoluteURISyntax_def c Let_def option.case prod.case f q
    by (auto simp: scheme_iff hier_part_iff [OF assms] query_component split: if_splits)
  have "v = scheme @ '':'' @ r" using c unfolding cut_first_Some by simp
  moreover obtain fr where "r = r1 @ fr" "fr = [] \<or> (\<exists>x. fr = CHR ''#'' # x \<and> rfc_query x)"
    using f ok(4) unfolding cut_optional by (metis append.right_neutral)
  moreover obtain qu where "r1 = hier @ qu" "qu = [] \<or> (\<exists>x. qu = CHR ''?'' # x \<and> rfc_query x)"
    using q ok(3) unfolding cut_optional by (metis append.right_neutral)
  ultimately show "rfc_URI (IPv6_text lib) v" unfolding rfc_URI_def using ok(1,2)
    by (intro exI [of _ scheme] exI [of _ hier] exI [of _ qu] exI [of _ fr]) simp
next
  assume "rfc_URI (IPv6_text lib) v"
  then obtain scheme hier qu fr where v: "v = scheme @ '':'' @ hier @ qu @ fr" "rfc_scheme scheme" "hier_part (IPv6_text lib) hier"
      "qu = [] \<or> (\<exists>q. qu = CHR ''?'' # q \<and> rfc_query q)" "fr = [] \<or> (\<exists>f. fr = CHR ''#'' # f \<and> rfc_query f)"
    unfolding rfc_URI_def by blast
  have c: "cut_first v (CHR '':'') = Some (scheme, hier @ qu @ fr)" unfolding cut_first_Some using v(1) scheme_chars [OF v(2)] by simp
  have hier0: "CHR ''#'' \<notin> set hier" "CHR ''?'' \<notin> set hier" by (rule hier_part_chars [OF assms v(3)]; simp)+
  have "CHR ''#'' \<notin> set qu" using v(4) query_chars by auto
  then have hier: "CHR ''#'' \<notin> set (hier @ qu)" "CHR ''?'' \<notin> set hier" using hier0 by simp_all
  obtain fragment where f: "(case cut_first (hier @ qu @ fr) (CHR ''#'') of None \<Rightarrow> (hier @ qu @ fr, []) | Some p \<Rightarrow> p) = (hier @ qu, fragment)" "rfc_query fragment"
    unfolding cut_optional using hier(1) v(5) by auto
  obtain query where q: "(case cut_first (hier @ qu) (CHR ''?'') of None \<Rightarrow> (hier @ qu, []) | Some p \<Rightarrow> p) = (hier, query)" "rfc_query query"
    unfolding cut_optional using hier(2) v(4) by auto
  show "validAbsoluteURISyntax lib v"
    unfolding validAbsoluteURISyntax_def c Let_def option.case prod.case f(1) q(1)
    using v(2,3) f(2) q(2) by (simp add: scheme_iff hier_part_iff [OF assms] query_component)
qed

section \<open>Witnesses\<close>

definition demo_identity_lib :: identity_lib where
  "demo_identity_lib = \<lparr>netip_ParseAddr = (\<lambda>s. if s = ''::1'' then Some \<lparr>na_Is6 = True, na_Is4In6 = False, na_Zone = [], na_String = s,
       na_AsSlice = replicate 15 (CHR 0x00) @ [CHR 0x01]\<rparr> else None),
     mail_ParseAddress = (\<lambda>s. Some ([], s)), il_url_Parse = (\<lambda>s. Some \<lparr>uv_Scheme = ''https'', uv_String = s\<rparr>)\<rparr>"

lemma demo_netip_ok: "netip_ok demo_identity_lib"
  by (auto simp: netip_ok_def IPv6_text_def demo_identity_lib_def isASCIIHex_def is_ascii_digit_def split: if_splits)

theorem uri_syntax_is_rfc3986_witness:
  "rfc_URI (IPv6_text demo_identity_lib) ''https://u@[::1]:8443/a%20b?c#d'' \<and> \<not> rfc_URI (IPv6_text demo_identity_lib) ''https://a/b c''"
proof -
  have "validAbsoluteURISyntax demo_identity_lib ''https://u@[::1]:8443/a%20b?c#d''" "\<not> validAbsoluteURISyntax demo_identity_lib ''https://a/b c''"
    by code_simp+
  then show ?thesis using uri_syntax_is_rfc3986 [OF demo_netip_ok] by blast
qed

end
