(* ===== verification/Key_Material.thy ===== *)
theory Key_Material
  imports URI_Syntax "HOL-Library.Multiset" "HOL-Library.Monad_Syntax"
begin

text \<open>
  Generation of SSH key pairs and of certificate requests, \<open>ssh.go\<close> and \<open>x509.go\<close> of \<open>backend/internal/generate\<close>.

  Keys are values of a type \<open>'k\<close>, public keys of certificate requests of a type \<open>'p\<close>, public keys of SSH of a type \<open>'s\<close>,
  and the random source is a state \<open>'r\<close>. Generation and serialisation of keys, PEM, DER and X.509 are the packages
  \<open>crypto\<close>, \<open>encoding/pem\<close>, \<open>encoding/asn1\<close>, \<open>crypto/x509\<close> and \<open>golang.org/x/crypto/ssh\<close>: the parameter \<open>key_lib\<close>. Nothing is
  assumed of them: the code checks what they return, and the results say what these checks ensure.
\<close>

section \<open>Definitions\<close>

subsection \<open>Libraries\<close>

datatype SignatureAlgorithm = PureEd25519 | ECDSAWithSHA256 | ECDSAWithSHA384 | SHA256WithRSA | OtherSignatureAlgorithm nat

datatype curve = P256 | P384 | OtherCurve string

text \<open>What the code looks at in a public key: the length of an Ed25519 key, the curve of an ECDSA key (\<open>None\<close> when it is nil),
  the bits of an RSA modulus (\<open>None\<close> when it is nil).\<close>

datatype public_view = Ed25519View nat | ECDSAView "curve option" | RSAView "nat option" | OtherView

record pem_block =
  pb_Type :: string
  pb_Headers :: "(string \<times> string) list"
  pb_Bytes :: go_bytes

record pkix_name =
  xn_CommonName :: string
  xn_SerialNumber :: string
  xn_Country :: slice
  xn_Organization :: slice
  xn_OrganizationalUnit :: slice
  xn_Locality :: slice
  xn_Province :: slice
  xn_StreetAddress :: slice
  xn_PostalCode :: slice

record pkix_extension =
  ex_Id :: "nat list"
  ex_Critical :: bool
  ex_Value :: go_bytes

record raw_value =
  rv_Class :: int
  rv_Tag :: int
  rv_IsCompound :: bool
  rv_Bytes :: go_bytes
  rv_FullBytes :: go_bytes

record validatedX509CSR =
  vx_algorithm :: X509Algorithm
  vx_signatureAlgorithm :: SignatureAlgorithm
  vx_subject :: pkix_name
  vx_dnsNames :: "string list"
  vx_ipAddresses :: "go_bytes list"
  vx_emailAddresses :: "string list"
  vx_uris :: "url_value list"

record 'p certificate_request =
  cs_Raw :: go_bytes
  cs_RawTBSCertificateRequest :: go_bytes
  cs_RawSubjectPublicKeyInfo :: go_bytes
  cs_RawSubject :: go_bytes
  cs_RawSignatureAlgorithm :: go_bytes
  cs_Version :: int
  cs_Signature :: go_bytes
  cs_SignatureAlgorithm :: SignatureAlgorithm
  cs_PublicKey :: 'p
  cs_Subject :: pkix_name
  cs_DNSNames :: "string list"
  cs_EmailAddresses :: "string list"
  cs_IPAddresses :: "go_bytes list"
  cs_URIs :: "url_value list"
  cs_Extensions :: "pkix_extension list"

text \<open>\<open>pkix.AlgorithmIdentifier\<close>: the identifier and the encoding of the parameters. \<open>asn1.BitString\<close>: the length in bits, and
  the bytes aligned to the right.\<close>

record algorithm_identifier =
  ai_Algorithm :: "nat list"
  ai_Parameters :: go_bytes

record bit_string =
  bs_BitLength :: nat
  bs_RightAlign :: go_bytes

record rawX509CSR =
  rx_Raw :: go_bytes
  rx_info_Raw :: go_bytes
  rx_Version :: int
  rx_Subject :: go_bytes
  rx_PublicKey_Raw :: go_bytes
  rx_RawAttributes :: "raw_value list"
  rx_SignatureAlgorithm :: algorithm_identifier
  rx_SignatureValue :: bit_string

text \<open>\<open>None\<close> is an error. Parsing a private key may yield a key that is not a signer, \<open>Some None\<close>, and marshalling one a nil block.
  \<open>asn1.Unmarshal\<close> yields a value and the rest of the input.\<close>

record ('k, 'p, 's, 'r) key_lib =
  ed25519_GenerateKey :: "'r \<Rightarrow> 'k option \<times> 'r"
  ecdsa_GenerateKey :: "curve \<Rightarrow> 'r \<Rightarrow> 'k option \<times> 'r"
  rsa_GenerateKey :: "nat \<Rightarrow> 'r \<Rightarrow> 'k option \<times> 'r"
  key_Public :: "'k \<Rightarrow> public_view"
  pem_EncodeToMemory :: "pem_block \<Rightarrow> go_bytes"
  pem_Decode :: "go_bytes \<Rightarrow> (pem_block \<times> go_bytes) option"
  MarshalPKCS8PrivateKey :: "'k \<Rightarrow> go_bytes option"
  ParsePKCS8PrivateKey :: "go_bytes \<Rightarrow> 'k option option"
  MarshalPKIXPublicKey :: "'k \<Rightarrow> go_bytes option"
  ParsePKIXPublicKey :: "go_bytes \<Rightarrow> 'p option"
  CreateCertificateRequest :: "validatedX509CSR \<Rightarrow> 'k \<Rightarrow> 'r \<Rightarrow> go_bytes option \<times> 'r"
  ParseCertificateRequest :: "go_bytes \<Rightarrow> 'p certificate_request option"
  CheckSignature :: "'p certificate_request \<Rightarrow> bool"
  asn1_CSR :: "go_bytes \<Rightarrow> (rawX509CSR \<times> go_bytes) option"
  asn1_RDNSequence :: "go_bytes \<Rightarrow> (pkix_name \<times> go_bytes) option"
  asn1_Attribute :: "go_bytes \<Rightarrow> ((nat list \<times> raw_value list) \<times> go_bytes) option"
  asn1_Extensions :: "go_bytes \<Rightarrow> (pkix_extension list \<times> go_bytes) option"
  asn1_Names :: "go_bytes \<Rightarrow> (raw_value list \<times> go_bytes) option"
  asn1_Marshal :: "algorithm_identifier \<Rightarrow> go_bytes option"
  kl_sha256 :: "go_bytes \<Rightarrow> go_bytes"
  ssh_NewPublicKey :: "'k \<Rightarrow> 's option"
  ssh_Type :: "'s \<Rightarrow> string"
  ssh_Marshal :: "'s \<Rightarrow> go_bytes"
  ssh_ParseRawPrivateKey :: "go_bytes \<Rightarrow> 'k option option"
  ssh_MarshalAuthorizedKey :: "'s \<Rightarrow> go_bytes"
  ssh_FingerprintSHA256 :: "'s \<Rightarrow> string"

subsection \<open>Further parts of the standard library\<close>

text \<open>\<open>base64.RawStdEncoding\<close> has plus and slash where \<open>base64.RawURLEncoding\<close> has minus and underscore.\<close>

definition url_to_std :: "char \<Rightarrow> char" where
  "url_to_std c = (if c = CHR ''-'' then CHR ''+'' else if c = CHR ''_'' then CHR ''/'' else c)"

definition std_to_url :: "char \<Rightarrow> char" where
  "std_to_url c = (if c = CHR ''+'' then CHR ''-'' else if c = CHR ''/'' then CHR ''_'' else c)"

definition base64std_EncodeToString :: "go_bytes \<Rightarrow> string" where
  "base64std_EncodeToString bs = map url_to_std (base64_EncodeToString bs)"

definition base64std_DecodeString :: "string \<Rightarrow> go_bytes option" where
  "base64std_DecodeString s = (if strings_ContainsAny s ''-_'' then None else base64_DecodeString (map std_to_url s))"

definition oid_String :: "nat list \<Rightarrow> string" where
  "oid_String oid = strings_Join (map decimal oid) ''.''"

definition v4InV6Prefix :: go_bytes where
  "v4InV6Prefix = replicate 10 (CHR 0x00) @ [CHR 0xFF, CHR 0xFF]"

definition ip_To4 :: "go_bytes \<Rightarrow> go_bytes option" where
  "ip_To4 ip =
     (if length ip = 4 then Some ip
      else if length ip = 16 \<and> take 12 ip = v4InV6Prefix then Some (drop 12 ip) else None)"

definition ip_Equal :: "go_bytes \<Rightarrow> go_bytes \<Rightarrow> bool" where
  "ip_Equal ip x =
     (if length ip = length x then ip = x
      else if length ip = 4 \<and> length x = 16 then take 12 x = v4InV6Prefix \<and> ip = drop 12 x
      else if length ip = 16 \<and> length x = 4 then take 12 ip = v4InV6Prefix \<and> drop 12 ip = x
      else False)"

subsection \<open>SSH key pairs\<close>

definition openSSHPrivateKeyPEMType :: string where "openSSHPrivateKeyPEMType = ''OPENSSH PRIVATE KEY''"

definition validSSHAlgorithm :: "SSHAlgorithm \<Rightarrow> bool" where
  "validSSHAlgorithm algorithm = (case algorithm of SSHAlgorithmOther _ \<Rightarrow> False | _ \<Rightarrow> True)"

definition generateSSHPrivateKey :: "('k, 'p, 's, 'r) key_lib \<Rightarrow> 'r \<Rightarrow> SSHAlgorithm \<Rightarrow> 'k option \<times> 'r" where
  "generateSSHPrivateKey lib random algorithm =
     (case algorithm of
        SSHAlgorithmEd25519 \<Rightarrow> ed25519_GenerateKey lib random
      | SSHAlgorithmECDSAP256 \<Rightarrow> ecdsa_GenerateKey lib P256 random
      | SSHAlgorithmRSA3072 \<Rightarrow> rsa_GenerateKey lib 3072 random
      | SSHAlgorithmRSA4096 \<Rightarrow> rsa_GenerateKey lib 4096 random
      | SSHAlgorithmOther _ \<Rightarrow> (None, random))"

definition sshPublicKeyMatchesAlgorithm :: "public_view \<Rightarrow> SSHAlgorithm \<Rightarrow> bool" where
  "sshPublicKeyMatchesAlgorithm publicKey algorithm =
     (case algorithm of
        SSHAlgorithmEd25519 \<Rightarrow> publicKey = Ed25519View 32
      | SSHAlgorithmECDSAP256 \<Rightarrow> publicKey = ECDSAView (Some P256)
      | SSHAlgorithmRSA3072 \<Rightarrow> publicKey = RSAView (Some 3072)
      | SSHAlgorithmRSA4096 \<Rightarrow> publicKey = RSAView (Some 4096)
      | SSHAlgorithmOther _ \<Rightarrow> False)"

definition sshKeyType :: "SSHAlgorithm \<Rightarrow> string" where
  "sshKeyType algorithm =
     (case algorithm of
        SSHAlgorithmEd25519 \<Rightarrow> ''ssh-ed25519''
      | SSHAlgorithmECDSAP256 \<Rightarrow> ''ecdsa-sha2-nistp256''
      | SSHAlgorithmRSA3072 \<Rightarrow> ''ssh-rsa''
      | SSHAlgorithmRSA4096 \<Rightarrow> ''ssh-rsa''
      | SSHAlgorithmOther _ \<Rightarrow> [])"

definition hasExactlyOneTerminalLF :: "go_bytes \<Rightarrow> bool" where
  "hasExactlyOneTerminalLF v \<longleftrightarrow> 0 < length v \<and> v ! (length v - 1) = LF \<and> (length v = 1 \<or> v ! (length v - 2) \<noteq> LF)"

definition validSHA256Fingerprint :: "string \<Rightarrow> bool" where
  "validSHA256Fingerprint v =
     (if \<not> strings_HasPrefix v ''SHA256:'' \<or> strings_ContainsRune v (CHR ''='') then False
      else (case base64std_DecodeString (strings_TrimPrefix v ''SHA256:'') of
        None \<Rightarrow> False
      | Some digest \<Rightarrow> length digest = 32 \<and> ''SHA256:'' @ base64std_EncodeToString digest = v))"

text \<open>What follows the generation of the key, with the marshaller of the generator.\<close>

definition ssh_result ::
  "('k, 'p, 's, 'r) key_lib \<Rightarrow> ('k \<Rightarrow> pem_block option option) \<Rightarrow> SSHAlgorithm \<Rightarrow> 'k \<Rightarrow> SSHKeyPairResult option" where
  "ssh_result lib marshal algorithm privateKey =
     do { generatedPublicKey \<leftarrow> ssh_NewPublicKey lib privateKey;
          blockp \<leftarrow> marshal privateKey;
          block \<leftarrow> blockp;
          if pb_Type block \<noteq> openSSHPrivateKeyPEMType \<or> pb_Bytes block = [] \<or> pb_Headers block \<noteq> [] then None else do {
          let privatePEM = pem_EncodeToMemory lib block;
          if \<not> hasExactlyOneTerminalLF privatePEM then None else do {
          signer \<leftarrow> ssh_ParseRawPrivateKey lib privatePEM;
          parsedSigner \<leftarrow> signer;
          if \<not> sshPublicKeyMatchesAlgorithm (key_Public lib parsedSigner) algorithm then None else do {
          parsedPublicKey \<leftarrow> ssh_NewPublicKey lib parsedSigner;
          if ssh_Type lib parsedPublicKey \<noteq> sshKeyType algorithm \<or> ssh_Marshal lib parsedPublicKey \<noteq> ssh_Marshal lib generatedPublicKey
          then None else do {
          let authorizedKeyWithLF = ssh_MarshalAuthorizedKey lib parsedPublicKey;
          if \<not> hasExactlyOneTerminalLF authorizedKeyWithLF then None else do {
          let authorizedKey = strings_TrimSuffix authorizedKeyWithLF [LF];
          if authorizedKey = [] \<or> strings_ContainsAny authorizedKey [CR, LF] then None else do {
          let fingerprint = ssh_FingerprintSHA256 lib parsedPublicKey;
          if \<not> validSHA256Fingerprint fingerprint then None
          else Some \<lparr>ssh_private = privatePEM, ssh_algorithm = algorithm, ssh_authorizedKey = authorizedKey, ssh_fingerprint = fingerprint\<rparr> } } } } } } }"

text \<open>The random source is \<open>None\<close> when the generator or its source is nil, the marshaller when it is nil.\<close>

definition GenerateSSHKeyPair ::
  "('k, 'p, 's, 'r) key_lib \<Rightarrow> ('k \<Rightarrow> pem_block option option) option \<Rightarrow> SSHAlgorithm \<Rightarrow> 'r option \<Rightarrow>
     (gen_error + SSHKeyPairResult) \<times> 'r option" where
  "GenerateSSHKeyPair lib marshalSSHKey algorithm random =
     (if \<not> validSSHAlgorithm algorithm then (Inl ErrInvalidParameters, random)
      else (case (random, marshalSSHKey) of
        (Some r, Some marshal) \<Rightarrow>
          (case generateSSHPrivateKey lib r algorithm of
             (None, r1) \<Rightarrow> (Inl ErrGenerationFailed, Some r1)
           | (Some privateKey, r1) \<Rightarrow>
               (case ssh_result lib marshal algorithm privateKey of
                  None \<Rightarrow> (Inl ErrGenerationFailed, Some r1)
                | Some result \<Rightarrow> (Inr result, Some r1)))
      | _ \<Rightarrow> (Inl ErrGenerationFailed, random)))"

subsection \<open>Validation of the parameters of a certificate request\<close>

definition maximumX509SubjectValues :: nat where "maximumX509SubjectValues = 8"
definition maximumX509SubjectBytes :: nat where "maximumX509SubjectBytes = 256"
definition maximumX509SANs :: nat where "maximumX509SANs = 64"
definition maximumGeneratedX509CSRBytes :: nat where "maximumGeneratedX509CSRBytes = 256 * 1024"

text \<open>\<open>validateDistinctStrings\<close> with a function that also yields what the closures of the source collect.\<close>

fun validate_distinct :: "string list \<Rightarrow> (string \<Rightarrow> 'a option) \<Rightarrow> string list \<Rightarrow> 'a list option" where
  "validate_distinct seen validate [] = Some []"
| "validate_distinct seen validate (v # vs) =
     (case validate v of
        None \<Rightarrow> None
      | Some x \<Rightarrow> if v \<in> set seen then None else map_option (Cons x) (validate_distinct (v # seen) validate vs))"

definition validateDistinctStrings :: "string list \<Rightarrow> (string \<Rightarrow> 'a option) \<Rightarrow> 'a list option" where
  "validateDistinctStrings vs validate = validate_distinct [] validate vs"

definition allStringSlicesNil :: "slice list \<Rightarrow> bool" where
  "allStringSlicesNil vs = list_all (\<lambda>v. v = None) vs"

definition hasEmptySuppliedSlice :: "slice list \<Rightarrow> bool" where
  "hasEmptySuppliedSlice vs = list_ex (\<lambda>v. v = Some []) vs"

definition stringValue :: "string option \<Rightarrow> string" where
  "stringValue v = (case v of None \<Rightarrow> [] | Some s \<Rightarrow> s)"

definition accept_if :: "(string \<Rightarrow> bool) \<Rightarrow> string \<Rightarrow> string option" where
  "accept_if valid v = (if valid v then Some v else None)"

definition validDNValues :: "slice \<Rightarrow> bool" where
  "validDNValues vs =
     (if vs = Some [] then False
      else if maximumX509SubjectValues < length (elements_of vs) then False
      else validateDistinctStrings (elements_of vs) (accept_if (\<lambda>v. validIdentityString v maximumX509SubjectBytes False)) \<noteq> None)"

definition is_ascii_upper :: "char \<Rightarrow> bool" where
  "is_ascii_upper c \<longleftrightarrow> 65 \<le> (of_char c :: nat) \<and> (of_char c :: nat) \<le> 90"

definition validCountryValues :: "slice \<Rightarrow> bool" where
  "validCountryValues vs =
     (if vs = Some [] then False
      else if maximumX509SubjectValues < length (elements_of vs) then False
      else validateDistinctStrings (elements_of vs)
             (accept_if (\<lambda>v. length v = 2 \<and> is_ascii_upper (v ! 0) \<and> is_ascii_upper (v ! 1))) \<noteq> None)"

definition validateX509Subject :: "X509Subject \<Rightarrow> pkix_name option" where
  "validateX509Subject s =
     (if CommonName s = None \<and> SerialNumber s = None \<and>
         allStringSlicesNil [Country s, Organization s, OrganizationalUnit s, Locality s, Province s, StreetAddress s, PostalCode s]
      then None
      else if (case CommonName s of None \<Rightarrow> False | Some v \<Rightarrow> \<not> validIdentityString v maximumX509SubjectBytes False) then None
      else if (case SerialNumber s of None \<Rightarrow> False | Some v \<Rightarrow> \<not> validIdentityString v maximumX509SubjectBytes False) then None
      else if \<not> validCountryValues (Country s) \<or> \<not> validDNValues (Organization s) \<or> \<not> validDNValues (OrganizationalUnit s) \<or>
         \<not> validDNValues (Locality s) \<or> \<not> validDNValues (Province s) \<or> \<not> validDNValues (StreetAddress s) \<or> \<not> validDNValues (PostalCode s)
      then None
      else Some \<lparr>xn_CommonName = stringValue (CommonName s), xn_SerialNumber = stringValue (SerialNumber s),
        xn_Country = Country s, xn_Organization = Organization s, xn_OrganizationalUnit = OrganizationalUnit s,
        xn_Locality = Locality s, xn_Province = Province s, xn_StreetAddress = StreetAddress s, xn_PostalCode = PostalCode s\<rparr>)"

definition valid_ip :: "identity_lib \<Rightarrow> string \<Rightarrow> go_bytes option" where
  "valid_ip lib v =
     (case netip_ParseAddr lib v of
        None \<Rightarrow> None
      | Some address \<Rightarrow>
          if na_Zone address \<noteq> [] \<or> na_Is4In6 address \<or> na_String address \<noteq> v then None else Some (na_AsSlice address))"

definition validateX509SANs ::
  "identity_lib \<Rightarrow> X509SANs \<Rightarrow> (string list \<times> go_bytes list \<times> string list \<times> url_value list) option" where
  "validateX509SANs lib sans =
     (let all = [DNSNames sans, IPAddresses sans, EmailAddresses sans, URIs sans];
          counts = map (\<lambda>v. length (elements_of v)) all
      in if allStringSlicesNil all then None
         else if list_ex (\<lambda>count. maximumX509SANs < count) counts then None
         else if sum_list counts = 0 \<or> maximumX509SANs < sum_list counts then None
         else if hasEmptySuppliedSlice all then None
         else do {
           dnsNames \<leftarrow> validateDistinctStrings (elements_of (DNSNames sans)) (accept_if validDNSName);
           ipAddresses \<leftarrow> validateDistinctStrings (elements_of (IPAddresses sans)) (valid_ip lib);
           emailAddresses \<leftarrow> validateDistinctStrings (elements_of (EmailAddresses sans)) (accept_if (validEmailAddress lib));
           uris \<leftarrow> validateDistinctStrings (elements_of (URIs sans)) (parseAbsoluteURI lib);
           Some (dnsNames, ipAddresses, emailAddresses, uris) })"

definition zero_name :: pkix_name where
  "zero_name = \<lparr>xn_CommonName = [], xn_SerialNumber = [], xn_Country = None, xn_Organization = None, xn_OrganizationalUnit = None,
     xn_Locality = None, xn_Province = None, xn_StreetAddress = None, xn_PostalCode = None\<rparr>"

definition signatureAlgorithm_of :: "X509Algorithm \<Rightarrow> SignatureAlgorithm option" where
  "signatureAlgorithm_of algorithm =
     (case algorithm of
        X509AlgorithmEd25519 \<Rightarrow> Some PureEd25519
      | X509AlgorithmECDSAP256 \<Rightarrow> Some ECDSAWithSHA256
      | X509AlgorithmECDSAP384 \<Rightarrow> Some ECDSAWithSHA384
      | X509AlgorithmRSA3072 \<Rightarrow> Some SHA256WithRSA
      | X509AlgorithmRSA4096 \<Rightarrow> Some SHA256WithRSA
      | X509AlgorithmOther _ \<Rightarrow> None)"

definition validateX509CSRParameters :: "identity_lib \<Rightarrow> X509CSRParameters \<Rightarrow> validatedX509CSR option" where
  "validateX509CSRParameters lib p =
     do { signatureAlgorithm \<leftarrow> signatureAlgorithm_of (xp_Algorithm p);
          sbj \<leftarrow> (case xp_Subject p of None \<Rightarrow> Some zero_name | Some s \<Rightarrow> validateX509Subject s);
          (dnsNames, ipAddresses, emailAddresses, uris) \<leftarrow>
            (case xp_SANs p of None \<Rightarrow> Some ([], [], [], []) | Some sans \<Rightarrow> validateX509SANs lib sans);
          let hasCommonName = (case xp_Subject p of None \<Rightarrow> False | Some s \<Rightarrow> CommonName s \<noteq> None);
          let hasSAN = (0 < length dnsNames + length ipAddresses + length emailAddresses + length uris);
          if \<not> hasCommonName \<and> \<not> hasSAN then None
          else Some \<lparr>vx_algorithm = xp_Algorithm p, vx_signatureAlgorithm = signatureAlgorithm, vx_subject = sbj, vx_dnsNames = dnsNames,
            vx_ipAddresses = ipAddresses, vx_emailAddresses = emailAddresses, vx_uris = uris\<rparr> }"

subsection \<open>Reading a certificate request back\<close>

definition isIA5String :: "go_bytes \<Rightarrow> bool" where
  "isIA5String v = list_all (\<lambda>c. \<not> (0x7F < (of_char c :: nat))) v"

definition containsIPvFutureURI :: "url_value list \<Rightarrow> bool" where
  "containsIPvFutureURI uris = list_ex (\<lambda>uri. hasIPvFutureAuthority (uv_String uri)) uris"

definition signatureAlgorithmForOID :: "nat list \<Rightarrow> SignatureAlgorithm option" where
  "signatureAlgorithmForOID oid =
     (let s = oid_String oid in
      if s = ''1.3.101.112'' then Some PureEd25519
      else if s = ''1.2.840.10045.4.3.2'' then Some ECDSAWithSHA256
      else if s = ''1.2.840.10045.4.3.3'' then Some ECDSAWithSHA384
      else if s = ''1.2.840.113549.1.1.11'' then Some SHA256WithRSA
      else None)"

definition signatureAlgorithmParametersMatch :: "algorithm_identifier \<Rightarrow> SignatureAlgorithm \<Rightarrow> bool" where
  "signatureAlgorithmParametersMatch identifier algorithm =
     (if algorithm = SHA256WithRSA then ai_Parameters identifier = [CHR 0x05, CHR 0x00] else ai_Parameters identifier = [])"

fun collect_extensions :: "string list \<Rightarrow> pkix_extension list \<Rightarrow> pkix_extension list \<Rightarrow> (string list \<times> pkix_extension list) option" where
  "collect_extensions seen exts [] = Some (seen, exts)"
| "collect_extensions seen exts (e # es) =
     (let key = oid_String (ex_Id e) in
      if key \<in> set seen then None else collect_extensions (key # seen) (exts @ [e]) es)"

fun requested_extensions ::
  "('k, 'p, 's, 'r) key_lib \<Rightarrow> bool \<Rightarrow> string list \<Rightarrow> pkix_extension list \<Rightarrow> raw_value list \<Rightarrow> pkix_extension list option" where
  "requested_extensions lib seenRequest seen exts [] = Some exts"
| "requested_extensions lib seenRequest seen exts (raw # raws) =
     (case asn1_Attribute lib (rv_FullBytes raw) of
        None \<Rightarrow> None
      | Some ((oid, vals), rest) \<Rightarrow>
          if rest \<noteq> [] \<or> vals = [] then None
          else if oid \<noteq> [1, 2, 840, 113549, 1, 9, 14] then requested_extensions lib seenRequest seen exts raws
          else if seenRequest \<or> length vals \<noteq> 1 then None
          else (case asn1_Extensions lib (rv_FullBytes (hd vals)) of
            None \<Rightarrow> None
          | Some (requested, rest1) \<Rightarrow>
              if rest1 \<noteq> [] then None
              else (case collect_extensions seen exts requested of
                None \<Rightarrow> None
              | Some (seen1, exts1) \<Rightarrow> requested_extensions lib True seen1 exts1 raws)))"

definition parseCSRRequestedExtensions :: "('k, 'p, 's, 'r) key_lib \<Rightarrow> raw_value list \<Rightarrow> pkix_extension list option" where
  "parseCSRRequestedExtensions lib attributes = requested_extensions lib False [] [] attributes"

type_synonym alt_names = "string list \<times> string list \<times> go_bytes list \<times> url_value list"

text \<open>The loop over the general names: DNS names, e-mail addresses, IP addresses and URIs so far.\<close>

fun collect_names :: "identity_lib \<Rightarrow> alt_names \<Rightarrow> raw_value list \<Rightarrow> alt_names option" where
  "collect_names lib found [] = Some found"
| "collect_names lib (dns, email, ips, uris) (name # names) =
     (let v = rv_Bytes name in
      if rv_Class name \<noteq> 2 \<or> rv_IsCompound name then None
      else if rv_Tag name = 1 then
        (if \<not> isIA5String v then None else collect_names lib (dns, email @ [v], ips, uris) names)
      else if rv_Tag name = 2 then
        (if \<not> isIA5String v then None else collect_names lib (dns @ [v], email, ips, uris) names)
      else if rv_Tag name = 6 then
        (if \<not> isIA5String v then None
         else (case parseAbsoluteURI lib v of None \<Rightarrow> None | Some uri \<Rightarrow> collect_names lib (dns, email, ips, uris @ [uri]) names))
      else if rv_Tag name = 7 then
        (if length v \<noteq> 4 \<and> length v \<noteq> 16 then None
         else if length v = 16 \<and> ip_To4 v \<noteq> None then None
         else collect_names lib (dns, email, ips @ [v], uris) names)
      else None)"

definition parseCSRSubjectAltNames :: "('k, 'p, 's, 'r) key_lib \<Rightarrow> identity_lib \<Rightarrow> pkix_extension list \<Rightarrow> alt_names option" where
  "parseCSRSubjectAltNames lib ilib exts =
     (case filter (\<lambda>e. ex_Id e = [2, 5, 29, 17]) exts of
        [] \<Rightarrow> Some ([], [], [], [])
      | [san] \<Rightarrow>
          (case asn1_Names lib (ex_Value san) of
             None \<Rightarrow> None
           | Some (names, rest) \<Rightarrow> if rest \<noteq> [] then None else collect_names ilib ([], [], [], []) names)
      | _ \<Rightarrow> None)"

definition parseCSRWithIPvFuture :: "('k, 'p, 's, 'r) key_lib \<Rightarrow> identity_lib \<Rightarrow> go_bytes \<Rightarrow> 'p certificate_request option" where
  "parseCSRWithIPvFuture lib ilib der =
     (if maximumGeneratedX509CSRBytes < length der then None
      else do {
        (raw, rest) \<leftarrow> asn1_CSR lib der;
        if rest \<noteq> [] then None
        else if rx_Version raw \<noteq> 0 \<or> bs_BitLength (rx_SignatureValue raw) = 0 \<or> bs_BitLength (rx_SignatureValue raw) mod 8 \<noteq> 0 then None
        else do {
        signatureAlgorithm \<leftarrow> signatureAlgorithmForOID (ai_Algorithm (rx_SignatureAlgorithm raw));
        if \<not> signatureAlgorithmParametersMatch (rx_SignatureAlgorithm raw) signatureAlgorithm then None else do {
        publicKey \<leftarrow> ParsePKIXPublicKey lib (rx_PublicKey_Raw raw);
        (sbj, rest1) \<leftarrow> asn1_RDNSequence lib (rx_Subject raw);
        if rest1 \<noteq> [] then None else do {
        exts \<leftarrow> parseCSRRequestedExtensions lib (rx_RawAttributes raw);
        (dns, email, ips, uris) \<leftarrow> parseCSRSubjectAltNames lib ilib exts;
        rawSignatureAlgorithm \<leftarrow> asn1_Marshal lib (rx_SignatureAlgorithm raw);
        Some \<lparr>cs_Raw = rx_Raw raw, cs_RawTBSCertificateRequest = rx_info_Raw raw, cs_RawSubjectPublicKeyInfo = rx_PublicKey_Raw raw,
          cs_RawSubject = rx_Subject raw, cs_RawSignatureAlgorithm = rawSignatureAlgorithm, cs_Version = rx_Version raw,
          cs_Signature = bs_RightAlign (rx_SignatureValue raw), cs_SignatureAlgorithm = signatureAlgorithm, cs_PublicKey = publicKey,
          cs_Subject = sbj, cs_DNSNames = dns, cs_EmailAddresses = email, cs_IPAddresses = ips, cs_URIs = uris, cs_Extensions = exts\<rparr> } } } })"

text \<open>\<open>sameStringSet\<close>: the map of how often a value is still wanted.\<close>

fun take_wanted :: "(string \<Rightarrow> nat) \<Rightarrow> string list \<Rightarrow> bool" where
  "take_wanted want [] = True"
| "take_wanted want (v # vs) = (if want v = 0 then False else take_wanted (want(v := want v - 1)) vs)"

definition sameStringSet :: "string list \<Rightarrow> string list \<Rightarrow> bool" where
  "sameStringSet left right =
     (if length left \<noteq> length right then False
      else take_wanted (fold (\<lambda>v want. want(v := want v + 1)) right (\<lambda>_. 0)) left)"

fun equal_from :: "string list \<Rightarrow> string list \<Rightarrow> bool" where
  "equal_from (x # xs) (y # ys) = (if x \<noteq> y then False else equal_from xs ys)"
| "equal_from _ _ = True"

definition equalStrings :: "string list \<Rightarrow> string list \<Rightarrow> bool" where
  "equalStrings left right = (if length left \<noteq> length right then False else equal_from left right)"

definition x509CSRMatches :: "('k, 'p, 's, 'r) key_lib \<Rightarrow> identity_lib \<Rightarrow> 'p certificate_request \<Rightarrow> validatedX509CSR \<Rightarrow> bool" where
  "x509CSRMatches lib ilib csr expected =
     (let got = cs_Subject csr; want = vx_subject expected;
          same = (\<lambda>f. sameStringSet (elements_of (f got)) (elements_of (f want)))
      in if xn_CommonName got \<noteq> xn_CommonName want \<or> xn_SerialNumber got \<noteq> xn_SerialNumber want then False
         else (case parseCSRSubjectAltNames lib ilib (cs_Extensions csr) of
           None \<Rightarrow> False
         | Some (_, _, _, rawURIs) \<Rightarrow>
             if \<not> same xn_Country \<or> \<not> same xn_Organization \<or> \<not> same xn_OrganizationalUnit \<or> \<not> same xn_Locality \<or> \<not> same xn_Province \<or>
                \<not> same xn_StreetAddress \<or> \<not> same xn_PostalCode \<or>
                \<not> equalStrings (cs_DNSNames csr) (vx_dnsNames expected) \<or> \<not> equalStrings (cs_EmailAddresses csr) (vx_emailAddresses expected) \<or>
                length (cs_IPAddresses csr) \<noteq> length (vx_ipAddresses expected) \<or>
                length (cs_URIs csr) \<noteq> length (vx_uris expected) \<or> length rawURIs \<noteq> length (vx_uris expected)
             then False
             else if \<not> list_all2 ip_Equal (cs_IPAddresses csr) (vx_ipAddresses expected) then False
             else if \<not> list_all2 (\<lambda>a b. uv_String a = uv_String b) rawURIs (vx_uris expected) then False
             else if \<not> 0 < length (vx_dnsNames expected) + length (vx_ipAddresses expected) + length (vx_emailAddresses expected) + length (vx_uris expected)
             then cs_Extensions csr = []
             else length (cs_Extensions csr) = 1 \<and> \<not> ex_Critical (hd (cs_Extensions csr)) \<and>
               oid_String (ex_Id (hd (cs_Extensions csr))) = ''2.5.29.17''))"

definition decode_one :: "('k, 'p, 's, 'r) key_lib \<Rightarrow> string \<Rightarrow> go_bytes \<Rightarrow> go_bytes option" where
  "decode_one lib typ text =
     (case pem_Decode lib text of
        None \<Rightarrow> None
      | Some (block, rest) \<Rightarrow> if pb_Type block \<noteq> typ \<or> pb_Headers block \<noteq> [] \<or> rest \<noteq> [] then None else Some (pb_Bytes block))"

definition parsePKCS8Signer :: "('k, 'p, 's, 'r) key_lib \<Rightarrow> go_bytes \<Rightarrow> 'k option" where
  "parsePKCS8Signer lib privatePEM =
     do { der \<leftarrow> decode_one lib ''PRIVATE KEY'' privatePEM; parsed \<leftarrow> ParsePKCS8PrivateKey lib der; parsed }"

definition read_csr :: "('k, 'p, 's, 'r) key_lib \<Rightarrow> identity_lib \<Rightarrow> url_value list \<Rightarrow> go_bytes \<Rightarrow> 'p certificate_request option" where
  "read_csr lib ilib uris der =
     (case ParseCertificateRequest lib der of
        Some csr \<Rightarrow> Some csr
      | None \<Rightarrow> if \<not> containsIPvFutureURI uris then None else parseCSRWithIPvFuture lib ilib der)"

definition parseAndCheckCSR ::
  "('k, 'p, 's, 'r) key_lib \<Rightarrow> identity_lib \<Rightarrow> go_bytes \<Rightarrow> validatedX509CSR \<Rightarrow> go_bytes \<Rightarrow> 'p certificate_request option" where
  "parseAndCheckCSR lib ilib csrPEM expected spki =
     do { der \<leftarrow> decode_one lib ''CERTIFICATE REQUEST'' csrPEM;
          csr \<leftarrow> read_csr lib ilib (vx_uris expected) der;
          if cs_SignatureAlgorithm csr \<noteq> vx_signatureAlgorithm expected then None
          else if \<not> CheckSignature lib csr then None
          else if cs_RawSubjectPublicKeyInfo csr \<noteq> spki then None
          else if \<not> x509CSRMatches lib ilib csr expected then None
          else Some csr }"

subsection \<open>Generating a certificate request\<close>

definition generateX509PrivateKey :: "('k, 'p, 's, 'r) key_lib \<Rightarrow> 'r \<Rightarrow> X509Algorithm \<Rightarrow> 'k option \<times> 'r" where
  "generateX509PrivateKey lib random algorithm =
     (case algorithm of
        X509AlgorithmEd25519 \<Rightarrow> ed25519_GenerateKey lib random
      | X509AlgorithmECDSAP256 \<Rightarrow> ecdsa_GenerateKey lib P256 random
      | X509AlgorithmECDSAP384 \<Rightarrow> ecdsa_GenerateKey lib P384 random
      | X509AlgorithmRSA3072 \<Rightarrow> rsa_GenerateKey lib 3072 random
      | X509AlgorithmRSA4096 \<Rightarrow> rsa_GenerateKey lib 4096 random
      | X509AlgorithmOther _ \<Rightarrow> (None, random))"

text \<open>The private key in PEM, as it is read back, and its public key.\<close>

definition x509_key :: "('k, 'p, 's, 'r) key_lib \<Rightarrow> 'k \<Rightarrow> (go_bytes \<times> 'k \<times> go_bytes) option" where
  "x509_key lib generatedKey =
     do { privateDER \<leftarrow> MarshalPKCS8PrivateKey lib generatedKey;
          let privatePEM = pem_EncodeToMemory lib \<lparr>pb_Type = ''PRIVATE KEY'', pb_Headers = [], pb_Bytes = privateDER\<rparr>;
          if privatePEM = [] then None else do {
          parsedKey \<leftarrow> parsePKCS8Signer lib privatePEM;
          generatedSPKI \<leftarrow> MarshalPKIXPublicKey lib generatedKey;
          parsedSPKI \<leftarrow> MarshalPKIXPublicKey lib parsedKey;
          if generatedSPKI \<noteq> parsedSPKI then None else Some (privatePEM, parsedKey, parsedSPKI) } }"

definition x509_request ::
  "('k, 'p, 's, 'r) key_lib \<Rightarrow> identity_lib \<Rightarrow> validatedX509CSR \<Rightarrow> go_bytes \<Rightarrow> go_bytes \<Rightarrow> go_bytes \<Rightarrow> X509CSRResult option" where
  "x509_request lib ilib validated privatePEM parsedSPKI csrDER =
     (let csrPEM = pem_EncodeToMemory lib \<lparr>pb_Type = ''CERTIFICATE REQUEST'', pb_Headers = [], pb_Bytes = csrDER\<rparr> in
      if csrPEM = [] then None
      else do {
        parsedCSR \<leftarrow> parseAndCheckCSR lib ilib csrPEM validated parsedSPKI;
        Some \<lparr>x509_private = privatePEM, x509_algorithm = vx_algorithm validated, x509_csrPEM = csrPEM,
          x509_fingerprint = ''SHA256:'' @ base64std_EncodeToString (kl_sha256 lib (cs_RawSubjectPublicKeyInfo parsedCSR))\<rparr> })"

definition GenerateX509CSR ::
  "('k, 'p, 's, 'r) key_lib \<Rightarrow> identity_lib \<Rightarrow> X509CSRParameters \<Rightarrow> 'r option \<Rightarrow> (gen_error + X509CSRResult) \<times> 'r option" where
  "GenerateX509CSR lib ilib p random =
     (case validateX509CSRParameters ilib p of
        None \<Rightarrow> (Inl ErrInvalidParameters, random)
      | Some validated \<Rightarrow> (case random of
          None \<Rightarrow> (Inl ErrGenerationFailed, random)
        | Some r \<Rightarrow> (case generateX509PrivateKey lib r (vx_algorithm validated) of
            (None, r1) \<Rightarrow> (Inl ErrGenerationFailed, Some r1)
          | (Some generatedKey, r1) \<Rightarrow> (case x509_key lib generatedKey of
              None \<Rightarrow> (Inl ErrGenerationFailed, Some r1)
            | Some (privatePEM, parsedKey, parsedSPKI) \<Rightarrow> (case CreateCertificateRequest lib validated parsedKey r1 of
                (None, r2) \<Rightarrow> (Inl ErrGenerationFailed, Some r2)
              | (Some csrDER, r2) \<Rightarrow> (case x509_request lib ilib validated privatePEM parsedSPKI csrDER of
                  None \<Rightarrow> (Inl ErrGenerationFailed, Some r2)
                | Some result \<Rightarrow> (Inr result, Some r2)))))))"

section \<open>Lemmas\<close>

lemma validate_distinct_Some:
  "validate_distinct seen f vs = Some xs \<longleftrightarrow> distinct vs \<and> set vs \<inter> set seen = {} \<and> list_all2 (\<lambda>v x. f v = Some x) vs xs"
proof (induction vs arbitrary: seen xs)
  case (Cons v vs)
  show ?case
  proof (cases "f v")
    case (Some x)
    have "validate_distinct seen f (v # vs) = Some xs \<longleftrightarrow> v \<notin> set seen \<and> (\<exists>ys. xs = x # ys \<and> validate_distinct (v # seen) f vs = Some ys)"
      using Some by auto
    then show ?thesis unfolding Cons list_all2_Cons1 using Some by auto
  qed (auto simp: list_all2_Cons1)
qed auto

lemmas validateDistinctStrings_Some = validate_distinct_Some [of "[]", folded validateDistinctStrings_def, simplified]

lemma accept_if_all2: "list_all2 (\<lambda>v x. accept_if P v = Some x) vs xs \<longleftrightarrow> xs = vs \<and> list_all P vs"
  by (induction vs arbitrary: xs) (auto simp: accept_if_def list_all2_Cons1)

lemma take_wanted_iff: "take_wanted want vs \<longleftrightarrow> (\<forall>v. count (mset vs) v \<le> want v)"
proof (induction vs arbitrary: want)
  case (Cons v vs)
  have "(\<forall>x. count (mset vs) x \<le> (want(v := want v - 1)) x) \<and> want v \<noteq> 0 \<longleftrightarrow> (\<forall>x. count (mset (v # vs)) x \<le> want x)"
    by (auto split: if_splits)
  moreover have "take_wanted want (v # vs) \<longleftrightarrow> want v \<noteq> 0 \<and> take_wanted (want(v := want v - 1)) vs" by simp
  ultimately show ?case using Cons by metis
qed simp

lemma wanted_counts: "fold (\<lambda>v want. want(v := Suc (want v))) vs w = (\<lambda>v. w v + count (mset vs) v)"
  by (induction vs arbitrary: w) auto

lemma sameStringSet_iff: "sameStringSet left right \<longleftrightarrow> mset left = mset right"
proof
  assume *: "sameStringSet left right"
  then have "mset left \<subseteq># mset right" "size (mset left) = size (mset right)"
    by (auto simp: sameStringSet_def take_wanted_iff wanted_counts subseteq_mset_def split: if_splits)
  then show "mset left = mset right" using mset_subset_size subset_mset.le_imp_less_or_eq by fastforce
next
  assume *: "mset left = mset right"
  then have "length left = length right" by (metis size_mset)
  then show "sameStringSet left right" using * by (simp add: sameStringSet_def take_wanted_iff wanted_counts)
qed

lemma equalStrings_iff: "equalStrings xs ys \<longleftrightarrow> xs = ys"
proof -
  have "length xs = length ys \<Longrightarrow> equal_from xs ys \<longleftrightarrow> xs = ys"
    by (induction xs ys rule: equal_from.induct) auto
  then show ?thesis by (auto simp: equalStrings_def)
qed

lemma kept_uri_String: "kept_uri v = Some u \<Longrightarrow> uv_String u = v"
  by (auto simp: kept_uri_def Let_def split: option.splits if_splits)

lemma parseAbsoluteURI_String: "parseAbsoluteURI lib v = Some u \<Longrightarrow> uv_String u = v"
  by (auto simp: parseAbsoluteURI_def kept_uri_String split: option.splits if_splits)

text \<open>What a caller asked for: the names of a kind, and the values of an attribute of the subject.\<close>

definition asked :: "(X509SANs \<Rightarrow> slice) \<Rightarrow> X509CSRParameters \<Rightarrow> string list" where
  "asked f p = (case xp_SANs p of None \<Rightarrow> [] | Some sans \<Rightarrow> elements_of (f sans))"

definition asked_subject :: "(X509Subject \<Rightarrow> slice) \<Rightarrow> X509CSRParameters \<Rightarrow> string list" where
  "asked_subject f p = (case xp_Subject p of None \<Rightarrow> [] | Some s \<Rightarrow> elements_of (f s))"

definition asked_name :: "(X509Subject \<Rightarrow> string option) \<Rightarrow> X509CSRParameters \<Rightarrow> string" where
  "asked_name f p = (case xp_Subject p of None \<Rightarrow> [] | Some s \<Rightarrow> stringValue (f s))"

lemma validateX509Subject_Some:
  "validateX509Subject s = Some n \<Longrightarrow>
     n = \<lparr>xn_CommonName = stringValue (CommonName s), xn_SerialNumber = stringValue (SerialNumber s),
        xn_Country = Country s, xn_Organization = Organization s, xn_OrganizationalUnit = OrganizationalUnit s,
        xn_Locality = Locality s, xn_Province = Province s, xn_StreetAddress = StreetAddress s, xn_PostalCode = PostalCode s\<rparr>"
  unfolding validateX509Subject_def by (simp split: if_splits)

lemma validateX509SANs_Some:
  assumes "validateX509SANs lib sans = Some (dns, ips, email, uris)"
  shows "dns = elements_of (DNSNames sans)" "list_all2 (\<lambda>v ip. valid_ip lib v = Some ip) (elements_of (IPAddresses sans)) ips"
    "email = elements_of (EmailAddresses sans)" "map uv_String uris = elements_of (URIs sans)"
    "list_all validDNSName dns" "list_all (validEmailAddress lib) email"
    "0 < length dns + length ips + length email + length uris" "length dns + length ips + length email + length uris \<le> 64"
proof -
  have v: "validateDistinctStrings (elements_of (DNSNames sans)) (accept_if validDNSName) = Some dns"
      "validateDistinctStrings (elements_of (IPAddresses sans)) (valid_ip lib) = Some ips"
      "validateDistinctStrings (elements_of (EmailAddresses sans)) (accept_if (validEmailAddress lib)) = Some email"
      "validateDistinctStrings (elements_of (URIs sans)) (parseAbsoluteURI lib) = Some uris"
      and n: "0 < length (elements_of (DNSNames sans)) + length (elements_of (IPAddresses sans)) + length (elements_of (EmailAddresses sans)) +
        length (elements_of (URIs sans))"
      "length (elements_of (DNSNames sans)) + length (elements_of (IPAddresses sans)) + length (elements_of (EmailAddresses sans)) +
        length (elements_of (URIs sans)) \<le> 64"
    using assms by (auto simp: validateX509SANs_def Let_def maximumX509SANs_def split: if_splits Option.bind_splits)
  show d: "dns = elements_of (DNSNames sans)" "email = elements_of (EmailAddresses sans)" "list_all validDNSName dns" "list_all (validEmailAddress lib) email"
    using v(1,3) by (auto simp: validateDistinctStrings_Some accept_if_all2)
  show i: "list_all2 (\<lambda>v ip. valid_ip lib v = Some ip) (elements_of (IPAddresses sans)) ips"
    using v(2) by (simp add: validateDistinctStrings_Some)
  have "list_all2 (\<lambda>v u. parseAbsoluteURI lib v = Some u) (elements_of (URIs sans)) uris"
    using v(4) by (simp add: validateDistinctStrings_Some)
  then have "list_all2 (\<lambda>v u. v = uv_String u) (elements_of (URIs sans)) uris"
    by (rule list_all2_mono) (simp add: parseAbsoluteURI_String)
  then show u: "map uv_String uris = elements_of (URIs sans)"
    by (simp add: list.rel_eq [symmetric] list.rel_map list_all2_conv_all_nth)
  show "0 < length dns + length ips + length email + length uris" "length dns + length ips + length email + length uris \<le> 64"
    using n list_all2_lengthD [OF i] arg_cong [OF u, of length] unfolding d(1,2) by simp_all
qed

lemma validated_as_asked:
  assumes "validateX509CSRParameters lib p = Some v"
  shows "vx_algorithm v = xp_Algorithm p" "signatureAlgorithm_of (xp_Algorithm p) = Some (vx_signatureAlgorithm v)"
    "vx_dnsNames v = asked DNSNames p" "vx_emailAddresses v = asked EmailAddresses p" "map uv_String (vx_uris v) = asked URIs p"
    "list_all2 (\<lambda>a ip. valid_ip lib a = Some ip) (asked IPAddresses p) (vx_ipAddresses v)"
    "xn_CommonName (vx_subject v) = asked_name CommonName p" "xn_SerialNumber (vx_subject v) = asked_name SerialNumber p"
    "elements_of (xn_Country (vx_subject v)) = asked_subject Country p"
    "elements_of (xn_Organization (vx_subject v)) = asked_subject Organization p"
    "elements_of (xn_OrganizationalUnit (vx_subject v)) = asked_subject OrganizationalUnit p"
    "elements_of (xn_Locality (vx_subject v)) = asked_subject Locality p"
    "elements_of (xn_Province (vx_subject v)) = asked_subject Province p"
    "elements_of (xn_StreetAddress (vx_subject v)) = asked_subject StreetAddress p"
    "elements_of (xn_PostalCode (vx_subject v)) = asked_subject PostalCode p"
proof -
  obtain sbj dns ips email uris where
    v: "(case xp_Subject p of None \<Rightarrow> Some zero_name | Some s \<Rightarrow> validateX509Subject s) = Some sbj"
       "(case xp_SANs p of None \<Rightarrow> Some ([], [], [], []) | Some sans \<Rightarrow> validateX509SANs lib sans) = Some (dns, ips, email, uris)"
    and eq: "vx_algorithm v = xp_Algorithm p" "signatureAlgorithm_of (xp_Algorithm p) = Some (vx_signatureAlgorithm v)" "vx_subject v = sbj"
       "vx_dnsNames v = dns" "vx_ipAddresses v = ips" "vx_emailAddresses v = email" "vx_uris v = uris"
    using assms unfolding validateX509CSRParameters_def Let_def by (auto split: if_splits Option.bind_splits)
  show "vx_algorithm v = xp_Algorithm p" "signatureAlgorithm_of (xp_Algorithm p) = Some (vx_signatureAlgorithm v)" by fact+
  show "vx_dnsNames v = asked DNSNames p" "vx_emailAddresses v = asked EmailAddresses p" "map uv_String (vx_uris v) = asked URIs p"
    "list_all2 (\<lambda>a ip. valid_ip lib a = Some ip) (asked IPAddresses p) (vx_ipAddresses v)"
    unfolding eq asked_def using v(2) validateX509SANs_Some [of lib _ dns ips email uris] by (auto split: option.splits)
  have sbj: "(case xp_Subject p of None \<Rightarrow> sbj = zero_name | Some s \<Rightarrow>
      sbj = \<lparr>xn_CommonName = stringValue (CommonName s), xn_SerialNumber = stringValue (SerialNumber s),
        xn_Country = Country s, xn_Organization = Organization s, xn_OrganizationalUnit = OrganizationalUnit s,
        xn_Locality = Locality s, xn_Province = Province s, xn_StreetAddress = StreetAddress s, xn_PostalCode = PostalCode s\<rparr>)"
    using v(1) validateX509Subject_Some by (auto split: option.splits)
  show "xn_CommonName (vx_subject v) = asked_name CommonName p" "xn_SerialNumber (vx_subject v) = asked_name SerialNumber p"
    "elements_of (xn_Country (vx_subject v)) = asked_subject Country p"
    "elements_of (xn_Organization (vx_subject v)) = asked_subject Organization p"
    "elements_of (xn_OrganizationalUnit (vx_subject v)) = asked_subject OrganizationalUnit p"
    "elements_of (xn_Locality (vx_subject v)) = asked_subject Locality p"
    "elements_of (xn_Province (vx_subject v)) = asked_subject Province p"
    "elements_of (xn_StreetAddress (vx_subject v)) = asked_subject StreetAddress p"
    "elements_of (xn_PostalCode (vx_subject v)) = asked_subject PostalCode p"
    using sbj unfolding eq asked_name_def asked_subject_def
    by (cases "xp_Subject p"; simp add: zero_name_def elements_of_def)+
qed

text \<open>No extension if no names were asked for, and else one, which is that of the names.\<close>

definition only_san :: "pkix_extension list \<Rightarrow> bool \<Rightarrow> bool" where
  "only_san exts none \<longleftrightarrow>
     (if none then exts = [] else \<exists>e. exts = [e] \<and> \<not> ex_Critical e \<and> oid_String (ex_Id e) = ''2.5.29.17'')"

lemma CSRMatches:
  assumes "x509CSRMatches lib ilib csr v"
  shows "xn_CommonName (cs_Subject csr) = xn_CommonName (vx_subject v)" "xn_SerialNumber (cs_Subject csr) = xn_SerialNumber (vx_subject v)"
    "\<And>f. f \<in> {xn_Country, xn_Organization, xn_OrganizationalUnit, xn_Locality, xn_Province, xn_StreetAddress, xn_PostalCode} \<Longrightarrow>
       mset (elements_of (f (cs_Subject csr))) = mset (elements_of (f (vx_subject v)))"
    "cs_DNSNames csr = vx_dnsNames v" "cs_EmailAddresses csr = vx_emailAddresses v"
    "list_all2 ip_Equal (cs_IPAddresses csr) (vx_ipAddresses v)"
    "\<exists>dns email ips uris. parseCSRSubjectAltNames lib ilib (cs_Extensions csr) = Some (dns, email, ips, uris) \<and> map uv_String uris = map uv_String (vx_uris v)"
    "only_san (cs_Extensions csr) (vx_dnsNames v = [] \<and> vx_ipAddresses v = [] \<and> vx_emailAddresses v = [] \<and> vx_uris v = [])"
proof -
  obtain dns email ips uris where san: "parseCSRSubjectAltNames lib ilib (cs_Extensions csr) = Some (dns, email, ips, uris)"
    using assms by (auto simp: x509CSRMatches_def Let_def split: if_splits option.splits)
  note m = assms [unfolded x509CSRMatches_def Let_def san option.case prod.case sameStringSet_iff equalStrings_iff]
  show "xn_CommonName (cs_Subject csr) = xn_CommonName (vx_subject v)" "xn_SerialNumber (cs_Subject csr) = xn_SerialNumber (vx_subject v)"
    "cs_DNSNames csr = vx_dnsNames v" "cs_EmailAddresses csr = vx_emailAddresses v"
    "list_all2 ip_Equal (cs_IPAddresses csr) (vx_ipAddresses v)"
    using m by (simp_all split: if_splits)
  show "only_san (cs_Extensions csr) (vx_dnsNames v = [] \<and> vx_ipAddresses v = [] \<and> vx_emailAddresses v = [] \<and> vx_uris v = [])"
    using m unfolding only_san_def by (auto simp: length_Suc_conv split: if_splits)
  show "mset (elements_of (f (cs_Subject csr))) = mset (elements_of (f (vx_subject v)))"
    if "f \<in> {xn_Country, xn_Organization, xn_OrganizationalUnit, xn_Locality, xn_Province, xn_StreetAddress, xn_PostalCode}" for f
    using m that by (auto split: if_splits)
  have "list_all2 (\<lambda>a b. uv_String a = uv_String b) uris (vx_uris v)" using m by (simp split: if_splits)
  then have "map uv_String uris = map uv_String (vx_uris v)" by (simp add: list.rel_eq [symmetric] list.rel_map)
  then show "\<exists>dns email ips uris. parseCSRSubjectAltNames lib ilib (cs_Extensions csr) = Some (dns, email, ips, uris) \<and>
      map uv_String uris = map uv_String (vx_uris v)" using san by blast
qed

lemma GenerateX509CSR_Inr:
  assumes "GenerateX509CSR lib ilib p random = (Inr res, random')"
  shows "\<exists>v key csr der. validateX509CSRParameters ilib p = Some v \<and> x509_algorithm res = vx_algorithm v \<and>
    parsePKCS8Signer lib (x509_private res) = Some key \<and> MarshalPKIXPublicKey lib key = Some (cs_RawSubjectPublicKeyInfo csr) \<and>
    decode_one lib ''CERTIFICATE REQUEST'' (x509_csrPEM res) = Some der \<and> read_csr lib ilib (vx_uris v) der = Some csr \<and>
    cs_SignatureAlgorithm csr = vx_signatureAlgorithm v \<and> CheckSignature lib csr \<and> x509CSRMatches lib ilib csr v \<and>
    x509_fingerprint res = ''SHA256:'' @ base64std_EncodeToString (kl_sha256 lib (cs_RawSubjectPublicKeyInfo csr))"
proof -
  obtain v r key0 r1 privatePEM key spki csrDER r2 where g: "validateX509CSRParameters ilib p = Some v"
      "generateX509PrivateKey lib r (vx_algorithm v) = (Some key0, r1)" "x509_key lib key0 = Some (privatePEM, key, spki)"
      "CreateCertificateRequest lib v key r1 = (Some csrDER, r2)" "x509_request lib ilib v privatePEM spki csrDER = Some res"
    using assms unfolding GenerateX509CSR_def by (auto split: option.splits prod.splits)
  have key: "parsePKCS8Signer lib privatePEM = Some key" "MarshalPKIXPublicKey lib key = Some spki"
    using g(3) unfolding x509_key_def Let_def by (auto split: if_splits Option.bind_splits)
  obtain csr where csr: "parseAndCheckCSR lib ilib (x509_csrPEM res) v spki = Some csr" and res: "x509_private res = privatePEM"
      "x509_algorithm res = vx_algorithm v"
      "x509_fingerprint res = ''SHA256:'' @ base64std_EncodeToString (kl_sha256 lib (cs_RawSubjectPublicKeyInfo csr))"
    using g(5) unfolding x509_request_def Let_def by (auto split: if_splits Option.bind_splits)
  obtain der where "decode_one lib ''CERTIFICATE REQUEST'' (x509_csrPEM res) = Some der" "read_csr lib ilib (vx_uris v) der = Some csr"
      "cs_SignatureAlgorithm csr = vx_signatureAlgorithm v" "CheckSignature lib csr" "cs_RawSubjectPublicKeyInfo csr = spki" "x509CSRMatches lib ilib csr v"
    using csr unfolding parseAndCheckCSR_def by (auto split: if_splits Option.bind_splits)
  then show ?thesis using g(1) key res by blast
qed

lemma GenerateSSHKeyPair_Inr:
  assumes "GenerateSSHKeyPair lib marshal algorithm random = (Inr res, random')"
  shows "\<exists>key pub digest. ssh_algorithm res = algorithm \<and> ssh_ParseRawPrivateKey lib (ssh_private res) = Some (Some key) \<and>
    sshPublicKeyMatchesAlgorithm (key_Public lib key) algorithm \<and> ssh_NewPublicKey lib key = Some pub \<and> ssh_Type lib pub = sshKeyType algorithm \<and>
    ssh_MarshalAuthorizedKey lib pub = ssh_authorizedKey res @ [LF] \<and> ssh_authorizedKey res \<noteq> [] \<and>
    CR \<notin> set (ssh_authorizedKey res) \<and> LF \<notin> set (ssh_authorizedKey res) \<and>
    ssh_fingerprint res = ssh_FingerprintSHA256 lib pub \<and> ssh_fingerprint res = ''SHA256:'' @ base64std_EncodeToString digest \<and> length digest = 32"
proof -
  obtain r key0 marshal0 where "ssh_result lib marshal0 algorithm key0 = Some res"
    using assms unfolding GenerateSSHKeyPair_def by (auto split: if_splits option.splits prod.splits)
  then obtain key pub where k: "ssh_algorithm res = algorithm" "ssh_ParseRawPrivateKey lib (ssh_private res) = Some (Some key)"
      "sshPublicKeyMatchesAlgorithm (key_Public lib key) algorithm" "ssh_NewPublicKey lib key = Some pub" "ssh_Type lib pub = sshKeyType algorithm"
      "hasExactlyOneTerminalLF (ssh_MarshalAuthorizedKey lib pub)" "ssh_authorizedKey res = strings_TrimSuffix (ssh_MarshalAuthorizedKey lib pub) [LF]"
      "ssh_authorizedKey res \<noteq> []" "\<not> strings_ContainsAny (ssh_authorizedKey res) [CR, LF]"
      "ssh_fingerprint res = ssh_FingerprintSHA256 lib pub" "validSHA256Fingerprint (ssh_fingerprint res)"
    unfolding ssh_result_def Let_def by (auto split: if_splits Option.bind_splits)
  obtain digest where "length digest = 32" "ssh_fingerprint res = ''SHA256:'' @ base64std_EncodeToString digest"
    using k(11) by (auto simp: validSHA256Fingerprint_def split: if_splits option.splits)
  moreover have "ssh_MarshalAuthorizedKey lib pub = ssh_authorizedKey res @ [LF]"
  proof -
    obtain w where w: "ssh_MarshalAuthorizedKey lib pub = w @ [LF]"
      using k(6) by (cases "ssh_MarshalAuthorizedKey lib pub" rule: rev_cases) (auto simp: hasExactlyOneTerminalLF_def)
    then show ?thesis using k(7) by (simp add: strings_TrimSuffix_def strings_HasSuffix_def)
  qed
  moreover have "CR \<notin> set (ssh_authorizedKey res)" "LF \<notin> set (ssh_authorizedKey res)"
    using k(9) by (auto simp: strings_ContainsAny_def list_ex_iff)
  ultimately show ?thesis using k by blast
qed

lemma invalid_parameters_draw_nothing:
  "validateX509CSRParameters ilib p = None \<Longrightarrow> GenerateX509CSR lib ilib p random = (Inl ErrInvalidParameters, random)"
  "\<not> validSSHAlgorithm algorithm \<Longrightarrow> GenerateSSHKeyPair lib marshal algorithm random = (Inl ErrInvalidParameters, random)"
  by (simp_all add: GenerateX509CSR_def GenerateSSHKeyPair_def)

section \<open>Properties\<close>

text \<open>C22. Certificate requests. Whatever the random source and the libraries of keys, encodings and certificates do, a request that is
  returned reads back as one whose signature checks, in the algorithm asked for, whose public key is that of the private key
  returned with it, and which names what was asked for and nothing else: the common name and the serial number, every
  attribute of the subject with its values, the DNS names and e-mail addresses in order, the addresses, and the
  URIs byte for byte; it has no extension if no such name was asked for, and else only that of these names, which is
  not critical.\<close>

theorem csr_names_what_was_asked:
  assumes "GenerateX509CSR lib ilib p random = (Inr res, random')"
  shows "\<exists>key csr der dns email ips uris. x509_algorithm res = xp_Algorithm p \<and> parsePKCS8Signer lib (x509_private res) = Some key \<and>
    decode_one lib ''CERTIFICATE REQUEST'' (x509_csrPEM res) = Some der \<and>
    (ParseCertificateRequest lib der = Some csr \<or> ParseCertificateRequest lib der = None \<and> parseCSRWithIPvFuture lib ilib der = Some csr) \<and>
    CheckSignature lib csr \<and> MarshalPKIXPublicKey lib key = Some (cs_RawSubjectPublicKeyInfo csr) \<and>
    signatureAlgorithm_of (xp_Algorithm p) = Some (cs_SignatureAlgorithm csr) \<and>
    xn_CommonName (cs_Subject csr) = asked_name CommonName p \<and> xn_SerialNumber (cs_Subject csr) = asked_name SerialNumber p \<and>
    mset (elements_of (xn_Country (cs_Subject csr))) = mset (asked_subject Country p) \<and>
    mset (elements_of (xn_Organization (cs_Subject csr))) = mset (asked_subject Organization p) \<and>
    mset (elements_of (xn_OrganizationalUnit (cs_Subject csr))) = mset (asked_subject OrganizationalUnit p) \<and>
    mset (elements_of (xn_Locality (cs_Subject csr))) = mset (asked_subject Locality p) \<and>
    mset (elements_of (xn_Province (cs_Subject csr))) = mset (asked_subject Province p) \<and>
    mset (elements_of (xn_StreetAddress (cs_Subject csr))) = mset (asked_subject StreetAddress p) \<and>
    mset (elements_of (xn_PostalCode (cs_Subject csr))) = mset (asked_subject PostalCode p) \<and>
    cs_DNSNames csr = asked DNSNames p \<and> cs_EmailAddresses csr = asked EmailAddresses p \<and>
    list_all2 (\<lambda>ip v. \<exists>address. netip_ParseAddr ilib v = Some address \<and> na_String address = v \<and> ip_Equal ip (na_AsSlice address))
      (cs_IPAddresses csr) (asked IPAddresses p) \<and>
    parseCSRSubjectAltNames lib ilib (cs_Extensions csr) = Some (dns, email, ips, uris) \<and> map uv_String uris = asked URIs p \<and>
    only_san (cs_Extensions csr) (asked DNSNames p = [] \<and> asked IPAddresses p = [] \<and> asked EmailAddresses p = [] \<and> asked URIs p = [])"
proof -
  obtain v key csr der where g: "validateX509CSRParameters ilib p = Some v" "x509_algorithm res = vx_algorithm v"
      "parsePKCS8Signer lib (x509_private res) = Some key" "MarshalPKIXPublicKey lib key = Some (cs_RawSubjectPublicKeyInfo csr)"
      "decode_one lib ''CERTIFICATE REQUEST'' (x509_csrPEM res) = Some der" "read_csr lib ilib (vx_uris v) der = Some csr"
      "cs_SignatureAlgorithm csr = vx_signatureAlgorithm v" "CheckSignature lib csr" "x509CSRMatches lib ilib csr v"
    using GenerateX509CSR_Inr [OF assms] by blast
  note v = validated_as_asked [OF g(1)]
  note m = CSRMatches [OF g(9)]
  obtain dns email ips uris where u: "parseCSRSubjectAltNames lib ilib (cs_Extensions csr) = Some (dns, email, ips, uris)" "map uv_String uris = asked URIs p"
    using m(7) v(5) by metis
  have ips: "list_all2 (\<lambda>ip w. \<exists>address. netip_ParseAddr ilib w = Some address \<and> na_String address = w \<and> ip_Equal ip (na_AsSlice address))
      (cs_IPAddresses csr) (asked IPAddresses p)"
  proof -
    have "valid_ip ilib w = Some i \<Longrightarrow> \<exists>address. netip_ParseAddr ilib w = Some address \<and> na_String address = w \<and> na_AsSlice address = i" for w i
      by (auto simp: valid_ip_def split: option.splits if_splits)
    then show ?thesis using m(6) v(6) unfolding list_all2_conv_all_nth by metis
  qed
  have none: "vx_ipAddresses v = [] \<longleftrightarrow> asked IPAddresses p = []" "vx_uris v = [] \<longleftrightarrow> asked URIs p = []"
    using v(5,6) by (auto simp flip: length_0_conv dest!: list_all2_lengthD arg_cong [of _ _ length])
  have san: "only_san (cs_Extensions csr) (asked DNSNames p = [] \<and> asked IPAddresses p = [] \<and> asked EmailAddresses p = [] \<and> asked URIs p = [])"
    using m(8) unfolding none v(3,4) .
  have subject: "mset (elements_of (xn_Country (cs_Subject csr))) = mset (asked_subject Country p)"
    "mset (elements_of (xn_Organization (cs_Subject csr))) = mset (asked_subject Organization p)"
    "mset (elements_of (xn_OrganizationalUnit (cs_Subject csr))) = mset (asked_subject OrganizationalUnit p)"
    "mset (elements_of (xn_Locality (cs_Subject csr))) = mset (asked_subject Locality p)"
    "mset (elements_of (xn_Province (cs_Subject csr))) = mset (asked_subject Province p)"
    "mset (elements_of (xn_StreetAddress (cs_Subject csr))) = mset (asked_subject StreetAddress p)"
    "mset (elements_of (xn_PostalCode (cs_Subject csr))) = mset (asked_subject PostalCode p)"
    unfolding v(9-15) [symmetric] by (rule m(3); simp)+
  have read: "ParseCertificateRequest lib der = Some csr \<or> ParseCertificateRequest lib der = None \<and> parseCSRWithIPvFuture lib ilib der = Some csr"
    using g(6) by (auto simp: read_csr_def split: option.splits if_splits)
  show ?thesis
    by (rule exI [of _ key], rule exI [of _ csr], rule exI [of _ der], rule exI [of _ dns], rule exI [of _ email], rule exI [of _ ips], rule exI [of _ uris],
        intro conjI) (use g v m(1,2,4,5) u ips subject read san in simp_all)
qed

section \<open>Witnesses\<close>

definition demo_subject :: pkix_name where "demo_subject = zero_name\<lparr>xn_CommonName := ''a''\<rparr>"

definition demo_csr :: "unit certificate_request" where
  "demo_csr = \<lparr>cs_Raw = [], cs_RawTBSCertificateRequest = [], cs_RawSubjectPublicKeyInfo = ''spki'', cs_RawSubject = [],
     cs_RawSignatureAlgorithm = [], cs_Version = 0, cs_Signature = [], cs_SignatureAlgorithm = PureEd25519, cs_PublicKey = (),
     cs_Subject = demo_subject, cs_DNSNames = [''a.example''], cs_EmailAddresses = [], cs_IPAddresses = [], cs_URIs = [],
     cs_Extensions = [\<lparr>ex_Id = [2, 5, 29, 17], ex_Critical = False, ex_Value = []\<rparr>]\<rparr>"

definition demo_key_lib :: "(unit, unit, unit, nat) key_lib" where
  "demo_key_lib = \<lparr>ed25519_GenerateKey = (\<lambda>r. (Some (), r + 1)), ecdsa_GenerateKey = (\<lambda>_ r. (None, r)), rsa_GenerateKey = (\<lambda>_ r. (None, r)),
     key_Public = (\<lambda>_. Ed25519View 32), pem_EncodeToMemory = pb_Type,
     pem_Decode = (\<lambda>t. Some (\<lparr>pb_Type = t, pb_Headers = [], pb_Bytes = ''der''\<rparr>, [])),
     MarshalPKCS8PrivateKey = (\<lambda>_. Some ''der''), ParsePKCS8PrivateKey = (\<lambda>_. Some (Some ())), MarshalPKIXPublicKey = (\<lambda>_. Some ''spki''),
     ParsePKIXPublicKey = Some o (\<lambda>_. ()), CreateCertificateRequest = (\<lambda>_ _ r. (Some ''der'', r)), ParseCertificateRequest = (\<lambda>_. Some demo_csr),
     CheckSignature = (\<lambda>_. True), asn1_CSR = (\<lambda>_. None), asn1_RDNSequence = (\<lambda>_. None), asn1_Attribute = (\<lambda>_. None),
     asn1_Extensions = (\<lambda>_. None),
     asn1_Names = (\<lambda>_. Some ([\<lparr>rv_Class = 2, rv_Tag = 2, rv_IsCompound = False, rv_Bytes = ''a.example'', rv_FullBytes = []\<rparr>], [])),
     asn1_Marshal = (\<lambda>_. None), kl_sha256 = (\<lambda>_. replicate 32 (CHR 0x00)), ssh_NewPublicKey = (\<lambda>_. None), ssh_Type = (\<lambda>_. []),
     ssh_Marshal = (\<lambda>_. []), ssh_ParseRawPrivateKey = (\<lambda>_. None), ssh_MarshalAuthorizedKey = (\<lambda>_. []), ssh_FingerprintSHA256 = (\<lambda>_. [])\<rparr>"

definition demo_csr_parameters :: X509CSRParameters where
  "demo_csr_parameters = \<lparr>xp_Algorithm = X509AlgorithmEd25519,
     xp_Subject = Some \<lparr>CommonName = Some ''a'', SerialNumber = None, Country = None, Organization = None, OrganizationalUnit = None,
       Locality = None, Province = None, StreetAddress = None, PostalCode = None\<rparr>,
     xp_SANs = Some \<lparr>DNSNames = Some [''a.example''], IPAddresses = None, EmailAddresses = None, URIs = None\<rparr>\<rparr>"

lemma demo_csr_generated: "is_ok (fst (GenerateX509CSR demo_key_lib demo_identity_lib demo_csr_parameters (Some 0)))"
  by code_simp

theorem csr_names_what_was_asked_witness:
  "\<exists>res csr der. fst (GenerateX509CSR demo_key_lib demo_identity_lib demo_csr_parameters (Some 0)) = Inr res \<and>
     ParseCertificateRequest demo_key_lib der = Some csr \<and> cs_DNSNames csr = [''a.example'']"
proof -
  obtain res where res: "fst (GenerateX509CSR demo_key_lib demo_identity_lib demo_csr_parameters (Some 0)) = Inr res"
    using demo_csr_generated by (auto simp: is_ok_conv)
  obtain r' where "GenerateX509CSR demo_key_lib demo_identity_lib demo_csr_parameters (Some 0) = (Inr res, r')"
    using res by (metis prod.collapse)
  from csr_names_what_was_asked [OF this] obtain csr der where "cs_DNSNames csr = asked DNSNames demo_csr_parameters"
      "ParseCertificateRequest demo_key_lib der = Some csr \<or> ParseCertificateRequest demo_key_lib der = None"
    by blast
  then show ?thesis using res by (auto simp: asked_def demo_csr_parameters_def elements_of_def demo_key_lib_def)
qed

end
