(* ===== verification/JSON_Decoder.thy ===== *)
theory JSON_Decoder
  imports Strict_JSON Auth_Config "HOL-Library.Sublist"
begin

text \<open>
  What the handlers use of package encoding/json: reading an object or an array token by token with the
  raw texts of its members, and unmarshalling a raw text as a string, an integer or a boolean.

  The package is part of the language's library. Its decoder accepts exactly JSON texts nested at most
  10000 deep; a raw message is the text of a value without the white space around it. A string is decoded
  leniently: an unpaired surrogate escape, and a byte that is not part of a rune, become U+FFFD.
\<close>

section \<open>Definitions\<close>

subsection \<open>Scanning\<close>

definition is_hex_char :: "char \<Rightarrow> bool" where
  "is_hex_char c \<longleftrightarrow> from_hex_char c \<noteq> None"

text \<open>The text after a string whose opening quote has been read.\<close>

fun scan_string :: "string \<Rightarrow> string option" where
  "scan_string [] = None"
| "scan_string (c # s) =
     (if c = CHR 0x22 then Some s
      else if c = CHR 0x5C then
        (case s of
           [] \<Rightarrow> None
         | e # s1 \<Rightarrow>
             if simple_escape e \<noteq> None then scan_string s1
             else if e = CHR ''u'' then
               (if 4 \<le> length s1 \<and> list_all is_hex_char (take 4 s1) then scan_string (drop 4 s1) else None)
             else None)
      else if (of_char c :: nat) < 0x20 then None
      else scan_string s)"

subsection \<open>Strings\<close>

text \<open>Decoding the characters of a string, after the opening quote and up to the closing quote.\<close>

definition replacement :: string where "replacement = [CHR 0xEF, CHR 0xBF, CHR 0xBD]"

definition getu4 :: "string \<Rightarrow> nat option" where
  "getu4 s =
     (if 6 \<le> length s \<and> s ! 0 = CHR 0x5C \<and> s ! 1 = CHR ''u''
      then map_option code_unit (hex_DecodeString (take 4 (drop 2 s))) else None)"

definition is_surrogate :: "nat \<Rightarrow> bool" where
  "is_surrogate r \<longleftrightarrow> 0xD800 \<le> r \<and> r \<le> 0xDFFF"

definition utf16_DecodeRune :: "nat \<Rightarrow> nat \<Rightarrow> nat" where
  "utf16_DecodeRune hi lo =
     (if 0xD800 \<le> hi \<and> hi < 0xDC00 \<and> 0xDC00 \<le> lo \<and> lo < 0xE000
      then 0x10000 + (hi - 0xD800) * 1024 + (lo - 0xDC00) else 0xFFFD)"

text \<open>The rune of an escape at the head of the input, and how many bytes it takes.\<close>

definition unquote_escape :: "string \<Rightarrow> nat \<times> nat" where
  "unquote_escape s =
     (case getu4 s of
        None \<Rightarrow> (0xFFFD, 6)
      | Some r \<Rightarrow>
          if is_surrogate r
          then (case getu4 (drop 6 s) of
             None \<Rightarrow> (0xFFFD, 6)
           | Some r1 \<Rightarrow> if utf16_DecodeRune r r1 \<noteq> 0xFFFD then (utf16_DecodeRune r r1, 12) else (0xFFFD, 6))
          else (r, 6))"

lemma escape_size: "(r, n) = unquote_escape s \<Longrightarrow> n = 6 \<or> n = 12"
  by (auto simp: unquote_escape_def split: option.splits if_splits)

function unquote :: "string \<Rightarrow> string" where
  "unquote [] = []"
| "unquote (c # s) =
     (if c = CHR 0x22 then []
      else if c = CHR 0x5C then
        (case s of
           [] \<Rightarrow> []
         | e # s1 \<Rightarrow>
             (case simple_escape e of
                Some w \<Rightarrow> w # unquote s1
              | None \<Rightarrow> (case unquote_escape (c # s) of (r, n) \<Rightarrow> utf8_EncodeRune r @ unquote (drop n (c # s)))))
      else if rune_size (c # s) = 0 then replacement @ unquote s
      else take (rune_size (c # s)) (c # s) @ unquote (drop (rune_size (c # s)) (c # s)))"
  by pat_completeness auto

termination unquote
  by (relation "measure length") (auto dest!: escape_size)

subsection \<open>Values\<close>

definition maxNestingDepth :: nat where "maxNestingDepth = 10000"

type_synonym json_scanner = "string \<Rightarrow> string option"

definition raw_between :: "string \<Rightarrow> string \<Rightarrow> string" where
  "raw_between s rest = take (length s - length rest) s"

text \<open>The members of an object and the elements of an array, with their raw texts, up to the closing bracket. Each
  round consumes input; the test of the length makes the recursion well-founded for any scanner of values.\<close>

function scan_members :: "json_scanner \<Rightarrow> (string \<times> string) list \<Rightarrow> string \<Rightarrow> ((string \<times> string) list \<times> string) option" where
  "scan_members pv members s =
     (case consume (CHR 0x22) s of
        None \<Rightarrow> None
      | Some s0 \<Rightarrow> (case scan_string s0 of
          None \<Rightarrow> None
        | Some s1 \<Rightarrow> (case consume (CHR '':'') (skipWhitespace s1) of
            None \<Rightarrow> None
          | Some s2 \<Rightarrow> (case pv (skipWhitespace s2) of
              None \<Rightarrow> None
            | Some s3 \<Rightarrow>
                let members' = members @ [(unquote s0, raw_between (skipWhitespace s2) s3)]; s4 = skipWhitespace s3 in
                (case consume (CHR 0x7D) s4 of
                   Some s5 \<Rightarrow> Some (members', s5)
                 | None \<Rightarrow> (case consume (CHR '','') s4 of
                     None \<Rightarrow> None
                   | Some s5 \<Rightarrow> if length s5 < length s then scan_members pv members' (skipWhitespace s5) else None))))))"
  by pat_completeness auto

termination scan_members
  by (relation "measure (\<lambda>(pv, members, s). length s)") (auto intro: le_less_trans [OF skipWhitespace_length])

function scan_elements :: "json_scanner \<Rightarrow> string list \<Rightarrow> string \<Rightarrow> (string list \<times> string) option" where
  "scan_elements pv elements s =
     (case pv s of
        None \<Rightarrow> None
      | Some s1 \<Rightarrow>
          let elements' = elements @ [raw_between s s1]; s2 = skipWhitespace s1 in
          (case consume (CHR '']'') s2 of
             Some s3 \<Rightarrow> Some (elements', s3)
           | None \<Rightarrow> (case consume (CHR '','') s2 of
               None \<Rightarrow> None
             | Some s3 \<Rightarrow> if length s3 < length s then scan_elements pv elements' (skipWhitespace s3) else None)))"
  by pat_completeness auto

termination scan_elements
  by (relation "measure (\<lambda>(pv, elements, s). length s)") (auto intro: le_less_trans [OF skipWhitespace_length])

declare scan_members.simps [simp del] scan_elements.simps [simp del]

text \<open>On the input after the opening bracket.\<close>

definition scan_object :: "json_scanner \<Rightarrow> string \<Rightarrow> ((string \<times> string) list \<times> string) option" where
  "scan_object pv s =
     (let s1 = skipWhitespace s in
      case consume (CHR 0x7D) s1 of Some s2 \<Rightarrow> Some ([], s2) | None \<Rightarrow> scan_members pv [] s1)"

definition scan_array :: "json_scanner \<Rightarrow> string \<Rightarrow> (string list \<times> string) option" where
  "scan_array pv s =
     (let s1 = skipWhitespace s in
      case consume (CHR '']'') s1 of Some s2 \<Rightarrow> Some ([], s2) | None \<Rightarrow> scan_elements pv [] s1)"

function scan_value :: "nat \<Rightarrow> json_scanner" where
  "scan_value depth s =
     (case s of
        [] \<Rightarrow> None
      | c # r \<Rightarrow>
          if c = CHR 0x7B \<or> c = CHR ''['' then
            (if maxNestingDepth \<le> depth then None
             else if c = CHR 0x7B then map_option snd (scan_object (\<lambda>x. scan_value (depth + 1) x) r)
             else map_option snd (scan_array (\<lambda>x. scan_value (depth + 1) x) r))
          else if c = CHR 0x22 then scan_string r
          else if c = CHR ''t'' then consumeLiteral ''true'' s
          else if c = CHR ''f'' then consumeLiteral ''false'' s
          else if c = CHR ''n'' then consumeLiteral ''null'' s
          else if c = CHR ''-'' \<or> is_json_digit c then map_option snd (parseNumber s)
          else None)"
  by pat_completeness auto

termination scan_value
  by (relation "measure (\<lambda>(depth, s). maxNestingDepth - depth)") auto

declare scan_value.simps [simp del]

subsection \<open>Documents\<close>

text \<open>The members of a document that is an object, its duplicate names included; the elements of an array.\<close>

definition ends :: "('a \<times> string) option \<Rightarrow> 'a option" where
  "ends r = (case r of None \<Rightarrow> None | Some (x, rest) \<Rightarrow> if list_all is_json_space rest then Some x else None)"

definition decoder_object :: "string \<Rightarrow> (string \<times> string) list option" where
  "decoder_object raw =
     (case consume (CHR 0x7B) (skipWhitespace raw) of None \<Rightarrow> None | Some s \<Rightarrow> ends (scan_object (scan_value 0) s))"

definition decoder_array :: "string \<Rightarrow> string list option" where
  "decoder_array raw =
     (case consume (CHR ''['') (skipWhitespace raw) of None \<Rightarrow> None | Some s \<Rightarrow> ends (scan_array (scan_value 0) s))"

text \<open>The text of the single value of a document.\<close>

definition single_value :: "string \<Rightarrow> string option" where
  "single_value raw =
     (let s = skipWhitespace raw in ends (map_option (\<lambda>rest. (raw_between s rest, rest)) (scan_value 0 s)))"

text \<open>\<open>json.Unmarshal\<close>; a null leaves the variable as it is.\<close>

definition Unmarshal_string :: "string \<Rightarrow> string option" where
  "Unmarshal_string raw =
     (case single_value raw of
        None \<Rightarrow> None
      | Some v \<Rightarrow> if v = ''null'' then Some [] else if hd v = CHR 0x22 then Some (unquote (tl v)) else None)"

definition Unmarshal_int :: "string \<Rightarrow> int option" where
  "Unmarshal_int raw =
     (case single_value raw of
        None \<Rightarrow> None
      | Some v \<Rightarrow> if v = ''null'' then Some 0 else if hd v = CHR ''-'' \<or> is_json_digit (hd v) then strconv_Atoi v else None)"

definition Unmarshal_bool :: "string \<Rightarrow> bool option" where
  "Unmarshal_bool raw =
     (case single_value raw of
        None \<Rightarrow> None
      | Some v \<Rightarrow> if v = ''null'' \<or> v = ''false'' then Some False else if v = ''true'' then Some True else None)"

section \<open>Lemmas\<close>

lemma skip_suffix: "suffix (skipWhitespace s) s"
  by (simp add: skipWhitespace_def suffix_dropWhile)

lemma consume_suffix: "consume c s = Some r \<Longrightarrow> strict_suffix r s"
  by (auto simp: consume_def strict_suffix_def suffix_def split: list.splits if_splits)

lemma skip_consume_suffix: "consume c (skipWhitespace s) = Some r \<Longrightarrow> strict_suffix r s"
  using skip_suffix consume_suffix suffix_order.less_le_trans by blast

lemma literal_suffix: "consumeLiteral w s = Some r \<Longrightarrow> w \<noteq> [] \<Longrightarrow> strict_suffix r s"
  by (auto simp: consumeLiteral_def HasPrefix_iff strict_suffix_def suffix_def split: if_splits)

lemma number_suffix: "parseNumber s = Some (n, r) \<Longrightarrow> strict_suffix r s"
  using parseNumber_prefix [of s n r] number_value_sound [of s n r 0] by (auto simp: strict_suffix_def suffix_def)

lemma scan_string_suffix: "scan_string s = Some r \<Longrightarrow> strict_suffix r s"
proof (induction s arbitrary: r rule: scan_string.induct)
  case (2 c s)
  have "suffix r s"
  proof (cases "c = CHR 0x22")
    case False
    note c = False
    show ?thesis
    proof (cases "c = CHR 0x5C")
      case True
      then obtain e s1 where s: "s = e # s1" using 2(4) by (auto split: list.splits)
      show ?thesis
      proof (cases "simple_escape e")
        case None
        then have "e = CHR ''u''" "4 \<le> length s1" "list_all is_hex_char (take 4 s1)" "scan_string (drop 4 s1) = Some r"
          using 2(4) s True by (auto split: if_splits)
        then have "strict_suffix r (drop 4 s1)" using 2(2) [OF c True s] None by simp
        moreover have "suffix (drop 4 s1) s" unfolding s by (simp add: suffix_Cons suffix_drop)
        ultimately show ?thesis by (rule suffix_order.less_imp_le [OF suffix_order.less_le_trans])
      qed (use 2 c True s in \<open>auto simp: suffix_Cons strict_suffix_def\<close>)
    qed (use 2 c in \<open>auto simp: strict_suffix_def split: if_splits\<close>)
  qed (use 2 in simp)
  then show ?case by (auto simp: strict_suffix_def suffix_def)
qed simp


text \<open>A scanner of values leaves a proper suffix of its input. Then every round of the two loops leaves less input
  than it has, so the tests of the length never fail and the loops are those of the library.\<close>

definition eats :: "json_scanner \<Rightarrow> bool" where
  "eats pv \<longleftrightarrow> (\<forall>s r. pv s = Some r \<longrightarrow> strict_suffix r s)"

lemmas suffix_trans = suffix_order.less_trans suffix_order.less_le_trans suffix_order.le_less_trans

lemma member_round_suffix:
  assumes "eats pv" "consume (CHR 0x22) s = Some s0" "scan_string s0 = Some s1"
    "consume (CHR '':'') (skipWhitespace s1) = Some s2" "pv (skipWhitespace s2) = Some s3"
    "consume c (skipWhitespace s3) = Some s5"
  shows "strict_suffix s5 s"
proof -
  have "strict_suffix s3 (skipWhitespace s2)" using assms(1,5) by (simp add: eats_def)
  then have "strict_suffix s3 s2" using skip_suffix suffix_order.less_le_trans by blast
  then have "strict_suffix s5 s2" using skip_consume_suffix [OF assms(6)] suffix_order.less_trans by blast
  then have "strict_suffix s5 s1" using skip_consume_suffix [OF assms(4)] suffix_order.less_trans by blast
  then have "strict_suffix s5 s0" using scan_string_suffix [OF assms(3)] suffix_order.less_trans by blast
  then show ?thesis using consume_suffix [OF assms(2)] suffix_order.less_trans by blast
qed

lemma strict_suffix_length: "strict_suffix a b \<Longrightarrow> length a < length b"
  by (auto simp: strict_suffix_def suffix_def)

text \<open>The loops without the test.\<close>

lemma scan_members_unfold:
  assumes "eats pv"
  shows "scan_members pv members s =
    (case consume (CHR 0x22) s of
        None \<Rightarrow> None
      | Some s0 \<Rightarrow> (case scan_string s0 of
          None \<Rightarrow> None
        | Some s1 \<Rightarrow> (case consume (CHR '':'') (skipWhitespace s1) of
            None \<Rightarrow> None
          | Some s2 \<Rightarrow> (case pv (skipWhitespace s2) of
              None \<Rightarrow> None
            | Some s3 \<Rightarrow>
                let members' = members @ [(unquote s0, raw_between (skipWhitespace s2) s3)]; s4 = skipWhitespace s3 in
                (case consume (CHR 0x7D) s4 of
                   Some s5 \<Rightarrow> Some (members', s5)
                 | None \<Rightarrow> (case consume (CHR '','') s4 of
                     None \<Rightarrow> None
                   | Some s5 \<Rightarrow> scan_members pv members' (skipWhitespace s5)))))))"
  by (subst scan_members.simps)
    (auto simp del: consume_Some split: option.splits simp: Let_def dest: strict_suffix_length [OF member_round_suffix [OF assms]])

lemma scan_elements_unfold:
  assumes "eats pv"
  shows "scan_elements pv elements s =
    (case pv s of
        None \<Rightarrow> None
      | Some s1 \<Rightarrow>
          let elements' = elements @ [raw_between s s1]; s2 = skipWhitespace s1 in
          (case consume (CHR '']'') s2 of
             Some s3 \<Rightarrow> Some (elements', s3)
           | None \<Rightarrow> (case consume (CHR '','') s2 of
               None \<Rightarrow> None
             | Some s3 \<Rightarrow> scan_elements pv elements' (skipWhitespace s3))))"
proof -
  have "length s3 < length s" if "pv s = Some s1" "consume c (skipWhitespace s1) = Some s3" for s1 s3 c
    using assms that(1) skip_consume_suffix [OF that(2)] strict_suffix_length suffix_order.less_trans unfolding eats_def by blast
  then show ?thesis
    by (subst scan_elements.simps) (auto simp del: consume_Some split: option.splits simp: Let_def)
qed

lemma scan_members_suffix:
  assumes "eats pv"
  shows "scan_members pv members s = Some (ms, r) \<Longrightarrow> strict_suffix r s"
  using assms
proof (induction pv members s rule: scan_members.induct)
  case (1 pv members s)
  obtain s0 s1 s2 s3 where p: "consume (CHR 0x22) s = Some s0" "scan_string s0 = Some s1"
      "consume (CHR '':'') (skipWhitespace s1) = Some s2" "pv (skipWhitespace s2) = Some s3"
    using 1(2) by (subst (asm) scan_members.simps) (auto simp del: consume_Some split: option.splits)
  note round = member_round_suffix [OF 1(3) p]
  show ?case
  proof (cases "consume (CHR 0x7D) (skipWhitespace s3)")
    case (Some s5)
    then have "r = s5" using 1(2) p by (subst (asm) scan_members.simps) (simp del: consume_Some)
    then show ?thesis using round [OF Some] by simp
  next
    case None
    obtain s5 where c: "consume (CHR '','') (skipWhitespace s3) = Some s5" "length s5 < length s"
        "scan_members pv (members @ [(unquote s0, raw_between (skipWhitespace s2) s3)]) (skipWhitespace s5) = Some (ms, r)"
      using 1(2) p None by (subst (asm) scan_members.simps) (auto simp del: consume_Some split: option.splits if_splits)
    have "strict_suffix r (skipWhitespace s5)" by (rule 1(1) [OF p refl refl None c 1(3)])
    then show ?thesis using round [OF c(1)] skip_suffix suffix_trans by blast
  qed
qed

lemma scan_elements_suffix:
  assumes "eats pv"
  shows "scan_elements pv elements s = Some (es, r) \<Longrightarrow> strict_suffix r s"
  using assms
proof (induction pv elements s rule: scan_elements.induct)
  case (1 pv elements s)
  obtain s1 where p: "pv s = Some s1" using 1(2) by (subst (asm) scan_elements.simps) (auto split: option.splits)
  have round: "strict_suffix s3 s" if "consume c (skipWhitespace s1) = Some s3" for c s3
    using 1(3) p skip_consume_suffix [OF that] suffix_order.less_trans unfolding eats_def by blast
  show ?case
  proof (cases "consume (CHR '']'') (skipWhitespace s1)")
    case (Some s3)
    then have "r = s3" using 1(2) p by (subst (asm) scan_elements.simps) (simp del: consume_Some)
    then show ?thesis using round [OF Some] by simp
  next
    case None
    obtain s3 where c: "consume (CHR '','') (skipWhitespace s1) = Some s3" "length s3 < length s"
        "scan_elements pv (elements @ [raw_between s s1]) (skipWhitespace s3) = Some (es, r)"
      using 1(2) p None by (subst (asm) scan_elements.simps) (auto simp del: consume_Some split: option.splits if_splits)
    have "strict_suffix r (skipWhitespace s3)" by (rule 1(1) [OF p refl refl None c 1(3)])
    then show ?thesis using round [OF c(1)] skip_suffix suffix_trans by blast
  qed
qed

lemma containers_suffix:
  assumes "eats pv"
  shows "scan_object pv s = Some (ms, r) \<Longrightarrow> strict_suffix r s" "scan_array pv s = Some (es, r) \<Longrightarrow> strict_suffix r s"
proof -
  assume "scan_object pv s = Some (ms, r)"
  then show "strict_suffix r s"
    using skip_consume_suffix scan_members_suffix [OF assms] skip_suffix suffix_trans
    by (auto simp: scan_object_def Let_def simp del: consume_Some split: option.splits) blast+
next
  assume "scan_array pv s = Some (es, r)"
  then show "strict_suffix r s"
    using skip_consume_suffix scan_elements_suffix [OF assms] skip_suffix suffix_trans
    by (auto simp: scan_array_def Let_def simp del: consume_Some split: option.splits) blast+
qed

lemma strict_suffix_Cons: "strict_suffix r s \<Longrightarrow> strict_suffix r (c # s)"
  by (auto simp: strict_suffix_def suffix_def)

lemma scan_value_step:
  assumes "d < maxNestingDepth \<Longrightarrow> eats (\<lambda>x. scan_value (d + 1) x)" "scan_value d s = Some r"
  shows "strict_suffix r s"
proof (cases s)
  case Nil
  then show ?thesis using assms(2) by (simp add: scan_value.simps)
next
  case (Cons c t)
  note v = assms(2) [unfolded Cons, simplified scan_value.simps [of d "c # t"] list.case]
  consider "c = CHR 0x7B \<or> c = CHR ''[''" | "c = CHR 0x22" | "c = CHR ''t'' \<or> c = CHR ''f'' \<or> c = CHR ''n''"
    | "c \<notin> {CHR 0x7B, CHR ''['', CHR 0x22, CHR ''t'', CHR ''f'', CHR ''n''}" by blast
  then show ?thesis
  proof cases
    case 1
    then have d: "d < maxNestingDepth" using v by (auto split: if_splits)
    have e: "eats (scan_value (Suc d))" using assms(1) [OF d] by simp
    have "strict_suffix r t"
      using v 1 containers_suffix(1) [OF e, of t] containers_suffix(2) [OF e, of t] by (auto split: if_splits)
    then show ?thesis unfolding Cons by (rule strict_suffix_Cons)
  next
    case 2
    then show ?thesis unfolding Cons using v by (auto dest!: scan_string_suffix intro: strict_suffix_Cons)
  next
    case 3
    then show ?thesis unfolding Cons using v by (auto dest!: literal_suffix)
  next
    case 4
    then show ?thesis unfolding Cons using v by (auto split: if_splits dest!: number_suffix)
  qed
qed

lemma scan_value_eats: "eats (scan_value d)"
proof (induction "maxNestingDepth - d" arbitrary: d rule: less_induct)
  case less
  show ?case
    unfolding eats_def
  proof (intro allI impI)
    fix s r
    assume "scan_value d s = Some r"
    then show "strict_suffix r s" by (rule scan_value_step [rotated]) (rule less, simp)
  qed
qed

end
