(* ===== verification/Requests.thy ===== *)
theory Requests
  imports JSON_Decoder HTTP_Security "HOL-Library.Monad_Syntax" "HOL-Library.Multiset"
begin

text \<open>
  The bodies of requests: reading them within a limit, strict objects and the fields of every operation, of
  \<open>handler.go\<close>, \<open>attestation_http.go\<close> and \<open>generate_http.go\<close> in \<open>backend/internal/httpapi\<close>.

  The errors of the parsers all lead to the same response, so a parser that may fail returns an option. The
  fields of an object are kept in the order of the text. A range over a map goes through it in any order: where
  that can matter, the order is an argument.

  The results are that generation reads strings exactly as the strict parser of attestations does, although it uses
  the lenient decoder of the library, and that the subject alternative names do not depend on the order in which
  the map of their kinds is gone through.
\<close>

section \<open>Definitions\<close>

subsection \<open>Reading bodies\<close>

definition MaxRequestBodyBytes :: nat where "MaxRequestBodyBytes = 8 * 2 ^ 20"
definition MaxGenerateRequestBodyBytes :: nat where "MaxGenerateRequestBodyBytes = 64 * 2 ^ 10"
definition maxAttestationVerifyBodyBytes :: nat where "maxAttestationVerifyBodyBytes = 12 * 2 ^ 20"
definition maxAttestationJWSComponentBytes :: nat where "maxAttestationJWSComponentBytes = 64 * 2 ^ 10"
definition maxAttestationJWSObjectBytes :: nat where "maxAttestationJWSObjectBytes = 192 * 2 ^ 10"
definition maxAttestationBindingFieldBytes :: nat where "maxAttestationBindingFieldBytes = 2 ^ 10"
definition maxAttestationCanonicalBindingSize :: nat where "maxAttestationCanonicalBindingSize = 4 * 2 ^ 10"

text \<open>What the client sends: the bytes, and whether the connection fails after them.\<close>

record request_body =
  rb_data :: string
  rb_broken :: bool

datatype body_error = BodyTooLarge | BodyContext ctx_err | BodyInvalid

text \<open>\<open>io.ReadAll\<close> on an \<open>http.MaxBytesReader\<close>.\<close>

definition read_all :: "nat \<Rightarrow> request_body \<Rightarrow> body_error + string" where
  "read_all limit b =
     (if limit < length (rb_data b) then Inl BodyTooLarge else if rb_broken b then Inl BodyInvalid else Inr (rb_data b))"

text \<open>The goroutine that interrupts the read when the context ends makes the read fail; the error of the context
  takes precedence over what was read.\<close>

definition readRequestBody :: "context_t \<Rightarrow> nat \<Rightarrow> nat \<Rightarrow> request_body \<Rightarrow> body_error + string" where
  "readRequestBody c t limit b =
     (case ctx_Err c t of Some err \<Rightarrow> Inl (BodyContext err) | None \<Rightarrow> read_all limit b)"

subsection \<open>Strict objects\<close>

type_synonym raw_fields = "(string \<times> string) list"

text \<open>The loop of \<open>decodeStrictObject\<close>: names that differ only in case count as the same.\<close>

fun strict_fields :: "http_lib \<Rightarrow> string list \<Rightarrow> string list \<Rightarrow> raw_fields \<Rightarrow> raw_fields \<Rightarrow> raw_fields option" where
  "strict_fields lib allowed seen fs [] = Some fs"
| "strict_fields lib allowed seen fs ((key, v) # ms) =
     (let folded = hl_ToLower lib key in
      if folded \<in> set seen then None
      else if key \<notin> set allowed then None
      else strict_fields lib allowed (folded # seen) (fs @ [(key, v)]) ms)"

definition decodeStrictObject :: "http_lib \<Rightarrow> string list \<Rightarrow> string \<Rightarrow> raw_fields option" where
  "decodeStrictObject lib allowed raw =
     do { members \<leftarrow> decoder_object raw; strict_fields lib allowed [] [] members }"

definition decodeOperationString :: "string \<Rightarrow> string option" where
  "decodeOperationString raw =
     (if strings_TrimSpace raw = [] \<or> strings_TrimSpace raw = ''null'' then None else Unmarshal_string raw)"

definition decodeStrictRequestFields ::
  "http_lib \<Rightarrow> context_t \<Rightarrow> nat \<Rightarrow> request_body \<Rightarrow> string list \<Rightarrow> (raw_fields \<Rightarrow> nat \<Rightarrow> body_error + 'a) \<Rightarrow> body_error + 'a" where
  "decodeStrictRequestFields lib c t b allowed consume_fields =
     (case readRequestBody c t MaxRequestBodyBytes b of
        Inl err \<Rightarrow> Inl err
      | Inr raw \<Rightarrow> (case ctx_Err c (t + 1) of
          Some err \<Rightarrow> Inl (BodyContext err)
        | None \<Rightarrow>
            if \<not> utf8_valid raw then Inl BodyInvalid
            else (case ctx_Err c (t + 2) of
              Some err \<Rightarrow> Inl (BodyContext err)
            | None \<Rightarrow> (case decodeStrictObject lib allowed raw of
                None \<Rightarrow> Inl BodyInvalid
              | Some fs \<Rightarrow> consume_fields fs (t + 3)))))"

text \<open>The order in which a range goes through the fields.\<close>

type_synonym map_order = "raw_fields \<Rightarrow> raw_fields"

text \<open>Decoding every field, with a check of the context after each.\<close>

fun decode_fields :: "context_t \<Rightarrow> nat \<Rightarrow> raw_fields \<Rightarrow> body_error + (string \<times> string) list" where
  "decode_fields c t [] = Inr []"
| "decode_fields c t ((key, v) # fs) =
     (case ctx_Err c t of
        Some err \<Rightarrow> Inl (BodyContext err)
      | None \<Rightarrow> (case decodeOperationString v of
          None \<Rightarrow> Inl BodyInvalid
        | Some decoded \<Rightarrow> map_sum id (\<lambda>rest. (key, decoded) # rest) (decode_fields c (t + 1) fs)))"

definition decodeStrictStringFields ::
  "http_lib \<Rightarrow> map_order \<Rightarrow> context_t \<Rightarrow> nat \<Rightarrow> request_body \<Rightarrow> string list \<Rightarrow> body_error + (string \<times> string) list" where
  "decodeStrictStringFields lib order c t b allowed =
     decodeStrictRequestFields lib c t b allowed (\<lambda>fs u. decode_fields c u (order fs))"

definition canonicalAllowedFields :: "Operation \<Rightarrow> string list" where
  "canonicalAllowedFields operation =
     (case operation of
        OperationEncrypt \<Rightarrow> [''plaintext'']
      | OperationDecrypt \<Rightarrow> [''vaultText'']
      | OperationRotate \<Rightarrow> [''sourceProfileId'', ''destinationProfileId'', ''vaultText'']
      | OperationOther _ \<Rightarrow> [])"

subsection \<open>The legacy endpoint\<close>

definition Operation_of :: "string \<Rightarrow> Operation" where
  "Operation_of mode =
     (if mode = ''encrypt'' then OperationEncrypt
      else if mode = ''decrypt'' then OperationDecrypt
      else if mode = ''rotate'' then OperationRotate
      else OperationOther mode)"

record operationRequest =
  or_ProfileID :: string
  or_SourceProfileID :: string
  or_DestinationProfileID :: string
  or_Mode :: string
  or_Value :: string
  or_present :: "string list"

definition validateShape :: "operationRequest \<Rightarrow> bool" where
  "validateShape r =
     (let there = (\<lambda>key. key \<in> set (or_present r)) in
      there ''mode'' \<and> there ''value'' \<and>
      (case Operation_of (or_Mode r) of
         OperationRotate \<Rightarrow> \<not> there ''profileId'' \<and> there ''sourceProfileId'' \<and> there ''destinationProfileId''
       | OperationOther _ \<Rightarrow> True
       | _ \<Rightarrow> there ''profileId'' \<and> \<not> there ''sourceProfileId'' \<and> \<not> there ''destinationProfileId''))"

definition operationRequest_command :: "operationRequest \<Rightarrow> Command" where
  "operationRequest_command r =
     \<lparr>cmd_Operation = Operation_of (or_Mode r), cmd_ProfileID = or_ProfileID r, cmd_SourceProfileID = or_SourceProfileID r,
      cmd_DestinationProfileID = or_DestinationProfileID r, cmd_Value = or_Value r, cmd_Attestation = None\<rparr>"

text \<open>A string variable that no field has set is empty.\<close>

definition text_field :: "(string \<times> string) list \<Rightarrow> string \<Rightarrow> string" where
  "text_field fs key = (case map_of fs key of None \<Rightarrow> [] | Some v \<Rightarrow> v)"

definition operationFields :: "string list" where
  "operationFields = [''profileId'', ''sourceProfileId'', ''destinationProfileId'', ''mode'', ''value'']"

definition decodeOperation :: "http_lib \<Rightarrow> map_order \<Rightarrow> context_t \<Rightarrow> nat \<Rightarrow> request_body \<Rightarrow> body_error + operationRequest" where
  "decodeOperation lib order c t b =
     decodeStrictRequestFields lib c t b operationFields (\<lambda>raw u.
       case decode_fields c u (order raw) of
         Inl err \<Rightarrow> Inl err
       | Inr fs \<Rightarrow>
           let request = \<lparr>or_ProfileID = text_field fs ''profileId'', or_SourceProfileID = text_field fs ''sourceProfileId'',
                 or_DestinationProfileID = text_field fs ''destinationProfileId'', or_Mode = text_field fs ''mode'',
                 or_Value = text_field fs ''value'', or_present = map fst fs\<rparr>
           in (case ctx_Err c (u + length raw) of
                 Some err \<Rightarrow> Inl (BodyContext err)
               | None \<Rightarrow> if validateShape request then Inr request else Inl BodyInvalid))"

subsection \<open>Rotations and attestations\<close>

record rotationRequestWithAttestation =
  rw_SourceProfileID :: string
  rw_DestinationProfileID :: string
  rw_VaultText :: string
  rw_Attestation :: "AttestationRequest option"

text \<open>A required field, and an optional one that leaves its variable unset when it is absent.\<close>

definition required :: "(string \<Rightarrow> 'a option) \<Rightarrow> raw_fields \<Rightarrow> string \<Rightarrow> 'a option" where
  "required decode fs key = do { raw \<leftarrow> map_of fs key; decode raw }"

definition optional :: "(string \<Rightarrow> 'a option) \<Rightarrow> raw_fields \<Rightarrow> string \<Rightarrow> 'a option option" where
  "optional decode fs key = (case map_of fs key of None \<Rightarrow> Some None | Some raw \<Rightarrow> map_option Some (decode raw))"

definition isJSONNull :: "string \<Rightarrow> bool" where
  "isJSONNull raw \<longleftrightarrow> strings_TrimSpace raw = ''null''"

definition bindingFields :: "string list" where
  "bindingFields = [''repository'', ''revision'', ''path'', ''selector'']"

definition binding_string :: "string \<Rightarrow> string option" where
  "binding_string raw =
     do { decoded \<leftarrow> decodeOperationString raw;
          if maxAttestationBindingFieldBytes < length decoded \<or> \<not> utf8_valid decoded then None else Some decoded }"

definition or_empty :: "string option \<Rightarrow> string" where
  "or_empty v = (case v of None \<Rightarrow> [] | Some x \<Rightarrow> x)"

definition parseBinding_http :: "http_lib \<Rightarrow> string \<Rightarrow> Binding option" where
  "parseBinding_http lib raw =
     (if isJSONNull raw then None
      else do {
        fs \<leftarrow> decodeStrictObject lib bindingFields raw;
        repository \<leftarrow> optional binding_string fs ''repository'';
        revision \<leftarrow> optional binding_string fs ''revision'';
        pth \<leftarrow> optional binding_string fs ''path'';
        selector \<leftarrow> optional binding_string fs ''selector'';
        let b = \<lparr>Repository = or_empty repository, Revision = or_empty revision, Path = or_empty pth, Selector = or_empty selector\<rparr>;
        if Repository b = [] \<and> Revision b = [] \<and> Path b = [] \<and> Selector b = [] then None
        else if maxAttestationCanonicalBindingSize < length (Repository b) + length (Revision b) + length (Path b) + length (Selector b)
        then None else Some b })"

definition parseRotationAttestationRequest :: "http_lib \<Rightarrow> string \<Rightarrow> AttestationRequest option" where
  "parseRotationAttestationRequest lib raw =
     (if isJSONNull raw then None
      else do {
        fs \<leftarrow> decodeStrictObject lib [''binding''] raw;
        b \<leftarrow> optional (parseBinding_http lib) fs ''binding'';
        Some \<lparr>ar_Binding = b\<rparr> })"

definition parseRotationRequestWithAttestation :: "http_lib \<Rightarrow> string \<Rightarrow> rotationRequestWithAttestation option" where
  "parseRotationRequestWithAttestation lib raw =
     (if raw = [] \<or> \<not> utf8_valid raw then None
      else do {
        fs \<leftarrow> decodeStrictObject lib [''sourceProfileId'', ''destinationProfileId'', ''vaultText'', ''attestation''] raw;
        src \<leftarrow> required decodeOperationString fs ''sourceProfileId'';
        dst \<leftarrow> required decodeOperationString fs ''destinationProfileId'';
        vaultText \<leftarrow> required decodeOperationString fs ''vaultText'';
        request \<leftarrow> optional (parseRotationAttestationRequest lib) fs ''attestation'';
        Some \<lparr>rw_SourceProfileID = src, rw_DestinationProfileID = dst, rw_VaultText = vaultText, rw_Attestation = request\<rparr> })"

record verifyAttestationRequest =
  vr_Attestation :: Signed
  vr_InputVaultText :: string
  vr_OutputVaultText :: string
  vr_ExpectedBinding :: "Binding option"

definition jws_string :: "string \<Rightarrow> string option" where
  "jws_string raw =
     do { decoded \<leftarrow> decodeOperationString raw;
          if maxAttestationJWSComponentBytes < length decoded then None else Some decoded }"

definition parseSignedAttestation :: "http_lib \<Rightarrow> string \<Rightarrow> Signed option" where
  "parseSignedAttestation lib raw =
     (if maxAttestationJWSObjectBytes < length raw \<or> isJSONNull raw then None
      else do {
        fs \<leftarrow> decodeStrictObject lib [''protected'', ''payload'', ''signature''] raw;
        protected \<leftarrow> required jws_string fs ''protected'';
        payload \<leftarrow> required jws_string fs ''payload'';
        signature \<leftarrow> required jws_string fs ''signature'';
        case Parse raw of
          Inl _ \<Rightarrow> None
        | Inr _ \<Rightarrow> Some \<lparr>Protected = protected, Payload = payload, Signature = signature\<rparr> })"

definition boundedString :: "nat \<Rightarrow> string \<Rightarrow> string option" where
  "boundedString limit raw =
     do { v \<leftarrow> decodeOperationString raw; if \<not> utf8_valid v \<or> limit < length v then None else Some v }"

definition parseVerifyAttestationRequest :: "http_lib \<Rightarrow> string \<Rightarrow> verifyAttestationRequest option" where
  "parseVerifyAttestationRequest lib raw =
     (if \<not> utf8_valid raw \<or> raw = [] then None
      else do {
        fs \<leftarrow> decodeStrictObject lib [''attestation'', ''inputVaultText'', ''outputVaultText'', ''expectedBinding''] raw;
        jws \<leftarrow> required (parseSignedAttestation lib) fs ''attestation'';
        inp \<leftarrow> required (boundedString service_MaxVaultTextBytes) fs ''inputVaultText'';
        out \<leftarrow> required (boundedString service_MaxVaultTextBytes) fs ''outputVaultText'';
        b \<leftarrow> optional (parseBinding_http lib) fs ''expectedBinding'';
        Some \<lparr>vr_Attestation = jws, vr_InputVaultText = inp, vr_OutputVaultText = out, vr_ExpectedBinding = b\<rparr> })"

subsection \<open>Strings of generation requests\<close>

text \<open>\<open>decodeJSONHexQuad\<close> on 16-bit words.\<close>

definition hex_quad_digit :: "char \<Rightarrow> 16 word option" where
  "hex_quad_digit character =
     (let n = (of_char character :: nat) in
      if 48 \<le> n \<and> n \<le> 57 then Some (of_nat (n - 48))
      else if 97 \<le> n \<and> n \<le> 102 then Some (of_nat (n - 97) + 10)
      else if 65 \<le> n \<and> n \<le> 70 then Some (of_nat (n - 65) + 10)
      else None)"

fun hex_quad_loop :: "16 word \<Rightarrow> string \<Rightarrow> 16 word option" where
  "hex_quad_loop v [] = Some v"
| "hex_quad_loop v (character # raw) =
     do { digit \<leftarrow> hex_quad_digit character; hex_quad_loop (or (push_bit 4 v) digit) raw }"

definition decodeJSONHexQuad :: "string \<Rightarrow> 16 word option" where
  "decodeJSONHexQuad raw = (if length raw \<noteq> 4 then None else hex_quad_loop 0 raw)"

text \<open>The loop of \<open>hasValidJSONSurrogatePairs\<close> on the bytes between the quotes that are left.\<close>

function surrogate_pairs :: "string \<Rightarrow> bool" where
  "surrogate_pairs [] = True"
| "surrogate_pairs (c # s) =
     (if c \<noteq> CHR 0x5C then surrogate_pairs s
      else (case s of
        [] \<Rightarrow> True
      | e # s1 \<Rightarrow>
          if e \<noteq> CHR ''u'' then surrogate_pairs s1
          else if length s1 < 4 then True
          else (case decodeJSONHexQuad (take 4 s1) of
            None \<Rightarrow> True
          | Some codePoint \<Rightarrow>
              let s2 = drop 4 s1 in
              if 0xD800 \<le> codePoint \<and> codePoint \<le> 0xDBFF then
                (if length s2 < 6 \<or> s2 ! 0 \<noteq> CHR 0x5C \<or> s2 ! 1 \<noteq> CHR ''u'' then False
                 else (case decodeJSONHexQuad (take 4 (drop 2 s2)) of
                   None \<Rightarrow> False
                 | Some low \<Rightarrow> if low < 0xDC00 \<or> 0xDFFF < low then False else surrogate_pairs (drop 6 s2)))
              else if 0xDC00 \<le> codePoint \<and> codePoint \<le> 0xDFFF then False
              else surrogate_pairs s2)))"
  by pat_completeness auto

termination surrogate_pairs
  by (relation "measure length") auto

declare surrogate_pairs.simps(2) [simp del]

definition hasValidJSONSurrogatePairs :: "string \<Rightarrow> bool" where
  "hasValidJSONSurrogatePairs raw =
     (if length raw < 2 \<or> hd raw \<noteq> CHR 0x22 \<or> last raw \<noteq> CHR 0x22 then True
      else surrogate_pairs (butlast (tl raw)))"

definition decodeGenerateString :: "string \<Rightarrow> string option" where
  "decodeGenerateString raw =
     (if \<not> hasValidJSONSurrogatePairs (strings_TrimSpace raw) then None else decodeOperationString raw)"

subsection \<open>Parameters of generation\<close>

definition decodeJSONInt :: "string \<Rightarrow> int option" where
  "decodeJSONInt raw = (if isJSONNull raw then None else Unmarshal_int raw)"

definition decodeJSONBool :: "string \<Rightarrow> bool option" where
  "decodeJSONBool raw = (if isJSONNull raw then None else Unmarshal_bool raw)"

text \<open>\<open>generateStringArrayItem.UnmarshalJSON\<close>: an item that is not retained is checked but not decoded, \<open>Some None\<close>.\<close>

definition string_item :: "bool \<Rightarrow> string \<Rightarrow> string option option" where
  "string_item retain raw =
     (if length raw < 2 \<or> hd raw \<noteq> CHR 0x22 \<or> \<not> hasValidJSONSurrogatePairs raw then None
      else if retain then map_option Some (decodeOperationString raw) else Some None)"

fun string_items_loop :: "nat \<Rightarrow> string list \<Rightarrow> bool \<Rightarrow> string list \<Rightarrow> (string list \<times> bool) option" where
  "string_items_loop maximum vals overflow [] = Some (vals, overflow)"
| "string_items_loop maximum vals overflow (raw # raws) =
     (case string_item (length vals < maximum) raw of
        None \<Rightarrow> None
      | Some (Some v) \<Rightarrow> string_items_loop maximum (vals @ [v]) overflow raws
      | Some None \<Rightarrow> string_items_loop maximum vals True raws)"

definition decodeJSONStringArray :: "nat \<Rightarrow> string \<Rightarrow> (string list \<times> bool) option" where
  "decodeJSONStringArray maximum raw = do { raws \<leftarrow> decoder_array raw; string_items_loop maximum [] False raws }"

definition passwordFields :: "string list" where
  "passwordFields = [''length'', ''lowercase'', ''uppercase'', ''digits'', ''symbols'', ''minLowercase'', ''minUppercase'',
     ''minDigits'', ''minSymbols'', ''excludeAmbiguous'']"

definition parsePasswordParameters :: "http_lib \<Rightarrow> string \<Rightarrow> PasswordParameters option" where
  "parsePasswordParameters lib raw =
     do { fs \<leftarrow> decodeStrictObject lib passwordFields raw;
          len \<leftarrow> optional decodeJSONInt fs ''length'';
          minLower \<leftarrow> optional decodeJSONInt fs ''minLowercase'';
          minUpper \<leftarrow> optional decodeJSONInt fs ''minUppercase'';
          minDig \<leftarrow> optional decodeJSONInt fs ''minDigits'';
          minSym \<leftarrow> optional decodeJSONInt fs ''minSymbols'';
          lower \<leftarrow> optional decodeJSONBool fs ''lowercase'';
          upper \<leftarrow> optional decodeJSONBool fs ''uppercase'';
          digs \<leftarrow> optional decodeJSONBool fs ''digits'';
          syms \<leftarrow> optional decodeJSONBool fs ''symbols'';
          excludeAmbiguous \<leftarrow> optional decodeJSONBool fs ''excludeAmbiguous'';
          Some \<lparr>pp_Length = len, pp_Lowercase = lower, pp_Uppercase = upper, pp_Digits = digs, pp_Symbols = syms,
            pp_MinLowercase = minLower, pp_MinUppercase = minUpper, pp_MinDigits = minDig, pp_MinSymbols = minSym,
            pp_ExcludeAmbiguous = excludeAmbiguous\<rparr> }"

definition TokenEncoding_of :: "string \<Rightarrow> TokenEncoding" where
  "TokenEncoding_of s =
     (if s = ''base64url'' then TokenEncodingBase64URL else if s = ''hex'' then TokenEncodingHex else TokenEncodingOther s)"

definition parseTokenParameters :: "http_lib \<Rightarrow> string \<Rightarrow> TokenParameters option" where
  "parseTokenParameters lib raw =
     do { fs \<leftarrow> decodeStrictObject lib [''encoding'', ''bytes''] raw;
          encoding \<leftarrow> optional decodeGenerateString fs ''encoding'';
          bytes \<leftarrow> optional decodeJSONInt fs ''bytes'';
          Some \<lparr>tp_Encoding = map_option TokenEncoding_of encoding, tp_Bytes = bytes\<rparr> }"

definition SSHAlgorithm_of :: "string \<Rightarrow> SSHAlgorithm" where
  "SSHAlgorithm_of s =
     (if s = ''ed25519'' then SSHAlgorithmEd25519
      else if s = ''ecdsa_p256'' then SSHAlgorithmECDSAP256
      else if s = ''rsa_3072'' then SSHAlgorithmRSA3072
      else if s = ''rsa_4096'' then SSHAlgorithmRSA4096
      else SSHAlgorithmOther s)"

definition parseSSHKeyPairParameters :: "http_lib \<Rightarrow> string \<Rightarrow> SSHKeyPairParameters option" where
  "parseSSHKeyPairParameters lib raw =
     do { fs \<leftarrow> decodeStrictObject lib [''algorithm''] raw;
          algorithm \<leftarrow> required decodeGenerateString fs ''algorithm'';
          Some \<lparr>sp_Algorithm = SSHAlgorithm_of algorithm\<rparr> }"

definition X509Algorithm_of :: "string \<Rightarrow> X509Algorithm" where
  "X509Algorithm_of s =
     (if s = ''ed25519'' then X509AlgorithmEd25519
      else if s = ''ecdsa_p256'' then X509AlgorithmECDSAP256
      else if s = ''ecdsa_p384'' then X509AlgorithmECDSAP384
      else if s = ''rsa_3072'' then X509AlgorithmRSA3072
      else if s = ''rsa_4096'' then X509AlgorithmRSA4096
      else X509AlgorithmOther s)"

definition MaxX509SubjectValues :: nat where "MaxX509SubjectValues = 8"
definition MaxX509SANs :: nat where "MaxX509SANs = 64"

definition subjectFields :: "string list" where
  "subjectFields = [''commonName'', ''serialNumber'', ''country'', ''organization'', ''organizationalUnit'', ''locality'',
     ''province'', ''streetAddress'', ''postalCode'']"

definition exceeded :: "(string list \<times> bool) option \<Rightarrow> bool" where
  "exceeded v = (case v of None \<Rightarrow> False | Some (_, over) \<Rightarrow> over)"

definition parseX509Subject :: "http_lib \<Rightarrow> string \<Rightarrow> (X509Subject \<times> bool) option" where
  "parseX509Subject lib raw =
     (if isJSONNull raw then None
      else do {
        fs \<leftarrow> decodeStrictObject lib subjectFields raw;
        if fs = [] then None else do {
        commonName \<leftarrow> optional decodeGenerateString fs ''commonName'';
        serialNumber \<leftarrow> optional decodeGenerateString fs ''serialNumber'';
        country \<leftarrow> optional (decodeJSONStringArray MaxX509SubjectValues) fs ''country'';
        organization \<leftarrow> optional (decodeJSONStringArray MaxX509SubjectValues) fs ''organization'';
        organizationalUnit \<leftarrow> optional (decodeJSONStringArray MaxX509SubjectValues) fs ''organizationalUnit'';
        locality \<leftarrow> optional (decodeJSONStringArray MaxX509SubjectValues) fs ''locality'';
        province \<leftarrow> optional (decodeJSONStringArray MaxX509SubjectValues) fs ''province'';
        streetAddress \<leftarrow> optional (decodeJSONStringArray MaxX509SubjectValues) fs ''streetAddress'';
        postalCode \<leftarrow> optional (decodeJSONStringArray MaxX509SubjectValues) fs ''postalCode'';
        Some (\<lparr>CommonName = commonName, SerialNumber = serialNumber, Country = map_option fst country,
               Organization = map_option fst organization, OrganizationalUnit = map_option fst organizationalUnit,
               Locality = map_option fst locality, Province = map_option fst province, StreetAddress = map_option fst streetAddress,
               PostalCode = map_option fst postalCode\<rparr>,
              list_ex exceeded [country, organization, organizationalUnit, locality, province, streetAddress, postalCode]) } })"

text \<open>The kinds of names share the budget \<open>MaxX509SANs\<close>: each is read with what the kinds before it, in the order
  \<open>names\<close> of the range, have left. The values decoded so far, what is left and whether any kind overflowed.\<close>

definition sanFields :: "string list" where
  "sanFields = [''dnsNames'', ''ipAddresses'', ''emailAddresses'', ''uris'']"

fun sans_loop :: "raw_fields \<Rightarrow> string list \<Rightarrow> (string \<times> string list) list \<Rightarrow> nat \<Rightarrow> bool \<Rightarrow>
    ((string \<times> string list) list \<times> bool) option" where
  "sans_loop fs [] decoded remaining overflow = Some (decoded, overflow)"
| "sans_loop fs (key # names) decoded remaining overflow =
     (case map_of fs key of
        None \<Rightarrow> sans_loop fs names decoded remaining overflow
      | Some raw \<Rightarrow>
          (case decodeJSONStringArray remaining raw of
             None \<Rightarrow> None
           | Some (vals, over) \<Rightarrow>
               sans_loop fs names ((key, vals) # decoded) (remaining - length vals) (overflow \<or> over)))"

definition parseX509SANs :: "http_lib \<Rightarrow> string list \<Rightarrow> string \<Rightarrow> (X509SANs \<times> bool) option" where
  "parseX509SANs lib names raw =
     (if isJSONNull raw then None
      else do {
        fs \<leftarrow> decodeStrictObject lib sanFields raw;
        if fs = [] then None else do {
        (decoded, overflow) \<leftarrow> sans_loop fs names [] MaxX509SANs False;
        Some (\<lparr>DNSNames = map_of decoded ''dnsNames'', IPAddresses = map_of decoded ''ipAddresses'',
               EmailAddresses = map_of decoded ''emailAddresses'', URIs = map_of decoded ''uris''\<rparr>, overflow) } })"

definition parseX509CSRParameters :: "http_lib \<Rightarrow> string list \<Rightarrow> string \<Rightarrow> (X509CSRParameters \<times> bool) option" where
  "parseX509CSRParameters lib names raw =
     do { fs \<leftarrow> decodeStrictObject lib [''algorithm'', ''subject'', ''sans''] raw;
          algorithm \<leftarrow> required decodeGenerateString fs ''algorithm'';
          sbj \<leftarrow> optional (parseX509Subject lib) fs ''subject'';
          sans \<leftarrow> optional (parseX509SANs lib names) fs ''sans'';
          Some (\<lparr>xp_Algorithm = X509Algorithm_of algorithm, xp_Subject = map_option fst sbj, xp_SANs = map_option fst sans\<rparr>,
                (case sbj of None \<Rightarrow> False | Some (_, over) \<Rightarrow> over) \<or> (case sans of None \<Rightarrow> False | Some (_, over) \<Rightarrow> over)) }"

definition GenerateKind_of :: "string \<Rightarrow> GenerateKind" where
  "GenerateKind_of s =
     (if s = ''password'' then GenerateKindPassword
      else if s = ''token'' then GenerateKindToken
      else if s = ''ssh_keypair'' then GenerateKindSSHKeyPair
      else if s = ''age_identity'' then GenerateKindAgeIdentity
      else if s = ''x509_csr'' then GenerateKindX509CSR
      else GenerateKindOther s)"

definition parseGenerateCommand :: "http_lib \<Rightarrow> string list \<Rightarrow> string \<Rightarrow> GenerateCommand option" where
  "parseGenerateCommand lib names raw =
     do { fs \<leftarrow> decodeStrictObject lib [''kind'', ''profileId'', ''parameters''] raw;
          knd \<leftarrow> required decodeGenerateString fs ''kind'';
          pid \<leftarrow> required decodeGenerateString fs ''profileId'';
          parameters \<leftarrow> map_of fs ''parameters'';
          if isJSONNull parameters then None
          else let cmd = \<lparr>gc_ProfileID = pid, gc_Kind = GenerateKind_of knd, gc_Password = None, gc_Token = None,
                 gc_SSHKeyPair = None, gc_AgeIdentity = None, gc_X509CSR = None, gc_X509CollectionOverflow = False\<rparr>
          in (case GenerateKind_of knd of
                GenerateKindPassword \<Rightarrow> do { p \<leftarrow> parsePasswordParameters lib parameters; Some (cmd\<lparr>gc_Password := Some p\<rparr>) }
              | GenerateKindToken \<Rightarrow> do { p \<leftarrow> parseTokenParameters lib parameters; Some (cmd\<lparr>gc_Token := Some p\<rparr>) }
              | GenerateKindSSHKeyPair \<Rightarrow>
                  do { p \<leftarrow> parseSSHKeyPairParameters lib parameters; Some (cmd\<lparr>gc_SSHKeyPair := Some p\<rparr>) }
              | GenerateKindAgeIdentity \<Rightarrow>
                  do { decodeStrictObject lib [] parameters; Some (cmd\<lparr>gc_AgeIdentity := Some ()\<rparr>) }
              | GenerateKindX509CSR \<Rightarrow>
                  do { (p, overflow) \<leftarrow> parseX509CSRParameters lib names parameters;
                       Some (cmd\<lparr>gc_X509CSR := Some p, gc_X509CollectionOverflow := overflow\<rparr>) }
              | GenerateKindOther _ \<Rightarrow> None) }"

definition decodeGenerateCommand ::
  "http_lib \<Rightarrow> string list \<Rightarrow> context_t \<Rightarrow> nat \<Rightarrow> request_body \<Rightarrow> body_error + GenerateCommand" where
  "decodeGenerateCommand lib names c t b =
     (case readRequestBody c t MaxGenerateRequestBodyBytes b of
        Inl err \<Rightarrow> Inl err
      | Inr raw \<Rightarrow> (case ctx_Err c (t + 1) of
          Some err \<Rightarrow> Inl (BodyContext err)
        | None \<Rightarrow>
            if raw = [] \<or> \<not> utf8_valid raw then Inl BodyInvalid
            else (case parseGenerateCommand lib names raw of None \<Rightarrow> Inl BodyInvalid | Some cmd \<Rightarrow> Inr cmd)))"

section \<open>Lemmas\<close>

subsection \<open>Strings\<close>

lemma nibble_or: "d < 16 \<Longrightarrow> or (push_bit 4 n) d = 16 * n + (d::nat)"
proof -
  assume "d < 16"
  then have d: "d = take_bit 4 d" by (simp add: take_bit_eq_mod)
  have "or (push_bit 4 n) (take_bit 4 d) = push_bit 4 n + take_bit 4 d"
    by (subst disjunctive_add) (auto simp: bit_push_bit_iff bit_take_bit_iff)
  then show ?thesis unfolding d [symmetric] by (simp add: push_bit_eq_mult)
qed

lemma nibble_or_word: "d < 16 \<Longrightarrow> or (push_bit 4 (of_nat n)) (of_nat d) = (of_nat (16 * n + d) :: 16 word)"
  by (simp add: push_bit_of_nat flip: of_nat_or_eq nibble_or)

lemma hex_quad_digit_eq: "hex_quad_digit c = map_option of_nat (from_hex_char c)"
  by (auto simp: hex_quad_digit_def from_hex_char_def Let_def of_nat_diff simp flip: of_nat_add)

lemma from_hex_char_less: "from_hex_char c = Some d \<Longrightarrow> d < 16"
  by (auto simp: from_hex_char_def Let_def split: if_splits)

lemma hex_quad_loop_Cons:
  "hex_quad_loop (of_nat n) (c # s) =
     (case from_hex_char c of None \<Rightarrow> None | Some d \<Rightarrow> hex_quad_loop (of_nat (16 * n + d)) s)"
  by (auto simp: hex_quad_digit_eq nibble_or_word [OF from_hex_char_less] split: option.splits)

lemma decodeJSONHexQuad_eq:
  assumes "length q = 4"
  shows "decodeJSONHexQuad q = map_option (\<lambda>bs. of_nat (code_unit bs)) (hex_DecodeString q)"
proof -
  obtain a b c d where q: "q = [a, b, c, d]"
    using assms by (auto simp: numeral_eq_Suc length_Suc_conv)
  have byte: "16 * h + l < 256" if "h < 16" "l < (16::nat)" for h l using that by simp
  have "hex_quad_loop (of_nat 0) [a, b, c, d] = map_option (\<lambda>bs. of_nat (code_unit bs)) (hex_DecodeString [a, b, c, d])"
    unfolding hex_quad_loop_Cons hex_quad_loop.simps(1)
    by (auto simp: code_unit_def byte dest!: from_hex_char_less split: option.splits)
  then show ?thesis by (simp add: decodeJSONHexQuad_def q)
qed

lemma code_unit_less: "code_unit bs < 65536"
  using of_char_bound [of "bs ! 0"] of_char_bound [of "bs ! 1"] unfolding code_unit_def by linarith

lemma unat_code_unit: "unat (of_nat (code_unit bs) :: 16 word) = code_unit bs"
  using code_unit_less [of bs] by (simp add: unat_of_nat)

lemma code_unit_compare:
  "(0xD800 \<le> (of_nat (code_unit bs) :: 16 word)) = (0xD800 \<le> code_unit bs)"
  "((of_nat (code_unit bs) :: 16 word) \<le> 0xDBFF) = (code_unit bs \<le> 0xDBFF)"
  "(0xDC00 \<le> (of_nat (code_unit bs) :: 16 word)) = (0xDC00 \<le> code_unit bs)"
  "((of_nat (code_unit bs) :: 16 word) \<le> 0xDFFF) = (code_unit bs \<le> 0xDFFF)"
  "((of_nat (code_unit bs) :: 16 word) < 0xDC00) = (code_unit bs < 0xDC00)"
  "(0xDFFF < (of_nat (code_unit bs) :: 16 word)) = (0xDFFF < code_unit bs)"
  by (simp_all add: word_le_nat_alt word_less_nat_alt unat_code_unit)

lemma hex_DecodeString_defined: "length q = 4 \<Longrightarrow> (hex_DecodeString q \<noteq> None) = list_all is_hex_char q"
  by (auto simp: numeral_eq_Suc length_Suc_conv is_hex_char_def split: option.splits)

lemma hex_ascii: "list_all is_hex_char q \<Longrightarrow> is_ascii q"
  by (induction q) (auto simp: is_hex_char_def from_hex_char_def Let_def split: if_splits)

lemma scan_escape:
  "scan_string (CHR 0x5C # CHR ''u'' # s) =
     (if 4 \<le> length s \<and> hex_DecodeString (take 4 s) \<noteq> None then scan_string (drop 4 s) else None)"
  using hex_DecodeString_defined [of "take 4 s"] by (auto simp: simple_escape_def)

declare scan_string.simps(2) [simp del] unquote.simps(2) [simp del] string_loop.simps(2) [simp del]


lemma getu4_escape:
  "getu4 (CHR 0x5C # CHR ''u'' # s) = (if 4 \<le> length s then map_option code_unit (hex_DecodeString (take 4 s)) else None)"
  by (simp add: getu4_def)

lemma unquote_u: "unquote (CHR 0x5C # CHR ''u'' # s) =
    (case unquote_escape (CHR 0x5C # CHR ''u'' # s) of (r, n) \<Rightarrow> utf8_EncodeRune r @ unquote (drop n (CHR 0x5C # CHR ''u'' # s)))"
  by (simp add: unquote.simps(2) simple_escape_def)

lemma surrogate_pairs_u:
  "surrogate_pairs (CHR 0x5C # CHR ''u'' # s) =
     (if length s < 4 then True
      else (case hex_DecodeString (take 4 s) of
        None \<Rightarrow> True
      | Some bs \<Rightarrow>
          let s2 = drop 4 s in
          if 0xD800 \<le> code_unit bs \<and> code_unit bs \<le> 0xDBFF then
            (if length s2 < 6 \<or> s2 ! 0 \<noteq> CHR 0x5C \<or> s2 ! 1 \<noteq> CHR ''u'' then False
             else (case hex_DecodeString (take 4 (drop 2 s2)) of
               None \<Rightarrow> False
             | Some lo \<Rightarrow> if code_unit lo < 0xDC00 \<or> 0xDFFF < code_unit lo then False else surrogate_pairs (drop 6 s2)))
          else if 0xDC00 \<le> code_unit bs \<and> code_unit bs \<le> 0xDFFF then False
          else surrogate_pairs s2))"
  by (auto simp: surrogate_pairs.simps(2) decodeJSONHexQuad_eq code_unit_compare Let_def split: option.splits)

lemma six_split:
  assumes "6 \<le> length s" "s ! 0 = a" "s ! 1 = b"
  shows "s = a # b # drop 2 s"
  using assms by (auto simp: numeral_eq_Suc Suc_le_length_iff)

text \<open>An escape that the strict parser accepts is read the same way by the decoder, and passes the check of pairs.\<close>

lemma escape_read:
  assumes "parseUnicodeEscape s = Some (r, s2)"
  shows "scan_string (CHR 0x5C # CHR ''u'' # s) = scan_string s2 \<and>
    unquote (CHR 0x5C # CHR ''u'' # s) = utf8_EncodeRune r @ unquote s2 \<and>
    (\<exists>p. s = p @ s2 \<and> is_ascii p \<and> (\<forall>x. surrogate_pairs (CHR 0x5C # CHR ''u'' # p @ x) = surrogate_pairs x))"
proof -
  obtain bs where h: "4 \<le> length s" "hex_DecodeString (take 4 s) = Some bs"
    using assms by (auto simp: parseUnicodeEscape_def split: if_splits option.splits)
  have ascii: "is_ascii (take 4 s)" using hex_DecodeString_defined [of "take 4 s"] h hex_ascii by simp
  have low: "\<not> (0xDC00 \<le> code_unit bs \<and> code_unit bs \<le> 0xDFFF)"
    using assms h by (auto simp: parseUnicodeEscape_def Let_def split: if_splits option.splits)
  show ?thesis
  proof (cases "0xD800 \<le> code_unit bs \<and> code_unit bs \<le> 0xDBFF")
    case False
    then have r: "r = code_unit bs" "s2 = drop 4 s" using assms h low by (auto simp: parseUnicodeEscape_def Let_def)
    have "\<not> is_surrogate (code_unit bs)" using False low by (auto simp: is_surrogate_def)
    then have "unquote_escape (CHR 0x5C # CHR ''u'' # s) = (r, 6)" using h r by (simp add: unquote_escape_def getu4_escape)
    then have q: "unquote (CHR 0x5C # CHR ''u'' # s) = utf8_EncodeRune r @ unquote s2" by (simp add: unquote_u r)
    have "\<forall>x. surrogate_pairs (CHR 0x5C # CHR ''u'' # take 4 s @ x) = surrogate_pairs x"
      using h low False by (auto simp: surrogate_pairs_u)
    then show ?thesis using q h r ascii by (auto simp: scan_escape intro!: exI [of _ "take 4 s"])
  next
    case True
    define y where "y = drop 6 s"
    obtain lo where p: "6 \<le> length (drop 4 s)" "drop 4 s ! 0 = CHR 0x5C" "drop 4 s ! 1 = CHR ''u''"
        "hex_DecodeString (take 4 y) = Some lo" "0xDC00 \<le> code_unit lo" "code_unit lo \<le> 0xDFFF"
        and r: "r = 0x10000 + (code_unit bs - 0xD800) * 1024 + (code_unit lo - 0xDC00)" "s2 = drop 4 y"
      using assms h True by (auto simp: parseUnicodeEscape_def Let_def y_def split: if_splits option.splits)
    have d4: "drop 4 s = CHR 0x5C # CHR ''u'' # y"
      using six_split [OF p(1,2,3)] by (simp add: y_def)
    have ly: "4 \<le> length y" using p(1) by (simp add: y_def)
    have "is_surrogate (code_unit bs)" using True by (simp add: is_surrogate_def)
    moreover have "utf16_DecodeRune (code_unit bs) (code_unit lo) = r" using True p r by (simp add: utf16_DecodeRune_def)
    moreover have "r \<noteq> 0xFFFD" using r by simp
    ultimately have "unquote_escape (CHR 0x5C # CHR ''u'' # s) = (r, 12)"
      using h d4 ly p by (simp add: unquote_escape_def getu4_escape)
    moreover have "drop 10 s = s2" using r(2) by (simp add: y_def)
    ultimately have q: "unquote (CHR 0x5C # CHR ''u'' # s) = utf8_EncodeRune r @ unquote s2" by (simp add: unquote_u)
    have sc: "scan_string (CHR 0x5C # CHR ''u'' # s) = scan_string s2"
      using h d4 ly p r by (simp add: scan_escape)
    have s: "s = (take 4 s @ CHR 0x5C # CHR ''u'' # take 4 y) @ s2"
      using d4 r(2) append_take_drop_id [of 4 s] by simp
    have y: "is_ascii (take 4 y)" using hex_DecodeString_defined [of "take 4 y"] ly p(4) hex_ascii by simp
    have "\<forall>x. surrogate_pairs (CHR 0x5C # CHR ''u'' # (take 4 s @ CHR 0x5C # CHR ''u'' # take 4 y) @ x) = surrogate_pairs x"
      using h True p ly by (simp add: surrogate_pairs_u)
    moreover have "is_ascii (take 4 s @ CHR 0x5C # CHR ''u'' # take 4 y)" using ascii y by (simp add: is_ascii_def)
    ultimately show ?thesis using q sc s by blast
  qed
qed


lemma butlast_drop_take: "n < length s \<Longrightarrow> take n (butlast s) = take n s \<and> drop n (butlast s) = butlast (drop n s)"
  by (auto simp: butlast_drop take_butlast)

text \<open>One that it rejects is malformed, or fails the check of pairs.\<close>

lemma escape_rejected:
  assumes "parseUnicodeEscape s = None" "scan_string (CHR 0x5C # CHR ''u'' # s) = Some []"
  shows "\<not> surrogate_pairs (CHR 0x5C # CHR ''u'' # butlast s)"
proof -
  obtain bs where h: "4 \<le> length s" "hex_DecodeString (take 4 s) = Some bs" and sc: "scan_string (drop 4 s) = Some []"
    using assms(2) by (auto simp: scan_escape split: if_splits)
  have l: "4 < length s" using sc h(1) by (cases "length s = 4") auto
  note bl = butlast_drop_take [OF l]
  have six: "length (drop 4 s) \<noteq> 6" if "drop 4 s ! 0 = CHR 0x5C" "drop 4 s ! 1 = CHR ''u''"
  proof
    assume six: "length (drop 4 s) = 6"
    have d4: "drop 4 s = CHR 0x5C # CHR ''u'' # drop 6 s" using six_split [OF _ that] six by simp
    show False using sc six unfolding d4 by (simp add: scan_escape split: if_splits)
  qed
  show ?thesis
  proof (cases "0xD800 \<le> code_unit bs \<and> code_unit bs \<le> 0xDBFF")
    case False
    then have "0xDC00 \<le> code_unit bs \<and> code_unit bs \<le> 0xDFFF"
      using assms(1) h by (auto simp: parseUnicodeEscape_def Let_def split: if_splits)
    then show ?thesis using h l bl by (simp add: surrogate_pairs_u)
  next
    case True
    consider "length (drop 4 s) < 6 \<or> drop 4 s ! 0 \<noteq> CHR 0x5C \<or> drop 4 s ! 1 \<noteq> CHR ''u''"
      | "6 < length (drop 4 s)" "drop 4 s ! 0 = CHR 0x5C" "drop 4 s ! 1 = CHR ''u''"
      using six by force
    then show ?thesis
    proof cases
      case 1
      then have "length (butlast (drop 4 s)) < 6 \<or> butlast (drop 4 s) ! 0 \<noteq> CHR 0x5C \<or> butlast (drop 4 s) ! 1 \<noteq> CHR ''u''"
        by (cases "length (drop 4 s) < 3") (auto simp: nth_butlast)
      then show ?thesis using h l bl True by (auto simp: surrogate_pairs_u Let_def)
    next
      case 2
      have low: "\<forall>lo. hex_DecodeString (take 4 (drop 2 (drop 4 s))) = Some lo \<longrightarrow> code_unit lo < 0xDC00 \<or> 0xDFFF < code_unit lo"
        using assms(1) h True 2 by (auto simp: parseUnicodeEscape_def Let_def split: option.splits if_splits)
      have "take 4 (drop 2 (butlast (drop 4 s))) = take 4 (drop 2 (drop 4 s))"
        using 2(1) by (simp add: butlast_conv_take drop_take min_def)
      then show ?thesis using h l bl True low by (auto simp: surrogate_pairs_u Let_def split: option.splits)
    qed
  qed
qed

text \<open>Bytes that mean nothing to any of the three.\<close>

definition plain :: "char \<Rightarrow> bool" where
  "plain b \<longleftrightarrow> b \<noteq> CHR 0x22 \<and> b \<noteq> CHR 0x5C \<and> 0x20 \<le> (of_char b :: nat)"

lemma plain_skipped:
  "list_all plain p \<Longrightarrow> scan_string (p @ s) = scan_string s \<and> surrogate_pairs (p @ s) = surrogate_pairs s"
  by (induction p) (auto simp: plain_def scan_string.simps(2) surrogate_pairs.simps(2))

lemma high_plain: "0x80 \<le> (of_char b :: nat) \<Longrightarrow> plain b"
  by (auto simp: plain_def)

lemma second_plain: "utf8_second n b \<Longrightarrow> plain b" and cont_plain: "utf8_cont b \<Longrightarrow> plain b"
  by (auto simp: utf8_second_def utf8_cont_def Let_def intro!: high_plain split: if_splits)

lemma rune_plain:
  assumes "plain c" "rune_size (c # s) \<noteq> 0"
  shows "list_all plain (take (rune_size (c # s)) (c # s))"
proof (cases "(of_char c :: nat) < 0x80")
  case False
  then show ?thesis
    using assms unfolding rune_size_def
    by (simp add: Let_def second_plain cont_plain split: list.splits if_splits)
qed (use assms in \<open>simp add: rune_size_def\<close>)

text \<open>What the strict parser reads, the decoder reads.\<close>

lemma string_loop_read: "string_loop s = Some (v, r) \<Longrightarrow> scan_string s = Some r \<and> unquote s = v"
proof (induction s arbitrary: v r rule: string_loop.induct)
  case (2 c s)
  consider (q) "c = CHR 0x22" | (esc) "c = CHR 0x5C" | (p) "c \<noteq> CHR 0x22" "c \<noteq> CHR 0x5C" by blast
  then show ?case
  proof cases
    case q
    then show ?thesis using 2 by (simp add: string_loop.simps(2) scan_string.simps(2) unquote.simps(2))
  next
    case esc
    obtain e s1 where s: "s = e # s1" using 2 esc by (auto simp: string_loop.simps(2) split: list.splits)
    show ?thesis
    proof (cases "simple_escape e")
      case (Some w)
      then obtain v1 where v: "string_loop s1 = Some (v1, r)" "v = w # v1"
        using 2 esc s by (auto simp: string_loop.simps(2) prepend_def split: option.splits)
      then show ?thesis using 2(2) [OF _ esc s Some v(1)] esc s Some
        by (simp add: scan_string.simps(2) unquote.simps(2))
    next
      case None
      then obtain cp s2 v1 where u: "e = CHR ''u''" "parseUnicodeEscape s1 = Some (cp, s2)" "string_loop s2 = Some (v1, r)"
          "v = utf8_EncodeRune cp @ v1"
        using 2 esc s by (auto simp: string_loop.simps(2) prepend_def split: option.splits if_splits)
      then show ?thesis using 2(1) [OF _ esc s None u(1,2) refl u(3)] escape_read [OF u(2)] esc s by simp
    qed
  next
    case p
    obtain v1 where n: "plain c" "rune_size (c # s) \<noteq> 0" "string_loop (drop (rune_size (c # s)) (c # s)) = Some (v1, r)"
        "v = take (rune_size (c # s)) (c # s) @ v1"
      using 2(4) p by (auto simp: string_loop.simps(2) prepend_def plain_def split: if_splits option.splits)
    have "scan_string (c # s) = scan_string (drop (rune_size (c # s)) (c # s))"
      using plain_skipped [OF rune_plain [OF n(1,2)], of "drop (rune_size (c # s)) (c # s)"] by simp
    then show ?thesis using 2(3) [OF p _ n(2,3)] n p by (simp add: unquote.simps(2) plain_def)
  qed
qed simp


lemma string_loop_stuck:
  assumes "utf8_valid s" "scan_string s = Some []" "surrogate_pairs (butlast s)"
  shows "\<exists>v. string_loop s = Some (v, [])"
  using assms
proof (induction s rule: string_loop.induct)
  case (2 c s)
  have ne: "butlast (x # y) = x # butlast y" if "scan_string y = Some []" for x y
    using that by (cases y) auto
  consider (q) "c = CHR 0x22" | (esc) "c = CHR 0x5C" | (p) "c \<noteq> CHR 0x22" "c \<noteq> CHR 0x5C" by blast
  then show ?case
  proof cases
    case q
    then show ?thesis using 2 by (simp add: string_loop.simps(2) scan_string.simps(2))
  next
    case esc
    obtain e s1 where s: "s = e # s1" using 2 esc by (auto simp: scan_string.simps(2) split: list.splits)
    have s1: "s1 \<noteq> []" using 2(5) esc s by (auto simp: scan_string.simps(2) split: if_splits)
    show ?thesis
    proof (cases "simple_escape e")
      case (Some w)
      have ascii: "(of_char e :: nat) < 0x80" "e \<noteq> CHR ''u''" using Some by (auto simp: simple_escape_def split: if_splits)
      have "scan_string s1 = Some []" "surrogate_pairs (butlast s1)" "utf8_valid s1"
        using 2(4,5,6) esc s s1 Some ascii
        by (auto simp: scan_string.simps(2) surrogate_pairs.simps(2) split: if_splits)
      then obtain v1 where "string_loop s1 = Some (v1, [])" using 2(2) [OF _ esc s Some] esc by auto
      then show ?thesis using esc s Some by (simp add: string_loop.simps(2) prepend_def)
    next
      case None
      have u: "e = CHR ''u''" using 2(5) esc s None by (auto simp: scan_string.simps(2) split: if_splits)
      have pairs: "surrogate_pairs (CHR 0x5C # CHR ''u'' # butlast s1)" using 2(6) esc s u s1 by simp
      then obtain cp s2 where pu: "parseUnicodeEscape s1 = Some (cp, s2)"
        using escape_rejected [of s1] 2(5) esc s u by (cases "parseUnicodeEscape s1") auto
      obtain p where er: "scan_string s2 = Some []" "s1 = p @ s2" "is_ascii p"
          "\<forall>x. surrogate_pairs (CHR 0x5C # CHR ''u'' # p @ x) = surrogate_pairs x"
        using escape_read [OF pu] 2(5) esc s u by auto
      have "s2 \<noteq> []" using er(1) by auto
      then have "surrogate_pairs (butlast s2)" using pairs er(2,4) by (simp add: butlast_append)
      moreover have "utf8_valid s2" using 2(4) esc s u er(2) utf8_valid_ascii_append [OF er(3)] by simp
      ultimately obtain v1 where "string_loop s2 = Some (v1, [])" using 2(1) [OF _ esc s None u pu refl] er(1) esc by auto
      then show ?thesis using esc s u pu None by (simp add: string_loop.simps(2) prepend_def)
    qed
  next
    case p
    let ?n = "rune_size (c # s)"
    have n: "?n \<noteq> 0" "utf8_valid (drop ?n (c # s))" using 2(4) utf8_valid_rune by blast+
    have pl: "plain c" using 2(5) p by (auto simp: plain_def scan_string.simps(2) split: if_splits)
    note sk = plain_skipped [OF rune_plain [OF pl n(1)]]
    have sc: "scan_string (drop ?n (c # s)) = Some []" using 2(5) sk [of "drop ?n (c # s)"] by simp
    have "drop ?n (c # s) \<noteq> []" using sc by auto
    then have "butlast (c # s) = take ?n (c # s) @ butlast (drop ?n (c # s))"
      using butlast_append [of "take ?n (c # s)" "drop ?n (c # s)"] by (simp del: butlast.simps)
    then have "surrogate_pairs (butlast (drop ?n (c # s)))" using 2(6) sk by (simp del: butlast.simps)
    then obtain v1 where "string_loop (drop ?n (c # s)) = Some (v1, [])" using 2(3) [OF p _ n sc] pl by (auto simp: plain_def)
    then show ?thesis using p pl n by (simp add: string_loop.simps(2) prepend_def plain_def)
  qed
qed simp


lemma string_loop_last: "string_loop s = Some (v, []) \<Longrightarrow> last s = CHR 0x22 \<and> s \<noteq> []"
proof (induction s arbitrary: v rule: string_loop.induct)
  case (2 c s)
  consider (q) "c = CHR 0x22" | (esc) "c = CHR 0x5C" | (p) "c \<noteq> CHR 0x22" "c \<noteq> CHR 0x5C" by blast
  then show ?case
  proof cases
    case esc
    obtain e s1 where s: "s = e # s1" using 2 esc by (auto simp: string_loop.simps(2) split: list.splits)
    show ?thesis
    proof (cases "simple_escape e")
      case (Some w)
      then obtain v1 where "string_loop s1 = Some (v1, [])"
        using 2 esc s by (auto simp: string_loop.simps(2) prepend_def split: option.splits)
      then show ?thesis using 2(2) [OF _ esc s Some] esc s by simp
    next
      case None
      then obtain cp s2 v1 where u: "e = CHR ''u''" "parseUnicodeEscape s1 = Some (cp, s2)" "string_loop s2 = Some (v1, [])"
        using 2 esc s by (auto simp: string_loop.simps(2) prepend_def split: option.splits if_splits)
      then show ?thesis using 2(1) [OF _ esc s None u(1,2) refl u(3)] escape_read [OF u(2)] esc s by auto
    qed
  next
    case p
    let ?n = "rune_size (c # s)"
    obtain v1 where n: "?n \<noteq> 0" "string_loop (drop ?n (c # s)) = Some (v1, [])" "\<not> (of_char c :: nat) < 0x20"
      using 2(4) p by (auto simp: string_loop.simps(2) prepend_def split: if_splits option.splits)
    have "last (drop ?n (c # s)) = CHR 0x22 \<and> drop ?n (c # s) \<noteq> []" using 2(3) [OF p n(3,1,2)] .
    then show ?thesis by (metis last_drop list.discI drop_eq_Nil linorder_not_le)
  qed (use 2 in \<open>simp add: string_loop.simps(2)\<close>)
qed simp

lemma string_loop_pairs: "string_loop s = Some (v, []) \<Longrightarrow> surrogate_pairs (butlast s)"
proof (induction s arbitrary: v rule: string_loop.induct)
  case (2 c s)
  consider (q) "c = CHR 0x22" | (esc) "c = CHR 0x5C" | (p) "c \<noteq> CHR 0x22" "c \<noteq> CHR 0x5C" by blast
  then show ?case
  proof cases
    case esc
    obtain e s1 where s: "s = e # s1" using 2 esc by (auto simp: string_loop.simps(2) split: list.splits)
    show ?thesis
    proof (cases "simple_escape e")
      case (Some w)
      then obtain v1 where v: "string_loop s1 = Some (v1, [])"
        using 2 esc s by (auto simp: string_loop.simps(2) prepend_def split: option.splits)
      moreover have "e \<noteq> CHR ''u''" using Some by (auto simp: simple_escape_def)
      ultimately show ?thesis using 2(2) [OF _ esc s Some] esc s string_loop_last [OF v]
        by (simp add: surrogate_pairs.simps(2))
    next
      case None
      then obtain cp s2 v1 where u: "e = CHR ''u''" "parseUnicodeEscape s1 = Some (cp, s2)" "string_loop s2 = Some (v1, [])"
        using 2 esc s by (auto simp: string_loop.simps(2) prepend_def split: option.splits if_splits)
      obtain p where p: "s1 = p @ s2" "\<forall>x. surrogate_pairs (CHR 0x5C # CHR ''u'' # p @ x) = surrogate_pairs x"
        using escape_read [OF u(2)] by blast
      have "surrogate_pairs (butlast s2)" using 2(1) [OF _ esc s None u(1,2) refl u(3)] esc by simp
      moreover have "butlast (c # s) = CHR 0x5C # CHR ''u'' # p @ butlast s2"
        using string_loop_last [OF u(3)] esc s u(1) p(1) by (simp add: butlast_append)
      ultimately show ?thesis using p(2) by simp
    qed
  next
    case p
    let ?n = "rune_size (c # s)"
    obtain v1 where n: "?n \<noteq> 0" "string_loop (drop ?n (c # s)) = Some (v1, [])" "\<not> (of_char c :: nat) < 0x20"
      using 2(4) p by (auto simp: string_loop.simps(2) prepend_def split: if_splits option.splits)
    have "butlast (c # s) = take ?n (c # s) @ butlast (drop ?n (c # s))"
      using string_loop_last [OF n(2)] butlast_append [of "take ?n (c # s)" "drop ?n (c # s)"] by (simp del: butlast.simps)
    moreover have "plain c" using p n by (simp add: plain_def)
    ultimately show ?thesis
      using 2(3) [OF p n(3,1,2)] plain_skipped [OF rune_plain [OF _ n(1)]] by (simp del: butlast.simps)
  qed (use 2 in \<open>simp add: string_loop.simps(2)\<close>)
qed simp

lemma trimmed_ends:
  assumes "strings_TrimSpace s = s" "s \<noteq> []"
  shows "\<not> is_json_space (hd s)" "\<not> is_json_space (last s)"
proof -
  define a where "a = trim_words space_runes s"
  obtain p where p: "s = p @ a" using trim_words_suffix [of s space_runes] by (auto simp: a_def)
  have rs: "rev s = trim_words (map rev space_runes) (rev a)" using assms(1) by (metis strings_TrimSpace_def a_def rev_rev_ident)
  obtain q where q: "rev a = q @ rev s"
    using trim_words_suffix [of "rev a" "map rev space_runes"] unfolding rs [symmetric] by blast
  then have "length a = length s + length q" by (metis length_append length_rev add.commute)
  then have "a = s" using p by simp
  then have "\<not> strings_HasPrefix s r" if "r \<in> set space_runes" "r \<noteq> []" for r
    using trim_words_done [OF that, of s] by (simp add: a_def)
  then have "\<not> strings_HasPrefix s [c]" if "is_json_space c" for c using that by (auto simp: is_json_space_def space_runes_def)
  then show "\<not> is_json_space (hd s)" using assms(2) by (cases s) (auto simp: HasPrefix_iff)
  have "\<not> strings_HasPrefix (rev s) r" if "r \<in> set (map rev space_runes)" "r \<noteq> []" for r
    using trim_words_done [OF that, of "rev a"] rs by simp
  then have "\<not> strings_HasPrefix (rev s) [c]" if "is_json_space c" for c
    using that by (auto simp: is_json_space_def space_runes_def)
  then show "\<not> is_json_space (last s)" using assms(2) by (cases s rule: rev_cases) (auto simp: HasPrefix_iff)
qed


lemma trimmed_rest: "strings_TrimSpace s = s \<Longrightarrow> strict_suffix r s \<Longrightarrow> list_all is_json_space r \<Longrightarrow> r = []"
  using trimmed_ends(2) [of s]
  by (cases r rule: rev_cases) (auto simp: strict_suffix_def suffix_def simp flip: append_assoc)

lemma trimmed_skip: "strings_TrimSpace s = s \<Longrightarrow> skipWhitespace s = s"
  using trimmed_ends(1) [of s] by (cases s) (auto simp: skipWhitespace_def)

lemma single_value_trimmed:
  assumes "strings_TrimSpace raw = raw"
  shows "single_value raw = (if scan_value 0 raw = Some [] then Some raw else None)"
proof (cases "scan_value 0 raw")
  case (Some rest)
  then have "strict_suffix rest raw" using scan_value_eats by (simp add: eats_def)
  then show ?thesis using Some trimmed_rest [OF assms, of rest] trimmed_skip [OF assms]
    by (auto simp: single_value_def ends_def raw_between_def)
qed (simp add: single_value_def ends_def trimmed_skip [OF assms])

lemma scan_string_last: "scan_string s = Some [] \<Longrightarrow> last s = CHR 0x22"
proof (induction s rule: scan_string.induct)
  case (2 c s)
  consider (q) "c = CHR 0x22" | (esc) "c = CHR 0x5C" | (p) "c \<noteq> CHR 0x22" "c \<noteq> CHR 0x5C" by blast
  then show ?case
  proof cases
    case esc
    obtain e s1 where s: "s = e # s1" using 2 esc by (auto simp: scan_string.simps(2) split: list.splits)
    show ?thesis
    proof (cases "simple_escape e")
      case (Some w)
      then have v: "scan_string s1 = Some []" using 2(4) esc s by (simp add: scan_string.simps(2))
      then show ?thesis using 2(1) [OF _ esc s] Some esc s by auto
    next
      case None
      then have u: "e = CHR ''u''" "4 \<le> length s1" "list_all is_hex_char (take 4 s1)" "scan_string (drop 4 s1) = Some []"
        using 2(4) esc s by (auto simp: scan_string.simps(2) split: if_splits)
      then have "last (drop 4 s1) = CHR 0x22 \<and> drop 4 s1 \<noteq> []" using 2(2) [OF _ esc s] None esc by auto
      then show ?thesis using s by (auto simp: last_drop)
    qed
  next
    case p
    then have "scan_string s = Some []" using 2(4) by (auto simp: scan_string.simps(2) split: if_splits)
    then show ?thesis using 2 p by (cases s) (auto simp: scan_string.simps(2) split: if_splits)
  qed (use 2 in \<open>simp add: scan_string.simps(2)\<close>)
qed simp

text \<open>A raw text that is a string: what the library decodes.\<close>

lemma decode_string_iff:
  assumes "strings_TrimSpace raw = raw"
  shows "decodeOperationString raw = Some v \<longleftrightarrow> (\<exists>s. raw = CHR 0x22 # s \<and> scan_string s = Some [] \<and> unquote s = v)"
proof -
  have "raw \<noteq> []" if "scan_value 0 raw = Some []" using that by (auto simp: scan_value.simps)
  then show ?thesis
    using assms by (auto simp: decodeOperationString_def Unmarshal_string_def single_value_trimmed scan_value.simps [of 0 "_ # _"]
      neq_Nil_conv split: if_splits)
qed


text \<open>C37. The strings of generation requests are decoded with a library that replaces malformed surrogate escapes, after a
  check that looks for them. The two together read exactly what the strict parser of attestations reads: the same
  texts are accepted, and with the same value.\<close>

theorem generate_strings_strict:
  assumes "utf8_valid raw" "strings_TrimSpace raw = raw"
  shows "decodeGenerateString raw = Some v \<longleftrightarrow> parseString raw = Some (v, [])"
proof
  assume "decodeGenerateString raw = Some v"
  then have pairs: "hasValidJSONSurrogatePairs raw" and "decodeOperationString raw = Some v"
    using assms(2) by (auto simp: decodeGenerateString_def split: if_splits)
  then obtain s where s: "raw = CHR 0x22 # s" "scan_string s = Some []" "unquote s = v"
    using decode_string_iff [OF assms(2)] by blast
  have "s \<noteq> []" using s(2) by auto
  have "surrogate_pairs (butlast s)"
    using pairs s(1) \<open>s \<noteq> []\<close> scan_string_last [OF s(2)]
    by (auto simp: hasValidJSONSurrogatePairs_def Suc_le_eq split: if_splits)
  moreover have "utf8_valid s" using assms(1) s(1) by simp
  ultimately obtain v' where "string_loop s = Some (v', [])" using string_loop_stuck s(2) by blast
  then show "parseString raw = Some (v, [])" using string_loop_read s by (fastforce simp: parseString_def)
next
  assume "parseString raw = Some (v, [])"
  then obtain s where s: "raw = CHR 0x22 # s" "string_loop s = Some (v, [])" by (auto simp: parseString_def split: option.splits)
  have "decodeOperationString raw = Some v" using decode_string_iff [OF assms(2)] s string_loop_read [OF s(2)] by blast
  then show "decodeGenerateString raw = Some v"
    using string_loop_pairs [OF s(2)] string_loop_last [OF s(2)] assms(2) s(1)
    by (simp add: decodeGenerateString_def hasValidJSONSurrogatePairs_def)
qed

lemma scan_string_prefix: "scan_string s = Some r \<Longrightarrow> \<exists>p. s = p @ r \<and> p \<noteq> [] \<and> (\<forall>x. scan_string (p @ x) = Some x)"
proof (induction s arbitrary: r rule: scan_string.induct)
  case (2 c s)
  consider (q) "c = CHR 0x22" | (esc) "c = CHR 0x5C" | (p) "c \<noteq> CHR 0x22" "c \<noteq> CHR 0x5C" by blast
  then show ?case
  proof cases
    case q
    then show ?thesis using 2(4) by (auto simp: scan_string.simps(2) intro!: exI [of _ "[c]"])
  next
    case esc
    obtain e s1 where s: "s = e # s1" using 2 esc by (auto simp: scan_string.simps(2) split: list.splits)
    show ?thesis
    proof (cases "simple_escape e")
      case (Some w)
      then have "scan_string s1 = Some r" using 2(4) esc s by (simp add: scan_string.simps(2))
      then obtain p where "s1 = p @ r" "\<forall>x. scan_string (p @ x) = Some x" using 2(1) [OF _ esc s] Some esc by auto
      then show ?thesis using esc s Some by (auto simp: scan_string.simps(2) intro!: exI [of _ "c # e # p"])
    next
      case None
      then have u: "e = CHR ''u''" "4 \<le> length s1" "list_all is_hex_char (take 4 s1)" "scan_string (drop 4 s1) = Some r"
        using 2(4) esc s by (auto simp: scan_string.simps(2) split: if_splits)
      then obtain p where p: "drop 4 s1 = p @ r" "\<forall>x. scan_string (p @ x) = Some x" using 2(2) [OF _ esc s] None esc by auto
      have "s1 = (take 4 s1 @ p) @ r" using p(1) append_take_drop_id [of 4 s1] by simp
      moreover have "\<forall>x. scan_string (c # e # (take 4 s1 @ p) @ x) = Some x"
        using u p(2) esc None by (simp add: scan_string.simps(2))
      ultimately show ?thesis using s by (intro exI [of _ "c # e # take 4 s1 @ p"]) simp
    qed
  next
    case p
    then have "scan_string s = Some r" "\<not> (of_char c :: nat) < 0x20" using 2(4) by (auto simp: scan_string.simps(2) split: if_splits)
    then obtain q where "s = q @ r" "\<forall>x. scan_string (q @ x) = Some x" using 2(3) p by auto
    then show ?thesis using p \<open>\<not> _ < _\<close> by (auto simp: scan_string.simps(2) intro!: exI [of _ "c # q"])
  qed
qed simp

text \<open>The raw text of a string in a document decodes.\<close>

lemma raw_string_decodes:
  assumes "scan_value d (CHR 0x22 # s) = Some r"
  shows "\<exists>v. decodeOperationString (raw_between (CHR 0x22 # s) r) = Some v"
proof -
  have "scan_string s = Some r" using assms by (simp add: scan_value.simps)
  then obtain p where p: "s = p @ r" "\<forall>x. scan_string (p @ x) = Some x" "p \<noteq> []" using scan_string_prefix by blast
  then have raw: "raw_between (CHR 0x22 # s) r = CHR 0x22 # p" by (simp add: raw_between_def)
  have "scan_string p = Some []" using p(2) [THEN spec, of "[]"] by simp
  moreover from this have "strings_TrimSpace (CHR 0x22 # p) = CHR 0x22 # p"
    using scan_string_last [of p] p(3) by (intro TrimSpace_id) auto
  ultimately show ?thesis using decode_string_iff raw by auto
qed

definition decodable :: "string \<Rightarrow> bool" where
  "decodable e \<longleftrightarrow> (hd e = CHR 0x22 \<longrightarrow> (\<exists>v. decodeOperationString e = Some v))"

lemma element_decodable:
  assumes "scan_value d s = Some r"
  shows "decodable (raw_between s r)"
proof -
  have "strict_suffix r s" using assms scan_value_eats by (simp add: eats_def)
  then have "length r < length s" by (rule strict_suffix_length)
  then obtain c t where s: "s = c # t" "length r < length s" by (cases s) auto
  then have "hd (raw_between s r) = c" by (cases "length s - length r") (auto simp: raw_between_def)
  then show ?thesis using raw_string_decodes assms s(1) by (auto simp: decodable_def)
qed

lemma scan_elements_decodable:
  "scan_elements pv es s = Some (es', r) \<Longrightarrow> pv = scan_value d \<Longrightarrow> list_all decodable es \<Longrightarrow> list_all decodable es'"
proof (induction pv es s rule: scan_elements.induct)
  case (1 pv es s)
  obtain s1 where p: "pv s = Some s1" using 1(2) by (subst (asm) scan_elements.simps) (auto split: option.splits)
  have es: "list_all decodable (es @ [raw_between s s1])" using 1(3,4) p element_decodable by simp
  show ?case
  proof (cases "consume (CHR '']'') (skipWhitespace s1)")
    case (Some s3)
    then have "es' = es @ [raw_between s s1]" using 1(2) p by (subst (asm) scan_elements.simps) (simp del: consume_Some)
    then show ?thesis using es by simp
  next
    case None
    obtain s3 where c: "consume (CHR '','') (skipWhitespace s1) = Some s3" "length s3 < length s"
        "scan_elements pv (es @ [raw_between s s1]) (skipWhitespace s3) = Some (es', r)"
      using 1(2) p None by (subst (asm) scan_elements.simps) (auto simp del: consume_Some split: option.splits if_splits)
    show ?thesis by (rule 1(1) [OF p refl refl None c 1(3) es])
  qed
qed

lemma decoder_array_decodable: "decoder_array raw = Some es \<Longrightarrow> list_all decodable es"
  by (auto simp: decoder_array_def ends_def scan_array_def Let_def dest!: scan_elements_decodable split: option.splits if_splits)

subsection \<open>Subject alternative names\<close>

text \<open>All the strings of an array, whatever its length.\<close>

definition array_strings :: "string \<Rightarrow> string list option" where
  "array_strings raw =
     (case decoder_array raw of
        None \<Rightarrow> None
      | Some es \<Rightarrow> if list_all (\<lambda>e. string_item False e \<noteq> None) es then Some (map (\<lambda>e. the (decodeOperationString e)) es) else None)"

lemma string_item_True:
  "decodable e \<Longrightarrow> string_item True e = (if string_item False e = None then None else Some (Some (the (decodeOperationString e))))"
  by (auto simp: string_item_def decodable_def)

lemma string_item_False: "string_item False e \<noteq> None \<Longrightarrow> string_item False e = Some None"
  by (auto simp: string_item_def split: if_splits)

lemma string_items_loop_eq:
  assumes "list_all decodable es" "length vals \<le> n"
  shows "string_items_loop n vals over es =
    (if list_all (\<lambda>e. string_item False e \<noteq> None) es
     then Some (vals @ take (n - length vals) (map (\<lambda>e. the (decodeOperationString e)) es), over \<or> n - length vals < length es)
     else None)"
  using assms
proof (induction es arbitrary: vals over)
  case (Cons e es)
  show ?case
  proof (cases "string_item False e = None")
    case True
    then show ?thesis using Cons(2,3) by (cases "length vals < n") (auto simp: string_item_True)
  next
    case False
    then show ?thesis
      using Cons string_item_False [OF False] by (cases "length vals < n") (auto simp: string_item_True Suc_diff_Suc take_Cons')
  qed
qed simp

lemma decodeJSONStringArray_eq:
  "decodeJSONStringArray n raw = map_option (\<lambda>vs. (take n vs, n < length vs)) (array_strings raw)"
  by (auto simp: decodeJSONStringArray_def array_strings_def string_items_loop_eq decoder_array_decodable
      split: option.splits Option.bind_splits)


text \<open>What a kind of names contributes.\<close>

definition san_strings :: "raw_fields \<Rightarrow> string \<Rightarrow> string list option" where
  "san_strings fs key = (case map_of fs key of None \<Rightarrow> Some [] | Some raw \<Rightarrow> array_strings raw)"

definition san_count :: "raw_fields \<Rightarrow> string list \<Rightarrow> nat" where
  "san_count fs names = (\<Sum>key\<leftarrow>names. length (the (san_strings fs key)))"

lemma sans_loop_fails:
  "sans_loop fs names decoded remaining over = None \<longleftrightarrow> (\<exists>key\<in>set names. san_strings fs key = None)"
  by (induction names arbitrary: decoded remaining over)
    (auto simp: san_strings_def decodeJSONStringArray_eq split: option.splits)

lemma sans_loop_overflow:
  "sans_loop fs names decoded remaining over = Some (decoded', over') \<Longrightarrow> over' \<longleftrightarrow> over \<or> remaining < san_count fs names"
proof (induction names arbitrary: decoded remaining over)
  case (Cons key names)
  show ?case
  proof (cases "map_of fs key")
    case None
    then show ?thesis using Cons by (simp add: san_count_def san_strings_def)
  next
    case (Some raw)
    then obtain vs where vs: "array_strings raw = Some vs" "san_strings fs key = Some vs"
        "sans_loop fs names ((key, take remaining vs) # decoded) (remaining - length (take remaining vs)) (over \<or> remaining < length vs)
           = Some (decoded', over')"
      using Cons(2) by (auto simp: decodeJSONStringArray_eq san_strings_def split: option.splits)
    show ?thesis using Cons(1) [OF vs(3)] vs(2) by (auto simp: san_count_def)
  qed
qed (simp add: san_count_def)

lemma sans_loop_values:
  assumes "sans_loop fs names decoded remaining over = Some (decoded', False)" "distinct names" "fst ` set decoded \<inter> set names = {}"
  shows "map_of decoded' key = (if key \<in> set names \<and> map_of fs key \<noteq> None then san_strings fs key else map_of decoded key)"
  using assms
proof (induction names arbitrary: decoded remaining over)
  case (Cons k names)
  show ?case
  proof (cases "map_of fs k")
    case None
    moreover have "map_of decoded k = None" using Cons(4) by (auto simp: map_of_eq_None_iff)
    ultimately show ?thesis using Cons(1) [of decoded remaining over] Cons(2,3,4)
      by (auto simp: san_strings_def)
  next
    case (Some raw)
    then obtain vs where vs: "san_strings fs k = Some vs"
        "sans_loop fs names ((k, take remaining vs) # decoded) (remaining - length (take remaining vs)) (over \<or> remaining < length vs)
           = Some (decoded', False)"
      using Cons(2) by (auto simp: decodeJSONStringArray_eq san_strings_def split: option.splits)
    have "\<not> remaining < length vs" using sans_loop_overflow [OF vs(2)] by blast
    then show ?thesis using Cons(1) [OF vs(2)] Cons(3,4) vs(1) Some by auto
  qed
qed simp

text \<open>C40. The subject alternative names of a request are read by going through a Go map, whose order changes from one
  run to the next, while the kinds of names share one budget of 64. The outcome is the same for every order:
  whether the request is rejected, whether it is marked as exceeding the budget, and, when it is not, the names of
  every kind, which then number at most 64 together.\<close>

theorem sans_order_irrelevant:
  assumes "mset names = mset sanFields" "mset names' = mset sanFields"
  shows "map_option snd (parseX509SANs lib names raw) = map_option snd (parseX509SANs lib names' raw) \<and>
    (parseX509SANs lib names raw = Some (sans, False) \<longrightarrow> parseX509SANs lib names' raw = Some (sans, False) \<and>
       length (elements_of (DNSNames sans)) + length (elements_of (IPAddresses sans)) + length (elements_of (EmailAddresses sans)) +
         length (elements_of (URIs sans)) \<le> 64)"
proof -
  have sets: "set names = set sanFields" "set names' = set sanFields" using assms mset_eq_setD by blast+
  have dist: "distinct names" "distinct names'"
    using assms mset_eq_imp_distinct_iff [of names sanFields] mset_eq_imp_distinct_iff [of names' sanFields]
    by (auto simp: sanFields_def)
  have count: "san_count fs names = san_count fs names'" for fs
    unfolding san_count_def using assms by (metis mset_map sum_mset_sum_list)
  have fails: "sans_loop fs names [] n False = None \<longleftrightarrow> sans_loop fs names' [] n False = None" for fs n
    by (simp add: sans_loop_fails sets)
  have over: "o1 = o2" if "sans_loop fs names [] n False = Some (d1, o1)" "sans_loop fs names' [] n False = Some (d2, o2)" for fs n d1 d2 o1 o2
    using sans_loop_overflow [OF that(1)] sans_loop_overflow [OF that(2)] count by simp
  have vals: "map_of d1 key = map_of d2 key"
    if "sans_loop fs names [] n False = Some (d1, False)" "sans_loop fs names' [] n False = Some (d2, False)" for fs n d1 d2 key
    using sans_loop_values [OF that(1) dist(1)] sans_loop_values [OF that(2) dist(2)] sets by simp
  have total: "length (elements_of (map_of d ''dnsNames'')) + length (elements_of (map_of d ''ipAddresses'')) +
      length (elements_of (map_of d ''emailAddresses'')) + length (elements_of (map_of d ''uris'')) \<le> MaxX509SANs" if "sans_loop fs names [] MaxX509SANs False = Some (d, False)" for fs d
  proof -
    have "san_count fs names = san_count fs sanFields"
      unfolding san_count_def using assms(1) by (metis mset_map sum_mset_sum_list)
    then have "san_count fs sanFields \<le> MaxX509SANs" using sans_loop_overflow [OF that] by simp
    moreover have "length (elements_of (map_of d key)) = length (the (san_strings fs key))" if "key \<in> set sanFields" for key
    proof -
      have ok: "sans_loop fs names [] MaxX509SANs False = Some (d, False)" by fact
      then have "san_strings fs key \<noteq> None" using sans_loop_fails [of fs names "[]" MaxX509SANs False] that sets by auto
      then show ?thesis using sans_loop_values [OF ok dist(1)] sets that by (auto simp: elements_of_def san_strings_def)
    qed
    ultimately show ?thesis by (simp add: san_count_def sanFields_def)
  qed
  show ?thesis
  proof (cases "isJSONNull raw \<or> decodeStrictObject lib sanFields raw = None \<or> decodeStrictObject lib sanFields raw = Some []")
    case False
    then obtain fs where fs: "decodeStrictObject lib sanFields raw = Some fs" "fs \<noteq> []" "\<not> isJSONNull raw" by auto
    show ?thesis
    proof (cases "sans_loop fs names [] MaxX509SANs False")
      case None
      moreover from this have "sans_loop fs names' [] MaxX509SANs False = None" using fails by blast
      ultimately show ?thesis using fs by (simp add: parseX509SANs_def)
    next
      case (Some r1)
      then obtain d1 over1 where 1: "sans_loop fs names [] MaxX509SANs False = Some (d1, over1)" by (cases r1) auto
      then obtain d2 where 2: "sans_loop fs names' [] MaxX509SANs False = Some (d2, over1)"
        using fails [of fs MaxX509SANs] over [OF 1] by (cases "sans_loop fs names' [] MaxX509SANs False") auto
      show ?thesis
      proof (cases over1)
        case False
        then show ?thesis using 1 2 fs vals [of fs MaxX509SANs d1 d2] total [of fs d1]
          by (auto simp: parseX509SANs_def MaxX509SANs_def)
      qed (use 1 2 fs in \<open>simp add: parseX509SANs_def\<close>)
    qed
  qed (auto simp: parseX509SANs_def)
qed

section \<open>Witnesses\<close>

definition demo_raw :: string where
  "demo_raw = [CHR 0x22] @ ''a'' @ [CHR 0x5C] @ ''ud83d'' @ [CHR 0x5C] @ ''ude00'' @ [CHR 0x22]"

definition demo_face :: string where "demo_face = [CHR ''a'', CHR 0xF0, CHR 0x9F, CHR 0x98, CHR 0x80]"

lemma demo_raw_facts: "utf8_valid demo_raw" "strings_TrimSpace demo_raw = demo_raw" "parseString demo_raw = Some (demo_face, [])"
  by (code_simp, code_simp)
    (simp add: demo_raw_def demo_face_def parseString_def string_loop.simps simple_escape_def parseUnicodeEscape_def from_hex_char_def
      code_unit_def Let_def rune_size_def prepend_def utf8_EncodeRune_def consume_def, code_simp)

theorem generate_strings_strict_witness:
  "utf8_valid demo_raw \<and> strings_TrimSpace demo_raw = demo_raw \<and> decodeGenerateString demo_raw = Some demo_face"
  using generate_strings_strict [OF demo_raw_facts(1,2), of demo_face] demo_raw_facts by simp

definition demo_name :: string where "demo_name = [CHR 0x22] @ ''a.example'' @ [CHR 0x22]"

definition demo_sans :: string where
  "demo_sans = ''{'' @ [CHR 0x22] @ ''uris'' @ [CHR 0x22] @ '':[],'' @ [CHR 0x22] @ ''dnsNames'' @ [CHR 0x22] @ '':['' @ demo_name @ '']}''"

lemmas decoder_simps = decoder_object_def decoder_array_def scan_object_def scan_members.simps scan_value.simps scan_array_def
  scan_elements.simps ends_def maxNestingDepth_def skipWhitespace_def is_json_space_def consume_def scan_string.simps
  simple_escape_def unquote.simps raw_between_def rune_size_def Let_def

lemma demo_sans_fields:
  "decodeStrictObject demo_http_lib sanFields demo_sans = Some [(''uris'', ''[]''), (''dnsNames'', ''['' @ demo_name @ '']'')]"
proof -
  have "decoder_object demo_sans = Some [(''uris'', ''[]''), (''dnsNames'', ''['' @ demo_name @ '']'')]"
    by (simp add: demo_sans_def demo_name_def decoder_simps)
  then show ?thesis by (simp add: decodeStrictObject_def demo_http_lib_def sanFields_def)
qed

lemma demo_name_trimmed: "strings_TrimSpace demo_name = demo_name" "\<not> isJSONNull demo_sans" by code_simp+

lemma demo_arrays:
  "decodeJSONStringArray n ''[]'' = Some ([], False)"
  "decodeJSONStringArray 64 (''['' @ demo_name @ '']'') = Some ([''a.example''], False)"
proof -
  show "decodeJSONStringArray n ''[]'' = Some ([], False)" by (simp add: decodeJSONStringArray_def decoder_simps)
  have "decoder_array (''['' @ demo_name @ '']'') = Some [demo_name]" by (simp add: demo_name_def decoder_simps)
  moreover have "decodeOperationString demo_name = Some ''a.example''"
    using decode_string_iff [OF demo_name_trimmed(1)] by (simp add: demo_name_def decoder_simps)
  moreover have "surrogate_pairs (butlast (tl demo_name))" by (simp add: demo_name_def surrogate_pairs.simps)
  ultimately show "decodeJSONStringArray 64 (''['' @ demo_name @ '']'') = Some ([''a.example''], False)"
    by (simp add: decodeJSONStringArray_def string_item_def hasValidJSONSurrogatePairs_def) (simp add: demo_name_def)
qed

definition demo_names :: X509SANs where
  "demo_names = \<lparr>DNSNames = Some [''a.example''], IPAddresses = None, EmailAddresses = None, URIs = Some []\<rparr>"

lemma demo_sans_parsed: "parseX509SANs demo_http_lib sanFields demo_sans = Some (demo_names, False)"
proof -
  have "sans_loop [(''uris'', ''[]''), (''dnsNames'', ''['' @ demo_name @ '']'')] sanFields [] MaxX509SANs False =
      Some ([(''uris'', []), (''dnsNames'', [''a.example''])], False)"
    unfolding sanFields_def MaxX509SANs_def using demo_arrays by simp
  then show ?thesis
    using demo_name_trimmed(2) demo_sans_fields by (simp add: parseX509SANs_def demo_names_def)
qed

theorem sans_order_irrelevant_witness:
  "parseX509SANs demo_http_lib (rev sanFields) demo_sans = Some (demo_names, False)"
  using sans_order_irrelevant [of sanFields "rev sanFields" demo_http_lib demo_sans demo_names] demo_sans_parsed by simp

end
