(* ===== verification/Metrics.thy ===== *)
theory Metrics
  imports HTTP_Security
begin

text \<open>
  The metrics of the HTTP API, \<open>backend/internal/httpapi/metrics.go\<close>, and the log of saturation in \<open>admission.go\<close>.

  Counters are 64-bit words and wrap. The maps of the registry are functions with the default zero that a missing
  key has in Go. A duration is a number of nanoseconds; the source compares its quotient by \<open>10\<^sup>9\<close> as a floating-point
  number with the bounds, which orders the durations in the same way since the bounds are whole numbers of nanoseconds.
  The sum of the durations is a floating-point number of which nothing is used but that \<open>add\<close> adds a duration to it.

  The result is that the registry counts exactly: after any observations, every counter and every bucket of the
  histograms is the number of observations it stands for.
\<close>

section \<open>Definitions\<close>

subsection \<open>The recording writer\<close>

record statusRecordingResponseWriter =
  sw_status :: nat
  sw_outcome :: string

definition recording_WriteHeader :: "nat \<Rightarrow> statusRecordingResponseWriter \<Rightarrow> statusRecordingResponseWriter" where
  "recording_WriteHeader status w = (if sw_status w = 0 then w\<lparr>sw_status := status\<rparr> else w)"

definition recording_Write :: "statusRecordingResponseWriter \<Rightarrow> statusRecordingResponseWriter" where
  "recording_Write w = (if sw_status w = 0 then w\<lparr>sw_status := 200\<rparr> else w)"

definition statusCode :: "statusRecordingResponseWriter \<Rightarrow> nat" where
  "statusCode w = (if sw_status w = 0 then 200 else sw_status w)"

definition outcomeForStatus :: "nat \<Rightarrow> string" where
  "outcomeForStatus status =
     (if 200 \<le> status \<and> status < 300 then ''success''
      else if status = 400 \<or> status = 413 \<or> status = 415 then ''invalid_request''
      else if status = 401 then ''unauthorized''
      else if status = 403 then ''forbidden''
      else if status = 404 then ''not_found''
      else if status = 429 then ''busy''
      else if 500 \<le> status \<or> status = 503 then ''unavailable''
      else ''failed'')"

definition operationOutcome :: "statusRecordingResponseWriter \<Rightarrow> string" where
  "operationOutcome w = (if sw_outcome w \<noteq> [] then sw_outcome w else outcomeForStatus (statusCode w))"

definition recordMCPToolOutcome :: "string \<Rightarrow> statusRecordingResponseWriter \<Rightarrow> statusRecordingResponseWriter" where
  "recordMCPToolOutcome outcome w = w\<lparr>sw_outcome := outcome\<rparr>"

definition metricOperationForMCPTool :: "string \<Rightarrow> string" where
  "metricOperationForMCPTool name =
     (if isMCPGenerateTool name then ''generate''
      else if name \<in> {''encrypt'', ''decrypt'', ''rotate''} then name
      else if name = ''verify_rotation_attestation'' then ''verify''
      else [])"

text \<open>A string of type \<open>Operation\<close>.\<close>

definition operation_text :: "Operation \<Rightarrow> string" where
  "operation_text operation =
     (case operation of
        OperationEncrypt \<Rightarrow> ''encrypt'' | OperationDecrypt \<Rightarrow> ''decrypt'' | OperationRotate \<Rightarrow> ''rotate'' | OperationOther s \<Rightarrow> s)"

definition metricOperationForRequest :: "http_lib \<Rightarrow> http_request \<Rightarrow> string" where
  "metricOperationForRequest lib r =
     (if hr_Path r = ''/api/v1/operations'' then ''legacy''
      else if hr_Path r = ''/api/v1/generate'' then ''generate''
      else if hr_Path r = ''/api/v1/rotations'' then ''rotate''
      else if hr_Path r = ''/api/v1/attestations/verify'' then ''verify''
      else (case canonicalProfileOperation lib r of
        CanonicalPath _ operation \<Rightarrow> operation_text operation
      | _ \<Rightarrow> []))"

subsection \<open>The registry\<close>

definition metricOperations :: "string list" where
  "metricOperations = [''encrypt'', ''decrypt'', ''rotate'', ''generate'', ''legacy'', ''verify'']"

definition metricOutcomes :: "string list" where
  "metricOutcomes = [''success'', ''invalid_request'', ''unauthorized'', ''forbidden'', ''not_found'', ''unavailable'', ''busy'', ''failed'']"

definition attestationOutcomes :: "string list" where
  "attestationOutcomes = [''success'', ''invalid'', ''feature_unavailable'', ''unavailable'', ''busy'', ''failed'']"

text \<open>In nanoseconds.\<close>

definition metricBuckets :: "int list" where
  "metricBuckets = [5000000, 25000000, 100000000, 500000000, 1000000000, 5000000000]"

record 'f durationMetric =
  dm_buckets :: "64 word list"
  dm_count :: "64 word"
  dm_sum :: 'f

record 'f metricsRegistry =
  mr_operationRequests :: "string \<Rightarrow> string \<Rightarrow> 64 word"
  mr_operationDurations :: "string \<Rightarrow> 'f durationMetric"
  mr_attestationIssued :: "string \<Rightarrow> 64 word"
  mr_attestationVerify :: "string \<Rightarrow> 64 word"

definition newMetricsRegistry :: "'f \<Rightarrow> 'f metricsRegistry" where
  "newMetricsRegistry zero_sum =
     \<lparr>mr_operationRequests = (\<lambda>_ _. 0),
      mr_operationDurations = (\<lambda>_. \<lparr>dm_buckets = replicate 7 0, dm_count = 0, dm_sum = zero_sum\<rparr>),
      mr_attestationIssued = (\<lambda>_. 0), mr_attestationVerify = (\<lambda>_. 0)\<rparr>"

definition boundedOperation :: "string \<Rightarrow> string" where
  "boundedOperation operation = (if operation \<in> set metricOperations then operation else ''legacy'')"

definition containsAttestationOutcome :: "string \<Rightarrow> bool" where
  "containsAttestationOutcome outcome \<longleftrightarrow> outcome \<in> set attestationOutcomes"

text \<open>The buckets from an index on are incremented; the loop over the bounds stops at the first that holds the duration.\<close>

definition increment_from :: "nat \<Rightarrow> 64 word list \<Rightarrow> 64 word list" where
  "increment_from index bs = map (\<lambda>i. if index \<le> i then bs ! i + 1 else bs ! i) [0..<length bs]"

fun bucket_loop :: "int \<Rightarrow> nat \<Rightarrow> int list \<Rightarrow> 64 word list \<Rightarrow> 64 word list" where
  "bucket_loop d index [] bs = bs"
| "bucket_loop d index (upperBound # bounds) bs =
     (if d \<le> upperBound then increment_from index bs else bucket_loop d (index + 1) bounds bs)"

definition observeOperation ::
  "('f \<Rightarrow> int \<Rightarrow> 'f) \<Rightarrow> string \<Rightarrow> string \<Rightarrow> int \<Rightarrow> 'f metricsRegistry \<Rightarrow> 'f metricsRegistry" where
  "observeOperation add operation0 outcome d m =
     (let operation = boundedOperation operation0;
          metric = mr_operationDurations m operation;
          buckets1 = bucket_loop d 0 metricBuckets (dm_buckets metric);
          buckets2 = (if last metricBuckets < d
                      then buckets1[length metricBuckets := buckets1 ! length metricBuckets + 1] else buckets1)
      in m\<lparr>mr_operationRequests := (mr_operationRequests m)(operation :=
             (mr_operationRequests m operation)(outcome := mr_operationRequests m operation outcome + 1)),
           mr_operationDurations := (mr_operationDurations m)(operation :=
             metric\<lparr>dm_buckets := buckets2, dm_count := dm_count metric + 1, dm_sum := add (dm_sum metric) d\<rparr>)\<rparr>)"

definition observeAttestation :: "string \<Rightarrow> (string \<Rightarrow> 64 word) \<Rightarrow> string \<Rightarrow> 64 word" where
  "observeAttestation outcome0 vals =
     (let outcome = (if containsAttestationOutcome outcome0 then outcome0 else ''failed'') in vals(outcome := vals outcome + 1))"

definition observeAttestationIssued :: "string \<Rightarrow> 'f metricsRegistry \<Rightarrow> 'f metricsRegistry" where
  "observeAttestationIssued outcome m = m\<lparr>mr_attestationIssued := observeAttestation outcome (mr_attestationIssued m)\<rparr>"

definition observeAttestationVerify :: "string \<Rightarrow> 'f metricsRegistry \<Rightarrow> 'f metricsRegistry" where
  "observeAttestationVerify outcome m = m\<lparr>mr_attestationVerify := observeAttestation outcome (mr_attestationVerify m)\<rparr>"

definition attestationOutcomeFromError :: "svc_error \<Rightarrow> string" where
  "attestationOutcomeFromError err =
     (if HasCode err CodeInvalidRequest then ''invalid''
      else if HasCode err CodeFeatureUnavailable then ''feature_unavailable''
      else if HasCode err CodeAttestationBusy then ''busy''
      else if HasCode err CodeAttestationUnavailable then ''unavailable''
      else ''failed'')"

subsection \<open>Exposition\<close>

text \<open>The lines written, before \<open>fmt\<close> renders them: the type of a metric, and a sample with its labels.\<close>

datatype 'f metric_line =
    TypeLine string string
  | Sample string "(string \<times> string) list" "64 word"
  | SumSample string "(string \<times> string) list" 'f

text \<open>\<open>strconv.FormatFloat\<close> of the bounds.\<close>

definition bucket_labels :: "string list" where
  "bucket_labels = [''0.005'', ''0.025'', ''0.1'', ''0.5'', ''1'', ''5'']"

definition writeOutcomeCounter :: "string \<Rightarrow> (string \<Rightarrow> 64 word) \<Rightarrow> string list \<Rightarrow> 'f metric_line list" where
  "writeOutcomeCounter name vals names =
     TypeLine name ''counter'' # map (\<lambda>outcome. Sample name [(''outcome'', outcome)] (vals outcome)) names"

definition duration_lines :: "'f metricsRegistry \<Rightarrow> string \<Rightarrow> 'f metric_line list" where
  "duration_lines m operation =
     (let metric = mr_operationDurations m operation; name = ''vaultsmith_operation_duration_seconds'' in
      map (\<lambda>index. Sample (name @ ''_bucket'') [(''operation'', operation), (''le'', bucket_labels ! index)] (dm_buckets metric ! index))
        [0..<length metricBuckets] @
      [Sample (name @ ''_bucket'') [(''operation'', operation), (''le'', ''+Inf'')] (dm_buckets metric ! length metricBuckets),
       SumSample (name @ ''_sum'') [(''operation'', operation)] (dm_sum metric),
       Sample (name @ ''_count'') [(''operation'', operation)] (dm_count metric)])"

text \<open>Ready, and the two counters of reloads where the manager has them.\<close>

record keyring_counters =
  kc_Ready :: bool
  kc_reloads :: "(64 word \<times> 64 word) option"

definition write_metrics :: "'f metricsRegistry \<Rightarrow> keyring_counters option \<Rightarrow> 'f metric_line list" where
  "write_metrics m manager =
     [TypeLine ''vaultsmith_operation_requests_total'' ''counter''] @
     concat (map (\<lambda>operation. map (\<lambda>outcome. Sample ''vaultsmith_operation_requests_total''
       [(''operation'', operation), (''outcome'', outcome)] (mr_operationRequests m operation outcome)) metricOutcomes) metricOperations) @
     [TypeLine ''vaultsmith_operation_duration_seconds'' ''histogram''] @
     concat (map (duration_lines m) metricOperations) @
     writeOutcomeCounter ''vaultsmith_attestation_issued_total'' (mr_attestationIssued m) attestationOutcomes @
     writeOutcomeCounter ''vaultsmith_attestation_verify_total'' (mr_attestationVerify m) attestationOutcomes @
     (let loaded = (case manager of None \<Rightarrow> 0 | Some k \<Rightarrow> if kc_Ready k then 1 else 0);
          reloads = (case manager of None \<Rightarrow> (0, 0) | Some k \<Rightarrow> (case kc_reloads k of None \<Rightarrow> (0, 0) | Some counts \<Rightarrow> counts))
      in [TypeLine ''vaultsmith_attestation_keyring_reload_total'' ''counter'',
          Sample ''vaultsmith_attestation_keyring_reload_total'' [(''outcome'', ''success'')] (fst reloads),
          Sample ''vaultsmith_attestation_keyring_reload_total'' [(''outcome'', ''failed'')] (snd reloads),
          TypeLine ''vaultsmith_attestation_keyring_loaded'' ''gauge'',
          Sample ''vaultsmith_attestation_keyring_loaded'' [] loaded])"

subsection \<open>The log of saturation\<close>

definition shouldLogAdmissionSaturation :: "64 word \<Rightarrow> bool" where
  "shouldLogAdmissionSaturation count \<longleftrightarrow> count \<noteq> 0 \<and> and count (count - 1) = 0"

section \<open>Lemmas\<close>

subsection \<open>Counting\<close>

record observation =
  ob_operation :: string
  ob_outcome :: string
  ob_duration :: int

definition observe :: "('f \<Rightarrow> int \<Rightarrow> 'f) \<Rightarrow> observation \<Rightarrow> 'f metricsRegistry \<Rightarrow> 'f metricsRegistry" where
  "observe add x m = observeOperation add (ob_operation x) (ob_outcome x) (ob_duration x) m"

definition matching :: "(observation \<Rightarrow> bool) \<Rightarrow> observation list \<Rightarrow> 64 word" where
  "matching P h = of_nat (length (filter P h))"

lemma matching_simps [simp]:
  "matching P [] = 0" "matching P (h @ [x]) = matching P h + (if P x then 1 else 0)"
  by (simp_all add: matching_def)

text \<open>The bounds of the seven buckets; the last has none.\<close>

definition in_bucket :: "nat \<Rightarrow> int \<Rightarrow> bool" where
  "in_bucket i d \<longleftrightarrow> (if i < length metricBuckets then d \<le> metricBuckets ! i else True)"

lemma buckets_updated:
  assumes "length bs = 7" "i < 7"
  shows "(let bs1 = bucket_loop d 0 metricBuckets bs in
      (if last metricBuckets < d then bs1[length metricBuckets := bs1 ! length metricBuckets + 1] else bs1) ! i) =
    bs ! i + (if in_bucket i d then 1 else 0)"
proof -
  have "i \<in> {0, 1, 2, 3, 4, 5, 6}" using assms(2) by auto
  then show ?thesis
    using assms(1) by (auto simp: metricBuckets_def increment_from_def in_bucket_def Let_def)
      (simp add: numeral_eq_Suc)
qed

lemma buckets_length: "length (bucket_loop d k bounds bs) = length bs"
  by (induction d k bounds bs rule: bucket_loop.induct) (simp_all add: increment_from_def)

definition of_operation :: "string \<Rightarrow> observation \<Rightarrow> bool" where
  "of_operation operation x \<longleftrightarrow> boundedOperation (ob_operation x) = operation"

lemma observed:
  "mr_operationRequests (observe add x m) operation outcome =
     mr_operationRequests m operation outcome + (if of_operation operation x \<and> ob_outcome x = outcome then 1 else 0)"
  "dm_count (mr_operationDurations (observe add x m) operation) =
     dm_count (mr_operationDurations m operation) + (if of_operation operation x then 1 else 0)"
  "length (dm_buckets (mr_operationDurations (observe add x m) operation)) = length (dm_buckets (mr_operationDurations m operation))"
  by (auto simp: observe_def observeOperation_def of_operation_def Let_def buckets_length)

lemma observed_bucket:
  assumes "length (dm_buckets (mr_operationDurations m operation)) = 7" "i < 7"
  shows "dm_buckets (mr_operationDurations (observe add x m) operation) ! i =
    dm_buckets (mr_operationDurations m operation) ! i + (if of_operation operation x \<and> in_bucket i (ob_duration x) then 1 else 0)"
proof (cases "of_operation operation x")
  case True
  then show ?thesis
    using buckets_updated [OF assms, of "ob_duration x", unfolded Let_def]
    by (simp add: observe_def observeOperation_def of_operation_def Let_def split del: if_split)
qed (auto simp: observe_def observeOperation_def of_operation_def Let_def)

definition counted :: "observation list \<Rightarrow> 'f metricsRegistry \<Rightarrow> bool" where
  "counted h m \<longleftrightarrow>
     (\<forall>operation. (\<forall>outcome. mr_operationRequests m operation outcome = matching (\<lambda>x. of_operation operation x \<and> ob_outcome x = outcome) h) \<and>
        dm_count (mr_operationDurations m operation) = matching (of_operation operation) h \<and>
        length (dm_buckets (mr_operationDurations m operation)) = 7 \<and>
        (\<forall>i<7. dm_buckets (mr_operationDurations m operation) ! i =
          matching (\<lambda>x. of_operation operation x \<and> in_bucket i (ob_duration x)) h))"

lemma counted_all: "counted h (fold (observe add) h (newMetricsRegistry z))"
proof (induction h rule: rev_induct)
  case Nil
  then show ?case by (simp add: counted_def newMetricsRegistry_def)
next
  case (snoc x h)
  then show ?case by (simp add: counted_def observed observed_bucket)
qed

text \<open>The registry counts exactly. After any sequence of observations the counter of an operation and an outcome is the
  number of observations with them, the histogram of an operation has in each bucket the number of observations no
  longer than its bound, and in the last bucket, like its count, all of them; numbers of observations are taken
  modulo \<open>2\<^sup>6\<^sup>4\<close>, and an operation outside the fixed vocabulary counts as the legacy one.\<close>

lemma registry_counts_exactly:
  "let m = fold (observe add) h (newMetricsRegistry z); metric = mr_operationDurations m operation;
       mine = (\<lambda>x. boundedOperation (ob_operation x) = operation) in
     mr_operationRequests m operation outcome = of_nat (length (filter (\<lambda>x. mine x \<and> ob_outcome x = outcome) h)) \<and>
     take 6 (dm_buckets metric) = map (\<lambda>bound. of_nat (length (filter (\<lambda>x. mine x \<and> ob_duration x \<le> bound) h))) metricBuckets \<and>
     dm_buckets metric ! 6 = of_nat (length (filter mine h)) \<and> dm_count metric = of_nat (length (filter mine h))"
proof -
  define m where "m = fold (observe add) h (newMetricsRegistry z)"
  have c: "counted h m" unfolding m_def by (rule counted_all)
  have six: "length metricBuckets = 6" by (simp add: metricBuckets_def)
  have "take 6 (dm_buckets (mr_operationDurations m operation)) =
      map (\<lambda>bound. of_nat (length (filter (\<lambda>x. of_operation operation x \<and> ob_duration x \<le> bound) h))) metricBuckets"
    using c six by (intro nth_equalityI) (auto simp: counted_def matching_def in_bucket_def)
  moreover have "dm_buckets (mr_operationDurations m operation) ! 6 = of_nat (length (filter (of_operation operation) h))"
    using c six by (simp add: counted_def matching_def in_bucket_def)
  ultimately show ?thesis
    using c unfolding Let_def m_def [symmetric] of_operation_def [abs_def] by (simp add: counted_def matching_def of_operation_def [abs_def])
qed

lemma and_pred_nat: "0 < n \<Longrightarrow> and n (n - 1) = 0 \<longleftrightarrow> (\<exists>k. n = (2::nat) ^ k)"
proof (induction n rule: less_induct)
  case (less n)
  show ?case
  proof (cases "even n")
    case True
    then obtain m where m: "n = 2 * m" "0 < m" using less(2) by (auto elim!: evenE)
    have half: "(2 * m - Suc 0) div 2 = m - Suc 0" using m(2) by arith
    have "and n (n - 1) = 2 * and m (m - 1)"
      using m half by (subst and_rec) auto
    then have "and n (n - 1) = 0 \<longleftrightarrow> (\<exists>k. m = 2 ^ k)" using less(1) [of m] m by simp
    moreover have "(\<exists>k. m = 2 ^ k) \<longleftrightarrow> (\<exists>k. n = 2 ^ k)"
    proof
      assume "\<exists>k. n = 2 ^ k"
      then obtain k where "n = 2 ^ k" by blast
      then show "\<exists>k. m = 2 ^ k" using m True by (cases k) auto
    qed (use m in \<open>auto intro: exI [of _ "Suc _"]\<close>)
    ultimately show ?thesis by simp
  next
    case False
    then obtain m where m: "n = 2 * m + 1" by (auto elim!: oddE)
    have "and n (n - 1) = 2 * m" unfolding m by (subst and_rec) simp
    moreover have "(\<exists>k. n = 2 ^ k) \<longleftrightarrow> n = 1"
    proof
      assume "\<exists>k. n = 2 ^ k"
      then obtain k where "n = 2 ^ k" by blast
      then show "n = 1" using False by (cases k) auto
    qed (auto intro: exI [of _ 0])
    ultimately show ?thesis using m by simp
  qed
qed

text \<open>The saturation of admission is logged at the powers of two, so at most 64 times before the counter wraps.\<close>

lemma saturation_logged_at_powers: "shouldLogAdmissionSaturation n \<longleftrightarrow> (\<exists>k<64. n = 2 ^ k)"
proof (cases "n = 0")
  case False
  then have pos: "0 < unat n" by (simp add: unat_gt_0)
  have "unat (and n (n - 1)) = and (unat n) (unat n - 1)" using False by (simp add: unsigned_and_eq unat_minus_one)
  then have "shouldLogAdmissionSaturation n \<longleftrightarrow> (\<exists>k. unat n = 2 ^ k)"
    using and_pred_nat [OF pos] False by (simp add: shouldLogAdmissionSaturation_def unat_eq_zero [symmetric])
  also have "\<dots> \<longleftrightarrow> (\<exists>k<64. n = 2 ^ k)"
  proof
    assume "\<exists>k. unat n = 2 ^ k"
    then obtain k where k: "unat n = 2 ^ k" by blast
    then have "(2::nat) ^ k < 2 ^ 64" using unsigned_less [of n, where ?'a = nat] by simp
    then have "k < 64" by (rule power_less_imp_less_exp [rotated]) simp
    moreover have "of_nat (unat n) = n" by simp
    then have "n = 2 ^ k" by (simp add: k)
    ultimately show "\<exists>k<64. n = 2 ^ k" by blast
  next
    assume "\<exists>k<64. n = 2 ^ k"
    then obtain k where k: "k < 64" "n = of_nat (2 ^ k)" by auto
    have "take_bit 64 ((2::nat) ^ k) = 2 ^ k" using k(1) by (intro take_bit_nat_eq_self power_strict_increasing) simp_all
    then have "unat n = 2 ^ k" unfolding k(2) unsigned_of_nat by simp
    then show "\<exists>k. unat n = 2 ^ k" by blast
  qed
  finally show ?thesis .
qed (auto simp: shouldLogAdmissionSaturation_def)

end
