(* ===== verification/HTTP_Handlers.thy ===== *)
theory HTTP_Handlers
  imports Requests Metrics
begin

text \<open>
  The handlers of the HTTP API: \<open>ServeHTTP\<close> and the \<open>serve\<close> functions of \<open>handler.go\<close>, \<open>attestation_http.go\<close>,
  \<open>generate_http.go\<close> and \<open>auth_routes.go\<close> in \<open>backend/internal/httpapi\<close>, composed of the authentication of sessions, the
  parsers of bodies, admission and the operations of the service.

  A handler runs on a \<open>world\<close>: the response written so far, the leases, the session of the request, the source of
  randomness and the metrics. The result \<open>None\<close> means that it waits for a lease that another operation holds. Reads of
  the context are at consecutive instants. JSON responses are the texts that \<open>json.NewEncoder\<close> writes.

  The results are that no path through a handler keeps capacity or blocks, and that a successful response of an operation
  is the outcome of a run that the service prepared for the caller of the request.
\<close>

section \<open>Definitions\<close>

subsection \<open>Handlers and their world\<close>

record 'r Handler =
  hd_service :: "Service option"
  hd_generator :: "'r MaterialGenerator option"
  hd_auth :: "Authenticator option"
  hd_authConfig :: AuthConfig

record ('s, 'd, 'r, 'f) world =
  wd_writer :: http_writer
  wd_heap :: heap
  wd_auth :: "('s, 'd) request"
  wd_random :: 'r
  wd_metrics :: "'f metricsRegistry option"
  wd_lines :: "'f metric_line list"

text \<open>What surrounds the code: the libraries, the instants at which cancellations are delivered, the time stamp, the orders in
  which maps are gone through, the sum of durations, \<open>http.Redirect\<close> with status 303, \<open>json.Marshal\<close> of the generated union types,
  which merge the kind into the response with a third-party function (\<open>None\<close> for an error), and the counts of reloads.\<close>

record ('s, 'd, 'f) surroundings =
  sr_http :: http_lib
  sr_proof :: proof_lib
  sr_runtime :: "('s, 'd) auth_runtime"
  sr_delivered :: "nat \<Rightarrow> bool"
  sr_now :: string
  sr_order :: map_order
  sr_names :: "string list"
  sr_add :: "'f \<Rightarrow> int \<Rightarrow> 'f"
  sr_Redirect :: "http_request \<Rightarrow> string \<Rightarrow> http_writer \<Rightarrow> http_writer"
  sr_marshal_union :: "jsonValue \<Rightarrow> string \<Rightarrow> string option"
  sr_reloads :: "nat \<Rightarrow> (64 word \<times> 64 word) option"

type_synonym ('s, 'd, 'r, 'f) served = "('s, 'd, 'r, 'f) world option"

definition reply :: "(http_writer \<Rightarrow> http_writer) \<Rightarrow> ('s, 'd, 'r, 'f) world \<Rightarrow> ('s, 'd, 'r, 'f) world" where
  "reply f w = w\<lparr>wd_writer := f (wd_writer w)\<rparr>"

definition service_admission :: "'r Handler \<Rightarrow> nat option" where
  "service_admission hdl = (case hd_service hdl of None \<Rightarrow> None | Some s \<Rightarrow> svc_admission s)"

definition service_verifierAdmission :: "'r Handler \<Rightarrow> nat option" where
  "service_verifierAdmission hdl = (case hd_service hdl of None \<Rightarrow> None | Some s \<Rightarrow> svc_verifierAdmission s)"

definition encoded :: "jsonValue \<Rightarrow> http_body" where
  "encoded v = JSONBody (render marshal_chars v @ [LF])"

definition writeRawJSON :: "http_lib \<Rightarrow> nat \<Rightarrow> string \<Rightarrow> http_writer \<Rightarrow> http_writer" where
  "writeRawJSON lib status raw = writeJSON lib status (JSONBody (raw @ [LF]))"

subsection \<open>Callers\<close>

definition requestCaller ::
  "('s, 'd) auth_runtime \<Rightarrow> 'r Handler \<Rightarrow> http_request \<Rightarrow> ('s, 'd) request \<Rightarrow> ((nat \<times> string) + Caller) \<times> ('s, 'd) request" where
  "requestCaller rt hdl r st =
     (case hr_caller r of
        Some actor \<Rightarrow> (Inr actor, st)
      | None \<Rightarrow>
          if ac_Mode (hd_authConfig hdl) \<noteq> AuthModeNative then (Inr Anonymous, st)
          else (case hd_auth hdl of
            None \<Rightarrow> (Inl (503, ''not_ready''), st)
          | Some a \<Rightarrow> (case AuthenticatedPrincipal a rt st of
              (Inl ErrTemporaryUnavailable, st1) \<Rightarrow> (Inl (503, ''temporarily_unavailable''), st1)
            | (Inl _, st1) \<Rightarrow> (Inl (401, ''unauthorized''), st1)
            | (Inr None, st1) \<Rightarrow> (Inl (401, ''unauthorized''), st1)
            | (Inr (Some p), st1) \<Rightarrow> (case NewSession (pn_Issuer p) (pn_Subject p) (pn_Groups p) of
                Inl _ \<Rightarrow> (Inl (503, ''not_ready''), st1)
              | Inr actor \<Rightarrow> (Inr actor, st1)))))"

definition for_caller ::
  "('s, 'd, 'f) surroundings \<Rightarrow> 'r Handler \<Rightarrow> http_request \<Rightarrow> ('s, 'd, 'r, 'f) world \<Rightarrow>
     (Caller \<Rightarrow> ('s, 'd, 'r, 'f) world \<Rightarrow> ('s, 'd, 'r, 'f) served) \<Rightarrow> ('s, 'd, 'r, 'f) served" where
  "for_caller e hdl r w next =
     (case requestCaller (sr_runtime e) hdl r (wd_auth w) of
        (Inl (status, code), st) \<Rightarrow> Some (reply (writeAuthError (sr_http e) status code) (w\<lparr>wd_auth := st\<rparr>))
      | (Inr actor, st) \<Rightarrow> next actor (w\<lparr>wd_auth := st\<rparr>))"

text \<open>The answer to a failed preflight: a challenge for a Bearer token that lacks the scope.\<close>

definition preflight_error :: "http_lib \<Rightarrow> AuthConfig \<Rightarrow> Caller \<Rightarrow> string \<Rightarrow> svc_error \<Rightarrow> http_writer \<Rightarrow> http_writer" where
  "preflight_error lib cfg actor scope err =
     (if kind actor = KindBearer \<and> HasCode err CodeForbidden
      then writeBearerChallenge lib cfg 403 ''insufficient_scope'' scope else writeServiceError lib err)"

subsection \<open>Admission\<close>

definition unavailable_now :: "http_lib \<Rightarrow> http_writer \<Rightarrow> http_writer" where
  "unavailable_now lib = writeError lib 503 ''temporarily_unavailable'' ''service is temporarily unavailable''"

definition writeOperationAdmissionSaturated :: "http_lib \<Rightarrow> bool \<Rightarrow> http_writer \<Rightarrow> http_writer" where
  "writeOperationAdmissionSaturated lib retryable w =
     unavailable_now lib (if retryable then header_Set ''Retry-After'' ''1'' w else w)"

text \<open>The errors of admission are not errors of the service, so \<open>writeServiceError\<close> answers that it is not ready.\<close>

definition acquire_failed :: "http_lib \<Rightarrow> bool \<Rightarrow> admission_error \<Rightarrow> http_writer \<Rightarrow> http_writer" where
  "acquire_failed lib retryable err =
     (case err of
        ErrAdmissionSaturated \<Rightarrow> writeOperationAdmissionSaturated lib retryable
      | ErrContext _ \<Rightarrow> unavailable_now lib
      | _ \<Rightarrow> writeError lib 503 ''not_ready'' ''service is not ready'')"

text \<open>\<open>TryAcquire\<close>, the context of the lease, the work, and the deferred \<open>Release\<close>.\<close>

definition with_lease ::
  "nat option \<Rightarrow> (admission_error \<Rightarrow> ('s, 'd, 'r, 'f) world \<Rightarrow> ('s, 'd, 'r, 'f) world) \<Rightarrow> context_t \<Rightarrow> nat \<Rightarrow> ('s, 'd, 'r, 'f) world \<Rightarrow>
     (nat \<Rightarrow> ctx \<Rightarrow> ('s, 'd, 'r, 'f) world \<Rightarrow> ('s, 'd, 'r, 'f) served) \<Rightarrow> ('s, 'd, 'r, 'f) served" where
  "with_lease adm refused c t w work =
     (case TryAcquire (wd_heap w) adm c t of
        (Inl err, h1) \<Rightarrow> Some (refused err (w\<lparr>wd_heap := h1\<rparr>))
      | (Inr l, h1) \<Rightarrow> (case lease_Context h1 (Some l) (Some c) of
          (leaseContext, h2) \<Rightarrow> (case work l leaseContext (w\<lparr>wd_heap := h2\<rparr>) of
            None \<Rightarrow> None
          | Some w1 \<Rightarrow> map_option (\<lambda>h3. w1\<lparr>wd_heap := h3\<rparr>) (Release (wd_heap w1) (Some l)))))"

definition body_failed :: "http_lib \<Rightarrow> string \<Rightarrow> body_error \<Rightarrow> http_writer \<Rightarrow> http_writer" where
  "body_failed lib message err =
     (case err of
        BodyTooLarge \<Rightarrow> writeError lib 413 ''invalid_request'' ''request is too large''
      | BodyContext _ \<Rightarrow> unavailable_now lib
      | BodyInvalid \<Rightarrow> writeError lib 400 ''invalid_request'' message)"

subsection \<open>Operations\<close>

text \<open>The checks every handler of an operation starts with.\<close>

definition post_json :: "http_lib \<Rightarrow> http_request \<Rightarrow> (http_writer \<Rightarrow> http_writer) option" where
  "post_json lib r =
     (if hr_Method r \<noteq> ''POST'' then Some (methodNotAllowed lib ''POST'')
      else if \<not> isJSONContentType lib (header_Get r ''Content-Type'')
      then Some (writeError lib 415 ''invalid_request'' ''content type must be application/json'')
      else if \<not> supportsIdentityContentEncoding lib r
      then Some (writeError lib 415 ''invalid_request'' ''media type is not supported'')
      else None)"

text \<open>\<open>Prepare\<close> and \<open>Run\<close> with the lease. \<open>Prepare\<close> takes the instants up to \<open>t + 18\<close>.\<close>

definition run_prepared ::
  "('s, 'd, 'f) surroundings \<Rightarrow> 'r Handler \<Rightarrow> Caller \<Rightarrow> Command \<Rightarrow> (string \<Rightarrow> jsonValue) \<Rightarrow> nat \<Rightarrow> nat \<Rightarrow> ctx \<Rightarrow> ('s, 'd, 'r, 'f) world \<Rightarrow>
     ('s, 'd, 'r, 'f) served" where
  "run_prepared e hdl actor cmd response t l lc w =
     (case Prepare (sr_proof e) (sr_delivered e) (wd_heap w) (hd_service hdl) lc t actor cmd (Some l) of
        Inl err \<Rightarrow> Some (reply (writeServiceError (sr_http e) err) w)
      | Inr prepared \<Rightarrow>
          (case Run (sr_proof e) (sr_now e) (sr_delivered e) (wd_heap w) (Some prepared) lc (t + 19) of
             None \<Rightarrow> None
           | Some (Inl err, _, h) \<Rightarrow> Some (reply (writeServiceError (sr_http e) err) (w\<lparr>wd_heap := h\<rparr>))
           | Some (Inr out, _, h) \<Rightarrow> Some (reply (writeJSON (sr_http e) 200 (encoded (response out))) (w\<lparr>wd_heap := h\<rparr>))))"

definition operation_scope :: "Operation \<Rightarrow> string" where
  "operation_scope operation = (case RequiredScope operation of None \<Rightarrow> [] | Some scope \<Rightarrow> scope)"

definition serveCanonicalOperation ::
  "('s, 'd, 'f) surroundings \<Rightarrow> 'r Handler \<Rightarrow> http_request \<Rightarrow> context_t \<Rightarrow> nat \<Rightarrow> request_body \<Rightarrow> Operation \<Rightarrow>
     ((string \<times> string) list \<Rightarrow> Command option) \<Rightarrow> (string \<Rightarrow> jsonValue) \<Rightarrow> ('s, 'd, 'r, 'f) world \<Rightarrow> ('s, 'd, 'r, 'f) served" where
  "serveCanonicalOperation e hdl r c t b operation decodeCommand response w =
     (let lib = sr_http e in
      case post_json lib r of
        Some answer \<Rightarrow> Some (reply answer w)
      | None \<Rightarrow> for_caller e hdl r w (\<lambda>actor w1.
          (case Preflight (Some c) t actor operation of
             Some err \<Rightarrow> Some (reply (preflight_error lib (hd_authConfig hdl) actor (operation_scope operation) err) w1)
           | None \<Rightarrow> with_lease (service_admission hdl) (\<lambda>err. reply (acquire_failed lib True err)) c (t + 1) w1 (\<lambda>l lc w2.
               (case decodeStrictStringFields lib (sr_order e) c (t + 3) b (canonicalAllowedFields operation) of
                  Inl err \<Rightarrow> Some (reply (body_failed lib ''request is invalid'' err) w2)
                | Inr fs \<Rightarrow> (case decodeCommand fs of
                    None \<Rightarrow> Some (reply (body_failed lib ''request is invalid'' BodyInvalid) w2)
                  | Some cmd \<Rightarrow> run_prepared e hdl actor cmd response (t + 12) l lc w2))))))"

definition serveCanonicalEncrypt ::
  "('s, 'd, 'f) surroundings \<Rightarrow> 'r Handler \<Rightarrow> http_request \<Rightarrow> context_t \<Rightarrow> nat \<Rightarrow> request_body \<Rightarrow> string \<Rightarrow>
     ('s, 'd, 'r, 'f) world \<Rightarrow> ('s, 'd, 'r, 'f) served" where
  "serveCanonicalEncrypt e hdl r c t b pid =
     serveCanonicalOperation e hdl r c t b OperationEncrypt
       (\<lambda>fs. map_option (\<lambda>plaintext. empty_Command\<lparr>cmd_Operation := OperationEncrypt, cmd_ProfileID := pid, cmd_Value := plaintext\<rparr>)
          (map_of fs ''plaintext''))
       (\<lambda>out. JObject [(''vaultText'', JString out)])"

definition serveCanonicalDecrypt ::
  "('s, 'd, 'f) surroundings \<Rightarrow> 'r Handler \<Rightarrow> http_request \<Rightarrow> context_t \<Rightarrow> nat \<Rightarrow> request_body \<Rightarrow> string \<Rightarrow>
     ('s, 'd, 'r, 'f) world \<Rightarrow> ('s, 'd, 'r, 'f) served" where
  "serveCanonicalDecrypt e hdl r c t b pid =
     serveCanonicalOperation e hdl r c t b OperationDecrypt
       (\<lambda>fs. map_option (\<lambda>vaultText. empty_Command\<lparr>cmd_Operation := OperationDecrypt, cmd_ProfileID := pid, cmd_Value := vaultText\<rparr>)
          (map_of fs ''vaultText''))
       (\<lambda>out. JObject [(''plaintext'', JString out)])"

definition serveOperation ::
  "('s, 'd, 'f) surroundings \<Rightarrow> 'r Handler \<Rightarrow> http_request \<Rightarrow> context_t \<Rightarrow> nat \<Rightarrow> request_body \<Rightarrow>
     ('s, 'd, 'r, 'f) world \<Rightarrow> ('s, 'd, 'r, 'f) served" where
  "serveOperation e hdl r c t b w =
     (let lib = sr_http e in
      if hr_Method r \<noteq> ''POST'' then Some (reply (methodNotAllowed lib ''POST'') w)
      else (case rejectUnsupportedAuthorization lib (hd_authConfig hdl) r (wd_writer w) of
        Some answered \<Rightarrow> Some (w\<lparr>wd_writer := answered\<rparr>)
      | None \<Rightarrow> (case post_json lib r of
          Some answer \<Rightarrow> Some (reply answer w)
        | None \<Rightarrow> for_caller e hdl r w (\<lambda>actor w1.
            with_lease (service_admission hdl) (\<lambda>err. reply (acquire_failed lib True err)) c t w1 (\<lambda>l lc w2.
              (case decodeOperation lib (sr_order e) c (t + 2) b of
                 Inl err \<Rightarrow> Some (reply (body_failed lib ''request is invalid'' err) w2)
               | Inr request \<Rightarrow> run_prepared e hdl actor (operationRequest_command request)
                   (\<lambda>out. JObject [(''value'', JString out)]) (t + 12) l lc w2))))))"

subsection \<open>Rotations\<close>

definition observe_issued :: "bool \<Rightarrow> string \<Rightarrow> ('s, 'd, 'r, 'f) world \<Rightarrow> ('s, 'd, 'r, 'f) world" where
  "observe_issued requested outcome w =
     (if requested then w\<lparr>wd_metrics := map_option (observeAttestationIssued outcome) (wd_metrics w)\<rparr> else w)"

text \<open>The members in the order of \<open>Signed.MarshalJSON\<close>.\<close>

definition signed_json :: "Signed \<Rightarrow> jsonValue" where
  "signed_json jws = JObject [(''payload'', JString (Payload jws)), (''protected'', JString (Protected jws)), (''signature'', JString (Signature jws))]"

definition rotation_json :: "RotationResult \<Rightarrow> jsonValue" where
  "rotation_json result =
     JObject ((''vaultText'', JString (rr_VaultText result)) #
       (case rr_Attestation result of None \<Rightarrow> [] | Some jws \<Rightarrow> [(''attestation'', signed_json jws)]))"

definition rotation_command :: "rotationRequestWithAttestation \<Rightarrow> Command" where
  "rotation_command request =
     \<lparr>cmd_Operation = OperationRotate, cmd_ProfileID = [], cmd_SourceProfileID = rw_SourceProfileID request,
      cmd_DestinationProfileID = rw_DestinationProfileID request, cmd_Value = rw_VaultText request,
      cmd_Attestation = rw_Attestation request\<rparr>"

definition run_rotation ::
  "('s, 'd, 'f) surroundings \<Rightarrow> 'r Handler \<Rightarrow> Caller \<Rightarrow> rotationRequestWithAttestation \<Rightarrow> nat \<Rightarrow> nat \<Rightarrow> ctx \<Rightarrow> ('s, 'd, 'r, 'f) world \<Rightarrow>
     ('s, 'd, 'r, 'f) served" where
  "run_rotation e hdl actor request t l lc w =
     (let lib = sr_http e; requested = (rw_Attestation request \<noteq> None);
          failed = (\<lambda>err w1. observe_issued requested (attestationOutcomeFromError err) (reply (writeServiceError lib err) w1))
      in case Prepare (sr_proof e) (sr_delivered e) (wd_heap w) (hd_service hdl) lc t actor (rotation_command request) (Some l) of
           Inl err \<Rightarrow> Some (failed err w)
         | Inr prepared \<Rightarrow>
             (case RunResult (sr_proof e) (sr_now e) (sr_delivered e) (wd_heap w) (Some prepared) lc (t + 19) of
                None \<Rightarrow> None
              | Some (Inl err, _, h) \<Rightarrow> Some (failed err (w\<lparr>wd_heap := h\<rparr>))
              | Some (Inr result, _, h) \<Rightarrow>
                  Some (observe_issued requested (if rr_Attestation result \<noteq> None then ''success'' else ''failed'')
                    (reply (writeJSON lib 200 (encoded (rotation_json result))) (w\<lparr>wd_heap := h\<rparr>)))))"

definition serveCanonicalRotateWithAttestation ::
  "('s, 'd, 'f) surroundings \<Rightarrow> 'r Handler \<Rightarrow> http_request \<Rightarrow> context_t \<Rightarrow> nat \<Rightarrow> request_body \<Rightarrow>
     ('s, 'd, 'r, 'f) world \<Rightarrow> ('s, 'd, 'r, 'f) served" where
  "serveCanonicalRotateWithAttestation e hdl r c t b w =
     (let lib = sr_http e in
      case post_json lib r of
        Some answer \<Rightarrow> Some (reply answer w)
      | None \<Rightarrow> for_caller e hdl r w (\<lambda>actor w1.
          (case Preflight (Some c) t actor OperationRotate of
             Some err \<Rightarrow> Some (reply (preflight_error lib (hd_authConfig hdl) actor ScopeRotate err) w1)
           | None \<Rightarrow> with_lease (service_admission hdl) (\<lambda>err. reply (acquire_failed lib True err)) c (t + 1) w1 (\<lambda>l lc w2.
               (case readRequestBody c (t + 3) MaxRequestBodyBytes b of
                  Inl err \<Rightarrow> Some (reply (body_failed lib ''request is invalid'' err) w2)
                | Inr raw \<Rightarrow>
                    if ctx_Err c (t + 4) \<noteq> None then Some (reply (unavailable_now lib) w2)
                    else (case parseRotationRequestWithAttestation lib raw of
                      None \<Rightarrow> Some (reply (body_failed lib ''request is invalid'' BodyInvalid) w2)
                    | Some request \<Rightarrow> run_rotation e hdl actor request (t + 5) l lc w2))))))"

subsection \<open>Verification\<close>

definition reason_text :: "VerificationReason \<Rightarrow> string" where
  "reason_text reason = (case reason of
     SignatureInvalid \<Rightarrow> ''signature_invalid'' | UnknownKey \<Rightarrow> ''unknown_key'' | KeyRevoked \<Rightarrow> ''key_revoked''
   | IssuerMismatch \<Rightarrow> ''issuer_mismatch'' | UnsupportedVersion \<Rightarrow> ''unsupported_version''
   | InputDigestMismatch \<Rightarrow> ''input_digest_mismatch'' | OutputDigestMismatch \<Rightarrow> ''output_digest_mismatch''
   | BindingMismatch \<Rightarrow> ''binding_mismatch'')"

definition protected_kid :: "http_lib \<Rightarrow> Signed \<Rightarrow> string" where
  "protected_kid lib jws =
     or_empty (do { protected \<leftarrow> base64_DecodeString (Protected jws);
                    fs \<leftarrow> decodeStrictObject lib [''alg'', ''kid'', ''typ''] protected;
                    decodeOperationString (or_empty (map_of fs ''kid'')) })"

definition safeClaimsResponse :: "http_lib \<Rightarrow> Signed \<Rightarrow> RotationClaims \<Rightarrow> jsonValue" where
  "safeClaimsResponse lib jws claims =
     JObject ([(''issuer'', JString (Issuer claims)), (''issuedAt'', JString (IssuedAt claims)),
       (''operation'', JString (RotationClaims.Operation claims)), (''sourceProfileId'', JString (SourceProfileID claims)),
       (''destinationProfileId'', JString (DestinationProfileID claims)), (''kid'', JString (protected_kid lib jws))] @
       (case claims_Binding claims of None \<Rightarrow> [] | Some b \<Rightarrow> [(''binding'', binding_value b)]))"

text \<open>The reason a verification error carries, and whether an error is \<open>ErrMalformed\<close>.\<close>

definition failure_reason :: "svc_error option \<Rightarrow> VerificationReason option" where
  "failure_reason err = (case err of Some (AttestationFailure a) \<Rightarrow> VerificationReasonOf (Some a) | _ \<Rightarrow> None)"

definition is_malformed :: "svc_error \<Rightarrow> bool" where
  "is_malformed err \<longleftrightarrow> err = AttestationFailure ErrMalformed \<or> err = invalidAttestationRequest ErrMalformed"

definition verify_response ::
  "http_lib \<Rightarrow> verifyAttestationRequest \<Rightarrow> RotationClaims \<times> svc_error option \<Rightarrow> string \<times> (http_writer \<Rightarrow> http_writer)" where
  "verify_response lib request verdict =
     (case verdict of (claims, err) \<Rightarrow>
        (case failure_reason err of
           Some reason \<Rightarrow>
             (''invalid'', writeJSON lib 200 (encoded (JObject ([(''valid'', JBoolean False), (''reason'', JString (reason_text reason))] @
               (if Issuer claims \<noteq> [] \<and> reason \<noteq> SignatureInvalid \<and> reason \<noteq> UnknownKey \<and> reason \<noteq> IssuerMismatch
                then [(''attestation'', safeClaimsResponse lib (vr_Attestation request) claims)] else [])))))
         | None \<Rightarrow> (case err of
             Some x \<Rightarrow>
               (attestationOutcomeFromError x,
                if HasCode x CodeInvalidRequest \<or> is_malformed x
                then writeError lib 400 ''invalid_request'' ''invalid attestation verification request'' else writeServiceError lib x)
           | None \<Rightarrow>
               (''success'', writeJSON lib 200 (encoded (JObject [(''valid'', JBoolean True),
                 (''attestation'', safeClaimsResponse lib (vr_Attestation request) claims)]))))))"

text \<open>An answer with the observation that is deferred to the end of the handler.\<close>

definition verified :: "string \<Rightarrow> (http_writer \<Rightarrow> http_writer) \<Rightarrow> ('s, 'd, 'r, 'f) world \<Rightarrow> ('s, 'd, 'r, 'f) world" where
  "verified outcome f w = (reply f w)\<lparr>wd_metrics := map_option (observeAttestationVerify outcome) (wd_metrics w)\<rparr>"

definition verifier_refused :: "http_lib \<Rightarrow> admission_error \<Rightarrow> ('s, 'd, 'r, 'f) world \<Rightarrow> ('s, 'd, 'r, 'f) world" where
  "verifier_refused lib err =
     (if err = ErrVerifierAdmissionSaturated
      then verified ''busy'' (\<lambda>w. writeError lib 503 (code_text CodeAttestationBusy) ''rotation attestation verification is busy''
        (header_Set ''Retry-After'' ''1'' w))
      else verified ''unavailable'' (writeError lib 503 (code_text CodeAttestationUnavailable) ''rotation attestation service is unavailable''))"

definition verify_body ::
  "('s, 'd, 'f) surroundings \<Rightarrow> 'r Handler \<Rightarrow> context_t \<Rightarrow> nat \<Rightarrow> request_body \<Rightarrow> ctx \<Rightarrow> ('s, 'd, 'r, 'f) world \<Rightarrow> ('s, 'd, 'r, 'f) served" where
  "verify_body e hdl c t b lc w =
     (let lib = sr_http e; invalid = ''invalid attestation verification request'' in
      case readRequestBody c t maxAttestationVerifyBodyBytes b of
        Inl err \<Rightarrow> Some (verified (case err of BodyContext _ \<Rightarrow> ''unavailable'' | _ \<Rightarrow> ''invalid'') (body_failed lib invalid err) w)
      | Inr raw \<Rightarrow>
          if ctx_Err c (t + 1) \<noteq> None then Some (verified ''unavailable'' (unavailable_now lib) w)
          else (case parseVerifyAttestationRequest lib raw of
            None \<Rightarrow> Some (verified ''invalid'' (body_failed lib invalid BodyInvalid) w)
          | Some request \<Rightarrow>
              (case VerifyAttestation (sr_proof e) (wd_heap w) (hd_service hdl) lc (t + 2) (vr_Attestation request)
                      (vr_InputVaultText request) (vr_OutputVaultText request) (vr_ExpectedBinding request) of
                 None \<Rightarrow> None
               | Some (verdict, h) \<Rightarrow>
                   (case verify_response lib request verdict of
                      (outcome, answer) \<Rightarrow> Some (verified outcome answer (w\<lparr>wd_heap := h\<rparr>))))))"

definition serveAttestationVerify ::
  "('s, 'd, 'f) surroundings \<Rightarrow> 'r Handler \<Rightarrow> http_request \<Rightarrow> context_t \<Rightarrow> nat \<Rightarrow> request_body \<Rightarrow>
     ('s, 'd, 'r, 'f) world \<Rightarrow> ('s, 'd, 'r, 'f) served" where
  "serveAttestationVerify e hdl r c t b w =
     (let lib = sr_http e in
      case post_json lib r of
        Some answer \<Rightarrow> Some (verified ''failed'' answer w)
      | None \<Rightarrow>
          if hd_service hdl = None
          then Some (verified ''unavailable'' (writeError lib 503 (code_text CodeAttestationUnavailable) ''rotation attestation service is unavailable'') w)
          else (case requestCaller (sr_runtime e) hdl r (wd_auth w) of
            (Inl (status, code), st) \<Rightarrow> Some (verified ''failed'' (writeAuthError lib status code) (w\<lparr>wd_auth := st\<rparr>))
          | (Inr actor, st) \<Rightarrow>
              let w1 = w\<lparr>wd_auth := st\<rparr> in
              (case PreflightAttestationVerify (hd_service hdl) (Some c) t actor of
                 Some err \<Rightarrow>
                   Some (verified (attestationOutcomeFromError err)
                     (preflight_error lib (hd_authConfig hdl) actor ScopeAttestationVerify err) w1)
               | None \<Rightarrow>
                   if \<not> AttestationEnabled (hd_service hdl) (t + 2)
                   then Some (verified ''feature_unavailable'' (writeError lib 503 (code_text CodeFeatureUnavailable) ''rotation attestations are disabled'') w1)
                   else with_lease (service_verifierAdmission hdl) (verifier_refused lib) c (t + 3) w1
                     (\<lambda>l lc w2. verify_body e hdl c (t + 5) b lc w2))))"

text \<open>The two discovery endpoints.\<close>

definition serve_discovery ::
  "(Service option \<Rightarrow> nat \<Rightarrow> svc_error + go_bytes) \<Rightarrow> ('s, 'd, 'f) surroundings \<Rightarrow> 'r Handler \<Rightarrow> http_request \<Rightarrow> nat \<Rightarrow>
     ('s, 'd, 'r, 'f) world \<Rightarrow> ('s, 'd, 'r, 'f) world" where
  "serve_discovery document e hdl r t =
     (let lib = sr_http e in
      reply (if hr_Method r \<noteq> ''GET'' then methodNotAllowed lib ''GET''
        else if hd_service hdl = None
        then writeError lib 503 (code_text CodeAttestationUnavailable) ''rotation attestation service is unavailable''
        else (case document (hd_service hdl) t of
          Inl err \<Rightarrow>
            if HasCode err CodeFeatureUnavailable
            then writeError lib 503 (code_text CodeFeatureUnavailable) ''rotation attestations are disabled''
            else writeServiceError lib err
        | Inr raw \<Rightarrow> writeRawJSON lib 200 raw)))"

definition serveAttestationMetadata ::
  "('s, 'd, 'f) surroundings \<Rightarrow> 'r Handler \<Rightarrow> http_request \<Rightarrow> nat \<Rightarrow> ('s, 'd, 'r, 'f) world \<Rightarrow> ('s, 'd, 'r, 'f) world" where
  "serveAttestationMetadata e hdl r t = serve_discovery service_MetadataJSON e hdl r t"

definition serveAttestationJWKS ::
  "('s, 'd, 'f) surroundings \<Rightarrow> 'r Handler \<Rightarrow> http_request \<Rightarrow> nat \<Rightarrow> ('s, 'd, 'r, 'f) world \<Rightarrow> ('s, 'd, 'r, 'f) world" where
  "serveAttestationJWKS e hdl r t = serve_discovery service_JWKSJSON e hdl r t"

subsection \<open>Generation\<close>

text \<open>The texts of algorithms and encodings, as the string types have them.\<close>

definition ssh_text :: "SSHAlgorithm \<Rightarrow> string" where
  "ssh_text a = (case a of SSHAlgorithmEd25519 \<Rightarrow> ''ed25519'' | SSHAlgorithmECDSAP256 \<Rightarrow> ''ecdsa_p256''
     | SSHAlgorithmRSA3072 \<Rightarrow> ''rsa_3072'' | SSHAlgorithmRSA4096 \<Rightarrow> ''rsa_4096'' | SSHAlgorithmOther s \<Rightarrow> s)"

definition x509_text :: "X509Algorithm \<Rightarrow> string" where
  "x509_text a = (case a of X509AlgorithmEd25519 \<Rightarrow> ''ed25519'' | X509AlgorithmECDSAP256 \<Rightarrow> ''ecdsa_p256''
     | X509AlgorithmECDSAP384 \<Rightarrow> ''ecdsa_p384'' | X509AlgorithmRSA3072 \<Rightarrow> ''rsa_3072'' | X509AlgorithmRSA4096 \<Rightarrow> ''rsa_4096''
     | X509AlgorithmOther s \<Rightarrow> s)"

definition encoding_text :: "TokenEncoding \<Rightarrow> string" where
  "encoding_text a = (case a of TokenEncodingBase64URL \<Rightarrow> ''base64url'' | TokenEncodingHex \<Rightarrow> ''hex'' | TokenEncodingOther s \<Rightarrow> s)"

definition integer_json :: "int \<Rightarrow> jsonValue" where
  "integer_json n = JNumber (if n < 0 then CHR ''-'' # decimal (nat (- n)) else decimal (nat n))"

definition password_json :: "EffectivePasswordParameters \<Rightarrow> jsonValue" where
  "password_json p = JObject [(''digits'', JBoolean (ep_Digits p)), (''excludeAmbiguous'', JBoolean (ep_ExcludeAmbiguous p)),
     (''length'', integer_json (ep_Length p)), (''lowercase'', JBoolean (ep_Lowercase p)), (''minDigits'', integer_json (ep_MinDigits p)),
     (''minLowercase'', integer_json (ep_MinLowercase p)), (''minSymbols'', integer_json (ep_MinSymbols p)),
     (''minUppercase'', integer_json (ep_MinUppercase p)), (''symbols'', JBoolean (ep_Symbols p)), (''uppercase'', JBoolean (ep_Uppercase p))]"

definition secret_json :: "GeneratedSecret \<Rightarrow> jsonValue" where
  "secret_json s = JObject [(''format'', JString (gs_Format s)), (''vaultText'', JString (gs_VaultText s))]"

definition algorithm_json :: "string \<Rightarrow> jsonValue" where
  "algorithm_json a = JObject [(''algorithm'', JString a)]"

definition response_json :: "string \<Rightarrow> string \<Rightarrow> jsonValue \<Rightarrow> GeneratedSecret \<Rightarrow> (string \<times> jsonValue) list \<Rightarrow> jsonValue" where
  "response_json knd pid effective secret pub =
     JObject ([(''effectiveParameters'', effective), (''kind'', JString knd), (''profileId'', JString pid)] @
       (if pub = [] then [] else [(''public'', JObject pub)]) @ [(''secret'', secret_json secret)])"

text \<open>The checks on a result and the response it becomes, with its kind.\<close>

definition mapGenerateResponse :: "GenerateResult option \<Rightarrow> (jsonValue \<times> string) option" where
  "mapGenerateResponse result =
     (case result of
        None \<Rightarrow> None
      | Some (GeneratedPasswordResult pid effective secret) \<Rightarrow>
          if gs_Format secret \<noteq> ''password_ascii'' \<or> pid = [] \<or> gs_VaultText secret = [] then None
          else Some (response_json ''password'' pid (password_json effective) secret [], ''password'')
      | Some (GeneratedTokenResult pid effective secret) \<Rightarrow>
          let encoding = encoding_text (et_Encoding effective); format = gs_Format secret in
          if encoding \<notin> {''base64url'', ''hex''} \<or> format \<notin> {''token_base64url'', ''token_hex''} \<or> pid = [] \<or> gs_VaultText secret = [] then None
          else if encoding = ''base64url'' \<and> format \<noteq> ''token_base64url'' \<or> encoding = ''hex'' \<and> format \<noteq> ''token_hex'' then None
          else Some (response_json ''token'' pid
                 (JObject [(''bytes'', integer_json (et_Bytes effective)), (''encoding'', JString encoding)]) secret [], ''token'')
      | Some (GeneratedSSHKeyPairResult pid algorithm secret publicFormat authorizedKey fingerprint) \<Rightarrow>
          if ssh_text algorithm \<notin> {''ecdsa_p256'', ''ed25519'', ''rsa_3072'', ''rsa_4096''} \<or> gs_Format secret \<noteq> ''openssh_private_key'' \<or>
             publicFormat \<noteq> ''openssh_authorized_key'' \<or> pid = [] \<or> gs_VaultText secret = [] \<or> authorizedKey = [] \<or> fingerprint = [] then None
          else Some (response_json ''ssh_keypair'' pid (algorithm_json (ssh_text algorithm)) secret
                 [(''authorizedKey'', JString authorizedKey), (''fingerprint'', JString fingerprint), (''format'', JString publicFormat)], ''ssh_keypair'')
      | Some (GeneratedAgeIdentityResult pid algorithm secret publicFormat recipient) \<Rightarrow>
          if algorithm \<noteq> ''x25519'' \<or> gs_Format secret \<noteq> ''age_x25519_identity'' \<or> publicFormat \<noteq> ''age_x25519_recipient'' \<or>
             pid = [] \<or> gs_VaultText secret = [] \<or> recipient = [] then None
          else Some (response_json ''age_identity'' pid (algorithm_json algorithm) secret
                 [(''format'', JString publicFormat), (''recipient'', JString recipient)], ''age_identity'')
      | Some (GeneratedX509CSRResult pid algorithm secret publicFormat csrPEM fingerprint) \<Rightarrow>
          if x509_text algorithm \<notin> {''ecdsa_p256'', ''ecdsa_p384'', ''ed25519'', ''rsa_3072'', ''rsa_4096''} \<or>
             gs_Format secret \<noteq> ''pkcs8_private_key_pem'' \<or> publicFormat \<noteq> ''pkcs10_csr_pem'' \<or>
             pid = [] \<or> gs_VaultText secret = [] \<or> csrPEM = [] \<or> fingerprint = [] then None
          else Some (response_json ''x509_csr'' pid (algorithm_json (x509_text algorithm)) secret
                 [(''csrPem'', JString csrPEM), (''fingerprint'', JString fingerprint), (''format'', JString publicFormat)], ''x509_csr''))"

definition generate_answer :: "('s, 'd, 'f) surroundings \<Rightarrow> svc_error + GenerateResult \<Rightarrow> http_writer \<Rightarrow> http_writer" where
  "generate_answer e result =
     (let lib = sr_http e; failed = writeError lib 422 ''operation_failed'' ''vault operation failed'' in
      case result of
        Inl err \<Rightarrow> writeServiceError lib err
      | Inr generated \<Rightarrow> (case mapGenerateResponse (Some generated) of
          None \<Rightarrow> failed
        | Some (response, knd) \<Rightarrow> (case sr_marshal_union e response knd of
            None \<Rightarrow> failed
          | Some raw \<Rightarrow> (\<lambda>w. writeRawJSON lib 200 raw (w\<lparr>hw_header := (hw_header w)(''Content-Encoding'' := [], ''ETag'' := [])\<rparr>)))))"

definition serveGenerate ::
  "('s, 'd, 'f) surroundings \<Rightarrow> 'r Handler \<Rightarrow> http_request \<Rightarrow> context_t \<Rightarrow> nat \<Rightarrow> request_body \<Rightarrow>
     ('s, 'd, 'r, 'f) world \<Rightarrow> ('s, 'd, 'r, 'f) served" where
  "serveGenerate e hdl r c t b w =
     (let lib = sr_http e in
      case post_json lib r of
        Some answer \<Rightarrow> Some (reply answer w)
      | None \<Rightarrow>
          if hasIdempotencyKey r then Some (reply (writeError lib 400 ''invalid_request'' ''request is invalid'') w)
          else if hd_service hdl = None then Some (reply (writeError lib 503 ''not_ready'' ''service is not ready'') w)
          else for_caller e hdl r w (\<lambda>actor w1.
            (case PreflightGenerate (hd_service hdl) (hd_generator hdl) (Some c) t actor of
               Some err \<Rightarrow> Some (reply (preflight_error lib (hd_authConfig hdl) actor ScopeEncrypt err) w1)
             | None \<Rightarrow> with_lease (service_admission hdl) (\<lambda>err. reply (acquire_failed lib False err)) c (t + 1) w1 (\<lambda>l lc w2.
                 (case decodeGenerateCommand lib (sr_names e) c (t + 3) b of
                    Inl err \<Rightarrow> Some (reply (body_failed lib ''request is invalid'' err) w2)
                  | Inr cmd \<Rightarrow>
                      (case Generate_op (sr_delivered e) (wd_heap w2) (hd_service hdl) (hd_generator hdl) lc (t + 5) actor cmd (wd_random w2) of
                         None \<Rightarrow> None
                       | Some (result, random', h) \<Rightarrow>
                           Some (reply (generate_answer e result) (w2\<lparr>wd_random := random', wd_heap := h\<rparr>))))))))"

subsection \<open>Profiles, health and metadata\<close>

definition profile_json :: "Profile \<Rightarrow> jsonValue" where
  "profile_json p =
     (let caps = pr_Capabilities p in
      JObject [(''capabilities'', JObject [(''decrypt'', JBoolean (cap_Decrypt caps)), (''encrypt'', JBoolean (cap_Encrypt caps)),
          (''rotateDestination'', JBoolean (cap_RotateDestination caps)),
          (''rotateDestinationIds'', JArray (map JString (cap_RotateDestinationIDs caps))), (''rotateSource'', JBoolean (cap_RotateSource caps))]),
        (''id'', JString (pr_ID p)), (''label'', JString (pr_Label p))])"

definition serveProfiles ::
  "('s, 'd, 'f) surroundings \<Rightarrow> 'r Handler \<Rightarrow> http_request \<Rightarrow> context_t \<Rightarrow> nat \<Rightarrow> ('s, 'd, 'r, 'f) world \<Rightarrow> ('s, 'd, 'r, 'f) served" where
  "serveProfiles e hdl r c t w =
     (let lib = sr_http e in
      if hr_Method r \<noteq> ''GET'' then Some (reply (methodNotAllowed lib ''GET'') w)
      else for_caller e hdl r w (\<lambda>actor w1.
        (case PreflightProfiles (hd_service hdl) (Some c) t actor of
           Some err \<Rightarrow> Some (reply (preflight_error lib (hd_authConfig hdl) actor ScopeProfileRead err) w1)
         | None \<Rightarrow> (case ListProfiles (hd_service hdl) (Some c) (t + 1) actor of
             Inl err \<Rightarrow> Some (reply (writeServiceError lib err) w1)
           | Inr ps \<Rightarrow> Some (reply (writeJSON lib 200 (encoded (JObject [(''profiles'', JArray (map profile_json ps))]))) w1)))))"

definition status_json :: "string \<Rightarrow> jsonValue" where
  "status_json s = JObject [(''status'', JString s)]"

definition serveHealth :: "('s, 'd, 'f) surroundings \<Rightarrow> http_request \<Rightarrow> ('s, 'd, 'r, 'f) world \<Rightarrow> ('s, 'd, 'r, 'f) world" where
  "serveHealth e r =
     reply (if hr_Method r \<noteq> ''GET'' then methodNotAllowed (sr_http e) ''GET'' else writeJSON (sr_http e) 200 (encoded (status_json ''ok'')))"

definition serveReady :: "('s, 'd, 'f) surroundings \<Rightarrow> 'r Handler \<Rightarrow> http_request \<Rightarrow> ('s, 'd, 'r, 'f) world \<Rightarrow> ('s, 'd, 'r, 'f) world" where
  "serveReady e hdl r =
     reply (if hr_Method r \<noteq> ''GET'' then methodNotAllowed (sr_http e) ''GET''
       else if \<not> Ready (hd_service hdl) then writeJSON (sr_http e) 503 (encoded (status_json ''not_ready''))
       else writeJSON (sr_http e) 200 (encoded (status_json ''ready'')))"

definition serveProtectedResourceMetadata ::
  "('s, 'd, 'f) surroundings \<Rightarrow> 'r Handler \<Rightarrow> http_request \<Rightarrow> ('s, 'd, 'r, 'f) world \<Rightarrow> ('s, 'd, 'r, 'f) world" where
  "serveProtectedResourceMetadata e hdl r =
     (let lib = sr_http e; oidc = ac_OIDC (hd_authConfig hdl) in
      reply (if hr_Method r \<noteq> ''GET'' then methodNotAllowed lib ''GET''
        else if ac_Mode (hd_authConfig hdl) \<noteq> AuthModeNative then writeError lib 404 ''not_found'' ''resource was not found''
        else (\<lambda>w. write_body (encoded (JObject [(''resource'', JString (oc_PublicBaseURL oidc)),
                 (''authorization_servers'', JArray [JString (oc_IssuerURL oidc)]),
                 (''scopes_supported'', JArray (map JString [ScopeProfileRead, ScopeEncrypt, ScopeDecrypt, ScopeRotate, ScopeAttestationVerify])),
                 (''bearer_methods_supported'', JArray [JString ''header''])]))
               (write_status 200 (header_Set ''Content-Type'' ''application/json; charset=utf-8''
                 (header_Set ''Cache-Control'' ''public, max-age=300'' (ensureRequestID lib w)))))))"

definition serveMetrics ::
  "('s, 'd, 'f) surroundings \<Rightarrow> 'r Handler \<Rightarrow> http_request \<Rightarrow> nat \<Rightarrow> ('s, 'd, 'r, 'f) world \<Rightarrow> ('s, 'd, 'r, 'f) world" where
  "serveMetrics e hdl r t w =
     (let lib = sr_http e; h = wd_heap w; adm = service_admission hdl in
      if hr_Method r \<noteq> ''GET'' then reply (methodNotAllowed lib ''GET'') w
      else (reply (\<lambda>x. write_status 200 (ensureRequestID lib (header_Set ''Content-Type'' ''text/plain; version=0.0.4; charset=utf-8''
              (header_Set ''Cache-Control'' ''no-store'' x)))) w)
           \<lparr>wd_lines := wd_lines w @
              (if adm = None then []
               else [Sample ''vaultsmith_operation_admission_capacity'' [] (of_nat (Capacity h adm)),
                     Sample ''vaultsmith_operation_admission_in_use'' [] (of_int (InUse h adm)),
                     Sample ''vaultsmith_operation_admission_rejections_total'' [] (Rejections h adm)]) @
              (case wd_metrics w of
                 None \<Rightarrow> []
               | Some m \<Rightarrow> write_metrics m (case hd_service hdl of
                   None \<Rightarrow> None
                 | Some s \<Rightarrow> map_option (\<lambda>mgr. \<lparr>kc_Ready = mgr_Ready mgr t, kc_reloads = sr_reloads e t\<rparr>) (svc_attestation s)))\<rparr>)"

subsection \<open>Sessions\<close>

definition CSRFToken :: "http_request \<Rightarrow> string" where
  "CSRFToken r = hr_csrf r"

definition session_json :: "bool \<Rightarrow> bool \<Rightarrow> string \<Rightarrow> string \<Rightarrow> bool \<Rightarrow> jsonValue" where
  "session_json authenticated authRequired email csrf attestationEnabled =
     JObject ([(''authenticated'', JBoolean authenticated), (''authRequired'', JBoolean authRequired)] @
       (if email = [] then [] else [(''email'', JString email)]) @
       [(''csrfToken'', JString csrf), (''attestationEnabled'', JBoolean attestationEnabled)])"

definition serveSession ::
  "('s, 'd, 'f) surroundings \<Rightarrow> 'r Handler \<Rightarrow> http_request \<Rightarrow> nat \<Rightarrow> ('s, 'd, 'r, 'f) world \<Rightarrow> ('s, 'd, 'r, 'f) world" where
  "serveSession e hdl r t w =
     (let lib = sr_http e; native = (ac_Mode (hd_authConfig hdl) = AuthModeNative);
          answer = (\<lambda>p. writeJSON lib 200 (encoded (session_json (p \<noteq> None) native (case p of None \<Rightarrow> [] | Some x \<Rightarrow> pn_Email x)
            (CSRFToken r) (AttestationEnabled (hd_service hdl) t))))
      in if hr_Method r \<noteq> ''GET'' then reply (methodNotAllowed lib ''GET'') w
         else if \<not> native then reply (answer None) w
         else (case hd_auth hdl of
           None \<Rightarrow> reply (writeAuthError lib 503 ''not_ready'') w
         | Some a \<Rightarrow> (case AuthenticatedPrincipal a (sr_runtime e) (wd_auth w) of
             (outcome, st) \<Rightarrow>
               reply (case outcome of
                   Inl ErrNotAuthenticated \<Rightarrow> answer None
                 | Inl ErrRefreshRequired \<Rightarrow> answer None
                 | Inl ErrTemporaryUnavailable \<Rightarrow> writeAuthError lib 503 ''temporarily_unavailable''
                 | Inl _ \<Rightarrow> writeAuthError lib 503 ''not_ready''
                 | Inr p \<Rightarrow> answer p) (w\<lparr>wd_auth := st\<rparr>))))"

definition authURLReturnTo :: "http_request \<Rightarrow> string" where
  "authURLReturnTo r = (let v = strings_TrimSpace (hr_Query r ''return_to'') in if v = [] then ''/'' else v)"

definition ClearSessionCookie :: "AuthConfig \<Rightarrow> http_writer \<Rightarrow> http_writer" where
  "ClearSessionCookie cfg =
     header_Add ''Set-Cookie'' (sc_CookieName (ac_Session cfg) @ ''=; Path=/; Max-Age=0; HttpOnly'' @
       (if sc_Secure (ac_Session cfg) then ''; Secure'' else []) @ ''; SameSite='' @ same_site_text (sc_SameSite (ac_Session cfg)))"

definition serveLogin ::
  "('s, 'd, 'f) surroundings \<Rightarrow> 'r Handler \<Rightarrow> http_request \<Rightarrow> ('s, 'd, 'r, 'f) world \<Rightarrow> ('s, 'd, 'r, 'f) world" where
  "serveLogin e hdl r w =
     (let lib = sr_http e in
      if hr_Method r \<noteq> ''GET'' then reply (methodNotAllowed lib ''GET'') w
      else (case hd_auth hdl of
        None \<Rightarrow> reply (writeAuthError lib 503 ''not_ready'') w
      | Some a \<Rightarrow>
          if ac_Mode (hd_authConfig hdl) \<noteq> AuthModeNative then reply (writeAuthError lib 503 ''not_ready'') w
          else (case BeginLogin a (sr_runtime e) (authURLReturnTo r) (wd_auth w) of
            (outcome, st) \<Rightarrow>
              reply (case outcome of
                  Inl ErrTemporaryUnavailable \<Rightarrow> writeAuthError lib 503 ''temporarily_unavailable''
                | Inl _ \<Rightarrow> writeError lib 400 ''invalid_request'' ''login request is invalid''
                | Inr location \<Rightarrow> sr_Redirect e r location) (w\<lparr>wd_auth := st\<rparr>))))"

definition serveCallback ::
  "('s, 'd, 'f) surroundings \<Rightarrow> 'r Handler \<Rightarrow> http_request \<Rightarrow> ('s, 'd, 'r, 'f) world \<Rightarrow> ('s, 'd, 'r, 'f) world" where
  "serveCallback e hdl r w =
     (let lib = sr_http e; cfg = hd_authConfig hdl in
      if hr_Method r \<noteq> ''GET'' then reply (methodNotAllowed lib ''GET'') w
      else (case hd_auth hdl of
        None \<Rightarrow> reply (writeAuthError lib 503 ''not_ready'') w
      | Some a \<Rightarrow>
          if ac_Mode cfg \<noteq> AuthModeNative then reply (writeAuthError lib 503 ''not_ready'') w
          else (case CompleteLogin a (sr_runtime e) (hr_Query r ''state'') (hr_Query r ''code'') (wd_auth w) of
            (outcome, st) \<Rightarrow>
              reply (case outcome of
                  Inl ErrTemporaryUnavailable \<Rightarrow> (\<lambda>x. writeAuthError lib 503 ''temporarily_unavailable'' (ClearSessionCookie cfg x))
                | Inl _ \<Rightarrow> (\<lambda>x. writeError lib 401 ''authentication_failed'' ''authentication could not be completed'' (ClearSessionCookie cfg x))
                | Inr location \<Rightarrow> sr_Redirect e r (if location = [] then ''/'' else location)) (w\<lparr>wd_auth := st\<rparr>))))"

definition serveLogout ::
  "('s, 'd, 'f) surroundings \<Rightarrow> 'r Handler \<Rightarrow> http_request \<Rightarrow> ('s, 'd, 'r, 'f) world \<Rightarrow> ('s, 'd, 'r, 'f) world" where
  "serveLogout e hdl r w =
     (let lib = sr_http e; gone = (\<lambda>x. write_status 204 (ClearSessionCookie (hd_authConfig hdl) x)) in
      if hr_Method r \<noteq> ''POST'' then reply (methodNotAllowed lib ''POST'') w
      else (case hd_auth hdl of
        None \<Rightarrow> reply gone w
      | Some a \<Rightarrow> (case Logout a (sr_runtime e) (wd_auth w) of
          (outcome, st) \<Rightarrow>
            reply (case outcome of Inl _ \<Rightarrow> writeAuthError lib 503 ''temporarily_unavailable'' | Inr _ \<Rightarrow> gone) (w\<lparr>wd_auth := st\<rparr>))))"

subsection \<open>Routing\<close>

text \<open>The handler of MCP is an argument.\<close>

definition route ::
  "('s, 'd, 'f) surroundings \<Rightarrow> 'r Handler \<Rightarrow> (('s, 'd, 'r, 'f) world \<Rightarrow> ('s, 'd, 'r, 'f) served) \<Rightarrow> http_request \<Rightarrow> context_t \<Rightarrow> nat \<Rightarrow>
     request_body \<Rightarrow> ('s, 'd, 'r, 'f) world \<Rightarrow> ('s, 'd, 'r, 'f) served" where
  "route e hdl serveMCP r c t b w =
     (let lib = sr_http e; p = hr_Path r;
          notFound = writeError lib 404 ''not_found'' ''resource was not found'' in
      if p = ''/api/v1/profiles'' then serveProfiles e hdl r c t w
      else if p = ''/api/v1/generate'' then serveGenerate e hdl r c t b w
      else if p = ''/api/v1/operations'' then serveOperation e hdl r c t b w
      else if p = ''/api/v1/rotations'' then serveCanonicalRotateWithAttestation e hdl r c t b w
      else if p = ''/api/v1/attestations/verify'' then serveAttestationVerify e hdl r c t b w
      else if p = ''/.well-known/vaultsmith-attestation'' then Some (serveAttestationMetadata e hdl r t w)
      else if p = ''/.well-known/vaultsmith-attestation/jwks.json'' then Some (serveAttestationJWKS e hdl r t w)
      else if p = ''/api/v1/session'' then Some (serveSession e hdl r t w)
      else if p = ''/.well-known/oauth-protected-resource'' then Some (serveProtectedResourceMetadata e hdl r w)
      else if p = ''/metrics'' then Some (serveMetrics e hdl r t w)
      else if p = ''/mcp'' then serveMCP w
      else if p = ''/auth/login'' then Some (serveLogin e hdl r w)
      else if p = ''/auth/callback'' then Some (serveCallback e hdl r w)
      else if p = ''/auth/logout'' then Some (serveLogout e hdl r w)
      else if p = ''/healthz'' then Some (serveHealth e r w)
      else if p = ''/readyz'' then Some (serveReady e hdl r w)
      else (case canonicalProfileOperation lib r of
        InvalidPath \<Rightarrow> Some (reply (writeError lib 400 ''invalid_request'' ''profile ID is invalid'') w)
      | CanonicalPath pid OperationEncrypt \<Rightarrow> serveCanonicalEncrypt e hdl r c t b pid w
      | CanonicalPath pid OperationDecrypt \<Rightarrow> serveCanonicalDecrypt e hdl r c t b pid w
      | _ \<Rightarrow> Some (reply notFound w)))"

text \<open>The outcome the recording writer has seen: only the first status counts.\<close>

definition recorded_outcome :: "http_writer \<Rightarrow> string" where
  "recorded_outcome x =
     operationOutcome \<lparr>sw_status = (case hw_status x of None \<Rightarrow> 0 | Some status \<Rightarrow> status), sw_outcome = []\<rparr>"

definition ServeHTTP ::
  "('s, 'd, 'f) surroundings \<Rightarrow> 'r Handler \<Rightarrow> (('s, 'd, 'r, 'f) world \<Rightarrow> ('s, 'd, 'r, 'f) served) \<Rightarrow> http_request \<Rightarrow> context_t \<Rightarrow> nat \<Rightarrow>
     request_body \<Rightarrow> int \<Rightarrow> ('s, 'd, 'r, 'f) world \<Rightarrow> ('s, 'd, 'r, 'f) served" where
  "ServeHTTP e hdl serveMCP r c t b elapsed w =
     (let operation = metricOperationForRequest (sr_http e) r in
      case route e hdl serveMCP r c t b (reply (ensureRequestID (sr_http e)) w) of
        None \<Rightarrow> None
      | Some w1 \<Rightarrow>
          if operation = [] then Some w1
          else Some (w1\<lparr>wd_metrics :=
            map_option (observeOperation (sr_add e) operation (recorded_outcome (wd_writer w1)) elapsed) (wd_metrics w1)\<rparr>))"

section \<open>Lemmas\<close>

subsection \<open>Leases\<close>

definition gives_back :: "heap \<Rightarrow> heap \<Rightarrow> bool" where
  "gives_back h h' \<longleftrightarrow> heap_ok h' \<and> (\<forall>a. live_leases h' a = live_leases h a \<and> tokens_cap (admissions h' a) = tokens_cap (admissions h a))"

lemma gives_back_refl [simp]: "heap_ok h \<Longrightarrow> gives_back h h"
  by (simp add: gives_back_def)

lemma hold_free:
  "lease_states h l = Some s \<Longrightarrow> \<not> held s \<Longrightarrow> \<exists>ok h1. holdForContext h (Some l) c ap = Some (ok, h1)"
  by (cases "leaseBindingFromContext c") (auto simp: holdForContext_def)

lemma heap_same: "lease_states h' = lease_states h \<Longrightarrow> admissions h' = admissions h \<Longrightarrow> fresh h' = fresh h \<Longrightarrow> h' = (h :: heap)"
  by (cases h; cases h') simp

lemma runResult_free:
  assumes "lease_states h l = Some s" "\<not> held s" "po_lease p = Some l"
  shows "\<exists>res pp. runResult lib now delivered h (Some p) c t = Some (res, pp, h)"
proof -
  have ne: "runResult lib now delivered h (Some p) c t \<noteq> None"
    using hold_free [OF assms(1,2), of c "svc_admission (the (po_service p))"] assms(3)
    by (auto simp: runResult_def Let_def split: option.splits bool.splits)
  then obtain res pp h' where r: "runResult lib now delivered h (Some p) c t = Some (res, pp, h')" by fastforce
  have "lease_states h' = lease_states h \<and> admissions h' = admissions h \<and> fresh h' = fresh h"
    using r held_hold_release hold_false_heap unfolding runResult_def Let_def
    by (fastforce split: option.splits if_splits prod.splits bool.splits)
  then show ?thesis using r heap_same by blast
qed

lemma Run_free:
  assumes "lease_states h l = Some s" "\<not> held s" "po_lease p = Some l"
  shows "\<exists>res pp. Run lib now delivered h (Some p) c t = Some (res, pp, h)"
proof -
  obtain res pp where "runResult lib now delivered h (Some p) c t = Some (res, pp, h)" using runResult_free [OF assms] by metis
  then show ?thesis by (cases res) (auto simp: Run_def)
qed

lemma Prepare_lease: "Prepare lib delivered h sp c t actor cmd lease = Inr p \<Longrightarrow> po_lease p = lease"
  using Prepare_Inr [of lib delivered h sp c t actor cmd lease p] by (auto simp: prepared_for_def)

text \<open>Work that leaves the leases as they are, run with a lease, returns and gives the lease back.\<close>

definition keeps :: "nat option \<Rightarrow> (nat \<Rightarrow> ctx \<Rightarrow> ('s, 'd, 'r, 'f) world \<Rightarrow> ('s, 'd, 'r, 'f) served) \<Rightarrow> bool" where
  "keeps adm work \<longleftrightarrow> (\<forall>a l x w. adm = Some a \<longrightarrow> issued (wd_heap w) a l x \<longrightarrow>
     (\<exists>w'. work l (Some x) w = Some w' \<and> wd_heap w' = wd_heap w))"

lemma keepsI:
  "(\<And>a l x w s. adm = Some a \<Longrightarrow> issued (wd_heap w) a l x \<Longrightarrow> lease_states (wd_heap w) l = Some s \<Longrightarrow> \<not> held s \<Longrightarrow>
     \<exists>w'. work l (Some x) w = Some w' \<and> wd_heap w' = wd_heap w) \<Longrightarrow> keeps adm work"
  unfolding keeps_def issued_def by blast

lemma with_lease_gives_back:
  assumes "heap_ok (wd_heap w)" "keeps adm work" "\<And>err w0. wd_heap (refused err w0) = wd_heap w0"
  shows "\<exists>w'. with_lease adm refused c t w work = Some w' \<and> gives_back (wd_heap w) (wd_heap w')"
proof (cases "TryAcquire (wd_heap w) adm c t")
  case (Pair res h1)
  show ?thesis
  proof (cases res)
    case (Inl err)
    then have "gives_back (wd_heap w) h1"
      using heap_ok_TryAcquire_error [OF assms(1)] TryAcquire_error [OF assms(1)] Pair
      by (auto simp: gives_back_def live_leases_def)
    then show ?thesis using Pair Inl assms(3) by (simp add: with_lease_def)
  next
    case (Inr l)
    note acq = Pair [unfolded Inr]
    obtain a adm0 where a: "adm = Some a" "l = fresh (wd_heap w)" "h1 = (set_lease l \<lparr>ls_admission = Some a, active = True,
          ls_binding = Some (Binding l l (Some c)), boundContext = Some (with_binding c (Binding l l (Some c))),
          contextIssued = False, held = False\<rparr>
        (set_admission a (adm0\<lparr>tokens := tokens adm0 + 1, inUse := inUse adm0 + 1\<rparr>) (wd_heap w)))\<lparr>fresh := Suc l\<rparr>"
        "adm0 = admissions (wd_heap w) a"
      using TryAcquire_Inr [OF assms(1) acq] by metis
    have ok1: "heap_ok h1" by (rule heap_ok_TryAcquire [OF assms(1) acq])
    obtain x h2 where lc: "lease_Context h1 (Some l) (Some c) = (Some x, h2)"
      using a(3) by (simp add: lease_Context_def)
    then obtain s where s: "lease_states h2 l = Some s" "\<not> held s" "active s" "ls_admission s = Some a"
        and other: "\<And>k. k \<noteq> l \<Longrightarrow> lease_states h2 k = lease_states (wd_heap w) k" and adm2: "admissions h2 = admissions h1"
      using a(3) by (auto simp: lease_Context_def same_binding_def leaseBindingFromContext_def split: if_splits)
    have ok2: "heap_ok h2" by (rule heap_ok_Context [OF ok1 lc])
    have "issued h2 a l x" using acquire_issue [OF assms(1)] acq lc a(1) by blast
    then obtain w1 where w1: "work l (Some x) (w\<lparr>wd_heap := h2\<rparr>) = Some w1" "wd_heap w1 = h2"
      using assms(2) [unfolded keeps_def, rule_format, of a "w\<lparr>wd_heap := h2\<rparr>" l x] a(1) by auto
    obtain h3 where h3: "Release h2 (Some l) = Some h3" "h3 = set_admission a ((admissions h2 a)\<lparr>tokens := tokens (admissions h2 a) - 1,
        inUse := inUse (admissions h2 a) - 1\<rparr>) (set_lease l (s\<lparr>active := False\<rparr>) h2)"
      using s by (simp add: Release_def Let_def)
    have "live_leases h3 b = live_leases (wd_heap w) b" for b
      using other heap_ok_fresh [OF assms(1)] a(2) unfolding h3(2) by (auto simp: live_leases_def)
    moreover have "tokens_cap (admissions h3 b) = tokens_cap (admissions (wd_heap w) b)" for b
      unfolding h3(2) using adm2 a(3,4) by simp
    ultimately have "gives_back (wd_heap w) h3" using heap_ok_Release [OF ok2 h3(1)] by (simp add: gives_back_def)
    then show ?thesis using acq lc w1 h3(1) by (simp add: with_lease_def)
  qed
qed


lemma reply_heap [simp]: "wd_heap (reply f w) = wd_heap w"
  by (simp add: reply_def)

lemma observe_issued_heap [simp]: "wd_heap (observe_issued requested outcome w) = wd_heap w"
  by (simp add: observe_issued_def)

lemma verified_heap [simp]: "wd_heap (verified outcome f w) = wd_heap w"
  by (simp add: verified_def)

lemma verifier_refused_heap [simp]: "wd_heap (verifier_refused lib err w) = wd_heap w"
  by (simp add: verifier_refused_def)

lemma for_caller_gives_back:
  assumes "heap_ok (wd_heap w)" "\<And>actor w1. wd_heap w1 = wd_heap w \<Longrightarrow> \<exists>w'. next actor w1 = Some w' \<and> gives_back (wd_heap w1) (wd_heap w')"
  shows "\<exists>w'. for_caller e hdl r w next = Some w' \<and> gives_back (wd_heap w) (wd_heap w')"
proof (cases "requestCaller (sr_runtime e) hdl r (wd_auth w)")
  case (Pair who st)
  show ?thesis
  proof (cases who)
    case (Inl refusal)
    then show ?thesis using Pair assms(1) by (cases refusal) (simp add: for_caller_def)
  next
    case (Inr actor)
    then show ?thesis using Pair assms(2) [of "w\<lparr>wd_auth := st\<rparr>" actor] by (simp add: for_caller_def)
  qed
qed

lemma run_prepared_keeps: "keeps adm (\<lambda>l lc w. run_prepared e hdl actor cmd response t l lc w)"
proof (rule keepsI)
  fix a l x and w :: "('a, 'b, 'c, 'd) world" and s
  assume s: "lease_states (wd_heap w) l = Some s" "\<not> held s"
  show "\<exists>w'. run_prepared e hdl actor cmd response t l (Some x) w = Some w' \<and> wd_heap w' = wd_heap w"
  proof (cases "Prepare (sr_proof e) (sr_delivered e) (wd_heap w) (hd_service hdl) (Some x) t actor cmd (Some l)")
    case (Inr p)
    obtain res pp where "Run (sr_proof e) (sr_now e) (sr_delivered e) (wd_heap w) (Some p) (Some x) (t + 19) = Some (res, pp, wd_heap w)"
      using Run_free [OF s Prepare_lease [OF Inr]] by metis
    then show ?thesis using Inr by (cases res) (simp_all add: run_prepared_def)
  qed (simp add: run_prepared_def)
qed

lemma run_rotation_keeps: "keeps adm (\<lambda>l lc w. run_rotation e hdl actor request t l lc w)"
proof (rule keepsI)
  fix a l x and w :: "('a, 'b, 'c, 'd) world" and s
  assume s: "lease_states (wd_heap w) l = Some s" "\<not> held s"
  show "\<exists>w'. run_rotation e hdl actor request t l (Some x) w = Some w' \<and> wd_heap w' = wd_heap w"
  proof (cases "Prepare (sr_proof e) (sr_delivered e) (wd_heap w) (hd_service hdl) (Some x) t actor (rotation_command request) (Some l)")
    case (Inr p)
    obtain res pp where "RunResult (sr_proof e) (sr_now e) (sr_delivered e) (wd_heap w) (Some p) (Some x) (t + 19) = Some (res, pp, wd_heap w)"
      using runResult_free [OF s Prepare_lease [OF Inr]] unfolding RunResult_def by metis
    then show ?thesis using Inr by (cases res) (simp_all add: run_rotation_def Let_def)
  qed (simp add: run_rotation_def Let_def)
qed

lemma Generate_free:
  assumes "lease_states h l = Some s" "\<not> held s" "leaseFromContext c = Some l"
  shows "\<exists>res g'. Generate_op delivered h sp gen c t actor cmd g = Some (res, g', h)"
proof -
  obtain ok h1 where "holdForContext h (Some l) c (svc_admission (the sp)) = Some (ok, h1)" using hold_free [OF assms(1,2)] by metis
  then have "Generate_op delivered h sp gen c t actor cmd g \<noteq> None"
    unfolding Generate_op_def Let_def assms(3) by (auto split: option.splits bool.splits prod.splits)
  then obtain res g' h' where r: "Generate_op delivered h sp gen c t actor cmd g = Some (res, g', h')" by fastforce
  have "h' = h" using Generate_op_returns [OF r] heap_same by metis
  then show ?thesis using r by blast
qed

lemma Verify_free:
  assumes "issued h a l x" "svc_verifierAdmission s0 = Some a"
  shows "\<exists>verdict. VerifyAttestation lib h (Some s0) (Some x) t jws inp out b = Some (verdict, h)"
proof -
  obtain s where s: "holdForContext h (Some l) (Some x) (Some a) = Some (True, set_lease l (s\<lparr>held := True\<rparr>) h)"
      "releaseHold (set_lease l (s\<lparr>held := True\<rparr>) h) (Some l) = h"
    using hold_issued [OF assms(1)] by metis
  have l: "leaseFromContext (Some x) = Some l" "liveForContext h (Some l) (Some x) (Some a)"
    using assms(1) by (simp_all add: issued_def liveForContext_def)
  show ?thesis
    using s by (auto simp: VerifyAttestation_def Let_def l assms(2) split: sum.split option.split)
qed

lemma verify_body_keeps: "keeps (service_verifierAdmission hdl) (\<lambda>l lc w. verify_body e hdl c t b lc w)"
proof (rule keepsI)
  fix a l x and w :: "('a, 'b, 'c, 'd) world" and s
  assume a: "service_verifierAdmission hdl = Some a" "issued (wd_heap w) a l x"
  then obtain s0 where s0: "hd_service hdl = Some s0" "svc_verifierAdmission s0 = Some a"
    by (auto simp: service_verifierAdmission_def split: option.splits)
  note v = Verify_free [OF a(2) s0(2)]
  show "\<exists>w'. verify_body e hdl c t b (Some x) w = Some w' \<and> wd_heap w' = wd_heap w"
  proof (cases "readRequestBody c t maxAttestationVerifyBodyBytes b")
    case (Inl err)
    then show ?thesis by (simp add: verify_body_def Let_def)
  next
    case (Inr raw)
    show ?thesis
    proof (cases "ctx_Err c (t + 1) = None \<and> parseVerifyAttestationRequest (sr_http e) raw \<noteq> None")
      case True
      then obtain request where request: "parseVerifyAttestationRequest (sr_http e) raw = Some request" by blast
      obtain verdict where "VerifyAttestation (sr_proof e) (wd_heap w) (hd_service hdl) (Some x) (t + 2) (vr_Attestation request)
          (vr_InputVaultText request) (vr_OutputVaultText request) (vr_ExpectedBinding request) = Some (verdict, wd_heap w)"
        using v s0(1) by metis
      then show ?thesis using Inr True request
        by (cases "verify_response (sr_http e) request verdict") (simp add: verify_body_def Let_def)
    qed (use Inr in \<open>auto simp: verify_body_def Let_def\<close>)
  qed
qed


lemma generate_keeps:
  "keeps adm (\<lambda>l lc w2.
     (case decodeGenerateCommand lib names c t b of
        Inl err \<Rightarrow> Some (reply (body_failed lib m err) w2)
      | Inr cmd \<Rightarrow>
          (case Generate_op delivered (wd_heap w2) sp gen lc u actor cmd (wd_random w2) of
             None \<Rightarrow> None
           | Some (result, random', h) \<Rightarrow> Some (reply (answer result) (w2\<lparr>wd_random := random', wd_heap := h\<rparr>)))))"
proof (rule keepsI)
  fix a l x and w :: "('a, 'b, 'c, 'd) world" and s
  assume i: "issued (wd_heap w) a l x" and s: "lease_states (wd_heap w) l = Some s" "\<not> held s"
  have l: "leaseFromContext (Some x) = Some l" using i by (simp add: issued_def)
  show "\<exists>w'. (case decodeGenerateCommand lib names c t b of
        Inl err \<Rightarrow> Some (reply (body_failed lib m err) w)
      | Inr cmd \<Rightarrow>
          (case Generate_op delivered (wd_heap w) sp gen (Some x) u actor cmd (wd_random w) of
             None \<Rightarrow> None
           | Some (result, random', h) \<Rightarrow> Some (reply (answer result) (w\<lparr>wd_random := random', wd_heap := h\<rparr>)))) = Some w' \<and>
      wd_heap w' = wd_heap w"
  proof (cases "decodeGenerateCommand lib names c t b")
    case (Inr cmd)
    obtain res g' where "Generate_op delivered (wd_heap w) sp gen (Some x) u actor cmd (wd_random w) = Some (res, g', wd_heap w)"
      using Generate_free [OF s l] by metis
    then show ?thesis using Inr by simp
  qed simp
qed

lemma body_keeps:
  "(\<And>request. keeps adm (\<lambda>l lc w. run request l lc w)) \<Longrightarrow>
     keeps adm (\<lambda>l lc w. case decoded of Inl err \<Rightarrow> Some (reply (body_failed lib m err) w) | Inr request \<Rightarrow> run request l lc w)"
  by (cases decoded) (simp_all add: keeps_def)

lemma option_keeps:
  "(\<And>request. keeps adm (\<lambda>l lc w. run request l lc w)) \<Longrightarrow>
     keeps adm (\<lambda>l lc w. case decoded of None \<Rightarrow> Some (reply f w) | Some request \<Rightarrow> run request l lc w)"
  by (cases decoded) (simp_all add: keeps_def)

lemma if_keeps: "keeps adm work \<Longrightarrow> keeps adm (\<lambda>l lc w. if p then Some (reply f w) else work l lc w)"
  by (cases p) (simp_all add: keeps_def)

lemmas keeps_rules = body_keeps option_keeps if_keeps run_prepared_keeps run_rotation_keeps generate_keeps verify_body_keeps

definition sound_handler :: "(('s, 'd, 'r, 'f) world \<Rightarrow> ('s, 'd, 'r, 'f) served) \<Rightarrow> bool" where
  "sound_handler serve \<longleftrightarrow> (\<forall>w. heap_ok (wd_heap w) \<longrightarrow> (\<exists>w'. serve w = Some w' \<and> gives_back (wd_heap w) (wd_heap w')))"

lemma sound_answer: "(\<And>w. wd_heap (f w) = wd_heap w) \<Longrightarrow> sound_handler (\<lambda>w. Some (f w))"
  by (simp add: sound_handler_def)

lemma sound_checked:
  "(\<And>w x. wd_heap (f x w) = wd_heap w) \<Longrightarrow> sound_handler serve \<Longrightarrow>
     sound_handler (\<lambda>w. case checked of Some x \<Rightarrow> Some (f x w) | None \<Rightarrow> serve w)"
  by (cases checked) (simp_all add: sound_handler_def)

lemma sound_result:
  "(\<And>w x. wd_heap (f x w) = wd_heap w) \<Longrightarrow> (\<And>y. sound_handler (serve y)) \<Longrightarrow>
     sound_handler (\<lambda>w. case result of Inl x \<Rightarrow> Some (f x w) | Inr y \<Rightarrow> serve y w)"
  by (cases result) (simp_all add: sound_handler_def)

lemma sound_if:
  "(p \<Longrightarrow> sound_handler serve1) \<Longrightarrow> (\<not> p \<Longrightarrow> sound_handler serve2) \<Longrightarrow> sound_handler (\<lambda>w. if p then serve1 w else serve2 w)"
  by (cases p) simp_all

lemma sound_for_caller:
  "(\<And>actor. sound_handler (\<lambda>w. serve actor w)) \<Longrightarrow> sound_handler (\<lambda>w. for_caller e hdl r w (\<lambda>actor w1. serve actor w1))"
  unfolding sound_handler_def by (metis (no_types, lifting) for_caller_gives_back)

lemma sound_lease:
  "keeps adm (\<lambda>l lc w2. work l lc w2) \<Longrightarrow> (\<And>err w0. wd_heap (refused err w0) = wd_heap w0) \<Longrightarrow>
     sound_handler (\<lambda>w. with_lease adm refused c t w (\<lambda>l lc w2. work l lc w2))"
  unfolding sound_handler_def using with_lease_gives_back by blast

lemmas sound_rules = sound_checked sound_result sound_if sound_for_caller sound_lease sound_answer

lemma sound_canonical: "sound_handler (serveCanonicalOperation e hdl r c t b operation decodeCommand response)"
  unfolding serveCanonicalOperation_def [abs_def] Let_def
  by (intro sound_rules keeps_rules) simp_all

lemma sound_rotate: "sound_handler (serveCanonicalRotateWithAttestation e hdl r c t b)"
  unfolding serveCanonicalRotateWithAttestation_def [abs_def] Let_def
  by (intro sound_rules keeps_rules) simp_all

lemma sound_generate: "sound_handler (serveGenerate e hdl r c t b)"
  unfolding serveGenerate_def [abs_def] Let_def
  by (intro sound_rules keeps_rules) simp_all

lemma sound_profiles: "sound_handler (serveProfiles e hdl r c t)"
  unfolding serveProfiles_def [abs_def] Let_def
  by (intro sound_rules) simp_all

lemma sound_operation: "sound_handler (serveOperation e hdl r c t b)"
proof -
  have "sound_handler (\<lambda>w. case post_json (sr_http e) r of
          Some answer \<Rightarrow> Some (reply answer w)
        | None \<Rightarrow> for_caller e hdl r w (\<lambda>actor w1.
            with_lease (service_admission hdl) (\<lambda>err. reply (acquire_failed (sr_http e) True err)) c t w1 (\<lambda>l lc w2.
              (case decodeOperation (sr_http e) (sr_order e) c (t + 2) b of
                 Inl err \<Rightarrow> Some (reply (body_failed (sr_http e) ''request is invalid'' err) w2)
               | Inr request \<Rightarrow> run_prepared e hdl actor (operationRequest_command request)
                   (\<lambda>out. JObject [(''value'', JString out)]) (t + 12) l lc w2))))" (is "sound_handler ?serve")
    by (intro sound_rules keeps_rules) simp_all
  then show ?thesis
    unfolding sound_handler_def serveOperation_def Let_def by (auto split: option.split)
qed

lemma sound_verify: "sound_handler (serveAttestationVerify e hdl r c t b)"
proof -
  have inner: "sound_handler (\<lambda>w1. case PreflightAttestationVerify (hd_service hdl) (Some c) t actor of
                 Some err \<Rightarrow>
                   Some (verified (attestationOutcomeFromError err)
                     (preflight_error (sr_http e) (hd_authConfig hdl) actor ScopeAttestationVerify err) w1)
               | None \<Rightarrow>
                   if \<not> AttestationEnabled (hd_service hdl) (t + 2)
                   then Some (verified ''feature_unavailable'' (writeError (sr_http e) 503 (code_text CodeFeatureUnavailable) ''rotation attestations are disabled'') w1)
                   else with_lease (service_verifierAdmission hdl) (verifier_refused (sr_http e)) c (t + 3) w1
                     (\<lambda>l lc w2. verify_body e hdl c (t + 5) b lc w2))" for actor
    by (intro sound_rules keeps_rules) simp_all
  show ?thesis
    unfolding sound_handler_def
  proof (intro allI impI)
    fix w :: "('a, 'b, 'c, 'd) world"
    assume w: "heap_ok (wd_heap w)"
    obtain who st where q: "requestCaller (sr_runtime e) hdl r (wd_auth w) = (who, st)" by (cases "requestCaller (sr_runtime e) hdl r (wd_auth w)")
    show "\<exists>w'. serveAttestationVerify e hdl r c t b w = Some w' \<and> gives_back (wd_heap w) (wd_heap w')"
    proof (cases who)
      case (Inr actor)
      then show ?thesis
        using inner [of actor, unfolded sound_handler_def, rule_format, of "w\<lparr>wd_auth := st\<rparr>"] w q
        unfolding serveAttestationVerify_def Let_def by (auto split: option.splits)
    qed (use q w in \<open>auto simp: serveAttestationVerify_def Let_def split: option.splits\<close>)
  qed
qed


lemma session_handlers_heap [simp]:
  "wd_heap (serveSession e hdl r t w) = wd_heap w" "wd_heap (serveLogin e hdl r w) = wd_heap w"
  "wd_heap (serveCallback e hdl r w) = wd_heap w" "wd_heap (serveLogout e hdl r w) = wd_heap w"
  "wd_heap (serveMetrics e hdl r t w) = wd_heap w"
  by (simp_all add: serveSession_def serveLogin_def serveCallback_def serveLogout_def serveMetrics_def Let_def
      split: option.split prod.split)

lemma plain_handlers_heap [simp]:
  "wd_heap (serveAttestationMetadata e hdl r t w) = wd_heap w" "wd_heap (serveAttestationJWKS e hdl r t w) = wd_heap w"
  "wd_heap (serveProtectedResourceMetadata e hdl r w) = wd_heap w" "wd_heap (serveHealth e r w) = wd_heap w"
  "wd_heap (serveReady e hdl r w) = wd_heap w"
  by (simp_all add: serveAttestationMetadata_def serveAttestationJWKS_def serve_discovery_def serveProtectedResourceMetadata_def
      serveHealth_def serveReady_def Let_def)

lemmas sound_handlers = sound_profiles sound_generate sound_operation sound_rotate sound_verify sound_canonical

lemma sound_encrypt: "sound_handler (serveCanonicalEncrypt e hdl r c t b pid)"
  unfolding serveCanonicalEncrypt_def by (rule sound_canonical)

lemma sound_decrypt: "sound_handler (serveCanonicalDecrypt e hdl r c t b pid)"
  unfolding serveCanonicalDecrypt_def by (rule sound_canonical)

lemma sound_canonical_paths: "sound_handler (\<lambda>w. case canonicalProfileOperation lib r of
        InvalidPath \<Rightarrow> Some (reply f w)
      | CanonicalPath pid OperationEncrypt \<Rightarrow> serveCanonicalEncrypt e hdl r c t b pid w
      | CanonicalPath pid OperationDecrypt \<Rightarrow> serveCanonicalDecrypt e hdl r c t b pid w
      | _ \<Rightarrow> Some (reply g w))"
proof (cases "canonicalProfileOperation lib r")
  case (CanonicalPath pid operation)
  then show ?thesis by (cases operation) (simp_all add: sound_encrypt sound_decrypt sound_answer)
qed (simp_all add: sound_answer)

lemma sound_route:
  assumes "hr_Path r \<noteq> ''/mcp''"
  shows "sound_handler (route e hdl mcp r c t b)"
  unfolding route_def [abs_def] Let_def using assms
  by (intro sound_if sound_handlers sound_canonical_paths sound_answer) simp_all

text \<open>C26. Capacity is given back. Whatever a request is, other than one for MCP, and whatever its body, its session, the service and
  the moments at which its context is cancelled, its handler answers without waiting for a lease, and afterwards
  every admission has the live leases, the tokens and the count in use that it had before: no error path keeps capacity.\<close>

theorem handlers_give_capacity_back:
  assumes "heap_ok (wd_heap w)" "hr_Path r \<noteq> ''/mcp''"
  shows "\<exists>w'. ServeHTTP e hdl mcp r c t b elapsed w = Some w' \<and> heap_ok (wd_heap w') \<and>
    (\<forall>a. live_leases (wd_heap w') a = live_leases (wd_heap w) a \<and>
         tokens (admissions (wd_heap w') a) = tokens (admissions (wd_heap w) a) \<and>
         inUse (admissions (wd_heap w') a) = inUse (admissions (wd_heap w) a))"
proof -
  obtain w1 where w1: "route e hdl mcp r c t b (reply (ensureRequestID (sr_http e)) w) = Some w1" "gives_back (wd_heap w) (wd_heap w1)"
    using sound_route [OF assms(2), of e hdl mcp c t b, unfolded sound_handler_def, rule_format, of "reply (ensureRequestID (sr_http e)) w"] assms(1) by auto
  then have "\<forall>a. live_leases (wd_heap w1) a = live_leases (wd_heap w) a" and ok: "heap_ok (wd_heap w1)" by (simp_all add: gives_back_def)
  then have "\<forall>a. live_leases (wd_heap w1) a = live_leases (wd_heap w) a \<and>
         tokens (admissions (wd_heap w1) a) = tokens (admissions (wd_heap w) a) \<and>
         inUse (admissions (wd_heap w1) a) = inUse (admissions (wd_heap w) a)"
    using pool_okD [OF ok] pool_okD [OF assms(1)] by simp
  then show ?thesis using w1(1) ok by (simp add: ServeHTTP_def Let_def)
qed


subsection \<open>Successful answers\<close>

definition refusal :: "(http_writer \<Rightarrow> http_writer) \<Rightarrow> bool" where
  "refusal f \<longleftrightarrow> (\<forall>x. hw_status x = None \<longrightarrow> hw_status (f x) \<noteq> Some 200)"

lemma header_Set_status [simp]: "hw_status (header_Set k v x) = hw_status x" "hw_status (header_Add k v x) = hw_status x"
  by (simp_all add: header_Set_def header_Add_def)

lemma ensureRequestID_status [simp]: "hw_status (ensureRequestID lib x) = hw_status x"
  by (simp add: ensureRequestID_def)

lemma writeJSON_status [simp]: "hw_status x = None \<Longrightarrow> hw_status (writeJSON lib status v x) = Some status"
  by (simp add: writeJSON_def Let_def write_body_def write_status_def)

lemma writeJSON_body [simp]: "hw_body (writeJSON lib status v x) = hw_body x @ [v]"
  by (simp add: writeJSON_def Let_def write_body_def write_status_def header_Set_def ensureRequestID_def split: option.split)

lemma refusals:
  "status \<noteq> 200 \<Longrightarrow> refusal (writeError lib status code message)"
  "refusal (methodNotAllowed lib allowed)"
  "status \<noteq> 200 \<Longrightarrow> refusal (writeAuthError lib status code)"
  "refusal (writeServiceError lib err)"
  "refusal (acquire_failed lib retryable aerr)"
  "refusal (body_failed lib message berr)"
  "refusal (preflight_error lib cfg actor scope err)"
proof -
  have code: "error_status k \<noteq> 200" for k by (cases k) (simp_all add: error_status_def)
  show service: "refusal (writeServiceError lib err)"
    by (cases "domain_error err") (auto simp: refusal_def writeServiceError_def writeError_def Let_def code)
  then show "refusal (preflight_error lib cfg actor scope err)"
    by (simp add: refusal_def preflight_error_def writeBearerChallenge_def writeError_def Let_def)
qed (auto simp: refusal_def writeError_def methodNotAllowed_def writeAuthError_def acquire_failed_def body_failed_def unavailable_now_def
    writeOperationAdmissionSaturated_def split: admission_error.splits body_error.splits)

lemma post_json_refusal: "post_json lib r = Some f \<Longrightarrow> refusal f"
  by (auto simp: post_json_def refusals split: if_splits)

lemma refused: "refusal f \<Longrightarrow> hw_status (wd_writer w) = None \<Longrightarrow> hw_status (wd_writer (reply f w)) \<noteq> Some 200"
  by (simp add: refusal_def reply_def)

lemma for_caller_success:
  assumes "for_caller e hdl r w next = Some w'" "hw_status (wd_writer w) = None" "hw_status (wd_writer w') = Some 200"
  shows "\<exists>actor st. requestCaller (sr_runtime e) hdl r (wd_auth w) = (Inr actor, st) \<and> next actor (w\<lparr>wd_auth := st\<rparr>) = Some w'"
proof (cases "requestCaller (sr_runtime e) hdl r (wd_auth w)")
  case (Pair who st)
  show ?thesis
  proof (cases who)
    case (Inl refusal)
    obtain status code where s: "refusal = (status, code)" by (cases refusal)
    have "status \<noteq> 200"
      using Pair [unfolded Inl s] by (auto simp: requestCaller_def split: option.splits if_splits prod.splits sum.splits auth_error.splits)
    then show ?thesis using assms Pair Inl s refused [OF refusals(3), of status "w\<lparr>wd_auth := st\<rparr>"] by (auto simp: for_caller_def)
  next
    case (Inr actor)
    then show ?thesis using assms(1) Pair by (auto simp: for_caller_def)
  qed
qed

lemma with_lease_success:
  assumes "with_lease adm (\<lambda>err. reply (f err)) c t w work = Some w'" "\<And>err. refusal (f err)"
    "hw_status (wd_writer w) = None" "hw_status (wd_writer w') = Some 200"
  shows "\<exists>l lc h w1. work l lc (w\<lparr>wd_heap := h\<rparr>) = Some w1 \<and> wd_writer w' = wd_writer w1"
proof (cases "TryAcquire (wd_heap w) adm c t")
  case (Pair res h1)
  show ?thesis
  proof (cases res)
    case (Inl err)
    then show ?thesis using assms Pair refused [OF assms(2), of "w\<lparr>wd_heap := h1\<rparr>" err] by (auto simp: with_lease_def)
  next
    case (Inr l)
    then show ?thesis using assms(1) Pair by (fastforce simp: with_lease_def split: prod.splits option.splits)
  qed
qed

lemma run_prepared_success:
  assumes "run_prepared e hdl actor cmd response t l lc w = Some w'" "hw_status (wd_writer w) = None" "hw_status (wd_writer w') = Some 200"
  shows "\<exists>p out pp h. Prepare (sr_proof e) (sr_delivered e) (wd_heap w) (hd_service hdl) lc t actor cmd (Some l) = Inr p \<and>
    Run (sr_proof e) (sr_now e) (sr_delivered e) (wd_heap w) (Some p) lc (t + 19) = Some (Inr out, pp, h) \<and>
    hw_body (wd_writer w') = hw_body (wd_writer w) @ [encoded (response out)]"
proof (cases "Prepare (sr_proof e) (sr_delivered e) (wd_heap w) (hd_service hdl) lc t actor cmd (Some l)")
  case (Inl err)
  then show ?thesis using assms refused [OF refusals(4)] by (auto simp: run_prepared_def)
next
  case (Inr p)
  obtain res pp h where run: "Run (sr_proof e) (sr_now e) (sr_delivered e) (wd_heap w) (Some p) lc (t + 19) = Some (res, pp, h)"
    using assms(1) Inr by (auto simp: run_prepared_def split: option.splits)
  show ?thesis
  proof (cases res)
    case (Inl err)
    then show ?thesis using assms Inr run refused [OF refusals(4), of "w\<lparr>wd_heap := h\<rparr>"] by (auto simp: run_prepared_def)
  next
    case out: (Inr out)
    then show ?thesis using assms(1) Inr run by (auto simp: run_prepared_def reply_def)
  qed
qed

lemma canonical_success:
  assumes "serveCanonicalOperation e hdl r c t b operation decodeCommand response w = Some w'"
    "hw_status (wd_writer w) = None" "hw_status (wd_writer w') = Some 200"
  shows "\<exists>actor st fs cmd l lc h p out pp h'. requestCaller (sr_runtime e) hdl r (wd_auth w) = (Inr actor, st) \<and>
    decodeStrictStringFields (sr_http e) (sr_order e) c (t + 3) b (canonicalAllowedFields operation) = Inr fs \<and>
    decodeCommand fs = Some cmd \<and>
    Prepare (sr_proof e) (sr_delivered e) h (hd_service hdl) lc (t + 12) actor cmd (Some l) = Inr p \<and>
    Run (sr_proof e) (sr_now e) (sr_delivered e) h (Some p) lc (t + 12 + 19) = Some (Inr out, pp, h') \<and>
    hw_body (wd_writer w') = hw_body (wd_writer w) @ [encoded (response out)]"
proof -
  have n: "post_json (sr_http e) r = None"
    using assms refused [OF post_json_refusal] by (auto simp: serveCanonicalOperation_def Let_def split: option.splits)
  obtain actor st where actor: "requestCaller (sr_runtime e) hdl r (wd_auth w) = (Inr actor, st)" and
    rest: "(case Preflight (Some c) t actor operation of
             Some err \<Rightarrow> Some (reply (preflight_error (sr_http e) (hd_authConfig hdl) actor (operation_scope operation) err) (w\<lparr>wd_auth := st\<rparr>))
           | None \<Rightarrow> with_lease (service_admission hdl) (\<lambda>err. reply (acquire_failed (sr_http e) True err)) c (t + 1) (w\<lparr>wd_auth := st\<rparr>) (\<lambda>l lc w2.
               (case decodeStrictStringFields (sr_http e) (sr_order e) c (t + 3) b (canonicalAllowedFields operation) of
                  Inl err \<Rightarrow> Some (reply (body_failed (sr_http e) ''request is invalid'' err) w2)
                | Inr fs \<Rightarrow> (case decodeCommand fs of
                    None \<Rightarrow> Some (reply (body_failed (sr_http e) ''request is invalid'' BodyInvalid) w2)
                  | Some cmd \<Rightarrow> run_prepared e hdl actor cmd response (t + 12) l lc w2)))) = Some w'"
    using for_caller_success [OF _ assms(2,3)] assms(1) unfolding serveCanonicalOperation_def Let_def n option.case by blast
  have pre: "Preflight (Some c) t actor operation = None"
    using rest assms(2,3) refused [OF refusals(7), of "w\<lparr>wd_auth := st\<rparr>"] by (auto split: option.splits)
  obtain l lc h w1 where work: "(case decodeStrictStringFields (sr_http e) (sr_order e) c (t + 3) b (canonicalAllowedFields operation) of
                  Inl err \<Rightarrow> Some (reply (body_failed (sr_http e) ''request is invalid'' err) (w\<lparr>wd_auth := st, wd_heap := h\<rparr>))
                | Inr fs \<Rightarrow> (case decodeCommand fs of
                    None \<Rightarrow> Some (reply (body_failed (sr_http e) ''request is invalid'' BodyInvalid) (w\<lparr>wd_auth := st, wd_heap := h\<rparr>))
                  | Some cmd \<Rightarrow> run_prepared e hdl actor cmd response (t + 12) l lc (w\<lparr>wd_auth := st, wd_heap := h\<rparr>))) = Some w1"
      "wd_writer w' = wd_writer w1"
    using with_lease_success [OF rest [unfolded pre option.case] refusals(5)] assms(2,3) by auto
  have bodies: "hw_status (wd_writer (reply (body_failed (sr_http e) ''request is invalid'' err) (w\<lparr>wd_auth := st, wd_heap := h\<rparr>))) \<noteq> Some 200" for err
    using assms(2) by (intro refused refusals) simp
  obtain fs cmd where fs: "decodeStrictStringFields (sr_http e) (sr_order e) c (t + 3) b (canonicalAllowedFields operation) = Inr fs"
      "decodeCommand fs = Some cmd" "run_prepared e hdl actor cmd response (t + 12) l lc (w\<lparr>wd_auth := st, wd_heap := h\<rparr>) = Some w1"
    using work bodies assms(3) by (auto split: sum.splits option.splits)
  show ?thesis
    using run_prepared_success [OF fs(3)] assms(2,3) work(2) actor fs(1,2) by (simp) blast
qed

subsection \<open>Decryption\<close>

lemma Run_decrypts:
  assumes "Prepare lib delivered h sp c t actor cmd lease = Inr p" "cmd_Operation cmd = OperationDecrypt"
    "Run lib now delivered h (Some p) c u = Some (Inr out, pp, h')"
  shows "\<exists>s entry exec ec. sp = Some s \<and> svc_byID s (cmd_ProfileID cmd) = Some entry \<and> ce_executor entry = Some exec \<and>
    pe_Decrypt exec ec (u + 4) (cmd_Value cmd) = Inr out \<and> length out \<le> MaxPlaintextBytes"
proof -
  obtain s ec r where p: "sp = Some s" "prepared_for lib delivered h s c t actor cmd lease ec r p"
    using Prepare_Inr [OF assms(1)] by blast
  obtain entry where entry: "svc_byID s (cmd_ProfileID cmd) = Some entry" "rc_source r = ce_executor entry" "ce_executor entry \<noteq> None"
    using p(2) assms(2) by (auto simp: prepared_for_def resolveCommand_Inr)
  obtain res where "runResult lib now delivered h (Some p) c u = Some (Inr res, pp, h')" and out: "out = rr_VaultText res"
    using assms(3) by (auto simp: Run_def split: if_splits option.splits prod.splits sum.splits)
  then obtain pc where "run_operation lib now (p\<lparr>po_started := Some True\<rparr>) c (mergeCancellationContexts delivered pc (the c)) (u + 4) = Inr res"
    using runResult_Inr by fastforce
  then have "pe_Decrypt (the (po_source p)) (mergeCancellationContexts delivered pc (the c)) (u + 4) (po_value p) = Inr out \<and> length out \<le> MaxPlaintextBytes"
    using run_decrypt_Inr [of "p\<lparr>po_started := Some True\<rparr>"] p(2) assms(2) out by (simp add: prepared_for_def)
  then show ?thesis using p entry by (auto simp: prepared_for_def)
qed

lemma Prepare_authorizes:
  assumes "Prepare lib delivered h sp c t actor cmd lease = Inr p"
  shows "kind actor = KindAnonymous \<or> kind actor \<in> {KindSession, KindBearer} \<and>
    (\<exists>scope. RequiredScope (cmd_Operation cmd) = Some scope \<and> (kind actor = KindBearer \<longrightarrow> HasScope actor scope)) \<and>
    (\<exists>s evaluate. sp = Some s \<and> svc_authorizer s = Some evaluate \<and>
       evaluate (t + 9) actor (operationChecks cmd) = Inr (map (\<lambda>_. True) (operationChecks cmd)))"
proof -
  obtain s ec r where p: "sp = Some s" "prepared_for lib delivered h s c t actor cmd lease ec r p"
    using Prepare_Inr [OF assms(1)] by blast
  have all: "allowed = map (\<lambda>_. True) cs" if "length allowed = length cs" "list_all id allowed" for allowed and cs :: "Check list"
    using that by (intro nth_equalityI) (auto simp: list_all_length)
  have "kind actor \<in> {KindSession, KindBearer}" if "kind actor \<noteq> KindNone" "kind actor \<noteq> KindAnonymous"
    using that by (cases "kind actor") auto
  then show ?thesis using p unfolding prepared_for_def authorize_None Preflight_None
    by (auto dest!: all simp: add.commute [of t])
qed

lemma requestCaller_anonymous:
  assumes "requestCaller rt hdl r st = (Inr actor, st')" "kind actor = KindAnonymous"
  shows "ac_Mode (hd_authConfig hdl) \<noteq> AuthModeNative \<or> hr_caller r = Some actor"
  using assms by (auto simp: requestCaller_def caller_defs Let_def split: option.splits if_splits prod.splits sum.splits auth_error.splits)

text \<open>C12. Decryption over HTTP. Whatever the request, its body and the state are, a plaintext leaves the decrypt endpoint of a profile only
  when the request has a caller who is anonymous, which native authentication alone never gives, or whom the authoriser grants
  decryption of that profile, with the scope if the caller has a token. The plaintext is then what the
  executor of the profile in the path makes of the \<open>vaultText\<close> member of the body, and it is within the limit.\<close>

theorem decrypt_only_for_entitled:
  assumes "serveCanonicalDecrypt e hdl r c t b pid w = Some w'"
    "hw_status (wd_writer w) = None" "hw_status (wd_writer w') = Some 200"
  shows "\<exists>actor s fs vaultText entry exec ec u plaintext.
    fst (requestCaller (sr_runtime e) hdl r (wd_auth w)) = Inr actor \<and> hd_service hdl = Some s \<and>
    (kind actor = KindAnonymous \<and> (ac_Mode (hd_authConfig hdl) \<noteq> AuthModeNative \<or> hr_caller r = Some actor) \<or>
     kind actor \<in> {KindSession, KindBearer} \<and> (kind actor = KindBearer \<longrightarrow> HasScope actor ScopeDecrypt) \<and>
     (\<exists>evaluate. svc_authorizer s = Some evaluate \<and>
        evaluate u actor [\<lparr>chk_Action = ActionDecrypt, chk_Resource = ProfileResource pid\<rparr>] = Inr [True])) \<and>
    decodeStrictStringFields (sr_http e) (sr_order e) c (t + 3) b [''vaultText''] = Inr fs \<and> map_of fs ''vaultText'' = Some vaultText \<and>
    svc_byID s pid = Some entry \<and> ce_executor entry = Some exec \<and> pe_Decrypt exec ec (u + 14) vaultText = Inr plaintext \<and>
    length plaintext \<le> MaxPlaintextBytes \<and>
    hw_body (wd_writer w') = hw_body (wd_writer w) @ [encoded (JObject [(''plaintext'', JString plaintext)])]"
proof -
  let ?cmd = "\<lambda>v. empty_Command\<lparr>cmd_Operation := OperationDecrypt, cmd_ProfileID := pid, cmd_Value := v\<rparr>"
  obtain actor st fs cmd l lc h p out pp h' where run: "requestCaller (sr_runtime e) hdl r (wd_auth w) = (Inr actor, st)"
      "decodeStrictStringFields (sr_http e) (sr_order e) c (t + 3) b (canonicalAllowedFields OperationDecrypt) = Inr fs"
      "map_option ?cmd (map_of fs ''vaultText'') = Some cmd"
      "Prepare (sr_proof e) (sr_delivered e) h (hd_service hdl) lc (t + 12) actor cmd (Some l) = Inr p"
      "Run (sr_proof e) (sr_now e) (sr_delivered e) h (Some p) lc (t + 12 + 19) = Some (Inr out, pp, h')"
      "hw_body (wd_writer w') = hw_body (wd_writer w) @ [encoded (JObject [(''plaintext'', JString out)])]"
    using canonical_success [OF assms(1) [unfolded serveCanonicalDecrypt_def] assms(2,3)] by blast
  obtain vaultText where v: "map_of fs ''vaultText'' = Some vaultText" "cmd = ?cmd vaultText" using run(3) by blast
  have op: "cmd_Operation cmd = OperationDecrypt" "cmd_ProfileID cmd = pid" "cmd_Value cmd = vaultText" by (simp_all add: v(2))
  obtain s entry exec ec where x: "hd_service hdl = Some s" "svc_byID s pid = Some entry" "ce_executor entry = Some exec"
      "pe_Decrypt exec ec (t + 35) vaultText = Inr out" "length out \<le> MaxPlaintextBytes"
    using Run_decrypts [OF run(4) op(1) run(5)] op(2,3) by (auto simp: ac_simps)
  have "kind actor = KindAnonymous \<and> (ac_Mode (hd_authConfig hdl) \<noteq> AuthModeNative \<or> hr_caller r = Some actor) \<or>
     kind actor \<in> {KindSession, KindBearer} \<and> (kind actor = KindBearer \<longrightarrow> HasScope actor ScopeDecrypt) \<and>
     (\<exists>evaluate. svc_authorizer s = Some evaluate \<and>
        evaluate (t + 21) actor [\<lparr>chk_Action = ActionDecrypt, chk_Resource = ProfileResource pid\<rparr>] = Inr [True])"
    using Prepare_authorizes [OF run(4)] requestCaller_anonymous [OF run(1)] x(1) op
    by (auto simp: RequiredScope_def operationChecks_def ac_simps)
  then show ?thesis using run v x
    by - (rule exI [of _ actor], rule exI [of _ s], rule exI [of _ fs], rule exI [of _ vaultText], rule exI [of _ entry],
        rule exI [of _ exec], rule exI [of _ ec], rule exI [of _ "t + 21"], rule exI [of _ out],
        simp add: canonicalAllowedFields_def add.commute [of t])
qed


section \<open>Witnesses\<close>

definition demo_handler :: "unit Handler" where
  "demo_handler = \<lparr>hd_service = Some (NewWithOptions [\<lparr>pr_ID = ''dev'', pr_Label = ''Dev'', pr_Capabilities = zero_Capabilities\<rparr>]
       (Some (\<lambda>_. Some \<lparr>pe_Encrypt = (\<lambda>_ _ v. Inr v), pe_Decrypt = (\<lambda>_ _ v. Inr (rev v))\<rparr>)) None (Some 0) None False None 1 2),
     hd_generator = None, hd_auth = None, hd_authConfig = (au_Config demo_auth)\<lparr>ac_Mode := AuthModeOff\<rparr>\<rparr>"

definition demo_surroundings :: "(demo_session, demo_db, int) surroundings" where
  "demo_surroundings = \<lparr>sr_http = demo_http_lib, sr_proof = demo_lib, sr_runtime = demo_runtime, sr_delivered = (\<lambda>_. False), sr_now = [],
     sr_order = (\<lambda>fs. fs), sr_names = sanFields, sr_add = (+), sr_Redirect = (\<lambda>_ _ x. x), sr_marshal_union = (\<lambda>_ _. None),
     sr_reloads = (\<lambda>_. None)\<rparr>"

definition demo_http_world :: "(demo_session, demo_db, unit, int) world" where
  "demo_http_world = \<lparr>wd_writer = empty_writer, wd_heap = demo_heap, wd_auth = demo_request, wd_random = (), wd_metrics = None, wd_lines = []\<rparr>"

definition demo_body :: request_body where
  "demo_body = \<lparr>rb_data = ''{'' @ [CHR 0x22] @ ''vaultText'' @ [CHR 0x22, CHR '':'', CHR 0x22] @ ''ab'' @ [CHR 0x22] @ ''}'', rb_broken = False\<rparr>"

theorem handlers_give_capacity_back_witness:
  "\<exists>w'. ServeHTTP demo_surroundings demo_handler Some demo_post background 0 demo_body 1 demo_http_world = Some w' \<and>
     (\<forall>a. inUse (admissions (wd_heap w') a) = 0)"
  using handlers_give_capacity_back [of demo_http_world demo_post demo_surroundings demo_handler Some background 0 demo_body 1]
  by (auto simp: demo_http_world_def demo_post_def demo_heap_def [symmetric]) (simp add: demo_heap_def)

lemma demo_decoded: "decodeStrictStringFields demo_http_lib (\<lambda>fs. fs) background t demo_body [''vaultText''] = Inr [(''vaultText'', ''ab'')]"
proof -
  have "decoder_object (rb_data demo_body) = Some [(''vaultText'', [CHR 0x22] @ ''ab'' @ [CHR 0x22])]"
    by (simp add: demo_body_def decoder_simps)
  moreover have "strings_TrimSpace ([CHR 0x22] @ ''ab'' @ [CHR 0x22]) = [CHR 0x22] @ ''ab'' @ [CHR 0x22]" by code_simp
  moreover from decode_string_iff [OF this] have "decodeOperationString ([CHR 0x22] @ ''ab'' @ [CHR 0x22]) = Some ''ab''"
    by (simp add: decoder_simps)
  moreover have "utf8_valid (rb_data demo_body)" by code_simp
  moreover have "length (rb_data demo_body) \<le> MaxRequestBodyBytes" "\<not> rb_broken demo_body" by (simp_all add: demo_body_def MaxRequestBodyBytes_def)
  ultimately show ?thesis
    by (simp add: decodeStrictStringFields_def decodeStrictRequestFields_def readRequestBody_def read_all_def decodeStrictObject_def
        demo_http_lib_def)
qed

lemma demo_acquired:
  "\<exists>h1. TryAcquire demo_heap (Some 0) background t = (Inr 0, h1) \<and> lease_Context h1 (Some 0) (Some background) = (Some demo_ctx, demo_leased)"
  by (simp add: demo_leased_def lease_Context_def TryAcquire_def demo_heap_def Let_def demo_ctx_def same_binding_def leaseBindingFromContext_def)

lemma demo_service_facts:
  "\<exists>s. hd_service demo_handler = Some s \<and> svc_ready s \<and> svc_admission s = Some 0 \<and>
     svc_byID s ''dev'' = Some \<lparr>ce_profile = \<lparr>pr_ID = ''dev'', pr_Label = ''Dev'', pr_Capabilities = zero_Capabilities\<rparr>,
       ce_executor = Some \<lparr>pe_Encrypt = (\<lambda>_ _ v. Inr v), pe_Decrypt = (\<lambda>_ _ v. Inr (rev v))\<rparr>\<rparr>"
proof -
  have "strings_TrimSpace ''Dev'' \<noteq> []" by code_simp
  then show ?thesis using demo_ids by (simp add: demo_handler_def NewWithOptions_fields profile_usable_def catalog_entry_def)
qed

lemma demo_decrypts:
  "\<exists>w'. run_prepared demo_surroundings demo_handler Anonymous
      (empty_Command\<lparr>cmd_Operation := OperationDecrypt, cmd_ProfileID := ''dev'', cmd_Value := ''ab''\<rparr>) response t 0 (Some demo_ctx)
      (demo_http_world\<lparr>wd_heap := demo_leased\<rparr>) = Some w' \<and> hw_status (wd_writer w') = Some 200 \<and> wd_heap w' = demo_leased"
proof -
  let ?cmd = "empty_Command\<lparr>cmd_Operation := OperationDecrypt, cmd_ProfileID := ''dev'', cmd_Value := ''ab''\<rparr>"
  obtain s where s: "hd_service demo_handler = Some s" "svc_ready s" "svc_admission s = Some 0"
     "svc_byID s ''dev'' = Some \<lparr>ce_profile = \<lparr>pr_ID = ''dev'', pr_Label = ''Dev'', pr_Capabilities = zero_Capabilities\<rparr>,
       ce_executor = Some \<lparr>pe_Encrypt = (\<lambda>_ _ v. Inr v), pe_Decrypt = (\<lambda>_ _ v. Inr (rev v))\<rparr>\<rparr>"
    using demo_service_facts by blast
  let ?r = "\<lparr>rc_source = Some \<lparr>pe_Encrypt = (\<lambda>_ _ v. Inr v), pe_Decrypt = (\<lambda>_ _ v. Inr (rev v))\<rparr>, rc_destination = None\<rparr>"
  have r: "resolveCommand s Anonymous ?cmd = Inr ?r" using s(4) by (simp add: resolveCommand_def)
  have v: "validateCommandShape demo_lib ?cmd = None" "validateCommandValue ?cmd = None"
    using demo_ids by (simp_all add: validateCommandShape_def validateCommandValue_def empty_Command_def utf8_valid_ascii service_MaxVaultTextBytes_def)
  have k: "kind Anonymous = KindAnonymous" by (simp add: Anonymous_def)
  obtain p where p: "Prepare demo_lib (\<lambda>_. False) demo_leased (Some s) (Some demo_ctx) t Anonymous ?cmd (Some 0) = Inr p"
      "po_service p = Some s" "po_lease p = Some 0" "po_context p = Some demo_ctx" "po_source p = rc_source ?r" "po_started p = Some False"
      "po_operation p = OperationDecrypt" "po_value p = ''ab''" "po_attestation p = None"
    using Prepare_calm [OF demo_issued demo_calm s(2,3) _ v(1) r v(2), of "\<lambda>_. False" t] k by (simp add: authorize_def empty_Command_def)
  have "run_operation demo_lib [] (p\<lparr>po_started := Some True\<rparr>) (Some demo_ctx) (mergeCancellationContexts (\<lambda>_. False) demo_ctx demo_ctx) u =
      Inr \<lparr>rr_VaultText = ''ba'', rr_Attestation = None\<rparr>" for u
    using p(5,7,8) by (subst run_decrypt_Inr) (simp_all add: utf8_valid_ascii MaxPlaintextBytes_def)
  then obtain q where "Run demo_lib [] (\<lambda>_. False) demo_leased (Some p) (Some demo_ctx) (t + 19) = Some (Inr ''ba'', q, demo_leased)"
    using RunResult_calm [OF demo_issued demo_calm p(2) s(3) p(3,4) _ p(6)] p(5,9) by (simp add: Run_def RunResult_def)
  then show ?thesis
    using p(1) s(1) by (simp add: run_prepared_def demo_surroundings_def demo_http_world_def reply_def empty_writer_def)
qed


definition demo_decrypt :: http_request where
  "demo_decrypt = demo_post\<lparr>hr_Path := ''/api/v1/profiles/dev/decrypt'', hr_EscapedPath := ''/api/v1/profiles/dev/decrypt''\<rparr>"

lemma demo_decrypt_answered:
  "\<exists>w'. serveCanonicalDecrypt demo_surroundings demo_handler demo_decrypt background 0 demo_body ''dev'' demo_http_world = Some w' \<and>
     hw_status (wd_writer w') = Some 200"
proof -
  let ?cmd = "empty_Command\<lparr>cmd_Operation := OperationDecrypt, cmd_ProfileID := ''dev'', cmd_Value := ''ab''\<rparr>"
  obtain w1 where w1: "run_prepared demo_surroundings demo_handler Anonymous ?cmd (\<lambda>out. JObject [(''plaintext'', JString out)]) 12 0 (Some demo_ctx)
      (demo_http_world\<lparr>wd_heap := demo_leased\<rparr>) = Some w1" "hw_status (wd_writer w1) = Some 200" "wd_heap w1 = demo_leased"
    using demo_decrypts by blast
  obtain h1 where h1: "TryAcquire demo_heap (Some 0) background 1 = (Inr 0, h1)" "lease_Context h1 (Some 0) (Some background) = (Some demo_ctx, demo_leased)"
    using demo_acquired by blast
  obtain h3 where h3: "Release demo_leased (Some 0) = Some h3"
    using demo_issued by (auto simp: issued_def lease_bound_def Release_def Let_def split: option.splits)
  have p: "post_json demo_http_lib demo_decrypt = None" by code_simp
  have a: "requestCaller demo_runtime demo_handler demo_decrypt st = (Inr Anonymous, st)" for st
    by (simp add: requestCaller_def demo_decrypt_def demo_post_def demo_handler_def)
  have f: "Preflight (Some background) 0 Anonymous OperationDecrypt = None"
    by (simp add: Preflight_None Anonymous_def RequiredScope_def contextError_def)
  have "service_admission demo_handler = Some 0" using demo_service_facts by (auto simp: service_admission_def)
  moreover have "sr_http demo_surroundings = demo_http_lib" "sr_runtime demo_surroundings = demo_runtime" "sr_order demo_surroundings = (\<lambda>fs. fs)"
    "wd_heap demo_http_world = demo_heap" "demo_http_world\<lparr>wd_auth := wd_auth demo_http_world\<rparr> = demo_http_world"
    by (simp_all add: demo_surroundings_def demo_http_world_def)
  ultimately show ?thesis
    using p a f h1 h3 w1 demo_decoded [of 3]
    by (simp add: serveCanonicalDecrypt_def serveCanonicalOperation_def for_caller_def with_lease_def canonicalAllowedFields_def)
qed

theorem decrypt_only_for_entitled_witness:
  "\<exists>w'. serveCanonicalDecrypt demo_surroundings demo_handler demo_decrypt background 0 demo_body ''dev'' demo_http_world = Some w' \<and>
     hw_body (wd_writer w') = [encoded (JObject [(''plaintext'', JString ''ba'')])]"
proof -
  obtain w' where w': "serveCanonicalDecrypt demo_surroundings demo_handler demo_decrypt background 0 demo_body ''dev'' demo_http_world = Some w'"
      "hw_status (wd_writer w') = Some 200"
    using demo_decrypt_answered by blast
  have s: "hw_status (wd_writer demo_http_world) = None" "hw_body (wd_writer demo_http_world) = []" by (simp_all add: demo_http_world_def empty_writer_def)
  have e: "sr_http demo_surroundings = demo_http_lib" "sr_order demo_surroundings = (\<lambda>fs. fs)" by (simp_all add: demo_surroundings_def)
  obtain s entry exec ec u fs v plaintext where r: "hd_service demo_handler = Some s" "svc_byID s ''dev'' = Some entry"
      "ce_executor entry = Some exec" "[(''vaultText'', ''ab'')] = fs" "map_of fs ''vaultText'' = Some v"
      "pe_Decrypt exec ec (u + 14) v = Inr plaintext"
      "hw_body (wd_writer w') = [] @ [encoded (JObject [(''plaintext'', JString plaintext)])]"
    using decrypt_only_for_entitled [OF w'(1) s(1) w'(2)] unfolding e s(2) demo_decoded sum.inject by metis
  then have "plaintext = ''ba''" using demo_service_facts by auto
  then show ?thesis using w'(1) r(7) by simp
qed

end
