(* ===== verification/Spec2Isabelle.thy ===== *)
theory Spec2Isabelle
  imports Ansible_Vault Caller Vault_Config Authz Admission Attestation Vault_Service Generate Generate_Service
    Keyring Attested_Rotation Session_Store Auth_Config Principals Sessions Session_HTTP HTTP_Security JWKS_Cache Access_Tokens Key_Material HTTP_Handlers
begin

text \<open>
  Vaultsmith: a verification development.

  Vaultsmith is a web service around Ansible Vault texts. A caller seals, opens or rotates values under
  profiles, each of which names a Vault password; may have new secrets generated and sealed in one step;
  and may ask that a rotation be attested by a signature. This development models the Go backend under
  \<open>src/backend/internal\<close> as HOL functions and step relations, and proves what makes it correct.

  \<^bold>\<open>Parts, and the theories that model them.\<close>

  \<^item> \<open>Prelude\<close>: the parts of Go's standard library that are used everywhere (strings, UTF-8, hexadecimal),
    with their lemmas. \<open>Encoding\<close> adds runes, base64 and decimal numbers; \<open>Go_Context\<close> contexts and their
    cancellation; \<open>Random_Source\<close> readers of random bytes, \<open>rand.Int\<close> and probabilities of outcomes.
  \<^item> \<open>Ansible_Vault\<close> (\<open>ansiblevault/vault.go\<close>): parsing and writing of envelopes, padding, encryption and
    decryption. PBKDF2, AES-CTR and HMAC are the parameter \<open>crypto\<close>.
  \<^item> \<open>Caller\<close> (\<open>caller/caller.go\<close>): identities of callers.
  \<^item> \<open>Vault_Config\<close> (\<open>config/config.go\<close>): loading of profiles, and the executors that seal and open.
  \<^item> \<open>Authz\<close> (\<open>authz/authorizer.go\<close>): policies, their validation, reloading and evaluation. Casbin's
    enforcer and the CSV reader are parameters.
  \<^item> \<open>Admission\<close> (\<open>vaultservice/admission.go\<close>): capacity, leases, the contexts bound to them; the methods
    on a heap, and the interleaved pool they refine.
  \<^item> \<open>Strict_JSON\<close> and \<open>Attestation\<close> (\<open>attestation\<close>): the strict parser, claims, flattened JWS, digests,
    signing and verification. SHA-256, Ed25519, \<open>url.Parse\<close> and \<open>jcs.Transform\<close> are the parameter
    \<open>proof_lib\<close>.
  \<^item> \<open>Keyring\<close> (\<open>attestationkeyring\<close>): key ring documents, snapshots, discovery documents and the manager
    that reloads them; the manager also as a step relation.
  \<^item> \<open>Vault_Service\<close> (\<open>vaultservice/service.go\<close>, \<open>attestation_service.go\<close>, \<open>errors.go\<close>): the catalogue,
    listing, preparation and execution of operations, issuing and verification of attestations.
    \<open>Attested_Rotation\<close> puts the key ring manager behind it.
  \<^item> \<open>Generate\<close> (\<open>generate\<close>: \<open>password.go\<close>, \<open>token.go\<close>, \<open>age.go\<close>, \<open>types.go\<close>) and \<open>Generate_Service\<close>
    (\<open>vaultservice/generate.go\<close>): generation of secrets and its way through the service. \<open>URI_Syntax\<close> and
    \<open>Key_Material\<close> (\<open>generate/x509.go\<close>, \<open>ssh.go\<close>): the names a certificate request may carry, with the syntax of
    URIs, and the generation of SSH keys and certificate requests.
  \<^item> \<open>Session_Store\<close> (\<open>authn/redis.go\<close>, \<open>authn/transaction.go\<close>): sessions and login transactions in Redis,
    and the interleaving of requests around one session.
  \<^item> \<open>Auth_Config\<close> (\<open>config/auth.go\<close>, \<open>config/proofs.go\<close>): the authentication and proof configuration.
  \<^item> \<open>Principals\<close> (\<open>authn/principal.go\<close>), \<open>Sessions\<close> (\<open>session_lock.go\<close>, \<open>refresh.go\<close>, \<open>oidc.go\<close>, and logout in
    \<open>http.go\<close>) and \<open>Session_HTTP\<close> (the middleware and response writer of \<open>http.go\<close>): browser sessions, from the
    ID token to the commit of a session before the first byte of a response.
  \<^item> \<open>JWKS_Cache\<close> and \<open>Access_Tokens\<close> (\<open>authn/access_token.go\<close>): the cache of the issuer's keys, as a step relation
    of the requests that share it, and the verification of access tokens.
  \<^item> \<open>HTTP_Security\<close> (\<open>httpapi/security.go\<close>, \<open>csrf.go\<close>, the checks of \<open>handler.go\<close>, the headers of \<open>mcp.go\<close>): the
    middlewares between a request and the application.
  \<^item> \<open>JSON_Decoder\<close> (what is used of encoding/json), \<open>Requests\<close> (the bodies of \<open>handler.go\<close>, \<open>attestation_http.go\<close>
    and \<open>generate_http.go\<close>), \<open>Metrics\<close> (\<open>metrics.go\<close>, \<open>admission.go\<close>) and \<open>HTTP_Handlers\<close> (\<open>ServeHTTP\<close> and the
    handlers it dispatches to, with \<open>auth_routes.go\<close>): the HTTP API, on top of everything above.

  \<^bold>\<open>How the state and the operations correspond.\<close> A struct is a record, a pair of a value and an error a
  sum, a possibly nil pointer an option. Objects that several goroutines share (leases, admissions, the
  key ring, Redis) are addresses in a heap, a database, or the state of a step relation. A context may be
  cancelled, a manager may be reloaded and a policy file may change between any two instructions: such
  things are functions of an instant, a natural number; every read in the source happens at an instant of
  its own, later reads at later instants, so a statement about all of them covers every interleaving.
  Operations of the source that block (a mutex held by another goroutine) return \<open>None\<close>. All loops are
  total functions; recursion that is not structural has a measure, and where a test on lengths was added
  for it, a lemma shows that the test never fails. No fuel is used.

  \<^bold>\<open>What the lemmas show.\<close> Each theory proves the properties of its component; the locales state what one
  component promises another (\<open>envelope_codec\<close>, \<open>sealing_executors\<close>, \<open>decision_source\<close>, \<open>token_pool\<close>,
  \<open>key_ring\<close>, \<open>json_escape\<close>, \<open>bearer_verifier\<close>) and are interpreted on the definitions of the providing component. This theory holds the properties that span
  components: sealing, rotating and opening through the whole service, that a rotation keeps the
  plaintext, that it needs a rule for the exact pair of profiles, that a generated password comes back
  only sealed, and that an attested rotation verifies, across reloads of the key ring.

  \<^bold>\<open>Hypotheses on parameters.\<close> Third-party and cryptographic functions appear as fields of records; what is
  assumed of them is stated in predicates such as \<open>crypto_ok\<close>, \<open>casbin_ok\<close>, \<open>proof_lib_ok\<close>,
  \<open>keyring_lib_ok\<close> and \<open>redis_ok\<close>, each satisfied by a concrete instance in a witness. No cryptographic
  strength is assumed anywhere: statements about digests and signatures exhibit the collision or the
  checked signature instead.

  \<^bold>\<open>Not modelled.\<close> The JSON-RPC bodies and the tools of the MCP transport (their checks of headers and of the
  origin are in \<open>HTTP_Security\<close>), which call the operations modelled here through schemas of their own; the generated
  API models; the API reference page and the files of the browser front end; process start-up and the benchmark of
  admission, which are I/O and wiring around the parts above.
\<close>

section \<open>Operations on a loaded deployment\<close>

text \<open>The service of a loaded configuration with the runtime's admission at address \<open>a\<close>.\<close>

definition deployed ::
  "(string \<Rightarrow> rawProfile list option) \<Rightarrow> string \<Rightarrow> env_lookup \<Rightarrow> Config \<Rightarrow> crypto \<Rightarrow> (nat \<Rightarrow> rand_reader) \<Rightarrow> nat \<Rightarrow>
     service_authorizer option \<Rightarrow> Service \<Rightarrow> bool" where
  "deployed decode json lookup cfg cr random a auth s \<longleftrightarrow>
     LoadJSON decode json lookup = Inr cfg \<and> crypto_ok cr \<and>
     (\<forall>t. rand_ok (random t) \<and> random t saltSize \<noteq> None) \<and>
     (\<exists>mgr enabled verifier rt rv.
        s = NewWithOptions (config_profiles cfg) (config_executor cr random cfg) auth (Some a) mgr enabled verifier rt rv)"

lemma deployed_service:
  assumes "deployed decode json lookup cfg cr random a auth s"
  shows "svc_ready s" "svc_admission s = Some a" "svc_authorizer s = auth"
    "svc_byID s i = Some e \<longleftrightarrow>
       (\<exists>p \<in> set (profiles cfg). ID (public p) = i \<and>
          e = \<lparr>ce_profile = \<lparr>pr_ID = i, pr_Label = Label (public p), pr_Capabilities = zero_Capabilities\<rparr>,
               ce_executor = Some (profileExecutor cr random p)\<rparr>)"
  using assms config_service unfolding deployed_def by (auto simp: NewWithOptions_fields)

lemma deployed_profile:
  assumes "deployed decode json lookup cfg cr random a auth s" "p \<in> set (profiles cfg)"
  shows "bound_ok (cr, random, p)" "IsValidProfileID (ID (public p))" "ID (public p) \<noteq> []"
proof -
  have ok: "profile_ok p"
    using assms LoadJSON_config_ok unfolding deployed_def config_ok_def by (auto simp: list_all_iff)
  then show "bound_ok (cr, random, p)" using assms(1) unfolding deployed_def by auto
  show "IsValidProfileID (ID (public p))" using ok by (simp add: profile_ok_def)
  then show "ID (public p) \<noteq> []" using valid_id_length by blast
qed

text \<open>Lookups of configured profiles.\<close>

lemma deployed_lookup:
  assumes "deployed decode json lookup cfg cr random a auth s" "p \<in> set (profiles cfg)"
  shows "\<exists>e. svc_byID s (ID (public p)) = Some e \<and> ce_executor e = Some (profileExecutor cr random p)"
proof -
  let ?e = "\<lparr>ce_profile = \<lparr>pr_ID = ID (public p), pr_Label = Label (public p), pr_Capabilities = zero_Capabilities\<rparr>,
               ce_executor = Some (profileExecutor cr random p)\<rparr>"
  have "svc_byID s (ID (public p)) = Some ?e" using deployed_service(4) [OF assms(1)] assms(2) by blast
  then show ?thesis by auto
qed

abbreviation seal_command :: "string \<Rightarrow> string \<Rightarrow> Command" where
  "seal_command pid v \<equiv> empty_Command\<lparr>cmd_Operation := OperationEncrypt, cmd_ProfileID := pid, cmd_Value := v\<rparr>"

abbreviation open_command :: "string \<Rightarrow> string \<Rightarrow> Command" where
  "open_command pid v \<equiv> empty_Command\<lparr>cmd_Operation := OperationDecrypt, cmd_ProfileID := pid, cmd_Value := v\<rparr>"

abbreviation rotate_command :: "string \<Rightarrow> string \<Rightarrow> string \<Rightarrow> Command" where
  "rotate_command src dst v \<equiv> empty_Command\<lparr>cmd_Operation := OperationRotate, cmd_SourceProfileID := src,
     cmd_DestinationProfileID := dst, cmd_Value := v\<rparr>"

lemma seal_step:
  assumes "deployed decode json lookup cfg cr random a auth s" "p \<in> set (profiles cfg)" "issued h a l x" "calm x"
    "entitled auth actor (seal_command (ID (public p)) v)" "utf8_valid v" "length v \<le> MaxPlaintextBytes"
  shows "\<exists>w ec u. service_Encrypt lib now delivered h (Some s) (Some x) t actor (ID (public p)) v = Some (Inr w, h) \<and>
    pe_Encrypt (profileExecutor cr random p) ec u v = Inr w"
proof -
  let ?c = "seal_command (ID (public p)) v"
  obtain e where e: "svc_byID s (ID (public p)) = Some e" "ce_executor e = Some (profileExecutor cr random p)"
    using deployed_lookup [OF assms(1,2)] by blast
  note d = deployed_service [OF assms(1)] and q = deployed_profile [OF assms(1,2)]
  obtain po ec where po: "calm ec" "po_operation po = OperationEncrypt" "po_value po = v"
      "po_source po = Some (profileExecutor cr random p)"
      "prepareAndRun lib now delivered h (Some s) (Some x) t actor ?c =
        Some (map_sum id rr_VaultText (run_operation lib now po (Some x) ec (t + 23)), h)"
    using prepareAndRun_calm [OF assms(3,4) d(1,2), of actor ?c lib "\<lparr>rc_source = ce_executor e, rc_destination = None\<rparr>" now delivered t]
      assms(5-) e d(3) q
    by (auto simp: empty_Command_def validateCommandShape_def validateCommandValue_def resolveCommand_def)
  obtain w where w: "pe_Encrypt (profileExecutor cr random p) ec (t + 23) v = Inr w"
    using vx.seal_total [OF q(1) calm_live [OF po(1)]] by auto
  have "length w \<le> MaxVaultTextBytes" "utf8_valid w"
    using vx.seal_form [OF q(1), of ec "t + 23" v w] w assms(7) by auto
  then have "run_operation lib now po (Some x) ec (t + 23) = Inr \<lparr>rr_VaultText = w, rr_Attestation = None\<rparr>"
    unfolding run_encrypt_Inr [OF po(2)] using w po assms(4)
    by (simp add: service_MaxVaultTextBytes_def MaxVaultTextBytes_def)
  then show ?thesis using po(5) w by (auto simp: service_Encrypt_def)
qed

lemma open_step:
  assumes "deployed decode json lookup cfg cr random a auth s" "p \<in> set (profiles cfg)" "issued h a l x" "calm x"
    "entitled auth actor (open_command (ID (public p)) w)" "utf8_valid w" "length w \<le> MaxVaultTextBytes"
    "\<And>ec u. live_at ec u \<Longrightarrow> pe_Decrypt (profileExecutor cr random p) ec u w = Inr v"
    "utf8_valid v" "length v \<le> MaxPlaintextBytes"
  shows "service_Decrypt lib now delivered h (Some s) (Some x) t actor (ID (public p)) w = Some (Inr v, h)"
proof -
  let ?c = "open_command (ID (public p)) w"
  obtain e where e: "svc_byID s (ID (public p)) = Some e" "ce_executor e = Some (profileExecutor cr random p)"
    using deployed_lookup [OF assms(1,2)] by blast
  note d = deployed_service [OF assms(1)] and q = deployed_profile [OF assms(1,2)]
  obtain po ec where po: "calm ec" "po_operation po = OperationDecrypt" "po_value po = w"
      "po_source po = Some (profileExecutor cr random p)"
      "prepareAndRun lib now delivered h (Some s) (Some x) t actor ?c =
        Some (map_sum id rr_VaultText (run_operation lib now po (Some x) ec (t + 23)), h)"
    using prepareAndRun_calm [OF assms(3,4) d(1,2), of actor ?c lib "\<lparr>rc_source = ce_executor e, rc_destination = None\<rparr>" now delivered t]
      assms(5-7) e d(3) q
    by (auto simp: empty_Command_def validateCommandShape_def validateCommandValue_def resolveCommand_def
        service_MaxVaultTextBytes_def MaxVaultTextBytes_def)
  have "run_operation lib now po (Some x) ec (t + 23) = Inr \<lparr>rr_VaultText = v, rr_Attestation = None\<rparr>"
    unfolding run_decrypt_Inr [OF po(2)] using assms(8) [of ec "t + 23"] assms(9,10) po assms(4) by simp
  then show ?thesis using po(5) by (auto simp: service_Decrypt_def)
qed

lemma rotate_step:
  assumes "deployed decode json lookup cfg cr random a auth s" "p \<in> set (profiles cfg)" "q \<in> set (profiles cfg)"
    "issued h a l x" "calm x"
    "entitled auth actor (rotate_command (ID (public p)) (ID (public q)) w)" "utf8_valid w" "length w \<le> MaxVaultTextBytes"
    "\<And>ec u. live_at ec u \<Longrightarrow> pe_Decrypt (profileExecutor cr random p) ec u w = Inr v"
    "utf8_valid v" "length v \<le> MaxPlaintextBytes"
  shows "\<exists>w' ec u. service_Rotate lib now delivered h (Some s) (Some x) t actor (ID (public p)) (ID (public q)) w = Some (Inr w', h) \<and>
    pe_Encrypt (profileExecutor cr random q) ec u v = Inr w'"
proof -
  let ?c = "rotate_command (ID (public p)) (ID (public q)) w"
  obtain e1 where e1: "svc_byID s (ID (public p)) = Some e1" "ce_executor e1 = Some (profileExecutor cr random p)"
    using deployed_lookup [OF assms(1,2)] by blast
  obtain e2 where e2: "svc_byID s (ID (public q)) = Some e2" "ce_executor e2 = Some (profileExecutor cr random q)"
    using deployed_lookup [OF assms(1,3)] by blast
  note d = deployed_service [OF assms(1)] and q1 = deployed_profile [OF assms(1,2)] and q2 = deployed_profile [OF assms(1,3)]
  obtain po ec where po: "calm ec" "po_operation po = OperationRotate" "po_value po = w"
      "po_source po = Some (profileExecutor cr random p)" "po_destination po = Some (profileExecutor cr random q)"
      "po_attestation po = None"
      "prepareAndRun lib now delivered h (Some s) (Some x) t actor ?c =
        Some (map_sum id rr_VaultText (run_operation lib now po (Some x) ec (t + 23)), h)"
    using prepareAndRun_calm [OF assms(4,5) d(1,2), of actor ?c lib "\<lparr>rc_source = ce_executor e1, rc_destination = ce_executor e2\<rparr>" now delivered t]
      assms(6-8) e1 e2 d(3) q1 q2
    by (auto simp: empty_Command_def validateCommandShape_def validateCommandValue_def resolveCommand_def
        service_MaxVaultTextBytes_def MaxVaultTextBytes_def validateAttestationRequest_def)
  obtain w' where w': "pe_Encrypt (profileExecutor cr random q) ec (t + 29) v = Inr w'"
    using vx.seal_total [OF q2(1) calm_live [OF po(1)]] by auto
  have "length w' \<le> MaxVaultTextBytes" "utf8_valid w'"
    using vx.seal_form [OF q2(1), of ec "t + 29" v w'] w' assms(11) by auto
  moreover have "pe_Encrypt (profileExecutor cr random q) ec (t + 23 + 6) v = Inr w'" using w' by (simp add: add.assoc)
  ultimately have "run_operation lib now po (Some x) ec (t + 23) = Inr \<lparr>rr_VaultText = w', rr_Attestation = None\<rparr>"
    using po assms(5,9-11)
    by (simp add: run_operation_def validateResult_def Let_def service_MaxVaultTextBytes_def MaxVaultTextBytes_def)
  then show ?thesis using po(7) w' by (auto simp: service_Rotate_def)
qed

abbreviation attested_command :: "string \<Rightarrow> string \<Rightarrow> string \<Rightarrow> Binding option \<Rightarrow> Command" where
  "attested_command src dst v binding \<equiv> (rotate_command src dst v)\<lparr>cmd_Attestation := Some \<lparr>ar_Binding = binding\<rparr>\<rparr>"

text \<open>An attested rotation under a calm context comes down to issuing the attestation.\<close>

lemma attested_rotate_step:
  assumes "deployed decode json lookup cfg cr random a auth s" "p \<in> set (profiles cfg)" "q \<in> set (profiles cfg)"
    "issued h a l x" "calm x"
    "entitled auth actor (attested_command (ID (public p)) (ID (public q)) w binding)" "utf8_valid w" "length w \<le> MaxVaultTextBytes"
    "\<And>ec u. live_at ec u \<Longrightarrow> pe_Decrypt (profileExecutor cr random p) ec u w = Inr v"
    "utf8_valid v" "length v \<le> MaxPlaintextBytes"
    "case binding of None \<Rightarrow> True | Some b \<Rightarrow> validateBinding lib b = None"
    "attestationRequestAvailable (Some s) (t + 1) = None"
  obtains po ec w' u ec' where "calm ec" "po_service po = Some s" "po_value po = w" "po_sourceID po = ID (public p)"
    "po_destinationID po = ID (public q)" "po_attestation po = Some \<lparr>ar_Binding = binding\<rparr>"
    "pe_Encrypt (profileExecutor cr random q) ec' u v = Inr w'"
    "RotateResult lib now delivered h (Some s) (Some x) t actor (ID (public p)) (ID (public q)) w (Some \<lparr>ar_Binding = binding\<rparr>) =
      Some (map_sum id (\<lambda>jws. \<lparr>rr_VaultText = w', rr_Attestation = Some jws\<rparr>)
        (issueAttestation lib now po (Some x) (Some ec) (t + 35) w'), h)"
proof -
  let ?c = "attested_command (ID (public p)) (ID (public q)) w binding"
  obtain e1 where e1: "svc_byID s (ID (public p)) = Some e1" "ce_executor e1 = Some (profileExecutor cr random p)"
    using deployed_lookup [OF assms(1,2)] by blast
  obtain e2 where e2: "svc_byID s (ID (public q)) = Some e2" "ce_executor e2 = Some (profileExecutor cr random q)"
    using deployed_lookup [OF assms(1,3)] by blast
  note d = deployed_service [OF assms(1)] and q1 = deployed_profile [OF assms(1,2)] and q2 = deployed_profile [OF assms(1,3)]
  let ?r = "\<lparr>rc_source = ce_executor e1, rc_destination = ce_executor e2\<rparr>"
  let ?po = "\<lparr>po_service = Some s, po_lease = Some l, po_context = Some x, po_actor = actor,
           po_operation = OperationRotate, po_value = w, po_source = ce_executor e1, po_destination = ce_executor e2,
           po_sourceID = ID (public p), po_destinationID = ID (public q),
           po_attestation = Some \<lparr>ar_Binding = binding\<rparr>, po_started = Some False\<rparr>"
  let ?ec = "mergeCancellationContexts delivered x x"
  have "Prepare lib delivered h (Some s) (Some x) t actor ?c (Some l) = Inr ?po"
    using Prepare_calm [OF assms(4,5) d(1,2) entitled_kind [OF assms(6)], where command = ?c and r = ?r and lib = lib and delivered = delivered and t = t]
      entitled_authorize [OF assms(6) [folded d(3)] calm_merge [OF assms(5,5)]] assms(7,8,12,13) e1 e2 q1 q2
    by (simp add: empty_Command_def validateCommandShape_def validateCommandValue_def resolveCommand_def
        service_MaxVaultTextBytes_def MaxVaultTextBytes_def request_binding_valid)
  moreover have "RunResult lib now delivered h (Some ?po) (Some x) (t + 19) =
      Some (run_operation lib now (?po\<lparr>po_started := Some True\<rparr>) (Some x) ?ec (t + 19 + 4), Some (?po\<lparr>po_started := Some True\<rparr>), h)"
    using assms(4,5) d(2) e1(2) by (intro RunResult_calm) auto
  moreover have "leaseFromContext (Some x) = Some l" using assms(4) by (simp add: issued_def)
  ultimately have rot: "RotateResult lib now delivered h (Some s) (Some x) t actor (ID (public p)) (ID (public q)) w (Some \<lparr>ar_Binding = binding\<rparr>) =
      Some (run_operation lib now (?po\<lparr>po_started := Some True\<rparr>) (Some x) ?ec (t + 23), h)"
    by (simp add: RotateResult_def add.assoc)
  obtain w' where w': "pe_Encrypt (profileExecutor cr random q) ?ec (t + 23 + 6) v = Inr w'"
    using vx.seal_total [OF q2(1) calm_live] calm_merge [OF assms(5,5)] by fastforce
  have "length w' \<le> MaxVaultTextBytes" "utf8_valid w'"
    using vx.seal_form [OF q2(1), of ?ec "t + 23 + 6" v w'] w' assms(11) by auto
  then have "run_operation lib now (?po\<lparr>po_started := Some True\<rparr>) (Some x) ?ec (t + 23) =
      map_sum id (\<lambda>jws. \<lparr>rr_VaultText = w', rr_Attestation = Some jws\<rparr>)
        (issueAttestation lib now (?po\<lparr>po_started := Some True\<rparr>) (Some x) (Some ?ec) (t + 35) w')"
    using w' e1 e2 assms(5,9-11)
    by (simp add: run_operation_def validateResult_def Let_def service_MaxVaultTextBytes_def MaxVaultTextBytes_def add.assoc split: sum.split)
  then show thesis using rot w' assms(5) by (intro that [of ?ec "?po\<lparr>po_started := Some True\<rparr>"]) auto
qed

lemma empty_not_canonical: "CanonicalEnvelope [] \<noteq> Inr c"
  by (simp add: CanonicalEnvelope_def parseEnvelope_def)

section \<open>Properties across components\<close>

text \<open>C3. Sealing, rotating and opening through the service: in a deployment loaded from its
  configuration, with a lease of the service's admission and a context that is not cancelled, a
  caller entitled to the operations can seal any valid value, open the result to the same value,
  rotate it to any configured profile, and open the rotated text with that profile to the value
  that was sealed; every call returns, with the leases as they were.\<close>

theorem service_seal_rotate_open:
  assumes "deployed decode json lookup cfg cr random a auth s" "issued h a l x" "calm x"
    "p \<in> set (profiles cfg)" "q \<in> set (profiles cfg)" "utf8_valid v" "length v \<le> MaxPlaintextBytes"
    "\<And>w. entitled auth actor (seal_command (ID (public p)) w)"
    "\<And>w. entitled auth actor (open_command (ID (public p)) w)"
    "\<And>w. entitled auth actor (open_command (ID (public q)) w)"
    "\<And>w. entitled auth actor (rotate_command (ID (public p)) (ID (public q)) w)"
  shows "\<exists>w w'.
    service_Encrypt lib now delivered h (Some s) (Some x) t1 actor (ID (public p)) v = Some (Inr w, h) \<and>
    service_Decrypt lib now delivered h (Some s) (Some x) t2 actor (ID (public p)) w = Some (Inr v, h) \<and>
    service_Rotate lib now delivered h (Some s) (Some x) t3 actor (ID (public p)) (ID (public q)) w = Some (Inr w', h) \<and>
    service_Decrypt lib now delivered h (Some s) (Some x) t4 actor (ID (public q)) w' = Some (Inr v, h)"
proof -
  note ok = deployed_profile(1) [OF assms(1,4)] deployed_profile(1) [OF assms(1,5)]
  have sealed: "utf8_valid y \<and> length y \<le> MaxVaultTextBytes \<and>
      (\<forall>ec' u'. live_at ec' u' \<longrightarrow> pe_Decrypt (profileExecutor cr random z) ec' u' y = Inr v)"
    if "bound_ok (cr, random, z)" "pe_Encrypt (profileExecutor cr random z) ec u v = Inr y" for y z ec u
    using vx.seal_form [OF that(1), of ec u v y] vx.open_seal [OF that(1), of ec u v y] that(2) assms(7) by simp
  obtain w ec u where w: "service_Encrypt lib now delivered h (Some s) (Some x) t1 actor (ID (public p)) v = Some (Inr w, h)"
      "pe_Encrypt (profileExecutor cr random p) ec u v = Inr w"
    using seal_step [OF assms(1,4,2,3,8,6,7)] by blast
  note sw = sealed [OF ok(1) w(2)]
  have o1: "service_Decrypt lib now delivered h (Some s) (Some x) t2 actor (ID (public p)) w = Some (Inr v, h)"
    using sw by (intro open_step [OF assms(1,4,2,3,9) _ _ _ assms(6,7)]) auto
  obtain w' ec' u' where w': "service_Rotate lib now delivered h (Some s) (Some x) t3 actor (ID (public p)) (ID (public q)) w = Some (Inr w', h)"
      "pe_Encrypt (profileExecutor cr random q) ec' u' v = Inr w'"
    using rotate_step [OF assms(1,4,5,2,3,11) _ _ _ assms(6,7), where w = w] sw by blast
  have o2: "service_Decrypt lib now delivered h (Some s) (Some x) t4 actor (ID (public q)) w' = Some (Inr v, h)"
    using sealed [OF ok(2) w'(2)] by (intro open_step [OF assms(1,5,2,3,10) _ _ _ assms(6,7)]) auto
  show ?thesis using w(1) o1 w'(1) o2 by blast
qed

lemma prepareAndRun_Inr:
  assumes "prepareAndRun lib now delivered h sp c t actor command = Some (Inr w, h')"
  shows "\<exists>p pp r. Prepare lib delivered h sp c t actor command (leaseFromContext c) = Inr p \<and>
    RunResult lib now delivered h (Some p) c (t + 19) = Some (Inr r, pp, h') \<and> rr_VaultText r = w"
  using assms
  by (auto simp: prepareAndRun_def Run_def RunResult_def split: sum.splits option.splits if_splits)

lemma demo_deployed:
  "deployed (\<lambda>_. Some demo_raws) ''[]'' demo_lookup demo_cfg demo_crypto (\<lambda>_. demo_random) 0 None demo_service"
proof -
  have "rand_ok demo_random \<and> demo_random saltSize \<noteq> None" by (simp add: demo_random_def rand_ok_def)
  then show ?thesis using demo_cfg_load demo_crypto_ok unfolding deployed_def demo_service_def by blast
qed

lemma anonymous_entitled [simp]: "entitled auth Anonymous command"
  by (simp add: entitled_def Anonymous_def)

theorem service_seal_rotate_open_witness:
  "\<exists>w. service_Rotate demo_lib [] (\<lambda>_. False) demo_leased (Some demo_service) (Some demo_ctx) 40 Anonymous ''dev'' ''prod''
       w \<noteq> None \<and>
     service_Decrypt demo_lib [] (\<lambda>_. False) demo_leased (Some demo_service) (Some demo_ctx) 90 Anonymous ''dev'' w =
       Some (Inr ''x'', demo_leased)"
proof -
  have p: "hd demo_profiles \<in> set (profiles demo_cfg)" "last demo_profiles \<in> set (profiles demo_cfg)"
    "ID (public (hd demo_profiles)) = ''dev''" "ID (public (last demo_profiles)) = ''prod''"
    by (simp_all add: demo_cfg_def demo_profiles_def)
  have "utf8_valid ''x''" "length ''x'' \<le> MaxPlaintextBytes" by (simp_all add: utf8_valid_ascii MaxPlaintextBytes_def)
  from service_seal_rotate_open [OF demo_deployed demo_issued demo_calm p(1,2) this anonymous_entitled anonymous_entitled
      anonymous_entitled anonymous_entitled, where ?t2.0 = 90 and ?t3.0 = 40, unfolded p(3,4)]
  show ?thesis by blast
qed

text \<open>C10. Rotation preserves the plaintext: whenever the run of a prepared rotation returns a text,
  whatever the contexts did, the source profile opens the command's value and the destination
  profile opens the returned text to one and the same plaintext; the returned text is canonical,
  within the limit, and carries the destination's identifier.\<close>

theorem rotation_preserves_plaintext:
  assumes "deployed decode json lookup cfg cr random a auth s"
    "Prepare lib delivered h (Some s) c t actor command lease = Inr p" "cmd_Operation command = OperationRotate"
    "RunResult lib now delivered' h1 (Some p) c' t' = Some (Inr r, pp, h2)"
  shows "\<exists>src \<in> set (profiles cfg). \<exists>dst \<in> set (profiles cfg). \<exists>plaintext.
    ID (public src) = cmd_SourceProfileID command \<and> ID (public dst) = cmd_DestinationProfileID command \<and>
    (\<forall>ctx u. live_at ctx u \<longrightarrow>
       exec_Decrypt cr src ctx u (cmd_Value command) = Inr plaintext \<and>
       exec_Decrypt cr dst ctx u (rr_VaultText r) = Inr plaintext) \<and>
    utf8_valid plaintext \<and> length plaintext \<le> MaxPlaintextBytes \<and>
    CanonicalEnvelope (rr_VaultText r) = Inr (rr_VaultText r) \<and> length (rr_VaultText r) \<le> MaxVaultTextBytes \<and>
    strings_HasPrefix (rr_VaultText r) (Header12Prefix @ '';'' @ cmd_DestinationProfileID command @ [LF])"
proof -
  obtain ec rc where p: "prepared_for lib delivered h s c t actor command lease ec rc p"
    using Prepare_Inr [OF assms(2)] by blast
  then have "resolveCommand s actor command = Inr rc" "po_source p = rc_source rc" "po_destination p = rc_destination rc"
    "po_value p = cmd_Value command" "po_operation p = OperationRotate"
    using assms(3) by (auto simp: prepared_for_def)
  then obtain src dst where sd: "src \<in> set (profiles cfg)" "dst \<in> set (profiles cfg)"
      "ID (public src) = cmd_SourceProfileID command" "ID (public dst) = cmd_DestinationProfileID command"
      "po_source p = Some (profileExecutor cr random src)" "po_destination p = Some (profileExecutor cr random dst)"
    unfolding resolveCommand_Inr using assms(3) by (auto simp: deployed_service(4) [OF assms(1)])
  obtain ec' where "run_operation lib now (p\<lparr>po_started := Some True\<rparr>) c' ec' (t' + 4) = Inr r"
    using runResult_Inr [of lib now delivered' h1 "Some p" c' t' r pp h2] assms(4) unfolding RunResult_def by auto
  from run_rotate_Inr [OF _ this] \<open>po_operation p = OperationRotate\<close> sd(5,6) \<open>po_value p = cmd_Value command\<close>
  obtain plaintext where run: "pe_Decrypt (profileExecutor cr random src) ec' (t' + 4) (cmd_Value command) = Inr plaintext"
      "pe_Encrypt (profileExecutor cr random dst) ec' (t' + 4 + 6) plaintext = Inr (rr_VaultText r)"
      "utf8_valid plaintext" "length plaintext \<le> MaxPlaintextBytes" by auto
  note ok = deployed_profile(1) [OF assms(1) sd(2)]
  have "exec_Decrypt cr src ctx u (cmd_Value command) = Inr plaintext \<and> exec_Decrypt cr dst ctx u (rr_VaultText r) = Inr plaintext"
    if "live_at ctx u" for ctx u
    using vx.rekeyed_opens [OF ok, of "(cr, random, src)" ec' "t' + 4" "cmd_Value command" plaintext ec' "t' + 4 + 6" "rr_VaultText r" ctx u]
      vx.rekey_chain [OF ok, of "(cr, random, src)" ec' "t' + 4" "cmd_Value command" plaintext ec' "t' + 4 + 6" "rr_VaultText r" ctx u]
      run(1,2) that by (simp add: profileExecutor_def)
  then show ?thesis
    using sd(1-4) run(3,4) vx.seal_form [OF ok, of ec' "t' + 4 + 6" plaintext "rr_VaultText r"] run(2) by auto
qed

theorem rotation_preserves_plaintext_witness:
  "\<exists>w w' plaintext. service_Rotate demo_lib [] (\<lambda>_. False) demo_leased (Some demo_service) (Some demo_ctx) 0 Anonymous
       ''dev'' ''prod'' w = Some (Inr w', demo_leased) \<and>
     exec_Decrypt demo_crypto (last demo_profiles) background 0 w' = Inr plaintext"
proof -
  have p: "hd demo_profiles \<in> set (profiles demo_cfg)" "last demo_profiles \<in> set (profiles demo_cfg)"
    "ID (public (hd demo_profiles)) = ''dev''" "ID (public (last demo_profiles)) = ''prod''"
    by (simp_all add: demo_cfg_def demo_profiles_def)
  note ok = deployed_profile(1) [OF demo_deployed p(1)]
  obtain w where w: "pe_Encrypt (profileExecutor demo_crypto (\<lambda>_. demo_random) (hd demo_profiles)) background 0 ''x'' = Inr w"
    using vx.seal_total [OF ok, of background 0 "''x''"] by auto
  have x: "utf8_valid ''x''" "length ''x'' \<le> MaxPlaintextBytes" by (simp_all add: utf8_valid_ascii MaxPlaintextBytes_def)
  have f: "length w \<le> MaxVaultTextBytes" "utf8_valid w"
    using vx.seal_form [OF ok, of background 0 "''x''" w] w x(2) by auto
  have o: "live_at ec u \<Longrightarrow> pe_Decrypt (profileExecutor demo_crypto (\<lambda>_. demo_random) (hd demo_profiles)) ec u w = Inr ''x''" for ec u
    using vx.open_seal [OF ok, of background 0 "''x''" w ec u] w by simp
  obtain w' where rot: "service_Rotate demo_lib [] (\<lambda>_. False) demo_leased (Some demo_service) (Some demo_ctx) 0 Anonymous
      ''dev'' ''prod'' w = Some (Inr w', demo_leased)"
    using rotate_step [OF demo_deployed p(1,2) demo_issued demo_calm anonymous_entitled f(2,1) o x, unfolded p(3,4)] by blast
  then obtain po pp r where po: "Prepare demo_lib (\<lambda>_. False) demo_leased (Some demo_service) (Some demo_ctx) 0 Anonymous
        (rotate_command ''dev'' ''prod'' w) (leaseFromContext (Some demo_ctx)) = Inr po"
      "RunResult demo_lib [] (\<lambda>_. False) demo_leased (Some po) (Some demo_ctx) (0 + 19) = Some (Inr r, pp, demo_leased)"
      "rr_VaultText r = w'"
    unfolding service_Rotate_def using prepareAndRun_Inr by blast
  have "dst = last demo_profiles" if "dst \<in> set (profiles demo_cfg)" "ID (public dst) = ''prod''" for dst
    using that by (auto simp: demo_cfg_def demo_profiles_def)
  with rotation_preserves_plaintext [OF demo_deployed po(1) _ po(2)] po(3)
  obtain plaintext where "exec_Decrypt demo_crypto (last demo_profiles) background 0 w' = Inr plaintext"
    using calm_live [OF calm_background, of 0] by (auto simp: empty_Command_def)
  then show ?thesis using rot by blast
qed

text \<open>Delegated re-keying through the service: when the authoriser evaluates policy files, an
  authenticated caller's rotation is prepared only if a policy that loaded has an allow rule, and
  no deny rule, with action \<open>rotate\<close> for exactly the ordered pair of profiles of the command and
  a role of the caller; both profiles are known to that policy.\<close>

lemma prepared_rotation_has_pair_rule:
  assumes "casbin_ok cb" "\<And>u. loaded_authorizer cb csv (auth u)"
    "svc_authorizer s = Some (\<lambda>u. evaluator cb csv (fs u) (auth u))"
    "Prepare lib delivered h (Some s) c t actor command lease = Inr p" "cmd_Operation command = OperationRotate"
    "kind actor \<noteq> KindAnonymous"
  shows "\<exists>q. (\<exists>fs' pth pids. LoadPolicy cb csv fs' pth pids = Inr q) \<and>
    (\<exists>r\<in>set (rules q). Action r = ActionRotate \<and> Effect r = ''allow'' \<and>
       Object r = RotationResource (cmd_SourceProfileID command) (cmd_DestinationProfileID command) \<and>
       Subject r \<in> rolesForGroups q (groups actor)) \<and>
    \<not> (\<exists>r\<in>set (rules q). Action r = ActionRotate \<and> Effect r = ''deny'' \<and>
       Object r = RotationResource (cmd_SourceProfileID command) (cmd_DestinationProfileID command) \<and>
       Subject r \<in> rolesForGroups q (groups actor)) \<and>
    cmd_SourceProfileID command \<in> set (profileIDs q) \<and> cmd_DestinationProfileID command \<in> set (profileIDs q)"
proof -
  let ?src = "cmd_SourceProfileID command" and ?dst = "cmd_DestinationProfileID command"
  obtain ec rc where "prepared_for lib delivered h s c t actor command lease ec rc p"
    using Prepare_Inr [OF assms(4)] by blast
  then have a: "authorize s (Some (mergeCancellationContexts delivered ec (the c))) (t + 8) actor command = None"
    and sh: "validateCommandShape lib command = None" by (auto simp: prepared_for_def)
  have ids: "IsValidProfileID ?src" "IsValidProfileID ?dst"
    using sh assms(5) by (auto simp: validateCommandShape_def split: if_splits)
  obtain allowed where "evaluator cb csv (fs (t + 8 + 1)) (auth (t + 8 + 1)) actor (operationChecks command) = Inr allowed"
      "list_all id allowed"
    using a assms(3,6) unfolding authorize_None by auto
  note ev = this
  obtain q where q: "policy_valid q" "\<exists>fs' pth pids. LoadPolicy cb csv fs' pth pids = Inr q"
      "allowed = map (\<lambda>chk. policy_allows q actor (chk_Action chk) (chk_Resource chk)) (operationChecks command)"
    using loaded_evaluator [OF assms(1,2) ev(1)] by blast
  have al: "policy_allows q actor ActionRotate (RotationResource ?src ?dst)"
    using q(3) ev(2) assms(5) by (simp add: operationChecks_def)
  note r = rotation_allowed_exact [OF q(1) ids, of actor]
  show ?thesis using q(2) al [unfolded r(1)] r(2) [OF al] by blast
qed

lemma demo_rotation_granted:
  "evaluator demo_casbin demo_csv demo_fs (Some \<lparr>policy = Some demo_policy\<rparr>) demo_actor
     (operationChecks (rotate_command ''dev'' ''prod'' w)) = Inr [True]"
  by (simp add: operationChecks_def empty_Command_def) code_simp

lemma demo_rotation_prepared:
  "\<exists>p. Prepare demo_lib (\<lambda>_. False) demo_leased (Some demo_authorized) (Some demo_ctx) 0 demo_actor
     (rotate_command ''dev'' ''prod'' ''x'') (Some 0) = Inr p"
proof -
  have p: "hd demo_profiles \<in> set (profiles demo_cfg)" "last demo_profiles \<in> set (profiles demo_cfg)"
    "ID (public (hd demo_profiles)) = ''dev''" "ID (public (last demo_profiles)) = ''prod''"
    by (simp_all add: demo_cfg_def demo_profiles_def)
  obtain e1 e2 where "svc_byID demo_service ''dev'' = Some e1" "ce_executor e1 \<noteq> None"
      "svc_byID demo_service ''prod'' = Some e2" "ce_executor e2 \<noteq> None"
    using deployed_lookup [OF demo_deployed p(1)] deployed_lookup [OF demo_deployed p(2)] p(3,4) by auto
  then have "\<exists>r. resolveCommand demo_authorized demo_actor (rotate_command ''dev'' ''prod'' ''x'') = Inr r"
    by (simp add: resolveCommand_def demo_authorized_def)
  moreover have "svc_ready demo_authorized" "svc_admission demo_authorized = Some 0"
    using deployed_service(1,2) [OF demo_deployed] by (simp_all add: demo_authorized_def)
  moreover have "validateCommandShape demo_lib (rotate_command ''dev'' ''prod'' ''x'') = None"
    by (simp add: validateCommandShape_def empty_Command_def demo_ids validateAttestationRequest_def)
  moreover have "validateCommandValue (rotate_command ''dev'' ''prod'' ''x'') = None"
    by (simp add: validateCommandValue_def empty_Command_def utf8_valid_ascii service_MaxVaultTextBytes_def)
  moreover have "entitled (svc_authorizer demo_authorized) demo_actor (rotate_command ''dev'' ''prod'' ''x'')"
    using demo_rotation_granted [of "''x''"]
    by (simp add: entitled_def demo_actor_def RequiredScope_def empty_Command_def demo_authorized_def operationChecks_def)
  moreover have "cmd_Attestation (rotate_command ''dev'' ''prod'' ''x'') = None" by (simp add: empty_Command_def)
  ultimately show ?thesis
    using Prepare_calm [OF demo_issued demo_calm] entitled_authorize entitled_kind calm_merge [OF demo_calm demo_calm] by metis
qed

text \<open>C19. Generated passwords are sealed: when generation of a password through a deployed service
  returns, the result names the requested profile, the profile opens the returned Vault text, under
  any live context, to a password that the effective parameters accept, taken from at least
  \<open>2 ^ 128\<close> accepted ones, and the text is canonical and carries the profile's identifier.\<close>

theorem generated_password_sealed:
  assumes "deployed decode json lookup cfg cr random a auth s"
    "Generate_op delivered h (Some s) (Some (production_generator ssh age x509)) c t actor command g = Some (Inr result, g', h')"
    "gc_Kind command = GenerateKindPassword"
  shows "\<exists>p \<in> set (profiles cfg). \<exists>pw e cs vaultText. ID (public p) = gc_ProfileID command \<and>
    result = GeneratedPasswordResult (ID (public p)) e \<lparr>gs_Format = PasswordFormat, gs_VaultText = vaultText\<rparr> \<and>
    resolvePasswordParameters (the (gc_Password command)) = Inr (e, cs) \<and>
    accepted (nat (ep_Length e)) cs pw \<and> 2 ^ 128 \<le> card {w. accepted (nat (ep_Length e)) cs w} \<and>
    (\<forall>ctx u. live_at ctx u \<longrightarrow> exec_Decrypt cr p ctx u vaultText = Inr pw) \<and>
    CanonicalEnvelope vaultText = Inr vaultText \<and>
    strings_HasPrefix vaultText (Header12Prefix @ '';'' @ ID (public p) @ [LF])"
proof -
  let ?gen = "production_generator ssh age x509"
  obtain ec where held: "generate_held s ?gen c (mergeCancellationContexts delivered ec (the c)) (leaseFromContext c) (t + 4) actor command g
      = (Inr result, g')"
    using Generate_op_returns [OF assms(2), of result] by blast
  define oc where "oc = mergeCancellationContexts delivered ec (the c)"
  obtain entry exec material where e: "svc_byID s (gc_ProfileID command) = Some entry" "ce_executor entry = Some exec"
      "generateMaterial ?gen command g = (Inr material, g')"
      "seal_material c oc (leaseFromContext c) (t + 4 + 11) command exec material = Inr result"
    using generate_held_past_checks [OF held, of result] unfolding oc_def by auto
  obtain p where p: "p \<in> set (profiles cfg)" "ID (public p) = gc_ProfileID command" "exec = profileExecutor cr random p"
    using e(1,2) deployed_service(4) [OF assms(1)] by auto
  obtain vt where vt: "pe_Encrypt exec oc (t + 4 + 11) (gm_private material) = Inr vt" "result = gm_result material vt"
      "validGeneratedVaultText vt (gc_ProfileID command)"
    using seal_material_Inr [OF e(4)] by blast
  obtain res where res: "GeneratePassword g (the (gc_Password command)) = (Inr res, g')" "gm_private material = pw_private res"
      "gm_result material vt = GeneratedPasswordResult (gc_ProfileID command) (pw_parameters res) \<lparr>gs_Format = PasswordFormat, gs_VaultText = vt\<rparr>"
    using e(3) assms(3) by (auto simp: generateMaterial_def production_generator_def Let_def split: prod.splits sum.splits)
  obtain r where r: "g = Some r" using res(1) by (cases g) (auto simp: GeneratePassword_def split: sum.splits)
  obtain cs where cs: "resolvePasswordParameters (the (gc_Password command)) = Inr (pw_parameters res, cs)"
      "accepted (nat (ep_Length (pw_parameters res))) cs (pw_private res)"
      "2 ^ 128 \<le> card {w. accepted (nat (ep_Length (pw_parameters res))) cs w}"
    using GeneratePassword_Inr [OF res(1) [unfolded r]] by blast
  have "exec_Decrypt cr p ctx u vt = Inr (pw_private res)" if "live_at ctx u" for ctx u
    using vx.open_seal [OF deployed_profile(1) [OF assms(1) p(1)], of oc "t + 4 + 11" "pw_private res" vt ctx u] vt(1) res(2) p(3) that
    by (simp add: profileExecutor_def)
  then show ?thesis using p(1,2) vt(2,3) res(3) cs unfolding validGeneratedVaultText_def by metis
qed

theorem generated_password_sealed_witness:
  "\<exists>r vaultText pw. exec_Decrypt demo_crypto (hd demo_profiles) background 0 vaultText = Inr pw \<and>
     fst (the (Generate_op (\<lambda>_. False) demo_leased (Some demo_service) (Some (production_generator (\<lambda>_ g. (Inl ErrGenerationFailed, g))
       (\<lambda>g. (Inl ErrGenerationFailed, g)) (\<lambda>_ g. (Inl ErrGenerationFailed, g)))) (Some demo_ctx) 0
       Anonymous demo_generate (Some r))) =
     Inr (GeneratedPasswordResult ''dev'' (effective_password default_PasswordParameters)
       \<lparr>gs_Format = PasswordFormat, gs_VaultText = vaultText\<rparr>)"
proof -
  obtain r result r' where g: "Generate_op (\<lambda>_. False) demo_leased (Some demo_service) (Some (production_generator (\<lambda>_ g. (Inl ErrGenerationFailed, g))
       (\<lambda>g. (Inl ErrGenerationFailed, g)) (\<lambda>_ g. (Inl ErrGenerationFailed, g)))) (Some demo_ctx) 0
     Anonymous demo_generate (Some r) = Some (Inr result, r', demo_leased)" using demo_generate_runs by blast
  have k: "gc_Kind demo_generate = GenerateKindPassword" "gc_ProfileID demo_generate = ''dev''"
    "gc_Password demo_generate = Some default_PasswordParameters" by (simp_all add: demo_generate_def)
  have u: "p = hd demo_profiles" if "p \<in> set (profiles demo_cfg)" "ID (public p) = ''dev''" for p
    using that by (auto simp: demo_cfg_def demo_profiles_def)
  from generated_password_sealed [OF demo_deployed g k(1)] obtain p pw e cs vt
    where p: "p \<in> set (profiles demo_cfg)" "ID (public p) = ''dev''"
      "result = GeneratedPasswordResult ''dev'' e \<lparr>gs_Format = PasswordFormat, gs_VaultText = vt\<rparr>"
      "resolvePasswordParameters default_PasswordParameters = Inr (e, cs)"
      "\<forall>ctx u. live_at ctx u \<longrightarrow> exec_Decrypt demo_crypto p ctx u vt = Inr pw"
    unfolding k(2,3) option.sel by metis
  have "e = effective_password default_PasswordParameters" using p(4) default_resolves(1) by simp
  moreover have "exec_Decrypt demo_crypto (hd demo_profiles) background 0 vt = Inr pw"
    using p(5) calm_live [OF calm_background, of 0] u [OF p(1,2)] by blast
  ultimately show ?thesis using g p(3) by (metis fst_conv option.sel)
qed

text \<open>C6. An attested rotation verifies: in a deployment with proofs enabled over a key ring manager that
  is open, whatever reloads it takes meanwhile, a caller entitled to rotate a text the source
  profile opens gets the rotated text, which the destination profile opens to the same plaintext,
  and an attestation; verified against the two texts at any later instant, as long as the key ring
  still has the signing key, retired or not, it yields exactly the claims of this rotation,
  and the failure \<open>KeyRevoked\<close> if and only if that key has been revoked.\<close>

theorem attested_rotation_verifies:
  assumes d: "deployed decode json lookup cfg cr random a auth s" and att: "attesting lib history va s"
    and p: "p \<in> set (profiles cfg)" "q \<in> set (profiles cfg)" and x: "issued h a l x" "calm x"
    and ent: "entitled auth actor (attested_command (ID (public p)) (ID (public q)) w binding)"
    and w: "utf8_valid w" "length w \<le> MaxVaultTextBytes" "CanonicalEnvelope w = Inr canonical"
      "\<And>ec u. live_at ec u \<Longrightarrow> pe_Decrypt (profileExecutor cr random p) ec u w = Inr v"
    and v: "utf8_valid v" "length v \<le> MaxPlaintextBytes" and now: "validTimestamp now"
    and b: "case binding of None \<Rightarrow> True | Some b \<Rightarrow> validateBinding (kl_proof lib) b = None"
    and e: "case expected of None \<Rightarrow> True | Some b \<Rightarrow> validateBinding (kl_proof lib) b = None \<and> bindingMatches binding b"
    and o: "\<not> mg_closed (history (t' + 9))" "t + 41 \<le> t' + 7"
    and k: "mg_current (history (t + 41)) = Some s1" "sn_keys s1 (sn_active s1) = Some e1"
      "mg_current (history (t' + 7)) = Some s2" "sn_keys s2 (sn_active s1) = Some e2" "ke_publicKey e2 = ke_publicKey e1"
    and y: "tokens (admissions h' va) < tokens_cap (admissions h' va)" "calm y" "leaseFromContext (Some y) = None"
  shows "\<exists>w' jws h2.
    RotateResult (kl_proof lib) now delivered h (Some s) (Some x) t actor (ID (public p)) (ID (public q)) w
      (Some \<lparr>ar_Binding = binding\<rparr>) = Some (Inr \<lparr>rr_VaultText = w', rr_Attestation = Some jws\<rparr>, h) \<and>
    (\<forall>ctx u. live_at ctx u \<longrightarrow> pe_Decrypt (profileExecutor cr random q) ctx u w' = Inr v) \<and>
    VerifyAttestation (kl_proof lib) h' (Some s) (Some y) t' jws w w' expected =
      Some ((rotation_claims (kl_proof lib) (mg_issuer (history 0)) now (ID (public p)) (ID (public q)) binding w w',
             if ke_state e2 = StateRevoked then Some (AttestationFailure (VerificationError KeyRevoked)) else None), h2) \<and>
    tokens (admissions h2 va) = tokens (admissions h' va)"
proof -
  let ?m = "keyring_manager lib history" and ?L = "kl_proof lib" and ?iss = "mg_issuer (history 0)"
  have A: "svc_attestationEnabled s" "svc_attestation s = Some ?m" "svc_verifierAdmission s = Some va"
      "proof_lib_ok ?L" "validIssuer ?L ?iss" "manager_history lib history"
    using att by (auto simp: attesting_def keyring_lib_ok_def issuer_ok_def)
  note ready = attesting_manager [OF att o(1)] and q2 = deployed_profile [OF d p(2)] and q1 = deployed_profile [OF d p(1)]
  have avail: "attestationRequestAvailable (Some s) (t + 1) = None" using ready(4) [of "t + 1"] o(2) by (simp add: attestationRequestAvailable_def)
  obtain po ec w' u ec' where po: "calm ec" "po_service po = Some s" "po_value po = w" "po_sourceID po = ID (public p)"
    "po_destinationID po = ID (public q)" "po_attestation po = Some \<lparr>ar_Binding = binding\<rparr>"
    "pe_Encrypt (profileExecutor cr random q) ec' u v = Inr w'"
    "RotateResult ?L now delivered h (Some s) (Some x) t actor (ID (public p)) (ID (public q)) w (Some \<lparr>ar_Binding = binding\<rparr>) =
      Some (map_sum id (\<lambda>jws. \<lparr>rr_VaultText = w', rr_Attestation = Some jws\<rparr>)
        (issueAttestation ?L now po (Some x) (Some ec) (t + 35) w'), h)"
    by (rule attested_rotate_step [OF d p x ent w(1,2,4) v b avail])
  have w': "length w' \<le> MaxVaultTextBytes" "utf8_valid w'" "CanonicalEnvelope w' = Inr w'"
    using vx.seal_form [OF q2(1), of ec' u v w'] po(7) v(2) by auto
  let ?c = "rotation_claims ?L ?iss now (ID (public p)) (ID (public q)) binding w w'"
  have c: "Issuer ?c = ?iss" "validateSigningClaims ?L ?c = None" "Version ?c = SupportedVersion"
      "InputDigest ?L w = Some (Value (Input ?c))" "OutputDigest ?L w' = Some (Value (Output ?c))" "claims_Binding ?c = binding"
    using rotation_claims_valid [OF A(4,5) now q1(2) q2(2) w(3) w'(3) b] w(3) w'(3)
    by (simp_all add: rotation_claims_def InputDigest_def OutputDigest_def)
  have "case expected of None \<Rightarrow> True | Some b \<Rightarrow> validateBinding ?L b = None" using e by (auto split: option.splits)
  from keyring_sign_checked [OF att history_open_before [OF A(6) o(1)] o(2) c(1,2) k this, of w w']
  obtain jws where s: "mgr_Sign ?m (t + 41) ?c = Some jws" "decodeEncodedComponents jws \<noteq> None"
    "signature_checked ?L jws \<lparr>ExpectedIssuer = ?iss, Resolver = Some (mgr_Resolve ?m (t' + 7)),
       ExpectedInputDigest = [], ExpectedOutputDigest = [], InputVaultText = w, OutputVaultText = w',
       ExpectedBinding = expected\<rparr> ?c \<lparr>PublicKey = ke_publicKey e2, Revoked = (ke_state e2 = StateRevoked)\<rparr>" by auto
  obtain wire where "Marshal ?L jws = Some wire" "Parse wire = Inr jws" using Marshal_Parse [OF A(4) s(2)] by blast
  then have "issueAttestation ?L now po (Some x) (Some ec) (t + 35) w' = Inr jws"
    using s(1) po(3-6) ready(1) [of "37 + t"] ready(3) [of 0] o(2) c(4,5)
    by (intro issueAttestation_calm [OF x(2) po(1,2) A(1,2) _ ready(2) [of 0]]) (simp_all add: add.assoc)
  moreover have "w \<noteq> []" "w' \<noteq> []" using w(3) w'(3) empty_not_canonical by metis+
  note V = checked_verifies [OF s(3) c(3,4,5) this]
  have "\<exists>h2. VerifyAttestation ?L h' (Some s) (Some y) t' jws w w' expected =
      Some ((?c, map_option (\<lambda>r. AttestationFailure (VerificationError r)) (if ke_state e2 = StateRevoked then Some KeyRevoked else None)), h2) \<and>
      tokens (admissions h2 va) = tokens (admissions h' va)"
    using V e c(6) w w' ready(1) [of t'] ready(1) [of "t' + 5"] ready(1) [of "t' + 9"] \<open>w \<noteq> []\<close> \<open>w' \<noteq> []\<close>
    by (intro VerifyAttestation_calm [OF A(1,2,3) y _ _ _ _ _ ready(2) [of 0] ready(3) [of 0]])
      (auto simp: bad_envelope_def service_MaxVaultTextBytes_def MaxVaultTextBytes_def split: option.splits)
  ultimately show ?thesis using po(8) vx.open_seal [OF q2(1), of ec' u v w'] po(7) by (auto split: if_splits)
qed

definition demo_attesting_service :: Service where
  "demo_attesting_service = NewWithOptions (config_profiles demo_cfg) (config_executor demo_crypto (\<lambda>_. demo_random) demo_cfg)
     None (Some 0) (Some (keyring_manager demo_keyring_lib (\<lambda>_. demo_manager))) True (Some 1) 1 2"

lemma demo_attesting: "attesting demo_keyring_lib (\<lambda>_. demo_manager) 1 demo_attesting_service"
proof -
  have "manager_history demo_keyring_lib (\<lambda>_. demo_manager)"
    unfolding manager_history_def using demo_newManager
    by (intro exI [of _ "\<lambda>_. Some (''{}'', True)"] exI [of _ "''keys.json''"] exI [of _ "''https://vault.example''"]
        exI [of _ "\<lambda>_. RIdle"]) simp
  moreover have "issuer_ok demo_keyring_lib (mg_issuer demo_manager)"
    using demo_canonical demo_issuer by (simp add: issuer_ok_def demo_manager_def demo_keyring_lib_def)
  ultimately show ?thesis
    using demo_keyring_lib_ok by (simp add: attesting_def demo_attesting_service_def NewWithOptions_fields)
qed

lemma demo_attesting_deployed:
  "deployed (\<lambda>_. Some demo_raws) ''[]'' demo_lookup demo_cfg demo_crypto (\<lambda>_. demo_random) 0 None demo_attesting_service"
proof -
  have "rand_ok demo_random \<and> demo_random saltSize \<noteq> None" by (simp add: demo_random_def rand_ok_def)
  then show ?thesis using demo_cfg_load demo_crypto_ok unfolding deployed_def demo_attesting_service_def by blast
qed

theorem attested_rotation_verifies_witness:
  "\<exists>w w' jws claims h2.
    RotateResult demo_lib ''2024-01-02T03:04:05.25Z'' (\<lambda>_. False) demo_leased (Some demo_attesting_service) (Some demo_ctx) 0
      Anonymous ''dev'' ''prod'' w (Some \<lparr>ar_Binding = None\<rparr>) =
      Some (Inr \<lparr>rr_VaultText = w', rr_Attestation = Some jws\<rparr>, demo_leased) \<and>
    VerifyAttestation demo_lib demo_leased (Some demo_attesting_service) (Some background) 100 jws w w' None =
      Some ((claims, None), h2) \<and> SourceProfileID claims = ''dev''"
proof -
  have p: "hd demo_profiles \<in> set (profiles demo_cfg)" "last demo_profiles \<in> set (profiles demo_cfg)"
    "ID (public (hd demo_profiles)) = ''dev''" "ID (public (last demo_profiles)) = ''prod''"
    by (simp_all add: demo_cfg_def demo_profiles_def)
  note ok = deployed_profile(1) [OF demo_deployed p(1)]
  obtain w where w: "pe_Encrypt (profileExecutor demo_crypto (\<lambda>_. demo_random) (hd demo_profiles)) background 0 ''x'' = Inr w"
    using vx.seal_total [OF ok, of background 0 "''x''"] by auto
  have v: "utf8_valid ''x''" "length ''x'' \<le> MaxPlaintextBytes" by (simp_all add: utf8_valid_ascii MaxPlaintextBytes_def)
  have f: "utf8_valid w" "length w \<le> MaxVaultTextBytes" "CanonicalEnvelope w = Inr w"
    using vx.seal_form [OF ok, of background 0 "''x''" w] w v(2) by auto
  have o: "live_at ec u \<Longrightarrow> pe_Decrypt (profileExecutor demo_crypto (\<lambda>_. demo_random) (hd demo_profiles)) ec u w = Inr ''x''" for ec u
    using vx.open_seal [OF ok, of background 0 "''x''" w ec u] w by simp
  have k: "mg_current demo_manager = Some demo_ring" "\<not> mg_closed demo_manager"
    "sn_keys demo_ring (sn_active demo_ring) = Some \<lparr>ke_id = ''k1'', ke_state = StateActive, ke_publicKey = demo_pub, ke_seed = Some demo_seed\<rparr>"
    by (simp_all add: demo_manager_def demo_ring_def)
  have y: "tokens (admissions demo_leased 1) < tokens_cap (admissions demo_leased 1)" "leaseFromContext (Some background) = None"
    by (simp_all add: demo_leased_def lease_Context_def TryAcquire_def demo_heap_def Let_def leaseFromContext_def
        leaseBindingFromContext_def background_def same_binding_def)
  have l: "kl_proof demo_keyring_lib = demo_lib" by (simp add: demo_keyring_lib_def)
  from attested_rotation_verifies [OF demo_attesting_deployed demo_attesting p(1,2) demo_issued demo_calm anonymous_entitled f o v
      demo_timestamp _ _ k(2) _ k(1,3,1,3) refl y(1) calm_background y(2), where binding = None and expected = None
        and t = 0 and t' = 100 and delivered = "\<lambda>_. False", unfolded p(3,4) l]
  obtain w' jws h2 where "RotateResult demo_lib ''2024-01-02T03:04:05.25Z'' (\<lambda>_. False) demo_leased (Some demo_attesting_service) (Some demo_ctx) 0
      Anonymous ''dev'' ''prod'' w (Some \<lparr>ar_Binding = None\<rparr>) =
      Some (Inr \<lparr>rr_VaultText = w', rr_Attestation = Some jws\<rparr>, demo_leased)"
    "VerifyAttestation demo_lib demo_leased (Some demo_attesting_service) (Some background) 100 jws w w' None =
      Some ((rotation_claims demo_lib (mg_issuer demo_manager) ''2024-01-02T03:04:05.25Z'' ''dev'' ''prod'' None w w', None), h2)"
    by auto
  then show ?thesis by (intro exI conjI) (assumption, assumption, simp add: rotation_claims_def)
qed

end
